(* ===== verification/Prelude.thy ===== *)
theory Prelude
  imports Main
begin

text \<open>
  Shared vocabulary of the development: the decimal rendering the sources obtain from the
  formatted-print functions of Go, the lemma collections the component proofs extend, and a
  few facts about lists and options used by several components.
\<close>

section \<open>Lemma collections\<close>

named_theorems durable_simps \<open>equations that read the durable state after an operation\<close>
named_theorems frame_simps \<open>fields an operation does not touch\<close>

section \<open>Types shared by the components\<close>

text \<open>
  Instants and durations are integers (nanoseconds, as Go's time values); Postgres
  timestamps and intervals are read on the same scale.
\<close>

type_synonym instant = int
type_synonym duration = int

text \<open>The UTF-8 bytes of the two symbols the rendered ticket lines contain.\<close>

definition em_dash :: string where
  "em_dash = [CHR 0xE2, CHR 0x80, CHR 0x94]"

definition right_arrow :: string where
  "right_arrow = [CHR 0xE2, CHR 0x86, CHR 0x92]"

section \<open>Decimal rendering (the verb d of Go's Sprintf)\<close>

fun nat_str :: "nat \<Rightarrow> string" where
  "nat_str n =
     (if n < 10 then [char_of (48 + n)] else nat_str (n div 10) @ [char_of (48 + n mod 10)])"

declare nat_str.simps [simp del]

definition int_str :: "int \<Rightarrow> string" where
  "int_str i = (if i < 0 then CHR ''-'' # nat_str (nat (- i)) else nat_str (nat i))"

lemma digit_char_eq: "a < 10 \<Longrightarrow> b < 10 \<Longrightarrow> (char_of (48 + a) = (char_of (48 + b) :: char)) = (a = (b::nat))"
  by (auto simp: char_of_eq_iff take_bit_eq_mod)

lemma digit_char_not_minus: "a < (10::nat) \<Longrightarrow> char_of (48 + a) \<noteq> CHR ''-''"
  by (auto simp: char_of_eq_iff take_bit_eq_mod)

lemma nat_str_not_Nil [simp]: "nat_str n \<noteq> []"
  by (subst nat_str.simps) simp

lemma Nil_not_nat_str [simp]: "[] \<noteq> nat_str n"
  using nat_str_not_Nil [of n] by metis

lemma nat_str_small: "nat_str 0 = ''0''" "nat_str (Suc 0) = ''1''"
  by code_simp+

lemma nat_str_inject: "nat_str m = nat_str n \<Longrightarrow> m = n"
proof (induction m arbitrary: n rule: nat_str.induct)
  case (1 m)
  show ?case
  proof (cases "m < 10")
    case True
    with "1.prems" show ?thesis
      by (auto simp: nat_str.simps [of m] nat_str.simps [of n] digit_char_eq split: if_splits)
  next
    case False
    show ?thesis
    proof (cases "n < 10")
      case True
      with False "1.prems" show ?thesis
        by (auto simp: nat_str.simps [of m] nat_str.simps [of n])
    next
      case n: False
      have "nat_str (m div 10) @ [char_of (48 + m mod 10)]
          = nat_str (n div 10) @ [char_of (48 + n mod 10)]"
        using "1.prems" False n by (metis nat_str.simps)
      then have "nat_str (m div 10) = nat_str (n div 10)" and d: "m mod 10 = n mod 10"
        by (auto simp: digit_char_eq)
      then have "m div 10 = n div 10"
        using "1.IH" False by blast
      with d show ?thesis
        by (metis div_mult_mod_eq)
    qed
  qed
qed

lemma nat_str_hd: "hd (nat_str n) \<noteq> CHR ''-''"
proof (induction n rule: nat_str.induct)
  case (1 n)
  then show ?case
    by (subst nat_str.simps) (auto simp: digit_char_not_minus)
qed

lemma int_str_inject: "int_str i = int_str j \<Longrightarrow> i = j"
proof -
  assume eq: "int_str i = int_str j"
  have "i < 0 \<longleftrightarrow> j < 0"
    using eq nat_str_hd [of "nat i"] nat_str_hd [of "nat j"]
    by (auto simp: int_str_def split: if_splits) (metis list.sel(1))+
  with eq show "i = j"
    by (auto simp: int_str_def dest: nat_str_inject split: if_splits)
qed

section \<open>Lists\<close>

lemma distinct_snoc_iff: "distinct (xs @ [x]) \<longleftrightarrow> distinct xs \<and> x \<notin> set xs"
  by auto

lemma distinct_length_le_card:
  assumes "distinct xs" and "set xs \<subseteq> A" and "finite A"
  shows "length xs \<le> card A"
  using assms by (metis card_mono distinct_card)

lemma count_list_distinct: "distinct xs \<Longrightarrow> x \<in> set xs \<Longrightarrow> count_list xs x = 1"
  by (induction xs) auto

end
