(* ===== verification/Reconcile_Machine.thy ===== *)
theory Reconcile_Machine
  imports Prelude
begin

text \<open>
  The crash-safe Run reconcile state machine (pkg/reconcile/machine.go, outcome.go): the
  durable step vocabulary and its classification, the projection on the coarse phase, the
  lifecycle events of a transition, one phase of work and the drive loop. The durable store
  and the outside world are the source's two interfaces: records of operations the machine is
  passed, so that one definition of the loop serves every binding of them.
\<close>

section \<open>Phases and steps\<close>

datatype Phase =
  PhasePending | PhaseClaiming | PhaseRunning | PhasePaused | PhaseCanceling
| PhaseSucceeded | PhaseFailed | PhaseCancelled | PhaseNone

text \<open>
  \<open>Step\<close> is a string type with named constants; \<open>StepOther\<close> stands for every string that
  is not one of them (the empty string among them, which the options use for "no step" and the
  Postgres binding returns for a failed read).
\<close>

datatype Step =
  StepPending | StepClaimingSandbox | StepDispatching | StepRunning | StepCollecting
| StepSucceeded | StepFailed | StepCancelled | StepCancelling | StepPaused
| StepPausedRateLimited | StepPausedCredentialExpired | StepPausedCredentialRotated
| StepPausedEndpointUnreachable | StepPausedCredentialRequired | StepOther string

abbreviation noStep :: Step where "noStep \<equiv> StepOther []"

fun step_name :: "Step \<Rightarrow> string" where
  "step_name StepPending = ''pending''"
| "step_name StepClaimingSandbox = ''claiming_sandbox''"
| "step_name StepDispatching = ''dispatching''"
| "step_name StepRunning = ''running''"
| "step_name StepCollecting = ''collecting''"
| "step_name StepSucceeded = ''succeeded''"
| "step_name StepFailed = ''failed''"
| "step_name StepCancelled = ''cancelled''"
| "step_name StepCancelling = ''cancelling''"
| "step_name StepPaused = ''paused''"
| "step_name StepPausedRateLimited = ''paused(rate_limited)''"
| "step_name StepPausedCredentialExpired = ''paused(credential_expired)''"
| "step_name StepPausedCredentialRotated = ''paused(credential_rotated)''"
| "step_name StepPausedEndpointUnreachable = ''paused(endpoint_unreachable)''"
| "step_name StepPausedCredentialRequired = ''paused(credential_required)''"
| "step_name (StepOther n) = n"

definition named_steps :: "Step list" where
  "named_steps =
     [StepPending, StepClaimingSandbox, StepDispatching, StepRunning, StepCollecting,
      StepSucceeded, StepFailed, StepCancelled, StepCancelling, StepPaused,
      StepPausedRateLimited, StepPausedCredentialExpired, StepPausedCredentialRotated,
      StepPausedEndpointUnreachable, StepPausedCredentialRequired]"

definition step_of :: "string \<Rightarrow> Step" where
  "step_of n = (case find (\<lambda>s. step_name s = n) named_steps of None \<Rightarrow> StepOther n | Some s \<Rightarrow> s)"

fun CredentialPauseSteps :: "Step \<Rightarrow> bool" where
  "CredentialPauseSteps StepPausedRateLimited = True"
| "CredentialPauseSteps StepPausedCredentialExpired = True"
| "CredentialPauseSteps StepPausedCredentialRotated = True"
| "CredentialPauseSteps StepPausedEndpointUnreachable = True"
| "CredentialPauseSteps StepPausedCredentialRequired = True"
| "CredentialPauseSteps _ = False"

definition happyPath :: "Step list" where
  "happyPath = [StepPending, StepClaimingSandbox, StepDispatching,
                StepRunning, StepCollecting, StepSucceeded]"

fun terminalSteps :: "Step \<Rightarrow> bool" where
  "terminalSteps StepSucceeded = True"
| "terminalSteps StepFailed = True"
| "terminalSteps StepCancelled = True"
| "terminalSteps _ = False"

fun resumableSteps :: "Step \<Rightarrow> bool" where
  "resumableSteps StepPending = True"
| "resumableSteps StepClaimingSandbox = True"
| "resumableSteps StepDispatching = True"
| "resumableSteps StepRunning = True"
| "resumableSteps StepCollecting = True"
| "resumableSteps StepCancelling = True"
| "resumableSteps StepPaused = True"
| "resumableSteps StepPausedRateLimited = True"
| "resumableSteps StepPausedCredentialExpired = True"
| "resumableSteps StepPausedCredentialRotated = True"
| "resumableSteps StepPausedEndpointUnreachable = True"
| "resumableSteps StepPausedCredentialRequired = True"
| "resumableSteps _ = False"

datatype Classification = ClassTerminal | ClassResumable | ClassUnknown

definition Classify :: "Step \<Rightarrow> Classification" where
  "Classify s = (if terminalSteps s then ClassTerminal
                 else if resumableSteps s then ClassResumable else ClassUnknown)"

definition IsTerminal :: "Step \<Rightarrow> bool" where
  "IsTerminal s = terminalSteps s"

section \<open>Lifecycle events and the phase projection\<close>

record LifecycleEvent =
  Entity :: string
  EventType :: string

definition LifecycleEventsFor :: "Step \<Rightarrow> Step \<Rightarrow> LifecycleEvent list" where
  "LifecycleEventsFor from to =
     (if from = StepPending \<and> to = StepClaimingSandbox then
        [\<lparr>Entity = ''work_item'', EventType = ''assigned''\<rparr>,
         \<lparr>Entity = ''run'', EventType = ''scheduled''\<rparr>]
      else if from = StepClaimingSandbox \<and> to = StepDispatching then
        [\<lparr>Entity = ''run'', EventType = ''sandbox_bound''\<rparr>]
      else if from = StepDispatching \<and> to = StepRunning then
        [\<lparr>Entity = ''run'', EventType = ''started''\<rparr>]
      else if from = StepCollecting \<and> to = StepSucceeded then
        [\<lparr>Entity = ''run'', EventType = ''ended''\<rparr>]
      else [])"

fun PhaseOf :: "Step \<Rightarrow> Phase" where
  "PhaseOf StepPending = PhasePending"
| "PhaseOf StepClaimingSandbox = PhaseClaiming"
| "PhaseOf StepDispatching = PhaseClaiming"
| "PhaseOf StepRunning = PhaseRunning"
| "PhaseOf StepCollecting = PhaseRunning"
| "PhaseOf StepPaused = PhasePaused"
| "PhaseOf StepPausedRateLimited = PhasePaused"
| "PhaseOf StepPausedCredentialExpired = PhasePaused"
| "PhaseOf StepPausedCredentialRotated = PhasePaused"
| "PhaseOf StepPausedEndpointUnreachable = PhasePaused"
| "PhaseOf StepPausedCredentialRequired = PhasePaused"
| "PhaseOf StepCancelling = PhaseCanceling"
| "PhaseOf StepSucceeded = PhaseSucceeded"
| "PhaseOf StepFailed = PhaseFailed"
| "PhaseOf StepCancelled = PhaseCancelled"
| "PhaseOf (StepOther _) = PhaseNone"

section \<open>The two seams: durable store and effects\<close>

record 'st Store =
  Store_Step :: "'st \<Rightarrow> Step \<times> 'st"
  Store_Fence :: "'st \<Rightarrow> int \<times> 'st"
  Store_Advance :: "Step \<Rightarrow> Step \<Rightarrow> int option \<Rightarrow> 'st \<Rightarrow> bool \<times> 'st"
  Store_Reclaim :: "int \<Rightarrow> 'st \<Rightarrow> bool \<times> 'st"
  Store_SetStep :: "Step \<Rightarrow> 'st \<Rightarrow> 'st"
  Store_AuditRows :: "'st \<Rightarrow> nat \<times> 'st"
  Store_OutboxRows :: "'st \<Rightarrow> nat \<times> 'st"

text \<open>
  \<open>Effects_Err\<close> is the optional \<open>Err() error\<close> method the machine probes for by a type
  assertion: \<open>None\<close> when the binding has no such method.
\<close>

record 'w Effects =
  Effects_BindSandbox :: "string \<Rightarrow> bool \<Rightarrow> 'w \<Rightarrow> 'w"
  Effects_Dispatch :: "string \<Rightarrow> bool \<Rightarrow> 'w \<Rightarrow> 'w"
  Effects_Collect :: "string \<Rightarrow> string \<Rightarrow> bool \<Rightarrow> 'w \<Rightarrow> 'w"
  Effects_Terminal :: "Step \<Rightarrow> 'w \<Rightarrow> 'w"
  Effects_Err :: "('w \<Rightarrow> string option) option"

definition RunID :: string where
  "RunID = ''run-1''"

record Options =
  Durable :: bool
  Fence :: int
  CrashBefore :: Step
  CrashAfterEffect :: Step
  Lap :: "int option"
  FailAt :: Step
  MaxPasses :: int

datatype ReconcileError = ErrCrash Step | ErrEffect string

section \<open>One phase and the drive loop\<close>

definition dispatchTaskID :: "Options \<Rightarrow> string" where
  "dispatchTaskID opt =
     (if \<not> Durable opt then RunID @ ''-naive''
      else case Lap opt of None \<Rightarrow> RunID | Some l \<Rightarrow> RunID @ ''#lap'' @ int_str l)"

fun index_from :: "int \<Rightarrow> Step list \<Rightarrow> Step \<Rightarrow> int" where
  "index_from i [] step = -1"
| "index_from i (s # ss) step = (if s = step then i else index_from (i + 1) ss step)"

definition indexOf :: "Step \<Rightarrow> int" where
  "indexOf step = index_from 0 happyPath step"

text \<open>
  The body of \<open>runPhase\<close> in its three parts, so that interleavings of two controllers can be
  stated between them: the effect of the step, the error probe, and the guarded advance.
\<close>

definition phaseEffect :: "'w Effects \<Rightarrow> Options \<Rightarrow> Step \<Rightarrow> 'w \<Rightarrow> 'w" where
  "phaseEffect E opt step w =
     (if step = StepClaimingSandbox then Effects_BindSandbox E RunID (Durable opt) w
      else if step = StepDispatching then Effects_Dispatch E (dispatchTaskID opt) (Durable opt) w
      else if step = StepCollecting then
        Effects_Collect E (RunID @ ''/patch'') ''diff-bytes'' (Durable opt) w
      else w)"

definition effectErr :: "'w Effects \<Rightarrow> 'w \<Rightarrow> string option" where
  "effectErr E w = (case Effects_Err E of None \<Rightarrow> None | Some err \<Rightarrow> err w)"

definition nextStep :: "Options \<Rightarrow> Step \<Rightarrow> Step option" where
  "nextStep opt step =
     (let idx = indexOf step in
      if idx < 0 \<or> idx + 1 \<ge> int (length happyPath) then None
      else if FailAt opt \<noteq> noStep \<and> step = FailAt opt then Some StepFailed
      else Some (happyPath ! nat (idx + 1)))"

definition fenceArg :: "Options \<Rightarrow> int option" where
  "fenceArg opt = (if Durable opt then Some (Fence opt) else None)"

definition phaseCommit :: "'w Effects \<Rightarrow> 'st Store \<Rightarrow> Options \<Rightarrow> Step \<Rightarrow> 'w \<Rightarrow> 'st \<Rightarrow> 'w \<times> 'st" where
  "phaseCommit E S opt step w s =
     (case nextStep opt step of
        None \<Rightarrow> (w, s)
      | Some next \<Rightarrow>
          (case Store_Advance S step next (fenceArg opt) s of
             (ok, s') \<Rightarrow> (if ok \<and> IsTerminal next then Effects_Terminal E next w else w, s')))"

definition runPhase ::
  "'w Effects \<Rightarrow> 'st Store \<Rightarrow> Options \<Rightarrow> Step \<Rightarrow> 'w \<Rightarrow> 'st \<Rightarrow> ReconcileError option \<times> 'w \<times> 'st" where
  "runPhase E S opt step w s =
     (let w1 = phaseEffect E opt step w in
      case effectErr E w1 of
        Some e \<Rightarrow> (Some (ErrEffect e), w1, s)
      | None \<Rightarrow>
          (if CrashAfterEffect opt \<noteq> noStep \<and> step = CrashAfterEffect opt
           then (Some (ErrCrash step), w1, s)
           else case phaseCommit E S opt step w1 s of (w2, s2) \<Rightarrow> (None, w2, s2)))"

text \<open>
  The loop may run forever (an unlimited drive whose guard is lost makes no progress), so it
  is a partial function: \<open>None\<close> is "does not return".
\<close>

partial_function (option) Reconcile_loop ::
  "'w Effects \<Rightarrow> 'st Store \<Rightarrow> Options \<Rightarrow> int \<Rightarrow> 'w \<Rightarrow> 'st \<Rightarrow> (ReconcileError option \<times> 'w \<times> 'st) option"
where
  "Reconcile_loop E S opt passes w s =
     (case Store_Step S s of (st0, s0) \<Rightarrow>
       if IsTerminal st0 then Some (None, w, s0)
       else if MaxPasses opt > 0 \<and> passes \<ge> MaxPasses opt then Some (None, w, s0)
       else (case Store_Step S s0 of (step, s1) \<Rightarrow>
         if CrashBefore opt \<noteq> noStep \<and> step = CrashBefore opt
         then Some (Some (ErrCrash step), w, s1)
         else (case runPhase E S opt step w s1 of (err, w2, s2) \<Rightarrow>
           (case err of
              Some e \<Rightarrow> Some (Some e, w2, s2)
            | None \<Rightarrow> Reconcile_loop E S opt (passes + 1) w2 s2))))"

definition Reconcile ::
  "'w Effects \<Rightarrow> 'st Store \<Rightarrow> Options \<Rightarrow> 'w \<Rightarrow> 'st \<Rightarrow> (ReconcileError option \<times> 'w \<times> 'st) option" where
  "Reconcile E S opt w s = Reconcile_loop E S opt 0 w s"

section \<open>The observability outcome of a drive\<close>

datatype Outcome = OutcomeUnknown | OutcomeSuccess | OutcomeFailed

definition OutcomeFrom :: "Step \<Rightarrow> 'e option \<Rightarrow> Outcome" where
  "OutcomeFrom step err =
     (if err \<noteq> None then OutcomeFailed
      else case step of
        StepSucceeded \<Rightarrow> OutcomeSuccess
      | StepCancelled \<Rightarrow> OutcomeSuccess
      | StepFailed \<Rightarrow> OutcomeFailed
      | _ \<Rightarrow> OutcomeUnknown)"

definition Outcome_IsError :: "Outcome \<Rightarrow> bool" where
  "Outcome_IsError o' = (o' = OutcomeFailed)"

fun Outcome_String :: "Outcome \<Rightarrow> string" where
  "Outcome_String OutcomeSuccess = ''success''"
| "Outcome_String OutcomeFailed = ''error''"
| "Outcome_String OutcomeUnknown = ''unknown''"

section \<open>Facts about the vocabulary\<close>

lemma IsTerminal_simps [simp]:
  "IsTerminal StepSucceeded" "IsTerminal StepFailed" "IsTerminal StepCancelled"
  "\<not> IsTerminal StepPending" "\<not> IsTerminal StepClaimingSandbox" "\<not> IsTerminal StepDispatching"
  "\<not> IsTerminal StepRunning" "\<not> IsTerminal StepCollecting" "\<not> IsTerminal StepCancelling"
  "\<not> IsTerminal (StepOther n)"
  by (simp_all add: IsTerminal_def)

lemma nextStep_cases:
  "nextStep opt step =
    (case step of
       StepPending \<Rightarrow> Some (if FailAt opt = step then StepFailed else StepClaimingSandbox)
     | StepClaimingSandbox \<Rightarrow> Some (if FailAt opt = step then StepFailed else StepDispatching)
     | StepDispatching \<Rightarrow> Some (if FailAt opt = step then StepFailed else StepRunning)
     | StepRunning \<Rightarrow> Some (if FailAt opt = step then StepFailed else StepCollecting)
     | StepCollecting \<Rightarrow> Some (if FailAt opt = step then StepFailed else StepSucceeded)
     | _ \<Rightarrow> None)"
  by (cases step) (auto simp: nextStep_def indexOf_def happyPath_def Let_def)

lemma nextStep_not_terminal: "nextStep opt step = Some n \<Longrightarrow> \<not> IsTerminal step"
  by (cases step) (auto simp: nextStep_cases)

lemma nextStep_progress: "nextStep opt step = Some n \<Longrightarrow> n \<noteq> step"
  by (cases step) (auto simp: nextStep_cases split: if_splits)

lemma step_of_name:
  assumes "s \<in> set named_steps \<or> (\<exists>n. s = StepOther n \<and> n \<notin> step_name ` set named_steps)"
  shows "step_of (step_name s) = s"
  using assms by (cases s) (auto simp: step_of_def named_steps_def)

lemma named_steps_complete: "s \<in> set named_steps \<or> (\<exists>n. s = StepOther n)"
  by (cases s) (auto simp: named_steps_def)

section \<open>Invariants of a drive\<close>

text \<open>
  A relation between the states before and after that is reflexive, transitive, and kept by a
  step read and by one phase holds across a whole drive, whatever the options.
\<close>

lemma Reconcile_loop_rel:
  assumes ret: "Reconcile_loop E S opt passes w s = Some (e, w', s')"
    and rfl: "\<And>w s. R w s w s"
    and trn: "\<And>w s w1 s1 w2 s2. R w s w1 s1 \<Longrightarrow> R w1 s1 w2 s2 \<Longrightarrow> R w s w2 s2"
    and rd: "\<And>w s st s1. Store_Step S s = (st, s1) \<Longrightarrow> R w s w s1"
    and ph: "\<And>st s00 step s0 w s err w1 s1. Store_Step S s00 = (st, s0) \<Longrightarrow> \<not> IsTerminal st \<Longrightarrow>
      Store_Step S s0 = (step, s) \<Longrightarrow> runPhase E S opt step w s = (err, w1, s1) \<Longrightarrow> R w s w1 s1"
  shows "R w s w' s'"
proof -
  let ?P = "\<lambda>(E'::'a Effects) (S'::'b Store) opt' (p::int) w s r.
    E' = E \<longrightarrow> S' = S \<longrightarrow> opt' = opt \<longrightarrow> (case r of (e, w', s') \<Rightarrow> R w s w' s')"
  have "?P E S opt passes w s (e, w', s')"
  proof (rule Reconcile_loop.raw_induct [where P = ?P, OF _ ret], goal_cases)
    case (1 rec E' S' opt' p w s r)
    note IH = 1(1) and eq = 1(2)
    show ?case
    proof (intro impI)
      assume [simp]: "E' = E" "S' = S" "opt' = opt"
      obtain st0 s0 where r0: "Store_Step S s = (st0, s0)" by fastforce
      obtain step s1 where r1: "Store_Step S s0 = (step, s1)" by fastforce
      obtain er w2 s2 where rp: "runPhase E S opt step w s1 = (er, w2, s2)" by (metis prod_cases3)
      have a: "R w s w s0" and b: "R w s0 w s1" and c: "\<not> IsTerminal st0 \<Longrightarrow> R w s1 w2 s2"
        using rd [OF r0] rd [OF r1] ph [OF r0 _ r1 rp] .
      have abc: "R w s w s1" "\<not> IsTerminal st0 \<Longrightarrow> R w s w2 s2" using trn a b c by blast+
      show "case r of (e, w', s') \<Rightarrow> R w s w' s'"
      proof (cases "er = None \<and> \<not> IsTerminal st0 \<and> \<not> (MaxPasses opt > 0 \<and> p \<ge> MaxPasses opt)
          \<and> \<not> (CrashBefore opt \<noteq> noStep \<and> step = CrashBefore opt)")
        case True
        then have "rec E S opt (p + 1) w2 s2 = Some r"
          using eq r0 r1 rp by (auto split: if_splits)
        then have "case r of (e, w', s') \<Rightarrow> R w2 s2 w' s'"
          using IH by fastforce
        moreover have "R w s w2 s2" using True abc by blast
        ultimately show ?thesis by (auto intro: trn)
      next
        case False
        then show ?thesis using eq r0 r1 rp a abc by (auto split: if_splits option.splits)
      qed
    qed
  qed
  then show ?thesis by simp
qed

text \<open>With a pass bound the loop returns, whatever the store and the effects do.\<close>

lemma Reconcile_loop_bounded:
  assumes "MaxPasses opt > 0"
  shows "Reconcile_loop E S opt passes w s \<noteq> None"
proof (induction "nat (MaxPasses opt - passes)" arbitrary: passes w s rule: less_induct)
  case less
  obtain st0 s0 where r0: "Store_Step S s = (st0, s0)" by fastforce
  obtain step s1 where r1: "Store_Step S s0 = (step, s1)" by fastforce
  obtain er w2 s2 where rp: "runPhase E S opt step w s1 = (er, w2, s2)" by (metis prod_cases3)
  have rec: "passes < MaxPasses opt \<Longrightarrow> Reconcile_loop E S opt (passes + 1) w2 s2 \<noteq> None"
    by (rule less) simp
  show ?case
    using rec assms
    by (subst Reconcile_loop.simps) (auto simp: r0 r1 rp split: option.splits)
qed

end
