(* ===== verification/Reconcile_Store.thy ===== *)
theory Reconcile_Store
  imports Reconcile_Machine
begin

text \<open>
  The contract the machine relies on from a durable store (the interface \<open>Store\<close> of
  pkg/reconcile/machine.go), as a locale: what a step read, a guarded advance and a reclaim
  may do to the durable step, the fence and the co-committed audit and outbox counts. The
  consequences for whole drives are proved here once, for every binding of the store.
\<close>

section \<open>Committed transitions\<close>

text \<open>The transitions a drive with given options may commit.\<close>

definition advance_edge :: "Options \<Rightarrow> Step \<Rightarrow> Step \<Rightarrow> bool" where
  "advance_edge opt a b \<longleftrightarrow> nextStep opt a = Some b"

inductive advances :: "Options \<Rightarrow> Step \<Rightarrow> nat \<Rightarrow> Step \<Rightarrow> bool" for opt :: Options where
  advances_refl: "advances opt a 0 a"
| advances_step: "advances opt a n b \<Longrightarrow> advance_edge opt b c \<Longrightarrow> advances opt a (Suc n) c"

inductive_simps advances_0 [simp]: "advances opt a 0 b"
inductive_cases advances_SucE: "advances opt a (Suc n) b"

lemma advances_1: "advances opt a (Suc 0) b \<longleftrightarrow> advance_edge opt a b"
  by (auto elim: advances_SucE intro: advances.intros)

lemma advances_trans: "advances opt b m c \<Longrightarrow> advances opt a n b \<Longrightarrow> advances opt a (n + m) c"
proof (induction rule: advances.induct)
  case (advances_refl b)
  then show ?case by simp
next
  case (advances_step b m c d)
  then have "advances opt a (Suc (n + m)) d"
    by (blast intro: advances.advances_step)
  then show ?case by simp
qed

lemma advance_edge_no_self: "\<not> advance_edge opt a a"
  by (auto simp: advance_edge_def dest: nextStep_progress)

lemma advances_terminal: "advances opt a n b \<Longrightarrow> IsTerminal a \<Longrightarrow> n = 0 \<and> b = a"
  by (induction rule: advances.induct) (auto simp: advance_edge_def dest: nextStep_not_terminal)

text \<open>The machine's steps strictly climb, so a drive commits at most five transitions.\<close>

fun step_rank :: "Step \<Rightarrow> nat" where
  "step_rank StepPending = 5"
| "step_rank StepClaimingSandbox = 4"
| "step_rank StepDispatching = 3"
| "step_rank StepRunning = 2"
| "step_rank StepCollecting = 1"
| "step_rank _ = 0"

lemma advance_edge_rank: "advance_edge opt a b \<Longrightarrow> step_rank b < step_rank a"
  by (cases a) (auto simp: advance_edge_def nextStep_cases split: if_splits)

lemma advances_rank: "advances opt a n b \<Longrightarrow> step_rank b + n \<le> step_rank a"
  by (induction rule: advances.induct) (auto dest: advance_edge_rank)

section \<open>The store contract\<close>

locale reconcile_store =
  fixes S :: "'st Store"
    and inv :: "'st \<Rightarrow> bool"
    and dstep :: "'st \<Rightarrow> Step"
    and dfence :: "'st \<Rightarrow> int"
    and daudit :: "'st \<Rightarrow> nat"
    and doutbox :: "'st \<Rightarrow> nat"
  assumes step_read: "inv s \<Longrightarrow> Store_Step S s = (st, s') \<Longrightarrow>
      (st = dstep s \<or> st = noStep) \<and> dstep s' = dstep s \<and> dfence s' = dfence s \<and>
      daudit s' = daudit s \<and> doutbox s' = doutbox s \<and> inv s'"
    and advance_commits: "inv s \<Longrightarrow> Store_Advance S a b f s = (True, s') \<Longrightarrow>
      dstep s = a \<and> (f = None \<or> f = Some (dfence s)) \<and> dstep s' = b \<and> dfence s' = dfence s \<and>
      daudit s' = Suc (daudit s) \<and> doutbox s' = Suc (doutbox s) \<and> inv s'"
    and advance_rejects: "inv s \<Longrightarrow> Store_Advance S a b f s = (False, s') \<Longrightarrow>
      dstep s' = dstep s \<and> dfence s' = dfence s \<and> daudit s' = daudit s \<and> doutbox s' = doutbox s \<and> inv s'"
    and reclaim_raises: "inv s \<Longrightarrow> Store_Reclaim S nf s = (ok, s') \<Longrightarrow>
      dstep s' = dstep s \<and> dfence s \<le> dfence s' \<and> inv s' \<and>
      (ok \<longrightarrow> dfence s < nf \<and> dfence s' = nf) \<and> (\<not> ok \<longrightarrow> dfence s' = dfence s)"
begin

definition committed :: "Options \<Rightarrow> 'st \<Rightarrow> 'st \<Rightarrow> bool" where
  "committed opt s s' \<longleftrightarrow>
     inv s' \<and> dfence s' = dfence s \<and>
     (\<exists>n. advances opt (dstep s) n (dstep s') \<and>
          daudit s' = daudit s + n \<and> doutbox s' = doutbox s + n \<and>
          (0 < n \<longrightarrow> fenceArg opt = None \<or> fenceArg opt = Some (dfence s)))"

lemma committed_same:
  "inv s' \<Longrightarrow> dstep s' = dstep s \<Longrightarrow> dfence s' = dfence s \<Longrightarrow> daudit s' = daudit s \<Longrightarrow>
    doutbox s' = doutbox s \<Longrightarrow> committed opt s s'"
  unfolding committed_def by (auto intro!: exI [of _ 0])

lemma committed_trans:
  assumes "committed opt s s1" and "committed opt s1 s2"
  shows "committed opt s s2"
proof -
  obtain n where n: "advances opt (dstep s) n (dstep s1)" "daudit s1 = daudit s + n"
      "doutbox s1 = doutbox s + n" "dfence s1 = dfence s"
      "0 < n \<longrightarrow> fenceArg opt = None \<or> fenceArg opt = Some (dfence s)"
    using assms(1) by (auto simp: committed_def)
  obtain m where m: "advances opt (dstep s1) m (dstep s2)" "daudit s2 = daudit s1 + m"
      "doutbox s2 = doutbox s1 + m" "dfence s2 = dfence s1" "inv s2"
      "0 < m \<longrightarrow> fenceArg opt = None \<or> fenceArg opt = Some (dfence s1)"
    using assms(2) by (auto simp: committed_def)
  have "advances opt (dstep s) (n + m) (dstep s2)"
    using m(1) n(1) by (rule advances_trans)
  then show ?thesis
    using n m unfolding committed_def by (intro conjI exI [of _ "n + m"]) auto
qed

lemma phaseCommit_committed:
  assumes "inv s" and "phaseCommit E S opt step w s = (w', s')"
  shows "committed opt s s'"
proof (cases "nextStep opt step")
  case None
  with assms show ?thesis by (simp add: phaseCommit_def committed_same)
next
  case (Some nx)
  obtain ok s1 where adv: "Store_Advance S step nx (fenceArg opt) s = (ok, s1)" by fastforce
  with assms(2) Some have s': "s' = s1" by (simp add: phaseCommit_def)
  show ?thesis
  proof (cases ok)
    case True
    then have "Store_Advance S step nx (fenceArg opt) s = (True, s1)" using adv by simp
    note c = advance_commits [OF assms(1) this]
    then have "advances opt (dstep s) 1 (dstep s1)"
      by (auto simp: advances_1 advance_edge_def Some)
    with c s' show ?thesis
      unfolding committed_def by (intro conjI exI [of _ 1]) auto
  next
    case False
    then have "Store_Advance S step nx (fenceArg opt) s = (False, s1)" using adv by simp
    from advance_rejects [OF assms(1) this] s' show ?thesis by (intro committed_same) auto
  qed
qed

lemma runPhase_committed:
  assumes "inv s" and "runPhase E S opt step w s = (e, w', s')"
  shows "committed opt s s'"
  using assms
  by (auto simp: runPhase_def Let_def committed_same dest: phaseCommit_committed
      split: option.splits if_splits prod.splits)

text \<open>
  A drive, crashed or not, only ever commits transitions of the machine, each with one audit
  and one outbox row, all under the fence it was given, and never moves the fence.
\<close>

lemma Reconcile_committed:
  assumes "inv s" and "Reconcile E S opt w s = Some (e, w', s')"
  shows "committed opt s s'"
proof -
  have "inv s \<longrightarrow> committed opt s s'"
  proof (rule Reconcile_loop_rel [where R = "\<lambda>w s w' s'. inv s \<longrightarrow> committed opt s s'"])
    show "Reconcile_loop E S opt 0 w s = Some (e, w', s')"
      using assms(2) by (simp add: Reconcile_def)
    fix w s st s1
    assume "Store_Step S s = (st, s1)"
    then show "inv s \<longrightarrow> committed opt s s1" using step_read by (intro impI committed_same) blast+
  next
    fix w :: 'w and s
    show "inv s \<longrightarrow> committed opt s s" by (simp add: committed_same)
  next
    fix w :: 'w and s w1 s1 w2 s2
    assume a: "inv s \<longrightarrow> committed opt s s1" "inv s1 \<longrightarrow> committed opt s1 s2"
    show "inv s \<longrightarrow> committed opt s s2"
    proof
      assume "inv s"
      with a(1) have c: "committed opt s s1" by blast
      then have "inv s1" by (simp add: committed_def)
      with a(2) c show "committed opt s s2" by (blast intro: committed_trans)
    qed
  qed (blast intro: runPhase_committed)
  with assms(1) show ?thesis by blast
qed

lemma zombie_drive:
  assumes "inv s" and "Reconcile E S opt w s = Some (e, w', s')" and "Durable opt" and "Fence opt \<noteq> dfence s"
  shows "dstep s' = dstep s \<and> dfence s' = dfence s \<and> daudit s' = daudit s \<and> doutbox s' = doutbox s"
proof -
  obtain n where "advances opt (dstep s) n (dstep s')" "daudit s' = daudit s + n"
      "doutbox s' = doutbox s + n" "dfence s' = dfence s"
      "0 < n \<longrightarrow> fenceArg opt = None \<or> fenceArg opt = Some (dfence s)"
    using Reconcile_committed [OF assms(1,2)] by (auto simp: committed_def)
  moreover have "fenceArg opt \<noteq> None \<and> fenceArg opt \<noteq> Some (dfence s)"
    using assms by (simp add: fenceArg_def)
  ultimately show ?thesis by (cases n) auto
qed

lemma terminal_absorbs:
  assumes "inv s" and "Reconcile E S opt w s = Some (e, w', s')" and "IsTerminal (dstep s)"
  shows "dstep s' = dstep s \<and> daudit s' = daudit s \<and> doutbox s' = doutbox s"
  using Reconcile_committed [OF assms(1,2)] assms(3) advances_terminal
  by (fastforce simp: committed_def)

lemma drive_rows:
  assumes "inv s" and "Reconcile E S opt w s = Some (e, w', s')"
  shows "daudit s' - daudit s = doutbox s' - doutbox s
    \<and> daudit s' - daudit s + step_rank (dstep s') \<le> step_rank (dstep s)"
  using Reconcile_committed [OF assms] by (auto simp: committed_def dest: advances_rank)

end

section \<open>Simulation between two stores\<close>

text \<open>
  When every operation of one store, run on a state, answers like the other store on its
  abstraction and lands on the abstraction of its result, a drive over the first store that
  returns is the drive over the second.
\<close>

definition store_simulates :: "('a \<Rightarrow> bool) \<Rightarrow> ('a \<Rightarrow> 'b) \<Rightarrow> 'a Store \<Rightarrow> 'b Store \<Rightarrow> bool" where
  "store_simulates I \<alpha> S T \<longleftrightarrow>
     (\<forall>s. I s \<longrightarrow>
       I (snd (Store_Step S s)) \<and> Store_Step T (\<alpha> s) = map_prod id \<alpha> (Store_Step S s) \<and>
       (\<forall>a b f. I (snd (Store_Advance S a b f s)) \<and>
          Store_Advance T a b f (\<alpha> s) = map_prod id \<alpha> (Store_Advance S a b f s)))"

lemma simulates_StepD:
  assumes "store_simulates I \<alpha> S T" and "I s"
  shows "I (snd (Store_Step S s))" and "Store_Step T (\<alpha> s) = map_prod id \<alpha> (Store_Step S s)"
  using assms by (auto simp: store_simulates_def)

lemma simulates_AdvanceD:
  assumes "store_simulates I \<alpha> S T" and "I s"
  shows "I (snd (Store_Advance S a b f s))" and "Store_Advance T a b f (\<alpha> s) = map_prod id \<alpha> (Store_Advance S a b f s)"
  using assms by (auto simp: store_simulates_def)

lemma simulates_phaseCommit:
  assumes "store_simulates I \<alpha> S T" and "I s"
  shows "I (snd (phaseCommit E S opt step w s)) \<and>
    phaseCommit E T opt step w (\<alpha> s) = map_prod id \<alpha> (phaseCommit E S opt step w s)"
proof (cases "nextStep opt step")
  case None
  then show ?thesis using assms(2) by (simp add: phaseCommit_def)
next
  case (Some nx)
  obtain ok s1 where a: "Store_Advance S step nx (fenceArg opt) s = (ok, s1)" by fastforce
  then have "I s1" "Store_Advance T step nx (fenceArg opt) (\<alpha> s) = (ok, \<alpha> s1)"
    using simulates_AdvanceD [OF assms, of step nx "fenceArg opt"] by simp_all
  then show ?thesis using Some a by (simp add: phaseCommit_def)
qed

lemma simulates_runPhase:
  assumes "store_simulates I \<alpha> S T" and "I s"
  shows "I (snd (snd (runPhase E S opt step w s))) \<and>
    runPhase E T opt step w (\<alpha> s) = map_prod id (map_prod id \<alpha>) (runPhase E S opt step w s)"
  using simulates_phaseCommit [OF assms, of E opt step "phaseEffect E opt step w"] assms(2)
  by (auto simp: runPhase_def Let_def split: option.splits prod.splits)

lemma simulates_drive:
  assumes sim: "store_simulates I \<alpha> S T" and "I s"
    and ret: "Reconcile_loop E S opt p w s = Some (e, w', s')"
  shows "Reconcile_loop E T opt p w (\<alpha> s) = Some (e, w', \<alpha> s')"
proof -
  let ?P = "\<lambda>(E'::'c Effects) (S'::'a Store) opt' (p::int) w s r. E' = E \<longrightarrow> S' = S \<longrightarrow> opt' = opt \<longrightarrow> I s \<longrightarrow>
    (case r of (e, w', s') \<Rightarrow> Reconcile_loop E T opt p w (\<alpha> s) = Some (e, w', \<alpha> s'))"
  have "?P E S opt p w s (e, w', s')"
  proof (rule Reconcile_loop.raw_induct [where P = ?P, OF _ ret], goal_cases)
    case (1 rec E' S' opt' p w s r)
    note IH = 1(1) and eq = 1(2)
    show ?case
    proof (intro impI)
      assume [simp]: "E' = E" "S' = S" "opt' = opt" and I: "I s"
      obtain st0 s0 where r0: "Store_Step S s = (st0, s0)" by fastforce
      have t0: "Store_Step T (\<alpha> s) = (st0, \<alpha> s0)" and I0: "I s0"
        using simulates_StepD [OF sim I] r0 by simp_all
      obtain step s1 where r1: "Store_Step S s0 = (step, s1)" by fastforce
      have t1: "Store_Step T (\<alpha> s0) = (step, \<alpha> s1)" and I1: "I s1"
        using simulates_StepD [OF sim I0] r1 by simp_all
      obtain er w2 s2 where rp: "runPhase E S opt step w s1 = (er, w2, s2)" by (metis prod_cases3)
      have tp: "runPhase E T opt step w (\<alpha> s1) = (er, w2, \<alpha> s2)" and I2: "I s2"
        using simulates_runPhase [OF sim I1, of E opt step w] rp by auto
      have step_eq: "rec E S opt (p + 1) w2 s2 = Some r \<Longrightarrow>
          (case r of (e, w', s') \<Rightarrow> Reconcile_loop E T opt (p + 1) w2 (\<alpha> s2) = Some (e, w', \<alpha> s'))"
        using IH I2 by fastforce
      show "case r of (e, w', s') \<Rightarrow> Reconcile_loop E T opt p w (\<alpha> s) = Some (e, w', \<alpha> s')"
        using eq step_eq
        by (subst Reconcile_loop.simps) (auto simp: r0 r1 rp t0 t1 tp split: if_splits option.splits prod.splits)
    qed
  qed
  then show ?thesis using \<open>I s\<close> by simp
qed

end
