(* ===== verification/Mem_Store.thy ===== *)
theory Mem_Store
  imports Reconcile_Store "HOL-Library.AList"
begin

text \<open>
  The in-memory binding of the two seams (pkg/reconcile/memstore.go): \<open>MemStore\<close>, the model
  of the durable step, fence and co-committed row counts, and \<open>World\<close>, the record of the
  external effects. \<open>MemStore\<close> discharges the store contract; the drives over both are total
  where the machine makes progress and are shown to spin where it does not.
\<close>

section \<open>MemStore\<close>

record MemStore =
  ms_step :: Step
  ms_fence :: int
  ms_auditN :: nat
  ms_outboxN :: nat

definition NewMemStore :: MemStore where
  "NewMemStore = \<lparr>ms_step = StepPending, ms_fence = 1, ms_auditN = 0, ms_outboxN = 0\<rparr>"

definition MemStore_SetStep :: "Step \<Rightarrow> MemStore \<Rightarrow> MemStore" where
  "MemStore_SetStep st m = m\<lparr>ms_step := st\<rparr>"

definition MemStore_Reclaim :: "int \<Rightarrow> MemStore \<Rightarrow> bool \<times> MemStore" where
  "MemStore_Reclaim newFence m =
     (if newFence > ms_fence m then (True, m\<lparr>ms_fence := newFence\<rparr>) else (False, m))"

definition MemStore_Advance :: "Step \<Rightarrow> Step \<Rightarrow> int option \<Rightarrow> MemStore \<Rightarrow> bool \<times> MemStore" where
  "MemStore_Advance expected nx fence m =
     (if ms_step m = expected \<and> (fence = None \<or> fence = Some (ms_fence m))
      then (True, m\<lparr>ms_step := nx, ms_auditN := ms_auditN m + 1, ms_outboxN := ms_outboxN m + 1\<rparr>)
      else (False, m))"

definition memStore :: "MemStore Store" where
  "memStore =
     \<lparr>Store_Step = (\<lambda>m. (ms_step m, m)),
      Store_Fence = (\<lambda>m. (ms_fence m, m)),
      Store_Advance = MemStore_Advance,
      Store_Reclaim = MemStore_Reclaim,
      Store_SetStep = MemStore_SetStep,
      Store_AuditRows = (\<lambda>m. (ms_auditN m, m)),
      Store_OutboxRows = (\<lambda>m. (ms_outboxN m, m))\<rparr>"

section \<open>World\<close>

record World =
  SandboxBinds :: "string list"
  AgentExecutions :: "string list"
  Artifacts :: "(string \<times> string) list"
  TerminalTransitions :: "Step list"

definition NewWorld :: World where
  "NewWorld = \<lparr>SandboxBinds = [], AgentExecutions = [], Artifacts = [], TerminalTransitions = []\<rparr>"

definition World_BindSandbox :: "string \<Rightarrow> bool \<Rightarrow> World \<Rightarrow> World" where
  "World_BindSandbox runID keyed w =
     (if keyed \<and> runID \<in> set (SandboxBinds w) then w
      else w\<lparr>SandboxBinds := SandboxBinds w @ [runID]\<rparr>)"

definition World_Dispatch :: "string \<Rightarrow> bool \<Rightarrow> World \<Rightarrow> World" where
  "World_Dispatch taskID dedup w =
     (if dedup then
        (if taskID \<in> set (AgentExecutions w) then w
         else w\<lparr>AgentExecutions := AgentExecutions w @ [taskID]\<rparr>)
      else w\<lparr>AgentExecutions := AgentExecutions w @
               [taskID @ ''-attempt-'' @ nat_str (length (AgentExecutions w))]\<rparr>)"

definition World_Collect :: "string \<Rightarrow> string \<Rightarrow> bool \<Rightarrow> World \<Rightarrow> World" where
  "World_Collect key content upsert w =
     (if upsert then w\<lparr>Artifacts := AList.update key content (Artifacts w)\<rparr>
      else w\<lparr>Artifacts :=
               AList.update (key @ ''#'' @ nat_str (length (Artifacts w))) content (Artifacts w)\<rparr>)"

definition World_Terminal :: "Step \<Rightarrow> World \<Rightarrow> World" where
  "World_Terminal st w = w\<lparr>TerminalTransitions := TerminalTransitions w @ [st]\<rparr>"

definition worldEffects :: "World Effects" where
  "worldEffects =
     \<lparr>Effects_BindSandbox = World_BindSandbox,
      Effects_Dispatch = World_Dispatch,
      Effects_Collect = World_Collect,
      Effects_Terminal = World_Terminal,
      Effects_Err = None\<rparr>"

section \<open>The store contract holds\<close>

lemmas MemStore_defs =
  memStore_def MemStore_Advance_def MemStore_Reclaim_def MemStore_SetStep_def NewMemStore_def

lemmas World_defs =
  World_BindSandbox_def World_Dispatch_def World_Collect_def World_Terminal_def
  NewWorld_def

interpretation mem: reconcile_store memStore "\<lambda>_. True" ms_step ms_fence ms_auditN ms_outboxN
  by unfold_locales (auto simp: MemStore_defs split: if_splits)

lemma memStore_Step [simp]: "Store_Step memStore m = (ms_step m, m)"
  by (simp add: memStore_def)

lemma memStore_Advance [simp]: "Store_Advance memStore = MemStore_Advance"
  by (simp add: memStore_def)

lemma worldEffects_sel [simp]:
  "Effects_BindSandbox worldEffects = World_BindSandbox"
  "Effects_Dispatch worldEffects = World_Dispatch"
  "Effects_Collect worldEffects = World_Collect"
  "Effects_Terminal worldEffects = World_Terminal"
  by (simp_all add: worldEffects_def)

lemma world_no_Err [simp]: "effectErr worldEffects w = None"
  by (simp add: effectErr_def worldEffects_def)

section \<open>One pass over the in-memory binding\<close>

definition crashFree :: "Options \<Rightarrow> bool" where
  "crashFree opt \<longleftrightarrow> CrashBefore opt = noStep \<and> CrashAfterEffect opt = noStep"

lemma mem_pass:
  assumes "crashFree opt" and "\<not> IsTerminal (ms_step m)"
    and "\<not> (MaxPasses opt > 0 \<and> passes \<ge> MaxPasses opt)"
  shows "Reconcile_loop worldEffects memStore opt passes w m =
    (case phaseCommit worldEffects memStore opt (ms_step m) (phaseEffect worldEffects opt (ms_step m) w) m
     of (w', m') \<Rightarrow> Reconcile_loop worldEffects memStore opt (passes + 1) w' m')"
  using assms
  by (subst Reconcile_loop.simps)
     (auto simp: crashFree_def runPhase_def Let_def split: prod.splits)

lemma mem_stop: "IsTerminal (ms_step m) \<Longrightarrow>
    Reconcile_loop E memStore opt passes w m = Some (None, w, m)"
  by (subst Reconcile_loop.simps) simp

text \<open>A healthy pass of a durable, current leader moves one step along the path.\<close>

lemma mem_pass_advance:
  assumes "crashFree opt" and "Durable opt" and "Fence opt = ms_fence m"
    and nx: "nextStep opt (ms_step m) = Some nx"
    and "\<not> (MaxPasses opt > 0 \<and> passes \<ge> MaxPasses opt)"
  shows "Reconcile_loop worldEffects memStore opt passes w m =
    Reconcile_loop worldEffects memStore opt (passes + 1)
      (let w1 = phaseEffect worldEffects opt (ms_step m) w
       in if IsTerminal nx then World_Terminal nx w1 else w1)
      (m\<lparr>ms_step := nx, ms_auditN := ms_auditN m + 1, ms_outboxN := ms_outboxN m + 1\<rparr>)"
  using assms nextStep_not_terminal [OF nx]
  by (subst mem_pass)
     (auto simp: phaseCommit_def fenceArg_def MemStore_Advance_def worldEffects_def Let_def)

text \<open>A pass that has no transition or loses its guard leaves step and store as they are.\<close>

definition stuck :: "Options \<Rightarrow> MemStore \<Rightarrow> bool" where
  "stuck opt m \<longleftrightarrow> \<not> IsTerminal (ms_step m) \<and>
     (nextStep opt (ms_step m) = None \<or> (Durable opt \<and> Fence opt \<noteq> ms_fence m))"

lemma stuck_commit:
  assumes "stuck opt m" shows "phaseCommit E memStore opt (ms_step m) w m = (w, m)"
  using assms
  by (auto simp: stuck_def phaseCommit_def fenceArg_def MemStore_Advance_def split: option.splits)

lemma stuck_diverges:
  assumes "crashFree opt" and "MaxPasses opt \<le> 0" and "stuck opt m"
  shows "Reconcile_loop worldEffects memStore opt passes w m = None"
proof (rule ccontr)
  let ?P = "\<lambda>(E'::World Effects) (S'::MemStore Store) opt' (p::int) (w'::World) m' (r::ReconcileError option \<times> World \<times> MemStore).
    \<not> (E' = worldEffects \<and> S' = memStore \<and> opt' = opt \<and> m' = m)"
  assume "Reconcile_loop worldEffects memStore opt passes w m \<noteq> None"
  then obtain r where ret: "Reconcile_loop worldEffects memStore opt passes w m = Some r" by blast
  have "?P worldEffects memStore opt passes w m r"
  proof (rule Reconcile_loop.raw_induct [where P = ?P, OF _ ret], goal_cases)
    case (1 rec E' S' opt' p w' m' r)
    show ?case
    proof
      assume eqs: "E' = worldEffects \<and> S' = memStore \<and> opt' = opt \<and> m' = m"
      let ?w1 = "phaseEffect worldEffects opt (ms_step m) w'"
      have "\<not> IsTerminal (ms_step m)" using assms by (simp add: stuck_def)
      then have "rec worldEffects memStore opt (p + 1) ?w1 m = Some r"
        using 1(2) eqs assms(1,2) stuck_commit [OF assms(3), of worldEffects ?w1]
        by (auto simp: crashFree_def runPhase_def Let_def)
      from 1(1) [OF this] show False by simp
    qed
  qed
  then show False by simp
qed

end
