(* ===== verification/Failover.thy ===== *)
theory Failover
  imports Mem_Store
begin

text \<open>
  Any number of controllers drive the same Run at once: leaders that crash at every window,
  zombies that outlived a fence-first reclaim, and competitors that share the current fence.
  A controller's pass is split at the points where another process can run: it reads the
  durable step, applies the step's effect, and then tries the guarded advance
  (the three parts of \<open>runPhase\<close> in pkg/reconcile/machine.go). Between any two of these the
  fence can be raised, a failed Run can be sent on a retry lap, and the controller can die.
\<close>

section \<open>The interleaved system\<close>

datatype pc = PIdle | PRead Options Step | PEffected Options Step

record failover =
  world :: World
  store :: MemStore
  laps :: "int option list"
  procs :: "nat \<Rightarrow> pc"

definition init_failover :: failover where
  "init_failover = \<lparr>world = NewWorld, store = NewMemStore, laps = [None], procs = (\<lambda>_. PIdle)\<rparr>"

text \<open>
  A drive is started with the fence and the lap of its leader's time (\<open>leader_options\<close>) and
  keeps its options for the whole of its loop, so a pass may read the step with options that
  have gone stale since: \<open>issued_options\<close> holds of the options of the current leader and of
  those of a zombie that loops on under a lower fence and any earlier lap. Every other option
  is free, and the step read may be terminal by the time it is read. \<open>advance_lost\<close> is a
  controller that dies after the advance committed and before it recorded the terminal
  transition; \<open>retry\<close> is the caller's re-entry of a failed Run: raise the fence, re-point the
  step, take a fresh lap.
\<close>

definition leader_options :: "failover \<Rightarrow> Options \<Rightarrow> bool" where
  "leader_options y opt \<longleftrightarrow> Durable opt \<and> Fence opt = ms_fence (store y) \<and> Lap opt = hd (laps y)"

definition issued_options :: "failover \<Rightarrow> Options \<Rightarrow> bool" where
  "issued_options y opt \<longleftrightarrow> leader_options y opt \<or>
     (Durable opt \<and> Fence opt < ms_fence (store y) \<and> Lap opt \<in> set (laps y))"

inductive fo_step :: "failover \<Rightarrow> failover \<Rightarrow> bool" where
  read: "procs y i = PIdle \<Longrightarrow> issued_options y opt \<Longrightarrow>
    fo_step y (y\<lparr>procs := (procs y)(i := PRead opt (ms_step (store y)))\<rparr>)"
| effect: "procs y i = PRead opt st \<Longrightarrow>
    fo_step y (y\<lparr>world := phaseEffect worldEffects opt st (world y),
                 procs := (procs y)(i := PEffected opt st)\<rparr>)"
| advance: "procs y i = PEffected opt st \<Longrightarrow>
    phaseCommit worldEffects memStore opt st (world y) (store y) = (w', m') \<Longrightarrow>
    fo_step y (y\<lparr>world := w', store := m', procs := (procs y)(i := PIdle)\<rparr>)"
| advance_lost: "procs y i = PEffected opt st \<Longrightarrow>
    phaseCommit worldEffects memStore opt st (world y) (store y) = (w', m') \<Longrightarrow>
    fo_step y (y\<lparr>store := m', procs := (procs y)(i := PIdle)\<rparr>)"
| crash: "fo_step y (y\<lparr>procs := (procs y)(i := PIdle)\<rparr>)"
| reclaim: "MemStore_Reclaim f (store y) = (ok, m') \<Longrightarrow> fo_step y (y\<lparr>store := m'\<rparr>)"
| retry: "ms_step (store y) = StepFailed \<Longrightarrow> MemStore_Reclaim f (store y) = (True, m') \<Longrightarrow>
    Some l \<notin> set (laps y) \<Longrightarrow>
    fo_step y (y\<lparr>store := MemStore_SetStep StepClaimingSandbox m', laps := Some l # laps y\<rparr>)"

inductive fo_reachable :: "failover \<Rightarrow> bool" where
  start: "fo_reachable init_failover"
| step: "fo_reachable y \<Longrightarrow> fo_step y z \<Longrightarrow> fo_reachable z"

section \<open>The invariant\<close>

definition lapTask :: "int option \<Rightarrow> string" where
  "lapTask l = (case l of None \<Rightarrow> RunID | Some n \<Rightarrow> RunID @ ''#lap'' @ int_str n)"

definition patch :: "(string \<times> string) list" where
  "patch = [(RunID @ ''/patch'', ''diff-bytes'')]"

text \<open>The effects a controller has behind it when it stands at a step.\<close>

definition effects_due :: "int option \<Rightarrow> Step \<Rightarrow> World \<Rightarrow> bool" where
  "effects_due l st w \<longleftrightarrow>
     (st \<in> {StepDispatching, StepRunning, StepCollecting, StepSucceeded} \<longrightarrow> SandboxBinds w = [RunID]) \<and>
     (st \<in> {StepRunning, StepCollecting, StepSucceeded} \<longrightarrow> lapTask l \<in> set (AgentExecutions w)) \<and>
     (st = StepSucceeded \<longrightarrow> Artifacts w = patch)"

definition effect_done :: "int option \<Rightarrow> Step \<Rightarrow> World \<Rightarrow> bool" where
  "effect_done l st w \<longleftrightarrow>
     (st = StepClaimingSandbox \<longrightarrow> SandboxBinds w = [RunID]) \<and>
     (st = StepDispatching \<longrightarrow> lapTask l \<in> set (AgentExecutions w)) \<and>
     (st = StepCollecting \<longrightarrow> Artifacts w = patch)"

definition world_inv :: "int option list \<Rightarrow> World \<Rightarrow> bool" where
  "world_inv ls w \<longleftrightarrow>
     SandboxBinds w \<in> {[], [RunID]} \<and>
     distinct (AgentExecutions w) \<and> set (AgentExecutions w) \<subseteq> lapTask ` set ls \<and>
     Artifacts w \<in> {[], patch}"

definition proc_inv :: "failover \<Rightarrow> pc \<Rightarrow> bool" where
  "proc_inv y p \<longleftrightarrow>
     (case p of
        PIdle \<Rightarrow> True
      | PRead opt st \<Rightarrow> Durable opt \<and> Fence opt \<le> ms_fence (store y) \<and>
          Lap opt \<in> set (laps y) \<and> (Fence opt = ms_fence (store y) \<longrightarrow> Lap opt = hd (laps y))
      | PEffected opt st \<Rightarrow> Durable opt \<and> Fence opt \<le> ms_fence (store y) \<and>
          Lap opt \<in> set (laps y) \<and> (Fence opt = ms_fence (store y) \<longrightarrow> Lap opt = hd (laps y)) \<and>
          effect_done (Lap opt) st (world y))"

definition fo_inv :: "failover \<Rightarrow> bool" where
  "fo_inv y \<longleftrightarrow>
     laps y \<noteq> [] \<and>
     ms_step (store y) \<in> set happyPath \<union> {StepFailed} \<and>
     ms_auditN (store y) = ms_outboxN (store y) \<and>
     world_inv (laps y) (world y) \<and>
     effects_due (hd (laps y)) (ms_step (store y)) (world y) \<and>
     length (TerminalTransitions (world y)) + (if IsTerminal (ms_step (store y)) then 0 else 1)
       \<le> length (laps y) \<and>
     (\<forall>i. proc_inv y (procs y i))"

lemma dispatchTaskID_lapTask: "Durable opt \<Longrightarrow> dispatchTaskID opt = lapTask (Lap opt)"
  by (simp add: dispatchTaskID_def lapTask_def)

lemma distinct_count_list: "distinct xs \<Longrightarrow> x \<in> set xs \<Longrightarrow> count_list xs x = 1"
  by (induction xs) auto

lemma lapTask_inject: "lapTask a = lapTask b \<longleftrightarrow> a = b"
  by (auto simp: lapTask_def dest: int_str_inject split: option.splits)

section \<open>What the effect and the advance do to the invariant\<close>

lemma phaseEffect_world_inv:
  assumes "world_inv ls w" and "Durable opt" and "Lap opt \<in> set ls"
  shows "world_inv ls (phaseEffect worldEffects opt st w)"
    and "effect_done (Lap opt) st (phaseEffect worldEffects opt st w)"
  using assms
  by (auto simp: world_inv_def effect_done_def phaseEffect_def World_defs patch_def
      dispatchTaskID_lapTask)

lemma phaseEffect_mono:
  assumes "world_inv ls w" and "Durable opt"
  shows "effect_done l s w \<Longrightarrow> effect_done l s (phaseEffect worldEffects opt st w)"
    and "effects_due l s w \<Longrightarrow> effects_due l s (phaseEffect worldEffects opt st w)"
    and "TerminalTransitions (phaseEffect worldEffects opt st w) = TerminalTransitions w"
  using assms
  by (auto simp: world_inv_def effect_done_def effects_due_def phaseEffect_def World_defs patch_def)

lemma World_Terminal_keeps [simp]:
  "world_inv ls (World_Terminal s w) = world_inv ls w"
  "effect_done l st (World_Terminal s w) = effect_done l st w"
  "effects_due l st (World_Terminal s w) = effects_due l st w"
  "length (TerminalTransitions (World_Terminal s w)) = Suc (length (TerminalTransitions w))"
  by (auto simp: world_inv_def effect_done_def effects_due_def World_Terminal_def)

lemma effects_due_next:
  assumes "effects_due l st w" and "effect_done l st w" and "nextStep opt st = Some nx"
  shows "effects_due l nx w"
  using assms by (cases st) (auto simp: effects_due_def effect_done_def nextStep_cases split: if_splits)

lemma nextStep_path: "nextStep opt st = Some nx \<Longrightarrow> nx \<in> set happyPath \<union> {StepFailed}"
  by (cases st) (auto simp: nextStep_cases happyPath_def split: if_splits)

text \<open>The three outcomes of the guarded advance of a durable pass.\<close>

lemma phaseCommit_mem:
  assumes "phaseCommit worldEffects memStore opt st w m = (w', m')" and "Durable opt"
  shows "(w' = w \<and> m' = m) \<or>
    (\<exists>nx. nextStep opt st = Some nx \<and> ms_step m = st \<and> Fence opt = ms_fence m \<and>
       m' = m\<lparr>ms_step := nx, ms_auditN := ms_auditN m + 1, ms_outboxN := ms_outboxN m + 1\<rparr> \<and>
       w' = (if IsTerminal nx then World_Terminal nx w else w))"
  using assms
  by (auto simp: phaseCommit_def MemStore_Advance_def fenceArg_def worldEffects_def
      split: option.splits if_splits)

lemma proc_inv_world:
  assumes "proc_inv y p" and "\<And>l s. effect_done l s (world y) \<Longrightarrow> effect_done l s w'"
  shows "proc_inv (y\<lparr>world := w', procs := q\<rparr>) p" "proc_inv (y\<lparr>procs := q\<rparr>) p"
  using assms by (auto simp: proc_inv_def split: pc.splits)

lemma proc_inv_store:
  assumes "proc_inv y p" and "ms_fence m' = ms_fence (store y)"
    and "\<And>l s. effect_done l s (world y) \<Longrightarrow> effect_done l s w'"
  shows "proc_inv (y\<lparr>world := w', store := m', procs := q\<rparr>) p"
  using assms by (auto simp: proc_inv_def split: pc.splits)

lemma proc_inv_fence:
  assumes "proc_inv y p" and "ms_fence (store y) < f" and "ms_fence m' = f"
    and "set (laps y) \<subseteq> set ls"
  shows "proc_inv (y\<lparr>store := m', laps := ls\<rparr>) p"
  using assms by (auto simp: proc_inv_def split: pc.splits)

section \<open>Every step keeps the invariant\<close>

lemma fo_inv_init: "fo_inv init_failover"
  by (auto simp: fo_inv_def init_failover_def world_inv_def effects_due_def proc_inv_def
      NewWorld_def NewMemStore_def happyPath_def)

lemma fo_inv_read:
  assumes "fo_inv y" and "issued_options y opt"
  shows "fo_inv (y\<lparr>procs := (procs y)(i := PRead opt (ms_step (store y)))\<rparr>)"
  using assms unfolding fo_inv_def
  by (auto simp: issued_options_def leader_options_def intro: proc_inv_world(2))
     (auto simp: proc_inv_def)

lemma fo_inv_effect:
  assumes inv: "fo_inv y" and p: "procs y i = PRead opt st"
  shows "fo_inv (y\<lparr>world := phaseEffect worldEffects opt st (world y),
                   procs := (procs y)(i := PEffected opt st)\<rparr>)"
proof -
  let ?w = "phaseEffect worldEffects opt st (world y)"
  have pi: "proc_inv y (PRead opt st)" using inv p by (metis fo_inv_def)
  then have d: "Durable opt" and l: "Lap opt \<in> set (laps y)" by (auto simp: proc_inv_def)
  have wi: "world_inv (laps y) (world y)" using inv by (simp add: fo_inv_def)
  have new: "proc_inv (y\<lparr>world := ?w, procs := q\<rparr>) (PEffected opt st)" for q
    using pi phaseEffect_world_inv(2) [OF wi d l] by (auto simp: proc_inv_def)
  have old: "proc_inv (y\<lparr>world := ?w, procs := q\<rparr>) (procs y j)" for q j
    using inv phaseEffect_mono(1) [OF wi d] by (intro proc_inv_world) (auto simp: fo_inv_def)
  show ?thesis
    using inv new old phaseEffect_mono(2,3) [OF wi d] phaseEffect_world_inv(1) [OF wi d l]
    unfolding fo_inv_def by auto
qed

lemma fo_inv_advance:
  assumes inv: "fo_inv y" and p: "procs y i = PEffected opt st"
    and c: "phaseCommit worldEffects memStore opt st (world y) (store y) = (w', m')"
    and w: "w'' = w' \<or> w'' = world y"
  shows "fo_inv (y\<lparr>world := w'', store := m', procs := (procs y)(i := PIdle)\<rparr>)"
proof -
  have pi: "proc_inv y (PEffected opt st)" using inv p by (metis fo_inv_def)
  then have d: "Durable opt" by (simp add: proc_inv_def)
  have idle: "proc_inv z PIdle" for z by (simp add: proc_inv_def)
  from phaseCommit_mem [OF c d] consider
    (lost) "w'' = world y" "m' = store y"
  | (won) nx where "nextStep opt st = Some nx" "ms_step (store y) = st"
      "Fence opt = ms_fence (store y)"
      "m' = (store y)\<lparr>ms_step := nx, ms_auditN := ms_auditN (store y) + 1,
                       ms_outboxN := ms_outboxN (store y) + 1\<rparr>"
      "w'' = World_Terminal nx (world y) \<and> IsTerminal nx \<or> w'' = world y"
    using w by (auto split: if_splits)
  then show ?thesis
  proof cases
    case lost
    have "proc_inv (y\<lparr>procs := q\<rparr>) (procs y j)" for q j
      using inv by (intro proc_inv_world(2)) (auto simp: fo_inv_def)
    with inv idle lost show ?thesis unfolding fo_inv_def by auto
  next
    case (won nx)
    have due: "effects_due (hd (laps y)) nx (world y)"
      using effects_due_next [OF _ _ won(1)] inv pi won(2,3)
      by (auto simp: proc_inv_def fo_inv_def)
    have nt: "\<not> IsTerminal (ms_step (store y))"
      using nextStep_not_terminal [OF won(1)] won(2) by simp
    have tl: "length (TerminalTransitions w'') + (if IsTerminal nx then 0 else 1) \<le> length (laps y)"
      using inv nt won(5) by (auto simp: fo_inv_def)
    have procs: "proc_inv (y\<lparr>world := w'', store := m', procs := q\<rparr>) (procs y j)" for q j
      using inv won(4,5) by (intro proc_inv_store) (auto simp: fo_inv_def)
    have wk: "world_inv ls w'' = world_inv ls (world y)" "effects_due l s w'' = effects_due l s (world y)"
      for ls l s using won(5) by auto
    show ?thesis
      using inv due tl procs idle wk nextStep_path [OF won(1)] won(4) unfolding fo_inv_def by auto
  qed
qed

lemma fo_inv_reclaim:
  assumes inv: "fo_inv y" and r: "MemStore_Reclaim f (store y) = (ok, m')"
  shows "fo_inv (y\<lparr>store := m'\<rparr>)"
proof (cases ok)
  case True
  then have m': "m' = (store y)\<lparr>ms_fence := f\<rparr>" "ms_fence (store y) < f"
    using r by (auto simp: MemStore_Reclaim_def split: if_splits)
  have "proc_inv (y\<lparr>store := m', laps := laps y\<rparr>) (procs y j)" for j
    using inv m' by (intro proc_inv_fence) (auto simp: fo_inv_def)
  then show ?thesis using inv m' by (simp add: fo_inv_def)
next
  case False
  then have "m' = store y" using r by (auto simp: MemStore_Reclaim_def split: if_splits)
  then show ?thesis using inv by simp
qed

lemma fo_inv_retry:
  assumes inv: "fo_inv y" and f: "ms_step (store y) = StepFailed"
    and r: "MemStore_Reclaim f (store y) = (True, m')"
  shows "fo_inv (y\<lparr>store := MemStore_SetStep StepClaimingSandbox m', laps := Some l # laps y\<rparr>)"
proof -
  have m': "m' = (store y)\<lparr>ms_fence := f\<rparr>" "ms_fence (store y) < f"
    using r by (auto simp: MemStore_Reclaim_def split: if_splits)
  have "proc_inv (y\<lparr>store := MemStore_SetStep StepClaimingSandbox m', laps := Some l # laps y\<rparr>) (procs y j)" for j
    using inv m' by (intro proc_inv_fence) (auto simp: fo_inv_def MemStore_SetStep_def)
  then show ?thesis
    using inv m' f
    by (auto simp: fo_inv_def MemStore_SetStep_def world_inv_def effects_due_def happyPath_def)
qed

lemma fo_step_inv: "fo_step y z \<Longrightarrow> fo_inv y \<Longrightarrow> fo_inv z"
proof (induction rule: fo_step.induct)
  case (read y i opt)
  then show ?case by (blast intro: fo_inv_read)
next
  case (effect y i opt st)
  then show ?case by (blast intro: fo_inv_effect)
next
  case (advance y i opt st w' m')
  then show ?case by (blast intro: fo_inv_advance)
next
  case (advance_lost y i opt st w' m')
  then have "fo_inv (y\<lparr>world := world y, store := m', procs := (procs y)(i := PIdle)\<rparr>)"
    by (blast intro: fo_inv_advance)
  then show ?case by simp
next
  case (crash y i)
  have "proc_inv (y\<lparr>procs := q\<rparr>) (procs y j)" for q j
    using crash by (intro proc_inv_world(2)) (auto simp: fo_inv_def)
  then show ?case using crash by (auto simp: fo_inv_def proc_inv_def)
next
  case (reclaim f y ok m')
  then show ?case by (blast intro: fo_inv_reclaim)
next
  case (retry y f m' l)
  then show ?case by (blast intro: fo_inv_retry)
qed

lemma fo_reachable_inv: "fo_reachable y \<Longrightarrow> fo_inv y"
  by (induction rule: fo_reachable.induct) (auto intro: fo_inv_init fo_step_inv)

section \<open>A drive is a run of the interleaved system\<close>

abbreviation fo_steps :: "failover \<Rightarrow> failover \<Rightarrow> bool" where
  "fo_steps \<equiv> fo_step\<^sup>*\<^sup>*"

lemma fo_reachable_steps: "fo_steps y z \<Longrightarrow> fo_reachable y \<Longrightarrow> fo_reachable z"
  by (induction rule: rtranclp_induct) (auto intro: fo_reachable.step)

lemma phase_steps:
  assumes d: "leader_options y opt"
    and c: "runPhase worldEffects memStore opt (ms_step (store y)) (world y) (store y) = (e, w', m')"
  shows "fo_steps y (y\<lparr>world := w', store := m', procs := (procs y)(i := PIdle)\<rparr>)"
proof -
  let ?st = "ms_step (store y)" and ?w1 = "phaseEffect worldEffects opt (ms_step (store y)) (world y)"
  let ?at = "\<lambda>w m p. y\<lparr>world := w, store := m, procs := (procs y)(i := p)\<rparr>"
  have s0: "fo_step y (?at (world y) (store y) PIdle)"
    using fo_step.crash [of y i] by simp
  have s1: "fo_step (?at (world y) (store y) PIdle) (?at (world y) (store y) (PRead opt ?st))"
    using fo_step.read [of "?at (world y) (store y) PIdle" i opt] d
    by (simp add: issued_options_def leader_options_def)
  have s2: "fo_step (?at (world y) (store y) (PRead opt ?st)) (?at ?w1 (store y) (PEffected opt ?st))"
    using fo_step.effect [of "?at (world y) (store y) (PRead opt ?st)" i opt ?st] by simp
  have s012: "fo_steps y (?at ?w1 (store y) (PEffected opt ?st))"
    using s0 s1 s2 by (meson converse_rtranclp_into_rtranclp rtranclp.rtrancl_refl)
  show ?thesis
  proof (cases "CrashAfterEffect opt \<noteq> noStep \<and> ?st = CrashAfterEffect opt")
    case True
    then have "w' = ?w1" "m' = store y" using c by (auto simp: runPhase_def Let_def)
    with s012 fo_step.crash [of "?at ?w1 (store y) (PEffected opt ?st)" i] show ?thesis
      by (simp add: rtranclp.rtrancl_into_rtrancl)
  next
    case False
    then have "phaseCommit worldEffects memStore opt ?st ?w1 (store y) = (w', m')"
      using c by (auto simp: runPhase_def Let_def split: prod.splits if_splits)
    then have "fo_step (?at ?w1 (store y) (PEffected opt ?st)) (?at w' m' PIdle)"
      using fo_step.advance [of "?at ?w1 (store y) (PEffected opt ?st)" i opt ?st] by simp
    with s012 show ?thesis by (simp add: rtranclp.rtrancl_into_rtrancl)
  qed
qed

lemma drive_steps:
  assumes ret: "Reconcile worldEffects memStore opt (world y) (store y) = Some (e, w', m')"
    and d: "leader_options y opt"
  shows "fo_steps y (y\<lparr>world := w', store := m', procs := (procs y)(i := PIdle)\<rparr>)"
proof -
  let ?at = "\<lambda>w m. y\<lparr>world := w, store := m, procs := (procs y)(i := PIdle)\<rparr>"
  let ?R = "\<lambda>w m w' m'. ms_fence m = Fence opt \<longrightarrow>
    ms_fence m' = Fence opt \<and> fo_steps (?at w m) (?at w' m')"
  have "?R (world y) (store y) w' m'"
  proof (rule Reconcile_loop_rel [where R = ?R and passes = 0])
    show "Reconcile_loop worldEffects memStore opt 0 (world y) (store y) = Some (e, w', m')"
      using ret by (simp add: Reconcile_def)
  next
    fix st s00 step s0 w m err w1 m1
    assume a: "Store_Step memStore s00 = (st, s0)"
      "Store_Step memStore s0 = (step, m)" "runPhase worldEffects memStore opt step w m = (err, w1, m1)"
    then have st: "step = ms_step m" by auto
    show "?R w m w1 m1"
    proof
      assume f: "ms_fence m = Fence opt"
      have "leader_options (?at w m) opt" using d f by (simp add: leader_options_def)
      then have "fo_steps (?at w m) (?at w1 m1)"
        using phase_steps [of "?at w m" opt err w1 m1 i] a(3) st by simp
      moreover have "ms_fence m1 = Fence opt"
        using mem.runPhase_committed [OF TrueI a(3)] f by (simp add: mem.committed_def)
      ultimately show "ms_fence m1 = Fence opt \<and> fo_steps (?at w m) (?at w1 m1)" by simp
    qed
  qed auto
  moreover have "fo_step y (?at (world y) (store y))"
    using fo_step.crash [of y i] by simp
  ultimately show ?thesis
    using d by (simp add: leader_options_def converse_rtranclp_into_rtranclp)
qed

section \<open>A healthy leader finishes\<close>

text \<open>The terminal transition a completing drive records: one, unless the Run has succeeded before it.\<close>

definition closing_transition :: "Step \<Rightarrow> Step list" where
  "closing_transition st = (if st = StepSucceeded then [] else [StepSucceeded])"

lemma pass_transitions:
  assumes "nextStep opt st = Some nx" and "nx \<in> set happyPath"
  shows "TerminalTransitions (let w1 = phaseEffect worldEffects opt st w
           in if IsTerminal nx then World_Terminal nx w1 else w1) @ closing_transition nx
    = TerminalTransitions w @ closing_transition st"
  using assms
  by (cases st) (auto simp: nextStep_cases happyPath_def closing_transition_def phaseEffect_def
      World_defs IsTerminal_def Let_def split: if_splits)

lemma mem_drive_succeeds:
  assumes "crashFree opt" and "Durable opt" and "FailAt opt = noStep"
    and "ms_step m \<in> set happyPath" and "Fence opt = ms_fence m"
    and "MaxPasses opt \<le> 0 \<or> passes + int (step_rank (ms_step m)) \<le> MaxPasses opt"
  shows "\<exists>w' m'. Reconcile_loop worldEffects memStore opt passes w m = Some (None, w', m') \<and>
    ms_step m' = StepSucceeded \<and> ms_auditN m' = ms_auditN m + step_rank (ms_step m) \<and>
    TerminalTransitions w' = TerminalTransitions w @ closing_transition (ms_step m) \<and>
    (ms_step m = StepSucceeded \<longrightarrow> w' = w \<and> m' = m)"
  using assms(4-)
proof (induction "step_rank (ms_step m)" arbitrary: m w passes)
  case 0
  then have "ms_step m = StepSucceeded" by (auto simp: happyPath_def)
  with mem_stop [of m worldEffects opt passes w] 0 show ?case by (simp add: closing_transition_def)
next
  case (Suc n)
  then obtain nx where nx: "nextStep opt (ms_step m) = Some nx" "nx \<in> set happyPath" "step_rank nx = n"
    using assms(3) by (cases "ms_step m") (auto simp: nextStep_cases happyPath_def)
  let ?m = "m\<lparr>ms_step := nx, ms_auditN := ms_auditN m + 1, ms_outboxN := ms_outboxN m + 1\<rparr>"
  let ?w = "let w1 = phaseEffect worldEffects opt (ms_step m) w
    in if IsTerminal nx then World_Terminal nx w1 else w1"
  have "\<not> (MaxPasses opt > 0 \<and> passes \<ge> MaxPasses opt)" using Suc by auto
  note step = mem_pass_advance [OF assms(1,2) Suc.prems(2) nx(1) this, of w]
  have "MaxPasses opt \<le> 0 \<or> passes + 1 + int (step_rank (ms_step ?m)) \<le> MaxPasses opt"
    using Suc.prems(3) nx(3) by (auto simp: Suc.hyps(2) [symmetric])
  then obtain w' m' where "Reconcile_loop worldEffects memStore opt (passes + 1) ?w ?m = Some (None, w', m')"
      "ms_step m' = StepSucceeded" "ms_auditN m' = ms_auditN ?m + step_rank nx"
      "TerminalTransitions w' = TerminalTransitions ?w @ closing_transition nx"
    using Suc.hyps(1) [of ?m "passes + 1" ?w] Suc.prems(2) nx by auto
  moreover have "ms_step m \<noteq> StepSucceeded" using Suc.hyps(2) by auto
  ultimately show ?case
    using step pass_transitions [OF nx(1,2), of w] nx(3) by (auto simp: Suc.hyps(2) [symmetric])
qed

section \<open>Properties\<close>

definition cleanOptions :: Options where
  "cleanOptions = \<lparr>Durable = True, Fence = 1, CrashBefore = noStep, CrashAfterEffect = noStep,
     Lap = None, FailAt = noStep, MaxPasses = 0\<rparr>"

lemma clean_leader: "leader_options init_failover cleanOptions" "crashFree cleanOptions" "FailAt cleanOptions = noStep"
  by (simp_all add: leader_options_def init_failover_def cleanOptions_def crashFree_def NewMemStore_def)

lemma clean_drive:
  "\<exists>w' m'. Reconcile worldEffects memStore cleanOptions (world init_failover) (store init_failover)
      = Some (None, w', m') \<and> ms_step m' = StepSucceeded"
  using mem_drive_succeeds [of cleanOptions NewMemStore 0 NewWorld] clean_leader
  by (auto simp: Reconcile_def init_failover_def cleanOptions_def NewMemStore_def happyPath_def)

lemma succeeded_reachable: "\<exists>y. fo_reachable y \<and> ms_step (store y) = StepSucceeded"
proof -
  obtain w' m' where r: "Reconcile worldEffects memStore cleanOptions (world init_failover) (store init_failover)
      = Some (None, w', m')" and st: "ms_step m' = StepSucceeded" using clean_drive by blast
  let ?y = "init_failover\<lparr>world := w', store := m', procs := (procs init_failover)(0 := PIdle)\<rparr>"
  have "fo_reachable ?y"
    using drive_steps [OF r clean_leader(1)] fo_reachable.start by (rule fo_reachable_steps)
  moreover have "ms_step (store ?y) = StepSucceeded" using st by simp
  ultimately show ?thesis by blast
qed

text \<open>
  C1. At most once, under any interleaving of leaders, zombies, crashes at every window, fence
  raises and retry laps: at most one sandbox is ever provisioned for the Run, no A2A task is
  executed twice and there is at most one execution per lap, the artifact is registered at
  most once, there is at most one terminal transition per lap, and every committed transition
  has exactly one audit row and one outbox row.
\<close>

theorem failover_at_most_once:
  assumes "fo_reachable y"
  shows "length (SandboxBinds (world y)) \<le> 1 \<and>
    distinct (AgentExecutions (world y)) \<and>
    length (AgentExecutions (world y)) \<le> length (laps y) \<and>
    length (Artifacts (world y)) \<le> 1 \<and>
    length (TerminalTransitions (world y)) \<le> length (laps y) \<and>
    ms_auditN (store y) = ms_outboxN (store y)"
proof -
  have inv: "fo_inv y" using assms by (rule fo_reachable_inv)
  then have w: "world_inv (laps y) (world y)" by (simp add: fo_inv_def)
  then have "length (AgentExecutions (world y)) \<le> card (lapTask ` set (laps y))"
    by (intro distinct_length_le_card) (auto simp: world_inv_def)
  also have "\<dots> \<le> length (laps y)"
    by (meson card_image_le card_length finite_set order_trans)
  finally show ?thesis
    using inv w by (auto simp: fo_inv_def world_inv_def patch_def)
qed

theorem failover_at_most_once_witness:
  "\<exists>y. fo_reachable y \<and> ms_step (store y) = StepSucceeded \<and> length (SandboxBinds (world y)) \<le> 1 \<and>
    distinct (AgentExecutions (world y))"
  using succeeded_reachable failover_at_most_once by blast

text \<open>
  C2. No transition commits past an effect that did not happen: whatever interleaving led to
  the durable step, a Run at or beyond dispatching has its sandbox, a Run at or beyond running
  has the execution of its current lap, and a succeeded Run has its artifact.
\<close>

theorem failover_effects_before_step:
  assumes "fo_reachable y"
  shows "(ms_step (store y) \<in> {StepDispatching, StepRunning, StepCollecting, StepSucceeded} \<longrightarrow>
        SandboxBinds (world y) = [RunID]) \<and>
    (ms_step (store y) \<in> {StepRunning, StepCollecting, StepSucceeded} \<longrightarrow>
        lapTask (hd (laps y)) \<in> set (AgentExecutions (world y))) \<and>
    (ms_step (store y) = StepSucceeded \<longrightarrow>
        Artifacts (world y) = [(RunID @ ''/patch'', ''diff-bytes'')])"
  using fo_reachable_inv [OF assms] by (simp add: fo_inv_def effects_due_def patch_def)

theorem failover_effects_before_step_witness:
  "\<exists>y. fo_reachable y \<and> ms_step (store y) = StepSucceeded \<and> SandboxBinds (world y) = [RunID] \<and>
    Artifacts (world y) = [(RunID @ ''/patch'', ''diff-bytes'')]"
proof -
  obtain y where y: "fo_reachable y" "ms_step (store y) = StepSucceeded" using succeeded_reachable by blast
  from failover_effects_before_step [OF y(1)] y show ?thesis by auto
qed

text \<open>
  C3. Crash recovery completes: from every state the interleaved system can reach that has not
  failed, one undisturbed drive of a durable leader that holds the current fence and lap, has
  no crash injected (and, if bounded, has five passes) returns without error with the Run
  succeeded, one sandbox, one execution for the current lap and one artifact. If the Run had
  not succeeded before, the drive records one terminal transition, to succeeded, after those
  of the earlier laps, which number fewer than the laps; if it had, the drive changes nothing.
\<close>

theorem failover_drive_completes:
  assumes y: "fo_reachable y" and nf: "ms_step (store y) \<noteq> StepFailed"
    and opt: "leader_options y opt" "crashFree opt" "FailAt opt = noStep"
    and passes: "MaxPasses opt \<le> 0 \<or> 5 \<le> MaxPasses opt"
  shows "\<exists>w' m'. Reconcile worldEffects memStore opt (world y) (store y) = Some (None, w', m') \<and>
    ms_step m' = StepSucceeded \<and> SandboxBinds w' = [RunID] \<and>
    count_list (AgentExecutions w') (lapTask (hd (laps y))) = 1 \<and> distinct (AgentExecutions w') \<and>
    Artifacts w' = [(RunID @ ''/patch'', ''diff-bytes'')] \<and> ms_auditN m' = ms_outboxN m' \<and>
    (if ms_step (store y) = StepSucceeded then w' = world y \<and> m' = store y
     else TerminalTransitions w' = TerminalTransitions (world y) @ [StepSucceeded] \<and>
       length (TerminalTransitions (world y)) < length (laps y))"
proof -
  have inv: "fo_inv y" using y by (rule fo_reachable_inv)
  then have path: "ms_step (store y) \<in> set happyPath" using nf by (auto simp: fo_inv_def)
  have "int (step_rank (ms_step (store y))) \<le> 5" by (cases "ms_step (store y)") auto
  then obtain w' m' where ret: "Reconcile worldEffects memStore opt (world y) (store y) = Some (None, w', m')"
      and st: "ms_step m' = StepSucceeded"
      and tt: "TerminalTransitions w' = TerminalTransitions (world y) @ closing_transition (ms_step (store y))"
      and same: "ms_step (store y) = StepSucceeded \<longrightarrow> w' = world y \<and> m' = store y"
    using mem_drive_succeeds [OF opt(2) _ opt(3) path, of 0 "world y"] opt(1) passes
    by (auto simp: Reconcile_def leader_options_def)
  have "fo_reachable (y\<lparr>world := w', store := m', procs := (procs y)(0 := PIdle)\<rparr>)"
    using drive_steps [OF ret opt(1)] y by (blast intro: fo_reachable_steps)
  then have inv': "fo_inv (y\<lparr>world := w', store := m', procs := (procs y)(0 := PIdle)\<rparr>)"
    by (rule fo_reachable_inv)
  have "\<not> IsTerminal (ms_step (store y))" if "ms_step (store y) \<noteq> StepSucceeded"
    using that path by (auto simp: happyPath_def IsTerminal_def)
  then have "length (TerminalTransitions (world y)) < length (laps y)" if "ms_step (store y) \<noteq> StepSucceeded"
    using that inv by (auto simp: fo_inv_def)
  with inv' ret st tt same show ?thesis
    by (auto simp: fo_inv_def effects_due_def world_inv_def patch_def closing_transition_def
        distinct_count_list)
qed

theorem failover_drive_completes_witness:
  "\<exists>w' m'. Reconcile worldEffects memStore cleanOptions NewWorld NewMemStore = Some (None, w', m') \<and>
    ms_step m' = StepSucceeded \<and> SandboxBinds w' = [RunID] \<and> AgentExecutions w' \<noteq> [] \<and>
    TerminalTransitions w' = [StepSucceeded]"
proof -
  have "ms_step (store init_failover) \<noteq> StepFailed" "MaxPasses cleanOptions \<le> 0 \<or> 5 \<le> MaxPasses cleanOptions"
    by (simp_all add: init_failover_def cleanOptions_def NewMemStore_def)
  from failover_drive_completes [OF fo_reachable.start this(1) clean_leader this(2)] show ?thesis
    by (auto simp: init_failover_def NewMemStore_def NewWorld_def)
qed

text \<open>
  A fenced-out leader commits nothing: a durable drive under a fence that is not the
  store's current one, whatever its crash windows, lap and pass bound, leaves the step, the
  fence and both row counts exactly as they were.
\<close>

theorem zombie_drive_commits_nothing:
  assumes "Reconcile E memStore opt w m = Some (e, w', m')"
    and "Durable opt" and "Fence opt \<noteq> ms_fence m"
  shows "m' = m"
  using mem.zombie_drive [OF TrueI assms] by (cases m, cases m') auto

theorem zombie_drive_commits_nothing_witness:
  "Reconcile worldEffects memStore (cleanOptions\<lparr>MaxPasses := 1\<rparr>) NewWorld (NewMemStore\<lparr>ms_fence := 2\<rparr>)
    = Some (None, NewWorld, NewMemStore\<lparr>ms_fence := 2\<rparr>)"
proof -
  let ?opt = "cleanOptions\<lparr>MaxPasses := 1\<rparr>" and ?m = "NewMemStore\<lparr>ms_fence := 2\<rparr>"
  have "Reconcile worldEffects memStore ?opt NewWorld ?m \<noteq> None"
    by (simp add: Reconcile_def Reconcile_loop_bounded)
  then obtain e w' m' where r: "Reconcile worldEffects memStore ?opt NewWorld ?m = Some (e, w', m')"
    by (metis not_Some_eq prod_cases3)
  have m': "m' = ?m"
    using zombie_drive_commits_nothing [OF r] by (simp add: cleanOptions_def NewMemStore_def)
  have "stuck ?opt ?m" "\<not> IsTerminal (ms_step ?m)"
    by (simp_all add: stuck_def cleanOptions_def NewMemStore_def)
  then have "e = None \<and> w' = NewWorld"
    using r m' stuck_commit [of ?opt ?m worldEffects "phaseEffect worldEffects ?opt (ms_step ?m) NewWorld"]
    by (auto simp: Reconcile_def Reconcile_loop.simps cleanOptions_def runPhase_def Let_def
        phaseEffect_def NewMemStore_def)
  with r m' show ?thesis by simp
qed

text \<open>
  The pass bound makes every drive return, for every store and every effects binding, and
  whatever happens to the guard or the durable step during the drive.
\<close>

theorem reconcile_bounded_returns:
  assumes "MaxPasses opt > 0"
  shows "\<exists>e w' s'. Reconcile E S opt w s = Some (e, w', s')"
  using Reconcile_loop_bounded [OF assms, of E S 0 w s] by (auto simp: Reconcile_def)

theorem reconcile_bounded_returns_witness:
  "\<exists>e w' s'. Reconcile worldEffects memStore (cleanOptions\<lparr>MaxPasses := 3\<rparr>) NewWorld NewMemStore = Some (e, w', s')"
  by (rule reconcile_bounded_returns) simp

text \<open>
  Without the bound the drive does not return where the machine has no progress to make:
  from any paused, cancelling or unknown step (off the happy path and not terminal), and from
  any non-terminal step under a fence that has been raised.
\<close>

theorem reconcile_unbounded_spins:
  assumes "crashFree opt" and "MaxPasses opt \<le> 0" and "\<not> IsTerminal (ms_step m)"
    and "ms_step m \<notin> set happyPath \<or> (Durable opt \<and> Fence opt \<noteq> ms_fence m)"
  shows "Reconcile worldEffects memStore opt w m = None"
proof -
  have "ms_step m \<notin> set happyPath \<Longrightarrow> nextStep opt (ms_step m) = None"
    by (cases "ms_step m") (auto simp: nextStep_cases happyPath_def)
  then have "stuck opt m" using assms by (auto simp: stuck_def)
  then show ?thesis using assms by (simp add: Reconcile_def stuck_diverges)
qed

theorem reconcile_unbounded_spins_witness:
  "Reconcile worldEffects memStore cleanOptions NewWorld (NewMemStore\<lparr>ms_step := StepPausedRateLimited\<rparr>) = None"
  by (rule reconcile_unbounded_spins)
     (simp_all add: cleanOptions_def crashFree_def NewMemStore_def happyPath_def IsTerminal_def)

text \<open>
  The guards are load-bearing: the naive reconciler (no fence, no deduplication), crashed
  once after the dispatch effect and driven again, starts two agent executions for one Run.
\<close>

theorem naive_reconcile_double_dispatches:
  "\<exists>w1 m1 w2 m2.
     Reconcile worldEffects memStore
       (cleanOptions\<lparr>Durable := False, CrashAfterEffect := StepDispatching\<rparr>) NewWorld NewMemStore
       = Some (Some (ErrCrash StepDispatching), w1, m1) \<and>
     Reconcile worldEffects memStore (cleanOptions\<lparr>Durable := False\<rparr>) w1 m1 = Some (None, w2, m2) \<and>
     ms_step m2 = StepSucceeded \<and> length (AgentExecutions w2) = 2"
proof (intro exI conjI)
  let ?w1 = "\<lparr>SandboxBinds = [RunID], AgentExecutions = [RunID @ ''-naive-attempt-0''],
    Artifacts = [], TerminalTransitions = []\<rparr>"
  let ?m1 = "\<lparr>ms_step = StepDispatching, ms_fence = 1, ms_auditN = 2, ms_outboxN = 2\<rparr>"
  let ?w2 = "\<lparr>SandboxBinds = [RunID],
    AgentExecutions = [RunID @ ''-naive-attempt-0'', RunID @ ''-naive-attempt-1''],
    Artifacts = [(RunID @ ''/patch#0'', ''diff-bytes'')], TerminalTransitions = [StepSucceeded]\<rparr>"
  note eval = Reconcile_def Reconcile_loop.simps cleanOptions_def runPhase_def
    phaseEffect_def phaseCommit_def nextStep_cases fenceArg_def MemStore_Advance_def
    World_defs NewMemStore_def dispatchTaskID_def nat_str_small
  show "Reconcile worldEffects memStore
      (cleanOptions\<lparr>Durable := False, CrashAfterEffect := StepDispatching\<rparr>) NewWorld NewMemStore
      = Some (Some (ErrCrash StepDispatching), ?w1, ?m1)"
    by (simp add: eval numeral_2_eq_2)
  show "Reconcile worldEffects memStore (cleanOptions\<lparr>Durable := False\<rparr>) ?w1 ?m1
      = Some (None, ?w2, \<lparr>ms_step = StepSucceeded, ms_fence = 1, ms_auditN = 5, ms_outboxN = 5\<rparr>)"
    by (simp add: eval)
qed simp_all

text \<open>
  A whole drive, however it ends, is one of the interleaved runs: the reachable states of
  the interleaved system contain the result of every drive of a current leader, so what holds
  of them holds of every sequence of drives.
\<close>

theorem drive_refines_interleaving:
  assumes "Reconcile worldEffects memStore opt (world y) (store y) = Some (e, w', m')"
    and "leader_options y opt"
  shows "fo_step\<^sup>*\<^sup>* y (y\<lparr>world := w', store := m', procs := (procs y)(i := PIdle)\<rparr>)"
  using assms by (rule drive_steps)

theorem drive_refines_interleaving_witness:
  "\<exists>w' m'. ms_step m' = StepSucceeded \<and> fo_step\<^sup>*\<^sup>* init_failover
     (init_failover\<lparr>world := w', store := m', procs := (procs init_failover)(0 := PIdle)\<rparr>)"
  using clean_drive drive_refines_interleaving [OF _ clean_leader(1)] by blast

end
