(* ===== verification/Sql_Table.thy ===== *)
theory Sql_Table
  imports Prelude
begin

text \<open>
  The fragment of SQL the coordination sources rely on. A table is the list of its rows; a
  guarded \<open>UPDATE\<close> rewrites exactly the rows its \<open>WHERE\<close> clause accepts and reports how
  many there were; a row query returns the first row that matches, or nothing. A comparison
  with a \<open>NULL\<close> column is not true, so nullable columns are options and the comparisons
  below are false on \<open>None\<close>.
\<close>

section \<open>Statements\<close>

definition sql_update :: "('r \<Rightarrow> bool) \<Rightarrow> ('r \<Rightarrow> 'r) \<Rightarrow> 'r list \<Rightarrow> 'r list" where
  "sql_update P f t = map (\<lambda>r. if P r then f r else r) t"

definition sql_affected :: "('r \<Rightarrow> bool) \<Rightarrow> 'r list \<Rightarrow> nat" where
  "sql_affected P t = length (filter P t)"

definition sql_row :: "('r \<Rightarrow> bool) \<Rightarrow> 'r list \<Rightarrow> 'r option" where
  "sql_row P t = find P t"

definition lookup_by :: "('r \<Rightarrow> 'k) \<Rightarrow> 'k \<Rightarrow> 'r list \<Rightarrow> 'r option" where
  "lookup_by pk k t = find (\<lambda>r. pk r = k) t"

definition wf_table :: "('r \<Rightarrow> 'k) \<Rightarrow> 'r list \<Rightarrow> bool" where
  "wf_table pk t \<longleftrightarrow> distinct (map pk t)"

fun null_lt :: "instant option \<Rightarrow> instant \<Rightarrow> bool" where
  "null_lt None t = False"
| "null_lt (Some l) t = (l < t)"

fun null_gt :: "instant option \<Rightarrow> instant \<Rightarrow> bool" where
  "null_gt None t = False"
| "null_gt (Some l) t = (l > t)"

fun null_le :: "instant option \<Rightarrow> instant \<Rightarrow> bool" where
  "null_le None t = False"
| "null_le (Some l) t = (l \<le> t)"

section \<open>Lookups by primary key\<close>

lemma lookup_by_Nil [simp]: "lookup_by pk k [] = None"
  by (simp add: lookup_by_def)

lemma lookup_by_Cons [simp]:
  "lookup_by pk k (r # t) = (if pk r = k then Some r else lookup_by pk k t)"
  by (simp add: lookup_by_def)

lemma lookup_by_Some: "lookup_by pk k t = Some r \<Longrightarrow> pk r = k \<and> r \<in> set t"
  by (induction t) (auto split: if_splits)

lemma lookup_by_None: "lookup_by pk k t = None \<longleftrightarrow> k \<notin> pk ` set t"
  by (induction t) auto

lemma lookup_by_mem: "wf_table pk t \<Longrightarrow> r \<in> set t \<Longrightarrow> lookup_by pk (pk r) t = Some r"
  by (induction t) (auto simp: wf_table_def)

lemma lookup_by_append:
  "lookup_by pk k (t @ u) = (case lookup_by pk k t of None \<Rightarrow> lookup_by pk k u | Some r \<Rightarrow> Some r)"
  by (induction t) auto

section \<open>Updates of the rows with given keys\<close>

lemma lookup_sql_update:
  assumes "\<And>r. pk (f r) = pk r"
  shows "lookup_by pk k (sql_update (\<lambda>r. pk r \<in> K) f u) = map_option (\<lambda>r. if k \<in> K then f r else r) (lookup_by pk k u)"
  by (induction u) (auto simp: sql_update_def assms)

lemma wf_sql_update:
  assumes "\<And>r. pk (f r) = pk r"
  shows "wf_table pk (sql_update P f u) = wf_table pk u"
proof -
  have "map pk (sql_update P f u) = map pk u" by (induction u) (auto simp: sql_update_def assms)
  then show ?thesis by (simp add: wf_table_def)
qed

section \<open>Guarded updates of one keyed row\<close>

definition upd_key :: "('r \<Rightarrow> 'k) \<Rightarrow> 'k \<Rightarrow> ('r \<Rightarrow> bool) \<Rightarrow> ('r \<Rightarrow> 'r) \<Rightarrow> 'r list \<Rightarrow> 'r list" where
  "upd_key pk k G f t = sql_update (\<lambda>r. pk r = k \<and> G r) f t"

definition aff_key :: "('r \<Rightarrow> 'k) \<Rightarrow> 'k \<Rightarrow> ('r \<Rightarrow> bool) \<Rightarrow> 'r list \<Rightarrow> nat" where
  "aff_key pk k G t = sql_affected (\<lambda>r. pk r = k \<and> G r) t"

definition row_key :: "('r \<Rightarrow> 'k) \<Rightarrow> 'k \<Rightarrow> ('r \<Rightarrow> bool) \<Rightarrow> 'r list \<Rightarrow> 'r option" where
  "row_key pk k G t = sql_row (\<lambda>r. pk r = k \<and> G r) t"

lemma upd_key_Nil [simp]: "upd_key pk k G f [] = []"
  by (simp add: upd_key_def sql_update_def)

lemma upd_key_Cons [simp]:
  "upd_key pk k G f (r # t) = (if pk r = k \<and> G r then f r else r) # upd_key pk k G f t"
  by (simp add: upd_key_def sql_update_def)

lemma lookup_upd_key [simp]:
  assumes "\<And>r. pk (f r) = pk r"
  shows "lookup_by pk k' (upd_key pk k G f t) =
    (if k' = k then map_option (\<lambda>r. if G r then f r else r) (lookup_by pk k t)
     else lookup_by pk k' t)"
  by (induction t) (auto simp: assms)

lemma pk_upd_key:
  assumes "\<And>r. pk (f r) = pk r"
  shows "map pk (upd_key pk k G f t) = map pk t"
  by (induction t) (auto simp: assms)

lemma wf_upd_key [simp]:
  assumes "\<And>r. pk (f r) = pk r"
  shows "wf_table pk (upd_key pk k G f t) = wf_table pk t"
  using assms by (simp add: wf_table_def pk_upd_key)

lemma row_key_wf:
  assumes "wf_table pk t"
  shows "row_key pk k G t =
    (case lookup_by pk k t of None \<Rightarrow> None | Some r \<Rightarrow> if G r then Some r else None)"
  using assms
proof (induction t)
  case Nil
  then show ?case by (simp add: row_key_def sql_row_def)
next
  case (Cons a t)
  have IH: "row_key pk k G t =
      (case lookup_by pk k t of None \<Rightarrow> None | Some r \<Rightarrow> if G r then Some r else None)"
    using Cons by (simp add: wf_table_def)
  have absent: "pk a = k \<Longrightarrow> lookup_by pk k t = None"
    using Cons.prems by (auto simp: lookup_by_None wf_table_def)
  have step: "row_key pk k G (a # t) = (if pk a = k \<and> G a then Some a else row_key pk k G t)"
    by (simp add: row_key_def sql_row_def)
  show ?case
  proof (cases "pk a = k")
    case True
    with step IH absent show ?thesis by simp
  next
    case False
    with step IH show ?thesis by simp
  qed
qed

lemma aff_key_wf:
  assumes "wf_table pk t"
  shows "aff_key pk k G t =
    (case lookup_by pk k t of None \<Rightarrow> 0 | Some r \<Rightarrow> if G r then 1 else 0)"
  using assms
proof (induction t)
  case Nil
  then show ?case by (simp add: aff_key_def sql_affected_def)
next
  case (Cons a t)
  have IH: "aff_key pk k G t =
      (case lookup_by pk k t of None \<Rightarrow> 0 | Some r \<Rightarrow> if G r then 1 else 0)"
    using Cons by (simp add: wf_table_def)
  have absent: "pk a = k \<Longrightarrow> lookup_by pk k t = None"
    using Cons.prems by (auto simp: lookup_by_None wf_table_def)
  have step: "aff_key pk k G (a # t) = (if pk a = k \<and> G a then 1 else 0) + aff_key pk k G t"
    by (simp add: aff_key_def sql_affected_def)
  show ?case
  proof (cases "pk a = k")
    case True
    with step IH absent show ?thesis by simp
  next
    case False
    with step IH show ?thesis by simp
  qed
qed

lemma wf_table_inj: "wf_table pk t \<Longrightarrow> r \<in> set t \<Longrightarrow> q \<in> set t \<Longrightarrow> pk r = pk q \<Longrightarrow> r = q"
  by (metis lookup_by_mem option.inject)

lemma upd_key_set:
  "set (upd_key pk k G f t) = (\<lambda>r. if pk r = k \<and> G r then f r else r) ` set t"
  by (induction t) auto

lemma upd_key_id: "lookup_by pk k t = None \<Longrightarrow> upd_key pk k G f t = t"
  by (induction t) (auto split: if_splits)

lemma upd_key_no_guard:
  assumes "wf_table pk t" and "lookup_by pk k t = Some r" and "\<not> G r"
  shows "upd_key pk k G f t = t"
  using assms
proof (induction t)
  case (Cons a t)
  then show ?case
    by (auto simp: wf_table_def lookup_by_None intro!: upd_key_id split: if_splits)
qed simp

section \<open>Insert or overwrite (ON CONFLICT DO UPDATE / DO NOTHING)\<close>

definition upsert_by :: "('r \<Rightarrow> 'k) \<Rightarrow> 'r \<Rightarrow> 'r list \<Rightarrow> 'r list" where
  "upsert_by pk r t =
     (if lookup_by pk (pk r) t = None then t @ [r] else upd_key pk (pk r) (\<lambda>_. True) (\<lambda>_. r) t)"

definition insert_by :: "('r \<Rightarrow> 'k) \<Rightarrow> 'r \<Rightarrow> 'r list \<Rightarrow> 'r list" where
  "insert_by pk r t = (if lookup_by pk (pk r) t = None then t @ [r] else t)"

lemma lookup_overwrite:
  "lookup_by pk k (upd_key pk (pk r) (\<lambda>_. True) (\<lambda>_. r) t) =
    (if k = pk r \<and> lookup_by pk k t \<noteq> None then Some r else lookup_by pk k t)"
  by (induction t) auto

lemma lookup_upsert_by [simp]:
  "lookup_by pk k (upsert_by pk r t) = (if k = pk r then Some r else lookup_by pk k t)"
  by (auto simp: upsert_by_def lookup_by_append lookup_overwrite split: option.splits)

lemma pk_overwrite: "map pk (upd_key pk (pk r) (\<lambda>_. True) (\<lambda>_. r) t) = map pk t"
  by (induction t) auto

lemma wf_upsert_by [simp]: "wf_table pk t \<Longrightarrow> wf_table pk (upsert_by pk r t)"
  by (auto simp: upsert_by_def wf_table_def pk_overwrite lookup_by_None)

lemma lookup_insert_by [simp]:
  "lookup_by pk k (insert_by pk r t) =
    (if k = pk r \<and> lookup_by pk k t = None then Some r else lookup_by pk k t)"
  by (auto simp: insert_by_def lookup_by_append split: option.splits)

lemma wf_insert_by [simp]: "wf_table pk t \<Longrightarrow> wf_table pk (insert_by pk r t)"
  by (auto simp: insert_by_def wf_table_def lookup_by_None)

end
