(* ===== verification/Fenced_Claims.thy ===== *)
theory Fenced_Claims
  imports Main
begin

text \<open>
  The contract between a claim table and the processes that hold claims in it: an operation
  either issues a grant (an item and a fence token) or issues none, a grant carries a fence
  above every earlier one of its item, and no operation lowers a fence. The consequence for
  every run of operations is proved once: no fence is ever issued twice for an item, and a
  later grant carries a larger fence.
\<close>

locale fenced_claims =
  fixes inv :: "'db \<Rightarrow> bool"
    and fence_of :: "'db \<Rightarrow> 'i \<Rightarrow> int"
    and step :: "'db \<Rightarrow> ('i \<times> int) option \<Rightarrow> 'db \<Rightarrow> bool"
  assumes inv_step: "inv db \<Longrightarrow> step db g db' \<Longrightarrow> inv db'"
    and grant_raises: "inv db \<Longrightarrow> step db (Some (i, f)) db' \<Longrightarrow>
      fence_of db i < f \<and> fence_of db' i = f"
    and fence_mono: "inv db \<Longrightarrow> step db g db' \<Longrightarrow> fence_of db j \<le> fence_of db' j"
begin

inductive run :: "'db \<Rightarrow> ('i \<times> int) list \<Rightarrow> 'db \<Rightarrow> bool" for db where
  run_refl: "run db [] db"
| run_quiet: "run db gs db1 \<Longrightarrow> step db1 None db2 \<Longrightarrow> run db gs db2"
| run_grant: "run db gs db1 \<Longrightarrow> step db1 (Some g) db2 \<Longrightarrow> run db (gs @ [g]) db2"

lemma run_inv: "run db gs db' \<Longrightarrow> inv db \<Longrightarrow> inv db'"
  by (induction rule: run.induct) (auto intro: inv_step)

lemma run_bounds:
  assumes "run db gs db'" and "inv db"
  shows "fence_of db j \<le> fence_of db' j" and "(j, f) \<in> set gs \<Longrightarrow> fence_of db j < f \<and> f \<le> fence_of db' j"
proof -
  have "inv db' \<and> fence_of db j \<le> fence_of db' j \<and>
      (\<forall>f. (j, f) \<in> set gs \<longrightarrow> fence_of db j < f \<and> f \<le> fence_of db' j)"
    using assms
  proof (induction rule: run.induct)
    case run_refl
    then show ?case by simp
  next
    case (run_quiet gs db1 db2)
    then have a: "fence_of db1 j \<le> fence_of db2 j" by (blast intro: fence_mono)
    moreover have "inv db2" using run_quiet by (blast intro: inv_step)
    ultimately show ?case using run_quiet by fastforce
  next
    case (run_grant gs db1 g db2)
    obtain i f where g: "g = (i, f)" by (cases g)
    have a: "fence_of db1 j \<le> fence_of db2 j" using run_grant by (blast intro: fence_mono)
    have b: "fence_of db1 i < f \<and> fence_of db2 i = f" using run_grant g grant_raises [of db1 i f db2] by blast
    have "inv db2" using run_grant by (blast intro: inv_step)
    with a b g run_grant show ?case by fastforce
  qed
  then show "fence_of db j \<le> fence_of db' j"
    and "(j, f) \<in> set gs \<Longrightarrow> fence_of db j < f \<and> f \<le> fence_of db' j" by auto
qed

lemma run_increasing:
  assumes "run db gs db'" and "inv db"
  shows "\<forall>m n. m < n \<and> n < length gs \<and> fst (gs ! m) = fst (gs ! n) \<longrightarrow> snd (gs ! m) < snd (gs ! n)"
  using assms
proof (induction rule: run.induct)
  case (run_grant gs db1 g db2)
  obtain i f where g: "g = (i, f)" by (cases g)
  have f: "fence_of db1 i < f"
    using grant_raises run_inv run_grant g by blast
  have old: "m < length gs \<Longrightarrow> fst (gs ! m) = i \<Longrightarrow> snd (gs ! m) < f" for m
    using run_bounds(2) [OF run_grant.hyps(1) run_grant.prems, of i "snd (gs ! m)"] f
    by (metis nth_mem order.strict_trans1 prod.collapse)
  show ?case
  proof (intro allI impI)
    fix m n
    assume a: "m < n \<and> n < length (gs @ [g]) \<and> fst ((gs @ [g]) ! m) = fst ((gs @ [g]) ! n)"
    show "snd ((gs @ [g]) ! m) < snd ((gs @ [g]) ! n)"
    proof (cases "n < length gs")
      case True
      with a run_grant show ?thesis by (auto simp: nth_append)
    next
      case False
      with a have "n = length gs" by simp
      with a g old show ?thesis by (auto simp: nth_append)
    qed
  qed
qed simp_all

lemma run_distinct:
  assumes "run db gs db'" and "inv db"
  shows "distinct gs"
  unfolding distinct_conv_nth
proof (intro allI impI)
  fix m n assume mn: "m < length gs" "n < length gs" "m \<noteq> n"
  then consider "m < n" | "n < m" by linarith
  then show "gs ! m \<noteq> gs ! n"
    using run_increasing [OF assms] mn by cases (metis less_irrefl)+
qed

end

end
