(* ===== verification/Coord_Spine.thy ===== *)
theory Coord_Spine
  imports Sql_Table Fenced_Claims
begin

text \<open>
  The coordination spine (pkg/coord/coord.go): claim, lease, fence, reclaim and dispatch over
  the work-item, claim and dispatch tables. Every method is its SQL statements in order; a
  transaction that does not reach its commit leaves the database as it found it. Each statement
  reads the live clock, so the guard and the assignment of one statement get their own instants.
  \<open>faults\<close> says which statements fail with an infrastructure error, and \<open>env\<close> is what
  other transactions do between two statements that are not in one transaction.
\<close>

section \<open>Tables\<close>

record claim_row =
  work_item_id :: int
  holder_principal :: "string option"
  run_id :: "string option"
  fence_token :: int
  lease_expires_at :: "instant option"
  reclaim_fenced_at :: "instant option"

record item_row =
  item_id :: int
  item_state :: string

record dispatch_row =
  dispatch_run :: string
  dispatch_task :: string

record coord_db =
  work_items :: "item_row list"
  claims :: "claim_row list"
  dispatches :: "dispatch_row list"

record Config =
  LeaseInterval :: duration
  OpenState :: string
  ClaimedState :: string
  DoneState :: string

datatype stmt =
  SBegin | SPick | SAcquire | SMark | SRenew | SComplete | SReread | SInsert | SReadBack
| SStamp | SHolder | SCommit

type_synonym faults = "stmt \<Rightarrow> bool"

section \<open>Operations\<close>

definition free_at :: "instant \<Rightarrow> claim_row \<Rightarrow> bool" where
  "free_at t r \<longleftrightarrow> holder_principal r = None \<or> null_lt (lease_expires_at r) t"

definition acquireTx ::
  "Config \<Rightarrow> faults \<Rightarrow> instant \<Rightarrow> instant \<Rightarrow> int \<Rightarrow> string \<Rightarrow> string \<Rightarrow> coord_db \<Rightarrow> string + (int \<times> coord_db) option" where
  "acquireTx cfg flt tg ts item prin run db =
     (if flt SAcquire then Inl ''coord.acquire''
      else case row_key work_item_id item (free_at tg) (claims db) of
        None \<Rightarrow> Inr None
      | Some r \<Rightarrow>
          (let cl = upd_key work_item_id item (free_at tg)
                 (\<lambda>r. r\<lparr>holder_principal := Some prin, run_id := Some run,
                        fence_token := fence_token r + 1,
                        lease_expires_at := Some (ts + LeaseInterval cfg)\<rparr>) (claims db);
               open_guard = (\<lambda>w. item_state w \<noteq> DoneState cfg)
           in if flt SMark then Inl ''coord.acquire: mark claimed''
              else if aff_key item_id item open_guard (work_items db) \<noteq> 1 then Inr None
              else Inr (Some (fence_token r + 1,
                     db\<lparr>claims := cl,
                        work_items := upd_key item_id item open_guard
                          (\<lambda>w. w\<lparr>item_state := ClaimedState cfg\<rparr>) (work_items db)\<rparr>))))"

definition pick_open :: "Config \<Rightarrow> int set \<Rightarrow> coord_db \<Rightarrow> int option" where
  "pick_open cfg locked db =
     (let ids = map item_id (filter (\<lambda>w. item_state w = OpenState cfg \<and> item_id w \<notin> locked) (work_items db))
      in if ids = [] then None else Some (Min (set ids)))"

definition ClaimNext ::
  "Config \<Rightarrow> faults \<Rightarrow> int set \<Rightarrow> instant \<Rightarrow> instant \<Rightarrow> string \<Rightarrow> string \<Rightarrow> coord_db \<Rightarrow>
   (string + (int \<times> int) option) \<times> coord_db" where
  "ClaimNext cfg flt locked tg ts prin run db =
     (if flt SBegin then (Inl ''coord.ClaimNext: begin'', db)
      else if flt SPick then (Inl ''coord.ClaimNext: pick'', db)
      else case pick_open cfg locked db of
        None \<Rightarrow> (Inr None, db)
      | Some i \<Rightarrow>
          (case acquireTx cfg flt tg ts i prin run db of
             Inl e \<Rightarrow> (Inl e, db)
           | Inr None \<Rightarrow> (Inr None, db)
           | Inr (Some (f, db')) \<Rightarrow>
               (if flt SCommit then (Inl ''coord.ClaimNext: commit'', db)
                else (Inr (Some (i, f)), db'))))"

definition Acquire ::
  "Config \<Rightarrow> faults \<Rightarrow> instant \<Rightarrow> instant \<Rightarrow> int \<Rightarrow> string \<Rightarrow> string \<Rightarrow> coord_db \<Rightarrow>
   (string + int option) \<times> coord_db" where
  "Acquire cfg flt tg ts item prin run db =
     (if flt SBegin then (Inl ''coord.Acquire: begin'', db)
      else case acquireTx cfg flt tg ts item prin run db of
        Inl e \<Rightarrow> (Inl e, db)
      | Inr None \<Rightarrow> (Inr None, db)
      | Inr (Some (f, db')) \<Rightarrow>
          (if flt SCommit then (Inl ''coord.Acquire: commit'', db) else (Inr (Some f), db')))"

definition Renew ::
  "Config \<Rightarrow> faults \<Rightarrow> instant \<Rightarrow> instant \<Rightarrow> int \<Rightarrow> string \<Rightarrow> int \<Rightarrow> coord_db \<Rightarrow> (string + bool) \<times> coord_db" where
  "Renew cfg flt tg ts item prin fence db =
     (let G = (\<lambda>r. holder_principal r = Some prin \<and> fence_token r = fence \<and>
                   null_gt (lease_expires_at r) tg \<and>
                   row_key item_id item (\<lambda>w. item_state w \<noteq> DoneState cfg) (work_items db) \<noteq> None)
      in if flt SRenew then (Inl ''coord.Renew'', db)
         else (Inr (aff_key work_item_id item G (claims db) = 1),
               db\<lparr>claims := upd_key work_item_id item G
                    (\<lambda>r. r\<lparr>lease_expires_at := Some (ts + LeaseInterval cfg)\<rparr>) (claims db)\<rparr>))"

definition Complete ::
  "Config \<Rightarrow> faults \<Rightarrow> instant \<Rightarrow> int \<Rightarrow> string \<Rightarrow> int \<Rightarrow> coord_db \<Rightarrow> (string + bool) \<times> coord_db" where
  "Complete cfg flt tg item prin fence db =
     (let G = (\<lambda>w. item_state w = ClaimedState cfg \<and>
                   row_key work_item_id item
                     (\<lambda>r. holder_principal r = Some prin \<and> fence_token r = fence \<and>
                          null_gt (lease_expires_at r) tg) (claims db) \<noteq> None)
      in if flt SComplete then (Inl ''coord.Complete'', db)
         else (Inr (aff_key item_id item G (work_items db) = 1),
               db\<lparr>work_items := upd_key item_id item G
                    (\<lambda>w. w\<lparr>item_state := DoneState cfg\<rparr>) (work_items db)\<rparr>))"

definition live_custody :: "instant \<Rightarrow> string \<Rightarrow> string \<Rightarrow> int \<Rightarrow> claim_row \<Rightarrow> bool" where
  "live_custody t prin run fence r \<longleftrightarrow>
     holder_principal r = Some prin \<and> run_id r = Some run \<and> fence_token r = fence \<and>
     null_gt (lease_expires_at r) t"

definition RedriveClaim ::
  "Config \<Rightarrow> faults \<Rightarrow> (coord_db \<Rightarrow> coord_db) \<Rightarrow> instant \<Rightarrow> instant \<Rightarrow> instant \<Rightarrow>
   int \<Rightarrow> string \<Rightarrow> string \<Rightarrow> int \<Rightarrow> coord_db \<Rightarrow> (string + int option) \<times> coord_db" where
  "RedriveClaim cfg flt env tr tg ts item prin run fence db =
     (if flt SReread then (Inl ''coord.RedriveClaim: re-read'', db)
      else case row_key work_item_id item (live_custody tr prin run fence) (claims db) of
        Some r \<Rightarrow> (Inr (Some (fence_token r)), db)
      | None \<Rightarrow> Acquire cfg flt tg ts item prin run (env db))"

definition DispatchOnce ::
  "faults \<Rightarrow> (coord_db \<Rightarrow> coord_db) \<Rightarrow> instant \<Rightarrow> int \<Rightarrow> string \<Rightarrow> string \<Rightarrow> int \<Rightarrow> string \<Rightarrow> coord_db \<Rightarrow>
   (string + string) \<times> coord_db" where
  "DispatchOnce flt env tg item prin run fence taskID db =
     (if flt SInsert then (Inl ''coord.DispatchOnce: insert'', db)
      else
        let db1 = (if row_key work_item_id item (live_custody tg prin run fence) (claims db) \<noteq> None
                   then db\<lparr>dispatches :=
                          insert_by dispatch_run \<lparr>dispatch_run = run, dispatch_task = taskID\<rparr> (dispatches db)\<rparr>
                   else db);
            db2 = env db1
        in if flt SReadBack then (Inl ''coord.DispatchOnce: read-back'', db2)
           else (Inr (case lookup_by dispatch_run run (dispatches db2) of
                        Some d \<Rightarrow> dispatch_task d
                      | None \<Rightarrow> []), db2))"

text \<open>
  The resource-layer fencer is the operator's, outside this package: a parameter that maps an
  item and its outgoing holder and run to an error, or to nothing once the fence is confirmed.
  The last component of the result lists the fence calls that were made.
\<close>

type_synonym fencer = "int \<Rightarrow> string \<Rightarrow> string \<Rightarrow> string option"

definition null_string :: "string option \<Rightarrow> string" where
  "null_string s = (case s of None \<Rightarrow> [] | Some x \<Rightarrow> x)"

definition outgoing :: "int \<Rightarrow> coord_db \<Rightarrow> string \<times> string" where
  "outgoing item db =
     (case lookup_by work_item_id item (claims db) of
        None \<Rightarrow> ([], [])
      | Some r \<Rightarrow> (null_string (holder_principal r), null_string (run_id r)))"

definition ReclaimFenced ::
  "Config \<Rightarrow> faults \<Rightarrow> fencer option \<Rightarrow> instant \<Rightarrow> instant \<Rightarrow> instant \<Rightarrow> int \<Rightarrow> string \<Rightarrow> string \<Rightarrow> coord_db \<Rightarrow>
   (string + int) \<times> coord_db \<times> (int \<times> string \<times> string) list" where
  "ReclaimFenced cfg flt fencer t0 tg ts item newPrincipal newRun db =
     (if flt SBegin then (Inl ''coord.ReclaimFenced: begin'', db, [])
      else if flt SStamp then (Inl ''coord.ReclaimFenced: stamp fence'', db, [])
      else
        let db1 = db\<lparr>claims := upd_key work_item_id item (\<lambda>_. True)
                       (\<lambda>r. r\<lparr>reclaim_fenced_at := Some t0\<rparr>) (claims db)\<rparr>;
            who = outgoing item db1;
            calls = (if fencer = None then [] else [(item, who)]);
            release = (case acquireTx cfg flt tg ts item newPrincipal newRun db1 of
                Inl e \<Rightarrow> (Inl e, db, calls)
              | Inr None \<Rightarrow> (Inl ''coord.ReclaimFenced: still holds a live lease'', db, calls)
              | Inr (Some (f, db')) \<Rightarrow>
                  (if flt SCommit then (Inl ''coord.ReclaimFenced: commit'', db, calls)
                   else (Inr f, db', calls)))
        in case fencer of
             None \<Rightarrow> release
           | Some fence \<Rightarrow>
               (if flt SHolder then (Inl ''coord.ReclaimFenced: read holder'', db, [])
                else case fence item (fst who) (snd who) of
                  Some e \<Rightarrow> (Inl (''coord.ReclaimFenced: resource-layer fence unconfirmed: '' @ e), db, calls)
                | None \<Rightarrow> release))"

section \<open>Well-formed databases\<close>

text \<open>Primary keys are unique, and the configured lifecycle values are distinct.\<close>

definition wf_db :: "coord_db \<Rightarrow> bool" where
  "wf_db db \<longleftrightarrow> wf_table work_item_id (claims db) \<and> wf_table item_id (work_items db) \<and>
     wf_table dispatch_run (dispatches db)"

definition wf_config :: "Config \<Rightarrow> bool" where
  "wf_config cfg \<longleftrightarrow> 0 < LeaseInterval cfg \<and> OpenState cfg \<noteq> ClaimedState cfg \<and>
     OpenState cfg \<noteq> DoneState cfg \<and> ClaimedState cfg \<noteq> DoneState cfg"

abbreviation claim_of :: "coord_db \<Rightarrow> int \<Rightarrow> claim_row option" where
  "claim_of db i \<equiv> lookup_by work_item_id i (claims db)"

abbreviation item_of :: "coord_db \<Rightarrow> int \<Rightarrow> item_row option" where
  "item_of db i \<equiv> lookup_by item_id i (work_items db)"

abbreviation marker_of :: "coord_db \<Rightarrow> string \<Rightarrow> dispatch_row option" where
  "marker_of db r \<equiv> lookup_by dispatch_run r (dispatches db)"

definition fence_at :: "coord_db \<Rightarrow> int \<Rightarrow> int" where
  "fence_at db i = (case claim_of db i of None \<Rightarrow> 0 | Some r \<Rightarrow> fence_token r)"

lemma fence_at_alt:
  "fence_at db i = (case map_option fence_token (claim_of db i) of None \<Rightarrow> 0 | Some f \<Rightarrow> f)"
  by (simp add: fence_at_def split: option.splits)

text \<open>What a successful acquire did, in terms of the keyed rows.\<close>

lemma acquireTx_Some:
  assumes "acquireTx cfg flt tg ts item p run db = Inr (Some (f, db'))" and "wf_db db"
  shows "\<exists>r w. claim_of db item = Some r \<and> free_at tg r \<and> f = fence_token r + 1 \<and>
    item_of db item = Some w \<and> item_state w \<noteq> DoneState cfg \<and> wf_db db' \<and>
    (\<forall>j. claim_of db' j = (if j = item then
       Some (r\<lparr>holder_principal := Some p, run_id := Some run, fence_token := f,
               lease_expires_at := Some (ts + LeaseInterval cfg)\<rparr>) else claim_of db j)) \<and>
    (\<forall>j. item_of db' j = (if j = item then Some (w\<lparr>item_state := ClaimedState cfg\<rparr>) else item_of db j)) \<and>
    dispatches db' = dispatches db"
  using assms
  by (auto simp: acquireTx_def wf_db_def row_key_wf aff_key_wf Let_def split: if_splits option.splits)

lemma acquireTx_None:
  assumes "wf_db db" and "\<not> flt SAcquire"
    and "claim_of db item = Some r" and "\<not> free_at tg r"
  shows "acquireTx cfg flt tg ts item p run db = Inr None"
  using assms by (simp add: acquireTx_def wf_db_def row_key_wf)

lemma Acquire_cases:
  assumes "Acquire cfg flt tg ts item p run db = (res, db')"
  obtains (refused) "db' = db" "\<And>f. res \<noteq> Inr (Some f)"
  | (granted) f where "res = Inr (Some f)" "acquireTx cfg flt tg ts item p run db = Inr (Some (f, db'))"
  using assms
  by (auto simp: Acquire_def split: if_splits sum.splits option.splits prod.splits)

lemma ClaimNext_cases:
  assumes "ClaimNext cfg flt locked tg ts p run db = (res, db')"
  obtains (refused) "db' = db" "\<And>g. res \<noteq> Inr (Some g)"
  | (granted) i f where "res = Inr (Some (i, f))" "pick_open cfg locked db = Some i"
      "acquireTx cfg flt tg ts i p run db = Inr (Some (f, db'))"
  using assms
  by (auto simp: ClaimNext_def split: if_splits sum.splits option.splits prod.splits)

lemma pick_open_Some:
  assumes "pick_open cfg locked db = Some i"
  shows "i \<notin> locked \<and> (\<exists>w\<in>set (work_items db). item_id w = i \<and> item_state w = OpenState cfg) \<and>
    (\<forall>w\<in>set (work_items db). item_state w = OpenState cfg \<and> item_id w \<notin> locked \<longrightarrow> i \<le> item_id w)"
proof -
  let ?ids = "map item_id (filter (\<lambda>w. item_state w = OpenState cfg \<and> item_id w \<notin> locked) (work_items db))"
  have ne: "set ?ids \<noteq> {}" and i: "i = Min (set ?ids)"
    using assms by (auto simp: pick_open_def Let_def filter_empty_conv split: if_splits)
  have "i \<in> set ?ids" unfolding i by (rule Min_in) (use ne in auto)
  moreover have "x \<in> set ?ids \<Longrightarrow> i \<le> x" for x unfolding i by (rule Min_le) auto
  ultimately show ?thesis by auto
qed

section \<open>What each operation does to the keyed rows\<close>

lemma Renew_effect:
  assumes "Renew cfg flt tg ts item p f db = (res, db')" and "wf_db db"
  shows "wf_db db' \<and> work_items db' = work_items db \<and> dispatches db' = dispatches db \<and>
    (\<forall>j. map_option fence_token (claim_of db' j) = map_option fence_token (claim_of db j)) \<and>
    (res \<noteq> Inr True \<longrightarrow> db' = db) \<and>
    (res = Inr True \<longrightarrow> (\<exists>r w. claim_of db item = Some r \<and> holder_principal r = Some p \<and> fence_token r = f \<and>
       null_gt (lease_expires_at r) tg \<and> item_of db item = Some w \<and> item_state w \<noteq> DoneState cfg))"
  using assms
  by (auto simp: Renew_def wf_db_def row_key_wf aff_key_wf Let_def upd_key_id upd_key_no_guard
      split: if_splits option.splits)

lemma Complete_effect:
  assumes "Complete cfg flt tg item p f db = (res, db')" and "wf_db db"
  shows "wf_db db' \<and> claims db' = claims db \<and> dispatches db' = dispatches db \<and>
    (res \<noteq> Inr True \<longrightarrow> db' = db) \<and>
    (res = Inr True \<longrightarrow> (\<exists>r w. claim_of db item = Some r \<and> holder_principal r = Some p \<and> fence_token r = f \<and>
       null_gt (lease_expires_at r) tg \<and> item_of db item = Some w \<and> item_state w = ClaimedState cfg \<and>
       (\<forall>j. item_of db' j = (if j = item then Some (w\<lparr>item_state := DoneState cfg\<rparr>) else item_of db j))))"
  using assms
  by (auto simp: Complete_def wf_db_def row_key_wf aff_key_wf Let_def upd_key_id upd_key_no_guard
      split: if_splits option.splits)

lemma DispatchOnce_effect:
  assumes "DispatchOnce flt (\<lambda>d. d) tg item p run f task db = (res, db')" and "wf_db db"
  shows "wf_db db' \<and> claims db' = claims db \<and> work_items db' = work_items db \<and>
    (\<forall>r d. marker_of db r = Some d \<longrightarrow> marker_of db' r = Some d) \<and>
    (db' \<noteq> db \<longrightarrow> (\<exists>r. claim_of db item = Some r \<and> live_custody tg p run f r))"
  using assms
  by (auto simp: DispatchOnce_def wf_db_def row_key_wf Let_def split: if_splits option.splits)

lemma ReclaimFenced_cases:
  assumes "ReclaimFenced cfg flt fencer t0 tg ts item p run db = (res, db', calls)"
  obtains (refused) e where "res = Inl e" "db' = db"
  | (granted) f where "res = Inr f"
      "acquireTx cfg flt tg ts item p run
        (db\<lparr>claims := upd_key work_item_id item (\<lambda>_. True) (\<lambda>r. r\<lparr>reclaim_fenced_at := Some t0\<rparr>) (claims db)\<rparr>)
        = Inr (Some (f, db'))"
      "\<forall>fence. fencer = Some fence \<longrightarrow>
        calls = [(item, outgoing item db)] \<and> fence item (fst (outgoing item db)) (snd (outgoing item db)) = None"
proof -
  have same: "outgoing item (db\<lparr>claims := upd_key work_item_id item (\<lambda>_. True)
      (\<lambda>r. r\<lparr>reclaim_fenced_at := Some t0\<rparr>) (claims db)\<rparr>) = outgoing item db"
    by (auto simp: outgoing_def split: option.splits)
  show thesis
    using assms that
    by (auto simp: ReclaimFenced_def Let_def same split: if_splits sum.splits option.splits prod.splits)
qed

section \<open>Steps of the spine\<close>

definition issued :: "int \<Rightarrow> string + int option \<Rightarrow> (int \<times> int) option" where
  "issued item res = (case res of Inr (Some f) \<Rightarrow> Some (item, f) | _ \<Rightarrow> None)"

definition issued_next :: "string + (int \<times> int) option \<Rightarrow> (int \<times> int) option" where
  "issued_next res = (case res of Inr g \<Rightarrow> g | Inl _ \<Rightarrow> None)"

definition issued_reclaim :: "int \<Rightarrow> string + int \<Rightarrow> (int \<times> int) option" where
  "issued_reclaim item res = (case res of Inr f \<Rightarrow> Some (item, f) | Inl _ \<Rightarrow> None)"

text \<open>
  One transaction by any process, at any instants, with any faults, and the grant it issues.
  New items arrive open with their claim row at fence zero.
\<close>

inductive spine_step :: "Config \<Rightarrow> coord_db \<Rightarrow> (int \<times> int) option \<Rightarrow> coord_db \<Rightarrow> bool" for cfg where
  claim_next: "ClaimNext cfg flt locked tg ts p run db = (res, db') \<Longrightarrow> spine_step cfg db (issued_next res) db'"
| acquire: "Acquire cfg flt tg ts item p run db = (res, db') \<Longrightarrow> spine_step cfg db (issued item res) db'"
| renew: "Renew cfg flt tg ts item p f db = (res, db') \<Longrightarrow> spine_step cfg db None db'"
| complete: "Complete cfg flt tg item p f db = (res, db') \<Longrightarrow> spine_step cfg db None db'"
| dispatch: "DispatchOnce flt (\<lambda>d. d) tg item p run f task db = (res, db') \<Longrightarrow> spine_step cfg db None db'"
| reclaim: "ReclaimFenced cfg flt fencer t0 tg ts item p run db = (res, db', calls) \<Longrightarrow>
    spine_step cfg db (issued_reclaim item res) db'"
| new_item: "item_of db i = None \<Longrightarrow> claim_of db i = None \<Longrightarrow>
    spine_step cfg db None
      (db\<lparr>work_items := work_items db @ [\<lparr>item_id = i, item_state = OpenState cfg\<rparr>],
          claims := claims db @ [\<lparr>work_item_id = i, holder_principal = None, run_id = None, fence_token = 0,
                                  lease_expires_at = None, reclaim_fenced_at = None\<rparr>]\<rparr>)"

inductive_cases spine_step_cases: "spine_step cfg db g db'"

lemma stamp_rows:
  fixes db item t0
  defines "db1 \<equiv> db\<lparr>claims := upd_key work_item_id item (\<lambda>_. True) (\<lambda>r. r\<lparr>reclaim_fenced_at := Some t0\<rparr>) (claims db)\<rparr>"
  shows "wf_db db1 = wf_db db" and "fence_at db1 j = fence_at db j" and "item_of db1 j = item_of db j"
    and "dispatches db1 = dispatches db"
  by (auto simp: db1_def wf_db_def fence_at_def split: option.splits)

lemma acquireTx_step:
  assumes "acquireTx cfg flt tg ts item p run db = Inr (Some (f, db'))" and "wf_db db"
  shows "wf_db db'" and "fence_at db item < f" and "fence_at db' item = f" and "fence_at db j \<le> fence_at db' j"
  using acquireTx_Some [OF assms] by (auto simp: fence_at_def)

lemma spine_step_fences:
  assumes "spine_step cfg db g db'" and "wf_db db"
  shows "wf_db db' \<and> fence_at db j \<le> fence_at db' j \<and>
    (\<forall>i f. g = Some (i, f) \<longrightarrow> fence_at db i < f \<and> fence_at db' i = f)"
  using assms
proof (induction rule: spine_step.induct)
  case (claim_next flt locked tg ts p run db res db')
  from claim_next(1) show ?case
  proof (cases rule: ClaimNext_cases)
    case refused
    then have "issued_next res = None"
      by (cases "issued_next res") (auto simp: issued_next_def split: sum.splits)
    with refused claim_next show ?thesis by simp
  next
    case (granted i f)
    from acquireTx_step [OF granted(3)] granted(1) claim_next show ?thesis
      by (simp add: issued_next_def)
  qed
next
  case (acquire flt tg ts item p run db res db')
  from acquire(1) show ?case
  proof (cases rule: Acquire_cases)
    case refused
    then have "issued item res = None" by (auto simp: issued_def split: sum.splits option.splits)
    with refused acquire show ?thesis by simp
  next
    case (granted f)
    from acquireTx_step [OF granted(2)] granted(1) acquire show ?thesis
      by (simp add: issued_def)
  qed
next
  case (renew flt tg ts item p f db res db')
  from Renew_effect [OF this] show ?case
    by (simp add: fence_at_alt)
next
  case (complete flt tg item p f db res db')
  from Complete_effect [OF this] show ?case by (simp add: fence_at_def)
next
  case (dispatch flt tg item p run f task db res db')
  from DispatchOnce_effect [OF this] show ?case by (simp add: fence_at_def)
next
  case (reclaim flt fencer t0 tg ts item p run db res db' calls)
  from reclaim(1) show ?case
  proof (cases rule: ReclaimFenced_cases)
    case (refused e)
    with reclaim show ?thesis by (simp add: issued_reclaim_def)
  next
    case (granted f)
    from acquireTx_step [OF granted(2)] granted(1) reclaim show ?thesis
      by (simp add: issued_reclaim_def stamp_rows)
  qed
next
  case (new_item db i)
  let ?db' = "db\<lparr>work_items := work_items db @ [\<lparr>item_id = i, item_state = OpenState cfg\<rparr>],
    claims := claims db @ [\<lparr>work_item_id = i, holder_principal = None, run_id = None, fence_token = 0,
                            lease_expires_at = None, reclaim_fenced_at = None\<rparr>]\<rparr>"
  have "wf_db ?db'" using new_item by (auto simp: wf_db_def wf_table_def lookup_by_None)
  moreover have "fence_at db j \<le> fence_at ?db' j"
    using new_item by (auto simp: fence_at_def lookup_by_append split: option.splits)
  ultimately show ?case by simp
qed

interpretation spine: fenced_claims wf_db fence_at "spine_step cfg" for cfg
  by unfold_locales (use spine_step_fences in blast)+

section \<open>Completed items and dispatch markers over a run\<close>

lemma acquireTx_done:
  assumes "acquireTx cfg flt tg ts item p run db = Inr (Some (f, db'))" and "wf_db db"
    and "item_of db i = Some w" and "item_state w = DoneState cfg"
  shows "item_of db' i = Some w"
  using acquireTx_Some [OF assms(1,2)] assms(3,4) by auto

lemma spine_step_done:
  assumes "spine_step cfg db g db'" and "wf_db db" and "wf_config cfg"
    and "item_of db i = Some w" and "item_state w = DoneState cfg"
  shows "item_of db' i = Some w"
  using assms
proof (induction rule: spine_step.induct)
  case (claim_next flt locked tg ts p run db res db')
  from claim_next(1) show ?case
    by (cases rule: ClaimNext_cases) (use claim_next acquireTx_done in blast)+
next
  case (acquire flt tg ts item p run db res db')
  from acquire(1) show ?case
    by (cases rule: Acquire_cases) (use acquire acquireTx_done in blast)+
next
  case (renew flt tg ts item p f db res db')
  then show ?case using Renew_effect by metis
next
  case (complete flt tg item p f db res db')
  then show ?case
    using Complete_effect [OF complete(1,2)]
    by (cases "res = Inr True"; cases "i = item") (auto simp: wf_config_def)
next
  case (dispatch flt tg item p run f task db res db')
  then show ?case using DispatchOnce_effect by metis
next
  case (reclaim flt fencer t0 tg ts item p run db res db' calls)
  from reclaim(1) show ?case
  proof (cases rule: ReclaimFenced_cases)
    case (granted f)
    from acquireTx_done [OF granted(2)] reclaim show ?thesis by (simp add: stamp_rows)
  qed (use reclaim in simp)
next
  case (new_item db j)
  then show ?case by (simp add: lookup_by_append)
qed

lemma acquireTx_dispatches:
  "acquireTx cfg flt tg ts item p run db = Inr (Some (f, db')) \<Longrightarrow> dispatches db' = dispatches db"
  by (auto simp: acquireTx_def Let_def split: if_splits option.splits)

lemma spine_step_marker:
  assumes "spine_step cfg db g db'" and "wf_db db" and "marker_of db run = Some d"
  shows "marker_of db' run = Some d"
  using assms
proof (induction rule: spine_step.induct)
  case (claim_next flt locked tg ts p r db res db')
  from claim_next(1) show ?case
    by (cases rule: ClaimNext_cases) (use claim_next acquireTx_dispatches in metis)+
next
  case (acquire flt tg ts item p r db res db')
  from acquire(1) show ?case
    by (cases rule: Acquire_cases) (use acquire acquireTx_dispatches in metis)+
next
  case (renew flt tg ts item p f db res db')
  then show ?case using Renew_effect by metis
next
  case (complete flt tg item p f db res db')
  then show ?case using Complete_effect by metis
next
  case (dispatch flt tg item p r f task db res db')
  then show ?case using DispatchOnce_effect by metis
next
  case (reclaim flt fencer t0 tg ts item p r db res db' calls)
  from reclaim(1) show ?case
  proof (cases rule: ReclaimFenced_cases)
    case (granted f)
    from acquireTx_dispatches [OF granted(2)] reclaim show ?thesis by simp
  qed (use reclaim in simp)
next
  case (new_item db j)
  then show ?case by simp
qed

lemma run_done:
  assumes "spine.run cfg db gs db'" and "wf_db db" and "wf_config cfg"
    and "item_of db i = Some w" and "item_state w = DoneState cfg"
  shows "item_of db' i = Some w"
  using assms
  by (induction rule: spine.run.induct) (auto intro: spine_step_done spine.run_inv)

lemma run_marker:
  assumes "spine.run cfg db gs db'" and "wf_db db" and "marker_of db run = Some d"
  shows "marker_of db' run = Some d"
  using assms
  by (induction rule: spine.run.induct) (auto intro: spine_step_marker spine.run_inv)

section \<open>Properties\<close>

definition harness :: Config where
  "harness = \<lparr>LeaseInterval = 1000000000, OpenState = ''open'', ClaimedState = ''claimed'', DoneState = ''done''\<rparr>"

definition one_item :: coord_db where
  "one_item = \<lparr>work_items = [\<lparr>item_id = 1, item_state = ''open''\<rparr>],
     claims = [\<lparr>work_item_id = 1, holder_principal = None, run_id = None, fence_token = 0,
                lease_expires_at = None, reclaim_fenced_at = None\<rparr>],
     dispatches = []\<rparr>"

definition done_item :: coord_db where
  "done_item = one_item\<lparr>work_items := [\<lparr>item_id = 1, item_state = ''done''\<rparr>]\<rparr>"

definition no_faults :: faults where
  "no_faults = (\<lambda>_. False)"

lemma one_item_wf: "wf_db one_item"
  by (simp add: one_item_def wf_db_def wf_table_def)

lemma two_grants_run:
  "\<exists>db. spine.run harness one_item [(1, 1), (1, 2)] db"
proof -
  let ?A = "\<lambda>t p db. Acquire harness no_faults t t 1 p p db"
  obtain r1 d1 where a1: "?A 0 ''alice'' one_item = (r1, d1)" by fastforce
  obtain r2 d2 where a2: "?A 5000000000 ''bob'' d1 = (r2, d2)" by fastforce
  have d1: "r1 = Inr (Some 1)" "d1 = snd (?A 0 ''alice'' one_item)"
    using a1 by (simp_all add: Acquire_def acquireTx_def one_item_def harness_def no_faults_def free_at_def
      row_key_def sql_row_def aff_key_def sql_affected_def Let_def)
  have "r2 = Inr (Some 2)"
    using a2 unfolding d1(2)
    by (simp add: Acquire_def acquireTx_def one_item_def harness_def no_faults_def free_at_def
      row_key_def sql_row_def aff_key_def sql_affected_def Let_def)
  with d1 have g: "issued 1 r1 = Some (1, 1)" "issued 1 r2 = Some (1, 2)" by (simp_all add: issued_def)
  have "spine.run harness one_item ([] @ [(1, 1)]) d1"
    using spine.run.run_grant [OF spine.run.run_refl] spine_step.acquire [OF a1] g by metis
  then have "spine.run harness one_item (([] @ [(1, 1)]) @ [(1, 2)]) d2"
    using spine.run.run_grant spine_step.acquire [OF a2] g by metis
  then show ?thesis by auto
qed

text \<open>
  C4. Fences are monotonic and never reused: over any run of spine transactions by any
  processes, at any instants and with any infrastructure faults, the grants issued are pairwise
  distinct, a later grant of an item carries a strictly larger fence than an earlier one, and
  every issued fence lies above the item's initial fence and at most at its current one.
\<close>

theorem spine_fences_never_reused:
  assumes "spine.run cfg db gs db'" and "wf_db db"
  shows "distinct gs \<and>
    (\<forall>m n. m < n \<and> n < length gs \<and> fst (gs ! m) = fst (gs ! n) \<longrightarrow> snd (gs ! m) < snd (gs ! n)) \<and>
    (\<forall>i f. (i, f) \<in> set gs \<longrightarrow> fence_at db i < f \<and> f \<le> fence_at db' i)"
  using spine.run_distinct [OF assms] spine.run_increasing [OF assms] spine.run_bounds(2) [OF assms]
  by auto

theorem spine_fences_never_reused_witness:
  "\<exists>db. spine.run harness one_item [(1, 1), (1, 2)] db \<and> 2 \<le> fence_at db 1"
proof -
  obtain db where r: "spine.run harness one_item [(1, 1), (1, 2)] db" using two_grants_run ..
  from spine_fences_never_reused [OF r one_item_wf] have "2 \<le> fence_at db 1" by auto
  with r show ?thesis by blast
qed

text \<open>Every operation under a fence below the row's is refused, whatever raised the fence.\<close>

lemma stale_fence_refused:
  assumes wf': "wf_db db" and lt: "f < fence_at db i"
  shows "snd (Renew cfg flt tg ts i p f db) = db \<and> fst (Renew cfg flt tg ts i p f db) \<noteq> Inr True \<and>
    snd (Complete cfg flt tg i p f db) = db \<and> fst (Complete cfg flt tg i p f db) \<noteq> Inr True \<and>
    snd (DispatchOnce flt (\<lambda>d. d) tg i p r f task db) = db \<and>
    fst (RedriveClaim cfg flt (\<lambda>d. d) tr tg ts i p r f db) \<noteq> Inr (Some f)"
proof -
  have stale: "claim_of db i = Some c \<Longrightarrow> fence_token c \<noteq> f" for c
    using lt by (simp add: fence_at_def)
  have re: "snd (Renew cfg flt tg ts i p f db) = db \<and> fst (Renew cfg flt tg ts i p f db) \<noteq> Inr True"
    using Renew_effect [OF _ wf', of cfg flt tg ts i p f] stale by (metis prod.collapse)
  have co: "snd (Complete cfg flt tg i p f db) = db \<and> fst (Complete cfg flt tg i p f db) \<noteq> Inr True"
    using Complete_effect [OF _ wf', of cfg flt tg i p f] stale by (metis prod.collapse)
  have di: "snd (DispatchOnce flt (\<lambda>d. d) tg i p r f task db) = db"
    using DispatchOnce_effect [OF _ wf', of flt tg i p r f task] stale
    by (metis live_custody_def prod.collapse)
  have rd: "fst (RedriveClaim cfg flt (\<lambda>d. d) tr tg ts i p r f db) \<noteq> Inr (Some f)"
  proof
    assume a: "fst (RedriveClaim cfg flt (\<lambda>d. d) tr tg ts i p r f db) = Inr (Some f)"
    have "row_key work_item_id i (live_custody tr p r f) (claims db) = None"
      using wf' stale by (auto simp: wf_db_def row_key_wf live_custody_def split: option.splits)
    then have "fst (Acquire cfg flt tg ts i p r db) = Inr (Some f)"
      using a by (auto simp: RedriveClaim_def split: if_splits)
    then obtain db' where "Acquire cfg flt tg ts i p r db = (Inr (Some f), db')"
      by (metis prod.collapse)
    then show False
      by (cases rule: Acquire_cases) (use acquireTx_step(2) [OF _ wf'] lt in fastforce)+
  qed
  show ?thesis using re co di rd by blast
qed

text \<open>
  No zombie write: once an item has been granted again, every operation under the earlier
  grant's fence is refused and changes nothing, whoever issues it and whenever: the heartbeat,
  the completing write, and the recording of a dispatch marker; and a re-drive under the old
  fence can only succeed by a fresh acquire with a different fence.
\<close>

theorem stale_grant_is_refused:
  assumes run: "spine.run cfg db0 gs db" and wf: "wf_db db0"
    and old: "m < n" "n < length gs" "gs ! m = (i, f)" "gs ! n = (i, f')"
  shows "snd (Renew cfg flt tg ts i p f db) = db \<and> fst (Renew cfg flt tg ts i p f db) \<noteq> Inr True \<and>
    snd (Complete cfg flt tg i p f db) = db \<and> fst (Complete cfg flt tg i p f db) \<noteq> Inr True \<and>
    snd (DispatchOnce flt (\<lambda>d. d) tg i p r f task db) = db \<and>
    fst (RedriveClaim cfg flt (\<lambda>d. d) tr tg ts i p r f db) \<noteq> Inr (Some f)"
proof -
  have "f < f'" using spine.run_increasing [OF run wf] old by fastforce
  moreover have "f' \<le> fence_at db i"
    using spine.run_bounds(2) [OF run wf, of i f'] old nth_mem by metis
  ultimately have "f < fence_at db i" by simp
  with spine.run_inv [OF run wf] show ?thesis by (rule stale_fence_refused)
qed

theorem stale_grant_is_refused_witness:
  "\<exists>db. spine.run harness one_item [(1, 1), (1, 2)] db \<and>
    snd (Complete harness no_faults 0 1 ''alice'' 1 db) = db \<and>
    fst (Renew harness no_faults 0 0 1 ''alice'' 1 db) \<noteq> Inr True"
proof -
  obtain db where r: "spine.run harness one_item [(1, 1), (1, 2)] db" using two_grants_run ..
  have "snd (Complete harness no_faults 0 1 ''alice'' 1 db) = db \<and>
      fst (Renew harness no_faults 0 0 1 ''alice'' 1 db) \<noteq> Inr True"
    using stale_grant_is_refused [OF r one_item_wf, of 0 1 1 1 2 no_faults 0 0 "''alice''"] by simp
  with r show ?thesis by blast
qed

text \<open>
  Mutual exclusion in time: while the recorded holder's lease has not lapsed at the instant
  a guard reads the clock, no acquire, queue pull or reclaim by anyone takes the item, and an
  acquire or a reclaim aimed at it leaves the whole database unchanged.
\<close>

theorem live_lease_excludes:
  assumes "wf_db db" and "claim_of db i = Some r" and "holder_principal r = Some h"
    and "lease_expires_at r = Some l" and "tg \<le> l"
  shows "(\<forall>f. fst (Acquire cfg flt tg ts i p run db) \<noteq> Inr (Some f)) \<and>
    snd (Acquire cfg flt tg ts i p run db) = db \<and>
    (\<forall>f. fst (ClaimNext cfg flt locked tg ts p run db) \<noteq> Inr (Some (i, f))) \<and>
    (\<exists>e. fst (ReclaimFenced cfg flt fencer t0 tg ts i p run db) = Inl e) \<and>
    fst (snd (ReclaimFenced cfg flt fencer t0 tg ts i p run db)) = db"
proof -
  have held: "acquireTx cfg flt tg ts i p run d \<noteq> Inr (Some (f, d'))"
    if "wf_db d" and "claim_of d i = Some c" and "\<not> free_at tg c" for d c f d'
    using acquireTx_Some [of cfg flt tg ts i p run d f d'] that by auto
  have nf: "\<not> free_at tg r" using assms by (simp add: free_at_def)
  let ?db1 = "db\<lparr>claims := upd_key work_item_id i (\<lambda>_. True) (\<lambda>r. r\<lparr>reclaim_fenced_at := Some t0\<rparr>) (claims db)\<rparr>"
  have h0: "acquireTx cfg flt tg ts i p run db \<noteq> Inr (Some (f, d'))" for f d'
    using held [OF assms(1,2) nf] .
  have h1: "acquireTx cfg flt tg ts i p run ?db1 \<noteq> Inr (Some (f, d'))" for f d'
    using held [of ?db1 "r\<lparr>reclaim_fenced_at := Some t0\<rparr>"] assms nf by (simp add: stamp_rows free_at_def)
  have a: "(\<forall>f. fst (Acquire cfg flt tg ts i p run db) \<noteq> Inr (Some f)) \<and> snd (Acquire cfg flt tg ts i p run db) = db"
    using h0 by (metis Acquire_cases prod.collapse)
  obtain rn dn where "ClaimNext cfg flt locked tg ts p run db = (rn, dn)" by fastforce
  then have b: "\<forall>f. fst (ClaimNext cfg flt locked tg ts p run db) \<noteq> Inr (Some (i, f))"
    by (cases rule: ClaimNext_cases) (use h0 in \<open>auto simp: \<open>ClaimNext _ _ _ _ _ _ _ _ = _\<close>\<close>)
  obtain res d calls where "ReclaimFenced cfg flt fencer t0 tg ts i p run db = (res, d, calls)"
    by (metis prod_cases3)
  then have c: "\<exists>e. res = Inl e \<and> d = db" by (cases rule: ReclaimFenced_cases) (use h1 in auto)
  show ?thesis using a b c \<open>ReclaimFenced _ _ _ _ _ _ _ _ _ _ = _\<close> by auto
qed

theorem live_lease_excludes_witness:
  "snd (Acquire harness no_faults 10 10 1 ''bob'' ''r2''
      (one_item\<lparr>claims := [\<lparr>work_item_id = 1, holder_principal = Some ''alice'', run_id = Some ''r1'',
         fence_token = 1, lease_expires_at = Some 20, reclaim_fenced_at = None\<rparr>]\<rparr>))
   = one_item\<lparr>claims := [\<lparr>work_item_id = 1, holder_principal = Some ''alice'', run_id = Some ''r1'',
         fence_token = 1, lease_expires_at = Some 20, reclaim_fenced_at = None\<rparr>]\<rparr>"
proof -
  let ?r = "\<lparr>work_item_id = 1, holder_principal = Some ''alice'', run_id = Some ''r1'',
         fence_token = 1, lease_expires_at = Some 20, reclaim_fenced_at = None\<rparr>"
  let ?db = "one_item\<lparr>claims := [?r]\<rparr>"
  have "wf_db ?db" "claim_of ?db 1 = Some ?r" by (simp_all add: one_item_def wf_db_def wf_table_def)
  from live_lease_excludes [OF this, of "''alice''" 20 10] show ?thesis by simp
qed

text \<open>
  A completed item is final: over any run of spine transactions the row of a done item
  does not change, so neither a queue pull nor the reclaim of its expired lease reopens it.
\<close>

theorem done_item_is_final:
  assumes "spine.run cfg db gs db'" and "wf_db db" and "wf_config cfg"
    and "item_of db i = Some w" and "item_state w = DoneState cfg"
  shows "item_of db' i = Some w"
  using assms by (rule run_done)

theorem done_item_is_final_witness:
  "item_of (snd (Acquire harness no_faults 0 0 1 ''bob'' ''r'' done_item)) 1
    = Some \<lparr>item_id = 1, item_state = ''done''\<rparr>"
proof -
  let ?x = "Acquire harness no_faults 0 0 1 ''bob'' ''r'' done_item"
  have wf: "wf_db done_item" "wf_config harness" "item_of done_item 1 = Some \<lparr>item_id = 1, item_state = ''done''\<rparr>"
    by (simp_all add: done_item_def one_item_def wf_db_def wf_table_def wf_config_def harness_def)
  have "issued 1 (fst ?x) = None"
    by (simp add: issued_def Acquire_def acquireTx_def done_item_def one_item_def harness_def no_faults_def
        free_at_def row_key_def sql_row_def aff_key_def sql_affected_def Let_def)
  then have "spine_step harness done_item None (snd ?x)"
    using spine_step.acquire [of harness no_faults 0 0 1 "''bob''" "''r''" done_item "fst ?x" "snd ?x"] by simp
  then have "spine.run harness done_item [] (snd ?x)"
    by (rule spine.run.run_quiet [OF spine.run.run_refl])
  from done_item_is_final [OF this wf] show ?thesis by (simp add: harness_def)
qed

text \<open>
  One recorded task id per run: the live holder's first dispatch records its candidate id
  and returns it; once a run's id is recorded, no later run of spine transactions changes it and
  every dispatch call of that run, by any caller, under any fence and with any candidate id,
  returns the recorded one.
\<close>

theorem dispatch_records_once:
  assumes "wf_db db"
  shows "(\<forall>r. \<not> flt SInsert \<longrightarrow> \<not> flt SReadBack \<longrightarrow> marker_of db run = None \<longrightarrow>
      claim_of db item = Some r \<longrightarrow> live_custody tg p run f r \<longrightarrow>
      fst (DispatchOnce flt (\<lambda>d. d) tg item p run f task db) = Inr task \<and>
      marker_of (snd (DispatchOnce flt (\<lambda>d. d) tg item p run f task db)) run
        = Some \<lparr>dispatch_run = run, dispatch_task = task\<rparr>) \<and>
    (\<forall>d gs db' flt' tg' item' p' f' task'. marker_of db run = Some d \<longrightarrow> spine.run cfg db gs db' \<longrightarrow>
      \<not> flt' SInsert \<longrightarrow> \<not> flt' SReadBack \<longrightarrow>
      fst (DispatchOnce flt' (\<lambda>d. d) tg' item' p' run f' task' db') = Inr (dispatch_task d))"
proof (intro conjI allI impI)
  fix r assume a: "\<not> flt SInsert" "\<not> flt SReadBack" "marker_of db run = None"
    "claim_of db item = Some r" "live_custody tg p run f r"
  then show "fst (DispatchOnce flt (\<lambda>d. d) tg item p run f task db) = Inr task"
    and "marker_of (snd (DispatchOnce flt (\<lambda>d. d) tg item p run f task db)) run
        = Some \<lparr>dispatch_run = run, dispatch_task = task\<rparr>"
    using assms by (simp_all add: DispatchOnce_def row_key_wf wf_db_def Let_def)
next
  fix d gs db' flt' tg' item' p' f' task'
  assume a: "marker_of db run = Some d" "spine.run cfg db gs db'" "\<not> flt' SInsert" "\<not> flt' SReadBack"
  have "marker_of db' run = Some d" using run_marker [OF a(2) assms a(1)] .
  then show "fst (DispatchOnce flt' (\<lambda>d. d) tg' item' p' run f' task' db') = Inr (dispatch_task d)"
    using a(3,4) by (simp add: DispatchOnce_def Let_def)
qed

theorem dispatch_records_once_witness:
  "fst (DispatchOnce no_faults (\<lambda>d. d) 10 1 ''alice'' ''r1'' 1 ''task-9''
      (one_item\<lparr>claims := [\<lparr>work_item_id = 1, holder_principal = Some ''alice'', run_id = Some ''r1'',
         fence_token = 1, lease_expires_at = Some 20, reclaim_fenced_at = None\<rparr>]\<rparr>)) = Inr ''task-9''"
proof -
  let ?r = "\<lparr>work_item_id = 1, holder_principal = Some ''alice'', run_id = Some ''r1'',
         fence_token = 1, lease_expires_at = Some 20, reclaim_fenced_at = None\<rparr>"
  let ?db = "one_item\<lparr>claims := [?r]\<rparr>"
  have "wf_db ?db" by (simp add: one_item_def wf_db_def wf_table_def)
  from dispatch_records_once [OF this, where flt = no_faults and tg = 10 and item = 1
      and p = "''alice''" and run = "''r1''" and f = 1 and task = "''task-9''"]
  show ?thesis by (simp add: no_faults_def one_item_def live_custody_def)
qed

text \<open>
  Fence before release, fail closed: when a fencer is wired, a reclaim that succeeds had
  the outgoing holder's fence confirmed first, stamped the item, raised its fence by one and
  installed the new holder; a fencer that cannot confirm makes the reclaim an error that leaves
  the whole database, the old holder included, unchanged.
\<close>

theorem reclaim_fences_before_release:
  assumes "wf_db db"
    and "ReclaimFenced cfg flt (Some fence) t0 tg ts i p run db = (res, db', calls)"
  shows "(\<forall>f. res = Inr f \<longrightarrow>
      calls = [(i, outgoing i db)] \<and> fence i (fst (outgoing i db)) (snd (outgoing i db)) = None \<and>
      f = fence_at db i + 1 \<and>
      (\<exists>r. claim_of db' i = Some r \<and> holder_principal r = Some p \<and> run_id r = Some run \<and>
           fence_token r = f \<and> reclaim_fenced_at r = Some t0)) \<and>
    (fence i (fst (outgoing i db)) (snd (outgoing i db)) \<noteq> None \<longrightarrow> (\<exists>e. res = Inl e) \<and> db' = db)"
  using assms(2)
proof (cases rule: ReclaimFenced_cases)
  case (granted f)
  from acquireTx_Some [OF granted(2)] assms(1) granted show ?thesis
    by (auto simp: stamp_rows fence_at_def)
qed auto

theorem reclaim_fences_before_release_witness:
  "\<exists>e calls. ReclaimFenced harness no_faults (Some (\<lambda>_ _ _. Some ''node unreachable'')) 30 30 30 1 ''bob'' ''r2'' one_item
     = (Inl e, one_item, calls)"
proof -
  obtain res db' calls where r: "ReclaimFenced harness no_faults (Some (\<lambda>_ _ _. Some ''node unreachable''))
      30 30 30 1 ''bob'' ''r2'' one_item = (res, db', calls)" by (metis prod_cases3)
  from reclaim_fences_before_release [OF one_item_wf r] have "(\<exists>e. res = Inl e) \<and> db' = one_item" by blast
  with r show ?thesis by blast
qed

text \<open>
  Failures are atomic: a claim, an acquire, a heartbeat, a completion or a reclaim that
  reports an infrastructure error or a refusal, at whichever statement it happened, leaves the
  database exactly as it was.
\<close>

theorem refused_operations_change_nothing:
  "((\<forall>g. fst (ClaimNext cfg flt locked tg ts p run db) \<noteq> Inr (Some g)) \<longrightarrow>
      snd (ClaimNext cfg flt locked tg ts p run db) = db) \<and>
   ((\<forall>f. fst (Acquire cfg flt tg ts i p run db) \<noteq> Inr (Some f)) \<longrightarrow>
      snd (Acquire cfg flt tg ts i p run db) = db) \<and>
   (wf_db db \<longrightarrow> fst (Renew cfg flt tg ts i p f db) \<noteq> Inr True \<longrightarrow> snd (Renew cfg flt tg ts i p f db) = db) \<and>
   (wf_db db \<longrightarrow> fst (Complete cfg flt tg i p f db) \<noteq> Inr True \<longrightarrow> snd (Complete cfg flt tg i p f db) = db) \<and>
   ((\<forall>f. fst (ReclaimFenced cfg flt fencer t0 tg ts i p run db) \<noteq> Inr f) \<longrightarrow>
      fst (snd (ReclaimFenced cfg flt fencer t0 tg ts i p run db)) = db)"
proof -
  obtain rc dc where c: "ClaimNext cfg flt locked tg ts p run db = (rc, dc)" by fastforce
  obtain ra da where a: "Acquire cfg flt tg ts i p run db = (ra, da)" by fastforce
  obtain rf df calls where r: "ReclaimFenced cfg flt fencer t0 tg ts i p run db = (rf, df, calls)"
    by (metis prod_cases3)
  have "(\<forall>g. rc \<noteq> Inr (Some g)) \<longrightarrow> dc = db" using c by (cases rule: ClaimNext_cases) auto
  moreover have "(\<forall>f. ra \<noteq> Inr (Some f)) \<longrightarrow> da = db" using a by (cases rule: Acquire_cases) auto
  moreover have "(\<forall>f. rf \<noteq> Inr f) \<longrightarrow> df = db" using r by (cases rule: ReclaimFenced_cases) auto
  ultimately show ?thesis
    using c a r Renew_effect [of cfg flt tg ts i p f db] Complete_effect [of cfg flt tg i p f db]
    by (metis fst_conv snd_conv prod.collapse)
qed

theorem refused_operations_change_nothing_witness:
  "snd (Acquire harness (\<lambda>s. s = SCommit) 0 0 1 ''bob'' ''r'' one_item) = one_item"
proof -
  have "\<forall>f. fst (Acquire harness (\<lambda>s. s = SCommit) 0 0 1 ''bob'' ''r'' one_item) \<noteq> Inr (Some f)"
    by (auto simp: Acquire_def split: sum.splits option.splits)
  with refused_operations_change_nothing show ?thesis by blast
qed

end
