(* ===== verification/Sql_Claim.thy ===== *)
theory Sql_Claim
  imports Sql_Table "HOL-Library.Multiset"
begin

text \<open>
  The batch claim the coordination sources share: a \<open>SELECT ... ORDER BY ... FOR UPDATE SKIP
  LOCKED LIMIT n\<close> picks rows nobody else holds, and an \<open>UPDATE ... RETURNING\<close> of the same
  statement marks exactly those. A row held by a concurrent statement is one the filter
  rejects.
\<close>

section \<open>The statement\<close>

definition sql_pick :: "('r \<Rightarrow> bool) \<Rightarrow> ('r \<Rightarrow> instant) \<Rightarrow> nat \<Rightarrow> 'r list \<Rightarrow> 'r list" where
  "sql_pick P ord n t = take n (sort_key ord (filter P t))"

definition sql_claim ::
  "('r \<Rightarrow> 'k) \<Rightarrow> ('r \<Rightarrow> bool) \<Rightarrow> ('r \<Rightarrow> instant) \<Rightarrow> nat \<Rightarrow> ('r \<Rightarrow> 'r) \<Rightarrow> 'r list \<Rightarrow> 'r list \<times> 'r list" where
  "sql_claim pk P ord n f t =
     (let keys = map pk (sql_pick P ord n t)
      in (map f (filter (\<lambda>r. pk r \<in> set keys) t), sql_update (\<lambda>r. pk r \<in> set keys) f t))"

text \<open>The earliest value of a column over the rows a filter accepts (\<open>ORDER BY .. LIMIT 1\<close>).\<close>

definition sql_first :: "('r \<Rightarrow> bool) \<Rightarrow> ('r \<Rightarrow> instant) \<Rightarrow> 'r list \<Rightarrow> instant option" where
  "sql_first P ord t =
     (case filter P t of [] \<Rightarrow> None | r # rs \<Rightarrow> Some (foldr min (map ord rs) (ord r)))"

section \<open>Which rows are picked\<close>

lemma sql_pick_sound: "r \<in> set (sql_pick P ord n t) \<Longrightarrow> r \<in> set t \<and> P r"
  unfolding sql_pick_def by (drule in_set_takeD) simp

lemma sql_pick_length: "length (sql_pick P ord n t) = min n (length (filter P t))"
  by (simp add: sql_pick_def min.commute)

lemma sql_pick_complete:
  assumes "r \<in> set t" and "P r" and "r \<notin> set (sql_pick P ord n t)"
  shows "length (sql_pick P ord n t) = n"
proof -
  have "\<not> length (filter P t) \<le> n"
  proof
    assume "length (filter P t) \<le> n"
    then have "sql_pick P ord n t = sort_key ord (filter P t)" by (simp add: sql_pick_def)
    with assms show False by simp
  qed
  then show ?thesis by (simp add: sql_pick_length)
qed

lemma sql_pick_distinct:
  assumes "wf_table pk t"
  shows "distinct (map pk (sql_pick P ord n t))"
proof -
  have "distinct (map pk (filter P t))"
    using assms by (simp add: wf_table_def distinct_map_filter)
  moreover have "mset (map pk (sort_key ord (filter P t))) = mset (map pk (filter P t))"
    by simp
  ultimately have "distinct (map pk (sort_key ord (filter P t)))"
    by (blast dest: mset_eq_imp_distinct_iff)
  then show ?thesis by (simp add: sql_pick_def take_map [symmetric] distinct_take)
qed

lemma picked_key:
  assumes "wf_table pk t" and "r \<in> set t"
  shows "pk r \<in> pk ` set (sql_pick P ord n t) \<longleftrightarrow> r \<in> set (sql_pick P ord n t)"
proof
  assume "pk r \<in> pk ` set (sql_pick P ord n t)"
  then obtain q where q: "q \<in> set (sql_pick P ord n t)" "pk r = pk q" by auto
  have "lookup_by pk (pk r) t = Some q"
    using lookup_by_mem [OF assms(1)] sql_pick_sound [OF q(1)] q(2) by simp
  with lookup_by_mem [OF assms] q(1) show "r \<in> set (sql_pick P ord n t)" by simp
qed simp

section \<open>What the claim returns and writes\<close>

lemma sql_claim_wf:
  assumes "\<And>r. pk (f r) = pk r"
  shows "wf_table pk (snd (sql_claim pk P ord n f t)) = wf_table pk t"
  by (simp add: sql_claim_def Let_def wf_sql_update assms)

lemma sql_claim_keys:
  assumes "wf_table pk t" and "\<And>r. pk (f r) = pk r"
  shows "set (map pk (fst (sql_claim pk P ord n f t))) = pk ` set (sql_pick P ord n t)"
proof -
  have "set (map pk (fst (sql_claim pk P ord n f t))) =
      pk ` {r \<in> set t. pk r \<in> pk ` set (sql_pick P ord n t)}"
    by (simp add: sql_claim_def Let_def assms)
  also have "\<dots> = pk ` set (sql_pick P ord n t)"
    by (rule set_eqI) (fastforce dest: sql_pick_sound)
  finally show ?thesis .
qed

lemma sql_claim_distinct:
  assumes "wf_table pk t" and "\<And>r. pk (f r) = pk r"
  shows "distinct (map pk (fst (sql_claim pk P ord n f t)))"
proof -
  have "map pk (fst (sql_claim pk P ord n f t)) =
      map pk (filter (\<lambda>r. pk r \<in> pk ` set (sql_pick P ord n t)) t)"
    by (simp add: sql_claim_def Let_def assms)
  then show ?thesis using assms(1) by (simp add: wf_table_def distinct_map_filter)
qed

lemma sql_claim_length:
  assumes "wf_table pk t" and "\<And>r. pk (f r) = pk r"
  shows "length (fst (sql_claim pk P ord n f t)) = length (sql_pick P ord n t)"
proof -
  have "length (map pk (fst (sql_claim pk P ord n f t))) = card (set (map pk (fst (sql_claim pk P ord n f t))))"
    by (simp only: distinct_card [OF sql_claim_distinct [OF assms]])
  also have "\<dots> = card (set (map pk (sql_pick P ord n t)))"
    by (subst sql_claim_keys [OF assms]) simp
  also have "\<dots> = length (map pk (sql_pick P ord n t))"
    by (simp only: distinct_card [OF sql_pick_distinct [OF assms(1)]])
  finally show ?thesis by simp
qed

lemma sql_claim_lookup:
  assumes "\<And>r. pk (f r) = pk r"
  shows "lookup_by pk k (snd (sql_claim pk P ord n f t)) =
    map_option (\<lambda>r. if k \<in> pk ` set (sql_pick P ord n t) then f r else r) (lookup_by pk k t)"
  by (simp add: sql_claim_def Let_def lookup_sql_update assms)

lemma sql_claim_row_sound:
  assumes "wf_table pk t" and "r \<in> set (fst (sql_claim pk P ord n f t))"
  shows "\<exists>q \<in> set t. P q \<and> r = f q"
proof -
  obtain q where q: "q \<in> set t" "pk q \<in> pk ` set (sql_pick P ord n t)" "r = f q"
    using assms(2) by (auto simp: sql_claim_def Let_def)
  then have "q \<in> set (sql_pick P ord n t)" using picked_key [OF assms(1) q(1)] by blast
  with q show ?thesis using sql_pick_sound by fastforce
qed

section \<open>The earliest pending value\<close>

lemma foldr_min_in: "foldr min xs (x :: instant) \<in> insert x (set xs)"
  by (induction xs) (auto simp: min_def)

lemma foldr_min_le: "y \<in> insert x (set xs) \<Longrightarrow> foldr min xs (x :: instant) \<le> y"
  by (induction xs) (auto simp: min_def intro: order_trans)

lemma sql_first_None: "sql_first P ord t = None \<longleftrightarrow> (\<forall>r \<in> set t. \<not> P r)"
proof -
  have "sql_first P ord t = None \<longleftrightarrow> filter P t = []"
    by (simp add: sql_first_def split: list.splits)
  then show ?thesis by (simp add: filter_empty_conv)
qed

lemma sql_first_Some:
  assumes "sql_first P ord t = Some a"
  shows "(\<exists>r \<in> set t. P r \<and> ord r = a) \<and> (\<forall>r \<in> set t. P r \<longrightarrow> a \<le> ord r)"
proof -
  obtain q qs where f: "filter P t = q # qs" and a: "a = foldr min (map ord qs) (ord q)"
    using assms by (auto simp: sql_first_def split: list.splits)
  have set_eq: "ord ` {r \<in> set t. P r} = insert (ord q) (set (map ord qs))"
    using f by (metis list.simps(15) image_insert list.set_map set_filter)
  have "a \<in> ord ` {r \<in> set t. P r}" unfolding set_eq a by (rule foldr_min_in)
  moreover have "b \<in> ord ` {r \<in> set t. P r} \<Longrightarrow> a \<le> b" for b
    unfolding set_eq a by (rule foldr_min_le)
  ultimately show ?thesis by auto
qed

end
