(* ===== verification/Sweeper.thy ===== *)
theory Sweeper
  imports Coord_Spine Sql_Claim
begin

text \<open>
  The background reclaim sweeper (pkg/coord/sweeper.go) over the tables of the claim spine: one
  statement takes a batch of expired claims away from their holders, raises their fences and
  reopens their items, and a loop runs it on every tick. The scan counter and the metrics are
  not modelled; OnReclaim and OnError are what the loop hands out. The statement reads the work
  items as of its start, while the rows it locks and writes are the current ones, so the visible
  items are an argument of their own.
\<close>

section \<open>Configuration\<close>

record SweepConfig =
  SW_WorkItem :: string
  SW_Claim :: string
  SW_OpenState :: string
  SW_DoneState :: string
  SW_Interval :: duration
  SW_Batch :: int

definition DefaultSweepConfig :: SweepConfig where
  "DefaultSweepConfig = \<lparr>SW_WorkItem = [], SW_Claim = [], SW_OpenState = [], SW_DoneState = [],
     SW_Interval = 10000000000, SW_Batch = 128\<rparr>"

definition SweepConfig_validate :: "SweepConfig \<Rightarrow> string option" where
  "SweepConfig_validate c =
     (if SW_WorkItem c = [] \<or> SW_Claim c = [] then Some ''coord.SweepConfig: WorkItem and Claim tables are required''
      else if SW_OpenState c = [] \<or> SW_DoneState c = [] then Some ''coord.SweepConfig: OpenState and DoneState are required''
      else if SW_Interval c \<le> 0 then Some ''coord.SweepConfig: Interval must be > 0''
      else None)"

definition sweep_batchParam :: "SweepConfig \<Rightarrow> nat" where
  "sweep_batchParam c = (if SW_Batch c \<le> 0 then 2147483647 else nat (SW_Batch c))"

definition NewSweepStore :: "bool \<Rightarrow> SweepConfig \<Rightarrow> string + SweepConfig" where
  "NewSweepStore nil_db c =
     (if nil_db then Inl ''coord.NewSweepStore: nil db''
      else case SweepConfig_validate c of Some e \<Rightarrow> Inl e | None \<Rightarrow> Inr c)"

definition NewSweepForTest :: "string + SweepConfig" where
  "NewSweepForTest = NewSweepStore False (DefaultSweepConfig\<lparr>SW_WorkItem := ''work_item'', SW_Claim := ''claim'',
     SW_OpenState := ''open'', SW_DoneState := ''done'', SW_Interval := 50000000, SW_Batch := 128\<rparr>)"

section \<open>The statement\<close>

definition lease_at :: "claim_row \<Rightarrow> instant" where
  "lease_at r = (case lease_expires_at r of Some l \<Rightarrow> l | None \<Rightarrow> 0)"

definition expired :: "SweepConfig \<Rightarrow> int set \<Rightarrow> instant \<Rightarrow> item_row list \<Rightarrow> claim_row \<Rightarrow> bool" where
  "expired cfg locked t seen c \<longleftrightarrow>
     holder_principal c \<noteq> None \<and> null_lt (lease_expires_at c) t \<and>
     row_key item_id (work_item_id c) (\<lambda>w. item_state w \<noteq> SW_DoneState cfg) seen \<noteq> None \<and>
     work_item_id c \<notin> locked"

definition released :: "instant \<Rightarrow> claim_row \<Rightarrow> claim_row" where
  "released ts c = c\<lparr>holder_principal := None, run_id := None, fence_token := fence_token c + 1,
     reclaim_fenced_at := Some ts, lease_expires_at := None\<rparr>"

datatype sweep_fault = SweepOk | SweepQuery | SweepScan

definition ReclaimExpired ::
  "SweepConfig \<Rightarrow> sweep_fault \<Rightarrow> int set \<Rightarrow> instant \<Rightarrow> instant \<Rightarrow> item_row list \<Rightarrow> coord_db \<Rightarrow>
   (string + (int \<times> int) list) \<times> coord_db" where
  "ReclaimExpired cfg flt locked tg ts seen db =
     (if flt = SweepQuery then (Inl ''coord.ReclaimExpired'', db)
      else case sql_claim work_item_id (expired cfg locked tg seen) lease_at (sweep_batchParam cfg) (released ts) (claims db) of
        (reclaimed, cl) \<Rightarrow>
          let ids = map work_item_id reclaimed;
              db' = db\<lparr>claims := cl,
                work_items := sql_update (\<lambda>w. item_id w \<in> set ids) (\<lambda>w. w\<lparr>item_state := SW_OpenState cfg\<rparr>) (work_items db)\<rparr>;
              out = filter (\<lambda>(i, f). i \<in> item_id ` set (work_items db)) (map (\<lambda>c. (work_item_id c, fence_token c)) reclaimed)
          in if flt = SweepScan \<and> out \<noteq> [] then (Inl ''coord.ReclaimExpired: scan'', db') else (Inr out, db'))"

section \<open>The loop\<close>

datatype sweep_call = OnReclaim "(int \<times> int) list" | OnError string

text \<open>Whether the two callbacks are set is part of the wiring.\<close>

record sweep_wiring =
  has_onReclaim :: bool
  has_onError :: bool

definition sweepOnce ::
  "SweepConfig \<Rightarrow> sweep_wiring \<Rightarrow> sweep_fault \<Rightarrow> int set \<Rightarrow> instant \<Rightarrow> instant \<Rightarrow> item_row list \<Rightarrow> coord_db \<Rightarrow>
   sweep_call list \<times> coord_db" where
  "sweepOnce cfg wr flt locked tg ts seen db =
     (case ReclaimExpired cfg flt locked tg ts seen db of
        (Inl e, db') \<Rightarrow> (if has_onError wr then [OnError e] else [], db')
      | (Inr batch, db') \<Rightarrow> (if batch \<noteq> [] \<and> has_onReclaim wr then [OnReclaim batch] else [], db'))"

text \<open>
  A tick comes after what other processes did to the database since the last one; its last
  component gives the items the statement sees, which lag behind while a write is committing.
  The loop ends when its context is cancelled.
\<close>

datatype sweep_event =
    Tick "coord_db \<Rightarrow> coord_db" sweep_fault "int set" instant instant "item_row list \<Rightarrow> item_row list"
  | Cancelled

fun Sweeper_Run :: "SweepConfig \<Rightarrow> sweep_wiring \<Rightarrow> sweep_event list \<Rightarrow> coord_db \<Rightarrow> sweep_call list \<times> coord_db" where
  "Sweeper_Run cfg wr [] db = ([], db)"
| "Sweeper_Run cfg wr (Cancelled # evs) db = ([], db)"
| "Sweeper_Run cfg wr (Tick env flt locked tg ts lag # evs) db =
     (case sweepOnce cfg wr flt locked tg ts (lag (work_items (env db))) (env db) of (cs, db1) \<Rightarrow>
        (case Sweeper_Run cfg wr evs db1 of (cs', db2) \<Rightarrow> (cs @ cs', db2)))"

section \<open>What one statement does\<close>

abbreviation swept :: "SweepConfig \<Rightarrow> int set \<Rightarrow> instant \<Rightarrow> item_row list \<Rightarrow> coord_db \<Rightarrow> int set" where
  "swept cfg locked tg seen db \<equiv>
     work_item_id ` set (sql_pick (expired cfg locked tg seen) lease_at (sweep_batchParam cfg) (claims db))"

lemma released_id [simp]: "work_item_id (released ts c) = work_item_id c"
  by (simp add: released_def)

lemma expired_wf:
  assumes "wf_table item_id seen"
  shows "expired cfg locked t seen c \<longleftrightarrow> holder_principal c \<noteq> None \<and> null_lt (lease_expires_at c) t \<and>
    (\<exists>w. lookup_by item_id (work_item_id c) seen = Some w \<and> item_state w \<noteq> SW_DoneState cfg) \<and> work_item_id c \<notin> locked"
  using assms by (auto simp: expired_def row_key_wf split: option.splits if_splits)

lemma swept_expired:
  assumes "wf_db db" and "j \<in> swept cfg locked tg seen db"
  obtains c where "c \<in> set (claims db)" "claim_of db j = Some c" "work_item_id c = j" "expired cfg locked tg seen c"
proof -
  obtain c where c: "c \<in> set (claims db)" "expired cfg locked tg seen c" "work_item_id c = j"
    using assms(2) by (auto dest: sql_pick_sound)
  moreover have "claim_of db j = Some c"
    using lookup_by_mem [of work_item_id "claims db" c] c assms(1) by (simp add: wf_db_def)
  ultimately show thesis using that by blast
qed

lemma ReclaimExpired_db:
  assumes "wf_db db" and "ReclaimExpired cfg flt locked tg ts seen db = (res, db')" and "flt \<noteq> SweepQuery"
  defines "c \<equiv> sql_claim work_item_id (expired cfg locked tg seen) lease_at (sweep_batchParam cfg) (released ts) (claims db)"
  shows "db' = db\<lparr>claims := snd c, work_items := sql_update (\<lambda>w. item_id w \<in> swept cfg locked tg seen db)
      (\<lambda>w. w\<lparr>item_state := SW_OpenState cfg\<rparr>) (work_items db)\<rparr>"
    and "res = Inr batch \<Longrightarrow>
      batch = filter (\<lambda>(i, f). i \<in> item_id ` set (work_items db)) (map (\<lambda>c. (work_item_id c, fence_token c)) (fst c))"
proof -
  have "wf_table work_item_id (claims db)" using assms(1) by (simp add: wf_db_def)
  then have ids: "set (map work_item_id (fst c)) = swept cfg locked tg seen db"
    unfolding c_def by (rule sql_claim_keys) simp
  show "db' = db\<lparr>claims := snd c, work_items := sql_update (\<lambda>w. item_id w \<in> swept cfg locked tg seen db)
      (\<lambda>w. w\<lparr>item_state := SW_OpenState cfg\<rparr>) (work_items db)\<rparr>"
    unfolding ids [symmetric] c_def using assms(2,3) by (auto simp: ReclaimExpired_def Let_def split: prod.splits if_splits)
  show "res = Inr batch \<Longrightarrow>
      batch = filter (\<lambda>(i, f). i \<in> item_id ` set (work_items db)) (map (\<lambda>c. (work_item_id c, fence_token c)) (fst c))"
    unfolding c_def using assms(2,3) by (auto simp: ReclaimExpired_def Let_def split: prod.splits if_splits)
qed

lemma ReclaimExpired_rows:
  assumes "wf_db db" and "ReclaimExpired cfg flt locked tg ts seen db = (res, db')" and "flt \<noteq> SweepQuery"
  shows "wf_db db'"
    and "claim_of db' j = map_option (\<lambda>c. if j \<in> swept cfg locked tg seen db then released ts c else c) (claim_of db j)"
    and "item_of db' j =
      map_option (\<lambda>w. if j \<in> swept cfg locked tg seen db then w\<lparr>item_state := SW_OpenState cfg\<rparr> else w) (item_of db j)"
  unfolding ReclaimExpired_db(1) [OF assms] using assms(1)
  by (simp_all add: wf_db_def sql_claim_wf wf_sql_update sql_claim_lookup lookup_sql_update)

section \<open>Reclaiming is exact\<close>

lemma sql_pick_order:
  assumes "r \<in> set (sql_pick P ord n t)" and "q \<in> set t" and "P q" and "q \<notin> set (sql_pick P ord n t)"
  shows "ord r \<le> ord q"
proof -
  let ?s = "sort_key ord (filter P t)"
  have "q \<in> set (drop n ?s)"
    using assms(2-4) set_append [of "take n ?s" "drop n ?s"] by (auto simp: sql_pick_def)
  moreover have "sorted (map ord (take n ?s @ drop n ?s))" by simp
  ultimately show ?thesis
    using assms(1) unfolding sql_pick_def map_append sorted_append by auto
qed

lemma sweep_batch:
  assumes "wf_db db" and "ReclaimExpired cfg flt locked tg ts (work_items db) db = (Inr batch, db')" and "flt \<noteq> SweepQuery"
  shows "distinct (map fst batch)" and "fst ` set batch = swept cfg locked tg (work_items db) db"
    and "length batch = length (sql_pick (expired cfg locked tg (work_items db)) lease_at (sweep_batchParam cfg) (claims db))"
    and "(j, f) \<in> set batch \<longleftrightarrow> j \<in> swept cfg locked tg (work_items db) db \<and> (\<exists>c. claim_of db j = Some c \<and> f = fence_token c + 1)"
proof -
  let ?P = "expired cfg locked tg (work_items db)"
  let ?c = "sql_claim work_item_id ?P lease_at (sweep_batchParam cfg) (released ts) (claims db)"
  have w: "wf_table work_item_id (claims db)" "wf_table item_id (work_items db)" using assms(1) by (simp_all add: wf_db_def)
  have keys: "set (map work_item_id (fst ?c)) = swept cfg locked tg (work_items db) db"
    by (rule sql_claim_keys [OF w(1)]) simp
  have all: "i \<in> item_id ` set (work_items db)" if "i \<in> set (map work_item_id (fst ?c))" for i
  proof -
    from that have i: "i \<in> swept cfg locked tg (work_items db) db" by (simp only: keys)
    obtain c where "work_item_id c = i" "?P c" by (rule swept_expired [OF assms(1) i])
    then have "item_of db i \<noteq> None" by (auto simp: expired_wf [OF w(2)])
    then show ?thesis by (simp add: lookup_by_None)
  qed
  have b: "batch = map (\<lambda>c. (work_item_id c, fence_token c)) (fst ?c)"
    unfolding ReclaimExpired_db(2) [OF assms(1,2,3) refl] using all by (force intro: filter_True)
  then have f: "map fst batch = map work_item_id (fst ?c)" by (simp add: comp_def)
  show "distinct (map fst batch)" unfolding f by (rule sql_claim_distinct [OF w(1)]) simp
  show "fst ` set batch = swept cfg locked tg (work_items db) db" using keys f by (metis list.set_map)
  show "length batch = length (sql_pick ?P lease_at (sweep_batchParam cfg) (claims db))"
    using sql_claim_length [OF w(1), of "released ts" ?P lease_at "sweep_batchParam cfg"] b by simp
  show "(j, f) \<in> set batch \<longleftrightarrow> j \<in> swept cfg locked tg (work_items db) db \<and> (\<exists>c. claim_of db j = Some c \<and> f = fence_token c + 1)"
  proof
    assume jf: "(j, f) \<in> set batch"
    then obtain r where r: "r \<in> set (fst ?c)" "j = work_item_id r" "f = fence_token r" unfolding b by auto
    then obtain q where "q \<in> set (claims db)" "r = released ts q" using sql_claim_row_sound [OF w(1) r(1)] by blast
    then have "\<exists>c. claim_of db j = Some c \<and> f = fence_token c + 1"
      using lookup_by_mem [OF w(1)] r by (auto simp: released_def)
    moreover have "j \<in> swept cfg locked tg (work_items db) db" unfolding keys [symmetric] using r by simp
    ultimately show "j \<in> swept cfg locked tg (work_items db) db \<and> (\<exists>c. claim_of db j = Some c \<and> f = fence_token c + 1)"
      by blast
  next
    assume a: "j \<in> swept cfg locked tg (work_items db) db \<and> (\<exists>c. claim_of db j = Some c \<and> f = fence_token c + 1)"
    then obtain c where c: "claim_of db j = Some c" "f = fence_token c + 1" by blast
    from a keys obtain r where r: "r \<in> set (fst ?c)" "j = work_item_id r" by fastforce
    then obtain q where "q \<in> set (claims db)" "r = released ts q" using sql_claim_row_sound [OF w(1) r(1)] by blast
    then have "f = fence_token r" using lookup_by_mem [OF w(1)] r c by (fastforce simp: released_def)
    with r show "(j, f) \<in> set batch" unfolding b by auto
  qed
qed

text \<open>
  C8. A sweep takes away exactly the expired claims: when it sees the current items, every claim
  either keeps its row and its item, or was held under a lapsed lease on an item that is not done
  and not locked by another sweeper, and then it is free, its fence is one higher and its item is
  open; the batch it reports lists the reclaimed items once each with their new fences; an
  expired claim is left over only when the batch is full; and a failed query changes nothing.
\<close>

theorem sweep_is_exact:
  assumes "wf_db db" and "ReclaimExpired cfg flt locked tg ts (work_items db) db = (res, db')"
  shows "wf_db db' \<and> (flt = SweepQuery \<longrightarrow> db' = db) \<and>
    (\<forall>j c w. claim_of db j = Some c \<and> item_of db j = Some w \<longrightarrow>
      claim_of db' j = Some c \<and> item_of db' j = Some w \<or>
      holder_principal c \<noteq> None \<and> null_lt (lease_expires_at c) tg \<and> item_state w \<noteq> SW_DoneState cfg \<and> j \<notin> locked \<and>
      claim_of db' j = Some (c\<lparr>holder_principal := None, run_id := None, fence_token := fence_token c + 1,
        reclaim_fenced_at := Some ts, lease_expires_at := None\<rparr>) \<and>
      item_of db' j = Some (w\<lparr>item_state := SW_OpenState cfg\<rparr>)) \<and>
    (\<forall>batch. res = Inr batch \<longrightarrow>
      distinct (map fst batch) \<and>
      (\<forall>j f. (j, f) \<in> set batch \<longleftrightarrow> (\<exists>c. claim_of db j = Some c \<and> f = fence_token c + 1 \<and> claim_of db' j = Some (released ts c))) \<and>
      (\<forall>j c w. claim_of db j = Some c \<and> item_of db j = Some w \<and> holder_principal c \<noteq> None \<and>
        null_lt (lease_expires_at c) tg \<and> item_state w \<noteq> SW_DoneState cfg \<and> j \<notin> locked \<and> j \<notin> fst ` set batch \<longrightarrow>
        length batch = sweep_batchParam cfg))"
proof (cases "flt = SweepQuery")
  case True
  with assms show ?thesis by (auto simp: ReclaimExpired_def)
next
  case False
  let ?S = "swept cfg locked tg (work_items db) db"
  have w: "wf_table work_item_id (claims db)" "wf_table item_id (work_items db)" using assms(1) by (simp_all add: wf_db_def)
  note rows = ReclaimExpired_rows [OF assms False]
  have E: "expired cfg locked tg (work_items db) c" if "j \<in> ?S" "claim_of db j = Some c" for j c
    using swept_expired [OF assms(1) that(1)] that(2) by (metis option.inject)
  have kept: "claim_of db' j = Some c \<and> item_of db' j = Some w \<or>
      holder_principal c \<noteq> None \<and> null_lt (lease_expires_at c) tg \<and> item_state w \<noteq> SW_DoneState cfg \<and> j \<notin> locked \<and>
      claim_of db' j = Some (released ts c) \<and> item_of db' j = Some (w\<lparr>item_state := SW_OpenState cfg\<rparr>)"
    if "claim_of db j = Some c" "item_of db j = Some w" for j c w
    using E [of j c] that rows(2,3) [of j] lookup_by_Some [OF that(1)] by (auto simp: expired_wf [OF w(2)])
  have moved: "claim_of db' j = Some (released ts c) \<longleftrightarrow> j \<in> ?S" if "claim_of db j = Some c" for j c
    using rows(2) [of j] that by (auto simp: released_def dest: arg_cong [where f = fence_token])
  have full: "length batch = sweep_batchParam cfg"
    if "res = Inr batch" "claim_of db j = Some c" "expired cfg locked tg (work_items db) c" "j \<notin> fst ` set batch" for batch j c
  proof -
    note b = sweep_batch [OF assms(1) assms(2) [unfolded that(1)] False]
    have c: "c \<in> set (claims db)" "work_item_id c = j" using lookup_by_Some [OF that(2)] by blast+
    have "c \<notin> set (sql_pick (expired cfg locked tg (work_items db)) lease_at (sweep_batchParam cfg) (claims db))"
      using that(4) c(2) unfolding b(2) by blast
    from sql_pick_complete [OF c(1) that(3) this] b(3) show ?thesis by simp
  qed
  show ?thesis
  proof (intro conjI allI impI)
    fix batch assume r: "res = Inr batch"
    note b = sweep_batch [OF assms(1) assms(2) [unfolded r] False]
    show "distinct (map fst batch)" by (rule b(1))
    show "(j, f) \<in> set batch \<longleftrightarrow> (\<exists>c. claim_of db j = Some c \<and> f = fence_token c + 1 \<and> claim_of db' j = Some (released ts c))" for j f
      using b(4) moved by blast
    show "length batch = sweep_batchParam cfg"
      if "claim_of db j = Some c \<and> item_of db j = Some w \<and> holder_principal c \<noteq> None \<and>
        null_lt (lease_expires_at c) tg \<and> item_state w \<noteq> SW_DoneState cfg \<and> j \<notin> locked \<and> j \<notin> fst ` set batch" for j c w
      using full [OF r, of j c] that lookup_by_Some [of work_item_id j "claims db" c] by (auto simp: expired_wf [OF w(2)])
  qed (use rows(1) False kept in \<open>simp_all add: released_def\<close>)
qed

definition sweep_cfg :: SweepConfig where
  "sweep_cfg = \<lparr>SW_WorkItem = ''work_item'', SW_Claim = ''claim'', SW_OpenState = ''open'', SW_DoneState = ''done'',
     SW_Interval = 50000000, SW_Batch = 128\<rparr>"

definition dead_holder :: coord_db where
  "dead_holder = \<lparr>work_items = [\<lparr>item_id = 1, item_state = ''claimed''\<rparr>],
     claims = [\<lparr>work_item_id = 1, holder_principal = Some ''alice'', run_id = Some ''r'', fence_token = 4,
                lease_expires_at = Some 10, reclaim_fenced_at = None\<rparr>],
     dispatches = []\<rparr>"

lemma dead_holder_wf: "wf_db dead_holder"
  by (simp add: dead_holder_def wf_db_def wf_table_def)

lemma dead_holder_swept:
  "ReclaimExpired sweep_cfg SweepOk {} 20 20 (work_items dead_holder) dead_holder = (Inr [(1, 5)],
     \<lparr>work_items = [\<lparr>item_id = 1, item_state = ''open''\<rparr>],
      claims = [\<lparr>work_item_id = 1, holder_principal = None, run_id = None, fence_token = 5,
                 lease_expires_at = None, reclaim_fenced_at = Some 20\<rparr>],
      dispatches = []\<rparr>)"
  by code_simp

theorem sweep_is_exact_witness:
  "\<exists>db'. ReclaimExpired sweep_cfg SweepOk {} 20 20 (work_items dead_holder) dead_holder = (Inr [(1, 5)], db') \<and> wf_db db'"
proof -
  obtain db' where s: "ReclaimExpired sweep_cfg SweepOk {} 20 20 (work_items dead_holder) dead_holder = (Inr [(1, 5)], db')"
    using dead_holder_swept by blast
  from sweep_is_exact [OF dead_holder_wf s] have "wf_db db'" by (rule conjunct1)
  with s show ?thesis by blast
qed

section \<open>The dead holder stays dead\<close>

text \<open>Transactions of the spine interleaved with sweeps, whatever the sweeps see.\<close>

inductive swept_step :: "SweepConfig \<Rightarrow> Config \<Rightarrow> coord_db \<Rightarrow> (int \<times> int) option \<Rightarrow> coord_db \<Rightarrow> bool" for scfg cfg where
  spine: "spine_step cfg db g db' \<Longrightarrow> swept_step scfg cfg db g db'"
| sweep: "ReclaimExpired scfg flt locked tg ts seen db = (res, db') \<Longrightarrow> swept_step scfg cfg db None db'"

lemma ReclaimExpired_fences:
  assumes "wf_db db" and "ReclaimExpired cfg flt locked tg ts seen db = (res, db')"
  shows "wf_db db' \<and> fence_at db j \<le> fence_at db' j"
proof (cases "flt = SweepQuery")
  case True
  with assms show ?thesis by (simp add: ReclaimExpired_def)
next
  case False
  from ReclaimExpired_rows [OF assms this] show ?thesis
    by (auto simp: fence_at_def released_def split: option.splits)
qed

lemma swept_step_fences:
  assumes "swept_step scfg cfg db g db'" and "wf_db db"
  shows "wf_db db' \<and> fence_at db j \<le> fence_at db' j \<and>
    (\<forall>i f. g = Some (i, f) \<longrightarrow> fence_at db i < f \<and> fence_at db' i = f)"
  using assms
proof (induction rule: swept_step.induct)
  case (spine db g db')
  then show ?case by (rule spine_step_fences)
next
  case (sweep flt locked tg ts seen db res db')
  from ReclaimExpired_fences [OF sweep(2,1)] show ?case by simp
qed

interpretation swept: fenced_claims wf_db fence_at "swept_step scfg cfg" for scfg cfg
  by unfold_locales (use swept_step_fences in blast)+

text \<open>
  A resurrected holder cannot touch a reclaimed item: after a sweep has reclaimed an item,
  whatever claims, heartbeats, completions, reclaims and further sweeps follow, the heartbeat, the
  completing write, the dispatch marker and the re-drive under the dead holder's fence are
  refused and change nothing, and later grants of the item carry fences above it.
\<close>

theorem swept_holder_is_refused:
  assumes "wf_db db" and "ReclaimExpired scfg flt locked t t' (work_items db) db = (Inr batch, db1)"
    and "claim_of db i = Some c" and "i \<in> fst ` set batch" and "swept.run scfg cfg db1 gs db2"
  shows "(let f = fence_token c in
      snd (Renew cfg flt' tg ts i p f db2) = db2 \<and> fst (Renew cfg flt' tg ts i p f db2) \<noteq> Inr True \<and>
      snd (Complete cfg flt' tg i p f db2) = db2 \<and> fst (Complete cfg flt' tg i p f db2) \<noteq> Inr True \<and>
      snd (DispatchOnce flt' (\<lambda>d. d) tg i p r f task db2) = db2 \<and>
      fst (RedriveClaim cfg flt' (\<lambda>d. d) tr tg ts i p r f db2) \<noteq> Inr (Some f)) \<and>
    (\<forall>f'. (i, f') \<in> set gs \<longrightarrow> fence_token c + 1 < f')"
proof -
  have ok: "flt \<noteq> SweepQuery" using assms(2) by (auto simp: ReclaimExpired_def)
  note rows = ReclaimExpired_rows [OF assms(1,2) ok]
  have "i \<in> swept scfg locked t (work_items db) db" using assms(4) sweep_batch(2) [OF assms(1,2) ok] by simp
  then have f: "fence_at db1 i = fence_token c + 1" using rows(2) [of i] assms(3) by (simp add: fence_at_def released_def)
  have w2: "wf_db db2" using swept.run_inv [OF assms(5) rows(1)] .
  have "fence_token c < fence_at db2 i" using swept.run_bounds(1) [OF assms(5) rows(1), of i] f by simp
  moreover have "(i, f') \<in> set gs \<Longrightarrow> fence_token c + 1 < f'" for f'
    using swept.run_bounds(2) [OF assms(5) rows(1), of i f'] f by simp
  ultimately show ?thesis using stale_fence_refused [OF w2] by (simp add: Let_def)
qed

theorem swept_holder_is_refused_witness:
  "\<exists>db1. ReclaimExpired sweep_cfg SweepOk {} 20 20 (work_items dead_holder) dead_holder = (Inr [(1, 5)], db1) \<and>
    fst (Complete harness no_faults 9 1 ''alice'' 4 db1) \<noteq> Inr True"
proof -
  let ?c = "\<lparr>work_item_id = 1, holder_principal = Some ''alice'', run_id = Some ''r'', fence_token = 4,
                lease_expires_at = Some 10, reclaim_fenced_at = None\<rparr>"
  obtain db1 where s: "ReclaimExpired sweep_cfg SweepOk {} 20 20 (work_items dead_holder) dead_holder = (Inr [(1, 5)], db1)"
    using dead_holder_swept by blast
  have c: "claim_of dead_holder 1 = Some ?c" by (simp add: dead_holder_def)
  have "fst (Complete harness no_faults 9 1 ''alice'' 4 db1) \<noteq> Inr True"
    using swept_holder_is_refused [where cfg = harness and flt' = no_faults and tg = 9 and p = "''alice''",
        OF dead_holder_wf s c _ swept.run_refl] by (simp add: Let_def)
  with s show ?thesis by blast
qed

section \<open>Backlogs drain\<close>

definition due_claims :: "SweepConfig \<Rightarrow> instant \<Rightarrow> coord_db \<Rightarrow> claim_row set" where
  "due_claims cfg t db = {c \<in> set (claims db). expired cfg {} t (work_items db) c}"

lemma expired_mono: "expired cfg {} t seen c \<Longrightarrow> t \<le> t' \<Longrightarrow> expired cfg {} t' seen c"
  by (cases "lease_expires_at c") (auto simp: expired_def)

lemma released_not_expired: "\<not> expired cfg locked t seen (released ts c)"
  by (simp add: expired_def released_def)

lemma expired_same_state:
  assumes "wf_table item_id seen" and "wf_table item_id seen'"
    and "lookup_by item_id (work_item_id c) seen' = lookup_by item_id (work_item_id c) seen"
  shows "expired cfg locked t seen' c = expired cfg locked t seen c"
  using assms by (simp add: expired_wf)

lemma due_after_sweep:
  assumes "wf_db db" and "ReclaimExpired cfg SweepOk {} tg ts (work_items db) db = (res, db')"
  shows "due_claims cfg t db' = due_claims cfg t db
    - set (sql_pick (expired cfg {} tg (work_items db)) lease_at (sweep_batchParam cfg) (claims db))"
    (is "_ = _ - set ?pick")
proof (rule set_eqI)
  fix c
  note rows = ReclaimExpired_rows [OF assms, simplified]
  have w: "wf_table work_item_id (claims db)" "wf_table item_id (work_items db)"
    "wf_table work_item_id (claims db')" "wf_table item_id (work_items db')"
    using assms(1) rows(1) by (simp_all add: wf_db_def)
  have mem: "c \<in> set (claims d) \<longleftrightarrow> claim_of d (work_item_id c) = Some c" if "wf_table work_item_id (claims d)" for d
    using lookup_by_mem [OF that] lookup_by_Some [of work_item_id _ "claims d"] by blast
  have pick: "work_item_id c \<in> work_item_id ` set ?pick \<longleftrightarrow> c \<in> set ?pick" if "c \<in> set (claims db)"
    by (rule picked_key [OF w(1) that])
  show "c \<in> due_claims cfg t db' \<longleftrightarrow> c \<in> due_claims cfg t db - set ?pick"
  proof (cases "work_item_id c \<in> work_item_id ` set ?pick")
    case True
    then have "c \<notin> due_claims cfg t db'"
      using rows(2) [of "work_item_id c"] released_not_expired by (auto simp: due_claims_def mem [OF w(3)])
    moreover have "c \<notin> due_claims cfg t db - set ?pick" using True pick by (auto simp: due_claims_def)
    ultimately show ?thesis by simp
  next
    case False
    then have "claim_of db' (work_item_id c) = claim_of db (work_item_id c)"
      and i: "item_of db' (work_item_id c) = item_of db (work_item_id c)"
      using rows(2,3) [of "work_item_id c"] by (auto simp: option.map_id0 [unfolded id_def])
    then have "c \<in> set (claims db') \<longleftrightarrow> c \<in> set (claims db)" by (simp add: mem [OF w(3)] mem [OF w(1)])
    then show ?thesis using False expired_same_state [OF w(2,4) i] by (auto simp: due_claims_def)
  qed
qed

lemma sweep_shrinks:
  assumes "wf_db db" and "ReclaimExpired cfg SweepOk {} tg ts (work_items db) db = (res, db')" and "t \<le> tg"
  shows "card (due_claims cfg t db') \<le> card (due_claims cfg t db) - sweep_batchParam cfg"
proof -
  let ?pick = "sql_pick (expired cfg {} tg (work_items db)) lease_at (sweep_batchParam cfg) (claims db)"
  note after = due_after_sweep [OF assms(1,2), of t]
  show ?thesis
  proof (cases "due_claims cfg t db \<subseteq> set ?pick")
    case True
    then show ?thesis by (simp add: after Diff_eq_empty_iff [THEN iffD2])
  next
    case False
    then obtain q where q: "q \<in> set (claims db)" "expired cfg {} t (work_items db) q" "q \<notin> set ?pick"
      by (auto simp: due_claims_def)
    have qe: "expired cfg {} tg (work_items db) q" using expired_mono [OF q(2) assms(3)] .
    have "set ?pick \<subseteq> due_claims cfg t db"
    proof
      fix r assume r: "r \<in> set ?pick"
      then have "lease_at r \<le> lease_at q" using sql_pick_order [OF r q(1) qe q(3)] by simp
      with sql_pick_sound [OF r] q(2) show "r \<in> due_claims cfg t db"
        by (cases "lease_expires_at r"; cases "lease_expires_at q") (auto simp: due_claims_def expired_def lease_at_def)
    qed
    moreover have "distinct (map work_item_id ?pick)"
      using assms(1) by (intro sql_pick_distinct) (simp add: wf_db_def)
    then have "card (set ?pick) = length ?pick" by (metis distinct_card distinct_map)
    ultimately show ?thesis
      using sql_pick_complete [OF q(1) qe q(3)] by (simp add: after card_Diff_subset)
  qed
qed

text \<open>
  A backlog of dead holders drains: with a healthy database and no competing writer, after
  as many ticks as the backlog has batches no claim that had lapsed at a given instant is left
  with its holder, at whatever later instants the ticks come and however many more leases lapse
  meanwhile; no claim waits behind younger ones.
\<close>

theorem sweeper_drains:
  assumes "wf_db db" and "\<forall>x \<in> set clocks. t \<le> fst x"
    and "card (due_claims cfg t db) \<le> length clocks * sweep_batchParam cfg"
  shows "due_claims cfg t (snd (Sweeper_Run cfg wr (map (\<lambda>(tg, ts). Tick (\<lambda>d. d) SweepOk {} tg ts (\<lambda>w. w)) clocks) db)) = {}"
  using assms
proof (induction clocks arbitrary: db)
  case Nil
  then show ?case by (simp add: due_claims_def)
next
  case (Cons x clocks)
  obtain tg ts where x: "x = (tg, ts)" by fastforce
  obtain res db1 where s: "ReclaimExpired cfg SweepOk {} tg ts (work_items db) db = (res, db1)" by fastforce
  have snd_once: "snd (sweepOnce cfg wr SweepOk {} tg ts (work_items db) db) = db1"
    using s by (simp add: sweepOnce_def split: sum.splits)
  have "card (due_claims cfg t db1) \<le> length clocks * sweep_batchParam cfg"
    using sweep_shrinks [OF Cons.prems(1) s, of t] Cons.prems(2,3) x by simp
  moreover have "wf_db db1" using ReclaimExpired_rows(1) [OF Cons.prems(1) s] by simp
  ultimately show ?case using Cons.IH [of db1] Cons.prems(2) snd_once x by (simp add: case_prod_beta)
qed

theorem sweeper_drains_witness:
  "due_claims sweep_cfg 15 (snd (Sweeper_Run sweep_cfg \<lparr>has_onReclaim = True, has_onError = False\<rparr>
     [Tick (\<lambda>d. d) SweepOk {} 20 20 (\<lambda>w. w)] dead_holder)) = {}"
proof -
  have "card (due_claims sweep_cfg 15 dead_holder) \<le> card (set (claims dead_holder))"
    by (rule card_mono) (auto simp: due_claims_def)
  then have "card (due_claims sweep_cfg 15 dead_holder) \<le> length [(20 :: instant, 20 :: instant)] * sweep_batchParam sweep_cfg"
    by (simp add: dead_holder_def sweep_batchParam_def sweep_cfg_def)
  from sweeper_drains [OF dead_holder_wf _ this] show ?thesis by simp
qed

section \<open>A completion that commits during the statement\<close>

text \<open>
  The guard against reopening a done item is read from the statement's view of the items and
  not checked again where the item is written: when the holder's completing write, made inside
  its lease, commits while the sweep already runs, the completed item is set back to open.
\<close>

theorem sweep_reopens_completed_item:
  "let completed = snd (Complete harness no_faults 9 1 ''alice'' 4 dead_holder)
   in fst (Complete harness no_faults 9 1 ''alice'' 4 dead_holder) = Inr True \<and>
      item_of completed 1 = Some \<lparr>item_id = 1, item_state = ''done''\<rparr> \<and>
      item_of (snd (ReclaimExpired sweep_cfg SweepOk {} 20 20 (work_items dead_holder) completed)) 1 =
        Some \<lparr>item_id = 1, item_state = ''open''\<rparr>"
  by code_simp

end
