(* ===== verification/Go_Arith.thy ===== *)
theory Go_Arith
  imports Prelude
begin

text \<open>
  Go's machine arithmetic where the sources depend on it: signed 64-bit wrap-around, integer
  division that truncates toward zero, and the rounding of 64-bit floating point to 53
  significant bits (nearest, ties to even) on the non-negative values the back-off code uses.
\<close>

definition wrap64 :: "int \<Rightarrow> int" where
  "wrap64 x = (x + 2 ^ 63) mod 2 ^ 64 - 2 ^ 63"

definition go_quot :: "int \<Rightarrow> int \<Rightarrow> int" where
  "go_quot a b = sgn a * sgn b * (\<bar>a\<bar> div \<bar>b\<bar>)"

fun bit_length :: "nat \<Rightarrow> nat" where
  "bit_length n = (if n = 0 then 0 else Suc (bit_length (n div 2)))"

declare bit_length.simps [simp del]

definition round53 :: "nat \<Rightarrow> nat" where
  "round53 n =
     (let b = bit_length n in
      if b \<le> 53 then n
      else let s = b - 53; q = n div 2 ^ s; r = n mod 2 ^ s; h = 2 ^ (s - 1)
           in (if r > h \<or> (r = h \<and> odd q) then Suc q else q) * 2 ^ s)"

lemma wrap64_id: "- (2 ^ 63) \<le> x \<Longrightarrow> x < 2 ^ 63 \<Longrightarrow> wrap64 x = x"
  by (simp add: wrap64_def)

lemma wrap64_range: "- (2 ^ 63) \<le> wrap64 x \<and> wrap64 x < 2 ^ 63"
proof -
  have "0 \<le> (x + 2 ^ 63) mod (2 ^ 64 :: int) \<and> (x + 2 ^ 63) mod (2 ^ 64 :: int) < 2 ^ 64" by simp
  then show ?thesis by (simp add: wrap64_def)
qed

lemma wrap64_mod: "wrap64 x = x - 2 ^ 64 * ((x + 2 ^ 63) div 2 ^ 64)"
  unfolding wrap64_def using mult_div_mod_eq [of "2 ^ 64 :: int" "x + 2 ^ 63"] by linarith

lemma wrap64_zero: "2 ^ 64 dvd x \<Longrightarrow> wrap64 x = 0"
proof -
  assume "2 ^ 64 dvd x"
  then obtain c where "x = 2 ^ 64 * c" by blast
  then have "x + 2 ^ 63 = 2 ^ 63 + c * 2 ^ 64" by simp
  then show ?thesis unfolding wrap64_def by (simp only: mod_mult_self1) simp
qed

text \<open>Wrapping a multiple of a power of two wraps the cofactor at the remaining width.\<close>

lemma wrap64_scaled:
  assumes "t \<le> 64"
  shows "\<exists>q. wrap64 (a * 2 ^ t) = q * 2 ^ t \<and> q mod 2 ^ (64 - t) = a mod 2 ^ (64 - t)"
proof -
  define c where "c = (a * 2 ^ t + 2 ^ 63) div (2 ^ 64 :: int)"
  have "(2 ^ 64 :: int) = 2 ^ (64 - t) * 2 ^ t" using assms by (simp only: power_add [symmetric]) simp
  moreover have "wrap64 (a * 2 ^ t) = a * 2 ^ t - 2 ^ 64 * c" by (simp only: wrap64_mod c_def)
  ultimately have "wrap64 (a * 2 ^ t) = (a - 2 ^ (64 - t) * c) * 2 ^ t"
    by (simp only: left_diff_distrib right_diff_distrib ac_simps)
  moreover have "(a - 2 ^ (64 - t) * c) mod 2 ^ (64 - t) = a mod 2 ^ (64 - t)"
    by (metis mod_mult_self2 add_diff_cancel_left' diff_add_cancel)
  ultimately show ?thesis by blast
qed

text \<open>
  A left shift that leaves the 63-bit range can only come back positive as a large number:
  a multiple of the power of two it carries.
\<close>

lemma shift_overflow:
  fixes m cap :: int
  assumes "base = m * 2 ^ t" and "0 < m" and "m * cap < 2 ^ 63"
    and "2 ^ 63 \<le> base * 2 ^ s"
  shows "wrap64 (base * 2 ^ s) \<le> 0 \<or> wrap64 (base * 2 ^ s) > cap"
proof -
  let ?p = "2 ^ (t + s) :: int"
  have e: "base * 2 ^ s = m * ?p" using assms(1) by (simp add: power_add)
  have "m * cap < m * ?p" using assms(3,4) e by simp
  then have big: "cap < ?p" using assms(2) by simp
  show ?thesis
  proof (cases "64 \<le> t + s")
    case True
    then have "(2 ^ 64 :: int) dvd ?p" by (rule le_imp_power_dvd)
    then have "wrap64 (base * 2 ^ s) = 0" unfolding e by (intro wrap64_zero dvd_mult)
    then show ?thesis by simp
  next
    case False
    have "?p dvd base * 2 ^ s" unfolding e by simp
    moreover have "?p dvd 2 ^ 64 * ((base * 2 ^ s + 2 ^ 63) div 2 ^ 64)"
      using False by (intro dvd_mult2 le_imp_power_dvd) simp
    ultimately have "?p dvd wrap64 (base * 2 ^ s)"
      unfolding wrap64_mod by (rule dvd_diff)
    then show ?thesis using big zdvd_imp_le [of ?p "wrap64 (base * 2 ^ s)"] by linarith
  qed
qed

lemma bit_length_le: "n < 2 ^ k \<Longrightarrow> bit_length n \<le> k"
proof (induction n arbitrary: k rule: bit_length.induct)
  case (1 n)
  show ?case
  proof (cases "n = 0")
    case True
    then show ?thesis by (simp add: bit_length.simps [of 0])
  next
    case False
    then obtain j where k: "k = Suc j" using "1.prems" by (cases k) auto
    then have "n div 2 < 2 ^ j" using "1.prems" by auto
    then show ?thesis using "1.IH" False k by (simp add: bit_length.simps [of n])
  qed
qed

lemma round53_small: "n < 2 ^ 53 \<Longrightarrow> round53 n = n"
  using bit_length_le [of n 53] by (simp add: round53_def Let_def)

text \<open>Rounding never passes a representable bound: here one with 53 trailing zero bits.\<close>

lemma round53_le:
  assumes "n \<le> m * 2 ^ 53" and "n < 2 ^ 106"
  shows "round53 n \<le> m * 2 ^ 53"
proof (cases "bit_length n \<le> 53")
  case True
  with assms show ?thesis by (simp add: round53_def Let_def)
next
  case False
  define s where "s = bit_length n - 53"
  have s: "0 < s" "s \<le> 53" using False bit_length_le [OF assms(2)] by (auto simp: s_def)
  obtain c where c: "m * 2 ^ 53 = c * 2 ^ s"
    using s(2) by (metis le_imp_power_dvd dvd_mult dvd_def mult.commute)
  have up: "n mod 2 ^ s \<noteq> 0 \<Longrightarrow> Suc (n div 2 ^ s) \<le> c"
  proof -
    assume nz: "n mod 2 ^ s \<noteq> 0"
    have "n div 2 ^ s * 2 ^ s < n" using nz by (metis div_mult_mod_eq less_add_same_cancel1 neq0_conv)
    also have "n \<le> c * 2 ^ s" using assms(1) c by simp
    finally show ?thesis by simp
  qed
  have down: "n div 2 ^ s \<le> c"
    using assms(1) c by (metis div_le_mono div_mult_self_is_m zero_less_numeral zero_less_power)
  have "(if n mod 2 ^ s > 2 ^ (s - 1) \<or> (n mod 2 ^ s = 2 ^ (s - 1) \<and> odd (n div 2 ^ s))
         then Suc (n div 2 ^ s) else n div 2 ^ s) \<le> c"
    using up down by auto
  then show ?thesis
    using False c by (simp add: round53_def Let_def s_def [symmetric])
qed

lemma go_quot_nonneg: "0 \<le> a \<Longrightarrow> 0 < b \<Longrightarrow> go_quot a b = a div b"
  by (cases "a = 0") (auto simp: go_quot_def sgn_if)

end
