(* ===== verification/Wake_Source.thy ===== *)
theory Wake_Source
  imports Sql_Claim
begin

text \<open>
  The contract of a wake ledger (the interface \<open>wakeSource\<close> of pkg/coord/resume.go): the
  earliest pending deadline, and the statement that claims the due episodes. \<open>deadline\<close> is
  the pending timer of a key, if it has one; \<open>locked\<close> are the rows other timers hold while
  this one runs (they are skipped). Timers that share a ledger partition its wakes: every
  episode is claimed at most once, and none that is due is left behind.
\<close>

locale wake_source =
  fixes inv :: "'db \<Rightarrow> bool"
    and deadline :: "'db \<Rightarrow> 'k \<Rightarrow> instant option"
    and nextWake :: "'db \<Rightarrow> instant option"
    and resumeDue :: "nat \<Rightarrow> 'k set \<Rightarrow> instant \<Rightarrow> 'db \<Rightarrow> 'k list \<times> 'db"
  assumes inv_due: "inv db \<Longrightarrow> inv (snd (resumeDue n locked t db))"
    and next_none: "inv db \<Longrightarrow> nextWake db = None \<longleftrightarrow> (\<forall>k. deadline db k = None)"
    and next_min: "inv db \<Longrightarrow> nextWake db = Some at \<Longrightarrow>
      (\<exists>k. deadline db k = Some at) \<and> (\<forall>k a. deadline db k = Some a \<longrightarrow> at \<le> a)"
    and due_distinct: "inv db \<Longrightarrow> distinct (fst (resumeDue n locked t db))"
    and due_sound: "inv db \<Longrightarrow> k \<in> set (fst (resumeDue n locked t db)) \<Longrightarrow>
      k \<notin> locked \<and> (\<exists>a. deadline db k = Some a \<and> a \<le> t)"
    and due_stamps: "inv db \<Longrightarrow> deadline (snd (resumeDue n locked t db)) k =
      (if k \<in> set (fst (resumeDue n locked t db)) then None else deadline db k)"
    and due_complete: "inv db \<Longrightarrow> deadline db k = Some a \<Longrightarrow> a \<le> t \<Longrightarrow> k \<notin> locked \<Longrightarrow>
      k \<notin> set (fst (resumeDue n locked t db)) \<Longrightarrow> length (fst (resumeDue n locked t db)) = n"
begin

text \<open>A sequence of claims by any timers: the concatenation of what they were handed.\<close>

fun claims :: "(nat \<times> 'k set \<times> instant) list \<Rightarrow> 'db \<Rightarrow> 'k list \<times> 'db" where
  "claims [] db = ([], db)"
| "claims ((n, locked, t) # cs) db =
     (case resumeDue n locked t db of (ks, db1) \<Rightarrow>
        (case claims cs db1 of (ks', db2) \<Rightarrow> (ks @ ks', db2)))"

lemma claims_exactly_once:
  "inv db \<Longrightarrow> distinct (fst (claims cs db)) \<and>
    (\<forall>k \<in> set (fst (claims cs db)). deadline db k \<noteq> None) \<and>
    (\<forall>k. deadline (snd (claims cs db)) k = (if k \<in> set (fst (claims cs db)) then None else deadline db k)) \<and>
    inv (snd (claims cs db))"
proof (induction cs arbitrary: db)
  case Nil
  then show ?case by simp
next
  case (Cons c cs)
  obtain n locked t where c: "c = (n, locked, t)" by (metis prod_cases3)
  obtain ks db1 where r: "resumeDue n locked t db = (ks, db1)" by fastforce
  obtain ks' db2 where r2: "claims cs db1 = (ks', db2)" by fastforce
  have i1: "inv db1" using inv_due [OF Cons.prems, of n locked t] r by simp
  have d1: "distinct ks" using due_distinct [OF Cons.prems, of n locked t] r by simp
  have s1: "\<And>k. k \<in> set ks \<Longrightarrow> deadline db k \<noteq> None"
    using due_sound [OF Cons.prems, of _ n locked t] r by fastforce
  have f1: "\<And>k. deadline db1 k = (if k \<in> set ks then None else deadline db k)"
    using due_stamps [OF Cons.prems, of n locked t] r by simp
  have IH: "distinct ks' \<and> (\<forall>k \<in> set ks'. deadline db1 k \<noteq> None) \<and>
      (\<forall>k. deadline db2 k = (if k \<in> set ks' then None else deadline db1 k)) \<and> inv db2"
    using Cons.IH [OF i1] r2 by simp
  have sep: "\<And>k. k \<in> set ks' \<Longrightarrow> k \<notin> set ks \<and> deadline db k \<noteq> None"
    using IH f1 by (metis (no_types))
  have fr: "\<And>k. deadline db2 k = (if k \<in> set ks \<union> set ks' then None else deadline db k)"
    using IH f1 by simp
  have res: "claims (c # cs) db = (ks @ ks', db2)" using c r r2 by simp
  show ?case unfolding res using d1 s1 sep fr IH by auto
qed

lemma wake_is_served:
  assumes "inv db" and "nextWake db = Some at" and "at \<le> t" and "0 < n"
    and "\<forall>k. deadline db k = Some at \<longrightarrow> k \<notin> locked"
  shows "fst (resumeDue n locked t db) \<noteq> []"
proof -
  obtain k where k: "deadline db k = Some at" using next_min [OF assms(1,2)] by blast
  with assms(5) have "k \<notin> locked" by blast
  with due_complete [OF assms(1) k assms(3), of locked n] assms(4) show ?thesis by fastforce
qed

end

section \<open>Histories of a ledger\<close>

text \<open>
  Any interleaving of the operations of a ledger: what each operation hands to its caller as
  woken, in order. An operation that hands out a key found it pending and ended the episode;
  only a pause of a key makes it pending.
\<close>

fun wakes_of :: "('op \<Rightarrow> 'db \<Rightarrow> 'k list \<times> 'db) \<Rightarrow> 'op list \<Rightarrow> 'db \<Rightarrow> 'k list \<times> 'db" where
  "wakes_of step [] db = ([], db)"
| "wakes_of step (x # xs) db =
     (case step x db of (ks, db1) \<Rightarrow> (case wakes_of step xs db1 of (ks', db2) \<Rightarrow> (ks @ ks', db2)))"

definition pauses_of :: "('op \<Rightarrow> 'k option) \<Rightarrow> 'k \<Rightarrow> 'op list \<Rightarrow> nat" where
  "pauses_of pauses k xs = length (filter (\<lambda>x. pauses x = Some k) xs)"

definition pending_n :: "'a option \<Rightarrow> nat" where
  "pending_n d = (if d = None then 0 else 1)"

locale wake_history =
  fixes inv :: "'db \<Rightarrow> bool"
    and deadline :: "'db \<Rightarrow> 'k \<Rightarrow> instant option"
    and step :: "'op \<Rightarrow> 'db \<Rightarrow> 'k list \<times> 'db"
    and pauses :: "'op \<Rightarrow> 'k option"
  assumes inv_step: "inv db \<Longrightarrow> inv (snd (step x db))"
    and handed_once: "inv db \<Longrightarrow> distinct (fst (step x db))"
    and handed_pending: "inv db \<Longrightarrow> k \<in> set (fst (step x db)) \<Longrightarrow>
      deadline db k \<noteq> None \<and> deadline (snd (step x db)) k = None"
    and only_pauses: "inv db \<Longrightarrow> pauses x \<noteq> Some k \<Longrightarrow> deadline (snd (step x db)) k \<noteq> None \<Longrightarrow>
      deadline db k \<noteq> None"
    and pause_hands_nothing: "inv db \<Longrightarrow> pauses x \<noteq> None \<Longrightarrow> fst (step x db) = []"
begin

lemma step_balance:
  assumes "inv db"
  shows "count_list (fst (step x db)) k + pending_n (deadline (snd (step x db)) k)
    \<le> (if pauses x = Some k then 1 else 0) + pending_n (deadline db k)"
proof (cases "k \<in> set (fst (step x db))")
  case True
  then have "count_list (fst (step x db)) k = 1"
    using handed_once [OF assms, of x] by (simp add: count_list_distinct)
  with handed_pending [OF assms True] show ?thesis by (auto simp: pending_n_def)
next
  case False
  then have "count_list (fst (step x db)) k = 0" by (simp add: count_list_0_iff)
  with only_pauses [OF assms, of x k] show ?thesis
    by (cases "deadline (snd (step x db)) k") (auto simp: pending_n_def)
qed

lemma wakes_balance:
  "inv db \<Longrightarrow> count_list (fst (wakes_of step xs db)) k + pending_n (deadline (snd (wakes_of step xs db)) k)
    \<le> pauses_of pauses k xs + pending_n (deadline db k)"
proof (induction xs arbitrary: db)
  case Nil
  then show ?case by (simp add: pauses_of_def)
next
  case (Cons x xs)
  obtain ks db1 where s: "step x db = (ks, db1)" by fastforce
  obtain ks' db2 where w: "wakes_of step xs db1 = (ks', db2)" by fastforce
  have "inv db1" using inv_step [OF Cons.prems, of x] s by simp
  from Cons.IH [OF this] step_balance [OF Cons.prems, of x k] show ?case
    by (auto simp: s w pauses_of_def)
qed

lemma wakes_once_unless_paused:
  assumes "inv db" and "pauses_of pauses k xs = 0"
  shows "count_list (fst (wakes_of step xs db)) k \<le> 1"
  using wakes_balance [OF assms(1), of xs k] assms(2) by (auto simp: pending_n_def split: if_splits)

end

section \<open>Every ledger table is a wake source\<close>

text \<open>
  A ledger row is pending while \<open>pend\<close> accepts it, is due at \<open>at\<close>, and is stamped by a
  function that leaves its key alone and ends the episode.
\<close>

definition row_deadline :: "('r \<Rightarrow> 'k) \<Rightarrow> ('r \<Rightarrow> bool) \<Rightarrow> ('r \<Rightarrow> instant) \<Rightarrow> 'r list \<Rightarrow> 'k \<Rightarrow> instant option" where
  "row_deadline pk pend at t k =
     (case lookup_by pk k t of Some r \<Rightarrow> if pend r then Some (at r) else None | None \<Rightarrow> None)"

definition row_due :: "('r \<Rightarrow> 'k) \<Rightarrow> ('r \<Rightarrow> bool) \<Rightarrow> ('r \<Rightarrow> instant) \<Rightarrow> 'k set \<Rightarrow> instant \<Rightarrow> 'r \<Rightarrow> bool" where
  "row_due pk pend at locked now r \<longleftrightarrow> pend r \<and> at r \<le> now \<and> pk r \<notin> locked"

lemma row_deadline_iff:
  assumes "wf_table pk t"
  shows "row_deadline pk pend at t k = Some a \<longleftrightarrow> (\<exists>r \<in> set t. pk r = k \<and> pend r \<and> at r = a)"
proof
  assume "row_deadline pk pend at t k = Some a"
  then obtain r where "lookup_by pk k t = Some r" "pend r" "at r = a"
    by (auto simp: row_deadline_def split: option.splits if_splits)
  then show "\<exists>r \<in> set t. pk r = k \<and> pend r \<and> at r = a" using lookup_by_Some by metis
next
  assume "\<exists>r \<in> set t. pk r = k \<and> pend r \<and> at r = a"
  then obtain r where r: "r \<in> set t" "pk r = k" "pend r" "at r = a" by blast
  show "row_deadline pk pend at t k = Some a"
    using lookup_by_mem [OF assms r(1)] r by (simp add: row_deadline_def)
qed

lemma row_claim_member:
  assumes "wf_table pk t" and "\<And>r. pk (f r) = pk r"
    and "k \<in> set (map pk (fst (sql_claim pk P ord n f t)))"
  obtains r where "r \<in> set (sql_pick P ord n t)" "r \<in> set t" "pk r = k" "P r"
proof -
  have "k \<in> pk ` set (sql_pick P ord n t)"
    using assms(3) unfolding sql_claim_keys [OF assms(1,2)] .
  then obtain r where "r \<in> set (sql_pick P ord n t)" "pk r = k" by auto
  with that sql_pick_sound show ?thesis by fastforce
qed

lemma sql_wake_source:
  fixes pk :: "'r \<Rightarrow> 'k"
  assumes pk: "\<And>s r. pk (f s r) = pk r" and ends: "\<And>s r. \<not> pend (f s r)"
  shows "wake_source (wf_table pk) (row_deadline pk pend at) (sql_first pend at)
    (\<lambda>n locked t db. (map pk (fst (sql_claim pk (row_due pk pend at locked t) at n (f t) db)),
                      snd (sql_claim pk (row_due pk pend at locked t) at n (f t) db)))"
proof (unfold_locales, goal_cases)
  case (1 db n locked t)
  then show ?case by (simp add: sql_claim_wf [of pk "f t", OF pk])
next
  case (2 db)
  have "sql_first pend at db = None \<longleftrightarrow> (\<forall>r \<in> set db. \<not> pend r)" by (rule sql_first_None)
  moreover have "(\<exists>k. row_deadline pk pend at db k \<noteq> None) \<longleftrightarrow> (\<exists>r \<in> set db. pend r)"
    using row_deadline_iff [OF 2, of pend at] by (auto 0 3)
  ultimately show ?case by metis
next
  case (3 db a)
  then show ?case using sql_first_Some [OF 3(2)] by (auto simp: row_deadline_iff)
next
  case (4 db n locked t)
  then show ?case using sql_claim_distinct [of pk db "f t", OF _ pk] by simp
next
  case (5 db k n locked t)
  from 5(2) have "k \<in> set (map pk (fst (sql_claim pk (row_due pk pend at locked t) at n (f t) db)))" by simp
  from row_claim_member [OF 5(1) pk this] obtain r
    where "r \<in> set db" "pk r = k" "row_due pk pend at locked t r" .
  then show ?case by (auto simp: row_deadline_iff [OF 5(1)] row_due_def)
next
  case (6 db n locked t k)
  let ?due = "pk ` set (sql_pick (row_due pk pend at locked t) at n db)"
  have keys: "set (map pk (fst (sql_claim pk (row_due pk pend at locked t) at n (f t) db))) = ?due"
    by (rule sql_claim_keys [of pk db "f t", OF 6 pk])
  have "row_deadline pk pend at (snd (sql_claim pk (row_due pk pend at locked t) at n (f t) db)) k =
      (if k \<in> ?due then None else row_deadline pk pend at db k)"
    by (cases "lookup_by pk k db")
       (auto simp: row_deadline_def sql_claim_lookup [of pk "f t", OF pk] ends)
  then show ?case by (simp only: fst_conv snd_conv keys)
next
  case (7 db k a t locked n)
  let ?P = "row_due pk pend at locked t"
  obtain r where r: "r \<in> set db" "pk r = k" "pend r" "at r = a"
    using 7(2) by (auto simp: row_deadline_iff [OF 7(1)])
  have "k \<notin> pk ` set (sql_pick ?P at n db)"
    using 7(5) sql_claim_keys [of pk db "f t" ?P at n, OF 7(1) pk] by simp
  then have "r \<notin> set (sql_pick ?P at n db)" using r(2) by auto
  moreover have "?P r" using r 7(3,4) by (simp add: row_due_def)
  ultimately have "length (sql_pick ?P at n db) = n" using sql_pick_complete [of r db] r(1) by blast
  then show ?case by (simp add: sql_claim_length [of pk db "f t", OF 7(1) pk])
qed

text \<open>
  The moves a ledger operation can make: nothing, rewriting the row of the paused key,
  ending the episode of one key, or a batch claim whose keys are handed out or lost.
\<close>

inductive ledger_move ::
  "('r \<Rightarrow> 'k) \<Rightarrow> ('r \<Rightarrow> bool) \<Rightarrow> ('r \<Rightarrow> instant) \<Rightarrow> 'k option \<Rightarrow> 'r list \<Rightarrow> 'k list \<times> 'r list \<Rightarrow> bool"
  for pk pend at where
  move_none: "ledger_move pk pend at p t ([], t)"
| move_pause: "ledger_move pk pend at (Some (pk row)) t ([], upsert_by pk row t)"
| move_end: "(\<And>r. pk (f r) = pk r) \<Longrightarrow> (\<And>r. \<not> pend (f r)) \<Longrightarrow>
    ledger_move pk pend at p t ([], upd_key pk k G f t)"
| move_claim: "(\<And>r. pk (f r) = pk r) \<Longrightarrow> (\<And>r. \<not> pend (f r)) \<Longrightarrow>
    c = sql_claim pk (row_due pk pend at locked now) at n f t \<Longrightarrow>
    ks = map pk (fst c) \<or> ks = [] \<Longrightarrow>
    ledger_move pk pend at None t (ks, snd c)"

lemma claim_deadline:
  assumes "\<And>r. pk (f r) = pk r" and "\<And>r. \<not> pend (f r)" and "wf_table pk t"
  shows "row_deadline pk pend at (snd (sql_claim pk P ord n f t)) k =
    (if k \<in> set (map pk (fst (sql_claim pk P ord n f t))) then None else row_deadline pk pend at t k)"
  unfolding sql_claim_keys [of pk t f, OF assms(3,1)]
  by (cases "lookup_by pk k t") (auto simp: row_deadline_def sql_claim_lookup [of pk f, OF assms(1)] assms(2))

lemma claim_pending:
  assumes "\<And>r. pk (f r) = pk r" and "wf_table pk t"
    and "k \<in> set (map pk (fst (sql_claim pk (row_due pk pend at locked now) ord n f t)))"
  shows "row_deadline pk pend at t k \<noteq> None"
proof -
  obtain r where "r \<in> set t" "pk r = k" "row_due pk pend at locked now r"
    using row_claim_member [of pk t f, OF assms(2,1,3)] by blast
  then have "row_deadline pk pend at t k = Some (at r)"
    by (auto simp: row_deadline_iff [OF assms(2)] row_due_def)
  then show ?thesis by simp
qed

lemma move_wf:
  assumes "ledger_move pk pend at p t m" and "wf_table pk t"
  shows "wf_table pk (snd m)"
  using assms by cases (simp_all add: sql_claim_wf)

lemma move_handed:
  assumes "ledger_move pk pend at p t m" and "wf_table pk t"
  shows "distinct (fst m)"
    and "k \<in> set (fst m) \<Longrightarrow> row_deadline pk pend at t k \<noteq> None \<and> row_deadline pk pend at (snd m) k = None"
    and "p \<noteq> None \<Longrightarrow> fst m = []"
proof -
  show "distinct (fst m)"
    using assms by cases (auto simp: sql_claim_distinct simp del: list.set_map)
  show "k \<in> set (fst m) \<Longrightarrow> row_deadline pk pend at t k \<noteq> None \<and> row_deadline pk pend at (snd m) k = None"
    using assms
  proof cases
    case (move_claim f c locked now n ks)
    assume k: "k \<in> set (fst m)"
    then have m: "k \<in> set (map pk (fst c))" using move_claim by auto
    show ?thesis
      using claim_pending [where pk = pk and f = f and pend = pend and k = k and at = at and ord = at and n = n and
          locked = locked and now = now, OF move_claim(3) assms(2)] m move_claim(5)
        claim_deadline [where pk = pk and f = f and pend = pend and k = k and at = at and ord = at and n = n and
          P = "row_due pk pend at locked now", OF move_claim(3,4) assms(2)]
        move_claim(2)
      by simp
  qed simp_all
  show "p \<noteq> None \<Longrightarrow> fst m = []"
    using assms by cases auto
qed

lemma move_only_pauses:
  assumes "ledger_move pk pend at p t m" and "wf_table pk t" and "p \<noteq> Some k"
    and "row_deadline pk pend at (snd m) k \<noteq> None"
  shows "row_deadline pk pend at t k \<noteq> None"
  using assms(1)
proof cases
  case (move_end f k' G)
  have "row_deadline pk pend at (upd_key pk k' G f t) k \<noteq> None" using assms(4) move_end(1) by simp
  then show ?thesis
    using move_end(3) by (auto simp: row_deadline_def move_end(2) split: option.splits if_splits)
next
  case (move_claim f c locked now n ks)
  then show ?thesis
    using assms(4) claim_deadline [where pk = pk and f = f and pend = pend and k = k and at = at and ord = at and n = n and
          P = "row_due pk pend at locked now", OF move_claim(3,4) assms(2)]
    by (auto split: if_splits)
qed (use assms in \<open>auto simp: row_deadline_def\<close>)

lemma sql_wake_history:
  assumes "\<And>x t. ledger_move pk pend at (pauses x) t (step x t)"
  shows "wake_history (wf_table pk) (row_deadline pk pend at) step pauses"
proof (unfold_locales, goal_cases)
  case (1 db x)
  then show ?case using move_wf [OF assms] by blast
next
  case (2 db x)
  then show ?case using move_handed(1) [OF assms] by blast
next
  case (3 db k x)
  then show ?case using move_handed(2) [OF assms] by blast
next
  case (4 db x k)
  then show ?case using move_only_pauses [OF assms] by blast
next
  case (5 db x)
  then show ?case using move_handed(3) [OF assms] by blast
qed

end
