(* ===== verification/Resume_Ledger.thy ===== *)
theory Resume_Ledger
  imports Go_Arith Wake_Source
begin

text \<open>
  The rate-limit resume ledger (pkg/coord/resume.go): one row per paused work item, the
  escalation rule for consecutive pauses, the equal-jitter back-off, and the two statements the
  wake loop needs. A duration is Go's signed 64-bit nanosecond count, so the back-off shift
  wraps; the jitter source is a value \<open>k / 2 ^ 53\<close> with \<open>k < 2 ^ 53\<close>, what a uniform
  float64 in the half-open unit interval is. A statement reads the database clock once. The
  timer that sleeps between the statements is \<open>wakeLoop.Run\<close>: one pass of its loop per event
  its select receives.
\<close>

section \<open>Configuration and rows\<close>

record ResumeConfig =
  Pause_table :: string
  BackoffBase :: duration
  BackoffCap :: duration
  BackoffReset :: duration
  ResumeBatch :: int

definition DefaultResumeConfig :: ResumeConfig where
  "DefaultResumeConfig = \<lparr>Pause_table = [], BackoffBase = 1000000000, BackoffCap = 300000000000,
     BackoffReset = 600000000000, ResumeBatch = 64\<rparr>"

definition ResumeConfig_validate :: "ResumeConfig \<Rightarrow> string option" where
  "ResumeConfig_validate c =
     (if Pause_table c = [] then Some ''Pause table is required''
      else if BackoffBase c \<le> 0 \<or> BackoffCap c \<le> 0 \<or> BackoffReset c \<le> 0
        then Some ''BackoffBase, BackoffCap and BackoffReset must all be > 0''
      else if BackoffCap c < BackoffBase c then Some ''BackoffCap < BackoffBase''
      else None)"

definition batchParam :: "int \<Rightarrow> nat" where
  "batchParam batch = (if batch \<le> 0 then 2147483647 else nat batch)"

record 'k pause_row =
  pr_item :: 'k
  pr_reason :: string
  pr_retry_after_ms :: "int option"
  pr_attempt :: int
  pr_resume_at :: instant
  pr_paused_at :: instant
  pr_resumed_at :: "instant option"

record PauseInfo =
  PI_Attempt :: int
  PI_ResumeAt :: instant
  PI_RetryAfter :: "duration option"

record DuePause =
  DP_Item :: int
  DP_Attempt :: int
  DP_ResumeAt :: instant
  DP_RetryAfter :: "duration option"

text \<open>The statements of a ledger operation that can fail.\<close>

datatype pstmt = PBegin | PRead | PNow | PWrite | PCommit | PQuery | PScan

type_synonym pfaults = "pstmt \<Rightarrow> bool"

section \<open>Planning\<close>

definition planAttempt :: "int option \<Rightarrow> instant option \<Rightarrow> instant \<Rightarrow> duration \<Rightarrow> int" where
  "planAttempt priorAttempt priorResumedAt now reset =
     (case priorAttempt of
        None \<Rightarrow> 1
      | Some a \<Rightarrow>
          (case priorResumedAt of
             None \<Rightarrow> a
           | Some at \<Rightarrow> if now - at \<le> reset then a + 1 else 1))"

definition EqualJitter :: "duration \<Rightarrow> duration \<Rightarrow> int \<Rightarrow> nat \<Rightarrow> duration" where
  "EqualJitter base cap attempt k =
     (let attempt = (if attempt < 1 then 1 else attempt);
          shift = nat (attempt - 1)
      in if shift > 62 then cap
         else let exp0 = wrap64 (base * 2 ^ shift);
                  exp = (if exp0 \<le> 0 \<or> exp0 > cap then cap else exp0);
                  half = round53 (nat exp) div 2;
                  jitter = round53 (k * round53 half) div 2 ^ 53
              in int (half + jitter))"

definition planDelay :: "ResumeConfig \<Rightarrow> nat \<Rightarrow> int \<Rightarrow> duration option \<Rightarrow> duration" where
  "planDelay cfg k attempt retryAfter =
     (case retryAfter of
        Some ra \<Rightarrow> if ra > 0 then ra else EqualJitter (BackoffBase cfg) (BackoffCap cfg) attempt k
      | None \<Rightarrow> EqualJitter (BackoffBase cfg) (BackoffCap cfg) attempt k)"

section \<open>Statements\<close>

definition pause_write ::
  "ResumeConfig \<Rightarrow> nat \<Rightarrow> instant \<Rightarrow> int \<Rightarrow> duration option \<Rightarrow> int pause_row option \<Rightarrow> int pause_row" where
  "pause_write cfg k now item retryAfter prior =
     (let attempt = planAttempt (map_option pr_attempt prior) (Option.bind prior pr_resumed_at) now (BackoffReset cfg)
      in \<lparr>pr_item = item, pr_reason = ''rate_limited'',
          pr_retry_after_ms = map_option (\<lambda>ra. go_quot ra 1000000) retryAfter,
          pr_attempt = attempt, pr_resume_at = now + planDelay cfg k attempt retryAfter,
          pr_paused_at = now, pr_resumed_at = None\<rparr>)"

definition Pause ::
  "ResumeConfig \<Rightarrow> pfaults \<Rightarrow> nat \<Rightarrow> instant \<Rightarrow> int \<Rightarrow> duration option \<Rightarrow> int pause_row list \<Rightarrow>
   (string + PauseInfo) \<times> int pause_row list" where
  "Pause cfg flt k now item retryAfter t =
     (if flt PBegin then (Inl ''coord.Pause: begin'', t)
      else if flt PRead then (Inl ''coord.Pause: read prior'', t)
      else if flt PNow then (Inl ''panic: coord.dbNow'', t)
      else
        let row = pause_write cfg k now item retryAfter (lookup_by pr_item item t)
        in if flt PWrite then (Inl ''coord.Pause: write'', t)
           else if flt PCommit then (Inl ''coord.Pause: commit'', t)
           else (Inr \<lparr>PI_Attempt = pr_attempt row, PI_ResumeAt = pr_resume_at row, PI_RetryAfter = retryAfter\<rparr>,
                 upsert_by pr_item row t))"

definition pause_pending :: "('k, 'z) pause_row_scheme \<Rightarrow> bool" where
  "pause_pending r \<longleftrightarrow> pr_resumed_at r = None"

definition stamp_resumed :: "instant \<Rightarrow> ('k, 'z) pause_row_scheme \<Rightarrow> ('k, 'z) pause_row_scheme" where
  "stamp_resumed now r = r\<lparr>pr_resumed_at := Some now\<rparr>"

definition NextWake :: "pfaults \<Rightarrow> int pause_row list \<Rightarrow> string + instant option" where
  "NextWake flt t =
     (if flt PQuery then Inl ''coord.NextWake'' else Inr (sql_first pause_pending pr_resume_at t))"

definition due_pause :: "int pause_row \<Rightarrow> DuePause" where
  "due_pause r = \<lparr>DP_Item = pr_item r, DP_Attempt = pr_attempt r, DP_ResumeAt = pr_resume_at r,
     DP_RetryAfter = map_option (\<lambda>ms. wrap64 (ms * 1000000)) (pr_retry_after_ms r)\<rparr>"

text \<open>
  The claim commits by itself, so an error while the returned rows are read leaves them
  stamped.
\<close>

definition ResumeDue ::
  "ResumeConfig \<Rightarrow> pfaults \<Rightarrow> int set \<Rightarrow> instant \<Rightarrow> int pause_row list \<Rightarrow>
   (string + DuePause list) \<times> int pause_row list" where
  "ResumeDue cfg flt locked now t =
     (if flt PQuery then (Inl ''coord.ResumeDue'', t)
      else case sql_claim pr_item (row_due pr_item pause_pending pr_resume_at locked now) pr_resume_at
                  (batchParam (ResumeBatch cfg)) (stamp_resumed now) t of
        (rows, t') \<Rightarrow>
          if flt PScan then (Inl ''coord.ResumeDue: scan'', t') else (Inr (map due_pause rows), t'))"

section \<open>The wake loop\<close>

text \<open>
  One pass of the loop of Run over a wake source: derive the next wake, arm a timer if there is
  one, then take what the select receives. The local clock is read when the timer is armed. A
  timer that was never armed does not fire, so that event has no successor. The channel of
  kicks holds one element.
\<close>

datatype wl_event = CtxDone | KickReceived | TimerFired

record wl_state =
  skewGuards :: int
  kick :: bool

definition Notify :: "wl_state \<Rightarrow> wl_state" where
  "Notify w = w\<lparr>kick := True\<rparr>"

definition wl_until :: "instant \<Rightarrow> instant \<Rightarrow> duration" where
  "wl_until at now = (if at - now < 0 then 0 else at - now)"

definition Run_sleep :: "instant option \<Rightarrow> instant \<Rightarrow> int \<Rightarrow> duration option" where
  "Run_sleep wake now skew =
     map_option (\<lambda>at. let d = wl_until at now in if d \<le> 0 \<and> skew > 0 then 50000000 else d) wake"

definition Run_pass ::
  "('db \<Rightarrow> string + instant option) \<Rightarrow> ('db \<Rightarrow> (string + 'e list) \<times> 'db) \<Rightarrow>
   wl_event \<Rightarrow> wl_state \<Rightarrow> 'db \<Rightarrow> (string + wl_state \<times> 'e list) option \<times> 'db" where
  "Run_pass nextWake resumeDue ev w db =
     (case nextWake db of
        Inl err \<Rightarrow> (Some (Inl err), db)
      | Inr wake \<Rightarrow>
          let w1 = (if wake = None then w else w\<lparr>skewGuards := 0\<rparr>)
          in case ev of
               CtxDone \<Rightarrow> (Some (Inl ''ctx.Err''), db)
             | KickReceived \<Rightarrow> if kick w1 then (Some (Inr (w1\<lparr>kick := False\<rparr>, [])), db) else (None, db)
             | TimerFired \<Rightarrow>
                 if wake = None then (None, db)
                 else (case resumeDue db of
                         (Inl err, db') \<Rightarrow> (Some (Inl err), db')
                       | (Inr due, db') \<Rightarrow>
                           (Some (Inr (if due = [] then w1\<lparr>skewGuards := 1\<rparr> else w1, due)), db')))"

section \<open>Histories\<close>

text \<open>Any interleaving of pauses and claims by any number of processes, faults included.\<close>

datatype resume_op =
    RPause pfaults nat instant int "duration option"
  | RDue pfaults "int set" instant

fun resume_step :: "ResumeConfig \<Rightarrow> resume_op \<Rightarrow> int pause_row list \<Rightarrow> int list \<times> int pause_row list" where
  "resume_step cfg (RPause flt k now item ra) t = ([], snd (Pause cfg flt k now item ra t))"
| "resume_step cfg (RDue flt locked now) t =
     (case ResumeDue cfg flt locked now t of
        (Inl _, t') \<Rightarrow> ([], t')
      | (Inr due, t') \<Rightarrow> (map DP_Item due, t'))"

fun resume_pauses :: "resume_op \<Rightarrow> int option" where
  "resume_pauses (RPause flt k now item ra) = Some item"
| "resume_pauses (RDue flt locked now) = None"

section \<open>The ledger is a wake source\<close>

lemmas pause_row_simps = pause_pending_def stamp_resumed_def

interpretation resume: wake_source "wf_table pr_item"
  "row_deadline pr_item pause_pending pr_resume_at"
  "sql_first pause_pending pr_resume_at"
  "\<lambda>n locked t db. (map pr_item (fst (sql_claim pr_item (row_due pr_item pause_pending pr_resume_at locked t)
       pr_resume_at n (stamp_resumed t) db)),
     snd (sql_claim pr_item (row_due pr_item pause_pending pr_resume_at locked t)
       pr_resume_at n (stamp_resumed t) db))"
  by (rule sql_wake_source) (simp_all add: pause_row_simps)

lemma pause_write_key [simp]: "pr_item (pause_write cfg k now item ra prior) = item"
  by (simp add: pause_write_def Let_def)

lemma Pause_cases:
  "snd (Pause cfg flt k now item ra t) \<in>
     {t, upsert_by pr_item (pause_write cfg k now item ra (lookup_by pr_item item t)) t}"
  by (simp add: Pause_def Let_def)

lemma Pause_move: "ledger_move pr_item pause_pending pr_resume_at (Some item) t ([], snd (Pause cfg flt k now item ra t))"
  using Pause_cases [of cfg flt k now item ra t] move_none [of pr_item pause_pending pr_resume_at "Some item" t]
    move_pause [of pr_item pause_pending pr_resume_at "pause_write cfg k now item ra (lookup_by pr_item item t)" t]
  by auto

lemma map_DP_Item [simp]: "map DP_Item (map due_pause rows) = map pr_item rows"
  by (simp add: due_pause_def)

lemma ResumeDue_move:
  "ledger_move pr_item pause_pending pr_resume_at None t (resume_step cfg (RDue flt locked now) t)"
proof (cases "flt PQuery")
  case True
  then show ?thesis by (simp add: ResumeDue_def move_none)
next
  case False
  let ?c = "sql_claim pr_item (row_due pr_item pause_pending pr_resume_at locked now) pr_resume_at
    (batchParam (ResumeBatch cfg)) (stamp_resumed now) t"
  have "resume_step cfg (RDue flt locked now) t = (if flt PScan then [] else map pr_item (fst ?c), snd ?c)"
    using False by (simp add: ResumeDue_def del: map_map split: prod.splits)
  then show ?thesis
    using move_claim [of pr_item "stamp_resumed now" pause_pending ?c] by (simp add: pause_row_simps)
qed

interpretation resume_history: wake_history "wf_table pr_item"
  "row_deadline pr_item pause_pending pr_resume_at" "resume_step cfg" resume_pauses
  for cfg
proof (rule sql_wake_history)
  fix x and t :: "int pause_row list"
  show "ledger_move pr_item pause_pending pr_resume_at (resume_pauses x) t (resume_step cfg x t)"
    by (cases x) (simp add: Pause_move, simp only: resume_pauses.simps ResumeDue_move)
qed

section \<open>The back-off envelope\<close>

definition capped_exp :: "duration \<Rightarrow> duration \<Rightarrow> int \<Rightarrow> duration" where
  "capped_exp base cap attempt = min cap (base * 2 ^ nat (max 1 attempt - 1))"

lemma jitter_of_half:
  assumes "k < 2 ^ 53" and "h < 2 ^ 53"
  shows "round53 (k * round53 h) div 2 ^ 53 \<le> h"
proof -
  have "k * h \<le> h * 2 ^ 53" using assms(1) by (simp add: mult.commute)
  moreover have "k * h < 2 ^ 53 * 2 ^ 53" using assms by (intro mult_strict_mono) auto
  then have "k * h < 2 ^ 106" by simp
  ultimately have "round53 (k * h) \<le> h * 2 ^ 53" by (rule round53_le)
  then have "round53 (k * h) div 2 ^ 53 \<le> h * 2 ^ 53 div 2 ^ 53" by (rule div_le_mono)
  then show ?thesis using assms(2) by (simp add: round53_small)
qed

text \<open>
  The shift guard misses one case: a product past 63 bits that wraps to a positive value
  within the cap.
\<close>

definition short_wrap :: "duration \<Rightarrow> duration \<Rightarrow> int \<Rightarrow> bool" where
  "short_wrap base cap attempt \<longleftrightarrow>
     (let s = nat (max 1 attempt - 1); e = wrap64 (base * 2 ^ s)
      in s \<le> 62 \<and> 2 ^ 63 \<le> base * 2 ^ s \<and> 0 < e \<and> e \<le> cap)"

lemma shifted_exp:
  assumes "0 < base" and "cap < 2 ^ 53"
    and "base * 2 ^ s < 2 ^ 63 \<or> wrap64 (base * 2 ^ s) \<le> 0 \<or> wrap64 (base * 2 ^ s) > cap"
  shows "(let e = wrap64 (base * 2 ^ s) in if e \<le> 0 \<or> e > cap then cap else e) = min cap (base * 2 ^ s)"
proof (cases "base * 2 ^ s < 2 ^ 63")
  case True
  moreover have "0 < base * 2 ^ s" using assms(1) by simp
  ultimately have "wrap64 (base * 2 ^ s) = base * 2 ^ s" by (intro wrap64_id) linarith+
  then show ?thesis using \<open>0 < base * 2 ^ s\<close> by (simp add: Let_def)
next
  case False
  moreover have "cap < base * 2 ^ s" using False assms(2) by simp
  ultimately show ?thesis using assms(3) by (simp add: Let_def)
qed


lemma half_plus_jitter:
  assumes "k < 2 ^ 53" and "0 < e" and "e < 2 ^ 53"
  shows "e div 2 \<le> int (round53 (nat e) div 2 + round53 (k * round53 (round53 (nat e) div 2)) div 2 ^ 53)"
    and "int (round53 (nat e) div 2 + round53 (k * round53 (round53 (nat e) div 2)) div 2 ^ 53) \<le> e"
proof -
  have n: "nat e < 2 ^ 53" using assms(2,3) by (simp add: nat_less_iff)
  then have r: "round53 (nat e) = nat e" by (rule round53_small)
  have j: "round53 (k * round53 (nat e div 2)) div 2 ^ 53 \<le> nat e div 2"
    using n by (intro jitter_of_half [OF assms(1)]) linarith
  show "e div 2 \<le> int (round53 (nat e) div 2 + round53 (k * round53 (round53 (nat e) div 2)) div 2 ^ 53)"
    unfolding r using assms(2) by (simp add: zdiv_int)
  have "nat e div 2 + round53 (k * round53 (nat e div 2)) div 2 ^ 53 \<le> nat e div 2 + nat e div 2"
    using j by simp
  also have "\<dots> \<le> nat e" by simp
  finally show "int (round53 (nat e) div 2 + round53 (k * round53 (round53 (nat e) div 2)) div 2 ^ 53) \<le> e"
    unfolding r using assms(2) by linarith
qed

lemma EqualJitter_shift:
  "EqualJitter base cap attempt k =
     (if nat (max 1 attempt - 1) > 62 then cap
      else let e = (let e0 = wrap64 (base * 2 ^ nat (max 1 attempt - 1)) in if e0 \<le> 0 \<or> e0 > cap then cap else e0);
               half = round53 (nat e) div 2
           in int (half + round53 (k * round53 half) div 2 ^ 53))"
proof -
  have "(if attempt < 1 then 1 else attempt) = max 1 attempt" by auto
  then show ?thesis by (simp only: EqualJitter_def Let_def)
qed

lemma EqualJitter_range:
  assumes "k < 2 ^ 53" and "0 < cap" and "cap < 2 ^ 53"
  shows "0 \<le> EqualJitter base cap attempt k \<and> EqualJitter base cap attempt k \<le> cap"
proof (cases "nat (max 1 attempt - 1) > 62")
  case True
  then have "EqualJitter base cap attempt k = cap" by (simp only: EqualJitter_shift if_True)
  then show ?thesis using assms(2) by simp
next
  case False
  let ?e0 = "wrap64 (base * 2 ^ nat (max 1 attempt - 1))"
  define e where "e = (if ?e0 \<le> 0 \<or> ?e0 > cap then cap else ?e0)"
  have e: "0 < e" "e \<le> cap" using assms(2) by (auto simp: e_def)
  then have "e < 2 ^ 53" using assms(3) by linarith
  note half_plus_jitter(2) [OF assms(1) e(1) this]
  moreover have "EqualJitter base cap attempt k =
      int (round53 (nat e) div 2 + round53 (k * round53 (round53 (nat e) div 2)) div 2 ^ 53)"
    using False by (simp only: EqualJitter_shift Let_def e_def if_False)
  ultimately show ?thesis using e(2) by simp
qed

lemma EqualJitter_in_envelope:
  assumes "k < 2 ^ 53" and "0 < base" and "0 < cap" and "cap < 2 ^ 53" and "\<not> short_wrap base cap attempt"
  shows "capped_exp base cap attempt div 2 \<le> EqualJitter base cap attempt k \<and>
    EqualJitter base cap attempt k \<le> capped_exp base cap attempt"
proof (cases "nat (max 1 attempt - 1) > 62")
  case True
  let ?s = "nat (max 1 attempt - 1)"
  have "(2 ^ 53 :: int) \<le> 2 ^ ?s" using True by (intro power_increasing) auto
  also have "\<dots> \<le> base * 2 ^ ?s" using assms(2) by simp
  finally have "capped_exp base cap attempt = cap" using assms(4) by (simp add: capped_exp_def)
  moreover have "EqualJitter base cap attempt k = cap"
    using True by (simp only: EqualJitter_shift if_True)
  ultimately show ?thesis using assms(3) by linarith
next
  case False
  let ?s = "nat (max 1 attempt - 1)"
  have "0 < base * 2 ^ ?s" using assms(2) by simp
  then have pos: "0 < min cap (base * 2 ^ ?s)" and lt: "min cap (base * 2 ^ ?s) < 2 ^ 53"
    using assms(3,4) by linarith+
  have "base * 2 ^ ?s < 2 ^ 63 \<or> wrap64 (base * 2 ^ ?s) \<le> 0 \<or> wrap64 (base * 2 ^ ?s) > cap"
    using assms(5) False by (auto simp: short_wrap_def Let_def)
  from shifted_exp [OF assms(2,4) this] have "EqualJitter base cap attempt k =
      (let e = min cap (base * 2 ^ ?s); half = round53 (nat e) div 2
       in int (half + round53 (k * round53 half) div 2 ^ 53))"
    using False by (simp only: EqualJitter_shift if_False)
  then show ?thesis
    using half_plus_jitter [OF assms(1) pos lt] by (simp only: capped_exp_def Let_def)
qed

lemma small_residue:
  fixes n :: int
  assumes "1 \<le> n" and "n \<le> 3600"
  shows "279 < n * 1953125 mod 2 ^ 26"
proof (rule ccontr)
  let ?r = "n * 1953125 mod 2 ^ 26"
  assume "\<not> 279 < ?r"
  then have r: "?r \<in> set [0..279]" by simp
  have "?r * 36609133 mod 2 ^ 26 = n * (1953125 * 36609133) mod 2 ^ 26"
    by (simp only: mod_mult_left_eq mult.assoc)
  also have "\<dots> = n * (1953125 * 36609133 mod 2 ^ 26) mod 2 ^ 26" by (simp only: mod_mult_right_eq)
  also have "\<dots> = n" using assms by simp
  finally have "n = ?r * 36609133 mod 2 ^ 26" by simp
  have "list_all (\<lambda>r. r = 0 \<or> 3600 < r * 36609133 mod 2 ^ 26) [0..279 :: int]" by code_simp
  then have "?r = 0 \<or> 3600 < ?r * 36609133 mod 2 ^ 26" using r by (simp only: list_all_iff)
  with \<open>n = ?r * 36609133 mod 2 ^ 26\<close> show False using assms by auto
qed

lemma seconds_never_short:
  fixes n :: int
  assumes n: "1 \<le> n" "n \<le> 3600" and big: "2 ^ 63 \<le> n * 1000000000 * 2 ^ s"
  shows "wrap64 (n * 1000000000 * 2 ^ s) \<le> 0 \<or> wrap64 (n * 1000000000 * 2 ^ s) > 300000000000"
proof (rule ccontr)
  let ?x = "n * 1000000000 * 2 ^ s" and ?t = "s + 9"
  have x: "?x = n * 1953125 * 2 ^ ?t" by (simp add: power_add)
  assume "\<not> (wrap64 ?x \<le> 0 \<or> wrap64 ?x > 300000000000)"
  then have e: "0 < wrap64 ?x" "wrap64 ?x \<le> 300000000000" by auto
  have "?t < 64"
  proof (rule ccontr)
    assume "\<not> ?t < 64"
    then have "(2 ^ 64 :: int) dvd 2 ^ ?t" by (intro le_imp_power_dvd) simp
    then have "2 ^ 64 dvd ?x" unfolding x by (rule dvd_mult)
    then show False using e(1) wrap64_zero [of ?x] by simp
  qed
  then obtain q where q: "wrap64 ?x = q * 2 ^ ?t" "q mod 2 ^ (64 - ?t) = n * 1953125 mod 2 ^ (64 - ?t)"
    using wrap64_scaled [of ?t "n * 1953125"] x by auto
  have "0 < q" using e(1) q(1) by (simp add: zero_less_mult_iff)
  have "?t < 39"
  proof (rule ccontr)
    assume "\<not> ?t < 39"
    then have "(2 ^ 39 :: int) \<le> 2 ^ ?t" by (intro power_increasing) auto
    also have "\<dots> \<le> q * 2 ^ ?t" using \<open>0 < q\<close> by simp
    finally show False using e(2) q(1) by simp
  qed
  have "30 \<le> ?t"
  proof (rule ccontr)
    assume "\<not> 30 \<le> ?t"
    then have "(2 ^ ?t :: int) \<le> 2 ^ 29" by (intro power_increasing) auto
    then have "n * 1953125 * 2 ^ ?t \<le> 3600 * 1953125 * 2 ^ 29" using n by (intro mult_mono) auto
    then show False using big x by simp
  qed
  then have "(2 ^ 30 :: int) \<le> 2 ^ ?t" by (intro power_increasing) auto
  then have "q * 2 ^ 30 \<le> q * 2 ^ ?t" using \<open>0 < q\<close> by simp
  then have "q \<le> 279" using e(2) q(1) by simp
  have "(2 ^ 26 :: int) dvd 2 ^ (64 - ?t)" using \<open>?t < 39\<close> by (intro le_imp_power_dvd) simp
  then have "q mod 2 ^ 26 = n * 1953125 mod 2 ^ 26" 
    using arg_cong [OF q(2), of "\<lambda>a. a mod 2 ^ 26"] by (simp only: mod_mod_cancel)
  with small_residue [OF n] \<open>q \<le> 279\<close> \<open>0 < q\<close> show False by simp
qed

lemma odd_part_never_short:
  fixes m cap :: int
  assumes "base = m * 2 ^ t" and "0 < base" and "m * cap < 2 ^ 63"
  shows "\<not> short_wrap base cap attempt"
proof -
  have "0 < m" using assms(1,2) by (simp add: zero_less_mult_iff)
  from shift_overflow [OF assms(1) this assms(3)] show ?thesis
    by (fastforce simp: short_wrap_def Let_def)
qed

text \<open>
  C5. For every positive base, every cap below 104 days (so that float64 holds it exactly),
  every attempt and every value of the jitter source, Go's wrapping shift included, the
  back-off delay is between zero and the cap. Unless the shifted base leaves 63 bits and
  wraps to a positive value within the cap (short_wrap), it lies between half of
  min(cap, base * 2^(attempt-1)) and the whole of it. No attempt wraps so under the five-minute
  cap of the Run driver with a base of 1 to 3600 whole seconds, which is every base the Run's
  admission rule lets through, nor under any policy whose cap times the odd part of its base
  is below 2^63.
\<close>

theorem EqualJitter_envelope:
  assumes "k < 2 ^ 53" and "0 < base" and "0 < cap" and "cap < 2 ^ 53"
  shows "0 \<le> EqualJitter base cap attempt k \<and> EqualJitter base cap attempt k \<le> cap \<and>
    (\<not> short_wrap base cap attempt \<longrightarrow>
       capped_exp base cap attempt div 2 \<le> EqualJitter base cap attempt k \<and>
       EqualJitter base cap attempt k \<le> capped_exp base cap attempt) \<and>
    (1 \<le> n \<and> n \<le> 3600 \<and> base = n * 1000000000 \<and> cap = 300000000000 \<longrightarrow>
       \<not> short_wrap base cap attempt) \<and>
    (base = m * 2 ^ t \<and> m * cap < 2 ^ 63 \<longrightarrow> \<not> short_wrap base cap attempt)"
proof -
  have "\<not> short_wrap base cap attempt" if "1 \<le> n \<and> n \<le> 3600 \<and> base = n * 1000000000 \<and> cap = 300000000000"
    using that seconds_never_short [of n] by (fastforce simp: short_wrap_def Let_def)
  moreover note EqualJitter_range [OF assms(1,3,4)] EqualJitter_in_envelope [OF assms]
    odd_part_never_short [OF _ assms(2)]
  ultimately show ?thesis by blast
qed

theorem EqualJitter_envelope_witness:
  "capped_exp 17000000000 300000000000 31 div 2 \<le> EqualJitter 17000000000 300000000000 31 7 \<and>
   2 ^ 63 \<le> (17000000000 * 2 ^ 30 :: int)"
  using EqualJitter_envelope [of 7 17000000000 300000000000 31 17] by simp

text \<open>
  Elsewhere the shift guard is incomplete: with a base of
  2^40 + 1 ns and a cap of 2^50 ns the shift of the 25th attempt wraps to 2^24 ns, which is
  positive and below the cap, and the delay is at most 17 ms where the documented floor at the
  cap promises at least 2^49 ns.
\<close>

theorem EqualJitter_wraps_below_cap:
  "capped_exp (2 ^ 40 + 1) (2 ^ 50) 25 = 2 ^ 50 \<and>
   ResumeConfig_validate \<lparr>Pause_table = ''p'', BackoffBase = 2 ^ 40 + 1, BackoffCap = 2 ^ 50,
     BackoffReset = 1, ResumeBatch = 0\<rparr> = None \<and>
   short_wrap (2 ^ 40 + 1) (2 ^ 50) 25 \<and>
   EqualJitter (2 ^ 40 + 1) (2 ^ 50) 25 0 = 2 ^ 23"
  by (simp add: short_wrap_def capped_exp_def ResumeConfig_validate_def EqualJitter_def Let_def wrap64_def round53_small)

section \<open>Episodes\<close>

text \<open>
  A pause records one pending episode and its single wake: the attempt follows the
  escalation rule (a first pause starts at 1, a re-signalled pending episode keeps its attempt,
  a pause within the reset window of the last resume escalates, a later one restarts), a
  positive Retry-After is honoured to the nanosecond, and no other item's row changes.
\<close>

theorem Pause_records_episode:
  assumes "Pause cfg flt k now item ra t = (Inr info, t')"
  shows "\<exists>row. lookup_by pr_item item t' = Some row \<and> pause_pending row \<and>
      pr_attempt row = PI_Attempt info \<and> pr_resume_at row = PI_ResumeAt info \<and>
      PI_Attempt info =
        (case lookup_by pr_item item t of
           None \<Rightarrow> 1
         | Some old \<Rightarrow>
             (case pr_resumed_at old of
                None \<Rightarrow> pr_attempt old
              | Some at \<Rightarrow> if now - at \<le> BackoffReset cfg then pr_attempt old + 1 else 1)) \<and>
      (\<forall>d. ra = Some d \<and> 0 < d \<longrightarrow> PI_ResumeAt info = now + d) \<and>
      (\<forall>i. i \<noteq> item \<longrightarrow> lookup_by pr_item i t' = lookup_by pr_item i t)"
proof -
  let ?row = "pause_write cfg k now item ra (lookup_by pr_item item t)"
  have i: "info = \<lparr>PI_Attempt = pr_attempt ?row, PI_ResumeAt = pr_resume_at ?row, PI_RetryAfter = ra\<rparr>"
    and t': "t' = upsert_by pr_item ?row t"
    using assms by (auto simp: Pause_def Let_def split: if_splits)
  have a: "pr_attempt ?row = (case lookup_by pr_item item t of
           None \<Rightarrow> 1
         | Some old \<Rightarrow>
             (case pr_resumed_at old of
                None \<Rightarrow> pr_attempt old
              | Some at \<Rightarrow> if now - at \<le> BackoffReset cfg then pr_attempt old + 1 else 1))"
    by (cases "lookup_by pr_item item t") (simp_all add: pause_write_def planAttempt_def Let_def)
  have p: "pause_pending ?row" and d: "\<And>d. ra = Some d \<Longrightarrow> 0 < d \<Longrightarrow> pr_resume_at ?row = now + d"
    by (simp_all add: pause_pending_def pause_write_def Let_def planDelay_def)
  show ?thesis
    using a p d by (intro exI [of _ ?row]) (simp add: i t')
qed

theorem Pause_records_episode_witness:
  "PI_ResumeAt \<lparr>PI_Attempt = 1, PI_ResumeAt = 105, PI_RetryAfter = Some 5\<rparr> = (105 :: int) \<and>
   (\<exists>row. lookup_by pr_item 7 (snd (Pause DefaultResumeConfig (\<lambda>_. False) 0 100 7 (Some 5) [])) = Some row \<and>
      pause_pending row \<and> pr_resume_at row = 105)"
proof -
  let ?t = "snd (Pause DefaultResumeConfig (\<lambda>_. False) 0 100 7 (Some 5) [])"
  have "Pause DefaultResumeConfig (\<lambda>_. False) 0 100 7 (Some 5) [] =
      (Inr \<lparr>PI_Attempt = 1, PI_ResumeAt = 105, PI_RetryAfter = Some 5\<rparr>, ?t)"
    by (simp add: Pause_def Let_def pause_write_def planAttempt_def planDelay_def)
  from Pause_records_episode [OF this] show ?thesis by (auto simp: pause_pending_def)
qed

text \<open>
  Exactly-once wakes: over any interleaving of pauses and claims by any number of timers,
  with any statement failing at any point, an item is handed out as woken at most once per
  pause (plus once if it was already pending), and never while it is still pending afterwards.
\<close>

theorem resume_exactly_once:
  assumes "wf_table pr_item t"
  shows "count_list (fst (wakes_of (resume_step cfg) ops t)) item
      + pending_n (row_deadline pr_item pause_pending pr_resume_at (snd (wakes_of (resume_step cfg) ops t)) item)
    \<le> pauses_of resume_pauses item ops
      + pending_n (row_deadline pr_item pause_pending pr_resume_at t item)"
  using assms by (rule resume_history.wakes_balance)

theorem resume_exactly_once_witness:
  "count_list (fst (wakes_of (resume_step DefaultResumeConfig)
     [RPause (\<lambda>_. False) 0 100 7 (Some 5), RDue (\<lambda>_. False) {} 105, RDue (\<lambda>_. False) {} 106] [])) 7 \<le> 1"
  using resume_exactly_once [of "[]" DefaultResumeConfig
      "[RPause (\<lambda>_. False) 0 100 7 (Some 5), RDue (\<lambda>_. False) {} 105, RDue (\<lambda>_. False) {} 106]" 7]
  by (simp add: wf_table_def pauses_of_def pending_n_def row_deadline_def del: resume_step.simps wakes_of.simps)

text \<open>
  The single wake is served: when a timer derived its deadline from the ledger, the
  database clock has reached it and no other timer holds the due rows, the pass of the loop
  hands out a non-empty batch of episodes that were all pending and due, and resets the skew
  guard.
\<close>

theorem wake_loop_serves:
  assumes "wf_table pr_item t" and "\<not> flt PQuery" and "\<not> flt PScan"
    and "NextWake flt t = Inr (Some at)" and "at \<le> now"
  shows "\<exists>due t'. Run_pass (NextWake flt) (ResumeDue cfg flt {} now) TimerFired w t =
      (Some (Inr (w\<lparr>skewGuards := 0\<rparr>, due)), t') \<and> due \<noteq> [] \<and>
      (\<forall>d \<in> set due. DP_ResumeAt d \<le> now \<and>
        row_deadline pr_item pause_pending pr_resume_at t (DP_Item d) = Some (DP_ResumeAt d))"
proof -
  let ?P = "row_due pr_item pause_pending pr_resume_at {} now"
  let ?c = "sql_claim pr_item ?P pr_resume_at (batchParam (ResumeBatch cfg)) (stamp_resumed now) t"
  have first: "sql_first pause_pending pr_resume_at t = Some at"
    using assms(2,4) by (simp add: NextWake_def)
  have "0 < batchParam (ResumeBatch cfg)" by (simp add: batchParam_def)
  from resume.wake_is_served [OF assms(1) first assms(5) this, of "{}"]
  have ne: "fst ?c \<noteq> []" by simp
  have rd: "ResumeDue cfg flt {} now t = (Inr (map due_pause (fst ?c)), snd ?c)"
    using assms(2,3) by (simp add: ResumeDue_def split: prod.splits)
  have sound: "DP_ResumeAt d \<le> now \<and>
      row_deadline pr_item pause_pending pr_resume_at t (DP_Item d) = Some (DP_ResumeAt d)"
    if d: "d \<in> set (map due_pause (fst ?c))" for d
  proof -
    obtain r where r: "r \<in> set (fst ?c)" "d = due_pause r" using d by auto
    from sql_claim_row_sound [OF assms(1) r(1)] obtain q
      where q: "q \<in> set t" "?P q" "r = stamp_resumed now q" by blast
    have "row_deadline pr_item pause_pending pr_resume_at t (pr_item q) = Some (pr_resume_at q)"
      using q by (auto simp: row_deadline_iff [OF assms(1)] row_due_def)
    with q r(2) show ?thesis by (simp add: due_pause_def stamp_resumed_def row_due_def)
  qed
  show ?thesis
    using ne sound by (intro exI [of _ "map due_pause (fst ?c)"] exI [of _ "snd ?c"])
      (simp add: Run_pass_def assms(4) rd Let_def)
qed

lemma idle_loop_claims_nothing:
  "nw u = Inr None \<Longrightarrow> Run_pass nw rd TimerFired w u = (None, u)"
  by (simp add: Run_pass_def Let_def)

definition paused_seven :: "int pause_row" where
  "paused_seven = \<lparr>pr_item = 7, pr_reason = ''rate_limited'', pr_retry_after_ms = Some 0, pr_attempt = 1,
     pr_resume_at = 105, pr_paused_at = 100, pr_resumed_at = None\<rparr>"

theorem wake_loop_serves_witness:
  "\<exists>due t'. Run_pass (NextWake (\<lambda>_. False)) (ResumeDue DefaultResumeConfig (\<lambda>_. False) {} 105)
      TimerFired \<lparr>skewGuards = 1, kick = False\<rparr> [paused_seven] =
      (Some (Inr (\<lparr>skewGuards = 0, kick = False\<rparr>, due)), t') \<and> due \<noteq> []"
proof -
  have "NextWake (\<lambda>_. False) [paused_seven] = Inr (Some 105)"
    by (simp add: NextWake_def sql_first_def pause_pending_def paused_seven_def)
  from wake_loop_serves [of "[paused_seven]" "\<lambda>_. False" 105 105 DefaultResumeConfig
      "\<lparr>skewGuards = 1, kick = False\<rparr>", OF _ _ _ this]
  show ?thesis by (auto simp: wf_table_def)
qed

text \<open>
  A fired deadline that claims nothing never spins: the pass arms the skew guard, so the
  timer of the following pass sleeps at least 50 ms or until a deadline still ahead of it.
\<close>

theorem skew_guard_no_spin:
  assumes "Run_pass nw rd TimerFired w db = (Some (Inr (w', [])), db')" and "nw db' = Inr (Some at)"
  shows "skewGuards w' = 1 \<and>
    (\<exists>d. Run_sleep (Some at) now (skewGuards w') = Some d \<and> (d = 50000000 \<or> d = at - now \<and> 0 < d))"
proof -
  have "skewGuards w' = 1"
    using assms(1) by (auto simp: Run_pass_def Let_def split: sum.splits if_splits prod.splits)
  then show ?thesis by (auto simp: Run_sleep_def wl_until_def Let_def)
qed

theorem skew_guard_no_spin_witness:
  "skewGuards \<lparr>skewGuards = 1, kick = False\<rparr> = 1 \<and>
   (\<exists>d. Run_sleep (Some 105) 110 1 = Some d \<and> (d = 50000000 \<or> d = 105 - 110 \<and> 0 < d))"
proof -
  have r: "Run_pass (NextWake (\<lambda>_. False)) (ResumeDue DefaultResumeConfig (\<lambda>_. False) {} 104)
      TimerFired \<lparr>skewGuards = 0, kick = False\<rparr> [paused_seven] =
      (Some (Inr (\<lparr>skewGuards = 1, kick = False\<rparr>, [])), [paused_seven])"
    by code_simp
  have n: "NextWake (\<lambda>_. False) [paused_seven] = Inr (Some 105)"
    by (simp add: NextWake_def sql_first_def pause_pending_def paused_seven_def)
  from skew_guard_no_spin [OF r n, of 110] show ?thesis by simp
qed

text \<open>
  A claim whose rows cannot be read has still stamped them: those wakes are handed to nobody.
\<close>

lemma scan_error_loses_wake:
  "ResumeDue DefaultResumeConfig (\<lambda>s. s = PScan) {} 105 [paused_seven] =
    (Inl ''coord.ResumeDue: scan'', [paused_seven\<lparr>pr_resumed_at := Some 105\<rparr>])"
  by code_simp

end
