(* ===== verification/Prod_Resume.thy ===== *)
theory Prod_Resume
  imports Resume_Ledger
begin

text \<open>
  The production binding of the resume ledger (pkg/coord/resumeprod.go): the same planning and
  the same statements over \<open>coord.run_pause\<close>, keyed by the work item's uuid and carrying the
  Run's uid. The ledger is a second instance of the wake-source contract, and forgetting the
  run column and the uuid spelling gives back the harness ledger.
\<close>

section \<open>Rows and operations\<close>

record prod_pause_row = "string pause_row" +
  pr_run :: string

record ProdDuePause =
  PDP_WorkItemID :: string
  PDP_RunID :: string
  PDP_Attempt :: int
  PDP_ResumeAt :: instant
  PDP_RetryAfter :: "duration option"

definition DefaultProdResumeConfig :: ResumeConfig where
  "DefaultProdResumeConfig = DefaultResumeConfig\<lparr>Pause_table := ''coord.run_pause''\<rparr>"

definition NewProdResumeStore :: "bool \<Rightarrow> ResumeConfig \<Rightarrow> string + ResumeConfig" where
  "NewProdResumeStore nil_db cfg =
     (if nil_db then Inl ''coord.NewProdResumeStore: nil db''
      else if Pause_table cfg = [] then Inl ''coord.NewProdResumeStore: Pause table is required''
      else case ResumeConfig_validate cfg of Some err \<Rightarrow> Inl err | None \<Rightarrow> Inr cfg)"

definition prod_planDelay :: "ResumeConfig \<Rightarrow> nat \<Rightarrow> int \<Rightarrow> duration option \<Rightarrow> duration" where
  "prod_planDelay cfg k attempt retryAfter =
     (case retryAfter of
        Some ra \<Rightarrow> if ra > 0 then ra else EqualJitter (BackoffBase cfg) (BackoffCap cfg) attempt k
      | None \<Rightarrow> EqualJitter (BackoffBase cfg) (BackoffCap cfg) attempt k)"

definition prod_pause_write ::
  "ResumeConfig \<Rightarrow> nat \<Rightarrow> instant \<Rightarrow> string \<Rightarrow> string \<Rightarrow> duration option \<Rightarrow> prod_pause_row option \<Rightarrow> prod_pause_row" where
  "prod_pause_write cfg k now workItemID runID retryAfter prior =
     (let attempt = planAttempt (map_option pr_attempt prior) (Option.bind prior pr_resumed_at) now (BackoffReset cfg)
      in \<lparr>pr_item = workItemID, pr_reason = ''rate_limited'',
          pr_retry_after_ms = map_option (\<lambda>ra. go_quot ra 1000000) retryAfter,
          pr_attempt = attempt, pr_resume_at = now + prod_planDelay cfg k attempt retryAfter,
          pr_paused_at = now, pr_resumed_at = None, pr_run = runID\<rparr>)"

definition ProdPause ::
  "ResumeConfig \<Rightarrow> pfaults \<Rightarrow> nat \<Rightarrow> instant \<Rightarrow> string \<Rightarrow> string \<Rightarrow> duration option \<Rightarrow> prod_pause_row list \<Rightarrow>
   (string + PauseInfo) \<times> prod_pause_row list" where
  "ProdPause cfg flt k now workItemID runID retryAfter t =
     (if flt PBegin then (Inl ''coord.ProdResumeStore.Pause: begin'', t)
      else if flt PRead then (Inl ''coord.ProdResumeStore.Pause: read prior'', t)
      else if flt PNow then (Inl ''panic: coord.dbNow'', t)
      else
        let row = prod_pause_write cfg k now workItemID runID retryAfter (lookup_by pr_item workItemID t)
        in if flt PWrite then (Inl ''coord.ProdResumeStore.Pause: write'', t)
           else if flt PCommit then (Inl ''coord.ProdResumeStore.Pause: commit'', t)
           else (Inr \<lparr>PI_Attempt = pr_attempt row, PI_ResumeAt = pr_resume_at row, PI_RetryAfter = retryAfter\<rparr>,
                 upsert_by pr_item row t))"

definition Pending :: "pfaults \<Rightarrow> string \<Rightarrow> prod_pause_row list \<Rightarrow> string + instant option" where
  "Pending flt workItemID t =
     (if flt PQuery then Inl ''coord.ProdResumeStore.Pending''
      else Inr (map_option pr_resume_at (row_key pr_item workItemID pause_pending t)))"

definition ProdNextWake :: "pfaults \<Rightarrow> prod_pause_row list \<Rightarrow> string + instant option" where
  "ProdNextWake flt t =
     (if flt PQuery then Inl ''coord.ProdResumeStore.NextWake''
      else Inr (sql_first pause_pending pr_resume_at t))"

definition prod_due_pause :: "prod_pause_row \<Rightarrow> ProdDuePause" where
  "prod_due_pause r = \<lparr>PDP_WorkItemID = pr_item r, PDP_RunID = pr_run r, PDP_Attempt = pr_attempt r,
     PDP_ResumeAt = pr_resume_at r, PDP_RetryAfter = map_option (\<lambda>ms. wrap64 (ms * 1000000)) (pr_retry_after_ms r)\<rparr>"

definition ProdResumeDue ::
  "ResumeConfig \<Rightarrow> pfaults \<Rightarrow> string set \<Rightarrow> instant \<Rightarrow> prod_pause_row list \<Rightarrow>
   (string + ProdDuePause list) \<times> prod_pause_row list" where
  "ProdResumeDue cfg flt locked now t =
     (if flt PQuery then (Inl ''coord.ProdResumeStore.ResumeDue'', t)
      else case sql_claim pr_item (row_due pr_item pause_pending pr_resume_at locked now) pr_resume_at
                  (batchParam (ResumeBatch cfg)) (stamp_resumed now) t of
        (rows, t') \<Rightarrow>
          if flt PScan then (Inl ''coord.ProdResumeStore.ResumeDue: scan'', t')
          else (Inr (map prod_due_pause rows), t'))"

datatype prod_resume_op =
    PRPause pfaults nat instant string string "duration option"
  | PRDue pfaults "string set" instant

fun prod_resume_step ::
  "ResumeConfig \<Rightarrow> prod_resume_op \<Rightarrow> prod_pause_row list \<Rightarrow> string list \<times> prod_pause_row list" where
  "prod_resume_step cfg (PRPause flt k now item run ra) t = ([], snd (ProdPause cfg flt k now item run ra t))"
| "prod_resume_step cfg (PRDue flt locked now) t =
     (case ProdResumeDue cfg flt locked now t of
        (Inl _, t') \<Rightarrow> ([], t')
      | (Inr due, t') \<Rightarrow> (map PDP_WorkItemID due, t'))"

fun prod_resume_pauses :: "prod_resume_op \<Rightarrow> string option" where
  "prod_resume_pauses (PRPause flt k now item run ra) = Some item"
| "prod_resume_pauses (PRDue flt locked now) = None"

section \<open>The production ledger meets the contract\<close>

interpretation prod_resume: wake_source "wf_table pr_item"
  "row_deadline pr_item pause_pending pr_resume_at"
  "sql_first pause_pending pr_resume_at"
  "\<lambda>n locked t (db :: prod_pause_row list).
     (map pr_item (fst (sql_claim pr_item (row_due pr_item pause_pending pr_resume_at locked t)
       pr_resume_at n (stamp_resumed t) db)),
     snd (sql_claim pr_item (row_due pr_item pause_pending pr_resume_at locked t)
       pr_resume_at n (stamp_resumed t) db))"
  by (rule sql_wake_source) (simp_all add: pause_row_simps)

lemma prod_pause_write_key [simp]: "pr_item (prod_pause_write cfg k now item run ra prior) = item"
  by (simp add: prod_pause_write_def Let_def)

lemma ProdPause_move:
  "ledger_move pr_item pause_pending pr_resume_at (Some item) t ([], snd (ProdPause cfg flt k now item run ra t))"
proof -
  let ?row = "prod_pause_write cfg k now item run ra (lookup_by pr_item item t)"
  have "snd (ProdPause cfg flt k now item run ra t) \<in> {t, upsert_by pr_item ?row t}"
    by (simp add: ProdPause_def Let_def)
  then show ?thesis
    using move_none [of pr_item pause_pending pr_resume_at "Some item" t]
      move_pause [of pr_item pause_pending pr_resume_at ?row t] by auto
qed

lemma map_PDP_WorkItemID [simp]: "map PDP_WorkItemID (map prod_due_pause rows) = map pr_item rows"
  by (simp add: prod_due_pause_def)

lemma ProdResumeDue_move:
  "ledger_move pr_item pause_pending pr_resume_at None t (prod_resume_step cfg (PRDue flt locked now) t)"
proof (cases "flt PQuery")
  case True
  then show ?thesis by (simp add: ProdResumeDue_def move_none)
next
  case False
  let ?c = "sql_claim pr_item (row_due pr_item pause_pending pr_resume_at locked now) pr_resume_at
    (batchParam (ResumeBatch cfg)) (stamp_resumed now) t"
  have "prod_resume_step cfg (PRDue flt locked now) t = (if flt PScan then [] else map pr_item (fst ?c), snd ?c)"
    using False by (simp add: ProdResumeDue_def del: map_map split: prod.splits)
  then show ?thesis
    using move_claim [of pr_item "stamp_resumed now" pause_pending ?c] by (simp add: pause_row_simps)
qed

interpretation prod_resume_history: wake_history "wf_table pr_item"
  "row_deadline pr_item pause_pending pr_resume_at" "prod_resume_step cfg" prod_resume_pauses
  for cfg
proof (rule sql_wake_history)
  fix x and t :: "prod_pause_row list"
  show "ledger_move pr_item pause_pending pr_resume_at (prod_resume_pauses x) t (prod_resume_step cfg x t)"
    by (cases x) (simp add: ProdPause_move, simp only: prod_resume_pauses.simps ProdResumeDue_move)
qed

section \<open>The production ledger refines the harness ledger\<close>

text \<open>
  \<open>abs_row num\<close> forgets the run and reads the uuid as the integer key \<open>num\<close> gives it.
\<close>

definition abs_row :: "(string \<Rightarrow> int) \<Rightarrow> prod_pause_row \<Rightarrow> int pause_row" where
  "abs_row num r = \<lparr>pr_item = num (pr_item r), pr_reason = pr_reason r, pr_retry_after_ms = pr_retry_after_ms r,
     pr_attempt = pr_attempt r, pr_resume_at = pr_resume_at r, pr_paused_at = pr_paused_at r,
     pr_resumed_at = pr_resumed_at r\<rparr>"

definition keys_inj :: "(string \<Rightarrow> int) \<Rightarrow> string \<Rightarrow> prod_pause_row list \<Rightarrow> bool" where
  "keys_inj num item t \<longleftrightarrow> (\<forall>r \<in> set t. num (pr_item r) = num item \<longrightarrow> pr_item r = item)"

lemma abs_row_simps [simp]:
  "pr_item (abs_row num r) = num (pr_item r)" "pr_attempt (abs_row num r) = pr_attempt r"
  "pr_resumed_at (abs_row num r) = pr_resumed_at r" "pr_resume_at (abs_row num r) = pr_resume_at r"
  "pause_pending (abs_row num r) = pause_pending r"
  by (simp_all add: abs_row_def pause_pending_def)

lemma lookup_abs:
  "keys_inj num item t \<Longrightarrow>
    lookup_by pr_item (num item) (map (abs_row num) t) = map_option (abs_row num) (lookup_by pr_item item t)"
  by (induction t) (auto simp: keys_inj_def)

lemma abs_prod_pause_write:
  "abs_row num (prod_pause_write cfg k now item run ra prior) =
    pause_write cfg k now (num item) ra (map_option (abs_row num) prior)"
  by (cases prior) (simp_all add: abs_row_def prod_pause_write_def pause_write_def Let_def
      prod_planDelay_def planDelay_def)

lemma upsert_abs:
  assumes "keys_inj num (pr_item r) t"
  shows "map (abs_row num) (upsert_by pr_item r t) = upsert_by pr_item (abs_row num r) (map (abs_row num) t)"
proof -
  have "map (abs_row num) (upd_key pr_item (pr_item r) (\<lambda>_. True) (\<lambda>_. r) t) =
      upd_key pr_item (num (pr_item r)) (\<lambda>_. True) (\<lambda>_. abs_row num r) (map (abs_row num) t)"
    using assms by (induction t) (auto simp: keys_inj_def)
  then show ?thesis using lookup_abs [OF assms] by (simp add: upsert_by_def)
qed

text \<open>
  The production pause refines the harness pause: with uuids that the key numbering tells
  apart, forgetting the run column of the resulting ledger is the harness ledger after the
  harness pause, and both report the same attempt, wake time and window.
\<close>

theorem ProdPause_refines_Pause:
  assumes "keys_inj num item t" and "\<And>s. \<not> flt s"
  shows "map (abs_row num) (snd (ProdPause cfg flt k now item run ra t)) =
      snd (Pause cfg flt k now (num item) ra (map (abs_row num) t)) \<and>
    fst (ProdPause cfg flt k now item run ra t) = fst (Pause cfg flt k now (num item) ra (map (abs_row num) t))"
proof -
  let ?r = "prod_pause_write cfg k now item run ra (lookup_by pr_item item t)"
  have w: "pause_write cfg k now (num item) ra (lookup_by pr_item (num item) (map (abs_row num) t)) = abs_row num ?r"
    by (simp add: lookup_abs [OF assms(1)] abs_prod_pause_write)
  have "keys_inj num (pr_item ?r) t" using assms(1) by simp
  note upsert_abs [OF this]
  with assms(2) show ?thesis by (simp add: ProdPause_def Pause_def Let_def w)
qed

theorem ProdPause_refines_Pause_witness:
  "map (abs_row (\<lambda>s. int (length s))) (snd (ProdPause DefaultProdResumeConfig (\<lambda>_. False) 0 100 ''abc'' ''r'' (Some 5) [])) =
    snd (Pause DefaultProdResumeConfig (\<lambda>_. False) 0 100 3 (Some 5) [])"
  using ProdPause_refines_Pause [of "\<lambda>s. int (length s)" "''abc''" "[]" "\<lambda>_. False" DefaultProdResumeConfig 0 100 "''r''" "Some 5"]
  by (simp add: keys_inj_def)

text \<open>
  After a successful production pause the driver's Pending query sees exactly the recorded
  wake, and over any interleaving of pauses and claims by any number of operator replicas a work
  item is handed to the re-entry at most once per pause.
\<close>

theorem prod_resume_exactly_once:
  assumes "wf_table pr_item t" and "ProdPause cfg flt k now item run ra t = (Inr info, t')" and "\<not> flt PQuery"
  shows "Pending flt item t' = Inr (Some (PI_ResumeAt info)) \<and>
    count_list (fst (wakes_of (prod_resume_step cfg) ops t')) item \<le> pauses_of prod_resume_pauses item ops + 1"
proof -
  let ?row = "prod_pause_write cfg k now item run ra (lookup_by pr_item item t)"
  have t': "t' = upsert_by pr_item ?row t" and i: "PI_ResumeAt info = pr_resume_at ?row"
    using assms(2) by (auto simp: ProdPause_def Let_def split: if_splits)
  have p: "pause_pending ?row" by (simp add: pause_pending_def prod_pause_write_def Let_def)
  have wf: "wf_table pr_item t'" using assms(1) t' by simp
  have "lookup_by pr_item item t' = Some ?row" by (simp add: t')
  then have "Pending flt item t' = Inr (Some (PI_ResumeAt info))"
    using assms(3) p i by (simp add: Pending_def row_key_wf [OF wf])
  moreover have "count_list (fst (wakes_of (prod_resume_step cfg) ops t')) item \<le> pauses_of prod_resume_pauses item ops + 1"
    using prod_resume_history.wakes_balance [OF wf, of cfg ops item]
    by (auto simp: pending_n_def split: if_splits)
  ultimately show ?thesis ..
qed

theorem prod_resume_exactly_once_witness:
  "Pending (\<lambda>_. False) ''abc'' (snd (ProdPause DefaultProdResumeConfig (\<lambda>_. False) 0 100 ''abc'' ''r'' (Some 5) []))
    = Inr (Some 105)"
proof -
  let ?t = "snd (ProdPause DefaultProdResumeConfig (\<lambda>_. False) 0 100 ''abc'' ''r'' (Some 5) [])"
  have "ProdPause DefaultProdResumeConfig (\<lambda>_. False) 0 100 ''abc'' ''r'' (Some 5) [] =
      (Inr \<lparr>PI_Attempt = 1, PI_ResumeAt = 105, PI_RetryAfter = Some 5\<rparr>, ?t)"
    by (simp add: ProdPause_def Let_def prod_pause_write_def planAttempt_def prod_planDelay_def)
  from prod_resume_exactly_once [OF _ this, of "[]"] show ?thesis by (simp add: wf_table_def)
qed

end
