(* ===== verification/Prod_Db.thy ===== *)
theory Prod_Db
  imports Sql_Claim Reconcile_Machine
begin

text \<open>
  The tables of the production coordination schema that the operations of pkg/coord and
  pkg/events read and write, and the few statements several of them share. Uuids are strings;
  a jsonb body is an association list. A transaction that does not reach its commit leaves the
  database as it was; \<open>JTime\<close> is an instant rendered to the second and \<open>JTimeNano\<close> one rendered in full; the sequence behind the outbox ids is kept with the tables, so a rolled
  back insert returns its id where Postgres would leave a gap.
\<close>

section \<open>Rows\<close>

datatype jval =
  JStr string | JInt int | JTime int | JTimeNano int | JNull | JBool bool | JList "jval list" | JObj "(string \<times> jval) list"

type_synonym json = "(string \<times> jval) list"

record prod_claim =
  pc_item :: string
  pc_holder :: "string option"
  pc_run :: "string option"
  pc_fence :: int
  pc_lease :: "instant option"
  pc_acquired :: "instant option"
  pc_renewed :: "instant option"
  pc_initiated :: "string option"
  pc_reclaim_fenced :: "instant option"
  pc_step :: Step
  pc_assignee :: "string option"

record prod_item =
  pw_id :: string
  pw_state :: string
  pw_created :: instant
  pw_updated :: instant
  pw_project :: string
  pw_team :: "string option"
  pw_source :: "string option"
  pw_parent :: "string option"
  pw_title :: string
  pw_body :: "string option"
  pw_created_by :: string
  pw_priority :: "string option"
  pw_work_mode :: "string option"
  pw_labels :: "string list"
  pw_requested :: "string option"
  pw_blocked :: "string option"

record audit_row =
  au_item :: string
  au_run :: "string option"
  au_event :: string
  au_principal :: string
  au_initiated :: "string option"
  au_fence :: "int option"
  au_from :: "string option"
  au_to :: "string option"
  au_payload :: json
  au_created :: instant

record outbox_row =
  ob_id :: int
  ob_entity :: string
  ob_project :: string
  ob_squad :: "string option"
  ob_event :: string
  ob_item :: "string option"
  ob_run :: "string option"
  ob_payload :: json
  ob_carrier :: "json option"
  ob_published :: "instant option"

record a2a_row =
  da_task :: string
  da_run :: string
  da_item :: string
  da_dispatched :: instant
  da_settled :: "instant option"
  da_outcome :: "string option"

record comment_row =
  cm_item :: string
  cm_author :: string
  cm_body :: string
  cm_kind :: "string option"
  cm_run :: "string option"
  cm_payload :: "json option"
  cm_at :: instant

record change_row =
  cr_item :: string
  cr_run :: "string option"
  cr_kind :: string
  cr_ref :: string
  cr_summary :: "string option"
  cr_created :: instant

record artifact_row =
  ar_item :: string
  ar_run :: "string option"
  ar_kind :: string
  ar_uri :: string
  ar_sha :: string
  ar_meta :: "json option"
  ar_created :: instant

record sandbox_row =
  bx_run :: string
  bx_item :: string
  bx_ref :: string
  bx_by :: string
  bx_at :: instant

record dispatch_row =
  dx_key :: string
  dx_source :: string
  dx_source_run :: string
  dx_created :: string
  dx_by :: string
  dx_at :: instant

record prod_db =
  pd_items :: "prod_item list"
  pd_claims :: "prod_claim list"
  pd_audit :: "audit_row list"
  pd_outbox :: "outbox_row list"
  pd_seq :: int
  pd_a2a :: "a2a_row list"
  pd_comments :: "comment_row list"
  pd_sandboxes :: "sandbox_row list"
  pd_changes :: "change_row list"
  pd_artifacts :: "artifact_row list"
  pd_dispatch :: "dispatch_row list"

text \<open>
  Which statements fail with an infrastructure error: each operation names its statements as
  the wrapped errors of the source do.
\<close>

type_synonym dbfaults = "string \<Rightarrow> bool"

definition nullable :: "string \<Rightarrow> string option" where
  "nullable s = (if s = [] then None else Some s)"

definition coalesce :: "string option \<Rightarrow> string" where
  "coalesce s = (case s of None \<Rightarrow> [] | Some x \<Rightarrow> x)"

section \<open>Shared statements\<close>

text \<open>
  A statement that sets only the lane: the touch trigger stamps the row when the lane changed and
  leaves the revision alone when it did not (db/migrations/0016_work_item_touch_on_change.sql).
\<close>

definition set_lane :: "instant \<Rightarrow> string \<Rightarrow> prod_item \<Rightarrow> prod_item" where
  "set_lane now lane w = (if pw_state w = lane then w else w\<lparr>pw_state := lane, pw_updated := now\<rparr>)"

lemma set_lane_sel [simp]:
  "pw_id (set_lane now lane w) = pw_id w" "pw_state (set_lane now lane w) = lane" "pw_project (set_lane now lane w) = pw_project w"
  "pw_team (set_lane now lane w) = pw_team w" "pw_source (set_lane now lane w) = pw_source w" "pw_created (set_lane now lane w) = pw_created w"
  by (simp_all add: set_lane_def)

definition insert_audit :: "audit_row \<Rightarrow> prod_db \<Rightarrow> prod_db" where
  "insert_audit r db = db\<lparr>pd_audit := pd_audit db @ [r]\<rparr>"

definition insert_outbox :: "outbox_row \<Rightarrow> prod_db \<Rightarrow> prod_db" where
  "insert_outbox r db =
     db\<lparr>pd_outbox := pd_outbox db @ [r\<lparr>ob_id := pd_seq db, ob_published := None\<rparr>], pd_seq := pd_seq db + 1\<rparr>"

definition insert_comment :: "comment_row \<Rightarrow> prod_db \<Rightarrow> prod_db" where
  "insert_comment r db = db\<lparr>pd_comments := pd_comments db @ [r]\<rparr>"

text \<open>An \<open>INSERT ... SELECT ... FROM coord.work_item WHERE id = ..\<close>: no row, no event.\<close>

definition outbox_for_item ::
  "string \<Rightarrow> string \<Rightarrow> string \<Rightarrow> string option \<Rightarrow> json \<Rightarrow> json option \<Rightarrow> prod_db \<Rightarrow> prod_db" where
  "outbox_for_item entity event item run payload carrier db =
     (case lookup_by pw_id item (pd_items db) of
        None \<Rightarrow> db
      | Some w \<Rightarrow> insert_outbox \<lparr>ob_id = 0, ob_entity = entity, ob_project = pw_project w, ob_squad = pw_team w,
          ob_event = event, ob_item = Some (pw_id w), ob_run = run, ob_payload = payload,
          ob_carrier = carrier, ob_published = None\<rparr> db)"

abbreviation claim_row_of :: "prod_db \<Rightarrow> string \<Rightarrow> prod_claim option" where
  "claim_row_of db i \<equiv> lookup_by pc_item i (pd_claims db)"

abbreviation item_row_of :: "prod_db \<Rightarrow> string \<Rightarrow> prod_item option" where
  "item_row_of db i \<equiv> lookup_by pw_id i (pd_items db)"

definition wf_prod :: "prod_db \<Rightarrow> bool" where
  "wf_prod db \<longleftrightarrow> wf_table pc_item (pd_claims db) \<and> wf_table pw_id (pd_items db) \<and>
     wf_table da_task (pd_a2a db) \<and> wf_table ob_id (pd_outbox db) \<and>
     (\<forall>r \<in> set (pd_outbox db). ob_id r < pd_seq db)"

definition prod_fence :: "prod_db \<Rightarrow> string \<Rightarrow> int" where
  "prod_fence db i = (case claim_row_of db i of None \<Rightarrow> 0 | Some r \<Rightarrow> pc_fence r)"

section \<open>What the shared statements touch\<close>

lemma insert_sel [simp]:
  "pd_items (insert_audit a db) = pd_items db" "pd_claims (insert_audit a db) = pd_claims db"
  "pd_outbox (insert_audit a db) = pd_outbox db" "pd_seq (insert_audit a db) = pd_seq db"
  "pd_a2a (insert_audit a db) = pd_a2a db" "pd_comments (insert_audit a db) = pd_comments db"
  "pd_audit (insert_audit a db) = pd_audit db @ [a]"
  "pd_items (insert_outbox r db) = pd_items db" "pd_claims (insert_outbox r db) = pd_claims db"
  "pd_audit (insert_outbox r db) = pd_audit db" "pd_a2a (insert_outbox r db) = pd_a2a db"
  "pd_comments (insert_outbox r db) = pd_comments db" "pd_seq (insert_outbox r db) = pd_seq db + 1"
  "pd_outbox (insert_outbox r db) = pd_outbox db @ [r\<lparr>ob_id := pd_seq db, ob_published := None\<rparr>]"
  "pd_items (insert_comment c db) = pd_items db" "pd_claims (insert_comment c db) = pd_claims db"
  "pd_outbox (insert_comment c db) = pd_outbox db" "pd_seq (insert_comment c db) = pd_seq db"
  "pd_a2a (insert_comment c db) = pd_a2a db" "pd_audit (insert_comment c db) = pd_audit db"
  "pd_comments (insert_comment c db) = pd_comments db @ [c]"
  "pd_sandboxes (insert_audit a db) = pd_sandboxes db" "pd_sandboxes (insert_outbox r db) = pd_sandboxes db"
  "pd_sandboxes (insert_comment c db) = pd_sandboxes db"
  "pd_artifacts (insert_audit a db) = pd_artifacts db" "pd_artifacts (insert_outbox r db) = pd_artifacts db"
  "pd_artifacts (insert_comment c db) = pd_artifacts db"
  "pd_dispatch (insert_audit a db) = pd_dispatch db" "pd_dispatch (insert_outbox r db) = pd_dispatch db"
  "pd_dispatch (insert_comment c db) = pd_dispatch db"
  by (simp_all add: insert_audit_def insert_outbox_def insert_comment_def)

lemma outbox_for_item_sel [simp]:
  "pd_items (outbox_for_item e v i r p c db) = pd_items db"
  "pd_claims (outbox_for_item e v i r p c db) = pd_claims db"
  "pd_audit (outbox_for_item e v i r p c db) = pd_audit db"
  "pd_a2a (outbox_for_item e v i r p c db) = pd_a2a db"
  "pd_comments (outbox_for_item e v i r p c db) = pd_comments db"
  "pd_sandboxes (outbox_for_item e v i r p c db) = pd_sandboxes db"
  "pd_artifacts (outbox_for_item e v i r p c db) = pd_artifacts db"
  "pd_dispatch (outbox_for_item e v i r p c db) = pd_dispatch db"
  by (simp_all add: outbox_for_item_def split: option.splits)

lemma wf_insert_audit [simp]: "wf_prod (insert_audit a db) = wf_prod db"
  by (simp add: wf_prod_def)

lemma wf_insert_comment [simp]: "wf_prod (insert_comment c db) = wf_prod db"
  by (simp add: wf_prod_def)

lemma wf_insert_outbox [simp]: "wf_prod db \<Longrightarrow> wf_prod (insert_outbox r db)"
  by (auto simp: wf_prod_def wf_table_def)

lemma wf_outbox_for_item [simp]: "wf_prod db \<Longrightarrow> wf_prod (outbox_for_item e v i r p c db)"
  by (simp add: outbox_for_item_def split: option.splits)

lemma wf_claims_upd [simp]:
  assumes "wf_prod db" and "\<And>r. pc_item (f r) = pc_item r"
  shows "wf_prod (db\<lparr>pd_claims := upd_key pc_item k G f (pd_claims db)\<rparr>)"
  using assms by (simp add: wf_prod_def)

lemma wf_items_upd [simp]:
  assumes "wf_prod db" and "\<And>r. pw_id (f r) = pw_id r"
  shows "wf_prod (db\<lparr>pd_items := upd_key pw_id k G f (pd_items db)\<rparr>)"
  using assms by (simp add: wf_prod_def)

lemma wf_prodD:
  assumes "wf_prod db"
  shows "wf_table pc_item (pd_claims db)" "wf_table pw_id (pd_items db)" "wf_table da_task (pd_a2a db)"
    "wf_table ob_id (pd_outbox db)"
  using assms by (simp_all add: wf_prod_def)

end
