(* ===== verification/Events_Outbox.thy ===== *)
theory Events_Outbox
  imports Prod_Db
begin

text \<open>
  The domain-event seam (pkg/events): capture of an event in the caller's transaction
  (capture.go, event.go), the subject taxonomy (subject.go), the outbox read and mark
  statements (store.go) and the relay that publishes the backlog (relay.go). The bus is outside
  the repository: a parameter that says, per row, whether a publish is acknowledged; the
  messages it acknowledged are collected in order.
\<close>

section \<open>Events and their capture\<close>

definition Entities :: "string \<Rightarrow> bool" where
  "Entities e \<longleftrightarrow> e \<in> set [''run'', ''work_item'', ''artifact'', ''memory'', ''scm'', ''mesh'']"

record Event =
  Ev_Entity :: string
  Ev_ProjectID :: string
  Ev_Squad :: string
  Ev_EventType :: string
  Ev_WorkItemID :: string
  Ev_RunID :: string
  Ev_Payload :: json

definition Event_validate :: "Event \<Rightarrow> string option" where
  "Event_validate e =
     (if \<not> Entities (Ev_Entity e) then Some ''events: invalid entity''
      else if Ev_ProjectID e = [] then Some ''events: project_id is required''
      else if Ev_EventType e = [] then Some ''events: event_type is required''
      else None)"

definition Capture :: "dbfaults \<Rightarrow> json option \<Rightarrow> Event \<Rightarrow> prod_db \<Rightarrow> string + prod_db" where
  "Capture flt carrier ev db =
     (case Event_validate ev of
        Some err \<Rightarrow> Inl err
      | None \<Rightarrow>
          if flt ''events.Capture'' then Inl ''events.Capture''
          else Inr (insert_outbox \<lparr>ob_id = 0, ob_entity = Ev_Entity ev, ob_project = Ev_ProjectID ev,
                 ob_squad = nullable (Ev_Squad ev), ob_event = Ev_EventType ev,
                 ob_item = nullable (Ev_WorkItemID ev), ob_run = nullable (Ev_RunID ev),
                 ob_payload = Ev_Payload ev, ob_carrier = carrier, ob_published = None\<rparr> db))"

definition CaptureForWorkItem ::
  "dbfaults \<Rightarrow> json option \<Rightarrow> string \<Rightarrow> string \<Rightarrow> string \<Rightarrow> json \<Rightarrow> prod_db \<Rightarrow> string + prod_db" where
  "CaptureForWorkItem flt carrier workItemID runID eventType payload db =
     (if workItemID = [] then Inl ''events.CaptureForWorkItem: workItemID is required''
      else if eventType = [] then Inl ''events.CaptureForWorkItem: eventType is required''
      else if flt ''events.CaptureForWorkItem'' then Inl ''events.CaptureForWorkItem''
      else if item_row_of db workItemID = None then Inl ''events.CaptureForWorkItem: work_item not found''
      else Inr (outbox_for_item ''work_item'' eventType workItemID (nullable runID) payload carrier db))"

definition CaptureRunForWorkItem ::
  "dbfaults \<Rightarrow> json option \<Rightarrow> string \<Rightarrow> string \<Rightarrow> string \<Rightarrow> json \<Rightarrow> prod_db \<Rightarrow> string + prod_db" where
  "CaptureRunForWorkItem flt carrier workItemID runID eventType payload db =
     (if workItemID = [] then Inl ''events.CaptureRunForWorkItem: workItemID is required''
      else if runID = [] then Inl ''events.CaptureRunForWorkItem: runID is required''
      else if eventType = [] then Inl ''events.CaptureRunForWorkItem: eventType is required''
      else if flt ''events.CaptureRunForWorkItem'' then Inl ''events.CaptureRunForWorkItem''
      else if item_row_of db workItemID = None then Inl ''events.CaptureRunForWorkItem: work_item not found''
      else Inr (outbox_for_item ''run'' eventType workItemID (Some runID) payload carrier db))"

section \<open>Subjects\<close>

definition DefaultPrefix :: string where
  "DefaultPrefix = ''ksquad''"

definition nullSquadToken :: string where
  "nullSquadToken = ''_''"

definition metachar :: "char \<Rightarrow> bool" where
  "metachar c \<longleftrightarrow> c = CHR ''.'' \<or> c = CHR '' '' \<or> c = CHR 0x09 \<or> c = CHR ''*'' \<or> c = CHR ''>''"

definition sanitizeToken :: "string \<Rightarrow> string" where
  "sanitizeToken tok =
     (if tok = [] then nullSquadToken else map (\<lambda>c. if metachar c then CHR ''_'' else c) tok)"

fun join_dot :: "string list \<Rightarrow> string" where
  "join_dot [] = []"
| "join_dot [t] = t"
| "join_dot (t # ts) = t @ CHR ''.'' # join_dot ts"

fun split_dot :: "string \<Rightarrow> string list" where
  "split_dot [] = [[]]"
| "split_dot (c # cs) =
     (if c = CHR ''.'' then [] # split_dot cs
      else case split_dot cs of [] \<Rightarrow> [[c]] | t # ts \<Rightarrow> (c # t) # ts)"

definition Subject :: "string \<Rightarrow> string \<Rightarrow> string \<Rightarrow> string \<Rightarrow> string \<Rightarrow> string" where
  "Subject prefix entity project squad eventType =
     (let prefix = (if prefix = [] then DefaultPrefix else prefix);
          squad = (if squad = [] then nullSquadToken else squad)
      in join_dot [sanitizeToken prefix, sanitizeToken entity, sanitizeToken project,
                   sanitizeToken squad, sanitizeToken eventType])"

record SubjectParts =
  SP_Prefix :: string
  SP_Entity :: string
  SP_ProjectID :: string
  SP_Squad :: string
  SP_EventType :: string

definition ParseSubject :: "string \<Rightarrow> string + SubjectParts" where
  "ParseSubject subject =
     (let tok = split_dot subject
      in if length tok \<noteq> 5 then Inl ''events.ParseSubject: not a 5-token subject''
         else Inr \<lparr>SP_Prefix = tok ! 0, SP_Entity = tok ! 1, SP_ProjectID = tok ! 2,
                    SP_Squad = (if tok ! 3 = nullSquadToken then [] else tok ! 3), SP_EventType = tok ! 4\<rparr>)"

section \<open>The outbox statements\<close>

record OutboxRow =
  OR_ID :: int
  OR_Entity :: string
  OR_ProjectID :: string
  OR_Squad :: string
  OR_EventType :: string
  OR_RunID :: string
  OR_Payload :: json

definition outbox_view :: "outbox_row \<Rightarrow> OutboxRow" where
  "outbox_view r = \<lparr>OR_ID = ob_id r, OR_Entity = ob_entity r, OR_ProjectID = ob_project r,
     OR_Squad = coalesce (ob_squad r), OR_EventType = ob_event r, OR_RunID = coalesce (ob_run r),
     OR_Payload = ob_payload r\<rparr>"

definition unflushed :: "outbox_row \<Rightarrow> bool" where
  "unflushed r \<longleftrightarrow> ob_published r = None"

definition Unpublished :: "dbfaults \<Rightarrow> int \<Rightarrow> outbox_row list \<Rightarrow> string + OutboxRow list" where
  "Unpublished flt limit t =
     (if flt ''events.SQLStore.Unpublished'' then Inl ''events.SQLStore.Unpublished''
      else Inr (map outbox_view
             (sql_pick unflushed ob_id (if limit > 0 then nat limit else length t) t)))"

definition MarkPublished :: "(int \<Rightarrow> bool) \<Rightarrow> instant \<Rightarrow> int \<Rightarrow> outbox_row list \<Rightarrow> string option \<times> outbox_row list" where
  "MarkPublished fails now i t =
     (if fails i then (Some ''events.SQLStore.MarkPublished'', t)
      else (None, upd_key ob_id i unflushed (\<lambda>r. r\<lparr>ob_published := Some now\<rparr>) t))"

definition Depth :: "outbox_row list \<Rightarrow> nat \<times> nat" where
  "Depth t = (length t, sql_affected unflushed t)"

record RunEvent =
  RE_ID :: int
  RE_RunID :: string
  RE_ProjectID :: string
  RE_EventType :: string
  RE_Payload :: json

definition run_event :: "outbox_row \<Rightarrow> RunEvent" where
  "run_event r = \<lparr>RE_ID = ob_id r, RE_RunID = coalesce (ob_run r), RE_ProjectID = ob_project r,
     RE_EventType = ob_event r, RE_Payload = ob_payload r\<rparr>"

definition LatestRunEventID :: "outbox_row list \<Rightarrow> int" where
  "LatestRunEventID t = fold max (map ob_id (filter (\<lambda>r. ob_entity r = ''run'') t)) 0"

definition run_limit :: "int \<Rightarrow> nat" where
  "run_limit limit = (if limit \<le> 0 then 1000 else nat limit)"

definition RunEventsAfter :: "int \<Rightarrow> int \<Rightarrow> outbox_row list \<Rightarrow> RunEvent list" where
  "RunEventsAfter afterID limit t =
     map run_event (sql_pick (\<lambda>r. ob_entity r = ''run'' \<and> ob_run r \<noteq> None \<and> ob_id r > afterID)
       ob_id (run_limit limit) t)"

definition RunEventsForRun :: "string \<Rightarrow> int \<Rightarrow> int \<Rightarrow> outbox_row list \<Rightarrow> RunEvent list" where
  "RunEventsForRun runID afterID limit t =
     map run_event (sql_pick (\<lambda>r. ob_entity r = ''run'' \<and> ob_run r = Some runID \<and> ob_id r > afterID)
       ob_id (run_limit limit) t)"

section \<open>The relay\<close>

text \<open>The store interface the relay is written against, and one flush over it.\<close>

record 'db OutboxStore =
  OS_Unpublished :: "int \<Rightarrow> 'db \<Rightarrow> string + OutboxRow list"
  OS_MarkPublished :: "int \<Rightarrow> 'db \<Rightarrow> string option \<times> 'db"

record RelayConfig =
  RC_Prefix :: string
  RC_PollInterval :: duration
  RC_BatchLimit :: int

definition NewRelay :: "bool \<Rightarrow> bool \<Rightarrow> RelayConfig \<Rightarrow> string + RelayConfig" where
  "NewRelay no_store no_publisher cfg =
     (if no_store then Inl ''events.NewRelay: Store is required''
      else if no_publisher then Inl ''events.NewRelay: Publisher is required''
      else Inr \<lparr>RC_Prefix = (if RC_Prefix cfg = [] then DefaultPrefix else RC_Prefix cfg),
                RC_PollInterval = (if RC_PollInterval cfg \<le> 0 then 2000000000 else RC_PollInterval cfg),
                RC_BatchLimit = RC_BatchLimit cfg\<rparr>)"

type_synonym message = "string \<times> OutboxRow"

fun flush_rows ::
  "'db OutboxStore \<Rightarrow> string \<Rightarrow> (string \<Rightarrow> OutboxRow \<Rightarrow> bool) \<Rightarrow> (int \<Rightarrow> bool) \<Rightarrow>
   OutboxRow list \<Rightarrow> (nat \<times> nat) \<times> 'db \<times> message list \<Rightarrow> (nat \<times> nat) \<times> 'db \<times> message list" where
  "flush_rows S prefix acked ctxDone [] st = st"
| "flush_rows S prefix acked ctxDone (row # rows) ((ok, bad), db, bus) =
     (if ctxDone (OR_ID row) then ((ok, bad), db, bus)
      else
        let subject = Subject prefix (OR_Entity row) (OR_ProjectID row) (OR_Squad row) (OR_EventType row)
        in if \<not> acked subject row then flush_rows S prefix acked ctxDone rows ((ok, bad + 1), db, bus)
           else (case OS_MarkPublished S (OR_ID row) db of
                   (Some _, db') \<Rightarrow> flush_rows S prefix acked ctxDone rows ((ok, bad + 1), db', bus @ [(subject, row)])
                 | (None, db') \<Rightarrow> flush_rows S prefix acked ctxDone rows ((ok + 1, bad), db', bus @ [(subject, row)])))"

definition Flush ::
  "'db OutboxStore \<Rightarrow> RelayConfig \<Rightarrow> (string \<Rightarrow> OutboxRow \<Rightarrow> bool) \<Rightarrow> (int \<Rightarrow> bool) \<Rightarrow>
   'db \<times> message list \<Rightarrow> (string + nat \<times> nat) \<times> 'db \<times> message list" where
  "Flush S cfg acked ctxDone st =
     (case st of (db, bus) \<Rightarrow>
        (case OS_Unpublished S (RC_BatchLimit cfg) db of
           Inl err \<Rightarrow> (Inl err, db, bus)
         | Inr rows \<Rightarrow>
             (case flush_rows S (RC_Prefix cfg) acked ctxDone rows ((0, 0), db, bus) of
                (counts, db', bus') \<Rightarrow> (Inr counts, db', bus'))))"

text \<open>
  Run flushes at start, then on every tick and wake: a list of flushes, each in its own
  environment (the store's faults, the bus and the context at that moment).
\<close>

type_synonym 'db flush_env = "'db OutboxStore \<times> (string \<Rightarrow> OutboxRow \<Rightarrow> bool) \<times> (int \<Rightarrow> bool)"

fun relay_run :: "RelayConfig \<Rightarrow> 'db flush_env list \<Rightarrow> 'db \<times> message list \<Rightarrow> 'db \<times> message list" where
  "relay_run cfg [] st = st"
| "relay_run cfg ((S, acked, ctxDone) # envs) st = relay_run cfg envs (snd (Flush S cfg acked ctxDone st))"

definition sqlStore :: "dbfaults \<Rightarrow> (int \<Rightarrow> bool) \<Rightarrow> instant \<Rightarrow> outbox_row list OutboxStore" where
  "sqlStore flt markFails now =
     \<lparr>OS_Unpublished = Unpublished flt, OS_MarkPublished = MarkPublished markFails now\<rparr>"

section \<open>Subjects round-trip\<close>

definition clean_token :: "string \<Rightarrow> bool" where
  "clean_token t \<longleftrightarrow> t \<noteq> [] \<and> (\<forall>c \<in> set t. \<not> metachar c)"

lemma sanitize_no_dot: "CHR ''.'' \<notin> set (sanitizeToken t)"
  by (auto simp: sanitizeToken_def nullSquadToken_def metachar_def)

lemma sanitize_clean: "clean_token t \<Longrightarrow> sanitizeToken t = t"
  by (auto simp: sanitizeToken_def clean_token_def intro: map_idI)

lemma split_dot_token: "CHR ''.'' \<notin> set t \<Longrightarrow> split_dot t = [t]"
  by (induction t) auto

lemma split_dot_cons: "CHR ''.'' \<notin> set t \<Longrightarrow> split_dot (t @ CHR ''.'' # s) = t # split_dot s"
  by (induction t) auto

lemma split_join:
  assumes "ts \<noteq> []" and "\<forall>t \<in> set ts. CHR ''.'' \<notin> set t"
  shows "split_dot (join_dot ts) = ts"
  using assms by (induction ts rule: join_dot.induct) (auto simp: split_dot_token split_dot_cons)

lemma split_Subject:
  "split_dot (Subject p e pr sq ev) =
    [sanitizeToken (if p = [] then DefaultPrefix else p), sanitizeToken e, sanitizeToken pr,
     sanitizeToken (if sq = [] then nullSquadToken else sq), sanitizeToken ev]"
  unfolding Subject_def Let_def by (rule split_join) (auto simp: sanitize_no_dot simp del: join_dot.simps)

text \<open>
  The subject taxonomy round-trips: every composed subject is a well-formed five-token
  subject, whatever its components contain, and for components free of the separator and
  wildcard characters a subscriber recovers exactly the prefix, entity, project, squad (the
  absent squad included) and event type the relay composed it from.
\<close>

theorem subject_round_trip:
  "(\<exists>parts. ParseSubject (Subject p e pr sq ev) = Inr parts) \<and>
   (clean_token p \<and> clean_token e \<and> clean_token pr \<and> clean_token ev \<and>
    (sq = [] \<or> clean_token sq \<and> sq \<noteq> nullSquadToken) \<longrightarrow>
    ParseSubject (Subject p e pr sq ev) =
      Inr \<lparr>SP_Prefix = p, SP_Entity = e, SP_ProjectID = pr, SP_Squad = sq, SP_EventType = ev\<rparr>)"
proof (intro conjI impI)
  show "\<exists>parts. ParseSubject (Subject p e pr sq ev) = Inr parts"
    by (simp add: ParseSubject_def split_Subject)
  assume c: "clean_token p \<and> clean_token e \<and> clean_token pr \<and> clean_token ev \<and>
    (sq = [] \<or> clean_token sq \<and> sq \<noteq> nullSquadToken)"
  then have "p \<noteq> []" by (simp add: clean_token_def)
  moreover have "sanitizeToken nullSquadToken = nullSquadToken"
    by (simp add: sanitizeToken_def nullSquadToken_def metachar_def)
  ultimately show "ParseSubject (Subject p e pr sq ev) =
      Inr \<lparr>SP_Prefix = p, SP_Entity = e, SP_ProjectID = pr, SP_Squad = sq, SP_EventType = ev\<rparr>"
    using c by (auto simp: ParseSubject_def split_Subject sanitize_clean)
qed

theorem subject_round_trip_witness:
  "ParseSubject (Subject ''ksquad'' ''run'' ''p1'' [] ''started'') =
    Inr \<lparr>SP_Prefix = ''ksquad'', SP_Entity = ''run'', SP_ProjectID = ''p1'', SP_Squad = [], SP_EventType = ''started''\<rparr>"
  using subject_round_trip [of "''ksquad''" "''run''" "''p1''" "[]" "''started''"]
  by (simp add: clean_token_def metachar_def)

section \<open>The relay over any outbox store\<close>

locale outbox_store =
  fixes S :: "'e \<Rightarrow> 'db OutboxStore"
    and inv :: "'db \<Rightarrow> bool"
    and backlog :: "'db \<Rightarrow> OutboxRow set"
  assumes backlog_ids: "inv db \<Longrightarrow> r \<in> backlog db \<Longrightarrow> r' \<in> backlog db \<Longrightarrow> OR_ID r = OR_ID r' \<Longrightarrow> r = r'"
    and unpublished_rows: "inv db \<Longrightarrow> OS_Unpublished (S e) n db = Inr rows \<Longrightarrow>
      set rows \<subseteq> backlog db \<and> (n \<le> 0 \<longrightarrow> set rows = backlog db)"
    and mark_stamps: "inv db \<Longrightarrow> OS_MarkPublished (S e) i db = (None, db') \<Longrightarrow>
      inv db' \<and> backlog db' = {r \<in> backlog db. OR_ID r \<noteq> i}"
    and mark_fails: "OS_MarkPublished (S e) i db = (Some err, db') \<Longrightarrow> db' = db"
begin

text \<open>What a batch did: it only removes from the backlog what it put on the bus.\<close>

definition served :: "'db \<Rightarrow> message list \<Rightarrow> 'db \<Rightarrow> message list \<Rightarrow> bool" where
  "served db bus db' bus' \<longleftrightarrow> inv db' \<and> backlog db' \<subseteq> backlog db \<and>
     (\<exists>new. bus' = bus @ new \<and> backlog db - backlog db' \<subseteq> snd ` set new)"

lemma served_refl: "inv db \<Longrightarrow> served db bus db bus"
  by (simp add: served_def)

lemma served_trans: "served db bus db1 bus1 \<Longrightarrow> served db1 bus1 db2 bus2 \<Longrightarrow> served db bus db2 bus2"
  unfolding served_def by (auto; blast)

lemma flush_rows_served:
  assumes "inv db" and "set rows \<subseteq> backlog db0" and "backlog db \<subseteq> backlog db0"
    and "\<And>r r'. r \<in> backlog db0 \<Longrightarrow> r' \<in> backlog db0 \<Longrightarrow> OR_ID r = OR_ID r' \<Longrightarrow> r = r'"
    and "flush_rows (S e) prefix acked ctxDone rows ((ok, bad), db, bus) = (c, db', bus')"
  shows "served db bus db' bus'"
  using assms
proof (induction rows arbitrary: ok bad db bus)
  case Nil
  then show ?case by (simp add: served_refl)
next
  case (Cons row rows)
  let ?subj = "Subject prefix (OR_Entity row) (OR_ProjectID row) (OR_Squad row) (OR_EventType row)"
  have IH: "served db1 bus1 db' bus'"
    if "inv db1" "backlog db1 \<subseteq> backlog db0" "flush_rows (S e) prefix acked ctxDone rows (c1, db1, bus1) = (c, db', bus')"
    for c1 db1 bus1
    using Cons.IH [of db1 "fst c1" "snd c1" bus1] Cons.prems(2,4) that by simp
  consider (stop) "ctxDone (OR_ID row)" | (fail) "\<not> ctxDone (OR_ID row)" "\<not> acked ?subj row"
    | (sent) "\<not> ctxDone (OR_ID row)" "acked ?subj row" by blast
  then show ?case
  proof cases
    case stop
    with Cons.prems show ?thesis by (simp add: served_refl)
  next
    case fail
    with Cons.prems show ?thesis by (intro IH) (auto simp: Let_def)
  next
    case sent
    obtain err db1 where mk: "OS_MarkPublished (S e) (OR_ID row) db = (err, db1)" by fastforce
    show ?thesis
    proof (cases err)
      case None
      have inv1: "inv db1" and b1: "backlog db1 = {r \<in> backlog db. OR_ID r \<noteq> OR_ID row}"
        using mark_stamps [OF Cons.prems(1)] mk None by auto
      have sub: "backlog db1 \<subseteq> backlog db0" using b1 Cons.prems(3) by auto
      have gone: "backlog db - backlog db1 \<subseteq> {row}"
        using b1 Cons.prems(2,3,4) by auto
      have "served db bus db1 (bus @ [(?subj, row)])"
        using inv1 b1 gone by (auto simp: served_def)
      moreover have "served db1 (bus @ [(?subj, row)]) db' bus'"
        using sent mk None Cons.prems(5) inv1 sub by (intro IH) (auto simp: Let_def)
      ultimately show ?thesis by (rule served_trans)
    next
      case (Some x)
      then have "db1 = db" using mark_fails mk by blast
      then have "served db bus db1 (bus @ [(?subj, row)])" using Cons.prems(1) by (auto simp: served_def)
      moreover have "served db1 (bus @ [(?subj, row)]) db' bus'"
        using sent mk Some Cons.prems \<open>db1 = db\<close> by (intro IH) (auto simp: Let_def)
      ultimately show ?thesis by (rule served_trans)
    qed
  qed
qed

lemma Flush_served:
  assumes "inv db" and "Flush (S e) cfg acked ctxDone (db, bus) = (res, db', bus')"
  shows "served db bus db' bus'"
proof (cases "OS_Unpublished (S e) (RC_BatchLimit cfg) db")
  case (Inl err)
  with assms show ?thesis by (simp add: Flush_def served_refl)
next
  case (Inr rows)
  then have "set rows \<subseteq> backlog db" using unpublished_rows [OF assms(1)] by blast
  moreover obtain c where "flush_rows (S e) (RC_Prefix cfg) acked ctxDone rows ((0, 0), db, bus) = (c, db', bus')"
    using assms(2) Inr by (auto simp: Flush_def split: prod.splits)
  ultimately show ?thesis
    using flush_rows_served [OF assms(1) _ subset_refl] backlog_ids [OF assms(1)] by blast
qed

lemma relay_run_served:
  "inv db \<Longrightarrow> relay_run cfg (map (\<lambda>(e, a, d). (S e, a, d)) envs) (db, bus) = (db', bus') \<Longrightarrow> served db bus db' bus'"
proof (induction envs arbitrary: db bus)
  case Nil
  then show ?case by (simp add: served_refl)
next
  case (Cons x envs)
  obtain e a d where x: "x = (e, a, d)" by (cases x) auto
  obtain res db1 bus1 where f: "Flush (S e) cfg a d (db, bus) = (res, db1, bus1)" by (metis prod_cases3)
  have "served db bus db1 bus1" using Flush_served [OF Cons.prems(1) f] .
  moreover from this have "inv db1" by (simp add: served_def)
  then have "served db1 bus1 db' bus'" using Cons x f by simp
  ultimately show ?case by (rule served_trans)
qed

text \<open>A healthy bus and store drain an uncapped backlog in one flush.\<close>

lemma flush_rows_drains:
  assumes "inv db" and "\<And>s r. acked s r" and "\<And>i. \<not> ctxDone i"
    and "\<And>i d. fst (OS_MarkPublished (S e) i d) = None"
    and "flush_rows (S e) prefix acked ctxDone rows ((ok, bad), db, bus) = (c, db', bus')"
  shows "backlog db' = {r \<in> backlog db. OR_ID r \<notin> OR_ID ` set rows}"
  using assms
proof (induction rows arbitrary: ok bad db bus)
  case Nil
  then show ?case by simp
next
  case (Cons row rows)
  obtain err db1 where "OS_MarkPublished (S e) (OR_ID row) db = (err, db1)" by fastforce
  then have mk: "OS_MarkPublished (S e) (OR_ID row) db = (None, db1)" using Cons.prems(4) by (metis fst_conv)
  have "inv db1" and b1: "backlog db1 = {r \<in> backlog db. OR_ID r \<noteq> OR_ID row}"
    using mark_stamps [OF Cons.prems(1) mk] by auto
  have "backlog db' = {r \<in> backlog db1. OR_ID r \<notin> OR_ID ` set rows}"
    using Cons.IH [OF \<open>inv db1\<close> Cons.prems(2,3,4)] Cons.prems mk by (simp add: Let_def)
  then show ?case using b1 by auto
qed

lemma Flush_drains:
  assumes "inv db" and "\<And>s r. acked s r" and "\<And>i. \<not> ctxDone i"
    and "\<And>i d. fst (OS_MarkPublished (S e) i d) = None"
    and "OS_Unpublished (S e) (RC_BatchLimit cfg) db = Inr rows" and "RC_BatchLimit cfg \<le> 0"
    and "Flush (S e) cfg acked ctxDone (db, bus) = (res, db', bus')"
  shows "backlog db' = {}"
proof -
  obtain c where "flush_rows (S e) (RC_Prefix cfg) acked ctxDone rows ((0, 0), db, bus) = (c, db', bus')"
    using assms(5,7) by (auto simp: Flush_def split: prod.splits)
  then have "backlog db' = {r \<in> backlog db. OR_ID r \<notin> OR_ID ` set rows}"
    using flush_rows_drains [where acked = acked and ctxDone = ctxDone and e = e, OF assms(1-4)] by blast
  then show ?thesis using unpublished_rows [OF assms(1,5)] assms(6) by auto
qed

end

section \<open>The Postgres outbox\<close>

definition sql_backlog :: "outbox_row list \<Rightarrow> OutboxRow set" where
  "sql_backlog t = outbox_view ` {r \<in> set t. unflushed r}"

definition sqlEnv :: "dbfaults \<times> (int \<Rightarrow> bool) \<times> instant \<Rightarrow> outbox_row list OutboxStore" where
  "sqlEnv e = (case e of (flt, markFails, now) \<Rightarrow> sqlStore flt markFails now)"

lemma outbox_view_id [simp]: "OR_ID (outbox_view r) = ob_id r"
  by (simp add: outbox_view_def)

lemma sqlEnv_Unpublished:
  assumes "OS_Unpublished (sqlEnv e) n t = Inr rows"
  shows "rows = map outbox_view (sql_pick unflushed ob_id (if n > 0 then nat n else length t) t)"
  using assms by (cases e) (auto simp: sqlEnv_def sqlStore_def Unpublished_def split: if_splits)

interpretation sql_outbox: outbox_store sqlEnv "wf_table ob_id" sql_backlog
proof (unfold_locales, goal_cases)
  case (1 db r r')
  then obtain x y where x: "x \<in> set db" "r = outbox_view x" and y: "y \<in> set db" "r' = outbox_view y"
    by (auto simp: sql_backlog_def)
  with 1(4) have "ob_id x = ob_id y" by simp
  with wf_table_inj [OF 1(1) x(1) y(1)] x(2) y(2) show ?case by simp
next
  case (2 db e n rows)
  note rows = sqlEnv_Unpublished [OF 2(2)]
  have sub: "set rows \<subseteq> sql_backlog db"
    unfolding rows sql_backlog_def by (auto dest: sql_pick_sound)
  have "n \<le> 0 \<Longrightarrow> sql_pick unflushed ob_id (length db) db = sort_key ob_id (filter unflushed db)"
    by (simp add: sql_pick_def)
  then have "n \<le> 0 \<Longrightarrow> set rows = sql_backlog db"
    unfolding rows sql_backlog_def by simp
  with sub show ?case by blast
next
  case (3 db e i db')
  then obtain now where db': "db' = upd_key ob_id i unflushed (\<lambda>r. r\<lparr>ob_published := Some now\<rparr>) db"
    by (cases e) (auto simp: sqlEnv_def sqlStore_def MarkPublished_def split: if_splits)
  have "{r \<in> set db'. unflushed r} = {r \<in> set db. unflushed r \<and> ob_id r \<noteq> i}"
    unfolding db' upd_key_set by (auto simp: unflushed_def)
  then show ?case using 3(1) by (auto simp: sql_backlog_def db')
next
  case (4 e i db err db')
  then show ?case by (cases e) (auto simp: sqlEnv_def sqlStore_def MarkPublished_def split: if_splits)
qed

text \<open>
  C6. Delivery is at least once: over any sequence of flushes, whatever the bus refuses, the
  statements fail on or the context cancels, every event that left the unflushed backlog is
  on the bus, no event enters the backlog again, and what was on the bus stays there.
\<close>

theorem relay_at_least_once:
  assumes "wf_table ob_id t"
    and "relay_run cfg (map (\<lambda>(e, acked, ctxDone). (sqlEnv e, acked, ctxDone)) envs) (t, bus) = (t', bus')"
  shows "wf_table ob_id t' \<and> sql_backlog t' \<subseteq> sql_backlog t \<and>
    (\<exists>new. bus' = bus @ new \<and> sql_backlog t - sql_backlog t' \<subseteq> snd ` set new)"
  using sql_outbox.relay_run_served [OF assms] by (simp add: sql_outbox.served_def)

definition event_seven :: outbox_row where
  "event_seven = \<lparr>ob_id = 7, ob_entity = ''run'', ob_project = ''p'', ob_squad = None, ob_event = ''started'',
     ob_item = None, ob_run = Some ''r'', ob_payload = [], ob_carrier = None, ob_published = None\<rparr>"

definition default_relay :: RelayConfig where
  "default_relay = \<lparr>RC_Prefix = ''ksquad'', RC_PollInterval = 2000000000, RC_BatchLimit = 0\<rparr>"

theorem relay_at_least_once_witness:
  "sql_backlog (fst (relay_run default_relay
      (map (\<lambda>(e, acked, ctxDone). (sqlEnv e, acked, ctxDone)) [((\<lambda>_. False, \<lambda>_. True, 1), \<lambda>_ _. True, \<lambda>_. False)])
      ([event_seven], []))) \<subseteq> sql_backlog [event_seven]"
proof -
  let ?envs = "map (\<lambda>(e, acked, ctxDone). (sqlEnv e, acked, ctxDone))
    [((\<lambda>_. False, \<lambda>_. True, 1), \<lambda>_ _. True, \<lambda>_. False)]"
  have "wf_table ob_id [event_seven]" by (simp add: wf_table_def)
  from relay_at_least_once [OF this, of default_relay
      "[((\<lambda>_. False, \<lambda>_. True, 1), \<lambda>_ _. True, \<lambda>_. False)]" "[]"
      "fst (relay_run default_relay ?envs ([event_seven], []))" "snd (relay_run default_relay ?envs ([event_seven], []))"]
  show ?thesis by (simp del: relay_run.simps list.map)
qed

text \<open>
  An uncapped flush with a healthy bus and store publishes and stamps the whole backlog.
\<close>

theorem healthy_flush_drains:
  assumes "wf_table ob_id t" and "RC_BatchLimit cfg \<le> 0"
    and "Flush (sqlStore (\<lambda>_. False) (\<lambda>_. False) now) cfg (\<lambda>_ _. True) (\<lambda>_. False) (t, bus) = (res, t', bus')"
  shows "sql_backlog t' = {} \<and> sql_backlog t \<subseteq> snd ` set bus'"
proof -
  let ?e = "(\<lambda>_. False, \<lambda>_. False, now) :: dbfaults \<times> (int \<Rightarrow> bool) \<times> instant"
  have e: "sqlStore (\<lambda>_. False) (\<lambda>_. False) now = sqlEnv ?e" by (simp add: sqlEnv_def)
  have mk: "fst (OS_MarkPublished (sqlEnv ?e) i d) = None" for i d
    by (simp add: sqlEnv_def sqlStore_def MarkPublished_def)
  obtain rows where un: "OS_Unpublished (sqlEnv ?e) (RC_BatchLimit cfg) t = Inr rows"
    by (simp add: sqlEnv_def sqlStore_def Unpublished_def)
  have empty: "sql_backlog t' = {}"
    using sql_outbox.Flush_drains [of t "\<lambda>_ _. True" "\<lambda>_. False" ?e cfg rows bus res t' bus', OF assms(1) _ _ mk un assms(2)]
      assms(3) e by simp
  have "sql_outbox.served t bus t' bus'"
    by (rule sql_outbox.Flush_served [OF assms(1) assms(3) [unfolded e]])
  then obtain new where "bus' = bus @ new" "sql_backlog t \<subseteq> snd ` set new"
    using empty by (auto simp: sql_outbox.served_def)
  then show ?thesis using empty by auto
qed

theorem healthy_flush_drains_witness:
  "sql_backlog (fst (snd (Flush (sqlStore (\<lambda>_. False) (\<lambda>_. False) 1) default_relay (\<lambda>_ _. True) (\<lambda>_. False)
     ([event_seven], [])))) = {}"
proof -
  let ?f = "Flush (sqlStore (\<lambda>_. False) (\<lambda>_. False) 1) default_relay (\<lambda>_ _. True) (\<lambda>_. False) ([event_seven], [])"
  have "?f = (fst ?f, fst (snd ?f), snd (snd ?f))" by simp
  moreover have "wf_table ob_id [event_seven]" and "RC_BatchLimit default_relay \<le> 0"
    by (simp_all add: wf_table_def default_relay_def)
  ultimately show ?thesis
    using healthy_flush_drains [of "[event_seven]" default_relay 1 "[]" "fst ?f" "fst (snd ?f)" "snd (snd ?f)"] by metis
qed

text \<open>
  A capped relay has head-of-line blocking: while the rows at the head of the backlog fill
  the batch and the bus keeps refusing them, no flush, however often repeated, publishes or
  stamps any other row, although the bus would accept every one of them.
\<close>

theorem capped_relay_starves:
  assumes "Unpublished (\<lambda>_. False) (RC_BatchLimit cfg) t = Inr rows"
    and "\<And>s r. acked s r \<longleftrightarrow> r \<notin> set rows"
  shows "relay_run cfg (replicate n (sqlStore (\<lambda>_. False) (\<lambda>_. False) now, acked, \<lambda>_. False)) (t, bus) = (t, bus)"
proof -
  let ?S = "sqlStore (\<lambda>_. False) (\<lambda>_. False) now"
  have un: "OS_Unpublished ?S (RC_BatchLimit cfg) t = Inr rows" using assms(1) by (simp add: sqlStore_def)
  have skip: "set rs \<subseteq> set rows \<Longrightarrow>
      snd (flush_rows ?S (RC_Prefix cfg) acked (\<lambda>_. False) rs (c, t, bus)) = (t, bus)" for rs c
    by (induction rs arbitrary: c) (auto simp: assms(2) Let_def)
  have "snd (Flush ?S cfg acked (\<lambda>_. False) (t, bus)) = (t, bus)"
    using skip [OF subset_refl, of "(0, 0)"] un
    by (cases "flush_rows ?S (RC_Prefix cfg) acked (\<lambda>_. False) rows ((0, 0), t, bus)") (simp add: Flush_def)
  then show ?thesis by (induction n) auto
qed

theorem capped_relay_starves_witness:
  "relay_run (default_relay\<lparr>RC_BatchLimit := 1\<rparr>)
     (replicate 9 (sqlStore (\<lambda>_. False) (\<lambda>_. False) 1, \<lambda>s r. r \<notin> set [outbox_view event_seven], \<lambda>_. False))
     ([event_seven, event_seven\<lparr>ob_id := 8\<rparr>], []) = ([event_seven, event_seven\<lparr>ob_id := 8\<rparr>], [])"
proof (rule capped_relay_starves)
  show "Unpublished (\<lambda>_. False) (RC_BatchLimit (default_relay\<lparr>RC_BatchLimit := 1\<rparr>))
      [event_seven, event_seven\<lparr>ob_id := 8\<rparr>] = Inr [outbox_view event_seven]"
    by (simp add: Unpublished_def sql_pick_def unflushed_def event_seven_def default_relay_def)
qed simp

text \<open>
  The live tail keeps one watermark over all runs: a row whose id is at or below it is not
  returned, so an event that becomes visible after a later id was delivered is skipped.
\<close>

lemma late_commit_skipped:
  "e \<in> set (RunEventsAfter afterID limit t) \<Longrightarrow> RE_ID e > afterID"
  by (auto simp: RunEventsAfter_def run_event_def dest: sql_pick_sound)

end
