(* ===== verification/Prod_Claim.thy ===== *)
theory Prod_Claim
  imports Events_Outbox Fenced_Claims "HOL-Library.Char_ord" "HOL-Library.List_Lexorder"
begin

text \<open>
  The production claim path (pkg/coord/prodclaim.go, prodheartbeat.go): the queue pull, the
  acquire of a named item, the lease heartbeat and its periodic driver, over the tables of the
  shipped schema. Each claim is one transaction: guarded acquire, board advance, audit row and
  the optional outbox event commit together or not at all. Every statement reads the live clock
  once for its guard and once for what it writes.
\<close>

section \<open>Configuration\<close>

record ProdConfig =
  PC_LeaseInterval :: duration
  PC_ClaimableState :: string
  PC_ClaimedState :: string
  PC_emitOutbox :: bool

definition DefaultProdConfig :: ProdConfig where
  "DefaultProdConfig = \<lparr>PC_LeaseInterval = 30000000000, PC_ClaimableState = ''todo'',
     PC_ClaimedState = ''in_progress'', PC_emitOutbox = False\<rparr>"

definition WithOutboxCapture :: "ProdConfig \<Rightarrow> ProdConfig" where
  "WithOutboxCapture cfg = cfg\<lparr>PC_emitOutbox := True\<rparr>"

text \<open>An empty interval literal is a missing one: \<open>lease = None\<close>.\<close>

definition NewProdClaimer :: "bool \<Rightarrow> duration option \<Rightarrow> string \<Rightarrow> string \<Rightarrow> bool \<Rightarrow> string + ProdConfig" where
  "NewProdClaimer nil_db lease claimable claimed emit =
     (if nil_db then Inl ''coord.NewProdClaimer: nil db''
      else case lease of
        None \<Rightarrow> Inl ''coord.NewProdClaimer: incomplete config''
      | Some d \<Rightarrow>
          if claimable = [] \<or> claimed = [] then Inl ''coord.NewProdClaimer: incomplete config''
          else Inr \<lparr>PC_LeaseInterval = d, PC_ClaimableState = claimable, PC_ClaimedState = claimed,
                    PC_emitOutbox = emit\<rparr>)"

section \<open>The statements\<close>

definition claim_free :: "instant \<Rightarrow> prod_claim \<Rightarrow> bool" where
  "claim_free t r \<longleftrightarrow> pc_holder r = None \<or> null_lt (pc_lease r) t"

definition prod_acq ::
  "ProdConfig \<Rightarrow> instant \<Rightarrow> instant \<Rightarrow> string \<Rightarrow> string \<Rightarrow> string option \<Rightarrow> string \<Rightarrow> prod_db \<Rightarrow> (int \<times> prod_db) option" where
  "prod_acq cfg tg ts prin run initiator item db =
     (case row_key pc_item item (claim_free tg) (pd_claims db) of
        None \<Rightarrow> None
      | Some r \<Rightarrow> Some (pc_fence r + 1,
          db\<lparr>pd_claims := upd_key pc_item item (claim_free tg)
               (\<lambda>r. r\<lparr>pc_holder := Some prin, pc_run := Some run, pc_fence := pc_fence r + 1,
                      pc_lease := Some (ts + PC_LeaseInterval cfg), pc_acquired := Some ts,
                      pc_renewed := None, pc_initiated := initiator\<rparr>) (pd_claims db)\<rparr>))"

definition lane_ok :: "ProdConfig \<Rightarrow> prod_item \<Rightarrow> bool" where
  "lane_ok cfg w \<longleftrightarrow> pw_state w = PC_ClaimableState cfg \<or> pw_state w = PC_ClaimedState cfg"

definition prod_mark :: "ProdConfig \<Rightarrow> instant \<Rightarrow> string \<Rightarrow> prod_db \<Rightarrow> nat \<times> prod_db" where
  "prod_mark cfg now item db =
     (aff_key pw_id item (lane_ok cfg) (pd_items db),
      db\<lparr>pd_items := upd_key pw_id item (lane_ok cfg) (set_lane now (PC_ClaimedState cfg)) (pd_items db)\<rparr>)"

definition claim_audit ::
  "ProdConfig \<Rightarrow> instant \<Rightarrow> string \<Rightarrow> string \<Rightarrow> string \<Rightarrow> string option \<Rightarrow> int \<Rightarrow> audit_row" where
  "claim_audit cfg now item run prin initiator fence =
     \<lparr>au_item = item, au_run = Some run, au_event = ''claim_acquired'', au_principal = prin,
      au_initiated = initiator, au_fence = Some fence, au_from = Some (PC_ClaimableState cfg),
      au_to = Some (PC_ClaimedState cfg), au_payload = [], au_created = now\<rparr>"

definition claimEventPayload :: "string \<Rightarrow> int \<Rightarrow> json" where
  "claimEventPayload prin fence = [(''v'', JInt 1), (''principal'', JStr prin), (''fence'', JInt fence)]"

definition captureClaim ::
  "ProdConfig \<Rightarrow> dbfaults \<Rightarrow> json option \<Rightarrow> string \<Rightarrow> string \<Rightarrow> string \<Rightarrow> int \<Rightarrow> prod_db \<Rightarrow> string + prod_db" where
  "captureClaim cfg flt carrier item run prin fence db =
     (if \<not> PC_emitOutbox cfg then Inr db
      else CaptureForWorkItem flt carrier item run ''claimed'' (claimEventPayload prin fence) db)"

text \<open>The pop: \<open>ORDER BY created_at, id\<close>, skipping rows that other transactions hold locked.\<close>

definition prod_pick :: "ProdConfig \<Rightarrow> string set \<Rightarrow> instant \<Rightarrow> prod_db \<Rightarrow> string option" where
  "prod_pick cfg locked tg db =
     (case sort_key pw_created (sort_key pw_id
             (filter (\<lambda>w. pw_state w = PC_ClaimableState cfg \<and> pw_id w \<notin> locked \<and>
                row_key pc_item (pw_id w) (claim_free tg) (pd_claims db) \<noteq> None) (pd_items db))) of
        [] \<Rightarrow> None | w # _ \<Rightarrow> Some (pw_id w))"

section \<open>Operations\<close>

text \<open>Steps (2) to (5) of a claim and its commit, the part both entry points share.\<close>

definition claim_tail ::
  "string \<Rightarrow> ProdConfig \<Rightarrow> dbfaults \<Rightarrow> json option \<Rightarrow> instant \<Rightarrow> string \<Rightarrow> string \<Rightarrow> string option \<Rightarrow> string \<Rightarrow> int \<Rightarrow>
   prod_db \<Rightarrow> prod_db \<Rightarrow> (string + (string \<times> int) option) \<times> prod_db" where
  "claim_tail who cfg flt carrier now prin run initiator item fence db db1 =
     (if flt ''mark'' then (Inl (who @ '': mark claimed''), db)
      else case prod_mark cfg now item db1 of
        (n, db2) \<Rightarrow>
          if n \<noteq> 1 then (Inr None, db)
          else if flt ''audit'' then (Inl (who @ '': audit''), db)
          else case captureClaim cfg flt carrier item run prin fence
                      (insert_audit (claim_audit cfg now item run prin initiator fence) db2) of
            Inl err \<Rightarrow> (Inl (who @ '': outbox: '' @ err), db)
          | Inr db3 \<Rightarrow>
              if flt ''commit'' then (Inl (who @ '': commit''), db)
              else (Inr (Some (item, fence)), db3))"

definition ProdClaimNext ::
  "ProdConfig \<Rightarrow> dbfaults \<Rightarrow> string set \<Rightarrow> json option \<Rightarrow> instant \<Rightarrow> instant \<Rightarrow> instant \<Rightarrow>
   string \<Rightarrow> string \<Rightarrow> string \<Rightarrow> prod_db \<Rightarrow> (string + (string \<times> int) option) \<times> prod_db" where
  "ProdClaimNext cfg flt locked carrier tp tg ts prin runID initiatedByUserID db =
     (if prin = [] \<or> runID = [] then (Inl ''coord.ProdClaimer.ClaimNext: principal and runID are required'', db)
      else if flt ''begin'' then (Inl ''coord.ProdClaimer.ClaimNext: begin'', db)
      else if flt ''pick'' then (Inl ''coord.ProdClaimer.ClaimNext: pick'', db)
      else case prod_pick cfg locked tp db of
        None \<Rightarrow> (Inr None, db)
      | Some item \<Rightarrow>
          if flt ''acquire'' then (Inl ''coord.ProdClaimer.ClaimNext: acquire'', db)
          else case prod_acq cfg tg ts prin runID (nullable initiatedByUserID) item db of
            None \<Rightarrow> (Inr None, db)
          | Some (fence, db1) \<Rightarrow>
              claim_tail ''coord.ProdClaimer.ClaimNext'' cfg flt carrier ts prin runID
                (nullable initiatedByUserID) item fence db db1)"

definition ClaimableCount :: "ProdConfig \<Rightarrow> dbfaults \<Rightarrow> prod_db \<Rightarrow> string + nat" where
  "ClaimableCount cfg flt db =
     (if flt ''count'' then Inl ''coord.ProdClaimer.ClaimableCount''
      else Inr (sql_affected (\<lambda>w. pw_state w = PC_ClaimableState cfg) (pd_items db)))"

definition stamp_assignee :: "string \<Rightarrow> string \<Rightarrow> int \<Rightarrow> string \<Rightarrow> prod_db \<Rightarrow> prod_db" where
  "stamp_assignee item run fence agent db =
     db\<lparr>pd_claims := upd_key pc_item item (\<lambda>r. pc_run r = Some run \<and> pc_fence r = fence)
          (\<lambda>r. r\<lparr>pc_assignee := Some agent\<rparr>) (pd_claims db)\<rparr>"

definition AcquireSpecific ::
  "ProdConfig \<Rightarrow> dbfaults \<Rightarrow> json option \<Rightarrow> instant \<Rightarrow> instant \<Rightarrow>
   string \<Rightarrow> string \<Rightarrow> string \<Rightarrow> string \<Rightarrow> string \<Rightarrow> prod_db \<Rightarrow> (string + (string \<times> int) option) \<times> prod_db" where
  "AcquireSpecific cfg flt carrier tg ts prin runID itemID initiatedByUserID assigneeAgent db =
     (if prin = [] \<or> runID = [] \<or> itemID = []
      then (Inl ''coord.ProdClaimer.AcquireSpecific: principal, runID and itemID are required'', db)
      else if flt ''begin'' then (Inl ''coord.ProdClaimer.AcquireSpecific: begin'', db)
      else if flt ''acquire'' then (Inl ''coord.ProdClaimer.AcquireSpecific: acquire'', db)
      else case prod_acq cfg tg ts prin runID (nullable initiatedByUserID) itemID db of
        None \<Rightarrow> (Inr None, db)
      | Some (fence, db1) \<Rightarrow>
          if assigneeAgent \<noteq> [] \<and> flt ''assignee'' then (Inl ''coord.ProdClaimer.AcquireSpecific: assignee'', db)
          else claim_tail ''coord.ProdClaimer.AcquireSpecific'' cfg flt carrier ts prin runID
                 (nullable initiatedByUserID) itemID fence db
                 (if assigneeAgent = [] then db1 else stamp_assignee itemID runID fence assigneeAgent db1))"

definition renewable :: "instant \<Rightarrow> string \<Rightarrow> string \<Rightarrow> int \<Rightarrow> string \<Rightarrow> prod_db \<Rightarrow> prod_claim \<Rightarrow> bool" where
  "renewable tg prin run fence item db r \<longleftrightarrow>
     pc_holder r = Some prin \<and> pc_run r = Some run \<and> pc_fence r = fence \<and> null_gt (pc_lease r) tg \<and>
     row_key pw_id item (\<lambda>w. pw_state w = ''done'') (pd_items db) = None"

text \<open>A database error panics: \<open>None\<close> is the panicking call.\<close>

definition ProdRenew ::
  "ProdConfig \<Rightarrow> dbfaults \<Rightarrow> instant \<Rightarrow> instant \<Rightarrow> string \<Rightarrow> string \<Rightarrow> string \<Rightarrow> int \<Rightarrow> prod_db \<Rightarrow> bool option \<times> prod_db" where
  "ProdRenew cfg flt tg ts itemID prin runID fence db =
     (if flt ''renew'' then (None, db)
      else (Some (aff_key pc_item itemID (renewable tg prin runID fence itemID db) (pd_claims db) = 1),
            db\<lparr>pd_claims := upd_key pc_item itemID (renewable tg prin runID fence itemID db)
                 (\<lambda>r. r\<lparr>pc_lease := Some (ts + PC_LeaseInterval cfg), pc_renewed := Some ts\<rparr>) (pd_claims db)\<rparr>))"

text \<open>
  The heartbeat driver: what its select receives, in order. \<open>env\<close> is what other processes do
  before a tick. The result is the value sent on the channel (\<open>None\<close> while it still runs or
  after a panic), with the database.
\<close>

datatype hb_event = HbDone | HbTick "prod_db \<Rightarrow> prod_db" dbfaults instant instant

fun RunHeartbeater ::
  "ProdConfig \<Rightarrow> string \<Rightarrow> string \<Rightarrow> string \<Rightarrow> int \<Rightarrow> hb_event list \<Rightarrow> prod_db \<Rightarrow> bool option \<times> prod_db" where
  "RunHeartbeater cfg item prin run fence [] db = (None, db)"
| "RunHeartbeater cfg item prin run fence (HbDone # evs) db = (Some True, db)"
| "RunHeartbeater cfg item prin run fence (HbTick env flt tg ts # evs) db =
     (case ProdRenew cfg flt tg ts item prin run fence (env db) of
        (None, db') \<Rightarrow> (None, db')
      | (Some False, db') \<Rightarrow> (Some False, db')
      | (Some True, db') \<Rightarrow> RunHeartbeater cfg item prin run fence evs db')"

section \<open>What a claim does\<close>

text \<open>The durable facts of a granted claim, relating the database before and after.\<close>

definition granted_to ::
  "ProdConfig \<Rightarrow> instant \<Rightarrow> instant \<Rightarrow> string \<Rightarrow> string \<Rightarrow> string \<Rightarrow> int \<Rightarrow> prod_db \<Rightarrow> prod_db \<Rightarrow> bool" where
  "granted_to cfg tg ts prin run item fence db db' \<longleftrightarrow>
     (\<exists>r r' w. claim_row_of db item = Some r \<and> claim_free tg r \<and> fence = pc_fence r + 1 \<and>
        item_row_of db item = Some w \<and> lane_ok cfg w \<and>
        claim_row_of db' item = Some r' \<and> pc_holder r' = Some prin \<and> pc_run r' = Some run \<and>
        pc_fence r' = fence \<and> pc_lease r' = Some (ts + PC_LeaseInterval cfg) \<and> pc_step r' = pc_step r \<and>
        (\<forall>j. j \<noteq> item \<longrightarrow> claim_row_of db' j = claim_row_of db j) \<and>
        (\<forall>j. item_row_of db' j = (if j = item then Some (set_lane ts (PC_ClaimedState cfg) w) else item_row_of db j)) \<and>
        (\<exists>a. pd_audit db' = pd_audit db @ [a] \<and> au_event a = ''claim_acquired'' \<and> au_item a = item \<and>
             au_run a = Some run \<and> au_principal a = prin \<and> au_fence a = Some fence) \<and>
        (if PC_emitOutbox cfg
         then \<exists>e. pd_outbox db' = pd_outbox db @ [e] \<and> ob_event e = ''claimed'' \<and> ob_item e = Some item \<and>
                  ob_run e = Some run \<and> ob_project e = pw_project w \<and> ob_squad e = pw_team w \<and> ob_published e = None
         else pd_outbox db' = pd_outbox db) \<and>
        pd_a2a db' = pd_a2a db \<and> pd_comments db' = pd_comments db)"

lemma prod_acq_Some:
  assumes "prod_acq cfg tg ts prin run ini item db = Some (fence, db1)" and "wf_prod db"
  shows "\<exists>r. claim_row_of db item = Some r \<and> claim_free tg r \<and> fence = pc_fence r + 1 \<and>
    db1 = db\<lparr>pd_claims := pd_claims db1\<rparr> \<and> wf_prod db1 \<and>
    (\<forall>j. claim_row_of db1 j = (if j = item then
       Some (r\<lparr>pc_holder := Some prin, pc_run := Some run, pc_fence := fence,
               pc_lease := Some (ts + PC_LeaseInterval cfg), pc_acquired := Some ts,
               pc_renewed := None, pc_initiated := ini\<rparr>) else claim_row_of db j))"
  using assms by (auto simp: prod_acq_def row_key_wf [OF wf_prodD(1)] split: option.splits if_splits)

lemma prod_acq_None:
  assumes "wf_prod db" and "claim_row_of db item = Some r" and "\<not> claim_free tg r"
  shows "prod_acq cfg tg ts prin run ini item db = None"
  using assms by (simp add: prod_acq_def row_key_wf [OF wf_prodD(1)])

lemma prod_mark_1:
  assumes "prod_mark cfg ts item db = (1, db')" and "wf_prod db"
  shows "\<exists>w. item_row_of db item = Some w \<and> lane_ok cfg w \<and> wf_prod db' \<and> db' = db\<lparr>pd_items := pd_items db'\<rparr> \<and>
    (\<forall>j. item_row_of db' j = (if j = item then Some (set_lane ts (PC_ClaimedState cfg) w) else item_row_of db j))"
  using assms by (auto simp: prod_mark_def aff_key_wf [OF wf_prodD(2)] split: option.splits if_splits)

lemma captureClaim_Inr:
  assumes "captureClaim cfg flt carrier item run prin fence db = Inr db'"
    and "wf_prod db" and "item_row_of db item = Some w" and "run \<noteq> []"
  shows "wf_prod db' \<and> pd_claims db' = pd_claims db \<and> pd_items db' = pd_items db \<and> pd_audit db' = pd_audit db \<and>
    pd_a2a db' = pd_a2a db \<and> pd_comments db' = pd_comments db \<and>
    (if PC_emitOutbox cfg
     then \<exists>e. pd_outbox db' = pd_outbox db @ [e] \<and> ob_event e = ''claimed'' \<and> ob_item e = Some item \<and>
              ob_run e = Some run \<and> ob_project e = pw_project w \<and> ob_squad e = pw_team w \<and> ob_published e = None
     else pd_outbox db' = pd_outbox db)"
proof (cases "PC_emitOutbox cfg")
  case True
  then have "db' = outbox_for_item ''work_item'' ''claimed'' item (Some run) (claimEventPayload prin fence) carrier db"
    using assms(1,4) by (auto simp: captureClaim_def CaptureForWorkItem_def nullable_def split: if_splits)
  then show ?thesis using True assms(2,3) lookup_by_Some [OF assms(3)]
    by (auto simp: outbox_for_item_def)
next
  case False
  with assms show ?thesis by (simp add: captureClaim_def)
qed

lemma claim_tail_cases:
  assumes "claim_tail who cfg flt carrier now prin run ini item fence db db1 = (res, db')"
  obtains (refused) "db' = db" "\<And>g. res \<noteq> Inr (Some g)"
  | (granted) db2 where "res = Inr (Some (item, fence))" "prod_mark cfg now item db1 = (1, db2)"
      "captureClaim cfg flt carrier item run prin fence
         (insert_audit (claim_audit cfg now item run prin ini fence) db2) = Inr db'"
  using assms
  by (auto simp: claim_tail_def split: if_splits sum.splits prod.splits)

lemma claim_tail_granted:
  assumes tail: "claim_tail who cfg flt carrier ts prin run ini item fence db db1 = (Inr (Some g), db')"
    and acq: "claim_row_of db item = Some r" "claim_free tg r" "fence = pc_fence r + 1" "wf_prod db1"
      "pd_items db1 = pd_items db" "pd_audit db1 = pd_audit db" "pd_outbox db1 = pd_outbox db"
      "pd_a2a db1 = pd_a2a db" "pd_comments db1 = pd_comments db"
      "claim_row_of db1 item = Some r'" "pc_holder r' = Some prin" "pc_run r' = Some run" "pc_fence r' = fence"
      "pc_lease r' = Some (ts + PC_LeaseInterval cfg)" "pc_step r' = pc_step r"
      "\<And>j. j \<noteq> item \<Longrightarrow> claim_row_of db1 j = claim_row_of db j" "run \<noteq> []"
  shows "g = (item, fence) \<and> granted_to cfg tg ts prin run item fence db db' \<and> wf_prod db'"
  using tail
proof (cases rule: claim_tail_cases)
  case refused
  then show ?thesis by blast
next
  case (granted db2)
  obtain w where w: "item_row_of db1 item = Some w" "lane_ok cfg w" "wf_prod db2" "db2 = db1\<lparr>pd_items := pd_items db2\<rparr>"
      "\<And>j. item_row_of db2 j = (if j = item then Some (set_lane ts (PC_ClaimedState cfg) w) else item_row_of db1 j)"
    using prod_mark_1 [OF granted(2) acq(4)] by blast
  have eq: "pd_claims db2 = pd_claims db1" "pd_audit db2 = pd_audit db1" "pd_outbox db2 = pd_outbox db1"
      "pd_a2a db2 = pd_a2a db1" "pd_comments db2 = pd_comments db1"
    using arg_cong [OF w(4), of pd_claims] arg_cong [OF w(4), of pd_audit] arg_cong [OF w(4), of pd_outbox]
      arg_cong [OF w(4), of pd_a2a] arg_cong [OF w(4), of pd_comments] by simp_all
  let ?a = "claim_audit cfg ts item run prin ini fence"
  have w2: "item_row_of (insert_audit ?a db2) item = Some (set_lane ts (PC_ClaimedState cfg) w)" by (simp add: w(5))
  from captureClaim_Inr [OF granted(3) _ w2 acq(17)] w(3)
  have c: "wf_prod db'" "pd_claims db' = pd_claims db2" "pd_items db' = pd_items db2" "pd_audit db' = pd_audit db2 @ [?a]"
      "pd_a2a db' = pd_a2a db2" "pd_comments db' = pd_comments db2"
      "if PC_emitOutbox cfg
       then \<exists>e. pd_outbox db' = pd_outbox db2 @ [e] \<and> ob_event e = ''claimed'' \<and> ob_item e = Some item \<and>
              ob_run e = Some run \<and> ob_project e = pw_project w \<and> ob_squad e = pw_team w \<and> ob_published e = None
       else pd_outbox db' = pd_outbox db2"
    by auto
  have "granted_to cfg tg ts prin run item fence db db'"
    unfolding granted_to_def
    using acq w c eq by (intro exI [of _ r] exI [of _ r'] exI [of _ w])
      (auto simp: claim_audit_def split: if_splits)
  with granted c show ?thesis by simp
qed

lemma stamp_assignee_sel [simp]:
  "pd_items (stamp_assignee i r f a db) = pd_items db" "pd_audit (stamp_assignee i r f a db) = pd_audit db"
  "pd_outbox (stamp_assignee i r f a db) = pd_outbox db" "pd_a2a (stamp_assignee i r f a db) = pd_a2a db"
  "pd_comments (stamp_assignee i r f a db) = pd_comments db"
  "wf_prod db \<Longrightarrow> wf_prod (stamp_assignee i r f a db)"
  by (simp_all add: stamp_assignee_def)

lemma stamp_assignee_row:
  "claim_row_of (stamp_assignee i run f a db) j =
    (if j = i then map_option (\<lambda>r. if pc_run r = Some run \<and> pc_fence r = f then r\<lparr>pc_assignee := Some a\<rparr> else r) (claim_row_of db i)
     else claim_row_of db j)"
  by (simp add: stamp_assignee_def)

lemma prod_acq_tail_granted:
  assumes acq: "prod_acq cfg tg ts prin run ini i db = Some (f, db1)"
    and tail: "claim_tail who cfg flt carrier ts prin run ini i f db db1 = (Inr (Some (item, fence)), db')"
    and wf: "wf_prod db" and run: "run \<noteq> []"
  shows "item = i \<and> granted_to cfg tg ts prin run item fence db db' \<and> wf_prod db'"
proof -
  obtain r where r: "claim_row_of db i = Some r" "claim_free tg r" "f = pc_fence r + 1"
      "db1 = db\<lparr>pd_claims := pd_claims db1\<rparr>" "wf_prod db1"
      "\<And>j. claim_row_of db1 j = (if j = i then
       Some (r\<lparr>pc_holder := Some prin, pc_run := Some run, pc_fence := f,
               pc_lease := Some (ts + PC_LeaseInterval cfg), pc_acquired := Some ts,
               pc_renewed := None, pc_initiated := ini\<rparr>) else claim_row_of db j)"
    using prod_acq_Some [OF acq wf] by blast
  have eq: "pd_items db1 = pd_items db" "pd_audit db1 = pd_audit db" "pd_outbox db1 = pd_outbox db"
      "pd_a2a db1 = pd_a2a db" "pd_comments db1 = pd_comments db"
    by (subst r(4), simp)+
  from claim_tail_granted [OF tail r(1,2,3,5) eq, of "the (claim_row_of db1 i)"] r(3,6) run show ?thesis
    by simp
qed

lemma ProdClaimNext_granted:
  assumes "ProdClaimNext cfg flt locked carrier tp tg ts prin run ini db = (Inr (Some (item, fence)), db')" and "wf_prod db"
  shows "granted_to cfg tg ts prin run item fence db db' \<and> wf_prod db' \<and> prod_pick cfg locked tp db = Some item"
proof -
  obtain db1 i f where a: "prod_pick cfg locked tp db = Some i"
      "prod_acq cfg tg ts prin run (nullable ini) i db = Some (f, db1)" "run \<noteq> []"
      "claim_tail ''coord.ProdClaimer.ClaimNext'' cfg flt carrier ts prin run (nullable ini) i f db db1 =
        (Inr (Some (item, fence)), db')"
    using assms(1) by (auto simp: ProdClaimNext_def split: if_splits option.splits prod.splits)
  from prod_acq_tail_granted [OF a(2,4) assms(2) a(3)] a(1) show ?thesis by blast
qed

lemma AcquireSpecific_granted:
  assumes "AcquireSpecific cfg flt carrier tg ts prin run itemID ini agent db = (Inr (Some (item, fence)), db')"
    and "wf_prod db"
  shows "item = itemID \<and> granted_to cfg tg ts prin run item fence db db' \<and> wf_prod db'"
proof -
  let ?db2 = "\<lambda>f db1. if agent = [] then db1 else stamp_assignee itemID run f agent db1"
  obtain db1 f where a: "prod_acq cfg tg ts prin run (nullable ini) itemID db = Some (f, db1)" "run \<noteq> []"
      "claim_tail ''coord.ProdClaimer.AcquireSpecific'' cfg flt carrier ts prin run (nullable ini) itemID f db (?db2 f db1) =
        (Inr (Some (item, fence)), db')"
    using assms(1) by (auto simp: AcquireSpecific_def split: if_splits option.splits prod.splits)
  obtain r where r: "claim_row_of db itemID = Some r" "claim_free tg r" "f = pc_fence r + 1"
      "db1 = db\<lparr>pd_claims := pd_claims db1\<rparr>" "wf_prod db1"
      "\<And>j. claim_row_of db1 j = (if j = itemID then
       Some (r\<lparr>pc_holder := Some prin, pc_run := Some run, pc_fence := f,
               pc_lease := Some (ts + PC_LeaseInterval cfg), pc_acquired := Some ts,
               pc_renewed := None, pc_initiated := nullable ini\<rparr>) else claim_row_of db j)"
    using prod_acq_Some [OF a(1) assms(2)] by blast
  have eq1: "pd_items db1 = pd_items db" "pd_audit db1 = pd_audit db" "pd_outbox db1 = pd_outbox db"
      "pd_a2a db1 = pd_a2a db" "pd_comments db1 = pd_comments db"
    by (subst r(4), simp)+
  have wf2: "wf_prod (?db2 f db1)" using r(5) by simp
  have eq: "pd_items (?db2 f db1) = pd_items db" "pd_audit (?db2 f db1) = pd_audit db"
      "pd_outbox (?db2 f db1) = pd_outbox db" "pd_a2a (?db2 f db1) = pd_a2a db" "pd_comments (?db2 f db1) = pd_comments db"
    using eq1 by simp_all
  from claim_tail_granted [OF a(3) r(1,2,3) wf2 eq, of "the (claim_row_of (?db2 f db1) itemID)"] r(3,6) a(2) show ?thesis
    by (auto simp: stamp_assignee_row split: if_splits)
qed

lemma ProdClaimNext_refused:
  "ProdClaimNext cfg flt locked carrier tp tg ts prin run ini db = (res, db') \<Longrightarrow> \<forall>g. res \<noteq> Inr (Some g) \<Longrightarrow> db' = db"
  by (auto simp: ProdClaimNext_def split: if_splits option.splits prod.splits elim: claim_tail_cases)

lemma AcquireSpecific_refused:
  "AcquireSpecific cfg flt carrier tg ts prin run itemID ini agent db = (res, db') \<Longrightarrow> \<forall>g. res \<noteq> Inr (Some g) \<Longrightarrow> db' = db"
  by (auto simp: AcquireSpecific_def split: if_splits option.splits prod.splits elim: claim_tail_cases)

section \<open>Properties\<close>

text \<open>
  A production claim is one fact: a call that reports a grant rewrote exactly the item's
  checkout row (holder, run, lease, and a fence one above the old one), advanced exactly that
  item's lane, appended exactly one claim_acquired audit row under the new fence and, when
  capture is on, exactly one unpublished claimed event with the item's tenancy; a call that
  reports anything else, an error in any statement included, changed nothing.
\<close>

theorem prod_claim_is_one_fact:
  assumes "wf_prod db"
    and "op = ProdClaimNext cfg flt locked carrier tp tg ts prin run ini db \<or>
         op = AcquireSpecific cfg flt carrier tg ts prin run itemID ini agent db"
    and "op = (res, db')"
  shows "(\<forall>item fence. res = Inr (Some (item, fence)) \<longrightarrow> granted_to cfg tg ts prin run item fence db db') \<and>
    ((\<forall>g. res \<noteq> Inr (Some g)) \<longrightarrow> db' = db)"
  using assms(2)
proof
  assume o: "op = ProdClaimNext cfg flt locked carrier tp tg ts prin run ini db"
  show ?thesis
    using o assms(1,3) ProdClaimNext_granted [of cfg flt locked carrier tp tg ts prin run ini db]
      ProdClaimNext_refused [of cfg flt locked carrier tp tg ts prin run ini db res db'] by auto
next
  assume o: "op = AcquireSpecific cfg flt carrier tg ts prin run itemID ini agent db"
  show ?thesis
    using o assms(1,3) AcquireSpecific_granted [of cfg flt carrier tg ts prin run itemID ini agent db]
      AcquireSpecific_refused [of cfg flt carrier tg ts prin run itemID ini agent db res db'] by auto
qed

definition one_todo :: prod_db where
  "one_todo = \<lparr>pd_items = [\<lparr>pw_id = ''i'', pw_state = ''todo'', pw_created = 0, pw_updated = 0, pw_project = ''p'',
       pw_team = Some ''t'', pw_source = None, pw_parent = None, pw_title = ''T'', pw_body = None, pw_created_by = ''u'',
       pw_priority = None, pw_work_mode = None, pw_labels = [], pw_requested = None, pw_blocked = None\<rparr>],
     pd_claims = [\<lparr>pc_item = ''i'', pc_holder = None, pc_run = None, pc_fence = 0, pc_lease = None, pc_acquired = None,
       pc_renewed = None, pc_initiated = None, pc_reclaim_fenced = None, pc_step = StepPending, pc_assignee = None\<rparr>],
     pd_audit = [], pd_outbox = [], pd_seq = 1, pd_a2a = [], pd_comments = [], pd_sandboxes = [], pd_changes = [], pd_artifacts = [], pd_dispatch = []\<rparr>"

lemma wf_one_todo: "wf_prod one_todo"
  by (simp add: wf_prod_def wf_table_def one_todo_def)

lemma one_todo_claimed:
  "fst (ProdClaimNext DefaultProdConfig (\<lambda>_. False) {} None 1 1 1 ''a'' ''r'' [] one_todo) = Inr (Some (''i'', 1))"
  by (simp add: ProdClaimNext_def prod_pick_def one_todo_def DefaultProdConfig_def row_key_def sql_row_def
      claim_free_def prod_acq_def claim_tail_def prod_mark_def aff_key_def sql_affected_def lane_ok_def captureClaim_def)

theorem prod_claim_is_one_fact_witness:
  "granted_to DefaultProdConfig 1 1 ''a'' ''r'' ''i'' 1 one_todo
     (snd (ProdClaimNext DefaultProdConfig (\<lambda>_. False) {} None 1 1 1 ''a'' ''r'' [] one_todo))"
proof -
  let ?op = "ProdClaimNext DefaultProdConfig (\<lambda>_. False) {} None 1 1 1 ''a'' ''r'' [] one_todo"
  have "?op = (Inr (Some (''i'', 1)), snd ?op)" using one_todo_claimed by (metis prod.collapse)
  from prod_claim_is_one_fact [OF wf_one_todo, of ?op DefaultProdConfig "\<lambda>_. False" "{}" None 1 1 1 "''a''" "''r''" "[]",
      OF disjI1 [OF refl] this]
  show ?thesis by blast
qed

lemma not_free: "pc_holder r = Some p \<Longrightarrow> pc_lease r = Some l \<Longrightarrow> tg \<le> l \<Longrightarrow> \<not> claim_free tg r"
  by (simp add: claim_free_def)

text \<open>
  Single claim: while a holder's lease has not lapsed at the instant a statement runs,
  neither the queue pull nor the acquire of that item by anyone grants it, and what they do
  grant leaves that holder's checkout row untouched.
\<close>

theorem prod_live_lease_excludes:
  assumes "wf_prod db" and "claim_row_of db item = Some r" and "pc_holder r = Some p" and "pc_lease r = Some l"
    and "tg \<le> l"
  shows "(\<forall>fence. fst (ProdClaimNext cfg flt locked carrier tp tg ts prin run ini db) \<noteq> Inr (Some (item, fence))) \<and>
    (\<forall>g. fst (AcquireSpecific cfg flt carrier tg ts prin run item ini agent db) \<noteq> Inr (Some g)) \<and>
    claim_row_of (snd (ProdClaimNext cfg flt locked carrier tp tg ts prin run ini db)) item = Some r \<and>
    claim_row_of (snd (AcquireSpecific cfg flt carrier tg ts prin run item ini agent db)) item = Some r"
proof -
  have nf: "\<not> claim_free tg r" using not_free assms(3-5) .
  let ?n = "ProdClaimNext cfg flt locked carrier tp tg ts prin run ini db"
  let ?a = "AcquireSpecific cfg flt carrier tg ts prin run item ini agent db"
  have ng: "\<not> granted_to cfg tg ts prin run item fence db db'" for fence db'
    using assms(2) nf by (simp add: granted_to_def)
  have n: "fst ?n \<noteq> Inr (Some (item, fence))" for fence
  proof
    assume "fst ?n = Inr (Some (item, fence))"
    then have "?n = (Inr (Some (item, fence)), snd ?n)" by (simp add: prod_eq_iff)
    from ProdClaimNext_granted [OF this assms(1)] ng show False by blast
  qed
  have a: "fst ?a \<noteq> Inr (Some g)" for g
  proof
    assume "fst ?a = Inr (Some g)"
    then have "?a = (Inr (Some (fst g, snd g)), snd ?a)" by (simp add: prod_eq_iff)
    from AcquireSpecific_granted [OF this assms(1)] ng show False by blast
  qed
  have "claim_row_of (snd ?a) item = Some r"
    using AcquireSpecific_refused [of cfg flt carrier tg ts prin run item ini agent db "fst ?a" "snd ?a"] a assms(2) by simp
  moreover have "claim_row_of (snd ?n) item = Some r"
  proof (cases "\<exists>j f. fst ?n = Inr (Some (j, f))")
    case True
    then obtain j f where jf: "fst ?n = Inr (Some (j, f))" by blast
    then have "j \<noteq> item" using n by blast
    moreover have "?n = (Inr (Some (j, f)), snd ?n)" using jf by (simp add: prod_eq_iff)
    then have "granted_to cfg tg ts prin run j f db (snd ?n)"
      using ProdClaimNext_granted [OF _ assms(1)] by blast
    ultimately show ?thesis using assms(2) by (auto simp: granted_to_def)
  next
    case False
    then have "snd ?n = db"
      using ProdClaimNext_refused [of cfg flt locked carrier tp tg ts prin run ini db "fst ?n" "snd ?n"] by auto
    then show ?thesis using assms(2) by simp
  qed
  ultimately show ?thesis using n a by blast
qed

definition one_held :: prod_db where
  "one_held = snd (ProdClaimNext DefaultProdConfig (\<lambda>_. False) {} None 1 1 1 ''a'' ''r'' [] one_todo)"

lemma one_held_simps:
  "wf_prod one_held"
  "claim_row_of one_held ''i'' = Some \<lparr>pc_item = ''i'', pc_holder = Some ''a'', pc_run = Some ''r'', pc_fence = 1,
     pc_lease = Some 30000000001, pc_acquired = Some 1, pc_renewed = None, pc_initiated = None,
     pc_reclaim_fenced = None, pc_step = StepPending, pc_assignee = None\<rparr>"
proof -
  have eq: "ProdClaimNext DefaultProdConfig (\<lambda>_. False) {} None 1 1 1 ''a'' ''r'' [] one_todo = (Inr (Some (''i'', 1)), one_held)"
    using one_todo_claimed unfolding one_held_def by (metis prod.collapse)
  then show "wf_prod one_held" using ProdClaimNext_granted wf_one_todo by blast
  show "claim_row_of one_held ''i'' = Some \<lparr>pc_item = ''i'', pc_holder = Some ''a'', pc_run = Some ''r'', pc_fence = 1,
     pc_lease = Some 30000000001, pc_acquired = Some 1, pc_renewed = None, pc_initiated = None,
     pc_reclaim_fenced = None, pc_step = StepPending, pc_assignee = None\<rparr>"
    by (simp add: one_held_def ProdClaimNext_def prod_pick_def one_todo_def DefaultProdConfig_def row_key_def sql_row_def
      claim_free_def prod_acq_def claim_tail_def prod_mark_def aff_key_def sql_affected_def lane_ok_def captureClaim_def
      nullable_def)
qed

theorem prod_live_lease_excludes_witness:
  "fst (AcquireSpecific DefaultProdConfig (\<lambda>_. False) None 5 5 ''b'' ''q'' ''i'' [] [] one_held) \<noteq> Inr (Some (''i'', 2))"
  using prod_live_lease_excludes [OF one_held_simps, of "''a''" 30000000001 5] by simp

lemma ProdRenew_stale:
  assumes "wf_prod db" and "\<not> (\<exists>r. claim_row_of db item = Some r \<and> pc_run r = Some run \<and> pc_fence r = fence)"
  shows "ProdRenew cfg flt tg ts item prin run fence db = (if flt ''renew'' then None else Some False, db)"
proof -
  let ?G = "renewable tg prin run fence item db"
  have "aff_key pc_item item ?G (pd_claims db) = 0"
    using assms by (auto simp: aff_key_wf [OF wf_prodD(1)] renewable_def split: option.splits)
  moreover have "upd_key pc_item item ?G f (pd_claims db) = pd_claims db" for f
    using assms by (cases "claim_row_of db item")
      (auto simp: upd_key_id renewable_def intro!: upd_key_no_guard [OF wf_prodD(1)])
  ultimately show ?thesis by (simp add: ProdRenew_def)
qed

text \<open>
  The heartbeat never revives a lost lease: once the checkout row carries another fence
  or another run (and no process lowers it back), the driver's next successful statement
  reports the loss on its channel and the whole heartbeat loop writes nothing.
\<close>

theorem heartbeat_stops_on_lost_lease:
  assumes "wf_prod (env db)" and "\<not> flt ''renew''"
    and "\<not> (\<exists>r. claim_row_of (env db) item = Some r \<and> pc_run r = Some run \<and> pc_fence r = fence)"
  shows "RunHeartbeater cfg item prin run fence (HbTick env flt tg ts # evs) db = (Some False, env db)"
  using ProdRenew_stale [OF assms(1,3)] assms(2) by simp

theorem heartbeat_stops_on_lost_lease_witness:
  "RunHeartbeater DefaultProdConfig ''i'' ''a'' ''r'' 0 [HbTick (\<lambda>d. d) (\<lambda>_. False) 5 5, HbDone] one_held = (Some False, one_held)"
proof (rule heartbeat_stops_on_lost_lease)
  show "\<not> (\<exists>r. claim_row_of one_held ''i'' = Some r \<and> pc_run r = Some ''r'' \<and> pc_fence r = 0)"
    using one_held_simps(2) by simp
qed (use one_held_simps(1) in simp_all)

end
