(* ===== verification/Prod_Reconcile.thy ===== *)
theory Prod_Reconcile
  imports Prod_Claim Mem_Store
begin

text \<open>
  The Postgres binding of the reconcile store (pkg/coord/prodreconcile.go) and the follow
  settlement it may be gated on (pkg/coord/a2asettle.go). The store of one Run is a binding
  (the identifiers it stamps) over the shared database plus the first error it captured; the
  environment says, for the n-th call, which statements fail and what the clock reads. The
  binding meets the store contract of the machine, and where no statement fails it is
  simulated by the in-memory store.
\<close>

section \<open>Follow settlement\<close>

definition SettleOutcomeSucceeded :: string where "SettleOutcomeSucceeded = ''succeeded''"
definition SettleOutcomeFailed :: string where "SettleOutcomeFailed = ''failed''"
definition SettleOutcomeFollowError :: string where "SettleOutcomeFollowError = ''follow_error''"

definition A2AFollowGateOpen :: "bool \<Rightarrow> bool \<Rightarrow> string \<Rightarrow> bool" where
  "A2AFollowGateOpen dispatched settled outcome =
     (if \<not> dispatched then True else settled \<and> outcome = SettleOutcomeSucceeded)"

text \<open>The parser of uuids is a third-party package: \<open>isUuid\<close> says what it accepts.\<close>

definition latest_lap :: "string \<Rightarrow> a2a_row list \<Rightarrow> a2a_row option" where
  "latest_lap runID t =
     (case rev (sort_key da_dispatched (sort_key da_task (filter (\<lambda>r. da_run r = runID) t))) of
        [] \<Rightarrow> None | r # _ \<Rightarrow> Some r)"

definition latestLapSettlement ::
  "(string \<Rightarrow> bool) \<Rightarrow> dbfaults \<Rightarrow> string \<Rightarrow> prod_db \<Rightarrow> string + bool \<times> bool \<times> string" where
  "latestLapSettlement isUuid flt runID db =
     (if runID = [] then Inr (False, False, [])
      else if \<not> isUuid runID then Inr (False, False, [])
      else if flt ''latestLapSettlement'' then Inl ''coord.latestLapSettlement: query run''
      else case latest_lap runID (pd_a2a db) of
        None \<Rightarrow> Inr (False, False, [])
      | Some r \<Rightarrow> Inr (True, da_settled r \<noteq> None, coalesce (da_outcome r)))"

definition settleFailureComment :: "string \<Rightarrow> string \<Rightarrow> string \<Rightarrow> string" where
  "settleFailureComment reason a2aTaskID agent =
     ''Run failed: '' @ reason @ '' (a2a task '' @ a2aTaskID @ '')'' @
     (if agent = [] then [] else '' '' @ em_dash @ '' agent '' @ agent)"

definition Settle ::
  "dbfaults \<Rightarrow> instant \<Rightarrow> string \<Rightarrow> string \<Rightarrow> string \<Rightarrow> string \<Rightarrow> string \<Rightarrow> prod_db \<Rightarrow> string option \<times> prod_db" where
  "Settle flt now prin a2aTaskID runID outcome reason db =
     (if outcome \<notin> {SettleOutcomeSucceeded, SettleOutcomeFailed, SettleOutcomeFollowError}
      then (Some ''coord.ProdSettler.Settle: invalid outcome'', db)
      else if flt ''begin'' then (Some ''coord.ProdSettler.Settle: begin'', db)
      else if flt ''mark'' then (Some ''coord.ProdSettler.Settle: mark'', db)
      else case row_key da_task a2aTaskID (\<lambda>r. da_settled r = None) (pd_a2a db) of
        None \<Rightarrow> (None, db)
      | Some row \<Rightarrow>
          let item = da_item row;
              db1 = db\<lparr>pd_a2a := upd_key da_task a2aTaskID (\<lambda>r. da_settled r = None)
                         (\<lambda>r. r\<lparr>da_settled := Some now, da_outcome := Some outcome\<rparr>) (pd_a2a db)\<rparr>;
              db2 = insert_audit \<lparr>au_item = item, au_run = Some runID, au_event = ''a2a_settled'',
                      au_principal = prin, au_initiated = None, au_fence = None, au_from = None,
                      au_to = Some outcome, au_payload = [], au_created = now\<rparr> db1;
              agent = (case claim_row_of db1 item of None \<Rightarrow> [] | Some c \<Rightarrow> coalesce (pc_assignee c));
              post = (outcome = SettleOutcomeFailed \<and> reason \<noteq> []);
              db3 = (if post then insert_comment \<lparr>cm_item = item, cm_author = prin,
                        cm_body = settleFailureComment reason a2aTaskID agent, cm_kind = None, cm_run = None,
                        cm_payload = None, cm_at = now\<rparr> db2
                     else db2)
          in if flt ''audit'' then (Some ''coord.ProdSettler.Settle: audit'', db)
             else if post \<and> flt ''read assignee'' then (Some ''coord.ProdSettler.Settle: read assignee'', db)
             else if post \<and> flt ''failure comment'' then (Some ''coord.ProdSettler.Settle: failure comment'', db)
             else if flt ''commit'' then (Some ''coord.ProdSettler.Settle: commit'', db)
             else (None, db3))"

definition Settled :: "string \<Rightarrow> prod_db \<Rightarrow> bool" where
  "Settled runID db \<longleftrightarrow> list_ex (\<lambda>r. da_run r = runID \<and> da_settled r \<noteq> None) (pd_a2a db)"

definition SettledForWorkItem :: "(string \<Rightarrow> bool) \<Rightarrow> dbfaults \<Rightarrow> string \<Rightarrow> prod_db \<Rightarrow> string + bool \<times> bool" where
  "SettledForWorkItem isUuid flt workItemID db =
     (if workItemID = [] then Inr (False, False)
      else if \<not> isUuid workItemID then Inr (False, False)
      else if flt ''SettledForWorkItem'' then Inl ''coord.ProdSettleReader.SettledForWorkItem''
      else Inr (sql_affected (\<lambda>r. da_item r = workItemID) (pd_a2a db) > 0,
                list_ex (\<lambda>r. da_item r = workItemID \<and> da_settled r \<noteq> None) (pd_a2a db)))"

section \<open>The store of one Run\<close>

record ProdReconcileStore =
  rs_workItemID :: string
  rs_runID :: string
  rs_principal :: string
  rs_initiatedBy :: string
  rs_traceID :: string
  rs_a2aFollowGate :: bool
  rs_carrier :: "json option"
  rs_isUuid :: "string \<Rightarrow> bool"

definition NewProdReconcileStore ::
  "bool \<Rightarrow> (string \<Rightarrow> bool) \<Rightarrow> json option \<Rightarrow> string \<Rightarrow> string \<Rightarrow> string \<Rightarrow> string \<Rightarrow> string + ProdReconcileStore" where
  "NewProdReconcileStore nil_db isUuid carrier workItemID runID prin initiatedBy =
     (if nil_db then Inl ''coord.NewProdReconcileStore: nil db''
      else if workItemID = [] \<or> runID = [] \<or> prin = []
        then Inl ''coord.NewProdReconcileStore: workItemID, runID and principal are required''
      else Inr \<lparr>rs_workItemID = workItemID, rs_runID = runID, rs_principal = prin, rs_initiatedBy = initiatedBy,
                rs_traceID = [], rs_a2aFollowGate = False, rs_carrier = carrier, rs_isUuid = isUuid\<rparr>)"

definition WithTraceID :: "string \<Rightarrow> ProdReconcileStore \<Rightarrow> ProdReconcileStore" where
  "WithTraceID traceID B = B\<lparr>rs_traceID := traceID\<rparr>"

definition WithA2AFollowGate :: "bool \<Rightarrow> ProdReconcileStore \<Rightarrow> ProdReconcileStore" where
  "WithA2AFollowGate enabled B = B\<lparr>rs_a2aFollowGate := enabled\<rparr>"

record prod_state =
  st_db :: prod_db
  st_err :: "string option"
  st_calls :: nat

type_synonym store_env = "nat \<Rightarrow> dbfaults \<times> instant"

definition store_fail :: "string \<Rightarrow> prod_state \<Rightarrow> prod_state" where
  "store_fail e s = (if st_err s = None then s\<lparr>st_err := Some e\<rparr> else s)"

definition store_tick :: "prod_state \<Rightarrow> prod_state" where
  "store_tick s = s\<lparr>st_calls := Suc (st_calls s)\<rparr>"

definition ProdStore_Step :: "ProdReconcileStore \<Rightarrow> store_env \<Rightarrow> prod_state \<Rightarrow> Step \<times> prod_state" where
  "ProdStore_Step B env s =
     (case claim_row_of (st_db s) (rs_workItemID B) of
        Some r \<Rightarrow>
          if fst (env (st_calls s)) ''step'' then (noStep, store_fail ''coord.ProdReconcileStore.Step'' (store_tick s))
          else (pc_step r, store_tick s)
      | None \<Rightarrow> (noStep, store_fail ''coord.ProdReconcileStore.Step'' (store_tick s)))"

definition ProdStore_Fence :: "ProdReconcileStore \<Rightarrow> store_env \<Rightarrow> prod_state \<Rightarrow> int \<times> prod_state" where
  "ProdStore_Fence B env s =
     (case claim_row_of (st_db s) (rs_workItemID B) of
        Some r \<Rightarrow>
          if fst (env (st_calls s)) ''fence'' then (0, store_fail ''coord.ProdReconcileStore.Fence'' (store_tick s))
          else (pc_fence r, store_tick s)
      | None \<Rightarrow> (0, store_fail ''coord.ProdReconcileStore.Fence'' (store_tick s)))"

definition null_str :: "string \<Rightarrow> jval" where
  "null_str s = (if s = [] then JNull else JStr s)"

definition advanced_payload :: "ProdReconcileStore \<Rightarrow> Step \<Rightarrow> Step \<Rightarrow> int \<Rightarrow> json" where
  "advanced_payload B expected nx fence =
     [(''from_step'', JStr (step_name expected)), (''to_step'', JStr (step_name nx)),
      (''fence_token'', JInt fence), (''run_id'', JStr (rs_runID B)), (''trace_id'', null_str (rs_traceID B))]"

definition opt_str :: "string option \<Rightarrow> jval" where
  "opt_str s = (case s of None \<Rightarrow> JNull | Some x \<Rightarrow> JStr x)"

definition lifecycle_payload ::
  "ProdReconcileStore \<Rightarrow> LifecycleEvent \<Rightarrow> Step \<Rightarrow> Step \<Rightarrow> int \<Rightarrow> prod_item \<Rightarrow> prod_claim \<Rightarrow> string option \<Rightarrow> json" where
  "lifecycle_payload B ev expected nx fence w c sandbox =
     [(''schema'', JStr ''ksquad.lifecycle.v1''),
      (''event'', JStr (Entity ev @ ''.'' @ EventType ev)),
      (''from_step'', JStr (step_name expected)), (''to_step'', JStr (step_name nx)),
      (''fence_token'', JInt fence), (''run_id'', JStr (rs_runID B)), (''ticket'', JStr (pw_id w)),
      (''work_item_id'', JStr (pw_id w)), (''project'', JStr (pw_project w)), (''team'', opt_str (pw_team w)),
      (''agent'', opt_str (pc_assignee c)), (''sandbox'', null_str (coalesce sandbox)),
      (''trace_id'', null_str (rs_traceID B))]"

text \<open>One lifecycle row: an \<open>INSERT .. SELECT\<close> over the item joined with its claim.\<close>

definition insert_lifecycle ::
  "ProdReconcileStore \<Rightarrow> Step \<Rightarrow> Step \<Rightarrow> int \<Rightarrow> LifecycleEvent \<Rightarrow> prod_db \<Rightarrow> prod_db" where
  "insert_lifecycle B expected nx fence ev db =
     (case (item_row_of db (rs_workItemID B), claim_row_of db (rs_workItemID B)) of
        (Some w, Some c) \<Rightarrow>
          outbox_for_item (Entity ev) (EventType ev) (rs_workItemID B) (Some (rs_runID B))
            (lifecycle_payload B ev expected nx fence w c (map_option bx_ref (lookup_by bx_run (rs_runID B) (pd_sandboxes db))))
            (rs_carrier B) db
      | _ \<Rightarrow> db)"

definition advance_audit :: "ProdReconcileStore \<Rightarrow> instant \<Rightarrow> Step \<Rightarrow> Step \<Rightarrow> int \<Rightarrow> audit_row" where
  "advance_audit B now expected nx fence =
     \<lparr>au_item = rs_workItemID B, au_run = Some (rs_runID B), au_event = ''reconcile_advanced'',
      au_principal = rs_principal B, au_initiated = nullable (rs_initiatedBy B), au_fence = Some fence,
      au_from = Some (step_name expected), au_to = Some (step_name nx), au_payload = [], au_created = now\<rparr>"

definition advance_guard :: "Step \<Rightarrow> int option \<Rightarrow> prod_claim \<Rightarrow> bool" where
  "advance_guard expected fence r \<longleftrightarrow>
     pc_step r = expected \<and> (case fence of None \<Rightarrow> True | Some f \<Rightarrow> pc_fence r = f)"

definition advance_tx ::
  "ProdReconcileStore \<Rightarrow> dbfaults \<Rightarrow> instant \<Rightarrow> Step \<Rightarrow> Step \<Rightarrow> int option \<Rightarrow> prod_db \<Rightarrow> (string option \<times> bool) \<times> prod_db" where
  "advance_tx B flt now expected nx fence db =
     (if flt ''begin'' then ((Some ''coord.ProdReconcileStore.Advance: begin'', False), db)
      else if flt ''update'' then ((Some ''coord.ProdReconcileStore.Advance: update'', False), db)
      else case row_key pc_item (rs_workItemID B) (advance_guard expected fence) (pd_claims db) of
        None \<Rightarrow> ((None, False), db)
      | Some r \<Rightarrow>
          let db1 = db\<lparr>pd_claims := upd_key pc_item (rs_workItemID B) (advance_guard expected fence)
                         (\<lambda>r. r\<lparr>pc_step := nx\<rparr>) (pd_claims db)\<rparr>;
              db2 = insert_audit (advance_audit B now expected nx (pc_fence r)) db1;
              db3 = outbox_for_item ''run'' ''reconcile_advanced'' (rs_workItemID B) (Some (rs_runID B))
                      (advanced_payload B expected nx (pc_fence r)) (rs_carrier B) db2;
              evs = LifecycleEventsFor expected nx;
              db4 = fold (insert_lifecycle B expected nx (pc_fence r)) evs db3
          in if flt ''audit'' then ((Some ''coord.ProdReconcileStore.Advance: audit'', False), db)
             else if flt ''outbox'' then ((Some ''coord.ProdReconcileStore.Advance: outbox'', False), db)
             else if evs \<noteq> [] \<and> flt ''lifecycle'' then ((Some ''coord.ProdReconcileStore.Advance: lifecycle'', False), db)
             else if flt ''commit'' then ((Some ''coord.ProdReconcileStore.Advance: commit'', False), db)
             else ((None, True), db4))"

definition gate_holds :: "ProdReconcileStore \<Rightarrow> Step \<Rightarrow> Step \<Rightarrow> bool" where
  "gate_holds B expected nx \<longleftrightarrow> rs_a2aFollowGate B \<and> expected = StepCollecting \<and> nx = StepSucceeded"

definition ProdStore_Advance ::
  "ProdReconcileStore \<Rightarrow> store_env \<Rightarrow> Step \<Rightarrow> Step \<Rightarrow> int option \<Rightarrow> prod_state \<Rightarrow> bool \<times> prod_state" where
  "ProdStore_Advance B env expected nx fence s =
     (case env (st_calls s) of (flt, now) \<Rightarrow>
        let s0 = store_tick s;
            gate = (if gate_holds B expected nx
                    then (case latestLapSettlement (rs_isUuid B) flt (rs_runID B) (st_db s) of
                            Inl e \<Rightarrow> Some (Some (''coord.ProdReconcileStore.Advance: follow-settlement gate: '' @ e))
                          | Inr (dispatched, settled, outcome) \<Rightarrow>
                              if A2AFollowGateOpen dispatched settled outcome then None else Some None)
                    else None)
        in case gate of
             Some (Some e) \<Rightarrow> (False, store_fail e s0)
           | Some None \<Rightarrow> (False, s0)
           | None \<Rightarrow>
               (case advance_tx B flt now expected nx fence (st_db s) of
                  ((Some e, ok), db') \<Rightarrow> (False, store_fail e s0)
                | ((None, ok), db') \<Rightarrow> (ok, s0\<lparr>st_db := db'\<rparr>)))"

definition ProdStore_Reclaim :: "ProdReconcileStore \<Rightarrow> store_env \<Rightarrow> int \<Rightarrow> prod_state \<Rightarrow> bool \<times> prod_state" where
  "ProdStore_Reclaim B env newFence s =
     (case env (st_calls s) of (flt, now) \<Rightarrow>
        if flt ''reclaim'' then (False, store_fail ''coord.ProdReconcileStore.Reclaim'' (store_tick s))
        else (aff_key pc_item (rs_workItemID B) (\<lambda>r. pc_fence r < newFence) (pd_claims (st_db s)) = 1,
              (store_tick s)\<lparr>st_db := (st_db s)\<lparr>pd_claims :=
                 upd_key pc_item (rs_workItemID B) (\<lambda>r. pc_fence r < newFence)
                   (\<lambda>r. r\<lparr>pc_fence := newFence, pc_reclaim_fenced := Some now\<rparr>) (pd_claims (st_db s))\<rparr>\<rparr>))"

definition ProdStore_SetStep :: "ProdReconcileStore \<Rightarrow> store_env \<Rightarrow> Step \<Rightarrow> prod_state \<Rightarrow> prod_state" where
  "ProdStore_SetStep B env step s =
     (if fst (env (st_calls s)) ''setstep'' then store_fail ''coord.ProdReconcileStore.SetStep'' (store_tick s)
      else (store_tick s)\<lparr>st_db := (st_db s)\<lparr>pd_claims :=
             upd_key pc_item (rs_workItemID B) (\<lambda>_. True) (\<lambda>r. r\<lparr>pc_step := step\<rparr>) (pd_claims (st_db s))\<rparr>\<rparr>)"

definition audit_count :: "string \<Rightarrow> prod_db \<Rightarrow> nat" where
  "audit_count item db = sql_affected (\<lambda>a. au_item a = item \<and> au_event a = ''reconcile_advanced'') (pd_audit db)"

definition outbox_count :: "string \<Rightarrow> prod_db \<Rightarrow> nat" where
  "outbox_count item db = sql_affected (\<lambda>r. ob_item r = Some item \<and> ob_event r = ''reconcile_advanced'') (pd_outbox db)"

definition ProdStore_AuditRows :: "ProdReconcileStore \<Rightarrow> store_env \<Rightarrow> prod_state \<Rightarrow> nat \<times> prod_state" where
  "ProdStore_AuditRows B env s =
     (if fst (env (st_calls s)) ''auditrows'' then (0, store_fail ''coord.ProdReconcileStore.AuditRows'' (store_tick s))
      else (audit_count (rs_workItemID B) (st_db s), store_tick s))"

definition ProdStore_OutboxRows :: "ProdReconcileStore \<Rightarrow> store_env \<Rightarrow> prod_state \<Rightarrow> nat \<times> prod_state" where
  "ProdStore_OutboxRows B env s =
     (if fst (env (st_calls s)) ''outboxrows'' then (0, store_fail ''coord.ProdReconcileStore.OutboxRows'' (store_tick s))
      else (outbox_count (rs_workItemID B) (st_db s), store_tick s))"

definition prodStore :: "ProdReconcileStore \<Rightarrow> store_env \<Rightarrow> prod_state Store" where
  "prodStore B env =
     \<lparr>Store_Step = ProdStore_Step B env,
      Store_Fence = ProdStore_Fence B env,
      Store_Advance = ProdStore_Advance B env,
      Store_Reclaim = ProdStore_Reclaim B env,
      Store_SetStep = ProdStore_SetStep B env,
      Store_AuditRows = ProdStore_AuditRows B env,
      Store_OutboxRows = ProdStore_OutboxRows B env\<rparr>"

section \<open>The binding meets the store contract\<close>

definition run_inv :: "ProdReconcileStore \<Rightarrow> prod_state \<Rightarrow> bool" where
  "run_inv B s \<longleftrightarrow> wf_prod (st_db s) \<and> claim_row_of (st_db s) (rs_workItemID B) \<noteq> None \<and>
     item_row_of (st_db s) (rs_workItemID B) \<noteq> None"

definition run_step :: "ProdReconcileStore \<Rightarrow> prod_state \<Rightarrow> Step" where
  "run_step B s = (case claim_row_of (st_db s) (rs_workItemID B) of Some r \<Rightarrow> pc_step r | None \<Rightarrow> noStep)"

definition run_fence :: "ProdReconcileStore \<Rightarrow> prod_state \<Rightarrow> int" where
  "run_fence B s = prod_fence (st_db s) (rs_workItemID B)"

definition run_audit :: "ProdReconcileStore \<Rightarrow> prod_state \<Rightarrow> nat" where
  "run_audit B s = audit_count (rs_workItemID B) (st_db s)"

definition run_outbox :: "ProdReconcileStore \<Rightarrow> prod_state \<Rightarrow> nat" where
  "run_outbox B s = outbox_count (rs_workItemID B) (st_db s)"

lemmas run_defs = run_inv_def run_step_def run_fence_def run_audit_def run_outbox_def

lemma store_frame [simp]:
  "st_db (store_fail e s) = st_db s" "st_db (store_tick s) = st_db s"
  by (simp_all add: store_fail_def store_tick_def)

lemma LifecycleEventsFor_not_advanced:
  "ev \<in> set (LifecycleEventsFor a b) \<Longrightarrow> EventType ev \<noteq> ''reconcile_advanced''"
  by (auto simp: LifecycleEventsFor_def split: if_splits)

lemma outbox_count_for_item:
  assumes "item_row_of db item \<noteq> None"
  shows "outbox_count item (outbox_for_item entity ev item run p c db) =
    (if ev = ''reconcile_advanced'' then Suc (outbox_count item db) else outbox_count item db)"
proof -
  obtain w where w: "item_row_of db item = Some w" using assms by blast
  moreover have "pw_id w = item" using lookup_by_Some [OF w] by simp
  ultimately show ?thesis by (simp add: outbox_for_item_def outbox_count_def sql_affected_def)
qed

lemma insert_lifecycle_frame [simp]:
  "pd_items (insert_lifecycle B a b f ev db) = pd_items db"
  "pd_claims (insert_lifecycle B a b f ev db) = pd_claims db"
  "pd_audit (insert_lifecycle B a b f ev db) = pd_audit db"
  "pd_a2a (insert_lifecycle B a b f ev db) = pd_a2a db"
  "wf_prod db \<Longrightarrow> wf_prod (insert_lifecycle B a b f ev db)"
  by (simp_all add: insert_lifecycle_def split: option.splits)

lemma insert_lifecycle_count:
  assumes "EventType ev \<noteq> ''reconcile_advanced''"
  shows "outbox_count (rs_workItemID B) (insert_lifecycle B a b f ev db) = outbox_count (rs_workItemID B) db"
  using assms by (auto simp: insert_lifecycle_def outbox_count_for_item split: option.splits)

lemma fold_lifecycle:
  assumes "\<forall>ev \<in> set evs. EventType ev \<noteq> ''reconcile_advanced''" and "wf_prod db"
  shows "pd_items (fold (insert_lifecycle B a b f) evs db) = pd_items db \<and>
    pd_claims (fold (insert_lifecycle B a b f) evs db) = pd_claims db \<and>
    pd_audit (fold (insert_lifecycle B a b f) evs db) = pd_audit db \<and>
    pd_a2a (fold (insert_lifecycle B a b f) evs db) = pd_a2a db \<and>
    outbox_count (rs_workItemID B) (fold (insert_lifecycle B a b f) evs db) = outbox_count (rs_workItemID B) db \<and>
    wf_prod (fold (insert_lifecycle B a b f) evs db)"
  using assms
proof (induction evs arbitrary: db)
  case (Cons ev evs)
  then have "EventType ev \<noteq> ''reconcile_advanced''" by simp
  from insert_lifecycle_count [OF this] Cons.IH [of "insert_lifecycle B a b f ev db"] Cons.prems show ?case by simp
qed simp

lemma advance_tx_True:
  assumes "advance_tx B flt now a b f db = ((None, True), db')" and "wf_prod db"
    and "claim_row_of db (rs_workItemID B) = Some r" and "item_row_of db (rs_workItemID B) \<noteq> None"
  shows "advance_guard a f r \<and> wf_prod db' \<and> pd_items db' = pd_items db \<and> pd_a2a db' = pd_a2a db \<and>
    (\<forall>j. claim_row_of db' j = (if j = rs_workItemID B then Some (r\<lparr>pc_step := b\<rparr>) else claim_row_of db j)) \<and>
    pd_audit db' = pd_audit db @ [advance_audit B now a b (pc_fence r)] \<and>
    outbox_count (rs_workItemID B) db' = Suc (outbox_count (rs_workItemID B) db)"
proof -
  let ?item = "rs_workItemID B"
  let ?db1 = "db\<lparr>pd_claims := upd_key pc_item ?item (advance_guard a f) (\<lambda>r. r\<lparr>pc_step := b\<rparr>) (pd_claims db)\<rparr>"
  let ?db2 = "insert_audit (advance_audit B now a b (pc_fence r)) ?db1"
  let ?db3 = "outbox_for_item ''run'' ''reconcile_advanced'' ?item (Some (rs_runID B))
    (advanced_payload B a b (pc_fence r)) (rs_carrier B) ?db2"
  let ?db4 = "fold (insert_lifecycle B a b (pc_fence r)) (LifecycleEventsFor a b) ?db3"
  have g: "advance_guard a f r" and db': "db' = ?db4"
    using assms(1,3) by (auto simp: advance_tx_def row_key_wf [OF wf_prodD(1) [OF assms(2)]] Let_def
        split: if_splits option.splits)
  have wf3: "wf_prod ?db3" using assms(2) by simp
  have c2: "outbox_count ?item ?db2 = outbox_count ?item db" by (simp add: outbox_count_def)
  have "item_row_of ?db2 ?item \<noteq> None" using assms(4) by simp
  then have c3: "outbox_count ?item ?db3 = Suc (outbox_count ?item db)"
    by (simp only: outbox_count_for_item if_True c2 simp_thms)
  from fold_lifecycle [OF _ wf3, of "LifecycleEventsFor a b" B a b "pc_fence r"] LifecycleEventsFor_not_advanced
  have f4: "pd_items ?db4 = pd_items ?db3 \<and> pd_claims ?db4 = pd_claims ?db3 \<and> pd_audit ?db4 = pd_audit ?db3 \<and>
      pd_a2a ?db4 = pd_a2a ?db3 \<and> outbox_count ?item ?db4 = outbox_count ?item ?db3 \<and> wf_prod ?db4"
    by blast
  show ?thesis unfolding db' using g f4 c3 assms(3) by simp
qed

lemma advance_tx_False:
  "advance_tx B flt now a b f db = ((e, ok), db') \<Longrightarrow> e \<noteq> None \<or> \<not> ok \<Longrightarrow> db' = db \<and> \<not> ok"
  by (auto simp: advance_tx_def Let_def split: if_splits option.splits)

lemma ProdStore_Advance_cases:
  assumes "ProdStore_Advance B env a b f s = (ok, s')"
  obtains (rejected) "\<not> ok" "st_db s' = st_db s"
  | (committed) "ok" "advance_tx B (fst (env (st_calls s))) (snd (env (st_calls s))) a b f (st_db s) = ((None, True), st_db s')"
      "gate_holds B a b \<Longrightarrow> \<exists>d se oc. latestLapSettlement (rs_isUuid B) (fst (env (st_calls s))) (rs_runID B) (st_db s)
          = Inr (d, se, oc) \<and> A2AFollowGateOpen d se oc"
proof -
  obtain flt now where e: "env (st_calls s) = (flt, now)" by fastforce
  obtain er ok' db' where t: "advance_tx B flt now a b f (st_db s) = ((er, ok'), db')" by (metis prod.exhaust)
  show thesis
  proof (cases ok)
    case False
    with assms e t have "st_db s' = st_db s"
      using advance_tx_False [OF t]
      by (auto simp: ProdStore_Advance_def Let_def split: if_splits option.splits sum.splits prod.splits)
    with False show ?thesis by (rule rejected)
  next
    case True
    have "er = None \<and> ok' \<and> db' = st_db s'"
      using assms e t True
      by (auto simp: ProdStore_Advance_def Let_def split: if_splits option.splits sum.splits prod.splits)
    moreover have "gate_holds B a b \<Longrightarrow> \<exists>d se oc. latestLapSettlement (rs_isUuid B) flt (rs_runID B) (st_db s)
          = Inr (d, se, oc) \<and> A2AFollowGateOpen d se oc"
      using assms e t True
      by (auto simp: ProdStore_Advance_def Let_def split: if_splits option.splits sum.splits prod.splits)
    ultimately show ?thesis using True e t by (intro committed) auto
  qed
qed

text \<open>An advance under a fence that is not the row's current one commits nothing.\<close>

lemma stale_advance_refused:
  assumes "wf_prod (st_db s)" and "prod_fence (st_db s) (rs_workItemID B) \<noteq> f"
    and "claim_row_of (st_db s) (rs_workItemID B) \<noteq> None"
  shows "\<not> fst (ProdStore_Advance B env a b (Some f) s)"
proof
  assume "fst (ProdStore_Advance B env a b (Some f) s)"
  then obtain s' where "ProdStore_Advance B env a b (Some f) s = (True, s')" by (metis prod.collapse)
  then show False
  proof (cases rule: ProdStore_Advance_cases)
    case committed
    then show False using assms
      by (auto simp: advance_tx_def row_key_wf [OF wf_prodD(1) [OF assms(1)]] advance_guard_def prod_fence_def Let_def
          split: option.splits if_splits)
  qed simp
qed

lemma refused_advance_keeps_db:
  "\<not> fst (ProdStore_Advance B env a b f s) \<Longrightarrow> st_db (snd (ProdStore_Advance B env a b f s)) = st_db s"
  by (cases "ProdStore_Advance B env a b f s") (auto elim: ProdStore_Advance_cases)

lemma audit_count_advance [simp]:
  "pd_audit db' = pd_audit db @ [advance_audit B now a b f] \<Longrightarrow>
    audit_count (rs_workItemID B) db' = Suc (audit_count (rs_workItemID B) db)"
  by (simp add: audit_count_def sql_affected_def advance_audit_def)

interpretation prod: reconcile_store "prodStore B env" "run_inv B" "run_step B" "run_fence B" "run_audit B" "run_outbox B"
  for B env
proof (unfold_locales, goal_cases)
  case (1 s st s')
  then show ?case
    by (auto simp: prodStore_def ProdStore_Step_def run_defs split: option.splits if_splits)
next
  case (2 s a b f s')
  then obtain r where r: "claim_row_of (st_db s) (rs_workItemID B) = Some r" by (auto simp: run_inv_def)
  from 2(2) have "ProdStore_Advance B env a b f s = (True, s')" by (simp add: prodStore_def)
  then show ?case
  proof (cases rule: ProdStore_Advance_cases)
    case rejected
    then show ?thesis by simp
  next
    case committed
    have "wf_prod (st_db s)" and "item_row_of (st_db s) (rs_workItemID B) \<noteq> None"
      using 2(1) by (simp_all add: run_inv_def)
    note c = advance_tx_True [OF committed(2) this(1) r this(2)]
    then show ?thesis using r 2(1)
      by (auto simp: run_defs prod_fence_def advance_guard_def split: option.splits)
  qed
next
  case (3 s a b f s')
  then have "ProdStore_Advance B env a b f s = (False, s')" by (simp add: prodStore_def)
  then show ?case using 3(1)
    by (cases rule: ProdStore_Advance_cases) (auto simp: run_defs)
next
  case (4 s nf ok s')
  obtain flt now where e: "env (st_calls s) = (flt, now)" by fastforce
  obtain r where r: "claim_row_of (st_db s) (rs_workItemID B) = Some r" using 4(1) by (auto simp: run_inv_def)
  have wf: "wf_table pc_item (pd_claims (st_db s))" using 4(1) by (simp add: run_inv_def wf_prodD)
  from 4 e r wf show ?case
    by (auto simp: prodStore_def ProdStore_Reclaim_def run_defs prod_fence_def aff_key_wf split: if_splits)
qed

section \<open>Simulation by the in-memory store\<close>

definition mem_view :: "ProdReconcileStore \<Rightarrow> prod_state \<Rightarrow> MemStore" where
  "mem_view B s = \<lparr>ms_step = run_step B s, ms_fence = run_fence B s, ms_auditN = run_audit B s, ms_outboxN = run_outbox B s\<rparr>"

lemma healthy_Step:
  assumes "\<And>n x. \<not> fst (env n) x" and "run_inv B s"
  shows "ProdStore_Step B env s = (run_step B s, store_tick s)"
  using assms by (auto simp: ProdStore_Step_def run_inv_def run_step_def split: option.splits)

lemma mem_view_tick [simp]: "mem_view B (store_tick s) = mem_view B s"
  by (simp add: mem_view_def run_defs)

lemma healthy_Advance:
  assumes "\<And>n x. \<not> fst (env n) x" and "run_inv B s" and "\<not> rs_a2aFollowGate B"
  shows "fst (ProdStore_Advance B env a b f s) \<longleftrightarrow> run_step B s = a \<and> (f = None \<or> f = Some (run_fence B s))"
proof -
  obtain flt now where e: "env (st_calls s) = (flt, now)" by fastforce
  then have ok: "\<not> flt x" for x using assms(1) [of "st_calls s" x] by simp
  obtain r where r: "claim_row_of (st_db s) (rs_workItemID B) = Some r" using assms(2) by (auto simp: run_inv_def)
  have wf: "wf_table pc_item (pd_claims (st_db s))" using assms(2) by (simp add: run_inv_def wf_prodD)
  have "fst (ProdStore_Advance B env a b f s) \<longleftrightarrow> advance_guard a f r"
    using assms(3) e ok r wf
    by (auto simp: ProdStore_Advance_def gate_holds_def advance_tx_def row_key_wf Let_def)
  then show ?thesis using r by (auto simp: advance_guard_def run_step_def run_fence_def prod_fence_def split: option.splits)
qed

lemma prod_simulated_by_mem:
  assumes "\<And>n x. \<not> fst (env n) x" and "\<not> rs_a2aFollowGate B"
  shows "store_simulates (run_inv B) (mem_view B) (prodStore B env) memStore"
  unfolding store_simulates_def
proof (intro allI impI conjI)
  fix s a b f assume I: "run_inv B s"
  show "run_inv B (snd (Store_Step (prodStore B env) s))"
    and "Store_Step memStore (mem_view B s) = map_prod id (mem_view B) (Store_Step (prodStore B env) s)"
    using I healthy_Step [where env = env, OF assms(1) I] by (simp_all add: prodStore_def run_inv_def) (simp add: mem_view_def run_defs)
  obtain ok s' where adv: "Store_Advance (prodStore B env) a b f s = (ok, s')" by fastforce
  have g: "ok \<longleftrightarrow> run_step B s = a \<and> (f = None \<or> f = Some (run_fence B s))"
    using healthy_Advance [where env = env and a = a and b = b and f = f, OF assms(1) I assms(2)] adv by (simp add: prodStore_def)
  have "run_inv B s' \<and> MemStore_Advance a b f (mem_view B s) = (ok, mem_view B s')"
  proof (cases ok)
    case True
    then have "Store_Advance (prodStore B env) a b f s = (True, s')" using adv by simp
    from prod.advance_commits [OF I this] g True show ?thesis
      by (auto simp: MemStore_Advance_def mem_view_def)
  next
    case False
    then have "Store_Advance (prodStore B env) a b f s = (False, s')" using adv by simp
    from prod.advance_rejects [OF I this] g False show ?thesis
      by (auto simp: MemStore_Advance_def mem_view_def)
  qed
  then show "run_inv B (snd (Store_Advance (prodStore B env) a b f s))"
    and "Store_Advance memStore a b f (mem_view B s) = map_prod id (mem_view B) (Store_Advance (prodStore B env) a b f s)"
    by (simp_all add: adv)
qed

section \<open>Properties\<close>

text \<open>
  The production store refines the in-memory store: when no statement fails and the
  follow gate is off, a drive of the machine over Postgres that returns is, step for step, the
  drive over the in-memory store from the corresponding state, with the same error, the same
  effects and the corresponding final state; so what is proved of drives over the in-memory
  store holds of production drives.
\<close>

theorem prod_drive_refines_mem_drive:
  assumes "\<And>n x. \<not> fst (env n) x" and "\<not> rs_a2aFollowGate B" and "run_inv B s"
    and "Reconcile E (prodStore B env) opt w s = Some (e, w', s')"
  shows "Reconcile E memStore opt w (mem_view B s) = Some (e, w', mem_view B s')"
  using simulates_drive [OF prod_simulated_by_mem [where env = env, OF assms(1,2)] assms(3)] assms(4)
  by (simp add: Reconcile_def)

definition one_run :: ProdReconcileStore where
  "one_run = \<lparr>rs_workItemID = ''i'', rs_runID = ''r'', rs_principal = ''op'', rs_initiatedBy = [], rs_traceID = [],
     rs_a2aFollowGate = False, rs_carrier = None, rs_isUuid = (\<lambda>_. True)\<rparr>"

definition one_state :: prod_state where
  "one_state = \<lparr>st_db = one_todo, st_err = None, st_calls = 0\<rparr>"

definition healthy :: store_env where
  "healthy n = (\<lambda>_. False, int n)"

definition bounded_opts :: Options where
  "bounded_opts = \<lparr>Durable = True, Fence = 0, CrashBefore = noStep, CrashAfterEffect = noStep, Lap = None,
     FailAt = noStep, MaxPasses = 9\<rparr>"

lemma one_run_inv: "run_inv one_run one_state"
  using wf_one_todo by (simp add: run_inv_def one_run_def one_state_def) (simp add: one_todo_def)

theorem prod_drive_refines_mem_drive_witness:
  "\<exists>e w' s'. Reconcile worldEffects (prodStore one_run healthy) bounded_opts NewWorld one_state = Some (e, w', s') \<and>
     Reconcile worldEffects memStore bounded_opts NewWorld (mem_view one_run one_state) = Some (e, w', mem_view one_run s')"
proof -
  have "Reconcile_loop worldEffects (prodStore one_run healthy) bounded_opts 0 NewWorld one_state \<noteq> None"
    by (rule Reconcile_loop_bounded) (simp add: bounded_opts_def)
  then obtain e w' s' where r: "Reconcile worldEffects (prodStore one_run healthy) bounded_opts NewWorld one_state = Some (e, w', s')"
    by (auto simp: Reconcile_def)
  have "\<not> fst (healthy n) x" for n x by (simp add: healthy_def)
  moreover have "\<not> rs_a2aFollowGate one_run" by (simp add: one_run_def)
  ultimately show ?thesis
    using prod_drive_refines_mem_drive [where env = healthy, OF _ _ one_run_inv r] r by blast
qed

text \<open>
  Every production drive is audited, whatever fails: over any pattern of statement
  failures and for any options and effects, a drive that returns moved the durable step only
  along transitions of the machine, with exactly one reconcile_advanced audit row and one
  outbox row per transition, under the fence it was given, and left the fence alone; a drive
  under a stale fence moved nothing.
\<close>

theorem prod_drive_is_audited:
  assumes "run_inv B s" and "Reconcile E (prodStore B env) opt w s = Some (e, w', s')"
  shows "\<exists>n. advances opt (run_step B s) n (run_step B s') \<and>
    run_audit B s' = run_audit B s + n \<and> run_outbox B s' = run_outbox B s + n \<and> run_fence B s' = run_fence B s \<and>
    (Durable opt \<and> Fence opt \<noteq> run_fence B s \<longrightarrow> n = 0)"
proof -
  obtain n where n: "advances opt (run_step B s) n (run_step B s')" "run_audit B s' = run_audit B s + n"
      "run_outbox B s' = run_outbox B s + n" "run_fence B s' = run_fence B s"
      "0 < n \<longrightarrow> fenceArg opt = None \<or> fenceArg opt = Some (run_fence B s)"
    using prod.Reconcile_committed [OF assms] by (auto simp: prod.committed_def)
  then show ?thesis by (intro exI [of _ n]) (auto simp: fenceArg_def)
qed

theorem prod_drive_is_audited_witness:
  "\<exists>e w' s' n. Reconcile worldEffects (prodStore one_run healthy) bounded_opts NewWorld one_state = Some (e, w', s') \<and>
     advances bounded_opts (run_step one_run one_state) n (run_step one_run s')"
proof -
  have "Reconcile_loop worldEffects (prodStore one_run healthy) bounded_opts 0 NewWorld one_state \<noteq> None"
    by (rule Reconcile_loop_bounded) (simp add: bounded_opts_def)
  then obtain e w' s' where r: "Reconcile worldEffects (prodStore one_run healthy) bounded_opts NewWorld one_state = Some (e, w', s')"
    by (auto simp: Reconcile_def)
  from prod_drive_is_audited [OF one_run_inv r] r show ?thesis by blast
qed

definition lap_open :: "ProdReconcileStore \<Rightarrow> prod_db \<Rightarrow> bool" where
  "lap_open B db \<longleftrightarrow> (\<exists>r. latest_lap (rs_runID B) (pd_a2a db) = Some r \<and>
     \<not> (da_settled r \<noteq> None \<and> coalesce (da_outcome r) = SettleOutcomeSucceeded))"

definition gated_open :: "ProdReconcileStore \<Rightarrow> prod_state \<Rightarrow> bool" where
  "gated_open B s \<longleftrightarrow> run_inv B s \<and> lap_open B (st_db s) \<and> run_step B s \<noteq> StepSucceeded"

lemma lap_open_gate:
  assumes "lap_open B db" and "rs_runID B \<noteq> []" and "rs_isUuid B (rs_runID B)"
    and "latestLapSettlement (rs_isUuid B) flt (rs_runID B) db = Inr (d, se, oc)"
  shows "\<not> A2AFollowGateOpen d se oc"
  using assms by (auto simp: lap_open_def latestLapSettlement_def A2AFollowGateOpen_def split: if_splits)

lemma gated_advance:
  assumes "rs_a2aFollowGate B" and "rs_runID B \<noteq> []" and "rs_isUuid B (rs_runID B)" and "gated_open B s"
    and "nextStep opt a = Some b" and "ProdStore_Advance B env a b f s = (ok, s')"
  shows "gated_open B s'"
  using assms(6)
proof (cases rule: ProdStore_Advance_cases)
  case rejected
  then show ?thesis using assms(4) by (simp add: gated_open_def lap_open_def run_defs)
next
  case committed
  have I: "run_inv B s" using assms(4) by (simp add: gated_open_def)
  then obtain r where r: "claim_row_of (st_db s) (rs_workItemID B) = Some r" "wf_prod (st_db s)"
      "item_row_of (st_db s) (rs_workItemID B) \<noteq> None" by (auto simp: run_inv_def)
  note c = advance_tx_True [OF committed(2) r(2,1,3)]
  have "b \<noteq> StepSucceeded"
  proof
    assume "b = StepSucceeded"
    then have "gate_holds B a b"
      using assms(1,5) by (cases a) (auto simp: gate_holds_def nextStep_cases split: if_splits)
    from committed(3) [OF this] show False
      using lap_open_gate [OF _ assms(2,3)] assms(4) by (auto simp: gated_open_def)
  qed
  then show ?thesis using c r assms(4) by (auto simp: gated_open_def lap_open_def run_inv_def run_step_def)
qed

text \<open>
  The follow gate holds: while the latest dispatch lap of a gated Run has not durably
  settled with a succeeded outcome, no drive, whatever its options, effects and statement
  failures, brings the Run to succeeded.
\<close>

theorem follow_gate_holds:
  assumes "rs_a2aFollowGate B" and "rs_runID B \<noteq> []" and "rs_isUuid B (rs_runID B)"
    and "run_inv B s" and "lap_open B (st_db s)" and "run_step B s \<noteq> StepSucceeded"
    and "Reconcile E (prodStore B env) opt w s = Some (e, w', s')"
  shows "run_step B s' \<noteq> StepSucceeded"
proof -
  have "gated_open B s \<longrightarrow> gated_open B s'"
  proof (rule Reconcile_loop_rel [where R = "\<lambda>w s w' s'. gated_open B s \<longrightarrow> gated_open B s'"])
    show "Reconcile_loop E (prodStore B env) opt 0 w s = Some (e, w', s')"
      using assms(7) by (simp add: Reconcile_def)
    fix w s st s1 assume "Store_Step (prodStore B env) s = (st, s1)"
    then show "gated_open B s \<longrightarrow> gated_open B s1"
      by (auto simp: prodStore_def ProdStore_Step_def gated_open_def lap_open_def run_defs split: option.splits if_splits)
  next
    fix step w s err w1 s1 assume ph: "runPhase E (prodStore B env) opt step w s = (err, w1, s1)"
    have "s1 = s \<or> (\<exists>b ok. nextStep opt step = Some b \<and> ProdStore_Advance B env step b (fenceArg opt) s = (ok, s1))"
      using ph by (auto simp: runPhase_def phaseCommit_def prodStore_def Let_def split: option.splits if_splits prod.splits)
    then show "gated_open B s \<longrightarrow> gated_open B s1"
      using gated_advance [OF assms(1-3)] by blast
  qed blast+
  then show ?thesis using assms(4-6) by (simp add: gated_open_def)
qed

definition one_lap :: prod_db where
  "one_lap = one_todo\<lparr>pd_a2a := [\<lparr>da_task = ''r'', da_run = ''r'', da_item = ''i'', da_dispatched = 1,
     da_settled = None, da_outcome = None\<rparr>]\<rparr>"

theorem follow_gate_holds_witness:
  "\<exists>e w' s'. Reconcile worldEffects (prodStore (WithA2AFollowGate True one_run) healthy) bounded_opts NewWorld
       (one_state\<lparr>st_db := one_lap\<rparr>) = Some (e, w', s') \<and> run_step (WithA2AFollowGate True one_run) s' \<noteq> StepSucceeded"
proof -
  let ?B = "WithA2AFollowGate True one_run" and ?s = "one_state\<lparr>st_db := one_lap\<rparr>"
  have "Reconcile_loop worldEffects (prodStore ?B healthy) bounded_opts 0 NewWorld ?s \<noteq> None"
    by (rule Reconcile_loop_bounded) (simp add: bounded_opts_def)
  then obtain e w' s' where r: "Reconcile worldEffects (prodStore ?B healthy) bounded_opts NewWorld ?s = Some (e, w', s')"
    by (auto simp: Reconcile_def)
  have "run_step ?B s' \<noteq> StepSucceeded"
  proof (rule follow_gate_holds [OF _ _ _ _ _ _ r])
    show "run_inv ?B ?s"
      by (simp add: run_inv_def wf_prod_def wf_table_def one_lap_def one_todo_def one_run_def WithA2AFollowGate_def)
    show "lap_open ?B (st_db ?s)"
      by (simp add: lap_open_def latest_lap_def one_lap_def one_run_def WithA2AFollowGate_def)
    show "run_step ?B ?s \<noteq> StepSucceeded"
      by (simp add: run_step_def one_lap_def one_todo_def one_run_def WithA2AFollowGate_def)
  qed (simp_all add: WithA2AFollowGate_def one_run_def)
  with r show ?thesis by blast
qed

end
