(* ===== verification/Prod_Cancel.thy ===== *)
theory Prod_Cancel
  imports Prod_Reconcile
begin

text \<open>
  The operator kill (pkg/coord/cancelprod.go): a fence-first move to cancelling that releases
  the checkout, and the move to cancelled after the sandbox is torn down. Both are one
  transaction over the claim row, the audit log and the outbox.
\<close>

section \<open>Operations\<close>

datatype CancelOutcome = CancelAccepted | CancelConflict | CancelTerminal | CancelMissing

record CancelState =
  CS_Step :: string
  CS_Fence :: int

definition isCancelTerminalStep :: "string \<Rightarrow> bool" where
  "isCancelTerminalStep step \<longleftrightarrow> step = ''succeeded'' \<or> step = ''failed'' \<or> step = ''cancelled''"

definition Cancel_State :: "dbfaults \<Rightarrow> string \<Rightarrow> prod_db \<Rightarrow> string + CancelState option" where
  "Cancel_State flt workItemID db =
     (if flt ''state'' then Inl ''coord.ProdCancelStore.State''
      else Inr (map_option (\<lambda>r. \<lparr>CS_Step = step_name (pc_step r), CS_Fence = pc_fence r\<rparr>) (claim_row_of db workItemID)))"

text \<open>
  The latest dispatch marker, by descending task id. A failed read gives no id, and since it
  runs inside the kill's transaction the database refuses the statements after it: the next
  one, the audit insert, reports the error.
\<close>

definition cancelRunIDFor :: "dbfaults \<Rightarrow> string \<Rightarrow> prod_db \<Rightarrow> string" where
  "cancelRunIDFor flt workItemID db =
     (if flt ''run id'' then []
      else case rev (sort_key da_task (filter (\<lambda>r. da_item r = workItemID) (pd_a2a db))) of
        [] \<Rightarrow> [] | r # _ \<Rightarrow> da_run r)"

definition cancel_guard :: "int \<Rightarrow> prod_claim \<Rightarrow> bool" where
  "cancel_guard fromFence r \<longleftrightarrow> pc_fence r = fromFence \<and> \<not> isCancelTerminalStep (step_name (pc_step r))"

definition cancel_row :: "instant \<Rightarrow> Step \<Rightarrow> bool \<Rightarrow> prod_claim \<Rightarrow> prod_claim" where
  "cancel_row now toStep release r =
     (let r1 = r\<lparr>pc_fence := pc_fence r + 1, pc_reclaim_fenced := Some now, pc_step := toStep\<rparr>
      in if release then r1\<lparr>pc_holder := None, pc_lease := None\<rparr> else r1)"

definition cancelTx ::
  "dbfaults \<Rightarrow> instant \<Rightarrow> string \<Rightarrow> string \<Rightarrow> string \<Rightarrow> string \<Rightarrow> string \<Rightarrow> Step \<Rightarrow> int \<Rightarrow> bool \<Rightarrow> prod_db \<Rightarrow>
   (string option \<times> CancelOutcome) \<times> prod_db" where
  "cancelTx flt now workItemID runID prin initiatedBy event toStep fromFence releaseCheckout db =
     (if flt ''begin'' then ((Some (''coord.ProdCancelStore.'' @ event @ '': begin''), CancelMissing), db)
      else if flt ''update'' then ((Some (''coord.ProdCancelStore.'' @ event @ '': update''), CancelMissing), db)
      else case row_key pc_item workItemID (cancel_guard fromFence) (pd_claims db) of
        None \<Rightarrow>
          (case claim_row_of db workItemID of
             Some cur \<Rightarrow>
               if \<not> flt ''reread'' \<and> isCancelTerminalStep (step_name (pc_step cur)) then ((None, CancelTerminal), db)
               else ((None, CancelConflict), db)
           | None \<Rightarrow> ((None, CancelConflict), db))
      | Some r \<Rightarrow>
          let fenceAfter = pc_fence r + 1;
              db1 = db\<lparr>pd_claims := upd_key pc_item workItemID (cancel_guard fromFence)
                         (cancel_row now toStep releaseCheckout) (pd_claims db)\<rparr>;
              run = (if runID = [] then cancelRunIDFor flt workItemID db1 else runID);
              db2 = insert_audit \<lparr>au_item = workItemID, au_run = nullable run, au_event = event, au_principal = prin,
                      au_initiated = nullable initiatedBy, au_fence = Some fenceAfter, au_from = None,
                      au_to = Some (step_name toStep), au_payload = [], au_created = now\<rparr> db1;
              db3 = outbox_for_item ''run'' event workItemID (nullable run)
                      [(''to_step'', JStr (step_name toStep)), (''fence_token'', JInt fenceAfter)] None db2
          in if (runID = [] \<and> flt ''run id'') \<or> flt ''audit'' then ((Some (''coord.ProdCancelStore.'' @ event @ '': audit''), CancelMissing), db)
             else if flt ''outbox'' then ((Some (''coord.ProdCancelStore.'' @ event @ '': outbox''), CancelMissing), db)
             else if flt ''commit'' then ((Some (''coord.ProdCancelStore.'' @ event @ '': commit''), CancelMissing), db)
             else ((None, CancelAccepted), db3))"

definition CancelEnter ::
  "dbfaults \<Rightarrow> instant \<Rightarrow> string \<Rightarrow> string \<Rightarrow> string \<Rightarrow> string \<Rightarrow> int \<Rightarrow> prod_db \<Rightarrow> (string option \<times> CancelOutcome) \<times> prod_db" where
  "CancelEnter flt now workItemID runID prin initiatedBy fromFence db =
     (case cancelTx flt now workItemID runID prin initiatedBy ''cancel_requested'' StepCancelling fromFence True db of
        ((Some err, out), db') \<Rightarrow> ((Some err, CancelMissing), db')
      | ((None, out), db') \<Rightarrow> ((None, out), db'))"

definition CancelFinish ::
  "dbfaults \<Rightarrow> instant \<Rightarrow> string \<Rightarrow> string \<Rightarrow> string \<Rightarrow> int \<Rightarrow> prod_db \<Rightarrow> (string option \<times> CancelOutcome) \<times> prod_db" where
  "CancelFinish flt now workItemID runID prin fromFence db =
     cancelTx flt now workItemID runID prin [] ''run_cancelled'' StepCancelled fromFence False db"

definition Cancel_Due :: "dbfaults \<Rightarrow> prod_db \<Rightarrow> string + string list" where
  "Cancel_Due flt db =
     (if flt ''due'' then Inl ''coord.ProdCancelStore.Due''
      else Inr (map pc_item (filter (\<lambda>r. pc_step r = StepCancelling) (pd_claims db))))"

section \<open>What a kill does\<close>

lemma cancel_row_simps [simp]:
  "pc_item (cancel_row now st rel r) = pc_item r" "pc_fence (cancel_row now st rel r) = pc_fence r + 1"
  "pc_step (cancel_row now st rel r) = st" "pc_run (cancel_row now st rel r) = pc_run r"
  "pc_holder (cancel_row now st rel r) = (if rel then None else pc_holder r)"
  "pc_lease (cancel_row now st rel r) = (if rel then None else pc_lease r)"
  by (simp_all add: cancel_row_def Let_def)

lemma cancelTx_accepted:
  assumes "cancelTx flt now item run prin ini ev st f rel db = ((err, CancelAccepted), db')" and "wf_prod db"
  shows "\<exists>r. err = None \<and> claim_row_of db item = Some r \<and> pc_fence r = f \<and>
    \<not> isCancelTerminalStep (step_name (pc_step r)) \<and> wf_prod db' \<and> pd_items db' = pd_items db \<and>
    (\<forall>j. claim_row_of db' j = (if j = item then Some (cancel_row now st rel r) else claim_row_of db j)) \<and>
    (\<exists>a. pd_audit db' = pd_audit db @ [a] \<and> au_event a = ev \<and> au_item a = item \<and> au_fence a = Some (f + 1) \<and>
         au_initiated a = nullable ini)"
  using assms
  by (auto simp: cancelTx_def row_key_wf [OF wf_prodD(1)] cancel_guard_def Let_def split: if_splits option.splits)

lemma cancelTx_refused:
  "cancelTx flt now item run prin ini ev st f rel db = ((err, out), db') \<Longrightarrow> out \<noteq> CancelAccepted \<Longrightarrow> db' = db"
  by (auto simp: cancelTx_def Let_def split: if_splits option.splits)

lemma cancelTx_error: "cancelTx flt now item run prin ini ev st f rel db = ((Some e, out), db') \<Longrightarrow> db' = db \<and> out = CancelMissing"
  by (auto simp: cancelTx_def Let_def split: if_splits option.splits)

lemma CancelEnter_cases:
  assumes "CancelEnter flt now item run prin ini f db = ((err, out), db')"
  obtains (refused) "db' = db" "out \<noteq> CancelAccepted"
  | (accepted) "err = None" "out = CancelAccepted"
      "cancelTx flt now item run prin ini ''cancel_requested'' StepCancelling f True db = ((None, CancelAccepted), db')"
proof -
  obtain e o' d where t: "cancelTx flt now item run prin ini ''cancel_requested'' StepCancelling f True db = ((e, o'), d)"
    by (metis prod.exhaust)
  show thesis
  proof (cases "e = None \<and> o' = CancelAccepted")
    case True
    with t assms show ?thesis by (intro accepted) (auto simp: CancelEnter_def)
  next
    case False
    with t assms cancelTx_refused [OF t] cancelTx_error [of flt now item run prin ini "''cancel_requested''" StepCancelling f True db]
    show ?thesis by (intro refused) (auto simp: CancelEnter_def split: option.splits)
  qed
qed

text \<open>
  C7. A kill wins over a live agent and never over a finished Run: an accepted kill releases
  the checkout, moves the step to cancelling and raises the fence by one, so the item can be
  acquired at once; and in the database it leaves, as in every well-formed one where the item's
  fence is above the killed one, the killed holder's heartbeat is refused and every advance it
  still tries under its old fence, from any step it may have read to any other and under any
  faults, is refused and changes nothing. A kill of a Run whose step is terminal is refused,
  and a refused kill changes nothing.
\<close>

theorem kill_fences_the_agent:
  assumes "wf_prod db" and "CancelEnter flt now item run prin ini fence db = ((err, out), db')"
  shows "(out = CancelAccepted \<longrightarrow>
      (\<exists>r. claim_row_of db' item = Some r \<and> pc_holder r = None \<and> pc_step r = StepCancelling \<and> pc_fence r = fence + 1 \<and>
           (\<forall>tg. claim_free tg r)) \<and> wf_prod db' \<and> fence < prod_fence db' item \<and>
      (\<forall>d. wf_prod d \<and> claim_row_of d item \<noteq> None \<and> fence < prod_fence d item \<longrightarrow>
         (\<forall>cfg tg ts p rn. ProdRenew cfg (\<lambda>_. False) tg ts item p rn fence d = (Some False, d)) \<and>
         (\<forall>B env a b s. rs_workItemID B = item \<and> st_db s = d \<longrightarrow>
            \<not> fst (ProdStore_Advance B env a b (Some fence) s) \<and>
            st_db (snd (ProdStore_Advance B env a b (Some fence) s)) = d))) \<and>
    (\<forall>r. claim_row_of db item = Some r \<and> IsTerminal (pc_step r) \<longrightarrow> out \<noteq> CancelAccepted) \<and>
    (out \<noteq> CancelAccepted \<longrightarrow> db' = db)"
  using assms(2)
proof (cases rule: CancelEnter_cases)
  case refused
  then show ?thesis by simp
next
  case accepted
  from cancelTx_accepted [OF accepted(3) assms(1)] obtain r where r:
      "claim_row_of db item = Some r" "pc_fence r = fence" "\<not> isCancelTerminalStep (step_name (pc_step r))" "wf_prod db'"
      "claim_row_of db' item = Some (cancel_row now StepCancelling True r)" by auto
  have "fence < prod_fence db' item" using r(2,5) by (simp add: prod_fence_def)
  moreover have "ProdRenew cfg (\<lambda>_. False) tg ts item p rn fence d = (Some False, d)"
    if "wf_prod d" "fence < prod_fence d item" for d cfg tg ts p rn
  proof -
    have "\<not> (\<exists>q. claim_row_of d item = Some q \<and> pc_run q = Some rn \<and> pc_fence q = fence)"
      using that(2) by (auto simp: prod_fence_def)
    from ProdRenew_stale [OF that(1) this] show ?thesis by simp
  qed
  moreover have "\<not> fst (ProdStore_Advance B env a b (Some fence) s) \<and>
      st_db (snd (ProdStore_Advance B env a b (Some fence) s)) = d"
    if "wf_prod d" "claim_row_of d item \<noteq> None" "fence < prod_fence d item" "rs_workItemID B = item" "st_db s = d"
    for d B env a b s
    using that stale_advance_refused [of s B fence env a b] refused_advance_keeps_db [of B env a b "Some fence" s]
    by auto
  moreover have "\<not> IsTerminal (pc_step r)"
    using r(3) by (cases "pc_step r") (auto simp: isCancelTerminalStep_def IsTerminal_def)
  ultimately show ?thesis using accepted r by (auto simp: claim_free_def; blast)
qed

theorem kill_fences_the_agent_witness:
  "\<exists>r. claim_row_of (snd (CancelEnter (\<lambda>_. False) 9 ''i'' ''r'' ''admin'' [] 1 one_held)) ''i'' = Some r \<and>
     pc_holder r = None \<and> pc_fence r = 2 \<and>
     \<not> fst (ProdStore_Advance one_run (\<lambda>_. (\<lambda>_. False, 9))
         StepCancelling StepSucceeded (Some 1)
         \<lparr>st_db = snd (CancelEnter (\<lambda>_. False) 9 ''i'' ''r'' ''admin'' [] 1 one_held), st_err = None, st_calls = 0\<rparr>)"
proof -
  let ?k = "CancelEnter (\<lambda>_. False) 9 ''i'' ''r'' ''admin'' [] 1 one_held"
  have out: "fst ?k = (None, CancelAccepted)"
    using one_held_simps
    by (simp add: CancelEnter_def cancelTx_def row_key_wf [OF wf_prodD(1)] cancel_guard_def isCancelTerminalStep_def Let_def)
  then have "?k = ((None, CancelAccepted), snd ?k)" by (simp add: prod_eq_iff)
  note killed = kill_fences_the_agent [OF one_held_simps(1) this]
  then obtain r where r: "claim_row_of (snd ?k) ''i'' = Some r" "pc_holder r = None" "pc_fence r = 2" by auto
  have "\<not> fst (ProdStore_Advance one_run (\<lambda>_. (\<lambda>_. False, 9)) StepCancelling StepSucceeded (Some 1)
      \<lparr>st_db = snd ?k, st_err = None, st_calls = 0\<rparr>)"
  proof -
    from killed have late: "wf_prod d \<Longrightarrow> claim_row_of d ''i'' \<noteq> None \<Longrightarrow> 1 < prod_fence d ''i'' \<Longrightarrow>
        rs_workItemID B = ''i'' \<Longrightarrow> st_db s = d \<Longrightarrow> \<not> fst (ProdStore_Advance B env a b (Some 1) s)" for d B env a b s
      by simp
    have "wf_prod (snd ?k)" "1 < prod_fence (snd ?k) ''i''" using killed by simp_all
    with r(1) show ?thesis by (intro late [of "snd ?k"]) (simp_all add: one_run_def)
  qed
  with r show ?thesis by blast
qed

text \<open>
  The kill seam's outcomes on two inputs its comments describe otherwise: a work item with no
  claim row reports a conflict, and the finish accepts a Run that never entered cancelling.
\<close>

lemma missing_claim_reports_conflict:
  "fst (CancelEnter (\<lambda>_. False) 9 ''no-such-item'' [] ''admin'' [] 1 one_held) = (None, CancelConflict)"
proof -
  have "claim_row_of one_held ''no-such-item'' = None"
    by (simp add: one_held_def ProdClaimNext_def prod_pick_def one_todo_def DefaultProdConfig_def row_key_def sql_row_def
      claim_free_def prod_acq_def claim_tail_def prod_mark_def aff_key_def sql_affected_def lane_ok_def captureClaim_def)
  then show ?thesis
    by (simp add: CancelEnter_def cancelTx_def row_key_wf [OF wf_prodD(1) [OF one_held_simps(1)]])
qed

lemma finish_accepts_uncancelled_run:
  "fst (CancelFinish (\<lambda>_. False) 9 ''i'' ''r'' ''op'' 1 one_held) = (None, CancelAccepted)"
  using one_held_simps
  by (simp add: CancelFinish_def cancelTx_def row_key_wf [OF wf_prodD(1)] cancel_guard_def isCancelTerminalStep_def Let_def)

text \<open>The provenance lookup picks the greatest task id as text, not the latest dispatch.\<close>

lemma cancel_run_is_not_latest:
  "cancelRunIDFor (\<lambda>_. False) ''i'' (one_todo\<lparr>pd_a2a :=
     [\<lparr>da_task = ''b'', da_run = ''old'', da_item = ''i'', da_dispatched = 1, da_settled = None, da_outcome = None\<rparr>,
      \<lparr>da_task = ''a'', da_run = ''new'', da_item = ''i'', da_dispatched = 2, da_settled = None, da_outcome = None\<rparr>]\<rparr>) = ''old''"
  by code_simp

end
