(* ===== verification/Prod_Board.thy ===== *)
theory Prod_Board
  imports Prod_Cancel
begin

text \<open>
  The board: lane moves by humans and agents (pkg/coord/humanstate.go) and the settle of a
  terminal Run onto the board (pkg/coord/settle.go). A lane move is no custody operation: it
  never touches a claim row. The settle runs inside its caller's transaction, so it has no
  commit of its own; an error means the caller rolls back.
\<close>

section \<open>Lane moves\<close>

definition humanStates :: "string \<Rightarrow> bool" where
  "humanStates s \<longleftrightarrow> s \<in> set
     [''backlog'', ''todo'', ''design'', ''planning'', ''implementation'', ''code_review'', ''testing'',
      ''documentation'', ''done'', ''cancelled'', ''in_progress'', ''in_review'']"

definition terminalStates :: "string \<Rightarrow> bool" where
  "terminalStates s \<longleftrightarrow> s = ''done'' \<or> s = ''cancelled''"

definition phaseTransitionAllowed :: "string \<Rightarrow> string \<Rightarrow> bool" where
  "phaseTransitionAllowed from to =
     (if from = to then False else if \<not> terminalStates from then True else \<not> terminalStates to)"

record StateTransition =
  STr_WorkItemID :: string
  STr_FromState :: string
  STr_ToState :: string

datatype board_error =
  ErrRequired | ErrInvalidState | ErrWorkItemNotFound | ErrStateConflict | ErrTransitionNotAllowed | ErrInfra string

definition transition_audit ::
  "instant \<Rightarrow> string \<Rightarrow> string \<Rightarrow> string \<Rightarrow> string \<Rightarrow> string \<Rightarrow> string \<Rightarrow> audit_row" where
  "transition_audit now item prin initiator initiatedBy from to =
     \<lparr>au_item = item, au_run = None, au_event = ''state_transition'', au_principal = prin,
      au_initiated = nullable initiatedBy, au_fence = None, au_from = Some from, au_to = Some to,
      au_payload = [(''from_state'', JStr from), (''initiator'', JStr initiator), (''to_state'', JStr to)],
      au_created = now\<rparr>"

definition board_transition ::
  "dbfaults \<Rightarrow> instant \<Rightarrow> string \<Rightarrow> string \<Rightarrow> string \<Rightarrow> string \<Rightarrow> string \<Rightarrow> string \<Rightarrow> string \<Rightarrow> prod_db \<Rightarrow>
   (board_error + StateTransition) \<times> prod_db" where
  "board_transition flt now workItemID teamID targetState fromState prin initiator initiatedByUserID db =
     (if workItemID = [] \<or> targetState = [] \<or> prin = [] then (Inl ErrRequired, db)
      else if \<not> humanStates targetState then (Inl ErrInvalidState, db)
      else if fromState \<noteq> [] \<and> \<not> humanStates fromState then (Inl ErrInvalidState, db)
      else if flt ''begin'' then (Inl (ErrInfra ''begin''), db)
      else if flt ''read current'' then (Inl (ErrInfra ''read current''), db)
      else case item_row_of db workItemID of
        None \<Rightarrow> (Inl ErrWorkItemNotFound, db)
      | Some w \<Rightarrow>
          let currentState = pw_state w in
          if teamID \<noteq> [] \<and> pw_team w \<noteq> Some teamID then (Inl ErrWorkItemNotFound, db)
          else if fromState \<noteq> [] \<and> currentState \<noteq> fromState then (Inl ErrStateConflict, db)
          else if currentState = targetState then (Inl ErrStateConflict, db)
          else if \<not> phaseTransitionAllowed currentState targetState then (Inl ErrTransitionNotAllowed, db)
          else if flt ''update'' then (Inl (ErrInfra ''update''), db)
          else if aff_key pw_id workItemID (\<lambda>w. pw_state w = currentState) (pd_items db) = 0 then (Inl ErrStateConflict, db)
          else
            let db1 = db\<lparr>pd_items := upd_key pw_id workItemID (\<lambda>w. pw_state w = currentState)
                           (\<lambda>w. w\<lparr>pw_state := targetState, pw_updated := now\<rparr>) (pd_items db)\<rparr>;
                db2 = insert_audit (transition_audit now workItemID prin initiator initiatedByUserID currentState targetState) db1
            in if flt ''audit'' then (Inl (ErrInfra ''audit''), db)
               else if flt ''commit'' then (Inl (ErrInfra ''commit''), db)
               else (Inr \<lparr>STr_WorkItemID = workItemID, STr_FromState = currentState, STr_ToState = targetState\<rparr>, db2))"

definition TransitionState ::
  "dbfaults \<Rightarrow> instant \<Rightarrow> string \<Rightarrow> string \<Rightarrow> string \<Rightarrow> string \<Rightarrow> string \<Rightarrow> string \<Rightarrow> prod_db \<Rightarrow>
   (board_error + StateTransition) \<times> prod_db" where
  "TransitionState flt now workItemID teamID targetState fromState prin initiatedByUserID db =
     board_transition flt now workItemID teamID targetState fromState prin ''human'' initiatedByUserID db"

definition AgentTransitionState ::
  "dbfaults \<Rightarrow> instant \<Rightarrow> string \<Rightarrow> string \<Rightarrow> string \<Rightarrow> string \<Rightarrow> prod_db \<Rightarrow> (board_error + StateTransition) \<times> prod_db" where
  "AgentTransitionState flt now workItemID targetState fromState prin db =
     board_transition flt now workItemID [] targetState fromState prin ''agent'' [] db"

section \<open>Settling a terminal Run\<close>

definition SettleLaneOf :: "string \<Rightarrow> string" where
  "SettleLaneOf step =
     (if step = ''failed'' then ''todo'' else if step = ''cancelled'' then ''cancelled'' else [])"

definition settleIsTerminal :: "string \<Rightarrow> bool" where
  "settleIsTerminal step \<longleftrightarrow> step = ''succeeded'' \<or> step = ''failed'' \<or> step = ''cancelled''"

definition settleSummary :: "string \<Rightarrow> string \<Rightarrow> bool \<Rightarrow> string \<Rightarrow> string" where
  "settleSummary terminalStep lane moved agent =
     (let who = (if agent = [] then [] else '' '' @ em_dash @ '' agent '' @ agent);
          outcome = (if terminalStep = ''succeeded'' then ''Run succeeded''
                     else if terminalStep = ''failed'' then ''Run failed (retry budget exhausted)''
                     else if terminalStep = ''cancelled'' then ''Run cancelled''
                     else ''Run reached terminal step '' @ terminalStep)
      in if moved then outcome @ who @ '': lane '' @ right_arrow @ '' '' @ lane @ '' (engine settle).''
         else if lane = [] then outcome @ who @ '': recorded on the ticket; lane unchanged (awaiting review).''
         else outcome @ who @ '': lane left as-is (human move respected, or already terminal/parked).'')"

definition newline :: string where "newline = [CHR 0x0A]"

fun join_lines :: "string list \<Rightarrow> string" where
  "join_lines [] = []"
| "join_lines [l] = l"
| "join_lines (l # ls) = l @ newline @ join_lines ls"

definition renderSynthesizedSummary ::
  "string \<Rightarrow> string \<Rightarrow> string \<Rightarrow> string \<Rightarrow> string list \<Rightarrow> string list \<Rightarrow> string" where
  "renderSynthesizedSummary outcome who terminalStep runID changes artifacts =
     (let nxt = (if terminalStep = ''succeeded'' then ''Awaiting human review; move the ticket to done when the work is accepted.''
                 else if terminalStep = ''failed'' then ''The ticket is back on the dispatchable lane for another attempt or human attention.''
                 else if terminalStep = ''cancelled'' then ''The run was stopped; no further automated work is queued.''
                 else ''See the ticket lane for the current state.'')
      in ''Run summary (auto-generated '' @ em_dash @ '' the agent did not post one)'' @ newline @ newline @
         ''What I did: '' @ outcome @ who @ ''.'' @ newline @ newline @
         ''What changed:'' @ newline @
         (if changes \<noteq> [] then join_lines changes @ newline
          else ''No commits or pull requests were reported for this run.'' @ newline) @
         newline @ ''Decisions and why: Not captured by the agent. See the per-run Activity feed for the step-by-step detail.'' @ newline @
         newline @ ''Next steps: '' @ nxt @ newline @
         newline @ ''Evidence: run_id='' @ (if runID \<noteq> [] then runID else ''(unknown)'') @
         ''; terminal step='' @ terminalStep @ ''.'' @ newline @
         (if artifacts \<noteq> [] then ''Artifacts:'' @ newline @ join_lines artifacts @ newline else []))"

definition of_run :: "string \<Rightarrow> string option \<Rightarrow> bool" where
  "of_run runID r \<longleftrightarrow> runID = [] \<or> r = Some runID"

definition change_lines :: "string \<Rightarrow> string \<Rightarrow> prod_db \<Rightarrow> string list" where
  "change_lines item runID db =
     map (\<lambda>r. ''- '' @ cr_kind r @ '' '' @ cr_ref r @
            (if coalesce (cr_summary r) = [] then [] else '' '' @ em_dash @ '' '' @ coalesce (cr_summary r)))
       (sql_pick (\<lambda>r. cr_item r = item \<and> of_run runID (cr_run r)) cr_created 20 (pd_changes db))"

definition artifact_lines :: "string \<Rightarrow> string \<Rightarrow> prod_db \<Rightarrow> string list" where
  "artifact_lines item runID db =
     map (\<lambda>r. ''- '' @ ar_kind r @ '': '' @ ar_uri r)
       (sql_pick (\<lambda>r. ar_item r = item \<and> of_run runID (ar_run r)) ar_created 20 (pd_artifacts db))"

definition synthesizeSummary :: "dbfaults \<Rightarrow> string \<Rightarrow> string \<Rightarrow> string \<Rightarrow> string \<Rightarrow> prod_db \<Rightarrow> string" where
  "synthesizeSummary flt item runID terminalStep agent db =
     (let outcome = (if terminalStep = ''succeeded'' then ''Run succeeded''
                     else if terminalStep = ''failed'' then ''Run failed (retry budget exhausted)''
                     else if terminalStep = ''cancelled'' then ''Run was cancelled''
                     else ''Run reached terminal step '' @ terminalStep);
          who = (if agent = [] then [] else '' by agent '' @ agent);
          changes = (if flt ''changes'' then [] else change_lines item runID db);
          artifacts = (if flt ''artifacts'' then [] else artifact_lines item runID db)
      in renderSynthesizedSummary outcome who terminalStep runID changes artifacts)"

definition settle_lane :: "string \<Rightarrow> string \<Rightarrow> prod_db \<Rightarrow> string" where
  "settle_lane terminalStep item db =
     (if SettleLaneOf terminalStep = ''todo'' \<and>
         Option.bind (item_row_of db item) pw_source = Some ''discussion'' then ''cancelled''
      else SettleLaneOf terminalStep)"

definition has_summary :: "string \<Rightarrow> string \<Rightarrow> prod_db \<Rightarrow> bool" where
  "has_summary item runID db \<longleftrightarrow>
     runID \<noteq> [] \<and> list_ex (\<lambda>c. cm_item c = item \<and> cm_run c = Some runID \<and> cm_kind c = Some ''summary'') (pd_comments db)"

definition settle_move :: "instant \<Rightarrow> string \<Rightarrow> string \<Rightarrow> string \<Rightarrow> string \<Rightarrow> string \<Rightarrow> prod_db \<Rightarrow> bool \<times> prod_db" where
  "settle_move now item runID prin terminalStep lane db =
     (if lane = [] \<or> aff_key pw_id item (\<lambda>w. pw_state w = ''in_progress'') (pd_items db) \<noteq> 1
      then (False, db\<lparr>pd_items := (if lane = [] then pd_items db
                      else upd_key pw_id item (\<lambda>w. pw_state w = ''in_progress'') (\<lambda>w. w\<lparr>pw_state := lane, pw_updated := now\<rparr>) (pd_items db))\<rparr>)
      else (True, insert_audit \<lparr>au_item = item, au_run = nullable runID, au_event = ''state_transition'',
                    au_principal = prin, au_initiated = None, au_fence = None, au_from = Some ''in_progress'',
                    au_to = Some lane, au_payload = [(''reason'', JStr ''run_settled''), (''step'', JStr terminalStep)],
                    au_created = now\<rparr>
                  (db\<lparr>pd_items := upd_key pw_id item (\<lambda>w. pw_state w = ''in_progress'')
                       (\<lambda>w. w\<lparr>pw_state := lane, pw_updated := now\<rparr>) (pd_items db)\<rparr>)))"

definition terminal_comment :: "instant \<Rightarrow> string \<Rightarrow> string \<Rightarrow> string \<Rightarrow> string \<Rightarrow> string \<Rightarrow> comment_row" where
  "terminal_comment now item prin body kind runID =
     \<lparr>cm_item = item, cm_author = prin, cm_body = body, cm_kind = Some kind, cm_run = nullable runID,
       cm_payload = None, cm_at = now\<rparr>"

definition SettleTerminalLane ::
  "dbfaults \<Rightarrow> instant \<Rightarrow> string \<Rightarrow> string \<Rightarrow> string \<Rightarrow> string \<Rightarrow> prod_db \<Rightarrow> string + (string \<times> bool) \<times> prod_db" where
  "SettleTerminalLane flt now item runID prin terminalStep db =
     (if item = [] \<or> prin = [] \<or> terminalStep = []
      then Inl ''coord.SettleTerminalLane: workItemID, principal and terminalStep are required''
      else if \<not> settleIsTerminal terminalStep then Inr (([], False), db)
      else if flt ''read assignee'' then Inl ''coord.SettleTerminalLane: read assignee''
      else if SettleLaneOf terminalStep = ''todo'' \<and> flt ''read source'' then Inl ''coord.SettleTerminalLane: read source''
      else
        let agent = (case claim_row_of db item of None \<Rightarrow> [] | Some c \<Rightarrow> coalesce (pc_assignee c));
            lane = settle_lane terminalStep item db
        in if lane \<noteq> [] \<and> flt ''lane'' then Inl ''coord.SettleTerminalLane: lane''
           else case settle_move now item runID prin terminalStep lane db of
             (moved, db1) \<Rightarrow>
               if moved \<and> flt ''audit'' then Inl ''coord.SettleTerminalLane: audit''
               else if runID \<noteq> [] \<and> flt ''summary presence'' then Inl ''coord.SettleTerminalLane: summary presence''
               else if has_summary item runID db1 then
                 (if terminalStep \<noteq> ''succeeded'' then
                    (if flt ''terminal progress'' then Inl ''coord.SettleTerminalLane: terminal progress''
                     else Inr ((lane, moved), insert_comment
                            (terminal_comment now item prin (settleSummary terminalStep lane moved agent) ''progress'' runID) db1))
                  else Inr ((lane, moved), db1))
               else if flt ''summary'' then Inl ''coord.SettleTerminalLane: summary''
               else Inr ((lane, moved), insert_comment
                      (terminal_comment now item prin (synthesizeSummary flt item runID terminalStep agent db1) ''summary'' runID) db1))"

section \<open>Properties of lane moves\<close>

text \<open>
  A lane move is a guarded compare-and-set outside custody: a move that succeeds found the
  item in the caller's team and in the lane the caller expected, put exactly that item into a
  board lane other than its own, never crossed directly between the two terminal lanes,
  recorded exactly one state_transition audit row that carries no fence, and left every claim
  row, fence and outbox row alone; a refused or failed move changed nothing.
\<close>

theorem board_move_is_guarded:
  assumes "wf_prod db"
    and "board_transition flt now item team target from prin initiator ini db = (res, db')"
  shows "(\<forall>tr. res = Inr tr \<longrightarrow>
      (\<exists>w. item_row_of db item = Some w \<and> (team = [] \<or> pw_team w = Some team) \<and> (from = [] \<or> pw_state w = from) \<and>
         tr = \<lparr>STr_WorkItemID = item, STr_FromState = pw_state w, STr_ToState = target\<rparr> \<and>
         humanStates target \<and> pw_state w \<noteq> target \<and> \<not> (terminalStates (pw_state w) \<and> terminalStates target) \<and>
         (\<forall>j. item_row_of db' j =
            (if j = item then Some (w\<lparr>pw_state := target, pw_updated := now\<rparr>) else item_row_of db j)) \<and>
         pd_audit db' = pd_audit db @ [transition_audit now item prin initiator ini (pw_state w) target]) \<and>
      pd_claims db' = pd_claims db \<and> pd_outbox db' = pd_outbox db) \<and>
    (\<forall>e. res = Inl e \<longrightarrow> db' = db)"
  using assms
  by (auto simp: board_transition_def Let_def aff_key_wf [OF wf_prodD(2)] phaseTransitionAllowed_def
      split: if_splits option.splits)

theorem board_move_is_guarded_witness:
  "item_row_of (snd (board_transition (\<lambda>_. False) 5 ''i'' ''t'' ''done'' ''todo'' ''u'' ''human'' [] one_todo)) ''i''
    = Some \<lparr>pw_id = ''i'', pw_state = ''done'', pw_created = 0, pw_updated = 5, pw_project = ''p'',
            pw_team = Some ''t'', pw_source = None, pw_parent = None, pw_title = ''T'', pw_body = None, pw_created_by = ''u'',
            pw_priority = None, pw_work_mode = None, pw_labels = [], pw_requested = None, pw_blocked = None\<rparr>"
proof -
  let ?m = "board_transition (\<lambda>_. False) 5 ''i'' ''t'' ''done'' ''todo'' ''u'' ''human'' [] one_todo"
  have f: "fst ?m = Inr \<lparr>STr_WorkItemID = ''i'', STr_FromState = ''todo'', STr_ToState = ''done''\<rparr>"
    by (simp add: board_transition_def one_todo_def humanStates_def phaseTransitionAllowed_def terminalStates_def
        aff_key_def sql_affected_def Let_def)
  have "?m = (Inr \<lparr>STr_WorkItemID = ''i'', STr_FromState = ''todo'', STr_ToState = ''done''\<rparr>, snd ?m)"
    using f by (simp add: prod_eq_iff)
  from board_move_is_guarded [OF wf_one_todo this] show ?thesis by (auto simp: one_todo_def)
qed

section \<open>Properties of the settle\<close>

definition summaries :: "string \<Rightarrow> string \<Rightarrow> prod_db \<Rightarrow> nat" where
  "summaries item runID db =
     sql_affected (\<lambda>c. cm_item c = item \<and> cm_run c = Some runID \<and> cm_kind c = Some ''summary'') (pd_comments db)"

lemma has_summary_iff: "runID \<noteq> [] \<Longrightarrow> has_summary item runID db \<longleftrightarrow> summaries item runID db \<noteq> 0"
  by (auto simp: has_summary_def summaries_def sql_affected_def list_ex_iff filter_empty_conv)

lemma settle_move_frame:
  assumes "settle_move now item runID prin st lane db = (moved, db')" and "wf_prod db"
  shows "pd_claims db' = pd_claims db \<and> pd_comments db' = pd_comments db \<and> pd_outbox db' = pd_outbox db \<and>
    (\<forall>w. item_row_of db item = Some w \<and> pw_state w \<noteq> ''in_progress'' \<longrightarrow> \<not> moved \<and> (\<forall>j. item_row_of db' j = item_row_of db j)) \<and>
    (\<forall>j. item_row_of db' j = (if j = item \<and> moved then map_option (\<lambda>w. w\<lparr>pw_state := lane, pw_updated := now\<rparr>) (item_row_of db j)
                              else item_row_of db j)) \<and>
    (lane = [] \<longrightarrow> \<not> moved \<and> pd_items db' = pd_items db)"
  using assms
  by (auto simp: settle_move_def aff_key_wf [OF wf_prodD(2)] split: if_splits option.splits)

lemma SettleTerminalLane_cases:
  assumes "SettleTerminalLane flt now item runID prin st db = Inr ((lane, moved), db')"
  obtains (skip) "\<not> settleIsTerminal st" "db' = db" "\<not> moved"
  | (settled) db1 where "settleIsTerminal st" "lane = settle_lane st item db"
      "settle_move now item runID prin st lane db = (moved, db1)"
      "has_summary item runID db1 \<Longrightarrow>
        db' = db1 \<or> (\<exists>body. db' = insert_comment (terminal_comment now item prin body ''progress'' runID) db1)"
      "\<not> has_summary item runID db1 \<Longrightarrow>
        (\<exists>body. db' = insert_comment (terminal_comment now item prin body ''summary'' runID) db1)"
proof (cases "settleIsTerminal st")
  case False
  then show ?thesis using assms by (intro skip) (auto simp: SettleTerminalLane_def split: if_splits)
next
  case True
  obtain m db1 where sm: "settle_move now item runID prin st (settle_lane st item db) db = (m, db1)" by fastforce
  show ?thesis
    using assms True sm
    by (intro settled [of db1])
       (auto simp: SettleTerminalLane_def Let_def split: if_splits)
qed

text \<open>
  Settling a terminal Run respects the board and the thread: an item a human has moved out
  of in_progress keeps its lane, a succeeded Run never changes a work item, a lane change is
  only ever to todo or cancelled (never todo for a discussion item), no claim row changes, and
  a Run that had at most one summary comment has exactly one afterwards.
\<close>

theorem settle_respects_board:
  assumes "wf_prod db" and "SettleTerminalLane flt now item runID prin st db = Inr ((lane, moved), db')"
    and "settleIsTerminal st" and "runID \<noteq> []"
  shows "(\<forall>w. item_row_of db item = Some w \<and> pw_state w \<noteq> ''in_progress'' \<longrightarrow> item_row_of db' item = Some w) \<and>
    (st = ''succeeded'' \<longrightarrow> pd_items db' = pd_items db) \<and>
    (moved \<longrightarrow> lane = ''cancelled'' \<or>
       lane = ''todo'' \<and> Option.bind (item_row_of db item) pw_source \<noteq> Some ''discussion'') \<and>
    pd_claims db' = pd_claims db \<and>
    (summaries item runID db \<le> 1 \<longrightarrow> summaries item runID db' = 1)"
  using assms(2)
proof (cases rule: SettleTerminalLane_cases)
  case skip
  then show ?thesis using assms(3) by simp
next
  case (settled db1)
  note f = settle_move_frame [OF settled(3) assms(1)]
  have s1: "summaries item runID db1 = summaries item runID db" using f by (simp add: summaries_def)
  have keep: "pd_items db' = pd_items db1 \<and> pd_claims db' = pd_claims db1"
    using settled(4,5) by (cases "has_summary item runID db1") auto
  have "summaries item runID db \<le> 1 \<longrightarrow> summaries item runID db' = 1"
  proof (cases "has_summary item runID db1")
    case True
    then have "summaries item runID db' = summaries item runID db1"
      using settled(4) by (auto simp: summaries_def sql_affected_def terminal_comment_def)
    then show ?thesis using True s1 has_summary_iff [OF assms(4)] by auto
  next
    case False
    then have "summaries item runID db1 = 0" using has_summary_iff [OF assms(4)] by blast
    moreover have "summaries item runID db' = Suc (summaries item runID db1)"
      using settled(5) [OF False] assms(4)
      by (auto simp: summaries_def sql_affected_def nullable_def terminal_comment_def)
    ultimately show ?thesis by simp
  qed
  moreover have "st = ''succeeded'' \<longrightarrow> pd_items db' = pd_items db"
    using settled(2) f keep by (auto simp: settle_lane_def SettleLaneOf_def)
  moreover have "moved \<longrightarrow> lane = ''cancelled'' \<or>
       lane = ''todo'' \<and> Option.bind (item_row_of db item) pw_source \<noteq> Some ''discussion''"
    using settled(2) f by (auto simp: settle_lane_def SettleLaneOf_def split: if_splits)
  ultimately show ?thesis using f keep by auto
qed

theorem settle_respects_board_witness:
  "\<exists>lane moved db'. SettleTerminalLane (\<lambda>_. False) 5 ''i'' ''r'' ''op'' ''failed'' one_todo = Inr ((lane, moved), db') \<and>
     summaries ''i'' ''r'' db' = 1"
proof -
  have "\<exists>lane moved db'. SettleTerminalLane (\<lambda>_. False) 5 ''i'' ''r'' ''op'' ''failed'' one_todo = Inr ((lane, moved), db')"
    by (auto simp: SettleTerminalLane_def settleIsTerminal_def Let_def split: prod.splits)
  then obtain lane moved db' where
    r: "SettleTerminalLane (\<lambda>_. False) 5 ''i'' ''r'' ''op'' ''failed'' one_todo = Inr ((lane, moved), db')" by blast
  from settle_respects_board [OF wf_one_todo r] r show ?thesis
    by (auto simp: settleIsTerminal_def summaries_def sql_affected_def one_todo_def)
qed

text \<open>The lane the settle reports is the mapped one even when the item was not moved.\<close>

lemma settle_reports_unwritten_lane:
  "\<exists>db'. SettleTerminalLane (\<lambda>_. False) 5 ''i'' ''r'' ''op'' ''failed'' one_todo = Inr ((''todo'', False), db') \<and>
     pd_items db' = pd_items one_todo"
  by (simp add: SettleTerminalLane_def settleIsTerminal_def settle_lane_def SettleLaneOf_def settle_move_def
      aff_key_def sql_affected_def has_summary_def one_todo_def Let_def)

end
