(* ===== verification/Go_Sha256.thy ===== *)
theory Go_Sha256
  imports Prelude "HOL-Library.Word"
begin

text \<open>
  The digest functions of Go's standard library the coordination sources call: the SHA-256
  compression of crypto/sha256 over the bytes of a string and the lower-case rendering of
  encoding/hex. Strings are lists of bytes, as Go's are.
\<close>

unbundle bit_operations_syntax

section \<open>Constants\<close>

text \<open>
  The constants are the leading bits of the fractional parts of roots of primes: with \<open>root_bits\<close>
  the integer root of \<open>p\<close> scaled by 32 binary places, built up from the highest bit.
\<close>

fun root_bits :: "nat \<Rightarrow> int \<Rightarrow> nat \<Rightarrow> int \<Rightarrow> int" where
  "root_bits d x 0 r = r"
| "root_bits d x (Suc b) r = root_bits d x b (if (r + 2 ^ b) ^ d \<le> x then r + 2 ^ b else r)"

definition root_const :: "nat \<Rightarrow> int \<Rightarrow> 32 word" where
  "root_const d p = word_of_int (root_bits d (p * 2 ^ (32 * d)) 37 0)"

definition divides_none :: "nat list \<Rightarrow> nat \<Rightarrow> bool" where
  "divides_none ps n \<longleftrightarrow> list_all (\<lambda>q. n mod q \<noteq> 0) ps"

definition primes_below :: "nat \<Rightarrow> nat list" where
  "primes_below n = fold (\<lambda>m ps. if divides_none ps m then ps @ [m] else ps) [2..<n] []"

definition sha_k :: "32 word list" where
  "sha_k = map (\<lambda>p. root_const 3 (int p)) (primes_below 312)"

definition sha_h0 :: "32 word list" where
  "sha_h0 = map (\<lambda>p. root_const 2 (int p)) (primes_below 20)"

section \<open>Padding\<close>

definition be_bytes :: "nat \<Rightarrow> int \<Rightarrow> int list" where
  "be_bytes n v = map (\<lambda>i. v div 256 ^ i mod 256) (rev [0..<n])"

definition sha_pad :: "int list \<Rightarrow> int list" where
  "sha_pad m =
     (let l = length m; z = (119 - l mod 64) mod 64
      in m @ [128] @ replicate z 0 @ be_bytes 8 (8 * int l mod 2 ^ 64))"

fun be_words :: "int list \<Rightarrow> 32 word list" where
  "be_words (a # b # c # d # bs) = word_of_int (((a * 256 + b) * 256 + c) * 256 + d) # be_words bs"
| "be_words _ = []"

section \<open>Compression\<close>

definition rotr :: "nat \<Rightarrow> 32 word \<Rightarrow> 32 word" where
  "rotr n w = (drop_bit n w) OR (push_bit (32 - n) w)"

definition sched_next :: "32 word list \<Rightarrow> 32 word" where
  "sched_next ws =
     (let a = ws ! 14; b = ws ! 1
      in ws ! 15 + (rotr 7 a XOR rotr 18 a XOR drop_bit 3 a) + ws ! 6 +
         (rotr 17 b XOR rotr 19 b XOR drop_bit 10 b))"

text \<open>The schedule is built newest word first.\<close>

fun sched :: "nat \<Rightarrow> 32 word list \<Rightarrow> 32 word list" where
  "sched 0 ws = ws"
| "sched (Suc n) ws = sched n (sched_next ws # ws)"

fun sha_round :: "32 word \<times> 32 word \<Rightarrow> 32 word list \<Rightarrow> 32 word list" where
  "sha_round (k, w) [a, b, c, d, e, f, g, h] =
     (let t1 = h + (rotr 6 e XOR rotr 11 e XOR rotr 25 e) + ((e AND f) XOR (NOT e AND g)) + k + w;
          t2 = (rotr 2 a XOR rotr 13 a XOR rotr 22 a) + ((a AND b) XOR (a AND c) XOR (b AND c))
      in [t1 + t2, a, b, c, d + t1, e, f, g])"
| "sha_round _ st = st"

definition sha_block :: "32 word list \<Rightarrow> 32 word list \<Rightarrow> 32 word list" where
  "sha_block h block = map2 (+) h (fold sha_round (zip sha_k (rev (sched 48 (rev block)))) h)"

function sha_blocks :: "32 word list \<Rightarrow> 32 word list \<Rightarrow> 32 word list" where
  "sha_blocks h ws = (if ws = [] then h else sha_blocks (sha_block h (take 16 ws)) (drop 16 ws))"
  by pat_completeness auto
termination by (relation "measure (\<lambda>(h, ws). length ws)") auto

declare sha_blocks.simps [simp del]

section \<open>Digests\<close>

definition hex_digit :: "int \<Rightarrow> char" where
  "hex_digit n = ''0123456789abcdef'' ! nat (n mod 16)"

definition hex_byte :: "int \<Rightarrow> string" where
  "hex_byte b = [hex_digit (b div 16), hex_digit b]"

definition sha256 :: "string \<Rightarrow> int list" where
  "sha256 s = concat (map (\<lambda>w. be_bytes 4 (uint w)) (sha_blocks sha_h0 (be_words (sha_pad (map of_char s)))))"

definition sha256_hex :: "string \<Rightarrow> string" where
  "sha256_hex s = concat (map hex_byte (sha256 s))"

section \<open>A digest has 64 digits\<close>

lemma sha_round_length [simp]: "length (sha_round kw st) = length st"
  by (cases "(kw, st)" rule: sha_round.cases) (simp_all add: Let_def)

lemma sha_rounds_length [simp]: "length (fold sha_round kws st) = length st"
  by (induction kws arbitrary: st) simp_all

lemma sha_blocks_length: "length (sha_blocks h ws) = length h"
  by (induction h ws rule: sha_blocks.induct) (subst sha_blocks.simps, simp add: sha_block_def)

lemma sha_h0_length: "length sha_h0 = 8"
proof -
  have "length (primes_below 20) = 8" by code_simp
  then show ?thesis by (simp add: sha_h0_def)
qed

lemma sha256_hex_length: "length (sha256_hex s) = 64"
proof -
  have c: "length (concat (map (\<lambda>x. f x) xs)) = n * length xs" if "\<And>x. length (f x) = n" for f :: "'a \<Rightarrow> 'b list" and xs n
    using that by (induction xs) simp_all
  have "length (sha256 s) = 32"
    unfolding sha256_def
    by (subst c [of _ 4]) (simp_all add: be_bytes_def sha_blocks_length sha_h0_length)
  then show ?thesis unfolding sha256_hex_def by (subst c [of _ 2]) (simp_all add: hex_byte_def)
qed

end
