(* ===== verification/Prod_Effects.thy ===== *)
theory Prod_Effects
  imports Prod_Board Go_Sha256
begin

text \<open>
  The production binding of the machine's effects (pkg/coord/prodeffects.go): the warm-pool
  bind, the A2A dispatch, the artifact registration and the terminal transition, each keyed by a
  durable marker of the Run. The physical mechanisms are ports: a port is a function of the
  calls made so far, so it may answer anything at any time; every call is recorded with its
  answer. The environment says, for the n-th effect, which statements fail and what the clock
  reads.
\<close>

section \<open>Ports\<close>

record BuildSnapshot =
  Snap_URI :: string
  Snap_SHA256 :: string
  Snap_Meta :: "json option"

datatype phys =
  BindCall string "string + string"
| CredCall string string "string option"
| ObserveCall string string "string option"
| SubmitCall string string "string option"
| SnapshotCall "string + BuildSnapshot"

record ProdEffects =
  pe_workItemID :: string
  pe_runID :: string
  pe_principal :: string
  pe_initiatedBy :: string
  pe_binder :: "(phys list \<Rightarrow> string \<Rightarrow> string + string) option"
  pe_dispatcher :: "(phys list \<Rightarrow> string \<Rightarrow> string \<Rightarrow> string option) option"
  pe_snapshotter :: "(phys list \<Rightarrow> string + BuildSnapshot) option"
  pe_credWriter :: "(phys list \<Rightarrow> string \<Rightarrow> string \<Rightarrow> string option) option"
  pe_refObserver :: "(phys list \<Rightarrow> string \<Rightarrow> string \<Rightarrow> string option) option"

definition NewProdEffects ::
  "bool \<Rightarrow> string \<Rightarrow> string \<Rightarrow> string \<Rightarrow> string \<Rightarrow> (phys list \<Rightarrow> string \<Rightarrow> string + string) option \<Rightarrow>
   (phys list \<Rightarrow> string \<Rightarrow> string \<Rightarrow> string option) option \<Rightarrow> string + ProdEffects" where
  "NewProdEffects nil_db workItemID runID prin initiatedByUserID binder dispatcher =
     (if nil_db then Inl ''coord.NewProdEffects: nil db''
      else if workItemID = [] \<or> runID = [] \<or> prin = []
        then Inl ''coord.NewProdEffects: workItemID, runID and principal are required''
      else Inr \<lparr>pe_workItemID = workItemID, pe_runID = runID, pe_principal = prin, pe_initiatedBy = initiatedByUserID,
                pe_binder = binder, pe_dispatcher = dispatcher, pe_snapshotter = None, pe_credWriter = None,
                pe_refObserver = None\<rparr>)"

definition WithSnapshotter :: "(phys list \<Rightarrow> string + BuildSnapshot) option \<Rightarrow> ProdEffects \<Rightarrow> ProdEffects" where
  "WithSnapshotter s e = e\<lparr>pe_snapshotter := s\<rparr>"

definition WithRunCredentialWriter ::
  "(phys list \<Rightarrow> string \<Rightarrow> string \<Rightarrow> string option) option \<Rightarrow> ProdEffects \<Rightarrow> ProdEffects" where
  "WithRunCredentialWriter w e = e\<lparr>pe_credWriter := w\<rparr>"

definition WithSandboxRefObserver ::
  "(phys list \<Rightarrow> string \<Rightarrow> string \<Rightarrow> string option) option \<Rightarrow> ProdEffects \<Rightarrow> ProdEffects" where
  "WithSandboxRefObserver ob e = e\<lparr>pe_refObserver := ob\<rparr>"

record effects_state =
  ef_db :: prod_db
  ef_err :: "string option"
  ef_calls :: nat
  ef_log :: "phys list"

definition ProdEffects_fail :: "string \<Rightarrow> effects_state \<Rightarrow> effects_state" where
  "ProdEffects_fail e s = (if ef_err s = None then s\<lparr>ef_err := Some e\<rparr> else s)"

definition call_binder :: "ProdEffects \<Rightarrow> effects_state \<Rightarrow> (string + string) \<times> effects_state" where
  "call_binder P s =
     (case pe_binder P of
        None \<Rightarrow> (Inr [], s)
      | Some b \<Rightarrow> (let r = b (ef_log s) (pe_runID P) in (r, s\<lparr>ef_log := ef_log s @ [BindCall (pe_runID P) r]\<rparr>)))"

definition call_cred :: "ProdEffects \<Rightarrow> string \<Rightarrow> effects_state \<Rightarrow> string option \<times> effects_state" where
  "call_cred P ref s =
     (case pe_credWriter P of
        None \<Rightarrow> (None, s)
      | Some w \<Rightarrow>
          if ref = [] then (None, s)
          else (let r = w (ef_log s) (pe_runID P) ref in (r, s\<lparr>ef_log := ef_log s @ [CredCall (pe_runID P) ref r]\<rparr>)))"

definition call_observer :: "ProdEffects \<Rightarrow> string \<Rightarrow> effects_state \<Rightarrow> string option \<times> effects_state" where
  "call_observer P ref s =
     (case pe_refObserver P of
        None \<Rightarrow> (None, s)
      | Some w \<Rightarrow>
          if ref = [] then (None, s)
          else (let r = w (ef_log s) (pe_runID P) ref in (r, s\<lparr>ef_log := ef_log s @ [ObserveCall (pe_runID P) ref r]\<rparr>)))"

definition call_submit :: "ProdEffects \<Rightarrow> string \<Rightarrow> effects_state \<Rightarrow> string option \<times> effects_state" where
  "call_submit P task s =
     (case pe_dispatcher P of
        None \<Rightarrow> (None, s)
      | Some d \<Rightarrow>
          (let r = d (ef_log s) task (pe_runID P) in (r, s\<lparr>ef_log := ef_log s @ [SubmitCall task (pe_runID P) r]\<rparr>)))"

section \<open>Statements\<close>

definition effect_row :: "ProdEffects \<Rightarrow> instant \<Rightarrow> string \<Rightarrow> Step \<Rightarrow> audit_row" where
  "effect_row P now event to =
     \<lparr>au_item = pe_workItemID P, au_run = Some (pe_runID P), au_event = event, au_principal = pe_principal P,
      au_initiated = nullable (pe_initiatedBy P), au_fence = None, au_from = None, au_to = Some (step_name to),
      au_payload = [], au_created = now\<rparr>"

definition ProdEffects_audit :: "ProdEffects \<Rightarrow> dbfaults \<Rightarrow> instant \<Rightarrow> string \<Rightarrow> Step \<Rightarrow> effects_state \<Rightarrow> effects_state" where
  "ProdEffects_audit P flt now event to s =
     (if flt (''audit '' @ event) then ProdEffects_fail (''coord.ProdEffects.audit: '' @ event) s
      else s\<lparr>ef_db := insert_audit (effect_row P now event to) (ef_db s)\<rparr>)"

definition insert_sandbox :: "sandbox_row \<Rightarrow> prod_db \<Rightarrow> prod_db" where
  "insert_sandbox r db =
     (if lookup_by bx_run (bx_run r) (pd_sandboxes db) = None then db\<lparr>pd_sandboxes := pd_sandboxes db @ [r]\<rparr> else db)"

definition insert_a2a :: "a2a_row \<Rightarrow> prod_db \<Rightarrow> nat \<times> prod_db" where
  "insert_a2a r db =
     (if lookup_by da_task (da_task r) (pd_a2a db) = None then (1, db\<lparr>pd_a2a := pd_a2a db @ [r]\<rparr>) else (0, db))"

definition artifact_key :: "artifact_row \<Rightarrow> string \<times> string option \<times> string" where
  "artifact_key r = (ar_item r, ar_run r, ar_kind r)"

definition insert_artifact :: "artifact_row \<Rightarrow> prod_db \<Rightarrow> nat \<times> prod_db" where
  "insert_artifact r db =
     (if lookup_by artifact_key (artifact_key r) (pd_artifacts db) = None
      then (1, db\<lparr>pd_artifacts := pd_artifacts db @ [r]\<rparr>) else (0, db))"

section \<open>Names\<close>

definition has_prefix :: "string \<Rightarrow> string \<Rightarrow> bool" where
  "has_prefix p s \<longleftrightarrow> take (length p) s = p"

definition boundTaskID :: "ProdEffects \<Rightarrow> string \<Rightarrow> string" where
  "boundTaskID P taskID =
     (if taskID = RunID then pe_runID P
      else if has_prefix RunID taskID then pe_runID P @ drop (length RunID) taskID
      else pe_runID P @ ''/'' @ taskID)"

text \<open>The part after the last slash, unless the key has none or ends with it.\<close>

definition artifactKind :: "string \<Rightarrow> string" where
  "artifactKind key =
     (let seg = rev (takeWhile (\<lambda>c. c \<noteq> CHR ''/'') (rev key)) in if seg = [] then key else seg)"

section \<open>The effects\<close>

text \<open>What follows the marker lookup of a bind: the physical calls, the marker and its audit row.\<close>

definition bind_provision :: "ProdEffects \<Rightarrow> dbfaults \<Rightarrow> instant \<Rightarrow> effects_state \<Rightarrow> effects_state" where
  "bind_provision P flt now s =
     (case call_binder P s of
        (Inl e, s1) \<Rightarrow> ProdEffects_fail (''coord.ProdEffects.BindSandbox: bind: '' @ e) s1
      | (Inr ref, s1) \<Rightarrow>
          (case call_cred P ref s1 of
             (Some e, s2) \<Rightarrow> ProdEffects_fail (''coord.ProdEffects.BindSandbox: write run credential: '' @ e) s2
           | (None, s2) \<Rightarrow>
               (case call_observer P ref s2 of
                  (Some e, s3) \<Rightarrow> ProdEffects_fail (''coord.ProdEffects.BindSandbox: observe sandbox ref: '' @ e) s3
                | (None, s3) \<Rightarrow>
                    if flt ''marker'' then ProdEffects_fail ''coord.ProdEffects.BindSandbox: marker'' s3
                    else ProdEffects_audit P flt now ''sandbox_bound'' StepClaimingSandbox
                           (s3\<lparr>ef_db := insert_sandbox \<lparr>bx_run = pe_runID P, bx_item = pe_workItemID P, bx_ref = ref,
                                 bx_by = pe_principal P, bx_at = now\<rparr> (ef_db s3)\<rparr>))))"

definition ProdEffects_BindSandbox :: "ProdEffects \<Rightarrow> store_env \<Rightarrow> string \<Rightarrow> bool \<Rightarrow> effects_state \<Rightarrow> effects_state" where
  "ProdEffects_BindSandbox P env runID keyed s =
     (if ef_err s \<noteq> None then s
      else case env (ef_calls s) of (flt, now) \<Rightarrow>
        let s0 = s\<lparr>ef_calls := Suc (ef_calls s)\<rparr> in
        if \<not> keyed then
          (case call_binder P s0 of
             (Inl e, s1) \<Rightarrow> ProdEffects_fail (''coord.ProdEffects.BindSandbox: naive bind: '' @ e) s1
           | (Inr _, s1) \<Rightarrow> s1)
        else if flt ''lookup'' then ProdEffects_fail ''coord.ProdEffects.BindSandbox: lookup'' s0
        else if lookup_by bx_run (pe_runID P) (pd_sandboxes (ef_db s0)) \<noteq> None then s0
        else bind_provision P flt now s0)"

text \<open>What follows the marker lookup of a dispatch: submit, then mark.\<close>

definition dispatch_submit :: "ProdEffects \<Rightarrow> dbfaults \<Rightarrow> instant \<Rightarrow> string \<Rightarrow> effects_state \<Rightarrow> effects_state" where
  "dispatch_submit P flt now a2aTaskID s =
     (case call_submit P a2aTaskID s of
        (Some e, s1) \<Rightarrow> ProdEffects_fail (''coord.ProdEffects.Dispatch: submit: '' @ e) s1
      | (None, s1) \<Rightarrow>
          if flt ''marker'' then ProdEffects_fail ''coord.ProdEffects.Dispatch: marker'' s1
          else (case insert_a2a \<lparr>da_task = a2aTaskID, da_run = pe_runID P, da_item = pe_workItemID P,
                       da_dispatched = now, da_settled = None, da_outcome = None\<rparr> (ef_db s1) of
                  (n, db1) \<Rightarrow>
                    let s2 = s1\<lparr>ef_db := db1\<rparr> in
                    if flt ''rows'' then ProdEffects_fail ''coord.ProdEffects.Dispatch: rows'' s2
                    else if n = 1 then ProdEffects_audit P flt now ''a2a_dispatched'' StepDispatching s2 else s2))"

definition ProdEffects_Dispatch :: "ProdEffects \<Rightarrow> store_env \<Rightarrow> string \<Rightarrow> bool \<Rightarrow> effects_state \<Rightarrow> effects_state" where
  "ProdEffects_Dispatch P env taskID dedup s =
     (if ef_err s \<noteq> None then s
      else case env (ef_calls s) of (flt, now) \<Rightarrow>
        let s0 = s\<lparr>ef_calls := Suc (ef_calls s)\<rparr>; a2aTaskID = boundTaskID P taskID in
        if \<not> dedup then
          (case call_submit P a2aTaskID s0 of
             (Some e, s1) \<Rightarrow> ProdEffects_fail (''coord.ProdEffects.Dispatch: naive submit: '' @ e) s1
           | (None, s1) \<Rightarrow> s1)
        else if flt ''lookup'' then ProdEffects_fail ''coord.ProdEffects.Dispatch: lookup'' s0
        else if lookup_by da_task a2aTaskID (pd_a2a (ef_db s0)) \<noteq> None then s0
        else dispatch_submit P flt now a2aTaskID s0)"

definition collectBuildSnapshot :: "ProdEffects \<Rightarrow> dbfaults \<Rightarrow> instant \<Rightarrow> effects_state \<Rightarrow> effects_state" where
  "collectBuildSnapshot P flt now s =
     (if ef_err s \<noteq> None then s
      else case pe_snapshotter P of
        None \<Rightarrow> s
      | Some sn \<Rightarrow>
          let r = sn (ef_log s); s1 = s\<lparr>ef_log := ef_log s @ [SnapshotCall r]\<rparr> in
          case r of
            Inl e \<Rightarrow> ProdEffects_audit P flt now ''build_snapshot_unavailable'' StepCollecting s1
          | Inr snap \<Rightarrow>
              let meta = (case Snap_Meta snap of None \<Rightarrow> [] | Some m \<Rightarrow> m) in
              if flt ''marshal meta'' then ProdEffects_fail ''coord.ProdEffects.collectBuildSnapshot: marshal meta'' s1
              else if flt ''snapshot upsert'' then ProdEffects_fail ''coord.ProdEffects.collectBuildSnapshot: upsert'' s1
              else (case insert_artifact \<lparr>ar_item = pe_workItemID P, ar_run = Some (pe_runID P), ar_kind = ''build-snapshot'',
                           ar_uri = Snap_URI snap, ar_sha = Snap_SHA256 snap, ar_meta = Some meta, ar_created = now\<rparr> (ef_db s1) of
                      (n, db1) \<Rightarrow>
                        let s2 = s1\<lparr>ef_db := db1\<rparr> in
                        if flt ''snapshot rows'' then ProdEffects_fail ''coord.ProdEffects.collectBuildSnapshot: rows'' s2
                        else if n = 1 then ProdEffects_audit P flt now ''build_snapshot_registered'' StepCollecting s2 else s2))"

definition ProdEffects_Collect ::
  "ProdEffects \<Rightarrow> store_env \<Rightarrow> string \<Rightarrow> string \<Rightarrow> bool \<Rightarrow> effects_state \<Rightarrow> effects_state" where
  "ProdEffects_Collect P env key content upsert s =
     (if ef_err s \<noteq> None then s
      else case env (ef_calls s) of (flt, now) \<Rightarrow>
        let s0 = s\<lparr>ef_calls := Suc (ef_calls s)\<rparr>;
            kind = artifactKind key;
            sha = sha256_hex content;
            row = \<lparr>ar_item = pe_workItemID P, ar_run = Some (pe_runID P), ar_kind = kind, ar_uri = ''sha256:'' @ sha,
                   ar_sha = sha, ar_meta = None, ar_created = now\<rparr> in
        if \<not> upsert then
          (if flt ''naive count'' then ProdEffects_fail ''coord.ProdEffects.Collect: naive count'' s0
           else let n = sql_affected (\<lambda>r. ar_item r = pe_workItemID P \<and> ar_run r = Some (pe_runID P)) (pd_artifacts (ef_db s0)) in
             case insert_artifact (row\<lparr>ar_kind := kind @ ''#'' @ nat_str n\<rparr>) (ef_db s0) of
               (m, db1) \<Rightarrow>
                 if flt ''naive insert'' \<or> m = 0 then ProdEffects_fail ''coord.ProdEffects.Collect: naive insert'' s0
                 else s0\<lparr>ef_db := db1\<rparr>)
        else if flt ''upsert'' then ProdEffects_fail ''coord.ProdEffects.Collect: upsert'' s0
        else (case insert_artifact row (ef_db s0) of
                (n, db1) \<Rightarrow>
                  let s1 = s0\<lparr>ef_db := db1\<rparr> in
                  if flt ''rows'' then ProdEffects_fail ''coord.ProdEffects.Collect: rows'' s1
                  else collectBuildSnapshot P flt now
                         (if n = 1 then ProdEffects_audit P flt now ''artifact_registered'' StepCollecting s1 else s1)))"

text \<open>The terminal transition: release, record, settle, in one transaction.\<close>

definition own_checkout :: "ProdEffects \<Rightarrow> prod_claim \<Rightarrow> bool" where
  "own_checkout P r \<longleftrightarrow> pc_run r = Some (pe_runID P) \<and> pc_holder r = Some (pe_principal P)"

definition released_row :: "prod_claim \<Rightarrow> prod_claim" where
  "released_row r = r\<lparr>pc_fence := pc_fence r + 1, pc_holder := None, pc_lease := None, pc_renewed := None\<rparr>"

definition terminal_tx ::
  "ProdEffects \<Rightarrow> dbfaults \<Rightarrow> instant \<Rightarrow> Step \<Rightarrow> prod_db \<Rightarrow> string + prod_db" where
  "terminal_tx P flt now st db =
     (if flt ''begin'' then Inl ''coord.ProdEffects.Terminal: begin''
      else if flt ''release'' then Inl ''coord.ProdEffects.Terminal: release''
      else
        let rel = row_key pc_item (pe_workItemID P) (own_checkout P) (pd_claims db);
            db1 = db\<lparr>pd_claims := upd_key pc_item (pe_workItemID P) (own_checkout P) released_row (pd_claims db)\<rparr>;
            db2 = insert_audit (effect_row P now ''run_terminal'' st) db1;
            db3 = (case rel of
                     None \<Rightarrow> db2
                   | Some r \<Rightarrow> insert_audit ((effect_row P now ''claim_released'' st)\<lparr>au_fence := Some (pc_fence r + 1)\<rparr>) db2)
        in if flt ''audit'' then Inl ''coord.ProdEffects.Terminal: audit''
           else if rel \<noteq> None \<and> flt ''claim_released audit'' then Inl ''coord.ProdEffects.Terminal: claim_released audit''
           else case SettleTerminalLane (\<lambda>x. flt (''settle '' @ x)) now (pe_workItemID P) (pe_runID P) (pe_principal P)
                       (step_name st) db3 of
             Inl e \<Rightarrow> Inl (''coord.ProdEffects.Terminal: settle: '' @ e)
           | Inr (lm, db4) \<Rightarrow> if flt ''commit'' then Inl ''coord.ProdEffects.Terminal: commit'' else Inr db4)"

definition ProdEffects_Terminal :: "ProdEffects \<Rightarrow> store_env \<Rightarrow> Step \<Rightarrow> effects_state \<Rightarrow> effects_state" where
  "ProdEffects_Terminal P env st s =
     (if ef_err s \<noteq> None then s
      else case env (ef_calls s) of (flt, now) \<Rightarrow>
        let s0 = s\<lparr>ef_calls := Suc (ef_calls s)\<rparr> in
        case terminal_tx P flt now st (ef_db s) of
          Inl e \<Rightarrow> ProdEffects_fail e s0
        | Inr db' \<Rightarrow> s0\<lparr>ef_db := db'\<rparr>)"

definition prodEffects :: "ProdEffects \<Rightarrow> store_env \<Rightarrow> effects_state Effects" where
  "prodEffects P env =
     \<lparr>Effects_BindSandbox = ProdEffects_BindSandbox P env,
      Effects_Dispatch = ProdEffects_Dispatch P env,
      Effects_Collect = ProdEffects_Collect P env,
      Effects_Terminal = ProdEffects_Terminal P env,
      Effects_Err = Some ef_err\<rparr>"

section \<open>What each effect may do\<close>

text \<open>The physical calls behind a committed bind marker and a committed dispatch marker.\<close>

definition bind_evidence :: "ProdEffects \<Rightarrow> sandbox_row \<Rightarrow> phys list \<Rightarrow> bool" where
  "bind_evidence P r log \<longleftrightarrow>
     (pe_binder P \<noteq> None \<longrightarrow> BindCall (pe_runID P) (Inr (bx_ref r)) \<in> set log) \<and>
     (pe_credWriter P \<noteq> None \<and> bx_ref r \<noteq> [] \<longrightarrow> CredCall (pe_runID P) (bx_ref r) None \<in> set log) \<and>
     (pe_refObserver P \<noteq> None \<and> bx_ref r \<noteq> [] \<longrightarrow> ObserveCall (pe_runID P) (bx_ref r) None \<in> set log)"

definition submit_evidence :: "ProdEffects \<Rightarrow> string \<Rightarrow> phys list \<Rightarrow> bool" where
  "submit_evidence P task log \<longleftrightarrow> (pe_dispatcher P \<noteq> None \<longrightarrow> SubmitCall task (pe_runID P) None \<in> set log)"

definition log_extends :: "effects_state \<Rightarrow> effects_state \<Rightarrow> bool" where
  "log_extends s s' \<longleftrightarrow> (\<exists>l. ef_log s' = ef_log s @ l)"

text \<open>The tables no effect but the terminal one writes.\<close>

definition same_custody :: "prod_db \<Rightarrow> prod_db \<Rightarrow> bool" where
  "same_custody db db' \<longleftrightarrow> pd_claims db' = pd_claims db \<and> pd_items db' = pd_items db \<and> pd_outbox db' = pd_outbox db \<and>
     pd_seq db' = pd_seq db \<and> pd_comments db' = pd_comments db"

lemma call_binder_cases:
  assumes "call_binder P s = (r, s1)"
  shows "ef_db s1 = ef_db s \<and> ef_err s1 = ef_err s \<and> ef_calls s1 = ef_calls s \<and>
    (pe_binder P = None \<and> r = Inr [] \<and> ef_log s1 = ef_log s \<or>
     pe_binder P \<noteq> None \<and> ef_log s1 = ef_log s @ [BindCall (pe_runID P) r])"
  using assms by (auto simp: call_binder_def Let_def split: option.splits)

lemma call_cred_cases:
  assumes "call_cred P ref s = (r, s1)"
  shows "ef_db s1 = ef_db s \<and> ef_err s1 = ef_err s \<and> ef_calls s1 = ef_calls s \<and>
    ((pe_credWriter P = None \<or> ref = []) \<and> r = None \<and> ef_log s1 = ef_log s \<or>
     pe_credWriter P \<noteq> None \<and> ref \<noteq> [] \<and> ef_log s1 = ef_log s @ [CredCall (pe_runID P) ref r])"
  using assms by (auto simp: call_cred_def Let_def split: option.splits if_splits)

lemma call_observer_cases:
  assumes "call_observer P ref s = (r, s1)"
  shows "ef_db s1 = ef_db s \<and> ef_err s1 = ef_err s \<and> ef_calls s1 = ef_calls s \<and>
    ((pe_refObserver P = None \<or> ref = []) \<and> r = None \<and> ef_log s1 = ef_log s \<or>
     pe_refObserver P \<noteq> None \<and> ref \<noteq> [] \<and> ef_log s1 = ef_log s @ [ObserveCall (pe_runID P) ref r])"
  using assms by (auto simp: call_observer_def Let_def split: option.splits if_splits)

lemma call_submit_cases:
  assumes "call_submit P task s = (r, s1)"
  shows "ef_db s1 = ef_db s \<and> ef_err s1 = ef_err s \<and> ef_calls s1 = ef_calls s \<and>
    (pe_dispatcher P = None \<and> r = None \<and> ef_log s1 = ef_log s \<or>
     pe_dispatcher P \<noteq> None \<and> ef_log s1 = ef_log s @ [SubmitCall task (pe_runID P) r])"
  using assms by (auto simp: call_submit_def Let_def split: option.splits)

lemma fail_sel [simp]:
  "ef_db (ProdEffects_fail e s) = ef_db s" "ef_log (ProdEffects_fail e s) = ef_log s"
  "ef_calls (ProdEffects_fail e s) = ef_calls s" "ef_err (ProdEffects_fail e s) \<noteq> None"
  by (auto simp: ProdEffects_fail_def)

lemma fail_err [simp]: "\<exists>y. ef_err (ProdEffects_fail e s) = Some y"
  by (simp add: ProdEffects_fail_def)

lemma audit_sel [simp]:
  "ef_log (ProdEffects_audit P flt now ev to s) = ef_log s"
  "ef_calls (ProdEffects_audit P flt now ev to s) = ef_calls s"
  "pd_sandboxes (ef_db (ProdEffects_audit P flt now ev to s)) = pd_sandboxes (ef_db s)"
  "pd_a2a (ef_db (ProdEffects_audit P flt now ev to s)) = pd_a2a (ef_db s)"
  "pd_artifacts (ef_db (ProdEffects_audit P flt now ev to s)) = pd_artifacts (ef_db s)"
  "pd_claims (ef_db (ProdEffects_audit P flt now ev to s)) = pd_claims (ef_db s)"
  "pd_items (ef_db (ProdEffects_audit P flt now ev to s)) = pd_items (ef_db s)"
  "pd_outbox (ef_db (ProdEffects_audit P flt now ev to s)) = pd_outbox (ef_db s)"
  "pd_seq (ef_db (ProdEffects_audit P flt now ev to s)) = pd_seq (ef_db s)"
  "pd_comments (ef_db (ProdEffects_audit P flt now ev to s)) = pd_comments (ef_db s)"
  "same_custody db (ef_db (ProdEffects_audit P flt now ev to s)) = same_custody db (ef_db s)"
  by (simp_all add: ProdEffects_audit_def same_custody_def)

lemma same_custody_refl [simp]: "same_custody db db"
  by (simp add: same_custody_def)

lemma lookup_snoc: "lookup_by pk k (t @ [r]) \<noteq> None \<longleftrightarrow> lookup_by pk k t \<noteq> None \<or> pk r = k"
  by (simp add: lookup_by_append split: option.splits)

lemma bind_provision_effect:
  assumes "bind_provision P flt now s = s'"
  shows "same_custody (ef_db s) (ef_db s') \<and> pd_a2a (ef_db s') = pd_a2a (ef_db s) \<and> pd_artifacts (ef_db s') = pd_artifacts (ef_db s) \<and>
    log_extends s s' \<and>
    (pd_sandboxes (ef_db s') = pd_sandboxes (ef_db s) \<and> (ef_err s' \<noteq> None \<or> lookup_by bx_run (pe_runID P) (pd_sandboxes (ef_db s)) \<noteq> None) \<or>
     (\<exists>r. pd_sandboxes (ef_db s') = pd_sandboxes (ef_db s) @ [r] \<and> bx_run r = pe_runID P \<and> bind_evidence P r (ef_log s')))"
proof -
  obtain r1 s1 where c1: "call_binder P s = (r1, s1)" by fastforce
  note b = call_binder_cases [OF c1]
  show ?thesis
  proof (cases r1)
    case (Inl e)
    then have "s' = ProdEffects_fail (''coord.ProdEffects.BindSandbox: bind: '' @ e) s1"
      using assms c1 by (simp add: bind_provision_def)
    then show ?thesis using b by (auto simp: log_extends_def)
  next
    case (Inr ref)
    obtain r2 s2 where c2: "call_cred P ref s1 = (r2, s2)" by fastforce
    note c = call_cred_cases [OF c2]
    show ?thesis
    proof (cases r2)
      case (Some e)
      then have "s' = ProdEffects_fail (''coord.ProdEffects.BindSandbox: write run credential: '' @ e) s2"
        using assms c1 c2 Inr by (simp add: bind_provision_def)
      then show ?thesis using b c by (auto simp: log_extends_def)
    next
      case None
      obtain r3 s3 where c3: "call_observer P ref s2 = (r3, s3)" by fastforce
      note o = call_observer_cases [OF c3]
      have db3: "ef_db s3 = ef_db s" and ext: "log_extends s s3"
        using b c o by (auto simp: log_extends_def)
      let ?row = "\<lparr>bx_run = pe_runID P, bx_item = pe_workItemID P, bx_ref = ref, bx_by = pe_principal P, bx_at = now\<rparr>"
      have s': "s' = (case r3 of Some e \<Rightarrow> ProdEffects_fail (''coord.ProdEffects.BindSandbox: observe sandbox ref: '' @ e) s3
          | None \<Rightarrow> if flt ''marker'' then ProdEffects_fail ''coord.ProdEffects.BindSandbox: marker'' s3
             else ProdEffects_audit P flt now ''sandbox_bound'' StepClaimingSandbox (s3\<lparr>ef_db := insert_sandbox ?row (ef_db s3)\<rparr>))"
        using assms c1 c2 c3 Inr None by (simp add: bind_provision_def split: option.splits)
      have ev: "r3 = None \<Longrightarrow> bind_evidence P ?row (ef_log s3)"
        using b c o Inr None by (auto simp: bind_evidence_def)
      show ?thesis
        using s' db3 ext ev
        by (auto simp: insert_sandbox_def same_custody_def log_extends_def split: option.splits if_splits)
    qed
  qed
qed

lemma BindSandbox_effect:
  assumes "ProdEffects_BindSandbox P env r True s = s'"
  shows "same_custody (ef_db s) (ef_db s') \<and> pd_a2a (ef_db s') = pd_a2a (ef_db s) \<and> pd_artifacts (ef_db s') = pd_artifacts (ef_db s) \<and>
    log_extends s s' \<and>
    (pd_sandboxes (ef_db s') = pd_sandboxes (ef_db s) \<or>
     (\<exists>r. pd_sandboxes (ef_db s') = pd_sandboxes (ef_db s) @ [r] \<and> bx_run r = pe_runID P \<and> bind_evidence P r (ef_log s'))) \<and>
    (ef_err s' = None \<longrightarrow> lookup_by bx_run (pe_runID P) (pd_sandboxes (ef_db s')) \<noteq> None) \<and>
    (lookup_by bx_run (pe_runID P) (pd_sandboxes (ef_db s)) \<noteq> None \<longrightarrow> ef_log s' = ef_log s \<and> ef_db s' = ef_db s)"
proof -
  obtain flt now where e: "env (ef_calls s) = (flt, now)" by fastforce
  let ?s0 = "s\<lparr>ef_calls := Suc (ef_calls s)\<rparr>"
  show ?thesis
  proof (cases "ef_err s \<noteq> None \<or> flt ''lookup'' \<or> lookup_by bx_run (pe_runID P) (pd_sandboxes (ef_db s)) \<noteq> None")
    case True
    then show ?thesis using assms e
      by (auto simp: ProdEffects_BindSandbox_def log_extends_def Let_def split: if_splits)
  next
    case False
    then have "bind_provision P flt now ?s0 = s'" using assms e by (simp add: ProdEffects_BindSandbox_def Let_def)
    from bind_provision_effect [OF this] False show ?thesis by (auto simp: log_extends_def lookup_snoc [simplified])
  qed
qed

lemma dispatch_submit_effect:
  assumes "dispatch_submit P flt now task s = s'"
  shows "same_custody (ef_db s) (ef_db s') \<and> pd_sandboxes (ef_db s') = pd_sandboxes (ef_db s) \<and>
    pd_artifacts (ef_db s') = pd_artifacts (ef_db s) \<and> log_extends s s' \<and>
    (pd_a2a (ef_db s') = pd_a2a (ef_db s) \<and> (ef_err s' \<noteq> None \<or> lookup_by da_task task (pd_a2a (ef_db s)) \<noteq> None) \<or>
     (\<exists>r. pd_a2a (ef_db s') = pd_a2a (ef_db s) @ [r] \<and> lookup_by da_task task (pd_a2a (ef_db s)) = None \<and> da_task r = task \<and>
        da_run r = pe_runID P \<and> submit_evidence P task (ef_log s')))"
proof -
  obtain r1 s1 where c1: "call_submit P task s = (r1, s1)" by fastforce
  note b = call_submit_cases [OF c1]
  show ?thesis
  proof (cases r1)
    case (Some e)
    then have "s' = ProdEffects_fail (''coord.ProdEffects.Dispatch: submit: '' @ e) s1"
      using assms c1 by (simp add: dispatch_submit_def)
    then show ?thesis using b by (auto simp: log_extends_def)
  next
    case None
    let ?row = "\<lparr>da_task = task, da_run = pe_runID P, da_item = pe_workItemID P, da_dispatched = now,
        da_settled = None, da_outcome = None\<rparr>"
    have db: "ef_db s1 = ef_db s" and ext: "log_extends s s1" and ev: "submit_evidence P task (ef_log s1)"
      using b None by (auto simp: log_extends_def submit_evidence_def)
    obtain n db1 where ins: "insert_a2a ?row (ef_db s1) = (n, db1)" by fastforce
    have s': "s' = (if flt ''marker'' then ProdEffects_fail ''coord.ProdEffects.Dispatch: marker'' s1
        else if flt ''rows'' then ProdEffects_fail ''coord.ProdEffects.Dispatch: rows'' (s1\<lparr>ef_db := db1\<rparr>)
        else if n = 1 then ProdEffects_audit P flt now ''a2a_dispatched'' StepDispatching (s1\<lparr>ef_db := db1\<rparr>) else s1\<lparr>ef_db := db1\<rparr>)"
      using assms c1 None by (auto simp: dispatch_submit_def ins Let_def)
    show ?thesis
    proof (cases "lookup_by da_task task (pd_a2a (ef_db s)) = None")
      case True
      then have "n = 1 \<and> db1 = (ef_db s)\<lparr>pd_a2a := pd_a2a (ef_db s) @ [?row]\<rparr>" using ins db by (simp add: insert_a2a_def)
      then show ?thesis using s' db ext ev True by (auto simp: log_extends_def same_custody_def)
    next
      case False
      then have "n = 0 \<and> db1 = ef_db s" using ins db by (auto simp: insert_a2a_def)
      then show ?thesis using s' db ext False by (auto simp: log_extends_def)
    qed
  qed
qed

lemma Dispatch_effect:
  assumes "ProdEffects_Dispatch P env t True s = s'"
  shows "same_custody (ef_db s) (ef_db s') \<and> pd_sandboxes (ef_db s') = pd_sandboxes (ef_db s) \<and>
    pd_artifacts (ef_db s') = pd_artifacts (ef_db s) \<and> log_extends s s' \<and>
    (pd_a2a (ef_db s') = pd_a2a (ef_db s) \<or>
     (\<exists>r. pd_a2a (ef_db s') = pd_a2a (ef_db s) @ [r] \<and> lookup_by da_task (boundTaskID P t) (pd_a2a (ef_db s)) = None \<and>
        da_task r = boundTaskID P t \<and> da_run r = pe_runID P \<and> submit_evidence P (boundTaskID P t) (ef_log s'))) \<and>
    (ef_err s' = None \<longrightarrow> lookup_by da_task (boundTaskID P t) (pd_a2a (ef_db s')) \<noteq> None) \<and>
    (lookup_by da_task (boundTaskID P t) (pd_a2a (ef_db s)) \<noteq> None \<longrightarrow> ef_log s' = ef_log s \<and> ef_db s' = ef_db s)"
proof -
  obtain flt now where e: "env (ef_calls s) = (flt, now)" by fastforce
  let ?s0 = "s\<lparr>ef_calls := Suc (ef_calls s)\<rparr>"
  show ?thesis
  proof (cases "ef_err s \<noteq> None \<or> flt ''lookup'' \<or> lookup_by da_task (boundTaskID P t) (pd_a2a (ef_db s)) \<noteq> None")
    case True
    then show ?thesis using assms e
      by (auto simp: ProdEffects_Dispatch_def log_extends_def Let_def split: if_splits)
  next
    case False
    then have "dispatch_submit P flt now (boundTaskID P t) ?s0 = s'" using assms e by (simp add: ProdEffects_Dispatch_def Let_def)
    from dispatch_submit_effect [OF this] False show ?thesis by (auto simp: log_extends_def lookup_snoc [simplified])
  qed
qed

lemma insert_artifact_cases:
  assumes "insert_artifact r db = (n, db')"
  shows "same_custody db db' \<and> pd_a2a db' = pd_a2a db \<and> pd_sandboxes db' = pd_sandboxes db \<and> pd_audit db' = pd_audit db \<and>
    lookup_by artifact_key (artifact_key r) (pd_artifacts db') \<noteq> None \<and>
    (n = 0 \<and> db' = db \<or> n = 1 \<and> lookup_by artifact_key (artifact_key r) (pd_artifacts db) = None \<and> pd_artifacts db' = pd_artifacts db @ [r])"
  using assms by (auto simp: insert_artifact_def same_custody_def lookup_by_append split: if_splits option.splits)

lemma collectBuildSnapshot_effect:
  assumes "collectBuildSnapshot P flt now s = s'"
  shows "same_custody (ef_db s) (ef_db s') \<and> pd_sandboxes (ef_db s') = pd_sandboxes (ef_db s) \<and>
    pd_a2a (ef_db s') = pd_a2a (ef_db s) \<and> log_extends s s' \<and>
    (\<exists>l. pd_artifacts (ef_db s') = pd_artifacts (ef_db s) @ l)"
proof (cases "pe_snapshotter P")
  case None
  then show ?thesis using assms by (auto simp: collectBuildSnapshot_def log_extends_def)
next
  case (Some sn)
  show ?thesis
  proof (cases "sn (ef_log s)")
    case (Inl e)
    then show ?thesis using assms Some by (auto simp: collectBuildSnapshot_def log_extends_def Let_def)
  next
    case (Inr snap)
    let ?row = "\<lparr>ar_item = pe_workItemID P, ar_run = Some (pe_runID P), ar_kind = ''build-snapshot'', ar_uri = Snap_URI snap,
        ar_sha = Snap_SHA256 snap, ar_meta = Some (case Snap_Meta snap of None \<Rightarrow> [] | Some m \<Rightarrow> m), ar_created = now\<rparr>"
    obtain n db1 where ins: "insert_artifact ?row (ef_db s) = (n, db1)" by fastforce
    note i = insert_artifact_cases [OF ins]
    show ?thesis using assms Some Inr ins i
      by (auto simp: collectBuildSnapshot_def log_extends_def Let_def split: if_splits)
  qed
qed

lemma Collect_effect:
  assumes "ProdEffects_Collect P env key content True s = s'"
  shows "same_custody (ef_db s) (ef_db s') \<and> pd_sandboxes (ef_db s') = pd_sandboxes (ef_db s) \<and>
    pd_a2a (ef_db s') = pd_a2a (ef_db s) \<and> log_extends s s' \<and> (\<exists>l. pd_artifacts (ef_db s') = pd_artifacts (ef_db s) @ l) \<and>
    (ef_err s' = None \<longrightarrow>
      lookup_by artifact_key (pe_workItemID P, Some (pe_runID P), artifactKind key) (pd_artifacts (ef_db s')) \<noteq> None)"
proof -
  obtain flt now where e: "env (ef_calls s) = (flt, now)" by fastforce
  let ?s0 = "s\<lparr>ef_calls := Suc (ef_calls s)\<rparr>"
  let ?row = "\<lparr>ar_item = pe_workItemID P, ar_run = Some (pe_runID P), ar_kind = artifactKind key,
      ar_uri = ''sha256:'' @ sha256_hex content, ar_sha = sha256_hex content, ar_meta = None, ar_created = now\<rparr>"
  have k: "artifact_key ?row = (pe_workItemID P, Some (pe_runID P), artifactKind key)" by (simp add: artifact_key_def)
  obtain n db1 where ins: "insert_artifact ?row (ef_db s) = (n, db1)" by fastforce
  note i = insert_artifact_cases [OF ins, unfolded k]
  let ?s1 = "if n = 1 then ProdEffects_audit P flt now ''artifact_registered'' StepCollecting (?s0\<lparr>ef_db := db1\<rparr>)
    else ?s0\<lparr>ef_db := db1\<rparr>"
  show ?thesis
  proof (cases "ef_err s \<noteq> None \<or> flt ''upsert'' \<or> flt ''rows''")
    case True
    then show ?thesis using assms e ins i
      by (auto simp: ProdEffects_Collect_def log_extends_def Let_def split: if_splits)
  next
    case False
    then have c: "collectBuildSnapshot P flt now ?s1 = s'" using assms e ins by (simp add: ProdEffects_Collect_def Let_def)
    have s1: "same_custody (ef_db s) (ef_db ?s1) \<and> pd_sandboxes (ef_db ?s1) = pd_sandboxes (ef_db s) \<and>
        pd_a2a (ef_db ?s1) = pd_a2a (ef_db s) \<and> ef_log ?s1 = ef_log s \<and> pd_artifacts (ef_db ?s1) = pd_artifacts db1"
      using i by auto
    obtain l where l: "pd_artifacts (ef_db s') = pd_artifacts db1 @ l"
      using collectBuildSnapshot_effect [OF c] s1 by auto
    have "lookup_by artifact_key (pe_workItemID P, Some (pe_runID P), artifactKind key) (pd_artifacts (ef_db s')) \<noteq> None"
      using i by (auto simp: l lookup_by_append split: option.splits)
    moreover have "\<exists>l. pd_artifacts (ef_db s') = pd_artifacts (ef_db s) @ l" using i l by auto
    ultimately show ?thesis
      using collectBuildSnapshot_effect [OF c] s1 by (auto simp: same_custody_def log_extends_def)
  qed
qed

section \<open>Which ports an effect calls\<close>

fun is_bind :: "string \<Rightarrow> phys \<Rightarrow> bool" where
  "is_bind run (BindCall r _) = (r = run)"
| "is_bind run _ = False"

fun is_submit :: "string \<Rightarrow> phys \<Rightarrow> bool" where
  "is_submit task (SubmitCall t _ _) = (t = task)"
| "is_submit task _ = False"

abbreviation binds :: "string \<Rightarrow> phys list \<Rightarrow> phys list" where
  "binds run log \<equiv> filter (is_bind run) log"

abbreviation submits :: "string \<Rightarrow> phys list \<Rightarrow> phys list" where
  "submits task log \<equiv> filter (is_submit task) log"

lemma call_submits:
  "call_binder P s = (r, s1) \<Longrightarrow> submits t (ef_log s1) = submits t (ef_log s)"
  "call_cred P ref s = (q, s1) \<Longrightarrow> submits t (ef_log s1) = submits t (ef_log s)"
  "call_observer P ref s = (q, s1) \<Longrightarrow> submits t (ef_log s1) = submits t (ef_log s)"
  using call_binder_cases [of P s r s1] call_cred_cases [of P ref s q s1] call_observer_cases [of P ref s q s1] by auto

lemma bind_provision_submits: "submits t (ef_log (bind_provision P flt now s)) = submits t (ef_log s)"
proof -
  obtain r1 s1 where c1: "call_binder P s = (r1, s1)" by fastforce
  obtain r2 s2 where c2: "call_cred P (projr r1) s1 = (r2, s2)" by fastforce
  obtain r3 s3 where c3: "call_observer P (projr r1) s2 = (r3, s3)" by fastforce
  have "ef_log (bind_provision P flt now s) \<in> {ef_log s1, ef_log s2, ef_log s3}"
    using c1 c2 c3 by (cases r1; cases r2; cases r3) (simp_all add: bind_provision_def)
  then show ?thesis using call_submits(1) [OF c1] call_submits(2) [OF c2] call_submits(3) [OF c3] by auto
qed

lemma BindSandbox_submits: "submits t (ef_log (ProdEffects_BindSandbox P env r True s)) = submits t (ef_log s)"
proof -
  obtain flt now where e: "env (ef_calls s) = (flt, now)" by fastforce
  show ?thesis by (simp add: ProdEffects_BindSandbox_def e Let_def bind_provision_submits)
qed

lemma Dispatch_binds: "binds r (ef_log (ProdEffects_Dispatch P env t True s)) = binds r (ef_log s)"
  by (auto simp: ProdEffects_Dispatch_def dispatch_submit_def call_submit_def Let_def
      split: prod.splits option.splits if_splits)

lemma Dispatch_submits:
  "t' \<noteq> boundTaskID P t \<Longrightarrow> submits t' (ef_log (ProdEffects_Dispatch P env t True s)) = submits t' (ef_log s)"
  by (auto simp: ProdEffects_Dispatch_def dispatch_submit_def call_submit_def Let_def
      split: prod.splits option.splits if_splits)

lemma snapshot_calls:
  assumes "collectBuildSnapshot P flt now s = s'"
  shows "binds r (ef_log s') = binds r (ef_log s)" "submits t (ef_log s') = submits t (ef_log s)"
proof -
  have "ef_log s' = ef_log s \<or> (\<exists>q. ef_log s' = ef_log s @ [SnapshotCall q])"
  proof (cases "pe_snapshotter P")
    case None
    then show ?thesis using assms by (auto simp: collectBuildSnapshot_def)
  next
    case (Some sn)
    then show ?thesis using assms
      by (cases "sn (ef_log s)") (auto simp: collectBuildSnapshot_def Let_def split: prod.splits if_splits)
  qed
  then show "binds r (ef_log s') = binds r (ef_log s)" "submits t (ef_log s') = submits t (ef_log s)" by auto
qed

lemma Collect_calls:
  "binds r (ef_log (ProdEffects_Collect P env k c True s)) = binds r (ef_log s)"
  "submits t (ef_log (ProdEffects_Collect P env k c True s)) = submits t (ef_log s)"
proof -
  obtain flt now where e: "env (ef_calls s) = (flt, now)" by fastforce
  obtain n db1 where ins: "insert_artifact \<lparr>ar_item = pe_workItemID P, ar_run = Some (pe_runID P), ar_kind = artifactKind k,
      ar_uri = ''sha256:'' @ sha256_hex c, ar_sha = sha256_hex c, ar_meta = None, ar_created = now\<rparr> (ef_db s) = (n, db1)" by fastforce
  show "binds r (ef_log (ProdEffects_Collect P env k c True s)) = binds r (ef_log s)"
    using ins by (simp add: ProdEffects_Collect_def e Let_def snapshot_calls(1) [OF refl])
  show "submits t (ef_log (ProdEffects_Collect P env k c True s)) = submits t (ef_log s)"
    using ins by (simp add: ProdEffects_Collect_def e Let_def snapshot_calls(2) [OF refl])
qed

lemma Terminal_calls: "ef_log (ProdEffects_Terminal P env st s) = ef_log s"
  by (auto simp: ProdEffects_Terminal_def Let_def split: prod.splits sum.splits)

end
