(* ===== verification/Shared_Drive.thy ===== *)
theory Shared_Drive
  imports Reconcile_Store
begin

text \<open>
  The drive loop of pkg/reconcile/machine.go when the effects and the durable store act on one
  shared state, as the production bindings do (both write the same database, and the terminal
  effect releases the claim row the store reads). It is the loop of \<open>Reconcile_Machine\<close> with
  one state threaded through both seams; where the two states are disjoint the two loops agree.
\<close>

definition drive_commit :: "'x Effects \<Rightarrow> 'x Store \<Rightarrow> Options \<Rightarrow> Step \<Rightarrow> 'x \<Rightarrow> 'x" where
  "drive_commit E S opt step x =
     (case nextStep opt step of
        None \<Rightarrow> x
      | Some nx \<Rightarrow>
          (case Store_Advance S step nx (fenceArg opt) x of
             (ok, x') \<Rightarrow> if ok \<and> IsTerminal nx then Effects_Terminal E nx x' else x'))"

definition drive_phase :: "'x Effects \<Rightarrow> 'x Store \<Rightarrow> Options \<Rightarrow> Step \<Rightarrow> 'x \<Rightarrow> ReconcileError option \<times> 'x" where
  "drive_phase E S opt step x =
     (let x1 = phaseEffect E opt step x in
      case effectErr E x1 of
        Some e \<Rightarrow> (Some (ErrEffect e), x1)
      | None \<Rightarrow>
          (if CrashAfterEffect opt \<noteq> noStep \<and> step = CrashAfterEffect opt then (Some (ErrCrash step), x1)
           else (None, drive_commit E S opt step x1)))"

partial_function (option) drive_loop ::
  "'x Effects \<Rightarrow> 'x Store \<Rightarrow> Options \<Rightarrow> int \<Rightarrow> 'x \<Rightarrow> (ReconcileError option \<times> 'x) option"
where
  "drive_loop E S opt passes s =
     (case Store_Step S s of (st0, s0) \<Rightarrow>
       if IsTerminal st0 then Some (None, s0)
       else if MaxPasses opt > 0 \<and> passes \<ge> MaxPasses opt then Some (None, s0)
       else (case Store_Step S s0 of (step, s1) \<Rightarrow>
         if CrashBefore opt \<noteq> noStep \<and> step = CrashBefore opt then Some (Some (ErrCrash step), s1)
         else (case drive_phase E S opt step s1 of (err, s2) \<Rightarrow>
           (case err of
              Some e \<Rightarrow> Some (Some e, s2)
            | None \<Rightarrow> drive_loop E S opt (passes + 1) s2))))"

declare drive_loop.simps [code]

definition drive :: "'x Effects \<Rightarrow> 'x Store \<Rightarrow> Options \<Rightarrow> 'x \<Rightarrow> (ReconcileError option \<times> 'x) option" where
  "drive E S opt x = drive_loop E S opt 0 x"

section \<open>Disjoint states\<close>

definition on_fst :: "'w Effects \<Rightarrow> ('w \<times> 'st) Effects" where
  "on_fst E =
     \<lparr>Effects_BindSandbox = (\<lambda>r k. map_prod (Effects_BindSandbox E r k) id),
      Effects_Dispatch = (\<lambda>t d. map_prod (Effects_Dispatch E t d) id),
      Effects_Collect = (\<lambda>k c u. map_prod (Effects_Collect E k c u) id),
      Effects_Terminal = (\<lambda>st. map_prod (Effects_Terminal E st) id),
      Effects_Err = map_option (\<lambda>err x. err (fst x)) (Effects_Err E)\<rparr>"

definition on_snd :: "'st Store \<Rightarrow> ('w \<times> 'st) Store" where
  "on_snd S =
     \<lparr>Store_Step = (\<lambda>(w, s). case Store_Step S s of (r, s') \<Rightarrow> (r, w, s')),
      Store_Fence = (\<lambda>(w, s). case Store_Fence S s of (r, s') \<Rightarrow> (r, w, s')),
      Store_Advance = (\<lambda>a b f (w, s). case Store_Advance S a b f s of (r, s') \<Rightarrow> (r, w, s')),
      Store_Reclaim = (\<lambda>nf (w, s). case Store_Reclaim S nf s of (r, s') \<Rightarrow> (r, w, s')),
      Store_SetStep = (\<lambda>st (w, s). (w, Store_SetStep S st s)),
      Store_AuditRows = (\<lambda>(w, s). case Store_AuditRows S s of (r, s') \<Rightarrow> (r, w, s')),
      Store_OutboxRows = (\<lambda>(w, s). case Store_OutboxRows S s of (r, s') \<Rightarrow> (r, w, s'))\<rparr>"

lemma on_fst_effect: "phaseEffect (on_fst E) opt step (w, s) = (phaseEffect E opt step w, s)"
  by (simp add: phaseEffect_def on_fst_def)

lemma on_fst_err: "effectErr (on_fst E) (w, s) = effectErr E w"
  by (simp add: effectErr_def on_fst_def split: option.splits)

lemma on_commit: "drive_commit (on_fst E) (on_snd S) opt step (w, s) = phaseCommit E S opt step w s"
  by (auto simp: drive_commit_def phaseCommit_def on_fst_def on_snd_def split: option.splits prod.splits)

lemma runPhase_is_drive_phase: "runPhase E S opt step w s = drive_phase (on_fst E) (on_snd S) opt step (w, s)"
  by (simp add: runPhase_def drive_phase_def on_fst_effect on_fst_err on_commit Let_def split: option.splits prod.splits)

section \<open>Invariants and totality\<close>

text \<open>
  A relation between the states before and after that is reflexive, transitive, and kept by a
  step read and by one phase holds across a whole drive.
\<close>

lemma drive_loop_rel:
  assumes ret: "drive_loop E S opt passes x = Some (e, x')"
    and rfl: "\<And>x. R x x"
    and trn: "\<And>x y z. R x y \<Longrightarrow> R y z \<Longrightarrow> R x z"
    and rd: "\<And>x st y. Store_Step S x = (st, y) \<Longrightarrow> R x y"
    and ph: "\<And>step x y err z. Store_Step S x = (step, y) \<Longrightarrow> drive_phase E S opt step y = (err, z) \<Longrightarrow> R y z"
  shows "R x x'"
proof -
  let ?P = "\<lambda>(E'::'a Effects) (S'::'a Store) opt' (p::int) x r.
    E' = E \<longrightarrow> S' = S \<longrightarrow> opt' = opt \<longrightarrow> R x (snd r)"
  have "?P E S opt passes x (e, x')"
  proof (rule drive_loop.raw_induct [where P = ?P, OF _ ret], goal_cases)
    case (1 rec E' S' opt' p x r)
    note IH = 1(1) and eq = 1(2)
    show ?case
    proof (intro impI)
      assume [simp]: "E' = E" "S' = S" "opt' = opt"
      obtain st0 x0 where r0: "Store_Step S x = (st0, x0)" by fastforce
      obtain step x1 where r1: "Store_Step S x0 = (step, x1)" by fastforce
      obtain er x2 where rp: "drive_phase E S opt step x1 = (er, x2)" by fastforce
      have a: "R x x0" "R x x1" "R x x2" using rd [OF r0] rd [OF r1] ph [OF r1 rp] trn by blast+
      show "R x (snd r)"
      proof (cases "er = None \<and> \<not> IsTerminal st0 \<and> \<not> (MaxPasses opt > 0 \<and> p \<ge> MaxPasses opt)
          \<and> \<not> (CrashBefore opt \<noteq> noStep \<and> step = CrashBefore opt)")
        case True
        then have "rec E S opt (p + 1) x2 = Some r"
          using eq r0 r1 rp by (auto split: if_splits)
        then have "R x2 (snd r)" using IH by blast
        then show ?thesis using a(3) trn by blast
      next
        case False
        then have "snd r \<in> {x0, x1, x2}" using eq r0 r1 by (auto simp: rp split: if_splits option.splits)
        then show ?thesis using a by blast
      qed
    qed
  qed
  then show ?thesis by simp
qed

lemma drive_loop_bounded:
  assumes "MaxPasses opt > 0"
  shows "drive_loop E S opt passes x \<noteq> None"
proof (induction "nat (MaxPasses opt - passes)" arbitrary: passes x rule: less_induct)
  case less
  obtain st0 x0 where r0: "Store_Step S x = (st0, x0)" by fastforce
  obtain step x1 where r1: "Store_Step S x0 = (step, x1)" by fastforce
  obtain er x2 where rp: "drive_phase E S opt step x1 = (er, x2)" by fastforce
  have rec: "passes < MaxPasses opt \<Longrightarrow> drive_loop E S opt (passes + 1) x2 \<noteq> None"
    by (rule less) simp
  show ?case
    using rec assms
    by (subst drive_loop.simps) (auto simp: r0 r1 rp split: option.splits)
qed

section \<open>Simulation\<close>

text \<open>
  A relation between the shared state and the two states of a disjoint drive that one pass
  keeps, with the same reads and the same outcome, relates whole drives: a shared drive that
  returns is matched by a disjoint drive that returns the same error.
\<close>

lemma drive_loop_simulated:
  assumes ret: "drive_loop E S opt passes x = Some (e, x')"
    and R: "R x w m"
    and rd: "\<And>x w m st y. R x w m \<Longrightarrow> Store_Step S x = (st, y) \<Longrightarrow> Store_Step T m = (st, m) \<and> R y w m"
    and ph: "\<And>x w m step err y. R x w m \<Longrightarrow> Store_Step T m = (step, m) \<Longrightarrow> \<not> IsTerminal step \<Longrightarrow>
      drive_phase E S opt step x = (err, y) \<Longrightarrow> \<exists>w' m'. runPhase F T opt step w m = (err, w', m') \<and> R y w' m'"
  shows "\<exists>w' m'. Reconcile_loop F T opt passes w m = Some (e, w', m') \<and> R x' w' m'"
proof -
  let ?P = "\<lambda>(E'::'a Effects) (S'::'a Store) opt' (p::int) x r.
    E' = E \<longrightarrow> S' = S \<longrightarrow> opt' = opt \<longrightarrow>
      (\<forall>w m. R x w m \<longrightarrow> (\<exists>w' m'. Reconcile_loop F T opt p w m = Some (fst r, w', m') \<and> R (snd r) w' m'))"
  have "?P E S opt passes x (e, x')"
  proof (rule drive_loop.raw_induct [where P = ?P, OF _ ret], goal_cases)
    case (1 rec E' S' opt' p x r)
    note IH = 1(1) and eq = 1(2)
    show ?case
    proof (intro impI allI)
      fix w m assume [simp]: "E' = E" "S' = S" "opt' = opt" and xw: "R x w m"
      obtain st0 x0 where r0: "Store_Step S x = (st0, x0)" by fastforce
      obtain step x1 where r1: "Store_Step S x0 = (step, x1)" by fastforce
      obtain er x2 where rp: "drive_phase E S opt step x1 = (er, x2)" by fastforce
      have t0: "Store_Step T m = (st0, m)" "R x0 w m" using rd [OF xw r0] by simp_all
      have t1: "Store_Step T m = (step, m)" "R x1 w m" using rd [OF t0(2) r1] by simp_all
      have st: "step = st0" using t0 t1 by simp
      show "\<exists>w' m'. Reconcile_loop F T opt p w m = Some (fst r, w', m') \<and> R (snd r) w' m'"
      proof (cases "IsTerminal st0 \<or> (MaxPasses opt > 0 \<and> p \<ge> MaxPasses opt) \<or> (CrashBefore opt \<noteq> noStep \<and> step = CrashBefore opt)")
        case True
        then have "Reconcile_loop F T opt p w m = Some (fst r, w, m) \<and> R (snd r) w m"
          using eq r0 r1 rp t0 t1 by (subst Reconcile_loop.simps) (auto split: if_splits)
        then show ?thesis by blast
      next
        case False
        obtain w2 m2 where t2: "runPhase F T opt step w m = (er, w2, m2)" "R x2 w2 m2"
          using ph [OF t1(2,1) _ rp] False st by blast
        show ?thesis
        proof (cases er)
          case None
          then have "rec E S opt (p + 1) x2 = Some r" using eq r0 r1 rp False by auto
          with IH t2(2) have "\<exists>w' m'. Reconcile_loop F T opt (p + 1) w2 m2 = Some (fst r, w', m') \<and> R (snd r) w' m'" by blast
          moreover have "Reconcile_loop F T opt p w m = Reconcile_loop F T opt (p + 1) w2 m2"
            using False t0 t1 t2(1) None by (subst Reconcile_loop.simps) auto
          ultimately show ?thesis by simp
        next
          case (Some er')
          then have "r = (Some er', x2)" using eq r0 r1 rp False by auto
          moreover have "Reconcile_loop F T opt p w m = Some (Some er', w2, m2)"
            using False t0 t1 t2(1) Some by (subst Reconcile_loop.simps) auto
          ultimately show ?thesis using t2(2) by auto
        qed
      qed
    qed
  qed
  then show ?thesis using R by simp
qed

end
