(* ===== verification/Prod_Custody.thy ===== *)
theory Prod_Custody
  imports Prod_Drive
begin

text \<open>
  Custody over the production tables as a whole: any interleaving of claims, heartbeats,
  reconcile advances, reclaims, kills, lane moves, settlements and terminal releases by any
  processes, each with any faults. The claim table meets the fenced-claims contract of the coordination spine, and a
  terminal Run stays terminal.
\<close>

section \<open>Transactions\<close>

definition grant_of :: "string + (string \<times> int) option \<Rightarrow> (string \<times> int) option" where
  "grant_of res = (case res of Inr g \<Rightarrow> g | Inl _ \<Rightarrow> None)"

inductive prod_step :: "ProdConfig \<Rightarrow> prod_db \<Rightarrow> (string \<times> int) option \<Rightarrow> prod_db \<Rightarrow> bool" for cfg where
  ps_claim: "ProdClaimNext cfg flt locked carrier tp tg ts prin run ini db = (res, db') \<Longrightarrow>
    prod_step cfg db (grant_of res) db'"
| ps_acquire: "AcquireSpecific cfg flt carrier tg ts prin run item ini agent db = (res, db') \<Longrightarrow>
    prod_step cfg db (grant_of res) db'"
| ps_renew: "ProdRenew cfg flt tg ts item prin run fence db = (res, db') \<Longrightarrow> prod_step cfg db None db'"
| ps_advance: "run_inv B s \<Longrightarrow> st_db s = db \<Longrightarrow> ProdStore_Advance B env a b f s = (ok, s') \<Longrightarrow>
    prod_step cfg db None (st_db s')"
| ps_reclaim: "st_db s = db \<Longrightarrow> ProdStore_Reclaim B env nf s = (ok, s') \<Longrightarrow> prod_step cfg db None (st_db s')"
| ps_cancel: "cancelTx flt now item run prin ini ev st f rel db = ((err, out), db') \<Longrightarrow> prod_step cfg db None db'"
| ps_move: "board_transition flt now item team target frm prin initiator ini db = (tr, db') \<Longrightarrow> prod_step cfg db None db'"
| ps_settle: "SettleTerminalLane flt now item run prin st db = Inr (lm, db') \<Longrightarrow> prod_step cfg db None db'"
| ps_follow: "Settle flt now prin task run outcome reason db = (err, db') \<Longrightarrow> prod_step cfg db None db'"
| ps_terminal: "terminal_tx P flt now st db = Inr db' \<Longrightarrow> prod_step cfg db None db'"

section \<open>Each transaction keeps the tables and the fences\<close>

definition fences_kept :: "prod_db \<Rightarrow> prod_db \<Rightarrow> bool" where
  "fences_kept db db' \<longleftrightarrow> wf_prod db' \<and> (\<forall>j. prod_fence db j \<le> prod_fence db' j)"

lemma fences_kept_refl: "wf_prod db \<Longrightarrow> fences_kept db db"
  by (simp add: fences_kept_def)

lemma fences_kept_claims: "wf_prod db' \<Longrightarrow> pd_claims db' = pd_claims db \<Longrightarrow> fences_kept db db'"
  by (simp add: fences_kept_def prod_fence_def)

lemma granted_fences:
  assumes "granted_to cfg tg ts prin run item fence db db'" and "wf_prod db'"
  shows "fences_kept db db' \<and> prod_fence db item < fence \<and> prod_fence db' item = fence"
proof -
  obtain r r' where r: "claim_row_of db item = Some r" "fence = pc_fence r + 1" "claim_row_of db' item = Some r'"
      "pc_fence r' = fence" "\<And>j. j \<noteq> item \<Longrightarrow> claim_row_of db' j = claim_row_of db j"
    using assms(1) by (auto simp: granted_to_def)
  have "prod_fence db j \<le> prod_fence db' j" for j
    using r by (cases "j = item") (simp_all add: prod_fence_def)
  then show ?thesis using assms(2) r by (simp add: fences_kept_def prod_fence_def)
qed

lemma claim_keeps:
  assumes "ProdClaimNext cfg flt locked carrier tp tg ts prin run ini db = (res, db')" and "wf_prod db"
  shows "fences_kept db db' \<and> (\<forall>i f. grant_of res = Some (i, f) \<longrightarrow> prod_fence db i < f \<and> prod_fence db' i = f)"
proof (cases "grant_of res")
  case None
  then have "\<forall>g. res \<noteq> Inr (Some g)" by (auto simp: grant_of_def)
  with ProdClaimNext_refused [OF assms(1)] assms(2) None show ?thesis by (simp add: fences_kept_refl)
next
  case (Some g)
  then have "res = Inr (Some (fst g, snd g))" by (auto simp: grant_of_def split: sum.splits)
  then have "granted_to cfg tg ts prin run (fst g) (snd g) db db' \<and> wf_prod db'"
    using ProdClaimNext_granted assms by blast
  with granted_fences Some show ?thesis by fastforce
qed

lemma acquire_keeps:
  assumes "AcquireSpecific cfg flt carrier tg ts prin run item ini agent db = (res, db')" and "wf_prod db"
  shows "fences_kept db db' \<and> (\<forall>i f. grant_of res = Some (i, f) \<longrightarrow> prod_fence db i < f \<and> prod_fence db' i = f)"
proof (cases "grant_of res")
  case None
  then have "\<forall>g. res \<noteq> Inr (Some g)" by (auto simp: grant_of_def)
  with AcquireSpecific_refused [OF assms(1)] assms(2) None show ?thesis by (simp add: fences_kept_refl)
next
  case (Some g)
  then have "res = Inr (Some (fst g, snd g))" by (auto simp: grant_of_def split: sum.splits)
  then have "granted_to cfg tg ts prin run (fst g) (snd g) db db' \<and> wf_prod db'"
    using AcquireSpecific_granted assms by blast
  with granted_fences Some show ?thesis by fastforce
qed

lemma upd_claims_keeps:
  assumes "wf_prod db" and "\<And>r. pc_item (f r) = pc_item r" and "\<And>r. G r \<Longrightarrow> pc_fence r \<le> pc_fence (f r)"
  shows "fences_kept db (db\<lparr>pd_claims := upd_key pc_item k G f (pd_claims db)\<rparr>)"
  using assms by (auto simp: fences_kept_def prod_fence_def split: option.splits)

lemma advance_keeps:
  assumes "run_inv B s" and "ProdStore_Advance B env a b f s = (ok, s')"
  shows "fences_kept (st_db s) (st_db s')"
  using assms(2)
proof (cases rule: ProdStore_Advance_cases)
  case rejected
  then show ?thesis using assms(1) by (simp add: run_inv_def fences_kept_refl)
next
  case committed
  obtain r where r: "claim_row_of (st_db s) (rs_workItemID B) = Some r" "wf_prod (st_db s)"
      "item_row_of (st_db s) (rs_workItemID B) \<noteq> None" using assms(1) by (auto simp: run_inv_def)
  from advance_tx_True [OF committed(2) r(2,1,3)] r(1) show ?thesis
    by (auto simp: fences_kept_def prod_fence_def split: option.splits)
qed

lemma cancel_keeps:
  assumes "cancelTx flt now item run prin ini ev st f rel db = ((err, out), db')" and "wf_prod db"
  shows "fences_kept db db'"
proof (cases "out = CancelAccepted")
  case True
  with cancelTx_accepted [of flt now item run prin ini ev st f rel db err db'] assms
  obtain r where r: "claim_row_of db item = Some r" "wf_prod db'"
    "\<And>j. claim_row_of db' j = (if j = item then Some (cancel_row now st rel r) else claim_row_of db j)" by auto
  then show ?thesis by (auto simp: fences_kept_def prod_fence_def split: option.splits)
next
  case False
  with cancelTx_refused [OF assms(1)] assms(2) show ?thesis by (simp add: fences_kept_refl)
qed

lemma move_keeps:
  assumes "board_transition flt now item team target frm prin initiator ini db = (tr, db')" and "wf_prod db"
  shows "fences_kept db db'"
  using assms by (auto simp: board_transition_def Let_def fences_kept_refl intro!: fences_kept_claims split: if_splits option.splits)

lemma settle_move_wf: "wf_prod db \<Longrightarrow> wf_prod (snd (settle_move now item run prin st lane db))"
  by (auto simp: settle_move_def split: if_splits)

lemma settle_keeps:
  assumes "SettleTerminalLane flt now item run prin st db = Inr (lm, db')" and "wf_prod db"
  shows "fences_kept db db'"
proof -
  obtain lane moved where "lm = (lane, moved)" by fastforce
  with assms(1) have "SettleTerminalLane flt now item run prin st db = Inr ((lane, moved), db')" by simp
  then show ?thesis
  proof (cases rule: SettleTerminalLane_cases)
    case skip
    then show ?thesis using assms(2) by (simp add: fences_kept_refl)
  next
    case (settled db1)
    have "wf_prod db1" using settle_move_wf [OF assms(2)] settled(3) by (metis snd_conv)
    moreover have "pd_claims db1 = pd_claims db" using settle_move_frame [OF settled(3) assms(2)] by blast
    moreover have "db' = db1 \<or> (\<exists>c. db' = insert_comment c db1)"
      using settled(4,5) by (cases "has_summary item run db1") blast+
    ultimately show ?thesis by (auto intro: fences_kept_claims)
  qed
qed

lemma follow_keeps:
  assumes "Settle flt now prin task run outcome reason db = (err, db')" and "wf_prod db"
  shows "fences_kept db db'"
proof -
  have wf: "wf_prod (db\<lparr>pd_a2a := upd_key da_task task (\<lambda>r. da_settled r = None)
      (\<lambda>r. r\<lparr>da_settled := Some now, da_outcome := Some outcome\<rparr>) (pd_a2a db)\<rparr>)"
    using assms(2) by (simp add: wf_prod_def)
  then show ?thesis
    using assms by (auto simp: Settle_def Let_def fences_kept_refl intro!: fences_kept_claims split: if_splits option.splits)
qed

lemma terminal_keeps:
  assumes "terminal_tx P flt now st db = Inr db'" and "wf_prod db"
  shows "fences_kept db db'"
  using terminal_tx_Inr [OF assms] by (auto simp: fences_kept_def prod_fence_def released_row_def split: option.splits)

lemma prod_step_fences:
  assumes "prod_step cfg db g db'" and "wf_prod db"
  shows "fences_kept db db' \<and> (\<forall>i f. g = Some (i, f) \<longrightarrow> prod_fence db i < f \<and> prod_fence db' i = f)"
  using assms
proof (induction rule: prod_step.induct)
  case (ps_claim flt locked carrier tp tg ts prin run ini db res db')
  then show ?case by (rule claim_keeps)
next
  case (ps_acquire flt carrier tg ts prin run item ini agent db res db')
  then show ?case by (rule acquire_keeps)
next
  case (ps_renew flt tg ts item prin run fence db res db')
  then show ?case by (auto simp: ProdRenew_def fences_kept_refl intro!: upd_claims_keeps split: if_splits)
next
  case (ps_advance B s db env a b f ok s')
  then show ?case using advance_keeps by blast
next
  case (ps_reclaim s db B env nf ok s')
  obtain flt now where e: "env (st_calls s) = (flt, now)" by fastforce
  show ?case
  proof (cases "flt ''reclaim''")
    case True
    then show ?thesis using ps_reclaim e by (auto simp: ProdStore_Reclaim_def fences_kept_refl)
  next
    case False
    then have "st_db s' = db\<lparr>pd_claims := upd_key pc_item (rs_workItemID B) (\<lambda>r. pc_fence r < nf)
        (\<lambda>r. r\<lparr>pc_fence := nf, pc_reclaim_fenced := Some now\<rparr>) (pd_claims db)\<rparr>"
      using ps_reclaim(1,2) e by (auto simp: ProdStore_Reclaim_def)
    moreover have "fences_kept db (db\<lparr>pd_claims := upd_key pc_item (rs_workItemID B) (\<lambda>r. pc_fence r < nf)
        (\<lambda>r. r\<lparr>pc_fence := nf, pc_reclaim_fenced := Some now\<rparr>) (pd_claims db)\<rparr>)"
      by (rule upd_claims_keeps) (use ps_reclaim in auto)
    ultimately show ?thesis by simp
  qed
next
  case (ps_cancel flt now item run prin ini ev st f rel db err out db')
  then show ?case using cancel_keeps by blast
next
  case (ps_move flt now item team target frm prin initiator ini db tr db')
  then show ?case using move_keeps by blast
next
  case (ps_settle flt now item run prin st db lm db')
  then show ?case using settle_keeps by blast
next
  case (ps_follow flt now prin task run outcome reason db err db')
  then show ?case using follow_keeps by blast
next
  case (ps_terminal P flt now st db db')
  then show ?case using terminal_keeps by blast
qed

interpretation custody: fenced_claims wf_prod prod_fence "prod_step cfg" for cfg
  by unfold_locales (use prod_step_fences [unfolded fences_kept_def] in blast)+

section \<open>Properties\<close>

text \<open>
  Custody is fenced across the whole production surface: over any run of claims,
  heartbeats, reconcile advances, reclaims, kills, lane moves, settlements and terminal
  releases by any processes with any faults, no fence is granted twice for an item, a later grant of an item carries a
  larger fence than an earlier one, and every granted fence lies above the initial and at or
  below the final fence of its item.
\<close>

theorem prod_fences_never_reused:
  assumes "wf_prod db" and "custody.run cfg db gs db'"
  shows "distinct gs \<and>
    (\<forall>m n. m < n \<and> n < length gs \<and> fst (gs ! m) = fst (gs ! n) \<longrightarrow> snd (gs ! m) < snd (gs ! n)) \<and>
    (\<forall>i f. (i, f) \<in> set gs \<longrightarrow> prod_fence db i < f \<and> f \<le> prod_fence db' i)"
  using custody.run_distinct [OF assms(2,1)] custody.run_increasing [OF assms(2,1)]
    custody.run_bounds(2) [OF assms(2,1)] by blast

theorem prod_fences_never_reused_witness:
  "distinct [(''i'', 1 :: int)] \<and> custody.run DefaultProdConfig one_todo [(''i'', 1)] one_held"
proof -
  have eq: "ProdClaimNext DefaultProdConfig (\<lambda>_. False) {} None 1 1 1 ''a'' ''r'' [] one_todo = (Inr (Some (''i'', 1)), one_held)"
    using one_todo_claimed unfolding one_held_def by (simp add: prod_eq_iff)
  have "prod_step DefaultProdConfig one_todo (Some (''i'', 1)) one_held"
    using ps_claim [OF eq] by (simp add: grant_of_def)
  then have "custody.run DefaultProdConfig one_todo ([] @ [(''i'', 1)]) one_held"
    using custody.run_grant custody.run_refl by blast
  then have r: "custody.run DefaultProdConfig one_todo [(''i'', 1)] one_held" by simp
  with prod_fences_never_reused [OF wf_one_todo r] show ?thesis by blast
qed

end
