(* ===== verification/Prod_Reroute.thy ===== *)
theory Prod_Reroute
  imports Prod_Custody
begin

text \<open>
  The re-route of a rate-limited Run (pkg/coord/prodreroute.go): when a pause escalates, the
  checkout is released under a new fence, the item goes back to the claimable lane and a hold
  names the throttled credential; the credentialed claims refuse the item to that credential
  until the hold's window is over. The holds (db/migrations/0009_rate_limit_reroute.sql) stand
  beside the tables of \<open>Prod_Db\<close>.
\<close>

section \<open>Policy\<close>

record ReroutePolicy =
  AfterAttempts :: int
  MinWindow :: duration

definition DefaultReroutePolicy :: ReroutePolicy where
  "DefaultReroutePolicy = \<lparr>AfterAttempts = 2, MinWindow = 10 * 60 * 1000000000\<rparr>"

definition ReroutePolicy_Validate :: "ReroutePolicy \<Rightarrow> string option" where
  "ReroutePolicy_Validate p =
     (if AfterAttempts p < 2 then Some ''coord.ReroutePolicy: AfterAttempts must be >= 2''
      else if MinWindow p \<le> 0 then Some ''coord.ReroutePolicy: MinWindow must be positive''
      else None)"

definition ShouldReroute :: "int \<Rightarrow> duration option \<Rightarrow> ReroutePolicy \<Rightarrow> bool" where
  "ShouldReroute attempt retryAfter policy =
     (let attempt = (if attempt < 1 then 1 else attempt)
      in if attempt \<ge> AfterAttempts policy then True
         else (case retryAfter of None \<Rightarrow> False | Some ra \<Rightarrow> ra \<ge> MinWindow policy))"

fun PickAlternateCredential :: "string \<Rightarrow> string list \<Rightarrow> string \<times> bool" where
  "PickAlternateCredential throttled [] = ([], False)"
| "PickAlternateCredential throttled (c # cs) =
     (if c \<noteq> [] \<and> c \<noteq> throttled then (c, True) else PickAlternateCredential throttled cs)"

definition MaxHoldWindow :: duration where
  "MaxHoldWindow = 6 * 60 * 60 * 1000000000"

text \<open>
  The shape check of a credential key. Its loop ranges over runes; the characters it refuses are
  single bytes in UTF-8 and never part of a longer encoding, so the bytes are checked.
\<close>

definition validateCredentialKey :: "string \<Rightarrow> string \<Rightarrow> string option" where
  "validateCredentialKey field key =
     (if length key > 253 then Some (''coord: '' @ field @ '' looks like token material, not an opaque identity'')
      else if \<exists>c \<in> set key. c = CHR '' '' \<or> of_char c < (0x20 :: nat) \<or> of_char c = (0x7f :: nat)
      then Some (''coord: '' @ field @ '' contains whitespace/control characters'')
      else None)"

section \<open>State\<close>

record hold_row =
  hw_item :: string
  hw_credential :: string
  hw_attempt :: int
  hw_resume :: instant
  hw_fence :: int
  hw_run :: string
  hw_coordinator :: string
  hw_created :: instant
  hw_updated :: instant

record reroute_db =
  rr_db :: prod_db
  rr_holds :: "hold_row list"

abbreviation hold_of :: "reroute_db \<Rightarrow> string \<Rightarrow> hold_row option" where
  "hold_of s i \<equiv> lookup_by hw_item i (rr_holds s)"

datatype reroute_error = ErrNotRerouteCustodian | ErrRerouteNotInProgress | RerouteErr string

record RerouteReleaseResult =
  RR_Fence :: int
  RR_AlreadyReleased :: bool

section \<open>The release\<close>

definition rerouteEventPayload :: "string \<Rightarrow> int \<Rightarrow> int \<Rightarrow> json" where
  "rerouteEventPayload throttled attempt fence =
     [(''v'', JInt 1), (''reason'', JStr ''rate_limited_reroute''), (''throttled_credential'', JStr throttled),
      (''attempt'', JInt attempt), (''fence'', JInt fence)]"

definition reroute_row :: "prod_claim \<Rightarrow> prod_claim" where
  "reroute_row r = r\<lparr>pc_holder := None, pc_run := None, pc_fence := pc_fence r + 1, pc_lease := None,
     pc_renewed := None, pc_acquired := None, pc_initiated := None\<rparr>"

text \<open>
  The hold of an item is rewritten in place: a conflicting insert keeps the row's creation time.
  \<open>now\<close> is the transaction's time, \<open>th\<close> the live clock the clamp reads.
\<close>

definition hold_write ::
  "instant \<Rightarrow> instant \<Rightarrow> string \<Rightarrow> string \<Rightarrow> int \<Rightarrow> instant \<Rightarrow> int \<Rightarrow> string \<Rightarrow> string \<Rightarrow> hold_row list \<Rightarrow> hold_row list" where
  "hold_write now th item credential attempt resumeAt fence run coordinator holds =
     upsert_by hw_item \<lparr>hw_item = item, hw_credential = credential, hw_attempt = attempt,
         hw_resume = min resumeAt (th + MaxHoldWindow), hw_fence = fence, hw_run = run, hw_coordinator = coordinator,
         hw_created = (case lookup_by hw_item item holds of None \<Rightarrow> now | Some h \<Rightarrow> hw_created h),
         hw_updated = now\<rparr> holds"

definition reroute_audit :: "instant \<Rightarrow> string \<Rightarrow> string \<Rightarrow> string \<Rightarrow> int \<Rightarrow> instant \<Rightarrow> int \<Rightarrow> string \<Rightarrow> audit_row" where
  "reroute_audit now item run credential attempt resumeAt fence coordinator =
     \<lparr>au_item = item, au_run = Some run, au_event = ''claim_released'', au_principal = coordinator, au_initiated = None,
      au_fence = Some fence, au_from = Some ''in_progress'', au_to = Some ''todo'',
      au_payload = [(''reason'', JStr ''rate_limited_reroute''), (''throttled_credential'', JStr credential),
        (''attempt'', JInt attempt), (''resume_at'', JTimeNano resumeAt), (''released_fence'', JInt fence)],
      au_created = now\<rparr>"

text \<open>Steps (2) to (5) of the release, once the custody guard has read the row it releases.\<close>

definition reroute_tail ::
  "bool \<Rightarrow> dbfaults \<Rightarrow> json option \<Rightarrow> instant \<Rightarrow> instant \<Rightarrow> string \<Rightarrow> string \<Rightarrow> string \<Rightarrow> string \<Rightarrow> int \<Rightarrow> instant \<Rightarrow>
   string \<Rightarrow> reroute_db \<Rightarrow> reroute_error + int \<times> reroute_db" where
  "reroute_tail emitOutbox flt carrier now th item holder run credential attempt resumeAt coordinator s =
     (let G = (\<lambda>r. pc_holder r = Some holder \<and> pc_run r = Some run); L = (\<lambda>w. pw_state w = ''in_progress'') in
      if flt ''release'' then Inl (RerouteErr ''coord.ProdRerouteStore.ReleaseForReroute: release'')
      else case row_key pc_item item G (pd_claims (rr_db s)) of
        None \<Rightarrow> Inl ErrNotRerouteCustodian
      | Some r \<Rightarrow>
        let fence = pc_fence r + 1;
            db1 = (rr_db s)\<lparr>pd_claims := upd_key pc_item item G reroute_row (pd_claims (rr_db s))\<rparr>
        in if flt ''re-dispatch'' then Inl (RerouteErr ''coord.ProdRerouteStore.ReleaseForReroute: re-dispatch'')
           else if aff_key pw_id item L (pd_items db1) \<noteq> 1 then Inl ErrRerouteNotInProgress
           else
             let db2 = db1\<lparr>pd_items := upd_key pw_id item L (set_lane now ''todo'') (pd_items db1)\<rparr>
             in if flt ''hold'' then Inl (RerouteErr ''coord.ProdRerouteStore.ReleaseForReroute: hold'')
                else
                  let holds = hold_write now th item credential attempt resumeAt fence run coordinator (rr_holds s)
                  in if flt ''audit'' then Inl (RerouteErr ''coord.ProdRerouteStore.ReleaseForReroute: audit'')
                     else
                       let db3 = insert_audit (reroute_audit now item run credential attempt resumeAt fence coordinator) db2
                       in case (if emitOutbox then CaptureForWorkItem flt carrier item run ''reroute_released''
                                  (rerouteEventPayload credential attempt fence) db3 else Inr db3) of
                            Inl err \<Rightarrow> Inl (RerouteErr (''coord.ProdRerouteStore.ReleaseForReroute: outbox: '' @ err))
                          | Inr db4 \<Rightarrow>
                              if flt ''commit'' then Inl (RerouteErr ''coord.ProdRerouteStore.ReleaseForReroute: commit'')
                              else Inr (fence, \<lparr>rr_db = db4, rr_holds = holds\<rparr>))"

text \<open>\<open>resumeAt = None\<close> is Go's zero time.\<close>

definition ReleaseForReroute ::
  "bool \<Rightarrow> dbfaults \<Rightarrow> json option \<Rightarrow> instant \<Rightarrow> instant \<Rightarrow> string \<Rightarrow> string \<Rightarrow> string \<Rightarrow> string \<Rightarrow> int \<Rightarrow> instant option \<Rightarrow>
   string \<Rightarrow> reroute_db \<Rightarrow> (reroute_error + RerouteReleaseResult) \<times> reroute_db" where
  "ReleaseForReroute emitOutbox flt carrier now th itemID holderPrincipal runID throttledCredential attempt resumeAt coordinatorPrincipal s =
     (if itemID = [] \<or> holderPrincipal = [] \<or> runID = [] \<or> throttledCredential = [] \<or> coordinatorPrincipal = []
      then (Inl (RerouteErr ''coord.ProdRerouteStore.ReleaseForReroute: all are required''), s)
      else if attempt < 1 then (Inl (RerouteErr ''coord.ProdRerouteStore.ReleaseForReroute: attempt must be >= 1''), s)
      else case resumeAt of
        None \<Rightarrow> (Inl (RerouteErr ''coord.ProdRerouteStore.ReleaseForReroute: resumeAt is required''), s)
      | Some at \<Rightarrow>
        (case validateCredentialKey ''throttledCredential'' throttledCredential of
          Some err \<Rightarrow> (Inl (RerouteErr err), s)
        | None \<Rightarrow>
          if flt ''begin'' then (Inl (RerouteErr ''coord.ProdRerouteStore.ReleaseForReroute: begin''), s)
          else if flt ''prior hold'' then (Inl (RerouteErr ''coord.ProdRerouteStore.ReleaseForReroute: prior hold''), s)
          else case row_key hw_item itemID (\<lambda>h. hw_run h = runID) (rr_holds s) of
            Some h \<Rightarrow> (Inr \<lparr>RR_Fence = hw_fence h, RR_AlreadyReleased = True\<rparr>, s)
          | None \<Rightarrow>
            if flt ''read claim'' then (Inl (RerouteErr ''coord.ProdRerouteStore.ReleaseForReroute: read claim''), s)
            else (case (claim_row_of (rr_db s) itemID, item_row_of (rr_db s) itemID) of
              (Some r, Some w) \<Rightarrow>
                (case (pc_holder r, pc_run r) of
                  (Some holder, Some claimRun) \<Rightarrow>
                    if holder \<noteq> holderPrincipal \<or> claimRun \<noteq> runID then (Inl ErrNotRerouteCustodian, s)
                    else if pw_state w \<noteq> ''in_progress'' then (Inl ErrRerouteNotInProgress, s)
                    else (case reroute_tail emitOutbox flt carrier now th itemID holderPrincipal runID throttledCredential
                                 attempt at coordinatorPrincipal s of
                        Inl err \<Rightarrow> (Inl err, s)
                      | Inr (fence, s') \<Rightarrow> (Inr \<lparr>RR_Fence = fence, RR_AlreadyReleased = False\<rparr>, s'))
                | _ \<Rightarrow> (Inl ErrNotRerouteCustodian, s))
            | _ \<Rightarrow> (Inl (RerouteErr ''coord.ProdRerouteStore.ReleaseForReroute: no claim row for work item''), s))))"

section \<open>The credentialed claims\<close>

definition held_for :: "instant \<Rightarrow> string \<Rightarrow> string \<Rightarrow> hold_row list \<Rightarrow> bool" where
  "held_for t credential item holds \<longleftrightarrow>
     (\<exists>h \<in> set holds. hw_item h = item \<and> hw_credential h = credential \<and> hw_resume h > t)"

definition pick_credentialed ::
  "ProdConfig \<Rightarrow> string set \<Rightarrow> instant \<Rightarrow> instant \<Rightarrow> string \<Rightarrow> reroute_db \<Rightarrow> string option" where
  "pick_credentialed cfg locked tp tph credential s =
     (case sort_key pw_created (sort_key pw_id
             (filter (\<lambda>w. pw_state w = PC_ClaimableState cfg \<and> pw_id w \<notin> locked \<and>
                row_key pc_item (pw_id w) (claim_free tp) (pd_claims (rr_db s)) \<noteq> None \<and>
                \<not> held_for tph credential (pw_id w) (rr_holds s)) (pd_items (rr_db s)))) of
        [] \<Rightarrow> None | w # _ \<Rightarrow> Some (pw_id w))"

definition acq_credentialed ::
  "ProdConfig \<Rightarrow> instant \<Rightarrow> instant \<Rightarrow> instant \<Rightarrow> string \<Rightarrow> string \<Rightarrow> string option \<Rightarrow> string \<Rightarrow> string \<Rightarrow> reroute_db \<Rightarrow>
   (int \<times> prod_db) option" where
  "acq_credentialed cfg tg th ts prin run initiator item credential s =
     (let G = (\<lambda>r. claim_free tg r \<and> \<not> held_for th credential (pc_item r) (rr_holds s)); db = rr_db s in
      case row_key pc_item item G (pd_claims db) of
        None \<Rightarrow> None
      | Some r \<Rightarrow> Some (pc_fence r + 1,
          db\<lparr>pd_claims := upd_key pc_item item G
               (\<lambda>r. r\<lparr>pc_holder := Some prin, pc_run := Some run, pc_fence := pc_fence r + 1,
                      pc_lease := Some (ts + PC_LeaseInterval cfg), pc_acquired := Some ts,
                      pc_renewed := None, pc_initiated := initiator\<rparr>) (pd_claims db)\<rparr>))"

definition acquireCredentialed ::
  "ProdConfig \<Rightarrow> dbfaults \<Rightarrow> json option \<Rightarrow> instant \<Rightarrow> instant \<Rightarrow> instant \<Rightarrow> string \<Rightarrow> string \<Rightarrow> string \<Rightarrow> string \<Rightarrow> string \<Rightarrow>
   reroute_db \<Rightarrow> (string + (string \<times> int) option) \<times> reroute_db" where
  "acquireCredentialed cfg flt carrier tg th ts prin runID itemID credentialKey initiatedByUserID s =
     (if flt ''acquire'' then (Inl ''coord.ProdClaimer.acquireCredentialed: acquire'', s)
      else case acq_credentialed cfg tg th ts prin runID (nullable initiatedByUserID) itemID credentialKey s of
        None \<Rightarrow> (Inr None, s)
      | Some (fence, db1) \<Rightarrow>
          (case claim_tail ''coord.ProdClaimer.acquireCredentialed'' cfg flt carrier ts prin runID
                  (nullable initiatedByUserID) itemID fence (rr_db s) db1 of
             (res, db') \<Rightarrow> (res, s\<lparr>rr_db := db'\<rparr>)))"

definition ClaimNextCredentialed ::
  "ProdConfig \<Rightarrow> dbfaults \<Rightarrow> string set \<Rightarrow> json option \<Rightarrow> instant \<Rightarrow> instant \<Rightarrow> instant \<Rightarrow> instant \<Rightarrow> instant \<Rightarrow>
   string \<Rightarrow> string \<Rightarrow> string \<Rightarrow> string \<Rightarrow> reroute_db \<Rightarrow> (string + (string \<times> int) option) \<times> reroute_db" where
  "ClaimNextCredentialed cfg flt locked carrier tp tph tg th ts prin runID credentialKey initiatedByUserID s =
     (if prin = [] \<or> runID = []
      then (Inl ''coord.ProdClaimer.ClaimNextCredentialed: principal and runID are required'', s)
      else if credentialKey = [] then (Inl ''coord.ProdClaimer.ClaimNextCredentialed: credentialKey is required'', s)
      else case validateCredentialKey ''credentialKey'' credentialKey of
        Some err \<Rightarrow> (Inl err, s)
      | None \<Rightarrow>
        if flt ''begin'' then (Inl ''coord.ProdClaimer.ClaimNextCredentialed: begin'', s)
        else if flt ''pick'' then (Inl ''coord.ProdClaimer.ClaimNextCredentialed: pick'', s)
        else case pick_credentialed cfg locked tp tph credentialKey s of
          None \<Rightarrow> (Inr None, s)
        | Some item \<Rightarrow> acquireCredentialed cfg flt carrier tg th ts prin runID item credentialKey initiatedByUserID s)"

definition AcquireSpecificCredentialed ::
  "ProdConfig \<Rightarrow> dbfaults \<Rightarrow> json option \<Rightarrow> instant \<Rightarrow> instant \<Rightarrow> instant \<Rightarrow> string \<Rightarrow> string \<Rightarrow> string \<Rightarrow> string \<Rightarrow> string \<Rightarrow>
   reroute_db \<Rightarrow> (string + (string \<times> int) option) \<times> reroute_db" where
  "AcquireSpecificCredentialed cfg flt carrier tg th ts prin runID itemID credentialKey initiatedByUserID s =
     (if prin = [] \<or> runID = [] \<or> itemID = []
      then (Inl ''coord.ProdClaimer.AcquireSpecificCredentialed: principal, runID and itemID are required'', s)
      else if credentialKey = [] then (Inl ''coord.ProdClaimer.AcquireSpecificCredentialed: credentialKey is required'', s)
      else case validateCredentialKey ''credentialKey'' credentialKey of
        Some err \<Rightarrow> (Inl err, s)
      | None \<Rightarrow>
        if flt ''begin'' then (Inl ''coord.ProdClaimer.AcquireSpecificCredentialed: begin'', s)
        else acquireCredentialed cfg flt carrier tg th ts prin runID itemID credentialKey initiatedByUserID s)"

section \<open>What the operations do\<close>


definition rr_inv :: "reroute_db \<Rightarrow> bool" where
  "rr_inv s \<longleftrightarrow> wf_prod (rr_db s) \<and> wf_table hw_item (rr_holds s)"

lemma reroute_row_sel [simp]: "pc_item (reroute_row r) = pc_item r" "pc_fence (reroute_row r) = pc_fence r + 1"
  "pc_holder (reroute_row r) = None" "pc_run (reroute_row r) = None" "pc_lease (reroute_row r) = None"
  by (simp_all add: reroute_row_def)

lemma lookup_hold_write:
  "lookup_by hw_item j (hold_write now th item c a at f run co holds) =
    (if j = item then Some \<lparr>hw_item = item, hw_credential = c, hw_attempt = a, hw_resume = min at (th + MaxHoldWindow),
       hw_fence = f, hw_run = run, hw_coordinator = co,
       hw_created = (case lookup_by hw_item item holds of None \<Rightarrow> now | Some h \<Rightarrow> hw_created h), hw_updated = now\<rparr>
     else lookup_by hw_item j holds)"
  by (simp add: hold_write_def)

text \<open>The durable facts of a release, relating the state before and after.\<close>

definition released_to ::
  "bool \<Rightarrow> instant \<Rightarrow> instant \<Rightarrow> string \<Rightarrow> string \<Rightarrow> string \<Rightarrow> string \<Rightarrow> instant \<Rightarrow> int \<Rightarrow> reroute_db \<Rightarrow> reroute_db \<Rightarrow> bool" where
  "released_to emit now th item holder run credential resumeAt fence s s' \<longleftrightarrow>
     (\<exists>r w. claim_row_of (rr_db s) item = Some r \<and> pc_holder r = Some holder \<and> pc_run r = Some run \<and>
        fence = pc_fence r + 1 \<and> item_row_of (rr_db s) item = Some w \<and> pw_state w = ''in_progress'' \<and>
        (\<forall>j. claim_row_of (rr_db s') j = (if j = item then Some (reroute_row r) else claim_row_of (rr_db s) j)) \<and>
        (\<forall>j. item_row_of (rr_db s') j = (if j = item then Some (set_lane now ''todo'' w) else item_row_of (rr_db s) j)) \<and>
        (\<exists>h. hold_of s' item = Some h \<and> hw_credential h = credential \<and> hw_run h = run \<and> hw_fence h = fence \<and>
             hw_resume h = min resumeAt (th + MaxHoldWindow)) \<and>
        (\<forall>j. j \<noteq> item \<longrightarrow> hold_of s' j = hold_of s j) \<and>
        (\<exists>a. pd_audit (rr_db s') = pd_audit (rr_db s) @ [a] \<and> au_event a = ''claim_released'' \<and> au_item a = item \<and>
             au_run a = Some run \<and> au_fence a = Some fence) \<and>
        (if emit
         then \<exists>e. pd_outbox (rr_db s') = pd_outbox (rr_db s) @ [e] \<and> ob_event e = ''reroute_released'' \<and> ob_item e = Some item \<and>
                  ob_run e = Some run \<and> ob_project e = pw_project w \<and> ob_squad e = pw_team w \<and> ob_published e = None
         else pd_outbox (rr_db s') = pd_outbox (rr_db s)) \<and>
        pd_a2a (rr_db s') = pd_a2a (rr_db s) \<and> pd_comments (rr_db s') = pd_comments (rr_db s))"

lemma reroute_tail_Inr:
  assumes "reroute_tail emit flt carrier now th item holder run c a at co s = Inr (fence, s')" and inv: "rr_inv s"
    and r: "claim_row_of (rr_db s) item = Some r" "pc_holder r = Some holder" "pc_run r = Some run"
    and w: "item_row_of (rr_db s) item = Some w" "pw_state w = ''in_progress''" and ne: "run \<noteq> []"
  shows "released_to emit now th item holder run c at fence s s' \<and> rr_inv s'"
proof -
  have wf: "wf_table pc_item (pd_claims (rr_db s))" "wf_table pw_id (pd_items (rr_db s))" "wf_prod (rr_db s)"
      "wf_table hw_item (rr_holds s)"
    using inv by (simp_all add: rr_inv_def wf_prodD)
  let ?G = "\<lambda>r. pc_holder r = Some holder \<and> pc_run r = Some run"
  let ?L = "\<lambda>w. pw_state w = ''in_progress''"
  let ?db1 = "(rr_db s)\<lparr>pd_claims := upd_key pc_item item ?G reroute_row (pd_claims (rr_db s))\<rparr>"
  let ?db2 = "?db1\<lparr>pd_items := upd_key pw_id item ?L (set_lane now ''todo'') (pd_items ?db1)\<rparr>"
  let ?a = "reroute_audit now item run c a at fence co"
  let ?db3 = "insert_audit ?a ?db2"
  have row: "row_key pc_item item ?G (pd_claims (rr_db s)) = Some r"
    using r by (simp add: row_key_wf [OF wf(1)])
  obtain db4 where d: "fence = pc_fence r + 1"
      "(if emit then CaptureForWorkItem flt carrier item run ''reroute_released'' (rerouteEventPayload c a fence) ?db3 else Inr ?db3) = Inr db4"
      "s' = \<lparr>rr_db = db4, rr_holds = hold_write now th item c a at fence run co (rr_holds s)\<rparr>"
    using assms(1) row by (auto simp: reroute_tail_def Let_def split: if_splits sum.splits)
  have wf3: "wf_prod ?db3" using wf(3) by (simp add: wf_prod_def)
  have items: "item_row_of ?db3 j = (if j = item then Some (set_lane now ''todo'' w) else item_row_of (rr_db s) j)" for j
    using w by simp
  have claims: "claim_row_of ?db3 j = (if j = item then Some (reroute_row r) else claim_row_of (rr_db s) j)" for j
    using r by simp
  have d4: "db4 = (if emit then outbox_for_item ''work_item'' ''reroute_released'' item (Some run) (rerouteEventPayload c a fence) carrier ?db3 else ?db3)"
    using d(2) ne by (auto simp: CaptureForWorkItem_def nullable_def split: if_splits)
  have wf': "rr_inv s'" using d(3) d4 wf3 wf(4) by (simp add: rr_inv_def hold_write_def)
  have "released_to emit now th item holder run c at fence s s'"
    unfolding released_to_def
  proof (intro exI [of _ r] exI [of _ w] conjI)
    show "\<forall>j. claim_row_of (rr_db s') j = (if j = item then Some (reroute_row r) else claim_row_of (rr_db s) j)"
      using claims d(3) d4 by simp
    show "\<forall>j. item_row_of (rr_db s') j = (if j = item then Some (set_lane now ''todo'' w) else item_row_of (rr_db s) j)"
      using items d(3) d4 by simp
    show "\<exists>a. pd_audit (rr_db s') = pd_audit (rr_db s) @ [a] \<and> au_event a = ''claim_released'' \<and> au_item a = item \<and>
             au_run a = Some run \<and> au_fence a = Some fence"
      using d(3) d4 by (simp add: reroute_audit_def)
    show "if emit
         then \<exists>e. pd_outbox (rr_db s') = pd_outbox (rr_db s) @ [e] \<and> ob_event e = ''reroute_released'' \<and> ob_item e = Some item \<and>
                  ob_run e = Some run \<and> ob_project e = pw_project w \<and> ob_squad e = pw_team w \<and> ob_published e = None
         else pd_outbox (rr_db s') = pd_outbox (rr_db s)"
      using d(3) d4 items [of item] lookup_by_Some [OF w(1)] by (auto simp: outbox_for_item_def)
    show "\<exists>h. hold_of s' item = Some h \<and> hw_credential h = c \<and> hw_run h = run \<and> hw_fence h = fence \<and>
             hw_resume h = min at (th + MaxHoldWindow)"
      using d(3) by (simp add: lookup_hold_write)
    show "\<forall>j. j \<noteq> item \<longrightarrow> hold_of s' j = hold_of s j" using d(3) by (simp add: lookup_hold_write)
    show "pd_a2a (rr_db s') = pd_a2a (rr_db s)" "pd_comments (rr_db s') = pd_comments (rr_db s)" using d(3) d4 by simp_all
  qed (use r w d in simp_all)
  with wf' show ?thesis by simp
qed


lemma ReleaseForReroute_cases:
  assumes "ReleaseForReroute emit flt carrier now th item holder run c a at co s = (res, s')"
  obtains (unchanged) "s' = s" "\<And>f. res \<noteq> Inr \<lparr>RR_Fence = f, RR_AlreadyReleased = False\<rparr>"
  | (released) t fence r w where "at = Some t" "run \<noteq> []" "item \<noteq> []"
      "claim_row_of (rr_db s) item = Some r" "pc_holder r = Some holder" "pc_run r = Some run"
      "item_row_of (rr_db s) item = Some w" "pw_state w = ''in_progress''"
      "reroute_tail emit flt carrier now th item holder run c a t co s = Inr (fence, s')"
      "res = Inr \<lparr>RR_Fence = fence, RR_AlreadyReleased = False\<rparr>"
  using assms
  by (auto simp: ReleaseForReroute_def split: if_splits option.splits sum.splits prod.splits)

lemma ReleaseForReroute_released:
  assumes "ReleaseForReroute emit flt carrier now th item holder run c a at co s = (Inr \<lparr>RR_Fence = f, RR_AlreadyReleased = False\<rparr>, s')"
    and "rr_inv s"
  shows "\<exists>t. at = Some t \<and> released_to emit now th item holder run c t f s s' \<and> rr_inv s'"
  using assms(1)
proof (cases rule: ReleaseForReroute_cases)
  case (released t fence r w)
  from reroute_tail_Inr [OF released(9) assms(2) released(4-8) released(2)] released(1,10) show ?thesis by auto
qed auto

lemma acq_credentialed_eq:
  assumes "rr_inv s"
  shows "acq_credentialed cfg tg th ts prin run ini item c s =
    (if held_for th c item (rr_holds s) then None else prod_acq cfg tg ts prin run ini item (rr_db s))"
proof -
  let ?H = "held_for th c item (rr_holds s)"
  let ?G = "\<lambda>r. claim_free tg r \<and> \<not> held_for th c (pc_item r) (rr_holds s)"
  have wf: "wf_table pc_item (pd_claims (rr_db s))" using assms by (simp add: rr_inv_def wf_prodD)
  have row: "row_key pc_item item ?G (pd_claims (rr_db s)) =
      (if ?H then None else row_key pc_item item (claim_free tg) (pd_claims (rr_db s)))"
    by (auto simp: row_key_wf [OF wf] dest: lookup_by_Some split: option.splits)
  have upd: "\<not> ?H \<Longrightarrow> upd_key pc_item item ?G g (pd_claims (rr_db s)) = upd_key pc_item item (claim_free tg) g (pd_claims (rr_db s))" for g
    by (auto simp: upd_key_def sql_update_def)
  show ?thesis
    using row upd by (simp add: acq_credentialed_def prod_acq_def Let_def split: option.splits)
qed

lemma acquireCredentialed_granted:
  assumes "acquireCredentialed cfg flt carrier tg th ts prin run itemID c ini s = (Inr (Some (item, fence)), s')"
    and inv: "rr_inv s" and ne: "run \<noteq> []"
  shows "item = itemID \<and> \<not> held_for th c item (rr_holds s) \<and> rr_holds s' = rr_holds s \<and>
    granted_to cfg tg ts prin run item fence (rr_db s) (rr_db s') \<and> wf_prod (rr_db s')"
proof -
  have wf: "wf_prod (rr_db s)" using inv by (simp add: rr_inv_def)
  obtain db1 f db' where a: "\<not> held_for th c itemID (rr_holds s)"
      "prod_acq cfg tg ts prin run (nullable ini) itemID (rr_db s) = Some (f, db1)"
      "claim_tail ''coord.ProdClaimer.acquireCredentialed'' cfg flt carrier ts prin run (nullable ini) itemID f (rr_db s) db1 =
        (Inr (Some (item, fence)), db')" "s' = s\<lparr>rr_db := db'\<rparr>"
    using assms(1) by (auto simp: acquireCredentialed_def acq_credentialed_eq [OF inv] split: if_splits option.splits prod.splits)
  from prod_acq_tail_granted [OF a(2,3) wf ne] a(1,4) show ?thesis by auto
qed

lemma acquireCredentialed_refused:
  assumes "acquireCredentialed cfg flt carrier tg th ts prin run itemID c ini s = (res, s')" and "\<forall>g. res \<noteq> Inr (Some g)"
  shows "s' = s"
  using assms
  by (auto simp: acquireCredentialed_def split: if_splits option.splits prod.splits elim: claim_tail_cases)

lemma ClaimNextCredentialed_cases:
  assumes "ClaimNextCredentialed cfg flt locked carrier tp tph tg th ts prin run c ini s = (res, s')"
  obtains (stopped) "s' = s" "\<And>g. res \<noteq> Inr (Some g)"
  | (tried) item where "run \<noteq> []" "pick_credentialed cfg locked tp tph c s = Some item"
      "acquireCredentialed cfg flt carrier tg th ts prin run item c ini s = (res, s')"
  using assms by (auto simp: ClaimNextCredentialed_def split: if_splits option.splits)

lemma AcquireSpecificCredentialed_cases:
  assumes "AcquireSpecificCredentialed cfg flt carrier tg th ts prin run item c ini s = (res, s')"
  obtains (stopped) "s' = s" "\<And>g. res \<noteq> Inr (Some g)"
  | (tried) "run \<noteq> []" "acquireCredentialed cfg flt carrier tg th ts prin run item c ini s = (res, s')"
  using assms by (auto simp: AcquireSpecificCredentialed_def split: if_splits option.splits)


section \<open>The re-route inside the whole custody surface\<close>

inductive rr_step :: "ProdConfig \<Rightarrow> reroute_db \<Rightarrow> (string \<times> int) option \<Rightarrow> reroute_db \<Rightarrow> bool" for cfg where
  rr_prod: "prod_step cfg (rr_db s) g db' \<Longrightarrow> rr_step cfg s g (s\<lparr>rr_db := db'\<rparr>)"
| rr_release: "ReleaseForReroute emit flt carrier now th item holder run c a at co s = (res, s') \<Longrightarrow> rr_step cfg s None s'"
| rr_claim: "ClaimNextCredentialed cfg flt locked carrier tp tph tg th ts prin run c ini s = (res, s') \<Longrightarrow>
    rr_step cfg s (grant_of res) s'"
| rr_acquire: "AcquireSpecificCredentialed cfg flt carrier tg th ts prin run item c ini s = (res, s') \<Longrightarrow>
    rr_step cfg s (grant_of res) s'"

text \<open>
  What a step does to the holds: the hold of an item stays as it is, or the step released the
  item and the new hold carries the fence of that release.
\<close>

definition hold_kept :: "reroute_db \<Rightarrow> reroute_db \<Rightarrow> bool" where
  "hold_kept s s' \<longleftrightarrow> (\<forall>j. hold_of s' j = hold_of s j \<or>
     (\<exists>h. hold_of s' j = Some h \<and> hw_fence h = prod_fence (rr_db s') j \<and> prod_fence (rr_db s) j < hw_fence h))"

definition step_kept :: "reroute_db \<Rightarrow> (string \<times> int) option \<Rightarrow> reroute_db \<Rightarrow> bool" where
  "step_kept s g s' \<longleftrightarrow> rr_inv s' \<and> fences_kept (rr_db s) (rr_db s') \<and> hold_kept s s' \<and>
     (\<forall>i f. g = Some (i, f) \<longrightarrow> prod_fence (rr_db s) i < f \<and> prod_fence (rr_db s') i = f)"

lemma no_grant: "\<forall>g. res \<noteq> Inr (Some g) \<Longrightarrow> grant_of res = None"
  by (cases "grant_of res") (auto simp: grant_of_def split: sum.splits)

lemma step_kept_refl: "rr_inv s \<Longrightarrow> step_kept s None s"
  by (simp add: step_kept_def rr_inv_def fences_kept_refl hold_kept_def)

lemma released_step_kept:
  assumes "released_to emit now th item holder run c t f s s'" and "rr_inv s'"
  shows "step_kept s None s'"
proof -
  obtain r h where r: "claim_row_of (rr_db s) item = Some r" "f = pc_fence r + 1"
      "\<And>j. claim_row_of (rr_db s') j = (if j = item then Some (reroute_row r) else claim_row_of (rr_db s) j)"
      "hold_of s' item = Some h" "hw_fence h = f" "\<And>j. j \<noteq> item \<Longrightarrow> hold_of s' j = hold_of s j"
    using assms(1) unfolding released_to_def by blast
  have pf: "prod_fence (rr_db s) item = pc_fence r" "prod_fence (rr_db s') item = f"
    using r(1,2,3) by (simp_all add: prod_fence_def)
  have le: "prod_fence (rr_db s) j \<le> prod_fence (rr_db s') j" for j
    using r(1,2,3) by (simp add: prod_fence_def)
  have "hold_kept s s'"
    unfolding hold_kept_def
  proof
    fix j
    show "hold_of s' j = hold_of s j \<or>
      (\<exists>h. hold_of s' j = Some h \<and> hw_fence h = prod_fence (rr_db s') j \<and> prod_fence (rr_db s) j < hw_fence h)"
      using r(2,4,5,6) pf by (cases "j = item") simp_all
  qed
  with le assms(2) show ?thesis by (simp add: step_kept_def fences_kept_def rr_inv_def)
qed

lemma credentialed_step_kept:
  assumes "acquireCredentialed cfg flt carrier tg th ts prin run itemID c ini s = (res, s')" and "rr_inv s" and "run \<noteq> []"
  shows "step_kept s (grant_of res) s'"
proof (cases "grant_of res")
  case None
  then have "\<forall>g. res \<noteq> Inr (Some g)" by (auto simp: grant_of_def)
  with acquireCredentialed_refused [OF assms(1)] assms(2) None show ?thesis by (simp add: step_kept_refl)
next
  case (Some g)
  then have "res = Inr (Some (fst g, snd g))" by (auto simp: grant_of_def split: sum.splits)
  with acquireCredentialed_granted [OF _ assms(2,3)] assms(1)
  have g: "granted_to cfg tg ts prin run (fst g) (snd g) (rr_db s) (rr_db s')" "wf_prod (rr_db s')" "rr_holds s' = rr_holds s"
    by blast+
  from granted_fences [OF g(1,2)] g(2,3) Some assms(2) show ?thesis
    by (auto simp: step_kept_def rr_inv_def hold_kept_def)
qed

lemma rr_step_kept: "rr_step cfg s g s' \<Longrightarrow> rr_inv s \<Longrightarrow> step_kept s g s'"
proof (induction rule: rr_step.induct)
  case (rr_prod s g db')
  then show ?case using prod_step_fences [OF rr_prod(1)]
    by (auto simp: step_kept_def rr_inv_def hold_kept_def fences_kept_def)
next
  case (rr_release emit flt carrier now th item holder run c a at co s res s')
  from rr_release(1) show ?case
  proof (cases rule: ReleaseForReroute_cases)
    case unchanged
    then show ?thesis using rr_release(2) by (simp add: step_kept_refl)
  next
    case (released t fence r w)
    from reroute_tail_Inr [OF released(9) rr_release(2) released(4-8) released(2)] show ?thesis
      using released_step_kept by blast
  qed
next
  case (rr_claim flt locked carrier tp tph tg th ts prin run c ini s res s')
  from rr_claim(1) show ?case
  proof (cases rule: ClaimNextCredentialed_cases)
    case stopped
    then have "grant_of res = None" using no_grant by blast
    with stopped(1) rr_claim(2) show ?thesis by (simp add: step_kept_refl)
  next
    case (tried item)
    then show ?thesis using credentialed_step_kept rr_claim(2) by blast
  qed
next
  case (rr_acquire flt carrier tg th ts prin run item c ini s res s')
  from rr_acquire(1) show ?case
  proof (cases rule: AcquireSpecificCredentialed_cases)
    case stopped
    then have "grant_of res = None" using no_grant by blast
    with stopped(1) rr_acquire(2) show ?thesis by (simp add: step_kept_refl)
  next
    case tried
    then show ?thesis using credentialed_step_kept rr_acquire(2) by blast
  qed
qed

interpretation reroute: fenced_claims rr_inv "\<lambda>s. prod_fence (rr_db s)" "rr_step cfg" for cfg
  by unfold_locales (use rr_step_kept [unfolded step_kept_def fences_kept_def] in blast)+

lemma run_hold:
  assumes "reroute.run cfg s gs s'" and "rr_inv s" and "hold_of s item = Some h"
  shows "hold_of s' item = Some h \<or> (\<exists>h'. hold_of s' item = Some h' \<and> prod_fence (rr_db s) item < hw_fence h')"
proof -
  have "rr_inv s' \<and> (hold_of s' item = Some h \<or> (\<exists>h'. hold_of s' item = Some h' \<and> prod_fence (rr_db s) item < hw_fence h'))"
    using assms
  proof (induction rule: reroute.run.induct)
    case run_refl
    then show ?case by simp
  next
    case (run_quiet gs s1 s2)
    have k: "step_kept s1 None s2" using run_quiet rr_step_kept by blast
    have "prod_fence (rr_db s) item \<le> prod_fence (rr_db s1) item"
      using reroute.run_bounds(1) run_quiet by blast
    with k run_quiet show ?case unfolding step_kept_def hold_kept_def by (smt (verit, best))
  next
    case (run_grant gs s1 g s2)
    have k: "step_kept s1 (Some g) s2" using run_grant rr_step_kept by blast
    have "prod_fence (rr_db s) item \<le> prod_fence (rr_db s1) item"
      using reroute.run_bounds(1) run_grant by blast
    with k run_grant show ?case unfolding step_kept_def hold_kept_def by (smt (verit, best))
  qed
  then show ?thesis by blast
qed


section \<open>Properties\<close>

text \<open>
  A release is one fact: a call that reports a fresh release gave up exactly the
  asserted holder's checkout under a fence one higher, moved exactly that item from in_progress
  back to todo, wrote the item's hold (with a window of at most six hours) and no other, and
  appended one claim_released audit row and, when capture is on, one reroute_released event; a
  call that reports anything else, a repeated release included, changed nothing.
\<close>

theorem reroute_release_is_one_fact:
  assumes "rr_inv s" and "ReleaseForReroute emit flt carrier now th item holder run c a at co s = (res, s')"
  shows "(\<forall>f. res = Inr \<lparr>RR_Fence = f, RR_AlreadyReleased = False\<rparr> \<longrightarrow>
       (\<exists>t. at = Some t \<and> released_to emit now th item holder run c t f s s')) \<and>
     ((\<forall>f. res \<noteq> Inr \<lparr>RR_Fence = f, RR_AlreadyReleased = False\<rparr>) \<longrightarrow> s' = s)"
proof -
  have "\<exists>t. at = Some t \<and> released_to emit now th item holder run c t f s s'"
    if "res = Inr \<lparr>RR_Fence = f, RR_AlreadyReleased = False\<rparr>" for f
    using ReleaseForReroute_released [of emit flt carrier now th item holder run c a at co s f s'] assms that by blast
  moreover have "s' = s" if "\<forall>f. res \<noteq> Inr \<lparr>RR_Fence = f, RR_AlreadyReleased = False\<rparr>"
    using assms(2) that by (cases rule: ReleaseForReroute_cases) blast+
  ultimately show ?thesis by blast
qed


definition rr_held :: reroute_db where
  "rr_held = \<lparr>rr_db = one_todo\<lparr>pd_items := map (\<lambda>w. w\<lparr>pw_state := ''in_progress''\<rparr>) (pd_items one_todo),
       pd_claims := map (\<lambda>r. r\<lparr>pc_holder := Some ''a'', pc_run := Some ''r'', pc_fence := 1, pc_lease := Some 30\<rparr>) (pd_claims one_todo)\<rparr>,
     rr_holds = []\<rparr>"

definition rr_free :: reroute_db where
  "rr_free = snd (ReleaseForReroute False (\<lambda>_. False) None 5 5 ''i'' ''a'' ''r'' ''ns/k'' 2 (Some 100) ''lead'' rr_held)"

lemma rr_inv_held: "rr_inv rr_held"
  by (simp add: rr_inv_def rr_held_def wf_prod_def wf_table_def one_todo_def)

lemma rr_free_eq:
  "ReleaseForReroute False (\<lambda>_. False) None 5 5 ''i'' ''a'' ''r'' ''ns/k'' 2 (Some 100) ''lead'' rr_held =
    (Inr \<lparr>RR_Fence = 2, RR_AlreadyReleased = False\<rparr>, rr_free)"
proof -
  have "fst (ReleaseForReroute False (\<lambda>_. False) None 5 5 ''i'' ''a'' ''r'' ''ns/k'' 2 (Some 100) ''lead'' rr_held) =
      Inr \<lparr>RR_Fence = 2, RR_AlreadyReleased = False\<rparr>"
    by code_simp
  then show ?thesis unfolding rr_free_def by (metis prod.collapse)
qed

theorem reroute_release_is_one_fact_witness:
  "\<exists>t. Some (100 :: instant) = Some t \<and> released_to False 5 5 ''i'' ''a'' ''r'' ''ns/k'' t 2 rr_held rr_free"
  using reroute_release_is_one_fact [OF rr_inv_held rr_free_eq] by blast

text \<open>
  The released holder stays fenced out: after a release, whatever claims, heartbeats,
  drives, kills, moves, settlements and further re-routes follow, a heartbeat that carries the
  fence of the released checkout renews nothing and changes nothing.
\<close>

theorem released_holder_stays_out:
  assumes "rr_inv s" and "claim_row_of (rr_db s) item = Some r"
    and "ReleaseForReroute emit flt carrier now th item holder run c a at co s = (Inr \<lparr>RR_Fence = f, RR_AlreadyReleased = False\<rparr>, s1)"
    and "reroute.run cfg s1 gs s2"
  shows "ProdRenew cfg' flt' tg ts item prin run' (pc_fence r) (rr_db s2) = (if flt' ''renew'' then None else Some False, rr_db s2)"
proof -
  obtain t where t: "released_to emit now th item holder run c t f s s1" "rr_inv s1"
    using ReleaseForReroute_released [OF assms(3,1)] by blast
  have "prod_fence (rr_db s1) item = pc_fence r + 1"
    using t(1) assms(2) by (auto simp: released_to_def prod_fence_def)
  with reroute.run_bounds(1) [OF assms(4) t(2), of item] have lt: "pc_fence r < prod_fence (rr_db s2) item" by simp
  have "wf_prod (rr_db s2)" using reroute.run_inv [OF assms(4) t(2)] by (simp add: rr_inv_def)
  moreover have "\<not> (\<exists>q. claim_row_of (rr_db s2) item = Some q \<and> pc_run q = Some run' \<and> pc_fence q = pc_fence r)"
    using lt by (auto simp: prod_fence_def)
  ultimately show ?thesis by (rule ProdRenew_stale)
qed

theorem released_holder_stays_out_witness:
  "ProdRenew DefaultProdConfig (\<lambda>_. False) 6 6 ''i'' ''a'' ''r'' 1 (rr_db rr_free) = (Some False, rr_db rr_free)"
  using released_holder_stays_out [OF rr_inv_held _ rr_free_eq reroute.run_refl, where r = "hd (pd_claims (rr_db rr_held))" and flt' = "\<lambda>_. False"]
  by (simp add: rr_held_def one_todo_def)

lemma hold_blocks:
  assumes "hold_of s item = Some h" and "th < hw_resume h"
  shows "held_for th (hw_credential h) item (rr_holds s)"
  using assms lookup_by_Some [OF assms(1)] by (auto simp: held_for_def)

text \<open>
  C17. The throttled credential is kept away: from a state in which an item is held for a
  credential, over any run of operations that does not release the item again, no credentialed
  claim that presents this credential before the window's end is granted the item, neither
  by the queue pull nor by name.
\<close>

theorem throttled_credential_excluded:
  assumes "rr_inv s" and "hold_of s item = Some h" and "reroute.run cfg s gs s'"
    and "\<And>h'. hold_of s' item = Some h' \<Longrightarrow> hw_fence h' \<le> prod_fence (rr_db s) item" and "th < hw_resume h"
  shows "(\<forall>f. fst (ClaimNextCredentialed cfg flt locked carrier tp tph tg th ts prin run (hw_credential h) ini s') \<noteq> Inr (Some (item, f))) \<and>
    (\<forall>g. fst (AcquireSpecificCredentialed cfg flt carrier tg th ts prin run item (hw_credential h) ini s') \<noteq> Inr (Some g))"
proof -
  have inv: "rr_inv s'" using reroute.run_inv [OF assms(3,1)] .
  have "hold_of s' item = Some h" using run_hold [OF assms(3,1,2)] assms(4) by fastforce
  then have held: "held_for th (hw_credential h) item (rr_holds s')" using assms(5) by (rule hold_blocks)
  have no: "acquireCredentialed cfg flt carrier tg th ts prin run i (hw_credential h) ini s' \<noteq> (Inr (Some (item, f)), s'')"
    if "run \<noteq> []" for i f s''
    using acquireCredentialed_granted [OF _ inv that] held by metis
  have no2: "acquireCredentialed cfg flt carrier tg th ts prin run item (hw_credential h) ini s' \<noteq> (Inr (Some g), s'')"
    if "run \<noteq> []" for g s''
    using acquireCredentialed_granted [OF _ inv that] held by (metis prod.collapse)
  have "fst (ClaimNextCredentialed cfg flt locked carrier tp tph tg th ts prin run (hw_credential h) ini s') \<noteq> Inr (Some (item, f))" for f
  proof
    assume "fst (ClaimNextCredentialed cfg flt locked carrier tp tph tg th ts prin run (hw_credential h) ini s') = Inr (Some (item, f))"
    then obtain s'' where "ClaimNextCredentialed cfg flt locked carrier tp tph tg th ts prin run (hw_credential h) ini s' = (Inr (Some (item, f)), s'')"
      by (metis prod.collapse)
    then show False by (cases rule: ClaimNextCredentialed_cases) (use no in blast)+
  qed
  moreover have "fst (AcquireSpecificCredentialed cfg flt carrier tg th ts prin run item (hw_credential h) ini s') \<noteq> Inr (Some g)" for g
  proof
    assume "fst (AcquireSpecificCredentialed cfg flt carrier tg th ts prin run item (hw_credential h) ini s') = Inr (Some g)"
    then obtain s'' where "AcquireSpecificCredentialed cfg flt carrier tg th ts prin run item (hw_credential h) ini s' = (Inr (Some g), s'')"
      by (metis prod.collapse)
    then show False by (cases rule: AcquireSpecificCredentialed_cases) (use no2 in blast)+
  qed
  ultimately show ?thesis by blast
qed

definition rr_hold :: hold_row where
  "rr_hold = \<lparr>hw_item = ''i'', hw_credential = ''ns/k'', hw_attempt = 2, hw_resume = 100, hw_fence = 2, hw_run = ''r'',
     hw_coordinator = ''lead'', hw_created = 5, hw_updated = 5\<rparr>"

lemma rr_free_simps:
  "rr_inv rr_free" "hold_of rr_free ''i'' = Some rr_hold" "prod_fence (rr_db rr_free) ''i'' = 2"
proof -
  show "rr_inv rr_free" using ReleaseForReroute_released [OF rr_free_eq rr_inv_held] by blast
  show "hold_of rr_free ''i'' = Some rr_hold" "prod_fence (rr_db rr_free) ''i'' = 2"
    unfolding rr_free_def rr_hold_def by code_simp+
qed

theorem throttled_credential_excluded_witness:
  "\<forall>g. fst (AcquireSpecificCredentialed DefaultProdConfig (\<lambda>_. False) None 99 99 99 ''b'' ''r2'' ''i'' ''ns/k'' [] rr_free) \<noteq> Inr (Some g)"
proof -
  have c: "hw_credential rr_hold = ''ns/k''" "99 < hw_resume rr_hold" by (simp_all add: rr_hold_def)
  have "hold_of rr_free ''i'' = Some h' \<Longrightarrow> hw_fence h' \<le> prod_fence (rr_db rr_free) ''i''" for h'
    by (auto simp: rr_free_simps rr_hold_def)
  from throttled_credential_excluded [OF rr_free_simps(1,2) reroute.run_refl this c(2)] c(1) show ?thesis by metis
qed


text \<open>
  The re-routed item is claimable by another credential at once, and by the throttled one when
  the window is over: after a release of an item to the lane the claimer pulls from, a healthy
  credentialed acquire that presents a different valid key, or any valid key once the window
  has passed, is granted the item under the next fence.
\<close>

theorem rerouted_item_moves_on:
  assumes "rr_inv s"
    and "ReleaseForReroute emit flt carrier now th0 item holder run c a (Some t) co s = (Inr \<lparr>RR_Fence = f, RR_AlreadyReleased = False\<rparr>, s1)"
    and "PC_ClaimableState cfg = ''todo''" and "\<not> PC_emitOutbox cfg"
    and "prin \<noteq> []" "run' \<noteq> []" "c' \<noteq> []" "validateCredentialKey ''credentialKey'' c' = None"
    and "c' \<noteq> c \<or> min t (th0 + MaxHoldWindow) \<le> th"
  shows "fst (AcquireSpecificCredentialed cfg (\<lambda>_. False) carrier' tg th ts prin run' item c' ini s1) = Inr (Some (item, f + 1))"
proof -
  obtain t' where "Some t = Some t'" and rel': "released_to emit now th0 item holder run c t' f s s1" and inv: "rr_inv s1"
    using ReleaseForReroute_released [OF assms(2,1)] by blast
  then have rel: "released_to emit now th0 item holder run c t f s s1" by simp
  have ne: "item \<noteq> []" using assms(2) by (cases rule: ReleaseForReroute_cases) auto
  from rel obtain r w h where r: "claim_row_of (rr_db s1) item = Some (reroute_row r)" "f = pc_fence r + 1"
      "item_row_of (rr_db s1) item = Some (set_lane now ''todo'' w)"
      "hold_of s1 item = Some h" "hw_credential h = c" "hw_resume h = min t (th0 + MaxHoldWindow)"
    unfolding released_to_def by auto
  have wf: "wf_table hw_item (rr_holds s1)" "wf_prod (rr_db s1)" using inv by (simp_all add: rr_inv_def)
  have "\<not> held_for th c' item (rr_holds s1)"
    using r(4-6) assms(9) lookup_by_mem [OF wf(1)] by (auto simp: held_for_def)
  moreover have free: "claim_free tg (reroute_row r)" by (simp add: claim_free_def)
  moreover have "row_key pc_item item (claim_free tg) (pd_claims (rr_db s1)) = Some (reroute_row r)"
    using r(1) free by (simp add: row_key_wf [OF wf_prodD(1) [OF wf(2)]])
  moreover have "aff_key pw_id item (lane_ok cfg) (pd_items (rr_db s1)) = 1"
    using r(3) assms(3) by (simp add: aff_key_wf [OF wf_prodD(2) [OF wf(2)]] lane_ok_def)
  ultimately show ?thesis
    using assms(4-8) ne r(2)
    by (simp add: AcquireSpecificCredentialed_def acquireCredentialed_def acq_credentialed_eq [OF inv] prod_acq_def
        claim_tail_def prod_mark_def captureClaim_def)
qed

theorem rerouted_item_moves_on_witness:
  "fst (AcquireSpecificCredentialed DefaultProdConfig (\<lambda>_. False) None 6 6 6 ''b'' ''r2'' ''i'' ''ns/other'' [] rr_free) = Inr (Some (''i'', 3))"
  using rerouted_item_moves_on [OF rr_inv_held rr_free_eq, of DefaultProdConfig "''b''" "''r2''" "''ns/other''" 6 None 6 6 "[]"]
  by (simp add: DefaultProdConfig_def validateCredentialKey_def)

section \<open>The caller's policy\<close>

text \<open>
  A validated policy retains the checkout of a first pause with a short window, and re-routes
  exactly on repetition or on a long window.
\<close>

lemma ShouldReroute_iff:
  assumes "ReroutePolicy_Validate p = None"
  shows "ShouldReroute attempt ra p \<longleftrightarrow> attempt \<ge> AfterAttempts p \<or> (\<exists>d. ra = Some d \<and> d \<ge> MinWindow p)"
  using assms by (auto simp: ReroutePolicy_Validate_def ShouldReroute_def Let_def split: if_splits option.splits)

lemma PickAlternateCredential_find:
  "PickAlternateCredential throttled cs =
    (case find (\<lambda>c. c \<noteq> [] \<and> c \<noteq> throttled) cs of Some c \<Rightarrow> (c, True) | None \<Rightarrow> ([], False))"
  by (induction cs) auto

section \<open>What the release does not do\<close>

text \<open>
  The idempotency check knows a run and not an episode: when the run whose release a hold
  records has taken the item again, a second escalation is reported as already released, and
  the checkout stays with the throttled run.
\<close>

lemma second_episode_not_released:
  assumes "rr_inv s" and "hold_of s item = Some h" and "hw_run h = run" and "a \<ge> 1"
    and "item \<noteq> []" "holder \<noteq> []" "run \<noteq> []" "c \<noteq> []" "co \<noteq> []" and "validateCredentialKey ''throttledCredential'' c = None"
    and "\<not> flt ''begin''" "\<not> flt ''prior hold''"
  shows "ReleaseForReroute emit flt carrier now th item holder run c a (Some t) co s =
    (Inr \<lparr>RR_Fence = hw_fence h, RR_AlreadyReleased = True\<rparr>, s)"
proof -
  have "row_key hw_item item (\<lambda>h. hw_run h = run) (rr_holds s) = Some h"
    using assms(1-3) by (simp add: row_key_wf rr_inv_def)
  with assms show ?thesis by (simp add: ReleaseForReroute_def)
qed

definition rr_again :: reroute_db where
  "rr_again = snd (AcquireSpecificCredentialed DefaultProdConfig (\<lambda>_. False) None 101 101 101 ''a'' ''r'' ''i'' ''ns/k'' [] rr_free)"

lemma second_episode_reachable:
  "fst (AcquireSpecificCredentialed DefaultProdConfig (\<lambda>_. False) None 101 101 101 ''a'' ''r'' ''i'' ''ns/k'' [] rr_free) = Inr (Some (''i'', 3))"
  "ReleaseForReroute False (\<lambda>_. False) None 110 110 ''i'' ''a'' ''r'' ''ns/k'' 2 (Some 200) ''lead'' rr_again =
    (Inr \<lparr>RR_Fence = 2, RR_AlreadyReleased = True\<rparr>, rr_again)"
proof -
  let ?op = "AcquireSpecificCredentialed DefaultProdConfig (\<lambda>_. False) None 101 101 101 ''a'' ''r'' ''i'' ''ns/k'' [] rr_free"
  show g: "fst ?op = Inr (Some (''i'', 3))" unfolding rr_free_def by code_simp
  then have eq: "?op = (Inr (Some (''i'', 3)), rr_again)" unfolding rr_again_def by (metis prod.collapse)
  have "step_kept rr_free (grant_of (Inr (Some (''i'', 3)))) rr_again"
    using rr_step_kept [OF rr_acquire [OF eq] rr_free_simps(1)] .
  then have inv: "rr_inv rr_again" by (simp add: step_kept_def)
  have "rr_holds rr_again = rr_holds rr_free"
    using eq by (cases rule: AcquireSpecificCredentialed_cases)
      (use acquireCredentialed_granted [OF _ rr_free_simps(1)] in blast)+
  then have h: "hold_of rr_again ''i'' = Some rr_hold" using rr_free_simps(2) by simp
  show "ReleaseForReroute False (\<lambda>_. False) None 110 110 ''i'' ''a'' ''r'' ''ns/k'' 2 (Some 200) ''lead'' rr_again =
    (Inr \<lparr>RR_Fence = 2, RR_AlreadyReleased = True\<rparr>, rr_again)"
    using second_episode_not_released [OF inv h, of "''r''" 2 "''a''" "''ns/k''" "''lead''" "\<lambda>_. False"]
    by (simp add: rr_hold_def validateCredentialKey_def)
qed

text \<open>
  One row holds an item for one credential: the release that throttles a second credential
  drops what is left of the first one's window.
\<close>

lemma second_hold_frees_first:
  assumes "released_to emit now th item holder run c t f s s'" and "rr_inv s'" and "c' \<noteq> c"
  shows "\<not> held_for u c' item (rr_holds s')"
proof -
  obtain h where "hold_of s' item = Some h" "hw_credential h = c" using assms(1) by (auto simp: released_to_def)
  moreover have "wf_table hw_item (rr_holds s')" using assms(2) by (simp add: rr_inv_def)
  ultimately show ?thesis using assms(3) lookup_by_mem by (fastforce simp: held_for_def)
qed

text \<open>The audit row records the window the provider asked for, the hold the clamped one.\<close>

lemma audit_window_unclamped:
  assumes "th + MaxHoldWindow < at"
  shows "(''resume_at'', JTimeNano at) \<in> set (au_payload (reroute_audit now item run c a at f co)) \<and>
    (\<exists>h. lookup_by hw_item item (hold_write now th item c a at f run co holds) = Some h \<and> hw_resume h = th + MaxHoldWindow)"
  using assms by (simp add: reroute_audit_def lookup_hold_write)

end
