(* ===== verification/Prod_World.thy ===== *)
theory Prod_World
  imports Prod_Drive
begin

text \<open>
  The production drive against the in-memory model the repository's falsification tests run
  (pkg/reconcile/memstore.go): where no statement fails, every port accepts and the follow gate
  is off, a drive over the production store and effects is, pass for pass, a drive over the
  in-memory store and world. What a failing effect does to a drive is stated here as well.
\<close>

section \<open>Where nothing fails\<close>

definition accepting :: "ProdEffects \<Rightarrow> bool" where
  "accepting P \<longleftrightarrow>
     (\<forall>b log r. pe_binder P = Some b \<longrightarrow> \<not> isl (b log r)) \<and>
     (\<forall>d log t r. pe_dispatcher P = Some d \<longrightarrow> d log t r = None) \<and>
     (\<forall>w log r ref. pe_credWriter P = Some w \<longrightarrow> w log r ref = None) \<and>
     (\<forall>ob log r ref. pe_refObserver P = Some ob \<longrightarrow> ob log r ref = None)"

text \<open>An effect writes only audit rows of its own kinds.\<close>

definition quiet_audit :: "prod_db \<Rightarrow> prod_db \<Rightarrow> bool" where
  "quiet_audit db db' \<longleftrightarrow>
     (\<exists>as. pd_audit db' = pd_audit db @ as \<and> (\<forall>a \<in> set as. au_event a \<noteq> ''reconcile_advanced'' \<and> au_event a \<noteq> ''run_terminal''))"

lemma quiet_refl [simp]: "quiet_audit db db"
  by (simp add: quiet_audit_def)

lemma quiet_same [simp]: "pd_audit db' = pd_audit db \<Longrightarrow> quiet_audit db db'"
  by (simp add: quiet_audit_def)

lemma quiet_effect_audit:
  assumes "pd_audit (ef_db s) = pd_audit db" and "ev \<noteq> ''reconcile_advanced''" and "ev \<noteq> ''run_terminal''"
  shows "quiet_audit db (ef_db (ProdEffects_audit P flt now ev to s))"
  using assms by (auto simp: quiet_audit_def ProdEffects_audit_def effect_row_def)

lemma quiet_trans: "quiet_audit a b \<Longrightarrow> quiet_audit b c \<Longrightarrow> quiet_audit a c"
  by (auto simp: quiet_audit_def)

lemma healthy_audit_err:
  assumes "\<And>x. \<not> flt x" shows "ef_err (ProdEffects_audit P flt now ev to s) = ef_err s"
  using assms by (simp add: ProdEffects_audit_def)

lemma insert_sandbox_audit [simp]: "pd_audit (insert_sandbox r db) = pd_audit db"
  by (simp add: insert_sandbox_def)

lemma insert_a2a_audit: "insert_a2a r db = (n, db') \<Longrightarrow> pd_audit db' = pd_audit db"
  by (auto simp: insert_a2a_def split: if_splits)

lemma accepting_calls:
  assumes "accepting P"
  shows "call_binder P s = (r1, s1) \<Longrightarrow> \<exists>ref. r1 = Inr ref"
    "call_cred P ref s = (r2, s2) \<Longrightarrow> r2 = None" "call_observer P ref s = (r3, s3) \<Longrightarrow> r3 = None"
    "call_submit P t s = (r4, s4) \<Longrightarrow> r4 = None"
proof -
  show "call_binder P s = (r1, s1) \<Longrightarrow> \<exists>ref. r1 = Inr ref"
    using assms by (auto simp: accepting_def call_binder_def Let_def split: option.splits) (metis isl_def sum.exhaust_sel)
qed (use assms in \<open>auto simp: accepting_def call_cred_def call_observer_def call_submit_def Let_def split: option.splits if_splits\<close>)

lemma healthy_bind:
  assumes "\<And>n x. \<not> fst (env n) x" and "accepting P" and "ef_err s = None"
  shows "ef_err (ProdEffects_BindSandbox P env r True s) = None \<and> quiet_audit (ef_db s) (ef_db (ProdEffects_BindSandbox P env r True s))"
proof -
  obtain flt now where e: "env (ef_calls s) = (flt, now)" by fastforce
  have ok: "\<not> flt x" for x using assms(1) [of "ef_calls s" x] e by simp
  let ?s0 = "s\<lparr>ef_calls := Suc (ef_calls s)\<rparr>"
  obtain ref s1 where c1: "call_binder P ?s0 = (Inr ref, s1)" using accepting_calls(1) [OF assms(2)] by (metis surj_pair)
  obtain s2 where c2: "call_cred P ref s1 = (None, s2)" using accepting_calls(2) [OF assms(2)] by (metis surj_pair)
  obtain s3 where c3: "call_observer P ref s2 = (None, s3)" using accepting_calls(3) [OF assms(2)] by (metis surj_pair)
  have db: "ef_db s3 = ef_db s" and er: "ef_err s3 = None"
    using call_binder_cases [OF c1] call_cred_cases [OF c2] call_observer_cases [OF c3] assms(3) by auto
  have p: "bind_provision P flt now ?s0 = ProdEffects_audit P flt now ''sandbox_bound'' StepClaimingSandbox
      (s3\<lparr>ef_db := insert_sandbox \<lparr>bx_run = pe_runID P, bx_item = pe_workItemID P, bx_ref = ref, bx_by = pe_principal P, bx_at = now\<rparr> (ef_db s3)\<rparr>)"
    by (simp add: bind_provision_def c1 c2 c3 ok)
  show ?thesis
    using assms(3) er
    by (simp add: ProdEffects_BindSandbox_def e ok Let_def p healthy_audit_err [OF ok] quiet_effect_audit db)
qed

lemma healthy_dispatch:
  assumes "\<And>n x. \<not> fst (env n) x" and "accepting P" and "ef_err s = None"
  shows "ef_err (ProdEffects_Dispatch P env t True s) = None \<and> quiet_audit (ef_db s) (ef_db (ProdEffects_Dispatch P env t True s))"
proof -
  obtain flt now where e: "env (ef_calls s) = (flt, now)" by fastforce
  have ok: "\<not> flt x" for x using assms(1) [of "ef_calls s" x] e by simp
  let ?s0 = "s\<lparr>ef_calls := Suc (ef_calls s)\<rparr>"
  obtain s1 where c1: "call_submit P (boundTaskID P t) ?s0 = (None, s1)" using accepting_calls(4) [OF assms(2)] by (metis surj_pair)
  have db: "ef_db s1 = ef_db s" and er: "ef_err s1 = None" using call_submit_cases [OF c1] assms(3) by auto
  let ?row = "\<lparr>da_task = boundTaskID P t, da_run = pe_runID P, da_item = pe_workItemID P, da_dispatched = now, da_settled = None, da_outcome = None\<rparr>"
  obtain n db1 where ins: "insert_a2a ?row (ef_db s1) = (n, db1)" by fastforce
  have au: "pd_audit db1 = pd_audit (ef_db s)" using insert_a2a_audit [OF ins] db by simp
  have p: "dispatch_submit P flt now (boundTaskID P t) ?s0 =
      (if n = 1 then ProdEffects_audit P flt now ''a2a_dispatched'' StepDispatching (s1\<lparr>ef_db := db1\<rparr>) else s1\<lparr>ef_db := db1\<rparr>)"
    by (simp add: dispatch_submit_def c1 ins ok Let_def)
  have "ef_err (dispatch_submit P flt now (boundTaskID P t) ?s0) = None" "quiet_audit (ef_db s) (ef_db (dispatch_submit P flt now (boundTaskID P t) ?s0))"
    unfolding p using er au by (simp_all add: healthy_audit_err [OF ok] quiet_effect_audit)
  then show ?thesis using assms(3) by (simp add: ProdEffects_Dispatch_def e ok Let_def)
qed

lemma healthy_snapshot:
  assumes "\<And>x. \<not> flt x" and "ef_err s = None"
  shows "ef_err (collectBuildSnapshot P flt now s) = None \<and> quiet_audit (ef_db s) (ef_db (collectBuildSnapshot P flt now s))"
proof (cases "pe_snapshotter P")
  case None
  then show ?thesis using assms by (simp add: collectBuildSnapshot_def)
next
  case (Some sn)
  show ?thesis
  proof (cases "sn (ef_log s)")
    case (Inl e)
    then show ?thesis using assms Some
      by (simp add: collectBuildSnapshot_def Let_def healthy_audit_err [OF assms(1)] quiet_effect_audit)
  next
    case (Inr snap)
    let ?row = "\<lparr>ar_item = pe_workItemID P, ar_run = Some (pe_runID P), ar_kind = ''build-snapshot'', ar_uri = Snap_URI snap,
        ar_sha = Snap_SHA256 snap, ar_meta = Some (case Snap_Meta snap of None \<Rightarrow> [] | Some m \<Rightarrow> m), ar_created = now\<rparr>"
    obtain n db1 where ins: "insert_artifact ?row (ef_db s) = (n, db1)" by fastforce
    have au: "pd_audit db1 = pd_audit (ef_db s)" using insert_artifact_cases [OF ins] by blast
    show ?thesis using assms Some Inr ins au
      by (simp add: collectBuildSnapshot_def Let_def healthy_audit_err [OF assms(1)] quiet_effect_audit)
  qed
qed

lemma healthy_collect:
  assumes "\<And>n x. \<not> fst (env n) x" and "ef_err s = None"
  shows "ef_err (ProdEffects_Collect P env k c True s) = None \<and> quiet_audit (ef_db s) (ef_db (ProdEffects_Collect P env k c True s))"
proof -
  obtain flt now where e: "env (ef_calls s) = (flt, now)" by fastforce
  have ok: "\<not> flt x" for x using assms(1) [of "ef_calls s" x] e by simp
  let ?s0 = "s\<lparr>ef_calls := Suc (ef_calls s)\<rparr>"
  let ?row = "\<lparr>ar_item = pe_workItemID P, ar_run = Some (pe_runID P), ar_kind = artifactKind k,
      ar_uri = ''sha256:'' @ sha256_hex c, ar_sha = sha256_hex c, ar_meta = None, ar_created = now\<rparr>"
  obtain n db1 where ins: "insert_artifact ?row (ef_db s) = (n, db1)" by fastforce
  have au: "pd_audit db1 = pd_audit (ef_db s)" using insert_artifact_cases [OF ins] by blast
  let ?s1 = "if n = 1 then ProdEffects_audit P flt now ''artifact_registered'' StepCollecting (?s0\<lparr>ef_db := db1\<rparr>) else ?s0\<lparr>ef_db := db1\<rparr>"
  have q: "ef_err ?s1 = None" "quiet_audit (ef_db s) (ef_db ?s1)"
    using assms(2) au by (simp_all add: healthy_audit_err [OF ok] quiet_effect_audit)
  have "ProdEffects_Collect P env k c True s = collectBuildSnapshot P flt now ?s1"
    using assms(2) ins by (simp add: ProdEffects_Collect_def e ok Let_def)
  then show ?thesis using healthy_snapshot [where flt = flt and P = P and now = now, OF ok q(1)] quiet_trans [OF q(2)] by simp
qed

section \<open>The in-memory view of a Run\<close>

definition terminal_audits :: "ProdEffects \<Rightarrow> prod_db \<Rightarrow> string list" where
  "terminal_audits P db =
     map (\<lambda>a. the (au_to a)) (filter (\<lambda>a. au_item a = pe_workItemID P \<and> au_run a = Some (pe_runID P) \<and> au_event a = ''run_terminal'') (pd_audit db))"

definition world_view :: "ProdEffects \<Rightarrow> prod_db \<Rightarrow> World \<Rightarrow> bool" where
  "world_view P db w \<longleftrightarrow>
     SandboxBinds w = (if bound P db then [RunID] else []) \<and>
     (\<forall>t \<in> set (AgentExecutions w). has_prefix RunID t) \<and>
     map (boundTaskID P) (AgentExecutions w) = filter (has_prefix (pe_runID P)) (map da_task (pd_a2a db)) \<and>
     Artifacts w = (if collected P db then [(RunID @ ''/patch'', ''diff-bytes'')] else []) \<and>
     map step_name (TerminalTransitions w) = terminal_audits P db"

definition store_view :: "ProdReconcileStore \<Rightarrow> prod_state \<Rightarrow> MemStore \<Rightarrow> bool" where
  "store_view B s m \<longleftrightarrow> ms_step m = run_step B s \<and> (\<not> IsTerminal (run_step B s) \<longrightarrow> ms_fence m = run_fence B s) \<and>
     ms_auditN m = run_audit B s \<and> ms_outboxN m = run_outbox B s"

definition run_view :: "ProdReconcileStore \<Rightarrow> ProdEffects \<Rightarrow> shared \<Rightarrow> World \<Rightarrow> MemStore \<Rightarrow> bool" where
  "run_view B P x w m \<longleftrightarrow> run_inv B (fst x) \<and> ef_err (snd x) = None \<and> store_view B (fst x) m \<and> world_view P (st_db (fst x)) w"

lemma boundTaskID_fixture: "has_prefix RunID t \<Longrightarrow> boundTaskID P t = pe_runID P @ drop (length RunID) t"
  by (auto simp: boundTaskID_def)

lemma boundTaskID_inj: "has_prefix RunID t \<Longrightarrow> has_prefix RunID u \<Longrightarrow> boundTaskID P t = boundTaskID P u \<Longrightarrow> t = u"
  by (auto simp: boundTaskID_fixture has_prefix_def) (metis append_take_drop_id)

lemma dispatchTaskID_fixture: "Durable opt \<Longrightarrow> has_prefix RunID (dispatchTaskID opt)"
  by (simp add: dispatchTaskID_def split: option.splits)

lemma task_recorded:
  assumes "world_view P db w" and "has_prefix RunID t"
  shows "lookup_by da_task (boundTaskID P t) (pd_a2a db) \<noteq> None \<longleftrightarrow> t \<in> set (AgentExecutions w)"
proof -
  have "boundTaskID P t \<in> set (map da_task (pd_a2a db)) \<longleftrightarrow> boundTaskID P t \<in> set (filter (has_prefix (pe_runID P)) (map da_task (pd_a2a db)))"
    by simp
  also have "\<dots> \<longleftrightarrow> boundTaskID P t \<in> boundTaskID P ` set (AgentExecutions w)"
    using assms(1) by (simp only: world_view_def set_map [symmetric])
  also have "\<dots> \<longleftrightarrow> t \<in> set (AgentExecutions w)"
    using assms boundTaskID_inj by (auto simp: world_view_def)
  finally show ?thesis by (simp add: lookup_by_None)
qed

lemma world_view_quiet:
  assumes "quiet_audit db db'" shows "terminal_audits P db' = terminal_audits P db"
  using assms by (auto simp: quiet_audit_def terminal_audits_def filter_empty_conv)

lemma audit_count_quiet:
  assumes "quiet_audit db db'" shows "audit_count i db' = audit_count i db"
  using assms by (auto simp: quiet_audit_def audit_count_def sql_affected_def filter_empty_conv)

text \<open>A healthy effect keeps the view, the world doing the same.\<close>

lemma share_view:
  assumes "run_view B P (s, e) w m" and "grown P (e\<lparr>ef_db := st_db s\<rparr>) (f (e\<lparr>ef_db := st_db s\<rparr>))"
    and "ef_err (f (e\<lparr>ef_db := st_db s\<rparr>)) = None" and "quiet_audit (st_db s) (ef_db (f (e\<lparr>ef_db := st_db s\<rparr>)))"
    and "world_view P (ef_db (f (e\<lparr>ef_db := st_db s\<rparr>))) w'"
  shows "run_view B P (share_eff f (s, e)) w' m"
proof -
  let ?e' = "f (e\<lparr>ef_db := st_db s\<rparr>)"
  have c: "same_custody (st_db s) (ef_db ?e')" using assms(2) by (simp add: grown_def)
  have "wf_prod (ef_db ?e')" using wf_prod_grown [OF assms(2)] assms(1) by (simp add: run_view_def run_inv_def)
  then have "run_inv B (s\<lparr>st_db := ef_db ?e'\<rparr>)" using run_frame(3) [OF c] assms(1) by (simp add: run_view_def)
  moreover have "store_view B (s\<lparr>st_db := ef_db ?e'\<rparr>) m"
    using assms(1) run_frame(1,2) [OF c, of B] c audit_count_quiet [OF assms(4)]
    by (simp add: run_view_def store_view_def run_audit_def run_outbox_def outbox_count_def same_custody_def)
  ultimately show ?thesis using assms(3,5) by (simp add: share_eff_eq Let_def run_view_def)
qed

lemma bind_view:
  assumes "run_view B P (s, e) w m" and "\<And>n x. \<not> fst (env n) x" and "accepting P"
  shows "run_view B P (share_eff (ProdEffects_BindSandbox P env RunID True) (s, e)) (World_BindSandbox RunID True w) m"
proof (rule share_view [where f = "ProdEffects_BindSandbox P env RunID True", OF assms(1) grown_effects(1)])
  let ?e = "e\<lparr>ef_db := st_db s\<rparr>"
  have er: "ef_err ?e = None" using assms(1) by (simp add: run_view_def)
  note h = healthy_bind [where env = env, OF assms(2,3) er, of RunID]
  show "ef_err (ProdEffects_BindSandbox P env RunID True ?e) = None" using h by blast
  show q: "quiet_audit (st_db s) (ef_db (ProdEffects_BindSandbox P env RunID True ?e))" using h by simp
  have b: "pd_a2a (ef_db (ProdEffects_BindSandbox P env RunID True ?e)) = pd_a2a (st_db s)"
    "pd_artifacts (ef_db (ProdEffects_BindSandbox P env RunID True ?e)) = pd_artifacts (st_db s)"
    "bound P (ef_db (ProdEffects_BindSandbox P env RunID True ?e))"
    using BindSandbox_effect [OF refl, where P = P and env = env and r = RunID and s = ?e] h by (simp_all add: bound_def)
  show "world_view P (ef_db (ProdEffects_BindSandbox P env RunID True ?e)) (World_BindSandbox RunID True w)"
    using assms(1) b world_view_quiet [OF q]
    by (simp add: run_view_def world_view_def World_BindSandbox_def collected_def)
qed

lemma dispatch_view:
  assumes "run_view B P (s, e) w m" and "\<And>n x. \<not> fst (env n) x" and "accepting P" and "has_prefix RunID t"
  shows "run_view B P (share_eff (ProdEffects_Dispatch P env t True) (s, e)) (World_Dispatch t True w) m"
proof (rule share_view [where f = "ProdEffects_Dispatch P env t True", OF assms(1) grown_effects(2)])
  let ?e = "e\<lparr>ef_db := st_db s\<rparr>"
  let ?e' = "ProdEffects_Dispatch P env t True ?e"
  have er: "ef_err ?e = None" using assms(1) by (simp add: run_view_def)
  note h = healthy_dispatch [where env = env, OF assms(2,3) er, of t]
  show "ef_err ?e' = None" using h by blast
  show q: "quiet_audit (st_db s) (ef_db ?e')" using h by simp
  note d = Dispatch_effect [OF refl, where P = P and env = env and t = t and s = ?e]
  have f: "pd_sandboxes (ef_db ?e') = pd_sandboxes (st_db s)" "pd_artifacts (ef_db ?e') = pd_artifacts (st_db s)"
    using d by simp_all
  have wv: "world_view P (st_db s) w" using assms(1) by (simp add: run_view_def)
  note rec = task_recorded [OF wv assms(4)]
  show "world_view P (ef_db ?e') (World_Dispatch t True w)"
  proof (cases "t \<in> set (AgentExecutions w)")
    case True
    then have "ef_db ?e' = st_db s" using d rec by simp
    then show ?thesis using wv True by (simp add: World_Dispatch_def)
  next
    case False
    then have n: "lookup_by da_task (boundTaskID P t) (pd_a2a (st_db s)) = None" using rec by blast
    then obtain r where "pd_a2a (ef_db ?e') = pd_a2a (st_db s) @ [r]" "da_task r = boundTaskID P t" using d h by auto
    then show ?thesis using wv False f world_view_quiet [OF q] assms(4)
      by (simp add: world_view_def World_Dispatch_def bound_def collected_def)
  qed
qed

lemma collect_view:
  assumes "run_view B P (s, e) w m" and "\<And>n x. \<not> fst (env n) x"
  shows "run_view B P (share_eff (ProdEffects_Collect P env (RunID @ ''/patch'') ''diff-bytes'' True) (s, e))
    (World_Collect (RunID @ ''/patch'') ''diff-bytes'' True w) m"
proof (rule share_view [where f = "ProdEffects_Collect P env (RunID @ ''/patch'') ''diff-bytes'' True", OF assms(1) grown_effects(3)])
  let ?e = "e\<lparr>ef_db := st_db s\<rparr>"
  let ?e' = "ProdEffects_Collect P env (RunID @ ''/patch'') ''diff-bytes'' True ?e"
  have er: "ef_err ?e = None" using assms(1) by (simp add: run_view_def)
  note h = healthy_collect [where env = env, OF assms(2) er, of P "RunID @ ''/patch''" "''diff-bytes''"]
  show "ef_err ?e' = None" using h by blast
  show q: "quiet_audit (st_db s) (ef_db ?e')" using h by simp
  note d = Collect_effect [OF refl, where P = P and env = env and key = "RunID @ ''/patch''" and content = "''diff-bytes''" and s = ?e,
      unfolded artifactKind_patch]
  have "collected P (ef_db ?e')" using d h by (simp add: collected_def)
  then show "world_view P (ef_db ?e') (World_Collect (RunID @ ''/patch'') ''diff-bytes'' True w)"
    using assms(1) d world_view_quiet [OF q]
    by (simp add: run_view_def world_view_def World_Collect_def bound_def)
qed

lemma phase_view:
  assumes "run_view B P (s, e) w m" and "\<And>n x. \<not> fst (env n) x" and "accepting P" and "Durable opt"
  shows "run_view B P (phaseEffect (sharedEffects P env) opt step (s, e)) (phaseEffect worldEffects opt step w) m"
  using assms(4) bind_view [where env = env, OF assms(1,2,3)] collect_view [where env = env, OF assms(1,2)]
    dispatch_view [where env = env, OF assms(1,2,3) dispatchTaskID_fixture [OF assms(4)]] assms(1)
  by (simp add: phaseEffect_def sharedEffects_def)

section \<open>The advance and the terminal transition\<close>

lemma healthy_settle:
  assumes "\<And>x. \<not> flt x" and "item \<noteq> []" and "prin \<noteq> []" and "st \<noteq> []"
  shows "\<exists>lm db'. SettleTerminalLane flt now item run prin st db = Inr (lm, db')"
proof -
  obtain moved db1 where "settle_move now item run prin st (settle_lane st item db) db = (moved, db1)" by fastforce
  then show ?thesis using assms by (cases "settleIsTerminal st") (auto simp: SettleTerminalLane_def Let_def)
qed

lemma healthy_terminal:
  assumes "\<And>x. \<not> flt x" and "pe_workItemID P \<noteq> []" and "pe_principal P \<noteq> []" and "IsTerminal st"
  shows "\<exists>db'. terminal_tx P flt now st db = Inr db'"
proof -
  have st: "step_name st \<noteq> []" using assms(4) by (cases st) (simp_all add: IsTerminal_def)
  have ok: "\<not> flt (''settle '' @ x)" for x using assms(1) .
  note s = healthy_settle [where flt = "\<lambda>x. flt (''settle '' @ x)", OF ok assms(2,3) st]
  show ?thesis
  proof (cases "own_row P db")
    case None
    obtain lm db' where "SettleTerminalLane (\<lambda>x. flt (''settle '' @ x)) now (pe_workItemID P) (pe_runID P) (pe_principal P) (step_name st)
        (insert_audit (effect_row P now ''run_terminal'' st) (released_db P db)) = Inr (lm, db')" using s by blast
    then show ?thesis using None assms(1) by (simp add: terminal_tx_def)
  next
    case (Some r)
    obtain lm db' where "SettleTerminalLane (\<lambda>x. flt (''settle '' @ x)) now (pe_workItemID P) (pe_runID P) (pe_principal P) (step_name st)
        (insert_audit ((effect_row P now ''claim_released'' st)\<lparr>au_fence := Some (pc_fence r + 1)\<rparr>)
          (insert_audit (effect_row P now ''run_terminal'' st) (released_db P db))) = Inr (lm, db')" using s by blast
    then show ?thesis using Some assms(1) by (simp add: terminal_tx_def)
  qed
qed

text \<open>A committed terminal transaction is the world's terminal transition.\<close>

lemma settled_view:
  assumes "run_inv B s" and "store_view B s m" and "world_view P (st_db s) w"
    and t: "terminal_tx P flt now nx (st_db s) = Inr db'" and "IsTerminal nx" and "run_step B s = nx"
  shows "run_inv B (s\<lparr>st_db := db'\<rparr>) \<and> store_view B (s\<lparr>st_db := db'\<rparr>) m \<and> world_view P db' (World_Terminal nx w)"
proof -
  have wf: "wf_prod (st_db s)" using assms(1) by (simp add: run_inv_def)
  note d = terminal_tx_Inr [OF t wf, of "rs_workItemID B"]
  obtain rest where au: "pd_audit db' = pd_audit (st_db s) @ terminal_rows P now nx (own_row P (st_db s)) @ rest"
      "\<forall>a \<in> set rest. au_event a = ''state_transition''"
    using terminal_tx_settles [OF t] SettleTerminalLane_audit by fastforce
  have st: "run_step B (s\<lparr>st_db := db'\<rparr>) = nx"
    using d assms(6) by (auto simp: run_step_def released_row_def split: option.splits)
  have I: "run_inv B (s\<lparr>st_db := db'\<rparr>)" using d assms(1) by (auto simp: run_inv_def)
  have ac: "audit_count i db' = audit_count i (st_db s)" for i
    using au by (auto simp: audit_count_def sql_affected_def terminal_rows_def effect_row_def filter_empty_conv split: option.splits)
  have ta: "terminal_audits P db' = terminal_audits P (st_db s) @ [step_name nx]"
    using au by (auto simp: terminal_audits_def terminal_rows_def effect_row_def filter_empty_conv split: option.splits)
  have "store_view B (s\<lparr>st_db := db'\<rparr>) m"
    using assms(2,5,6) st ac d by (simp add: store_view_def run_audit_def run_outbox_def outbox_count_def)
  moreover have "world_view P db' (World_Terminal nx w)"
    using assms(3) d ta by (simp add: world_view_def World_Terminal_def bound_def collected_def)
  ultimately show ?thesis using I by simp
qed

lemma terminal_view:
  assumes "run_inv B s" and "ef_err e = None" and "store_view B s m" and "world_view P (st_db s) w"
    and "\<And>n x. \<not> fst (env n) x" and "pe_workItemID P \<noteq> []" and "pe_principal P \<noteq> []" and "IsTerminal nx" and "run_step B s = nx"
  shows "run_view B P (share_eff (ProdEffects_Terminal P env nx) (s, e)) (World_Terminal nx w) m"
proof -
  obtain flt now where f: "env (ef_calls e) = (flt, now)" by fastforce
  have ok: "\<not> flt x" for x using assms(5) [of "ef_calls e" x] f by simp
  obtain db' where t: "terminal_tx P flt now nx (st_db s) = Inr db'" using healthy_terminal [where flt = flt, OF ok assms(6,7,8)] by blast
  have x: "share_eff (ProdEffects_Terminal P env nx) (s, e) = (s\<lparr>st_db := db'\<rparr>, e\<lparr>ef_db := db', ef_calls := Suc (ef_calls e)\<rparr>)"
    using assms(2) f t by (simp add: share_eff_eq ProdEffects_Terminal_def Let_def)
  show ?thesis using settled_view [OF assms(1,3,4) t assms(8,9)] assms(2) by (simp add: x run_view_def)
qed

lemma advance_view:
  assumes "run_inv B s" and "world_view P (st_db s) w" and "ProdStore_Advance B env a b f s = (ok, s')"
  shows "world_view P (st_db s') w"
  using assms(3)
proof (cases rule: ProdStore_Advance_cases)
  case rejected
  then show ?thesis using assms(2) by simp
next
  case committed
  obtain r where r: "claim_row_of (st_db s) (rs_workItemID B) = Some r" "wf_prod (st_db s)"
      "item_row_of (st_db s) (rs_workItemID B) \<noteq> None" using assms(1) by (auto simp: run_inv_def)
  note c = advance_tx_True [OF committed(2) r(2,1,3)] and tb = advance_tx_tables [OF committed(2)]
  have "terminal_audits P (st_db s') = terminal_audits P (st_db s)"
    using c by (simp add: terminal_audits_def advance_audit_def)
  then show ?thesis using assms(2) c tb by (simp add: world_view_def bound_def collected_def)
qed

lemma commit_view:
  assumes "run_view B P (s, e) w m" and "\<And>n x. \<not> fst (env n) x" and "\<And>n x. \<not> fst (env' n) x"
    and "\<not> rs_a2aFollowGate B" and "pe_workItemID P \<noteq> []" and "pe_principal P \<noteq> []" and "ms_step m = step"
  shows "\<exists>w' m'. phaseCommit worldEffects memStore opt step w m = (w', m') \<and>
    run_view B P (drive_commit (sharedEffects P env) (sharedStore B env') opt step (s, e)) w' m'"
proof (cases "nextStep opt step")
  case None
  then show ?thesis using assms(1) by (simp add: phaseCommit_def drive_commit_def)
next
  case (Some nx)
  have I: "run_inv B s" and er: "ef_err e = None" and sv: "store_view B s m" and wv: "world_view P (st_db s) w"
    using assms(1) by (simp_all add: run_view_def)
  obtain ok s' where adv: "ProdStore_Advance B env' step nx (fenceArg opt) s = (ok, s')" by fastforce
  have eq: "drive_commit (sharedEffects P env) (sharedStore B env') opt step (s, e) =
      (if ok \<and> IsTerminal nx then share_eff (ProdEffects_Terminal P env nx) (s', e) else (s', e))"
    using Some adv by (simp add: drive_commit_def sharedStore_def share_store_def sharedEffects_def)
  have nt: "\<not> IsTerminal step" using nextStep_not_terminal [OF Some] .
  have g: "ok \<longleftrightarrow> run_step B s = step \<and> (fenceArg opt = None \<or> fenceArg opt = Some (run_fence B s))"
    using healthy_Advance [where env = env' and a = step and b = nx and f = "fenceArg opt", OF assms(3) I assms(4)] adv by simp
  have v: "ms_step m = run_step B s" "ms_fence m = run_fence B s" "ms_auditN m = run_audit B s" "ms_outboxN m = run_outbox B s"
    using sv assms(7) nt by (simp_all add: store_view_def)
  show ?thesis
  proof (cases ok)
    case True
    let ?m = "m\<lparr>ms_step := nx, ms_auditN := ms_auditN m + 1, ms_outboxN := ms_outboxN m + 1\<rparr>"
    have "Store_Advance (prodStore B env') step nx (fenceArg opt) s = (True, s')" using adv True by (simp add: prodStore_def)
    note c = prod.advance_commits [OF I this]
    have sv': "store_view B s' ?m" using c v by (simp add: store_view_def)
    have wv': "world_view P (st_db s') w" by (rule advance_view [OF I wv adv])
    have mc: "phaseCommit worldEffects memStore opt step w m = (if IsTerminal nx then World_Terminal nx w else w, ?m)"
      using Some g True v assms(7) by (auto simp: phaseCommit_def MemStore_Advance_def)
    have st: "run_step B s' = nx" and I': "run_inv B s'" using c by simp_all
    show ?thesis
    proof (cases "IsTerminal nx")
      case T: True
      from terminal_view [where env = env, OF I' er sv' wv' assms(2,5,6) T st] show ?thesis
        using mc eq True T by simp
    next
      case False
      then show ?thesis using mc eq True sv' wv' I' er by (simp add: run_view_def)
    qed
  next
    case False
    have "Store_Advance (prodStore B env') step nx (fenceArg opt) s = (False, s')" using adv False by (simp add: prodStore_def)
    note c = prod.advance_rejects [OF I this]
    have "phaseCommit worldEffects memStore opt step w m = (w, m)"
      using Some g False v assms(7) by (auto simp: phaseCommit_def MemStore_Advance_def)
    moreover have "run_view B P (s', e) w m"
      using c v sv er advance_view [OF I wv adv] by (simp add: run_view_def store_view_def)
    ultimately show ?thesis using eq False by simp
  qed
qed

section \<open>Properties\<close>

text \<open>
  Where no statement fails, every port accepts and the follow gate is off (the wiring without
  a dispatcher), the refinement is exact: a drive of a Run over the production store and
  effects that returns is matched by the drive of the in-memory model from the corresponding
  state, with the same error, the same step and the same number of audited transitions, and the
  sandbox, the dispatched tasks in order, the patch and the terminal transitions recorded in
  the database are those of the world.
\<close>

theorem prod_effects_refine_world:
  assumes "\<And>n x. \<not> fst (env n) x" and "\<And>n x. \<not> fst (env' n) x" and "accepting P" and "\<not> rs_a2aFollowGate B"
    and "pe_workItemID P \<noteq> []" and "pe_principal P \<noteq> []" and "Durable opt" and "run_view B P x w m"
    and "drive (sharedEffects P env) (sharedStore B env') opt x = Some (er, x')"
  shows "\<exists>w' m'. Reconcile worldEffects memStore opt w m = Some (er, w', m') \<and> run_view B P x' w' m'"
  unfolding Reconcile_def
proof (rule drive_loop_simulated [where R = "run_view B P"])
  show "drive_loop (sharedEffects P env) (sharedStore B env') opt 0 x = Some (er, x')" using assms(9) by (simp add: drive_def)
  show "run_view B P x w m" by fact
  fix x w m st y assume v: "run_view B P x w m" and rd: "Store_Step (sharedStore B env') x = (st, y)"
  have I: "run_inv B (fst x)" using v by (simp add: run_view_def)
  have "Store_Step (sharedStore B env') x = (run_step B (fst x), store_tick (fst x), snd x)"
    using healthy_Step [where env = env', OF assms(2) I] by (simp add: sharedStore_def share_store_def)
  then have "st = run_step B (fst x)" "y = (store_tick (fst x), snd x)" using rd by simp_all
  then show "Store_Step memStore m = (st, m) \<and> run_view B P y w m"
    using v by (simp add: run_view_def store_view_def run_defs)
next
  fix x w m step err y
  assume v: "run_view B P x w m" and ms: "Store_Step memStore m = (step, m)"
    and ph: "drive_phase (sharedEffects P env) (sharedStore B env') opt step x = (err, y)"
  obtain s e where x: "x = (s, e)" by fastforce
  obtain s1 e1 where x1: "phaseEffect (sharedEffects P env) opt step (s, e) = (s1, e1)" by fastforce
  let ?w1 = "phaseEffect worldEffects opt step w"
  have msv: "ms_step m = step" using ms by simp
  have v1: "run_view B P (s1, e1) ?w1 m"
    using phase_view [where env = env, OF v [unfolded x] assms(1,3,7), of step] x1 by simp
  have er1: "effectErr (sharedEffects P env) (s1, e1) = None" using v1 by (simp add: effectErr_def sharedEffects_def run_view_def)
  show "\<exists>w' m'. runPhase worldEffects memStore opt step w m = (err, w', m') \<and> run_view B P y w' m'"
  proof (cases "CrashAfterEffect opt \<noteq> noStep \<and> step = CrashAfterEffect opt")
    case True
    then have "err = Some (ErrCrash step) \<and> y = (s1, e1)" using ph x x1 er1 by (auto simp: drive_phase_def)
    then show ?thesis using True v1 by (auto simp: runPhase_def)
  next
    case False
    then have "err = None \<and> y = drive_commit (sharedEffects P env) (sharedStore B env') opt step (s1, e1)"
      using ph x x1 er1 by (auto simp: drive_phase_def)
    moreover obtain w' m' where "phaseCommit worldEffects memStore opt step ?w1 m = (w', m')"
        "run_view B P (drive_commit (sharedEffects P env) (sharedStore B env') opt step (s1, e1)) w' m'"
      using commit_view [where env = env and env' = env', OF v1 assms(1,2,4,5,6) msv] by blast
    ultimately show ?thesis using False by (auto simp: runPhase_def)
  qed
qed

definition one_mem :: MemStore where
  "one_mem = \<lparr>ms_step = StepPending, ms_fence = 0, ms_auditN = 0, ms_outboxN = 0\<rparr>"

lemma one_view: "run_view one_run one_effects (fresh one_shared) NewWorld one_mem"
  using one_run_inv
  by (simp add: run_view_def store_view_def world_view_def one_mem_def NewWorld_def fresh_def one_shared_def one_state_def one_todo_def
      one_run_def run_defs prod_fence_def audit_count_def outbox_count_def sql_affected_def bound_def collected_def terminal_audits_def)

theorem prod_effects_refine_world_witness:
  "\<exists>er w' m'. Reconcile worldEffects memStore three_passes NewWorld one_mem = Some (er, w', m') \<and> ms_step m' = StepRunning \<and>
     map (boundTaskID one_effects) (AgentExecutions w') = [''r'']"
proof -
  obtain er x' where d: "drive (sharedEffects one_effects healthy) (sharedStore one_run healthy) three_passes (fresh one_shared) = Some (er, x')"
      "run_step one_run (fst x') = StepRunning" "map da_task (pd_a2a (st_db (fst x'))) = [''r'']"
    using three_passes_run by auto
  have h: "\<not> fst (healthy n) x" for n x by (simp add: healthy_def)
  have a: "accepting one_effects" by (simp add: accepting_def one_effects_def)
  have o: "\<not> rs_a2aFollowGate one_run" "pe_workItemID one_effects \<noteq> []" "pe_principal one_effects \<noteq> []" "pe_runID one_effects = ''r''"
      "Durable three_passes"
    by (simp_all add: one_run_def one_effects_def three_passes_def bounded_opts_def)
  obtain w' m' where r: "Reconcile worldEffects memStore three_passes NewWorld one_mem = Some (er, w', m')" "run_view one_run one_effects x' w' m'"
    using prod_effects_refine_world [where env = healthy and env' = healthy, OF h h a o(1,2,3,5) one_view d(1)] by blast
  have "map (boundTaskID one_effects) (AgentExecutions w') = filter (has_prefix ''r'') (map da_task (pd_a2a (st_db (fst x'))))"
    using r(2) o(4) by (simp only: run_view_def world_view_def)
  then have "map (boundTaskID one_effects) (AgentExecutions w') = [''r'']" unfolding d(3) by simp
  moreover have "ms_step m' = StepRunning" using r(2) d(2) by (simp add: run_view_def store_view_def)
  ultimately show ?thesis using r(1) by (intro exI [of _ er] exI [of _ w'] exI [of _ m'] conjI)
qed

section \<open>What a failing effect does\<close>

lemma Dispatch_refused:
  assumes "ProdEffects_Dispatch P env t True s = s'" and "ef_log s' = ef_log s @ [SubmitCall u r (Some q)]"
  shows "ef_db s' = ef_db s"
proof -
  obtain flt now where e: "env (ef_calls s) = (flt, now)" by fastforce
  let ?s0 = "s\<lparr>ef_calls := Suc (ef_calls s)\<rparr>"
  obtain r1 s1 where c1: "call_submit P (boundTaskID P t) ?s0 = (r1, s1)" by fastforce
  note b = call_submit_cases [OF c1]
  show ?thesis
  proof (cases "ef_err s \<noteq> None \<or> flt ''lookup'' \<or> lookup_by da_task (boundTaskID P t) (pd_a2a (ef_db s)) \<noteq> None")
    case True
    then show ?thesis using assms(1) e by (auto simp: ProdEffects_Dispatch_def Let_def split: if_splits)
  next
    case False
    then have s': "s' = dispatch_submit P flt now (boundTaskID P t) ?s0" using assms(1) e by (simp add: ProdEffects_Dispatch_def Let_def)
    show ?thesis
    proof (cases r1)
      case None
      then have "ef_log s' = ef_log s1" using s' c1 by (auto simp: dispatch_submit_def Let_def split: prod.splits)
      then show ?thesis using b None assms(2) by auto
    next
      case (Some x)
      then show ?thesis using s' c1 b by (simp add: dispatch_submit_def)
    qed
  qed
qed

text \<open>
  A failed effect blocks the Run and can be retried: a phase that ends in an effect error
  changed no claim row, work item or outbox row, so the durable step and fence are where they
  were; the error sticks, every further effect of the same effects value is a no-op; and when
  it was the submit that was refused, the database is exactly as before, so the next drive
  finds no dispatch marker and submits again.
\<close>

theorem failed_effect_blocks_step:
  assumes "Durable opt"
    and "drive_phase (sharedEffects P env) (sharedStore B env') opt step (s, e) = (Some (ErrEffect msg), (s', e'))"
  shows "same_custody (st_db s) (st_db s') \<and> run_step B s' = run_step B s \<and> run_fence B s' = run_fence B s \<and> ef_err e' = Some msg \<and>
    (\<forall>env r k t d key c u st. ProdEffects_BindSandbox P env r k e' = e' \<and> ProdEffects_Dispatch P env t d e' = e' \<and>
       ProdEffects_Collect P env key c u e' = e' \<and> ProdEffects_Terminal P env st e' = e') \<and>
    (\<forall>t r er. step = StepDispatching \<and> ef_log e' = ef_log e @ [SubmitCall t r (Some er)] \<longrightarrow> st_db s' = st_db s)"
proof -
  have er: "effectErr (sharedEffects P env) x = ef_err (snd x)" for x by (simp add: effectErr_def sharedEffects_def)
  have ph: "phaseEffect (sharedEffects P env) opt step (s, e) = (s', e')" and em: "ef_err e' = Some msg"
    using assms(2) er by (auto simp: drive_phase_def Let_def split: option.splits if_splits)
  let ?e = "e\<lparr>ef_db := st_db s\<rparr>"
  consider (b) "share_eff (ProdEffects_BindSandbox P env RunID True) (s, e) = (s', e')" "step \<noteq> StepDispatching"
    | (d) "share_eff (ProdEffects_Dispatch P env (dispatchTaskID opt) True) (s, e) = (s', e')"
    | (c) "share_eff (ProdEffects_Collect P env (RunID @ ''/patch'') ''diff-bytes'' True) (s, e) = (s', e')" "step \<noteq> StepDispatching"
    | (o) "(s, e) = (s', e')"
    using ph assms(1) by (auto simp: phaseEffect_def sharedEffects_def split: if_splits)
  then have g: "same_custody (st_db s) (st_db s') \<and> (s' = s\<lparr>st_db := st_db s'\<rparr>)"
    using grown_effects [of P ?e env] by cases (auto simp: share_eff_eq Let_def grown_def)
  have sub: "st_db s' = st_db s" if "step = StepDispatching" and log: "ef_log e' = ef_log e @ [SubmitCall t r (Some q)]" for t r q
  proof -
    have e': "ProdEffects_Dispatch P env (dispatchTaskID opt) True ?e = e'" "st_db s' = ef_db e'"
      using ph that(1) assms(1) by (auto simp: phaseEffect_def sharedEffects_def share_eff_eq Let_def)
    show ?thesis using Dispatch_refused [OF e'(1)] log e'(2) by auto
  qed
  show ?thesis
    using g run_frame(1,2) [OF conjunct1 [OF g], of B] em sub
    by (simp add: ProdEffects_BindSandbox_def ProdEffects_Dispatch_def ProdEffects_Collect_def ProdEffects_Terminal_def)
qed

definition refusing_effects :: ProdEffects where
  "refusing_effects = one_effects\<lparr>pe_dispatcher := Some (\<lambda>log t r. Some ''no'')\<rparr>"

lemma refused_phase:
  "(case drive_phase (sharedEffects refusing_effects healthy) (sharedStore one_run healthy) three_passes StepDispatching one_shared of
      (er, x) \<Rightarrow> (er, ef_log (snd x))) =
   (Some (ErrEffect ''coord.ProdEffects.Dispatch: submit: no''), [SubmitCall ''r'' ''r'' (Some ''no'')])"
  by code_simp

theorem failed_effect_blocks_step_witness:
  "\<exists>s' e'. drive_phase (sharedEffects refusing_effects healthy) (sharedStore one_run healthy) three_passes StepDispatching
      (fst one_shared, snd one_shared) = (Some (ErrEffect ''coord.ProdEffects.Dispatch: submit: no''), s', e') \<and> st_db s' = one_todo"
proof -
  obtain s' e' where d: "drive_phase (sharedEffects refusing_effects healthy) (sharedStore one_run healthy) three_passes StepDispatching
      (fst one_shared, snd one_shared) = (Some (ErrEffect ''coord.ProdEffects.Dispatch: submit: no''), s', e')"
    "ef_log e' = [SubmitCall ''r'' ''r'' (Some ''no'')]"
    using refused_phase by (auto split: prod.splits)
  have du: "Durable three_passes" by (simp add: three_passes_def bounded_opts_def)
  have l: "ef_log (snd one_shared) = []" "st_db (fst one_shared) = one_todo" by (simp_all add: one_shared_def one_state_def)
  have "st_db s' = one_todo" using failed_effect_blocks_step [OF du d(1)] d(2) l by simp
  with d(1) show ?thesis by blast
qed

section \<open>Audit rows of an effect\<close>

definition audit_rows :: "string \<Rightarrow> prod_db \<Rightarrow> nat" where
  "audit_rows ev db = sql_affected (\<lambda>a. au_event a = ev) (pd_audit db)"

text \<open>
  Two leaders that both pass the marker lookup of a bind leave one marker but two sandbox_bound
  rows: unlike a dispatch, a bind is audited without looking at the rows its insert affected.
\<close>

lemma racing_binds_audit_twice:
  "(let s = bind_provision one_effects (\<lambda>_. False) 2 (bind_provision one_effects (\<lambda>_. False) 1 (snd one_shared))
    in (length (pd_sandboxes (ef_db s)), audit_rows ''sandbox_bound'' (ef_db s))) = (1, 2)"
  by code_simp

text \<open>
  A dispatch whose audit row fails after its marker is committed is never audited: the re-drive
  finds the marker and returns.
\<close>

lemma dispatch_audit_lost:
  "(let s = ProdEffects_Dispatch one_effects (\<lambda>n. (\<lambda>x. x = ''audit a2a_dispatched'', 1)) RunID True (snd one_shared);
        t = ProdEffects_Dispatch one_effects (\<lambda>n. (\<lambda>x. False, 2)) RunID True (s\<lparr>ef_err := None\<rparr>)
    in (length (pd_a2a (ef_db t)), ef_err t, audit_rows ''a2a_dispatched'' (ef_db t))) = (1, None, 0)"
  by code_simp

end
