(* ===== verification/Prod_Interleaving.thy ===== *)
theory Prod_Interleaving
  imports Prod_World Failover
begin

text \<open>
  The production drive as a run of the interleaved failover system of \<open>Failover\<close>, with nothing
  assumed of the statements, the ports or the follow gate: a statement that fails, a port that
  refuses and a gate that holds the terminal advance back are, seen from the durable state,
  controllers that died in one of the windows of that system. What is proved of every reachable
  state there is so a fact about the marker rows, the step and the audit rows a production drive
  leaves.
\<close>

section \<open>Audit rows of an effect that may fail\<close>


lemma quiet_audit_step:
  assumes "quiet_audit db (ef_db s)" and "ev \<noteq> ''reconcile_advanced''" and "ev \<noteq> ''run_terminal''"
  shows "quiet_audit db (ef_db (ProdEffects_audit P flt now ev to s))"
  using assms by (auto simp: quiet_audit_def ProdEffects_audit_def effect_row_def)

lemma quiet_bind: "quiet_audit (ef_db s) (ef_db (ProdEffects_BindSandbox P env r True s))"
proof -
  obtain flt now where e: "env (ef_calls s) = (flt, now)" by fastforce
  let ?s0 = "s\<lparr>ef_calls := Suc (ef_calls s)\<rparr>"
  obtain r1 s1 where c1: "call_binder P ?s0 = (r1, s1)" by fastforce
  obtain r2 s2 where c2: "call_cred P (projr r1) s1 = (r2, s2)" by fastforce
  obtain r3 s3 where c3: "call_observer P (projr r1) s2 = (r3, s3)" by fastforce
  have db: "ef_db s1 = ef_db s" "ef_db s2 = ef_db s" "ef_db s3 = ef_db s"
    using call_binder_cases [OF c1] call_cred_cases [OF c2] call_observer_cases [OF c3] by auto
  have "quiet_audit (ef_db s) (ef_db (bind_provision P flt now ?s0))"
    using c1 c2 c3 db
    by (cases r1; cases r2; cases r3) (auto simp: bind_provision_def intro!: quiet_audit_step)
  then show ?thesis by (simp add: ProdEffects_BindSandbox_def e Let_def)
qed

lemma quiet_dispatch: "quiet_audit (ef_db s) (ef_db (ProdEffects_Dispatch P env t True s))"
proof -
  obtain flt now where e: "env (ef_calls s) = (flt, now)" by fastforce
  let ?s0 = "s\<lparr>ef_calls := Suc (ef_calls s)\<rparr>"
  obtain r1 s1 where c1: "call_submit P (boundTaskID P t) ?s0 = (r1, s1)" by fastforce
  have db: "ef_db s1 = ef_db s" using call_submit_cases [OF c1] by auto
  let ?row = "\<lparr>da_task = boundTaskID P t, da_run = pe_runID P, da_item = pe_workItemID P, da_dispatched = now, da_settled = None, da_outcome = None\<rparr>"
  obtain n db1 where ins: "insert_a2a ?row (ef_db s1) = (n, db1)" by fastforce
  have "pd_audit db1 = pd_audit (ef_db s)" using insert_a2a_audit [OF ins] db by simp
  then have "quiet_audit (ef_db s) (ef_db (dispatch_submit P flt now (boundTaskID P t) ?s0))"
    using c1 ins db by (cases r1) (auto simp: dispatch_submit_def Let_def intro!: quiet_audit_step)
  then show ?thesis by (simp add: ProdEffects_Dispatch_def e Let_def)
qed

lemma quiet_snapshot: "quiet_audit db (ef_db s) \<Longrightarrow> quiet_audit db (ef_db (collectBuildSnapshot P flt now s))"
proof (cases "pe_snapshotter P")
  case None
  assume "quiet_audit db (ef_db s)"
  with None show ?thesis by (simp add: collectBuildSnapshot_def)
next
  case (Some sn)
  assume q: "quiet_audit db (ef_db s)"
  show ?thesis
  proof (cases "sn (ef_log s)")
    case (Inl e)
    then show ?thesis using Some q by (auto simp: collectBuildSnapshot_def Let_def intro!: quiet_audit_step)
  next
    case (Inr snap)
    let ?row = "\<lparr>ar_item = pe_workItemID P, ar_run = Some (pe_runID P), ar_kind = ''build-snapshot'', ar_uri = Snap_URI snap,
        ar_sha = Snap_SHA256 snap, ar_meta = Some (case Snap_Meta snap of None \<Rightarrow> [] | Some m \<Rightarrow> m), ar_created = now\<rparr>"
    obtain n db1 where ins: "insert_artifact ?row (ef_db s) = (n, db1)" by fastforce
    have "pd_audit db1 = pd_audit (ef_db s)" using insert_artifact_cases [OF ins] by blast
    then have "quiet_audit db db1" using q by (simp add: quiet_audit_def)
    then show ?thesis using Some Inr ins q by (auto simp: collectBuildSnapshot_def Let_def intro!: quiet_audit_step)
  qed
qed

lemma quiet_collect: "quiet_audit (ef_db s) (ef_db (ProdEffects_Collect P env k c True s))"
proof -
  obtain flt now where e: "env (ef_calls s) = (flt, now)" by fastforce
  let ?row = "\<lparr>ar_item = pe_workItemID P, ar_run = Some (pe_runID P), ar_kind = artifactKind k,
      ar_uri = ''sha256:'' @ sha256_hex c, ar_sha = sha256_hex c, ar_meta = None, ar_created = now\<rparr>"
  obtain n db1 where ins: "insert_artifact ?row (ef_db s) = (n, db1)" by fastforce
  have "quiet_audit (ef_db s) db1" using insert_artifact_cases [OF ins] by (intro quiet_same) blast
  then show ?thesis using ins
    by (auto simp: ProdEffects_Collect_def e Let_def intro!: quiet_snapshot quiet_audit_step)
qed


section \<open>The view of a Run\<close>

text \<open>
  The in-memory state a production state stands for, whether or not the effects have recorded
  an error: the markers are the world's effects, the claim row and the transition rows the store.
\<close>

definition prod_view :: "ProdReconcileStore \<Rightarrow> ProdEffects \<Rightarrow> shared \<Rightarrow> World \<Rightarrow> MemStore \<Rightarrow> bool" where
  "prod_view B P x w m \<longleftrightarrow> run_inv B (fst x) \<and> store_view B (fst x) m \<and> world_view P (st_db (fst x)) w"

lemma prod_view_share:
  assumes "prod_view B P (s, e) w m" and "grown P (e\<lparr>ef_db := st_db s\<rparr>) (f (e\<lparr>ef_db := st_db s\<rparr>))"
    and "quiet_audit (st_db s) (ef_db (f (e\<lparr>ef_db := st_db s\<rparr>)))"
    and "world_view P (ef_db (f (e\<lparr>ef_db := st_db s\<rparr>))) w'"
  shows "prod_view B P (share_eff f (s, e)) w' m"
proof -
  let ?e' = "f (e\<lparr>ef_db := st_db s\<rparr>)"
  have c: "same_custody (st_db s) (ef_db ?e')" using assms(2) by (simp add: grown_def)
  have "wf_prod (ef_db ?e')" using wf_prod_grown [OF assms(2)] assms(1) by (simp add: prod_view_def run_inv_def)
  then have "run_inv B (s\<lparr>st_db := ef_db ?e'\<rparr>)" using run_frame(3) [OF c] assms(1) by (simp add: prod_view_def)
  moreover have "store_view B (s\<lparr>st_db := ef_db ?e'\<rparr>) m"
    using assms(1) run_frame(1,2) [OF c, of B] c audit_count_quiet [OF assms(3)]
    by (simp add: prod_view_def store_view_def run_audit_def run_outbox_def outbox_count_def same_custody_def)
  ultimately show ?thesis using assms(4) by (simp add: share_eff_eq Let_def prod_view_def)
qed

text \<open>An effect either happened in the database or it did not, and if it reports no error it did.\<close>

lemma bind_either:
  fixes env :: store_env
  assumes wv: "world_view P (ef_db s) w"
  defines "s' \<equiv> ProdEffects_BindSandbox P env RunID True s"
  shows "world_view P (ef_db s') (if bound P (ef_db s') then World_BindSandbox RunID True w else w) \<and>
    (ef_err s' = None \<longrightarrow> bound P (ef_db s'))"
proof -
  note b = BindSandbox_effect [OF refl, where P = P and env = env and r = RunID and s = s, folded s'_def]
  have "bound P (ef_db s) \<Longrightarrow> bound P (ef_db s')" using b by (auto simp: bound_def lookup_by_append split: option.splits)
  then show ?thesis
    using wv b world_view_quiet [OF quiet_bind [of s P env RunID], folded s'_def]
    by (auto simp: world_view_def World_BindSandbox_def bound_def collected_def)
qed

lemma dispatch_either:
  fixes env :: store_env
  assumes wv: "world_view P (ef_db s) w" and t: "has_prefix RunID t"
  defines "s' \<equiv> ProdEffects_Dispatch P env t True s"
  shows "(world_view P (ef_db s') w \<and> ef_err s' \<noteq> None) \<or> world_view P (ef_db s') (World_Dispatch t True w)"
proof -
  note d = Dispatch_effect [OF refl, where P = P and env = env and t = t and s = s, folded s'_def]
  have ta: "terminal_audits P (ef_db s') = terminal_audits P (ef_db s)"
    using world_view_quiet [OF quiet_dispatch [of s P env t]] by (simp add: s'_def)
  note rec = task_recorded [OF wv t]
  show ?thesis
  proof (cases "t \<in> set (AgentExecutions w)")
    case True
    then have "ef_db s' = ef_db s" using d rec by simp
    then show ?thesis using wv True by (simp add: World_Dispatch_def)
  next
    case False
    then have n: "lookup_by da_task (boundTaskID P t) (pd_a2a (ef_db s)) = None" using rec by blast
    from d consider (no) "pd_a2a (ef_db s') = pd_a2a (ef_db s)"
      | (new) r where "pd_a2a (ef_db s') = pd_a2a (ef_db s) @ [r]" "da_task r = boundTaskID P t" by blast
    then show ?thesis
    proof cases
      case no
      then have "ef_err s' \<noteq> None" using d n by auto
      then show ?thesis using no d ta wv by (simp add: world_view_def bound_def collected_def)
    next
      case new
      then show ?thesis using wv False d ta t
        by (simp add: world_view_def World_Dispatch_def bound_def collected_def)
    qed
  qed
qed

lemma collect_either:
  fixes env :: store_env
  assumes wv: "world_view P (ef_db s) w"
  defines "s' \<equiv> ProdEffects_Collect P env (RunID @ ''/patch'') ''diff-bytes'' True s"
  shows "world_view P (ef_db s') (if collected P (ef_db s') then World_Collect (RunID @ ''/patch'') ''diff-bytes'' True w else w) \<and>
    (ef_err s' = None \<longrightarrow> collected P (ef_db s'))"
proof -
  note d = Collect_effect [OF refl, where P = P and env = env and key = "RunID @ ''/patch''" and content = "''diff-bytes''" and s = s,
      unfolded artifactKind_patch, folded s'_def]
  have "collected P (ef_db s) \<Longrightarrow> collected P (ef_db s')" using d by (auto simp: collected_def lookup_by_append split: option.splits)
  then show ?thesis
    using wv d world_view_quiet [OF quiet_collect [of s P env "RunID @ ''/patch''" "''diff-bytes''"], folded s'_def]
    by (auto simp: world_view_def World_Collect_def bound_def collected_def)
qed

lemma phase_either:
  assumes v: "prod_view B P (s, e) w m" and du: "Durable opt"
    and ph: "phaseEffect (sharedEffects P env) opt step (s, e) = (s1, e1)"
  shows "(prod_view B P (s1, e1) w m \<and> ef_err e1 \<noteq> None) \<or>
    prod_view B P (s1, e1) (phaseEffect worldEffects opt step w) m"
proof -
  let ?e = "e\<lparr>ef_db := st_db s\<rparr>"
  have wv: "world_view P (ef_db ?e) w" using v by (simp add: prod_view_def)
  have sh: "share_eff f (s, e) = (s1, e1) \<Longrightarrow> e1 = f ?e" for f by (simp add: share_eff_eq Let_def)
  consider (b) "step = StepClaimingSandbox" "share_eff (ProdEffects_BindSandbox P env RunID True) (s, e) = (s1, e1)"
    | (d) "step = StepDispatching" "share_eff (ProdEffects_Dispatch P env (dispatchTaskID opt) True) (s, e) = (s1, e1)"
    | (c) "step = StepCollecting" "share_eff (ProdEffects_Collect P env (RunID @ ''/patch'') ''diff-bytes'' True) (s, e) = (s1, e1)"
    | (o) "(s, e) = (s1, e1)" "phaseEffect worldEffects opt step w = w"
    using ph du by (cases step) (auto simp: phaseEffect_def sharedEffects_def)
  then show ?thesis
  proof cases
    case b
    note q = prod_view_share [where f = "ProdEffects_BindSandbox P env RunID True", OF v grown_effects(1)]
    show ?thesis
      using q [OF _ conjunct1 [OF bind_either [where env = env, OF wv]]] bind_either [where env = env, OF wv] quiet_bind [of ?e P env RunID] b du sh [OF b(2)]
      by (auto simp: phaseEffect_def worldEffects_def split: if_splits)
  next
    case d
    note q = prod_view_share [where f = "ProdEffects_Dispatch P env (dispatchTaskID opt) True", OF v grown_effects(2)]
    show ?thesis
      using q dispatch_either [where env = env, OF wv dispatchTaskID_fixture [OF du]] quiet_dispatch [of ?e P env "dispatchTaskID opt"] d sh [OF d(2)] du
      by (auto simp: phaseEffect_def worldEffects_def)
  next
    case c
    note q = prod_view_share [where f = "ProdEffects_Collect P env (RunID @ ''/patch'') ''diff-bytes'' True", OF v grown_effects(3)]
    show ?thesis
      using q [OF _ conjunct1 [OF collect_either [where env = env, OF wv]]] collect_either [where env = env, OF wv]
        quiet_collect [of ?e P env "RunID @ ''/patch''" "''diff-bytes''"] c du sh [OF c(2)]
      by (auto simp: phaseEffect_def worldEffects_def split: if_splits)
  next
    case o
    then show ?thesis using v by simp
  qed
qed

text \<open>The commit is an advance, a lost advance, or no advance at all.\<close>

lemma commit_either:
  assumes v: "prod_view B P (s, e) w m" and st: "ms_step m = step" and d: "Durable opt"
    and x: "drive_commit (sharedEffects P env) (sharedStore B env') opt step (s, e) = x'"
  obtains (none) "prod_view B P x' w m"
  | (won) w' m' where "phaseCommit worldEffects memStore opt step w m = (w', m')" "prod_view B P x' w' m'" "ms_fence m' = ms_fence m"
  | (lost) w' m' where "phaseCommit worldEffects memStore opt step w m = (w', m')" "prod_view B P x' w m'" "ms_fence m' = ms_fence m"
proof (cases "nextStep opt step")
  case None
  then show ?thesis using none v x by (simp add: drive_commit_def)
next
  case (Some nx)
  have I: "run_inv B s" and sv: "store_view B s m" and wv: "world_view P (st_db s) w"
    using v by (simp_all add: prod_view_def)
  obtain ok s' where adv: "ProdStore_Advance B env' step nx (fenceArg opt) s = (ok, s')" by fastforce
  have eq: "x' = (if ok \<and> IsTerminal nx then share_eff (ProdEffects_Terminal P env nx) (s', e) else (s', e))"
    using Some adv by (simp add: x [symmetric] drive_commit_def sharedStore_def share_store_def sharedEffects_def)
  have nt: "\<not> IsTerminal step" using nextStep_not_terminal [OF Some] .
  have vm: "ms_step m = run_step B s" "ms_fence m = run_fence B s" "ms_auditN m = run_audit B s" "ms_outboxN m = run_outbox B s"
    using sv st nt by (simp_all add: store_view_def)
  have wv': "world_view P (st_db s') w" by (rule advance_view [OF I wv adv])
  show ?thesis
  proof (cases ok)
    case False
    have "Store_Advance (prodStore B env') step nx (fenceArg opt) s = (False, s')" using adv False by (simp add: prodStore_def)
    note c = prod.advance_rejects [OF I this]
    show ?thesis using none c vm sv wv' eq False by (simp add: prod_view_def store_view_def)
  next
    case True
    let ?m = "m\<lparr>ms_step := nx, ms_auditN := ms_auditN m + 1, ms_outboxN := ms_outboxN m + 1\<rparr>"
    have "Store_Advance (prodStore B env') step nx (fenceArg opt) s = (True, s')" using adv True by (simp add: prodStore_def)
    note c = prod.advance_commits [OF I this]
    have sv': "store_view B s' ?m" and I': "run_inv B s'" and st': "run_step B s' = nx" using c vm by (simp_all add: store_view_def)
    have mc: "phaseCommit worldEffects memStore opt step w m = (if IsTerminal nx then World_Terminal nx w else w, ?m)"
      using Some c vm d st by (auto simp: phaseCommit_def MemStore_Advance_def fenceArg_def)
    have same: "prod_view B P (s', e') w ?m" for e' using sv' I' wv' by (simp add: prod_view_def)
    show ?thesis
    proof (cases "IsTerminal nx")
      case False
      then show ?thesis using won [OF mc] eq same by simp
    next
      case T: True
      let ?e = "e\<lparr>ef_db := st_db s'\<rparr>"
      obtain flt now where f: "env (ef_calls e) = (flt, now)" by fastforce
      show ?thesis
      proof (cases "ef_err e \<noteq> None \<or> isl (terminal_tx P flt now nx (st_db s'))")
        case bad: True
        then have "ef_db (ProdEffects_Terminal P env nx ?e) = st_db s'"
          using f by (auto simp: ProdEffects_Terminal_def Let_def isl_def)
        then have "prod_view B P x' w ?m" using eq T True same by (simp add: share_eff_eq Let_def prod_view_def)
        then show ?thesis using lost [OF mc] by simp
      next
        case False
        then obtain db' where t: "ef_err e = None" "terminal_tx P flt now nx (st_db s') = Inr db'"
          by (cases "terminal_tx P flt now nx (st_db s')") auto
        then have "x' = (s'\<lparr>st_db := db'\<rparr>, ?e\<lparr>ef_db := db', ef_calls := Suc (ef_calls e)\<rparr>)"
          using eq T True f by (simp add: share_eff_eq ProdEffects_Terminal_def Let_def)
        then have "prod_view B P x' (World_Terminal nx w) ?m"
          using settled_view [OF I' sv' wv' t(2) T st'] by (simp add: prod_view_def)
        then show ?thesis using won [OF mc] T by simp
      qed
    qed
  qed
qed


section \<open>A phase of a drive\<close>

definition fo_at :: "failover \<Rightarrow> nat \<Rightarrow> pc \<Rightarrow> World \<Rightarrow> MemStore \<Rightarrow> failover" where
  "fo_at y i p w m = y\<lparr>world := w, store := m, procs := (procs y)(i := p)\<rparr>"

lemma fo_at_read:
  "issued_options (fo_at y i PIdle w m) opt \<Longrightarrow> fo_step (fo_at y i PIdle w m) (fo_at y i (PRead opt (ms_step m)) w m)"
  using fo_step.read [of "fo_at y i PIdle w m" i opt] by (cases y) (simp add: fo_at_def)

lemma fo_at_effect:
  "fo_step (fo_at y i (PRead opt st) w m) (fo_at y i (PEffected opt st) (phaseEffect worldEffects opt st w) m)"
  using fo_step.effect [of "fo_at y i (PRead opt st) w m" i opt st] by (cases y) (simp add: fo_at_def)

lemma fo_at_crash: "fo_step (fo_at y i p w m) (fo_at y i PIdle w m)"
  using fo_step.crash [of "fo_at y i p w m" i] by (cases y) (simp add: fo_at_def)

lemma fo_at_commit:
  assumes "phaseCommit worldEffects memStore opt st w m = (w', m')"
  shows "fo_step (fo_at y i (PEffected opt st) w m) (fo_at y i PIdle w' m')"
    and "fo_step (fo_at y i (PEffected opt st) w m) (fo_at y i PIdle w m')"
  using assms fo_step.advance [of "fo_at y i (PEffected opt st) w m" i opt st w' m']
    fo_step.advance_lost [of "fo_at y i (PEffected opt st) w m" i opt st w' m']
  by (cases y, simp add: fo_at_def)+

lemma issued_at: "issued_options (fo_at y i p w m) opt \<longleftrightarrow>
    issued_options (y\<lparr>store := m\<rparr>) opt"
  by (simp add: issued_options_def leader_options_def fo_at_def)

lemma phase_interleaved:
  assumes v: "prod_view B P x w m" and du: "Durable opt" and iss: "issued_options (fo_at y i PIdle w m) opt"
    and st: "step = noStep \<or> step = ms_step m"
    and ph: "drive_phase (sharedEffects P env) (sharedStore B env') opt step x = (err, x')"
  shows "\<exists>w' m'. fo_steps (fo_at y i PIdle w m) (fo_at y i PIdle w' m') \<and> prod_view B P x' w' m' \<and> ms_fence m' = ms_fence m"
proof (cases "step = ms_step m")
  case False
  then have "step = noStep" using st by simp
  then have "x' = x" using ph by (auto simp: drive_phase_def drive_commit_def phaseEffect_def nextStep_cases Let_def
        split: option.splits if_splits)
  then show ?thesis using v by blast
next
  case True
  obtain s e where x: "x = (s, e)" by fastforce
  obtain s1 e1 where x1: "phaseEffect (sharedEffects P env) opt step (s, e) = (s1, e1)" by fastforce
  let ?w1 = "phaseEffect worldEffects opt step w" and ?at = "fo_at y i"
  have er: "effectErr (sharedEffects P env) (s1, e1) = ef_err e1" by (simp add: effectErr_def sharedEffects_def)
  have to_eff: "fo_steps (?at PIdle w m) (?at (PEffected opt step) ?w1 m)"
    using fo_at_read [OF iss] fo_at_effect [of y i opt step w m] True
    by (meson converse_rtranclp_into_rtranclp rtranclp.rtrancl_refl)
  have then_idle: "fo_steps (?at PIdle w m) (?at PIdle w' m')"
    if "fo_step (?at (PEffected opt step) ?w1 m) (?at PIdle w' m')" for w' m'
    using to_eff that by (rule rtranclp.rtrancl_into_rtrancl)
  from phase_either [OF v [unfolded x] du x1]
  consider (failed) "prod_view B P (s1, e1) w m" "ef_err e1 \<noteq> None"
    | (happened) "prod_view B P (s1, e1) ?w1 m" by blast
  then show ?thesis
  proof cases
    case failed
    then have "x' = (s1, e1)" using ph x x1 er by (auto simp: drive_phase_def)
    then show ?thesis using failed(1) by blast
  next
    case happened
    show ?thesis
    proof (cases "x' = (s1, e1)")
      case True
      then show ?thesis using happened then_idle [OF fo_at_crash] by blast
    next
      case moved: False
      have "drive_commit (sharedEffects P env) (sharedStore B env') opt step (s1, e1) = x'"
        using ph x x1 er moved by (auto simp: drive_phase_def Let_def split: option.splits if_splits)
      from happened True [symmetric] du this show ?thesis
      proof (cases rule: commit_either)
        case none
        then show ?thesis using then_idle [OF fo_at_crash] by blast
      next
        case (won w' m')
        then show ?thesis using then_idle [OF fo_at_commit(1) [OF won(1)]] by blast
      next
        case (lost w' m')
        then show ?thesis using then_idle [OF fo_at_commit(2) [OF lost(1)]] by blast
      qed
    qed
  qed
qed

section \<open>The refinement\<close>

definition held_shared :: shared where
  "held_shared = (\<lparr>st_db = one_held, st_err = None, st_calls = 0\<rparr>, \<lparr>ef_db = one_held, ef_err = None, ef_calls = 0, ef_log = []\<rparr>)"

definition gated_run :: ProdReconcileStore where
  "gated_run = WithA2AFollowGate True one_run"

definition held_opts :: Options where
  "held_opts = three_passes\<lparr>Fence := 1\<rparr>"

definition lost_commit :: store_env where
  "lost_commit n = (\<lambda>x. n = 8 \<and> x = ''commit'', 1)"

lemma held_run:
  "map_option (\<lambda>(er, x). (er, run_step gated_run (fst x), map da_task (pd_a2a (st_db (fst x)))))
     (drive (sharedEffects one_effects healthy) (sharedStore gated_run lost_commit) held_opts held_shared) =
   Some (None, StepDispatching, [''r''])"
  by code_simp

lemma held_view: "prod_view gated_run one_effects held_shared (world init_failover) (store init_failover)"
proof -
  have "world_view one_effects one_held NewWorld" by code_simp
  moreover have "run_step gated_run (fst held_shared) = StepPending" by code_simp
  moreover have "run_fence gated_run (fst held_shared) = 1" by code_simp
  moreover have "run_audit gated_run (fst held_shared) = 0" by code_simp
  moreover have "run_outbox gated_run (fst held_shared) = 0" by code_simp
  moreover have "item_row_of one_held ''i'' \<noteq> None" by code_simp
  ultimately show ?thesis using one_held_simps
   by (simp add: prod_view_def store_view_def init_failover_def NewMemStore_def run_inv_def held_shared_def gated_run_def WithA2AFollowGate_def one_run_def)
qed

text \<open>
  C11. The production drive refines the interleaved failover system: a drive of a durable
  leader, current or stale, over the production store and effects that returns, whatever
  statements fail in it, whatever the binder, the credential writer, the dispatcher and the
  snapshotter answer, and with the follow gate on (as the operator wires it with a dispatcher)
  or off, leaves a database whose sandbox marker, dispatch markers in order, patch, terminal
  audits, step, fence and transition rows are those of a state the interleaved system reaches
  from the one the database stood for before, on the same laps. No other process acts during
  the drive.
\<close>

theorem prod_drive_interleaves:
  assumes "Durable opt" and "issued_options y opt" and "prod_view B P x (world y) (store y)"
    and "drive (sharedEffects P env) (sharedStore B env') opt x = Some (er, x')"
  shows "\<exists>z. fo_step\<^sup>*\<^sup>* y z \<and> laps z = laps y \<and> (fo_reachable y \<longrightarrow> fo_reachable z) \<and>
    prod_view B P x' (world z) (store z)"
proof -
  let ?at = "fo_at y 0"
  let ?R = "\<lambda>x x'. \<forall>w m. prod_view B P x w m \<and> issued_options (?at PIdle w m) opt \<longrightarrow>
    (\<exists>w' m'. fo_steps (?at PIdle w m) (?at PIdle w' m') \<and> prod_view B P x' w' m' \<and> issued_options (?at PIdle w' m') opt)"
  have "?R x x'"
  proof (rule drive_loop_rel [where R = ?R])
    show "drive_loop (sharedEffects P env) (sharedStore B env') opt 0 x = Some (er, x')" using assms(4) by (simp add: drive_def)
  next
    fix a b c assume "?R a b" "?R b c"
    then show "?R a c" by (meson rtranclp_trans)
  next
    fix x st x' assume rd: "Store_Step (sharedStore B env') x = (st, x')"
    have "st_db (fst x') = st_db (fst x)"
      using rd by (auto simp: sharedStore_def share_store_def ProdStore_Step_def store_fail_def split: option.splits if_splits prod.splits)
    then have "prod_view B P x' w m = prod_view B P x w m" for w m
      by (simp add: prod_view_def run_inv_def store_view_def run_defs)
    then show "?R x x'" by auto
  next
    fix step x x1 err x'
    assume rd: "Store_Step (sharedStore B env') x = (step, x1)" and ph: "drive_phase (sharedEffects P env) (sharedStore B env') opt step x1 = (err, x')"
    have "st_db (fst x1) = st_db (fst x)" and "step = noStep \<or> step = run_step B (fst x)"
      using rd by (auto simp: sharedStore_def share_store_def ProdStore_Step_def store_fail_def run_step_def split: option.splits if_splits prod.splits)
    then have "step = noStep \<or> step = run_step B (fst x1)" by (simp add: run_defs)
    then have st: "step = noStep \<or> step = ms_step m" if "prod_view B P x1 w m" for w m
      using that by (simp add: prod_view_def store_view_def)
    show "?R x1 x'"
    proof (intro allI impI)
      fix w m assume a: "prod_view B P x1 w m \<and> issued_options (?at PIdle w m) opt"
      from phase_interleaved [OF conjunct1 [OF a] assms(1) conjunct2 [OF a] st [OF conjunct1 [OF a]] ph]
      obtain w' m' where n: "fo_steps (?at PIdle w m) (?at PIdle w' m')" "prod_view B P x' w' m'" "ms_fence m' = ms_fence m"
        by blast
      have "issued_options (?at PIdle w' m') opt" using a n(3) by (simp add: issued_options_def leader_options_def fo_at_def)
      with n show "\<exists>w' m'. fo_steps (?at PIdle w m) (?at PIdle w' m') \<and> prod_view B P x' w' m' \<and> issued_options (?at PIdle w' m') opt"
        by blast
    qed
  qed blast
  moreover have iss: "issued_options (?at PIdle (world y) (store y)) opt" using assms(2) by (simp add: issued_at)
  ultimately obtain w' m' where z: "fo_steps (?at PIdle (world y) (store y)) (?at PIdle w' m')" "prod_view B P x' w' m'"
    using assms(3) iss by blast
  have "fo_step y (?at PIdle (world y) (store y))" using fo_step.crash [of y 0] by (simp add: fo_at_def)
  then have "fo_steps y (?at PIdle w' m')" using z(1) by (rule converse_rtranclp_into_rtranclp)
  moreover have "fo_reachable y \<longrightarrow> fo_reachable (?at PIdle w' m')"
    using \<open>fo_steps y (?at PIdle w' m')\<close> by (blast intro: fo_reachable_steps)
  moreover have "laps (?at PIdle w' m') = laps y" "prod_view B P x' (world (?at PIdle w' m')) (store (?at PIdle w' m'))"
    using z(2) by (simp_all add: fo_at_def)
  ultimately show ?thesis by blast
qed


theorem prod_drive_interleaves_witness:
  "\<exists>z. fo_reachable z \<and> ms_step (store z) = StepDispatching \<and>
     map (boundTaskID one_effects) (AgentExecutions (world z)) = [''r'']"
proof -
  obtain x' where d: "drive (sharedEffects one_effects healthy) (sharedStore gated_run lost_commit) held_opts held_shared = Some (None, x')"
      "run_step gated_run (fst x') = StepDispatching" "map da_task (pd_a2a (st_db (fst x'))) = [''r'']"
    using held_run by auto
  have o: "Durable held_opts" "issued_options init_failover held_opts"
    by (simp_all add: held_opts_def three_passes_def bounded_opts_def issued_options_def leader_options_def init_failover_def NewMemStore_def)
  from prod_drive_interleaves [OF o held_view d(1)] fo_reachable.start
  obtain z where z: "fo_reachable z" "prod_view gated_run one_effects x' (world z) (store z)" by blast
  have r: "pe_runID one_effects = ''r''" by (simp add: one_effects_def)
  have "map (boundTaskID one_effects) (AgentExecutions (world z)) = filter (has_prefix ''r'') (map da_task (pd_a2a (st_db (fst x'))))"
    using z(2) r by (simp only: prod_view_def world_view_def)
  then have "map (boundTaskID one_effects) (AgentExecutions (world z)) = [''r'']" unfolding d(3) by simp
  moreover have "ms_step (store z) = StepDispatching" using z(2) d(2) by (simp add: prod_view_def store_view_def)
  ultimately show ?thesis using z(1) by (intro exI [of _ z] conjI)
qed

end
