(* ===== verification/Cred_Pause.thy ===== *)
theory Cred_Pause
  imports Resume_Ledger Prod_Db
begin

text \<open>
  The per-credential pause ledger (pkg/coord/credpause.go) and the applier of credential
  lifecycle signals (pkg/coord/credsignal.go). The ledger is the third instance of the
  wake-source contract: only rate-limited episodes carry a timer, the others end by a refresh.
  The applier co-commits the episode, the guarded step move and the operator event.
\<close>

section \<open>Reasons, classes and configuration\<close>

definition ReasonRateLimited :: string where "ReasonRateLimited = ''rate_limited''"
definition ReasonCredentialExpired :: string where "ReasonCredentialExpired = ''credential_expired''"
definition ReasonCredentialRotated :: string where "ReasonCredentialRotated = ''credential_rotated''"
definition ReasonEndpointUnreachable :: string where "ReasonEndpointUnreachable = ''endpoint_unreachable''"
definition ReasonCredentialRequired :: string where "ReasonCredentialRequired = ''credential_required''"

lemmas reason_defs = ReasonRateLimited_def ReasonCredentialExpired_def ReasonCredentialRotated_def
  ReasonEndpointUnreachable_def ReasonCredentialRequired_def

definition TimerResumed :: "string \<Rightarrow> bool" where
  "TimerResumed r \<longleftrightarrow> r = ReasonRateLimited"

definition Reason_Valid :: "string \<Rightarrow> bool" where
  "Reason_Valid r \<longleftrightarrow> r \<in> {ReasonRateLimited, ReasonCredentialExpired, ReasonCredentialRotated,
     ReasonEndpointUnreachable, ReasonCredentialRequired}"

definition Class_Valid :: "string \<Rightarrow> bool" where
  "Class_Valid c \<longleftrightarrow> c \<in> {''claude_oauth'', ''api_key'', ''byo_endpoint''}"

record CredentialRef =
  Cred_ID :: string
  Cred_Principal :: string
  Cred_Class :: string

record CredPauseConfig =
  CPC_Pause :: string
  CPC_BackoffBase :: duration
  CPC_BackoffCap :: duration
  CPC_BackoffReset :: duration
  CPC_ResumeBatch :: int

definition DefaultCredPauseConfig :: CredPauseConfig where
  "DefaultCredPauseConfig = \<lparr>CPC_Pause = [], CPC_BackoffBase = 1000000000, CPC_BackoffCap = 300000000000,
     CPC_BackoffReset = 600000000000, CPC_ResumeBatch = 64\<rparr>"

definition CredPauseConfig_validate :: "CredPauseConfig \<Rightarrow> string option" where
  "CredPauseConfig_validate c =
     (if CPC_Pause c = [] then Some ''coord.CredPauseConfig: Pause table is required''
      else if CPC_BackoffBase c \<le> 0 \<or> CPC_BackoffCap c \<le> 0 \<or> CPC_BackoffReset c \<le> 0
        then Some ''coord.CredPauseConfig: BackoffBase, BackoffCap and BackoffReset must all be > 0''
      else if CPC_BackoffCap c < CPC_BackoffBase c then Some ''coord.CredPauseConfig: BackoffCap < BackoffBase''
      else None)"

definition cred_batchParam :: "CredPauseConfig \<Rightarrow> nat" where
  "cred_batchParam c = (if CPC_ResumeBatch c \<le> 0 then 2147483647 else nat (CPC_ResumeBatch c))"

section \<open>Rows and results\<close>

record cred_row =
  cp_id :: string
  cp_principal :: string
  cp_class :: string
  cp_reason :: string
  cp_item :: "string option"
  cp_run :: "string option"
  cp_retry_after_ms :: "int option"
  cp_attempt :: int
  cp_resume_at :: "instant option"
  cp_paused_at :: instant
  cp_resumed_at :: "instant option"
  cp_refreshed_at :: "instant option"

record CredPauseRequest =
  Req_Credential :: CredentialRef
  Req_Reason :: string
  Req_RetryAfter :: "duration option"
  Req_Item :: string
  Req_Run :: string

record CredPauseInfo =
  CPI_Reason :: string
  CPI_Attempt :: int
  CPI_ResumeAt :: "instant option"
  CPI_RetryAfter :: "duration option"

record CredDuePause =
  CDP_Credential :: string
  CDP_Principal :: string
  CDP_Attempt :: int
  CDP_ResumeAt :: instant
  CDP_RetryAfter :: "duration option"

record CredPauseView =
  CPV_Credential :: string
  CPV_Principal :: string
  CPV_Class :: string
  CPV_Reason :: string
  CPV_ResumeAt :: "instant option"
  CPV_PausedAt :: instant

section \<open>Ledger operations\<close>

text \<open>The planning both writers of an episode share.\<close>

definition cred_plan ::
  "CredPauseConfig \<Rightarrow> nat \<Rightarrow> instant \<Rightarrow> string \<Rightarrow> duration option \<Rightarrow> cred_row option \<Rightarrow> int \<times> duration option" where
  "cred_plan cfg k now reason ra prior =
     (let attempt = planAttempt (map_option cp_attempt prior) (Option.bind prior cp_resumed_at) now (CPC_BackoffReset cfg)
      in (attempt,
          if \<not> TimerResumed reason then None
          else Some (case ra of
                 Some d \<Rightarrow> if d > 0 then d else EqualJitter (CPC_BackoffBase cfg) (CPC_BackoffCap cfg) attempt k
               | None \<Rightarrow> EqualJitter (CPC_BackoffBase cfg) (CPC_BackoffCap cfg) attempt k)))"

definition cred_write ::
  "CredPauseConfig \<Rightarrow> nat \<Rightarrow> instant \<Rightarrow> CredentialRef \<Rightarrow> string \<Rightarrow> duration option \<Rightarrow> string \<Rightarrow> string \<Rightarrow> cred_row option \<Rightarrow> cred_row" where
  "cred_write cfg k now cred reason ra item run prior =
     (case cred_plan cfg k now reason ra prior of (attempt, retryAfter) \<Rightarrow>
        \<lparr>cp_id = Cred_ID cred, cp_principal = Cred_Principal cred, cp_class = Cred_Class cred, cp_reason = reason,
         cp_item = nullable item, cp_run = nullable run,
         cp_retry_after_ms = map_option (\<lambda>d. go_quot d 1000000) retryAfter, cp_attempt = attempt,
         cp_resume_at = map_option (\<lambda>d. now + d) retryAfter, cp_paused_at = now, cp_resumed_at = None,
         cp_refreshed_at = None\<rparr>)"

definition cred_info ::
  "CredPauseConfig \<Rightarrow> nat \<Rightarrow> instant \<Rightarrow> string \<Rightarrow> duration option \<Rightarrow> cred_row option \<Rightarrow> CredPauseInfo" where
  "cred_info cfg k now reason ra prior =
     (case cred_plan cfg k now reason ra prior of (attempt, retryAfter) \<Rightarrow>
        \<lparr>CPI_Reason = reason, CPI_Attempt = attempt, CPI_ResumeAt = map_option (\<lambda>d. now + d) retryAfter,
         CPI_RetryAfter = retryAfter\<rparr>)"

definition PauseCredential ::
  "CredPauseConfig \<Rightarrow> pfaults \<Rightarrow> nat \<Rightarrow> instant \<Rightarrow> CredPauseRequest \<Rightarrow> cred_row list \<Rightarrow>
   (string + CredPauseInfo) \<times> cred_row list" where
  "PauseCredential cfg flt k now req t =
     (let cred = Req_Credential req; reason = Req_Reason req; ra = Req_RetryAfter req;
          prior = lookup_by cp_id (Cred_ID cred) t
      in if \<not> Reason_Valid reason then (Inl ''coord.PauseCredential: invalid reason'', t)
         else if \<not> Class_Valid (Cred_Class cred) then (Inl ''coord.PauseCredential: invalid credential class'', t)
         else if Cred_ID cred = [] then (Inl ''coord.PauseCredential: credential ID is required'', t)
         else if reason \<noteq> ReasonRateLimited \<and> ra \<noteq> None
           then (Inl ''coord.PauseCredential: Retry-After applies to rate_limited only'', t)
         else if flt PBegin then (Inl ''coord.PauseCredential: begin'', t)
         else if flt PRead then (Inl ''coord.PauseCredential: read prior'', t)
         else if flt PNow then (Inl ''panic: coord.dbNow'', t)
         else if flt PWrite then (Inl ''coord.PauseCredential: write'', t)
         else if flt PCommit then (Inl ''coord.PauseCredential: commit'', t)
         else (Inr (cred_info cfg k now reason ra prior),
               upsert_by cp_id (cred_write cfg k now cred reason ra (Req_Item req) (Req_Run req) prior) t))"

definition cred_held :: "cred_row \<Rightarrow> bool" where
  "cred_held r \<longleftrightarrow> cp_resumed_at r = None"

definition refresh_row :: "instant \<Rightarrow> cred_row \<Rightarrow> cred_row" where
  "refresh_row now r = r\<lparr>cp_resumed_at := Some now, cp_refreshed_at := Some now\<rparr>"

definition ResumeOnRefresh ::
  "pfaults \<Rightarrow> instant \<Rightarrow> string \<Rightarrow> cred_row list \<Rightarrow> (string + bool) \<times> cred_row list" where
  "ResumeOnRefresh flt now credentialID t =
     (if credentialID = [] then (Inl ''coord.ResumeOnRefresh: credential ID is required'', t)
      else if flt PWrite then (Inl ''coord.ResumeOnRefresh'', t)
      else (Inr (aff_key cp_id credentialID cred_held t > 0),
            upd_key cp_id credentialID cred_held (refresh_row now) t))"

definition cred_pending :: "cred_row \<Rightarrow> bool" where
  "cred_pending r \<longleftrightarrow> cp_resumed_at r = None \<and> cp_resume_at r \<noteq> None"

definition cred_due_at :: "cred_row \<Rightarrow> instant" where
  "cred_due_at r = (case cp_resume_at r of None \<Rightarrow> 0 | Some a \<Rightarrow> a)"

definition cred_stamp :: "instant \<Rightarrow> cred_row \<Rightarrow> cred_row" where
  "cred_stamp now r = r\<lparr>cp_resumed_at := Some now\<rparr>"

definition CredNextWake :: "pfaults \<Rightarrow> cred_row list \<Rightarrow> string + instant option" where
  "CredNextWake flt t =
     (if flt PQuery then Inl ''coord.CredentialPauseStore.NextWake'' else Inr (sql_first cred_pending cred_due_at t))"

definition cred_due_pause :: "cred_row \<Rightarrow> CredDuePause" where
  "cred_due_pause r = \<lparr>CDP_Credential = cp_id r, CDP_Principal = cp_principal r, CDP_Attempt = cp_attempt r,
     CDP_ResumeAt = cred_due_at r, CDP_RetryAfter = map_option (\<lambda>ms. wrap64 (ms * 1000000)) (cp_retry_after_ms r)\<rparr>"

definition CredResumeDue ::
  "CredPauseConfig \<Rightarrow> pfaults \<Rightarrow> string set \<Rightarrow> instant \<Rightarrow> cred_row list \<Rightarrow> (string + CredDuePause list) \<times> cred_row list" where
  "CredResumeDue cfg flt locked now t =
     (if flt PQuery then (Inl ''coord.CredentialPauseStore.ResumeDue'', t)
      else case sql_claim cp_id (row_due cp_id cred_pending cred_due_at locked now) cred_due_at
                  (cred_batchParam cfg) (cred_stamp now) t of
        (rows, t') \<Rightarrow>
          if flt PScan then (Inl ''coord.CredentialPauseStore.ResumeDue: scan'', t')
          else (Inr (map cred_due_pause rows), t'))"

definition cred_view :: "cred_row \<Rightarrow> CredPauseView" where
  "cred_view r = \<lparr>CPV_Credential = cp_id r, CPV_Principal = cp_principal r, CPV_Class = cp_class r,
     CPV_Reason = cp_reason r, CPV_ResumeAt = cp_resume_at r, CPV_PausedAt = cp_paused_at r\<rparr>"

definition PausedSet :: "pfaults \<Rightarrow> cred_row list \<Rightarrow> string + (string \<rightharpoonup> CredPauseView)" where
  "PausedSet flt t =
     (if flt PQuery then Inl ''coord.PausedSet''
      else Inr (map_of (rev (map (\<lambda>r. (cp_id r, cred_view r)) (filter cred_held t)))))"

fun SelectAlternate :: "string list \<Rightarrow> (string \<rightharpoonup> CredPauseView) \<Rightarrow> string \<times> bool" where
  "SelectAlternate [] paused = ([], False)"
| "SelectAlternate (c # cs) paused = (if paused c = None then (c, True) else SelectAlternate cs paused)"

text \<open>The scan over the sorted ids of the map, given as its key list.\<close>

definition earlier :: "instant option \<Rightarrow> CredPauseView \<Rightarrow> instant option" where
  "earlier best v =
     (case CPV_ResumeAt v of
        None \<Rightarrow> best
      | Some at \<Rightarrow> (case best of None \<Rightarrow> Some at | Some b \<Rightarrow> if at < b then Some at else Some b))"

definition EarliestResume :: "string list \<Rightarrow> (string \<rightharpoonup> CredPauseView) \<Rightarrow> instant option" where
  "EarliestResume ids paused = foldl (\<lambda>best i. case paused i of None \<Rightarrow> best | Some v \<Rightarrow> earlier best v) None ids"

section \<open>Signals\<close>

definition SignalStep :: "string \<Rightarrow> Step" where
  "SignalStep e =
     (if e = ''rate_limited'' then StepPausedRateLimited
      else if e = ''expired'' then StepPausedCredentialExpired
      else if e = ''rotated'' then StepPausedCredentialRotated
      else if e = ''unreachable'' then StepPausedEndpointUnreachable
      else noStep)"

definition EventReason :: "string \<Rightarrow> string" where
  "EventReason e =
     (if e = ''rate_limited'' then ReasonRateLimited
      else if e = ''expired'' then ReasonCredentialExpired
      else if e = ''rotated'' then ReasonCredentialRotated
      else if e = ''unreachable'' then ReasonEndpointUnreachable
      else [])"

record CredentialSignal =
  Sig_Run :: string
  Sig_Item :: string
  Sig_Credential :: CredentialRef
  Sig_Event :: string
  Sig_RetryAfter :: "duration option"

definition Signal_validate :: "CredentialSignal \<Rightarrow> string option" where
  "Signal_validate s =
     (if Sig_Run s = [] then Some ''coord.CredentialSignal: Run is required''
      else if Cred_ID (Sig_Credential s) = [] then Some ''coord.CredentialSignal: Credential.ID is required''
      else if \<not> Class_Valid (Cred_Class (Sig_Credential s)) then Some ''coord.CredentialSignal: invalid credential class''
      else if SignalStep (Sig_Event s) = noStep then Some ''coord.CredentialSignal: unknown event''
      else if Sig_Event s \<noteq> ''rate_limited'' \<and> Sig_RetryAfter s \<noteq> None
        then Some ''coord.CredentialSignal: Retry-After applies to rate_limited only''
      else None)"

definition pausedFromSteps :: "Step list" where
  "pausedFromSteps = [StepRunning, StepDispatching, StepCollecting, StepPaused, StepPausedRateLimited,
     StepPausedCredentialExpired, StepPausedCredentialRotated, StepPausedEndpointUnreachable]"

record ApplyResult =
  AR_Episode :: CredPauseInfo
  AR_StepMoved :: bool

definition pauseCredentialTx ::
  "CredPauseConfig \<Rightarrow> pfaults \<Rightarrow> nat \<Rightarrow> instant \<Rightarrow> CredentialSignal \<Rightarrow> cred_row list \<Rightarrow> string + CredPauseInfo \<times> cred_row list" where
  "pauseCredentialTx cfg flt k now sig t =
     (let cred = Sig_Credential sig; reason = EventReason (Sig_Event sig); prior = lookup_by cp_id (Cred_ID cred) t
      in if flt PRead then Inl ''coord.ApplyCredentialSignal: read prior''
         else if flt PNow then Inl ''panic: coord.dbNow''
         else if flt PWrite then Inl ''coord.ApplyCredentialSignal: write''
         else Inr (cred_info cfg k now reason (Sig_RetryAfter sig) prior,
                   upsert_by cp_id (cred_write cfg k now cred reason (Sig_RetryAfter sig) (Sig_Item sig) (Sig_Run sig) prior) t))"

definition signal_payload :: "CredentialSignal \<Rightarrow> CredPauseInfo \<Rightarrow> json" where
  "signal_payload sig epi =
     [(''reason'', JStr (EventReason (Sig_Event sig))), (''credential_id'', JStr (Cred_ID (Sig_Credential sig))),
      (''principal'', JStr (Cred_Principal (Sig_Credential sig))),
      (''credential_class'', JStr (Cred_Class (Sig_Credential sig))), (''run_id'', JStr (Sig_Run sig)),
      (case CPI_ResumeAt epi of
         Some at \<Rightarrow> (''resume_at'', JTime (at div 1000000000))
       | None \<Rightarrow> (''resume_mode'', JStr ''refresh''))]"

definition pausable :: "prod_claim \<Rightarrow> bool" where
  "pausable r \<longleftrightarrow> pc_step r \<in> set pausedFromSteps"

definition ApplyCredentialSignal ::
  "bool \<Rightarrow> CredPauseConfig \<Rightarrow> pfaults \<Rightarrow> dbfaults \<Rightarrow> nat \<Rightarrow> instant \<Rightarrow> string \<Rightarrow> string \<Rightarrow> CredentialSignal \<Rightarrow>
   cred_row list \<times> prod_db \<Rightarrow> (string + ApplyResult) \<times> cred_row list \<times> prod_db" where
  "ApplyCredentialSignal nil_db cfg flt dflt k now prin projectID sig st =
     (case st of (t, db) \<Rightarrow>
        if nil_db then (Inl ''coord.ApplyCredentialSignal: nil db'', st)
        else case CredPauseConfig_validate cfg of
          Some e \<Rightarrow> (Inl e, st)
        | None \<Rightarrow>
           (case Signal_validate sig of
              Some e \<Rightarrow> (Inl e, st)
            | None \<Rightarrow>
                if prin = [] then (Inl ''coord.ApplyCredentialSignal: principal is required'', st)
                else if projectID = [] then (Inl ''coord.ApplyCredentialSignal: projectID is required'', st)
                else if flt PBegin then (Inl ''coord.ApplyCredentialSignal: begin'', st)
                else case pauseCredentialTx cfg flt k now sig t of
                  Inl e \<Rightarrow> (Inl e, st)
                | Inr (epi, t') \<Rightarrow>
                    let item = Sig_Item sig;
                        moved = (if item = [] then 0 else aff_key pc_item item pausable (pd_claims db));
                        db1 = (if item = [] then db
                               else db\<lparr>pd_claims := upd_key pc_item item pausable
                                      (\<lambda>r. r\<lparr>pc_step := SignalStep (Sig_Event sig)\<rparr>) (pd_claims db)\<rparr>);
                        db2 = insert_outbox \<lparr>ob_id = 0, ob_entity = ''run'', ob_project = projectID, ob_squad = None,
                                ob_event = ''paused'', ob_item = nullable item, ob_run = Some (Sig_Run sig),
                                ob_payload = signal_payload sig epi, ob_carrier = None, ob_published = None\<rparr> db1
                    in if dflt ''step move'' then (Inl ''coord.ApplyCredentialSignal: step move'', st)
                       else if dflt ''outbox'' then (Inl ''coord.ApplyCredentialSignal: outbox'', st)
                       else if flt PCommit then (Inl ''coord.ApplyCredentialSignal: commit'', st)
                       else (Inr \<lparr>AR_Episode = epi, AR_StepMoved = (moved > 0)\<rparr>, t', db2)))"

section \<open>Histories\<close>

datatype cred_op =
    CPause pfaults nat instant CredPauseRequest
  | CRefresh pfaults instant string
  | CDue pfaults "string set" instant

fun cred_step :: "CredPauseConfig \<Rightarrow> cred_op \<Rightarrow> cred_row list \<Rightarrow> string list \<times> cred_row list" where
  "cred_step cfg (CPause flt k now req) t = ([], snd (PauseCredential cfg flt k now req t))"
| "cred_step cfg (CRefresh flt now i) t = ([], snd (ResumeOnRefresh flt now i t))"
| "cred_step cfg (CDue flt locked now) t =
     (case CredResumeDue cfg flt locked now t of
        (Inl _, t') \<Rightarrow> ([], t')
      | (Inr due, t') \<Rightarrow> (map CDP_Credential due, t'))"

fun cred_pauses :: "cred_op \<Rightarrow> string option" where
  "cred_pauses (CPause flt k now req) = Some (Cred_ID (Req_Credential req))"
| "cred_pauses (CRefresh flt now i) = None"
| "cred_pauses (CDue flt locked now) = None"

section \<open>The ledger is a wake source\<close>

lemmas cred_row_simps = cred_pending_def cred_stamp_def cred_held_def refresh_row_def

interpretation cred: wake_source "wf_table cp_id" "row_deadline cp_id cred_pending cred_due_at"
  "sql_first cred_pending cred_due_at"
  "\<lambda>n locked t db. (map cp_id (fst (sql_claim cp_id (row_due cp_id cred_pending cred_due_at locked t)
       cred_due_at n (cred_stamp t) db)),
     snd (sql_claim cp_id (row_due cp_id cred_pending cred_due_at locked t) cred_due_at n (cred_stamp t) db))"
  by (rule sql_wake_source) (simp_all add: cred_row_simps)

lemma cred_write_key [simp]: "cp_id (cred_write cfg k now cred reason ra item run prior) = Cred_ID cred"
  by (simp add: cred_write_def split: prod.splits)

lemma PauseCredential_move:
  "ledger_move cp_id cred_pending cred_due_at (Some (Cred_ID (Req_Credential req))) t
    ([], snd (PauseCredential cfg flt k now req t))"
proof -
  let ?row = "cred_write cfg k now (Req_Credential req) (Req_Reason req) (Req_RetryAfter req) (Req_Item req) (Req_Run req)
    (lookup_by cp_id (Cred_ID (Req_Credential req)) t)"
  have "snd (PauseCredential cfg flt k now req t) \<in> {t, upsert_by cp_id ?row t}"
    by (simp add: PauseCredential_def Let_def)
  then show ?thesis
    using move_none [of cp_id cred_pending cred_due_at _ t] move_pause [of cp_id cred_pending cred_due_at ?row t] by auto
qed

lemma Refresh_move:
  "ledger_move cp_id cred_pending cred_due_at None t ([], snd (ResumeOnRefresh flt now i t))"
  using move_none [of cp_id cred_pending cred_due_at None t]
    move_end [of cp_id "refresh_row now" cred_pending cred_due_at None t i cred_held]
  by (auto simp: ResumeOnRefresh_def cred_row_simps)

lemma map_CDP_Credential [simp]: "map CDP_Credential (map cred_due_pause rows) = map cp_id rows"
  by (simp add: cred_due_pause_def)

lemma CredResumeDue_move:
  "ledger_move cp_id cred_pending cred_due_at None t (cred_step cfg (CDue flt locked now) t)"
proof (cases "flt PQuery")
  case True
  then show ?thesis by (simp add: CredResumeDue_def move_none)
next
  case False
  let ?c = "sql_claim cp_id (row_due cp_id cred_pending cred_due_at locked now) cred_due_at
    (cred_batchParam cfg) (cred_stamp now) t"
  have "cred_step cfg (CDue flt locked now) t = (if flt PScan then [] else map cp_id (fst ?c), snd ?c)"
    using False by (simp add: CredResumeDue_def del: map_map split: prod.splits)
  then show ?thesis
    using move_claim [of cp_id "cred_stamp now" cred_pending ?c] by (simp add: cred_row_simps)
qed

interpretation cred_history: wake_history "wf_table cp_id" "row_deadline cp_id cred_pending cred_due_at"
  "cred_step cfg" cred_pauses for cfg
proof (rule sql_wake_history)
  fix x and t :: "cred_row list"
  show "ledger_move cp_id cred_pending cred_due_at (cred_pauses x) t (cred_step cfg x t)"
  proof (cases x)
    case (CPause flt k now req)
    then show ?thesis by (simp add: PauseCredential_move)
  next
    case (CRefresh flt now i)
    then show ?thesis by (simp add: Refresh_move)
  next
    case (CDue flt locked now)
    then show ?thesis by (simp only: cred_pauses.simps CredResumeDue_move)
  qed
qed

section \<open>No timer for a hold only a refresh can clear\<close>

definition cred_inv :: "cred_row list \<Rightarrow> bool" where
  "cred_inv t \<longleftrightarrow> wf_table cp_id t \<and> (\<forall>r \<in> set t. cp_resume_at r \<noteq> None \<longrightarrow> TimerResumed (cp_reason r))"

lemma cred_write_timer: "cp_resume_at (cred_write cfg k now cred reason ra item run prior) \<noteq> None \<longleftrightarrow> TimerResumed reason"
  and cred_write_reason [simp]: "cp_reason (cred_write cfg k now cred reason ra item run prior) = reason"
  by (auto simp: cred_write_def cred_plan_def Let_def)

lemma cred_inv_upsert:
  assumes "cred_inv t" and "cp_resume_at row \<noteq> None \<longrightarrow> TimerResumed (cp_reason row)"
  shows "cred_inv (upsert_by cp_id row t)"
proof -
  have "set (upsert_by cp_id row t) \<subseteq> insert row (set t)"
    by (auto simp: upsert_by_def upd_key_set)
  then show ?thesis using assms by (auto simp: cred_inv_def)
qed

lemma cred_inv_upd:
  assumes "cred_inv t" and "\<And>r. cp_id (f r) = cp_id r \<and> cp_resume_at (f r) = cp_resume_at r \<and> cp_reason (f r) = cp_reason r"
  shows "cred_inv (upd_key cp_id k G f t)"
  using assms by (auto simp: cred_inv_def upd_key_set)

lemma cred_inv_claim: "cred_inv t \<Longrightarrow> cred_inv (snd (sql_claim cp_id P ord n (cred_stamp now) t))"
  by (auto simp: cred_inv_def sql_claim_wf cred_stamp_def) (auto simp: sql_claim_def Let_def sql_update_def cred_stamp_def)

lemma cred_step_inv:
  assumes "cred_inv t"
  shows "cred_inv (snd (cred_step cfg x t))"
proof (cases x)
  case (CPause flt k now req)
  let ?row = "cred_write cfg k now (Req_Credential req) (Req_Reason req) (Req_RetryAfter req) (Req_Item req) (Req_Run req)
      (lookup_by cp_id (Cred_ID (Req_Credential req)) t)"
  have "cred_inv (upsert_by cp_id ?row t)"
    using assms by (rule cred_inv_upsert) (simp add: cred_write_timer [simplified])
  with CPause assms show ?thesis by (auto simp: PauseCredential_def Let_def)
next
  case (CRefresh flt now i)
  then show ?thesis using assms by (auto simp: ResumeOnRefresh_def refresh_row_def intro!: cred_inv_upd)
next
  case (CDue flt locked now)
  then show ?thesis using assms cred_inv_claim [OF assms]
    by (auto simp: CredResumeDue_def split: prod.splits) (metis snd_conv)+
qed

lemma cred_history_inv: "cred_inv t \<Longrightarrow> cred_inv (snd (wakes_of (cred_step cfg) xs t))"
proof (induction xs arbitrary: t)
  case (Cons x xs)
  obtain ks t1 where s: "cred_step cfg x t = (ks, t1)" by fastforce
  obtain ks' t2 where w: "wakes_of (cred_step cfg) xs t1 = (ks', t2)" by fastforce
  from s w cred_step_inv [OF Cons.prems, of cfg x] Cons.IH [of t1] show ?case by simp
qed simp

text \<open>
  Credential holds are exactly-once and honest about their timer: over any interleaving of
  pauses, refreshes and timer claims with any faults, a credential is handed out as resumed at
  most once per pause; and after any such history from a ledger whose timers are all
  rate-limited, a claim hands out only rate-limited episodes that are due, so no timer ever
  resumes a hold that waits for fresh credential material.
\<close>

theorem cred_resume_exactly_once:
  assumes "cred_inv t" and "t1 = snd (wakes_of (cred_step cfg) ops t)"
  shows "count_list (fst (wakes_of (cred_step cfg) ops t)) c
      + pending_n (row_deadline cp_id cred_pending cred_due_at t1 c)
    \<le> pauses_of cred_pauses c ops + pending_n (row_deadline cp_id cred_pending cred_due_at t c) \<and>
    (\<forall>k \<in> set (fst (cred_step cfg (CDue flt locked now) t1)).
       \<exists>r. lookup_by cp_id k t1 = Some r \<and> TimerResumed (cp_reason r) \<and> cp_resumed_at r = None \<and>
         (\<exists>a. cp_resume_at r = Some a \<and> a \<le> now))"
proof (intro conjI ballI)
  show "count_list (fst (wakes_of (cred_step cfg) ops t)) c
      + pending_n (row_deadline cp_id cred_pending cred_due_at t1 c)
    \<le> pauses_of cred_pauses c ops + pending_n (row_deadline cp_id cred_pending cred_due_at t c)"
    unfolding assms(2) using assms(1) by (intro cred_history.wakes_balance) (simp add: cred_inv_def)
  have I: "cred_inv t1" unfolding assms(2) by (rule cred_history_inv [OF assms(1)])
  then have wf: "wf_table cp_id t1" by (simp add: cred_inv_def)
  fix k assume "k \<in> set (fst (cred_step cfg (CDue flt locked now) t1))"
  then have k: "k \<in> set (map cp_id (fst (sql_claim cp_id (row_due cp_id cred_pending cred_due_at locked now) cred_due_at
      (cred_batchParam cfg) (cred_stamp now) t1)))"
    by (auto simp: CredResumeDue_def cred_due_pause_def split: if_splits prod.splits)
  have pk: "cp_id (cred_stamp now r) = cp_id r" for r by (simp add: cred_stamp_def)
  obtain r where r: "r \<in> set t1" "cp_id r = k" "row_due cp_id cred_pending cred_due_at locked now r"
    using row_claim_member [of cp_id t1 "cred_stamp now", OF wf pk k] by blast
  then have "TimerResumed (cp_reason r)" using I by (auto simp: cred_inv_def row_due_def cred_pending_def)
  moreover have "lookup_by cp_id k t1 = Some r" using lookup_by_mem [OF wf r(1)] r(2) by simp
  ultimately show "\<exists>r. lookup_by cp_id k t1 = Some r \<and> TimerResumed (cp_reason r) \<and> cp_resumed_at r = None \<and>
         (\<exists>a. cp_resume_at r = Some a \<and> a \<le> now)"
    using r(3) by (auto simp: row_due_def cred_pending_def cred_due_at_def split: option.splits)
qed

definition a_cred :: CredentialRef where
  "a_cred = \<lparr>Cred_ID = ''ns/s'', Cred_Principal = ''u'', Cred_Class = ''api_key''\<rparr>"

theorem cred_resume_exactly_once_witness:
  "count_list (fst (wakes_of (cred_step DefaultCredPauseConfig)
     [CPause (\<lambda>_. False) 0 100 \<lparr>Req_Credential = a_cred, Req_Reason = ''rate_limited'', Req_RetryAfter = Some 5,
        Req_Item = [], Req_Run = []\<rparr>, CDue (\<lambda>_. False) {} 105, CDue (\<lambda>_. False) {} 106] [])) ''ns/s'' \<le> 1"
proof -
  let ?ops = "[CPause (\<lambda>_. False) 0 100 \<lparr>Req_Credential = a_cred, Req_Reason = ''rate_limited'', Req_RetryAfter = Some 5,
        Req_Item = [], Req_Run = []\<rparr>, CDue (\<lambda>_. False) {} 105, CDue (\<lambda>_. False) {} 106]"
  have "cred_inv []" by (simp add: cred_inv_def wf_table_def)
  from cred_resume_exactly_once [OF this refl, of DefaultCredPauseConfig ?ops "''ns/s''" "\<lambda>_. False" "{}" 0]
  have "count_list (fst (wakes_of (cred_step DefaultCredPauseConfig) ?ops [])) ''ns/s''
      \<le> pauses_of cred_pauses ''ns/s'' ?ops + pending_n (row_deadline cp_id cred_pending cred_due_at [] ''ns/s'')"
    by linarith
  then show ?thesis by (simp add: pauses_of_def pending_n_def row_deadline_def a_cred_def del: cred_step.simps wakes_of.simps)
qed

section \<open>Routing around a hold\<close>

lemma SelectAlternate_spec:
  "SelectAlternate cs paused = (case dropWhile (\<lambda>c. paused c \<noteq> None) cs of [] \<Rightarrow> ([], False) | c # _ \<Rightarrow> (c, True))"
  by (induction cs) auto

lemma PausedSet_lookup:
  assumes "wf_table cp_id t" and "\<not> flt PQuery"
  shows "PausedSet flt t = Inr (\<lambda>c. case lookup_by cp_id c t of Some r \<Rightarrow> if cred_held r then Some (cred_view r) else None | None \<Rightarrow> None)"
proof -
  have "map_of (rev (map (\<lambda>r. (cp_id r, cred_view r)) (filter cred_held t))) c =
      (case lookup_by cp_id c t of Some r \<Rightarrow> if cred_held r then Some (cred_view r) else None | None \<Rightarrow> None)" for c
    using assms(1)
  proof (induction t)
    case (Cons r t)
    have "cp_id r = c \<Longrightarrow> lookup_by cp_id c t = None"
      using Cons.prems by (auto simp: lookup_by_None wf_table_def)
    moreover have "wf_table cp_id t" using Cons.prems by (simp add: wf_table_def)
    ultimately show ?case using Cons.IH by (auto simp: map_add_def split: option.splits)
  qed simp
  then show ?thesis using assms(2) by (simp add: PausedSet_def fun_eq_iff)
qed

text \<open>
  Re-routing picks an unheld credential: against the ledger's paused set the advisory
  returns the first candidate with no pending episode, and reports none exactly when every
  candidate is held.
\<close>

theorem reroute_avoids_held_credentials:
  assumes "wf_table cp_id t" and "PausedSet flt t = Inr paused"
  shows "(\<forall>c. SelectAlternate cs paused = (c, True) \<longrightarrow>
      c \<in> set cs \<and> \<not> (\<exists>r \<in> set t. cp_id r = c \<and> cred_held r) \<and>
      (\<forall>d \<in> set (takeWhile (\<lambda>d. d \<noteq> c) cs). \<exists>r \<in> set t. cp_id r = d \<and> cred_held r)) \<and>
    (snd (SelectAlternate cs paused) = False \<longleftrightarrow> (\<forall>c \<in> set cs. \<exists>r \<in> set t. cp_id r = c \<and> cred_held r))"
proof -
  have "\<not> flt PQuery" using assms(2) by (auto simp: PausedSet_def split: if_splits)
  from PausedSet_lookup [where flt = flt and t = t, OF assms(1) this] assms(2)
  have p: "paused c = (case lookup_by cp_id c t of Some r \<Rightarrow> if cred_held r then Some (cred_view r) else None | None \<Rightarrow> None)" for c
    by simp
  have held: "paused c \<noteq> None \<longleftrightarrow> (\<exists>r \<in> set t. cp_id r = c \<and> cred_held r)" for c
  proof
    assume "paused c \<noteq> None"
    then obtain r where r: "lookup_by cp_id c t = Some r" "cred_held r"
      by (auto simp: p split: option.splits if_splits)
    then show "\<exists>r \<in> set t. cp_id r = c \<and> cred_held r" using lookup_by_Some [OF r(1)] by blast
  next
    assume "\<exists>r \<in> set t. cp_id r = c \<and> cred_held r"
    then obtain r where "r \<in> set t" "cp_id r = c" "cred_held r" by blast
    then show "paused c \<noteq> None" using lookup_by_mem [OF assms(1)] by (auto simp: p)
  qed
  show ?thesis
  proof (intro conjI allI impI)
    show "snd (SelectAlternate cs paused) = False \<longleftrightarrow> (\<forall>c \<in> set cs. \<exists>r \<in> set t. cp_id r = c \<and> cred_held r)"
      unfolding held [symmetric] by (induction cs) auto
    fix c assume "SelectAlternate cs paused = (c, True)"
    then show "c \<in> set cs" "\<not> (\<exists>r \<in> set t. cp_id r = c \<and> cred_held r)"
      "\<forall>d \<in> set (takeWhile (\<lambda>d. d \<noteq> c) cs). \<exists>r \<in> set t. cp_id r = d \<and> cred_held r"
      unfolding held [symmetric] by (induction cs) (auto split: if_splits)
  qed
qed

theorem reroute_avoids_held_credentials_witness:
  "SelectAlternate [''ns/s'', ''ns/t''] (\<lambda>c. None) = (''ns/s'', True) \<and>
   ''ns/s'' \<in> set [''ns/s'', ''ns/t''] \<and> \<not> (\<exists>r \<in> set []. cp_id r = ''ns/s'' \<and> cred_held r)"
proof -
  have w: "wf_table cp_id []" by (simp add: wf_table_def)
  have ps: "PausedSet (\<lambda>_. False) [] = Inr (\<lambda>c. None)" by (simp add: PausedSet_def fun_eq_iff)
  have "SelectAlternate [''ns/s'', ''ns/t''] (\<lambda>c. None) = (''ns/s'', True)" by simp
  with reroute_avoids_held_credentials [OF w ps, of "[''ns/s'', ''ns/t'']"] show ?thesis by blast
qed

section \<open>Applying a signal\<close>

lemma pausable_not_terminal: "pausable r \<Longrightarrow> \<not> IsTerminal (pc_step r)"
  by (auto simp: pausable_def pausedFromSteps_def IsTerminal_def)

lemma Apply_cases:
  assumes "ApplyCredentialSignal nil cfg flt dflt k now prin proj sig (t, db) = (res, t', db')"
  obtains (refused) e where "res = Inl e" "t' = t" "db' = db"
  | (applied) row epi where "res = Inr \<lparr>AR_Episode = epi,
        AR_StepMoved = (Sig_Item sig \<noteq> [] \<and> aff_key pc_item (Sig_Item sig) pausable (pd_claims db) > 0)\<rparr>"
      "row = cred_write cfg k now (Sig_Credential sig) (EventReason (Sig_Event sig)) (Sig_RetryAfter sig) (Sig_Item sig)
         (Sig_Run sig) (lookup_by cp_id (Cred_ID (Sig_Credential sig)) t)"
      "t' = upsert_by cp_id row t"
      "pd_claims db' = (if Sig_Item sig = [] then pd_claims db
         else upd_key pc_item (Sig_Item sig) pausable (\<lambda>r. r\<lparr>pc_step := SignalStep (Sig_Event sig)\<rparr>) (pd_claims db))"
      "\<exists>e. pd_outbox db' = pd_outbox db @ [e] \<and> ob_event e = ''paused'' \<and> ob_run e = Some (Sig_Run sig) \<and> ob_published e = None"
proof (cases res)
  case (Inl e)
  with assms show ?thesis
    by (intro refused) (auto simp: ApplyCredentialSignal_def Let_def split: if_splits option.splits sum.splits prod.splits)
next
  case (Inr ar)
  obtain epi where tx: "pauseCredentialTx cfg flt k now sig t = Inr (epi, t')" and ar: "ar = \<lparr>AR_Episode = epi,
        AR_StepMoved = (Sig_Item sig \<noteq> [] \<and> aff_key pc_item (Sig_Item sig) pausable (pd_claims db) > 0)\<rparr>"
    and c: "pd_claims db' = (if Sig_Item sig = [] then pd_claims db
         else upd_key pc_item (Sig_Item sig) pausable (\<lambda>r. r\<lparr>pc_step := SignalStep (Sig_Event sig)\<rparr>) (pd_claims db))"
    and e: "pd_outbox db' = pd_outbox db @ [\<lparr>ob_id = pd_seq db, ob_entity = ''run'', ob_project = proj, ob_squad = None,
       ob_event = ''paused'', ob_item = nullable (Sig_Item sig), ob_run = Some (Sig_Run sig),
       ob_payload = signal_payload sig epi, ob_carrier = None, ob_published = None\<rparr>]"
    using assms Inr
    by (auto simp: ApplyCredentialSignal_def Let_def split: if_splits option.splits sum.splits prod.splits)
  have "t' = upsert_by cp_id (cred_write cfg k now (Sig_Credential sig) (EventReason (Sig_Event sig)) (Sig_RetryAfter sig)
      (Sig_Item sig) (Sig_Run sig) (lookup_by cp_id (Cred_ID (Sig_Credential sig)) t)) t"
    using tx by (auto simp: pauseCredentialTx_def Let_def split: if_splits)
  with Inr ar c e show ?thesis by (intro applied [OF _ refl]) auto
qed

text \<open>
  A credential signal holds a live Run and never resurrects a finished one: an applied
  signal leaves a pending episode for exactly its credential, moves the claim's step to the
  pause step of its event if and only if the step was one of the live ones (a terminal step is
  never touched), changes no fence or holder, and appends exactly one unpublished paused event
  for the Run; a signal that is refused or fails at any statement changes nothing.
\<close>

theorem signal_never_resurrects:
  assumes "wf_prod db"
    and "ApplyCredentialSignal nil cfg flt dflt k now prin proj sig (t, db) = (res, t', db')"
  shows "(\<forall>ar. res = Inr ar \<longrightarrow>
      (\<exists>row. lookup_by cp_id (Cred_ID (Sig_Credential sig)) t' = Some row \<and> cred_held row \<and>
             cp_reason row = EventReason (Sig_Event sig)) \<and>
      (\<forall>j. j \<noteq> Cred_ID (Sig_Credential sig) \<longrightarrow> lookup_by cp_id j t' = lookup_by cp_id j t) \<and>
      (\<forall>i. claim_row_of db' i =
         map_option (\<lambda>r. if i = Sig_Item sig \<and> i \<noteq> [] \<and> pausable r then r\<lparr>pc_step := SignalStep (Sig_Event sig)\<rparr> else r)
           (claim_row_of db i)) \<and>
      (\<forall>i r. claim_row_of db i = Some r \<and> IsTerminal (pc_step r) \<longrightarrow> claim_row_of db' i = Some r) \<and>
      (AR_StepMoved ar \<longleftrightarrow> (\<exists>r. claim_row_of db (Sig_Item sig) = Some r \<and> Sig_Item sig \<noteq> [] \<and> pausable r)) \<and>
      (\<exists>e. pd_outbox db' = pd_outbox db @ [e] \<and> ob_event e = ''paused'' \<and> ob_run e = Some (Sig_Run sig) \<and> ob_published e = None)) \<and>
    (\<forall>err. res = Inl err \<longrightarrow> t' = t \<and> db' = db)"
  using assms(2)
proof (cases rule: Apply_cases)
  case (refused e)
  then show ?thesis by simp
next
  case (applied row epi)
  have row: "cred_held row" "cp_reason row = EventReason (Sig_Event sig)" "cp_id row = Cred_ID (Sig_Credential sig)"
    unfolding applied(2) by (simp_all add: cred_held_def cred_write_def split: prod.splits)
  have rows: "claim_row_of db' i =
         map_option (\<lambda>r. if i = Sig_Item sig \<and> i \<noteq> [] \<and> pausable r then r\<lparr>pc_step := SignalStep (Sig_Event sig)\<rparr> else r)
           (claim_row_of db i)" for i
    unfolding applied(4) by (cases "claim_row_of db i") auto
  have fin: "claim_row_of db' i = Some r" if "claim_row_of db i = Some r" "IsTerminal (pc_step r)" for i r
    using rows [of i] that pausable_not_terminal [of r] by auto
  have aff: "aff_key pc_item (Sig_Item sig) pausable (pd_claims db) > 0 \<longleftrightarrow>
      (\<exists>r. claim_row_of db (Sig_Item sig) = Some r \<and> pausable r)"
    by (simp add: aff_key_wf [OF wf_prodD(1) [OF assms(1)]] split: option.splits)
  have held: "lookup_by cp_id j t' = (if j = Cred_ID (Sig_Credential sig) then Some row else lookup_by cp_id j t)" for j
    unfolding applied(3) using row(3) by simp
  show ?thesis
    using applied(1,5) row rows fin aff held by (intro conjI allI impI) (simp_all, blast)
qed

definition a_signal :: CredentialSignal where
  "a_signal = \<lparr>Sig_Run = ''r'', Sig_Item = ''i'', Sig_Credential = a_cred, Sig_Event = ''expired'', Sig_RetryAfter = None\<rparr>"

definition finished :: prod_db where
  "finished = \<lparr>pd_items = [], pd_claims = [\<lparr>pc_item = ''i'', pc_holder = None, pc_run = None, pc_fence = 3, pc_lease = None,
     pc_acquired = None, pc_renewed = None, pc_initiated = None, pc_reclaim_fenced = None, pc_step = StepSucceeded,
     pc_assignee = None\<rparr>],
     pd_audit = [], pd_outbox = [], pd_seq = 1, pd_a2a = [], pd_comments = [], pd_sandboxes = [], pd_changes = [], pd_artifacts = [], pd_dispatch = []\<rparr>"

theorem signal_never_resurrects_witness:
  "\<exists>ar t' db'. ApplyCredentialSignal False (DefaultCredPauseConfig\<lparr>CPC_Pause := ''c''\<rparr>) (\<lambda>_. False) (\<lambda>_. False) 0 9 ''shim'' ''p''
      a_signal ([], finished) = (Inr ar, t', db') \<and> claim_row_of db' ''i'' = claim_row_of finished ''i''"
proof -
  let ?a = "ApplyCredentialSignal False (DefaultCredPauseConfig\<lparr>CPC_Pause := ''c''\<rparr>) (\<lambda>_. False) (\<lambda>_. False) 0 9 ''shim'' ''p''
      a_signal ([], finished)"
  have "\<exists>ar. fst ?a = Inr ar"
    by (simp add: ApplyCredentialSignal_def CredPauseConfig_validate_def DefaultCredPauseConfig_def Signal_validate_def
        a_signal_def a_cred_def Class_Valid_def SignalStep_def pauseCredentialTx_def Let_def)
  then obtain ar t' db' where a: "?a = (Inr ar, t', db')" by (metis prod.collapse)
  have wf: "wf_prod finished" by (simp add: wf_prod_def wf_table_def finished_def)
  obtain r where r: "claim_row_of finished ''i'' = Some r" "IsTerminal (pc_step r)"
    by (simp add: finished_def IsTerminal_def)
  have "claim_row_of db' ''i'' = claim_row_of finished ''i''"
    using signal_never_resurrects [OF wf a] r by (metis (no_types, lifting))
  with a show ?thesis by blast
qed

end
