(* ===== verification/Warm_Pool.thy ===== *)
theory Warm_Pool
  imports Prelude
begin

text \<open>
  The physical warm pool (pkg/warmpool/pool.go). Sandboxes are heap objects, because the entry
  table, the run index and the draining queues share them by pointer; each method is split at its
  lock sections, since the provisioner's calls happen with the lock released and other methods
  run in between. A map's iteration order is an argument where the code iterates over one.
\<close>

section \<open>Data\<close>

record PoolKey =
  RuntimeClass :: string
  Image :: string
  Namespace :: string
  CapabilityHash :: string
  ProjectPVC :: string

datatype SandboxState = StateWarming | StateReady | StateBound | StateDraining

type_synonym addr = nat

text \<open>A zero time is \<open>None\<close>; an unowned sandbox has the empty run id.\<close>

record Sandbox =
  SB_ID :: string
  SB_Key :: PoolKey
  SB_State :: SandboxState
  SB_BoundRun :: string
  SB_CreatedAt :: "instant option"
  SB_ReadyAt :: "instant option"

record Pool =
  heap :: "Sandbox list"
  entries :: "string \<rightharpoonup> addr"
  ready :: "PoolKey \<Rightarrow> string list"
  byRun :: "string \<rightharpoonup> addr"
  draining :: "PoolKey \<Rightarrow> addr list"
  onBindMiss :: bool
  provisioner :: bool

definition ClassInteractive :: string where "ClassInteractive = ''interactive''"
definition ClassBatch :: string where "ClassBatch = ''batch''"

definition NewPool :: "bool \<Rightarrow> Pool" where
  "NewPool prov = \<lparr>heap = [], entries = (\<lambda>_. None), ready = (\<lambda>_. []), byRun = (\<lambda>_. None), draining = (\<lambda>_. []),
     onBindMiss = False, provisioner = prov\<rparr>"

definition SetBindMiss :: "bool \<Rightarrow> Pool \<Rightarrow> Pool" where
  "SetBindMiss fn p = p\<lparr>onBindMiss := fn\<rparr>"

abbreviation at_addr :: "Pool \<Rightarrow> addr \<Rightarrow> Sandbox" where
  "at_addr p a \<equiv> heap p ! a"

definition set_at :: "addr \<Rightarrow> (Sandbox \<Rightarrow> Sandbox) \<Rightarrow> Pool \<Rightarrow> Pool" where
  "set_at a f p = p\<lparr>heap := (heap p)[a := f (heap p ! a)]\<rparr>"

definition new_at :: "Sandbox \<Rightarrow> Pool \<Rightarrow> addr \<times> Pool" where
  "new_at sb p = (length (heap p), p\<lparr>heap := heap p @ [sb]\<rparr>)"

definition track :: "string \<Rightarrow> addr \<Rightarrow> Pool \<Rightarrow> Pool" where
  "track i a p = p\<lparr>entries := (entries p)(i \<mapsto> a)\<rparr>"

definition untrack :: "string \<Rightarrow> Pool \<Rightarrow> Pool" where
  "untrack i p = p\<lparr>entries := (entries p)(i := None)\<rparr>"

definition bind_run :: "string \<Rightarrow> addr \<Rightarrow> Pool \<Rightarrow> Pool" where
  "bind_run r a p = p\<lparr>byRun := (byRun p)(r \<mapsto> a)\<rparr>"

definition unbind_run :: "string \<Rightarrow> Pool \<Rightarrow> Pool" where
  "unbind_run r p = p\<lparr>byRun := (byRun p)(r := None)\<rparr>"

definition set_ready :: "PoolKey \<Rightarrow> string list \<Rightarrow> Pool \<Rightarrow> Pool" where
  "set_ready k ids p = p\<lparr>ready := (ready p)(k := ids)\<rparr>"

definition park :: "PoolKey \<Rightarrow> addr \<Rightarrow> Pool \<Rightarrow> Pool" where
  "park k a p = p\<lparr>draining := (draining p)(k := draining p k @ [a])\<rparr>"

lemmas pool_defs = set_at_def new_at_def track_def untrack_def bind_run_def unbind_run_def set_ready_def park_def

section \<open>Bind\<close>

text \<open>
  The first lock section ends in an error, a reference, another try (a ready id without entry was
  dropped) or the reservation of a cold boot, with the miss trigger read at that moment.
\<close>

datatype bind_start = BindErr string | BindRef string | BindAgain | BindCold addr bool

definition Bind_start :: "string \<Rightarrow> PoolKey \<Rightarrow> string \<Rightarrow> string \<Rightarrow> instant \<Rightarrow> Pool \<Rightarrow> bind_start \<times> Pool" where
  "Bind_start runID key cls newID now p =
     (if runID = [] then (BindErr ''warmpool.Pool.Bind: runID is required'', p)
      else case byRun p runID of
        Some a \<Rightarrow> (BindRef (SB_ID (at_addr p a)), p)
      | None \<Rightarrow>
          if cls \<noteq> ClassInteractive \<and> cls \<noteq> ClassBatch then (BindErr ''warmpool.Pool.Bind: unknown run class'', p)
          else case (if cls = ClassInteractive then ready p key else []) of
            i # ids \<Rightarrow>
              (let p1 = set_ready key ids p
               in case entries p1 i of
                    None \<Rightarrow> (BindAgain, p1)
                  | Some a \<Rightarrow>
                      (let p2 = bind_run runID a (set_at a (\<lambda>sb. sb\<lparr>SB_State := StateBound, SB_BoundRun := runID\<rparr>) p1)
                       in (BindRef (SB_ID (at_addr p2 a)), p2)))
          | [] \<Rightarrow>
              (case new_at \<lparr>SB_ID = newID, SB_Key = key, SB_State = StateWarming, SB_BoundRun = runID,
                             SB_CreatedAt = Some now, SB_ReadyAt = None\<rparr> p of
                 (a, p1) \<Rightarrow> (BindCold a (onBindMiss p1), bind_run runID a (track newID a p1))))"

text \<open>
  The boot returned. An error rolls the reservation back; otherwise the sandbox is bound, unless
  it was released meanwhile, in which case it has to be torn down (\<open>None\<close>).
\<close>

definition Bind_booted :: "string \<Rightarrow> string \<Rightarrow> addr \<Rightarrow> bool \<Rightarrow> Pool \<Rightarrow> (string + string) option \<times> Pool" where
  "Bind_booted runID i a bootErr p =
     (if bootErr then (Some (Inl ''warmpool.Pool.Bind: cold boot''), unbind_run runID (untrack i p))
      else if entries p i = None then (None, p)
      else (Some (Inr i), set_at a (\<lambda>sb. sb\<lparr>SB_State := StateBound\<rparr>) p))"

definition Bind_cleaned :: "PoolKey \<Rightarrow> string \<Rightarrow> addr \<Rightarrow> bool \<Rightarrow> Pool \<Rightarrow> (string + string) \<times> Pool" where
  "Bind_cleaned key i a cleanupErr p =
     (if cleanupErr
      then (Inl ''warmpool.Pool.Bind: released while its cold boot was in flight; cleanup FAILED'',
            park key a (track i a (set_at a (\<lambda>sb. sb\<lparr>SB_State := StateDraining, SB_BoundRun := []\<rparr>) p)))
      else (Inl ''warmpool.Pool.Bind: released while its cold boot was in flight; destroyed'', p))"

section \<open>Readiness, adoption, release\<close>

definition NotifyReady :: "string \<Rightarrow> instant \<Rightarrow> Pool \<Rightarrow> Pool" where
  "NotifyReady i now p =
     (case entries p i of
        None \<Rightarrow> p
      | Some a \<Rightarrow>
          (let sb = at_addr p a
           in if SB_State sb \<noteq> StateWarming then p
              else if SB_BoundRun sb \<noteq> [] then set_at a (\<lambda>sb. sb\<lparr>SB_ReadyAt := Some now\<rparr>) p
              else set_ready (SB_Key sb) (ready p (SB_Key sb) @ [SB_ID sb])
                     (set_at a (\<lambda>sb. sb\<lparr>SB_State := StateReady, SB_ReadyAt := Some now\<rparr>) p)))"

definition adopted :: "instant \<Rightarrow> Sandbox \<Rightarrow> Sandbox" where
  "adopted now sb =
     (let readyAt = (case SB_ReadyAt sb of None \<Rightarrow> Some now | Some t \<Rightarrow> Some t)
      in sb\<lparr>SB_State := StateReady, SB_BoundRun := [], SB_ReadyAt := readyAt,
            SB_CreatedAt := (case SB_CreatedAt sb of None \<Rightarrow> readyAt | Some t \<Rightarrow> Some t)\<rparr>)"

definition Adopt :: "Sandbox \<Rightarrow> instant \<Rightarrow> Pool \<Rightarrow> bool \<times> Pool" where
  "Adopt sb now p =
     (if entries p (SB_ID sb) \<noteq> None then (False, p)
      else case new_at (adopted now sb) p of
        (a, p1) \<Rightarrow> (True, set_ready (SB_Key sb) (ready p1 (SB_Key sb) @ [SB_ID sb]) (track (SB_ID sb) a p1)))"

text \<open>The first lock section of Release gives the sandbox to tear down, if the run holds one.\<close>

definition Release_start :: "string \<Rightarrow> Pool \<Rightarrow> (addr \<times> string \<times> PoolKey) option \<times> Pool" where
  "Release_start runID p =
     (case byRun p runID of
        None \<Rightarrow> (None, p)
      | Some a \<Rightarrow>
          (let i = SB_ID (at_addr p a); k = SB_Key (at_addr p a)
           in (Some (a, i, k), set_ready k (filter (\<lambda>x. x \<noteq> i) (ready p k)) (untrack i (unbind_run runID p)))))"

definition Release_done :: "string \<Rightarrow> addr \<Rightarrow> string \<Rightarrow> PoolKey \<Rightarrow> bool \<Rightarrow> Pool \<Rightarrow> string option \<times> Pool" where
  "Release_done runID a i k err p =
     (if \<not> err then (None, p)
      else
        let p1 = set_at a (\<lambda>sb. sb\<lparr>SB_State := StateDraining\<rparr>) p;
            p2 = (if byRun p1 runID = None then bind_run runID a p1 else set_at a (\<lambda>sb. sb\<lparr>SB_BoundRun := []\<rparr>) p1)
        in (Some ''warmpool.Pool.Release: teardown'', park k a (track i a p2)))"

section \<open>Inventory\<close>

record Counts =
  C_Warming :: nat
  C_Ready :: nat
  C_Bound :: nat
  C_Reserved :: nat
  C_Draining :: nat

definition no_counts :: Counts where
  "no_counts = \<lparr>C_Warming = 0, C_Ready = 0, C_Bound = 0, C_Reserved = 0, C_Draining = 0\<rparr>"

definition count_sandbox :: "Sandbox \<Rightarrow> Counts \<Rightarrow> Counts" where
  "count_sandbox sb c =
     (case SB_State sb of
        StateWarming \<Rightarrow> (if SB_BoundRun sb \<noteq> [] then c\<lparr>C_Reserved := C_Reserved c + 1\<rparr> else c\<lparr>C_Warming := C_Warming c + 1\<rparr>)
      | StateReady \<Rightarrow> c\<lparr>C_Ready := C_Ready c + 1\<rparr>
      | StateBound \<Rightarrow> c\<lparr>C_Bound := C_Bound c + 1\<rparr>
      | StateDraining \<Rightarrow> c\<lparr>C_Draining := C_Draining c + 1\<rparr>)"

definition Inventory :: "string list \<Rightarrow> Pool \<Rightarrow> PoolKey \<Rightarrow> Counts option" where
  "Inventory order p =
     foldl (\<lambda>out i. case entries p i of
         None \<Rightarrow> out
       | Some a \<Rightarrow>
           (let sb = at_addr p a
            in out(SB_Key sb \<mapsto> count_sandbox sb (case out (SB_Key sb) of Some c \<Rightarrow> c | None \<Rightarrow> no_counts))))
       (\<lambda>_. None) order"

definition Ref :: "string \<Rightarrow> Pool \<Rightarrow> string" where
  "Ref runID p = (case byRun p runID of Some a \<Rightarrow> SB_ID (at_addr p a) | None \<Rightarrow> [])"

section \<open>Draining, scale-down, replenishment\<close>

definition retryDraining_start :: "PoolKey \<Rightarrow> Pool \<Rightarrow> addr list \<times> Pool" where
  "retryDraining_start k p =
     (map (\<lambda>a. the (entries p (SB_ID (at_addr p a))))
        (filter (\<lambda>a. case entries p (SB_ID (at_addr p a)) of
             Some cur \<Rightarrow> SB_State (at_addr p cur) = StateDraining | None \<Rightarrow> False) (draining p k)),
      p\<lparr>draining := (draining p)(k := [])\<rparr>)"

definition drop_drained :: "string set \<Rightarrow> Pool \<Rightarrow> addr \<Rightarrow> Pool" where
  "drop_drained keep p a =
     (let i = SB_ID (at_addr p a)
      in if i \<in> keep then p
         else case entries p i of
           Some cur \<Rightarrow> if SB_State (at_addr p cur) = StateDraining then untrack i p else p
         | None \<Rightarrow> p)"

definition retryDraining_done :: "PoolKey \<Rightarrow> addr list \<Rightarrow> addr list \<Rightarrow> Pool \<Rightarrow> nat \<times> Pool" where
  "retryDraining_done k attempt still p =
     (let p1 = p\<lparr>draining := (draining p)(k := still @ draining p k)\<rparr>
      in (length attempt - length still,
          foldl (drop_drained (set (map (\<lambda>a. SB_ID (at_addr p1 a)) still))) p1 attempt))"

fun pick_victims :: "Pool \<Rightarrow> nat \<Rightarrow> string list \<Rightarrow> addr list \<times> string list" where
  "pick_victims p 0 ids = ([], ids)"
| "pick_victims p (Suc n) [] = ([], [])"
| "pick_victims p (Suc n) (i # ids) =
     (case entries p i of
        Some a \<Rightarrow>
          (if SB_State (at_addr p a) = StateReady
           then (case pick_victims p n ids of (vs, rest) \<Rightarrow> (a # vs, rest))
           else pick_victims p (Suc n) ids)
      | None \<Rightarrow> pick_victims p (Suc n) ids)"

definition drain_victim :: "PoolKey \<Rightarrow> Pool \<Rightarrow> addr \<Rightarrow> Pool" where
  "drain_victim k p a = park k a (set_at a (\<lambda>sb. sb\<lparr>SB_State := StateDraining\<rparr>) p)"

definition untrack_victim :: "Pool \<Rightarrow> addr \<Rightarrow> Pool" where
  "untrack_victim p a = untrack (SB_ID (at_addr p a)) p"

text \<open>The victims are parked, or forgotten at once when there is no provisioner.\<close>

definition take_victims :: "PoolKey \<Rightarrow> addr list \<Rightarrow> Pool \<Rightarrow> Pool" where
  "take_victims k vs p = (if provisioner p then foldl (drain_victim k) p vs else foldl untrack_victim p vs)"

definition ScaleDown_pick :: "PoolKey \<Rightarrow> nat \<Rightarrow> Pool \<Rightarrow> addr list \<times> Pool" where
  "ScaleDown_pick k n p = (case pick_victims p n (ready p k) of (vs, rest) \<Rightarrow> (vs, take_victims k vs (set_ready k rest p)))"

definition stale_warming :: "PoolKey \<Rightarrow> instant \<Rightarrow> duration \<Rightarrow> Sandbox \<Rightarrow> bool" where
  "stale_warming k now maxAge sb \<longleftrightarrow>
     SB_Key sb = k \<and> SB_State sb = StateWarming \<and> SB_BoundRun sb = [] \<and>
     (case SB_CreatedAt sb of Some t \<Rightarrow> now - t \<ge> maxAge | None \<Rightarrow> True)"

definition ReapStaleWarming_pick :: "PoolKey \<Rightarrow> duration \<Rightarrow> instant \<Rightarrow> string list \<Rightarrow> Pool \<Rightarrow> addr list \<times> Pool" where
  "ReapStaleWarming_pick k maxAge now order p =
     (if maxAge \<le> 0 then ([], p)
      else
        let vs = filter (\<lambda>a. stale_warming k now maxAge (at_addr p a)) (List.map_filter (entries p) order)
        in (vs, take_victims k vs p))"

text \<open>A confirmed teardown of a victim.\<close>

definition victim_gone :: "addr \<Rightarrow> Pool \<Rightarrow> Pool" where
  "victim_gone a p = untrack_victim p a"

definition Boot_start :: "PoolKey \<Rightarrow> string \<Rightarrow> instant \<Rightarrow> Pool \<Rightarrow> Pool" where
  "Boot_start k newID now p =
     (case new_at \<lparr>SB_ID = newID, SB_Key = k, SB_State = StateWarming, SB_BoundRun = [],
                    SB_CreatedAt = Some now, SB_ReadyAt = None\<rparr> p of
        (a, p1) \<Rightarrow> track newID a p1)"

definition Boot_done :: "string \<Rightarrow> bool \<Rightarrow> Pool \<Rightarrow> (string + string) \<times> Pool" where
  "Boot_done i err p = (if err then (Inl ''warmpool.Pool.Boot'', untrack i p) else (Inr i, p))"

section \<open>The binder of the coordination core\<close>

text \<open>How a run's key and class are found is the caller's; one pool for all runs is the default.\<close>

type_synonym classifier = "string \<Rightarrow> string + PoolKey \<times> string"

definition DefaultClassifier :: "PoolKey \<Rightarrow> string \<Rightarrow> classifier" where
  "DefaultClassifier k cls = (\<lambda>_. Inr (k, cls))"

definition Binder_Bind :: "classifier \<Rightarrow> string \<Rightarrow> string \<Rightarrow> instant \<Rightarrow> Pool \<Rightarrow> bind_start \<times> Pool" where
  "Binder_Bind classify runID newID now p =
     (case classify runID of
        Inl e \<Rightarrow> (BindErr (''warmpool.Binder.Bind: classify run: '' @ e), p)
      | Inr (k, cls) \<Rightarrow> Bind_start runID k cls newID now p)"

end
