(* ===== verification/Pool_Interleaving.thy ===== *)
theory Pool_Interleaving
  imports Warm_Pool
begin

text \<open>
  The warm pool under concurrency: any number of callers run the pool's methods, one lock section
  at a time, and the provisioner's answers arrive in any order. The state carries, beside the
  pool, the calls in flight and a record of which run each sandbox was reserved for and which
  references were returned. Ids minted by the pool are fresh, as 64 random bits make them, and a
  pod is adopted only when it is already tracked (a no-op) or stems from an earlier process, as
  the single adoption pass at start-up guarantees.
\<close>

section \<open>Calls and steps\<close>

datatype call =
    CBind string PoolKey string addr bool
  | CClean PoolKey string addr
  | CRelease string addr string PoolKey
  | CRetry PoolKey "addr list" "addr list" "addr list" nat
  | CPick PoolKey nat
  | CVictims "addr list"
  | CBoot string

record sys =
  pool :: Pool
  calls :: "call list"
  used :: "string set"
  claimed :: "(string \<times> string) set"
  handed :: "(string \<times> string) list"

text \<open>What the first lock section of a bind leaves behind.\<close>

fun bind_started :: "string \<Rightarrow> PoolKey \<Rightarrow> string \<Rightarrow> bind_start \<times> Pool \<Rightarrow> sys \<Rightarrow> sys" where
  "bind_started r k i (BindErr e, p) s = s\<lparr>pool := p\<rparr>"
| "bind_started r k i (BindAgain, p) s = s\<lparr>pool := p\<rparr>"
| "bind_started r k i (BindRef j, p) s = s\<lparr>pool := p, claimed := insert (j, r) (claimed s), handed := handed s @ [(r, j)]\<rparr>"
| "bind_started r k i (BindCold a miss, p) s =
     s\<lparr>pool := p, calls := calls s @ [CBind r k i a miss], used := insert i (used s), claimed := insert (i, r) (claimed s)\<rparr>"

fun bind_booted :: "string \<Rightarrow> PoolKey \<Rightarrow> string \<Rightarrow> addr \<Rightarrow> (string + string) option \<times> Pool \<Rightarrow> sys \<Rightarrow> sys" where
  "bind_booted r k i a (None, p) s = s\<lparr>pool := p, calls := calls s @ [CClean k i a]\<rparr>"
| "bind_booted r k i a (Some (Inl e), p) s = s\<lparr>pool := p\<rparr>"
| "bind_booted r k i a (Some (Inr j), p) s = s\<lparr>pool := p, handed := handed s @ [(r, j)]\<rparr>"

inductive pool_step :: "sys \<Rightarrow> sys \<Rightarrow> bool" where
  bind_start: "newID \<notin> used s \<Longrightarrow>
    pool_step s (bind_started r k newID (Bind_start r k cls newID now (pool s)) s)"
| bind_boot: "calls s = xs @ CBind r k i a miss # ys \<Longrightarrow> err \<longrightarrow> provisioner (pool s) \<Longrightarrow>
    pool_step s (bind_booted r k i a (Bind_booted r i a err (pool s)) (s\<lparr>calls := xs @ ys\<rparr>))"
| bind_clean: "calls s = xs @ CClean k i a # ys \<Longrightarrow> err \<longrightarrow> provisioner (pool s) \<Longrightarrow>
    pool_step s (s\<lparr>calls := xs @ ys, pool := snd (Bind_cleaned k i a err (pool s))\<rparr>)"
| notify: "pool_step s (s\<lparr>pool := NotifyReady i now (pool s)\<rparr>)"
| adopt: "SB_ID sb \<in> dom (entries (pool s)) \<or> SB_ID sb \<notin> used s \<Longrightarrow>
    pool_step s (s\<lparr>pool := snd (Adopt sb now (pool s)), used := insert (SB_ID sb) (used s)\<rparr>)"
| release_noop: "Release_start r (pool s) = (None, p) \<Longrightarrow> pool_step s (s\<lparr>pool := p\<rparr>)"
| release_start: "Release_start r (pool s) = (Some (a, i, k), p) \<Longrightarrow>
    pool_step s (s\<lparr>pool := p, calls := calls s @ [CRelease r a i k]\<rparr>)"
| release_done: "calls s = xs @ CRelease r a i k # ys \<Longrightarrow> err \<longrightarrow> provisioner (pool s) \<Longrightarrow>
    pool_step s (s\<lparr>calls := xs @ ys, pool := snd (Release_done r a i k err (pool s))\<rparr>)"
| scale_start: "0 < n \<Longrightarrow> retryDraining_start k (pool s) = (att, p) \<Longrightarrow>
    pool_step s (s\<lparr>pool := p, calls := calls s @ [CRetry k att att [] n]\<rparr>)"
| retry_one: "calls s = xs @ CRetry k att (a # todo) still n # ys \<Longrightarrow> err \<longrightarrow> provisioner (pool s) \<Longrightarrow>
    pool_step s (s\<lparr>calls := xs @ CRetry k att todo (if err then still @ [a] else still) n # ys\<rparr>)"
| retry_done: "calls s = xs @ CRetry k att [] still n # ys \<Longrightarrow>
    pool_step s (s\<lparr>calls := xs @ CPick k n # ys, pool := snd (retryDraining_done k att still (pool s))\<rparr>)"
| scale_pick: "calls s = xs @ CPick k n # ys \<Longrightarrow> ScaleDown_pick k n (pool s) = (vs, p) \<Longrightarrow>
    pool_step s (s\<lparr>calls := xs @ CVictims (if provisioner p then vs else []) # ys, pool := p\<rparr>)"
| reap: "distinct order \<Longrightarrow> set order = dom (entries (pool s)) \<Longrightarrow>
    ReapStaleWarming_pick k maxAge now order (pool s) = (vs, p) \<Longrightarrow>
    pool_step s (s\<lparr>calls := calls s @ [CVictims (if provisioner p then vs else [])], pool := p\<rparr>)"
| victim: "calls s = xs @ CVictims (a # vs) # ys \<Longrightarrow>
    pool_step s (s\<lparr>calls := xs @ CVictims vs # ys, pool := (if err then pool s else victim_gone a (pool s))\<rparr>)"
| boot_start: "newID \<notin> used s \<Longrightarrow>
    pool_step s (s\<lparr>pool := Boot_start k newID now (pool s), calls := calls s @ [CBoot newID], used := insert newID (used s)\<rparr>)"
| boot_done: "calls s = xs @ CBoot i # ys \<Longrightarrow> err \<longrightarrow> provisioner (pool s) \<Longrightarrow>
    pool_step s (s\<lparr>calls := xs @ ys, pool := snd (Boot_done i err (pool s))\<rparr>)"

definition start :: "bool \<Rightarrow> sys" where
  "start prov = \<lparr>pool = NewPool prov, calls = [], used = {}, claimed = {}, handed = []\<rparr>"

section \<open>The ownership invariant\<close>

definition owned_ok :: "(string \<times> string) set \<Rightarrow> Sandbox \<Rightarrow> bool" where
  "owned_ok cl sb \<longleftrightarrow> (SB_State sb = StateWarming \<and> SB_BoundRun sb = [] \<or> SB_State sb = StateReady \<longrightarrow> SB_ID sb \<notin> fst ` cl)"

fun call_ok :: "(string \<times> string) set \<Rightarrow> Sandbox list \<Rightarrow> call \<Rightarrow> bool" where
  "call_ok cl h (CBind r k i a miss) = (a < length h \<and> SB_ID (h ! a) = i \<and> (i, r) \<in> cl)"
| "call_ok cl h (CClean k i a) = (a < length h \<and> SB_ID (h ! a) = i \<and> i \<in> fst ` cl)"
| "call_ok cl h (CRelease r a i k) = (a < length h \<and> SB_ID (h ! a) = i \<and> (i, r) \<in> cl)"
| "call_ok cl h (CRetry k att todo still n) = (\<forall>a \<in> set att \<union> set still \<union> set todo. a < length h)"
| "call_ok cl h (CPick k n) = True"
| "call_ok cl h (CVictims vs) = (\<forall>a \<in> set vs. a < length h)"
| "call_ok cl h (CBoot i) = True"

definition heap_ok :: "string set \<Rightarrow> (string \<times> string) set \<Rightarrow> Sandbox list \<Rightarrow> bool" where
  "heap_ok us cl h \<longleftrightarrow>
     (\<forall>a b. a < length h \<and> b < length h \<and> SB_ID (h ! a) = SB_ID (h ! b) \<longrightarrow> a = b) \<and>
     (\<forall>a < length h. SB_ID (h ! a) \<in> us \<and> owned_ok cl (h ! a)) \<and> fst ` cl \<subseteq> us \<and> single_valued cl"

definition pool_ok :: "string set \<Rightarrow> (string \<times> string) set \<Rightarrow> Pool \<Rightarrow> bool" where
  "pool_ok us cl p \<longleftrightarrow> heap_ok us cl (heap p) \<and>
     (\<forall>i a. entries p i = Some a \<longrightarrow> a < length (heap p) \<and> SB_ID (at_addr p a) = i) \<and>
     (\<forall>r a. byRun p r = Some a \<longrightarrow> a < length (heap p) \<and> (SB_ID (at_addr p a), r) \<in> cl) \<and>
     (\<forall>k. distinct (ready p k)) \<and>
     (\<forall>k i. i \<in> set (ready p k) \<longrightarrow>
        (\<exists>a < length (heap p). SB_ID (at_addr p a) = i \<and> SB_Key (at_addr p a) = k \<and> SB_State (at_addr p a) = StateReady)) \<and>
     (\<forall>k. \<forall>a \<in> set (draining p k). a < length (heap p))"

definition sys_ok :: "sys \<Rightarrow> bool" where
  "sys_ok s \<longleftrightarrow> pool_ok (used s) (claimed s) (pool s) \<and>
     (\<forall>c \<in> set (calls s). call_ok (claimed s) (heap (pool s)) c) \<and>
     (\<forall>r i. (r, i) \<in> set (handed s) \<longrightarrow> (i, r) \<in> claimed s)"

subsection \<open>Primitive updates keep the pool well-formed\<close>

named_theorems pool_intro

definition unready :: "Pool \<Rightarrow> addr \<Rightarrow> bool" where
  "unready p a \<longleftrightarrow> (\<forall>k. SB_ID (at_addr p a) \<notin> set (ready p k))"

lemma pool_okD:
  assumes "pool_ok us cl p"
  shows "heap_ok us cl (heap p)"
    and "entries p i = Some a \<Longrightarrow> a < length (heap p) \<and> SB_ID (at_addr p a) = i"
    and "byRun p r = Some a \<Longrightarrow> a < length (heap p) \<and> (SB_ID (at_addr p a), r) \<in> cl"
    and "distinct (ready p k)"
    and "i \<in> set (ready p k) \<Longrightarrow>
      \<exists>a < length (heap p). SB_ID (at_addr p a) = i \<and> SB_Key (at_addr p a) = k \<and> SB_State (at_addr p a) = StateReady"
    and "a \<in> set (draining p k) \<Longrightarrow> a < length (heap p)"
  using assms unfolding pool_ok_def by blast+

lemma pool_heapD:
  assumes "pool_ok us cl p"
  shows "a < length (heap p) \<Longrightarrow> SB_ID (at_addr p a) \<in> us" and "a < length (heap p) \<Longrightarrow> owned_ok cl (at_addr p a)"
    and "fst ` cl \<subseteq> us" and "single_valued cl"
  using assms by (simp_all add: pool_ok_def heap_ok_def)

lemma pool_id_unique:
  "pool_ok us cl p \<Longrightarrow> a < length (heap p) \<Longrightarrow> b < length (heap p) \<Longrightarrow> SB_ID (at_addr p a) = SB_ID (at_addr p b) \<Longrightarrow> a = b"
  by (simp add: pool_ok_def heap_ok_def)

lemma unready_state:
  assumes "pool_ok us cl p" and "a < length (heap p)" and "SB_State (at_addr p a) \<noteq> StateReady"
  shows "unready p a"
  using pool_okD(5) [OF assms(1)] pool_id_unique [OF assms(1,2)] assms(3) unfolding unready_def by metis

lemma claimed_state:
  assumes "pool_ok us cl p" and "a < length (heap p)" and "SB_ID (at_addr p a) \<in> fst ` cl"
  shows "SB_State (at_addr p a) \<noteq> StateReady" and "SB_State (at_addr p a) = StateWarming \<Longrightarrow> SB_BoundRun (at_addr p a) \<noteq> []"
  using assms by (auto simp: pool_ok_def heap_ok_def owned_ok_def)

lemma claimed_unready:
  "pool_ok us cl p \<Longrightarrow> a < length (heap p) \<Longrightarrow> SB_ID (at_addr p a) \<in> fst ` cl \<Longrightarrow> unready p a"
  by (simp add: unready_state claimed_state(1))

lemma pool_ok_set_at:
  assumes "pool_ok us cl p" and "a < length (heap p)"
    and "SB_ID (f (at_addr p a)) = SB_ID (at_addr p a)" and "SB_Key (f (at_addr p a)) = SB_Key (at_addr p a)"
    and "owned_ok cl (f (at_addr p a))" and "SB_State (f (at_addr p a)) \<noteq> StateReady \<Longrightarrow> unready p a"
  shows "pool_ok us cl (set_at a f p)"
proof -
  let ?h = "(heap p)[a := f (at_addr p a)]"
  have same: "SB_ID (?h ! b) = SB_ID (at_addr p b)" "SB_Key (?h ! b) = SB_Key (at_addr p b)" for b
    using assms(2-4) by (cases "b = a"; simp)+
  have st: "?h ! b = at_addr p b" if "b \<noteq> a" for b using that by simp
  have "heap_ok us cl ?h"
    using pool_okD(1) [OF assms(1)] assms(2,5) unfolding heap_ok_def same length_list_update
    by (metis nth_list_update_eq nth_list_update_neq)
  moreover have "\<exists>b < length ?h. SB_ID (?h ! b) = i \<and> SB_Key (?h ! b) = k \<and> SB_State (?h ! b) = StateReady"
    if i: "i \<in> set (ready p k)" for i k
  proof -
    obtain b where b: "b < length (heap p)" "SB_ID (at_addr p b) = i" "SB_Key (at_addr p b) = k" "SB_State (at_addr p b) = StateReady"
      using pool_okD(5) [OF assms(1) i] by blast
    have "SB_State (?h ! b) = StateReady"
    proof (cases "b = a")
      case True
      then have "\<not> unready p a" using i b(2) by (auto simp: unready_def)
      then have "SB_State (f (at_addr p a)) = StateReady" using assms(6) by blast
      with True assms(2) show ?thesis by simp
    qed (simp add: b)
    then show ?thesis using b same [of b] by auto
  qed
  ultimately show ?thesis using assms(1) unfolding pool_ok_def set_at_def by (simp add: same)
qed

lemma pool_ok_track [pool_intro]:
  "pool_ok us cl p \<Longrightarrow> a < length (heap p) \<Longrightarrow> SB_ID (at_addr p a) = i \<Longrightarrow> pool_ok us cl (track i a p)"
  by (auto simp: pool_ok_def track_def)

lemma pool_ok_untrack [pool_intro]: "pool_ok us cl p \<Longrightarrow> pool_ok us cl (untrack i p)"
  by (auto simp: pool_ok_def untrack_def)

lemma pool_ok_bind_run [pool_intro]:
  "pool_ok us cl p \<Longrightarrow> a < length (heap p) \<Longrightarrow> (SB_ID (at_addr p a), r) \<in> cl \<Longrightarrow> pool_ok us cl (bind_run r a p)"
  by (auto simp: pool_ok_def bind_run_def)

lemma pool_ok_unbind_run [pool_intro]: "pool_ok us cl p \<Longrightarrow> pool_ok us cl (unbind_run r p)"
  by (auto simp: pool_ok_def unbind_run_def)

lemma pool_ok_park [pool_intro]: "pool_ok us cl p \<Longrightarrow> a < length (heap p) \<Longrightarrow> pool_ok us cl (park k a p)"
  by (auto simp: pool_ok_def park_def)

lemma pool_ok_set_ready:
  assumes "pool_ok us cl p" and "distinct ids"
    and "\<And>i. i \<in> set ids \<Longrightarrow>
      \<exists>a < length (heap p). SB_ID (at_addr p a) = i \<and> SB_Key (at_addr p a) = k \<and> SB_State (at_addr p a) = StateReady"
  shows "pool_ok us cl (set_ready k ids p)"
proof -
  have "distinct (((ready p)(k := ids)) k')" for k' using assms(2) pool_okD(4) [OF assms(1)] by simp
  moreover have "\<exists>a < length (heap p). SB_ID (at_addr p a) = i \<and> SB_Key (at_addr p a) = k' \<and> SB_State (at_addr p a) = StateReady"
    if "i \<in> set (((ready p)(k := ids)) k')" for i k'
    using that assms(3) [of i] pool_okD(5) [OF assms(1), of i k'] by (cases "k' = k") simp_all
  ultimately show ?thesis using assms(1) unfolding pool_ok_def set_ready_def by simp
qed

lemma pool_ok_less_ready:
  assumes "pool_ok us cl p" and "distinct ids" and "set ids \<subseteq> set (ready p k)"
  shows "pool_ok us cl (set_ready k ids p)"
  by (rule pool_ok_set_ready [OF assms(1,2)]) (use assms(3) pool_okD(5) [OF assms(1)] in blast)

lemma pool_ok_more_ready:
  assumes "pool_ok us cl p" and "a < length (heap p)" and "SB_State (at_addr p a) = StateReady"
    and "k = SB_Key (at_addr p a)" and "i = SB_ID (at_addr p a)" and "i \<notin> set (ready p k)"
  shows "pool_ok us cl (set_ready k (ready p k @ [i]) p)"
proof (rule pool_ok_set_ready [OF assms(1)])
  show "distinct (ready p k @ [i])" using assms(6) pool_okD(4) [OF assms(1)] by simp
  fix j assume "j \<in> set (ready p k @ [i])"
  then show "\<exists>a < length (heap p). SB_ID (at_addr p a) = j \<and> SB_Key (at_addr p a) = k \<and> SB_State (at_addr p a) = StateReady"
    using pool_okD(5) [OF assms(1), of j k] assms(2-5) by auto
qed

lemma pool_ok_new:
  assumes "pool_ok us cl p" and "SB_ID sb \<notin> us"
  shows "pool_ok (insert (SB_ID sb) us) cl (snd (new_at sb p))"
proof -
  have "owned_ok cl sb" using assms by (auto simp: owned_ok_def pool_ok_def heap_ok_def)
  then have "heap_ok (insert (SB_ID sb) us) cl (heap p @ [sb])"
    using pool_okD(1) [OF assms(1)] assms(2) by (auto simp: heap_ok_def nth_append less_Suc_eq)
  then show ?thesis using assms(1) by (fastforce simp: pool_ok_def new_at_def nth_append)
qed

lemma pool_ok_claim:
  assumes "pool_ok us cl p" and "a < length (heap p)" and "i = SB_ID (at_addr p a)" and "SB_State (at_addr p a) \<noteq> StateReady"
    and "SB_State (at_addr p a) = StateWarming \<Longrightarrow> SB_BoundRun (at_addr p a) \<noteq> []"
    and "\<And>r'. (i, r') \<in> cl \<Longrightarrow> r' = r"
  shows "pool_ok us (insert (i, r) cl) p"
proof -
  have "owned_ok (insert (i, r) cl) (at_addr p b)" if b: "b < length (heap p)" for b
  proof (cases "b = a")
    case True
    with assms(4,5) show ?thesis by (auto simp: owned_ok_def)
  next
    case False
    then have "SB_ID (at_addr p b) \<noteq> i" using pool_id_unique [OF assms(1,2) b] assms(3) by metis
    with pool_heapD(2) [OF assms(1) b] show ?thesis by (auto simp: owned_ok_def)
  qed
  moreover have "single_valued (insert (i, r) cl)"
    using pool_heapD(4) [OF assms(1)] assms(6) unfolding single_valued_def by blast
  moreover have "i \<in> us" using pool_heapD(1) [OF assms(1,2)] assms(3) by simp
  ultimately have "heap_ok us (insert (i, r) cl) (heap p)"
    using pool_okD(1) [OF assms(1)] unfolding heap_ok_def by simp
  with assms(1) show ?thesis unfolding pool_ok_def by blast
qed

lemma pool_ok_used: "pool_ok us cl p \<Longrightarrow> us \<subseteq> us' \<Longrightarrow> pool_ok us' cl p"
  unfolding pool_ok_def heap_ok_def by (intro conjI) blast+

subsection \<open>What the lock sections do to the heap\<close>

text \<open>Objects keep their identity, and a spent sandbox (handed out, or with a teardown issued) stays spent.\<close>

definition spent :: "SandboxState \<Rightarrow> bool" where
  "spent st \<longleftrightarrow> st = StateBound \<or> st = StateDraining"

definition grows :: "Sandbox list \<Rightarrow> Sandbox list \<Rightarrow> bool" where
  "grows h h' \<longleftrightarrow> length h \<le> length h' \<and>
     (\<forall>a < length h. SB_ID (h' ! a) = SB_ID (h ! a) \<and> (spent (SB_State (h ! a)) \<longrightarrow> spent (SB_State (h' ! a))))"

lemma grows_refl [simp]: "grows h h"
  by (simp add: grows_def)

lemma grows_trans: "grows h h1 \<Longrightarrow> grows h1 h2 \<Longrightarrow> grows h h2"
  by (auto simp: grows_def)

lemma grows_set_at:
  assumes "SB_ID x = SB_ID (h ! a)" and "spent (SB_State (h ! a)) \<longrightarrow> spent (SB_State x)"
  shows "grows h (h[a := x])"
proof -
  have "SB_ID (h[a := x] ! b) = SB_ID (h ! b) \<and> (spent (SB_State (h ! b)) \<longrightarrow> spent (SB_State (h[a := x] ! b)))"
    if "b < length h" for b
    using assms that by (cases "b = a") auto
  then show ?thesis by (simp add: grows_def)
qed

lemma grows_append [simp]: "grows h (h @ xs)"
  by (simp add: grows_def nth_append)

lemma heap_simps [simp]:
  "heap (track i a p) = heap p" "heap (untrack i p) = heap p" "heap (bind_run r a p) = heap p"
  "heap (unbind_run r p) = heap p" "heap (set_ready k ids p) = heap p" "heap (park k a p) = heap p"
  "heap (set_at a f p) = (heap p)[a := f (at_addr p a)]" "heap (snd (new_at sb p)) = heap p @ [sb]"
  by (simp_all add: pool_defs)

lemma call_ok_grows: "call_ok cl h c \<Longrightarrow> grows h h' \<Longrightarrow> cl \<subseteq> cl' \<Longrightarrow> call_ok cl' h' c"
proof -
  assume c: "call_ok cl h c" and g: "grows h h'" and sub: "cl \<subseteq> cl'"
  have len: "a < length h \<Longrightarrow> a < length h' \<and> SB_ID (h' ! a) = SB_ID (h ! a)" for a using g by (auto simp: grows_def)
  show ?thesis using c sub len by (cases c) (auto intro: rev_image_eqI)
qed

text \<open>What a lock section has to keep.\<close>

definition keeps :: "string set \<Rightarrow> (string \<times> string) set \<Rightarrow> Pool \<Rightarrow> Pool \<Rightarrow> bool" where
  "keeps us cl p p' \<longleftrightarrow> pool_ok us cl p' \<and> grows (heap p) (heap p')"

lemma pool_ok_new_track:
  assumes "pool_ok us cl p" and "SB_ID sb \<notin> us" and "new_at sb p = (a, p1)"
  shows "pool_ok (insert (SB_ID sb) us) cl (track (SB_ID sb) a p1)" and "a < length (heap p1)"
    and "heap p1 = heap p @ [sb]" and "at_addr p1 a = sb" and "ready p1 = ready p" and "byRun p1 = byRun p"
proof -
  show a: "a < length (heap p1)" and h: "heap p1 = heap p @ [sb]" and n: "at_addr p1 a = sb"
    and "ready p1 = ready p" and "byRun p1 = byRun p"
    using assms(3) by (auto simp: new_at_def)
  have "pool_ok (insert (SB_ID sb) us) cl p1" using pool_ok_new [OF assms(1,2)] assms(3) by simp
  then show "pool_ok (insert (SB_ID sb) us) cl (track (SB_ID sb) a p1)" using a n by (intro pool_intro) simp_all
qed

lemma warm_bind_ok:
  assumes ok: "pool_ok us cl p" and rd: "ready p k = i # ids" and e: "entries p i = Some a" and r: "r \<noteq> []"
  defines "p1 \<equiv> set_at a (\<lambda>sb. sb\<lparr>SB_State := StateBound, SB_BoundRun := r\<rparr>) (set_ready k ids p)"
  shows "pool_ok us (insert (i, r) cl) (bind_run r a p1)" and "SB_ID (at_addr p1 a) = i" and "grows (heap p) (heap p1)"
proof -
  let ?q = "set_ready k ids p"
  have a: "a < length (heap p)" "SB_ID (at_addr p a) = i" using pool_okD(2) [OF ok e] by simp_all
  obtain b where b: "b < length (heap p)" "SB_ID (at_addr p b) = i" "SB_Key (at_addr p b) = k" "SB_State (at_addr p b) = StateReady"
    using pool_okD(5) [OF ok, of i k] rd by auto
  have "b = a" using pool_id_unique [OF ok b(1) a(1)] a(2) b(2) by simp
  with b have st: "SB_Key (at_addr p a) = k" "SB_State (at_addr p a) = StateReady" by simp_all
  have new: "i \<notin> fst ` cl" using pool_heapD(2) [OF ok a(1)] st a(2) by (simp add: owned_ok_def)
  have q: "pool_ok us cl ?q"
    using pool_okD(4) [OF ok, of k] rd by (intro pool_ok_less_ready [OF ok]) auto
  have un: "unready ?q a"
    unfolding unready_def
  proof
    fix k'
    show "SB_ID (at_addr ?q a) \<notin> set (ready ?q k')"
    proof (cases "k' = k")
      case True
      then show ?thesis using pool_okD(4) [OF ok, of k] rd a(2) by (simp add: set_ready_def)
    next
      case False
      then show ?thesis
        using pool_okD(5) [OF ok, of i k'] pool_id_unique [OF ok _ a(1)] st(1) a(2) by (auto simp: set_ready_def)
    qed
  qed
  have p1: "pool_ok us cl p1"
    unfolding p1_def by (rule pool_ok_set_at [OF q]) (use a un in \<open>simp_all add: owned_ok_def\<close>)
  have at: "at_addr p1 a = (at_addr p a)\<lparr>SB_State := StateBound, SB_BoundRun := r\<rparr>" using a(1) by (simp add: p1_def)
  then show i: "SB_ID (at_addr p1 a) = i" using a(2) by simp
  have "pool_ok us (insert (i, r) cl) p1"
    by (rule pool_ok_claim [OF p1]) (use a(1) at i new in \<open>auto simp: p1_def rev_image_eqI\<close>)
  then show "pool_ok us (insert (i, r) cl) (bind_run r a p1)"
    by (rule pool_ok_bind_run) (use a(1) i in \<open>simp_all add: p1_def\<close>)
  show "grows (heap p) (heap p1)" by (simp add: p1_def grows_set_at spent_def)
qed

lemma cold_bind_ok:
  assumes ok: "pool_ok us cl p" and new: "i \<notin> us" and r: "r \<noteq> []"
    and n: "new_at \<lparr>SB_ID = i, SB_Key = k, SB_State = StateWarming, SB_BoundRun = r, SB_CreatedAt = c, SB_ReadyAt = None\<rparr> p = (a, p1)"
  shows "pool_ok (insert i us) (insert (i, r) cl) (bind_run r a (track i a p1))"
    and "a < length (heap p1) \<and> SB_ID (at_addr p1 a) = i" and "grows (heap p) (heap p1)"
proof -
  note N = pool_ok_new_track [OF ok _ n, simplified, OF new]
  have none: "(i, r') \<notin> cl" for r' using pool_heapD(3) [OF ok] new by force
  have "pool_ok (insert i us) (insert (i, r) cl) (track i a p1)"
    by (rule pool_ok_claim [OF N(1), of a]) (use N(2,4) r none in auto)
  then show "pool_ok (insert i us) (insert (i, r) cl) (bind_run r a (track i a p1))"
    by (rule pool_ok_bind_run) (use N(2,4) in simp_all)
  show "a < length (heap p1) \<and> SB_ID (at_addr p1 a) = i" and "grows (heap p) (heap p1)" using N by simp_all
qed

lemma Bind_start_ok:
  assumes ok: "pool_ok us cl p" and new: "i \<notin> us" and b: "Bind_start r k cls i now p = (res, p')"
  shows "grows (heap p) (heap p') \<and>
    (case res of
       BindErr e \<Rightarrow> pool_ok us cl p'
     | BindAgain \<Rightarrow> pool_ok us cl p'
     | BindRef j \<Rightarrow> pool_ok us (insert (j, r) cl) p'
     | BindCold a m \<Rightarrow> a < length (heap p') \<and> SB_ID (at_addr p' a) = i \<and> pool_ok (insert i us) (insert (i, r) cl) p')"
proof (cases "r = []")
  case True
  with b ok show ?thesis by (auto simp: Bind_start_def)
next
  case r: False
  show ?thesis
  proof (cases "byRun p r")
    case (Some a)
    from pool_okD(3) [OF ok this] have "insert (SB_ID (at_addr p a), r) cl = cl" by blast
    with b r Some ok show ?thesis by (auto simp: Bind_start_def)
  next
    case None
    show ?thesis
    proof (cases "cls \<noteq> ClassInteractive \<and> cls \<noteq> ClassBatch")
      case True
      with b r None ok show ?thesis by (auto simp: Bind_start_def)
    next
      case cls: False
      show ?thesis
      proof (cases "if cls = ClassInteractive then ready p k else []")
        case (Cons j ids)
        then have rd: "ready p k = j # ids" by (simp split: if_splits)
        show ?thesis
        proof (cases "entries p j")
          case e: None
          have "pool_ok us cl (set_ready k ids p)"
            using pool_okD(4) [OF ok, of k] rd by (intro pool_ok_less_ready [OF ok]) auto
          with e b r None cls Cons show ?thesis by (auto simp: Bind_start_def set_ready_def)
        next
          case e: (Some a)
          note W = warm_bind_ok [OF ok rd e r]
          from e b r None cls Cons W show ?thesis by (auto simp: Bind_start_def set_ready_def Let_def)
        qed
      next
        case Nil
        let ?sb = "\<lparr>SB_ID = i, SB_Key = k, SB_State = StateWarming, SB_BoundRun = r, SB_CreatedAt = Some now, SB_ReadyAt = None\<rparr>"
        obtain a p1 where n: "new_at ?sb p = (a, p1)" by fastforce
        from b r None cls Nil n cold_bind_ok [OF ok new r n] show ?thesis by (auto simp: Bind_start_def)
      qed
    qed
  qed
qed

text \<open>The later lock sections, of sandboxes that a run claimed.\<close>

lemma Bind_booted_ok:
  assumes "pool_ok us cl p" and "a < length (heap p)" and "SB_ID (at_addr p a) = i" and "(i, r) \<in> cl"
  shows "keeps us cl p (snd (Bind_booted r i a err p)) \<and> fst (Bind_booted r i a err p) \<in> {None, Some (Inr i)} \<union> range (\<lambda>e. Some (Inl e))"
proof -
  have c: "SB_ID (at_addr p a) \<in> fst ` cl" using assms(3,4) by force
  have "pool_ok us cl (set_at a (\<lambda>sb. sb\<lparr>SB_State := StateBound\<rparr>) p)"
    by (rule pool_ok_set_at [OF assms(1,2)]) (use claimed_unready [OF assms(1,2) c] in \<open>simp_all add: owned_ok_def\<close>)
  then show ?thesis
    using assms(1) by (auto simp: Bind_booted_def keeps_def spent_def intro!: pool_intro grows_set_at)
qed

lemma parked_ok: "pool_ok us cl q \<Longrightarrow> a < length (heap q) \<Longrightarrow> SB_ID (at_addr q a) = i \<Longrightarrow> pool_ok us cl (park k a (track i a q))"
  by (intro pool_intro) simp_all

lemma drained_ok:
  assumes "pool_ok us cl p" and "a < length (heap p)" and "SB_ID (at_addr p a) = i" and "unready p a"
    and "SB_ID (f (at_addr p a)) = i" and "SB_Key (f (at_addr p a)) = SB_Key (at_addr p a)" and "SB_State (f (at_addr p a)) = StateDraining"
  shows "pool_ok us cl (set_at a f p)" and "grows (heap p) (heap (set_at a f p))"
  by (rule pool_ok_set_at [OF assms(1,2)], use assms in \<open>simp_all add: owned_ok_def grows_set_at spent_def\<close>)

lemma Bind_cleaned_ok:
  assumes "pool_ok us cl p" and "a < length (heap p)" and "SB_ID (at_addr p a) = i" and "i \<in> fst ` cl"
  shows "keeps us cl p (snd (Bind_cleaned k i a err p))"
proof -
  let ?f = "\<lambda>sb. sb\<lparr>SB_State := StateDraining, SB_BoundRun := []\<rparr>"
  have D: "pool_ok us cl (set_at a ?f p)" "grows (heap p) (heap (set_at a ?f p))"
    by (rule drained_ok [OF assms(1-3)]; use claimed_unready [OF assms(1,2)] assms in simp)+
  have "pool_ok us cl (park k a (track i a (set_at a ?f p)))"
    by (rule parked_ok [OF D(1)]) (use assms in simp_all)
  then show ?thesis using D assms(1) by (auto simp: Bind_cleaned_def keeps_def)
qed

lemma Release_start_ok:
  assumes "pool_ok us cl p" and "Release_start r p = (out, p')"
  shows "keeps us cl p p' \<and> (\<forall>a i k. out = Some (a, i, k) \<longrightarrow> a < length (heap p) \<and> SB_ID (at_addr p a) = i \<and> (i, r) \<in> cl)"
proof (cases "byRun p r")
  case None
  with assms show ?thesis by (auto simp: Release_start_def keeps_def)
next
  case (Some a)
  let ?q = "untrack (SB_ID (at_addr p a)) (unbind_run r p)"
  have "pool_ok us cl ?q" using assms(1) by (intro pool_intro)
  moreover have "ready ?q = ready p" by (simp add: untrack_def unbind_run_def)
  ultimately have "pool_ok us cl (set_ready k (filter (\<lambda>x. x \<noteq> SB_ID (at_addr p a)) (ready p k)) ?q)" for k
    using pool_okD(4) [OF assms(1)] by (intro pool_ok_less_ready) auto
  with Some pool_okD(3) [OF assms(1) Some] assms(2) show ?thesis by (auto simp: Release_start_def keeps_def Let_def)
qed

lemma Release_done_ok:
  assumes "pool_ok us cl p" and "a < length (heap p)" and "SB_ID (at_addr p a) = i" and "(i, r) \<in> cl"
  shows "keeps us cl p (snd (Release_done r a i k err p))"
proof (cases err)
  case False
  with assms show ?thesis by (simp add: Release_done_def keeps_def)
next
  case True
  let ?f = "\<lambda>sb. sb\<lparr>SB_State := StateDraining\<rparr>" and ?g = "\<lambda>sb. sb\<lparr>SB_BoundRun := []\<rparr>"
  let ?p1 = "set_at a ?f p"
  have c: "i \<in> fst ` cl" using assms(4) by force
  have D: "pool_ok us cl ?p1" "grows (heap p) (heap ?p1)"
    by (rule drained_ok [OF assms(1-3)]; use claimed_unready [OF assms(1,2)] assms c in simp)+
  have at: "SB_ID (at_addr ?p1 a) = i" "SB_State (at_addr ?p1 a) = StateDraining" "a < length (heap ?p1)" using assms(2,3) by simp_all
  have G: "pool_ok us cl (set_at a ?g ?p1)" "grows (heap ?p1) (heap (set_at a ?g ?p1))"
    by (rule drained_ok [OF D(1) at(3,1)]; use at unready_state [OF D(1) at(3)] in simp)+
  have "pool_ok us cl (bind_run r a ?p1)" using D(1) at assms(4) by (intro pool_intro) simp_all
  then have "pool_ok us cl (park k a (track i a (bind_run r a ?p1)))" by (rule parked_ok) (use at in simp_all)
  moreover have "pool_ok us cl (park k a (track i a (set_at a ?g ?p1)))" by (rule parked_ok [OF G(1)]) (use assms in simp_all)
  ultimately show ?thesis using True D G(2) grows_trans by (fastforce simp: Release_done_def keeps_def Let_def)
qed

text \<open>Readiness, adoption and boots.\<close>

lemma NotifyReady_ok:
  assumes "pool_ok us cl p"
  shows "keeps us cl p (NotifyReady i now p)"
proof (cases "entries p i")
  case None
  with assms show ?thesis by (simp add: NotifyReady_def keeps_def)
next
  case (Some a)
  note a = pool_okD(2) [OF assms Some]
  show ?thesis
  proof (cases "SB_State (at_addr p a) = StateWarming")
    case False
    with Some assms show ?thesis by (simp add: NotifyReady_def keeps_def)
  next
    case w: True
    have un: "unready p a" using unready_state [OF assms] a w by simp
    have own: "owned_ok cl (at_addr p a)" using pool_heapD(2) [OF assms] a by blast
    let ?r = "\<lambda>sb. sb\<lparr>SB_ReadyAt := Some now\<rparr>" and ?f = "\<lambda>sb. sb\<lparr>SB_State := StateReady, SB_ReadyAt := Some now\<rparr>"
    have R: "pool_ok us cl (set_at a ?r p)"
      by (rule pool_ok_set_at [OF assms]) (use a un own in \<open>auto simp: owned_ok_def\<close>)
    show ?thesis
    proof (cases "SB_BoundRun (at_addr p a) = []")
      case False
      with Some w R show ?thesis by (simp add: NotifyReady_def keeps_def Let_def grows_set_at spent_def)
    next
      case True
      let ?q = "set_at a ?f p"
      have q: "pool_ok us cl ?q"
        by (rule pool_ok_set_at [OF assms]) (use a own True w in \<open>auto simp: owned_ok_def\<close>)
      have rq: "ready ?q = ready p" by (simp add: set_at_def)
      have "pool_ok us cl (set_ready (SB_Key (at_addr p a)) (ready ?q (SB_Key (at_addr p a)) @ [SB_ID (at_addr p a)]) ?q)"
        by (rule pool_ok_more_ready [OF q, of a]) (use a un in \<open>auto simp: unready_def rq\<close>)
      with Some w True show ?thesis by (simp add: NotifyReady_def keeps_def Let_def grows_set_at spent_def rq)
    qed
  qed
qed

lemma Adopt_ok:
  assumes "pool_ok us cl p" and "SB_ID sb \<in> dom (entries p) \<or> SB_ID sb \<notin> us"
  shows "keeps (insert (SB_ID sb) us) cl p (snd (Adopt sb now p))"
proof (cases "entries p (SB_ID sb)")
  case (Some a)
  then have "SB_ID sb \<in> us" using pool_okD(2) [OF assms(1) Some] pool_heapD(1) [OF assms(1), of a] by simp
  with Some assms(1) show ?thesis by (simp add: Adopt_def keeps_def insert_absorb)
next
  case None
  let ?sb = "adopted now sb"
  have id: "SB_ID ?sb = SB_ID sb" "SB_Key ?sb = SB_Key sb" "SB_State ?sb = StateReady" by (simp_all add: adopted_def Let_def)
  have new: "SB_ID ?sb \<notin> us" using assms(2) None id by auto
  obtain a p1 where n: "new_at ?sb p = (a, p1)" by fastforce
  note N = pool_ok_new_track [OF assms(1) new n]
  have "SB_ID sb \<notin> set (ready p k)" for k
    using pool_okD(5) [OF assms(1), of "SB_ID sb" k] pool_heapD(1) [OF assms(1)] new id(1) by metis
  then have "pool_ok (insert (SB_ID sb) us) cl
      (set_ready (SB_Key sb) (ready (track (SB_ID sb) a p1) (SB_Key sb) @ [SB_ID sb]) (track (SB_ID sb) a p1))"
    using N id by (intro pool_ok_more_ready [of _ _ _ a]) (simp_all add: track_def)
  then show ?thesis using None n N(3) by (simp add: Adopt_def keeps_def track_def set_ready_def)
qed

lemma Boot_start_ok:
  assumes "pool_ok us cl p" and "i \<notin> us"
  shows "keeps (insert i us) cl p (Boot_start k i now p)"
proof -
  let ?sb = "\<lparr>SB_ID = i, SB_Key = k, SB_State = StateWarming, SB_BoundRun = [], SB_CreatedAt = Some now, SB_ReadyAt = None\<rparr>"
  obtain a p1 where n: "new_at ?sb p = (a, p1)" by fastforce
  from pool_ok_new_track [OF assms(1) _ n, simplified, OF assms(2)] n show ?thesis by (simp add: Boot_start_def keeps_def)
qed

lemma Boot_done_ok: "pool_ok us cl p \<Longrightarrow> keeps us cl p (snd (Boot_done i err p))"
  by (simp add: Boot_done_def keeps_def pool_ok_untrack)

text \<open>Draining and scale-down.\<close>

lemma pool_ok_draining:
  "pool_ok us cl p \<Longrightarrow> \<forall>a \<in> set as. a < length (heap p) \<Longrightarrow> pool_ok us cl (p\<lparr>draining := (draining p)(k := as)\<rparr>)"
  by (simp add: pool_ok_def)

lemma retryDraining_start_ok:
  assumes "pool_ok us cl p" and "retryDraining_start k p = (att, p')"
  shows "keeps us cl p p' \<and> (\<forall>a \<in> set att. a < length (heap p'))"
proof -
  have "a < length (heap p)" if "a \<in> set att" for a
  proof -
    from that assms(2) obtain b where "entries p (SB_ID (at_addr p b)) = Some a"
      by (auto simp: retryDraining_start_def split: option.splits)
    then show ?thesis using pool_okD(2) [OF assms(1)] by blast
  qed
  then show ?thesis
    using assms pool_ok_draining [OF assms(1), of "[]" k] by (auto simp: retryDraining_start_def keeps_def)
qed

lemma drop_drained_ok: "pool_ok us cl p \<Longrightarrow> pool_ok us cl (foldl (drop_drained keep) p as) \<and> heap (foldl (drop_drained keep) p as) = heap p"
proof (induction as arbitrary: p)
  case (Cons a as)
  have "pool_ok us cl (drop_drained keep p a)" "heap (drop_drained keep p a) = heap p"
    using Cons.prems by (auto simp: drop_drained_def Let_def intro: pool_ok_untrack split: option.splits)
  with Cons.IH [of "drop_drained keep p a"] show ?case by simp
qed simp

lemma retryDraining_done_ok:
  assumes "pool_ok us cl p" and "\<forall>a \<in> set still. a < length (heap p)"
  shows "keeps us cl p (snd (retryDraining_done k att still p))"
proof -
  have "pool_ok us cl (p\<lparr>draining := (draining p)(k := still @ draining p k)\<rparr>)"
    using assms pool_okD(6) [OF assms(1)] by (intro pool_ok_draining) auto
  from drop_drained_ok [OF this] show ?thesis by (simp add: retryDraining_done_def keeps_def Let_def)
qed

lemma take_victims_ok:
  assumes "pool_ok us cl p" and "\<forall>a \<in> set vs. a < length (heap p) \<and> unready p a"
  shows "keeps us cl p (take_victims k vs p)"
proof -
  have "pool_ok us cl (foldl (drain_victim k) p vs) \<and> grows (heap p) (heap (foldl (drain_victim k) p vs))"
    using assms
  proof (induction vs arbitrary: p)
    case (Cons a vs)
    let ?p = "drain_victim k p a"
    have D: "pool_ok us cl (set_at a (\<lambda>sb. sb\<lparr>SB_State := StateDraining\<rparr>) p)"
        "grows (heap p) (heap (set_at a (\<lambda>sb. sb\<lparr>SB_State := StateDraining\<rparr>) p))"
      by (rule drained_ok [OF Cons.prems(1) _ refl]; use Cons.prems(2) in simp)+
    have p: "pool_ok us cl ?p" using D(1) Cons.prems(2) by (simp add: drain_victim_def pool_ok_park)
    have g: "grows (heap p) (heap ?p)" using D(2) by (simp add: drain_victim_def)
    have "ready ?p = ready p" by (simp add: drain_victim_def set_at_def park_def)
    moreover have "length (heap ?p) = length (heap p)" by (simp add: drain_victim_def)
    moreover have "SB_ID (at_addr ?p b) = SB_ID (at_addr p b)" if "b < length (heap p)" for b
      using g that by (simp add: grows_def)
    ultimately have "\<forall>b \<in> set vs. b < length (heap ?p) \<and> unready ?p b"
      using Cons.prems(2) by (simp add: unready_def)
    from Cons.IH [OF p this] g show ?case using grows_trans by fastforce
  qed simp
  moreover have "pool_ok us cl (foldl untrack_victim p vs) \<and> heap (foldl untrack_victim p vs) = heap p"
    using assms(1)
  proof (induction vs arbitrary: p)
    case (Cons a vs)
    from Cons.IH [of "untrack_victim p a"] Cons.prems show ?case by (simp add: untrack_victim_def pool_ok_untrack)
  qed simp
  ultimately show ?thesis by (simp add: take_victims_def keeps_def)
qed

lemma take_victims_heap: "length (heap (take_victims k vs p)) = length (heap p)"
proof -
  have "length (heap (foldl (drain_victim k) p vs)) = length (heap p)" for p
    by (induction vs arbitrary: p) (simp_all add: drain_victim_def)
  moreover have "heap (foldl untrack_victim p vs) = heap p" for p
    by (induction vs arbitrary: p) (simp_all add: untrack_victim_def)
  ultimately show ?thesis by (simp add: take_victims_def)
qed

lemma pick_victims_prefix:
  assumes ok: "pool_ok us cl p" and "pick_victims p n ids = (vs, rest)"
  shows "\<exists>pre. ids = pre @ rest \<and> (\<forall>a \<in> set vs. a < length (heap p) \<and> SB_ID (at_addr p a) \<in> set pre)"
  using assms(2)
proof (induction ids arbitrary: n vs rest)
  case Nil
  then show ?case by (cases n) auto
next
  case (Cons i ids)
  show ?case
  proof (cases n)
    case 0
    with Cons.prems show ?thesis by auto
  next
    case (Suc m)
    have skip: ?thesis if s: "pick_victims p n ids = (vs, rest)"
    proof -
      obtain pre where "ids = pre @ rest" "\<forall>a \<in> set vs. a < length (heap p) \<and> SB_ID (at_addr p a) \<in> set pre"
        using Cons.IH [OF s] by blast
      then show ?thesis by (intro exI [of _ "i # pre"]) auto
    qed
    show ?thesis
    proof (cases "entries p i")
      case None
      with Cons.prems Suc show ?thesis by (intro skip) simp
    next
      case e: (Some a)
      show ?thesis
      proof (cases "SB_State (at_addr p a) = StateReady")
        case False
        with e Cons.prems Suc show ?thesis by (intro skip) simp
      next
        case True
        obtain vs' where v: "pick_victims p m ids = (vs', rest)" "vs = a # vs'"
          using Cons.prems Suc e True by (auto split: prod.splits)
        obtain pre where "ids = pre @ rest" "\<forall>b \<in> set vs'. b < length (heap p) \<and> SB_ID (at_addr p b) \<in> set pre"
          using Cons.IH [OF v(1)] by blast
        then show ?thesis using pool_okD(2) [OF ok e] v(2) by (intro exI [of _ "i # pre"]) auto
      qed
    qed
  qed
qed

lemma ScaleDown_pick_ok:
  assumes ok: "pool_ok us cl p" and "ScaleDown_pick k n p = (vs, p')"
  shows "keeps us cl p p' \<and> (\<forall>a \<in> set vs. a < length (heap p'))"
proof -
  obtain rest where v: "pick_victims p n (ready p k) = (vs, rest)" and p': "p' = take_victims k vs (set_ready k rest p)"
    using assms(2) by (auto simp: ScaleDown_pick_def split: prod.splits)
  obtain pre where pre: "ready p k = pre @ rest" "\<forall>a \<in> set vs. a < length (heap p) \<and> SB_ID (at_addr p a) \<in> set pre"
    using pick_victims_prefix [OF ok v] by blast
  have d: "distinct (pre @ rest)" using pool_okD(4) [OF ok, of k] pre(1) by simp
  have q: "pool_ok us cl (set_ready k rest p)" by (rule pool_ok_less_ready [OF ok]) (use d pre(1) in simp_all)
  have "unready (set_ready k rest p) a" if a: "a \<in> set vs" for a
    unfolding unready_def
  proof
    fix k'
    have i: "a < length (heap p)" "SB_ID (at_addr p a) \<in> set (ready p k)" using a pre by auto
    obtain b where b: "b < length (heap p)" "SB_ID (at_addr p b) = SB_ID (at_addr p a)" "SB_Key (at_addr p b) = k"
      using pool_okD(5) [OF ok i(2)] by blast
    then have "b = a" using pool_id_unique [OF ok b(1) i(1)] by simp
    then have ka: "SB_Key (at_addr p a) = k" using b(3) by simp
    show "SB_ID (at_addr (set_ready k rest p) a) \<notin> set (ready (set_ready k rest p) k')"
    proof (cases "k' = k")
      case True
      then show ?thesis using a pre d by (auto simp: set_ready_def)
    next
      case False
      then show ?thesis using pool_okD(5) [OF ok, of "SB_ID (at_addr p a)" k'] pool_id_unique [OF ok _ i(1)] ka
        by (auto simp: set_ready_def)
    qed
  qed
  then have "keeps us cl (set_ready k rest p) p'" unfolding p' using pre(2) by (intro take_victims_ok [OF q]) simp
  then show ?thesis using pre(2) by (auto simp: keeps_def p' take_victims_heap)
qed

lemma Reap_pick_ok:
  assumes ok: "pool_ok us cl p" and "ReapStaleWarming_pick k maxAge now order p = (vs, p')"
  shows "keeps us cl p p' \<and> (\<forall>a \<in> set vs. a < length (heap p'))"
proof (cases "maxAge \<le> 0")
  case True
  with assms show ?thesis by (auto simp: ReapStaleWarming_pick_def keeps_def)
next
  case False
  then have p': "p' = take_victims k vs p"
    and vs: "vs = filter (\<lambda>a. stale_warming k now maxAge (at_addr p a)) (List.map_filter (entries p) order)"
    using assms(2) by (auto simp: ReapStaleWarming_pick_def Let_def)
  have "a < length (heap p) \<and> unready p a" if av: "a \<in> set vs" for a
  proof -
    have w: "SB_State (at_addr p a) = StateWarming" using av vs by (simp add: stale_warming_def)
    obtain i where "entries p i = Some a" using av vs by (auto simp: List.map_filter_def)
    then have "a < length (heap p)" using pool_okD(2) [OF ok] by blast
    with unready_state [OF ok] w show ?thesis by simp
  qed
  then show ?thesis using take_victims_ok [OF ok, of vs k] by (simp add: p' take_victims_heap)
qed

lemma victim_gone_ok: "pool_ok us cl p \<Longrightarrow> keeps us cl p (victim_gone a p)"
  by (simp add: victim_gone_def untrack_victim_def keeps_def pool_ok_untrack)

section \<open>Every interleaving keeps the invariant\<close>

definition advances :: "sys \<Rightarrow> sys \<Rightarrow> bool" where
  "advances s s' \<longleftrightarrow> sys_ok s' \<and> grows (heap (pool s)) (heap (pool s')) \<and> claimed s \<subseteq> claimed s'"

lemma advances_order [simp]: "advances s (s\<lparr>pool := p, calls := cs\<rparr>) = advances s (s\<lparr>calls := cs, pool := p\<rparr>)"
  by (simp add: advances_def sys_ok_def)

lemma sys_ok_step:
  assumes "sys_ok s" and "keeps (used s) (claimed s) (pool s) p'" and "\<forall>c \<in> set cs. c \<in> set (calls s) \<or> call_ok (claimed s) (heap p') c"
  shows "advances s (s\<lparr>calls := cs, pool := p'\<rparr>)"
proof -
  have "call_ok (claimed s) (heap p') c" if "c \<in> set cs" for c
  proof (cases "c \<in> set (calls s)")
    case True
    then have "call_ok (claimed s) (heap (pool s)) c" using assms(1) by (simp add: sys_ok_def)
    then show ?thesis by (rule call_ok_grows) (use assms(2) in \<open>simp_all add: keeps_def\<close>)
  qed (use assms(3) that in blast)
  with assms(1,2) show ?thesis by (simp add: advances_def sys_ok_def keeps_def)
qed

lemma sys_ok_swap_call:
  assumes "sys_ok s" and "keeps (used s) (claimed s) (pool s) p'" and "calls s = xs @ c # ys" and "call_ok (claimed s) (heap p') c'"
  shows "advances s (s\<lparr>calls := xs @ c' # ys, pool := p'\<rparr>)"
  by (rule sys_ok_step [OF assms(1,2)]) (use assms(3,4) in auto)

lemma sys_ok_bind_started:
  assumes s: "sys_ok s" and new: "i \<notin> used s"
  shows "advances s (bind_started r k i (Bind_start r k cls i now (pool s)) s)"
proof -
  obtain res p' where b: "Bind_start r k cls i now (pool s) = (res, p')" by fastforce
  have ok: "pool_ok (used s) (claimed s) (pool s)" using s by (simp add: sys_ok_def)
  note B = Bind_start_ok [OF ok new b]
  have calls: "\<forall>c \<in> set (calls s). call_ok (claimed s) (heap p') c" "\<forall>c \<in> set (calls s). call_ok (insert x (claimed s)) (heap p') c" for x
    using call_ok_grows [of "claimed s" "heap (pool s)" _ "heap p'"] s B by (simp_all add: sys_ok_def subset_insertI)
  show ?thesis
  proof (cases res)
    case (BindErr e)
    with s B b calls show ?thesis by (simp add: advances_def sys_ok_def)
  next
    case (BindRef j)
    with s B b calls show ?thesis by (auto simp: advances_def sys_ok_def)
  next
    case BindAgain
    with s B b calls show ?thesis by (simp add: advances_def sys_ok_def)
  next
    case (BindCold a m)
    with s B b calls show ?thesis by (auto simp: advances_def sys_ok_def)
  qed
qed

lemma sys_ok_bind_booted:
  assumes s: "sys_ok s" and c: "calls s = xs @ CBind r k i a miss # ys"
  shows "advances s (bind_booted r k i a (Bind_booted r i a err (pool s)) (s\<lparr>calls := xs @ ys\<rparr>))"
proof -
  obtain out p' where b: "Bind_booted r i a err (pool s) = (out, p')" by fastforce
  have ok: "pool_ok (used s) (claimed s) (pool s)" and C: "call_ok (claimed s) (heap (pool s)) (CBind r k i a miss)"
    using s c by (simp_all add: sys_ok_def)
  have K: "keeps (used s) (claimed s) (pool s) p'" and out: "out \<in> {None, Some (Inr i)} \<union> range (\<lambda>e. Some (Inl e))"
    using Bind_booted_ok [OF ok, of a i r err] C b by simp_all
  have "a < length (heap p') \<and> SB_ID (at_addr p' a) = i" using K C by (auto simp: keeps_def grows_def)
  then have clean: "call_ok (claimed s) (heap p') (CClean k i a)" using C by (force simp: image_iff)
  have S: "advances s (s\<lparr>calls := xs @ ys @ zs, pool := p'\<rparr>)" if "zs = [] \<or> zs = [CClean k i a]" for zs
    by (rule sys_ok_step [OF s K]) (use that c clean in \<open>auto simp del: call_ok.simps\<close>)
  consider "out = None" | "out = Some (Inr i)" | e where "out = Some (Inl e)" using out by auto
  then show ?thesis
  proof cases
    case 1
    with S [of "[CClean k i a]"] b show ?thesis by (simp add: advances_def sys_ok_def)
  next
    case 2
    with S [of "[]"] b C show ?thesis by (auto simp: advances_def sys_ok_def)
  next
    case 3
    with S [of "[]"] b show ?thesis by (simp add: advances_def sys_ok_def)
  qed
qed

lemma pool_step_ok:
  assumes "pool_step s s'" and "sys_ok s"
  shows "advances s s'"
proof -
  have ok: "pool_ok (used s) (claimed s) (pool s)" using assms(2) by (simp add: sys_ok_def)
  have call: "call_ok (claimed s) (heap (pool s)) c" if "c \<in> set (calls s)" for c using assms(2) that by (simp add: sys_ok_def)
  have same: "keeps (used s) (claimed s) (pool s) (pool s)" using ok by (simp add: keeps_def)
  note step = sys_ok_step [OF assms(2)] and swap = sys_ok_swap_call [OF assms(2)]
  from assms(1) show ?thesis
  proof cases
    case (bind_start newID r k cls now)
    then show ?thesis using sys_ok_bind_started [OF assms(2)] by simp
  next
    case (bind_boot xs r k i a miss ys err)
    then show ?thesis using sys_ok_bind_booted [OF assms(2)] by simp
  next
    case (bind_clean xs k i a ys err)
    have "keeps (used s) (claimed s) (pool s) (snd (Bind_cleaned k i a err (pool s)))"
      using Bind_cleaned_ok [OF ok] call [of "CClean k i a"] bind_clean by simp
    from step [OF this, of "xs @ ys"] bind_clean show ?thesis by auto
  next
    case (notify i now)
    from step [OF NotifyReady_ok [OF ok], of "calls s" i now] notify show ?thesis by simp
  next
    case (adopt sb now)
    have K: "keeps (insert (SB_ID sb) (used s)) (claimed s) (pool s) (snd (Adopt sb now (pool s)))" by (rule Adopt_ok [OF ok adopt(2)])
    then have "\<forall>c \<in> set (calls s). call_ok (claimed s) (heap (snd (Adopt sb now (pool s)))) c"
      using call call_ok_grows [of "claimed s" "heap (pool s)"] by (simp add: keeps_def)
    with K adopt(1) assms(2) show ?thesis by (simp add: advances_def sys_ok_def keeps_def)
  next
    case (release_noop r p)
    with step [of p "calls s"] Release_start_ok [OF ok release_noop(2)] show ?thesis by simp
  next
    case (release_start r a i k p)
    note R = Release_start_ok [OF ok release_start(2)]
    then have "a < length (heap p) \<and> SB_ID (at_addr p a) = i \<and> (i, r) \<in> claimed s" by (auto simp: keeps_def grows_def)
    with step [of p "calls s @ [CRelease r a i k]"] R release_start show ?thesis by auto
  next
    case (release_done xs r a i k ys err)
    have "keeps (used s) (claimed s) (pool s) (snd (Release_done r a i k err (pool s)))"
      using Release_done_ok [OF ok] call [of "CRelease r a i k"] release_done by simp
    from step [OF this, of "xs @ ys"] release_done show ?thesis by auto
  next
    case (scale_start n k att p)
    with step [of p "calls s @ [CRetry k att att [] n]"] retryDraining_start_ok [OF ok scale_start(3)] show ?thesis by auto
  next
    case (retry_one xs k att a todo still n ys err)
    then have "call_ok (claimed s) (heap (pool s)) (CRetry k att todo (if err then still @ [a] else still) n)"
      using call [of "CRetry k att (a # todo) still n"] by simp
    from swap [OF same retry_one(2) this] retry_one(1) show ?thesis by simp
  next
    case (retry_done xs k att still n ys)
    have "keeps (used s) (claimed s) (pool s) (snd (retryDraining_done k att still (pool s)))"
      using retryDraining_done_ok [OF ok] call [of "CRetry k att [] still n"] retry_done by simp
    from step [OF this, of "xs @ CPick k n # ys"] retry_done show ?thesis by auto
  next
    case (scale_pick xs k n ys vs p)
    note P = ScaleDown_pick_ok [OF ok scale_pick(3)]
    then have "call_ok (claimed s) (heap p) (CVictims (if provisioner p then vs else []))" by simp
    from swap [OF _ scale_pick(2) this] P scale_pick(1) show ?thesis by simp
  next
    case (reap order k maxAge now vs p)
    note P = Reap_pick_ok [OF ok reap(4)]
    then have "\<forall>c \<in> set (calls s @ [CVictims (if provisioner p then vs else [])]). c \<in> set (calls s) \<or> call_ok (claimed s) (heap p) c"
      by auto
    from step [OF _ this] P reap(1) show ?thesis by simp
  next
    case (victim xs a vs ys err)
    let ?p = "if err then pool s else victim_gone a (pool s)"
    have K: "keeps (used s) (claimed s) (pool s) ?p" using same victim_gone_ok [OF ok] by simp
    have "call_ok (claimed s) (heap ?p) (CVictims vs)"
      using call [of "CVictims (a # vs)"] victim by (simp add: victim_gone_def untrack_victim_def)
    from swap [OF K victim(2) this] victim(1) show ?thesis by simp
  next
    case (boot_start newID k now)
    have K: "keeps (insert newID (used s)) (claimed s) (pool s) (Boot_start k newID now (pool s))" by (rule Boot_start_ok [OF ok boot_start(2)])
    then have "\<forall>c \<in> set (calls s). call_ok (claimed s) (heap (Boot_start k newID now (pool s))) c"
      using call call_ok_grows [of "claimed s" "heap (pool s)"] by (simp add: keeps_def)
    with K boot_start(1) assms(2) show ?thesis by (simp add: advances_def sys_ok_def keeps_def)
  next
    case (boot_done xs i ys err)
    from step [OF Boot_done_ok [OF ok], of "xs @ ys" i err] boot_done show ?thesis by auto
  qed
qed

lemma start_ok: "sys_ok (start prov)"
  by (simp add: start_def sys_ok_def pool_ok_def heap_ok_def NewPool_def single_valued_def)

lemma reach_ok:
  assumes "pool_step\<^sup>*\<^sup>* s s'" and "sys_ok s"
  shows "advances s s'"
  using assms
proof (induction rule: rtranclp_induct)
  case base
  then show ?case by (simp add: advances_def)
next
  case (step s1 s2)
  then have "advances s s1" "advances s1 s2" using pool_step_ok by (auto simp: advances_def)
  then show ?case using grows_trans by (fastforce simp: advances_def)
qed

section \<open>Concrete histories\<close>

definition a_key :: PoolKey where
  "a_key = \<lparr>RuntimeClass = ''gvisor'', Image = ''agent'', Namespace = ''team'', CapabilityHash = [], ProjectPVC = []\<rparr>"

text \<open>A run binds cold under a given id, and a boot in flight at a given position of the call list ends.\<close>

definition do_bind :: "string \<Rightarrow> string \<Rightarrow> sys \<Rightarrow> sys" where
  "do_bind r i s = bind_started r a_key i (Bind_start r a_key ClassBatch i 0 (pool s)) s"

definition do_boot :: "nat \<Rightarrow> bool \<Rightarrow> sys \<Rightarrow> sys" where
  "do_boot n err s =
     (case calls s ! n of
        CBind r k i a m \<Rightarrow> bind_booted r k i a (Bind_booted r i a err (pool s)) (s\<lparr>calls := take n (calls s) @ drop (Suc n) (calls s)\<rparr>)
      | _ \<Rightarrow> s)"

definition do_release :: "string \<Rightarrow> sys \<Rightarrow> sys" where
  "do_release r s =
     (case Release_start r (pool s) of
        (None, p) \<Rightarrow> s\<lparr>pool := p\<rparr>
      | (Some (a, i, k), p) \<Rightarrow> s\<lparr>pool := p, calls := calls s @ [CRelease r a i k]\<rparr>)"

definition do_torn :: "nat \<Rightarrow> bool \<Rightarrow> sys \<Rightarrow> sys" where
  "do_torn n err s =
     (case calls s ! n of
        CRelease r a i k \<Rightarrow>
          s\<lparr>calls := take n (calls s) @ drop (Suc n) (calls s), pool := snd (Release_done r a i k err (pool s))\<rparr>
      | _ \<Rightarrow> s)"

text \<open>A scale-down reaches the end of its retries, every teardown confirmed.\<close>

definition do_retry :: "sys \<Rightarrow> sys" where
  "do_retry s =
     (case retryDraining_start a_key (pool s) of
        (att, p) \<Rightarrow> s\<lparr>calls := calls s @ [CPick a_key 1], pool := snd (retryDraining_done a_key att [] p)\<rparr>)"

lemma reach_bind: "i \<notin> used s \<Longrightarrow> pool_step\<^sup>*\<^sup>* s (do_bind r i s)"
  unfolding do_bind_def by (blast intro: bind_start)

lemma split_at: "n < length xs \<Longrightarrow> xs = take n xs @ xs ! n # drop (Suc n) xs"
  by (rule id_take_nth_drop)

lemma reach_boot:
  assumes "n < length (calls s)" and "err \<longrightarrow> provisioner (pool s)"
  shows "pool_step\<^sup>*\<^sup>* s (do_boot n err s)"
proof (cases "calls s ! n")
  case (CBind r k i a m)
  with bind_boot [OF split_at [OF assms(1), unfolded CBind] assms(2)] show ?thesis by (simp add: do_boot_def r_into_rtranclp)
qed (simp_all add: do_boot_def)

lemma reach_torn:
  assumes "n < length (calls s)" and "err \<longrightarrow> provisioner (pool s)"
  shows "pool_step\<^sup>*\<^sup>* s (do_torn n err s)"
proof (cases "calls s ! n")
  case (CRelease r a i k)
  with release_done [OF split_at [OF assms(1), unfolded CRelease] assms(2)] show ?thesis by (simp add: do_torn_def r_into_rtranclp)
qed (simp_all add: do_torn_def)

lemma reach_release: "pool_step\<^sup>*\<^sup>* s (do_release r s)"
proof -
  obtain out p where o: "Release_start r (pool s) = (out, p)" by fastforce
  show ?thesis
  proof (cases out)
    case None
    with o release_noop [of r s p] show ?thesis by (simp add: do_release_def r_into_rtranclp)
  next
    case (Some x)
    obtain a i k where "x = (a, i, k)" by (metis prod_cases3)
    with o Some release_start [of r s a i k p] show ?thesis by (simp add: do_release_def r_into_rtranclp)
  qed
qed

lemma reach_retries:
  "calls s = xs @ CRetry k att todo [] n # ys \<Longrightarrow> pool_step\<^sup>*\<^sup>* s (s\<lparr>calls := xs @ CRetry k att [] [] n # ys\<rparr>)"
proof (induction todo arbitrary: s)
  case Nil
  then show ?case by (metis rtranclp.rtrancl_refl sys.surjective sys.update_convs(2))
next
  case (Cons a todo)
  let ?s = "s\<lparr>calls := xs @ CRetry k att todo [] n # ys\<rparr>"
  have "pool_step s ?s" using retry_one [OF Cons.prems, of False] by simp
  with Cons.IH [of ?s] show ?case by (simp add: converse_rtranclp_into_rtranclp)
qed

lemma reach_retry: "pool_step\<^sup>*\<^sup>* s (do_retry s)"
proof -
  obtain att p where p: "retryDraining_start a_key (pool s) = (att, p)" by fastforce
  let ?s1 = "s\<lparr>pool := p, calls := calls s @ [CRetry a_key att att [] 1]\<rparr>"
  let ?s2 = "?s1\<lparr>calls := calls s @ [CRetry a_key att [] [] 1]\<rparr>"
  have a: "pool_step s ?s1" using scale_start [of 1 a_key s att p] p by simp
  have b: "pool_step\<^sup>*\<^sup>* ?s1 ?s2" by (rule reach_retries) simp
  have "pool_step ?s2 (do_retry s)"
    using retry_done [of ?s2 "calls s" a_key att "[]" 1 "[]"] p by (simp add: do_retry_def)
  with a b show ?thesis by (meson converse_rtranclp_into_rtranclp rtranclp.rtrancl_into_rtrancl)
qed

text \<open>A history grows at its end.\<close>

lemma hist_bind: "pool_step\<^sup>*\<^sup>* s0 s \<Longrightarrow> i \<notin> used s \<Longrightarrow> pool_step\<^sup>*\<^sup>* s0 (do_bind r i s)"
  by (rule rtranclp_trans [OF _ reach_bind])

lemma hist_boot: "pool_step\<^sup>*\<^sup>* s0 s \<Longrightarrow> n < length (calls s) \<Longrightarrow> err \<longrightarrow> provisioner (pool s) \<Longrightarrow> pool_step\<^sup>*\<^sup>* s0 (do_boot n err s)"
  by (rule rtranclp_trans [OF _ reach_boot])

lemma hist_torn: "pool_step\<^sup>*\<^sup>* s0 s \<Longrightarrow> n < length (calls s) \<Longrightarrow> err \<longrightarrow> provisioner (pool s) \<Longrightarrow> pool_step\<^sup>*\<^sup>* s0 (do_torn n err s)"
  by (rule rtranclp_trans [OF _ reach_torn])

lemma hist_release: "pool_step\<^sup>*\<^sup>* s0 s \<Longrightarrow> pool_step\<^sup>*\<^sup>* s0 (do_release r s)"
  by (rule rtranclp_trans [OF _ reach_release])

lemma hist_retry: "pool_step\<^sup>*\<^sup>* s0 s \<Longrightarrow> pool_step\<^sup>*\<^sup>* s0 (do_retry s)"
  by (rule rtranclp_trans [OF _ reach_retry])

lemmas history = hist_bind hist_boot hist_torn hist_release hist_retry rtranclp.rtrancl_refl

section \<open>Properties\<close>

text \<open>
  C9. No sandbox is ever handed to two runs: whatever binds, releases, readiness events,
  adoptions, scale-downs and reaps interleave, lock section by lock section, and whatever the
  provisioner answers, two references to the same sandbox that the pool has ever returned were
  returned to the same run; and in every reachable state two different runs are indexed to
  different sandboxes.
\<close>

theorem no_double_handout:
  assumes "pool_step\<^sup>*\<^sup>* (start prov) s"
  shows "(\<forall>r r' i. (r, i) \<in> set (handed s) \<and> (r', i) \<in> set (handed s) \<longrightarrow> r = r') \<and>
    (\<forall>r r' a. byRun (pool s) r = Some a \<and> byRun (pool s) r' = Some a \<longrightarrow> r = r')"
proof -
  have s: "sys_ok s" using reach_ok [OF assms start_ok] by (simp add: advances_def)
  then have ok: "pool_ok (used s) (claimed s) (pool s)" by (simp add: sys_ok_def)
  have sv: "(i, r) \<in> claimed s \<Longrightarrow> (i, r') \<in> claimed s \<Longrightarrow> r = r'" for i r r'
    using pool_heapD(4) [OF ok] unfolding single_valued_def by blast
  have h: "(r, i) \<in> set (handed s) \<Longrightarrow> (i, r) \<in> claimed s" for r i using s by (simp add: sys_ok_def)
  show ?thesis using sv h pool_okD(3) [OF ok] by metis
qed

lemmas history_simps = start_def NewPool_def do_bind_def do_boot_def do_release_def do_torn_def do_retry_def
  Bind_start_def Bind_booted_def Release_start_def Release_done_def retryDraining_start_def retryDraining_done_def
  drop_drained_def pool_defs ClassBatch_def ClassInteractive_def Let_def a_key_def

theorem no_double_handout_witness:
  "\<exists>s. pool_step\<^sup>*\<^sup>* (start True) s \<and> handed s = [(''r'', ''a''), (''q'', ''b'')] \<and> single_valued ((set (handed s))\<inverse>)"
proof -
  let ?s1 = "do_boot 0 False (do_bind ''r'' ''a'' (start True))"
  let ?s2 = "do_boot 0 False (do_bind ''q'' ''b'' ?s1)"
  have s: "pool_step\<^sup>*\<^sup>* (start True) ?s2" by (intro history) (simp_all add: history_simps)
  have "handed ?s2 = [(''r'', ''a''), (''q'', ''b'')]" by (simp add: history_simps)
  moreover have "single_valued ((set (handed ?s2))\<inverse>)"
    using no_double_handout [OF s] unfolding single_valued_def converse_iff by blast
  ultimately show ?thesis using s by blast
qed

text \<open>
  Only untouched warmth is claimable: in every reachable state the Ready queues hold each id
  once, and every id in them is a sandbox of the queue's key in the Ready state that was never
  reserved for or handed to a run; and a sandbox that has once been bound, or for which a
  teardown has once been issued, is in no Ready queue then or in any later state.
\<close>

theorem ready_is_untouched:
  assumes "pool_step\<^sup>*\<^sup>* (start prov) s" and "pool_step\<^sup>*\<^sup>* s s'"
  shows "(\<forall>k. distinct (ready (pool s) k)) \<and>
    (\<forall>k i. i \<in> set (ready (pool s) k) \<longrightarrow> i \<notin> fst ` claimed s \<and>
      (\<exists>a < length (heap (pool s)). SB_ID (at_addr (pool s) a) = i \<and> SB_Key (at_addr (pool s) a) = k \<and>
        SB_State (at_addr (pool s) a) = StateReady)) \<and>
    (\<forall>a < length (heap (pool s)). SB_State (at_addr (pool s) a) \<in> {StateBound, StateDraining} \<or> SB_ID (at_addr (pool s) a) \<in> fst ` claimed s \<longrightarrow>
      (\<forall>k. SB_ID (at_addr (pool s) a) \<notin> set (ready (pool s') k)))"
proof -
  have s: "sys_ok s" using reach_ok [OF assms(1) start_ok] by (simp add: advances_def)
  then have ok: "pool_ok (used s) (claimed s) (pool s)" by (simp add: sys_ok_def)
  have adv: "advances s s'" by (rule reach_ok [OF assms(2) s])
  then have ok': "pool_ok (used s') (claimed s') (pool s')" by (simp add: advances_def sys_ok_def)
  have un: "i \<notin> fst ` claimed s" if "i \<in> set (ready (pool s) k)" for i k
    using pool_okD(5) [OF ok that] claimed_state(1) [OF ok] by blast
  have never: "SB_ID (at_addr (pool s) a) \<notin> set (ready (pool s') k)"
    if a: "a < length (heap (pool s))"
      and sp: "SB_State (at_addr (pool s) a) \<in> {StateBound, StateDraining} \<or> SB_ID (at_addr (pool s) a) \<in> fst ` claimed s" for a k
  proof -
    have a': "a < length (heap (pool s'))" "SB_ID (at_addr (pool s') a) = SB_ID (at_addr (pool s) a)"
      using adv a by (auto simp: advances_def grows_def)
    have "SB_State (at_addr (pool s') a) \<noteq> StateReady"
      using sp
    proof
      assume "SB_State (at_addr (pool s) a) \<in> {StateBound, StateDraining}"
      then have "spent (SB_State (at_addr (pool s') a))" using adv a by (auto simp: advances_def grows_def spent_def)
      then show ?thesis by (auto simp: spent_def)
    next
      assume "SB_ID (at_addr (pool s) a) \<in> fst ` claimed s"
      then have "SB_ID (at_addr (pool s') a) \<in> fst ` claimed s'" using adv a'(2) by (auto simp: advances_def)
      then show ?thesis by (rule claimed_state(1) [OF ok' a'(1)])
    qed
    from unready_state [OF ok' a'(1) this] a'(2) show ?thesis by (simp add: unready_def)
  qed
  show ?thesis using pool_okD(4,5) [OF ok] un never by blast
qed

theorem ready_is_untouched_witness:
  "\<exists>s. pool_step\<^sup>*\<^sup>* (start True) s \<and> SB_State (at_addr (pool s) 0) = StateBound \<and> ''a'' \<notin> set (ready (pool (do_release ''r'' s)) a_key)"
proof -
  let ?s1 = "do_boot 0 False (do_bind ''r'' ''a'' (start True))"
  have s: "pool_step\<^sup>*\<^sup>* (start True) ?s1" by (intro history) (simp_all add: history_simps)
  have b: "0 < length (heap (pool ?s1))" "SB_State (at_addr (pool ?s1) 0) = StateBound" "SB_ID (at_addr (pool ?s1) 0) = ''a''"
    by (simp_all add: history_simps)
  have "SB_ID (at_addr (pool ?s1) 0) \<notin> set (ready (pool (do_release ''r'' ?s1)) a_key)"
    using ready_is_untouched [OF s reach_release] b(1,2) by blast
  then have "''a'' \<notin> set (ready (pool (do_release ''r'' ?s1)) a_key)" unfolding b(3) .
  with s b(2) show ?thesis by blast
qed

text \<open>What a bind answers with: the reference, or the id it reserved for the boot.\<close>

definition bound_ref :: "string \<Rightarrow> bind_start \<Rightarrow> string option" where
  "bound_ref i res = (case res of BindRef j \<Rightarrow> Some j | BindCold a m \<Rightarrow> Some i | _ \<Rightarrow> None)"

lemma Bind_start_indexed:
  assumes "pool_ok us cl p" and "Bind_start r k cls i now p = (res, p')" and "bound_ref i res = Some j"
  shows "r \<noteq> [] \<and> (\<exists>a. byRun p' r = Some a \<and> SB_ID (at_addr p' a) = j)"
  using assms(2,3)
  by (auto simp: Bind_start_def bound_ref_def Let_def pool_defs nth_append split: if_splits option.splits list.splits)

text \<open>
  A bind is at most once per run: in every reachable state, after a bind of a run answered
  with a sandbox, warm, cold or reattached, every further bind of that run, under any key, class
  and id, gives that same sandbox and changes nothing, also while the cold boot is still in
  flight. A new interactive run takes the oldest ready sandbox of its key and starts no boot.
\<close>

theorem bind_is_idempotent:
  assumes "pool_step\<^sup>*\<^sup>* (start prov) s" and "Binder_Bind classify r i now (pool s) = (res, p)" and "bound_ref i res = Some j"
  shows "Bind_start r k' cls' i' now' p = (BindRef j, p) \<and>
    (\<forall>k x ids. classify r = Inr (k, ClassInteractive) \<and> byRun (pool s) r = None \<and> ready (pool s) k = x # ids \<and>
      entries (pool s) x \<noteq> None \<longrightarrow> res = BindRef x \<and> j = x \<and> ready p k = ids)"
proof -
  have ok: "pool_ok (used s) (claimed s) (pool s)"
    using reach_ok [OF assms(1) start_ok] by (simp add: advances_def sys_ok_def)
  obtain k cls where c: "classify r = Inr (k, cls)" and b: "Bind_start r k cls i now (pool s) = (res, p)"
    using assms(2,3) by (auto simp: Binder_Bind_def bound_ref_def split: sum.splits)
  obtain a where r: "r \<noteq> []" and a: "byRun p r = Some a" "SB_ID (at_addr p a) = j"
    using Bind_start_indexed [OF ok b assms(3)] by blast
  have "res = BindRef x \<and> j = x \<and> ready p k = ids"
    if cls: "cls = ClassInteractive" and n: "byRun (pool s) r = None" and rd: "ready (pool s) k = x # ids" and e: "entries (pool s) x = Some y" for x ids y
  proof -
    have "SB_ID (at_addr (pool s) y) = x" "y < length (heap (pool s))" using pool_okD(2) [OF ok e] by simp_all
    then show ?thesis using b cls n rd e r assms(3) by (auto simp: Bind_start_def Let_def pool_defs bound_ref_def)
  qed
  then show ?thesis using c r a by (auto simp: Bind_start_def)
qed

theorem bind_is_idempotent_witness:
  "\<exists>p a m. Binder_Bind (DefaultClassifier a_key ClassBatch) ''r'' ''a'' 0 (pool (start True)) = (BindCold a m, p) \<and>
     Bind_start ''r'' a_key ClassInteractive ''b'' 7 p = (BindRef ''a'', p)"
proof -
  obtain p a m where b: "Binder_Bind (DefaultClassifier a_key ClassBatch) ''r'' ''a'' 0 (pool (start True)) = (BindCold a m, p)"
    by (auto simp: Binder_Bind_def DefaultClassifier_def history_simps)
  have "bound_ref ''a'' (BindCold a m) = Some ''a''" by (simp add: bound_ref_def)
  from bind_is_idempotent [OF rtranclp.rtrancl_refl b this] b show ?thesis by blast
qed

text \<open>
  A failed boot can take a newer binding away: when a run is released and bound again while
  its first boot is still in flight, the rollback of that boot deletes the run's index entry
  although it belongs to the newer sandbox. The run's live sandbox is then bound but in no index,
  and the next bind of the run starts a second one.
\<close>

theorem rollback_unbinds_newer_sandbox:
  "\<exists>s. pool_step\<^sup>*\<^sup>* (start True) s \<and> handed s = [(''r'', ''b'')] \<and> byRun (pool s) ''r'' = None \<and>
     entries (pool s) ''b'' = Some 1 \<and> SB_State (at_addr (pool s) 1) = StateBound \<and> SB_BoundRun (at_addr (pool s) 1) = ''r'' \<and>
     handed (do_boot 0 False (do_bind ''r'' ''c'' s)) = [(''r'', ''b''), (''r'', ''c'')]"
proof -
  let ?s1 = "do_bind ''r'' ''a'' (start True)"
  let ?s3 = "do_torn 1 False (do_release ''r'' ?s1)"
  let ?s4 = "do_bind ''r'' ''b'' ?s3"
  let ?s5 = "do_boot 1 False ?s4"
  let ?s6 = "do_boot 0 True ?s5"
  have s: "pool_step\<^sup>*\<^sup>* (start True) ?s6" by (intro history) (simp_all add: history_simps)
  show ?thesis by (rule exI [of _ ?s6], intro conjI s) (simp_all add: history_simps)
qed

text \<open>
  A run whose release failed stays indexed to its draining sandbox; once a scale-down has
  confirmed the teardown the sandbox is gone from the inventory, and a bind of the run still
  returns it.
\<close>

lemma bind_returns_destroyed_sandbox:
  "\<exists>s. pool_step\<^sup>*\<^sup>* (start True) s \<and> entries (pool s) ''a'' = None \<and> Ref ''r'' (pool s) = ''a'' \<and>
     handed (do_bind ''r'' ''b'' s) = [(''r'', ''a''), (''r'', ''a'')]"
proof -
  let ?s1 = "do_bind ''r'' ''a'' (start True)"
  let ?s2 = "do_boot 0 False ?s1"
  let ?s3 = "do_release ''r'' ?s2"
  let ?s4 = "do_torn 0 True ?s3"
  have s: "pool_step\<^sup>*\<^sup>* (start True) (do_retry ?s4)" by (intro history) (simp_all add: history_simps)
  show ?thesis by (rule exI [of _ "do_retry ?s4"], intro conjI s) (simp_all add: history_simps Ref_def)
qed

end
