(* ===== verification/Go_Strings.thy ===== *)
theory Go_Strings
  imports Prelude
begin

text \<open>
  The functions of Go's strings package the sources use, on strings as lists of bytes:
  \<open>TrimSpace\<close> removes the white space of Unicode, here by the UTF-8 encodings of its
  characters.
\<close>

section \<open>White space\<close>

definition utf8_spaces :: "string list" where
  "utf8_spaces =
     [[CHR 0x09], [CHR 0x0A], [CHR 0x0B], [CHR 0x0C], [CHR 0x0D], [CHR 0x20], [CHR 0xC2, CHR 0x85], [CHR 0xC2, CHR 0xA0],
      [CHR 0xE1, CHR 0x9A, CHR 0x80], [CHR 0xE2, CHR 0x80, CHR 0x80], [CHR 0xE2, CHR 0x80, CHR 0x81],
      [CHR 0xE2, CHR 0x80, CHR 0x82], [CHR 0xE2, CHR 0x80, CHR 0x83], [CHR 0xE2, CHR 0x80, CHR 0x84],
      [CHR 0xE2, CHR 0x80, CHR 0x85], [CHR 0xE2, CHR 0x80, CHR 0x86], [CHR 0xE2, CHR 0x80, CHR 0x87],
      [CHR 0xE2, CHR 0x80, CHR 0x88], [CHR 0xE2, CHR 0x80, CHR 0x89], [CHR 0xE2, CHR 0x80, CHR 0x8A],
      [CHR 0xE2, CHR 0x80, CHR 0xA8], [CHR 0xE2, CHR 0x80, CHR 0xA9], [CHR 0xE2, CHR 0x80, CHR 0xAF],
      [CHR 0xE2, CHR 0x81, CHR 0x9F], [CHR 0xE3, CHR 0x80, CHR 0x80]]"

definition leading :: "string list \<Rightarrow> string \<Rightarrow> nat" where
  "leading ps s = (case find (\<lambda>p. take (length p) s = p) ps of None \<Rightarrow> 0 | Some p \<Rightarrow> length p)"

function strip_left :: "string list \<Rightarrow> string \<Rightarrow> string" where
  "strip_left ps s = (if s = [] \<or> leading ps s = 0 then s else strip_left ps (drop (leading ps s) s))"
  by pat_completeness auto
termination by (relation "measure (\<lambda>(ps, s). length s)") auto

declare strip_left.simps [simp del]

definition TrimSpace :: "string \<Rightarrow> string" where
  "TrimSpace s = rev (strip_left (map rev utf8_spaces) (rev (strip_left utf8_spaces s)))"

section \<open>Facts\<close>

lemma strip_left_suffix: "\<exists>p. s = p @ strip_left ps s"
proof (induction ps s rule: strip_left.induct)
  case (1 ps s)
  show ?case
  proof (cases "s = [] \<or> leading ps s = 0")
    case True
    then show ?thesis by (auto simp: strip_left.simps [of ps s])
  next
    case False
    obtain p where p: "drop (leading ps s) s = p @ strip_left ps (drop (leading ps s) s)" using 1 [OF False] by (elim exE)
    have "strip_left ps (drop (leading ps s) s) = strip_left ps s" using False by (simp add: strip_left.simps [of ps s])
    with p have "s = (take (leading ps s) s @ p) @ strip_left ps s" by (metis append.assoc append_take_drop_id)
    then show ?thesis by blast
  qed
qed

lemma strip_left_length: "length (strip_left ps s) \<le> length s"
proof -
  obtain p where p: "s = p @ strip_left ps s" using strip_left_suffix by blast
  show ?thesis by (subst (2) p) simp
qed

lemma TrimSpace_length: "length (TrimSpace s) \<le> length s"
  using strip_left_length [of "map rev utf8_spaces" "rev (strip_left utf8_spaces s)"] strip_left_length [of utf8_spaces s]
  by (simp add: TrimSpace_def)

end
