(* ===== verification/Work_Items.thy ===== *)
theory Work_Items
  imports Prod_Db Go_Strings
begin

text \<open>
  The tree of work items: the schema's guards on inserting and editing an item (primary and
  foreign keys, the self-parent check, the triggers that provision a claim row, inherit the
  parent's team and stamp the update; db/migrations/0001_coord_schema.sql), the bounded walks up
  and down the tree of pkg/coord/workitemwrite.go and workitemauthor.go, and what those walks
  decide.
\<close>

section \<open>Rows under the schema's guards\<close>

definition fresh_claim :: "string \<Rightarrow> prod_claim" where
  "fresh_claim i = \<lparr>pc_item = i, pc_holder = None, pc_run = None, pc_fence = 0, pc_lease = None, pc_acquired = None,
     pc_renewed = None, pc_initiated = None, pc_reclaim_fenced = None, pc_step = StepPending, pc_assignee = None\<rparr>"

definition provision :: "prod_item \<Rightarrow> prod_db \<Rightarrow> prod_db" where
  "provision w db = db\<lparr>pd_items := pd_items db @ [w], pd_claims := pd_claims db @ [fresh_claim (pw_id w)]\<rparr>"

text \<open>An insert the schema accepts, or nothing: the row's id is the database's own fresh uuid.\<close>

definition insert_work_item :: "prod_item \<Rightarrow> prod_db \<Rightarrow> prod_db option" where
  "insert_work_item w db =
     (if item_row_of db (pw_id w) \<noteq> None \<or> claim_row_of db (pw_id w) \<noteq> None then None
      else case pw_parent w of
        None \<Rightarrow> Some (provision w db)
      | Some p \<Rightarrow>
          if p = pw_id w then None
          else (case item_row_of db p of
                  None \<Rightarrow> None
                | Some q \<Rightarrow> if pw_project w \<noteq> pw_project q then None else Some (provision (w\<lparr>pw_team := pw_team q\<rparr>) db)))"

definition edited_row :: "instant \<Rightarrow> string \<Rightarrow> string option \<Rightarrow> string option \<Rightarrow> string option \<Rightarrow> prod_item \<Rightarrow> prod_item" where
  "edited_row now title body parent team w =
     w\<lparr>pw_title := title, pw_body := body, pw_parent := parent, pw_team := team, pw_updated := now\<rparr>"

text \<open>
  The guarded edit \<open>UPDATE .. WHERE id = .. AND updated_at = ..\<close>: the rows it affects with the
  table after it, or nothing when the schema rejects it.
\<close>

definition update_work_item ::
  "instant \<Rightarrow> string \<Rightarrow> instant \<Rightarrow> string \<Rightarrow> string option \<Rightarrow> string option \<Rightarrow> prod_db \<Rightarrow> (nat \<times> prod_db) option" where
  "update_work_item now item read_at title body parent db =
     (let G = (\<lambda>w. pw_updated w = read_at);
          write = (\<lambda>team. (aff_key pw_id item G (pd_items db),
            db\<lparr>pd_items := upd_key pw_id item G (\<lambda>w. edited_row now title body parent (team w) w) (pd_items db)\<rparr>))
      in case row_key pw_id item G (pd_items db) of
           None \<Rightarrow> Some (0, db)
         | Some w \<Rightarrow>
             (case parent of
                None \<Rightarrow> Some (write pw_team)
              | Some p \<Rightarrow>
                  if p = item then None
                  else (case item_row_of db p of
                          None \<Rightarrow> None
                        | Some q \<Rightarrow> if pw_project w \<noteq> pw_project q then None else Some (write (\<lambda>_. pw_team q)))))"

section \<open>Walks\<close>

definition parent_of :: "prod_db \<Rightarrow> string \<Rightarrow> string option" where
  "parent_of db i =
     (case item_row_of db i of
        None \<Rightarrow> None
      | Some w \<Rightarrow> (case pw_parent w of None \<Rightarrow> None | Some p \<Rightarrow> if p = [] then None else Some p))"

definition depthCap :: nat where
  "depthCap = 256"

fun ancestor_walk :: "dbfaults \<Rightarrow> nat \<Rightarrow> prod_db \<Rightarrow> string \<Rightarrow> string \<Rightarrow> string + bool" where
  "ancestor_walk flt 0 db cur target = Inl ''coord.workItemWrite: ancestor walk exceeded depth''"
| "ancestor_walk flt (Suc n) db cur target =
     (if cur = target then Inr True
      else if flt ''ancestor walk'' then Inl ''coord.workItemWrite: ancestor walk''
      else case parent_of db cur of None \<Rightarrow> Inr False | Some p \<Rightarrow> ancestor_walk flt n db p target)"

definition ancestorIncludes :: "dbfaults \<Rightarrow> prod_db \<Rightarrow> string \<Rightarrow> string \<Rightarrow> string + bool" where
  "ancestorIncludes flt db start target = ancestor_walk flt depthCap db start target"

fun depth_walk :: "dbfaults \<Rightarrow> nat \<Rightarrow> nat \<Rightarrow> prod_db \<Rightarrow> string \<Rightarrow> string + nat" where
  "depth_walk flt 0 depth db cur = Inl ''coord.workItemAuthor: depth walk exceeded''"
| "depth_walk flt (Suc n) depth db cur =
     (if flt ''depth walk'' then Inl ''coord.workItemAuthor: depth walk''
      else case parent_of db cur of None \<Rightarrow> Inr depth | Some p \<Rightarrow> depth_walk flt n (Suc depth) db p)"

definition chainDepth :: "dbfaults \<Rightarrow> prod_db \<Rightarrow> string \<Rightarrow> string + nat" where
  "chainDepth flt db i = depth_walk flt depthCap 1 db i"

text \<open>The recursive query: one level of children at a time, as long as a level is not empty.\<close>

definition children :: "prod_db \<Rightarrow> string list \<Rightarrow> string list" where
  "children db ids =
     map pw_id (filter (\<lambda>w. case pw_parent w of None \<Rightarrow> False | Some p \<Rightarrow> p \<in> set ids) (pd_items db))"

fun level_count :: "nat \<Rightarrow> prod_db \<Rightarrow> string list \<Rightarrow> nat" where
  "level_count 0 db ids = 0"
| "level_count (Suc n) db ids = (if ids = [] then 0 else Suc (level_count n db (children db ids)))"

definition subtreeHeight :: "dbfaults \<Rightarrow> prod_db \<Rightarrow> string \<Rightarrow> string + nat" where
  "subtreeHeight flt db i =
     (if flt ''subtree'' then Inl ''coord.workItemAuthor: subtree-height walk''
      else Inr (if item_row_of db i = None then 1 else level_count depthCap db [i]))"

section \<open>The tree and its paths\<close>

definition parent_rel :: "prod_db \<Rightarrow> (string \<times> string) set" where
  "parent_rel db = {(i, p). parent_of db i = Some p}"

fun up :: "prod_db \<Rightarrow> nat \<Rightarrow> string \<Rightarrow> string option" where
  "up db 0 i = Some i"
| "up db (Suc n) i = (case parent_of db i of None \<Rightarrow> None | Some p \<Rightarrow> up db n p)"

text \<open>A forest: parents exist and lie in the child's project, and no item is its own ancestor.\<close>

definition parents_exist :: "prod_db \<Rightarrow> bool" where
  "parents_exist db \<longleftrightarrow> (\<forall>w \<in> set (pd_items db). pw_id w \<noteq> [] \<and>
     (\<forall>p. pw_parent w = Some p \<longrightarrow> (\<exists>q. item_row_of db p = Some q \<and> pw_project q = pw_project w)))"

definition forest :: "prod_db \<Rightarrow> bool" where
  "forest db \<longleftrightarrow> wf_table pw_id (pd_items db) \<and> parents_exist db \<and> acyclic (parent_rel db)"

lemma up_add: "up db (m + n) i = (case up db m i of None \<Rightarrow> None | Some j \<Rightarrow> up db n j)"
  by (induction m arbitrary: i) (auto split: option.splits)

lemma up_rtrancl: "up db n i = Some j \<Longrightarrow> (i, j) \<in> (parent_rel db)\<^sup>*"
proof (induction n arbitrary: i)
  case (Suc n)
  then obtain p where "parent_of db i = Some p" "up db n p = Some j" by (auto split: option.splits)
  then show ?case using Suc.IH by (auto simp: parent_rel_def intro: converse_rtrancl_into_rtrancl)
qed simp

lemma ancestor_walk_True: "ancestor_walk flt n db cur target = Inr True \<Longrightarrow> (cur, target) \<in> (parent_rel db)\<^sup>*"
proof (induction n arbitrary: cur)
  case (Suc n)
  then show ?case
    by (auto simp: parent_rel_def split: if_splits option.splits intro: converse_rtrancl_into_rtrancl)
qed simp

lemma ancestor_walk_False: "ancestor_walk flt n db cur target = Inr False \<Longrightarrow> (cur, target) \<notin> (parent_rel db)\<^sup>*"
proof (induction n arbitrary: cur)
  case (Suc n)
  have ne: "cur \<noteq> target" using Suc.prems by auto
  show ?case
  proof
    assume "(cur, target) \<in> (parent_rel db)\<^sup>*"
    then obtain p where p: "parent_of db cur = Some p" "(p, target) \<in> (parent_rel db)\<^sup>*"
      using ne by (auto simp: parent_rel_def elim: converse_rtranclE)
    then have "ancestor_walk flt n db p target = Inr False" using Suc.prems ne by (auto split: if_splits)
    with Suc.IH p(2) show False by blast
  qed
qed simp

lemma depth_walk_up: "depth_walk flt n k db cur = Inr d \<Longrightarrow> k \<le> d \<and> up db (Suc d - k) cur = None"
proof (induction n arbitrary: k cur)
  case (Suc n)
  show ?case
  proof (cases "parent_of db cur")
    case None
    then show ?thesis using Suc.prems by (auto split: if_splits)
  next
    case (Some p)
    then have "depth_walk flt n (Suc k) db p = Inr d" using Suc.prems by (auto split: if_splits)
    from Suc.IH [OF this] have "Suc k \<le> d \<and> up db (Suc d - Suc k) p = None" .
    moreover have "Suc d - k = Suc (Suc d - Suc k)" using conjunct1 [OF calculation] by arith
    ultimately show ?thesis using Some by simp
  qed
qed simp

lemma chainDepth_up: "chainDepth flt db i = Inr d \<Longrightarrow> 1 \<le> d \<and> up db d i = None"
  using depth_walk_up [of flt depthCap 1 db i d] by (simp add: chainDepth_def)

section \<open>Inserts and edits\<close>

lemma insert_work_item_Some:
  assumes "insert_work_item w db = Some db'"
  shows "item_row_of db (pw_id w) = None \<and> claim_row_of db (pw_id w) = None \<and>
    (\<exists>team. db' = provision (w\<lparr>pw_team := team\<rparr>) db \<and> (pw_parent w = None \<longrightarrow> team = pw_team w) \<and>
      (\<forall>p. pw_parent w = Some p \<longrightarrow> p \<noteq> pw_id w \<and>
        (\<exists>q. item_row_of db p = Some q \<and> pw_project q = pw_project w \<and> team = pw_team q)))"
proof (cases "pw_parent w")
  case None
  then have "db' = provision w db" "item_row_of db (pw_id w) = None" "claim_row_of db (pw_id w) = None"
    using assms by (auto simp: insert_work_item_def split: if_splits)
  then show ?thesis using None by (intro conjI exI [of _ "pw_team w"]) simp_all
next
  case (Some p)
  then show ?thesis using assms by (auto simp: insert_work_item_def split: if_splits option.splits)
qed

lemma provision_rows:
  "item_row_of (provision w db) j = (case item_row_of db j of Some v \<Rightarrow> Some v | None \<Rightarrow> if j = pw_id w then Some w else None)"
  "claim_row_of (provision w db) j = (case claim_row_of db j of Some v \<Rightarrow> Some v | None \<Rightarrow> if j = pw_id w then Some (fresh_claim j) else None)"
  by (auto simp: provision_def lookup_by_append fresh_claim_def split: option.splits)

lemma provision_sel [simp]:
  "pd_audit (provision w db) = pd_audit db" "pd_outbox (provision w db) = pd_outbox db" "pd_a2a (provision w db) = pd_a2a db"
  "pd_dispatch (provision w db) = pd_dispatch db" "pd_artifacts (provision w db) = pd_artifacts db" "pd_seq (provision w db) = pd_seq db"
  "pd_comments (provision w db) = pd_comments db"
  by (simp_all add: provision_def)

lemma wf_provision:
  assumes "wf_prod db" and "item_row_of db (pw_id w) = None" and "claim_row_of db (pw_id w) = None"
  shows "wf_prod (provision w db)"
  using assms by (auto simp: wf_prod_def wf_table_def provision_def fresh_claim_def lookup_by_None)

lemma update_work_item_Some:
  assumes "update_work_item now item read_at title body parent db = Some (n, db')" and "wf_table pw_id (pd_items db)"
  shows "n = 0 \<and> db' = db \<or>
    n = 1 \<and> (\<exists>w team. item_row_of db item = Some w \<and> pw_updated w = read_at \<and> db' = db\<lparr>pd_items := pd_items db'\<rparr> \<and>
      map pw_id (pd_items db') = map pw_id (pd_items db) \<and>
      (\<forall>j. item_row_of db' j = (if j = item then Some (edited_row now title body parent team w) else item_row_of db j)) \<and>
      (parent = None \<longrightarrow> team = pw_team w) \<and>
      (\<forall>p. parent = Some p \<longrightarrow> p \<noteq> item \<and> (\<exists>q. item_row_of db p = Some q \<and> pw_project q = pw_project w \<and> team = pw_team q)))"
proof (cases "row_key pw_id item (\<lambda>w. pw_updated w = read_at) (pd_items db)")
  case None
  then show ?thesis using assms(1) by (simp add: update_work_item_def)
next
  case (Some w)
  then have w: "item_row_of db item = Some w" "pw_updated w = read_at"
    by (auto simp: row_key_wf [OF assms(2)] split: option.splits if_splits)
  have pk: "pw_id (edited_row now title body parent t v) = pw_id v" for t v by (simp add: edited_row_def)
  have one: "aff_key pw_id item (\<lambda>w. pw_updated w = read_at) (pd_items db) = 1"
    using w by (simp add: aff_key_wf [OF assms(2)])
  show ?thesis
  proof (cases parent)
    case None
    then have "n = 1 \<and> db' = db\<lparr>pd_items := upd_key pw_id item (\<lambda>w. pw_updated w = read_at) (\<lambda>w. edited_row now title body parent (pw_team w) w) (pd_items db)\<rparr>"
      using assms(1) Some one by (simp add: update_work_item_def Let_def)
    then show ?thesis using w None pk
      by (intro disjI2 conjI exI [of _ w] exI [of _ "pw_team w"]) (simp_all add: pk_upd_key)
  next
    case (Some p)
    then obtain q where q: "item_row_of db p = Some q" "pw_project q = pw_project w" "p \<noteq> item"
        "n = 1 \<and> db' = db\<lparr>pd_items := upd_key pw_id item (\<lambda>w. pw_updated w = read_at) (\<lambda>w. edited_row now title body parent (pw_team q) w) (pd_items db)\<rparr>"
      using assms(1) \<open>row_key _ _ _ _ = Some w\<close> one by (auto simp: update_work_item_def Let_def split: if_splits option.splits)
    then show ?thesis using w Some pk
      by (intro disjI2 conjI exI [of _ w] exI [of _ "pw_team q"]) (simp_all add: pk_upd_key)
  qed
qed

lemma update_work_item_1:
  assumes "update_work_item now item read_at title body parent db = Some (n, db')" and "wf_table pw_id (pd_items db)" and "n \<noteq> 0"
  obtains w team where "n = 1" "item_row_of db item = Some w" "pw_updated w = read_at" "db' = db\<lparr>pd_items := pd_items db'\<rparr>"
    "map pw_id (pd_items db') = map pw_id (pd_items db)"
    "\<And>j. item_row_of db' j = (if j = item then Some (edited_row now title body parent team w) else item_row_of db j)"
    "parent = None \<Longrightarrow> team = pw_team w"
    "\<And>p. parent = Some p \<Longrightarrow> p \<noteq> item \<and> (\<exists>q. item_row_of db p = Some q \<and> pw_project q = pw_project w \<and> team = pw_team q)"
  using update_work_item_Some [OF assms(1,2)] assms(3)
  by (elim disjE conjE exE) (simp, metis (no_types, lifting))

section \<open>The forest is kept\<close>

lemma parent_of_exists:
  assumes "forest db" and "parent_of db x = Some y" shows "item_row_of db y \<noteq> None \<and> item_row_of db x \<noteq> None"
proof -
  obtain w where w: "item_row_of db x = Some w" "pw_parent w = Some y"
    using assms(2) by (auto simp: parent_of_def split: option.splits if_splits)
  then show ?thesis using assms(1) lookup_by_Some [OF w(1)] by (fastforce simp: forest_def parents_exist_def)
qed

lemma insert_rel:
  assumes "insert_work_item w db = Some db'"
  shows "parent_of db' j = (if j = pw_id w then (if pw_parent w = Some [] then None else pw_parent w) else parent_of db j)"
proof -
  obtain team where "item_row_of db (pw_id w) = None" "db' = provision (w\<lparr>pw_team := team\<rparr>) db"
    using insert_work_item_Some [OF assms] by blast
  then show ?thesis by (auto simp: parent_of_def provision_rows split: option.splits)
qed

lemma forest_insert:
  assumes "forest db" and "insert_work_item w db = Some db'" and "pw_id w \<noteq> []"
  shows "forest db'"
proof -
  obtain team where t: "item_row_of db (pw_id w) = None" "db' = provision (w\<lparr>pw_team := team\<rparr>) db"
      "\<And>p. pw_parent w = Some p \<Longrightarrow> p \<noteq> pw_id w \<and> (\<exists>q. item_row_of db p = Some q \<and> pw_project q = pw_project w)"
    using insert_work_item_Some [OF assms(2)] by blast
  have wf: "wf_table pw_id (pd_items db')"
    using assms(1) t by (auto simp: forest_def wf_table_def provision_def lookup_by_None)
  have keep: "item_row_of db p = Some q \<Longrightarrow> item_row_of db' p = Some q" for p q by (simp add: t(2) provision_rows)
  have ex: "parents_exist db'"
    unfolding parents_exist_def
  proof (intro ballI conjI allI impI)
    fix v assume v: "v \<in> set (pd_items db')"
    then have "v \<in> set (pd_items db) \<or> v = w\<lparr>pw_team := team\<rparr>" by (auto simp: t(2) provision_def)
    then show "pw_id v \<noteq> []" using assms(1,3) by (auto simp: forest_def parents_exist_def)
    fix p assume "pw_parent v = Some p"
    with \<open>v \<in> set (pd_items db) \<or> v = w\<lparr>pw_team := team\<rparr>\<close>
    have "\<exists>q. item_row_of db p = Some q \<and> pw_project q = pw_project v"
      using assms(1) t(3) by (fastforce simp: forest_def parents_exist_def)
    then show "\<exists>q. item_row_of db' p = Some q \<and> pw_project q = pw_project v" using keep by blast
  qed
  have no_in: "(x, pw_id w) \<notin> parent_rel db" for x
    using parent_of_exists [OF assms(1), of x "pw_id w"] t(1) by (auto simp: parent_rel_def)
  have "acyclic (parent_rel db')"
  proof (cases "pw_parent w")
    case None
    then have "parent_rel db' \<subseteq> parent_rel db" using insert_rel [OF assms(2)] by (auto simp: parent_rel_def split: if_splits)
    then show ?thesis using assms(1) acyclic_subset by (auto simp: forest_def)
  next
    case (Some p)
    have "(p, pw_id w) \<notin> (parent_rel db)\<^sup>*"
      using t(3) [OF Some] no_in by (metis rtranclE)
    then have "acyclic (insert (pw_id w, p) (parent_rel db))" using assms(1) by (simp add: acyclic_insert forest_def)
    moreover have "parent_rel db' \<subseteq> insert (pw_id w, p) (parent_rel db)"
      using insert_rel [OF assms(2)] Some by (auto simp: parent_rel_def split: if_splits)
    ultimately show ?thesis using acyclic_subset by blast
  qed
  with wf ex show ?thesis by (simp add: forest_def)
qed

lemma update_rel:
  assumes "update_work_item now item read_at title body parent db = Some (1, db')" and "wf_table pw_id (pd_items db)"
  shows "parent_of db' j = (if j = item then (if parent = Some [] then None else parent) else parent_of db j)"
proof -
  obtain w team where "\<And>j. item_row_of db' j = (if j = item then Some (edited_row now title body parent team w) else item_row_of db j)"
    by (rule update_work_item_1 [OF assms]) simp_all
  then show ?thesis by (auto simp: parent_of_def edited_row_def split: option.splits)
qed

lemma forest_update:
  assumes "forest db" and "update_work_item now item read_at title body parent db = Some (n, db')"
    and "\<And>p. parent = Some p \<Longrightarrow> parent_of db item = Some p \<or> (p, item) \<notin> (parent_rel db)\<^sup>*"
  shows "forest db'"
proof (cases "n = 0")
  case True
  then show ?thesis using update_work_item_Some [OF assms(2)] assms(1) by (auto simp: forest_def)
next
  case False
  have wf: "wf_table pw_id (pd_items db)" using assms(1) by (simp add: forest_def)
  obtain w team where u: "n = 1" "item_row_of db item = Some w" "pw_updated w = read_at" "db' = db\<lparr>pd_items := pd_items db'\<rparr>"
      "map pw_id (pd_items db') = map pw_id (pd_items db)"
      "\<And>j. item_row_of db' j = (if j = item then Some (edited_row now title body parent team w) else item_row_of db j)"
      "parent = None \<Longrightarrow> team = pw_team w"
      "\<And>p. parent = Some p \<Longrightarrow> p \<noteq> item \<and> (\<exists>q. item_row_of db p = Some q \<and> pw_project q = pw_project w \<and> team = pw_team q)"
    by (rule update_work_item_1 [OF assms(2) wf False]) (rule that)
  have wf': "wf_table pw_id (pd_items db')" using wf u(5) by (simp add: wf_table_def)
  have proj: "item_row_of db p = Some q \<Longrightarrow> \<exists>q'. item_row_of db' p = Some q' \<and> pw_project q' = pw_project q" for p q
    using u(2,6) by (auto simp: edited_row_def)
  have ex: "parents_exist db'"
    unfolding parents_exist_def
  proof (intro ballI conjI allI impI)
    fix v assume v: "v \<in> set (pd_items db')"
    have row: "item_row_of db' (pw_id v) = Some v" using lookup_by_mem [OF wf' v] .
    have vw: "v = edited_row now title body parent team w \<and> pw_id v = item \<or> v \<in> set (pd_items db)"
      using row u(6) lookup_by_Some by (metis option.inject)
    then show "pw_id v \<noteq> []"
      using assms(1) u(2) lookup_by_Some [OF u(2)] by (auto simp: forest_def parents_exist_def edited_row_def)
    fix p assume p: "pw_parent v = Some p"
    from vw have "\<exists>q. item_row_of db p = Some q \<and> pw_project q = pw_project v"
    proof
      assume "v = edited_row now title body parent team w \<and> pw_id v = item"
      then show ?thesis using u(8) p by (auto simp: edited_row_def)
    next
      assume "v \<in> set (pd_items db)"
      then show ?thesis using assms(1) p by (auto simp: forest_def parents_exist_def)
    qed
    then show "\<exists>q. item_row_of db' p = Some q \<and> pw_project q = pw_project v" using proj by metis
  qed
  have rel: "parent_of db' j = (if j = item then (if parent = Some [] then None else parent) else parent_of db j)" for j
    using update_rel [OF _ wf] assms(2) u(1) by blast
  have "acyclic (parent_rel db')"
  proof (cases "\<exists>p. parent = Some p \<and> parent_of db item \<noteq> Some p")
    case True
    then obtain p where p: "parent = Some p" "(p, item) \<notin> (parent_rel db)\<^sup>*" using assms(3) by blast
    then have "acyclic (insert (item, p) (parent_rel db))" using assms(1) by (simp add: acyclic_insert forest_def)
    moreover have "parent_rel db' \<subseteq> insert (item, p) (parent_rel db)" using rel p by (auto simp: parent_rel_def split: if_splits)
    ultimately show ?thesis using acyclic_subset by blast
  next
    case False
    then have "parent_rel db' \<subseteq> parent_rel db" using rel by (auto simp: parent_rel_def split: if_splits)
    then show ?thesis using assms(1) acyclic_subset by (auto simp: forest_def)
  qed
  with wf' ex show ?thesis by (simp add: forest_def)
qed

section \<open>Depth\<close>

definition capped :: "nat \<Rightarrow> prod_db \<Rightarrow> bool" where
  "capped k db \<longleftrightarrow> (\<forall>j. up db k j = None)"

lemma up_None_mono: "up db m j = None \<Longrightarrow> m \<le> n \<Longrightarrow> up db n j = None"
  using up_add [of db m "n - m" j] by simp

text \<open>Changing the parent of one item changes only the chains through it.\<close>

lemma up_other:
  assumes "\<And>j. j \<noteq> i \<Longrightarrow> parent_of db' j = parent_of db j" and "\<And>m. up db m j \<noteq> Some i"
  shows "up db' n j = up db n j"
  using assms(2)
proof (induction n arbitrary: j)
  case (Suc n)
  have "j \<noteq> i" using Suc.prems [of 0] by simp
  then have eq: "parent_of db' j = parent_of db j" by (rule assms(1))
  show ?case
  proof (cases "parent_of db j")
    case (Some p)
    have "up db m p \<noteq> Some i" for m using Suc.prems [of "Suc m"] Some by simp
    then show ?thesis using Suc.IH eq Some by simp
  qed (simp add: eq)
qed simp

lemma up_first:
  assumes "\<And>j. j \<noteq> i \<Longrightarrow> parent_of db' j = parent_of db j" and "up db k j = Some i"
  shows "\<exists>m \<le> k. up db m j = Some i \<and> up db' m j = Some i"
  using assms(2)
proof (induction k arbitrary: j)
  case 0
  then show ?case by auto
next
  case (Suc k)
  show ?case
  proof (cases "j = i")
    case True
    then show ?thesis by (intro exI [of _ 0]) simp
  next
    case False
    then obtain p where p: "parent_of db j = Some p" "parent_of db' j = Some p" "up db k p = Some i"
      using Suc.prems assms(1) [of j] by (auto split: option.splits)
    from Suc.IH [OF p(3)] obtain m where "m \<le> k" "up db m p = Some i" "up db' m p = Some i" by blast
    then show ?thesis using p by (intro exI [of _ "Suc m"]) simp
  qed
qed

lemma in_children:
  assumes "forest db" and "parent_of db j = Some p" and "p \<in> set ids" shows "j \<in> set (children db ids)"
proof -
  obtain w where w: "item_row_of db j = Some w" "pw_parent w = Some p"
    using assms(2) by (auto simp: parent_of_def split: option.splits if_splits)
  then show ?thesis using lookup_by_Some [OF w(1)] assms(3) by (force simp: children_def)
qed

lemma level_reach:
  assumes "forest db" and "up db h j = Some x" and "x \<in> set ids" shows "j \<in> set ((children db ^^ h) ids)"
  using assms(2)
proof (induction h arbitrary: j)
  case 0
  then show ?case using assms(3) by simp
next
  case (Suc h)
  then obtain p where p: "parent_of db j = Some p" "up db h p = Some x" by (auto split: option.splits)
  from in_children [OF assms(1) p(1) Suc.IH [OF p(2)]] show ?case by simp
qed

lemma level_count_empty: "level_count n db ids < n \<Longrightarrow> (children db ^^ level_count n db ids) ids = []"
proof (induction n arbitrary: ids)
  case (Suc n)
  show ?case
  proof (cases "ids = []")
    case False
    then have "level_count n db (children db ids) < n" using Suc.prems by simp
    from Suc.IH [OF this] False show ?thesis by (simp add: funpow_swap1)
  qed simp
qed simp

lemma subtreeHeight_reach:
  assumes "forest db" and "subtreeHeight flt db i = Inr h" and "h < depthCap" and "item_row_of db i \<noteq> None"
  shows "up db h j \<noteq> Some i"
proof
  assume "up db h j = Some i"
  have h: "h = level_count depthCap db [i]" using assms(2,4) by (auto simp: subtreeHeight_def split: if_splits)
  have "j \<in> set ((children db ^^ h) [i])" by (rule level_reach [OF assms(1) \<open>up db h j = Some i\<close>]) simp
  moreover have "(children db ^^ h) [i] = []" using level_count_empty [of depthCap db "[i]"] assms(3) h by simp
  ultimately show False by simp
qed

lemma capped_insert:
  assumes "forest db" and "capped k db" and "insert_work_item w db = Some db'" and "pw_parent w = Some p"
    and "up db d p = None" and "d + 1 \<le> k"
  shows "capped k db'"
  unfolding capped_def
proof
  fix j
  have free: "item_row_of db (pw_id w) = None" using insert_work_item_Some [OF assms(3)] by blast
  have same: "j \<noteq> pw_id w \<Longrightarrow> parent_of db' j = parent_of db j" for j using insert_rel [OF assms(3)] by simp
  have off: "x \<noteq> pw_id w \<Longrightarrow> up db m x \<noteq> Some (pw_id w)" for m x
  proof
    assume x: "x \<noteq> pw_id w" "up db m x = Some (pw_id w)"
    then have "(x, pw_id w) \<in> (parent_rel db)\<^sup>*" using up_rtrancl by blast
    with x(1) obtain y where "(y, pw_id w) \<in> parent_rel db" by (metis rtranclE)
    then show False using parent_of_exists [OF assms(1), of y "pw_id w"] free by (simp add: parent_rel_def)
  qed
  show "up db' k j = None"
  proof (cases "j = pw_id w")
    case False
    have "up db' k j = up db k j" by (rule up_other [where i = "pw_id w", OF same off [OF False]])
    then show ?thesis using assms(2) by (simp add: capped_def)
  next
    case True
    have "p \<noteq> pw_id w" using insert_work_item_Some [OF assms(3)] assms(4) by blast
    then have "up db' d p = up db d p" by (intro up_other [where i = "pw_id w"] same off)
    then have "up db' d p = None" using assms(5) by simp
    then have "up db' (Suc d) j = None"
      using insert_rel [OF assms(3), of j] True assms(4) by (auto split: option.splits if_splits)
    then show ?thesis by (rule up_None_mono) (use assms(6) in simp)
  qed
qed

lemma capped_move:
  assumes "capped k db" and "\<And>j. j \<noteq> i \<Longrightarrow> parent_of db' j = parent_of db j" and "parent_of db' i = Some q"
    and "(q, i) \<notin> (parent_rel db)\<^sup>*" and "up db d q = None" and "\<And>j. up db h j \<noteq> Some i" and "d + h \<le> k"
  shows "capped k db'"
  unfolding capped_def
proof
  fix j
  have q: "up db' n q = up db n q" for n
    by (rule up_other [OF assms(2)]) (use assms(4) up_rtrancl in blast)+
  show "up db' k j = None"
  proof (cases "\<exists>m. up db m j = Some i")
    case False
    then have "up db' k j = up db k j" by (intro up_other [OF assms(2)]) blast+
    then show ?thesis using assms(1) by (simp add: capped_def)
  next
    case True
    then obtain m0 where "up db m0 j = Some i" by blast
    from up_first [OF assms(2) this] obtain m where m: "up db m j = Some i" "up db' m j = Some i" by blast
    have "m < h"
    proof (rule ccontr)
      assume "\<not> m < h"
      then obtain r where "m = r + h" by (metis add.commute le_Suc_ex not_less)
      with m(1) obtain y where "up db h y = Some i" by (auto simp: up_add split: option.splits)
      with assms(6) show False by blast
    qed
    have "up db' (Suc d) i = None" using assms(3,5) q by simp
    then have "up db' (m + Suc d) j = None" using up_add [of db' m "Suc d" j] m(2) by simp
    then show ?thesis using up_None_mono \<open>m < h\<close> assms(7) by (metis Suc_leI add.commute add_Suc_right add_le_mono1 order_trans)
  qed
qed

end
