(* ===== verification/Work_Write.thy ===== *)
theory Work_Write
  imports Work_Items
begin

text \<open>
  The human create and edit operations on work items (pkg/coord/workitemwrite.go): input
  checks, the tenancy wall, the optimistic guard on edits, the guard against cycles, and the
  audit row of each write. Ids are in their canonical text form. An edit is split where its
  transaction is: the checks it makes on what it read, and the guarded statement it then issues.
\<close>

section \<open>Errors, inputs and the record returned\<close>

datatype DispatchConflictReason = ConflictReasonLiveRun | ConflictReasonConcurrentChange | ConflictReasonNotDispatchable

datatype work_error =
  ErrInvalidWorkItem string
| ErrWorkItemNotFound
| ErrStateConflict string
| DispatchConflictError DispatchConflictReason
| ErrAgentNotInTeam
| ErrAgentAuthorRootDenied
| ErrAgentAuthorNotInCustody
| ErrAgentAuthorDepthExceeded nat
| ErrAgentAuthorRunBudgetExceeded nat
| WriteFailed string

record WorkItemRecord =
  wr_id :: string
  wr_project :: string
  wr_team :: "string option"
  wr_parent :: "string option"
  wr_title :: string
  wr_body :: string
  wr_state :: string
  wr_priority :: "string option"
  wr_work_mode :: "string option"
  wr_labels :: "string list"
  wr_created_by :: string
  wr_created :: instant
  wr_updated :: instant

record CreateWorkItemInput =
  ci_project :: string
  ci_team :: string
  ci_parent :: string
  ci_title :: string
  ci_body :: string
  ci_priority :: string
  ci_work_mode :: string
  ci_labels :: "string list"
  ci_principal :: string
  ci_initiated :: string

text \<open>
  The expected time of an edit: absent, a text that is no RFC 3339 time, or the time it denotes.
\<close>

record UpdateWorkItemInput =
  ui_title :: "string option"
  ui_body :: "string option"
  ui_parent :: "string option"
  ui_expected :: "instant option option"
  ui_team :: string
  ui_principal :: string
  ui_initiated :: string

section \<open>Create-time attributes\<close>

definition validPriorities :: "string list" where
  "validPriorities = [''low'', ''medium'', ''high'', ''urgent'']"

definition validWorkModes :: "string list" where
  "validWorkModes = [''standard'', ''planning'']"

definition maxLabels :: nat where "maxLabels = 20"

definition maxLabelLen :: nat where "maxLabelLen = 64"

fun normalize_labels :: "string list \<Rightarrow> string list \<Rightarrow> work_error + string list" where
  "normalize_labels out [] = Inr out"
| "normalize_labels out (x # xs) =
     (let l = TrimSpace x in
      if l = [] \<or> l \<in> set out then normalize_labels out xs
      else if length l > maxLabelLen then Inl (ErrInvalidWorkItem ''label exceeds 64 chars'')
      else if length (out @ [l]) > maxLabels then Inl (ErrInvalidWorkItem ''more than 20 labels'')
      else normalize_labels (out @ [l]) xs)"

definition normalizeCreateFields :: "string \<Rightarrow> string \<Rightarrow> string list \<Rightarrow> work_error + (string \<times> string \<times> string list)" where
  "normalizeCreateFields priority workMode labels =
     (if priority \<noteq> [] \<and> priority \<notin> set validPriorities
      then Inl (ErrInvalidWorkItem ''priority is not one of low|medium|high|urgent'')
      else if workMode \<noteq> [] \<and> workMode \<notin> set validWorkModes
      then Inl (ErrInvalidWorkItem ''workMode is not one of standard|planning'')
      else case normalize_labels [] labels of
        Inl e \<Rightarrow> Inl e
      | Inr out \<Rightarrow> Inr (priority, workMode, out))"

section \<open>Shared pieces of the writes\<close>

definition nullToPtr :: "string option \<Rightarrow> string option" where
  "nullToPtr n = (case n of None \<Rightarrow> None | Some s \<Rightarrow> if s = [] then None else Some s)"

definition write_audit_row :: "instant \<Rightarrow> string \<Rightarrow> string option \<Rightarrow> string \<Rightarrow> string \<Rightarrow> string option \<Rightarrow> json \<Rightarrow> audit_row" where
  "write_audit_row now item run event prin initiated detail =
     \<lparr>au_item = item, au_run = run, au_event = event, au_principal = prin, au_initiated = initiated,
      au_fence = None, au_from = None, au_to = None, au_payload = detail, au_created = now\<rparr>"

definition writeAudit ::
  "dbfaults \<Rightarrow> instant \<Rightarrow> string \<Rightarrow> string \<Rightarrow> string \<Rightarrow> string \<Rightarrow> json \<Rightarrow> prod_db \<Rightarrow> work_error + prod_db" where
  "writeAudit flt now item event prin initiated detail db =
     (if flt ''audit'' then Inl (WriteFailed ''coord.workItemWrite: audit'')
      else Inr (insert_audit (write_audit_row now item None event prin (nullable initiated) detail) db))"

definition new_work_item ::
  "instant \<Rightarrow> string \<Rightarrow> string \<Rightarrow> string option \<Rightarrow> string option \<Rightarrow> string \<Rightarrow> string \<Rightarrow> string \<Rightarrow> string \<Rightarrow> string \<Rightarrow> string list \<Rightarrow> prod_item" where
  "new_work_item now new project team parent title body prin priority workMode labels =
     \<lparr>pw_id = new, pw_state = ''backlog'', pw_created = now, pw_updated = now, pw_project = project, pw_team = team,
      pw_source = None, pw_parent = parent, pw_title = title, pw_body = nullable body, pw_created_by = prin,
      pw_priority = nullable priority, pw_work_mode = nullable workMode, pw_labels = labels, pw_requested = None, pw_blocked = None\<rparr>"

definition record_of :: "prod_item \<Rightarrow> WorkItemRecord" where
  "record_of w =
     \<lparr>wr_id = pw_id w, wr_project = pw_project w, wr_team = nullToPtr (pw_team w), wr_parent = nullToPtr (pw_parent w),
      wr_title = pw_title w, wr_body = coalesce (pw_body w), wr_state = pw_state w, wr_priority = nullToPtr (pw_priority w),
      wr_work_mode = nullToPtr (pw_work_mode w), wr_labels = pw_labels w, wr_created_by = pw_created_by w,
      wr_created = pw_created w, wr_updated = pw_updated w\<rparr>"

definition create_detail :: "string \<Rightarrow> string option \<Rightarrow> string \<Rightarrow> string \<Rightarrow> string list \<Rightarrow> json" where
  "create_detail title parent priority workMode labels =
     [(''title'', JStr title), (''parent_id'', JStr (coalesce parent)), (''priority'', JStr priority),
      (''work_mode'', JStr workMode), (''labels'', JList (map JStr labels))]"

definition visible_to :: "string \<Rightarrow> prod_item \<Rightarrow> bool" where
  "visible_to team w \<longleftrightarrow> team = [] \<or> pw_team w = Some team"

section \<open>Create\<close>

text \<open>The row's placement: its team and parent, or why the parent is refused.\<close>

definition create_placement :: "dbfaults \<Rightarrow> CreateWorkItemInput \<Rightarrow> prod_db \<Rightarrow> work_error + (string option \<times> string option)" where
  "create_placement flt inp db =
     (if ci_parent inp = [] then Inr (nullable (ci_team inp), None)
      else if flt ''read parent'' then Inl (WriteFailed ''coord.CreateWorkItem: read parent'')
      else case item_row_of db (ci_parent inp) of
        None \<Rightarrow> Inl ErrWorkItemNotFound
      | Some p \<Rightarrow>
          if \<not> visible_to (ci_team inp) p then Inl ErrWorkItemNotFound
          else if pw_project p \<noteq> ci_project inp then Inl ErrWorkItemNotFound
          else Inr (pw_team p, Some (ci_parent inp)))"

definition CreateWorkItem ::
  "dbfaults \<Rightarrow> instant \<Rightarrow> string \<Rightarrow> CreateWorkItemInput \<Rightarrow> prod_db \<Rightarrow> work_error + (WorkItemRecord \<times> prod_db)" where
  "CreateWorkItem flt now new inp db =
     (if ci_project inp = [] \<or> ci_title inp = [] \<or> ci_principal inp = []
      then Inl (ErrInvalidWorkItem ''projectID, title and principal are required'')
      else case normalizeCreateFields (ci_priority inp) (ci_work_mode inp) (ci_labels inp) of
        Inl e \<Rightarrow> Inl e
      | Inr (priority, workMode, labels) \<Rightarrow>
          if flt ''begin'' then Inl (WriteFailed ''coord.CreateWorkItem: begin'')
          else case create_placement flt inp db of
            Inl e \<Rightarrow> Inl e
          | Inr (team, parent) \<Rightarrow>
              if flt ''insert'' then Inl (WriteFailed ''coord.CreateWorkItem: insert'')
              else (let w = new_work_item now new (ci_project inp) team parent (ci_title inp) (ci_body inp) (ci_principal inp)
                              priority workMode labels
                    in case insert_work_item w db of
                         None \<Rightarrow> Inl (WriteFailed ''coord.CreateWorkItem: insert'')
                       | Some db1 \<Rightarrow>
                           (case writeAudit flt now new ''work_item_created'' (ci_principal inp) (ci_initiated inp)
                                   (create_detail (ci_title inp) parent priority workMode labels) db1 of
                              Inl e \<Rightarrow> Inl e
                            | Inr db2 \<Rightarrow>
                                if flt ''commit'' then Inl (WriteFailed ''coord.CreateWorkItem: commit'')
                                else Inr (record_of w, db2))))"

section \<open>Edit\<close>

definition editedFields :: "UpdateWorkItemInput \<Rightarrow> json" where
  "editedFields inp =
     [(''fields'', JList (map JStr
        ((if ui_title inp \<noteq> None then [''title''] else []) @ (if ui_body inp \<noteq> None then [''body''] else []) @
         (if ui_parent inp \<noteq> None then [''parent_id''] else []))))]"

definition unexpected :: "instant option option \<Rightarrow> prod_item \<Rightarrow> work_error option" where
  "unexpected expected w =
     (case expected of
        None \<Rightarrow> None
      | Some None \<Rightarrow> Some (ErrInvalidWorkItem ''expectedUpdatedAt not RFC3339'')
      | Some (Some want) \<Rightarrow> if pw_updated w \<noteq> want then Some (ErrStateConflict ''item changed'') else None)"

definition reparent_refused :: "dbfaults \<Rightarrow> string \<Rightarrow> string \<Rightarrow> string \<Rightarrow> prod_item \<Rightarrow> prod_db \<Rightarrow> work_error option" where
  "reparent_refused flt team item p w db =
     (if p = item then Some (ErrInvalidWorkItem ''an item cannot be its own parent'')
      else if flt ''read new parent'' then Some (WriteFailed ''coord.UpdateWorkItem: read new parent'')
      else case item_row_of db p of
        None \<Rightarrow> Some ErrWorkItemNotFound
      | Some q \<Rightarrow>
          if \<not> visible_to team q then Some ErrWorkItemNotFound
          else if pw_project q \<noteq> pw_project w then Some ErrWorkItemNotFound
          else (case ancestorIncludes flt db p item of
                  Inl e \<Rightarrow> Some (WriteFailed e)
                | Inr cyclic \<Rightarrow> if cyclic then Some (ErrInvalidWorkItem ''reparent would form a cycle'') else None))"

text \<open>The checks of an edit, on the rows it has locked and read: the row it will edit.\<close>

definition update_check :: "dbfaults \<Rightarrow> string \<Rightarrow> UpdateWorkItemInput \<Rightarrow> prod_db \<Rightarrow> work_error + prod_item" where
  "update_check flt item inp db =
     (if item = [] \<or> ui_principal inp = [] then Inl (ErrInvalidWorkItem ''workItemID and principal are required'')
      else if ui_title inp = None \<and> ui_body inp = None \<and> ui_parent inp = None then Inl (ErrInvalidWorkItem ''no editable field supplied'')
      else if ui_title inp = Some [] then Inl (ErrInvalidWorkItem ''title may not be blank'')
      else if flt ''begin'' then Inl (WriteFailed ''coord.UpdateWorkItem: begin'')
      else if flt ''read current'' then Inl (WriteFailed ''coord.UpdateWorkItem: read current'')
      else case item_row_of db item of
        None \<Rightarrow> Inl ErrWorkItemNotFound
      | Some w \<Rightarrow>
          if \<not> visible_to (ui_team inp) w then Inl ErrWorkItemNotFound
          else (case unexpected (ui_expected inp) w of
                  Some e \<Rightarrow> Inl e
                | None \<Rightarrow>
                    (case ui_parent inp of
                       None \<Rightarrow> Inr w
                     | Some p \<Rightarrow>
                         if p = [] then Inr w
                         else (case reparent_refused flt (ui_team inp) item p w db of Some e \<Rightarrow> Inl e | None \<Rightarrow> Inr w))))"

definition new_title :: "string option \<Rightarrow> prod_item \<Rightarrow> string" where
  "new_title t w = (case t of None \<Rightarrow> pw_title w | Some x \<Rightarrow> x)"

definition new_text :: "string option \<Rightarrow> string option \<Rightarrow> string option" where
  "new_text t old = (case t of None \<Rightarrow> old | Some x \<Rightarrow> nullable x)"

text \<open>The guarded update and the read-back: the row as it now is.\<close>

definition edit_write ::
  "dbfaults \<Rightarrow> string \<Rightarrow> instant \<Rightarrow> string \<Rightarrow> string option \<Rightarrow> string option \<Rightarrow> string option \<Rightarrow> prod_item \<Rightarrow> prod_db \<Rightarrow> work_error + (prod_item \<times> prod_db)" where
  "edit_write flt op now item title body parent w db =
     (if flt ''update'' then Inl (WriteFailed (op @ '': update''))
      else case update_work_item now item (pw_updated w) (new_title title w) (new_text body (pw_body w)) (new_text parent (pw_parent w)) db of
        None \<Rightarrow> Inl (WriteFailed (op @ '': update''))
      | Some (n, db1) \<Rightarrow>
          if flt ''rows'' then Inl (WriteFailed (op @ '': rows''))
          else if n = 0 then Inl (ErrStateConflict ''concurrent edit'')
          else if flt ''read back'' then Inl (WriteFailed (op @ '': read back''))
          else (case item_row_of db1 item of
                  None \<Rightarrow> Inl (WriteFailed (op @ '': read back''))
                | Some v \<Rightarrow> Inr (v, db1)))"

text \<open>
  The record an edit returns: read back, except for the columns only the locked read took. The
  human path scans the label array straight into a slice, which is the driver's business:
  \<open>scan\<close> is what it makes of the column, if anything.
\<close>

definition edited_record :: "prod_item \<Rightarrow> prod_item \<Rightarrow> string list \<Rightarrow> WorkItemRecord" where
  "edited_record w v labels =
     (record_of w)\<lparr>wr_title := pw_title v, wr_body := coalesce (pw_body v), wr_parent := nullToPtr (pw_parent v),
        wr_updated := pw_updated v, wr_priority := nullToPtr (pw_priority v), wr_work_mode := nullToPtr (pw_work_mode v),
        wr_labels := labels\<rparr>"

definition update_apply ::
  "(string list \<Rightarrow> string list option) \<Rightarrow> dbfaults \<Rightarrow> instant \<Rightarrow> string \<Rightarrow> UpdateWorkItemInput \<Rightarrow> prod_item \<Rightarrow> prod_db \<Rightarrow>
   work_error + (WorkItemRecord \<times> prod_db)" where
  "update_apply scan flt now item inp w db =
     (case edit_write flt ''coord.UpdateWorkItem'' now item (ui_title inp) (ui_body inp) (ui_parent inp) w db of
        Inl e \<Rightarrow> Inl e
      | Inr (v, db1) \<Rightarrow>
          (case scan (pw_labels v) of
             None \<Rightarrow> Inl (WriteFailed ''coord.UpdateWorkItem: read back'')
           | Some labels \<Rightarrow>
               (case writeAudit flt now item ''work_item_edited'' (ui_principal inp) (ui_initiated inp) (editedFields inp) db1 of
                  Inl e \<Rightarrow> Inl e
                | Inr db2 \<Rightarrow>
                    if flt ''commit'' then Inl (WriteFailed ''coord.UpdateWorkItem: commit'')
                    else Inr (edited_record w v labels, db2))))"

definition UpdateWorkItem ::
  "(string list \<Rightarrow> string list option) \<Rightarrow> dbfaults \<Rightarrow> instant \<Rightarrow> string \<Rightarrow> UpdateWorkItemInput \<Rightarrow> prod_db \<Rightarrow>
   work_error + (WorkItemRecord \<times> prod_db)" where
  "UpdateWorkItem scan flt now item inp db =
     (case update_check flt item inp db of Inl e \<Rightarrow> Inl e | Inr w \<Rightarrow> update_apply scan flt now item inp w db)"

end
