(* ===== verification/Work_Author.thy ===== *)
theory Work_Author
  imports Work_Write
begin

text \<open>
  The authoring lane of agents (pkg/coord/workitemauthor.go): sub-tickets created under work the
  agent holds, edits within its custody scope, the fan-out bounds on depth and on creates per
  Run, and the item a Run holds.
\<close>

section \<open>Bounds and inputs\<close>

definition AgentAuthorMaxDepth :: nat where "AgentAuthorMaxDepth = 4"

definition AgentAuthorRunBudget :: nat where "AgentAuthorRunBudget = 50"

record AgentCreateWorkItemInput =
  ac_parent :: string
  ac_title :: string
  ac_body :: string
  ac_priority :: string
  ac_work_mode :: string
  ac_labels :: "string list"
  ac_principal :: string
  ac_agent :: string
  ac_run :: string

record AgentUpdateWorkItemInput =
  ag_title :: "string option"
  ag_body :: "string option"
  ag_parent :: "string option"
  ag_expected :: "instant option option"
  ag_principal :: string
  ag_agent :: string
  ag_run :: string

section \<open>Custody\<close>

definition claim_held_by :: "instant \<Rightarrow> string \<Rightarrow> string \<Rightarrow> prod_claim \<Rightarrow> bool" where
  "claim_held_by now prin agent c \<longleftrightarrow>
     agent \<noteq> [] \<and> pc_assignee c = Some agent \<or>
     prin \<noteq> [] \<and> pc_holder c = Some prin \<and> null_gt (pc_lease c) now"

definition agentHoldsClaim :: "dbfaults \<Rightarrow> instant \<Rightarrow> string \<Rightarrow> string \<Rightarrow> string \<Rightarrow> prod_db \<Rightarrow> string + bool" where
  "agentHoldsClaim flt now item prin agent db =
     (if flt ''read claim'' then Inl ''coord.workItemAuthor: read claim''
      else case claim_row_of db item of None \<Rightarrow> Inr False | Some c \<Rightarrow> Inr (claim_held_by now prin agent c))"

fun custody_walk :: "dbfaults \<Rightarrow> instant \<Rightarrow> nat \<Rightarrow> string \<Rightarrow> string \<Rightarrow> string \<Rightarrow> prod_db \<Rightarrow> string + bool" where
  "custody_walk flt now 0 cur prin agent db = Inl ''coord.workItemAuthor: custody-scope walk exceeded depth''"
| "custody_walk flt now (Suc n) cur prin agent db =
     (case agentHoldsClaim flt now cur prin agent db of
        Inl e \<Rightarrow> Inl e
      | Inr held \<Rightarrow>
          if held then Inr True
          else if flt ''custody walk'' then Inl ''coord.workItemAuthor: custody-scope walk''
          else (case parent_of db cur of None \<Rightarrow> Inr False | Some p \<Rightarrow> custody_walk flt now n p prin agent db))"

definition agentHoldsCustodyScope :: "dbfaults \<Rightarrow> instant \<Rightarrow> string \<Rightarrow> string \<Rightarrow> string \<Rightarrow> prod_db \<Rightarrow> string + bool" where
  "agentHoldsCustodyScope flt now item prin agent db = custody_walk flt now depthCap item prin agent db"

text \<open>The item a Run holds: the live claim renewed last, acquired last among those.\<close>

definition later :: "instant option \<Rightarrow> instant option \<Rightarrow> bool" where
  "later a b \<longleftrightarrow> (case a of None \<Rightarrow> False | Some x \<Rightarrow> (case b of None \<Rightarrow> True | Some y \<Rightarrow> y < x))"

definition precedes :: "prod_claim \<Rightarrow> prod_claim \<Rightarrow> bool" where
  "precedes c d \<longleftrightarrow> later (pc_renewed c) (pc_renewed d) \<or>
     pc_renewed c = pc_renewed d \<and> later (pc_acquired c) (pc_acquired d)"

definition live_claims_of :: "instant \<Rightarrow> string \<Rightarrow> prod_db \<Rightarrow> prod_claim list" where
  "live_claims_of now runID db =
     filter (\<lambda>c. pc_run c = Some runID \<and> pc_holder c \<noteq> None \<and> null_gt (pc_lease c) now) (pd_claims db)"

definition RunHeldWorkItem :: "dbfaults \<Rightarrow> instant \<Rightarrow> string \<Rightarrow> prod_db \<Rightarrow> string + string" where
  "RunHeldWorkItem flt now runID db =
     (if runID = [] then Inr []
      else if flt ''read claim'' then Inl ''coord.RunHeldWorkItem: read claim''
      else (let cs = live_claims_of now runID db
            in case find (\<lambda>c. \<forall>d \<in> set cs. \<not> precedes d c) cs of None \<Rightarrow> Inr [] | Some c \<Rightarrow> Inr (pc_item c)))"

section \<open>Create\<close>

definition writeAgentAudit ::
  "dbfaults \<Rightarrow> instant \<Rightarrow> string \<Rightarrow> string \<Rightarrow> string \<Rightarrow> string \<Rightarrow> json \<Rightarrow> prod_db \<Rightarrow> work_error + prod_db" where
  "writeAgentAudit flt now item event prin runID detail db =
     (if flt ''audit'' then Inl (WriteFailed ''coord.workItemAuthor: audit'')
      else Inr (insert_audit (write_audit_row now item (Some runID) event prin None detail) db))"

definition authored :: "string \<Rightarrow> prod_db \<Rightarrow> nat" where
  "authored runID db = length (filter (\<lambda>a. au_run a = Some runID \<and> au_event a = ''work_item_created'') (pd_audit db))"

text \<open>The checks of a create, in the order of the code: the parent's row, once all of them pass.\<close>

definition agent_create_check :: "dbfaults \<Rightarrow> instant \<Rightarrow> AgentCreateWorkItemInput \<Rightarrow> prod_db \<Rightarrow> work_error + prod_item" where
  "agent_create_check flt now inp db =
     (if flt ''begin'' then Inl (WriteFailed ''coord.AgentCreateWorkItem: begin'')
      else if flt ''read parent'' then Inl (WriteFailed ''coord.AgentCreateWorkItem: read parent'')
      else case item_row_of db (ac_parent inp) of
        None \<Rightarrow> Inl ErrAgentAuthorNotInCustody
      | Some p \<Rightarrow>
          (case agentHoldsClaim flt now (ac_parent inp) (ac_principal inp) (ac_agent inp) db of
             Inl e \<Rightarrow> Inl (WriteFailed e)
           | Inr held \<Rightarrow>
               if \<not> held then Inl ErrAgentAuthorNotInCustody
               else (case chainDepth flt db (ac_parent inp) of
                       Inl e \<Rightarrow> Inl (WriteFailed e)
                     | Inr d \<Rightarrow>
                         if d + 1 > AgentAuthorMaxDepth then Inl (ErrAgentAuthorDepthExceeded (d + 1))
                         else if flt ''budget'' then Inl (WriteFailed ''coord.AgentCreateWorkItem: run budget count'')
                         else if authored (ac_run inp) db \<ge> AgentAuthorRunBudget
                         then Inl (ErrAgentAuthorRunBudgetExceeded (authored (ac_run inp) db))
                         else Inr p)))"

definition agent_create_apply ::
  "dbfaults \<Rightarrow> instant \<Rightarrow> string \<Rightarrow> AgentCreateWorkItemInput \<Rightarrow> string \<times> string \<times> string list \<Rightarrow> prod_item \<Rightarrow> prod_db \<Rightarrow>
   work_error + (WorkItemRecord \<times> prod_db)" where
  "agent_create_apply flt now new inp attrs p db =
     (case attrs of (priority, workMode, labels) \<Rightarrow>
        if flt ''insert'' then Inl (WriteFailed ''coord.AgentCreateWorkItem: insert'')
        else (let w = new_work_item now new (pw_project p) (pw_team p) (Some (ac_parent inp)) (ac_title inp) (ac_body inp)
                        (ac_principal inp) priority workMode labels
              in case insert_work_item w db of
                   None \<Rightarrow> Inl (WriteFailed ''coord.AgentCreateWorkItem: insert'')
                 | Some db1 \<Rightarrow>
                     (case writeAgentAudit flt now new ''work_item_created'' (ac_principal inp) (ac_run inp)
                             (create_detail (ac_title inp) (Some (ac_parent inp)) priority workMode labels @
                              [(''agent'', JStr (ac_agent inp)), (''agent_write'', JBool True)]) db1 of
                        Inl e \<Rightarrow> Inl e
                      | Inr db2 \<Rightarrow>
                          if flt ''commit'' then Inl (WriteFailed ''coord.AgentCreateWorkItem: commit'')
                          else Inr (record_of w, db2))))"

definition AgentCreateWorkItem ::
  "dbfaults \<Rightarrow> instant \<Rightarrow> string \<Rightarrow> AgentCreateWorkItemInput \<Rightarrow> prod_db \<Rightarrow> work_error + (WorkItemRecord \<times> prod_db)" where
  "AgentCreateWorkItem flt now new inp db =
     (if ac_parent inp = [] then Inl ErrAgentAuthorRootDenied
      else if ac_title inp = [] \<or> ac_principal inp = [] \<or> ac_agent inp = [] \<or> ac_run inp = []
      then Inl (ErrInvalidWorkItem ''title, principal, agentName and runID are required'')
      else case normalizeCreateFields (ac_priority inp) (ac_work_mode inp) (ac_labels inp) of
        Inl e \<Rightarrow> Inl e
      | Inr attrs \<Rightarrow>
          (case agent_create_check flt now inp db of
             Inl e \<Rightarrow> Inl e
           | Inr p \<Rightarrow> agent_create_apply flt now new inp attrs p db))"

section \<open>Edit\<close>

definition agentEditedFields :: "AgentUpdateWorkItemInput \<Rightarrow> json" where
  "agentEditedFields inp =
     [(''fields'', JList (map JStr
        ((if ag_title inp \<noteq> None then [''title''] else []) @ (if ag_body inp \<noteq> None then [''body''] else []) @
         (if ag_parent inp \<noteq> None then [''parent_id''] else [])))),
      (''agent'', JStr (ag_agent inp)), (''agent_write'', JBool True)]"

definition agent_reparent_refused ::
  "dbfaults \<Rightarrow> instant \<Rightarrow> string \<Rightarrow> string \<Rightarrow> AgentUpdateWorkItemInput \<Rightarrow> prod_item \<Rightarrow> prod_db \<Rightarrow> work_error option" where
  "agent_reparent_refused flt now item p inp w db =
     (if p = item then Some (ErrInvalidWorkItem ''an item cannot be its own parent'')
      else if flt ''read new parent'' then Some (WriteFailed ''coord.AgentUpdateWorkItem: read new parent'')
      else case item_row_of db p of
        None \<Rightarrow> Some ErrAgentAuthorNotInCustody
      | Some q \<Rightarrow>
          if pw_project q \<noteq> pw_project w then Some ErrAgentAuthorNotInCustody
          else (case agentHoldsCustodyScope flt now p (ag_principal inp) (ag_agent inp) db of
                  Inl e \<Rightarrow> Some (WriteFailed e)
                | Inr held \<Rightarrow>
                    if \<not> held then Some ErrAgentAuthorNotInCustody
                    else (case ancestorIncludes flt db p item of
                            Inl e \<Rightarrow> Some (WriteFailed e)
                          | Inr cyclic \<Rightarrow>
                              if cyclic then Some (ErrInvalidWorkItem ''reparent would form a cycle'')
                              else (case chainDepth flt db p of
                                      Inl e \<Rightarrow> Some (WriteFailed e)
                                    | Inr d \<Rightarrow>
                                        (case subtreeHeight flt db item of
                                           Inl e \<Rightarrow> Some (WriteFailed e)
                                         | Inr h \<Rightarrow>
                                             if d + h > AgentAuthorMaxDepth then Some (ErrAgentAuthorDepthExceeded (d + h))
                                             else None)))))"

definition agent_update_check ::
  "dbfaults \<Rightarrow> instant \<Rightarrow> string \<Rightarrow> AgentUpdateWorkItemInput \<Rightarrow> prod_db \<Rightarrow> work_error + prod_item" where
  "agent_update_check flt now item inp db =
     (if item = [] \<or> ag_principal inp = [] \<or> ag_agent inp = [] \<or> ag_run inp = []
      then Inl (ErrInvalidWorkItem ''workItemID, principal, agentName and runID are required'')
      else if ag_title inp = None \<and> ag_body inp = None \<and> ag_parent inp = None then Inl (ErrInvalidWorkItem ''no editable field supplied'')
      else if ag_title inp = Some [] then Inl (ErrInvalidWorkItem ''title may not be blank'')
      else if flt ''begin'' then Inl (WriteFailed ''coord.AgentUpdateWorkItem: begin'')
      else if flt ''read current'' then Inl (WriteFailed ''coord.AgentUpdateWorkItem: read current'')
      else case item_row_of db item of
        None \<Rightarrow> Inl ErrAgentAuthorNotInCustody
      | Some w \<Rightarrow>
          (case agentHoldsCustodyScope flt now item (ag_principal inp) (ag_agent inp) db of
             Inl e \<Rightarrow> Inl (WriteFailed e)
           | Inr held \<Rightarrow>
               if \<not> held then Inl ErrAgentAuthorNotInCustody
               else (case unexpected (ag_expected inp) w of
                       Some e \<Rightarrow> Inl e
                     | None \<Rightarrow>
                         (case ag_parent inp of
                            None \<Rightarrow> Inr w
                          | Some p \<Rightarrow>
                              if p = [] then Inl ErrAgentAuthorRootDenied
                              else (case agent_reparent_refused flt now item p inp w db of Some e \<Rightarrow> Inl e | None \<Rightarrow> Inr w)))))"

definition agent_update_apply ::
  "dbfaults \<Rightarrow> instant \<Rightarrow> string \<Rightarrow> AgentUpdateWorkItemInput \<Rightarrow> prod_item \<Rightarrow> prod_db \<Rightarrow> work_error + (WorkItemRecord \<times> prod_db)" where
  "agent_update_apply flt now item inp w db =
     (case edit_write flt ''coord.AgentUpdateWorkItem'' now item (ag_title inp) (ag_body inp) (ag_parent inp) w db of
        Inl e \<Rightarrow> Inl e
      | Inr (v, db1) \<Rightarrow>
          (case writeAgentAudit flt now item ''work_item_edited'' (ag_principal inp) (ag_run inp) (agentEditedFields inp) db1 of
             Inl e \<Rightarrow> Inl e
           | Inr db2 \<Rightarrow>
               if flt ''commit'' then Inl (WriteFailed ''coord.AgentUpdateWorkItem: commit'')
               else Inr (edited_record w v (pw_labels v), db2)))"

definition AgentUpdateWorkItem ::
  "dbfaults \<Rightarrow> instant \<Rightarrow> string \<Rightarrow> AgentUpdateWorkItemInput \<Rightarrow> prod_db \<Rightarrow> work_error + (WorkItemRecord \<times> prod_db)" where
  "AgentUpdateWorkItem flt now item inp db =
     (case agent_update_check flt now item inp db of Inl e \<Rightarrow> Inl e | Inr w \<Rightarrow> agent_update_apply flt now item inp w db)"

end
