(* ===== verification/Work_Dispatch.thy ===== *)
theory Work_Dispatch
  imports Work_Author
begin

text \<open>
  The operations that send a work item back to the dispatch lane: the assign verb of the board
  (pkg/coord/workitemdispatch.go), its agent-facing entry (pkg/coord/agentdispatch.go) and the
  human comment that nudges a parked item (pkg/coord/workitemcomment.go). The composition of a
  team lives in the cluster and is a parameter: a resolver from the team's id to its agents.
\<close>

section \<open>Inputs and results\<close>

record RequestDispatchInput =
  rd_item :: string
  rd_agent :: string
  rd_team :: string
  rd_principal :: string
  rd_initiated :: string
  rd_initiator :: string

record WorkItemDispatchResult =
  dr_item :: string
  dr_from :: string
  dr_to :: string
  dr_agent :: string

record AgentRequestDispatchInput =
  rq_item :: string
  rq_assignee :: string
  rq_principal :: string
  rq_agent :: string
  rq_run :: string
  rq_team :: string

record CommentRef =
  cf_item :: string
  cf_title :: string

record HumanCommentOutcome =
  co_author :: string
  co_body :: string
  co_created :: instant
  co_refs :: "CommentRef list"
  co_retriggered :: bool
  co_from :: string
  co_to :: string

type_synonym team_agents = "string \<Rightarrow> string + string list"

section \<open>The dispatch verb\<close>

definition commentReTriggerLanes :: "string list" where
  "commentReTriggerLanes =
     [''design'', ''planning'', ''implementation'', ''code_review'', ''testing'', ''documentation'', ''in_progress'', ''in_review'']"

fun containsString :: "string list \<Rightarrow> string \<Rightarrow> bool" where
  "containsString [] want = False"
| "containsString (s # ss) want = (if s = want then True else containsString ss want)"

definition unheld :: "prod_db \<Rightarrow> string \<Rightarrow> bool" where
  "unheld db i \<longleftrightarrow> (case claim_row_of db i of None \<Rightarrow> True | Some c \<Rightarrow> pc_holder c = None)"

text \<open>The branch on the locked lane: the lanes of the move and the event it books.\<close>

definition dispatch_plan :: "dbfaults \<Rightarrow> string \<Rightarrow> string \<Rightarrow> prod_db \<Rightarrow> work_error + (string \<times> string \<times> string)" where
  "dispatch_plan flt item lane db =
     (let live_guard = (\<lambda>plan.
            if flt ''read claim holder'' then Inl (WriteFailed ''coord.RequestDispatch: read claim holder'')
            else if \<not> unheld db item then Inl (DispatchConflictError ConflictReasonLiveRun)
            else Inr plan)
      in if lane = ''backlog'' then Inr (''backlog'', ''todo'', ''work_item_dispatch_requested'')
         else if lane = ''todo'' then live_guard (''todo'', ''todo'', ''work_item_reassign_requested'')
         else if lane \<in> set commentReTriggerLanes \<or> lane = ''done'' \<or> lane = ''cancelled''
         then live_guard (lane, ''todo'', ''work_item_rerun_requested'')
         else Inl (DispatchConflictError ConflictReasonNotDispatchable))"

definition dispatch_guard :: "string \<Rightarrow> string \<Rightarrow> prod_db \<Rightarrow> prod_item \<Rightarrow> bool" where
  "dispatch_guard item lane db w \<longleftrightarrow> pw_state w = lane \<and> (lane = ''backlog'' \<or> unheld db item)"

definition dispatch_set :: "instant \<Rightarrow> string \<Rightarrow> string \<Rightarrow> prod_item \<Rightarrow> prod_item" where
  "dispatch_set now agent lane w =
     (if lane = ''todo'' then w\<lparr>pw_requested := Some agent, pw_updated := now\<rparr>
      else w\<lparr>pw_requested := Some agent, pw_state := ''todo'', pw_updated := now\<rparr>)"

definition dispatch_audit :: "instant \<Rightarrow> RequestDispatchInput \<Rightarrow> string \<Rightarrow> string \<Rightarrow> string \<Rightarrow> audit_row" where
  "dispatch_audit now inp lane to event =
     \<lparr>au_item = rd_item inp, au_run = None, au_event = event, au_principal = rd_principal inp,
      au_initiated = nullable (rd_initiated inp), au_fence = None, au_from = Some lane, au_to = Some to,
      au_payload = [(''initiator'', JStr (if rd_initiator inp = [] then ''human'' else rd_initiator inp)),
                    (''requested_agent'', JStr (rd_agent inp))],
      au_created = now\<rparr>"

definition RequestDispatch ::
  "team_agents \<Rightarrow> dbfaults \<Rightarrow> instant \<Rightarrow> RequestDispatchInput \<Rightarrow> prod_db \<Rightarrow> work_error + (WorkItemDispatchResult \<times> prod_db)" where
  "RequestDispatch agents flt now inp db =
     (if rd_item inp = [] \<or> rd_agent inp = [] \<or> rd_principal inp = []
      then Inl (ErrInvalidWorkItem ''workItemID, agentId and principal are required'')
      else if flt ''begin'' then Inl (WriteFailed ''coord.RequestDispatch: begin'')
      else if flt ''read current'' then Inl (WriteFailed ''coord.RequestDispatch: read current'')
      else case item_row_of db (rd_item inp) of
        None \<Rightarrow> Inl ErrWorkItemNotFound
      | Some w \<Rightarrow>
          if \<not> visible_to (rd_team inp) w then Inl ErrWorkItemNotFound
          else if coalesce (pw_team w) = [] then Inl (ErrInvalidWorkItem ''work item has no owning team to dispatch to'')
          else (case dispatch_plan flt (rd_item inp) (pw_state w) db of
                  Inl e \<Rightarrow> Inl e
                | Inr (lane, to, event) \<Rightarrow>
                    (case agents (coalesce (pw_team w)) of
                       Inl e \<Rightarrow> Inl (WriteFailed (''coord.RequestDispatch: resolve team agents: '' @ e))
                     | Inr names \<Rightarrow>
                         if \<not> containsString names (rd_agent inp) then Inl ErrAgentNotInTeam
                         else if flt ''update'' then Inl (WriteFailed ''coord.RequestDispatch: update'')
                         else (let G = dispatch_guard (rd_item inp) lane db;
                                   db1 = db\<lparr>pd_items := upd_key pw_id (rd_item inp) G (dispatch_set now (rd_agent inp) lane) (pd_items db)\<rparr>
                               in if flt ''rows'' then Inl (WriteFailed ''coord.RequestDispatch: rows'')
                                  else if aff_key pw_id (rd_item inp) G (pd_items db) = 0
                                  then Inl (DispatchConflictError ConflictReasonConcurrentChange)
                                  else if flt ''audit'' then Inl (WriteFailed ''coord.RequestDispatch: audit'')
                                  else if flt ''commit'' then Inl (WriteFailed ''coord.RequestDispatch: commit'')
                                  else Inr (\<lparr>dr_item = rd_item inp, dr_from = lane, dr_to = to, dr_agent = rd_agent inp\<rparr>,
                                            insert_audit (dispatch_audit now inp lane to event) db1)))))"

text \<open>The agent's entry reads custody in a transaction of its own, before the dispatch.\<close>

definition AgentRequestDispatch ::
  "team_agents \<Rightarrow> dbfaults \<Rightarrow> instant \<Rightarrow> AgentRequestDispatchInput \<Rightarrow> prod_db \<Rightarrow> prod_db \<Rightarrow>
   work_error + (WorkItemDispatchResult \<times> prod_db)" where
  "AgentRequestDispatch agents flt now inp seen db =
     (if rq_principal inp = [] \<or> rq_agent inp = [] \<or> rq_run inp = []
      then Inl (ErrInvalidWorkItem ''principal, agentName and runId are required for agent dispatch'')
      else if rq_item inp = [] \<or> rq_assignee inp = [] then Inl (ErrInvalidWorkItem ''workItemId and assigneeAgentId are required'')
      else if flt ''begin'' then Inl (WriteFailed ''coord.AgentRequestDispatch: begin'')
      else case agentHoldsCustodyScope flt now (rq_item inp) (rq_principal inp) (rq_agent inp) seen of
        Inl e \<Rightarrow> Inl (WriteFailed e)
      | Inr held \<Rightarrow>
          if \<not> held then Inl ErrAgentAuthorNotInCustody
          else RequestDispatch agents flt now
                 \<lparr>rd_item = rq_item inp, rd_agent = rq_assignee inp, rd_team = rq_team inp, rd_principal = rq_principal inp,
                  rd_initiated = [], rd_initiator = ''agent''\<rparr> db)"

section \<open>Comments\<close>

text \<open>
  References of a comment: \<open>valid\<close> is the uuid parser of the Go library, \<open>cast\<close> the database's
  own reading of a uuid, which fails the statement when it has none.
\<close>

fun resolve_refs ::
  "(string \<Rightarrow> bool) \<Rightarrow> (string \<Rightarrow> string option) \<Rightarrow> dbfaults \<Rightarrow> string \<Rightarrow> string \<Rightarrow> prod_db \<Rightarrow> string list \<Rightarrow> CommentRef list \<Rightarrow>
   string + CommentRef list" where
  "resolve_refs valid cast flt project team db seen [] = Inr []"
| "resolve_refs valid cast flt project team db seen (r # rs) =
     (let i = cf_item r in
      if i = [] \<or> \<not> valid i \<or> i \<in> set seen then resolve_refs valid cast flt project team db seen rs
      else if flt ''resolve'' then Inl ''resolve''
      else case cast i of
        None \<Rightarrow> Inl ''invalid input syntax for type uuid''
      | Some k \<Rightarrow>
          (case resolve_refs valid cast flt project team db (seen @ [i]) rs of
             Inl e \<Rightarrow> Inl e
           | Inr out \<Rightarrow>
               (case item_row_of db k of
                  None \<Rightarrow> Inr out
                | Some w \<Rightarrow>
                    if pw_project w = project \<and> visible_to team w
                    then Inr (\<lparr>cf_item = i, cf_title = pw_title w\<rparr> # out) else Inr out)))"

definition resolveCommentRefs ::
  "(string \<Rightarrow> bool) \<Rightarrow> (string \<Rightarrow> string option) \<Rightarrow> dbfaults \<Rightarrow> string \<Rightarrow> string \<Rightarrow> CommentRef list \<Rightarrow> prod_db \<Rightarrow>
   string + CommentRef list" where
  "resolveCommentRefs valid cast flt project team refs db =
     (if refs = [] \<or> project = [] then Inr [] else resolve_refs valid cast flt project team db [] refs)"

definition ref_json :: "CommentRef \<Rightarrow> jval" where
  "ref_json r = JObj [(''workItemId'', JStr (cf_item r)), (''title'', JStr (cf_title r))]"

definition refs_payload :: "CommentRef list \<Rightarrow> json option" where
  "refs_payload refs = (if refs = [] then None else Some [(''references'', JList (map ref_json refs))])"

definition nudge_guard :: "string \<Rightarrow> string \<Rightarrow> prod_db \<Rightarrow> prod_item \<Rightarrow> bool" where
  "nudge_guard item lane db w \<longleftrightarrow> pw_state w = lane \<and> unheld db item"

definition nudge_audit :: "instant \<Rightarrow> string \<Rightarrow> string \<Rightarrow> string \<Rightarrow> audit_row" where
  "nudge_audit now item prin lane =
     \<lparr>au_item = item, au_run = None, au_event = ''state_transition'', au_principal = prin, au_initiated = None,
      au_fence = None, au_from = Some lane, au_to = Some ''todo'',
      au_payload = [(''initiator'', JStr ''human''), (''from_state'', JStr lane), (''to_state'', JStr ''todo''), (''via'', JStr ''comment'')],
      au_created = now\<rparr>"

text \<open>The re-dispatch of a parked item: whether it moved, and the tables after it.\<close>

definition comment_nudge :: "dbfaults \<Rightarrow> instant \<Rightarrow> string \<Rightarrow> string \<Rightarrow> string \<Rightarrow> prod_db \<Rightarrow> work_error + (bool \<times> prod_db)" where
  "comment_nudge flt now item prin lane db =
     (if lane \<in> set commentReTriggerLanes \<and> unheld db item then
        (if flt ''re-dispatch'' then Inl (WriteFailed ''coord.AppendHumanComment: re-dispatch'')
         else (let G = nudge_guard item lane db;
                   db1 = db\<lparr>pd_items := upd_key pw_id item G (\<lambda>w. w\<lparr>pw_state := ''todo'', pw_updated := now\<rparr>) (pd_items db)\<rparr>
               in if flt ''re-dispatch rows'' then Inl (WriteFailed ''coord.AppendHumanComment: re-dispatch rows'')
                  else if aff_key pw_id item G (pd_items db) = 1 then
                    (if flt ''re-dispatch audit'' then Inl (WriteFailed ''coord.AppendHumanComment: re-dispatch audit'')
                     else Inr (True, insert_audit (nudge_audit now item prin lane) db1))
                  else Inr (False, db1)))
      else Inr (False, db))"

definition AppendHumanComment ::
  "(string \<Rightarrow> bool) \<Rightarrow> (string \<Rightarrow> string option) \<Rightarrow> dbfaults \<Rightarrow> instant \<Rightarrow> string \<Rightarrow> string \<Rightarrow> string \<Rightarrow> string \<Rightarrow> CommentRef list \<Rightarrow> prod_db \<Rightarrow>
   work_error + (HumanCommentOutcome \<times> prod_db)" where
  "AppendHumanComment valid cast flt now item team prin body refs db =
     (if item = [] \<or> prin = [] then Inl (ErrInvalidWorkItem ''workItemID and principal are required'')
      else if body = [] then Inl (ErrInvalidWorkItem ''comment body may not be empty'')
      else if flt ''begin'' then Inl (WriteFailed ''coord.AppendHumanComment: begin'')
      else if flt ''read item'' then Inl (WriteFailed ''coord.AppendHumanComment: read item'')
      else case item_row_of db item of
        None \<Rightarrow> Inl ErrWorkItemNotFound
      | Some w \<Rightarrow>
          if \<not> visible_to team w then Inl ErrWorkItemNotFound
          else (case resolveCommentRefs valid cast flt (pw_project w) team refs db of
                  Inl e \<Rightarrow> Inl (WriteFailed (''coord.AppendHumanComment: resolve refs: '' @ e))
                | Inr resolved \<Rightarrow>
                    if flt ''insert'' then Inl (WriteFailed ''coord.AppendHumanComment: insert'')
                    else (case writeAudit flt now item ''work_item_commented'' prin [] []
                                 (insert_comment \<lparr>cm_item = item, cm_author = prin, cm_body = body, cm_kind = None, cm_run = None,
                                    cm_payload = refs_payload resolved, cm_at = now\<rparr> db) of
                            Inl e \<Rightarrow> Inl e
                          | Inr db1 \<Rightarrow>
                              (case comment_nudge flt now item prin (pw_state w) db1 of
                                 Inl e \<Rightarrow> Inl e
                               | Inr (moved, db2) \<Rightarrow>
                                   if flt ''commit'' then Inl (WriteFailed ''coord.AppendHumanComment: commit'')
                                   else Inr (\<lparr>co_author = prin, co_body = body, co_created = now, co_refs = resolved, co_retriggered = moved,
                                               co_from = (if moved then pw_state w else []), co_to = (if moved then ''todo'' else [])\<rparr>, db2)))))"

end
