(* ===== verification/Prod_Handoff.thy ===== *)
theory Prod_Handoff
  imports Prod_Effects Work_Items
begin

text \<open>
  The structured hand-off of a completing Run (pkg/coord/prodhandoff.go) and the coordinator's
  dispatch of the next work item from the record (pkg/coord/proddispatch.go). The audit row of a
  hand-off stores the document; the artifact row points at it and carries its digest. How the
  database renders a stored document as text and what value that text denotes are parameters
  \<open>text_of\<close> and \<open>parse\<close>, as is its reading of a number, \<open>bigint\<close>. An audit row's id is its position in the
  table, counted from one; rows created at one time are listed in the order of their insertion.
\<close>

section \<open>Documents\<close>

record DraftWorkItem =
  dw_title :: string
  dw_body :: string

record ArtifactRef =
  rf_kind :: string
  rf_uri :: string
  rf_sha :: string

text \<open>A slice that is nil is rendered as null, so a missing list is not an empty one.\<close>

record HandoffDoc =
  hd_did :: "string list option"
  hd_decisions :: "string list option"
  hd_next :: "string list option"
  hd_blockers :: "string list option"
  hd_findings :: string
  hd_recommended :: "DraftWorkItem list option"
  hd_artifacts :: "ArtifactRef list option"

definition HandoffKind :: string where "HandoffKind = ''handoff''"

definition AuditHandoffURI :: string where "AuditHandoffURI = ''coord+audit://''"

definition jslice :: "('a \<Rightarrow> jval) \<Rightarrow> 'a list option \<Rightarrow> jval" where
  "jslice f xs = (case xs of None \<Rightarrow> JNull | Some ys \<Rightarrow> JList (map f ys))"

definition draft_json :: "DraftWorkItem \<Rightarrow> jval" where
  "draft_json d = JObj ((''title'', JStr (dw_title d)) # (if dw_body d = [] then [] else [(''body'', JStr (dw_body d))]))"

definition ref_row_json :: "ArtifactRef \<Rightarrow> jval" where
  "ref_row_json a = JObj [(''kind'', JStr (rf_kind a)), (''uri'', JStr (rf_uri a)), (''sha256'', JStr (rf_sha a))]"

definition marshal_doc :: "HandoffDoc \<Rightarrow> json" where
  "marshal_doc d =
     [(''did'', jslice JStr (hd_did d)), (''decisions'', jslice JStr (hd_decisions d)), (''next'', jslice JStr (hd_next d)),
      (''blockers'', jslice JStr (hd_blockers d)), (''findings'', JStr (hd_findings d)),
      (''recommended_next'', jslice draft_json (hd_recommended d)), (''artifacts_for_downstream'', jslice ref_row_json (hd_artifacts d))]"

text \<open>Decoding takes the fields by name; an absent or null one keeps the zero value.\<close>

definition un_str :: "jval \<Rightarrow> string option" where
  "un_str v = (case v of JStr s \<Rightarrow> Some s | JNull \<Rightarrow> Some [] | _ \<Rightarrow> None)"

fun un_all :: "('a \<Rightarrow> 'b option) \<Rightarrow> 'a list \<Rightarrow> 'b list option" where
  "un_all f [] = Some []"
| "un_all f (x # xs) =
     (case f x of None \<Rightarrow> None | Some y \<Rightarrow> (case un_all f xs of None \<Rightarrow> None | Some ys \<Rightarrow> Some (y # ys)))"

definition un_slice :: "(jval \<Rightarrow> 'a option) \<Rightarrow> jval \<Rightarrow> 'a list option option" where
  "un_slice f v =
     (case v of
        JNull \<Rightarrow> Some None
      | JList vs \<Rightarrow> (case un_all f vs of None \<Rightarrow> None | Some xs \<Rightarrow> Some (Some xs))
      | _ \<Rightarrow> None)"

definition un_field :: "(jval \<Rightarrow> 'a option) \<Rightarrow> 'a \<Rightarrow> string \<Rightarrow> json \<Rightarrow> 'a option" where
  "un_field f zero k j = (case map_of j k of None \<Rightarrow> Some zero | Some v \<Rightarrow> f v)"

definition un_draft :: "jval \<Rightarrow> DraftWorkItem option" where
  "un_draft v =
     (case v of
        JNull \<Rightarrow> Some \<lparr>dw_title = [], dw_body = []\<rparr>
      | JObj j \<Rightarrow> (case (un_field un_str [] ''title'' j, un_field un_str [] ''body'' j) of
                   (Some t, Some b) \<Rightarrow> Some \<lparr>dw_title = t, dw_body = b\<rparr> | _ \<Rightarrow> None)
      | _ \<Rightarrow> None)"

definition un_ref :: "jval \<Rightarrow> ArtifactRef option" where
  "un_ref v =
     (case v of
        JNull \<Rightarrow> Some \<lparr>rf_kind = [], rf_uri = [], rf_sha = []\<rparr>
      | JObj j \<Rightarrow> (case (un_field un_str [] ''kind'' j, un_field un_str [] ''uri'' j, un_field un_str [] ''sha256'' j) of
                   (Some k, Some u, Some h) \<Rightarrow> Some \<lparr>rf_kind = k, rf_uri = u, rf_sha = h\<rparr> | _ \<Rightarrow> None)
      | _ \<Rightarrow> None)"

definition unmarshal_doc :: "json \<Rightarrow> HandoffDoc option" where
  "unmarshal_doc j =
     (case (un_field (un_slice un_str) None ''did'' j, un_field (un_slice un_str) None ''decisions'' j,
            un_field (un_slice un_str) None ''next'' j, un_field (un_slice un_str) None ''blockers'' j,
            un_field un_str [] ''findings'' j, un_field (un_slice un_draft) None ''recommended_next'' j,
            un_field (un_slice un_ref) None ''artifacts_for_downstream'' j) of
        (Some did, Some decisions, Some nxt, Some blockers, Some findings, Some recommended, Some artifacts) \<Rightarrow>
          Some \<lparr>hd_did = did, hd_decisions = decisions, hd_next = nxt, hd_blockers = blockers, hd_findings = findings,
            hd_recommended = recommended, hd_artifacts = artifacts\<rparr>
      | _ \<Rightarrow> None)"

section \<open>Writing a hand-off\<close>

record HandoffWriteResult =
  hw_audit :: nat
  hw_uri :: string
  hw_sha :: string

datatype handoff_error = ErrNotHandoffCustodian | HandoffFailed string

definition live_custodian :: "instant \<Rightarrow> string \<Rightarrow> string \<Rightarrow> int \<Rightarrow> prod_claim \<Rightarrow> bool" where
  "live_custodian clock prin runID fence c \<longleftrightarrow>
     pc_holder c = Some prin \<and> pc_run c = Some runID \<and> pc_fence c = fence \<and> null_gt (pc_lease c) clock"

definition in_custody :: "instant \<Rightarrow> string \<Rightarrow> string \<Rightarrow> string \<Rightarrow> int \<Rightarrow> prod_db \<Rightarrow> bool" where
  "in_custody clock item prin runID fence db \<longleftrightarrow>
     (case claim_row_of db item of None \<Rightarrow> False | Some c \<Rightarrow> live_custodian clock prin runID fence c)"

text \<open>The artifact's upsert, both arms under the custody predicate: the rows affected and the table.\<close>

definition upsert_handoff ::
  "instant \<Rightarrow> instant \<Rightarrow> string \<Rightarrow> string \<Rightarrow> string \<Rightarrow> int \<Rightarrow> string \<Rightarrow> string \<Rightarrow> prod_db \<Rightarrow> nat \<times> prod_db" where
  "upsert_handoff clock now item prin runID fence uri sha db =
     (let row = \<lparr>ar_item = item, ar_run = Some runID, ar_kind = HandoffKind, ar_uri = uri, ar_sha = sha, ar_meta = None, ar_created = now\<rparr>
      in if \<not> in_custody clock item prin runID fence db then (0, db)
         else case lookup_by artifact_key (artifact_key row) (pd_artifacts db) of
           None \<Rightarrow> (1, db\<lparr>pd_artifacts := pd_artifacts db @ [row]\<rparr>)
         | Some r \<Rightarrow> (1, db\<lparr>pd_artifacts := upd_key artifact_key (artifact_key row) (\<lambda>_. True)
                            (\<lambda>r. r\<lparr>ar_uri := uri, ar_sha := sha\<rparr>) (pd_artifacts db)\<rparr>))"

text \<open>\<open>clock1\<close> and \<open>clock2\<close> are the wall clock at the two guarded statements.\<close>

definition WriteHandoff ::
  "(json \<Rightarrow> string) \<Rightarrow> dbfaults \<Rightarrow> instant \<Rightarrow> instant \<Rightarrow> instant \<Rightarrow> string \<Rightarrow> string \<Rightarrow> string \<Rightarrow> string \<Rightarrow> int \<Rightarrow> HandoffDoc \<Rightarrow> prod_db \<Rightarrow>
   handoff_error + (HandoffWriteResult \<times> prod_db)" where
  "WriteHandoff text_of flt now clock1 clock2 item prin runID initiated fence doc db =
     (if item = [] \<or> prin = [] \<or> runID = []
      then Inl (HandoffFailed ''coord.ProdHandoffWriter.WriteHandoff: itemID, principal and runID are required'')
      else if flt ''begin'' then Inl (HandoffFailed ''coord.ProdHandoffWriter.WriteHandoff: begin'')
      else if flt ''audit'' then Inl (HandoffFailed ''coord.ProdHandoffWriter.WriteHandoff: audit'')
      else if \<not> in_custody clock1 item prin runID fence db then Inl ErrNotHandoffCustodian
      else (let auditID = Suc (length (pd_audit db));
                db1 = insert_audit \<lparr>au_item = item, au_run = Some runID, au_event = ''artifact_registered'', au_principal = prin,
                        au_initiated = nullable initiated, au_fence = Some fence, au_from = None, au_to = None,
                        au_payload = marshal_doc doc, au_created = now\<rparr> db;
                digest = sha256_hex (text_of (marshal_doc doc));
                uri = AuditHandoffURI @ nat_str auditID
            in if flt ''artifact'' then Inl (HandoffFailed ''coord.ProdHandoffWriter.WriteHandoff: artifact'')
               else case upsert_handoff clock2 now item prin runID fence uri digest db1 of
                 (n, db2) \<Rightarrow>
                   if n \<noteq> 1 then Inl ErrNotHandoffCustodian
                   else if flt ''commit'' then Inl (HandoffFailed ''coord.ProdHandoffWriter.WriteHandoff: commit'')
                   else Inr (\<lparr>hw_audit = auditID, hw_uri = uri, hw_sha = digest\<rparr>, db2)))"

section \<open>Reading it back\<close>

definition audit_by_id :: "nat \<Rightarrow> prod_db \<Rightarrow> audit_row option" where
  "audit_by_id n db = (if n = 0 \<or> length (pd_audit db) < n then None else Some (pd_audit db ! (n - 1)))"

definition AuditHandoffContent ::
  "(json \<Rightarrow> string) \<Rightarrow> (string \<Rightarrow> nat option) \<Rightarrow> dbfaults \<Rightarrow> prod_db \<Rightarrow> string \<Rightarrow> string + string" where
  "AuditHandoffContent text_of bigint flt db uri =
     (if \<not> has_prefix AuditHandoffURI uri then Inl ''coord.AuditHandoffContent: unsupported uri''
      else if flt ''content'' then Inl ''coord.AuditHandoffContent: read''
      else case bigint (drop (length AuditHandoffURI) uri) of
        None \<Rightarrow> Inl ''coord.AuditHandoffContent: read''
      | Some n \<Rightarrow>
          (case audit_by_id n db of
             None \<Rightarrow> Inl ''coord.AuditHandoffContent: no handoff content''
           | Some al \<Rightarrow>
               (let payload = text_of (au_payload al);
                    registered = map ar_sha (filter (\<lambda>a. ar_uri a = uri) (pd_artifacts db))
                in if registered = [] then Inl ''coord.AuditHandoffContent: no handoff content''
                   else if sha256_hex payload \<notin> set registered then Inl ''coord.AuditHandoffContent: content digest mismatch''
                   else Inr payload)))"

record RecordComment =
  rc_author :: string
  rc_body :: string
  rc_created :: instant

record HandoffView =
  hv_source :: string
  hv_state :: string
  hv_run :: string
  hv_comments :: "RecordComment list"
  hv_artifacts :: "ArtifactRef list"
  hv_handoff :: "HandoffDoc option"

definition record_comments :: "prod_db \<Rightarrow> string \<Rightarrow> RecordComment list" where
  "record_comments db item =
     map (\<lambda>c. \<lparr>rc_author = cm_author c, rc_body = cm_body c, rc_created = cm_at c\<rparr>)
       (sort_key cm_at (filter (\<lambda>c. cm_item c = item) (pd_comments db)))"

definition record_artifacts :: "prod_db \<Rightarrow> string \<Rightarrow> ArtifactRef list" where
  "record_artifacts db item =
     map (\<lambda>a. \<lparr>rf_kind = ar_kind a, rf_uri = ar_uri a, rf_sha = ar_sha a\<rparr>)
       (sort_key ar_created (filter (\<lambda>a. ar_item a = item) (pd_artifacts db)))"

text \<open>The first hand-off artifact listed decides; the resolver is optional.\<close>

definition resolve_handoff ::
  "(string \<Rightarrow> string + string) option \<Rightarrow> (string \<Rightarrow> json option) \<Rightarrow> ArtifactRef list \<Rightarrow> string + HandoffDoc option" where
  "resolve_handoff content parse arts =
     (case content of
        None \<Rightarrow> Inr None
      | Some get \<Rightarrow>
          (case find (\<lambda>a. rf_kind a = HandoffKind) arts of
             None \<Rightarrow> Inr None
           | Some a \<Rightarrow>
               (case get (rf_uri a) of
                  Inl e \<Rightarrow> Inl (''coord.ReadHandoff: resolve handoff artifact: '' @ e)
                | Inr raw \<Rightarrow>
                    (case Option.bind (parse raw) unmarshal_doc of
                       None \<Rightarrow> Inl ''coord.ReadHandoff: parse handoff artifact''
                     | Some doc \<Rightarrow> Inr (Some doc)))))"

definition ReadHandoff ::
  "(string \<Rightarrow> string + string) option \<Rightarrow> (string \<Rightarrow> json option) \<Rightarrow> dbfaults \<Rightarrow> prod_db \<Rightarrow> string \<Rightarrow> string + HandoffView" where
  "ReadHandoff content parse flt db item =
     (if flt ''read item'' then Inl ''coord.ReadHandoff: read item''
      else case (item_row_of db item, claim_row_of db item) of
        (Some w, Some c) \<Rightarrow>
          (case pc_run c of
             None \<Rightarrow> Inl ''coord.ReadHandoff: read item''
           | Some run \<Rightarrow>
               if flt ''comments'' then Inl ''coord.ReadHandoff: comments''
               else if flt ''artifacts'' then Inl ''coord.ReadHandoff: artifacts''
               else (case resolve_handoff content parse (record_artifacts db item) of
                       Inl e \<Rightarrow> Inl e
                     | Inr h \<Rightarrow> Inr \<lparr>hv_source = item, hv_state = pw_state w, hv_run = run, hv_comments = record_comments db item,
                                      hv_artifacts = record_artifacts db item, hv_handoff = h\<rparr>))
      | _ \<Rightarrow> Inl ''coord.ReadHandoff: no work item'')"

definition AdoptRecommendation :: "HandoffView \<Rightarrow> DraftWorkItem list option" where
  "AdoptRecommendation v = (case hv_handoff v of None \<Rightarrow> None | Some d \<Rightarrow> hd_recommended d)"

section \<open>Dispatching the next item\<close>

record DispatchDecision =
  dd_coordinator :: string
  dd_source :: string
  dd_run :: string
  dd_title :: string
  dd_body :: string
  dd_followed :: bool
  dd_parent :: bool

record DispatchResult =
  ds_created :: string
  ds_already :: bool

datatype next_error = ErrSourceNotComplete | ErrCompletingRunMismatch | NextFailed string

definition dispatch_key :: "DispatchDecision \<Rightarrow> string" where
  "dispatch_key dec = dd_source dec @ '':'' @ dd_run dec @ '':next''"

definition next_item :: "instant \<Rightarrow> string \<Rightarrow> DispatchDecision \<Rightarrow> prod_item \<Rightarrow> prod_item" where
  "next_item now new dec s =
     \<lparr>pw_id = new, pw_state = ''todo'', pw_created = now, pw_updated = now, pw_project = pw_project s, pw_team = pw_team s,
      pw_source = None, pw_parent = (if dd_parent dec then Some (dd_source dec) else None), pw_title = dd_title dec,
      pw_body = Some (dd_body dec), pw_created_by = dd_coordinator dec, pw_priority = None, pw_work_mode = None,
      pw_labels = [], pw_requested = None, pw_blocked = None\<rparr>"

definition next_audit :: "instant \<Rightarrow> string \<Rightarrow> DispatchDecision \<Rightarrow> audit_row" where
  "next_audit now new dec =
     \<lparr>au_item = dd_source dec, au_run = Some (dd_run dec), au_event = ''coordinator_dispatched'', au_principal = dd_coordinator dec,
      au_initiated = None, au_fence = None, au_from = Some ''done'', au_to = Some ''todo'',
      au_payload = [(''source_work_item_id'', JStr (dd_source dec)), (''source_run_id'', JStr (dd_run dec)),
                    (''created_work_item_id'', JStr new), (''dedupe_key'', JStr (dispatch_key dec)),
                    (''advisory_followed'', JBool (dd_followed dec))],
      au_created = now\<rparr>"

definition DispatchNextOfRecord ::
  "dbfaults \<Rightarrow> instant \<Rightarrow> string \<Rightarrow> DispatchDecision \<Rightarrow> prod_db \<Rightarrow> (next_error + DispatchResult) \<times> prod_db" where
  "DispatchNextOfRecord flt now new dec db =
     (if dd_coordinator dec = [] \<or> dd_source dec = [] \<or> dd_run dec = [] \<or> dd_title dec = []
      then (Inl (NextFailed ''coord.DispatchNextOfRecord: all fields are required''), db)
      else if flt ''begin'' then (Inl (NextFailed ''coord.DispatchNextOfRecord: begin''), db)
      else if flt ''read source'' then (Inl (NextFailed ''coord.DispatchNextOfRecord: read source''), db)
      else case (item_row_of db (dd_source dec), claim_row_of db (dd_source dec)) of
        (Some s, Some c) \<Rightarrow>
          (case pc_run c of
             None \<Rightarrow> (Inl (NextFailed ''coord.DispatchNextOfRecord: read source''), db)
           | Some run \<Rightarrow>
               if pw_state s \<noteq> ''done'' then (Inl ErrSourceNotComplete, db)
               else if run \<noteq> dd_run dec then (Inl ErrCompletingRunMismatch, db)
               else if flt ''create'' then (Inl (NextFailed ''coord.DispatchNextOfRecord: create next item''), db)
               else (case insert_work_item (next_item now new dec s) db of
                       None \<Rightarrow> (Inl (NextFailed ''coord.DispatchNextOfRecord: create next item''), db)
                     | Some db1 \<Rightarrow>
                         if flt ''marker'' then (Inl (NextFailed ''coord.DispatchNextOfRecord: marker''), db)
                         else (case lookup_by dx_key (dispatch_key dec) (pd_dispatch db1) of
                                 Some m \<Rightarrow>
                                   if flt ''read existing'' then (Inl (NextFailed ''coord.DispatchNextOfRecord: read existing dispatch''), db)
                                   else (Inr \<lparr>ds_created = dx_created m, ds_already = True\<rparr>, db)
                               | None \<Rightarrow>
                                   if flt ''audit'' then (Inl (NextFailed ''coord.DispatchNextOfRecord: audit''), db)
                                   else if flt ''commit'' then (Inl (NextFailed ''coord.DispatchNextOfRecord: commit''), db)
                                   else (Inr \<lparr>ds_created = new, ds_already = False\<rparr>,
                                         insert_audit (next_audit now new dec)
                                           (db1\<lparr>pd_dispatch := pd_dispatch db1 @
                                              [\<lparr>dx_key = dispatch_key dec, dx_source = dd_source dec, dx_source_run = dd_run dec,
                                                dx_created = new, dx_by = dd_coordinator dec, dx_at = now\<rparr>]\<rparr>)))))
      | _ \<Rightarrow> (Inl (NextFailed ''coord.DispatchNextOfRecord: no source work item''), db))"

section \<open>Documents survive storage\<close>

text \<open>Two values that differ in the order of their objects' keys at most.\<close>

inductive reordered :: "jval \<Rightarrow> jval \<Rightarrow> bool" where
  re_str: "reordered (JStr s) (JStr s)"
| re_null: "reordered JNull JNull"
| re_list: "list_all2 reordered xs ys \<Longrightarrow> reordered (JList xs) (JList ys)"
| re_obj: "(\<And>k. map_of a k = None \<longleftrightarrow> map_of b k = None) \<Longrightarrow>
    (\<And>k v v'. map_of a k = Some v \<Longrightarrow> map_of b k = Some v' \<Longrightarrow> reordered v v') \<Longrightarrow> reordered (JObj a) (JObj b)"
monos list.rel_mono_strong

inductive_cases reorderedE: "reordered v v'"
inductive_cases reordered_ObjE: "reordered (JObj a) (JObj b)"

lemma reordered_keys: "reordered (JObj a) (JObj b) \<Longrightarrow> map_of a k = None \<longleftrightarrow> map_of b k = None"
  by (erule reordered_ObjE) simp

lemma un_str_re: "reordered v v' \<Longrightarrow> un_str v' = un_str v"
  by (erule reorderedE) (auto simp: un_str_def)

lemma un_all_re: "list_all2 reordered xs ys \<Longrightarrow> (\<And>v v'. reordered v v' \<Longrightarrow> f v' = f v) \<Longrightarrow> un_all f ys = un_all f xs"
  by (induction rule: list_all2_induct) (auto split: option.splits)

lemma un_slice_re: "reordered v v' \<Longrightarrow> (\<And>v v'. reordered v v' \<Longrightarrow> f v' = f v) \<Longrightarrow> un_slice f v' = un_slice f v"
  by (erule reorderedE) (auto simp: un_slice_def un_all_re)

lemma un_field_re:
  assumes "reordered (JObj a) (JObj b)" and "\<And>v v'. reordered v v' \<Longrightarrow> f v' = f v"
  shows "un_field f zero k b = un_field f zero k a"
proof (cases "map_of a k")
  case None
  then have "map_of b k = None" using reordered_keys [OF assms(1), of k] by simp
  then show ?thesis using None by (simp add: un_field_def)
next
  case (Some v)
  then obtain v' where v': "map_of b k = Some v'" using reordered_keys [OF assms(1), of k] by auto
  have "reordered v v'" using assms(1) by (rule reordered_ObjE) (use Some v' in auto)
  then show ?thesis using Some v' assms(2) by (simp add: un_field_def)
qed

lemma un_draft_re: "reordered v v' \<Longrightarrow> un_draft v' = un_draft v"
  by (cases v; cases v') (auto simp: un_draft_def un_field_re [OF _ un_str_re] elim: reorderedE)

lemma un_ref_re: "reordered v v' \<Longrightarrow> un_ref v' = un_ref v"
  by (cases v; cases v') (auto simp: un_ref_def un_field_re [OF _ un_str_re] elim: reorderedE)

lemma unmarshal_re: "reordered (JObj a) (JObj b) \<Longrightarrow> unmarshal_doc b = unmarshal_doc a"
  by (simp add: unmarshal_doc_def un_field_re un_slice_re un_str_re un_draft_re un_ref_re)

lemma un_all_map: "(\<And>x. f (g x) = Some x) \<Longrightarrow> un_all f (map g xs) = Some xs"
  by (induction xs) auto

lemma un_slice_map: "(\<And>x. f (g x) = Some x) \<Longrightarrow> un_slice f (jslice g xs) = Some xs"
  by (cases xs) (auto simp: un_slice_def jslice_def un_all_map)

lemma un_draft_json: "un_draft (draft_json d) = Some d"
  by (cases d) (auto simp: un_draft_def draft_json_def un_field_def un_str_def)

lemma un_ref_json: "un_ref (ref_row_json r) = Some r"
  by (cases r) (auto simp: un_ref_def ref_row_json_def un_field_def un_str_def)

lemma unmarshal_marshal: "unmarshal_doc (marshal_doc d) = Some d"
  by (cases d)
    (simp add: unmarshal_doc_def marshal_doc_def un_field_def un_slice_map un_str_def un_draft_json un_ref_json)

end
