(* ===== verification/Work_Tree.thy ===== *)
theory Work_Tree
  imports Work_Dispatch Prod_Handoff
begin

text \<open>
  What the work item operations keep together: any sequence of creates, edits, dispatches,
  comments and coordinator dispatches, by humans and by agents, failing anywhere, leaves a forest
  of well-formed items, and the agents' lane stays within its depth and budget bounds.
\<close>

section \<open>Sequences of operations\<close>

record work_env =
  we_scan :: "string list \<Rightarrow> string list option"
  we_agents :: team_agents
  we_valid :: "string \<Rightarrow> bool"
  we_cast :: "string \<Rightarrow> string option"

datatype work_op =
  OpCreate instant string CreateWorkItemInput
| OpEdit instant string UpdateWorkItemInput
| OpAgentCreate instant string AgentCreateWorkItemInput
| OpAgentEdit instant string AgentUpdateWorkItemInput
| OpDispatch instant RequestDispatchInput
| OpAgentDispatch instant AgentRequestDispatchInput prod_db
| OpComment instant string string string string "CommentRef list"
| OpNext instant string DispatchDecision

definition committed :: "'e + ('r \<times> prod_db) \<Rightarrow> prod_db \<Rightarrow> prod_db" where
  "committed r db = (case r of Inl _ \<Rightarrow> db | Inr (_, db') \<Rightarrow> db')"

definition work_step :: "work_env \<Rightarrow> dbfaults \<times> work_op \<Rightarrow> prod_db \<Rightarrow> prod_db" where
  "work_step env x db =
     (case x of (flt, p) \<Rightarrow>
        (case p of
           OpCreate now new inp \<Rightarrow> committed (CreateWorkItem flt now new inp db) db
         | OpEdit now item inp \<Rightarrow> committed (UpdateWorkItem (we_scan env) flt now item inp db) db
         | OpAgentCreate now new inp \<Rightarrow> committed (AgentCreateWorkItem flt now new inp db) db
         | OpAgentEdit now item inp \<Rightarrow> committed (AgentUpdateWorkItem flt now item inp db) db
         | OpDispatch now inp \<Rightarrow> committed (RequestDispatch (we_agents env) flt now inp db) db
         | OpAgentDispatch now inp seen \<Rightarrow> committed (AgentRequestDispatch (we_agents env) flt now inp seen db) db
         | OpComment now item team prin body refs \<Rightarrow>
             committed (AppendHumanComment (we_valid env) (we_cast env) flt now item team prin body refs db) db
         | OpNext now new dec \<Rightarrow> snd (DispatchNextOfRecord flt now new dec db)))"

definition work_run :: "work_env \<Rightarrow> (dbfaults \<times> work_op) list \<Rightarrow> prod_db \<Rightarrow> prod_db" where
  "work_run env ops db = fold (work_step env) ops db"

text \<open>The ids the database generates are not empty.\<close>

fun new_id :: "work_op \<Rightarrow> string option" where
  "new_id (OpCreate now new inp) = Some new"
| "new_id (OpAgentCreate now new inp) = Some new"
| "new_id (OpNext now new dec) = Some new"
| "new_id _ = None"

definition fresh_ids :: "(dbfaults \<times> work_op) list \<Rightarrow> bool" where
  "fresh_ids ops \<longleftrightarrow> list_all (\<lambda>x. new_id (snd x) \<noteq> Some []) ops"

text \<open>
  What every allowed operation keeps, every sequence of allowed operations keeps; the laws of the
  tree are instances of this contract.
\<close>

locale kept_by_steps =
  fixes step :: "'x \<Rightarrow> 's \<Rightarrow> 's" and ok :: "'x \<Rightarrow> bool" and inv :: "'s \<Rightarrow> bool"
  assumes step_keeps: "ok x \<Longrightarrow> inv s \<Longrightarrow> inv (step x s)"
begin

lemma run_keeps: "list_all ok xs \<Longrightarrow> inv s \<Longrightarrow> inv (fold step xs s)"
  by (induction xs arbitrary: s) (auto intro: step_keeps)

lemma prefix_keeps: "list_all ok xs \<Longrightarrow> inv s \<Longrightarrow> inv (fold step (take n xs) s)"
  by (rule run_keeps) (auto simp: list_all_iff dest: in_set_takeD)

end

section \<open>What a committed operation did\<close>

lemma CreateWorkItem_effect:
  assumes "CreateWorkItem flt now new inp db = Inr (rec, db')"
  obtains priority workMode labels team parent db1 where
    "normalizeCreateFields (ci_priority inp) (ci_work_mode inp) (ci_labels inp) = Inr (priority, workMode, labels)"
    "insert_work_item (new_work_item now new (ci_project inp) team parent (ci_title inp) (ci_body inp) (ci_principal inp)
       priority workMode labels) db = Some db1"
    "db' = insert_audit (write_audit_row now new None ''work_item_created'' (ci_principal inp) (nullable (ci_initiated inp))
       (create_detail (ci_title inp) parent priority workMode labels)) db1"
  using assms
  by (auto simp: CreateWorkItem_def writeAudit_def Let_def split: if_splits sum.splits option.splits prod.splits)

lemma edit_write_effect:
  assumes "edit_write flt op now item title body parent w db = Inr (v, db1)"
  obtains n where "update_work_item now item (pw_updated w) (new_title title w) (new_text body (pw_body w))
      (new_text parent (pw_parent w)) db = Some (n, db1)" "n \<noteq> 0" "item_row_of db1 item = Some v"
  using assms by (auto simp: edit_write_def split: if_splits option.splits)

lemma UpdateWorkItem_effect:
  assumes "UpdateWorkItem scan flt now item inp db = Inr (rec, db')"
  obtains w v db1 where "update_check flt item inp db = Inr w"
    "edit_write flt ''coord.UpdateWorkItem'' now item (ui_title inp) (ui_body inp) (ui_parent inp) w db = Inr (v, db1)"
    "db' = insert_audit (write_audit_row now item None ''work_item_edited'' (ui_principal inp) (nullable (ui_initiated inp))
       (editedFields inp)) db1"
  using assms
  by (auto simp: UpdateWorkItem_def update_apply_def writeAudit_def split: if_splits sum.splits option.splits prod.splits)

lemma AgentCreateWorkItem_effect:
  assumes "AgentCreateWorkItem flt now new inp db = Inr (rec, db')"
  obtains priority workMode labels p db1 where
    "normalizeCreateFields (ac_priority inp) (ac_work_mode inp) (ac_labels inp) = Inr (priority, workMode, labels)"
    "agent_create_check flt now inp db = Inr p" "ac_parent inp \<noteq> []"
    "insert_work_item (new_work_item now new (pw_project p) (pw_team p) (Some (ac_parent inp)) (ac_title inp) (ac_body inp)
       (ac_principal inp) priority workMode labels) db = Some db1"
    "db' = insert_audit (write_audit_row now new (Some (ac_run inp)) ''work_item_created'' (ac_principal inp) None
       (create_detail (ac_title inp) (Some (ac_parent inp)) priority workMode labels @
        [(''agent'', JStr (ac_agent inp)), (''agent_write'', JBool True)])) db1"
  using assms
  by (auto simp: AgentCreateWorkItem_def agent_create_apply_def writeAgentAudit_def Let_def
      split: if_splits sum.splits option.splits prod.splits)

lemma AgentUpdateWorkItem_effect:
  assumes "AgentUpdateWorkItem flt now item inp db = Inr (rec, db')"
  obtains w v db1 where "agent_update_check flt now item inp db = Inr w"
    "edit_write flt ''coord.AgentUpdateWorkItem'' now item (ag_title inp) (ag_body inp) (ag_parent inp) w db = Inr (v, db1)"
    "db' = insert_audit (write_audit_row now item (Some (ag_run inp)) ''work_item_edited'' (ag_principal inp) None
       (agentEditedFields inp)) db1"
  using assms
  by (auto simp: AgentUpdateWorkItem_def agent_update_apply_def writeAgentAudit_def
      split: if_splits sum.splits option.splits prod.splits)

lemma RequestDispatch_effect:
  assumes "RequestDispatch agents flt now inp db = Inr (r, db')"
  obtains w lane to event names where "item_row_of db (rd_item inp) = Some w" "visible_to (rd_team inp) w"
    "coalesce (pw_team w) \<noteq> []" "dispatch_plan flt (rd_item inp) (pw_state w) db = Inr (lane, to, event)"
    "agents (coalesce (pw_team w)) = Inr names" "containsString names (rd_agent inp)"
    "aff_key pw_id (rd_item inp) (dispatch_guard (rd_item inp) lane db) (pd_items db) \<noteq> 0"
    "r = \<lparr>dr_item = rd_item inp, dr_from = lane, dr_to = to, dr_agent = rd_agent inp\<rparr>"
    "db' = insert_audit (dispatch_audit now inp lane to event)
       (db\<lparr>pd_items := upd_key pw_id (rd_item inp) (dispatch_guard (rd_item inp) lane db) (dispatch_set now (rd_agent inp) lane) (pd_items db)\<rparr>)"
  using assms by (auto simp: RequestDispatch_def Let_def split: if_splits sum.splits option.splits prod.splits)

lemma comment_nudge_effect:
  assumes "comment_nudge flt now item prin lane db = Inr (moved, db')"
  shows "\<not> moved \<and> db' = db \<or>
    (\<exists>G. db' = db\<lparr>pd_items := upd_key pw_id item G (\<lambda>w. w\<lparr>pw_state := ''todo'', pw_updated := now\<rparr>) (pd_items db)\<rparr> \<and> \<not> moved) \<or>
    moved \<and> lane \<in> set commentReTriggerLanes \<and> unheld db item \<and>
    db' = insert_audit (nudge_audit now item prin lane)
      (db\<lparr>pd_items := upd_key pw_id item (nudge_guard item lane db) (\<lambda>w. w\<lparr>pw_state := ''todo'', pw_updated := now\<rparr>) (pd_items db)\<rparr>)"
  using assms by (auto simp: comment_nudge_def Let_def split: if_splits)

lemma AppendHumanComment_effect:
  assumes "AppendHumanComment valid cast flt now item team prin body refs db = Inr (r, db')"
  obtains w resolved db1 moved where "item_row_of db item = Some w" "visible_to team w"
    "resolveCommentRefs valid cast flt (pw_project w) team refs db = Inr resolved"
    "db1 = insert_audit (write_audit_row now item None ''work_item_commented'' prin None [])
       (insert_comment \<lparr>cm_item = item, cm_author = prin, cm_body = body, cm_kind = None, cm_run = None,
          cm_payload = refs_payload resolved, cm_at = now\<rparr> db)"
    "comment_nudge flt now item prin (pw_state w) db1 = Inr (moved, db')" "co_retriggered r = moved"
  using assms
  by (auto simp: AppendHumanComment_def writeAudit_def nullable_def split: if_splits sum.splits option.splits prod.splits)

lemma DispatchNextOfRecord_effect:
  assumes "DispatchNextOfRecord flt now new dec db = (r, db')"
  shows "db' = db \<or> (\<exists>s c db1. r = Inr \<lparr>ds_created = new, ds_already = False\<rparr> \<and> item_row_of db (dd_source dec) = Some s \<and>
    claim_row_of db (dd_source dec) = Some c \<and> pc_run c = Some (dd_run dec) \<and> pw_state s = ''done'' \<and>
    insert_work_item (next_item now new dec s) db = Some db1 \<and> lookup_by dx_key (dispatch_key dec) (pd_dispatch db1) = None \<and>
    db' = insert_audit (next_audit now new dec) (db1\<lparr>pd_dispatch := pd_dispatch db1 @
      [\<lparr>dx_key = dispatch_key dec, dx_source = dd_source dec, dx_source_run = dd_run dec,
        dx_created = new, dx_by = dd_coordinator dec, dx_at = now\<rparr>]\<rparr>))"
  using assms by (auto simp: DispatchNextOfRecord_def split: if_splits option.splits prod.splits)

section \<open>The tree\<close>

lemma forest_cong: "pd_items db' = pd_items db \<Longrightarrow> forest db' = forest db"
  by (simp add: forest_def parents_exist_def parent_rel_def parent_of_def)

lemma up_cong: "(\<And>j. parent_of db' j = parent_of db j) \<Longrightarrow> up db' n j = up db n j"
  by (induction n arbitrary: j) (auto split: option.splits)

lemma capped_cong: "(\<And>j. parent_of db' j = parent_of db j) \<Longrightarrow> capped k db' = capped k db"
  using up_cong [of db' db] by (simp add: capped_def)

definition same_tree :: "(prod_item \<Rightarrow> prod_item) \<Rightarrow> bool" where
  "same_tree g \<longleftrightarrow> (\<forall>w. pw_id (g w) = pw_id w \<and> pw_parent (g w) = pw_parent w \<and> pw_project (g w) = pw_project w)"

lemma touched_row:
  assumes "pd_items db' = upd_key pw_id i G g (pd_items db)" and "same_tree g"
  shows "item_row_of db' j = map_option (\<lambda>w. if j = i \<and> G w then g w else w) (item_row_of db j)"
  using assms by (cases "item_row_of db j") (auto simp: same_tree_def)

lemma parent_of_touched:
  assumes "pd_items db' = upd_key pw_id i G g (pd_items db)" and "same_tree g"
  shows "parent_of db' j = parent_of db j"
  using touched_row [OF assms, of j] assms(2) by (auto simp: parent_of_def same_tree_def split: option.splits)

lemma forest_touched:
  assumes "pd_items db' = upd_key pw_id i G g (pd_items db)" and "same_tree g" and "forest db"
  shows "forest db'"
proof -
  have wf: "wf_table pw_id (pd_items db')" using assms by (simp add: forest_def same_tree_def)
  have row: "item_row_of db' j = map_option (\<lambda>w. if j = i \<and> G w then g w else w) (item_row_of db j)" for j
    by (rule touched_row [OF assms(1,2)])
  have rel: "parent_rel db' = parent_rel db" using parent_of_touched [OF assms(1,2)] by (simp add: parent_rel_def)
  have "parents_exist db'"
    unfolding parents_exist_def
  proof (intro ballI conjI allI impI)
    fix v assume "v \<in> set (pd_items db')"
    then obtain w where w: "w \<in> set (pd_items db)" "v = w \<or> v = g w"
      using assms(1) by (auto simp: upd_key_def sql_update_def split: if_splits)
    then show "pw_id v \<noteq> []" using assms(2,3) by (auto simp: forest_def parents_exist_def same_tree_def)
    fix p assume "pw_parent v = Some p"
    then obtain q where "item_row_of db p = Some q" "pw_project q = pw_project v"
      using w assms(2,3) by (fastforce simp: forest_def parents_exist_def same_tree_def)
    then show "\<exists>q. item_row_of db' p = Some q \<and> pw_project q = pw_project v" using row assms(2) by (auto simp: same_tree_def)
  qed
  with wf rel show ?thesis using assms(3) by (simp add: forest_def)
qed

lemma same_tree_updates [simp]:
  "same_tree (dispatch_set now agent lane)" "same_tree (\<lambda>w. w\<lparr>pw_state := st, pw_updated := now\<rparr>)"
  by (simp_all add: same_tree_def dispatch_set_def)

text \<open>An edit's new parent is the old one, none, or one the walk has cleared.\<close>

definition edit_clear :: "prod_db \<Rightarrow> string \<Rightarrow> string option \<Rightarrow> prod_item \<Rightarrow> bool" where
  "edit_clear db item parent w \<longleftrightarrow> item_row_of db item = Some w \<and>
     (\<forall>p. parent = Some p \<and> p \<noteq> [] \<longrightarrow> (p, item) \<notin> (parent_rel db)\<^sup>*)"

lemma ancestorIncludes_False: "ancestorIncludes flt db p item = Inr False \<Longrightarrow> (p, item) \<notin> (parent_rel db)\<^sup>*"
  unfolding ancestorIncludes_def by (rule ancestor_walk_False)

lemma update_check_clear: "update_check flt item inp db = Inr w \<Longrightarrow> edit_clear db item (ui_parent inp) w"
  by (auto simp: update_check_def edit_clear_def reparent_refused_def dest!: ancestorIncludes_False
      split: if_splits option.splits sum.splits)

lemma agent_update_check_clear: "agent_update_check flt now item inp db = Inr w \<Longrightarrow> edit_clear db item (ag_parent inp) w"
  by (auto simp: agent_update_check_def edit_clear_def agent_reparent_refused_def dest!: ancestorIncludes_False
      split: if_splits option.splits sum.splits)

lemma parent_not_Nil:
  assumes "forest db" and "item_row_of db i = Some w" and "pw_parent w = Some p" shows "p \<noteq> []"
proof -
  have ex: "parents_exist db" using assms(1) by (simp add: forest_def)
  have "w \<in> set (pd_items db)" using lookup_by_Some [OF assms(2)] by simp
  then obtain q where q: "item_row_of db p = Some q" using ex assms(3) unfolding parents_exist_def by blast
  then have "q \<in> set (pd_items db)" "pw_id q = p" using lookup_by_Some [OF q] by simp_all
  then show ?thesis using ex unfolding parents_exist_def by blast
qed

lemma forest_edit:
  assumes "forest db" and "edit_clear db item parent w" and "edit_write flt op now item title body parent w db = Inr (v, db1)"
  shows "forest db1"
proof -
  obtain n where u: "update_work_item now item (pw_updated w) (new_title title w) (new_text body (pw_body w))
      (new_text parent (pw_parent w)) db = Some (n, db1)"
    by (rule edit_write_effect [OF assms(3)])
  show ?thesis
  proof (rule forest_update [OF assms(1) u])
    fix p assume p: "new_text parent (pw_parent w) = Some p"
    show "parent_of db item = Some p \<or> (p, item) \<notin> (parent_rel db)\<^sup>*"
    proof (cases parent)
      case None
      then have "pw_parent w = Some p" using p by (simp add: new_text_def)
      moreover have "item_row_of db item = Some w" using assms(2) by (simp add: edit_clear_def)
      moreover have "p \<noteq> []" by (rule parent_not_Nil [OF assms(1) calculation(2,1)])
      ultimately show ?thesis by (simp add: parent_of_def)
    next
      case (Some q)
      then have "q = p" "p \<noteq> []" using p by (auto simp: new_text_def nullable_def split: if_splits)
      then show ?thesis using assms(2) Some by (simp add: edit_clear_def)
    qed
  qed
qed

lemma forest_audit [simp]: "forest (insert_audit a db) = forest db"
  by (rule forest_cong) simp

section \<open>One step on the tree\<close>

text \<open>
  Every operation leaves the tree alone, hangs one new item into it, or makes one edit that its
  checks have cleared.
\<close>

definition touched :: "prod_db \<Rightarrow> prod_db \<Rightarrow> bool" where
  "touched db db' \<longleftrightarrow> (\<exists>i G g. same_tree g \<and> pd_items db' = upd_key pw_id i G g (pd_items db))"

definition created :: "prod_item \<Rightarrow> prod_db \<Rightarrow> prod_db \<Rightarrow> bool" where
  "created w db db' \<longleftrightarrow> (\<exists>db1. insert_work_item w db = Some db1 \<and> pd_items db' = pd_items db1)"

definition edited :: "string \<Rightarrow> string option \<Rightarrow> prod_db \<Rightarrow> prod_db \<Rightarrow> bool" where
  "edited item parent db db' \<longleftrightarrow> (\<exists>flt op now title body w v db1. edit_clear db item parent w \<and>
     edit_write flt op now item title body parent w db = Inr (v, db1) \<and> pd_items db' = pd_items db1)"

lemma touched_refl [simp]: "touched db db"
  unfolding touched_def
  by (intro exI [of _ "[]"] exI [of _ "\<lambda>_. False"] exI [of _ id])
    (simp add: same_tree_def upd_key_def sql_update_def)

lemma touchedI: "pd_items db' = upd_key pw_id i G g (pd_items db) \<Longrightarrow> same_tree g \<Longrightarrow> touched db db'"
  unfolding touched_def by blast

lemma create_created:
  assumes "CreateWorkItem flt now new inp db = Inr (r, db')" shows "\<exists>w. pw_id w = new \<and> created w db db'"
proof -
  obtain priority workMode labels team parent db1 where
    i: "insert_work_item (new_work_item now new (ci_project inp) team parent (ci_title inp) (ci_body inp) (ci_principal inp)
       priority workMode labels) db = Some db1"
    "db' = insert_audit (write_audit_row now new None ''work_item_created'' (ci_principal inp) (nullable (ci_initiated inp))
       (create_detail (ci_title inp) parent priority workMode labels)) db1"
    by (rule CreateWorkItem_effect [OF assms])
  show ?thesis
    by (rule exI, rule conjI [rotated], unfold created_def, rule exI, rule conjI [OF i(1)]) (simp_all add: i(2) new_work_item_def)
qed

lemma edit_edited:
  assumes "UpdateWorkItem scan flt now item inp db = Inr (r, db')" shows "edited item (ui_parent inp) db db'"
proof -
  obtain w v db1 where u: "update_check flt item inp db = Inr w"
    "edit_write flt ''coord.UpdateWorkItem'' now item (ui_title inp) (ui_body inp) (ui_parent inp) w db = Inr (v, db1)"
    "db' = insert_audit (write_audit_row now item None ''work_item_edited'' (ui_principal inp) (nullable (ui_initiated inp))
       (editedFields inp)) db1"
    by (rule UpdateWorkItem_effect [OF assms])
  have "pd_items db' = pd_items db1" by (simp add: u(3))
  with update_check_clear [OF u(1)] u(2) show ?thesis unfolding edited_def by blast
qed

lemma agent_create_created:
  assumes "AgentCreateWorkItem flt now new inp db = Inr (r, db')"
  obtains p w where "agent_create_check flt now inp db = Inr p" "pw_id w = new" "pw_parent w = Some (ac_parent inp)"
    "ac_parent inp \<noteq> []" "created w db db'"
proof -
  obtain priority workMode labels p db1 where i: "agent_create_check flt now inp db = Inr p" "ac_parent inp \<noteq> []"
    "insert_work_item (new_work_item now new (pw_project p) (pw_team p) (Some (ac_parent inp)) (ac_title inp) (ac_body inp)
       (ac_principal inp) priority workMode labels) db = Some db1"
    "pd_items db' = pd_items db1"
    by (rule AgentCreateWorkItem_effect [OF assms]) simp
  show thesis
    by (rule that [OF i(1) _ _ i(2)]) (use i(3,4) in \<open>auto simp: created_def new_work_item_def\<close>)
qed

lemma agent_edit_edited:
  assumes "AgentUpdateWorkItem flt now item inp db = Inr (r, db')"
  obtains w where "agent_update_check flt now item inp db = Inr w" "edited item (ag_parent inp) db db'"
proof -
  obtain w v db1 where u: "agent_update_check flt now item inp db = Inr w"
    "edit_write flt ''coord.AgentUpdateWorkItem'' now item (ag_title inp) (ag_body inp) (ag_parent inp) w db = Inr (v, db1)"
    "db' = insert_audit (write_audit_row now item (Some (ag_run inp)) ''work_item_edited'' (ag_principal inp) None
       (agentEditedFields inp)) db1"
    by (rule AgentUpdateWorkItem_effect [OF assms])
  have "pd_items db' = pd_items db1" by (simp add: u(3))
  with agent_update_check_clear [OF u(1)] u(2) have "edited item (ag_parent inp) db db'" unfolding edited_def by blast
  with u(1) show thesis by (rule that)
qed

lemma dispatch_touched:
  assumes "RequestDispatch agents flt now inp db = Inr (r, db')" shows "touched db db'"
  by (rule RequestDispatch_effect [OF assms]) (rule touchedI, simp, simp)

lemma agent_dispatch_is:
  assumes "AgentRequestDispatch agents flt now inp seen db = Inr (r, db')"
  shows "agentHoldsCustodyScope flt now (rq_item inp) (rq_principal inp) (rq_agent inp) seen = Inr True \<and>
    RequestDispatch agents flt now \<lparr>rd_item = rq_item inp, rd_agent = rq_assignee inp, rd_team = rq_team inp,
      rd_principal = rq_principal inp, rd_initiated = [], rd_initiator = ''agent''\<rparr> db = Inr (r, db')"
  using assms by (auto simp: AgentRequestDispatch_def split: if_splits sum.splits)

lemma nudge_touched: "comment_nudge flt now item prin lane db = Inr (moved, db') \<Longrightarrow> touched db db'"
  by (drule comment_nudge_effect, elim disjE conjE exE) (simp_all add: touchedI)

lemma comment_touched:
  assumes "AppendHumanComment valid cast flt now item team prin body refs db = Inr (r, db')" shows "touched db db'"
proof -
  obtain w resolved db1 moved where "item_row_of db item = Some w" and
    d: "db1 = insert_audit (write_audit_row now item None ''work_item_commented'' prin None [])
       (insert_comment \<lparr>cm_item = item, cm_author = prin, cm_body = body, cm_kind = None, cm_run = None,
          cm_payload = refs_payload resolved, cm_at = now\<rparr> db)"
    and c: "comment_nudge flt now item prin (pw_state w) db1 = Inr (moved, db')"
    by (rule AppendHumanComment_effect [OF assms]) (rule that, assumption+)
  have "pd_items db1 = pd_items db" by (simp add: d)
  with nudge_touched [OF c] show ?thesis by (simp add: touched_def)
qed

lemma next_created:
  assumes "DispatchNextOfRecord flt now new dec db = (r, db')" shows "touched db db' \<or> (\<exists>w. pw_id w = new \<and> created w db db')"
  using DispatchNextOfRecord_effect [OF assms]
proof (elim disjE exE conjE)
  fix s c db1 assume i: "insert_work_item (next_item now new dec s) db = Some db1"
    "db' = insert_audit (next_audit now new dec) (db1\<lparr>pd_dispatch := pd_dispatch db1 @
      [\<lparr>dx_key = dispatch_key dec, dx_source = dd_source dec, dx_source_run = dd_run dec,
        dx_created = new, dx_by = dd_coordinator dec, dx_at = now\<rparr>]\<rparr>)"
  have "created (next_item now new dec s) db db'" using i by (simp add: created_def)
  then show ?thesis by (intro disjI2 exI [of _ "next_item now new dec s"]) (simp add: next_item_def)
qed simp

lemma committed_cases:
  obtains "committed r db = db" | v db' where "r = Inr (v, db')" "committed r db = db'"
  by (cases r) (auto simp: committed_def)

text \<open>The three shapes of a step.\<close>

lemma work_step_shape:
  "touched db (work_step env (flt, p) db) \<or> (\<exists>w. new_id p = Some (pw_id w) \<and> created w db (work_step env (flt, p) db)) \<or>
   (\<exists>item parent. edited item parent db (work_step env (flt, p) db))"
proof (cases p)
  case (OpCreate now new inp)
  then show ?thesis
    by (cases rule: committed_cases [of "CreateWorkItem flt now new inp db" db]) (auto simp: work_step_def dest: create_created)
next
  case (OpEdit now item inp)
  then show ?thesis
    by (cases rule: committed_cases [of "UpdateWorkItem (we_scan env) flt now item inp db" db])
      (auto simp: work_step_def dest: edit_edited)
next
  case (OpAgentCreate now new inp)
  then show ?thesis
    by (cases rule: committed_cases [of "AgentCreateWorkItem flt now new inp db" db])
      (auto simp: work_step_def elim: agent_create_created)
next
  case (OpAgentEdit now item inp)
  then show ?thesis
    by (cases rule: committed_cases [of "AgentUpdateWorkItem flt now item inp db" db])
      (auto simp: work_step_def elim: agent_edit_edited)
next
  case (OpDispatch now inp)
  then show ?thesis
    by (cases rule: committed_cases [of "RequestDispatch (we_agents env) flt now inp db" db])
      (auto simp: work_step_def dest: dispatch_touched)
next
  case (OpAgentDispatch now inp seen)
  then show ?thesis
    by (cases rule: committed_cases [of "AgentRequestDispatch (we_agents env) flt now inp seen db" db])
      (auto simp: work_step_def dest!: agent_dispatch_is dest: dispatch_touched)
next
  case (OpComment now item team prin body refs)
  then show ?thesis
    by (cases rule: committed_cases [of "AppendHumanComment (we_valid env) (we_cast env) flt now item team prin body refs db" db])
      (auto simp: work_step_def dest: comment_touched)
next
  case (OpNext now new dec)
  then show ?thesis
    by (cases "DispatchNextOfRecord flt now new dec db") (auto simp: work_step_def dest: next_created)
qed

lemma forest_work_step:
  assumes "forest db" and "new_id (snd x) \<noteq> Some []" shows "forest (work_step env x db)"
proof -
  obtain flt p where x: "x = (flt, p)" by (cases x)
  let ?db' = "work_step env (flt, p) db"
  consider "touched db ?db'" | w where "new_id p = Some (pw_id w)" "created w db ?db'" | item parent where "edited item parent db ?db'"
    using work_step_shape [of db env flt p] by blast
  then have "forest ?db'"
  proof cases
    case 1
    then show ?thesis using forest_touched [OF _ _ assms(1)] by (auto simp: touched_def)
  next
    case (2 w)
    then obtain db1 where "insert_work_item w db = Some db1" "pd_items ?db' = pd_items db1" by (auto simp: created_def)
    then show ?thesis using forest_insert [OF assms(1)] forest_cong 2 assms(2) x by (metis snd_conv)
  next
    case (3 item parent)
    then obtain flt' op now title body w v db1 where e: "edit_clear db item parent w"
      "edit_write flt' op now item title body parent w db = Inr (v, db1)" "pd_items ?db' = pd_items db1"
      unfolding edited_def by (elim exE conjE)
    then show ?thesis using forest_edit [OF assms(1) e(1,2)] forest_cong [OF e(3)] by simp
  qed
  then show ?thesis by (simp add: x)
qed

interpretation tree: kept_by_steps "work_step env" "\<lambda>x. new_id (snd x) \<noteq> Some []" forest for env
  by unfold_locales (rule forest_work_step)

end
