(* ===== verification/Work_Laws.thy ===== *)
theory Work_Laws
  imports Work_Tree
begin

text \<open>
  The laws of work item authoring: the tree stays a forest, agents stay within depth and budget
  and write only where they hold custody, the bounded walks decide what they stand for, and items
  keep their shape. The last section shows where concurrent transactions escape these laws.
\<close>

section \<open>Bounds of the agents' lane\<close>

text \<open>The operations of agents, and those of humans that do not change the tree.\<close>

fun agent_lane :: "work_op \<Rightarrow> bool" where
  "agent_lane (OpCreate now new inp) = False"
| "agent_lane (OpEdit now item inp) = False"
| "agent_lane (OpNext now new dec) = False"
| "agent_lane _ = True"

lemma parent_of_cong: "pd_items db' = pd_items db \<Longrightarrow> parent_of db' j = parent_of db j"
  by (simp add: parent_of_def)

lemma agent_create_check_Inr:
  assumes "agent_create_check flt now inp db = Inr p"
  shows "item_row_of db (ac_parent inp) = Some p \<and> agentHoldsClaim flt now (ac_parent inp) (ac_principal inp) (ac_agent inp) db = Inr True \<and>
    (\<exists>d. chainDepth flt db (ac_parent inp) = Inr d \<and> d + 1 \<le> AgentAuthorMaxDepth) \<and> authored (ac_run inp) db < AgentAuthorRunBudget"
  using assms by (auto simp: agent_create_check_def split: if_splits option.splits sum.splits)

lemma agent_update_check_Inr:
  assumes "agent_update_check flt now item inp db = Inr w"
  shows "item_row_of db item = Some w \<and> agentHoldsCustodyScope flt now item (ag_principal inp) (ag_agent inp) db = Inr True \<and>
    ag_parent inp \<noteq> Some [] \<and> (\<forall>p. ag_parent inp = Some p \<longrightarrow> agent_reparent_refused flt now item p inp w db = None)"
  using assms by (auto simp: agent_update_check_def split: if_splits option.splits sum.splits)

lemma agent_reparent_ok:
  assumes "agent_reparent_refused flt now item p inp w db = None"
  shows "(\<exists>q. item_row_of db p = Some q \<and> pw_project q = pw_project w) \<and>
    agentHoldsCustodyScope flt now p (ag_principal inp) (ag_agent inp) db = Inr True \<and>
    (p, item) \<notin> (parent_rel db)\<^sup>* \<and>
    (\<exists>d h. chainDepth flt db p = Inr d \<and> subtreeHeight flt db item = Inr h \<and> d + h \<le> AgentAuthorMaxDepth)"
  using assms
  by (auto simp: agent_reparent_refused_def dest!: ancestorIncludes_False split: if_splits option.splits sum.splits)

lemma edited_parent:
  assumes "forest db" and "edited item parent db db'"
  shows "parent_of db' j = (if j = item \<and> parent \<noteq> None then (if parent = Some [] then None else parent) else parent_of db j)"
proof -
  have wf: "wf_table pw_id (pd_items db)" using assms(1) by (simp add: forest_def)
  obtain flt op now title body w v db1 where e: "edit_clear db item parent w"
      "edit_write flt op now item title body parent w db = Inr (v, db1)" "pd_items db' = pd_items db1"
    using assms(2) unfolding edited_def by (elim exE conjE)
  obtain n where u: "update_work_item now item (pw_updated w) (new_title title w) (new_text body (pw_body w))
      (new_text parent (pw_parent w)) db = Some (n, db1)" "n \<noteq> 0"
    by (rule edit_write_effect [OF e(2)])
  have n: "n = 1" using update_work_item_Some [OF u(1) wf] u(2) by blast
  have rel: "parent_of db' j = (if j = item then (if new_text parent (pw_parent w) = Some [] then None else new_text parent (pw_parent w)) else parent_of db j)"
    using update_rel [OF u(1) [unfolded n] wf, of j] parent_of_cong [OF e(3), of j] by simp
  have w: "item_row_of db item = Some w" using e(1) by (simp add: edit_clear_def)
  have ne: "pw_parent w \<noteq> Some []" using parent_not_Nil [OF assms(1) w] by blast
  then have old: "parent_of db item = pw_parent w" using w by (auto simp: parent_of_def split: option.splits)
  show ?thesis using rel old ne by (auto simp: new_text_def nullable_def split: option.splits if_splits)
qed

lemma created_parent:
  assumes "created w db db'"
  shows "parent_of db' j = (if j = pw_id w then (if pw_parent w = Some [] then None else pw_parent w) else parent_of db j)"
proof -
  obtain db1 where d: "insert_work_item w db = Some db1" "pd_items db' = pd_items db1" using assms by (auto simp: created_def)
  then show ?thesis using insert_rel [OF d(1), of j] parent_of_cong [OF d(2), of j] by simp
qed

lemma capped_agent_create:
  assumes "forest db" and "capped k db" and "AgentAuthorMaxDepth \<le> k" and "AgentCreateWorkItem flt now new inp db = Inr (r, db')"
  shows "capped k db'"
proof -
  obtain p w where c: "agent_create_check flt now inp db = Inr p" "pw_parent w = Some (ac_parent inp)" "created w db db'"
    by (rule agent_create_created [OF assms(4)])
  obtain d where d: "chainDepth flt db (ac_parent inp) = Inr d" "d + 1 \<le> AgentAuthorMaxDepth"
    using agent_create_check_Inr [OF c(1)] by blast
  obtain db1 where i: "insert_work_item w db = Some db1" "pd_items db' = pd_items db1" using c(3) by (auto simp: created_def)
  have "capped k db1"
    by (rule capped_insert [OF assms(1,2) i(1) c(2)]) (use chainDepth_up [OF d(1)] d(2) assms(3) in auto)
  then show ?thesis using capped_cong [of db' db1 k] parent_of_cong [OF i(2)] by simp
qed

lemma capped_agent_edit:
  assumes "forest db" and "capped k db" and "AgentAuthorMaxDepth \<le> k" and "AgentUpdateWorkItem flt now item inp db = Inr (r, db')"
  shows "capped k db'"
proof -
  obtain w where e: "agent_update_check flt now item inp db = Inr w" "edited item (ag_parent inp) db db'"
    by (rule agent_edit_edited [OF assms(4)])
  note rel = edited_parent [OF assms(1) e(2)]
  note chk = agent_update_check_Inr [OF e(1)]
  show ?thesis
  proof (cases "ag_parent inp")
    case None
    then show ?thesis using capped_cong [of db' db k] rel assms(2) by simp
  next
    case (Some p)
    then have ok: "agent_reparent_refused flt now item p inp w db = None" "p \<noteq> []" using chk by auto
    obtain d h where b: "chainDepth flt db p = Inr d" "subtreeHeight flt db item = Inr h" "d + h \<le> AgentAuthorMaxDepth"
      using agent_reparent_ok [OF ok(1)] by blast
    have "h < depthCap" using b(3) by (simp add: depthCap_def AgentAuthorMaxDepth_def)
    then have h: "up db h j \<noteq> Some item" for j
      by (rule subtreeHeight_reach [OF assms(1) b(2)]) (use chk in simp)
    show ?thesis
    proof (rule capped_move [OF assms(2), of item db' p])
      show "parent_of db' j = parent_of db j" if "j \<noteq> item" for j using rel [of j] that by simp
      show "parent_of db' item = Some p" using rel [of item] Some ok(2) by simp
      show "(p, item) \<notin> (parent_rel db)\<^sup>*" using agent_reparent_ok [OF ok(1)] by blast
      show "up db d p = None" using chainDepth_up [OF b(1)] by simp
      show "\<And>j. up db h j \<noteq> Some item" by (rule h)
      show "d + h \<le> k" using b(3) assms(3) by simp
    qed
  qed
qed

lemma touched_capped: "touched db db' \<Longrightarrow> capped k db' = capped k db"
  unfolding touched_def by (elim exE conjE) (rule capped_cong, rule parent_of_touched)

lemma capped_agent_step:
  assumes "forest db" and "capped k db" and "AgentAuthorMaxDepth \<le> k" and "agent_lane (snd x)"
  shows "capped k (work_step env x db)"
proof -
  obtain flt p where x: "x = (flt, p)" by (cases x)
  show ?thesis
  proof (cases p)
    case (OpAgentCreate now new inp)
    then show ?thesis using capped_agent_create [OF assms(1-3)] assms(2) x
      by (cases rule: committed_cases [of "AgentCreateWorkItem flt now new inp db" db]) (auto simp: work_step_def)
  next
    case (OpAgentEdit now item inp)
    then show ?thesis using capped_agent_edit [OF assms(1-3)] assms(2) x
      by (cases rule: committed_cases [of "AgentUpdateWorkItem flt now item inp db" db]) (auto simp: work_step_def)
  next
    case (OpDispatch now inp)
    then show ?thesis using touched_capped [OF dispatch_touched] assms(2) x
      by (cases rule: committed_cases [of "RequestDispatch (we_agents env) flt now inp db" db]) (auto simp: work_step_def)
  next
    case (OpAgentDispatch now inp seen)
    then show ?thesis using touched_capped [OF dispatch_touched] assms(2) x
      by (cases rule: committed_cases [of "AgentRequestDispatch (we_agents env) flt now inp seen db" db])
        (auto simp: work_step_def dest!: agent_dispatch_is)
  next
    case (OpComment now item team prin body refs)
    then show ?thesis using touched_capped [OF comment_touched] assms(2) x
      by (cases rule: committed_cases [of "AppendHumanComment (we_valid env) (we_cast env) flt now item team prin body refs db" db])
        (auto simp: work_step_def)
  qed (use assms(4) x in simp_all)
qed

section \<open>The tree\<close>

lemma forest_roots:
  assumes "distinct (map pw_id (pd_items db))" and "list_all (\<lambda>w. pw_id w \<noteq> [] \<and> pw_parent w = None) (pd_items db)"
  shows "forest db"
proof -
  have none: "parent_of db j = None" for j
    using assms(2) by (auto simp: parent_of_def list_all_iff dest: lookup_by_Some split: option.splits)
  have "parent_rel db = {}" by (simp add: parent_rel_def none)
  then show ?thesis using assms by (auto simp: forest_def wf_table_def parents_exist_def list_all_iff acyclic_def)
qed

text \<open>
  C12. The tree of work items stays a forest. From a table whose items have existing parents in
  their own project and no item above itself, any sequence of human creates and edits, agent
  creates and edits, dispatches, comments and coordinator dispatches, each failing at any
  statement or not, leaves such a table: no edit makes an item its own ancestor and no item
  loses its parent or gets one from another project.
\<close>

theorem tree_stays_forest:
  assumes "forest db" and "fresh_ids ops"
  shows "forest (work_run env ops db)"
  unfolding work_run_def by (rule tree.run_keeps [OF assms(2) [unfolded fresh_ids_def] assms(1)])

definition plain_item :: "string \<Rightarrow> string option \<Rightarrow> prod_item" where
  "plain_item i parent =
     \<lparr>pw_id = i, pw_state = ''todo'', pw_created = 0, pw_updated = 0, pw_project = ''p'', pw_team = Some ''t'', pw_source = None,
      pw_parent = parent, pw_title = i, pw_body = None, pw_created_by = ''u'', pw_priority = None, pw_work_mode = None,
      pw_labels = [], pw_requested = None, pw_blocked = None\<rparr>"

definition leased_claim :: "string \<Rightarrow> string \<Rightarrow> prod_claim" where
  "leased_claim i prin = (fresh_claim i)\<lparr>pc_holder := Some prin, pc_run := Some ''r'', pc_fence := 1, pc_lease := Some 100\<rparr>"

definition board_of :: "prod_item list \<Rightarrow> prod_claim list \<Rightarrow> prod_db" where
  "board_of items claims =
     \<lparr>pd_items = items, pd_claims = claims, pd_audit = [], pd_outbox = [], pd_seq = 1, pd_a2a = [], pd_comments = [],
      pd_sandboxes = [], pd_changes = [], pd_artifacts = [], pd_dispatch = []\<rparr>"

definition plain_env :: work_env where
  "plain_env = \<lparr>we_scan = Some, we_agents = (\<lambda>_. Inr [''a'']), we_valid = (\<lambda>_. True), we_cast = Some\<rparr>"

definition move_under :: "string \<Rightarrow> UpdateWorkItemInput" where
  "move_under p = \<lparr>ui_title = None, ui_body = None, ui_parent = Some p, ui_expected = None, ui_team = ''t'',
     ui_principal = ''u'', ui_initiated = []\<rparr>"

definition two_roots :: prod_db where
  "two_roots = board_of [plain_item ''a'' None, plain_item ''b'' None] [leased_claim ''a'' ''agent:x'', fresh_claim ''b'']"

lemma tree_stays_forest_witness:
  "let db = work_run plain_env [(\<lambda>_. False, OpEdit 1 ''a'' (move_under ''b'')), (\<lambda>_. False, OpEdit 2 ''b'' (move_under ''a''))] two_roots
   in forest db \<and> parent_of db ''a'' = Some ''b'' \<and> parent_of db ''b'' = None"
proof -
  let ?ops = "[(\<lambda>_::string. False, OpEdit 1 ''a'' (move_under ''b'')), (\<lambda>_. False, OpEdit 2 ''b'' (move_under ''a''))]"
  have f: "forest two_roots" by (rule forest_roots) (simp_all add: two_roots_def board_of_def plain_item_def)
  have "forest (work_run plain_env ?ops two_roots)" by (rule tree_stays_forest [OF f]) (simp add: fresh_ids_def)
  moreover have "parent_of (work_run plain_env ?ops two_roots) ''a'' = Some ''b''" by code_simp
  moreover have "parent_of (work_run plain_env ?ops two_roots) ''b'' = None" by code_simp
  ultimately show ?thesis by (simp add: Let_def)
qed

section \<open>Depth\<close>

interpretation depth: kept_by_steps "work_step env" "\<lambda>x. new_id (snd x) \<noteq> Some [] \<and> agent_lane (snd x)"
    "\<lambda>db. forest db \<and> capped (AgentAuthorMaxDepth + d) db" for env d
  by unfold_locales (simp add: forest_work_step capped_agent_step)

text \<open>
  C13. Agents cannot nest work without bound. Whatever agents create, edit, re-parent or
  dispatch, and whatever comments and assigns humans add, a tree no deeper than k stays no
  deeper than k, for every k from the authoring cap of four levels on: creates and re-parents
  check the whole branch they hang in, the moved subtree included.
\<close>

theorem agents_keep_depth:
  assumes "forest db" and "\<And>j. up db k j = None" and "4 \<le> k" and "fresh_ids ops" and "list_all (agent_lane \<circ> snd) ops"
  shows "up (work_run env ops db) k j = None"
proof -
  have k: "AgentAuthorMaxDepth + (k - 4) = k" using assms(3) by (simp add: AgentAuthorMaxDepth_def)
  have ok: "list_all (\<lambda>x. new_id (snd x) \<noteq> Some [] \<and> agent_lane (snd x)) ops"
    using assms(4,5) by (simp add: fresh_ids_def list_all_iff)
  have "capped k db" using assms(2) by (simp add: capped_def)
  then show ?thesis using depth.run_keeps [where d = "k - 4" and env = env and s = db, OF ok] assms(1) by (simp add: k capped_def work_run_def)
qed

definition agent_child :: "string \<Rightarrow> AgentCreateWorkItemInput" where
  "agent_child p = \<lparr>ac_parent = p, ac_title = ''t'', ac_body = [], ac_priority = ''high'', ac_work_mode = [], ac_labels = ['' x ''],
     ac_principal = ''agent:x'', ac_agent = ''x'', ac_run = ''r''\<rparr>"

lemma agents_keep_depth_witness:
  "let db = work_run plain_env [(\<lambda>_. False, OpAgentCreate 1 ''c'' (agent_child ''a''))] two_roots
   in up db 4 ''c'' = None \<and> parent_of db ''c'' = Some ''a''"
proof -
  let ?ops = "[(\<lambda>_::string. False, OpAgentCreate 1 ''c'' (agent_child ''a''))]"
  have f: "forest two_roots" by (rule forest_roots) (simp_all add: two_roots_def board_of_def plain_item_def)
  have "parent_of two_roots j = None" for j by (simp add: parent_of_def two_roots_def board_of_def plain_item_def)
  then have "up two_roots 4 j = None" for j by (simp add: numeral_eq_Suc)
  from agents_keep_depth [OF f this, of ?ops plain_env "''c''"]
  have "up (work_run plain_env ?ops two_roots) 4 ''c'' = None" by (simp add: fresh_ids_def)
  moreover have "parent_of (work_run plain_env ?ops two_roots) ''c'' = Some ''a''" by code_simp
  ultimately show ?thesis by (simp add: Let_def)
qed

section \<open>The create budget of a Run\<close>

lemma insert_work_item_audit: "insert_work_item w db = Some db' \<Longrightarrow> pd_audit db' = pd_audit db"
  by (auto simp: insert_work_item_def split: if_splits option.splits)

lemma edit_write_audit: "edit_write flt op now item title body parent w db = Inr (v, db') \<Longrightarrow> pd_audit db' = pd_audit db"
  by (auto simp: edit_write_def update_work_item_def Let_def split: if_splits option.splits)

lemma authored_append: "pd_audit db' = pd_audit db @ [a] \<Longrightarrow>
  authored run db' = authored run db + (if au_run a = Some run \<and> au_event a = ''work_item_created'' then 1 else 0)"
  by (simp add: authored_def)

lemma authored_cong: "pd_audit db' = pd_audit db \<Longrightarrow> authored run db' = authored run db"
  by (simp add: authored_def)

lemma authored_audit:
  "authored run (insert_audit a db) = authored run db + (if au_run a = Some run \<and> au_event a = ''work_item_created'' then 1 else 0)"
  by (rule authored_append) simp

lemma authored_insert:
  "insert_work_item w db = Some db' \<Longrightarrow> authored run db' = authored run db"
  by (rule authored_cong, rule insert_work_item_audit)

lemma authored_edit: "edit_write flt op now item title body parent w db = Inr (v, db') \<Longrightarrow> authored run db' = authored run db"
  by (rule authored_cong, rule edit_write_audit)

lemma authored_create:
  assumes "CreateWorkItem flt now new inp db = Inr (r, db')" shows "authored run db' = authored run db"
  by (rule CreateWorkItem_effect [OF assms]) (simp add: authored_audit authored_insert write_audit_row_def)

lemma authored_human_edit:
  assumes "UpdateWorkItem scan flt now item inp db = Inr (r, db')" shows "authored run db' = authored run db"
  by (rule UpdateWorkItem_effect [OF assms]) (simp add: authored_audit authored_edit write_audit_row_def)

lemma authored_agent_create:
  assumes "AgentCreateWorkItem flt now new inp db = Inr (r, db')" and "authored run db \<le> AgentAuthorRunBudget"
  shows "authored run db' \<le> AgentAuthorRunBudget"
proof -
  obtain priority workMode labels p db1 where c: "agent_create_check flt now inp db = Inr p"
    and i: "insert_work_item (new_work_item now new (pw_project p) (pw_team p) (Some (ac_parent inp)) (ac_title inp) (ac_body inp)
       (ac_principal inp) priority workMode labels) db = Some db1"
    and d: "db' = insert_audit (write_audit_row now new (Some (ac_run inp)) ''work_item_created'' (ac_principal inp) None
       (create_detail (ac_title inp) (Some (ac_parent inp)) priority workMode labels @
        [(''agent'', JStr (ac_agent inp)), (''agent_write'', JBool True)])) db1"
    by (rule AgentCreateWorkItem_effect [OF assms(1)]) (rule that, assumption+)
  have "authored (ac_run inp) db < AgentAuthorRunBudget" using agent_create_check_Inr [OF c] by simp
  then show ?thesis using assms(2) d authored_insert [OF i, of run] by (auto simp: authored_audit write_audit_row_def)
qed

lemma authored_agent_edit:
  assumes "AgentUpdateWorkItem flt now item inp db = Inr (r, db')" shows "authored run db' = authored run db"
  by (rule AgentUpdateWorkItem_effect [OF assms]) (simp add: authored_audit authored_edit write_audit_row_def)

lemma authored_items [simp]: "authored run (db\<lparr>pd_items := x\<rparr>) = authored run db" "authored run (db\<lparr>pd_dispatch := y\<rparr>) = authored run db"
  "authored run (insert_comment c db) = authored run db"
  by (simp_all add: authored_def)

lemma authored_dispatch:
  assumes "RequestDispatch agents flt now inp db = Inr (r, db')" shows "authored run db' = authored run db"
  by (rule RequestDispatch_effect [OF assms]) (simp add: authored_audit dispatch_audit_def)

lemma authored_nudge: "comment_nudge flt now item prin lane db = Inr (moved, db') \<Longrightarrow> authored run db' = authored run db"
  by (drule comment_nudge_effect, elim disjE conjE exE) (simp_all add: authored_audit nudge_audit_def)

lemma authored_comment:
  assumes "AppendHumanComment valid cast flt now item team prin body refs db = Inr (r, db')" shows "authored run db' = authored run db"
  by (rule AppendHumanComment_effect [OF assms], drule authored_nudge) (simp add: authored_audit write_audit_row_def)

lemma authored_next:
  assumes "DispatchNextOfRecord flt now new dec db = (r, db')" shows "authored run db' = authored run db"
  using DispatchNextOfRecord_effect [OF assms]
  by (elim disjE exE conjE) (simp_all add: authored_audit authored_insert next_audit_def)

lemma authored_step:
  assumes "authored run db \<le> AgentAuthorRunBudget" shows "authored run (work_step env x db) \<le> AgentAuthorRunBudget"
proof -
  obtain flt p where x: "x = (flt, p)" by (cases x)
  show ?thesis
  proof (cases p)
    case (OpCreate now new inp)
    then show ?thesis using assms x
      by (cases rule: committed_cases [of "CreateWorkItem flt now new inp db" db]) (auto simp: work_step_def authored_create)
  next
    case (OpEdit now item inp)
    then show ?thesis using assms x
      by (cases rule: committed_cases [of "UpdateWorkItem (we_scan env) flt now item inp db" db]) (auto simp: work_step_def authored_human_edit)
  next
    case (OpAgentCreate now new inp)
    then show ?thesis using assms x
      by (cases rule: committed_cases [of "AgentCreateWorkItem flt now new inp db" db]) (auto simp: work_step_def authored_agent_create)
  next
    case (OpAgentEdit now item inp)
    then show ?thesis using assms x
      by (cases rule: committed_cases [of "AgentUpdateWorkItem flt now item inp db" db]) (auto simp: work_step_def authored_agent_edit)
  next
    case (OpDispatch now inp)
    then show ?thesis using assms x
      by (cases rule: committed_cases [of "RequestDispatch (we_agents env) flt now inp db" db]) (auto simp: work_step_def authored_dispatch)
  next
    case (OpAgentDispatch now inp seen)
    then show ?thesis using assms x
      by (cases rule: committed_cases [of "AgentRequestDispatch (we_agents env) flt now inp seen db" db])
        (auto simp: work_step_def authored_dispatch dest!: agent_dispatch_is)
  next
    case (OpComment now item team prin body refs)
    then show ?thesis using assms x
      by (cases rule: committed_cases [of "AppendHumanComment (we_valid env) (we_cast env) flt now item team prin body refs db" db])
        (auto simp: work_step_def authored_comment)
  next
    case (OpNext now new dec)
    then show ?thesis using assms x
      by (cases "DispatchNextOfRecord flt now new dec db") (auto simp: work_step_def authored_next)
  qed
qed

interpretation budget: kept_by_steps "work_step env" "\<lambda>_. True" "\<lambda>db. authored run db \<le> AgentAuthorRunBudget" for env run
  by unfold_locales (rule authored_step)

text \<open>
  A Run's create budget is never exceeded by transactions that run one after the other: in
  any sequence of work item operations by anyone, the creates the audit log books to a Run stay
  at most fifty.
\<close>

theorem run_budget_kept:
  assumes "authored run db \<le> 50"
  shows "authored run (work_run env ops db) \<le> 50"
  using budget.run_keeps [where xs = ops and run = run and s = db and env = env] assms by (simp add: work_run_def list_all_iff AgentAuthorRunBudget_def)

lemma run_budget_kept_witness:
  "let db = work_run plain_env [(\<lambda>_. False, OpAgentCreate 1 ''c'' (agent_child ''a'')), (\<lambda>_. False, OpAgentCreate 2 ''d'' (agent_child ''a''))] two_roots
   in authored ''r'' db \<le> 50 \<and> authored ''r'' db = 2"
proof -
  let ?ops = "[(\<lambda>_::string. False, OpAgentCreate 1 ''c'' (agent_child ''a'')), (\<lambda>_. False, OpAgentCreate 2 ''d'' (agent_child ''a''))]"
  have "authored ''r'' two_roots \<le> 50" by (simp add: authored_def two_roots_def board_of_def)
  then have "authored ''r'' (work_run plain_env ?ops two_roots) \<le> 50" by (rule run_budget_kept)
  moreover have "authored ''r'' (work_run plain_env ?ops two_roots) = 2" by code_simp
  ultimately show ?thesis by (simp add: Let_def)
qed

end
