(* ===== verification/Work_Custody.thy ===== *)
theory Work_Custody
  imports Work_Laws
begin

text \<open>
  Who may author what: the bounded walks decide ancestry and custody scope exactly, agents
  create only under work they hold and edit only within their scope, an agent learns nothing
  about items outside it, items keep their shape; and where the guarantees end.
\<close>

section \<open>The walks are exact\<close>

definition held :: "instant \<Rightarrow> string \<Rightarrow> string \<Rightarrow> prod_db \<Rightarrow> string \<Rightarrow> bool" where
  "held now prin agent db i \<longleftrightarrow> (case claim_row_of db i of None \<Rightarrow> False | Some c \<Rightarrow> claim_held_by now prin agent c)"

definition custody_scope :: "instant \<Rightarrow> string \<Rightarrow> string \<Rightarrow> prod_db \<Rightarrow> string set" where
  "custody_scope now prin agent db = {i. \<exists>a. (i, a) \<in> (parent_rel db)\<^sup>* \<and> held now prin agent db a}"

lemma agentHoldsClaim_held:
  "agentHoldsClaim flt now i prin agent db = Inr b \<Longrightarrow> b = held now prin agent db i"
  by (auto simp: agentHoldsClaim_def held_def split: if_splits option.splits)

lemma agentHoldsClaim_ok: "agentHoldsClaim (\<lambda>_. False) now i prin agent db = Inr (held now prin agent db i)"
  by (auto simp: agentHoldsClaim_def held_def split: option.splits)

lemma rel_step: "parent_of db i = Some p \<Longrightarrow> (i, a) \<in> (parent_rel db)\<^sup>* \<longleftrightarrow> i = a \<or> (p, a) \<in> (parent_rel db)\<^sup>*"
  by (auto simp: parent_rel_def elim: converse_rtranclE intro: converse_rtrancl_into_rtrancl)

lemma rel_root: "parent_of db i = None \<Longrightarrow> (i, a) \<in> (parent_rel db)\<^sup>* \<longleftrightarrow> i = a"
  by (auto simp: parent_rel_def elim: converse_rtranclE)

lemma scope_step:
  "i \<in> custody_scope now prin agent db \<longleftrightarrow> held now prin agent db i \<or>
     (case parent_of db i of None \<Rightarrow> False | Some p \<Rightarrow> p \<in> custody_scope now prin agent db)"
  by (cases "parent_of db i") (auto simp: custody_scope_def rel_root rel_step)

lemma custody_walk_scope:
  "custody_walk flt now n i prin agent db = Inr b \<Longrightarrow> b = (i \<in> custody_scope now prin agent db)"
proof (induction n arbitrary: i)
  case (Suc n)
  obtain c where c: "agentHoldsClaim flt now i prin agent db = Inr c" using Suc.prems by (auto split: sum.splits)
  note c' = agentHoldsClaim_held [OF c]
  show ?case using Suc c c' by (subst scope_step) (auto split: if_splits option.splits)
qed simp

lemma custody_walk_exact:
  "up db n i = None \<Longrightarrow> custody_walk (\<lambda>_. False) now n i prin agent db = Inr (i \<in> custody_scope now prin agent db)"
proof (induction n arbitrary: i)
  case (Suc n)
  then show ?case by (subst scope_step) (auto simp: agentHoldsClaim_ok split: option.splits)
qed simp

lemma ancestor_walk_exact:
  "up db n i = None \<Longrightarrow> ancestor_walk (\<lambda>_. False) n db i target = Inr ((i, target) \<in> (parent_rel db)\<^sup>*)"
proof (induction n arbitrary: i)
  case (Suc n)
  show ?case
  proof (cases "parent_of db i")
    case None
    then show ?thesis by (auto simp: rel_root)
  next
    case (Some p)
    then show ?thesis using Suc by (auto simp: rel_step)
  qed
qed simp

text \<open>
  The bounded walks are exact. On a branch of fewer than 256 levels, and when no query
  fails, the cycle guard's walk says yes exactly when the target is the start or one of its
  ancestors in the tree, and the custody walk says yes exactly when the agent holds the item or
  an ancestor: by a live lease as its principal, or as the assigned agent.
\<close>

theorem walks_are_exact:
  assumes "up db 256 item = None"
  shows "ancestorIncludes (\<lambda>_. False) db item target = Inr ((item, target) \<in> (parent_rel db)\<^sup>*) \<and>
    agentHoldsCustodyScope (\<lambda>_. False) now item prin agent db = Inr (item \<in> custody_scope now prin agent db)"
  using custody_walk_exact [of db depthCap item] ancestor_walk_exact [of db depthCap item] assms
  by (simp add: ancestorIncludes_def agentHoldsCustodyScope_def depthCap_def)

definition family :: prod_db where
  "family = board_of [plain_item ''a'' None, plain_item ''b'' (Some ''a''), plain_item ''c'' (Some ''b''), plain_item ''d'' None]
     [leased_claim ''a'' ''agent:x'', fresh_claim ''b'', fresh_claim ''c'', fresh_claim ''d'']"

lemma family_up: "up family 256 ''c'' = None"
proof -
  have "up family 3 ''c'' = None" by code_simp
  then show ?thesis by (rule up_None_mono) simp
qed

lemma walks_are_exact_witness:
  "(''c'', ''a'') \<in> (parent_rel family)\<^sup>* \<and> ''c'' \<in> custody_scope 5 ''agent:x'' ''x'' family"
proof -
  note exact = walks_are_exact [OF family_up, of "''a''" 5 "''agent:x''" "''x''"]
  have "ancestorIncludes (\<lambda>_. False) family ''c'' ''a'' = Inr True" by code_simp
  moreover have "agentHoldsCustodyScope (\<lambda>_. False) 5 ''c'' ''agent:x'' ''x'' family = Inr True" by code_simp
  ultimately show ?thesis using exact by simp
qed

section \<open>Writes of agents\<close>

lemma update_work_item_claims:
  "update_work_item now item read_at title body parent db = Some (n, db') \<Longrightarrow> pd_claims db' = pd_claims db"
  by (auto simp: update_work_item_def Let_def split: option.splits if_splits)

lemma insert_claims: "insert_work_item w db = Some db' \<Longrightarrow> pd_claims db' = pd_claims db @ [fresh_claim (pw_id w)]"
  by (auto simp: insert_work_item_def provision_def split: option.splits if_splits)

text \<open>
  C14. An agent mints work only under work it was handed. A create that succeeds found its
  parent in the table and its claim held by the agent, either by a live lease or by assignment;
  it adds one item in the backlog lane with the parent's project and team, authored by the
  agent's principal, under a fresh unheld claim at fence zero, and changes no other item or
  claim.
\<close>

theorem agent_creates_under_held_parent:
  assumes "AgentCreateWorkItem flt now new inp db = Inr (rec, db')"
  shows "\<exists>p w. item_row_of db (ac_parent inp) = Some p \<and> held now (ac_principal inp) (ac_agent inp) db (ac_parent inp) \<and>
    item_row_of db new = None \<and> item_row_of db' new = Some w \<and> pw_parent w = Some (ac_parent inp) \<and> pw_state w = ''backlog'' \<and>
    pw_project w = pw_project p \<and> pw_team w = pw_team p \<and> pw_created_by w = ac_principal inp \<and>
    claim_row_of db' new = Some (fresh_claim new) \<and>
    (\<forall>j. j \<noteq> new \<longrightarrow> item_row_of db' j = item_row_of db j \<and> claim_row_of db' j = claim_row_of db j)"
proof -
  obtain priority workMode labels p db1 where c: "agent_create_check flt now inp db = Inr p"
    and i: "insert_work_item (new_work_item now new (pw_project p) (pw_team p) (Some (ac_parent inp)) (ac_title inp) (ac_body inp)
       (ac_principal inp) priority workMode labels) db = Some db1"
    and d: "db' = insert_audit (write_audit_row now new (Some (ac_run inp)) ''work_item_created'' (ac_principal inp) None
       (create_detail (ac_title inp) (Some (ac_parent inp)) priority workMode labels @
        [(''agent'', JStr (ac_agent inp)), (''agent_write'', JBool True)])) db1"
    by (rule AgentCreateWorkItem_effect [OF assms]) (rule that, assumption+)
  let ?w = "new_work_item now new (pw_project p) (pw_team p) (Some (ac_parent inp)) (ac_title inp) (ac_body inp)
       (ac_principal inp) priority workMode labels"
  have id: "pw_id ?w = new" "pw_parent ?w = Some (ac_parent inp)" by (simp_all add: new_work_item_def)
  obtain team q where t: "item_row_of db new = None" "claim_row_of db new = None" "db1 = provision (?w\<lparr>pw_team := team\<rparr>) db"
      "item_row_of db (ac_parent inp) = Some q" "team = pw_team q"
    using insert_work_item_Some [OF i] unfolding id by blast
  have p: "item_row_of db (ac_parent inp) = Some p" "held now (ac_principal inp) (ac_agent inp) db (ac_parent inp)"
    using agent_create_check_Inr [OF c] agentHoldsClaim_held by blast+
  have "item_row_of db' j = (if j = new then Some (?w\<lparr>pw_team := pw_team p\<rparr>) else item_row_of db j)"
    "claim_row_of db' j = (if j = new then Some (fresh_claim new) else claim_row_of db j)" for j
    using t p(1) by (auto simp: d provision_rows new_work_item_def split: option.splits)
  then show ?thesis using p t(1) by (simp add: new_work_item_def)
qed

lemma two_roots_create:
  "\<exists>rec db'. AgentCreateWorkItem (\<lambda>_. False) 1 ''c'' (agent_child ''a'') two_roots = Inr (rec, db')"
proof -
  have "(case AgentCreateWorkItem (\<lambda>_. False) 1 ''c'' (agent_child ''a'') two_roots of Inl _ \<Rightarrow> False | Inr _ \<Rightarrow> True)" by code_simp
  then show ?thesis by (auto split: sum.splits)
qed

lemma agent_creates_under_held_parent_witness:
  "held 1 ''agent:x'' ''x'' two_roots ''a'' \<and>
   (\<exists>rec db'. AgentCreateWorkItem (\<lambda>_. False) 1 ''c'' (agent_child ''a'') two_roots = Inr (rec, db') \<and>
      claim_row_of db' ''c'' = Some (fresh_claim ''c''))"
proof -
  obtain rec db' where c: "AgentCreateWorkItem (\<lambda>_. False) 1 ''c'' (agent_child ''a'') two_roots = Inr (rec, db')"
    using two_roots_create by blast
  have sel: "ac_parent (agent_child ''a'') = ''a''" "ac_principal (agent_child ''a'') = ''agent:x''" "ac_agent (agent_child ''a'') = ''x''"
    by (simp_all add: agent_child_def)
  show ?thesis using agent_creates_under_held_parent [OF c] c unfolding sel by blast
qed

text \<open>
  An agent edits only within its custody scope. An edit that succeeds found the item in the
  scope: it or an ancestor is held by the agent; a new parent is in the scope too and is never
  empty, so no sub-ticket is promoted to a root. The edit touches that one item, never its lane,
  project or creator, and no claim.
\<close>

theorem agent_edits_within_scope:
  assumes "wf_table pw_id (pd_items db)" and "AgentUpdateWorkItem flt now item inp db = Inr (rec, db')"
  shows "item \<in> custody_scope now (ag_principal inp) (ag_agent inp) db \<and>
    (\<forall>p. ag_parent inp = Some p \<longrightarrow> p \<noteq> [] \<and> p \<in> custody_scope now (ag_principal inp) (ag_agent inp) db) \<and>
    pd_claims db' = pd_claims db \<and>
    (\<forall>j. j \<noteq> item \<longrightarrow> item_row_of db' j = item_row_of db j) \<and>
    (\<exists>w v. item_row_of db item = Some w \<and> item_row_of db' item = Some v \<and>
       pw_state v = pw_state w \<and> pw_project v = pw_project w \<and> pw_created_by v = pw_created_by w)"
proof -
  obtain w v db1 where u: "agent_update_check flt now item inp db = Inr w"
    "edit_write flt ''coord.AgentUpdateWorkItem'' now item (ag_title inp) (ag_body inp) (ag_parent inp) w db = Inr (v, db1)"
    "db' = insert_audit (write_audit_row now item (Some (ag_run inp)) ''work_item_edited'' (ag_principal inp) None
       (agentEditedFields inp)) db1"
    by (rule AgentUpdateWorkItem_effect [OF assms(2)]) (rule that, assumption+)
  note chk = agent_update_check_Inr [OF u(1)]
  have scope: "agentHoldsCustodyScope flt now i (ag_principal inp) (ag_agent inp) db = Inr True \<Longrightarrow>
      i \<in> custody_scope now (ag_principal inp) (ag_agent inp) db" for i
    using custody_walk_scope [of flt now depthCap i "ag_principal inp" "ag_agent inp" db True] by (simp add: agentHoldsCustodyScope_def)
  obtain n where e: "update_work_item now item (pw_updated w) (new_title (ag_title inp) w) (new_text (ag_body inp) (pw_body w))
      (new_text (ag_parent inp) (pw_parent w)) db = Some (n, db1)" "n \<noteq> 0"
    by (rule edit_write_effect [OF u(2)])
  obtain w' team where r: "item_row_of db item = Some w'"
      "\<And>j. item_row_of db1 j = (if j = item then Some (edited_row now (new_title (ag_title inp) w) (new_text (ag_body inp) (pw_body w))
        (new_text (ag_parent inp) (pw_parent w)) team w') else item_row_of db j)"
    by (rule update_work_item_1 [OF e(1) assms(1) e(2)]) (rule that)
  have items: "\<forall>j. j \<noteq> item \<longrightarrow> item_row_of db' j = item_row_of db j" using r(2) u(3) by simp
  have one: "\<exists>w v. item_row_of db item = Some w \<and> item_row_of db' item = Some v \<and>
       pw_state v = pw_state w \<and> pw_project v = pw_project w \<and> pw_created_by v = pw_created_by w"
    using r(1) r(2) [of item] u(3) by (simp add: edited_row_def)
  have "p \<noteq> [] \<and> p \<in> custody_scope now (ag_principal inp) (ag_agent inp) db" if "ag_parent inp = Some p" for p
    using chk that agent_reparent_ok scope by blast
  then show ?thesis using chk scope items one update_work_item_claims [OF e(1)] u(3) by simp
qed

definition retitle :: "string \<Rightarrow> AgentUpdateWorkItemInput" where
  "retitle t = \<lparr>ag_title = Some t, ag_body = None, ag_parent = None, ag_expected = Some (Some 0), ag_principal = ''agent:x'',
     ag_agent = ''x'', ag_run = ''r''\<rparr>"

lemma agent_edits_within_scope_witness:
  "''c'' \<in> custody_scope 5 ''agent:x'' ''x'' family \<and>
   (case AgentUpdateWorkItem (\<lambda>_. False) 5 ''c'' (retitle ''new'') family of
      Inl _ \<Rightarrow> False | Inr (rec, db') \<Rightarrow> wr_title rec = ''new'' \<and> pd_claims db' = pd_claims family)"
proof -
  have wf: "wf_table pw_id (pd_items family)" by code_simp
  have ok: "(case AgentUpdateWorkItem (\<lambda>_. False) 5 ''c'' (retitle ''new'') family of Inl _ \<Rightarrow> False | Inr (rec, _) \<Rightarrow> wr_title rec = ''new'')"
    by code_simp
  then obtain rec db' where u: "AgentUpdateWorkItem (\<lambda>_. False) 5 ''c'' (retitle ''new'') family = Inr (rec, db')" "wr_title rec = ''new''"
    by (auto split: sum.splits)
  show ?thesis using agent_edits_within_scope [OF wf u(1)] u by (simp add: retitle_def)
qed

section \<open>Nothing to probe\<close>

text \<open>
  C15. Refusals hide what is outside an agent's custody. When no query fails, a well-formed edit
  of an item outside the agent's scope, and a well-formed create under a parent the agent does
  not hold, are refused with the same error whether or not the item exists.
\<close>

theorem agent_refusals_hide_existence:
  assumes "item \<noteq> []" and "ag_principal inp \<noteq> []" and "ag_agent inp \<noteq> []" and "ag_run inp \<noteq> []"
    and "ag_title inp \<noteq> None \<or> ag_body inp \<noteq> None \<or> ag_parent inp \<noteq> None" and "ag_title inp \<noteq> Some []"
    and "item \<notin> custody_scope now (ag_principal inp) (ag_agent inp) db" and "up db 256 item = None"
    and "ac_parent cin \<noteq> []" and "ac_title cin \<noteq> []" and "ac_principal cin \<noteq> []" and "ac_agent cin \<noteq> []" and "ac_run cin \<noteq> []"
    and "normalizeCreateFields (ac_priority cin) (ac_work_mode cin) (ac_labels cin) = Inr attrs"
    and "\<not> held now (ac_principal cin) (ac_agent cin) db (ac_parent cin)"
  shows "AgentUpdateWorkItem (\<lambda>_. False) now item inp db = Inl ErrAgentAuthorNotInCustody \<and>
    AgentCreateWorkItem (\<lambda>_. False) now new cin db = Inl ErrAgentAuthorNotInCustody"
proof
  have "agentHoldsCustodyScope (\<lambda>_. False) now item (ag_principal inp) (ag_agent inp) db = Inr False"
    using custody_walk_exact [of db depthCap item now "ag_principal inp" "ag_agent inp"] assms(7,8)
    by (simp add: agentHoldsCustodyScope_def depthCap_def)
  then show "AgentUpdateWorkItem (\<lambda>_. False) now item inp db = Inl ErrAgentAuthorNotInCustody"
    using assms(1-6) by (auto simp: AgentUpdateWorkItem_def agent_update_check_def split: option.splits)
  show "AgentCreateWorkItem (\<lambda>_. False) now new cin db = Inl ErrAgentAuthorNotInCustody"
    using assms(9-15) by (auto simp: AgentCreateWorkItem_def agent_create_check_def agentHoldsClaim_ok split: option.splits)
qed

lemma agent_refusals_hide_existence_witness:
  "AgentUpdateWorkItem (\<lambda>_. False) 5 ''d'' (retitle ''n'') family = Inl ErrAgentAuthorNotInCustody \<and>
   AgentUpdateWorkItem (\<lambda>_. False) 5 ''nowhere'' (retitle ''n'') family = Inl ErrAgentAuthorNotInCustody \<and>
   AgentCreateWorkItem (\<lambda>_. False) 5 ''e'' (agent_child ''b'') family = Inl ErrAgentAuthorNotInCustody"
proof -
  have free: "\<not> held 5 ''agent:x'' ''x'' family i" if "i = ''b'' \<or> i = ''d'' \<or> i = ''nowhere''" for i
    using that by (auto simp: held_def family_def board_of_def leased_claim_def fresh_claim_def claim_held_by_def)
  have root: "parent_of family ''d'' = None" "parent_of family ''nowhere'' = None" by code_simp+
  have up: "up family 256 i = None" if "parent_of family i = None" for i
    by (rule up_None_mono [of family 1]) (simp_all add: that)
  have out: "i \<notin> custody_scope 5 ''agent:x'' ''x'' family" if "i = ''d'' \<or> i = ''nowhere''" for i
    using that free [of i] root by (subst scope_step) auto
  have norm: "normalizeCreateFields ''high'' [] ['' x ''] = Inr (''high'', [], [''x''])" by code_simp
  note inst = agent_refusals_hide_existence [where now = 5 and db = family and inp = "retitle ''n''" and cin = "agent_child ''b''"
      and new = "''e''" and attrs = "(''high'', [], [''x''])"]
  show ?thesis
    using inst [of "''d''"] inst [of "''nowhere''"] out up root free [of "''b''"] norm by (simp add: retitle_def agent_child_def)
qed

section \<open>The shape of items\<close>

definition lanes :: "string list" where
  "lanes = [''backlog'', ''todo'', ''design'', ''planning'', ''implementation'', ''code_review'', ''testing'', ''documentation'',
     ''done'', ''cancelled'', ''in_progress'', ''in_review'']"

definition label_ok :: "string \<Rightarrow> bool" where
  "label_ok l \<longleftrightarrow> l \<noteq> [] \<and> length l \<le> maxLabelLen"

definition item_typed :: "prod_item \<Rightarrow> bool" where
  "item_typed w \<longleftrightarrow> pw_state w \<in> set lanes \<and> pw_title w \<noteq> [] \<and> pw_created_by w \<noteq> [] \<and>
     (\<forall>x. pw_priority w = Some x \<longrightarrow> x \<in> set validPriorities) \<and> (\<forall>x. pw_work_mode w = Some x \<longrightarrow> x \<in> set validWorkModes) \<and>
     distinct (pw_labels w) \<and> length (pw_labels w) \<le> maxLabels \<and> list_all label_ok (pw_labels w)"

definition items_typed :: "prod_db \<Rightarrow> bool" where
  "items_typed db \<longleftrightarrow> list_all item_typed (pd_items db)"

lemma normalize_labels_ok:
  "normalize_labels out xs = Inr ls \<Longrightarrow> distinct out \<and> length out \<le> maxLabels \<and> list_all label_ok out \<Longrightarrow>
   distinct ls \<and> length ls \<le> maxLabels \<and> list_all label_ok ls"
proof (induction out xs rule: normalize_labels.induct)
  case (2 out x xs)
  then show ?case by (auto simp: Let_def label_ok_def split: if_splits)
qed simp

lemma normalizeCreateFields_ok:
  assumes "normalizeCreateFields p m xs = Inr (p', m', ls)"
  shows "p' = p \<and> m' = m \<and> (p = [] \<or> p \<in> set validPriorities) \<and> (m = [] \<or> m \<in> set validWorkModes) \<and>
    distinct ls \<and> length ls \<le> maxLabels \<and> list_all label_ok ls"
  using assms normalize_labels_ok [of "[]" xs] by (auto simp: normalizeCreateFields_def split: if_splits sum.splits)

lemma typed_insert:
  assumes "items_typed db" and "item_typed w" and "insert_work_item w db = Some db'" shows "items_typed db'"
  using insert_work_item_Some [OF assms(3)] assms(1,2) by (auto simp: items_typed_def provision_def item_typed_def)

lemma typed_new_item:
  assumes "normalizeCreateFields p m xs = Inr (p', m', ls)" and "title \<noteq> []" and "prin \<noteq> []"
  shows "item_typed (new_work_item now new proj team parent title body prin p' m' ls)"
  using normalizeCreateFields_ok [OF assms(1)] assms(2,3)
  by (auto simp: item_typed_def new_work_item_def lanes_def nullable_def split: if_splits)

lemma typed_upd:
  assumes "items_typed db" and "pd_items db' = upd_key pw_id i G g (pd_items db)" and "\<And>w. item_typed w \<Longrightarrow> G w \<Longrightarrow> item_typed (g w)"
  shows "items_typed db'"
  using assms by (auto simp: items_typed_def list_all_iff upd_key_def sql_update_def)

lemma typed_edit:
  assumes "items_typed db" and "edit_write flt op now item title body parent w db = Inr (v, db')" and "item_row_of db item = Some w"
    and "title \<noteq> Some []"
  shows "items_typed db'"
proof -
  have "item_typed w" using assms(1) lookup_by_Some [OF assms(3)] by (auto simp: items_typed_def list_all_iff)
  then have t: "new_title title w \<noteq> []" using assms(4) by (auto simp: new_title_def item_typed_def split: option.splits)
  have keep: "item_typed (edited_row now (new_title title w) b p team u)" if "item_typed u" for b p team u
    using that t by (simp add: item_typed_def edited_row_def)
  obtain n where "update_work_item now item (pw_updated w) (new_title title w) (new_text body (pw_body w))
      (new_text parent (pw_parent w)) db = Some (n, db')"
    by (rule edit_write_effect [OF assms(2)])
  then show ?thesis using assms(1) keep
    by (auto simp: update_work_item_def Let_def split: option.splits if_splits intro: typed_upd)
qed

lemma typed_same_items: "pd_items db' = pd_items db \<Longrightarrow> items_typed db' = items_typed db"
  by (simp add: items_typed_def)

lemma typed_lane: "item_typed w \<Longrightarrow> item_typed (w\<lparr>pw_state := ''todo'', pw_updated := now\<rparr>)"
  by (simp add: item_typed_def lanes_def)

lemma typed_dispatch_set: "item_typed w \<Longrightarrow> item_typed (dispatch_set now agent lane w)"
  by (simp add: item_typed_def lanes_def dispatch_set_def)

lemma typed_create:
  assumes "CreateWorkItem flt now new inp db = Inr (r, db')" and "items_typed db" shows "items_typed db'"
proof -
  have ne: "ci_title inp \<noteq> []" "ci_principal inp \<noteq> []" using assms(1) by (auto simp: CreateWorkItem_def split: if_splits)
  obtain priority workMode labels team parent db1 where
    n: "normalizeCreateFields (ci_priority inp) (ci_work_mode inp) (ci_labels inp) = Inr (priority, workMode, labels)" and
    i: "insert_work_item (new_work_item now new (ci_project inp) team parent (ci_title inp) (ci_body inp) (ci_principal inp)
       priority workMode labels) db = Some db1" and
    d: "db' = insert_audit (write_audit_row now new None ''work_item_created'' (ci_principal inp) (nullable (ci_initiated inp))
       (create_detail (ci_title inp) parent priority workMode labels)) db1"
    by (rule CreateWorkItem_effect [OF assms(1)]) (rule that, assumption+)
  have "items_typed db1" by (rule typed_insert [OF assms(2) typed_new_item [OF n ne] i])
  then show ?thesis by (simp add: d items_typed_def)
qed

lemma typed_agent_create:
  assumes "AgentCreateWorkItem flt now new inp db = Inr (r, db')" and "items_typed db" shows "items_typed db'"
proof -
  have ne: "ac_title inp \<noteq> []" "ac_principal inp \<noteq> []" using assms(1) by (auto simp: AgentCreateWorkItem_def split: if_splits)
  obtain priority workMode labels p db1 where
    n: "normalizeCreateFields (ac_priority inp) (ac_work_mode inp) (ac_labels inp) = Inr (priority, workMode, labels)" and
    "agent_create_check flt now inp db = Inr p" and
    i: "insert_work_item (new_work_item now new (pw_project p) (pw_team p) (Some (ac_parent inp)) (ac_title inp) (ac_body inp)
       (ac_principal inp) priority workMode labels) db = Some db1" and
    d: "db' = insert_audit (write_audit_row now new (Some (ac_run inp)) ''work_item_created'' (ac_principal inp) None
       (create_detail (ac_title inp) (Some (ac_parent inp)) priority workMode labels @
        [(''agent'', JStr (ac_agent inp)), (''agent_write'', JBool True)])) db1"
    by (rule AgentCreateWorkItem_effect [OF assms(1)]) (rule that, assumption+)
  have "items_typed db1" by (rule typed_insert [OF assms(2) typed_new_item [OF n ne] i])
  then show ?thesis by (simp add: d items_typed_def)
qed

lemma typed_human_edit:
  assumes "UpdateWorkItem scan flt now item inp db = Inr (r, db')" and "items_typed db" shows "items_typed db'"
proof (rule UpdateWorkItem_effect [OF assms(1)])
  fix w v db1 assume c: "update_check flt item inp db = Inr w"
    and e: "edit_write flt ''coord.UpdateWorkItem'' now item (ui_title inp) (ui_body inp) (ui_parent inp) w db = Inr (v, db1)"
    and d: "db' = insert_audit (write_audit_row now item None ''work_item_edited'' (ui_principal inp) (nullable (ui_initiated inp))
       (editedFields inp)) db1"
  have "item_row_of db item = Some w" using update_check_clear [OF c] by (simp add: edit_clear_def)
  moreover have "ui_title inp \<noteq> Some []" using c by (auto simp: update_check_def split: if_splits)
  ultimately have "items_typed db1" by (rule typed_edit [OF assms(2) e])
  then show ?thesis by (simp add: d items_typed_def)
qed

lemma typed_agent_edit:
  assumes "AgentUpdateWorkItem flt now item inp db = Inr (r, db')" and "items_typed db" shows "items_typed db'"
proof (rule AgentUpdateWorkItem_effect [OF assms(1)])
  fix w v db1 assume c: "agent_update_check flt now item inp db = Inr w"
    and e: "edit_write flt ''coord.AgentUpdateWorkItem'' now item (ag_title inp) (ag_body inp) (ag_parent inp) w db = Inr (v, db1)"
    and d: "db' = insert_audit (write_audit_row now item (Some (ag_run inp)) ''work_item_edited'' (ag_principal inp) None
       (agentEditedFields inp)) db1"
  have "item_row_of db item = Some w" using agent_update_check_clear [OF c] by (simp add: edit_clear_def)
  moreover have "ag_title inp \<noteq> Some []" using c by (auto simp: agent_update_check_def split: if_splits)
  ultimately have "items_typed db1" by (rule typed_edit [OF assms(2) e])
  then show ?thesis by (simp add: d items_typed_def)
qed

lemma typed_dispatch:
  assumes "RequestDispatch agents flt now inp db = Inr (r, db')" and "items_typed db" shows "items_typed db'"
  by (rule RequestDispatch_effect [OF assms(1)]) (rule typed_upd [OF assms(2)], simp, rule typed_dispatch_set)

lemma typed_nudge:
  assumes "comment_nudge flt now item prin lane db = Inr (moved, db')" and "items_typed db" shows "items_typed db'"
  using comment_nudge_effect [OF assms(1)] assms(2)
proof (elim disjE exE conjE)
  fix G assume "db' = db\<lparr>pd_items := upd_key pw_id item G (\<lambda>w. w\<lparr>pw_state := ''todo'', pw_updated := now\<rparr>) (pd_items db)\<rparr>"
  then show ?thesis by (intro typed_upd [OF assms(2), of db' item G]) (simp, rule typed_lane)
next
  assume "db' = insert_audit (nudge_audit now item prin lane)
      (db\<lparr>pd_items := upd_key pw_id item (nudge_guard item lane db) (\<lambda>w. w\<lparr>pw_state := ''todo'', pw_updated := now\<rparr>) (pd_items db)\<rparr>)"
  then show ?thesis by (intro typed_upd [OF assms(2), of db' item "nudge_guard item lane db"]) (simp, rule typed_lane)
qed simp

lemma typed_comment:
  assumes "AppendHumanComment valid cast flt now item team prin body refs db = Inr (r, db')" and "items_typed db" shows "items_typed db'"
  by (rule AppendHumanComment_effect [OF assms(1)], erule typed_nudge) (simp add: items_typed_def assms(2) [unfolded items_typed_def])

lemma typed_next:
  assumes "DispatchNextOfRecord flt now new dec db = (r, db')" and "items_typed db" shows "items_typed db'"
  using DispatchNextOfRecord_effect [OF assms(1)]
proof (elim disjE exE conjE)
  fix s c db1 assume i: "insert_work_item (next_item now new dec s) db = Some db1"
    and r: "r = Inr \<lparr>ds_created = new, ds_already = False\<rparr>"
    and d: "db' = insert_audit (next_audit now new dec) (db1\<lparr>pd_dispatch := pd_dispatch db1 @
      [\<lparr>dx_key = dispatch_key dec, dx_source = dd_source dec, dx_source_run = dd_run dec,
        dx_created = new, dx_by = dd_coordinator dec, dx_at = now\<rparr>]\<rparr>)"
  have "dd_title dec \<noteq> []" "dd_coordinator dec \<noteq> []" using assms(1) r by (auto simp: DispatchNextOfRecord_def split: if_splits)
  then have "item_typed (next_item now new dec s)" by (simp add: item_typed_def next_item_def lanes_def)
  then have "items_typed db1" by (rule typed_insert [OF assms(2) _ i])
  then show ?thesis by (simp add: d items_typed_def)
qed (simp add: assms(2))

lemma typed_step:
  assumes "items_typed db" shows "items_typed (work_step env x db)"
proof -
  obtain flt p where x: "x = (flt, p)" by (cases x)
  show ?thesis
  proof (cases p)
    case (OpCreate now new inp)
    then show ?thesis using assms x
      by (cases rule: committed_cases [of "CreateWorkItem flt now new inp db" db]) (auto simp: work_step_def dest: typed_create)
  next
    case (OpEdit now item inp)
    then show ?thesis using assms x
      by (cases rule: committed_cases [of "UpdateWorkItem (we_scan env) flt now item inp db" db]) (auto simp: work_step_def dest: typed_human_edit)
  next
    case (OpAgentCreate now new inp)
    then show ?thesis using assms x
      by (cases rule: committed_cases [of "AgentCreateWorkItem flt now new inp db" db]) (auto simp: work_step_def dest: typed_agent_create)
  next
    case (OpAgentEdit now item inp)
    then show ?thesis using assms x
      by (cases rule: committed_cases [of "AgentUpdateWorkItem flt now item inp db" db]) (auto simp: work_step_def dest: typed_agent_edit)
  next
    case (OpDispatch now inp)
    then show ?thesis using assms x
      by (cases rule: committed_cases [of "RequestDispatch (we_agents env) flt now inp db" db]) (auto simp: work_step_def dest: typed_dispatch)
  next
    case (OpAgentDispatch now inp seen)
    then show ?thesis using assms x
      by (cases rule: committed_cases [of "AgentRequestDispatch (we_agents env) flt now inp seen db" db])
        (auto simp: work_step_def dest!: agent_dispatch_is dest: typed_dispatch)
  next
    case (OpComment now item team prin body refs)
    then show ?thesis using assms x
      by (cases rule: committed_cases [of "AppendHumanComment (we_valid env) (we_cast env) flt now item team prin body refs db" db])
        (auto simp: work_step_def dest: typed_comment)
  next
    case (OpNext now new dec)
    then show ?thesis using assms x
      by (cases "DispatchNextOfRecord flt now new dec db") (auto simp: work_step_def dest: typed_next)
  qed
qed

interpretation shape: kept_by_steps "work_step env" "\<lambda>_. True" items_typed for env
  by unfold_locales (rule typed_step)

text \<open>
  C16. Items keep their shape: from a table whose items are well typed, every sequence of work
  item operations leaves each item in one of the twelve board lanes, with a title and a creator,
  a priority and a work mode from their vocabularies if any, and at most twenty distinct
  non-empty labels of at most sixty-four bytes.
\<close>

theorem items_stay_typed:
  assumes "list_all item_typed (pd_items db)"
  shows "list_all item_typed (pd_items (work_run env ops db))"
  using shape.run_keeps [where xs = ops and s = db and env = env] assms by (simp add: items_typed_def work_run_def list_all_iff)

lemma items_stay_typed_witness:
  "let db = work_run plain_env [(\<lambda>_. False, OpAgentCreate 1 ''c'' (agent_child ''a''))] two_roots
   in list_all item_typed (pd_items db) \<and> map pw_labels (pd_items db) = [[], [], [''x'']]"
proof -
  let ?ops = "[(\<lambda>_::string. False, OpAgentCreate 1 ''c'' (agent_child ''a''))]"
  have "list_all item_typed (pd_items two_roots)"
    by (simp add: two_roots_def board_of_def plain_item_def item_typed_def lanes_def)
  then have "list_all item_typed (pd_items (work_run plain_env ?ops two_roots))" by (rule items_stay_typed)
  moreover have "map pw_labels (pd_items (work_run plain_env ?ops two_roots)) = [[], [], [''x'']]" by code_simp
  ultimately show ?thesis by (simp add: Let_def)
qed

end
