(* ===== verification/Work_Routing.thy ===== *)
theory Work_Routing
  imports Work_Custody
begin

text \<open>
  Properties of the operations that route work: the assign verb, the comment nudge, the hand-off
  of a completing Run and the coordinator's dispatch of the next item.
\<close>

section \<open>Dispatch\<close>

lemma dispatch_plan_Inr:
  assumes "dispatch_plan flt item st db = Inr (lane, to, event)"
  shows "lane = st \<and> to = ''todo'' \<and> (st \<noteq> ''backlog'' \<longrightarrow> unheld db item)"
  using assms by (auto simp: dispatch_plan_def Let_def split: if_splits)

lemma containsString_set: "containsString xs s \<longleftrightarrow> s \<in> set xs"
  by (induction xs) auto

text \<open>
  The assign verb is a guarded move outside custody. A dispatch that succeeds found the item
  in the caller's team with an agent of the owning team's composition, put that one item into
  the todo lane with the agent as its requested agent, left every claim alone, found no live
  checkout unless the item was still in the backlog, and appended one audit row without a fence
  that names the lane the item left.
\<close>

theorem dispatch_is_guarded:
  assumes "wf_table pw_id (pd_items db)" and "RequestDispatch agents flt now inp db = Inr (r, db')"
  shows "\<exists>w names a. item_row_of db (rd_item inp) = Some w \<and> (rd_team inp = [] \<or> pw_team w = Some (rd_team inp)) \<and>
    agents (coalesce (pw_team w)) = Inr names \<and> rd_agent inp \<in> set names \<and>
    (pw_state w \<noteq> ''backlog'' \<longrightarrow> unheld db (rd_item inp)) \<and>
    (\<forall>j. item_row_of db' j = (if j = rd_item inp then
       Some (w\<lparr>pw_requested := Some (rd_agent inp), pw_state := ''todo'', pw_updated := now\<rparr>) else item_row_of db j)) \<and>
    pd_claims db' = pd_claims db \<and> pd_audit db' = pd_audit db @ [a] \<and> au_fence a = None \<and>
    au_from a = Some (pw_state w) \<and> au_to a = Some ''todo'' \<and> dr_from r = pw_state w"
proof -
  obtain w lane to event names where d: "item_row_of db (rd_item inp) = Some w" "visible_to (rd_team inp) w"
    "coalesce (pw_team w) \<noteq> []" "dispatch_plan flt (rd_item inp) (pw_state w) db = Inr (lane, to, event)"
    "agents (coalesce (pw_team w)) = Inr names" "containsString names (rd_agent inp)"
    "aff_key pw_id (rd_item inp) (dispatch_guard (rd_item inp) lane db) (pd_items db) \<noteq> 0"
    "r = \<lparr>dr_item = rd_item inp, dr_from = lane, dr_to = to, dr_agent = rd_agent inp\<rparr>"
    "db' = insert_audit (dispatch_audit now inp lane to event)
       (db\<lparr>pd_items := upd_key pw_id (rd_item inp) (dispatch_guard (rd_item inp) lane db) (dispatch_set now (rd_agent inp) lane) (pd_items db)\<rparr>)"
    by (rule RequestDispatch_effect [OF assms(2)]) (rule that, assumption+)
  note plan = dispatch_plan_Inr [OF d(4)]
  have guard: "dispatch_guard (rd_item inp) lane db w"
    using d(7) d(1) by (simp add: aff_key_wf [OF assms(1)] split: if_splits)
  have same: "pw_id (dispatch_set now (rd_agent inp) lane v) = pw_id v" for v by (simp add: dispatch_set_def)
  have set: "dispatch_set now (rd_agent inp) lane w = w\<lparr>pw_requested := Some (rd_agent inp), pw_state := ''todo'', pw_updated := now\<rparr>"
    using plan by (cases w) (auto simp: dispatch_set_def)
  have rows: "item_row_of db' j = (if j = rd_item inp then
       Some (w\<lparr>pw_requested := Some (rd_agent inp), pw_state := ''todo'', pw_updated := now\<rparr>) else item_row_of db j)" for j
    using d(1,9) guard same set by simp
  show ?thesis
    by (intro exI [of _ w] exI [of _ names] exI [of _ "dispatch_audit now inp lane to event"])
      (use d plan rows in \<open>auto simp: visible_to_def containsString_set dispatch_audit_def\<close>)
qed

definition assign_to :: "string \<Rightarrow> RequestDispatchInput" where
  "assign_to i = \<lparr>rd_item = i, rd_agent = ''a'', rd_team = ''t'', rd_principal = ''u'', rd_initiated = [], rd_initiator = []\<rparr>"

lemma dispatch_is_guarded_witness:
  "case RequestDispatch (\<lambda>_. Inr [''a'']) (\<lambda>_. False) 7 (assign_to ''b'') two_roots of
     Inl _ \<Rightarrow> False | Inr (r, db') \<Rightarrow> dr_from r = ''todo'' \<and> pd_claims db' = pd_claims two_roots"
proof -
  have wf: "wf_table pw_id (pd_items two_roots)" by code_simp
  have "(case RequestDispatch (\<lambda>_. Inr [''a'']) (\<lambda>_. False) 7 (assign_to ''b'') two_roots of Inl _ \<Rightarrow> False | Inr (r, _) \<Rightarrow> dr_from r = ''todo'')"
    by code_simp
  then obtain r db' where d: "RequestDispatch (\<lambda>_. Inr [''a'']) (\<lambda>_. False) 7 (assign_to ''b'') two_roots = Inr (r, db')" "dr_from r = ''todo''"
    by (auto split: sum.splits)
  show ?thesis using dispatch_is_guarded [OF wf d(1)] d by auto
qed

text \<open>
  No second start behind a live Run: while the item's claim has a holder, a dispatch of it
  from any lane but the backlog is refused with the live-run conflict, whoever asks and whichever
  agent is named, and a comment on it is stored without moving the lane.
\<close>

theorem live_run_blocks_redispatch:
  assumes "claim_row_of db item = Some c" and "pc_holder c = Some h" and "item_row_of db item = Some w"
    and "pw_state w \<in> set lanes" and "pw_state w \<noteq> ''backlog''" and "pw_team w = Some team" and "team \<noteq> []"
    and "rd_item inp = item" and "item \<noteq> []" and "rd_agent inp \<noteq> []" and "rd_principal inp \<noteq> []" and "visible_to (rd_team inp) w"
  shows "RequestDispatch agents (\<lambda>_. False) now inp db = Inl (DispatchConflictError ConflictReasonLiveRun) \<and>
    (\<forall>valid cast flt prin body refs r db'. AppendHumanComment valid cast flt now item [] prin body refs db = Inr (r, db') \<longrightarrow>
       \<not> co_retriggered r \<and> pd_items db' = pd_items db)"
proof (intro conjI allI impI)
  have busy: "\<not> unheld db item" using assms(1,2) by (simp add: unheld_def)
  then have "dispatch_plan (\<lambda>_. False) item (pw_state w) db = Inl (DispatchConflictError ConflictReasonLiveRun)"
    using assms(4,5) by (auto simp: dispatch_plan_def lanes_def commentReTriggerLanes_def)
  then show "RequestDispatch agents (\<lambda>_. False) now inp db = Inl (DispatchConflictError ConflictReasonLiveRun)"
    using assms by (simp add: RequestDispatch_def coalesce_def)
  fix valid cast flt prin body refs r db'
  assume "AppendHumanComment valid cast flt now item [] prin body refs db = Inr (r, db')"
  then obtain w1 resolved db1 moved where c: "item_row_of db item = Some w1"
    "db1 = insert_audit (write_audit_row now item None ''work_item_commented'' prin None [])
       (insert_comment \<lparr>cm_item = item, cm_author = prin, cm_body = body, cm_kind = None, cm_run = None,
          cm_payload = refs_payload resolved, cm_at = now\<rparr> db)"
    "comment_nudge flt now item prin (pw_state w1) db1 = Inr (moved, db')" "co_retriggered r = moved"
    by (rule AppendHumanComment_effect) (rule that, assumption+)
  have "\<not> unheld db1 item" using busy by (simp add: unheld_def c(2))
  then have "\<not> moved \<and> db' = db1" using c(3) by (simp add: comment_nudge_def)
  then show "\<not> co_retriggered r" "pd_items db' = pd_items db" using c by simp_all
qed

lemma live_run_blocks_redispatch_witness:
  "RequestDispatch (\<lambda>_. Inr [''a'']) (\<lambda>_. False) 7 (assign_to ''a'') two_roots = Inl (DispatchConflictError ConflictReasonLiveRun)"
  by (rule live_run_blocks_redispatch [where item = "''a''" and c = "leased_claim ''a'' ''agent:x''" and h = "''agent:x''"
        and w = "plain_item ''a'' None" and team = "''t''", THEN conjunct1])
    (simp_all add: two_roots_def board_of_def leased_claim_def fresh_claim_def plain_item_def lanes_def assign_to_def visible_to_def)

section \<open>Hand-off\<close>

lemma WriteHandoff_effect:
  assumes "WriteHandoff text_of flt now clock1 clock2 item prin runID initiated fence doc db = Inr (res, db')"
  obtains c where "claim_row_of db item = Some c" "live_custodian clock1 prin runID fence c" "live_custodian clock2 prin runID fence c"
    "hw_audit res = Suc (length (pd_audit db))" "hw_uri res = AuditHandoffURI @ nat_str (Suc (length (pd_audit db)))"
    "hw_sha res = sha256_hex (text_of (marshal_doc doc))"
    "pd_items db' = pd_items db" "pd_claims db' = pd_claims db" "pd_comments db' = pd_comments db"
    "pd_audit db' = pd_audit db @ [\<lparr>au_item = item, au_run = Some runID, au_event = ''artifact_registered'', au_principal = prin,
        au_initiated = nullable initiated, au_fence = Some fence, au_from = None, au_to = None,
        au_payload = marshal_doc doc, au_created = now\<rparr>]"
    "pd_artifacts db' = (case lookup_by artifact_key (item, Some runID, HandoffKind) (pd_artifacts db) of
       None \<Rightarrow> pd_artifacts db @ [\<lparr>ar_item = item, ar_run = Some runID, ar_kind = HandoffKind, ar_uri = hw_uri res, ar_sha = hw_sha res,
         ar_meta = None, ar_created = now\<rparr>]
     | Some _ \<Rightarrow> upd_key artifact_key (item, Some runID, HandoffKind) (\<lambda>_. True) (\<lambda>r. r\<lparr>ar_uri := hw_uri res, ar_sha := hw_sha res\<rparr>) (pd_artifacts db))"
  using assms
  by (auto simp: WriteHandoff_def upsert_handoff_def in_custody_def Let_def artifact_key_def split: if_splits option.splits prod.splits)

text \<open>
  Only the live custodian publishes a hand-off. A write that succeeds found the item's claim
  held by the caller, for its Run, at its fence, under an unexpired lease at both statements; it
  changes no item and no claim, appends one audit row, and leaves exactly one hand-off artifact
  for the item and Run, with the digest of the stored document. A caller that is not the live
  custodian is refused.
\<close>

theorem handoff_needs_custody:
  assumes "WriteHandoff text_of flt now clock1 clock2 item prin runID initiated fence doc db = Inr (res, db')"
    and "wf_table artifact_key (pd_artifacts db)"
  shows "in_custody clock1 item prin runID fence db \<and> in_custody clock2 item prin runID fence db \<and>
    pd_items db' = pd_items db \<and> pd_claims db' = pd_claims db \<and> length (pd_audit db') = Suc (length (pd_audit db)) \<and>
    wf_table artifact_key (pd_artifacts db') \<and>
    (\<exists>a. lookup_by artifact_key (item, Some runID, HandoffKind) (pd_artifacts db') = Some a \<and>
       ar_uri a = hw_uri res \<and> ar_sha a = sha256_hex (text_of (marshal_doc doc)))"
proof (rule WriteHandoff_effect [OF assms(1)], goal_cases)
  case (1 c)
  let ?k = "(item, Some runID, HandoffKind)"
  have upd: "artifact_key (r\<lparr>ar_uri := u, ar_sha := h\<rparr>) = artifact_key r" for r u h by (simp add: artifact_key_def)
  have key: "artifact_key \<lparr>ar_item = item, ar_run = Some runID, ar_kind = HandoffKind, ar_uri = u, ar_sha = h, ar_meta = None,
      ar_created = now\<rparr> = ?k" for u h by (simp add: artifact_key_def)
  have rows: "wf_table artifact_key (pd_artifacts db') \<and> (\<exists>a. lookup_by artifact_key ?k (pd_artifacts db') = Some a \<and>
      ar_uri a = hw_uri res \<and> ar_sha a = hw_sha res)"
  proof (cases "lookup_by artifact_key ?k (pd_artifacts db)")
    case None
    then have "pd_artifacts db' = pd_artifacts db @ [\<lparr>ar_item = item, ar_run = Some runID, ar_kind = HandoffKind, ar_uri = hw_uri res,
        ar_sha = hw_sha res, ar_meta = None, ar_created = now\<rparr>]" using 1(11) by simp
    then show ?thesis using None assms(2) key lookup_by_None [of artifact_key ?k "pd_artifacts db"]
      by (simp add: lookup_by_append wf_table_def)
  next
    case (Some r)
    then show ?thesis using 1(11) assms(2) upd by simp
  qed
  have "length (pd_audit db') = Suc (length (pd_audit db))" using 1(10) by simp
  with 1(1-3,6-8) rows show ?case by (simp add: in_custody_def)
qed

definition small_doc :: HandoffDoc where
  "small_doc = \<lparr>hd_did = Some [''x''], hd_decisions = None, hd_next = None, hd_blockers = None, hd_findings = ''f'',
     hd_recommended = Some [\<lparr>dw_title = ''n'', dw_body = []\<rparr>], hd_artifacts = None\<rparr>"

lemma small_write:
  "\<exists>res db'. WriteHandoff (\<lambda>_. ''{}'') (\<lambda>_. False) 5 6 7 ''a'' ''agent:x'' ''r'' [] 1 small_doc two_roots = Inr (res, db') \<and> hw_audit res = 1"
  by (simp add: WriteHandoff_def upsert_handoff_def in_custody_def live_custodian_def two_roots_def board_of_def leased_claim_def
      fresh_claim_def Let_def)

lemma handoff_needs_custody_witness:
  "in_custody 6 ''a'' ''agent:x'' ''r'' 1 two_roots \<and>
   (\<exists>res db'. WriteHandoff (\<lambda>_. ''{}'') (\<lambda>_. False) 5 6 7 ''a'' ''agent:x'' ''r'' [] 1 small_doc two_roots = Inr (res, db') \<and>
      wf_table artifact_key (pd_artifacts db'))"
proof -
  have wf: "wf_table artifact_key (pd_artifacts two_roots)" by (simp add: two_roots_def board_of_def wf_table_def)
  obtain res db' where w: "WriteHandoff (\<lambda>_. ''{}'') (\<lambda>_. False) 5 6 7 ''a'' ''agent:x'' ''r'' [] 1 small_doc two_roots = Inr (res, db')"
    using small_write by blast
  show ?thesis using handoff_needs_custody [OF w wf] w by blast
qed

lemma find_unique:
  assumes "x \<in> set xs" and "P x" and "\<And>y. y \<in> set xs \<Longrightarrow> P y \<Longrightarrow> Q y" shows "\<exists>y. find P xs = Some y \<and> Q y"
  using assms by (induction xs) auto

lemma handoff_rows:
  assumes "pd_artifacts db' = (case lookup_by artifact_key (item, Some runID, HandoffKind) (pd_artifacts db) of
       None \<Rightarrow> pd_artifacts db @ [\<lparr>ar_item = item, ar_run = Some runID, ar_kind = HandoffKind, ar_uri = u, ar_sha = h,
         ar_meta = None, ar_created = now\<rparr>]
     | Some _ \<Rightarrow> upd_key artifact_key (item, Some runID, HandoffKind) (\<lambda>_. True) (\<lambda>r. r\<lparr>ar_uri := u, ar_sha := h\<rparr>) (pd_artifacts db))"
    and "list_all (\<lambda>a. ar_item a = item \<and> ar_kind a = HandoffKind \<longrightarrow> ar_run a = Some runID) (pd_artifacts db)"
  shows "(\<forall>a \<in> set (pd_artifacts db'). ar_item a = item \<and> ar_kind a = HandoffKind \<longrightarrow> ar_uri a = u \<and> ar_sha a = h) \<and>
    (\<exists>a \<in> set (pd_artifacts db'). ar_item a = item \<and> ar_kind a = HandoffKind)"
proof (cases "lookup_by artifact_key (item, Some runID, HandoffKind) (pd_artifacts db)")
  case None
  then have "a \<in> set (pd_artifacts db) \<Longrightarrow> \<not> (ar_item a = item \<and> ar_kind a = HandoffKind)" for a
    using assms(2) by (auto simp: lookup_by_None list_all_iff artifact_key_def image_iff)
  then show ?thesis using assms(1) None by auto
next
  case (Some r)
  have r: "r \<in> set (pd_artifacts db)" "ar_item r = item" "ar_kind r = HandoffKind" "ar_run r = Some runID"
    using lookup_by_Some [OF Some] by (auto simp: artifact_key_def)
  have eq: "pd_artifacts db' = map (\<lambda>a. if artifact_key a = (item, Some runID, HandoffKind) then a\<lparr>ar_uri := u, ar_sha := h\<rparr> else a) (pd_artifacts db)"
    using assms(1) Some by (simp add: upd_key_def sql_update_def)
  have "r\<lparr>ar_uri := u, ar_sha := h\<rparr> \<in> set (pd_artifacts db')" using eq r by (force simp: artifact_key_def)
  then show ?thesis using eq r assms(2) by (auto simp: list_all_iff artifact_key_def intro!: bexI [of _ "r\<lparr>ar_uri := u, ar_sha := h\<rparr>"])
qed

text \<open>
  A hand-off is read back as it was written. After a successful write, when no other Run has
  left a hand-off on the item, the database's rendering of a stored document denotes that
  document up to the order of keys, and numbers read back, the coordinator's read returns the
  view with exactly the document written, the item's lane and the Run that holds the claim: the
  digest registered for the bytes matches them.
\<close>

theorem handoff_round_trip:
  assumes "WriteHandoff text_of flt now clock1 clock2 item prin runID initiated fence doc db = Inr (res, db')"
    and "item_row_of db item = Some w"
    and "list_all (\<lambda>a. ar_item a = item \<and> ar_kind a = HandoffKind \<longrightarrow> ar_run a = Some runID) (pd_artifacts db)"
    and "parse (text_of (marshal_doc doc)) = Some j" and "reordered (JObj (marshal_doc doc)) (JObj j)"
    and "bigint (nat_str (Suc (length (pd_audit db)))) = Some (Suc (length (pd_audit db)))"
  shows "\<exists>v. ReadHandoff (Some (AuditHandoffContent text_of bigint (\<lambda>_. False) db')) parse (\<lambda>_. False) db' item = Inr v \<and>
    hv_handoff v = Some doc \<and> hv_run v = runID \<and> hv_state v = pw_state w"
proof (rule WriteHandoff_effect [OF assms(1)], goal_cases)
  case (1 c)
  let ?u = "AuditHandoffURI @ nat_str (Suc (length (pd_audit db)))"
  let ?h = "sha256_hex (text_of (marshal_doc doc))"
  note rows = handoff_rows [OF 1(11) assms(3)]
  have u: "hw_uri res = ?u" and h: "hw_sha res = ?h" using 1(5,6) by auto
  obtain a where a: "a \<in> set (pd_artifacts db')" "ar_item a = item" "ar_kind a = HandoffKind" "ar_uri a = ?u" "ar_sha a = ?h"
    using rows u h by metis
  let ?ref = "\<lambda>a. \<lparr>rf_kind = ar_kind a, rf_uri = ar_uri a, rf_sha = ar_sha a\<rparr>"
  have "\<exists>y. find (\<lambda>a. rf_kind a = HandoffKind) (record_artifacts db' item) = Some y \<and> rf_uri y = ?u"
  proof (rule find_unique [of "?ref a"])
    show "?ref a \<in> set (record_artifacts db' item)" using a(1,2) by (simp add: record_artifacts_def)
    show "rf_kind (?ref a) = HandoffKind" using a(3) by simp
    show "rf_uri y = ?u" if "y \<in> set (record_artifacts db' item)" "rf_kind y = HandoffKind" for y
      using that rows u by (auto simp: record_artifacts_def)
  qed
  then obtain y where y: "find (\<lambda>a. rf_kind a = HandoffKind) (record_artifacts db' item) = Some y" "rf_uri y = ?u" by blast
  have "audit_by_id (Suc (length (pd_audit db))) db' = Some (pd_audit db' ! length (pd_audit db))"
    using 1(10) by (simp add: audit_by_id_def)
  moreover have "au_payload (pd_audit db' ! length (pd_audit db)) = marshal_doc doc" using 1(10) by simp
  moreover have "?h \<in> set (map ar_sha (filter (\<lambda>a. ar_uri a = ?u) (pd_artifacts db')))" using a by force
  ultimately have "AuditHandoffContent text_of bigint (\<lambda>_. False) db' ?u = Inr (text_of (marshal_doc doc))"
    using assms(6) by (auto simp: AuditHandoffContent_def has_prefix_def Let_def filter_empty_conv)
  moreover have "unmarshal_doc j = Some doc" using unmarshal_re [OF assms(5)] by (simp add: unmarshal_marshal)
  ultimately have "resolve_handoff (Some (AuditHandoffContent text_of bigint (\<lambda>_. False) db')) parse (record_artifacts db' item) = Inr (Some doc)"
    using y assms(4) by (simp add: resolve_handoff_def)
  moreover have "pc_run c = Some runID" using 1(2) by (simp add: live_custodian_def)
  ultimately show ?case using 1(1,7,8) assms(2) by (simp add: ReadHandoff_def)
qed

lemma re_refl_str: "reordered (JStr s) (JStr s)" by (rule re_str)

lemma re_slice:
  assumes "\<And>x. reordered (f x) (f x)" shows "reordered (jslice f xs) (jslice f xs)"
  using assms by (cases xs) (auto simp: jslice_def list.rel_refl_strong list.rel_map intro: re_null re_list list.rel_refl)

lemma re_draft: "reordered (draft_json d) (draft_json d)"
  unfolding draft_json_def by (rule re_obj) (auto intro: re_str split: if_splits)

lemma re_ref: "reordered (ref_row_json r) (ref_row_json r)"
  unfolding ref_row_json_def by (rule re_obj) (auto intro: re_str split: if_splits)

lemma re_doc: "reordered (JObj (marshal_doc d)) (JObj (marshal_doc d))"
  unfolding marshal_doc_def
  by (rule re_obj) (auto intro: re_slice re_str re_draft re_ref split: if_splits)

lemma handoff_round_trip_witness:
  "\<exists>res db' v. WriteHandoff (\<lambda>_. ''{}'') (\<lambda>_. False) 5 6 7 ''a'' ''agent:x'' ''r'' [] 1 small_doc two_roots = Inr (res, db') \<and>
     ReadHandoff (Some (AuditHandoffContent (\<lambda>_. ''{}'') (\<lambda>_. Some 1) (\<lambda>_. False) db')) (\<lambda>_. Some (marshal_doc small_doc)) (\<lambda>_. False) db' ''a'' = Inr v \<and>
     AdoptRecommendation v = Some [\<lparr>dw_title = ''n'', dw_body = []\<rparr>]"
proof -
  obtain res db' where w: "WriteHandoff (\<lambda>_. ''{}'') (\<lambda>_. False) 5 6 7 ''a'' ''agent:x'' ''r'' [] 1 small_doc two_roots = Inr (res, db')"
    using small_write by blast
  have row: "item_row_of two_roots ''a'' = Some (plain_item ''a'' None)" by (simp add: two_roots_def board_of_def plain_item_def)
  have "\<exists>v. ReadHandoff (Some (AuditHandoffContent (\<lambda>_. ''{}'') (\<lambda>_. Some 1) (\<lambda>_. False) db')) (\<lambda>_. Some (marshal_doc small_doc)) (\<lambda>_. False) db' ''a'' = Inr v \<and>
      hv_handoff v = Some small_doc \<and> hv_run v = ''r'' \<and> hv_state v = pw_state (plain_item ''a'' None)"
    by (rule handoff_round_trip [OF w row _ _ re_doc]) (simp_all add: two_roots_def board_of_def)
  then obtain v where v: "ReadHandoff (Some (AuditHandoffContent (\<lambda>_. ''{}'') (\<lambda>_. Some 1) (\<lambda>_. False) db'))
      (\<lambda>_. Some (marshal_doc small_doc)) (\<lambda>_. False) db' ''a'' = Inr v" "hv_handoff v = Some small_doc" by blast
  have "AdoptRecommendation v = Some [\<lparr>dw_title = ''n'', dw_body = []\<rparr>]" using v(2) by (simp add: AdoptRecommendation_def small_doc_def)
  with w v(1) show ?thesis by blast
qed

section \<open>The next item\<close>

text \<open>
  One next item per completed source and Run. Once a coordinator's dispatch for a source and
  its completing Run has answered, every later dispatch for the same pair, by any coordinator
  with any title, at any later table that still holds the markers, answers with the same item,
  says it was already dispatched, and changes nothing.
\<close>

theorem next_item_dispatched_once:
  assumes "DispatchNextOfRecord flt now new dec db = (Inr r, db')"
    and "DispatchNextOfRecord flt2 now2 new2 dec2 db2 = (Inr r2, db3)"
    and "dd_source dec2 = dd_source dec" and "dd_run dec2 = dd_run dec" and "pd_dispatch db2 = pd_dispatch db' @ later_rows"
  shows "ds_created r2 = ds_created r \<and> ds_already r2 \<and> db3 = db2"
proof -
  have key: "dispatch_key dec2 = dispatch_key dec" using assms(3,4) by (simp add: dispatch_key_def)
  have ins: "insert_work_item w d = Some d' \<Longrightarrow> pd_dispatch d' = pd_dispatch d" for w d d'
    by (auto simp: insert_work_item_def split: if_splits option.splits)
  have "\<exists>m. lookup_by dx_key (dispatch_key dec) (pd_dispatch db') = Some m \<and> dx_created m = ds_created r"
    using assms(1) by (auto simp: DispatchNextOfRecord_def lookup_by_append ins split: if_splits option.splits)
  then obtain m where m: "lookup_by dx_key (dispatch_key dec) (pd_dispatch db') = Some m" "dx_created m = ds_created r" by blast
  then have "lookup_by dx_key (dispatch_key dec2) (pd_dispatch db2) = Some m" using assms(5) key by (simp add: lookup_by_append)
  then show ?thesis using assms(2) m(2)
    by (auto simp: DispatchNextOfRecord_def ins split: if_splits option.splits)
qed

definition finished :: prod_db where
  "finished = board_of [(plain_item ''a'' None)\<lparr>pw_state := ''done''\<rparr>] [(leased_claim ''a'' ''agent:x'')\<lparr>pc_holder := None, pc_lease := None\<rparr>]"

definition next_step :: "string \<Rightarrow> DispatchDecision" where
  "next_step title = \<lparr>dd_coordinator = ''lead'', dd_source = ''a'', dd_run = ''r'', dd_title = title, dd_body = [], dd_followed = False, dd_parent = True\<rparr>"

lemma next_item_dispatched_once_witness:
  "case DispatchNextOfRecord (\<lambda>_. False) 5 ''n'' (next_step ''one'') finished of
     (Inl _, _) \<Rightarrow> False
   | (Inr r, db') \<Rightarrow> DispatchNextOfRecord (\<lambda>_. False) 9 ''m'' (next_step ''two'') db' = (Inr \<lparr>ds_created = ''n'', ds_already = True\<rparr>, db')"
proof -
  let ?d1 = "DispatchNextOfRecord (\<lambda>_. False) 5 ''n'' (next_step ''one'') finished"
  have "fst ?d1 = Inr \<lparr>ds_created = ''n'', ds_already = False\<rparr>" by code_simp
  then obtain db' where d1: "?d1 = (Inr \<lparr>ds_created = ''n'', ds_already = False\<rparr>, db')" by (cases ?d1) simp
  have "(case fst (DispatchNextOfRecord (\<lambda>_. False) 9 ''m'' (next_step ''two'') (snd ?d1)) of Inl _ \<Rightarrow> False | Inr _ \<Rightarrow> True)" by code_simp
  then obtain r2 db3 where d2: "DispatchNextOfRecord (\<lambda>_. False) 9 ''m'' (next_step ''two'') db' = (Inr r2, db3)"
    by (cases "DispatchNextOfRecord (\<lambda>_. False) 9 ''m'' (next_step ''two'') db'") (auto simp: d1 split: sum.splits)
  have "ds_created r2 = ''n'' \<and> ds_already r2 \<and> db3 = db'"
    using next_item_dispatched_once [OF d1 d2, of "[]"] by (simp add: next_step_def)
  then have "r2 = \<lparr>ds_created = ''n'', ds_already = True\<rparr>" "db3 = db'" by (cases r2; simp)+
  then show ?thesis using d1 d2 by simp
qed

text \<open>
  A coordinator's dispatch transfers no custody. One that creates an item found the source
  done and its claim naming the completing Run; the new item sits in the todo lane, authored by
  the coordinator, in the source's project and team, under a fresh unheld claim at fence zero;
  every existing item and every existing claim is unchanged, the source's included.
\<close>

theorem next_dispatch_takes_no_custody:
  assumes "DispatchNextOfRecord flt now new dec db = (Inr r, db')" and "\<not> ds_already r"
  shows "\<exists>s c w. item_row_of db (dd_source dec) = Some s \<and> pw_state s = ''done'' \<and> claim_row_of db (dd_source dec) = Some c \<and>
    pc_run c = Some (dd_run dec) \<and> ds_created r = new \<and> item_row_of db' new = Some w \<and> pw_state w = ''todo'' \<and>
    pw_created_by w = dd_coordinator dec \<and> pw_project w = pw_project s \<and> pw_team w = pw_team s \<and>
    claim_row_of db' new = Some (fresh_claim new) \<and>
    (\<forall>j. j \<noteq> new \<longrightarrow> item_row_of db' j = item_row_of db j \<and> claim_row_of db' j = claim_row_of db j)"
proof -
  obtain s c run db1 where d: "item_row_of db (dd_source dec) = Some s" "claim_row_of db (dd_source dec) = Some c" "pc_run c = Some (dd_run dec)"
      "pw_state s = ''done''" "insert_work_item (next_item now new dec s) db = Some db1" "ds_created r = new"
      "pd_items db' = pd_items db1" "pd_claims db' = pd_claims db1"
    using assms by (auto simp: DispatchNextOfRecord_def split: if_splits option.splits)
  have id: "pw_id (next_item now new dec s) = new" by (simp add: next_item_def)
  obtain team where t: "item_row_of db new = None" "claim_row_of db new = None" "db1 = provision ((next_item now new dec s)\<lparr>pw_team := team\<rparr>) db"
      "team = pw_team s"
    using insert_work_item_Some [OF d(5)] d(1) unfolding id by (auto simp: next_item_def split: if_splits)
  have "item_row_of db' j = (if j = new then Some ((next_item now new dec s)\<lparr>pw_team := pw_team s\<rparr>) else item_row_of db j)"
    "claim_row_of db' j = (if j = new then Some (fresh_claim new) else claim_row_of db j)" for j
    using t by (auto simp: d(7,8) provision_rows next_item_def split: option.splits)
  then show ?thesis using d by (simp add: next_item_def)
qed

lemma next_dispatch_takes_no_custody_witness:
  "\<exists>r db'. DispatchNextOfRecord (\<lambda>_. False) 5 ''n'' (next_step ''one'') finished = (Inr r, db') \<and>
     claim_row_of db' ''n'' = Some (fresh_claim ''n'') \<and> claim_row_of db' ''a'' = claim_row_of finished ''a''"
proof -
  let ?d1 = "DispatchNextOfRecord (\<lambda>_. False) 5 ''n'' (next_step ''one'') finished"
  have "fst ?d1 = Inr \<lparr>ds_created = ''n'', ds_already = False\<rparr>" by code_simp
  then obtain db' where d1: "?d1 = (Inr \<lparr>ds_created = ''n'', ds_already = False\<rparr>, db')" by (cases ?d1) simp
  have "claim_row_of db' ''n'' = Some (fresh_claim ''n'') \<and> claim_row_of db' ''a'' = claim_row_of finished ''a''"
    using next_dispatch_takes_no_custody [OF d1] by auto
  with d1 show ?thesis by blast
qed

end
