(* ===== verification/Work_Gaps.thy ===== *)
theory Work_Gaps
  imports Work_Routing
begin

text \<open>
  Where the guarantees of work item authoring end: what overlapping transactions can do that
  transactions one after the other cannot, and what the operations return or lose on inputs their
  comments promise to handle.
\<close>

section \<open>Overlapping transactions\<close>

definition in_team :: "string \<Rightarrow> string \<Rightarrow> string option \<Rightarrow> prod_item" where
  "in_team team i parent = (plain_item i parent)\<lparr>pw_team := Some team\<rparr>"

definition crossing :: prod_db where
  "crossing = board_of [plain_item ''A'' None, plain_item ''a'' (Some ''A''), plain_item ''B'' None, plain_item ''b'' (Some ''B'')] []"

definition checked :: "work_error + prod_item \<Rightarrow> prod_item" where
  "checked r = (case r of Inr w \<Rightarrow> w | Inl _ \<Rightarrow> plain_item [] None)"

definition both_moved :: prod_db where
  "both_moved =
     (let wA = checked (update_check (\<lambda>_. False) ''A'' (move_under ''b'') crossing);
          wB = checked (update_check (\<lambda>_. False) ''B'' (move_under ''a'') crossing);
          db1 = committed (update_apply Some (\<lambda>_. False) 1 ''A'' (move_under ''b'') wA crossing) crossing
      in committed (update_apply Some (\<lambda>_. False) 2 ''B'' (move_under ''a'') wB db1) db1)"

text \<open>
  Two edits that lock different rows, A and b for one, B and a for the other, each pass the cycle
  guard on what they read; with both committed, A is its own ancestor.
\<close>

lemma overlapping_reparents_form_cycle:
  "(''A'', ''A'') \<in> (parent_rel both_moved)\<^sup>+ \<and> \<not> forest both_moved"
proof -
  have p: "parent_of both_moved ''A'' = Some ''b''" "parent_of both_moved ''b'' = Some ''B''"
    "parent_of both_moved ''B'' = Some ''a''" "parent_of both_moved ''a'' = Some ''A''"
    by code_simp+
  have "(''A'', ''b'') \<in> parent_rel both_moved" "(''b'', ''B'') \<in> parent_rel both_moved"
    "(''B'', ''a'') \<in> parent_rel both_moved" "(''a'', ''A'') \<in> parent_rel both_moved"
    using p by (simp_all add: parent_rel_def)
  then have c: "(''A'', ''A'') \<in> (parent_rel both_moved)\<^sup>+" by (meson trancl.r_into_trancl trancl_trans)
  then show ?thesis by (auto simp: forest_def acyclic_def)
qed

definition created_row :: audit_row where
  "created_row = write_audit_row 0 ''x'' (Some ''r'') ''work_item_created'' ''agent:x'' None []"

definition nearly_spent :: prod_db where
  "nearly_spent = (board_of [plain_item ''a'' None, plain_item ''b'' None] [leased_claim ''a'' ''agent:x'', leased_claim ''b'' ''agent:x''])
     \<lparr>pd_audit := replicate 49 created_row\<rparr>"

definition both_created :: prod_db where
  "both_created =
     (let pa = checked (agent_create_check (\<lambda>_. False) 1 (agent_child ''a'') nearly_spent);
          pb = checked (agent_create_check (\<lambda>_. False) 1 (agent_child ''b'') nearly_spent);
          db1 = committed (agent_create_apply (\<lambda>_. False) 1 ''c'' (agent_child ''a'') ([], [], []) pa nearly_spent) nearly_spent
      in committed (agent_create_apply (\<lambda>_. False) 1 ''d'' (agent_child ''b'') ([], [], []) pb db1) db1)"

text \<open>Two creates of one Run under different parents both count forty-nine and both insert.\<close>

lemma overlapping_creates_exceed_budget: "authored ''r'' nearly_spent = 49 \<and> authored ''r'' both_created = 51"
proof
  show "authored ''r'' nearly_spent = 49" by code_simp
  show "authored ''r'' both_created = 51" by code_simp
qed

section \<open>What edits return\<close>

text \<open>A driver that cannot scan the label array into a slice fails every human edit at its end.\<close>

lemma human_edit_needs_label_scan:
  assumes "\<And>labels. scan labels = None" shows "\<exists>e. UpdateWorkItem scan flt now item inp db = Inl e"
  by (cases "UpdateWorkItem scan flt now item inp db")
    (auto simp: UpdateWorkItem_def update_apply_def assms split: sum.splits prod.splits)

definition two_teams :: prod_db where
  "two_teams = board_of [in_team ''t'' ''x'' None, in_team ''t'' ''y'' (Some ''x''), in_team ''s'' ''z'' None] []"

definition fleet_move :: UpdateWorkItemInput where
  "fleet_move = (move_under ''z'')\<lparr>ui_team := []\<rparr>"

text \<open>
  A move into another team: the stored item takes the new parent's team, the record returned
  still names the old one, and the item's own child stays behind in the old team.
\<close>

lemma move_across_teams:
  "case UpdateWorkItem Some (\<lambda>_. False) 1 ''x'' fleet_move two_teams of
     Inl _ \<Rightarrow> False
   | Inr (rec, db') \<Rightarrow> wr_team rec = Some ''t'' \<and> map_option pw_team (item_row_of db' ''x'') = Some (Some ''s'') \<and>
       map_option pw_team (item_row_of db' ''y'') = Some (Some ''t'') \<and> parent_of db' ''y'' = Some ''x''"
  by code_simp

section \<open>Comments\<close>

text \<open>
  A reference the Go parser accepts and the database cannot cast fails the transaction: the
  comment is lost instead of stored without the link.
\<close>

lemma uncastable_reference_loses_comment:
  assumes "valid (cf_item ref)" and "cast (cf_item ref) = None" and "cf_item ref \<noteq> []" and "item_row_of db item = Some w" and "pw_project w \<noteq> []"
  shows "\<exists>e. AppendHumanComment valid cast flt now item team prin body [ref] db = Inl e"
  using assms by (auto simp: AppendHumanComment_def resolveCommentRefs_def Let_def split: option.splits)

section \<open>The hand-off that is read\<close>

definition two_handoffs :: prod_db where
  "two_handoffs = (board_of [(plain_item ''a'' None)\<lparr>pw_state := ''done''\<rparr>] [(leased_claim ''a'' ''agent:x'')\<lparr>pc_run := Some ''r2''\<rparr>])
     \<lparr>pd_artifacts :=
        [\<lparr>ar_item = ''a'', ar_run = Some ''r1'', ar_kind = HandoffKind, ar_uri = ''u1'', ar_sha = ''h1'', ar_meta = None, ar_created = 1\<rparr>,
         \<lparr>ar_item = ''a'', ar_run = Some ''r2'', ar_kind = HandoffKind, ar_uri = ''u2'', ar_sha = ''h2'', ar_meta = None, ar_created = 2\<rparr>]\<rparr>"

text \<open>
  With hand-offs of two Runs on one item, the view names the completing Run and carries the
  document of the earlier one.
\<close>

lemma view_carries_older_handoff:
  "case ReadHandoff (Some (\<lambda>uri. Inr uri)) (\<lambda>s. Some [(''findings'', JStr s)]) (\<lambda>_. False) two_handoffs ''a'' of
     Inl _ \<Rightarrow> False | Inr v \<Rightarrow> hv_run v = ''r2'' \<and> map_option hd_findings (hv_handoff v) = Some ''u1''"
  by code_simp

end
