(* ===== verification/Go_Unicode.thy ===== *)
theory Go_Unicode
  imports Go_Strings
begin

text \<open>
  Strings as Go ranges over them: the decoding of UTF-8 bytes into runes (an invalid byte is the
  replacement character of width one), the white space of \<open>unicode.IsSpace\<close>, and the functions
  \<open>strings.Fields\<close> and \<open>strings.Join\<close>, and the quoting of the format verb \<open>%q\<close>. The tables behind
  \<open>unicode.Is\<close>, \<open>IsPunct\<close>, \<open>IsSymbol\<close> and \<open>strconv.IsPrint\<close> are data of the Unicode standard;
  they are an argument of the definitions that consult them.
\<close>

section \<open>Runes\<close>

abbreviation byte_at :: "string \<Rightarrow> nat \<Rightarrow> int" where
  "byte_at s i \<equiv> of_char (s ! i)"

definition cont_byte :: "int \<Rightarrow> bool" where
  "cont_byte b \<longleftrightarrow> 0x80 \<le> b \<and> b \<le> 0xBF"

definition decode_rune :: "string \<Rightarrow> int \<times> nat" where
  "decode_rune s =
     (let b0 = byte_at s 0; n = length s in
      if b0 < 0x80 then (b0, 1)
      else if 0xC2 \<le> b0 \<and> b0 \<le> 0xDF \<and> n \<ge> 2 \<and> cont_byte (byte_at s 1)
      then ((b0 - 0xC0) * 64 + (byte_at s 1 - 0x80), 2)
      else if 0xE0 \<le> b0 \<and> b0 \<le> 0xEF \<and> n \<ge> 3 \<and>
              (if b0 = 0xE0 then 0xA0 else 0x80) \<le> byte_at s 1 \<and> byte_at s 1 \<le> (if b0 = 0xED then 0x9F else 0xBF) \<and>
              cont_byte (byte_at s 2)
      then ((b0 - 0xE0) * 4096 + (byte_at s 1 - 0x80) * 64 + (byte_at s 2 - 0x80), 3)
      else if 0xF0 \<le> b0 \<and> b0 \<le> 0xF4 \<and> n \<ge> 4 \<and>
              (if b0 = 0xF0 then 0x90 else 0x80) \<le> byte_at s 1 \<and> byte_at s 1 \<le> (if b0 = 0xF4 then 0x8F else 0xBF) \<and>
              cont_byte (byte_at s 2) \<and> cont_byte (byte_at s 3)
      then ((b0 - 0xF0) * 262144 + (byte_at s 1 - 0x80) * 4096 + (byte_at s 2 - 0x80) * 64 + (byte_at s 3 - 0x80), 4)
      else (0xFFFD, 1))"

lemma decode_rune_width: "0 < snd (decode_rune s)"
  by (simp add: decode_rune_def Let_def)

text \<open>Each rune with the bytes it was decoded from.\<close>

function runes :: "string \<Rightarrow> (int \<times> string) list" where
  "runes s = (if s = [] then []
     else (fst (decode_rune s), take (snd (decode_rune s)) s) # runes (drop (snd (decode_rune s)) s))"
  by pat_completeness auto
termination by (relation "measure length") (auto simp: decode_rune_width)

declare runes.simps [simp del]

lemma runes_bytes: "concat (map snd (runes s)) = s"
proof (induction s rule: runes.induct)
  case (1 s)
  then show ?case by (cases "s = []") (simp_all add: runes.simps [of s] runes.simps [of "[]"])
qed

section \<open>Fields and joins\<close>

definition IsSpace :: "int \<Rightarrow> bool" where
  "IsSpace r \<longleftrightarrow> (9 \<le> r \<and> r \<le> 13) \<or> r = 0x20 \<or> r = 0x85 \<or> r = 0xA0 \<or> r = 0x1680 \<or> (0x2000 \<le> r \<and> r \<le> 0x200A) \<or>
     r = 0x2028 \<or> r = 0x2029 \<or> r = 0x202F \<or> r = 0x205F \<or> r = 0x3000"

fun fields_loop :: "(int \<times> string) list \<Rightarrow> string \<Rightarrow> string list" where
  "fields_loop [] cur = (if cur = [] then [] else [cur])"
| "fields_loop ((r, b) # rs) cur =
     (if IsSpace r then (if cur = [] then fields_loop rs [] else cur # fields_loop rs [])
      else fields_loop rs (cur @ b))"

definition Fields :: "string \<Rightarrow> string list" where
  "Fields s = fields_loop (runes s) []"

fun Join :: "string list \<Rightarrow> string \<Rightarrow> string" where
  "Join [] sep = []"
| "Join [x] sep = x"
| "Join (x # y # xs) sep = x @ sep @ Join (y # xs) sep"

section \<open>Quoting\<close>

text \<open>
  \<open>strconv.Quote\<close>: printable runes stand as they are, the quote and the backslash behind a
  backslash, the other control characters under their letters or in hexadecimal. The argument says
  which runes outside ASCII are printable.
\<close>

definition hex_char :: "int \<Rightarrow> char" where
  "hex_char n = ''0123456789abcdef'' ! nat (n mod 16)"

primrec hex_fixed :: "nat \<Rightarrow> int \<Rightarrow> string" where
  "hex_fixed 0 n = []"
| "hex_fixed (Suc k) n = hex_fixed k (n div 16) @ [hex_char n]"

definition quote_rune :: "(int \<Rightarrow> bool) \<Rightarrow> int \<times> string \<Rightarrow> string" where
  "quote_rune isPrint rb =
     (case rb of (r, bs) \<Rightarrow>
        if r = 0xFFFD \<and> length bs = 1 then CHR 0x5C # ''x'' @ hex_fixed 2 (byte_at bs 0)
        else if r = 34 \<or> r = 92 then CHR 0x5C # bs
        else if (0x20 \<le> r \<and> r < 0x7F) \<or> (0x7F < r \<and> isPrint r) then bs
        else CHR 0x5C #
          (if r = 7 then ''a'' else if r = 8 then ''b'' else if r = 12 then ''f'' else if r = 10 then ''n''
           else if r = 13 then ''r'' else if r = 9 then ''t'' else if r = 11 then ''v''
           else if r < 0x20 \<or> r = 0x7F then ''x'' @ hex_fixed 2 r
           else if r < 0x10000 then ''u'' @ hex_fixed 4 r
           else ''U'' @ hex_fixed 8 r))"

definition Quote :: "(int \<Rightarrow> bool) \<Rightarrow> string \<Rightarrow> string" where
  "Quote isPrint s = [CHR 0x22] @ concat (map (quote_rune isPrint) (runes s)) @ [CHR 0x22]"

section \<open>Character classes\<close>

record unicode_tables =
  in_cjk :: "int \<Rightarrow> bool"
  in_punct_or_symbol :: "int \<Rightarrow> bool"

text \<open>The classes of ASCII and of the main ideograph, kana and syllable blocks.\<close>

definition basic_tables :: unicode_tables where
  "basic_tables = \<lparr>
     in_cjk = (\<lambda>r. (0x3041 \<le> r \<and> r \<le> 0x3096) \<or> (0x30A1 \<le> r \<and> r \<le> 0x30FA) \<or> (0x4E00 \<le> r \<and> r \<le> 0x9FFF) \<or> (0xAC00 \<le> r \<and> r \<le> 0xD7A3)),
     in_punct_or_symbol = (\<lambda>r. (33 \<le> r \<and> r \<le> 47) \<or> (58 \<le> r \<and> r \<le> 64) \<or> (91 \<le> r \<and> r \<le> 96) \<or> (123 \<le> r \<and> r \<le> 126))\<rparr>"

end
