(* ===== verification/Context_Budget.thy ===== *)
theory Context_Budget
  imports Context_Envelope
begin

text \<open>
  The model-window budget of the context envelope (pkg/contextasm/budget.go): its resolution from
  the Project's default and the Agent's override, and its application, which places the task
  first and never cuts it, then fills the best-effort tiers in priority order. Token counts are
  integers: they are bounded by the lengths of strings and stay far inside 64 bits.
\<close>

section \<open>Resolution\<close>

record ContextBudget =
  cb_WorkItem :: "int option"
  cb_ProjectDocs :: "int option"
  cb_MemoryRecall :: "int option"
  cb_Artifacts :: "int option"

record Budget =
  bu_WorkItem :: int
  bu_ProjectDocs :: int
  bu_MemoryRecall :: int
  bu_Artifacts :: int

datatype ctx_error = ErrBudgetAboveWindow | ErrMustIncludeExceedsWindow | CtxErr string

definition IsFailClosed :: "ctx_error \<Rightarrow> bool" where
  "IsFailClosed e \<longleftrightarrow> e = ErrMustIncludeExceedsWindow \<or> e = ErrBudgetAboveWindow"

definition firstSet :: "int option \<Rightarrow> int option \<Rightarrow> int option" where
  "firstSet project override = (case override of Some v \<Rightarrow> Some v | None \<Rightarrow> project)"

definition deref :: "ContextBudget option \<Rightarrow> ContextBudget" where
  "deref b = (case b of None \<Rightarrow> \<lparr>cb_WorkItem = None, cb_ProjectDocs = None, cb_MemoryRecall = None, cb_Artifacts = None\<rparr>
     | Some c \<Rightarrow> c)"

text \<open>One turn of the resolution loop: an unset tier keeps the zero it starts with.\<close>

definition resolve_tier :: "int \<Rightarrow> int option \<Rightarrow> int option \<Rightarrow> ctx_error + int" where
  "resolve_tier contextWindow project override =
     (case firstSet project override of
        None \<Rightarrow> Inr 0
      | Some v \<Rightarrow> if v > contextWindow then Inl ErrBudgetAboveWindow else Inr v)"

definition ResolveBudget :: "ContextBudget option \<Rightarrow> ContextBudget option \<Rightarrow> int \<Rightarrow> ctx_error + Budget" where
  "ResolveBudget project agentOverride contextWindow =
     (if contextWindow \<le> 0 then Inl (CtxErr ''ResolveBudget: contextWindow must be positive'')
      else
        let p = deref project; a = deref agentOverride in
        case resolve_tier contextWindow (cb_WorkItem p) (cb_WorkItem a) of Inl e \<Rightarrow> Inl e | Inr w \<Rightarrow>
        case resolve_tier contextWindow (cb_ProjectDocs p) (cb_ProjectDocs a) of Inl e \<Rightarrow> Inl e | Inr d \<Rightarrow>
        case resolve_tier contextWindow (cb_MemoryRecall p) (cb_MemoryRecall a) of Inl e \<Rightarrow> Inl e | Inr m \<Rightarrow>
        case resolve_tier contextWindow (cb_Artifacts p) (cb_Artifacts a) of Inl e \<Rightarrow> Inl e | Inr x \<Rightarrow>
        Inr \<lparr>bu_WorkItem = w, bu_ProjectDocs = d, bu_MemoryRecall = m, bu_Artifacts = x\<rparr>)"

section \<open>Classes of elements\<close>

definition isMustInclude :: "Element \<Rightarrow> bool" where
  "isMustInclude el \<longleftrightarrow> el_Tier el = TierAuthoritative \<and>
     el_Kind el \<in> {''roleDirective'', ''teamRoster'', ''description'', ''acceptanceCriteria'', ''goal'', ''comment''}"

definition isProjectMeta :: "Element \<Rightarrow> bool" where
  "isProjectMeta el \<longleftrightarrow> el_Tier el = TierAuthoritative \<and> \<not> isMustInclude el"

definition isUntrustedRecall :: "Element \<Rightarrow> bool" where
  "isUntrustedRecall el \<longleftrightarrow> el_Tier el = TierUntrustedRecall"

definition isUntrustedExternal :: "Element \<Rightarrow> bool" where
  "isUntrustedExternal el \<longleftrightarrow> el_Tier el = TierUntrustedExternal"

definition effectiveCap :: "int \<Rightarrow> int \<Rightarrow> int" where
  "effectiveCap configured window = (if configured > 0 then configured else window)"

definition truncateMarker :: string where
  "truncateMarker = ''[dropped: context budget exhausted for this tier]''"

definition truncateToTokens :: "string \<Rightarrow> int \<Rightarrow> string" where
  "truncateToTokens content n =
     (if n \<le> 0 then truncateMarker
      else let tokens = Fields content in
        if int (length tokens) \<le> n then content
        else Join (take (nat n) tokens) '' '' @ '' '' @ [CHR 0xE2, CHR 0x80, CHR 0xA6] @ ''[truncated to fit the context budget]'')"

section \<open>Application\<close>

text \<open>
  The loop over the elements for one best-effort class: the tokens already spent in the class
  and the room that is left in the window are its state.
\<close>

fun fill_tier :: "unicode_tables \<Rightarrow> (Element \<Rightarrow> bool) \<Rightarrow> int \<Rightarrow> int \<Rightarrow> int \<Rightarrow> Element list \<Rightarrow> Element list \<times> int" where
  "fill_tier U match cap tierTokens remaining [] = ([], remaining)"
| "fill_tier U match cap tierTokens remaining (el # els) =
     (if \<not> match el then
        (case fill_tier U match cap tierTokens remaining els of (out, rest) \<Rightarrow> (el # out, rest))
      else
        let room = min (cap - tierTokens) remaining in
        if room \<le> 0 then
          (case fill_tier U match cap tierTokens remaining els of
             (out, rest) \<Rightarrow> (el\<lparr>el_Content := truncateMarker, el_Truncated := True\<rparr> # out, rest))
        else
          let full = EstimateTokens U (el_Content el) in
          if full \<le> room then
            (case fill_tier U match cap (tierTokens + full) (remaining - full) els of (out, rest) \<Rightarrow> (el # out, rest))
          else
            let content = truncateToTokens (el_Content el) room; used = EstimateTokens U content in
            (case fill_tier U match cap (tierTokens + used) (remaining - used) els of
               (out, rest) \<Rightarrow> (el\<lparr>el_Content := content, el_Truncated := True\<rparr> # out, rest)))"

definition must_tokens :: "unicode_tables \<Rightarrow> Envelope \<Rightarrow> int" where
  "must_tokens U env = sum_list (map (\<lambda>el. EstimateTokens U (el_Content el)) (filter isMustInclude env))"

text \<open>\<open>None\<close> is a nil envelope.\<close>

definition ApplyBudget :: "unicode_tables \<Rightarrow> Envelope option \<Rightarrow> Budget \<Rightarrow> int \<Rightarrow> int \<Rightarrow> ctx_error + Envelope" where
  "ApplyBudget U env b contextWindow overheadTokens =
     (case env of
        None \<Rightarrow> Inl (CtxErr ''ApplyBudget: nil envelope'')
      | Some els \<Rightarrow>
        if contextWindow \<le> 0 then Inl (CtxErr ''ApplyBudget: contextWindow must be positive'')
        else if overheadTokens < 0 then Inl (CtxErr ''ApplyBudget: overheadTokens must be >= 0'')
        else let window = contextWindow - overheadTokens in
          if window \<le> 0 then Inl ErrMustIncludeExceedsWindow
          else let mustTokens = must_tokens U els in
            if mustTokens > window then Inl ErrMustIncludeExceedsWindow
            else
              case fill_tier U isProjectMeta (effectiveCap (bu_ProjectDocs b) window) 0 (window - mustTokens) els of (e1, r1) \<Rightarrow>
              case fill_tier U isUntrustedRecall (effectiveCap (bu_MemoryRecall b) window) 0 r1 e1 of (e2, r2) \<Rightarrow>
              case fill_tier U isUntrustedExternal (effectiveCap (bu_Artifacts b) window) 0 r2 e2 of (e3, r3) \<Rightarrow>
              Inr e3)"

section \<open>What a pass over one class keeps\<close>

definition stable_class :: "(Element \<Rightarrow> bool) \<Rightarrow> bool" where
  "stable_class P \<longleftrightarrow> (\<forall>el c t. P (el\<lparr>el_Content := c, el_Truncated := t\<rparr>) = P el)"

lemma stable_classes [simp]:
  "stable_class isMustInclude" "stable_class isProjectMeta" "stable_class isUntrustedRecall" "stable_class isUntrustedExternal"
  "stable_class (\<lambda>el. el_Tier el = tier)"
  by (simp_all add: stable_class_def isMustInclude_def isProjectMeta_def isUntrustedRecall_def isUntrustedExternal_def)

text \<open>
  An element after the budget: its class and provenance are those of the element it came from, and
  only its content may have been cut, with the mark set.
\<close>

definition cut_of :: "Element \<Rightarrow> Element \<Rightarrow> bool" where
  "cut_of el out \<longleftrightarrow> out = el \<or> (el_Truncated out \<and> (\<exists>c. out = el\<lparr>el_Content := c, el_Truncated := True\<rparr>))"

lemma cut_of_refl [simp]: "cut_of el el"
  by (simp add: cut_of_def)

lemma cut_of_cut [simp]: "cut_of el (el\<lparr>el_Content := c, el_Truncated := True\<rparr>)"
  by (auto simp: cut_of_def)

lemma cut_of_trans: "cut_of a b \<Longrightarrow> cut_of b c \<Longrightarrow> cut_of a c"
  by (auto simp: cut_of_def)

lemma cut_of_class: "cut_of el out \<Longrightarrow> stable_class P \<Longrightarrow> P out = P el"
  by (auto simp: cut_of_def stable_class_def)

lemma fill_tier_cut:
  "list_all2 (\<lambda>el out. cut_of el out \<and> (\<not> M el \<longrightarrow> out = el)) els (fst (fill_tier U M cap t r els))"
  by (induction els arbitrary: t r) (simp_all add: Let_def case_prod_beta)

lemma fill_tier_other:
  assumes "stable_class P" and "stable_class M" and "\<And>el. P el \<Longrightarrow> \<not> M el"
  shows "filter P (fst (fill_tier U M cap t r els)) = filter P els"
  using assms(1,2) by (induction els arbitrary: t r) (auto simp: Let_def case_prod_beta stable_class_def dest: assms(3))

text \<open>A pass looks at its own class only.\<close>

lemma fill_tier_filter:
  assumes "stable_class P" and "\<And>el. M el \<Longrightarrow> P el"
  shows "fill_tier U M cap t r (filter P els) = (filter P (fst (fill_tier U M cap t r els)), snd (fill_tier U M cap t r els))"
  using assms(1) by (induction els arbitrary: t r) (auto simp: Let_def case_prod_beta stable_class_def dest: assms(2))

section \<open>What a pass spends\<close>

definition tier_spent :: "unicode_tables \<Rightarrow> (Element \<Rightarrow> bool) \<Rightarrow> Envelope \<Rightarrow> int" where
  "tier_spent U P els = sum_list (map (\<lambda>el. EstimateTokens U (el_Content el)) (filter (\<lambda>el. P el \<and> \<not> el_Truncated el) els))"

lemma spent_Cons [simp]:
  "tier_spent U P (el # els) = (if P el \<and> \<not> el_Truncated el then EstimateTokens U (el_Content el) else 0) + tier_spent U P els"
  by (simp add: tier_spent_def)

lemma spent_Nil [simp]: "tier_spent U P [] = 0"
  by (simp add: tier_spent_def)

lemma spent_nonneg: "0 \<le> tier_spent U P els"
  by (induction els) (simp_all add: EstimateTokens_nonneg)

lemma spent_filter: "tier_spent U P els = tier_spent U P (filter P els)"
  by (simp add: tier_spent_def)

lemma room_shrinks: "0 \<le> u \<Longrightarrow> max 0 (min (c - (t + u)) (r - u)) \<le> max 0 (min (c - t) (r :: int))"
  by (simp add: max_def min_def)

lemma fill_tier_cuts:
  assumes "M el" and "min (cap - t) r = room" and "0 < room" and "room < EstimateTokens U (el_Content el)"
  shows "fill_tier U M cap t r (el # els) =
    (el\<lparr>el_Content := truncateToTokens (el_Content el) room, el_Truncated := True\<rparr> #
       fst (fill_tier U M cap (t + EstimateTokens U (truncateToTokens (el_Content el) room))
              (r - EstimateTokens U (truncateToTokens (el_Content el) room)) els),
     snd (fill_tier U M cap (t + EstimateTokens U (truncateToTokens (el_Content el) room))
            (r - EstimateTokens U (truncateToTokens (el_Content el) room)) els))"
  using assms by (simp add: Let_def case_prod_beta)

lemma fill_tier_spent:
  assumes "stable_class M"
  shows "tier_spent U M (fst (fill_tier U M cap t r els)) \<le> max 0 (min (cap - t) r) \<and>
    snd (fill_tier U M cap t r els) \<le> r - tier_spent U M (fst (fill_tier U M cap t r els))"
proof (induction els arbitrary: t r)
  case Nil
  then show ?case by simp
next
  case (Cons el els)
  let ?F = "\<lambda>t r. fill_tier U M cap t r els"
  let ?full = "EstimateTokens U (el_Content el)"
  let ?used = "EstimateTokens U (truncateToTokens (el_Content el) (min (cap - t) r))"
  have n: "0 \<le> ?full" "0 \<le> ?used" by (simp_all add: EstimateTokens_nonneg)
  have st: "M (el\<lparr>el_Content := c, el_Truncated := True\<rparr>) = M el" for c using assms by (simp add: stable_class_def)
  consider "\<not> M el" | "M el" "min (cap - t) r \<le> 0" | "M el" "0 < min (cap - t) r" "?full \<le> min (cap - t) r"
    | "M el" "0 < min (cap - t) r" "min (cap - t) r < ?full" by linarith
  then show ?case
  proof cases
    case 1
    then show ?thesis using Cons.IH [of t r] by (simp add: case_prod_beta)
  next
    case 2
    then show ?thesis using Cons.IH [of t r] st by (simp add: Let_def case_prod_beta)
  next
    case 3
    then show ?thesis using Cons.IH [of "t + ?full" "r - ?full"] n
      by (auto simp: Let_def case_prod_beta)
  next
    case 4
    let ?X = "?F (t + ?used) (r - ?used)"
    let ?content = "truncateToTokens (el_Content el) (min (cap - t) r)"
    have step: "fill_tier U M cap t r (el # els) = (el\<lparr>el_Content := ?content, el_Truncated := True\<rparr> # fst ?X, snd ?X)"
      using 4 by (intro fill_tier_cuts [OF _ refl])
    have "tier_spent U M (fst (fill_tier U M cap t r (el # els))) = tier_spent U M (fst ?X)" unfolding step by simp
    moreover have "snd (fill_tier U M cap t r (el # els)) = snd ?X" unfolding step by simp
    moreover have "tier_spent U M (fst ?X) \<le> max 0 (min (cap - t) r)"
      using Cons.IH [of "t + ?used" "r - ?used"] room_shrinks [OF n(2)] by (meson order_trans)
    moreover have "snd ?X \<le> r - tier_spent U M (fst ?X)" using Cons.IH [of "t + ?used" "r - ?used"] n(2) by linarith
    ultimately show ?thesis by simp
  qed
qed

lemma fill_tier_fits:
  assumes "sum_list (map (\<lambda>el. EstimateTokens U (el_Content el)) (filter M els)) < min (cap - t) r"
  shows "fill_tier U M cap t r els =
    (els, r - sum_list (map (\<lambda>el. EstimateTokens U (el_Content el)) (filter M els)))"
  using assms
proof (induction els arbitrary: t r)
  case (Cons el els)
  let ?full = "EstimateTokens U (el_Content el)"
  have "0 \<le> sum_list (map (\<lambda>el. EstimateTokens U (el_Content el)) (filter M els))"
    by (rule sum_list_nonneg) (auto simp: EstimateTokens_nonneg)
  then show ?case
    using Cons.IH [of t r] Cons.IH [of "t + ?full" "r - ?full"] Cons.prems EstimateTokens_nonneg [of U "el_Content el"]
    by (auto simp: Let_def)
qed simp

section \<open>The three passes together\<close>

lemma ApplyBudget_Inr:
  assumes "ApplyBudget U (Some els) b W ov = Inr out"
  obtains e1 r1 e2 r2 r3 where "0 < W" "0 \<le> ov" "0 < W - ov" "must_tokens U els \<le> W - ov"
    "fill_tier U isProjectMeta (effectiveCap (bu_ProjectDocs b) (W - ov)) 0 (W - ov - must_tokens U els) els = (e1, r1)"
    "fill_tier U isUntrustedRecall (effectiveCap (bu_MemoryRecall b) (W - ov)) 0 r1 e1 = (e2, r2)"
    "fill_tier U isUntrustedExternal (effectiveCap (bu_Artifacts b) (W - ov)) 0 r2 e2 = (out, r3)"
  using assms by (auto simp: ApplyBudget_def Let_def split: if_splits prod.splits)

lemma ApplyBudget_ok:
  "0 < W \<Longrightarrow> 0 \<le> ov \<Longrightarrow> 0 < W - ov \<Longrightarrow> must_tokens U els \<le> W - ov \<Longrightarrow> \<exists>out. ApplyBudget U (Some els) b W ov = Inr out"
  by (simp add: ApplyBudget_def Let_def case_prod_beta)

lemma classes_disjoint:
  "isMustInclude el \<Longrightarrow> \<not> isProjectMeta el" "isMustInclude el \<Longrightarrow> \<not> isUntrustedRecall el" "isMustInclude el \<Longrightarrow> \<not> isUntrustedExternal el"
  "isProjectMeta el \<Longrightarrow> \<not> isUntrustedRecall el" "isProjectMeta el \<Longrightarrow> \<not> isUntrustedExternal el"
  "isUntrustedRecall el \<Longrightarrow> \<not> isProjectMeta el" "isUntrustedRecall el \<Longrightarrow> \<not> isUntrustedExternal el"
  "isUntrustedExternal el \<Longrightarrow> \<not> isProjectMeta el" "isUntrustedExternal el \<Longrightarrow> \<not> isUntrustedRecall el"
  by (auto simp: isMustInclude_def isProjectMeta_def isUntrustedRecall_def isUntrustedExternal_def)

lemma classes_cover: "isMustInclude el \<or> isProjectMeta el \<or> isUntrustedRecall el \<or> isUntrustedExternal el"
  by (cases "el_Tier el") (auto simp: isProjectMeta_def isUntrustedRecall_def isUntrustedExternal_def)

lemma spent_classes:
  "tier_spent U (\<lambda>_. True) els =
    tier_spent U isMustInclude els + tier_spent U isProjectMeta els + tier_spent U isUntrustedRecall els + tier_spent U isUntrustedExternal els"
proof (induction els)
  case (Cons el els)
  have "el_Tier el \<noteq> TierAuthoritative \<Longrightarrow> \<not> isMustInclude el" by (simp add: isMustInclude_def)
  then show ?case using Cons.IH
    by (cases "el_Tier el"; cases "isMustInclude el") (simp_all add: isProjectMeta_def isUntrustedRecall_def isUntrustedExternal_def)
qed simp

lemma spent_other:
  assumes "stable_class P" and "stable_class M" and "\<And>el. P el \<Longrightarrow> \<not> M el"
  shows "tier_spent U P (fst (fill_tier U M cap t r els)) = tier_spent U P els"
  by (subst (1 2) spent_filter) (simp add: fill_tier_other [OF assms])

lemma must_tokens_spent: "\<forall>el \<in> set els. \<not> el_Truncated el \<Longrightarrow> must_tokens U els = tier_spent U isMustInclude els"
  by (induction els) (auto simp: must_tokens_def)

lemma effectiveCap_pos: "0 < w \<Longrightarrow> 0 < effectiveCap c w"
  by (simp add: effectiveCap_def)

lemma list_all2_cut_trans:
  assumes "list_all2 (\<lambda>el out. cut_of el out \<and> (\<not> M el \<longrightarrow> out = el)) xs ys"
    and "list_all2 (\<lambda>el out. cut_of el out \<and> (\<not> N el \<longrightarrow> out = el)) ys zs"
    and "stable_class N" and "\<And>el. Q el \<Longrightarrow> \<not> M el \<and> \<not> N el"
  shows "list_all2 (\<lambda>el out. cut_of el out \<and> (\<not> \<not> Q el \<longrightarrow> out = el)) xs zs"
  by (rule list_all2_trans [OF _ assms(1,2)]) (use assms(3,4) cut_of_trans in blast)

lemma budget_cut:
  assumes "ApplyBudget U (Some env) b W ov = Inr out"
  shows "list_all2 (\<lambda>el out. cut_of el out \<and> (isMustInclude el \<longrightarrow> out = el)) env out"
  using assms
proof (rule ApplyBudget_Inr)
  fix e1 r1 e2 r2 r3
  assume p: "fill_tier U isProjectMeta (effectiveCap (bu_ProjectDocs b) (W - ov)) 0 (W - ov - must_tokens U env) env = (e1, r1)"
    "fill_tier U isUntrustedRecall (effectiveCap (bu_MemoryRecall b) (W - ov)) 0 r1 e1 = (e2, r2)"
    "fill_tier U isUntrustedExternal (effectiveCap (bu_Artifacts b) (W - ov)) 0 r2 e2 = (out, r3)"
  have c: "list_all2 (\<lambda>el out. cut_of el out \<and> (\<not> isProjectMeta el \<longrightarrow> out = el)) env e1"
    "list_all2 (\<lambda>el out. cut_of el out \<and> (\<not> isUntrustedRecall el \<longrightarrow> out = el)) e1 e2"
    "list_all2 (\<lambda>el out. cut_of el out \<and> (\<not> isUntrustedExternal el \<longrightarrow> out = el)) e2 out"
    using fill_tier_cut [where M = isProjectMeta and U = U and els = env and t = 0 and r = "W - ov - must_tokens U env" and cap = "effectiveCap (bu_ProjectDocs b) (W - ov)"]
      fill_tier_cut [where M = isUntrustedRecall and U = U and els = e1 and t = 0 and r = r1 and cap = "effectiveCap (bu_MemoryRecall b) (W - ov)"]
      fill_tier_cut [where M = isUntrustedExternal and U = U and els = e2 and t = 0 and r = r2 and cap = "effectiveCap (bu_Artifacts b) (W - ov)"] p
    by simp_all
  have "list_all2 (\<lambda>el out. cut_of el out \<and> (\<not> \<not> isMustInclude el \<longrightarrow> out = el)) env e2"
    by (rule list_all2_cut_trans [OF c(1,2)]) (simp, use classes_disjoint in blast)
  then have "list_all2 (\<lambda>el out. cut_of el out \<and> (\<not> \<not> isMustInclude el \<longrightarrow> out = el)) env out"
    by (rule list_all2_cut_trans [OF _ c(3)]) (simp, use classes_disjoint in blast)
  then show ?thesis by simp
qed

section \<open>Properties\<close>

text \<open>
  C18. The budget never cuts the task: an applied budget returns the elements in their order, each the
  one it was or the same element with a marked, shortened content, and every element of the
  task (role directive, team roster, description, acceptance criteria, goals, comments) as it was.
\<close>

theorem budget_never_cuts_the_task:
  assumes "ApplyBudget U (Some env) b W ov = Inr out"
  shows "list_all2 (\<lambda>el out. cut_of el out \<and> (isMustInclude el \<longrightarrow> out = el)) env out"
  by (rule budget_cut [OF assms])

text \<open>
  C19. The budget fails closed, and only then: with a positive window and a framing cost that is not
  negative, application succeeds exactly when the framing leaves room and the whole task fits
  into what it leaves, and otherwise the error is the one that parks the Run.
\<close>

theorem budget_fails_closed:
  assumes "0 < W" and "0 \<le> ov"
  shows "(if 0 < W - ov \<and> must_tokens U env \<le> W - ov then \<exists>out. ApplyBudget U (Some env) b W ov = Inr out
     else ApplyBudget U (Some env) b W ov = Inl ErrMustIncludeExceedsWindow)"
  using assms ApplyBudget_ok [of W ov U env b] by (auto simp: ApplyBudget_def Let_def)

text \<open>
  What the budget leaves uncut fits: over an envelope no element of which was cut before, the
  elements returned uncut cost at most the window less the framing, and those of each
  best-effort class at most the cap of the class.
\<close>

theorem uncut_context_fits:
  assumes "ApplyBudget U (Some env) b W ov = Inr out" and "\<forall>el \<in> set env. \<not> el_Truncated el"
  shows "tier_spent U (\<lambda>_. True) out \<le> W - ov \<and> tier_spent U isProjectMeta out \<le> effectiveCap (bu_ProjectDocs b) (W - ov) \<and>
    tier_spent U isUntrustedRecall out \<le> effectiveCap (bu_MemoryRecall b) (W - ov) \<and>
    tier_spent U isUntrustedExternal out \<le> effectiveCap (bu_Artifacts b) (W - ov)"
  using assms(1)
proof (rule ApplyBudget_Inr)
  fix e1 r1 e2 r2 r3
  let ?w = "W - ov"
  let ?m = "must_tokens U env"
  assume w: "0 < ?w" "?m \<le> ?w"
    and p1: "fill_tier U isProjectMeta (effectiveCap (bu_ProjectDocs b) ?w) 0 (?w - ?m) env = (e1, r1)"
    and p2: "fill_tier U isUntrustedRecall (effectiveCap (bu_MemoryRecall b) ?w) 0 r1 e1 = (e2, r2)"
    and p3: "fill_tier U isUntrustedExternal (effectiveCap (bu_Artifacts b) ?w) 0 r2 e2 = (out, r3)"
  have other1: "tier_spent U P e1 = tier_spent U P env" if "stable_class P" "\<And>el. P el \<Longrightarrow> \<not> isProjectMeta el" for P
    using spent_other [where M = isProjectMeta, OF that(1) stable_classes(2) that(2)] p1 by (metis fst_conv)
  have other2: "tier_spent U P e2 = tier_spent U P e1" if "stable_class P" "\<And>el. P el \<Longrightarrow> \<not> isUntrustedRecall el" for P
    using spent_other [where M = isUntrustedRecall, OF that(1) stable_classes(3) that(2)] p2 by (metis fst_conv)
  have other3: "tier_spent U P out = tier_spent U P e2" if "stable_class P" "\<And>el. P el \<Longrightarrow> \<not> isUntrustedExternal el" for P
    using spent_other [where M = isUntrustedExternal, OF that(1) stable_classes(4) that(2)] p3 by (metis fst_conv)
  have must: "tier_spent U isMustInclude out = ?m"
    using other1 [of isMustInclude] other2 [of isMustInclude] other3 [of isMustInclude] classes_disjoint must_tokens_spent [OF assms(2)]
    by (metis stable_classes(1))
  have meta: "tier_spent U isProjectMeta out = tier_spent U isProjectMeta e1"
    using other2 [of isProjectMeta] other3 [of isProjectMeta] classes_disjoint by (metis stable_classes(2))
  have rec: "tier_spent U isUntrustedRecall out = tier_spent U isUntrustedRecall e2"
    using other3 [of isUntrustedRecall] classes_disjoint by (metis stable_classes(3))
  have s1: "tier_spent U isProjectMeta e1 \<le> max 0 (min (effectiveCap (bu_ProjectDocs b) ?w) (?w - ?m))" "r1 \<le> ?w - ?m - tier_spent U isProjectMeta e1"
    using fill_tier_spent [of isProjectMeta U "effectiveCap (bu_ProjectDocs b) ?w" 0 "?w - ?m" env] p1 by simp_all
  have s2: "tier_spent U isUntrustedRecall e2 \<le> max 0 (min (effectiveCap (bu_MemoryRecall b) ?w) r1)" "r2 \<le> r1 - tier_spent U isUntrustedRecall e2"
    using fill_tier_spent [of isUntrustedRecall U "effectiveCap (bu_MemoryRecall b) ?w" 0 r1 e1] p2 by simp_all
  have s3: "tier_spent U isUntrustedExternal out \<le> max 0 (min (effectiveCap (bu_Artifacts b) ?w) r2)"
    using fill_tier_spent [of isUntrustedExternal U "effectiveCap (bu_Artifacts b) ?w" 0 r2 e2] p3 by simp_all
  have cap: "0 < effectiveCap c ?w" for c using w(1) by (rule effectiveCap_pos)
  have total: "tier_spent U (\<lambda>_. True) out = ?m + tier_spent U isProjectMeta e1 + tier_spent U isUntrustedRecall e2 + tier_spent U isUntrustedExternal out"
    by (simp add: spent_classes must meta rec)
  have "tier_spent U isProjectMeta e1 \<le> ?w - ?m" using s1(1) w(2) by simp
  moreover have "tier_spent U isUntrustedRecall e2 \<le> max 0 r1" using s2(1) by linarith
  moreover have "tier_spent U isUntrustedExternal out \<le> max 0 r2" using s3 by linarith
  ultimately have "tier_spent U (\<lambda>_. True) out \<le> ?w" using total s1(2) s2(2) by linarith
  then show ?thesis using s1(1) s2(1) s3 cap meta rec
    by (smt (verit, best))
qed

text \<open>
  What fits is not touched: when each best-effort class costs less than its cap and everything
  together less than the window after the framing, the budget returns the envelope as it was.
\<close>

definition class_cost :: "unicode_tables \<Rightarrow> (Element \<Rightarrow> bool) \<Rightarrow> Envelope \<Rightarrow> int" where
  "class_cost U P els = sum_list (map (\<lambda>el. EstimateTokens U (el_Content el)) (filter P els))"

lemma class_cost_nonneg: "0 \<le> class_cost U P els"
  unfolding class_cost_def by (rule sum_list_nonneg) (auto simp: EstimateTokens_nonneg)

theorem budget_keeps_what_fits:
  assumes "0 < W" and "0 \<le> ov"
    and "class_cost U isProjectMeta env < effectiveCap (bu_ProjectDocs b) (W - ov)"
    and "class_cost U isUntrustedRecall env < effectiveCap (bu_MemoryRecall b) (W - ov)"
    and "class_cost U isUntrustedExternal env < effectiveCap (bu_Artifacts b) (W - ov)"
    and "must_tokens U env + class_cost U isProjectMeta env + class_cost U isUntrustedRecall env + class_cost U isUntrustedExternal env < W - ov"
  shows "ApplyBudget U (Some env) b W ov = Inr env"
proof -
  let ?w = "W - ov"
  let ?m = "must_tokens U env"
  note nn = class_cost_nonneg [of U isProjectMeta env] class_cost_nonneg [of U isUntrustedRecall env] class_cost_nonneg [of U isUntrustedExternal env]
  have m: "0 \<le> ?m" unfolding must_tokens_def by (rule sum_list_nonneg) (auto simp: EstimateTokens_nonneg)
  have p1: "fill_tier U isProjectMeta (effectiveCap (bu_ProjectDocs b) ?w) 0 (?w - ?m) env = (env, ?w - ?m - class_cost U isProjectMeta env)"
    unfolding class_cost_def by (rule fill_tier_fits) (use assms nn in \<open>simp flip: class_cost_def\<close>)
  have p2: "fill_tier U isUntrustedRecall (effectiveCap (bu_MemoryRecall b) ?w) 0 (?w - ?m - class_cost U isProjectMeta env) env =
      (env, ?w - ?m - class_cost U isProjectMeta env - class_cost U isUntrustedRecall env)"
    by (subst (2) class_cost_def) (rule fill_tier_fits, use assms nn in \<open>simp flip: class_cost_def\<close>)
  have p3: "fill_tier U isUntrustedExternal (effectiveCap (bu_Artifacts b) ?w) 0 (?w - ?m - class_cost U isProjectMeta env - class_cost U isUntrustedRecall env) env =
      (env, ?w - ?m - class_cost U isProjectMeta env - class_cost U isUntrustedRecall env - class_cost U isUntrustedExternal env)"
    using fill_tier_fits [where M = isUntrustedExternal and U = U and els = env and t = 0 and cap = "effectiveCap (bu_Artifacts b) ?w"
        and r = "?w - ?m - class_cost U isProjectMeta env - class_cost U isUntrustedRecall env"] assms nn
    by (simp flip: class_cost_def)
  show ?thesis using assms nn m by (simp add: ApplyBudget_def Let_def p1 p2 p3)
qed

section \<open>Isolation of the authoritative tier\<close>

lemma meta_authoritative: "isProjectMeta el \<Longrightarrow> el_Tier el = TierAuthoritative"
  by (simp add: isProjectMeta_def)

lemma must_tokens_tier: "must_tokens U (ElementsInTier env TierAuthoritative) = must_tokens U env"
proof -
  have "filter isMustInclude (ElementsInTier env TierAuthoritative) = filter isMustInclude env"
    by (auto simp: ElementsInTier_def isMustInclude_def intro!: filter_cong)
  then show ?thesis by (simp add: must_tokens_def)
qed

lemma authoritative_after_budget:
  assumes "ApplyBudget U (Some env) b W ov = Inr out"
  shows "ElementsInTier out TierAuthoritative =
    fst (fill_tier U isProjectMeta (effectiveCap (bu_ProjectDocs b) (W - ov)) 0 (W - ov - must_tokens U env)
           (ElementsInTier env TierAuthoritative))"
  using assms
proof (rule ApplyBudget_Inr)
  fix e1 r1 e2 r2 r3
  let ?A = "\<lambda>el. el_Tier el = TierAuthoritative"
  assume p: "fill_tier U isProjectMeta (effectiveCap (bu_ProjectDocs b) (W - ov)) 0 (W - ov - must_tokens U env) env = (e1, r1)"
    "fill_tier U isUntrustedRecall (effectiveCap (bu_MemoryRecall b) (W - ov)) 0 r1 e1 = (e2, r2)"
    "fill_tier U isUntrustedExternal (effectiveCap (bu_Artifacts b) (W - ov)) 0 r2 e2 = (out, r3)"
  have "filter ?A e2 = filter ?A e1"
    using fill_tier_other [where P = ?A and M = isUntrustedRecall and els = e1] p(2)
    by (metis fst_conv isUntrustedRecall_def stable_classes(3,5) TrustTier.distinct(1))
  moreover have "filter ?A out = filter ?A e2"
    using fill_tier_other [where P = ?A and M = isUntrustedExternal and els = e2] p(3)
    by (metis fst_conv isUntrustedExternal_def stable_classes(4,5) TrustTier.distinct(3))
  ultimately show ?thesis
    using fill_tier_filter [where P = ?A and M = isProjectMeta and els = env] p(1) meta_authoritative
    by (simp add: ElementsInTier_def)
qed

text \<open>
  Untrusted content cannot touch the authoritative tier: two envelopes with the same
  authoritative elements, budgeted for the same window and framing cost, fail together or
  succeed together, and what they return in the authoritative tier is the same, whatever recall
  and external elements they carry.
\<close>

theorem untrusted_cannot_displace_task:
  assumes "ElementsInTier env TierAuthoritative = ElementsInTier env' TierAuthoritative"
    and "ApplyBudget U (Some env) b W ov = Inr out"
  shows "\<exists>out'. ApplyBudget U (Some env') b W ov = Inr out' \<and>
    ElementsInTier out' TierAuthoritative = ElementsInTier out TierAuthoritative"
proof -
  have m: "must_tokens U env' = must_tokens U env" using must_tokens_tier assms(1) by metis
  obtain out' where o: "ApplyBudget U (Some env') b W ov = Inr out'"
    using assms(2) ApplyBudget_ok m by (metis ApplyBudget_Inr)
  from authoritative_after_budget [OF o] authoritative_after_budget [OF assms(2)] m assms(1) o show ?thesis by auto
qed

section \<open>Witnesses\<close>

definition demo_el :: "TrustTier \<Rightarrow> string \<Rightarrow> string \<Rightarrow> Element" where
  "demo_el tier kind content = \<lparr>el_Tier = tier, el_Kind = kind, el_Content = content, el_Provenance = from_source ''workItem'',
     el_Score = 0, el_Truncated = False\<rparr>"

definition demo_env :: Envelope where
  "demo_env = [demo_el TierAuthoritative ''description'' ''fix the build'', demo_el TierUntrustedRecall ''recall'' ''one two three four'']"

definition demo_budget :: Budget where
  "demo_budget = \<lparr>bu_WorkItem = 0, bu_ProjectDocs = 0, bu_MemoryRecall = 0, bu_Artifacts = 0\<rparr>"

definition demo_out :: Envelope where
  "demo_out = [demo_el TierAuthoritative ''description'' ''fix the build'',
     (demo_el TierUntrustedRecall ''recall'' (''one two '' @ [CHR 0xE2, CHR 0x80, CHR 0xA6] @ ''[truncated to fit the context budget]''))\<lparr>el_Truncated := True\<rparr>]"

lemma demo_applied: "ApplyBudget basic_tables (Some demo_env) demo_budget 5 0 = Inr demo_out"
  by code_simp

theorem budget_never_cuts_the_task_witness:
  "demo_out ! 0 = demo_env ! 0 \<and> cut_of (demo_env ! 1) (demo_out ! 1)"
  using budget_never_cuts_the_task [OF demo_applied] by (simp add: demo_env_def demo_out_def demo_el_def isMustInclude_def)

theorem budget_fails_closed_witness:
  "ApplyBudget basic_tables (Some demo_env) demo_budget 2 0 = Inl ErrMustIncludeExceedsWindow"
proof -
  have "\<not> must_tokens basic_tables demo_env \<le> 2 - 0" by code_simp
  with budget_fails_closed [of 2 0 basic_tables demo_env demo_budget] show ?thesis by simp
qed

theorem uncut_context_fits_witness:
  "tier_spent basic_tables (\<lambda>_. True) demo_out \<le> 5 \<and> \<not> el_Truncated (demo_env ! 0)"
  using uncut_context_fits [OF demo_applied] by (simp add: demo_env_def demo_el_def)

theorem budget_keeps_what_fits_witness:
  "ApplyBudget basic_tables (Some demo_env) demo_budget 9 0 = Inr demo_env"
proof (rule budget_keeps_what_fits)
  show "class_cost basic_tables isProjectMeta demo_env < effectiveCap (bu_ProjectDocs demo_budget) (9 - 0)"
    "class_cost basic_tables isUntrustedRecall demo_env < effectiveCap (bu_MemoryRecall demo_budget) (9 - 0)"
    "class_cost basic_tables isUntrustedExternal demo_env < effectiveCap (bu_Artifacts demo_budget) (9 - 0)"
    "must_tokens basic_tables demo_env + class_cost basic_tables isProjectMeta demo_env +
       class_cost basic_tables isUntrustedRecall demo_env + class_cost basic_tables isUntrustedExternal demo_env < 9 - 0"
    by code_simp+
qed simp_all

theorem untrusted_cannot_displace_task_witness:
  "\<exists>out'. ApplyBudget basic_tables (Some [hd demo_env]) demo_budget 5 0 = Inr out' \<and>
    ElementsInTier out' TierAuthoritative = ElementsInTier demo_out TierAuthoritative"
proof -
  have "ElementsInTier demo_env TierAuthoritative = ElementsInTier [hd demo_env] TierAuthoritative" by code_simp
  from untrusted_cannot_displace_task [OF this demo_applied] show ?thesis .
qed

section \<open>Where the window is exceeded\<close>

text \<open>
  The cut counts words between white space and the estimate counts ideographs one by one: a
  recalled note without spaces is marked as cut, is not shortened, and overruns the window.
\<close>

definition ideographs :: string where
  "ideographs = concat (replicate 8 [CHR 0xE6, CHR 0xBC, CHR 0xA2])"

lemma cut_exceeds_window:
  "ApplyBudget basic_tables (Some [hd demo_env, demo_el TierUntrustedRecall ''recall'' ideographs]) demo_budget 5 0 =
     Inr [hd demo_env, (demo_el TierUntrustedRecall ''recall'' ideographs)\<lparr>el_Truncated := True\<rparr>]"
  "class_cost basic_tables (\<lambda>_. True) [hd demo_env, (demo_el TierUntrustedRecall ''recall'' ideographs)\<lparr>el_Truncated := True\<rparr>] = 11"
  by code_simp+

text \<open>The marker of a dropped element costs tokens that no count includes.\<close>

lemma dropped_marker_exceeds_window:
  "ApplyBudget basic_tables (Some demo_env) demo_budget 3 0 =
     Inr [hd demo_env, (demo_el TierUntrustedRecall ''recall'' truncateMarker)\<lparr>el_Truncated := True\<rparr>]"
  "class_cost basic_tables (\<lambda>_. True) [hd demo_env, (demo_el TierUntrustedRecall ''recall'' truncateMarker)\<lparr>el_Truncated := True\<rparr>] = 11"
  by code_simp+

text \<open>A tier configured to zero is resolved without complaint and gets the whole window.\<close>

lemma zero_tier_is_uncapped:
  "ResolveBudget (Some \<lparr>cb_WorkItem = None, cb_ProjectDocs = None, cb_MemoryRecall = Some 0, cb_Artifacts = None\<rparr>) None 100 = Inr demo_budget"
  "effectiveCap 0 w = w"
  by (simp_all add: ResolveBudget_def resolve_tier_def firstSet_def deref_def demo_budget_def effectiveCap_def)

section \<open>Resolution\<close>

text \<open>
  A resolved budget is, tier by tier, the Agent's override where it is set, the Project's default
  where only that is set and zero otherwise, and never above the window; resolution fails exactly
  when the window is not positive or one of those tiers is above it.
\<close>

definition tier_value :: "int option \<Rightarrow> int option \<Rightarrow> int" where
  "tier_value project override = (case firstSet project override of None \<Rightarrow> 0 | Some v \<Rightarrow> v)"

theorem resolved_budget_within_window:
  "(case ResolveBudget p a W of
      Inr b \<Rightarrow> 0 < W \<and> bu_WorkItem b = tier_value (cb_WorkItem (deref p)) (cb_WorkItem (deref a)) \<and> bu_WorkItem b \<le> W \<and>
        bu_ProjectDocs b = tier_value (cb_ProjectDocs (deref p)) (cb_ProjectDocs (deref a)) \<and> bu_ProjectDocs b \<le> W \<and>
        bu_MemoryRecall b = tier_value (cb_MemoryRecall (deref p)) (cb_MemoryRecall (deref a)) \<and> bu_MemoryRecall b \<le> W \<and>
        bu_Artifacts b = tier_value (cb_Artifacts (deref p)) (cb_Artifacts (deref a)) \<and> bu_Artifacts b \<le> W
    | Inl e \<Rightarrow> W \<le> 0 \<or> e = ErrBudgetAboveWindow \<and>
        (W < tier_value (cb_WorkItem (deref p)) (cb_WorkItem (deref a)) \<or> W < tier_value (cb_ProjectDocs (deref p)) (cb_ProjectDocs (deref a)) \<or>
         W < tier_value (cb_MemoryRecall (deref p)) (cb_MemoryRecall (deref a)) \<or> W < tier_value (cb_Artifacts (deref p)) (cb_Artifacts (deref a))))"
proof -
  have t: "resolve_tier W x y = (if firstSet x y \<noteq> None \<and> W < tier_value x y then Inl ErrBudgetAboveWindow else Inr (tier_value x y))" for x y
    by (simp add: resolve_tier_def tier_value_def split: option.splits)
  have n: "firstSet x y = None \<Longrightarrow> tier_value x y = 0" for x y by (simp add: tier_value_def)
  show ?thesis by (auto simp: ResolveBudget_def Let_def t dest: n split: if_splits)
qed

end
