(* ===== verification/Context_Assembler.thy ===== *)
theory Context_Assembler
  imports Context_Budget
begin

text \<open>
  The context assembler (pkg/contextasm/assembler.go): the facts gathered for a Run, the only
  construction of envelopes, the pipeline gather / tier-stamp / budget / snapshot / inject, and
  the deterministic resume from a snapshot. The readers behind the gather seam (coordination
  store, Project resource, memory service, source-control mirror) are the functions of a record;
  spans and counters are left out.
\<close>

section \<open>Facts\<close>

record Comment =
  co_Author :: string
  co_Content :: string
  co_WrittenAt :: string

record RosterEntry =
  re_Name :: string
  re_Kind :: string

record DiscussionContext =
  dc_ThreadID :: string
  dc_TriggerMessage :: string
  dc_Transcript :: "Comment list"
  dc_Roster :: "RosterEntry list"

record WorkItemFacts =
  wi_ID :: string
  wi_Revision :: string
  wi_Title :: string
  wi_Description :: string
  wi_AcceptanceCriteria :: "string list"
  wi_Goals :: "string list"
  wi_Comments :: "Comment list"
  wi_Discussion :: "DiscussionContext option"

record ProjectMeta =
  pm_ProjectRevision :: string
  pm_RepoURL :: string
  pm_RepoRef :: string
  pm_ArchDocRefs :: "string list"
  pm_Conventions :: string
  pm_Goals :: "string list"

record RecallDoc =
  rd_ID :: string
  rd_Content :: string
  rd_Author :: string
  rd_Scope :: string
  rd_WrittenAt :: string
  rd_Score :: rat

record ArtifactLink =
  al_URI :: string
  al_Digest :: string
  al_Kind :: string
  al_Body :: string

record GitHubComment =
  gc_Author :: string
  gc_Body :: string
  gc_WrittenAt :: string

record GitHubDetails =
  gh_IssueRef :: string
  gh_IssueURL :: string
  gh_State :: string
  gh_Title :: string
  gh_Body :: string
  gh_Actor :: string
  gh_LastSyncedAt :: string
  gh_Comments :: "GitHubComment list"

record Sources =
  src_WorkItem :: "string \<Rightarrow> string \<Rightarrow> string + WorkItemFacts"
  src_ProjectMeta :: "string \<Rightarrow> string \<Rightarrow> string + ProjectMeta"
  src_MemoryRecall :: "string \<Rightarrow> string \<Rightarrow> string \<Rightarrow> string list \<Rightarrow> int \<Rightarrow> string + RecallDoc list"
  src_Artifacts :: "string \<Rightarrow> string + ArtifactLink list"
  src_GitHubDetails :: "string \<Rightarrow> string \<Rightarrow> string + GitHubDetails"

record ContextSnapshot =
  sn_WorkItemRevision :: string
  sn_GoalRevision :: string
  sn_MemoryDocIDs :: "string list"
  sn_Budget :: "ContextBudget option"
  sn_ContextWindow :: "int option"

text \<open>The parts of the Run, Agent and Project resources the assembler reads.\<close>

record RunFacts =
  run_UID :: string
  run_WorkItemRef :: string
  run_ProjectRef :: string
  run_Inputs :: "(string \<times> string) list"

record AgentFacts =
  agent_ContextBudgetOverride :: "ContextBudget option"

record ProjectFacts =
  project_UID :: string
  project_ContextBudget :: "ContextBudget option"

record AssembleRequest =
  rq_Run :: "RunFacts option"
  rq_Agent :: "AgentFacts option"
  rq_Project :: "ProjectFacts option"
  rq_TeamID :: string
  rq_ContextWindow :: int
  rq_Existing :: "ContextSnapshot option"
  rq_RolePrompt :: string
  rq_TeamRoster :: string

record AssembleResult =
  ar_Envelope :: Envelope
  ar_Budget :: Budget
  ar_Snapshot :: ContextSnapshot
  ar_Injection :: InjectionPayload

record Assembler =
  asm_sources :: Sources
  asm_TopK :: int

definition NewAssembler :: "Sources \<Rightarrow> int \<Rightarrow> Assembler" where
  "NewAssembler sources topK = \<lparr>asm_sources = sources, asm_TopK = (if topK \<le> 0 then 8 else topK)\<rparr>"

section \<open>Rendering\<close>

definition nl :: string where "nl = [CHR 0x0A]"

definition recall_add :: "string \<Rightarrow> string list \<Rightarrow> string list" where
  "recall_add s parts = (if s = [] \<or> s \<in> set parts then parts else parts @ [s])"

text \<open>The query of a fresh recall; the set of seen texts is the set of the parts added so far.\<close>

definition recallQueryText :: "WorkItemFacts \<Rightarrow> string" where
  "recallQueryText wi =
     (let task = Join ((if wi_Title wi \<noteq> [] then [wi_Title wi] else []) @
                       (if wi_Description wi \<noteq> [] then [wi_Description wi] else []) @ wi_AcceptanceCriteria wi) nl
      in case wi_Discussion wi of
           Some d \<Rightarrow>
             let parts = foldl (\<lambda>parts m. recall_add (co_Content m) parts) (recall_add (dc_TriggerMessage d) []) (dc_Transcript d)
             in if parts \<noteq> [] then Join parts nl else task
         | None \<Rightarrow> task)"

definition formatRoster :: "RosterEntry list \<Rightarrow> string" where
  "formatRoster roster =
     Join (map (\<lambda>r. if re_Kind r \<noteq> [] then re_Name r @ '' ('' @ re_Kind r @ '')'' else re_Name r)
       (filter (\<lambda>r. re_Name r \<noteq> []) roster)) '', ''"

definition formatTranscriptLine :: "Comment \<Rightarrow> string" where
  "formatTranscriptLine m = (if co_Author m = [] then co_Content m else co_Author m @ '': '' @ co_Content m)"

definition joinTitleBody :: "string \<Rightarrow> string \<Rightarrow> string" where
  "joinTitleBody title body = (if title = [] then body else if body = [] then title else title @ nl @ nl @ body)"

text \<open>The inputs of a Run are a map: distinct keys, in the order of the sorted keys.\<close>

definition sortedInputs :: "(string \<times> string) list \<Rightarrow> (string \<times> string) list" where
  "sortedInputs m = sort_key fst m"

section \<open>The envelope\<close>

definition prov_by :: "string \<Rightarrow> string \<Rightarrow> string \<Rightarrow> Provenance" where
  "prov_by src author written = (from_source src)\<lparr>pv_Author := author, pv_WrittenAt := written\<rparr>"

definition add_task :: "string \<Rightarrow> string \<Rightarrow> WorkItemFacts \<Rightarrow> ProjectMeta \<Rightarrow> Element list \<Rightarrow> Element list" where
  "add_task rolePrompt teamRoster wi meta b =
     (let b = (if rolePrompt \<noteq> [] then addAuthoritative ''roleDirective'' rolePrompt (from_source ''role'') b else b);
          b = (if teamRoster \<noteq> [] then addAuthoritative ''teamRoster'' teamRoster (from_source ''team'') b else b);
          b = addAuthoritative ''description'' (joinTitleBody (wi_Title wi) (wi_Description wi)) (from_source ''workItem'') b;
          b = foldl (\<lambda>b (i, ac). addAuthoritative ''acceptanceCriteria'' ac
                (prov_by ''acceptanceCriteria'' (''index:'' @ nat_str i) []) b) b (List.enumerate 0 (wi_AcceptanceCriteria wi));
          b = foldl (\<lambda>b g. addAuthoritative ''goal'' g (from_source ''goals'') b) b (pm_Goals meta @ wi_Goals wi)
      in foldl (\<lambda>b c. addAuthoritative ''comment'' (co_Content c)
           (prov_by ''workItem'' (co_Author c) (co_WrittenAt c)) b) b (wi_Comments wi))"

definition add_meta :: "ProjectMeta \<Rightarrow> (string \<times> string) list \<Rightarrow> Element list \<Rightarrow> Element list" where
  "add_meta meta inputs b =
     (let b = (if pm_RepoURL meta \<noteq> []
               then addProjectMeta ''repo'' (pm_RepoURL meta @ '' @'' @ (if pm_RepoRef meta = [] then ''default'' else pm_RepoRef meta))
                      (from_source ''projectMeta'') b
               else b);
          b = foldl (\<lambda>b d. addProjectMeta ''archDoc'' d (from_source ''projectMeta'') b) b (pm_ArchDocRefs meta);
          b = (if pm_Conventions meta \<noteq> [] then addProjectMeta ''conventions'' (pm_Conventions meta) (from_source ''projectMeta'') b else b)
      in foldl (\<lambda>b (k, v). addProjectMeta ''input'' (k @ ''='' @ v) (from_source ''runInputs'') b) b (sortedInputs inputs))"

definition add_discussion :: "DiscussionContext option \<Rightarrow> Element list \<Rightarrow> Element list" where
  "add_discussion d b =
     (case d of
        None \<Rightarrow> b
      | Some d \<Rightarrow>
          let b = (if formatRoster (dc_Roster d) \<noteq> [] then addProjectMeta ''roster'' (formatRoster (dc_Roster d)) (from_source ''discussion'') b else b)
          in foldl (\<lambda>b m. addUntrustedExternal ''discussionMessage'' (formatTranscriptLine m)
               (prov_by ''discussion'' (co_Author m) (co_WrittenAt m)) b) b (dc_Transcript d))"

definition add_recall :: "RecallDoc list \<Rightarrow> Element list \<Rightarrow> Element list" where
  "add_recall recall b =
     foldl (\<lambda>b r. addUntrustedRecall ''recall'' (rd_Content r)
       \<lparr>pv_Source = ''memory'', pv_Author = rd_Author r, pv_WrittenAt = rd_WrittenAt r, pv_Scope = rd_Scope r\<rparr> (rd_Score r) b) b recall"

definition github_fact :: "GitHubDetails \<Rightarrow> string" where
  "github_fact gh = gh_IssueRef gh @
     (if gh_State gh \<noteq> [] then '' ['' @ gh_State gh @ '']'' else []) @
     (if gh_IssueURL gh \<noteq> [] then '' '' @ gh_IssueURL gh else []) @
     (if gh_LastSyncedAt gh \<noteq> [] then '' (synced '' @ gh_LastSyncedAt gh @ '')'' else [])"

definition add_github_comments :: "GitHubComment list \<Rightarrow> Element list \<Rightarrow> Element list" where
  "add_github_comments cs b =
     foldl (\<lambda>b c. if TrimSpace (gc_Body c) = [] then b
       else addUntrustedExternal ''githubIssueComment'' (TrimSpace (gc_Body c))
              (prov_by ''github'' (gc_Author c) (gc_WrittenAt c)) b) b cs"

definition add_github :: "GitHubDetails \<Rightarrow> Element list \<Rightarrow> Element list" where
  "add_github gh b =
     (if gh_IssueRef gh = [] then b
      else
        let b = addProjectMeta ''githubIssue'' (github_fact gh) (from_source ''github'') b;
            body = TrimSpace (gh_Body gh);
            b = (if body \<noteq> []
                 then addUntrustedExternal ''githubIssueBody''
                        (gh_IssueRef gh @ (if gh_Title gh \<noteq> [] then '' '' @ em_dash @ '' '' @ gh_Title gh else []) @ nl @ body)
                        (prov_by ''github'' (gh_Actor gh) (gh_LastSyncedAt gh)) b
                 else b)
        in add_github_comments (gh_Comments gh) b)"

definition add_artifacts :: "ArtifactLink list \<Rightarrow> Element list \<Rightarrow> Element list" where
  "add_artifacts arts b =
     foldl (\<lambda>b a. addUntrustedExternal (al_Kind a)
       (al_URI a @ '' ('' @ (if al_Digest a = [] then ''-'' else al_Digest a) @ '')'' @ nl @ al_Body a) (from_source ''artifact'') b) b arts"

definition buildEnvelope ::
  "string \<Rightarrow> string \<Rightarrow> WorkItemFacts \<Rightarrow> ProjectMeta \<Rightarrow> RecallDoc list \<Rightarrow> ArtifactLink list \<Rightarrow> GitHubDetails \<Rightarrow>
   (string \<times> string) list \<Rightarrow> Envelope" where
  "buildEnvelope rolePrompt teamRoster wi meta recall arts gh inputs =
     env_build (add_artifacts arts (add_github gh (add_recall recall (add_discussion (wi_Discussion wi)
       (add_meta meta inputs (add_task rolePrompt teamRoster wi meta []))))))"

section \<open>Snapshot\<close>

definition buildSnapshot :: "WorkItemFacts \<Rightarrow> ProjectMeta \<Rightarrow> Budget \<Rightarrow> int \<Rightarrow> ContextSnapshot" where
  "buildSnapshot wi meta budget window =
     \<lparr>sn_WorkItemRevision = wi_Revision wi, sn_GoalRevision = pm_ProjectRevision meta, sn_MemoryDocIDs = [],
      sn_Budget = Some \<lparr>cb_WorkItem = Some (bu_WorkItem budget), cb_ProjectDocs = Some (bu_ProjectDocs budget),
        cb_MemoryRecall = Some (bu_MemoryRecall budget), cb_Artifacts = Some (bu_Artifacts budget)\<rparr>,
      sn_ContextWindow = Some window\<rparr>"

definition pinRecallIDs :: "ContextSnapshot \<Rightarrow> RecallDoc list \<Rightarrow> Envelope \<Rightarrow> ContextSnapshot" where
  "pinRecallIDs snap recall env =
     (let kept = map el_Content (filter (\<lambda>el. el_Tier el = TierUntrustedRecall \<and> el_Content el \<noteq> truncateMarker) env)
      in snap\<lparr>sn_MemoryDocIDs := map rd_ID (filter (\<lambda>r. rd_Content r \<in> set kept) recall)\<rparr>)"

definition derefI64 :: "int option \<Rightarrow> int" where
  "derefI64 p = (case p of None \<Rightarrow> 0 | Some v \<Rightarrow> v)"

definition budgetFromSnapshot :: "ContextBudget \<Rightarrow> Budget" where
  "budgetFromSnapshot b = \<lparr>bu_WorkItem = derefI64 (cb_WorkItem b), bu_ProjectDocs = derefI64 (cb_ProjectDocs b),
     bu_MemoryRecall = derefI64 (cb_MemoryRecall b), bu_Artifacts = derefI64 (cb_Artifacts b)\<rparr>"

section \<open>The pipeline\<close>

definition asm_budget :: "AssembleRequest \<Rightarrow> AgentFacts \<Rightarrow> ProjectFacts \<Rightarrow> ctx_error + Budget" where
  "asm_budget req agent project =
     (case Option.bind (rq_Existing req) sn_Budget of
        Some b \<Rightarrow> Inr (budgetFromSnapshot b)
      | None \<Rightarrow> ResolveBudget (project_ContextBudget project) (agent_ContextBudgetOverride agent) (rq_ContextWindow req))"

text \<open>The reads, pinned by the snapshot when there is one, in the order of the source.\<close>

definition asm_gather ::
  "Assembler \<Rightarrow> AssembleRequest \<Rightarrow> RunFacts \<Rightarrow> ProjectFacts \<Rightarrow>
   ctx_error + WorkItemFacts \<times> ProjectMeta \<times> RecallDoc list \<times> ArtifactLink list \<times> GitHubDetails" where
  "asm_gather a req run project =
     (let S = asm_sources a;
          wiRev = (case rq_Existing req of None \<Rightarrow> [] | Some s \<Rightarrow> sn_WorkItemRevision s);
          goalRev = (case rq_Existing req of None \<Rightarrow> [] | Some s \<Rightarrow> sn_GoalRevision s);
          docIDs = (case rq_Existing req of None \<Rightarrow> [] | Some s \<Rightarrow> sn_MemoryDocIDs s)
      in
      case src_WorkItem S (run_WorkItemRef run) wiRev of
        Inl e \<Rightarrow> Inl (CtxErr (''contextasm: work item: '' @ e))
      | Inr wi \<Rightarrow>
      case src_ProjectMeta S (run_ProjectRef run) goalRev of
        Inl e \<Rightarrow> Inl (CtxErr (''contextasm: project meta: '' @ e))
      | Inr meta \<Rightarrow>
      case src_MemoryRecall S (rq_TeamID req) (project_UID project) (recallQueryText wi) docIDs (asm_TopK a) of
        Inl e \<Rightarrow> Inl (CtxErr (''contextasm: memory recall: '' @ e))
      | Inr recall \<Rightarrow>
      case src_Artifacts S (run_UID run) of
        Inl e \<Rightarrow> Inl (CtxErr (''contextasm: artifacts: '' @ e))
      | Inr arts \<Rightarrow>
      case src_GitHubDetails S (run_ProjectRef run) (run_WorkItemRef run) of
        Inl e \<Rightarrow> Inl (CtxErr (''contextasm: github details: '' @ e))
      | Inr gh \<Rightarrow> Inr (wi, meta, recall, arts, gh))"

definition asm_finish ::
  "unicode_tables \<Rightarrow> AssembleRequest \<Rightarrow> Envelope \<Rightarrow> WorkItemFacts \<Rightarrow> ProjectMeta \<Rightarrow> RecallDoc list \<Rightarrow> Budget \<Rightarrow> ctx_error + AssembleResult" where
  "asm_finish U req env wi meta recall budget =
     (case ApplyBudget U (Some env) budget (rq_ContextWindow req) (OverheadTokens U (NewInjection env)) of
        Inl e \<Rightarrow> Inl e
      | Inr budgeted \<Rightarrow>
          Inr \<lparr>ar_Envelope = budgeted, ar_Budget = budget,
               ar_Snapshot = pinRecallIDs (buildSnapshot wi meta budget (rq_ContextWindow req)) recall budgeted,
               ar_Injection = NewInjection budgeted\<rparr>)"

definition Assemble :: "unicode_tables \<Rightarrow> Assembler \<Rightarrow> AssembleRequest \<Rightarrow> ctx_error + AssembleResult" where
  "Assemble U a req =
     (case (rq_Run req, rq_Agent req, rq_Project req) of
        (Some run, Some agent, Some project) \<Rightarrow>
          if run_WorkItemRef run = [] then Inl (CtxErr ''contextasm: run.spec.workItemRef is required'')
          else if rq_ContextWindow req \<le> 0 then Inl (CtxErr ''contextasm: resolved contextWindow is required'')
          else (case asm_gather a req run project of
              Inl e \<Rightarrow> Inl e
            | Inr (wi, meta, recall, arts, gh) \<Rightarrow>
                let env = buildEnvelope (rq_RolePrompt req) (rq_TeamRoster req) wi meta recall arts gh (run_Inputs run) in
                case asm_budget req agent project of
                  Inl e \<Rightarrow> Inl e
                | Inr budget \<Rightarrow> asm_finish U req env wi meta recall budget)
      | _ \<Rightarrow> Inl (CtxErr ''contextasm: run, agent and project are required''))"

section \<open>Tiers\<close>

lemma tier_env_add [simp]:
  "ElementsInTier (env_add t kind content prov score b) tier =
    ElementsInTier b tier @ (if t = tier
      then [\<lparr>el_Tier = t, el_Kind = kind, el_Content = content, el_Provenance = prov, el_Score = score, el_Truncated = False\<rparr>] else [])"
  by (simp add: ElementsInTier_def env_add_def)

lemmas builder_defs = addAuthoritative_def addProjectMeta_def addUntrustedRecall_def addUntrustedExternal_def

lemma tier_foldl:
  assumes "\<And>b x. ElementsInTier (f b x) tier = ElementsInTier b tier"
  shows "ElementsInTier (foldl f b xs) tier = ElementsInTier b tier"
  by (induction xs arbitrary: b) (simp_all add: assms)

lemma auth_add_recall: "ElementsInTier (add_recall recall b) TierAuthoritative = ElementsInTier b TierAuthoritative"
  unfolding add_recall_def by (rule tier_foldl) (simp add: builder_defs)

lemma auth_add_artifacts: "ElementsInTier (add_artifacts arts b) TierAuthoritative = ElementsInTier b TierAuthoritative"
  unfolding add_artifacts_def by (rule tier_foldl) (simp add: builder_defs)

lemma auth_add_discussion:
  "ElementsInTier (add_discussion d b) TierAuthoritative =
    (case map_option dc_Roster d of
       Some r \<Rightarrow> if formatRoster r \<noteq> [] then ElementsInTier (addProjectMeta ''roster'' (formatRoster r) (from_source ''discussion'') b) TierAuthoritative
         else ElementsInTier b TierAuthoritative
     | None \<Rightarrow> ElementsInTier b TierAuthoritative)"
proof (cases d)
  case (Some d')
  have "ElementsInTier (foldl (\<lambda>b m. addUntrustedExternal ''discussionMessage'' (formatTranscriptLine m)
      (prov_by ''discussion'' (co_Author m) (co_WrittenAt m)) b) b0 xs) TierAuthoritative = ElementsInTier b0 TierAuthoritative" for b0 xs
    by (rule tier_foldl) (simp add: builder_defs)
  then show ?thesis using Some by (simp add: add_discussion_def Let_def)
qed (simp add: add_discussion_def)

lemma auth_add_github_comments: "ElementsInTier (add_github_comments cs b) TierAuthoritative = ElementsInTier b TierAuthoritative"
  unfolding add_github_comments_def by (rule tier_foldl) (simp add: builder_defs)

lemma auth_add_github:
  "ElementsInTier (add_github gh b) TierAuthoritative =
    (if gh_IssueRef gh = [] then ElementsInTier b TierAuthoritative
     else ElementsInTier (addProjectMeta ''githubIssue'' (github_fact gh) (from_source ''github'') b) TierAuthoritative)"
  by (simp add: add_github_def Let_def auth_add_github_comments builder_defs)

text \<open>
  Two gathered work items whose task is the same: they may differ in what room participants
  wrote. Two mirrored issues with the same facts: they may differ in what was written upstream.
\<close>

definition same_task :: "WorkItemFacts \<Rightarrow> WorkItemFacts \<Rightarrow> bool" where
  "same_task wi wi' \<longleftrightarrow> wi\<lparr>wi_Discussion := None\<rparr> = wi'\<lparr>wi_Discussion := None\<rparr> \<and>
     map_option dc_Roster (wi_Discussion wi) = map_option dc_Roster (wi_Discussion wi')"

definition same_facts :: "GitHubDetails \<Rightarrow> GitHubDetails \<Rightarrow> bool" where
  "same_facts gh gh' \<longleftrightarrow> gh_IssueRef gh = gh_IssueRef gh' \<and> github_fact gh = github_fact gh'"

lemma add_task_same: "same_task wi wi' \<Longrightarrow> add_task rp tr wi meta b = add_task rp tr wi' meta b"
  by (cases wi; cases wi') (simp add: same_task_def add_task_def)

lemma envelope_authoritative:
  assumes "same_task wi wi'" and "same_facts gh gh'"
  shows "ElementsInTier (buildEnvelope rp tr wi meta recall arts gh inputs) TierAuthoritative =
    ElementsInTier (buildEnvelope rp tr wi' meta recall' arts' gh' inputs) TierAuthoritative"
proof -
  have d: "map_option dc_Roster (wi_Discussion wi) = map_option dc_Roster (wi_Discussion wi')" using assms(1) by (simp add: same_task_def)
  show ?thesis using assms(2)
    by (simp add: buildEnvelope_def ElementsInTier_build auth_add_artifacts auth_add_github auth_add_recall auth_add_discussion d
        add_task_same [OF assms(1)] same_facts_def builder_defs)
qed

section \<open>The framing cost\<close>

lemma inject_tiers_blocks:
  "inject_tiers env tiers =
    map (\<lambda>tier. \<lparr>ib_Tier = tier, ib_Framing = tierFraming tier, ib_Lines = map (inject_line tier) (ElementsInTier env tier)\<rparr>)
      (filter (HasTier env) tiers)"
proof (induction tiers)
  case (Cons tier tiers)
  have "ElementsInTier env tier = [] \<longleftrightarrow> \<not> HasTier env tier" by (auto simp: ElementsInTier_def HasTier_def filter_empty_conv)
  with Cons show ?case by (simp add: Let_def)
qed simp

lemma overhead_by_tiers:
  assumes "\<And>tier. HasTier env tier = HasTier env' tier"
  shows "OverheadTokens U (NewInjection env) = OverheadTokens U (NewInjection env')"
proof -
  have "filter (HasTier env) injectionTiers = filter (HasTier env') injectionTiers" using assms by (intro filter_cong) auto
  then show ?thesis by (simp add: OverheadTokens_def NewInjection_def inject_tiers_blocks comp_def)
qed

lemma budget_keeps_tiers:
  assumes "ApplyBudget U (Some env) b W ov = Inr out"
  shows "map el_Tier out = map el_Tier env"
proof -
  have "list_all2 (\<lambda>el x. el_Tier x = el_Tier el) env out"
    by (rule list_all2_mono [OF budget_cut [OF assms]]) (auto simp: cut_of_def)
  then show ?thesis by (induction rule: list_all2_induct) simp_all
qed

lemma HasTier_map: "map el_Tier env = map el_Tier env' \<Longrightarrow> HasTier env tier = HasTier env' tier"
proof -
  have "HasTier env tier \<longleftrightarrow> tier \<in> set (map el_Tier env)" for env by (auto simp: HasTier_def)
  then show "map el_Tier env = map el_Tier env' \<Longrightarrow> HasTier env tier = HasTier env' tier" by metis
qed

section \<open>A successful assembly\<close>

lemma asm_gather_Inr:
  assumes "asm_gather a req run project = Inr (wi, meta, recall, arts, gh)"
  shows "src_WorkItem (asm_sources a) (run_WorkItemRef run) (case rq_Existing req of None \<Rightarrow> [] | Some s \<Rightarrow> sn_WorkItemRevision s) = Inr wi"
    "src_ProjectMeta (asm_sources a) (run_ProjectRef run) (case rq_Existing req of None \<Rightarrow> [] | Some s \<Rightarrow> sn_GoalRevision s) = Inr meta"
    "src_MemoryRecall (asm_sources a) (rq_TeamID req) (project_UID project) (recallQueryText wi)
       (case rq_Existing req of None \<Rightarrow> [] | Some s \<Rightarrow> sn_MemoryDocIDs s) (asm_TopK a) = Inr recall"
    "src_Artifacts (asm_sources a) (run_UID run) = Inr arts"
    "src_GitHubDetails (asm_sources a) (run_ProjectRef run) (run_WorkItemRef run) = Inr gh"
  using assms unfolding asm_gather_def Let_def by (simp_all split: sum.splits)

lemma Assemble_Inr:
  assumes "Assemble U a req = Inr res"
  obtains run agent project wi meta recall arts gh budget env budgeted where
    "rq_Run req = Some run" "rq_Agent req = Some agent" "rq_Project req = Some project"
    "run_WorkItemRef run \<noteq> []" "0 < rq_ContextWindow req"
    "src_WorkItem (asm_sources a) (run_WorkItemRef run) (case rq_Existing req of None \<Rightarrow> [] | Some s \<Rightarrow> sn_WorkItemRevision s) = Inr wi"
    "src_ProjectMeta (asm_sources a) (run_ProjectRef run) (case rq_Existing req of None \<Rightarrow> [] | Some s \<Rightarrow> sn_GoalRevision s) = Inr meta"
    "src_MemoryRecall (asm_sources a) (rq_TeamID req) (project_UID project) (recallQueryText wi)
       (case rq_Existing req of None \<Rightarrow> [] | Some s \<Rightarrow> sn_MemoryDocIDs s) (asm_TopK a) = Inr recall"
    "src_Artifacts (asm_sources a) (run_UID run) = Inr arts"
    "src_GitHubDetails (asm_sources a) (run_ProjectRef run) (run_WorkItemRef run) = Inr gh"
    "env = buildEnvelope (rq_RolePrompt req) (rq_TeamRoster req) wi meta recall arts gh (run_Inputs run)"
    "asm_budget req agent project = Inr budget"
    "ApplyBudget U (Some env) budget (rq_ContextWindow req) (OverheadTokens U (NewInjection env)) = Inr budgeted"
    "res = \<lparr>ar_Envelope = budgeted, ar_Budget = budget,
       ar_Snapshot = pinRecallIDs (buildSnapshot wi meta budget (rq_ContextWindow req)) recall budgeted, ar_Injection = NewInjection budgeted\<rparr>"
proof -
  obtain run agent project where r: "rq_Run req = Some run" "rq_Agent req = Some agent" "rq_Project req = Some project"
      "run_WorkItemRef run \<noteq> []" "0 < rq_ContextWindow req"
    using assms by (simp add: Assemble_def split: option.splits if_splits)
  obtain wi meta recall arts gh where g: "asm_gather a req run project = Inr (wi, meta, recall, arts, gh)"
    using assms r by (simp add: Assemble_def split: sum.splits) (metis prod_cases5)
  obtain budget where b: "asm_budget req agent project = Inr budget"
    using assms r g by (simp add: Assemble_def Let_def split: sum.splits)
  have "asm_finish U req (buildEnvelope (rq_RolePrompt req) (rq_TeamRoster req) wi meta recall arts gh (run_Inputs run)) wi meta recall budget = Inr res"
    using assms r g b by (simp add: Assemble_def Let_def)
  then show ?thesis
    using that [OF r asm_gather_Inr [OF g] refl b] by (simp add: asm_finish_def split: sum.splits)
qed

end
