(* ===== verification/Context_Resume.thy ===== *)
theory Context_Resume
  imports Context_Laws
begin

text \<open>
  Assembling from a snapshot (the resume arm of pkg/contextasm/assembler.go). A relevance score
  orders the recall tier of an envelope and is used for nothing else, so a pinned recall that
  returns the documents of the fresh one in their order, but under other scores, gives the same
  payload, budget and snapshot, and an envelope that differs in scores only.
\<close>

section \<open>Scores order the recall and nothing else\<close>

definition unscored :: "Element \<Rightarrow> Element" where
  "unscored el = el\<lparr>el_Score := 0\<rparr>"

lemma unscored_sel [simp]:
  "el_Tier (unscored el) = el_Tier el" "el_Kind (unscored el) = el_Kind el" "el_Content (unscored el) = el_Content el"
  "el_Provenance (unscored el) = el_Provenance el" "el_Truncated (unscored el) = el_Truncated el"
  by (simp_all add: unscored_def)

lemma unscored_class [simp]:
  "isMustInclude (unscored el) = isMustInclude el" "isProjectMeta (unscored el) = isProjectMeta el"
  "isUntrustedRecall (unscored el) = isUntrustedRecall el" "isUntrustedExternal (unscored el) = isUntrustedExternal el"
  by (simp_all add: isMustInclude_def isProjectMeta_def isUntrustedRecall_def isUntrustedExternal_def)

lemma unscored_cut: "unscored (el\<lparr>el_Content := c, el_Truncated := t\<rparr>) = (unscored el)\<lparr>el_Content := c, el_Truncated := t\<rparr>"
  by (cases el) (simp add: unscored_def)

lemma fill_tier_unscored:
  assumes "\<And>el. M (unscored el) = M el"
  shows "fill_tier U M cap t r (map unscored els) =
    (map unscored (fst (fill_tier U M cap t r els)), snd (fill_tier U M cap t r els))"
  by (induction els arbitrary: t r) (simp_all add: assms Let_def case_prod_beta unscored_cut)

lemma ApplyBudget_unscored:
  assumes "ApplyBudget U (Some els) b W ov = Inr out"
  shows "ApplyBudget U (Some (map unscored els)) b W ov = Inr (map unscored out)"
proof -
  have "must_tokens U (map unscored els) = must_tokens U els" by (simp add: must_tokens_def filter_map comp_def)
  then show ?thesis using assms
    by (auto simp: ApplyBudget_def Let_def fill_tier_unscored case_prod_beta split: if_splits)
qed

lemma ApplyBudget_error_unscored:
  "ApplyBudget U (Some els) b W ov = Inl e \<Longrightarrow> ApplyBudget U (Some (map unscored els)) b W ov = Inl e"
  by (auto simp: ApplyBudget_def Let_def must_tokens_def filter_map comp_def case_prod_beta split: if_splits)

lemma budget_of_unscored:
  assumes "map unscored els' = map unscored els" and "ApplyBudget U (Some els) b W ov = Inr out"
  shows "\<exists>out'. ApplyBudget U (Some els') b W ov = Inr out' \<and> map unscored out' = map unscored out"
proof (cases "ApplyBudget U (Some els') b W ov")
  case (Inl e)
  from ApplyBudget_error_unscored [OF this] show ?thesis using ApplyBudget_unscored [OF assms(2)] assms(1) by simp
next
  case (Inr out')
  from ApplyBudget_unscored [OF this] show ?thesis using ApplyBudget_unscored [OF assms(2)] assms(1) Inr by simp
qed

lemma ElementsInTier_unscored: "ElementsInTier (map unscored env) tier = map unscored (ElementsInTier env tier)"
  by (simp add: ElementsInTier_def filter_map comp_def)

lemma NewInjection_unscored: "NewInjection (map unscored env) = NewInjection env"
proof -
  have l: "inject_line tier (unscored el) = inject_line tier el" for tier el by (simp add: inject_line_def)
  have "inject_tiers (map unscored env) tiers = inject_tiers env tiers" for tiers
    by (induction tiers) (simp_all add: ElementsInTier_unscored Let_def l)
  then show ?thesis by (simp add: NewInjection_def)
qed

lemma pinRecallIDs_unscored: "pinRecallIDs snap recall (map unscored env) = pinRecallIDs snap recall env"
  by (simp add: pinRecallIDs_def Let_def filter_map comp_def)

lemma pinRecallIDs_docs:
  assumes "map rd_ID recall' = map rd_ID recall" and "map rd_Content recall' = map rd_Content recall"
  shows "pinRecallIDs snap recall' env = pinRecallIDs snap recall env"
proof -
  have "map rd_ID (filter (\<lambda>r. rd_Content r \<in> K) recall') = map rd_ID (filter (\<lambda>r. rd_Content r \<in> K) recall)" for K
    using assms
  proof (induction recall' arbitrary: recall)
    case (Cons a as)
    then show ?case by (cases recall) auto
  qed simp
  then show ?thesis by (simp add: pinRecallIDs_def Let_def)
qed

lemma sorted_pairs:
  assumes "sorted (map f xs)" and "\<And>k. sorted (map g (filter (\<lambda>x. f x = k) xs))"
  shows "sorted (map (\<lambda>x. (f x, g x)) xs)"
  using assms
proof (induction xs)
  case (Cons x xs)
  have "sorted (map g (filter (\<lambda>x. f x = k) xs))" for k using Cons.prems(2) [of k] by (cases "f x = k") auto
  then have IH: "sorted (map (\<lambda>x. (f x, g x)) xs)" using Cons by auto
  have "(f x, g x) \<le> (f y, g y)" if "y \<in> set xs" for y
    using that Cons.prems(1) Cons.prems(2) [of "f x"] by (cases "f y = f x") auto
  with IH show ?case by auto
qed simp

text \<open>Recall that comes in relevance order stays in the order in which it was added.\<close>

lemma env_build_ranked:
  assumes "sorted (map (\<lambda>el. - el_Score el) (ElementsInTier els TierUntrustedRecall))"
  shows "env_build els = sort_key (\<lambda>el. tier_order (el_Tier el)) els"
proof -
  let ?t = "\<lambda>el. tier_order (el_Tier el)"
  let ?ys = "sort_key ?t els"
  have stable: "filter (\<lambda>el. el_Tier el = tier) ?ys = filter (\<lambda>el. el_Tier el = tier) els" for tier
    using sort_key_stable [of ?t "tier_order tier" els] by simp
  show ?thesis unfolding env_build_def
  proof (rule properties_for_sort_key)
    show "mset ?ys = mset els" by simp
    show "filter (\<lambda>x. env_key k = env_key x) ?ys = filter (\<lambda>x. env_key k = env_key x) els" for k
    proof -
      have "filter (\<lambda>x. env_key k = env_key x) xs = filter (\<lambda>x. env_key k = env_key x) (filter (\<lambda>el. el_Tier el = el_Tier k) xs)" for xs
        by (auto simp: env_key_def intro: filter_cong)
      then show ?thesis by (metis stable)
    qed
    have "sorted (map (\<lambda>x. (?t x, if el_Tier x = TierUntrustedRecall then - el_Score x else 0)) ?ys)"
    proof (rule sorted_pairs)
      show "sorted (map ?t ?ys)" by simp
      fix k
      show "sorted (map (\<lambda>x. if el_Tier x = TierUntrustedRecall then - el_Score x else 0) (filter (\<lambda>x. ?t x = k) ?ys))"
      proof (cases "k = 1")
        case True
        then have "map (\<lambda>x. if el_Tier x = TierUntrustedRecall then - el_Score x else 0) (filter (\<lambda>x. ?t x = k) ?ys) =
            map (\<lambda>el. - el_Score el) (filter (\<lambda>el. el_Tier el = TierUntrustedRecall) ?ys)"
          by (auto intro: map_cong)
        then show ?thesis using assms stable by (simp add: ElementsInTier_def)
      next
        case False
        then have "map (\<lambda>x. if el_Tier x = TierUntrustedRecall then - el_Score x else (0::rat)) (filter (\<lambda>x. ?t x = k) ?ys) =
            map (\<lambda>_. 0) (filter (\<lambda>x. ?t x = k) ?ys)" by (intro map_cong) auto
        then show ?thesis by (simp add: map_replicate_const)
      qed
    qed
    then show "sorted (map env_key ?ys)" by (simp only: env_key_def [abs_def])
  qed
qed

lemma insort_map: "insort_key f (g x) (map g xs) = map g (insort_key (\<lambda>x. f (g x)) x xs)"
  by (induction xs) simp_all

lemma sort_key_map: "sort_key f (map g xs) = map g (sort_key (\<lambda>x. f (g x)) xs)"
  by (induction xs) (simp_all add: insort_map)

section \<open>Recalls of the same documents\<close>

definition same_doc :: "RecallDoc \<Rightarrow> RecallDoc \<Rightarrow> bool" where
  "same_doc d d' \<longleftrightarrow> d\<lparr>rd_Score := 0\<rparr> = d'\<lparr>rd_Score := 0\<rparr>"

abbreviation ranked :: "RecallDoc list \<Rightarrow> bool" where
  "ranked docs \<equiv> sorted (map (\<lambda>d. - rd_Score d) docs)"

lemma same_doc_sel:
  assumes "list_all2 same_doc docs docs'"
  shows "map rd_ID docs = map rd_ID docs'" "map rd_Content docs = map rd_Content docs'"
    "map (\<lambda>d. d\<lparr>rd_Score := 0\<rparr>) docs = map (\<lambda>d. d\<lparr>rd_Score := 0\<rparr>) docs'"
proof -
  have "same_doc d d' \<Longrightarrow> rd_ID d = rd_ID d' \<and> rd_Content d = rd_Content d' \<and> d\<lparr>rd_Score := 0\<rparr> = d'\<lparr>rd_Score := 0\<rparr>" for d d'
    by (cases d; cases d') (simp add: same_doc_def)
  with assms show "map rd_ID docs = map rd_ID docs'" "map rd_Content docs = map rd_Content docs'"
      "map (\<lambda>d. d\<lparr>rd_Score := 0\<rparr>) docs = map (\<lambda>d. d\<lparr>rd_Score := 0\<rparr>) docs'"
    by (induction rule: list_all2_induct; simp)+
qed

lemma unscored_foldl:
  assumes "\<And>b x. map unscored (f b x) = g (map unscored b) (h x)"
  shows "map unscored (foldl f b xs) = foldl g (map unscored b) (map h xs)"
  by (induction xs arbitrary: b) (simp_all add: assms)

lemma unscored_env_add: "map unscored (env_add t k c p s b) = env_add t k c p 0 (map unscored b)"
  by (simp add: env_add_def unscored_def)

lemmas unscored_adders = builder_defs unscored_env_add

lemma unscored_foldl_same:
  assumes "\<And>b x. map unscored (f b x) = f (map unscored b) x"
  shows "map unscored (foldl f b xs) = foldl f (map unscored b) xs"
  by (induction xs arbitrary: b) (simp_all add: assms)

lemma unscored_recall: "map unscored (add_recall docs b) = add_recall (map (\<lambda>d. d\<lparr>rd_Score := 0\<rparr>) docs) (map unscored b)"
  unfolding add_recall_def by (rule unscored_foldl) (simp add: unscored_adders)

lemma unscored_artifacts: "map unscored (add_artifacts arts b) = add_artifacts arts (map unscored b)"
  unfolding add_artifacts_def by (rule unscored_foldl_same) (simp add: unscored_adders)

lemma unscored_comments: "map unscored (add_github_comments cs b) = add_github_comments cs (map unscored b)"
  unfolding add_github_comments_def by (rule unscored_foldl_same) (simp add: unscored_adders)

lemma unscored_github: "map unscored (add_github gh b) = add_github gh (map unscored b)"
  by (simp add: add_github_def Let_def unscored_adders unscored_comments)

lemma recall_tier_of_recall:
  assumes "ElementsInTier b TierUntrustedRecall = []"
  shows "ElementsInTier (add_artifacts arts (add_github gh (add_recall docs b))) TierUntrustedRecall =
    map (\<lambda>r. \<lparr>el_Tier = TierUntrustedRecall, el_Kind = ''recall'', el_Content = rd_Content r,
       el_Provenance = \<lparr>pv_Source = ''memory'', pv_Author = rd_Author r, pv_WrittenAt = rd_WrittenAt r, pv_Scope = rd_Scope r\<rparr>,
       el_Score = rd_Score r, el_Truncated = False\<rparr>) docs"
proof -
  have a: "ElementsInTier (add_artifacts arts b) TierUntrustedRecall = ElementsInTier b TierUntrustedRecall" for b
    unfolding add_artifacts_def by (rule tier_foldl) (simp add: builder_defs)
  have c: "ElementsInTier (add_github_comments cs b) TierUntrustedRecall = ElementsInTier b TierUntrustedRecall" for cs b
    unfolding add_github_comments_def by (rule tier_foldl) (simp add: builder_defs)
  have g: "ElementsInTier (add_github gh b) TierUntrustedRecall = ElementsInTier b TierUntrustedRecall" for b
    by (simp add: add_github_def Let_def c builder_defs)
  show ?thesis using assms by (simp add: a g recall_elements)
qed

lemma no_recall_before:
  "ElementsInTier (add_discussion d (add_meta meta inputs (add_task rp tr wi meta []))) TierUntrustedRecall = []"
proof -
  have f: "ElementsInTier (foldl f b xs) TierUntrustedRecall = ElementsInTier b TierUntrustedRecall"
    if "\<And>b x. ElementsInTier (f b x) TierUntrustedRecall = ElementsInTier b TierUntrustedRecall" for f b and xs :: "'a list"
    using that by (rule tier_foldl)
  have t: "ElementsInTier (add_task rp tr wi meta []) TierUntrustedRecall = []"
    by (simp add: add_task_def Let_def builder_defs tier_foldl case_prod_beta) (simp add: ElementsInTier_def)
  have m: "ElementsInTier (add_meta meta inputs b) TierUntrustedRecall = ElementsInTier b TierUntrustedRecall" for b
    by (simp add: add_meta_def Let_def builder_defs tier_foldl case_prod_beta)
  have "ElementsInTier (add_discussion d b) TierUntrustedRecall = ElementsInTier b TierUntrustedRecall" for b
    by (cases d) (simp_all add: add_discussion_def Let_def builder_defs tier_foldl)
  with t m show ?thesis by simp
qed

text \<open>Two ranked recalls of the same documents give envelopes that differ in scores only.\<close>

lemma buildEnvelope_unscored:
  assumes "list_all2 same_doc docs docs'" and "ranked docs" and "ranked docs'"
  shows "map unscored (buildEnvelope rp tr wi meta docs arts gh inputs) = map unscored (buildEnvelope rp tr wi meta docs' arts gh inputs)"
proof -
  let ?b = "add_discussion (wi_Discussion wi) (add_meta meta inputs (add_task rp tr wi meta []))"
  let ?pre = "\<lambda>docs. add_artifacts arts (add_github gh (add_recall docs ?b))"
  have b: "map unscored (buildEnvelope rp tr wi meta ds arts gh inputs) =
      sort_key (\<lambda>el. tier_order (el_Tier el)) (map unscored (?pre ds))" if "ranked ds" for ds
  proof -
    have "sorted (map (\<lambda>el. - el_Score el) (ElementsInTier (?pre ds) TierUntrustedRecall))"
      using that by (simp add: recall_tier_of_recall [OF no_recall_before] comp_def)
    then show ?thesis by (simp add: buildEnvelope_def env_build_ranked sort_key_map)
  qed
  have "map unscored (?pre docs) = map unscored (?pre docs')"
    by (simp add: unscored_artifacts unscored_github unscored_recall same_doc_sel(3) [OF assms(1)])
  then show ?thesis using b assms(2,3) by simp
qed

text \<open>
  A Run assembled from its snapshot, where the pinned recall returns the documents of the fresh
  one under other scores.
\<close>

lemma resume_up_to_scores:
  assumes A: "Assemble U a req = Inr res" and fresh: "rq_Existing req = None" and run: "rq_Run req = Some run"
    and req': "req' = req\<lparr>rq_Existing := Some (ar_Snapshot res), rq_Agent := Some agent', rq_Project := Some project'\<rparr>"
    and uid: "map_option project_UID (rq_Project req) = Some (project_UID project')"
    and item: "src_WorkItem (asm_sources a') (run_WorkItemRef run) (sn_WorkItemRevision (ar_Snapshot res)) =
      src_WorkItem (asm_sources a) (run_WorkItemRef run) []"
    and goals: "src_ProjectMeta (asm_sources a') (run_ProjectRef run) (sn_GoalRevision (ar_Snapshot res)) =
      src_ProjectMeta (asm_sources a) (run_ProjectRef run) []"
    and pinned: "\<And>p q docs. src_MemoryRecall (asm_sources a) (rq_TeamID req) p q [] (asm_TopK a) = Inr docs \<Longrightarrow>
      map rd_ID docs = sn_MemoryDocIDs (ar_Snapshot res) \<Longrightarrow>
      ranked docs \<and> (\<exists>docs'. src_MemoryRecall (asm_sources a') (rq_TeamID req) p q (map rd_ID docs) (asm_TopK a') = Inr docs' \<and>
        list_all2 same_doc docs docs' \<and> ranked docs')"
    and marker: "\<And>p q docs. src_MemoryRecall (asm_sources a) (rq_TeamID req) p q [] (asm_TopK a) = Inr docs \<Longrightarrow>
      \<forall>d \<in> set docs. rd_Content d \<noteq> truncateMarker"
    and arts: "src_Artifacts (asm_sources a') = src_Artifacts (asm_sources a)"
    and gh: "src_GitHubDetails (asm_sources a') = src_GitHubDetails (asm_sources a)"
    and whole: "\<forall>el \<in> set (ar_Envelope res). el_Tier el = TierUntrustedRecall \<longrightarrow> \<not> el_Truncated el"
  shows "\<exists>res'. Assemble U a' req' = Inr res' \<and> map unscored (ar_Envelope res') = map unscored (ar_Envelope res) \<and>
    ar_Injection res' = ar_Injection res \<and> ar_Budget res' = ar_Budget res \<and> ar_Snapshot res' = ar_Snapshot res"
  using A
proof (rule Assemble_Inr)
  fix run0 agent project w m docs ar g bud env out
  assume r: "rq_Run req = Some run0" "rq_Agent req = Some agent" "rq_Project req = Some project"
    "run_WorkItemRef run0 \<noteq> []" "0 < rq_ContextWindow req"
    "src_WorkItem (asm_sources a) (run_WorkItemRef run0) (case rq_Existing req of None \<Rightarrow> [] | Some s \<Rightarrow> sn_WorkItemRevision s) = Inr w"
    "src_ProjectMeta (asm_sources a) (run_ProjectRef run0) (case rq_Existing req of None \<Rightarrow> [] | Some s \<Rightarrow> sn_GoalRevision s) = Inr m"
    "src_MemoryRecall (asm_sources a) (rq_TeamID req) (project_UID project) (recallQueryText w)
       (case rq_Existing req of None \<Rightarrow> [] | Some s \<Rightarrow> sn_MemoryDocIDs s) (asm_TopK a) = Inr docs"
    "src_Artifacts (asm_sources a) (run_UID run0) = Inr ar"
    "src_GitHubDetails (asm_sources a) (run_ProjectRef run0) (run_WorkItemRef run0) = Inr g"
    "env = buildEnvelope (rq_RolePrompt req) (rq_TeamRoster req) w m docs ar g (run_Inputs run0)"
    "asm_budget req agent project = Inr bud"
    "ApplyBudget U (Some env) bud (rq_ContextWindow req) (OverheadTokens U (NewInjection env)) = Inr out"
    "res = \<lparr>ar_Envelope = out, ar_Budget = bud,
       ar_Snapshot = pinRecallIDs (buildSnapshot w m bud (rq_ContextWindow req)) docs out, ar_Injection = NewInjection out\<rparr>"
  let ?snap = "ar_Snapshot res"
  have rec: "src_MemoryRecall (asm_sources a) (rq_TeamID req) (project_UID project) (recallQueryText w) [] (asm_TopK a) = Inr docs"
    using r(8) fresh by simp
  have "\<forall>d \<in> set docs. rd_Content d \<noteq> truncateMarker \<and> (\<exists>el \<in> set env. el_Tier el = TierUntrustedRecall \<and> el_Content el = rd_Content d)"
    using marker [OF rec] recall_in_envelope unfolding r(11) by blast
  then have ids: "sn_MemoryDocIDs ?snap = map rd_ID docs"
    using pinned_all [OF budget_cut [OF r(13)]] whole r(14) by simp
  obtain docs' where d: "ranked docs" "list_all2 same_doc docs docs'" "ranked docs'"
      "src_MemoryRecall (asm_sources a') (rq_TeamID req) (project_UID project) (recallQueryText w) (map rd_ID docs) (asm_TopK a') = Inr docs'"
    using pinned [OF rec ids [symmetric]] by blast
  define env' where "env' = buildEnvelope (rq_RolePrompt req) (rq_TeamRoster req) w m docs' ar g (run_Inputs run0)"
  have un: "map unscored env' = map unscored env"
    using buildEnvelope_unscored [OF d(2,1,3)] unfolding r(11) env'_def by simp
  then have inj: "NewInjection env' = NewInjection env" using NewInjection_unscored by metis
  obtain out' where o: "ApplyBudget U (Some env') bud (rq_ContextWindow req) (OverheadTokens U (NewInjection env')) = Inr out'"
      "map unscored out' = map unscored out"
    using budget_of_unscored [OF un r(13)] inj by auto
  have b: "Option.bind (Some ?snap) sn_Budget = sn_Budget (buildSnapshot w m bud (rq_ContextWindow req))"
    "sn_Budget (buildSnapshot w m bud (rq_ContextWindow req)) \<noteq> None"
    using r(14) by (simp_all add: pinRecallIDs_def Let_def buildSnapshot_def)
  have bud': "asm_budget req' agent' project' = Inr bud"
    using b budget_round_trip [of w m bud "rq_ContextWindow req"] unfolding asm_budget_def req' by (auto simp: buildSnapshot_def)
  have eqs: "run0 = run" "project_UID project' = project_UID project" using run r(1,3) uid by auto
  have out: "NewInjection out' = NewInjection out" using o(2) NewInjection_unscored by metis
  have pin: "pinRecallIDs s docs' out' = pinRecallIDs s docs out" for s
    using pinRecallIDs_docs [OF same_doc_sel(1,2) [OF d(2), THEN sym]] o(2) pinRecallIDs_unscored by metis
  have "Assemble U a' req' = Inr \<lparr>ar_Envelope = out', ar_Budget = bud,
      ar_Snapshot = pinRecallIDs (buildSnapshot w m bud (rq_ContextWindow req)) docs' out', ar_Injection = NewInjection out'\<rparr>"
    using r d(4) ids bud' fresh item goals arts gh o(1)
    by (simp add: Assemble_def asm_gather_def asm_finish_def req' eqs Let_def env'_def [unfolded eqs])
  then show ?thesis using o(2) out pin r(14) by simp
qed

end
