(* ===== verification/Memory_Recall.thy ===== *)
theory Memory_Recall
  imports Context_Resume Prod_Db
begin

text \<open>
  The memory recall behind the context assembler: the two searches of the vector store
  (internal/memory/store.go), the untrusted envelope and the two recall arms of the read service
  (untrusted.go, recall.go), and the MemoryRecall source of the operator
  (pkg/controller/contextsource/source.go). The pinned arm has no ranking: it returns the
  requested records in the requested order at distance zero.
\<close>

section \<open>Records and the search\<close>

record MemRecord =
  mr_ID :: string
  mr_SquadID :: string
  mr_ProjectID :: "string option"
  mr_PrincipalID :: string
  mr_RunID :: "string option"
  mr_AgentID :: "string option"
  mr_Kind :: string
  mr_Content :: string
  mr_Embedding :: "rat list"
  mr_CreatedAt :: instant
  mr_InvalidatedAt :: "instant option"
  mr_Provenance :: "json option"

record SearchQuery =
  sq_SquadID :: string
  sq_ProjectID :: "string option"
  sq_Kind :: "string option"
  sq_ReaderAgentID :: "string option"
  sq_ReaderPrincipal :: "string option"
  sq_Embedding :: "rat list"
  sq_Limit :: int

record SearchHit =
  sh_Record :: MemRecord
  sh_Distance :: rat

text \<open>
  What the service is given from outside: the embedder, the cosine distance of pgvector, the
  rows an approximate index scan visits, the rendering and the parsing of times, the rendering of
  jsonb objects and lists, the configured dimension, and which statements fail.
\<close>

record MemoryLib =
  ml_embed :: "string \<Rightarrow> string + rat list"
  ml_dist :: "rat list \<Rightarrow> rat list \<Rightarrow> rat"
  ml_scan :: "MemRecord list \<Rightarrow> MemRecord list"
  ml_format :: "instant \<Rightarrow> string"
  ml_parse :: "string \<Rightarrow> instant option"
  ml_render :: "jval \<Rightarrow> string"
  ml_dim :: nat
  ml_fault :: "string \<Rightarrow> bool"

text \<open>A field of a jsonb column as text: a key that is absent or null is NULL.\<close>

definition json_text :: "MemoryLib \<Rightarrow> json option \<Rightarrow> string \<Rightarrow> string option" where
  "json_text L p k =
     (case Option.bind p (\<lambda>d. map_of d k) of
        None \<Rightarrow> None
      | Some v \<Rightarrow>
          (case v of
             JNull \<Rightarrow> None
           | JStr s \<Rightarrow> Some s
           | JInt n \<Rightarrow> Some (int_str n)
           | JBool b \<Rightarrow> Some (if b then ''true'' else ''false'')
           | _ \<Rightarrow> Some (ml_render L v)))"

text \<open>A query parameter that is NULL does not narrow; a NULL column matches no narrowing value.\<close>

definition narrows :: "string option \<Rightarrow> string option \<Rightarrow> bool" where
  "narrows param column \<longleftrightarrow> param = None \<or> column = param"

definition party_visible :: "MemoryLib \<Rightarrow> SearchQuery \<Rightarrow> MemRecord \<Rightarrow> bool" where
  "party_visible L q r \<longleftrightarrow>
     (let text = json_text L (mr_Provenance r) in
      mr_Kind r \<noteq> ''discussion'' \<or> text ''audience'' = None \<or> text ''audience'' = Some ''party'' \<or>
      (case sq_ReaderAgentID q of None \<Rightarrow> False | Some a \<Rightarrow> text ''audience'' = Some (''direct:'' @ a) \<or> text ''author_agent_id'' = Some a) \<or>
      (case sq_ReaderPrincipal q of None \<Rightarrow> False | Some p \<Rightarrow> text ''author_principal'' = Some p))"

definition in_scope :: "SearchQuery \<Rightarrow> MemRecord \<Rightarrow> bool" where
  "in_scope q r \<longleftrightarrow> mr_SquadID r = sq_SquadID q \<and> mr_InvalidatedAt r = None \<and>
     narrows (sq_ProjectID q) (mr_ProjectID r) \<and> narrows (sq_Kind q) (Some (mr_Kind r))"

definition PgVectorStore_Search :: "MemoryLib \<Rightarrow> MemRecord list \<Rightarrow> SearchQuery \<Rightarrow> string + SearchHit list" where
  "PgVectorStore_Search L tbl q =
     (if sq_SquadID q = [] then Inl (''squad_id is required '' @ em_dash @ '' semantic search is scoped to the tenancy root (AC3)'')
      else if length (sq_Embedding q) \<noteq> ml_dim L then Inl (''query embedding dimension '' @ nat_str (length (sq_Embedding q)) @ '' != configured embedder dimension '' @ nat_str (ml_dim L))
      else
        let limit = (if sq_Limit q \<le> 0 then 10 else sq_Limit q) in
        if ml_fault L ''query'' then Inl ''semantic search''
        else if ml_fault L ''scan'' then Inl ''scan search hit''
        else if ml_fault L ''iterate'' then Inl ''iterate search hits''
        else Inr (take (nat limit) (sort_key sh_Distance
               (map (\<lambda>r. \<lparr>sh_Record = r, sh_Distance = ml_dist L (mr_Embedding r) (sq_Embedding q)\<rparr>)
                  (filter (\<lambda>r. in_scope q r \<and> party_visible L q r) (ml_scan L tbl))))))"

definition array_position :: "string list \<Rightarrow> string \<Rightarrow> nat" where
  "array_position ids i = length (takeWhile (\<lambda>j. j \<noteq> i) ids)"

definition PgVectorStore_SearchByIDs :: "MemoryLib \<Rightarrow> MemRecord list \<Rightarrow> SearchQuery \<Rightarrow> string list \<Rightarrow> string + SearchHit list" where
  "PgVectorStore_SearchByIDs L tbl q ids =
     (if sq_SquadID q = [] then Inl (''search by ids: squad_id is required '' @ em_dash @ '' even the pinned path is tenancy-scoped (AC1)'')
      else if ids = [] then Inr []
      else if ml_fault L ''by ids'' then Inl ''search by ids''
      else if ml_fault L ''by ids scan'' then Inl ''scan by-ids hit''
      else if ml_fault L ''by ids iterate'' then Inl ''iterate by-ids hits''
      else Inr (map (\<lambda>r. \<lparr>sh_Record = r, sh_Distance = 0\<rparr>)
             (sort_key (\<lambda>r. array_position ids (mr_ID r)) (filter (\<lambda>r. in_scope q r \<and> mr_ID r \<in> set ids) tbl))))"

section \<open>The untrusted envelope\<close>

record MemAuthor =
  ma_Principal :: string
  ma_AgentID :: "string option"
  ma_IsAgent :: bool
  ma_RunID :: "string option"

record MemEnvelope =
  me_Content :: string
  me_Author :: MemAuthor
  me_WrittenAt :: instant
  me_TeamID :: string
  me_ProjectID :: "string option"
  me_Trust :: string

text \<open>
  Decoding a provenance document into a struct: a field of another type is an error, an absent
  or null one is the zero value. Keys are spelled as the writers spell them, and the times of a
  provenance document are strings, as the writers format them.
\<close>

definition has_type :: "(jval \<Rightarrow> bool) \<Rightarrow> json \<Rightarrow> string \<Rightarrow> bool" where
  "has_type ok p k \<longleftrightarrow> (case map_of p k of None \<Rightarrow> True | Some JNull \<Rightarrow> True | Some v \<Rightarrow> ok v)"

definition decodes :: "string list \<Rightarrow> string list \<Rightarrow> json \<Rightarrow> bool" where
  "decodes strs ints p \<longleftrightarrow>
     list_all (has_type (\<lambda>v. case v of JStr _ \<Rightarrow> True | _ \<Rightarrow> False) p) strs \<and>
     list_all (has_type (\<lambda>v. case v of JInt _ \<Rightarrow> True | _ \<Rightarrow> False) p) ints"

definition str_field :: "json \<Rightarrow> string \<Rightarrow> string" where
  "str_field p k = (case map_of p k of Some (JStr s) \<Rightarrow> s | _ \<Rightarrow> [])"

definition ptr_field :: "json \<Rightarrow> string \<Rightarrow> string option" where
  "ptr_field p k = (case map_of p k of Some (JStr s) \<Rightarrow> Some s | _ \<Rightarrow> None)"

definition discussion_decodes :: "json \<Rightarrow> bool" where
  "discussion_decodes = decodes [''source'', ''message_id'', ''thread_id'', ''author_principal'', ''author_agent_id'', ''author_run_id'',
     ''audience'', ''kind'', ''written_at''] []"

definition handoff_decodes :: "json \<Rightarrow> bool" where
  "handoff_decodes = decodes [''source'', ''uri'', ''sha256'', ''work_item_id'', ''run_id'', ''author_principal'', ''author_agent_id'', ''written_at'']
     [''audit_id'', ''fence_token'']"

definition work_item_decodes :: "json \<Rightarrow> bool" where
  "work_item_decodes = decodes [''source'', ''work_item_id'', ''state'', ''author_principal'', ''created_at'', ''written_at''] [''comment_count'']"

definition memory_buildEnvelope :: "MemoryLib \<Rightarrow> SearchHit \<Rightarrow> MemEnvelope" where
  "memory_buildEnvelope L h =
     (let r = sh_Record h;
          agent_of = (\<lambda>a. a \<noteq> None);
          env = (\<lambda>author stamp. \<lparr>me_Content = mr_Content r, me_Author = author, me_WrittenAt = stamp, me_TeamID = mr_SquadID r,
                   me_ProjectID = mr_ProjectID r, me_Trust = ''untrusted''\<rparr>);
          written = (\<lambda>p. case ml_parse L (str_field p ''written_at'') of Some t \<Rightarrow> t | None \<Rightarrow> mr_CreatedAt r);
          native = env \<lparr>ma_Principal = mr_PrincipalID r, ma_AgentID = mr_AgentID r, ma_IsAgent = agent_of (mr_AgentID r), ma_RunID = mr_RunID r\<rparr>
                     (mr_CreatedAt r)
      in case mr_Provenance r of
           None \<Rightarrow> native
         | Some p \<Rightarrow>
             if mr_Kind r = ''discussion'' \<and> discussion_decodes p \<and> str_field p ''source'' = ''discussion''
             then env \<lparr>ma_Principal = str_field p ''author_principal'', ma_AgentID = ptr_field p ''author_agent_id'',
                       ma_IsAgent = agent_of (ptr_field p ''author_agent_id''), ma_RunID = ptr_field p ''author_run_id''\<rparr> (written p)
             else if mr_Kind r = ''handoff-mirror'' \<and> handoff_decodes p \<and> str_field p ''source'' = ''handoff''
             then env \<lparr>ma_Principal = str_field p ''author_principal'', ma_AgentID = ptr_field p ''author_agent_id'',
                       ma_IsAgent = agent_of (ptr_field p ''author_agent_id''), ma_RunID = Some (str_field p ''run_id'')\<rparr> (written p)
             else if mr_Kind r = ''work-item'' \<and> work_item_decodes p \<and> str_field p ''source'' = ''work-item''
             then env \<lparr>ma_Principal = str_field p ''author_principal'', ma_AgentID = None, ma_IsAgent = False, ma_RunID = None\<rparr> (written p)
             else native)"

section \<open>The two arms of a recall\<close>

record RecallHit =
  rh_RecordID :: string
  rh_Distance :: rat
  rh_Envelope :: MemEnvelope

definition readHits :: "MemoryLib \<Rightarrow> MemRecord list \<Rightarrow> SearchQuery \<Rightarrow> string \<Rightarrow> string + SearchHit list" where
  "readHits L tbl q queryText =
     (if sq_SquadID q = [] then Inl ''read: caller team scope is required (server-authenticated, never widened by a request arg)''
      else case ml_embed L queryText of
        Inl e \<Rightarrow> Inl (''embed query: '' @ e)
      | Inr vec \<Rightarrow> PgVectorStore_Search L tbl (q\<lparr>sq_Embedding := vec\<rparr>))"

definition recall_query :: "string \<Rightarrow> string option \<Rightarrow> int \<Rightarrow> SearchQuery" where
  "recall_query teamID projectID limit = \<lparr>sq_SquadID = teamID, sq_ProjectID = projectID, sq_Kind = None,
     sq_ReaderAgentID = None, sq_ReaderPrincipal = None, sq_Embedding = [], sq_Limit = limit\<rparr>"

definition ScopedRecall :: "MemoryLib \<Rightarrow> MemRecord list \<Rightarrow> string \<Rightarrow> string option \<Rightarrow> string \<Rightarrow> int \<Rightarrow> string + RecallHit list" where
  "ScopedRecall L tbl teamID projectID queryText topK =
     (let topK = (if topK \<le> 0 then 10 else if topK > 100 then 100 else topK) in
      case readHits L tbl (recall_query teamID projectID topK) queryText of
        Inl e \<Rightarrow> Inl e
      | Inr hits \<Rightarrow> Inr (map (\<lambda>h. \<lparr>rh_RecordID = mr_ID (sh_Record h), rh_Distance = sh_Distance h, rh_Envelope = memory_buildEnvelope L h\<rparr>) hits))"

definition ScopedRecallByIDs :: "MemoryLib \<Rightarrow> MemRecord list \<Rightarrow> string \<Rightarrow> string option \<Rightarrow> string list \<Rightarrow> string + RecallHit list" where
  "ScopedRecallByIDs L tbl teamID projectID ids =
     (if teamID = [] then Inl ''recall by ids: caller team scope is required (server-authenticated, never widened by a request arg)''
      else if ids = [] then Inr []
      else case PgVectorStore_SearchByIDs L tbl (recall_query teamID projectID 0) ids of
        Inl e \<Rightarrow> Inl e
      | Inr hits \<Rightarrow> Inr (map (\<lambda>h. \<lparr>rh_RecordID = mr_ID (sh_Record h), rh_Distance = 0, rh_Envelope = memory_buildEnvelope L h\<rparr>) hits))"

definition Source_doc :: "MemoryLib \<Rightarrow> RecallHit \<Rightarrow> RecallDoc" where
  "Source_doc L h =
     (let env = rh_Envelope h in
      \<lparr>rd_ID = rh_RecordID h, rd_Content = me_Content env, rd_Author = ma_Principal (me_Author env),
       rd_Scope = me_TeamID env @ (case me_ProjectID env of None \<Rightarrow> [] | Some p \<Rightarrow> ''/'' @ p),
       rd_WrittenAt = ml_format L (me_WrittenAt env), rd_Score = - rh_Distance h\<rparr>)"

text \<open>The memory service of the operator may be absent, which leaves the recall tier empty.\<close>

definition Source_MemoryRecall ::
  "(MemoryLib \<times> MemRecord list) option \<Rightarrow> string \<Rightarrow> string \<Rightarrow> string \<Rightarrow> string list \<Rightarrow> int \<Rightarrow> string + RecallDoc list" where
  "Source_MemoryRecall memory teamID projectID queryText ids topK =
     (case memory of
        None \<Rightarrow> Inr []
      | Some (L, tbl) \<Rightarrow>
          let proj = (if projectID \<noteq> [] then Some projectID else None) in
          if ids = [] \<and> queryText = [] then Inr []
          else case (if ids \<noteq> [] then ScopedRecallByIDs L tbl teamID proj ids else ScopedRecall L tbl teamID proj queryText topK) of
            Inl e \<Rightarrow> Inl (''scoped recall: '' @ e)
          | Inr hits \<Rightarrow> Inr (map (Source_doc L) hits))"

section \<open>A pinned recall returns what was recalled\<close>

text \<open>
  The memory at resume: the same time formats, no statement of the pinned read fails, and every
  record that was live when the Run was assembled is still there and still live. Records may have
  been added.
\<close>

definition memory_kept :: "(MemoryLib \<times> MemRecord list) option \<Rightarrow> (MemoryLib \<times> MemRecord list) option \<Rightarrow> bool" where
  "memory_kept memory memory' \<longleftrightarrow>
     (case (memory, memory') of
        (None, None) \<Rightarrow> True
      | (Some (L, tbl), Some (L', tbl')) \<Rightarrow>
          ml_format L' = ml_format L \<and> ml_parse L' = ml_parse L \<and>
          \<not> ml_fault L' ''by ids'' \<and> \<not> ml_fault L' ''by ids scan'' \<and> \<not> ml_fault L' ''by ids iterate'' \<and>
          distinct (map mr_ID tbl') \<and> (\<forall>r \<in> set tbl. mr_InvalidatedAt r = None \<longrightarrow> r \<in> set tbl')
      | _ \<Rightarrow> False)"

text \<open>An index scan returns rows of the table, each once.\<close>

definition scan_ok :: "MemoryLib \<Rightarrow> MemRecord list \<Rightarrow> bool" where
  "scan_ok L tbl \<longleftrightarrow> set (ml_scan L tbl) \<subseteq> set tbl \<and> distinct (map mr_ID (ml_scan L tbl))"

lemma array_positions: "distinct ids \<Longrightarrow> map (array_position ids) ids = [0..<length ids]"
proof (induction ids)
  case (Cons i ids)
  have "map (array_position (i # ids)) ids = map (Suc \<circ> array_position ids) ids"
    using Cons.prems by (intro map_cong) (auto simp: array_position_def)
  also have "\<dots> = map Suc [0..<length ids]" using Cons by (simp add: map_map [symmetric] del: map_map)
  finally have "map (array_position (i # ids)) ids = [Suc 0..<Suc (length ids)]" by (simp only: map_Suc_upt)
  moreover have "array_position (i # ids) i = 0" by (simp add: array_position_def)
  moreover have "[0..<Suc (length ids)] = 0 # [Suc 0..<Suc (length ids)]" by (rule upt_conv_Cons) simp
  ultimately show ?case by (simp only: list.map length_Cons)
qed simp

lemma Search_hits:
  assumes "PgVectorStore_Search L tbl q = Inr hits" and "scan_ok L tbl"
  shows "sq_SquadID q \<noteq> []" "distinct (map (\<lambda>h. mr_ID (sh_Record h)) hits)" "sorted (map sh_Distance hits)"
    "\<forall>h \<in> set hits. sh_Record h \<in> set tbl \<and> in_scope q (sh_Record h)"
proof -
  let ?f = "\<lambda>r. \<lparr>sh_Record = r, sh_Distance = ml_dist L (mr_Embedding r) (sq_Embedding q)\<rparr>"
  let ?rows = "filter (\<lambda>r. in_scope q r \<and> party_visible L q r) (ml_scan L tbl)"
  let ?all = "sort_key sh_Distance (map ?f ?rows)"
  obtain n where h: "hits = take n ?all" and "sq_SquadID q \<noteq> []"
    using assms(1) by (auto simp: PgVectorStore_Search_def Let_def split: if_splits)
  show "sq_SquadID q \<noteq> []" by fact
  have "distinct (map mr_ID ?rows)" using assms(2) by (auto simp: scan_ok_def distinct_map intro: inj_on_subset)
  then have d: "distinct (map (\<lambda>h. mr_ID (sh_Record h)) (map ?f ?rows))" by (simp add: comp_def)
  have "mset (map (\<lambda>h. mr_ID (sh_Record h)) ?all) = mset (map (\<lambda>h. mr_ID (sh_Record h)) (map ?f ?rows))"
    by (simp only: mset_map mset_sort)
  from iffD2 [OF mset_eq_imp_distinct_iff [OF this] d]
  have "distinct (take n (map (\<lambda>h. mr_ID (sh_Record h)) ?all))" by (rule distinct_take)
  then show "distinct (map (\<lambda>h. mr_ID (sh_Record h)) hits)" by (simp only: h take_map)
  have "sorted (take n (map sh_Distance ?all))" by (intro sorted_wrt_take sorted_sort_key)
  then show "sorted (map sh_Distance hits)" by (simp only: h take_map)
  show "\<forall>h \<in> set hits. sh_Record h \<in> set tbl \<and> in_scope q (sh_Record h)"
    unfolding h using assms(2) by (auto simp: scan_ok_def subset_iff dest!: in_set_takeD)
qed

lemma SearchByIDs_pins:
  assumes "distinct (map mr_ID recs)" and "recs \<noteq> []" and "sq_SquadID q \<noteq> []"
    and "\<forall>r \<in> set recs. r \<in> set tbl' \<and> in_scope q r" and "distinct (map mr_ID tbl')"
    and "\<not> ml_fault L' ''by ids''" "\<not> ml_fault L' ''by ids scan''" "\<not> ml_fault L' ''by ids iterate''"
  shows "PgVectorStore_SearchByIDs L' tbl' q (map mr_ID recs) = Inr (map (\<lambda>r. \<lparr>sh_Record = r, sh_Distance = 0\<rparr>) recs)"
proof -
  let ?ids = "map mr_ID recs"
  let ?rows = "filter (\<lambda>r. in_scope q r \<and> mr_ID r \<in> set ?ids) tbl'"
  have inj: "r = r'" if "r \<in> set tbl'" "r' \<in> set tbl'" "mr_ID r = mr_ID r'" for r r'
    using that assms(5) by (auto simp: distinct_map inj_on_def)
  have "set ?rows = set recs" using assms(4) inj by fastforce
  moreover have "distinct ?rows" "distinct recs" using assms(1,5) by (simp_all add: distinct_map)
  ultimately have m: "mset ?rows = mset recs" using set_eq_iff_mset_eq_distinct by blast
  have pos: "map (\<lambda>r. array_position ?ids (mr_ID r)) recs = [0..<length recs]"
    using array_positions [OF assms(1)] by (simp add: comp_def)
  have "sort_key (\<lambda>r. array_position ?ids (mr_ID r)) ?rows = recs"
  proof (rule sort_key_inj_key_eq [OF m])
    have "inj_on (\<lambda>r. array_position ?ids (mr_ID r)) (set recs)" using pos by (metis distinct_map distinct_upt)
    then show "inj_on (\<lambda>r. array_position ?ids (mr_ID r)) (set ?rows)" using \<open>set ?rows = set recs\<close> by simp
    show "sorted (map (\<lambda>r. array_position ?ids (mr_ID r)) recs)" using pos by (metis sorted_upt)
  qed
  then show ?thesis using assms(2,3,6-8) by (simp add: PgVectorStore_SearchByIDs_def)
qed

lemma in_scope_query: "in_scope (q\<lparr>sq_Embedding := v\<rparr>) r = in_scope q r" "in_scope (recall_query t p k) r = in_scope (recall_query t p 0) r"
  by (simp_all add: in_scope_def recall_query_def)

lemma envelope_lib:
  "ml_parse L' = ml_parse L \<Longrightarrow> sh_Record h' = sh_Record h \<Longrightarrow> memory_buildEnvelope L' h' = memory_buildEnvelope L h"
  by (simp add: memory_buildEnvelope_def Let_def split: option.splits)

abbreviation fresh_doc :: "MemoryLib \<Rightarrow> SearchHit \<Rightarrow> RecallDoc" where
  "fresh_doc L h \<equiv> Source_doc L
     \<lparr>rh_RecordID = mr_ID (sh_Record h), rh_Distance = sh_Distance h, rh_Envelope = memory_buildEnvelope L h\<rparr>"

abbreviation project_scope :: "string \<Rightarrow> string option" where
  "project_scope p \<equiv> (if p \<noteq> [] then Some p else None)"

lemma Source_fresh:
  assumes "Source_MemoryRecall (Some (L, tbl)) team p q [] k = Inr docs" and "docs \<noteq> []"
  obtains hits v n where "PgVectorStore_Search L tbl ((recall_query team (project_scope p) n)\<lparr>sq_Embedding := v\<rparr>) = Inr hits"
    "docs = map (fresh_doc L) hits"
proof -
  define n where "n = (if k \<le> 0 then 10 else if k > 100 then 100 else k)"
  let ?q = "recall_query team (project_scope p) n"
  obtain hits where hits: "readHits L tbl ?q q = Inr hits" and docs: "docs = map (fresh_doc L) hits"
    using assms by (auto simp: Source_MemoryRecall_def ScopedRecall_def Let_def comp_def n_def [symmetric] split: if_splits sum.splits)
  from hits obtain v where "PgVectorStore_Search L tbl (?q\<lparr>sq_Embedding := v\<rparr>) = Inr hits"
    by (auto simp: readHits_def split: if_splits sum.splits)
  then show ?thesis using docs by (rule that)
qed

lemma Source_pins:
  assumes fresh: "Source_MemoryRecall memory team p q [] k = Inr docs"
    and kept: "memory_kept memory memory'" and scan: "\<forall>L tbl. memory = Some (L, tbl) \<longrightarrow> scan_ok L tbl"
    and some: "memory = None \<or> docs \<noteq> []"
  shows "ranked docs \<and> (\<exists>docs'. Source_MemoryRecall memory' team p q (map rd_ID docs) k' = Inr docs' \<and>
    list_all2 same_doc docs docs' \<and> ranked docs')"
proof (cases memory)
  case None
  then have "memory' = None" "docs = []" using kept fresh by (auto simp: memory_kept_def Source_MemoryRecall_def split: option.splits)
  then show ?thesis by (simp add: Source_MemoryRecall_def)
next
  case (Some Lt)
  obtain L tbl where m: "memory = Some (L, tbl)" using Some by (cases Lt) simp
  obtain L' tbl' where m': "memory' = Some (L', tbl')" and lib: "ml_format L' = ml_format L" "ml_parse L' = ml_parse L"
      and ok: "\<not> ml_fault L' ''by ids''" "\<not> ml_fault L' ''by ids scan''" "\<not> ml_fault L' ''by ids iterate''"
      and tbl': "distinct (map mr_ID tbl')" "\<forall>r \<in> set tbl. mr_InvalidatedAt r = None \<longrightarrow> r \<in> set tbl'"
    using kept m by (auto simp: memory_kept_def split: option.splits)
  let ?proj = "project_scope p"
  have ne: "docs \<noteq> []" using some m by simp
  obtain hits vec n where hits: "PgVectorStore_Search L tbl ((recall_query team ?proj n)\<lparr>sq_Embedding := vec\<rparr>) = Inr hits"
      and docs: "docs = map (fresh_doc L) hits"
    using fresh ne unfolding m by (rule Source_fresh)
  have "scan_ok L tbl" using scan m by simp
  note h = Search_hits [OF hits this]
  let ?recs = "map sh_Record hits" and ?q = "recall_query team ?proj 0"
  have ids: "map rd_ID docs = map mr_ID ?recs" by (simp add: docs  Source_doc_def Let_def comp_def)
  have r: "distinct (map mr_ID ?recs)" "?recs \<noteq> []" "sq_SquadID ?q \<noteq> []"
    using h(1,2) ne docs by (auto simp: comp_def recall_query_def)
  have "\<forall>r \<in> set ?recs. r \<in> set tbl' \<and> in_scope ?q r"
    using h(4) tbl'(2) by (auto simp: in_scope_query in_scope_def recall_query_def)
  note by_ids = SearchByIDs_pins [OF r this tbl'(1) ok]
  let ?docs' = "map (\<lambda>h. Source_doc L' \<lparr>rh_RecordID = mr_ID (sh_Record h), rh_Distance = 0,
      rh_Envelope = memory_buildEnvelope L' \<lparr>sh_Record = sh_Record h, sh_Distance = 0\<rparr>\<rparr>) hits"
  have "Source_MemoryRecall memory' team p q (map mr_ID ?recs) k' = Inr ?docs'"
    using by_ids r(2,3) m' by (simp add: Source_MemoryRecall_def ScopedRecallByIDs_def recall_query_def Let_def comp_def)
  moreover have "list_all2 same_doc docs ?docs'"
    using lib by (simp add: docs list_all2_map1 list_all2_map2 list.rel_refl same_doc_def  Source_doc_def Let_def
        envelope_lib [of L' L] list_all2_same)
  moreover have "ranked ?docs'" by (simp add: Source_doc_def Let_def comp_def map_replicate_const)
  moreover have "ranked docs" using h(3) by (simp add: docs  Source_doc_def Let_def comp_def)
  ultimately show ?thesis unfolding ids by blast
qed

lemma Source_contents:
  assumes "Source_MemoryRecall memory team p q [] k = Inr docs" and "\<forall>L tbl. memory = Some (L, tbl) \<longrightarrow> scan_ok L tbl \<and> (\<forall>r \<in> set tbl. P (mr_Content r))"
  shows "\<forall>d \<in> set docs. P (rd_Content d)"
proof (cases memory)
  case None
  then show ?thesis using assms(1) by (simp add: Source_MemoryRecall_def)
next
  case (Some Lt)
  obtain L tbl where m: "memory = Some (L, tbl)" using Some by (cases Lt) simp
  show ?thesis
  proof (cases "docs = []")
    case False
    obtain hits v n where hits: "PgVectorStore_Search L tbl ((recall_query team (project_scope p) n)\<lparr>sq_Embedding := v\<rparr>) = Inr hits"
        and docs: "docs = map (fresh_doc L) hits"
      using assms(1) False unfolding m by (rule Source_fresh)
    have c: "me_Content (memory_buildEnvelope L h) = mr_Content (sh_Record h)" for h
      by (simp add: memory_buildEnvelope_def Let_def split: option.splits)
    show ?thesis using Search_hits(4) [OF hits] assms(2) m by (auto simp: docs Source_doc_def Let_def c)
  qed simp
qed

section \<open>Resume\<close>

text \<open>
  C21. A resumed Run sees the same context, over the operator's own recall source. Take a fresh
  assembly that succeeded and shortened no recalled note, whose recall found something (or whose
  operator has no memory service), and resume from its snapshot, for the same Project. The work
  item (for an item of a discussion with its room, which is not pinned) and the project read back
  at the pinned revisions as they were; the Run's artifacts and the mirrored issue, which are not
  pinned, are unchanged; no record of the memory that was live was retracted since, none consists
  of the truncation marker, the index scan returns rows of the table, each once, and no pinned read
  fails. Then the assembly succeeds with the same injection payload, the same budget and the same
  snapshot, and with the same envelope except for the relevance scores, even if records were added
  to the memory and the Project's and the Agent's budgets have changed.
\<close>

theorem resume_reproduces_context:
  assumes A: "Assemble U a req = Inr res" and fresh: "rq_Existing req = None" and run: "rq_Run req = Some run"
    and req': "req' = req\<lparr>rq_Existing := Some (ar_Snapshot res), rq_Agent := Some agent', rq_Project := Some project'\<rparr>"
    and uid: "map_option project_UID (rq_Project req) = Some (project_UID project')"
    and item: "src_WorkItem (asm_sources a') (run_WorkItemRef run) (sn_WorkItemRevision (ar_Snapshot res)) =
      src_WorkItem (asm_sources a) (run_WorkItemRef run) []"
    and goals: "src_ProjectMeta (asm_sources a') (run_ProjectRef run) (sn_GoalRevision (ar_Snapshot res)) =
      src_ProjectMeta (asm_sources a) (run_ProjectRef run) []"
    and recall: "src_MemoryRecall (asm_sources a) = Source_MemoryRecall memory" "src_MemoryRecall (asm_sources a') = Source_MemoryRecall memory'"
    and kept: "memory_kept memory memory'"
    and scan: "\<forall>L tbl. memory = Some (L, tbl) \<longrightarrow> scan_ok L tbl \<and> (\<forall>r \<in> set tbl. mr_Content r \<noteq> truncateMarker)"
    and some: "memory = None \<or> sn_MemoryDocIDs (ar_Snapshot res) \<noteq> []"
    and arts: "src_Artifacts (asm_sources a') = src_Artifacts (asm_sources a)"
    and gh: "src_GitHubDetails (asm_sources a') = src_GitHubDetails (asm_sources a)"
    and whole: "\<forall>el \<in> set (ar_Envelope res). el_Tier el = TierUntrustedRecall \<longrightarrow> \<not> el_Truncated el"
  shows "\<exists>res'. Assemble U a' req' = Inr res' \<and> map unscored (ar_Envelope res') = map unscored (ar_Envelope res) \<and>
    ar_Injection res' = ar_Injection res \<and> ar_Budget res' = ar_Budget res \<and> ar_Snapshot res' = ar_Snapshot res"
proof (rule resume_up_to_scores [OF A fresh run req' uid item goals _ _ arts gh whole])
  fix p q docs assume d: "src_MemoryRecall (asm_sources a) (rq_TeamID req) p q [] (asm_TopK a) = Inr docs"
  show "\<forall>d \<in> set docs. rd_Content d \<noteq> truncateMarker"
    using Source_contents [where P = "\<lambda>c. c \<noteq> truncateMarker"] d scan recall(1) by simp
  assume "map rd_ID docs = sn_MemoryDocIDs (ar_Snapshot res)"
  then have "memory = None \<or> docs \<noteq> []" using some by auto
  with d kept scan show "ranked docs \<and> (\<exists>docs'. src_MemoryRecall (asm_sources a') (rq_TeamID req) p q (map rd_ID docs) (asm_TopK a') = Inr docs' \<and>
      list_all2 same_doc docs docs' \<and> ranked docs')"
    unfolding recall by (intro Source_pins) auto
qed

definition note_record :: "string \<Rightarrow> string \<Rightarrow> MemRecord" where
  "note_record i text = \<lparr>mr_ID = i, mr_SquadID = ''t'', mr_ProjectID = Some ''u'', mr_PrincipalID = ''ann'', mr_RunID = None, mr_AgentID = None,
     mr_Kind = ''note'', mr_Content = text, mr_Embedding = [1], mr_CreatedAt = 5, mr_InvalidatedAt = None, mr_Provenance = None\<rparr>"

definition note_lib :: MemoryLib where
  "note_lib = \<lparr>ml_embed = (\<lambda>_. Inr [1]), ml_dist = (\<lambda>a b. 1 / 2), ml_scan = id, ml_format = (\<lambda>_. ''noon''), ml_parse = (\<lambda>_. None),
     ml_render = (\<lambda>_. []), ml_dim = 1, ml_fault = (\<lambda>_. False)\<rparr>"

definition noted_asm :: "MemRecord list \<Rightarrow> Assembler" where
  "noted_asm tbl = NewAssembler ((demo_sources [])\<lparr>src_MemoryRecall := Source_MemoryRecall (Some (note_lib, tbl))\<rparr>) 0"

definition noted_envelope :: "RecallDoc \<Rightarrow> Envelope" where
  "noted_envelope d = buildEnvelope [] [] demo_item demo_meta [d] [] no_issue []"

lemma noted_envelope_eq: "noted_envelope d =
  [\<lparr>el_Tier = TierAuthoritative, el_Kind = ''description'', el_Content = ''Fix'' @ nl @ nl @ ''the build'',
     el_Provenance = from_source ''workItem'', el_Score = 0, el_Truncated = False\<rparr>,
   \<lparr>el_Tier = TierUntrustedRecall, el_Kind = ''recall'', el_Content = rd_Content d,
     el_Provenance = \<lparr>pv_Source = ''memory'', pv_Author = rd_Author d, pv_WrittenAt = rd_WrittenAt d, pv_Scope = rd_Scope d\<rparr>,
     el_Score = rd_Score d, el_Truncated = False\<rparr>]"
  by (simp add: noted_envelope_def buildEnvelope_def add_task_def add_meta_def add_discussion_def add_recall_def add_github_def add_artifacts_def
      demo_item_def demo_meta_def no_issue_def sortedInputs_def joinTitleBody_def builder_defs env_add_def env_build_def env_key_def from_source_def)

lemma noted_fits:
  assumes "length (rd_Content d) < 1000"
  shows "ApplyBudget basic_tables (Some (noted_envelope d)) demo_budget 100000 (OverheadTokens basic_tables (NewInjection (noted_envelope d)))
    = Inr (noted_envelope d)"
proof -
  let ?env = "noted_envelope d"
  have "0 \<le> OverheadTokens basic_tables (NewInjection ?env)" "OverheadTokens basic_tables (NewInjection ?env) \<le> 1000"
    by (simp_all add: OverheadTokens_nonneg overhead_bound)
  moreover have "class_cost basic_tables isProjectMeta ?env = 0" "class_cost basic_tables isUntrustedExternal ?env = 0"
      "class_cost basic_tables isUntrustedRecall ?env = EstimateTokens basic_tables (rd_Content d)"
      "must_tokens basic_tables ?env = EstimateTokens basic_tables (''Fix'' @ nl @ nl @ ''the build'')"
    by (simp_all add: noted_envelope_eq class_cost_def must_tokens_def isProjectMeta_def isUntrustedExternal_def isUntrustedRecall_def isMustInclude_def)
  moreover have "EstimateTokens basic_tables (rd_Content d) < 1000" "EstimateTokens basic_tables (''Fix'' @ nl @ nl @ ''the build'') < 1000"
    using EstimateTokens_le_length [of basic_tables "rd_Content d"] EstimateTokens_le_length [of basic_tables "''Fix'' @ nl @ nl @ ''the build''"] assms
    by (simp_all add: nl_def)
  ultimately show ?thesis by (intro budget_keeps_what_fits) (simp_all add: demo_budget_def effectiveCap_def)
qed

text \<open>The fresh recall ranks its one record at minus its distance; the pinned one at zero.\<close>

definition note_doc :: "rat \<Rightarrow> RecallDoc" where
  "note_doc score = \<lparr>rd_ID = ''d'', rd_Content = ''one note'', rd_Author = ''ann'', rd_Scope = ''t/u'', rd_WrittenAt = ''noon'', rd_Score = score\<rparr>"

lemma pinned_recall_rescored:
  "Source_MemoryRecall (Some (note_lib, [note_record ''d'' ''one note''])) ''t'' ''u'' ''q'' [] 8 = Inr [note_doc (- 1 / 2)]"
  "Source_MemoryRecall (Some (note_lib, [note_record ''d'' ''one note''])) ''t'' ''u'' ''q'' [''d''] 8 = Inr [note_doc 0]"
  by code_simp+

definition noted_result :: AssembleResult where
  "noted_result = \<lparr>ar_Envelope = noted_envelope (note_doc (- 1 / 2)), ar_Budget = demo_budget,
     ar_Snapshot = pinRecallIDs (buildSnapshot demo_item demo_meta demo_budget 100000) [note_doc (- 1 / 2)] (noted_envelope (note_doc (- 1 / 2))),
     ar_Injection = NewInjection (noted_envelope (note_doc (- 1 / 2)))\<rparr>"

lemma noted_recall:
  "Source_MemoryRecall (Some (note_lib, [note_record ''d'' ''one note''])) ''t'' ''u'' (recallQueryText demo_item) [] 8 = Inr [note_doc (- 1 / 2)]"
  by code_simp

lemma noted_assembled: "Assemble basic_tables (noted_asm [note_record ''d'' ''one note'']) demo_req = Inr noted_result"
  using noted_fits [of "note_doc (- 1 / 2)"] noted_recall
  by (simp add: Assemble_def asm_gather_def asm_finish_def noted_asm_def noted_result_def NewAssembler_def demo_req_def demo_sources_def Let_def asm_budget_def
      ResolveBudget_def resolve_tier_def firstSet_def deref_def demo_budget_def [symmetric] noted_envelope_def [symmetric] note_doc_def)

theorem resume_reproduces_context_witness:
  "\<exists>res'. Assemble basic_tables (noted_asm [note_record ''e'' ''a newer note'', note_record ''d'' ''one note''])
     (demo_req\<lparr>rq_Existing := Some (ar_Snapshot noted_result), rq_Agent := Some \<lparr>agent_ContextBudgetOverride = None\<rparr>,
       rq_Project := Some \<lparr>project_UID = ''u'',
         project_ContextBudget = Some \<lparr>cb_WorkItem = None, cb_ProjectDocs = None, cb_MemoryRecall = Some 1, cb_Artifacts = None\<rparr>\<rparr>\<rparr>) = Inr res' \<and>
   ar_Injection res' = ar_Injection noted_result"
proof -
  have "\<exists>res'. Assemble basic_tables (noted_asm [note_record ''e'' ''a newer note'', note_record ''d'' ''one note''])
     (demo_req\<lparr>rq_Existing := Some (ar_Snapshot noted_result), rq_Agent := Some \<lparr>agent_ContextBudgetOverride = None\<rparr>,
       rq_Project := Some \<lparr>project_UID = ''u'',
         project_ContextBudget = Some \<lparr>cb_WorkItem = None, cb_ProjectDocs = None, cb_MemoryRecall = Some 1, cb_Artifacts = None\<rparr>\<rparr>\<rparr>) = Inr res' \<and>
     map unscored (ar_Envelope res') = map unscored (ar_Envelope noted_result) \<and>
     ar_Injection res' = ar_Injection noted_result \<and> ar_Budget res' = ar_Budget noted_result \<and> ar_Snapshot res' = ar_Snapshot noted_result"
  proof (rule resume_reproduces_context [OF noted_assembled])
    show "rq_Run demo_req = Some \<lparr>run_UID = ''r'', run_WorkItemRef = ''w'', run_ProjectRef = ''p'', run_Inputs = []\<rparr>"
      by (simp add: demo_req_def)
    show "memory_kept (Some (note_lib, [note_record ''d'' ''one note'']))
        (Some (note_lib, [note_record ''e'' ''a newer note'', note_record ''d'' ''one note'']))"
      by (simp add: memory_kept_def note_lib_def note_record_def)
    show "\<forall>L tbl. Some (note_lib, [note_record ''d'' ''one note'']) = Some (L, tbl) \<longrightarrow> scan_ok L tbl \<and> (\<forall>r \<in> set tbl. mr_Content r \<noteq> truncateMarker)"
      by (simp add: scan_ok_def note_lib_def note_record_def truncateMarker_def)
    show "Some (note_lib, [note_record ''d'' ''one note'']) = None \<or> sn_MemoryDocIDs (ar_Snapshot noted_result) \<noteq> []"
      by (simp add: noted_result_def pinRecallIDs_def noted_envelope_eq note_doc_def truncateMarker_def)
    show "map_option project_UID (rq_Project demo_req) = Some (project_UID \<lparr>project_UID = ''u'',
         project_ContextBudget = Some \<lparr>cb_WorkItem = None, cb_ProjectDocs = None, cb_MemoryRecall = Some 1, cb_Artifacts = None\<rparr>\<rparr>)"
      by (simp add: demo_req_def ProjectFacts.defs)
  qed (simp_all add: demo_req_def noted_asm_def NewAssembler_def demo_sources_def noted_result_def noted_envelope_eq)
  then show ?thesis by blast
qed

end
