(* ===== verification/Drive_Claims.thy ===== *)
theory Drive_Claims
  imports Prod_Drive Prod_Cancel Prod_Custody
begin

text \<open>
  The run driver's durable surface (pkg/controller/rundrive/store.go): the snapshot a pass decides
  on, the acquire and the renewal under the operator's principal, the count of retry laps, the
  re-entries that fence a dead attempt and move its step (retry, fail, fail closed and park,
  cancel), the clearing of a stale sandbox bind, and the moves between the pause steps. Each is
  one transaction over the production tables.
\<close>

section \<open>Reading the claim\<close>

record ClaimState =
  cs_Step :: Step
  cs_Fence :: int
  cs_Holder :: string
  cs_Lease :: "instant option"
  cs_RunID :: string
  cs_ItemState :: string

definition OperatorPrincipal :: string where
  "OperatorPrincipal = ''ksquad-operator''"

definition claims_principal :: "string \<Rightarrow> string" where
  "claims_principal prin = (if prin = [] then OperatorPrincipal else prin)"

text \<open>\<open>isUuid\<close> is the third-party uuid parser; a reference it refuses is not looked up.\<close>

definition Claims_State :: "(string \<Rightarrow> bool) \<Rightarrow> dbfaults \<Rightarrow> string \<Rightarrow> prod_db \<Rightarrow> string + ClaimState option" where
  "Claims_State isUuid flt workItemID db =
     (if \<not> isUuid workItemID then Inr None
      else if flt ''state'' then Inl ''rundrive.ProdClaims.State''
      else case (claim_row_of db workItemID, item_row_of db workItemID) of
        (Some r, Some w) \<Rightarrow>
          Inr (Some \<lparr>cs_Step = pc_step r, cs_Fence = pc_fence r, cs_Holder = coalesce (pc_holder r), cs_Lease = pc_lease r,
                     cs_RunID = coalesce (pc_run r), cs_ItemState = pw_state w\<rparr>)
      | _ \<Rightarrow> Inr None)"

section \<open>Custody\<close>

abbreviation driveConfig :: ProdConfig where
  "driveConfig \<equiv> WithOutboxCapture DefaultProdConfig"

definition Claims_Acquire ::
  "string \<Rightarrow> dbfaults \<Rightarrow> json option \<Rightarrow> instant \<Rightarrow> instant \<Rightarrow> string \<Rightarrow> string \<Rightarrow> string \<Rightarrow> prod_db \<Rightarrow>
   (string + int option) \<times> prod_db" where
  "Claims_Acquire prin flt carrier tg ts workItemID runID agentName db =
     (case AcquireSpecific driveConfig flt carrier tg ts prin runID workItemID [] agentName db of
        (Inl e, db') \<Rightarrow> (Inl (''rundrive.ProdClaims.Acquire: '' @ e), db')
      | (Inr g, db') \<Rightarrow> (Inr (map_option snd g), db'))"

definition Claims_Renew ::
  "string \<Rightarrow> dbfaults \<Rightarrow> instant \<Rightarrow> instant \<Rightarrow> string \<Rightarrow> string \<Rightarrow> int \<Rightarrow> prod_db \<Rightarrow> (string + bool) \<times> prod_db" where
  "Claims_Renew prin flt tg ts workItemID runID fence db =
     (if flt ''renew'' then (Inl ''rundrive.ProdClaims.Renew'', db)
      else
        let G = renewable tg prin runID fence workItemID db;
            db' = db\<lparr>pd_claims := upd_key pc_item workItemID G
                      (\<lambda>r. r\<lparr>pc_lease := Some (ts + PC_LeaseInterval DefaultProdConfig), pc_renewed := Some ts\<rparr>) (pd_claims db)\<rparr>
        in if flt ''rows'' then (Inl ''rundrive.ProdClaims.Renew: rows'', db')
           else (Inr (aff_key pc_item workItemID G (pd_claims db) = 1), db'))"

text \<open>\<open>POSITION(p IN s) > 0\<close>\<close>

fun contains_text :: "string \<Rightarrow> string \<Rightarrow> bool" where
  "contains_text p [] = (p = [])"
| "contains_text p (c # cs) = (has_prefix p (c # cs) \<or> contains_text p cs)"

definition LapsUsed :: "dbfaults \<Rightarrow> string \<Rightarrow> prod_db \<Rightarrow> string + nat" where
  "LapsUsed flt runID db =
     (if flt ''laps'' then Inl ''rundrive.ProdClaims.LapsUsed''
      else Inr (sql_affected (\<lambda>r. da_run r = runID \<and> contains_text ''#lap'' (da_task r)) (pd_a2a db)))"

section \<open>Re-entries\<close>

definition enter_guard :: "int \<Rightarrow> prod_claim \<Rightarrow> bool" where
  "enter_guard fromFence r \<longleftrightarrow>
     pc_fence r = fromFence \<and> step_name (pc_step r) \<notin> {''succeeded'', ''failed'', ''cancelled''}"

definition entered_row :: "instant \<Rightarrow> Step \<Rightarrow> prod_claim \<Rightarrow> prod_claim" where
  "entered_row now toStep r = r\<lparr>pc_fence := pc_fence r + 1, pc_reclaim_fenced := Some now, pc_holder := None,
     pc_lease := None, pc_step := toStep\<rparr>"

definition enter_audit :: "instant \<Rightarrow> string \<Rightarrow> string \<Rightarrow> string \<Rightarrow> string \<Rightarrow> int \<Rightarrow> Step \<Rightarrow> audit_row" where
  "enter_audit now prin workItemID runID event fenceAfter toStep =
     \<lparr>au_item = workItemID, au_run = nullable runID, au_event = event, au_principal = prin, au_initiated = None,
      au_fence = Some fenceAfter, au_from = None, au_to = Some (step_name toStep), au_payload = [], au_created = now\<rparr>"

definition park_comment :: "instant \<Rightarrow> string \<Rightarrow> string \<Rightarrow> string \<Rightarrow> comment_row" where
  "park_comment now prin workItemID parkReason =
     \<lparr>cm_item = workItemID, cm_author = prin,
      cm_body = ''Retry circuit-breaker: this run failed with a deterministic, non-retryable error ('' @ parkReason @
        ''). The item is parked (blocked) rather than re-dispatched '' @ em_dash @ '' re-running cannot succeed until the '' @
        ''underlying cause is resolved (e.g. shrink the item/comment history, split the work, or raise the '' @
        ''model context window). Clear the block to re-enable dispatch.'',
      cm_kind = None, cm_run = None, cm_payload = None, cm_at = now\<rparr>"

text \<open>Parking: the first block of the item wins, and only it is recorded.\<close>

definition enter_park ::
  "dbfaults \<Rightarrow> instant \<Rightarrow> string \<Rightarrow> string \<Rightarrow> string \<Rightarrow> int \<Rightarrow> string \<Rightarrow> prod_db \<Rightarrow> string + prod_db" where
  "enter_park flt now prin workItemID runID fenceAfter parkReason db =
     (if parkReason = [] then Inr db
      else if flt ''park'' then Inl ''park''
      else
        let db1 = db\<lparr>pd_items := upd_key pw_id workItemID (\<lambda>w. pw_blocked w = None)
                      (\<lambda>w. w\<lparr>pw_blocked := Some parkReason, pw_updated := now\<rparr>) (pd_items db)\<rparr> in
        if aff_key pw_id workItemID (\<lambda>w. pw_blocked w = None) (pd_items db) \<noteq> 1 then Inr db1
        else if flt ''park audit'' then Inl ''park audit''
        else if flt ''park comment'' then Inl ''park comment''
        else Inr (insert_comment (park_comment now prin workItemID parkReason)
               (insert_audit ((enter_audit now prin workItemID runID ''work_item_parked'' fenceAfter StepFailed)
                  \<lparr>au_payload := [(''blocked_reason'', JStr parkReason)]\<rparr>) db1)))"

definition enter_tail ::
  "string \<Rightarrow> dbfaults \<Rightarrow> instant \<Rightarrow> string \<Rightarrow> string \<Rightarrow> string \<Rightarrow> bool \<Rightarrow> int \<Rightarrow> Step \<Rightarrow> string \<Rightarrow> prod_db \<Rightarrow> string + prod_db" where
  "enter_tail event flt now prin workItemID runID wasHeld fenceAfter toStep parkReason db =
     (if flt ''enter audit'' then Inl ''audit''
      else if wasHeld \<and> flt ''claim_released audit'' then Inl ''claim_released audit''
      else if flt ''enter outbox'' then Inl ''outbox''
      else
        let db1 = insert_audit (enter_audit now prin workItemID runID event fenceAfter toStep) db;
            db2 = (if wasHeld then insert_audit (enter_audit now prin workItemID runID ''claim_released'' fenceAfter toStep) db1 else db1);
            db3 = outbox_for_item ''run'' event workItemID (nullable runID)
                    [(''to_step'', JStr (step_name toStep)), (''fence_token'', JInt fenceAfter)] None db2
        in case SettleTerminalLane flt now workItemID runID prin (step_name toStep) db3 of
             Inl e \<Rightarrow> Inl (''settle: '' @ e)
           | Inr (lm, db4) \<Rightarrow>
               (case enter_park flt now prin workItemID runID fenceAfter parkReason db4 of
                  Inl e \<Rightarrow> Inl e
                | Inr db5 \<Rightarrow> if flt ''commit'' then Inl ''commit'' else Inr db5))"

text \<open>\<open>Inr None\<close> is the refusal that commits nothing; every caller moves the step it records.\<close>

definition enter ::
  "string \<Rightarrow> dbfaults \<Rightarrow> instant \<Rightarrow> string \<Rightarrow> string \<Rightarrow> string \<Rightarrow> int \<Rightarrow> Step \<Rightarrow> string \<Rightarrow> prod_db \<Rightarrow>
   (string + int option) \<times> prod_db" where
  "enter prin flt now workItemID runID event fromFence toStep parkReason db =
     (let who = ''rundrive.ProdClaims.'' @ event @ '': '' in
      if flt ''begin'' then (Inl (who @ ''begin''), db)
      else if flt ''pre-read'' then (Inl (who @ ''pre-read''), db)
      else case row_key pc_item workItemID (\<lambda>r. pc_fence r = fromFence) (pd_claims db) of
        None \<Rightarrow> (Inr None, db)
      | Some r0 \<Rightarrow>
          if flt ''enter update'' then (Inl (who @ ''update''), db)
          else (case row_key pc_item workItemID (enter_guard fromFence) (pd_claims db) of
            None \<Rightarrow> (Inr None, db)
          | Some r \<Rightarrow>
              (case enter_tail event flt now prin workItemID runID (pc_holder r0 \<noteq> None) (pc_fence r + 1) toStep parkReason
                      (db\<lparr>pd_claims := upd_key pc_item workItemID (enter_guard fromFence) (entered_row now toStep) (pd_claims db)\<rparr>) of
                 Inl e \<Rightarrow> (Inl (who @ e), db)
               | Inr db' \<Rightarrow> (Inr (Some (pc_fence r + 1)), db'))))"

definition enter_ok :: "(string + int option) \<times> prod_db \<Rightarrow> (string + bool) \<times> prod_db" where
  "enter_ok res = map_prod (map_sum id (\<lambda>g. g \<noteq> None)) id res"

definition RetryEnter :: "string \<Rightarrow> dbfaults \<Rightarrow> instant \<Rightarrow> string \<Rightarrow> string \<Rightarrow> int \<Rightarrow> prod_db \<Rightarrow> (string + int option) \<times> prod_db" where
  "RetryEnter prin flt now workItemID runID fromFence db =
     enter prin flt now workItemID runID ''retry_lap_entered'' fromFence StepClaimingSandbox [] db"

definition FailEnter :: "string \<Rightarrow> dbfaults \<Rightarrow> instant \<Rightarrow> string \<Rightarrow> string \<Rightarrow> int \<Rightarrow> prod_db \<Rightarrow> (string + bool) \<times> prod_db" where
  "FailEnter prin flt now workItemID runID fromFence db =
     enter_ok (enter prin flt now workItemID runID ''run_failed_entered'' fromFence StepFailed [] db)"

definition FailClosedPark ::
  "string \<Rightarrow> dbfaults \<Rightarrow> instant \<Rightarrow> string \<Rightarrow> string \<Rightarrow> int \<Rightarrow> string \<Rightarrow> prod_db \<Rightarrow> (string + bool) \<times> prod_db" where
  "FailClosedPark prin flt now workItemID runID fromFence reason db =
     enter_ok (enter prin flt now workItemID runID ''run_failed_entered'' fromFence StepFailed
       (if reason = [] then ''non_retryable_failure'' else reason) db)"

definition Claims_CancelEnter :: "string \<Rightarrow> dbfaults \<Rightarrow> instant \<Rightarrow> string \<Rightarrow> string \<Rightarrow> int \<Rightarrow> prod_db \<Rightarrow> (string + bool) \<times> prod_db" where
  "Claims_CancelEnter prin flt now workItemID runID fromFence db =
     enter_ok (enter prin flt now workItemID runID ''run_cancelled_entered'' fromFence StepCancelled [] db)"

definition Claims_CancelFinish :: "string \<Rightarrow> dbfaults \<Rightarrow> instant \<Rightarrow> string \<Rightarrow> string \<Rightarrow> int \<Rightarrow> prod_db \<Rightarrow> (string + bool) \<times> prod_db" where
  "Claims_CancelFinish prin flt now workItemID runID fromFence db =
     (case CancelFinish flt now workItemID runID prin fromFence db of
        ((Some e, out), db') \<Rightarrow> (Inl e, db')
      | ((None, out), db') \<Rightarrow> (Inr (out = CancelAccepted), db'))"

definition ClearSandboxBind :: "string \<Rightarrow> dbfaults \<Rightarrow> instant \<Rightarrow> string \<Rightarrow> prod_db \<Rightarrow> string option \<times> prod_db" where
  "ClearSandboxBind prin flt now runID db =
     (if runID = [] then (None, db)
      else if flt ''begin'' then (Some ''rundrive.ProdClaims.ClearSandboxBind: begin'', db)
      else if flt ''delete'' then (Some ''rundrive.ProdClaims.ClearSandboxBind: delete'', db)
      else case lookup_by bx_run runID (pd_sandboxes db) of
        None \<Rightarrow> (if flt ''commit'' then (Some ''rundrive.ProdClaims.ClearSandboxBind: commit (no-op)'', db) else (None, db))
      | Some b \<Rightarrow>
          if flt ''audit'' then (Some ''rundrive.ProdClaims.ClearSandboxBind: audit'', db)
          else if flt ''commit'' then (Some ''rundrive.ProdClaims.ClearSandboxBind: commit'', db)
          else (None, insert_audit \<lparr>au_item = bx_item b, au_run = Some runID, au_event = ''sandbox_bind_cleared'',
                  au_principal = prin, au_initiated = None, au_fence = None, au_from = None, au_to = Some ''claiming_sandbox'',
                  au_payload = [(''sandbox_ref'', JStr (bx_ref b)), (''reason'', JStr ''sandbox pod not found'')], au_created = now\<rparr>
                  (db\<lparr>pd_sandboxes := filter (\<lambda>x. bx_run x \<noteq> runID) (pd_sandboxes db)\<rparr>)))"

section \<open>Moves between the pause steps\<close>

text \<open>The latest dispatch marker of the item, by descending task id; a failed read gives no id, and
  the database then refuses the later statements of its transaction.\<close>

definition runIDFor :: "dbfaults \<Rightarrow> string \<Rightarrow> prod_db \<Rightarrow> string" where
  "runIDFor flt workItemID db =
     (if flt ''run id'' then []
      else case rev (sort_key da_task (filter (\<lambda>r. da_item r = workItemID) (pd_a2a db))) of
        [] \<Rightarrow> [] | r # _ \<Rightarrow> da_run r)"

text \<open>The transaction the four moves share: a guarded step update with its audit and outbox rows.\<close>

definition move_tx ::
  "string \<Rightarrow> string \<Rightarrow> dbfaults \<Rightarrow> instant \<Rightarrow> Step list \<Rightarrow> Step \<Rightarrow> string \<Rightarrow> string \<Rightarrow> string \<Rightarrow> json \<Rightarrow> string \<Rightarrow> prod_db \<Rightarrow>
   (string + bool) \<times> prod_db" where
  "move_tx who prin flt now from_steps to_step event from_text outbox payload workItemID db =
     (let G = (\<lambda>r. pc_step r \<in> set from_steps) in
      if flt ''begin'' then (Inl (who @ '': begin''), db)
      else if flt ''update'' then (Inl (who @ '': update''), db)
      else if flt ''rows'' then (Inl (who @ '': rows''), db)
      else if aff_key pc_item workItemID G (pd_claims db) = 0 then (Inr False, db)
      else
        let db1 = db\<lparr>pd_claims := upd_key pc_item workItemID G (\<lambda>r. r\<lparr>pc_step := to_step\<rparr>) (pd_claims db)\<rparr>;
            run = runIDFor flt workItemID db1;
            db2 = insert_audit \<lparr>au_item = workItemID, au_run = nullable run, au_event = event, au_principal = prin,
                    au_initiated = None, au_fence = None, au_from = Some from_text, au_to = Some (step_name to_step),
                    au_payload = [], au_created = now\<rparr> db1;
            db3 = outbox_for_item ''run'' outbox workItemID (nullable run) payload None db2
        in if flt ''run id'' \<or> flt ''audit'' then (Inl (who @ '': audit''), db)
           else if flt ''outbox'' then (Inl (who @ '': outbox''), db)
           else if flt ''commit'' then (Inl (who @ '': commit''), db)
           else (Inr True, db3))"

definition RequeuePaused :: "string \<Rightarrow> dbfaults \<Rightarrow> instant \<Rightarrow> string \<Rightarrow> prod_db \<Rightarrow> (string + bool) \<times> prod_db" where
  "RequeuePaused prin flt now workItemID db =
     move_tx ''rundrive.ProdClaims.RequeuePaused'' prin flt now [StepPausedRateLimited] StepDispatching
       ''resume_requeued'' ''paused(rate_limited)'' ''resume_requeued''
       [(''from_step'', JStr ''paused(rate_limited)''), (''to_step'', JStr ''dispatching'')] workItemID db"

definition PauseRateLimited :: "string \<Rightarrow> dbfaults \<Rightarrow> instant \<Rightarrow> string \<Rightarrow> prod_db \<Rightarrow> (string + bool) \<times> prod_db" where
  "PauseRateLimited prin flt now workItemID db =
     move_tx ''rundrive.ProdClaims.PauseRateLimited'' prin flt now
       [StepRunning, StepDispatching, StepCollecting, StepPaused, StepPausedRateLimited] StepPausedRateLimited
       ''paused_rate_limited'' ''running'' ''paused''
       [(''reason'', JStr ''rate_limited''), (''resume_mode'', JStr ''timer''), (''from_step'', JStr ''running''),
        (''to_step'', JStr ''paused(rate_limited)'')] workItemID db"

definition GateHold :: "string \<Rightarrow> dbfaults \<Rightarrow> instant \<Rightarrow> string \<Rightarrow> string list \<Rightarrow> prod_db \<Rightarrow> (string + bool) \<times> prod_db" where
  "GateHold prin flt now workItemID missingTypes db =
     move_tx ''rundrive.ProdClaims.GateHold'' prin flt now [StepClaimingSandbox] StepPausedCredentialRequired
       ''gate_held'' ''claiming_sandbox'' ''paused''
       [(''reason'', JStr ''credential_required''),
        (''missing_types'', if missingTypes = [] then JNull else JList (map JStr missingTypes)),
        (''resume_mode'', JStr ''refresh''), (''from_step'', JStr ''claiming_sandbox''),
        (''to_step'', JStr ''paused(credential_required)'')] workItemID db"

definition GateResume :: "string \<Rightarrow> dbfaults \<Rightarrow> instant \<Rightarrow> string \<Rightarrow> prod_db \<Rightarrow> (string + bool) \<times> prod_db" where
  "GateResume prin flt now workItemID db =
     move_tx ''rundrive.ProdClaims.GateResume'' prin flt now [StepPausedCredentialRequired] StepClaimingSandbox
       ''gate_resumed'' ''paused(credential_required)'' ''resume_requeued''
       [(''from_step'', JStr ''paused(credential_required)''), (''to_step'', JStr ''claiming_sandbox'')] workItemID db"


section \<open>What a re-entry does\<close>

lemma enter_park_Inr:
  assumes "enter_park flt now prin item run f park db = Inr db'" and "wf_prod db"
  shows "wf_prod db' \<and> pd_claims db' = pd_claims db \<and> pd_a2a db' = pd_a2a db \<and> pd_sandboxes db' = pd_sandboxes db \<and>
    pd_outbox db' = pd_outbox db \<and>
    (\<exists>rest. pd_audit db' = pd_audit db @ rest \<and> (\<forall>a \<in> set rest. au_event a = ''work_item_parked'')) \<and>
    (\<forall>j. item_row_of db' j =
      (if j = item \<and> park \<noteq> [] then map_option (\<lambda>w. if pw_blocked w = None then w\<lparr>pw_blocked := Some park, pw_updated := now\<rparr> else w) (item_row_of db j)
       else item_row_of db j))"
  using assms
  by (auto simp: enter_park_def Let_def enter_audit_def aff_key_wf [OF wf_prodD(2)] split: if_splits option.splits)

lemma enter_tail_Inr:
  assumes "enter_tail ev flt now prin item run held f st park db = Inr db'" and "wf_prod db"
  shows "wf_prod db' \<and> pd_claims db' = pd_claims db \<and> pd_a2a db' = pd_a2a db \<and> pd_sandboxes db' = pd_sandboxes db \<and>
    pd_outbox db' = pd_outbox (outbox_for_item ''run'' ev item (nullable run)
      [(''to_step'', JStr (step_name st)), (''fence_token'', JInt f)] None db) \<and>
    (\<exists>rest. pd_audit db' = pd_audit db @ enter_audit now prin item run ev f st #
        (if held then [enter_audit now prin item run ''claim_released'' f st] else []) @ rest \<and>
      (\<forall>a \<in> set rest. au_event a \<in> {''state_transition'', ''work_item_parked''})) \<and>
    (park \<noteq> [] \<longrightarrow> (\<forall>w. item_row_of db' item = Some w \<longrightarrow> pw_blocked w \<noteq> None))"
proof -
  let ?db3 = "outbox_for_item ''run'' ev item (nullable run) [(''to_step'', JStr (step_name st)), (''fence_token'', JInt f)] None
    (if held then insert_audit (enter_audit now prin item run ''claim_released'' f st) (insert_audit (enter_audit now prin item run ev f st) db)
     else insert_audit (enter_audit now prin item run ev f st) db)"
  obtain lm db4 where settle: "SettleTerminalLane flt now item run prin (step_name st) ?db3 = Inr (lm, db4)"
      and park: "enter_park flt now prin item run f park db4 = Inr db'"
    using assms(1) by (auto simp: enter_tail_def Let_def split: if_splits sum.splits)
  have wf3: "wf_prod ?db3" using assms(2) by simp
  note t = SettleTerminalLane_tables [OF settle] and a = SettleTerminalLane_audit [OF settle]
  have wf4: "wf_prod db4" using t wf3 by blast
  note p = enter_park_Inr [OF park wf4]
  have out: "pd_outbox ?db3 = pd_outbox (outbox_for_item ''run'' ev item (nullable run)
      [(''to_step'', JStr (step_name st)), (''fence_token'', JInt f)] None db)"
    by (simp add: outbox_for_item_def insert_outbox_def insert_audit_def split: option.splits)
  have aud: "pd_audit ?db3 = pd_audit db @ enter_audit now prin item run ev f st #
        (if held then [enter_audit now prin item run ''claim_released'' f st] else [])" by simp
  obtain rest rest' where "pd_audit db4 = pd_audit ?db3 @ rest" "\<forall>a \<in> set rest. au_event a = ''state_transition''"
      "pd_audit db' = pd_audit db4 @ rest'" "\<forall>a \<in> set rest'. au_event a = ''work_item_parked''"
    using a p by blast
  then have "\<exists>rest. pd_audit db' = pd_audit db @ enter_audit now prin item run ev f st #
        (if held then [enter_audit now prin item run ''claim_released'' f st] else []) @ rest \<and>
      (\<forall>a \<in> set rest. au_event a \<in> {''state_transition'', ''work_item_parked''})"
    unfolding aud by (intro exI [of _ "rest @ rest'"]) auto
  moreover have "park \<noteq> [] \<longrightarrow> (\<forall>w. item_row_of db' item = Some w \<longrightarrow> pw_blocked w \<noteq> None)"
  proof (intro impI allI)
    fix w assume "park \<noteq> []" "item_row_of db' item = Some w"
    then obtain z where "w = (if pw_blocked z = None then z\<lparr>pw_blocked := Some park, pw_updated := now\<rparr> else z)" using p by auto
    then show "pw_blocked w \<noteq> None" by (cases "pw_blocked z = None") simp_all
  qed
  moreover have "pd_claims db' = pd_claims db" "pd_a2a db' = pd_a2a db" "pd_sandboxes db' = pd_sandboxes db" "pd_outbox db' = pd_outbox ?db3"
    using p t by simp_all
  ultimately show ?thesis using p out by (intro conjI) (simp_all only:)
qed

lemma enter_cases:
  assumes "enter prin flt now item run ev fence st park db = (res, db')" and "wf_prod db"
  obtains (refused) "db' = db" "\<And>f. res \<noteq> Inr (Some f)"
  | (entered) r where "claim_row_of db item = Some r" "enter_guard fence r" "res = Inr (Some (fence + 1))"
      "enter_tail ev flt now prin item run (pc_holder r \<noteq> None) (fence + 1) st park
        (db\<lparr>pd_claims := upd_key pc_item item (enter_guard fence) (entered_row now st) (pd_claims db)\<rparr>) = Inr db'"
  using assms
  by (auto simp: enter_def Let_def row_key_wf [OF wf_prodD(1)] enter_guard_def split: if_splits option.splits sum.splits)

lemma entered_row_sel [simp]:
  "pc_item (entered_row now st r) = pc_item r" "pc_fence (entered_row now st r) = pc_fence r + 1"
  "pc_step (entered_row now st r) = st" "pc_holder (entered_row now st r) = None" "pc_lease (entered_row now st r) = None"
  "pc_run (entered_row now st r) = pc_run r" "pc_assignee (entered_row now st r) = pc_assignee r"
  by (simp_all add: entered_row_def)

lemma enter_effect:
  assumes "enter prin flt now item run ev fence st park db = (Inr (Some f), db')" and "wf_prod db"
  obtains r where "claim_row_of db item = Some r" "enter_guard fence r" "f = fence + 1" "wf_prod db'"
    "\<And>j. claim_row_of db' j = (if j = item then Some (entered_row now st r) else claim_row_of db j)"
    "pd_a2a db' = pd_a2a db" "pd_sandboxes db' = pd_sandboxes db"
    "pd_outbox db' = pd_outbox (outbox_for_item ''run'' ev item (nullable run)
      [(''to_step'', JStr (step_name st)), (''fence_token'', JInt f)] None db)"
    "\<exists>rest. pd_audit db' = pd_audit db @ enter_audit now prin item run ev f st #
        (if pc_holder r \<noteq> None then [enter_audit now prin item run ''claim_released'' f st] else []) @ rest \<and>
      (\<forall>a \<in> set rest. au_event a \<in> {''state_transition'', ''work_item_parked''})"
    "park \<noteq> [] \<Longrightarrow> (\<forall>w. item_row_of db' item = Some w \<longrightarrow> pw_blocked w \<noteq> None)"
proof (cases rule: enter_cases [OF assms])
  case 1
  then show ?thesis by blast
next
  case (2 r)
  note entered = this
  let ?db1 = "db\<lparr>pd_claims := upd_key pc_item item (enter_guard fence) (entered_row now st) (pd_claims db)\<rparr>"
  have wf: "wf_prod ?db1" using assms(2) by simp
  note e = enter_tail_Inr [OF entered(4) wf]
  have "claim_row_of db' j = (if j = item then Some (entered_row now st r) else claim_row_of db j)" for j
    using e entered(1,2) assms(2) by (simp add: wf_prodD)
  moreover have "outbox_for_item ''run'' ev item (nullable run) p None ?db1 =
      (outbox_for_item ''run'' ev item (nullable run) p None db)\<lparr>pd_claims := pd_claims ?db1\<rparr>" for p
    by (simp add: outbox_for_item_def insert_outbox_def split: option.splits)
  moreover have f: "f = fence + 1" using entered(3) by simp
  ultimately show ?thesis using e entered(1,2) by (intro that [of r]) (simp_all only: f, simp_all)
qed

lemma Claims_Renew_stale:
  assumes "wf_prod db" and "\<not> (\<exists>r. claim_row_of db item = Some r \<and> pc_run r = Some run \<and> pc_fence r = fence)"
  shows "Claims_Renew prin (\<lambda>_. False) tg ts item run fence db = (Inr False, db)"
proof -
  let ?G = "renewable tg prin run fence item db"
  have "aff_key pc_item item ?G (pd_claims db) = 0"
    using assms by (auto simp: aff_key_wf [OF wf_prodD(1)] renewable_def split: option.splits)
  moreover have "upd_key pc_item item ?G f (pd_claims db) = pd_claims db" for f
    using assms by (cases "claim_row_of db item")
      (auto simp: upd_key_id renewable_def intro!: upd_key_no_guard [OF wf_prodD(1)])
  ultimately show ?thesis by (simp add: Claims_Renew_def Let_def)
qed

lemma enter_guard_live: "enter_guard fence r \<Longrightarrow> pc_fence r = fence \<and> \<not> IsTerminal (pc_step r)"
  by (cases "pc_step r") (auto simp: enter_guard_def IsTerminal_def)

lemma SettleTerminalLane_healthy:
  "item \<noteq> [] \<Longrightarrow> prin \<noteq> [] \<Longrightarrow> st \<noteq> [] \<Longrightarrow> SettleTerminalLane (\<lambda>_. False) now item run prin st db \<noteq> Inl e"
  by (auto simp: SettleTerminalLane_def Let_def split: prod.splits)

lemma enter_healthy:
  assumes "wf_prod db" and "claim_row_of db item = Some r" and "enter_guard fence r"
    and "item \<noteq> []" and "prin \<noteq> []" and "step_name st \<noteq> []"
  shows "\<exists>db'. enter prin (\<lambda>_. False) now item run ev fence st prk db = (Inr (Some (fence + 1)), db')"
proof -
  have park: "enter_park (\<lambda>_. False) now prin item run f prk d \<noteq> Inl e" for f d e
    by (simp add: enter_park_def Let_def)
  have "enter_tail ev (\<lambda>_. False) now prin item run held f st prk d \<noteq> Inl e" for held f d e
    using SettleTerminalLane_healthy [OF assms(4-6)] park
    by (auto simp: enter_tail_def Let_def split: sum.splits)
  then have "\<exists>d'. enter_tail ev (\<lambda>_. False) now prin item run held f st prk d = Inr d'" for held f d
    by (metis sum.exhaust)
  then obtain d' where "enter_tail ev (\<lambda>_. False) now prin item run (pc_holder r \<noteq> None) (pc_fence r + 1) st prk
      (db\<lparr>pd_claims := upd_key pc_item item (enter_guard fence) (entered_row now st) (pd_claims db)\<rparr>) = Inr d'" by blast
  moreover have "pc_fence r = fence" using assms(3) by (simp add: enter_guard_def)
  ultimately show ?thesis using assms(1-3) by (simp add: enter_def Let_def row_key_wf [OF wf_prodD(1)])
qed

text \<open>
  C25. A re-entry is one fact: an accepted re-entry found the claim at the fence it read and not
  terminal, raises the fence by one, releases the checkout, moves the step, writes one audit row
  for the event, a second one exactly if the checkout was held, and one outbox row, leaves every
  other claim, the dispatch markers and the binds alone, and shuts out the attempt it fences: its
  renewals are refused and its drives under the old fence commit nothing. A refused or failed
  re-entry changes nothing.
\<close>

theorem reentry_fences_the_attempt:
  assumes "wf_prod db" and "enter prin flt now item run ev fence st prk db = (res, db')"
  shows "(\<forall>f. res = Inr (Some f) \<longrightarrow> f = fence + 1 \<and>
      (\<exists>r. claim_row_of db item = Some r \<and> pc_fence r = fence \<and> \<not> IsTerminal (pc_step r) \<and>
         (\<forall>j. claim_row_of db' j = (if j = item then Some (entered_row now st r) else claim_row_of db j)) \<and>
         pd_a2a db' = pd_a2a db \<and> pd_sandboxes db' = pd_sandboxes db \<and>
         (\<exists>rest. pd_audit db' = pd_audit db @ enter_audit now prin item run ev f st #
            (if pc_holder r \<noteq> None then [enter_audit now prin item run ''claim_released'' f st] else []) @ rest \<and>
            (\<forall>a \<in> set rest. au_event a \<in> {''state_transition'', ''work_item_parked''})) \<and>
         pd_outbox db' = pd_outbox (outbox_for_item ''run'' ev item (nullable run)
           [(''to_step'', JStr (step_name st)), (''fence_token'', JInt f)] None db)) \<and>
      (prk \<noteq> [] \<longrightarrow> (\<forall>w. item_row_of db' item = Some w \<longrightarrow> pw_blocked w \<noteq> None)) \<and>
      (\<forall>p tg ts rn. Claims_Renew p (\<lambda>_. False) tg ts item rn fence db' = (Inr False, db')) \<and>
      (\<forall>B env opt w s e w' s'. rs_workItemID B = item \<and> st_db s = db' \<and> run_inv B s \<and> Durable opt \<and>
         Fence opt = fence \<and> Reconcile E (prodStore B env) opt w s = Some (e, w', s') \<longrightarrow>
         run_step B s' = st \<and> run_audit B s' = run_audit B s)) \<and>
    ((\<forall>f. res \<noteq> Inr (Some f)) \<longrightarrow> db' = db)"
proof (cases "\<exists>f. res = Inr (Some f)")
  case False
  then show ?thesis using enter_cases [OF assms(2,1)] by blast
next
  case True
  then obtain f where f: "res = Inr (Some f)" by blast
  obtain r where r: "claim_row_of db item = Some r" "enter_guard fence r" "f = fence + 1" "wf_prod db'"
    "\<And>j. claim_row_of db' j = (if j = item then Some (entered_row now st r) else claim_row_of db j)"
    "pd_a2a db' = pd_a2a db" "pd_sandboxes db' = pd_sandboxes db"
    "pd_outbox db' = pd_outbox (outbox_for_item ''run'' ev item (nullable run)
      [(''to_step'', JStr (step_name st)), (''fence_token'', JInt f)] None db)"
    "\<exists>rest. pd_audit db' = pd_audit db @ enter_audit now prin item run ev f st #
        (if pc_holder r \<noteq> None then [enter_audit now prin item run ''claim_released'' f st] else []) @ rest \<and>
      (\<forall>a \<in> set rest. au_event a \<in> {''state_transition'', ''work_item_parked''})"
    "prk \<noteq> [] \<Longrightarrow> (\<forall>w. item_row_of db' item = Some w \<longrightarrow> pw_blocked w \<noteq> None)"
    by (rule enter_effect [OF assms(2) [unfolded f] assms(1)]) metis
  have g: "pc_fence r = fence" "\<not> IsTerminal (pc_step r)" using enter_guard_live [OF r(2)] by simp_all
  have row: "claim_row_of db' item = Some (entered_row now st r)" using r(5) by simp
  have "Claims_Renew p (\<lambda>_. False) tg ts item rn fence db' = (Inr False, db')" for p tg ts rn
    using Claims_Renew_stale [OF r(4)] row g by simp
  moreover have "run_step B s' = st \<and> run_audit B s' = run_audit B s"
    if "rs_workItemID B = item" "st_db s = db'" "run_inv B s" "Durable opt" "Fence opt = fence"
      "Reconcile E (prodStore B env) opt w s = Some (e, w', s')" for B env opt w s e w' s'
  proof -
    have "run_fence B s = fence + 1" "run_step B s = st"
      using row g that(1,2) by (simp_all add: run_fence_def prod_fence_def run_step_def)
    with prod.zombie_drive [OF that(3,6,4)] that(5) show ?thesis by simp
  qed
  ultimately show ?thesis using r g f by auto
qed

theorem reentry_fences_the_attempt_witness:
  "\<exists>db'. enter ''op'' (\<lambda>_. False) 9 ''i'' ''r'' ''retry_lap_entered'' 1 StepClaimingSandbox [] one_held = (Inr (Some 2), db') \<and>
     Claims_Renew ''a'' (\<lambda>_. False) 5 5 ''i'' ''r'' 1 db' = (Inr False, db')"
proof -
  have "\<exists>db'. enter ''op'' (\<lambda>_. False) 9 ''i'' ''r'' ''retry_lap_entered'' 1 StepClaimingSandbox [] one_held = (Inr (Some (1 + 1)), db')"
    by (rule enter_healthy [OF one_held_simps]) (simp_all add: enter_guard_def)
  then obtain db' where "enter ''op'' (\<lambda>_. False) 9 ''i'' ''r'' ''retry_lap_entered'' 1 StepClaimingSandbox [] one_held = (Inr (Some 2), db')"
    by auto
  with reentry_fences_the_attempt [OF one_held_simps(1) this, of worldEffects] show ?thesis by simp
qed

end
