(* ===== verification/Endpoint_Gate.thy ===== *)
theory Endpoint_Gate
  imports Prelude
begin

text \<open>
  The per-endpoint admission gate (pkg/controller/rundrive/endpoint_gate.go): at most so many Runs
  hold a model endpoint at a time, the others wait and are admitted in the order in which they
  first asked, and a waiter that stops asking loses its place. A Go map is a partial function to
  a non-empty list; the order of the list stands for the order in which Go happens to iterate.
  Every method runs under the gate's lock, so a history is a list of method calls.
\<close>

section \<open>State\<close>

record endpointWaiter =
  ew_run :: string
  ew_seq :: int
  ew_seen :: instant

record EndpointGate =
  eg_defaultMax :: int
  eg_holders :: "string \<rightharpoonup> string list"
  eg_waiters :: "string \<rightharpoonup> endpointWaiter list"
  eg_seq :: int
  eg_waiterTTL :: duration

definition endpointWaiterTTL :: duration where
  "endpointWaiterTTL = 90 * 1000000000"

definition NewEndpointGate :: "int \<Rightarrow> EndpointGate" where
  "NewEndpointGate maxConcurrent =
     \<lparr>eg_defaultMax = (if maxConcurrent < 1 then 1 else maxConcurrent), eg_holders = Map.empty, eg_waiters = Map.empty,
      eg_seq = 0, eg_waiterTTL = endpointWaiterTTL\<rparr>"

text \<open>Reading an absent key gives the empty set; an entry that became empty is deleted.\<close>

definition entries :: "(string \<rightharpoonup> 'a list) \<Rightarrow> string \<Rightarrow> 'a list" where
  "entries m e = (case m e of None \<Rightarrow> [] | Some xs \<Rightarrow> xs)"

definition set_entries :: "(string \<rightharpoonup> 'a list) \<Rightarrow> string \<Rightarrow> 'a list \<Rightarrow> (string \<rightharpoonup> 'a list)" where
  "set_entries m e xs = (if xs = [] then m(e := None) else m(e \<mapsto> xs))"

section \<open>Operations\<close>

definition dropWaiter :: "string \<Rightarrow> string \<Rightarrow> EndpointGate \<Rightarrow> EndpointGate" where
  "dropWaiter endpoint runID g =
     (case eg_waiters g endpoint of
        None \<Rightarrow> g
      | Some ws \<Rightarrow> g\<lparr>eg_waiters := set_entries (eg_waiters g) endpoint (filter (\<lambda>w. ew_run w \<noteq> runID) ws)\<rparr>)"

definition evictStaleWaiters :: "string \<Rightarrow> instant \<Rightarrow> EndpointGate \<Rightarrow> EndpointGate" where
  "evictStaleWaiters endpoint now g =
     g\<lparr>eg_waiters := set_entries (eg_waiters g) endpoint
         (filter (\<lambda>w. \<not> now - ew_seen w > eg_waiterTTL g) (entries (eg_waiters g) endpoint))\<rparr>"

definition registerWaiter :: "string \<Rightarrow> string \<Rightarrow> instant \<Rightarrow> EndpointGate \<Rightarrow> EndpointGate" where
  "registerWaiter endpoint runID now g =
     (let ws = entries (eg_waiters g) endpoint in
      if \<exists>w \<in> set ws. ew_run w = runID
      then g\<lparr>eg_waiters := set_entries (eg_waiters g) endpoint
               (map (\<lambda>w. if ew_run w = runID then w\<lparr>ew_seen := now\<rparr> else w) ws)\<rparr>
      else let s = (eg_seq g + 1) mod 2 ^ 64 in
           g\<lparr>eg_seq := s,
             eg_waiters := set_entries (eg_waiters g) endpoint (ws @ [\<lparr>ew_run = runID, ew_seq = s, ew_seen = now\<rparr>])\<rparr>)"

fun front_loop :: "endpointWaiter list \<Rightarrow> string \<Rightarrow> int \<Rightarrow> string" where
  "front_loop [] front best = front"
| "front_loop (w # ws) front best =
     (if front = [] \<or> ew_seq w < best then front_loop ws (ew_run w) (ew_seq w) else front_loop ws front best)"

definition frontWaiter :: "string \<Rightarrow> EndpointGate \<Rightarrow> string" where
  "frontWaiter endpoint g = front_loop (entries (eg_waiters g) endpoint) [] 0"

text \<open>Which key Go's iteration meets first is up to the runtime: \<open>pick\<close>.\<close>

definition anyKey :: "(string list \<Rightarrow> string) \<Rightarrow> string list \<Rightarrow> string" where
  "anyKey pick ks = (if ks = [] then [] else pick ks)"

definition slots :: "EndpointGate \<Rightarrow> int \<Rightarrow> int" where
  "slots g maxConcurrent = (if maxConcurrent < 1 then eg_defaultMax g else maxConcurrent)"

definition Gate_Acquire ::
  "(string list \<Rightarrow> string) \<Rightarrow> instant \<Rightarrow> string \<Rightarrow> string \<Rightarrow> int \<Rightarrow> EndpointGate \<Rightarrow> (string \<times> bool) \<times> EndpointGate" where
  "Gate_Acquire pick now endpoint runID maxConcurrent g =
     (let holders = entries (eg_holders g) endpoint in
      if runID \<in> set holders then ((runID, True), dropWaiter endpoint runID g)
      else
        let g1 = registerWaiter endpoint runID now (evictStaleWaiters endpoint now g) in
        if int (length holders) < slots g maxConcurrent \<and> frontWaiter endpoint g1 = runID
        then ((runID, True),
              let g2 = dropWaiter endpoint runID g1
              in g2\<lparr>eg_holders := set_entries (eg_holders g2) endpoint (holders @ [runID])\<rparr>)
        else if anyKey pick holders \<noteq> [] then ((anyKey pick holders, False), g1)
        else ((frontWaiter endpoint g1, False), g1))"

definition ReleaseByRun :: "string \<Rightarrow> EndpointGate \<Rightarrow> EndpointGate" where
  "ReleaseByRun runID g =
     g\<lparr>eg_holders := (\<lambda>e. case eg_holders g e of
           None \<Rightarrow> None | Some hs \<Rightarrow> (let hs' = filter (\<lambda>h. h \<noteq> runID) hs in if hs' = [] then None else Some hs')),
       eg_waiters := (\<lambda>e. case eg_waiters g e of
           None \<Rightarrow> None | Some ws \<Rightarrow> (let ws' = filter (\<lambda>w. ew_run w \<noteq> runID) ws in if ws' = [] then None else Some ws'))\<rparr>"

section \<open>Histories\<close>

datatype gate_op = GAcquire instant string string int | GRelease string

fun gate_after :: "(string list \<Rightarrow> string) \<Rightarrow> gate_op \<Rightarrow> EndpointGate \<Rightarrow> EndpointGate" where
  "gate_after pick (GAcquire now e r mc) g = snd (Gate_Acquire pick now e r mc g)"
| "gate_after pick (GRelease r) g = ReleaseByRun r g"

definition gate_run :: "(string list \<Rightarrow> string) \<Rightarrow> gate_op list \<Rightarrow> EndpointGate \<Rightarrow> EndpointGate" where
  "gate_run pick ops g = foldl (\<lambda>g op. gate_after pick op g) g ops"

fun op_run :: "gate_op \<Rightarrow> string" where
  "op_run (GAcquire now e r mc) = r"
| "op_run (GRelease r) = r"

abbreviation holders :: "EndpointGate \<Rightarrow> string \<Rightarrow> string list" where
  "holders g e \<equiv> entries (eg_holders g) e"

abbreviation waiters :: "EndpointGate \<Rightarrow> string \<Rightarrow> endpointWaiter list" where
  "waiters g e \<equiv> entries (eg_waiters g) e"

lemma entries_set [simp]: "entries (set_entries m e xs) e' = (if e' = e then xs else entries m e')"
  by (simp add: entries_def set_entries_def)

lemma drop_sel [simp]:
  "entries (eg_waiters (dropWaiter e r g)) e' = (if e' = e then filter (\<lambda>w. ew_run w \<noteq> r) (waiters g e) else waiters g e')"
  "eg_holders (dropWaiter e r g) = eg_holders g" "eg_seq (dropWaiter e r g) = eg_seq g"
  "eg_waiterTTL (dropWaiter e r g) = eg_waiterTTL g" "eg_defaultMax (dropWaiter e r g) = eg_defaultMax g"
  by (auto simp: dropWaiter_def entries_def set_entries_def split: option.splits)

lemma evict_sel [simp]:
  "waiters (evictStaleWaiters e now g) e' =
     (if e' = e then filter (\<lambda>w. now - ew_seen w \<le> eg_waiterTTL g) (waiters g e) else waiters g e')"
  "eg_holders (evictStaleWaiters e now g) = eg_holders g" "eg_seq (evictStaleWaiters e now g) = eg_seq g"
  "eg_waiterTTL (evictStaleWaiters e now g) = eg_waiterTTL g" "eg_defaultMax (evictStaleWaiters e now g) = eg_defaultMax g"
  by (auto simp: evictStaleWaiters_def not_less)

lemma release_sel [simp]:
  "holders (ReleaseByRun r g) e = filter (\<lambda>h. h \<noteq> r) (holders g e)"
  "waiters (ReleaseByRun r g) e = filter (\<lambda>w. ew_run w \<noteq> r) (waiters g e)"
  "eg_seq (ReleaseByRun r g) = eg_seq g" "eg_waiterTTL (ReleaseByRun r g) = eg_waiterTTL g"
  "eg_defaultMax (ReleaseByRun r g) = eg_defaultMax g"
  by (auto simp: ReleaseByRun_def entries_def Let_def split: option.splits)

definition asked :: "EndpointGate \<Rightarrow> string \<Rightarrow> string \<Rightarrow> bool" where
  "asked g e r \<longleftrightarrow> (\<exists>w \<in> set (waiters g e). ew_run w = r)"

lemma register_sel [simp]:
  "waiters (registerWaiter e r now g) e' =
     (if e' \<noteq> e then waiters g e'
      else if asked g e r then map (\<lambda>w. if ew_run w = r then w\<lparr>ew_seen := now\<rparr> else w) (waiters g e)
      else waiters g e @ [\<lparr>ew_run = r, ew_seq = (eg_seq g + 1) mod 2 ^ 64, ew_seen = now\<rparr>])"
  "eg_seq (registerWaiter e r now g) = (if asked g e r then eg_seq g else (eg_seq g + 1) mod 2 ^ 64)"
  "eg_holders (registerWaiter e r now g) = eg_holders g" "eg_waiterTTL (registerWaiter e r now g) = eg_waiterTTL g"
  "eg_defaultMax (registerWaiter e r now g) = eg_defaultMax g"
  by (auto simp: registerWaiter_def asked_def Let_def)


section \<open>Invariant\<close>

definition gate_inv :: "EndpointGate \<Rightarrow> bool" where
  "gate_inv g \<longleftrightarrow> 0 \<le> eg_seq g \<and> 1 \<le> eg_defaultMax g \<and>
     (\<forall>e. distinct (holders g e) \<and> distinct (map ew_run (waiters g e)) \<and> distinct (map ew_seq (waiters g e)) \<and>
          (\<forall>w \<in> set (waiters g e). ew_run w \<noteq> [] \<and> ew_run w \<notin> set (holders g e) \<and> ew_seq w \<le> eg_seq g))"

lemma gate_invD:
  assumes "gate_inv g"
  shows "0 \<le> eg_seq g" and "distinct (holders g e)" and "distinct (map ew_run (waiters g e))"
    and "distinct (map ew_seq (waiters g e))" and "w \<in> set (waiters g e) \<Longrightarrow> ew_run w \<noteq> []"
    and "w \<in> set (waiters g e) \<Longrightarrow> ew_run w \<notin> set (holders g e)" and "w \<in> set (waiters g e) \<Longrightarrow> ew_seq w \<le> eg_seq g"
    and "1 \<le> eg_defaultMax g"
  using assms by (auto simp: gate_inv_def)

lemma gate_inv_new: "gate_inv (NewEndpointGate mc)"
  by (simp add: gate_inv_def NewEndpointGate_def entries_def)

text \<open>The front of the queue is the waiter with the least number, whatever order the map is met in.\<close>

lemma front_loop_least:
  assumes "\<forall>w \<in> set (v # ws). ew_run w \<noteq> []"
  shows "\<exists>u \<in> set (v # ws). front_loop ws (ew_run v) (ew_seq v) = ew_run u \<and> (\<forall>x \<in> set (v # ws). ew_seq u \<le> ew_seq x)"
  using assms
proof (induction ws arbitrary: v)
  case Nil
  then show ?case by simp
next
  case (Cons w ws)
  show ?case
  proof (cases "ew_seq w < ew_seq v")
    case True
    then show ?thesis using Cons.IH [of w] Cons.prems by auto
  next
    case False
    then show ?thesis using Cons.IH [of v] Cons.prems by auto
  qed
qed

lemma front_is_least:
  assumes "gate_inv g" and "waiters g e \<noteq> []"
  shows "frontWaiter e g = r \<longleftrightarrow> (\<exists>u \<in> set (waiters g e). ew_run u = r \<and> (\<forall>x \<in> set (waiters g e). ew_seq u \<le> ew_seq x))"
proof -
  obtain v ws where ws: "waiters g e = v # ws" using assms(2) by (cases "waiters g e") auto
  have front: "frontWaiter e g = front_loop ws (ew_run v) (ew_seq v)" by (simp add: frontWaiter_def ws)
  obtain u where u: "u \<in> set (waiters g e)" "frontWaiter e g = ew_run u" "\<forall>x \<in> set (waiters g e). ew_seq u \<le> ew_seq x"
    using front_loop_least [of v ws] gate_invD(5) [OF assms(1)] unfolding front ws [symmetric] by blast
  moreover have "u' = u" if "u' \<in> set (waiters g e)" "\<forall>x \<in> set (waiters g e). ew_seq u' \<le> ew_seq x" for u'
    using that u gate_invD(4) [OF assms(1)] by (metis antisym distinct_map inj_on_def)
  ultimately show ?thesis by metis
qed

lemma gate_inv_drop: "gate_inv g \<Longrightarrow> gate_inv (dropWaiter e r g)"
  by (auto simp: gate_inv_def distinct_map intro: inj_on_subset)

lemma gate_inv_evict: "gate_inv g \<Longrightarrow> gate_inv (evictStaleWaiters e now g)"
  by (auto simp: gate_inv_def distinct_map intro: inj_on_subset)

lemma gate_inv_release: "gate_inv g \<Longrightarrow> gate_inv (ReleaseByRun r g)"
  by (auto simp: gate_inv_def distinct_map intro: inj_on_subset)

lemma map_seen [simp]:
  "map ew_run (map (\<lambda>w. if ew_run w = r then w\<lparr>ew_seen := now\<rparr> else w) ws) = map ew_run ws"
  "map ew_seq (map (\<lambda>w. if ew_run w = r then w\<lparr>ew_seen := now\<rparr> else w) ws) = map ew_seq ws"
  by auto

lemma gate_inv_register:
  assumes "gate_inv g" and "r \<noteq> []" and "r \<notin> set (holders g e)" and "eg_seq g + 1 < 2 ^ 64"
  shows "gate_inv (registerWaiter e r now g)"
  using assms by (auto simp: gate_inv_def asked_def simp del: map_map split: if_splits) force+


section \<open>Admission\<close>

text \<open>The gate after the caller has been registered, where a refusal leaves it.\<close>

definition queued :: "string \<Rightarrow> string \<Rightarrow> instant \<Rightarrow> EndpointGate \<Rightarrow> EndpointGate" where
  "queued e r now g = registerWaiter e r now (evictStaleWaiters e now g)"

lemma queued_sel [simp]:
  "eg_holders (queued e r now g) = eg_holders g" "eg_waiterTTL (queued e r now g) = eg_waiterTTL g"
  "eg_defaultMax (queued e r now g) = eg_defaultMax g" "e' \<noteq> e \<Longrightarrow> waiters (queued e r now g) e' = waiters g e'"
  by (simp_all add: queued_def)

lemma queued_inv:
  assumes "gate_inv g" and "r \<noteq> []" and "r \<notin> set (holders g e)" and "eg_seq g + 1 < 2 ^ 64"
  shows "gate_inv (queued e r now g)"
  unfolding queued_def using assms by (intro gate_inv_register gate_inv_evict) simp_all

lemma queued_seq: "gate_inv g \<Longrightarrow> eg_seq g + 1 < 2 ^ 64 \<Longrightarrow> eg_seq g \<le> eg_seq (queued e r now g) \<and> eg_seq (queued e r now g) \<le> eg_seq g + 1"
  by (auto simp: queued_def gate_inv_def)

definition live :: "EndpointGate \<Rightarrow> instant \<Rightarrow> endpointWaiter \<Rightarrow> bool" where
  "live g now w \<longleftrightarrow> now - ew_seen w \<le> eg_waiterTTL g"

lemma queued_waiters:
  "set (waiters (queued e r now g) e) =
     {w \<in> set (waiters g e). live g now w \<and> ew_run w \<noteq> r} \<union>
     (if \<exists>w \<in> set (waiters g e). live g now w \<and> ew_run w = r
      then (\<lambda>w. w\<lparr>ew_seen := now\<rparr>) ` {w \<in> set (waiters g e). live g now w \<and> ew_run w = r}
      else {\<lparr>ew_run = r, ew_seq = (eg_seq g + 1) mod 2 ^ 64, ew_seen = now\<rparr>})"
  by (auto simp: queued_def asked_def live_def)

lemma Gate_Acquire_cases:
  obtains (held) "r \<in> set (holders g e)" "Gate_Acquire pick now e r mc g = ((r, True), dropWaiter e r g)"
  | (admitted) "r \<notin> set (holders g e)" "int (length (holders g e)) < slots g mc" "frontWaiter e (queued e r now g) = r"
      "Gate_Acquire pick now e r mc g = ((r, True),
         (dropWaiter e r (queued e r now g))\<lparr>eg_holders := set_entries (eg_holders g) e (holders g e @ [r])\<rparr>)"
  | (refused) h where "r \<notin> set (holders g e)" "\<not> (int (length (holders g e)) < slots g mc \<and> frontWaiter e (queued e r now g) = r)"
      "Gate_Acquire pick now e r mc g = ((h, False), queued e r now g)"
  by (cases "r \<in> set (holders g e)"; cases "int (length (holders g e)) < slots g mc \<and> frontWaiter e (queued e r now g) = r";
      cases "anyKey pick (holders g e) = []")
     (auto simp: Gate_Acquire_def Let_def queued_def [symmetric])

lemma gate_inv_after:
  assumes "gate_inv g" and "op_run op \<noteq> []" and "eg_seq g + 1 < 2 ^ 64"
  shows "gate_inv (gate_after pick op g) \<and> eg_seq (gate_after pick op g) \<le> eg_seq g + 1 \<and>
    eg_waiterTTL (gate_after pick op g) = eg_waiterTTL g \<and> eg_defaultMax (gate_after pick op g) = eg_defaultMax g"
proof (cases op)
  case (GAcquire now e r mc)
  from assms have r: "r \<noteq> []" by (simp add: GAcquire)
  show ?thesis
  proof (cases rule: Gate_Acquire_cases [of r g e pick now mc])
    case held
    then show ?thesis using assms(1) by (simp add: GAcquire gate_inv_drop)
  next
    case admitted
    have "gate_inv (queued e r now g)" using queued_inv [OF assms(1) r admitted(1) assms(3)] .
    then have "gate_inv ((dropWaiter e r (queued e r now g))\<lparr>eg_holders := set_entries (eg_holders g) e (holders g e @ [r])\<rparr>)"
      using admitted(1) gate_inv_drop [of "queued e r now g" e r] by (auto simp: gate_inv_def)
    then show ?thesis using admitted(4) queued_seq [OF assms(1,3)] by (simp add: GAcquire)
  next
    case refused
    then show ?thesis using queued_inv [OF assms(1) r refused(1) assms(3)] queued_seq [OF assms(1,3)] by (simp add: GAcquire)
  qed
next
  case (GRelease r)
  then show ?thesis using assms by (simp add: gate_inv_release)
qed

lemma gate_run_Cons [simp]: "gate_run pick (op # ops) g = gate_run pick ops (gate_after pick op g)"
  and gate_run_Nil [simp]: "gate_run pick [] g = g"
  by (simp_all add: gate_run_def)

lemma gate_inv_run:
  "gate_inv g \<Longrightarrow> \<forall>op \<in> set ops. op_run op \<noteq> [] \<Longrightarrow> eg_seq g + int (length ops) < 2 ^ 64 \<Longrightarrow> gate_inv (gate_run pick ops g)"
proof (induction ops arbitrary: g)
  case (Cons op ops)
  then show ?case using gate_inv_after [of g op pick] by simp
qed simp


text \<open>
  Admission is exactly first come, first served: an ask is granted to a Run that already holds
  the endpoint, and otherwise if and only if a slot is free and no other Run that is still asking
  has a lower number than the caller, whose own number counts only while it is still asking.
\<close>

theorem gate_admits_exactly:
  assumes "gate_inv g" and "runID \<noteq> []" and "eg_seq g + 1 < 2 ^ 64"
  shows "snd (fst (Gate_Acquire pick now endpoint runID maxConcurrent g)) \<longleftrightarrow>
    runID \<in> set (holders g endpoint) \<or>
    int (length (holders g endpoint)) < slots g maxConcurrent \<and>
    (\<forall>w \<in> set (waiters g endpoint). live g now w \<and> ew_run w \<noteq> runID \<longrightarrow>
       (\<exists>own \<in> set (waiters g endpoint). live g now own \<and> ew_run own = runID \<and> ew_seq own < ew_seq w))"
proof (cases "runID \<in> set (holders g endpoint)")
  case True
  then show ?thesis by (simp add: Gate_Acquire_def Let_def)
next
  case False
  let ?q = "queued endpoint runID now g"
  note inv = queued_inv [OF assms(1,2) False assms(3)]
  have ne: "waiters ?q endpoint \<noteq> []" by (auto simp: queued_def asked_def filter_empty_conv)
  have mine: "(eg_seq g + 1) mod 2 ^ 64 = eg_seq g + 1" using gate_invD(1) [OF assms(1)] assms(3) by simp
  have lt: "ew_seq own < ew_seq w" if "own \<in> set (waiters g endpoint)" "w \<in> set (waiters g endpoint)" "ew_run own = runID"
      "ew_run w \<noteq> runID" "ew_seq own \<le> ew_seq w" for own w
    using that gate_invD(4) [OF assms(1), of endpoint] by (metis distinct_map inj_on_def order_less_le)
  have "snd (fst (Gate_Acquire pick now endpoint runID maxConcurrent g)) \<longleftrightarrow>
      int (length (holders g endpoint)) < slots g maxConcurrent \<and> frontWaiter endpoint ?q = runID"
    using False by (auto simp: Gate_Acquire_def Let_def queued_def)
  moreover have "frontWaiter endpoint ?q = runID \<longleftrightarrow>
      (\<forall>w \<in> set (waiters g endpoint). live g now w \<and> ew_run w \<noteq> runID \<longrightarrow>
        (\<exists>own \<in> set (waiters g endpoint). live g now own \<and> ew_run own = runID \<and> ew_seq own < ew_seq w))"
  proof (cases "\<exists>w \<in> set (waiters g endpoint). live g now w \<and> ew_run w = runID")
    case True
    then obtain own where own: "own \<in> set (waiters g endpoint)" "live g now own" "ew_run own = runID" by blast
    have uniq: "w = own" if "w \<in> set (waiters g endpoint)" "ew_run w = runID" for w
      using that own gate_invD(3) [OF assms(1), of endpoint] by (metis distinct_map inj_on_def)
    have "{w \<in> set (waiters g endpoint). live g now w \<and> ew_run w = runID} = {own}" using own uniq by blast
    then have "set (waiters ?q endpoint) = {w \<in> set (waiters g endpoint). live g now w \<and> ew_run w \<noteq> runID} \<union> {own\<lparr>ew_seen := now\<rparr>}"
      unfolding queued_waiters using True by simp
    then have "frontWaiter endpoint ?q = runID \<longleftrightarrow>
        (\<forall>w \<in> set (waiters g endpoint). live g now w \<and> ew_run w \<noteq> runID \<longrightarrow> ew_seq own \<le> ew_seq w)"
      unfolding front_is_least [OF inv ne] using own(3) by auto
    then show ?thesis using own lt uniq by (metis order_less_imp_le)
  next
    case False
    then have "set (waiters ?q endpoint) = {w \<in> set (waiters g endpoint). live g now w \<and> ew_run w \<noteq> runID} \<union>
        {\<lparr>ew_run = runID, ew_seq = eg_seq g + 1, ew_seen = now\<rparr>}"
      using queued_waiters [of endpoint runID now g] mine by auto
    then have "frontWaiter endpoint ?q = runID \<longleftrightarrow>
        (\<forall>w \<in> set (waiters g endpoint). live g now w \<and> ew_run w \<noteq> runID \<longrightarrow> eg_seq g + 1 \<le> ew_seq w)"
      unfolding front_is_least [OF inv ne] by auto
    then show ?thesis using False gate_invD(7) [OF assms(1), where e = endpoint] by fastforce
  qed
  ultimately show ?thesis using False by simp
qed

lemma capacity_after:
  assumes "gate_inv g" and "\<And>now r mc. op = GAcquire now e r mc \<Longrightarrow> slots g mc \<le> m" and "int (length (holders g e)) \<le> m"
  shows "int (length (holders (gate_after pick op g) e)) \<le> m"
proof (cases op)
  case (GAcquire now e' r mc)
  show ?thesis
    by (cases rule: Gate_Acquire_cases [of r g e' pick now mc]; cases "e' = e") (use assms GAcquire in auto)
next
  case (GRelease r)
  then show ?thesis using assms(3) length_filter_le [of "\<lambda>h. h \<noteq> r" "holders g e"] by (simp del: length_filter_le)
qed

text \<open>
  C29. No endpoint is ever over its capacity: over any history of asks and releases, if every ask for
  the endpoint gives it at most m slots, at most m Runs hold it, each once.
\<close>

theorem endpoint_never_oversubscribed:
  assumes "\<forall>op \<in> set ops. op_run op \<noteq> []" and "int (length ops) < 2 ^ 64"
    and "\<forall>now r mc. GAcquire now endpoint r mc \<in> set ops \<longrightarrow> slots (NewEndpointGate dflt) mc \<le> m" and "0 \<le> m"
  shows "int (card (set (holders (gate_run pick ops (NewEndpointGate dflt)) endpoint))) \<le> m"
proof -
  have "gate_inv (gate_run pick ops g) \<and> int (length (holders (gate_run pick ops g) endpoint)) \<le> m"
    if "gate_inv g" "int (length (holders g endpoint)) \<le> m" "eg_defaultMax g = eg_defaultMax (NewEndpointGate dflt)"
      "\<forall>op \<in> set ops. op_run op \<noteq> []" "eg_seq g + int (length ops) < 2 ^ 64"
      "\<forall>now r mc. GAcquire now endpoint r mc \<in> set ops \<longrightarrow> slots (NewEndpointGate dflt) mc \<le> m" for g
    using that
  proof (induction ops arbitrary: g)
    case (Cons op ops)
    have inv: "gate_inv (gate_after pick op g)" "eg_seq (gate_after pick op g) \<le> eg_seq g + 1"
        "eg_defaultMax (gate_after pick op g) = eg_defaultMax g"
      using gate_inv_after [of g op pick] Cons.prems by auto
    have "int (length (holders (gate_after pick op g) endpoint)) \<le> m"
      by (rule capacity_after [OF Cons.prems(1)]) (use Cons.prems in \<open>auto simp: slots_def\<close>)
    then show ?case using Cons.IH [OF inv(1)] inv Cons.prems by auto
  qed simp
  from this [of "NewEndpointGate dflt"] have "gate_inv (gate_run pick ops (NewEndpointGate dflt))"
      "int (length (holders (gate_run pick ops (NewEndpointGate dflt)) endpoint)) \<le> m"
    using assms by (auto simp: gate_inv_new) (auto simp: NewEndpointGate_def entries_def)
  then show ?thesis by (simp add: gate_invD(2) distinct_card)
qed


text \<open>
  \<open>patient ttl e a seen ops\<close>: in this history Run \<open>a\<close>, last seen at \<open>seen\<close>, is not released, and
  whenever anyone asks for the endpoint, \<open>a\<close> has asked within the last \<open>ttl\<close>.
\<close>

fun patient :: "duration \<Rightarrow> string \<Rightarrow> string \<Rightarrow> instant \<Rightarrow> gate_op list \<Rightarrow> bool" where
  "patient ttl e a seen [] = True"
| "patient ttl e a seen (GAcquire now e' r mc # ops) =
     (if e' = e then now - seen \<le> ttl \<and> patient ttl e a (if r = a then now else seen) ops else patient ttl e a seen ops)"
| "patient ttl e a seen (GRelease r # ops) = (r \<noteq> a \<and> patient ttl e a seen ops)"

text \<open>Run \<open>a\<close> waits with number \<open>s\<close>, and \<open>b\<close> neither holds the endpoint nor waits ahead of it.\<close>

definition ahead_of :: "EndpointGate \<Rightarrow> string \<Rightarrow> string \<Rightarrow> int \<Rightarrow> instant \<Rightarrow> string \<Rightarrow> bool" where
  "ahead_of g e a s seen b \<longleftrightarrow>
     (\<exists>w \<in> set (waiters g e). ew_run w = a \<and> ew_seq w = s \<and> ew_seen w = seen) \<and> b \<notin> set (holders g e) \<and>
     (\<forall>w \<in> set (waiters g e). ew_run w = b \<longrightarrow> s < ew_seq w)"

lemma ahead_queued:
  assumes "gate_inv g" and "eg_seq g + 1 < 2 ^ 64" and "ahead_of g e a s seen b" and "now - seen \<le> eg_waiterTTL g" and "a \<noteq> b"
  shows "ahead_of (queued e r now g) e a s (if r = a then now else seen) b"
proof -
  obtain w where w: "w \<in> set (waiters g e)" "ew_run w = a" "ew_seq w = s" "ew_seen w = seen"
    using assms(3) by (auto simp: ahead_of_def)
  have mine: "(eg_seq g + 1) mod 2 ^ 64 = eg_seq g + 1" using gate_invD(1) [OF assms(1)] assms(2) by simp
  have s: "s < eg_seq g + 1" using gate_invD(7) [OF assms(1) w(1)] w(3) by simp
  have lw: "live g now w" using assms(4) w(4) by (simp add: live_def)
  show ?thesis
  proof (cases "r = a")
    case True
    then have "w\<lparr>ew_seen := now\<rparr> \<in> set (waiters (queued e r now g) e)"
      unfolding queued_waiters using w lw by auto
    moreover have "s < ew_seq x" if "x \<in> set (waiters (queued e r now g) e)" "ew_run x = b" for x
      using that assms(3,5) True unfolding queued_waiters by (auto simp: ahead_of_def split: if_splits)
    ultimately show ?thesis using assms(3) True w unfolding ahead_of_def by (intro conjI bexI [of _ "w\<lparr>ew_seen := now\<rparr>"]) simp_all
  next
    case False
    then have "w \<in> set (waiters (queued e r now g) e)" unfolding queued_waiters using w lw by auto
    moreover have "s < ew_seq x" if "x \<in> set (waiters (queued e r now g) e)" "ew_run x = b" for x
      using that assms(3) s mine unfolding queued_waiters by (auto simp: ahead_of_def split: if_splits)
    ultimately show ?thesis using assms(3) False w by (auto simp: ahead_of_def)
  qed
qed

lemma ahead_acquire:
  assumes "gate_inv g" and "r \<noteq> []" and "eg_seq g + 1 < 2 ^ 64" and "ahead_of g e a s seen b"
    and "now - seen \<le> eg_waiterTTL g" and "a \<noteq> b" and "a \<notin> set (holders (snd (Gate_Acquire pick now e r mc g)) e)"
  shows "ahead_of (snd (Gate_Acquire pick now e r mc g)) e a s (if r = a then now else seen) b"
proof (cases rule: Gate_Acquire_cases [of r g e pick now mc])
  case held
  have "a \<notin> set (holders g e)" using assms(7) held(2) by simp
  then have "r \<noteq> a" using held(1) by auto
  then show ?thesis using held assms(4) by (auto simp: ahead_of_def)
next
  case admitted
  note q = ahead_queued [OF assms(1,3,4,5,6), of r] and inv = queued_inv [OF assms(1,2) admitted(1) assms(3), of now]
  have "r \<noteq> a" using assms(7) admitted(4) by auto
  have "waiters (queued e r now g) e \<noteq> []" using q by (auto simp: ahead_of_def)
  then obtain u where u: "u \<in> set (waiters (queued e r now g) e)" "ew_run u = r"
      "\<forall>x \<in> set (waiters (queued e r now g) e). ew_seq u \<le> ew_seq x"
    using front_is_least [OF inv] admitted(3) by blast
  have "r \<noteq> b"
  proof
    assume "r = b"
    then have "s < ew_seq u" using q u(1,2) by (simp add: ahead_of_def)
    moreover have "ew_seq u \<le> s" using q u(3) by (auto simp: ahead_of_def)
    ultimately show False by simp
  qed
  then show ?thesis using q \<open>r \<noteq> a\<close> admitted(4) by (auto simp: ahead_of_def)
next
  case refused
  then show ?thesis using ahead_queued [OF assms(1,3,4,5,6), of r] by simp
qed

lemma ahead_elsewhere:
  assumes "e' \<noteq> e"
  shows "ahead_of (snd (Gate_Acquire pick now e' r mc g)) e a s seen b \<longleftrightarrow> ahead_of g e a s seen b"
  by (cases rule: Gate_Acquire_cases [of r g e' pick now mc]) (use assms in \<open>auto simp: ahead_of_def\<close>)

text \<open>
  C28. No overtaking: while a waiting Run keeps asking and has not been admitted, no Run that first
  asked after it is admitted to the endpoint, however asks and releases interleave.
\<close>

theorem no_overtaking:
  assumes "gate_inv g" and "\<forall>op \<in> set ops. op_run op \<noteq> []" and "eg_seq g + int (length ops) < 2 ^ 64"
    and "w \<in> set (waiters g endpoint)" and "b \<noteq> ew_run w" and "b \<notin> set (holders g endpoint)" and "\<not> asked g endpoint b"
    and "patient (eg_waiterTTL g) endpoint (ew_run w) (ew_seen w) ops"
    and "\<forall>k \<le> length ops. ew_run w \<notin> set (holders (gate_run pick (take k ops) g) endpoint)"
  shows "b \<notin> set (holders (gate_run pick ops g) endpoint)"
proof -
  have "\<exists>seen'. ahead_of (gate_run pick ops g) endpoint a s seen' b"
    if "gate_inv g" "\<forall>op \<in> set ops. op_run op \<noteq> []" "eg_seq g + int (length ops) < 2 ^ 64" "ahead_of g endpoint a s seen b"
      "a \<noteq> b" "patient (eg_waiterTTL g) endpoint a seen ops"
      "\<forall>k \<le> length ops. a \<notin> set (holders (gate_run pick (take k ops) g) endpoint)" for a s seen
    using that
  proof (induction ops arbitrary: g seen)
    case (Cons op ops)
    have inv: "gate_inv (gate_after pick op g)" "eg_seq (gate_after pick op g) \<le> eg_seq g + 1"
        "eg_waiterTTL (gate_after pick op g) = eg_waiterTTL g"
      using gate_inv_after [of g op pick] Cons.prems by auto
    have later: "\<forall>k \<le> length ops. a \<notin> set (holders (gate_run pick (take k ops) (gate_after pick op g)) endpoint)"
      using Cons.prems(7) by (metis Suc_le_mono gate_run_Cons length_Cons take_Suc_Cons)
    then have now: "a \<notin> set (holders (gate_after pick op g) endpoint)" using le0 by fastforce
    obtain seen' where "ahead_of (gate_after pick op g) endpoint a s seen' b" "patient (eg_waiterTTL g) endpoint a seen' ops"
    proof (cases op)
      case (GAcquire now e r mc)
      show ?thesis
      proof (cases "e = endpoint")
        case True
        then show ?thesis using that ahead_acquire [of g r endpoint a s seen b now pick mc] Cons.prems now
          by (simp add: GAcquire)
      next
        case False
        then show ?thesis using that [of seen] Cons.prems ahead_elsewhere [OF False] by (simp add: GAcquire)
      qed
    next
      case (GRelease r)
      then show ?thesis using that [of seen] Cons.prems by (auto simp: ahead_of_def)
    qed
    then show ?case using Cons.IH [OF inv(1)] inv Cons.prems(2,3,5) later by auto
  qed auto
  from this [of "ew_run w" "ew_seq w" "ew_seen w"] show ?thesis
    using assms by (auto simp: ahead_of_def asked_def)
qed


section \<open>A small history\<close>

text \<open>Run a holds the endpoint, b waits behind it, c asks later; a is released and c asks before b.\<close>

definition busy_gate :: EndpointGate where
  "busy_gate = gate_run hd [GAcquire 0 ''u'' ''a'' 0, GAcquire 1 ''u'' ''b'' 0] (NewEndpointGate 1)"

definition late_ask :: "gate_op list" where
  "late_ask = [GAcquire 2 ''u'' ''c'' 0, GRelease ''a'', GAcquire 3 ''u'' ''c'' 0]"

lemma busy_gate_eq:
  "holders busy_gate ''u'' = [''a'']" "waiters busy_gate ''u'' = [\<lparr>ew_run = ''b'', ew_seq = 2, ew_seen = 1\<rparr>]"
  "eg_seq busy_gate = 2" "eg_waiterTTL busy_gate = endpointWaiterTTL"
  by (simp_all add: busy_gate_def gate_run_def NewEndpointGate_def Gate_Acquire_def frontWaiter_def Let_def
      registerWaiter_def evictStaleWaiters_def dropWaiter_def entries_def set_entries_def slots_def anyKey_def)

lemma busy_gate_inv: "gate_inv busy_gate"
  unfolding busy_gate_def by (rule gate_inv_run [OF gate_inv_new]) (simp_all add: NewEndpointGate_def)

theorem gate_admits_exactly_witness:
  "gate_inv busy_gate \<and> \<not> snd (fst (Gate_Acquire hd 2 ''u'' ''c'' 0 busy_gate))"
  using gate_admits_exactly [OF busy_gate_inv, of "''c''" hd 2 "''u''" 0] busy_gate_inv
  by (simp add: busy_gate_eq live_def endpointWaiterTTL_def)

theorem endpoint_never_oversubscribed_witness:
  "int (card (set (holders (gate_run hd late_ask (NewEndpointGate 1)) ''u''))) \<le> 1"
  by (rule endpoint_never_oversubscribed) (auto simp: late_ask_def slots_def NewEndpointGate_def)

theorem no_overtaking_witness:
  "\<not> asked busy_gate ''u'' ''c'' \<and> ''c'' \<notin> set (holders (gate_run hd late_ask busy_gate) ''u'')"
proof -
  let ?w = "\<lparr>ew_run = ''b'', ew_seq = 2, ew_seen = 1\<rparr>"
  have "''b'' \<notin> set (holders (gate_run hd (take k late_ask) busy_gate) ''u'')" if "k \<le> length late_ask" for k
  proof -
    have "k = 0 \<or> k = 1 \<or> k = 2 \<or> k = 3" using that by (auto simp: late_ask_def)
    then show ?thesis
      by (elim disjE)
         (simp_all add: late_ask_def busy_gate_def gate_run_def NewEndpointGate_def Gate_Acquire_def frontWaiter_def Let_def
            registerWaiter_def evictStaleWaiters_def dropWaiter_def entries_def set_entries_def slots_def anyKey_def
            ReleaseByRun_def endpointWaiterTTL_def)
  qed
  then show ?thesis
    using no_overtaking [OF busy_gate_inv, of late_ask ?w "''u''" "''c''" hd]
    by (simp add: busy_gate_eq asked_def endpointWaiterTTL_def) (simp add: late_ask_def)
qed

end
