(* ===== verification/Toolcred_Gate.thy ===== *)
theory Toolcred_Gate
  imports Go_Strings Go_Unicode "HOL-Library.Char_ord" "HOL-Library.List_Lexorder" "HOL-Library.Sublist"
begin

text \<open>
  The go-live gate of tool credentials: the registry of credential types
  (pkg/toolcred/binding.go), the decision for one skill and for a Run (pkg/toolcred/gate.go), what
  a Run's recorded manifest contributes (pkg/capability/gate.go) and the driver's evaluation over
  the Secrets of the namespace (evaluateGoLiveGate in pkg/controller/rundrive/driver.go). The
  lower case of runes beyond ASCII and the Secrets are parameters.
\<close>

section \<open>The registry\<close>

datatype Consumption = ConsumptionMCPHeader | ConsumptionToolchainEnv | ConsumptionFile | OtherConsumption string

record Binding =
  bi_Type :: string
  bi_DisplayName :: string
  bi_DataKey :: string
  bi_Consumption :: Consumption
  bi_EnvVar :: string
  bi_HeaderName :: string
  bi_ProbeKind :: string
  bi_RequiredByGate :: bool

definition ProbeNone :: string where "ProbeNone = ''none''"

definition env_binding :: "string \<Rightarrow> string \<Rightarrow> string \<Rightarrow> string \<Rightarrow> string \<times> Binding" where
  "env_binding t display key var = (t, \<lparr>bi_Type = t, bi_DisplayName = display, bi_DataKey = key,
     bi_Consumption = ConsumptionToolchainEnv, bi_EnvVar = var, bi_HeaderName = [], bi_ProbeKind = ProbeNone, bi_RequiredByGate = True\<rparr>)"

definition header_binding :: "string \<Rightarrow> string \<Rightarrow> string \<Rightarrow> string \<Rightarrow> string \<times> Binding" where
  "header_binding t display key header = (t, \<lparr>bi_Type = t, bi_DisplayName = display, bi_DataKey = key,
     bi_Consumption = ConsumptionMCPHeader, bi_EnvVar = [], bi_HeaderName = header, bi_ProbeKind = ProbeNone, bi_RequiredByGate = True\<rparr>)"

definition bindingTable :: "(string \<times> Binding) list" where
  "bindingTable =
     [env_binding ''github'' ''GitHub'' ''token'' ''GITHUB_TOKEN'',
      env_binding ''dynatrace'' ''Dynatrace'' ''api-token'' ''DT_API_TOKEN'',
      env_binding ''terraform'' ''Terraform Cloud'' ''token'' ''TF_TOKEN'',
      env_binding ''ansible'' ''Ansible'' ''token'' ''ANSIBLE_TOKEN'',
      env_binding ''proxmox-api'' ''Proxmox API'' ''token'' ''PROXMOX_API_TOKEN'',
      header_binding ''linkedin-publish'' ''LinkedIn (publish)'' ''token'' ''Authorization'',
      header_binding ''x-publish'' ''X / Twitter (publish)'' ''token'' ''Authorization'',
      header_binding ''blog-publish'' ''Blog (publish)'' ''token'' ''Authorization'',
      env_binding ''gemini'' ''Google Gemini'' ''api-key'' ''GEMINI_API_KEY'',
      env_binding ''fal.ai'' ''fal.ai'' ''api-key'' ''FAL_KEY'',
      header_binding ''heygen'' ''HeyGen'' ''api-key'' ''X-Api-Key'',
      header_binding ''elevenlabs'' ''ElevenLabs'' ''api-key'' ''xi-api-key'']"

definition LookupBinding :: "string \<Rightarrow> Binding option" where
  "LookupBinding credType = map_of bindingTable credType"

definition IsKnownType :: "string \<Rightarrow> bool" where
  "IsKnownType credType \<longleftrightarrow> map_of bindingTable credType \<noteq> None"

definition BindingTypes :: "string list" where
  "BindingTypes = sort (map fst bindingTable)"

definition Bindings :: "Binding list" where
  "Bindings = map (\<lambda>t. the (LookupBinding t)) BindingTypes"

definition binding_defect :: "string \<times> Binding \<Rightarrow> string option" where
  "binding_defect kb =
     (case kb of (key, b) \<Rightarrow>
        if bi_Type b \<noteq> key then Some ''toolcred: binding key does not match Type''
        else if bi_DataKey b = [] then Some ''toolcred: empty DataKey''
        else
          case (case bi_Consumption b of
                  ConsumptionToolchainEnv \<Rightarrow>
                    (if bi_EnvVar b = [] then Some ''toolcred: toolchain-env but has no EnvVar''
                     else if bi_HeaderName b \<noteq> [] then Some ''toolcred: toolchain-env but sets HeaderName'' else None)
                | ConsumptionMCPHeader \<Rightarrow>
                    (if bi_HeaderName b = [] then Some ''toolcred: mcp-header but has no HeaderName''
                     else if bi_EnvVar b \<noteq> [] then Some ''toolcred: mcp-header but sets EnvVar'' else None)
                | ConsumptionFile \<Rightarrow>
                    (if bi_EnvVar b \<noteq> [] \<or> bi_HeaderName b \<noteq> [] then Some ''toolcred: file but sets EnvVar/HeaderName'' else None)
                | OtherConsumption c \<Rightarrow> Some ''toolcred: unknown Consumption'') of
            Some e \<Rightarrow> Some e
          | None \<Rightarrow> if bi_ProbeKind b = [] then Some ''toolcred: empty ProbeKind'' else None)"

fun ValidateBindings :: "(string \<times> Binding) list \<Rightarrow> string option" where
  "ValidateBindings [] = None"
| "ValidateBindings (kb # t) = (case binding_defect kb of Some e \<Rightarrow> Some e | None \<Rightarrow> ValidateBindings t)"

text \<open>The parts between the separators; a text without a separator is its only part.\<close>

fun split_on :: "char \<Rightarrow> string \<Rightarrow> string list" where
  "split_on c [] = [[]]"
| "split_on c (x # xs) =
     (if x = c then [] # split_on c xs else case split_on c xs of p # ps \<Rightarrow> (x # p) # ps | [] \<Rightarrow> [[x]])"

definition SplitCredentialTypes :: "string \<Rightarrow> string list" where
  "SplitCredentialTypes raw =
     (if TrimSpace raw = [] then []
      else filter (\<lambda>p. p \<noteq> []) (map TrimSpace (split_on (CHR '','') raw)))"

section \<open>Secret names\<close>

definition lower_rune :: "(int \<Rightarrow> int) \<Rightarrow> int \<Rightarrow> int" where
  "lower_rune tbl r = (if 65 \<le> r \<and> r \<le> 90 then r + 32 else if r < 128 then r else tbl r)"

definition is_alnum :: "int \<Rightarrow> bool" where
  "is_alnum r \<longleftrightarrow> (97 \<le> r \<and> r \<le> 122) \<or> (48 \<le> r \<and> r \<le> 57)"

fun dns_loop :: "int list \<Rightarrow> bool \<Rightarrow> string" where
  "dns_loop [] prevDash = []"
| "dns_loop (r # rs) prevDash =
     (if is_alnum r then char_of (nat r) # dns_loop rs False
      else if \<not> prevDash then CHR ''-'' # dns_loop rs True
      else dns_loop rs True)"

definition trim_dashes :: "string \<Rightarrow> string" where
  "trim_dashes s = rev (dropWhile (\<lambda>c. c = CHR ''-'') (rev (dropWhile (\<lambda>c. c = CHR ''-'') s)))"

definition dns1123 :: "(int \<Rightarrow> int) \<Rightarrow> string \<Rightarrow> string" where
  "dns1123 tbl s = trim_dashes (dns_loop (map (\<lambda>rb. lower_rune tbl (fst rb)) (runes s)) False)"

definition MaterializedSecretName :: "(int \<Rightarrow> int) \<Rightarrow> string \<Rightarrow> string \<Rightarrow> string option" where
  "MaterializedSecretName tbl project credType =
     (if \<not> IsKnownType credType then None
      else Some (''proj-'' @ dns1123 tbl project @ ''-cred-'' @ dns1123 tbl credType))"

section \<open>The decision\<close>

record SkillGateVerdict =
  sv_Declared :: "string list"
  sv_Gating :: "string list"
  sv_Admitted :: bool
  sv_Missing :: "string list"

text \<open>Adjacent duplicates of a sorted list are dropped.\<close>

fun dedupe_loop :: "string \<Rightarrow> string list \<Rightarrow> string list" where
  "dedupe_loop prev [] = []"
| "dedupe_loop prev (s # ss) = (if s \<noteq> prev then s # dedupe_loop s ss else dedupe_loop prev ss)"

fun dedupeSorted :: "string list \<Rightarrow> string list" where
  "dedupeSorted [] = []"
| "dedupeSorted (s # ss) = s # dedupe_loop s ss"

definition gates :: "string \<Rightarrow> bool" where
  "gates t \<longleftrightarrow> (case LookupBinding t of Some b \<Rightarrow> bi_RequiredByGate b | None \<Rightarrow> True)"

definition EvaluateSkillGate :: "string \<Rightarrow> (string \<Rightarrow> bool) \<Rightarrow> SkillGateVerdict" where
  "EvaluateSkillGate annotation satisfied =
     (let declared = SplitCredentialTypes annotation; gating = filter gates declared in
      if gating = [] then \<lparr>sv_Declared = declared, sv_Gating = gating, sv_Admitted = True, sv_Missing = []\<rparr>
      else
        let ok = (\<lambda>t. IsKnownType t \<and> satisfied t); admitted = (\<exists>t \<in> set gating. ok t);
            missing = filter (\<lambda>t. \<not> ok t) gating
        in \<lparr>sv_Declared = declared, sv_Gating = gating, sv_Admitted = admitted,
            sv_Missing = (if admitted then [] else dedupeSorted (sort missing))\<rparr>)"

record GatedSkill =
  gs_SourceName :: string
  gs_Annotation :: string

record RunGateDecision =
  rg_Admitted :: bool
  rg_WithheldSkills :: "string list"
  rg_MissingTypes :: "string list"

fun run_gate_loop :: "(string \<Rightarrow> bool) \<Rightarrow> GatedSkill list \<Rightarrow> bool \<Rightarrow> string list \<Rightarrow> string list \<Rightarrow> bool \<times> string list \<times> string list" where
  "run_gate_loop satisfied [] admitted withheld missing = (admitted, withheld, missing)"
| "run_gate_loop satisfied (s # ss) admitted withheld missing =
     (let v = EvaluateSkillGate (gs_Annotation s) satisfied in
      if sv_Admitted v then run_gate_loop satisfied ss admitted withheld missing
      else run_gate_loop satisfied ss False (withheld @ [gs_SourceName s]) (missing @ sv_Missing v))"

definition EvaluateRunGate :: "GatedSkill list \<Rightarrow> (string \<Rightarrow> bool) \<Rightarrow> RunGateDecision" where
  "EvaluateRunGate skills satisfied =
     (case run_gate_loop satisfied skills True [] [] of
        (admitted, withheld, missing) \<Rightarrow>
          \<lparr>rg_Admitted = admitted, rg_WithheldSkills = withheld,
           rg_MissingTypes = (if admitted then [] else dedupeSorted (sort missing))\<rparr>)"

text \<open>\<open>present = None\<close> is a nil probe.\<close>

definition ProjectSatisfiedTypes ::
  "(int \<Rightarrow> int) \<Rightarrow> string \<Rightarrow> string list \<Rightarrow> (string \<Rightarrow> bool) option \<Rightarrow> string \<Rightarrow> bool" where
  "ProjectSatisfiedTypes tbl project candidateTypes present =
     (case present of
        None \<Rightarrow> (\<lambda>t. False)
      | Some p \<Rightarrow> (\<lambda>t. t \<in> set candidateTypes \<and>
          (case MaterializedSecretName tbl project t of None \<Rightarrow> False | Some name \<Rightarrow> p name)))"

section \<open>The Run's manifest and the driver's evaluation\<close>

record GrantedSkill =
  sk_Namespace :: string
  sk_Name :: string
  sk_CredentialType :: string

definition GatedSkillsFromManifest :: "GrantedSkill list option \<Rightarrow> GatedSkill list" where
  "GatedSkillsFromManifest m =
     (case m of
        None \<Rightarrow> []
      | Some skills \<Rightarrow>
          map (\<lambda>s. \<lparr>gs_SourceName = sk_Namespace s @ ''/'' @ sk_Name s, gs_Annotation = sk_CredentialType s\<rparr>)
            (filter (\<lambda>s. sk_CredentialType s \<noteq> []) skills))"

fun candidate_loop :: "string list \<Rightarrow> string list \<Rightarrow> string list" where
  "candidate_loop seen [] = []"
| "candidate_loop seen (t # ts) = (if t \<in> set seen then candidate_loop seen ts else t # candidate_loop (t # seen) ts)"

definition CandidateCredentialTypes :: "GatedSkill list \<Rightarrow> string list" where
  "CandidateCredentialTypes gated = candidate_loop [] (concat (map (\<lambda>g. SplitCredentialTypes (gs_Annotation g)) gated))"

definition LabelManagedCredential :: string where
  "LabelManagedCredential = ''ksquad.io/managed-credential''"

text \<open>\<open>getSecret\<close> is the read of a Secret's labels by namespace and name; \<open>None\<close> is any error.\<close>

definition managed_present :: "(string \<Rightarrow> string \<Rightarrow> (string \<times> string) list option) \<Rightarrow> string \<Rightarrow> string \<Rightarrow> bool" where
  "managed_present getSecret ns name =
     (case getSecret ns name of
        None \<Rightarrow> False
      | Some labels \<Rightarrow> (case map_of labels LabelManagedCredential of None \<Rightarrow> False | Some v \<Rightarrow> v \<noteq> []))"

definition evaluateGoLiveGate ::
  "(int \<Rightarrow> int) \<Rightarrow> (string \<Rightarrow> string \<Rightarrow> (string \<times> string) list option) \<Rightarrow> GrantedSkill list option \<Rightarrow> string \<Rightarrow> string \<Rightarrow>
   RunGateDecision" where
  "evaluateGoLiveGate tbl getSecret manifest project ns =
     (let gated = GatedSkillsFromManifest manifest in
      if gated = [] then \<lparr>rg_Admitted = True, rg_WithheldSkills = [], rg_MissingTypes = []\<rparr>
      else EvaluateRunGate gated
             (ProjectSatisfiedTypes tbl project (CandidateCredentialTypes gated) (Some (managed_present getSecret ns))))"


section \<open>Exactness\<close>

lemma dedupe_loop_set: "sorted (p # ss) \<Longrightarrow> set (dedupe_loop p ss) = set ss - {p} \<and> sorted (dedupe_loop p ss) \<and> distinct (p # dedupe_loop p ss) \<and> (\<forall>x \<in> set (dedupe_loop p ss). p < x)"
proof (induction p ss rule: dedupe_loop.induct)
  case (2 p s ss)
  show ?case
  proof (cases "s = p")
    case True
    then show ?thesis using 2 by auto
  next
    case False
    then have "p < s" using 2(3) by auto
    moreover have "sorted (s # ss)" using 2(3) by simp
    ultimately show ?thesis using 2(1) [OF False] False by fastforce
  qed
qed simp

lemma dedupe_sort [simp]: "set (dedupeSorted (sort xs)) = set xs"
  and dedupe_sorted: "sorted (dedupeSorted (sort xs)) \<and> distinct (dedupeSorted (sort xs))"
proof -
  have "set (dedupeSorted ys) = set ys \<and> sorted (dedupeSorted ys) \<and> distinct (dedupeSorted ys)" if "sorted ys" for ys
    using that dedupe_loop_set by (cases ys) (auto simp: less_imp_le)
  from this [of "sort xs"] show "set (dedupeSorted (sort xs)) = set xs"
    and "sorted (dedupeSorted (sort xs)) \<and> distinct (dedupeSorted (sort xs))" by simp_all
qed

text \<open>The types that gate a skill, and whether the project has one of them.\<close>

definition gating :: "GatedSkill \<Rightarrow> string set" where
  "gating s = {t \<in> set (SplitCredentialTypes (gs_Annotation s)). gates t}"

definition withheld :: "(string \<Rightarrow> bool) \<Rightarrow> GatedSkill \<Rightarrow> bool" where
  "withheld satisfied s \<longleftrightarrow> gating s \<noteq> {} \<and> (\<forall>t \<in> gating s. \<not> (IsKnownType t \<and> satisfied t))"

lemma skill_gate:
  "sv_Admitted (EvaluateSkillGate (gs_Annotation s) satisfied) = (\<not> withheld satisfied s)"
  "withheld satisfied s \<Longrightarrow> set (sv_Missing (EvaluateSkillGate (gs_Annotation s) satisfied)) = gating s"
  by (auto simp: EvaluateSkillGate_def withheld_def gating_def Let_def filter_empty_conv)

lemma run_gate_loop_eq:
  "run_gate_loop satisfied ss adm wh ms =
     (adm \<and> (\<forall>s \<in> set ss. \<not> withheld satisfied s), wh @ map gs_SourceName (filter (withheld satisfied) ss),
      ms @ concat (map (\<lambda>s. sv_Missing (EvaluateSkillGate (gs_Annotation s) satisfied)) (filter (withheld satisfied) ss)))"
  by (induction ss arbitrary: adm wh ms) (auto simp: skill_gate Let_def)

text \<open>
  The decision for a Run is exact and fails closed: the Run is admitted exactly when every gated
  skill has a credential type that is known to the registry and materialized; the withheld skills
  are the others in their order; and the missing types are, sorted and without repetition,
  precisely the types that gate a withheld skill.
\<close>

theorem run_gate_exact:
  "rg_Admitted (EvaluateRunGate skills satisfied) = (\<forall>s \<in> set skills. \<not> withheld satisfied s) \<and>
   rg_WithheldSkills (EvaluateRunGate skills satisfied) = map gs_SourceName (filter (withheld satisfied) skills) \<and>
   set (rg_MissingTypes (EvaluateRunGate skills satisfied)) = (\<Union>s \<in> {s \<in> set skills. withheld satisfied s}. gating s) \<and>
   sorted (rg_MissingTypes (EvaluateRunGate skills satisfied)) \<and> distinct (rg_MissingTypes (EvaluateRunGate skills satisfied))"
  using dedupe_sorted by (auto simp: EvaluateRunGate_def run_gate_loop_eq skill_gate)

lemma candidate_loop_set [simp]: "set (candidate_loop seen ts) = set ts - set seen"
  by (induction seen ts rule: candidate_loop.induct) auto

section \<open>Names\<close>

lemma runes_ascii: "\<forall>c \<in> set s. of_char c < (128 :: int) \<Longrightarrow> runes s = map (\<lambda>c. (of_char c, [c])) s"
proof (induction s)
  case (Cons c s)
  have "decode_rune (c # s) = (of_char c, 1)" using Cons.prems by (simp add: decode_rune_def Let_def)
  then show ?case using Cons by (simp add: runes.simps [of "c # s"])
qed (simp add: runes.simps)

text \<open>Names of lower case letters, digits and single dashes between them; \<open>dash\<close> says that a dash precedes.\<close>

fun plain :: "bool \<Rightarrow> string \<Rightarrow> bool" where
  "plain dash [] = (\<not> dash)"
| "plain dash (c # cs) = (if c = CHR ''-'' then \<not> dash \<and> plain True cs else is_alnum (of_char c) \<and> plain False cs)"

definition plain_name :: "string \<Rightarrow> bool" where
  "plain_name s \<longleftrightarrow> plain True s"

lemma plain_ascii: "plain d s \<Longrightarrow> c \<in> set s \<Longrightarrow> of_char c < (128 :: int) \<and> lower_rune tbl (of_char c) = of_char c"
  by (induction d s rule: plain.induct) (auto simp: is_alnum_def lower_rune_def split: if_splits)

lemma plain_dns_loop: "plain d s \<Longrightarrow> dns_loop (map of_char s) d = s"
  by (induction d s rule: plain.induct) (auto simp: is_alnum_def split: if_splits)

lemma plain_last: "plain d s \<Longrightarrow> s \<noteq> [] \<Longrightarrow> last s \<noteq> CHR ''-''"
  by (induction d s rule: plain.induct) (auto split: if_splits)

lemma plain_no_lead: "plain True s \<Longrightarrow> \<exists>c cs. s = c # cs \<and> c \<noteq> CHR ''-'' \<and> plain False s"
  by (cases s) (auto split: if_splits)

lemma dns_plain: "plain_name s \<Longrightarrow> dns1123 tbl s = s"
proof -
  assume "plain_name s"
  then have p: "plain True s" by (simp add: plain_name_def)
  then have f: "plain False s" and ne: "s \<noteq> []" and hd: "hd s \<noteq> CHR ''-''" using plain_no_lead [OF p] by auto
  have "map (\<lambda>rb. lower_rune tbl (fst rb)) (runes s) = map of_char s"
    using plain_ascii [OF p] by (simp add: runes_ascii)
  moreover have "trim_dashes s = s"
  proof -
    have "dropWhile (\<lambda>c. c = CHR ''-'') s = s" using ne hd by (cases s) auto
    moreover have "dropWhile (\<lambda>c. c = CHR ''-'') (rev s) = rev s"
      using ne plain_last [OF p ne] by (cases s rule: rev_cases) auto
    ultimately show ?thesis by (simp add: trim_dashes_def)
  qed
  ultimately show ?thesis using plain_dns_loop [OF f] by (simp add: dns1123_def)
qed

text \<open>No registered type ends another, also not after its dot became a dash.\<close>

definition type_tail :: "string \<Rightarrow> string" where
  "type_tail t = ''-cred-'' @ (if t = ''fal.ai'' then ''fal-ai'' else t)"

lemma known_types: "IsKnownType t \<longleftrightarrow> t \<in> set (map fst bindingTable)"
  by (auto simp: IsKnownType_def map_of_eq_None_iff)

lemma dns_dotted: "dns1123 tbl ''fal.ai'' = ''fal-ai''"
  by (simp add: dns1123_def runes_ascii lower_rune_def is_alnum_def trim_dashes_def char_of_def bit_0)

lemma dns_types: "IsKnownType t \<Longrightarrow> ''-cred-'' @ dns1123 tbl t = type_tail t"
  by (auto simp: known_types bindingTable_def env_binding_def header_binding_def type_tail_def dns_dotted
      plain_name_def is_alnum_def intro!: dns_plain)

lemma tails_differ: "\<forall>t \<in> set (map fst bindingTable). \<forall>t' \<in> set (map fst bindingTable). suffix (type_tail t) (type_tail t') \<longrightarrow> t = t'"
  by code_simp

text \<open>
  The Secret of a credential belongs to one project and one type: for projects whose names are
  made of lower case letters, digits and single inner dashes, different projects or different
  types have different Secret names, so no project is admitted on a sibling's credential.
\<close>

theorem secret_names_project_scoped:
  assumes "plain_name project" and "plain_name project'" and "IsKnownType credType" and "IsKnownType credType'"
    and "(project, credType) \<noteq> (project', credType')"
  shows "MaterializedSecretName tbl project credType \<noteq> MaterializedSecretName tbl project' credType'"
proof
  assume "MaterializedSecretName tbl project credType = MaterializedSecretName tbl project' credType'"
  then have eq: "project @ type_tail credType = project' @ type_tail credType'"
    using assms dns_types [OF assms(3), of tbl] dns_types [OF assms(4), of tbl]
    by (auto simp: MaterializedSecretName_def dns_plain)
  then have "suffix (type_tail credType) (type_tail credType') \<or> suffix (type_tail credType') (type_tail credType)"
    by (metis suffix_def suffix_same_cases)
  moreover have "credType \<in> set (map fst bindingTable)" "credType' \<in> set (map fst bindingTable)"
    using assms(3,4) by (simp_all only: known_types)
  ultimately have "credType = credType'" using tails_differ by metis
  then show False using eq assms(5) by simp
qed

theorem secret_names_project_scoped_witness:
  "MaterializedSecretName id ''web-app'' ''fal.ai'' \<noteq> MaterializedSecretName id ''web'' ''gemini''"
  by (rule secret_names_project_scoped) code_simp+

text \<open>
  Names that the normal form identifies share their Secrets: Kubernetes allows dots and repeated
  dashes in a name.
\<close>

lemma sibling_projects_share_secret:
  "MaterializedSecretName id ''web.app'' ''github'' = MaterializedSecretName id ''web-app'' ''github''"
  "MaterializedSecretName id ''web--app'' ''github'' = MaterializedSecretName id ''web-app'' ''github''"
  by (simp_all add: MaterializedSecretName_def dns1123_def runes_ascii lower_rune_def is_alnum_def trim_dashes_def char_of_def bit_0)

section \<open>The driver's evaluation\<close>

text \<open>
  C30. The gate admits a Run exactly when every skill of its manifest whose annotation names a gating
  type has one of those types, known to the registry, as a managed Secret under the project's own
  name; a Secret that cannot be read or is not managed counts as absent.
\<close>

theorem go_live_gate_exact:
  "rg_Admitted (evaluateGoLiveGate tbl getSecret (Some skills) project ns) \<longleftrightarrow>
   (\<forall>sk \<in> set skills. (\<exists>t \<in> set (SplitCredentialTypes (sk_CredentialType sk)). gates t) \<longrightarrow>
      (\<exists>t \<in> set (SplitCredentialTypes (sk_CredentialType sk)). gates t \<and>
         (\<exists>name. MaterializedSecretName tbl project t = Some name \<and> managed_present getSecret ns name)))"
proof -
  let ?gated = "GatedSkillsFromManifest (Some skills)"
  let ?sat = "ProjectSatisfiedTypes tbl project (CandidateCredentialTypes ?gated) (Some (managed_present getSecret ns))"
  have bare: "SplitCredentialTypes [] = []" by (simp add: SplitCredentialTypes_def TrimSpace_def strip_left.simps)
  have "rg_Admitted (evaluateGoLiveGate tbl getSecret (Some skills) project ns) \<longleftrightarrow> (\<forall>s \<in> set ?gated. \<not> withheld ?sat s)"
    using run_gate_exact by (auto simp: evaluateGoLiveGate_def Let_def)
  also have "\<dots> \<longleftrightarrow> (\<forall>sk \<in> set skills. sk_CredentialType sk \<noteq> [] \<longrightarrow>
      \<not> withheld ?sat \<lparr>gs_SourceName = sk_Namespace sk @ ''/'' @ sk_Name sk, gs_Annotation = sk_CredentialType sk\<rparr>)"
    by (auto simp: GatedSkillsFromManifest_def)
  also have "\<dots> \<longleftrightarrow> (\<forall>sk \<in> set skills. (\<exists>t \<in> set (SplitCredentialTypes (sk_CredentialType sk)). gates t) \<longrightarrow>
      (\<exists>t \<in> set (SplitCredentialTypes (sk_CredentialType sk)). gates t \<and>
         (\<exists>name. MaterializedSecretName tbl project t = Some name \<and> managed_present getSecret ns name)))"
  proof (intro ball_cong refl)
    fix sk assume sk: "sk \<in> set skills"
    let ?ts = "set (SplitCredentialTypes (sk_CredentialType sk))"
    have sat: "IsKnownType t \<and> ?sat t \<longleftrightarrow>
        (\<exists>name. MaterializedSecretName tbl project t = Some name \<and> managed_present getSecret ns name)"
      if "t \<in> ?ts" "sk_CredentialType sk \<noteq> []" for t
      using that sk by (auto simp: ProjectSatisfiedTypes_def CandidateCredentialTypes_def GatedSkillsFromManifest_def
          MaterializedSecretName_def split: if_splits option.splits)
    show "(sk_CredentialType sk \<noteq> [] \<longrightarrow>
        \<not> withheld ?sat \<lparr>gs_SourceName = sk_Namespace sk @ ''/'' @ sk_Name sk, gs_Annotation = sk_CredentialType sk\<rparr>) \<longleftrightarrow>
      ((\<exists>t \<in> ?ts. gates t) \<longrightarrow> (\<exists>t \<in> ?ts. gates t \<and>
         (\<exists>name. MaterializedSecretName tbl project t = Some name \<and> managed_present getSecret ns name)))"
      using sat bare by (cases "sk_CredentialType sk = []") (auto simp: withheld_def gating_def)
  qed
  finally show ?thesis .
qed

definition image_skill :: GrantedSkill where
  "image_skill = \<lparr>sk_Namespace = ''ns'', sk_Name = ''image'', sk_CredentialType = ''gemini,fal.ai''\<rparr>"

definition one_secret :: "string \<Rightarrow> string \<Rightarrow> (string \<times> string) list option" where
  "one_secret ns name = (if name = ''proj-web-cred-fal-ai'' then Some [(LabelManagedCredential, ''true'')] else None)"

lemma image_types: "SplitCredentialTypes ''gemini,fal.ai'' = [''gemini'', ''fal.ai'']"
  by code_simp

lemma image_gates: "gates ''gemini''" "gates ''fal.ai''" "IsKnownType ''gemini''" "IsKnownType ''fal.ai''"
  by code_simp+

theorem go_live_gate_exact_witness:
  "rg_Admitted (evaluateGoLiveGate id one_secret (Some [image_skill]) ''web'' ''ns'') \<and>
   \<not> rg_Admitted (evaluateGoLiveGate id one_secret (Some [image_skill]) ''shop'' ''ns'')"
proof -
  have plain: "plain_name ''web''" "plain_name ''shop''" "plain_name ''gemini''" by code_simp+
  have "MaterializedSecretName id ''web'' ''fal.ai'' = Some ''proj-web-cred-fal-ai''"
    "MaterializedSecretName id ''shop'' ''fal.ai'' = Some ''proj-shop-cred-fal-ai''"
    "MaterializedSecretName id ''shop'' ''gemini'' = Some ''proj-shop-cred-gemini''"
    by (simp_all add: MaterializedSecretName_def image_gates dns_dotted dns_plain [OF plain(1)] dns_plain [OF plain(2)] dns_plain [OF plain(3)])
  then show ?thesis
    unfolding go_live_gate_exact
    by (simp add: image_skill_def image_types image_gates managed_present_def one_secret_def)
qed

theorem run_gate_exact_witness:
  "\<not> rg_Admitted (EvaluateRunGate [\<lparr>gs_SourceName = ''ns/image'', gs_Annotation = ''gemini,fal.ai''\<rparr>] (\<lambda>t. False)) \<and>
   set (rg_MissingTypes (EvaluateRunGate [\<lparr>gs_SourceName = ''ns/image'', gs_Annotation = ''gemini,fal.ai''\<rparr>] (\<lambda>t. False))) =
     {''gemini'', ''fal.ai''}"
proof -
  let ?s = "\<lparr>gs_SourceName = ''ns/image'', gs_Annotation = ''gemini,fal.ai''\<rparr>"
  have "withheld (\<lambda>t. False) ?s" "gating ?s = {''gemini'', ''fal.ai''}"
    by (auto simp: withheld_def gating_def image_types image_gates)
  then show ?thesis using run_gate_exact [of "[?s]" "\<lambda>t. False"] by simp
qed

text \<open>The registry is well formed, so the package's initialisation does not panic.\<close>

lemma registry_valid: "ValidateBindings bindingTable = None"
  by (simp add: bindingTable_def env_binding_def header_binding_def binding_defect_def ProbeNone_def)

end
