(* ===== verification/Run_Driver.thy ===== *)
theory Run_Driver
  imports Drive_Claims Prod_Resume Endpoint_Gate Toolcred_Gate Go_Unicode
begin

text \<open>
  One pass of the run driver (pkg/controller/rundrive/driver.go, with the runner of store.go): it
  reads the Run and its claim, completes kills, parks pauses, detects dead attempts and gone
  sandboxes, takes or renews custody, evaluates the go-live gate and drives the machine, and
  decides what the controller does next. A pass is a sequence of calls on the database; what other
  processes do to the database before a call is an argument of the pass. The drive of the machine is
  one such call: others act before it and not between its transactions, whose interleaving with
  other workers is the subject of \<open>Failover\<close> and \<open>Prod_Interleaving\<close>. The Kubernetes API, the uuid
  parser, the table of printable runes, the physical ports and the helpers of the condition library
  are parameters; spans and log lines are left out.
\<close>

section \<open>The Run and the driver\<close>

record Condition =
  cd_Type :: string
  cd_Status :: bool
  cd_Reason :: string
  cd_Message :: string
  cd_Generation :: int

record Run =
  run_UID :: string
  run_Namespace :: string
  run_Name :: string
  run_Generation :: int
  run_Deleting :: bool
  run_WorkItemRef :: string
  run_Project :: string
  run_Agents :: "string list"
  run_MaxRetries :: "int option"
  run_BackoffSeconds :: "int option"
  run_TraceID :: string
  run_SandboxRef :: "(string \<times> string) option"
  run_Manifest :: "GrantedSkill list option"
  run_Conditions :: "Condition list"

datatype api_result = ApiOk | ApiNotFound | ApiErr string

datatype sentinel = SandboxPending | EndpointSlotBusy | FailClosedErr

datatype kick_event = KickResume | KickPhase string

text \<open>
  The driver's wiring. Its optional members are options or flags; \<open>dr_isErr\<close> says which sentinel the
  chain of an error carries, \<open>dr_setCond\<close> and \<open>dr_removeCond\<close> are the condition helpers of the
  Kubernetes libraries with the flag they return.
\<close>

record Driver =
  dr_principal :: string
  dr_isUuid :: "string \<Rightarrow> bool"
  dr_isPrint :: "int \<Rightarrow> bool"
  dr_carrier :: "json option"
  dr_binder :: "(phys list \<Rightarrow> string \<Rightarrow> string + string) option"
  dr_dispatcher :: "(phys list \<Rightarrow> string \<Rightarrow> string \<Rightarrow> string option) option"
  dr_credWriter :: "(phys list \<Rightarrow> string \<Rightarrow> string \<Rightarrow> string option) option"
  dr_refObserver :: "(phys list \<Rightarrow> string \<Rightarrow> string \<Rightarrow> string option) option"
  dr_Sandbox :: bool
  dr_BindClear :: bool
  dr_EndpointGate :: bool
  dr_Settle :: bool
  dr_Notify :: bool
  dr_NotifyPhase :: bool
  dr_MaxPasses :: int
  dr_Pauses :: ResumeConfig
  dr_isErr :: "sentinel \<Rightarrow> string \<Rightarrow> bool"
  dr_lower :: "int \<Rightarrow> int"
  dr_getSecret :: "string \<Rightarrow> string \<Rightarrow> (string \<times> string) list option"
  dr_setCond :: "Condition list \<Rightarrow> Condition \<Rightarrow> bool \<times> Condition list"
  dr_removeCond :: "Condition list \<Rightarrow> string \<Rightarrow> bool \<times> Condition list"

text \<open>
  What one pass meets: the statements that fail and the clock, by the name of the call; the answers
  of the API; the random draw; the statements and clock of the machine's drive; and what other
  processes do to the database before a call. The calls are named; the drive of the machine is the
  one call \<open>''drive''\<close>.
\<close>

record pass_env =
  pv_get :: api_result
  pv_pod :: api_result
  pv_patch :: "string \<Rightarrow> api_result"
  pv_flt :: "string \<Rightarrow> dbfaults"
  pv_pflt :: pfaults
  pv_now :: "string \<Rightarrow> instant"
  pv_rand :: nat
  pv_store :: store_env
  pv_others :: "string \<Rightarrow> prod_db \<Rightarrow> prod_db"

record world =
  wd_db :: prod_db
  wd_pauses :: "prod_pause_row list"
  wd_gate :: EndpointGate
  wd_log :: "phys list"
  wd_torn :: "string list"
  wd_kicks :: "kick_event list"
  wd_run :: Run

text \<open>\<open>Inr None\<close> ends the pass, \<open>Inr (Some d)\<close> asks for another after \<open>d\<close>, \<open>Inl\<close> is the error the
  controller backs off on.\<close>

type_synonym pass_result = "(string + duration option) \<times> world"

abbreviation absorb :: "string + duration option" where "absorb \<equiv> Inr None"

definition continueDelay :: duration where "continueDelay = 2 * 1000000000"
definition endpointSlotWaitDelay :: duration where "endpointSlotWaitDelay = 10 * 1000000000"
definition defaultBackoffBase :: duration where "defaultBackoffBase = 1000000000"
definition backoffCap :: duration where "backoffCap = 5 * 60 * 1000000000"
definition DefaultMaxPasses :: int where "DefaultMaxPasses = 64"

definition maxPasses :: "Driver \<Rightarrow> int" where
  "maxPasses D = (if dr_MaxPasses D > 0 then dr_MaxPasses D else DefaultMaxPasses)"

definition firstAgentName :: "Run \<Rightarrow> string" where
  "firstAgentName run = (case run_Agents run of [] \<Rightarrow> [] | a # _ \<Rightarrow> a)"

definition maxRetries :: "Run \<Rightarrow> int" where
  "maxRetries run = (case run_MaxRetries run of None \<Rightarrow> 0 | Some n \<Rightarrow> n)"

definition BackoffFor :: "nat \<Rightarrow> Run \<Rightarrow> int \<Rightarrow> duration" where
  "BackoffFor k run attempt =
     (let base = (case run_BackoffSeconds run of
                    None \<Rightarrow> defaultBackoffBase
                  | Some b \<Rightarrow> if b \<ge> 1 then wrap64 (b * 1000000000) else defaultBackoffBase)
      in EqualJitter base backoffCap attempt k)"

definition isPaused :: "Step \<Rightarrow> bool" where
  "isPaused s \<longleftrightarrow> s = StepPaused \<or> s = StepPausedRateLimited"

definition inFlightStep :: "Step \<Rightarrow> bool" where
  "inFlightStep s \<longleftrightarrow> s = StepDispatching \<or> s = StepRunning \<or> s = StepCollecting"

definition dead :: "instant \<Rightarrow> ClaimState \<Rightarrow> bool" where
  "dead now cs \<longleftrightarrow> cs_Holder cs \<noteq> [] \<and> (case cs_Lease cs of None \<Rightarrow> False | Some l \<Rightarrow> inFlightStep (cs_Step cs) \<and> now > l)"

definition leaseExpired :: "instant \<Rightarrow> ClaimState \<Rightarrow> bool" where
  "leaseExpired now cs \<longleftrightarrow> (case cs_Lease cs of None \<Rightarrow> True | Some l \<Rightarrow> now > l)"

section \<open>Calls\<close>

definition before :: "pass_env \<Rightarrow> string \<Rightarrow> world \<Rightarrow> world" where
  "before env call w = w\<lparr>wd_db := pv_others env call (wd_db w)\<rparr>"

definition kick :: "bool \<Rightarrow> kick_event \<Rightarrow> world \<Rightarrow> world" where
  "kick wired k w = (if wired then w\<lparr>wd_kicks := wd_kicks w @ [k]\<rparr> else w)"

definition release_sandbox :: "Driver \<Rightarrow> world \<Rightarrow> world" where
  "release_sandbox D w = (if dr_Sandbox D then w\<lparr>wd_torn := wd_torn w @ [run_UID (wd_run w)]\<rparr> else w)"

definition release_endpoint :: "Driver \<Rightarrow> world \<Rightarrow> world" where
  "release_endpoint D w = (if dr_EndpointGate D then w\<lparr>wd_gate := ReleaseByRun (run_UID (wd_run w)) (wd_gate w)\<rparr> else w)"

definition set_conditions :: "Condition list \<Rightarrow> world \<Rightarrow> world" where
  "set_conditions cs w = w\<lparr>wd_run := (wd_run w)\<lparr>run_Conditions := cs\<rparr>\<rparr>"

section \<open>Paths that end a pass early\<close>

definition ConditionInvalidWorkItemRef :: string where "ConditionInvalidWorkItemRef = ''InvalidWorkItemRef''"
definition ConditionEndpointSlotWait :: string where "ConditionEndpointSlotWait = ''WaitingForEndpointSlot''"

definition abandonInvalidRef :: "Driver \<Rightarrow> pass_env \<Rightarrow> world \<Rightarrow> pass_result" where
  "abandonInvalidRef D env w =
     (let run = wd_run w in
      case dr_setCond D (run_Conditions run)
             \<lparr>cd_Type = ConditionInvalidWorkItemRef, cd_Status = True, cd_Reason = ''UnparseableWorkItemRef'',
              cd_Message = ''spec.workItemRef '' @ Quote (dr_isPrint D) (run_WorkItemRef run) @
                '' is not a work-item UUID; no coordination row can exist for it. run-drive abandons this Run '' @ em_dash @
                '' fix the ref to a coord work-item UUID or delete the Run.'',
              cd_Generation = run_Generation run\<rparr> of
        (changed, conds) \<Rightarrow>
          if \<not> changed then (absorb, w)
          else case pv_patch env ''invalid ref'' of
            ApiOk \<Rightarrow> (absorb, set_conditions conds w)
          | ApiNotFound \<Rightarrow> (absorb, w)
          | ApiErr e \<Rightarrow> (Inl (''rundrive: surface invalid workItemRef for '' @ run_Namespace run @ ''/'' @ run_Name run @ '': '' @ e), w))"

definition Driver_park :: "Driver \<Rightarrow> pass_env \<Rightarrow> world \<Rightarrow> pass_result" where
  "Driver_park D env w =
     (let ref = run_WorkItemRef (wd_run w) in
      case Pending (pv_pflt env) ref (wd_pauses w) of
        Inl e \<Rightarrow> (Inl (''rundrive: pause lookup: '' @ e), w)
      | Inr (Some at) \<Rightarrow> (absorb, w)
      | Inr None \<Rightarrow>
          (case ProdPause (dr_Pauses D) (pv_pflt env) (pv_rand env) (pv_now env ''pause'') ref (run_UID (wd_run w)) None (wd_pauses w) of
             (Inl e, t) \<Rightarrow> (Inl (''rundrive: record pause: '' @ e), w\<lparr>wd_pauses := t\<rparr>)
           | (Inr info, t) \<Rightarrow> (absorb, kick (dr_Notify D) KickResume (w\<lparr>wd_pauses := t\<rparr>))))"

definition cancelFinish :: "Driver \<Rightarrow> pass_env \<Rightarrow> ClaimState \<Rightarrow> world \<Rightarrow> pass_result" where
  "cancelFinish D env cs w0 =
     (let w1 = before env ''cancel-finish'' (release_sandbox D w0) in
      case Claims_CancelFinish (dr_principal D) (pv_flt env ''cancel-finish'') (pv_now env ''cancel-finish'')
             (run_WorkItemRef (wd_run w1)) (run_UID (wd_run w1)) (cs_Fence cs) (wd_db w1) of
        (Inl e, db) \<Rightarrow> (Inl (''rundrive: cancel-finish: '' @ e), w1\<lparr>wd_db := db\<rparr>)
      | (Inr False, db) \<Rightarrow> (Inr (Some continueDelay), w1\<lparr>wd_db := db\<rparr>)
      | (Inr True, db) \<Rightarrow> (absorb, release_endpoint D (w1\<lparr>wd_db := db\<rparr>)))"

definition retryOrFail :: "Driver \<Rightarrow> pass_env \<Rightarrow> ClaimState \<Rightarrow> world \<Rightarrow> pass_result" where
  "retryOrFail D env cs w0 =
     (let w = before env ''laps'' (release_sandbox D w0); run = wd_run w in
      case LapsUsed (pv_flt env ''laps'') (run_UID run) (wd_db w) of
        Inl e \<Rightarrow> (Inl (''rundrive: count laps: '' @ e), w)
      | Inr laps \<Rightarrow>
          if int laps < maxRetries run then
            let w1 = before env ''retry-enter'' w in
            (case RetryEnter (dr_principal D) (pv_flt env ''retry-enter'') (pv_now env ''retry-enter'')
                    (run_WorkItemRef run) (run_UID run) (cs_Fence cs) (wd_db w1) of
               (Inl e, db) \<Rightarrow> (Inl (''rundrive: retry-enter: '' @ e), w1\<lparr>wd_db := db\<rparr>)
             | (Inr None, db) \<Rightarrow> (Inr (Some continueDelay), w1\<lparr>wd_db := db\<rparr>)
             | (Inr (Some f), db) \<Rightarrow> (Inr (Some (BackoffFor (pv_rand env) run (int laps + 1))), w1\<lparr>wd_db := db\<rparr>))
          else
            let w1 = before env ''fail-enter'' w in
            (case FailEnter (dr_principal D) (pv_flt env ''fail-enter'') (pv_now env ''fail-enter'')
                    (run_WorkItemRef run) (run_UID run) (cs_Fence cs) (wd_db w1) of
               (Inl e, db) \<Rightarrow> (Inl (''rundrive: fail-enter: '' @ e), w1\<lparr>wd_db := db\<rparr>)
             | (Inr ok, db) \<Rightarrow> (absorb, release_endpoint D (w1\<lparr>wd_db := db\<rparr>))))"

definition failClosedPark :: "Driver \<Rightarrow> pass_env \<Rightarrow> int \<Rightarrow> world \<Rightarrow> pass_result" where
  "failClosedPark D env fence w0 =
     (let w = before env ''park'' w0 in
      case FailClosedPark (dr_principal D) (pv_flt env ''park'') (pv_now env ''park'') (run_WorkItemRef (wd_run w))
             (run_UID (wd_run w)) fence ''context_window_exceeded'' (wd_db w) of
        (Inl e, db) \<Rightarrow> (Inl (''rundrive: park fail-closed run: '' @ e), w\<lparr>wd_db := db\<rparr>)
      | (Inr ok, db) \<Rightarrow> (absorb, w\<lparr>wd_db := db\<rparr>))"

definition waitEndpointSlot :: "Driver \<Rightarrow> pass_env \<Rightarrow> string \<Rightarrow> world \<Rightarrow> pass_result" where
  "waitEndpointSlot D env busy w =
     (let run = wd_run w in
      case dr_setCond D (run_Conditions run)
             \<lparr>cd_Type = ConditionEndpointSlotWait, cd_Status = True, cd_Reason = ''EndpointBusy'',
              cd_Message = ''Waiting for a slot on the BYO model endpoint: '' @ busy, cd_Generation = run_Generation run\<rparr> of
        (changed, conds) \<Rightarrow>
          (Inr (Some endpointSlotWaitDelay),
           if changed \<and> pv_patch env ''slot wait'' = ApiOk then set_conditions conds w else w))"

definition clearEndpointSlotWait :: "Driver \<Rightarrow> pass_env \<Rightarrow> world \<Rightarrow> world" where
  "clearEndpointSlotWait D env w =
     (let conds = run_Conditions (wd_run w) in
      if \<forall>c \<in> set conds. cd_Type c \<noteq> ConditionEndpointSlotWait then w
      else case dr_removeCond D conds ConditionEndpointSlotWait of
        (removed, conds') \<Rightarrow>
          if removed \<and> pv_patch env ''clear slot wait'' = ApiOk then set_conditions conds' w else w)"

text \<open>Whether the bound pod is gone; if so the stale bind and the status reference are cleared.\<close>

definition reapGoneSandbox :: "Driver \<Rightarrow> pass_env \<Rightarrow> ClaimState \<Rightarrow> world \<Rightarrow> (string + bool) \<times> world" where
  "reapGoneSandbox D env cs w =
     (let run = wd_run w in
      if cs_RunID cs \<noteq> run_UID run \<or> \<not> inFlightStep (cs_Step cs) then (Inr False, w)
      else case run_SandboxRef run of
        None \<Rightarrow> (Inr False, w)
      | Some (ns, name) \<Rightarrow>
          if name = [] then (Inr False, w)
          else (case pv_pod env of
            ApiOk \<Rightarrow> (Inr False, w)
          | ApiErr e \<Rightarrow> (Inl (''rundrive: probe sandbox pod: '' @ e), w)
          | ApiNotFound \<Rightarrow>
              let w1 = before env ''clear bind'' w;
                  (cleared, db) = (if dr_BindClear D
                    then ClearSandboxBind (dr_principal D) (pv_flt env ''clear bind'') (pv_now env ''clear bind'') (run_UID run) (wd_db w1)
                    else (None, wd_db w1));
                  w2 = w1\<lparr>wd_db := db\<rparr>
              in (case cleared of
                    Some e \<Rightarrow> (Inl (''rundrive: clear sandbox bind for gone pod: '' @ e), w2)
                  | None \<Rightarrow>
                      (case pv_patch env ''sandboxRef'' of
                         ApiOk \<Rightarrow> (Inr True, w2\<lparr>wd_run := run\<lparr>run_SandboxRef := None\<rparr>\<rparr>)
                       | _ \<Rightarrow> (Inl ''rundrive: clear status.sandboxRef for gone pod'', w2)))))"

definition followSucceeded :: "Driver \<Rightarrow> pass_env \<Rightarrow> world \<Rightarrow> string + bool" where
  "followSucceeded D env w =
     (if \<not> dr_Settle D then Inr False
      else case latestLapSettlement (dr_isUuid D) (pv_flt env ''follow'') (run_UID (wd_run w)) (wd_db w) of
        Inl e \<Rightarrow> Inl e
      | Inr (sent, settled, outcome) \<Rightarrow> Inr (settled \<and> outcome = SettleOutcomeSucceeded))"

section \<open>The machine's drive\<close>

definition ProdRunner_Store :: "Driver \<Rightarrow> Run \<Rightarrow> string + ProdReconcileStore" where
  "ProdRunner_Store D run =
     (case NewProdReconcileStore False (dr_isUuid D) (dr_carrier D) (run_WorkItemRef run) (run_UID run) (dr_principal D) [] of
        Inl e \<Rightarrow> Inl e
      | Inr B \<Rightarrow> Inr (WithA2AFollowGate (dr_dispatcher D \<noteq> None) (WithTraceID (run_TraceID run) B)))"

definition ProdRunner_Effects :: "Driver \<Rightarrow> Run \<Rightarrow> string + ProdEffects" where
  "ProdRunner_Effects D run =
     (case NewProdEffects False (run_WorkItemRef run) (run_UID run) (dr_principal D) [] (dr_binder D) (dr_dispatcher D) of
        Inl e \<Rightarrow> Inl e
      | Inr P \<Rightarrow> Inr (WithSandboxRefObserver (dr_refObserver D) (WithRunCredentialWriter (dr_credWriter D) P)))"

definition drive_options :: "Driver \<Rightarrow> int \<Rightarrow> nat \<Rightarrow> Options" where
  "drive_options D fence laps =
     \<lparr>Durable = True, Fence = fence, CrashBefore = noStep, CrashAfterEffect = noStep,
      Lap = (if laps > 0 then Some (int laps + 1) else None), FailAt = noStep, MaxPasses = maxPasses D\<rparr>"

text \<open>An error of the drive or of its sticky probes, read for the sentinels in the source's order.\<close>

definition drive_failed ::
  "Driver \<Rightarrow> pass_env \<Rightarrow> ProdReconcileStore \<Rightarrow> string \<Rightarrow> string list \<Rightarrow> shared \<Rightarrow> world \<Rightarrow> pass_result" where
  "drive_failed D env B what errs x w =
     (if \<exists>e \<in> set errs. dr_isErr D SandboxPending e then (Inr (Some continueDelay), w)
      else if \<exists>e \<in> set errs. dr_isErr D EndpointSlotBusy e then waitEndpointSlot D env (concat errs) w
      else if \<exists>e \<in> set errs. dr_isErr D FailClosedErr e
        then failClosedPark D env (fst (ProdStore_Fence B (pv_store env) (fst x))) w
      else (Inl (''rundrive: '' @ what @ concat errs), w))"

definition drive_done :: "Driver \<Rightarrow> pass_env \<Rightarrow> ProdReconcileStore \<Rightarrow> Step \<Rightarrow> shared \<Rightarrow> world \<Rightarrow> pass_result" where
  "drive_done D env B entered x w0 =
     (let w1 = clearEndpointSlotWait D env w0;
          (after, s1) = ProdStore_Step B (pv_store env) (fst x);
          w2 = kick (dr_NotifyPhase D \<and> after \<noteq> entered) (KickPhase (run_UID (wd_run w1))) w1;
          (after2, s2) = ProdStore_Step B (pv_store env) s1
      in if IsTerminal after2 then (absorb, w2) else (Inr (Some continueDelay), w2))"

definition drive_start :: "ProdReconcileStore \<Rightarrow> pass_env \<Rightarrow> world \<Rightarrow> int \<times> shared" where
  "drive_start B env w =
     (case ProdStore_Fence B (pv_store env) \<lparr>st_db = wd_db w, st_err = None, st_calls = 0\<rparr> of
        (fence, s) \<Rightarrow> (fence, s, \<lparr>ef_db = wd_db w, ef_err = None, ef_calls = 0, ef_log = wd_log w\<rparr>))"

text \<open>\<open>None\<close> would be a drive that does not return.\<close>

definition drive_run :: "Driver \<Rightarrow> pass_env \<Rightarrow> Step \<Rightarrow> world \<Rightarrow> pass_result option" where
  "drive_run D env entered w0 =
     (case ProdRunner_Store D (wd_run w0) of
        Inl e \<Rightarrow> Some (Inl e, w0)
      | Inr B \<Rightarrow>
      case ProdRunner_Effects D (wd_run w0) of
        Inl e \<Rightarrow> Some (Inl e, w0)
      | Inr P \<Rightarrow>
        let w1 = before env ''drive laps'' w0 in
        case LapsUsed (pv_flt env ''drive laps'') (run_UID (wd_run w1)) (wd_db w1) of
          Inl e \<Rightarrow> Some (Inl (''rundrive: count laps: '' @ e), w1)
        | Inr laps \<Rightarrow>
            let w2 = before env ''drive'' w1; (fence, x0) = drive_start B env w2 in
            case drive (sharedEffects P (pv_store env)) (sharedStore B (pv_store env)) (drive_options D fence laps) x0 of
              None \<Rightarrow> None
            | Some (err, x) \<Rightarrow>
                let w3 = w2\<lparr>wd_db := st_db (fst x), wd_log := ef_log (snd x)\<rparr>;
                    errs = (case st_err (fst x) of None \<Rightarrow> [] | Some e \<Rightarrow> [e]) @ (case ef_err (snd x) of None \<Rightarrow> [] | Some e \<Rightarrow> [e])
                in Some (case err of
                     Some (ErrEffect e) \<Rightarrow> drive_failed D env B ''drive: '' [e] x w3
                   | Some (ErrCrash st) \<Rightarrow> (Inl ''rundrive: drive: crash'', w3)
                   | None \<Rightarrow> if errs \<noteq> [] then drive_failed D env B ''effects: '' errs x w3
                            else drive_done D env B entered x w3))"

section \<open>The pass\<close>

definition goLiveGate :: "Driver \<Rightarrow> pass_env \<Rightarrow> ClaimState \<Rightarrow> world \<Rightarrow> pass_result option" where
  "goLiveGate D env cs w =
     (if cs_Step cs \<noteq> StepClaimingSandbox \<and> cs_Step cs \<noteq> StepPausedCredentialRequired then drive_run D env (cs_Step cs) w
      else
        let run = wd_run w;
            decision = evaluateGoLiveGate (dr_lower D) (dr_getSecret D) (run_Manifest run) (run_Project run) (run_Namespace run)
        in if \<not> rg_Admitted decision then
             let w1 = before env ''gate hold'' w in
             (case GateHold (dr_principal D) (pv_flt env ''gate hold'') (pv_now env ''gate hold'') (run_WorkItemRef run)
                     (rg_MissingTypes decision) (wd_db w1) of
                (Inl e, db) \<Rightarrow> Some (Inl (''rundrive: gate hold: '' @ e), w1\<lparr>wd_db := db\<rparr>)
              | (Inr ok, db) \<Rightarrow> Some (Inr (Some continueDelay),
                  kick (dr_NotifyPhase D \<and> cs_Step cs = StepClaimingSandbox) (KickPhase (run_UID run)) (w1\<lparr>wd_db := db\<rparr>)))
           else if cs_Step cs = StepPausedCredentialRequired then
             let w1 = before env ''gate resume'' w in
             (case GateResume (dr_principal D) (pv_flt env ''gate resume'') (pv_now env ''gate resume'') (run_WorkItemRef run) (wd_db w1) of
                (Inl e, db) \<Rightarrow> Some (Inl (''rundrive: gate resume: '' @ e), w1\<lparr>wd_db := db\<rparr>)
              | (Inr ok, db) \<Rightarrow> drive_run D env (cs_Step cs) (kick (dr_NotifyPhase D) (KickPhase (run_UID run)) (w1\<lparr>wd_db := db\<rparr>)))
           else drive_run D env (cs_Step cs) w)"

definition takeCustody :: "Driver \<Rightarrow> pass_env \<Rightarrow> ClaimState \<Rightarrow> world \<Rightarrow> pass_result option" where
  "takeCustody D env cs w0 =
     (let run = wd_run w0 in
      if cs_RunID cs = run_UID run \<and> \<not> leaseExpired (pv_now env ''held'') cs then
        let w = before env ''renew'' w0 in
        (case Claims_Renew (dr_principal D) (pv_flt env ''renew'') (pv_now env ''renew guard'') (pv_now env ''renew'')
                (run_WorkItemRef run) (run_UID run) (cs_Fence cs) (wd_db w) of
           (Inl e, db) \<Rightarrow> Some (Inl (''rundrive: renew claim: '' @ e), w\<lparr>wd_db := db\<rparr>)
         | (Inr False, db) \<Rightarrow> Some (Inr (Some continueDelay), w\<lparr>wd_db := db\<rparr>)
         | (Inr True, db) \<Rightarrow> goLiveGate D env cs (w\<lparr>wd_db := db\<rparr>))
      else if cs_ItemState cs = PC_ClaimableState DefaultProdConfig \<or> cs_ItemState cs = PC_ClaimedState DefaultProdConfig then
        let w = before env ''acquire'' w0 in
        (case Claims_Acquire (dr_principal D) (pv_flt env ''acquire'') (dr_carrier D) (pv_now env ''acquire guard'') (pv_now env ''acquire'')
                (run_WorkItemRef run) (run_UID run) (firstAgentName run) (wd_db w) of
           (Inl e, db) \<Rightarrow> Some (Inl (''rundrive: acquire claim: '' @ e), w\<lparr>wd_db := db\<rparr>)
         | (Inr None, db) \<Rightarrow> Some (Inr (Some continueDelay), w\<lparr>wd_db := db\<rparr>)
         | (Inr (Some f), db) \<Rightarrow> goLiveGate D env cs (w\<lparr>wd_db := db\<rparr>))
      else Some (absorb, w0))"

definition driveLive :: "Driver \<Rightarrow> pass_env \<Rightarrow> ClaimState \<Rightarrow> world \<Rightarrow> pass_result option" where
  "driveLive D env cs w0 =
     (let w = (if inFlightStep (cs_Step cs) then before env ''follow'' w0 else w0) in
      case (if inFlightStep (cs_Step cs) then followSucceeded D env w else Inr False) of
        Inl e \<Rightarrow> Some (Inl (''rundrive: read follow settlement: '' @ e), w)
      | Inr True \<Rightarrow> takeCustody D env cs w
      | Inr False \<Rightarrow>
          if dead (pv_now env ''dead'') cs then Some (retryOrFail D env cs w)
          else (case reapGoneSandbox D env cs w of
              (Inl e, w1) \<Rightarrow> Some (Inl e, w1)
            | (Inr True, w1) \<Rightarrow> Some (retryOrFail D env cs w1)
            | (Inr False, w1) \<Rightarrow> takeCustody D env cs w1))"

definition Driver_Reconcile :: "Driver \<Rightarrow> pass_env \<Rightarrow> world \<Rightarrow> pass_result option" where
  "Driver_Reconcile D env w0 =
     (case pv_get env of
        ApiNotFound \<Rightarrow> Some (absorb, w0)
      | ApiErr e \<Rightarrow> Some (Inl e, w0)
      | ApiOk \<Rightarrow>
          if run_Deleting (wd_run w0) \<or> run_WorkItemRef (wd_run w0) = [] then Some (absorb, w0)
          else if \<not> dr_isUuid D (run_WorkItemRef (wd_run w0)) then Some (abandonInvalidRef D env w0)
          else
            let w = before env ''state'' w0 in
            (case Claims_State (dr_isUuid D) (pv_flt env ''state'') (run_WorkItemRef (wd_run w)) (wd_db w) of
               Inl e \<Rightarrow> Some (Inl (''rundrive: read claim: '' @ e), w)
             | Inr None \<Rightarrow> Some (absorb, w)
             | Inr (Some cs) \<Rightarrow>
                 if IsTerminal (cs_Step cs) then Some (absorb, w)
                 else if isPaused (cs_Step cs) then Some (Driver_park D env w)
                 else if cs_Step cs = StepCancelling then Some (cancelFinish D env cs w)
                 else driveLive D env cs w))"

section \<open>Wakes\<close>

text \<open>Each due pause re-enters its item; the items whose Runs are kicked back into the queue.\<close>

fun OnResumeDue :: "Driver \<Rightarrow> (nat \<Rightarrow> dbfaults \<times> instant) \<Rightarrow> nat \<Rightarrow> string list \<Rightarrow> prod_db \<Rightarrow> string list \<times> prod_db" where
  "OnResumeDue D env n [] db = ([], db)"
| "OnResumeDue D env n (item # due) db =
     (case RequeuePaused (dr_principal D) (fst (env n)) (snd (env n)) item db of
        (Inr True, db') \<Rightarrow> (case OnResumeDue D env (Suc n) due db' of (kicked, db'') \<Rightarrow> (item # kicked, db''))
      | (_, db') \<Rightarrow> OnResumeDue D env (Suc n) due db')"

end
