(* ===== verification/Driver_Laws.thy ===== *)
theory Driver_Laws
  imports Run_Driver
begin

text \<open>
  What a pass of the run driver promises: it returns, it leaves finished Runs alone, it starts
  nothing without custody or against the go-live gate, it fences a dead attempt and re-enters or
  fails it, it completes a kill, and it leaves a parked Run with a wake. The last section shows
  where the retries and the gate fall short of their comments.
\<close>

section \<open>Frames\<close>

lemma world_frames [simp]:
  "wd_log (before env c w) = wd_log w" "wd_run (before env c w) = wd_run w" "wd_db (before env c w) = pv_others env c (wd_db w)"
  "wd_pauses (before env c w) = wd_pauses w" "wd_gate (before env c w) = wd_gate w" "wd_torn (before env c w) = wd_torn w"
  "wd_log (kick b k w) = wd_log w" "wd_run (kick b k w) = wd_run w" "wd_db (kick b k w) = wd_db w"
  "wd_pauses (kick b k w) = wd_pauses w" "wd_gate (kick b k w) = wd_gate w" "wd_torn (kick b k w) = wd_torn w"
  "wd_log (release_sandbox D w) = wd_log w" "wd_run (release_sandbox D w) = wd_run w" "wd_db (release_sandbox D w) = wd_db w"
  "wd_pauses (release_sandbox D w) = wd_pauses w" "wd_gate (release_sandbox D w) = wd_gate w"
  "wd_log (release_endpoint D w) = wd_log w" "wd_run (release_endpoint D w) = wd_run w" "wd_db (release_endpoint D w) = wd_db w"
  "wd_pauses (release_endpoint D w) = wd_pauses w" "wd_torn (release_endpoint D w) = wd_torn w"
  "wd_log (set_conditions cs w) = wd_log w" "wd_db (set_conditions cs w) = wd_db w" "wd_gate (set_conditions cs w) = wd_gate w"
  "run_UID (wd_run (set_conditions cs w)) = run_UID (wd_run w)"
  "run_WorkItemRef (wd_run (set_conditions cs w)) = run_WorkItemRef (wd_run w)"
  "run_MaxRetries (wd_run (set_conditions cs w)) = run_MaxRetries (wd_run w)"
  by (simp_all add: before_def kick_def release_sandbox_def release_endpoint_def set_conditions_def)

lemma quiet_paths:
  "wd_log (snd (abandonInvalidRef D env w)) = wd_log w" "wd_log (snd (Driver_park D env w)) = wd_log w"
  "wd_log (snd (cancelFinish D env cs w)) = wd_log w" "wd_log (snd (retryOrFail D env cs w)) = wd_log w"
  "wd_log (snd (failClosedPark D env f w)) = wd_log w" "wd_log (snd (waitEndpointSlot D env e w)) = wd_log w"
  "wd_log (clearEndpointSlotWait D env w) = wd_log w" "wd_log (snd (reapGoneSandbox D env cs w)) = wd_log w"
  by (auto simp: abandonInvalidRef_def Driver_park_def cancelFinish_def retryOrFail_def failClosedPark_def waitEndpointSlot_def
      clearEndpointSlotWait_def reapGoneSandbox_def Let_def split: prod.splits sum.splits option.splits api_result.splits bool.splits)

lemma drive_after_log:
  "wd_log (snd (drive_failed D env B what errs x w)) = wd_log w" "wd_log (snd (drive_done D env B st x w)) = wd_log w"
  by (auto simp: drive_failed_def drive_done_def Let_def quiet_paths split: prod.splits)

section \<open>A pass returns\<close>

lemma drive_bounded: "MaxPasses opt > 0 \<Longrightarrow> drive E S opt x \<noteq> None"
  using drive_loop_bounded by (simp add: drive_def)

lemma drive_run_returns: "drive_run D env st w \<noteq> None"
proof -
  have nn: "drive E S (drive_options D fence laps) x \<noteq> None" for E :: "shared Effects" and S fence laps x
    by (rule drive_bounded) (simp add: drive_options_def maxPasses_def DefaultMaxPasses_def)
  then have "\<exists>y. drive E S (drive_options D fence laps) x = Some y" for E :: "shared Effects" and S fence laps x
    by (metis option.exhaust)
  then show ?thesis
    unfolding drive_run_def Let_def
    by (auto simp: nn split: prod.splits sum.splits option.split)
qed

lemma pass_total: "\<exists>res w'. Driver_Reconcile D env w = Some (res, w')"
proof -
  have gate: "goLiveGate D env cs v \<noteq> None" for cs v
    using drive_run_returns by (auto simp: goLiveGate_def Let_def split: prod.splits sum.splits)
  have "takeCustody D env cs v \<noteq> None" for cs v
    using gate by (auto simp: takeCustody_def Let_def split: prod.splits sum.splits option.splits bool.splits)
  then have "driveLive D env cs v \<noteq> None" for cs v
    by (auto simp: driveLive_def Let_def split: prod.splits sum.splits bool.splits)
  then have "Driver_Reconcile D env w \<noteq> None"
    by (auto simp: Driver_Reconcile_def Let_def split: api_result.splits sum.splits option.splits)
  then show ?thesis by auto
qed

text \<open>
  C22. A pass always returns: whatever the API answers, the statements that fail, the ports and the
  other processes do, the driver's pass ends with a decision, because it bounds its drive.
\<close>

theorem pass_returns: "\<exists>res w'. Driver_Reconcile D env w = Some (res, w')"
  by (rule pass_total)

section \<open>Custody and the gate\<close>

text \<open>A pass that nobody interferes with, up to the decision on the claim it reads.\<close>

definition undisturbed :: "pass_env \<Rightarrow> bool" where
  "undisturbed env \<longleftrightarrow> (\<forall>call. pv_others env call = id)"

lemma undisturbed_db [simp]: "undisturbed env \<Longrightarrow> wd_db (before env c w) = wd_db w"
  by (simp add: undisturbed_def)

lemma undisturbed_before: "undisturbed env \<Longrightarrow> before env c w = w"
  by (simp add: undisturbed_def before_def)

lemma Renew_True:
  assumes "Claims_Renew prin flt tg ts item run fence db = (Inr True, db')" and "wf_prod db"
  obtains r where "claim_row_of db item = Some r" "pc_holder r = Some prin" "pc_run r = Some run" "pc_fence r = fence" "null_gt (pc_lease r) tg"
  using assms
  by (auto simp: Claims_Renew_def Let_def aff_key_wf [OF wf_prodD(1)] renewable_def split: if_splits option.splits)

lemma Acquire_Some:
  assumes "Claims_Acquire prin flt carrier tg ts item run agent db = (Inr (Some f), db')" and "wf_prod db"
  shows "granted_to driveConfig tg ts prin run item f db db' \<and> wf_prod db'"
proof -
  obtain i where "AcquireSpecific driveConfig flt carrier tg ts prin run item [] agent db = (Inr (Some (i, f)), db')"
    using assms(1) by (auto simp: Claims_Acquire_def split: prod.splits sum.splits)
  from AcquireSpecific_granted [OF this assms(2)] show ?thesis by blast
qed

text \<open>The claim a pass reads, when it finds one.\<close>

definition reads :: "world \<Rightarrow> prod_claim \<Rightarrow> prod_item \<Rightarrow> ClaimState \<Rightarrow> bool" where
  "reads w r it cs \<longleftrightarrow> claim_row_of (wd_db w) (run_WorkItemRef (wd_run w)) = Some r \<and>
     item_row_of (wd_db w) (run_WorkItemRef (wd_run w)) = Some it \<and>
     cs = \<lparr>cs_Step = pc_step r, cs_Fence = pc_fence r, cs_Holder = coalesce (pc_holder r), cs_Lease = pc_lease r,
           cs_RunID = coalesce (pc_run r), cs_ItemState = pw_state it\<rparr>"

lemma pass_cases:
  assumes "Driver_Reconcile D env w = Some (res, w')" and "undisturbed env"
  obtains (early) "res = absorb \<or> (\<exists>e. res = Inl e)" "w' = w"
  | (abandoned) "(res, w') = abandonInvalidRef D env w"
  | (parked) r it cs where "reads w r it cs" "isPaused (pc_step r)" "(res, w') = Driver_park D env w"
  | (killed) r it cs where "reads w r it cs" "pc_step r = StepCancelling" "(res, w') = cancelFinish D env cs w"
  | (live) r it cs where "reads w r it cs" "\<not> IsTerminal (pc_step r)" "\<not> isPaused (pc_step r)" "pc_step r \<noteq> StepCancelling"
      "driveLive D env cs w = Some (res, w')"
  using assms
  by (auto simp: Driver_Reconcile_def undisturbed_before Claims_State_def Let_def reads_def
      split: api_result.splits sum.splits option.splits if_splits)


definition holds_claim :: "Driver \<Rightarrow> pass_env \<Rightarrow> Run \<Rightarrow> prod_claim \<Rightarrow> bool" where
  "holds_claim D env run r \<longleftrightarrow>
     pc_holder r = Some (dr_principal D) \<and> pc_run r = Some (run_UID run) \<and> null_gt (pc_lease r) (pv_now env ''renew guard'')"

definition may_take :: "pass_env \<Rightarrow> prod_claim \<Rightarrow> prod_item \<Rightarrow> bool" where
  "may_take env r it \<longleftrightarrow> claim_free (pv_now env ''acquire guard'') r \<and> lane_ok driveConfig it"

definition admitted :: "Driver \<Rightarrow> Run \<Rightarrow> bool" where
  "admitted D run \<longleftrightarrow>
     rg_Admitted (evaluateGoLiveGate (dr_lower D) (dr_getSecret D) (run_Manifest run) (run_Project run) (run_Namespace run))"

lemma gate_blocks:
  assumes "goLiveGate D env cs v = Some (res, w')" and "\<not> admitted D (wd_run v)"
    and "cs_Step cs = StepClaimingSandbox \<or> cs_Step cs = StepPausedCredentialRequired"
  shows "wd_log w' = wd_log v"
  using assms by (auto simp: goLiveGate_def admitted_def Let_def split: prod.splits sum.splits)

lemma reap_False: "reapGoneSandbox D env cs w = (Inr False, v) \<Longrightarrow> v = w"
  by (auto simp: reapGoneSandbox_def Let_def split: if_splits option.splits api_result.splits prod.splits)

lemma live_cases:
  assumes "driveLive D env cs w = Some (res, w')" and "undisturbed env"
  obtains (unread) e where "res = Inl e" "w' = w"
  | (died) v where "v = w \<and> dead (pv_now env ''dead'') cs \<or> reapGoneSandbox D env cs w = (Inr True, v)" "(res, w') = retryOrFail D env cs v"
  | (stopped) e where "res = Inl e" "reapGoneSandbox D env cs w = (Inl e, w')"
  | (custody) "takeCustody D env cs w = Some (res, w')"
proof -
  note pass = assms(1) [unfolded driveLive_def undisturbed_before [OF assms(2)] Let_def if_cancel]
  obtain f where f: "(if inFlightStep (cs_Step cs) then followSucceeded D env w else Inr False) = f" by blast
  obtain a v where reap: "reapGoneSandbox D env cs w = (a, v)" by fastforce
  consider e where "f = Inl e" | "f = Inr True" | "f = Inr False" "dead (pv_now env ''dead'') cs"
    | e where "f = Inr False" "\<not> dead (pv_now env ''dead'') cs" "a = Inl e"
    | "f = Inr False" "\<not> dead (pv_now env ''dead'') cs" "a = Inr True"
    | "f = Inr False" "\<not> dead (pv_now env ''dead'') cs" "a = Inr False"
    by (metis (full_types) sum.exhaust)
  then show ?thesis
  proof cases
    case (1 e)
    then have "\<exists>e'. res = Inl e'" "w' = w" using pass f by auto
    then show ?thesis using unread by blast
  next
    case 2
    then show ?thesis using pass f custody by simp
  next
    case 3
    then show ?thesis using pass f died [of w] by simp
  next
    case (4 e)
    then show ?thesis using pass f reap stopped [of e] by auto
  next
    case 5
    then show ?thesis using pass f reap died [of v] by simp
  next
    case 6
    then show ?thesis using pass f reap reap_False [of D env cs w v] custody by simp
  qed
qed

lemma custody_cases:
  assumes "takeCustody D env cs w = Some (res, w')" and "reads w r it cs" and "undisturbed env" and "wf_prod (wd_db w)"
  obtains (not_taken) "w' = w \<or> (\<exists>db. w' = w\<lparr>wd_db := db\<rparr>)"
  | (taken) db where "holds_claim D env (wd_run w) r \<or> may_take env r it" "goLiveGate D env cs (w\<lparr>wd_db := db\<rparr>) = Some (res, w')"
proof (cases "cs_RunID cs = run_UID (wd_run w) \<and> \<not> leaseExpired (pv_now env ''held'') cs")
  case True
  obtain a db where re: "Claims_Renew (dr_principal D) (pv_flt env ''renew'') (pv_now env ''renew guard'') (pv_now env ''renew'')
      (run_WorkItemRef (wd_run w)) (run_UID (wd_run w)) (cs_Fence cs) (wd_db w) = (a, db)" by fastforce
  show ?thesis
  proof (cases "a = Inr True")
    case yes: True
    from Renew_True [OF re [unfolded yes] assms(4)] assms(2) have "holds_claim D env (wd_run w) r"
      by (auto simp: reads_def holds_claim_def)
    moreover have "goLiveGate D env cs (w\<lparr>wd_db := db\<rparr>) = Some (res, w')"
      using assms(1) True re yes by (simp add: takeCustody_def undisturbed_before [OF assms(3)] Let_def)
    ultimately show ?thesis using taken by blast
  next
    case False
    then show ?thesis using not_taken assms(1) True re
      by (auto simp: takeCustody_def undisturbed_before [OF assms(3)] Let_def split: sum.splits bool.splits)
  qed
next
  case False
  obtain a db where ac: "Claims_Acquire (dr_principal D) (pv_flt env ''acquire'') (dr_carrier D) (pv_now env ''acquire guard'')
      (pv_now env ''acquire'') (run_WorkItemRef (wd_run w)) (run_UID (wd_run w)) (firstAgentName (wd_run w)) (wd_db w) = (a, db)" by fastforce
  show ?thesis
  proof (cases "\<exists>f. a = Inr (Some f)")
    case True
    then obtain f where f: "a = Inr (Some f)" by blast
    from Acquire_Some [OF ac [unfolded f] assms(4)] assms(2) have m: "may_take env r it"
      by (auto simp: reads_def may_take_def granted_to_def)
    then have "goLiveGate D env cs (w\<lparr>wd_db := db\<rparr>) = Some (res, w') \<or> w' = w"
      using assms(1) False ac f by (auto simp: takeCustody_def undisturbed_before [OF assms(3)] Let_def split: if_splits)
    then show ?thesis using taken not_taken m by blast
  next
    case no: False
    then show ?thesis using not_taken assms(1) False ac
      by (auto simp: takeCustody_def undisturbed_before [OF assms(3)] Let_def split: sum.splits option.splits if_splits)
  qed
qed

text \<open>
  C23. Nothing starts without custody or against the gate: a pass that nobody interferes with makes a
  physical call (a bind, a credential write, a submission) only if the item's claim was held live
  by this Run under the driver's principal or was free in a claimable lane, the Run was neither
  finished, paused nor being killed, and, at the steps where the gate is read, the go-live gate
  admits the Run.
\<close>

theorem work_needs_custody:
  assumes "Driver_Reconcile D env w = Some (res, w')" and "undisturbed env" and "wf_prod (wd_db w)" and "wd_log w' \<noteq> wd_log w"
  shows "\<exists>r it. claim_row_of (wd_db w) (run_WorkItemRef (wd_run w)) = Some r \<and>
    item_row_of (wd_db w) (run_WorkItemRef (wd_run w)) = Some it \<and>
    (holds_claim D env (wd_run w) r \<or> may_take env r it) \<and>
    \<not> IsTerminal (pc_step r) \<and> \<not> isPaused (pc_step r) \<and> pc_step r \<noteq> StepCancelling \<and>
    (pc_step r \<in> {StepClaimingSandbox, StepPausedCredentialRequired} \<longrightarrow> admitted D (wd_run w))"
  using assms(1,2)
proof (cases rule: pass_cases)
  case early
  then show ?thesis using assms(4) by simp
next
  case abandoned
  then show ?thesis using assms(4) quiet_paths(1) by (metis snd_conv)
next
  case (parked r it cs)
  then show ?thesis using assms(4) quiet_paths(2) by (metis snd_conv)
next
  case (killed r it cs)
  then show ?thesis using assms(4) quiet_paths(3) by (metis snd_conv)
next
  case (live r it cs)
  have reap: "wd_log v = wd_log w" if "reapGoneSandbox D env cs w = (a, v)" for a v
    using quiet_paths(8) [of D env cs w] that by simp
  from live(5) assms(2) show ?thesis
  proof (cases rule: live_cases)
    case (unread e)
    then show ?thesis using assms(4) by simp
  next
    case (died v)
    then show ?thesis using assms(4) quiet_paths(4) [of D env cs v] reap by (metis snd_conv)
  next
    case (stopped e)
    then show ?thesis using assms(4) reap by blast
  next
    case custody
    from this live(1) assms(2,3) show ?thesis
    proof (cases rule: custody_cases)
      case not_taken
      then show ?thesis using assms(4) by auto
    next
      case (taken db)
      have "admitted D (wd_run w)" if "pc_step r \<in> {StepClaimingSandbox, StepPausedCredentialRequired}"
        using gate_blocks [OF taken(2)] that live(1) assms(4) by (auto simp: reads_def)
      then show ?thesis using taken(1) live(1-4) by (auto simp: reads_def)
    qed
  qed
qed

section \<open>Healthy passes\<close>

definition sound_pass :: "pass_env \<Rightarrow> bool" where
  "sound_pass env \<longleftrightarrow> undisturbed env \<and> pv_get env = ApiOk \<and> pv_flt env = (\<lambda>_ _. False) \<and> pv_pflt env = (\<lambda>_. False)"

definition drivable :: "Driver \<Rightarrow> Run \<Rightarrow> bool" where
  "drivable D run \<longleftrightarrow> \<not> run_Deleting run \<and> run_WorkItemRef run \<noteq> [] \<and> dr_isUuid D (run_WorkItemRef run) \<and> dr_principal D \<noteq> []"

lemma sound_pass_eq:
  assumes "sound_pass env" and "drivable D (wd_run w)" and "reads w r it cs"
  shows "Driver_Reconcile D env w =
    (if IsTerminal (pc_step r) then Some (absorb, w)
     else if isPaused (pc_step r) then Some (Driver_park D env w)
     else if pc_step r = StepCancelling then Some (cancelFinish D env cs w)
     else driveLive D env cs w)"
  using assms by (simp add: sound_pass_def drivable_def reads_def Driver_Reconcile_def undisturbed_before Claims_State_def Let_def)

lemma inFlight_plain: "inFlightStep s \<Longrightarrow> \<not> IsTerminal s \<and> \<not> isPaused s \<and> s \<noteq> StepCancelling"
  by (auto simp: inFlightStep_def IsTerminal_def isPaused_def)

lemma inFlight_guard: "inFlightStep (pc_step r) \<Longrightarrow> enter_guard (pc_fence r) r"
  by (auto simp: inFlightStep_def enter_guard_def)

lemma retryOrFail_healthy:
  assumes "sound_pass env" and "drivable D (wd_run w)" and "wf_prod (wd_db w)" and "reads w r it cs" and "enter_guard (pc_fence r) r"
    and "LapsUsed (\<lambda>_. False) (run_UID (wd_run w)) (wd_db w) = Inr laps"
  shows "\<exists>w'. retryOrFail D env cs w =
      (if int laps < maxRetries (wd_run w) then Inr (Some (BackoffFor (pv_rand env) (wd_run w) (int laps + 1))) else absorb, w') \<and>
    claim_row_of (wd_db w') (run_WorkItemRef (wd_run w)) =
      Some (if int laps < maxRetries (wd_run w) then entered_row (pv_now env ''retry-enter'') StepClaimingSandbox r
            else entered_row (pv_now env ''fail-enter'') StepFailed r) \<and>
    wd_torn w' = wd_torn w @ (if dr_Sandbox D then [run_UID (wd_run w)] else []) \<and>
    wd_gate w' = (if int laps < maxRetries (wd_run w) \<or> \<not> dr_EndpointGate D then wd_gate w else ReleaseByRun (run_UID (wd_run w)) (wd_gate w))"
proof -
  let ?item = "run_WorkItemRef (wd_run w)" and ?run = "run_UID (wd_run w)"
  have row: "claim_row_of (wd_db w) ?item = Some r" and fence: "cs_Fence cs = pc_fence r" using assms(4) by (simp_all add: reads_def)
  have ne: "?item \<noteq> []" "dr_principal D \<noteq> []" using assms(2) by (simp_all add: drivable_def)
  have u: "undisturbed env" and flt: "pv_flt env = (\<lambda>_ _. False)" using assms(1) by (simp_all add: sound_pass_def)
  have entered: "\<exists>db'. enter (dr_principal D) (\<lambda>_. False) now ?item ?run ev (pc_fence r) st [] (wd_db w) = (Inr (Some (pc_fence r + 1)), db') \<and>
      claim_row_of db' ?item = Some (entered_row now st r)" if st: "step_name st \<noteq> []" for now ev st
  proof -
    obtain db' where e: "enter (dr_principal D) (\<lambda>_. False) now ?item ?run ev (pc_fence r) st [] (wd_db w) = (Inr (Some (pc_fence r + 1)), db')"
      using enter_healthy [OF assms(3) row assms(5) ne st] by blast
    from enter_effect [OF this assms(3)] row show ?thesis using e by (metis option.inject)
  qed
  have torn: "wd_torn (release_sandbox D w) = wd_torn w @ (if dr_Sandbox D then [?run] else [])"
    by (simp add: release_sandbox_def)
  show ?thesis
  proof (cases "int laps < maxRetries (wd_run w)")
    case True
    obtain db' where "enter (dr_principal D) (\<lambda>_. False) (pv_now env ''retry-enter'') ?item ?run ''retry_lap_entered'' (pc_fence r)
        StepClaimingSandbox [] (wd_db w) = (Inr (Some (pc_fence r + 1)), db')"
        "claim_row_of db' ?item = Some (entered_row (pv_now env ''retry-enter'') StepClaimingSandbox r)"
      using entered [of StepClaimingSandbox] by fastforce
    then show ?thesis using True assms(6) fence torn
      by (simp add: retryOrFail_def undisturbed_before [OF u] flt Let_def RetryEnter_def)
  next
    case False
    obtain db' where "enter (dr_principal D) (\<lambda>_. False) (pv_now env ''fail-enter'') ?item ?run ''run_failed_entered'' (pc_fence r)
        StepFailed [] (wd_db w) = (Inr (Some (pc_fence r + 1)), db')"
        "claim_row_of db' ?item = Some (entered_row (pv_now env ''fail-enter'') StepFailed r)"
      using entered [of StepFailed] by fastforce
    then show ?thesis using False assms(6) fence torn
      by (simp add: retryOrFail_def undisturbed_before [OF u] flt Let_def FailEnter_def enter_ok_def release_endpoint_def)
  qed
qed

text \<open>
  C27. A dead attempt is recovered in one pass: when the lease of an attempt in flight has run out and
  its agent has not reported success, a healthy pass tears its sandbox down, fences it and, while
  the retry budget lasts, sends the Run back to claiming a sandbox and asks for the next pass after
  the jittered backoff of the lap; with the budget spent it fails the Run and frees its endpoint
  slot. No physical call is made.
\<close>

theorem dead_attempt_recovered:
  assumes "sound_pass env" and "drivable D (wd_run w)" and "wf_prod (wd_db w)"
    and "claim_row_of (wd_db w) (run_WorkItemRef (wd_run w)) = Some r" and "item_row_of (wd_db w) (run_WorkItemRef (wd_run w)) = Some it"
    and "inFlightStep (pc_step r)" and "pc_holder r = Some h" and "h \<noteq> []" and "pc_lease r = Some l" and "l < pv_now env ''dead''"
    and "followSucceeded D env w = Inr False"
    and "LapsUsed (\<lambda>_. False) (run_UID (wd_run w)) (wd_db w) = Inr laps"
  shows "\<exists>w'. Driver_Reconcile D env w = Some
      (if int laps < maxRetries (wd_run w) then Inr (Some (BackoffFor (pv_rand env) (wd_run w) (int laps + 1))) else absorb, w') \<and>
    claim_row_of (wd_db w') (run_WorkItemRef (wd_run w)) =
      Some (if int laps < maxRetries (wd_run w) then entered_row (pv_now env ''retry-enter'') StepClaimingSandbox r
            else entered_row (pv_now env ''fail-enter'') StepFailed r) \<and>
    wd_torn w' = wd_torn w @ (if dr_Sandbox D then [run_UID (wd_run w)] else []) \<and>
    wd_gate w' = (if int laps < maxRetries (wd_run w) \<or> \<not> dr_EndpointGate D then wd_gate w else ReleaseByRun (run_UID (wd_run w)) (wd_gate w)) \<and>
    wd_log w' = wd_log w"
proof -
  define cs where "cs = \<lparr>cs_Step = pc_step r, cs_Fence = pc_fence r, cs_Holder = coalesce (pc_holder r), cs_Lease = pc_lease r,
    cs_RunID = coalesce (pc_run r), cs_ItemState = pw_state it\<rparr>"
  have rd: "reads w r it cs" using assms(4,5) by (simp add: reads_def cs_def)
  have "dead (pv_now env ''dead'') cs" using assms(6-10) by (simp add: dead_def cs_def coalesce_def)
  then have "Driver_Reconcile D env w = Some (retryOrFail D env cs w)"
    using sound_pass_eq [OF assms(1,2) rd] inFlight_plain [OF assms(6)] assms(1,6,11)
    by (simp add: driveLive_def sound_pass_def undisturbed_before cs_def)
  with retryOrFail_healthy [OF assms(1-3) rd inFlight_guard [OF assms(6)] assms(12)] quiet_paths(4) [of D env cs w]
  show ?thesis by fastforce
qed

text \<open>
  A kill completes: a healthy pass over a Run in cancelling tears its sandbox down, moves it to
  cancelled under a raised fence, frees its endpoint slot and asks for no further pass; nothing
  is started and no other claim changes.
\<close>

theorem kill_completes:
  assumes "sound_pass env" and "drivable D (wd_run w)" and "wf_prod (wd_db w)"
    and "claim_row_of (wd_db w) (run_WorkItemRef (wd_run w)) = Some r" and "item_row_of (wd_db w) (run_WorkItemRef (wd_run w)) = Some it"
    and "pc_step r = StepCancelling"
  shows "\<exists>w'. Driver_Reconcile D env w = Some (absorb, w') \<and>
    (\<forall>j. claim_row_of (wd_db w') j = (if j = run_WorkItemRef (wd_run w)
       then Some (cancel_row (pv_now env ''cancel-finish'') StepCancelled False r) else claim_row_of (wd_db w) j)) \<and>
    wd_torn w' = wd_torn w @ (if dr_Sandbox D then [run_UID (wd_run w)] else []) \<and>
    wd_gate w' = (if dr_EndpointGate D then ReleaseByRun (run_UID (wd_run w)) (wd_gate w) else wd_gate w) \<and>
    wd_log w' = wd_log w"
proof -
  define cs where "cs = \<lparr>cs_Step = pc_step r, cs_Fence = pc_fence r, cs_Holder = coalesce (pc_holder r), cs_Lease = pc_lease r,
    cs_RunID = coalesce (pc_run r), cs_ItemState = pw_state it\<rparr>"
  let ?item = "run_WorkItemRef (wd_run w)" and ?run = "run_UID (wd_run w)"
  have rd: "reads w r it cs" using assms(4,5) by (simp add: reads_def cs_def)
  have u: "undisturbed env" and flt: "pv_flt env = (\<lambda>_ _. False)" using assms(1) by (simp_all add: sound_pass_def)
  have pass: "Driver_Reconcile D env w = Some (cancelFinish D env cs w)"
    using sound_pass_eq [OF assms(1,2) rd] assms(6) by (simp add: IsTerminal_def isPaused_def)
  obtain db' where tx: "cancelTx (\<lambda>_. False) (pv_now env ''cancel-finish'') ?item ?run (dr_principal D) [] ''run_cancelled'' StepCancelled
      (pc_fence r) False (wd_db w) = ((None, CancelAccepted), db')"
    using assms(4,6) by (simp add: cancelTx_def row_key_wf [OF wf_prodD(1) [OF assms(3)]] cancel_guard_def isCancelTerminalStep_def Let_def)
  from cancelTx_accepted [OF this assms(3)] assms(4)
  have "\<forall>j. claim_row_of db' j = (if j = ?item then Some (cancel_row (pv_now env ''cancel-finish'') StepCancelled False r)
      else claim_row_of (wd_db w) j)" by simp
  then show ?thesis unfolding pass
    using tx by (simp add: cancelFinish_def undisturbed_before [OF u] flt Let_def Claims_CancelFinish_def CancelFinish_def cs_def
      release_endpoint_def release_sandbox_def)
qed

text \<open>
  A parked Run has a wake: a healthy pass over a paused Run ends without asking for another, moves
  nothing and starts nothing, and the resume ledger then holds a pending wake for its item; a wake
  that was already pending is kept as it is.
\<close>

theorem parked_run_has_wake:
  assumes "sound_pass env" and "drivable D (wd_run w)" and "wf_table pr_item (wd_pauses w)"
    and "claim_row_of (wd_db w) (run_WorkItemRef (wd_run w)) = Some r" and "item_row_of (wd_db w) (run_WorkItemRef (wd_run w)) = Some it"
    and "isPaused (pc_step r)"
  shows "\<exists>w' wake. Driver_Reconcile D env w = Some (absorb, w') \<and>
    Pending (\<lambda>_. False) (run_WorkItemRef (wd_run w)) (wd_pauses w') = Inr (Some wake) \<and>
    (Pending (\<lambda>_. False) (run_WorkItemRef (wd_run w)) (wd_pauses w) \<in> {Inr None, Inr (Some wake)}) \<and>
    wd_db w' = wd_db w \<and> wd_log w' = wd_log w \<and> wd_gate w' = wd_gate w"
proof -
  define cs where "cs = \<lparr>cs_Step = pc_step r, cs_Fence = pc_fence r, cs_Holder = coalesce (pc_holder r), cs_Lease = pc_lease r,
    cs_RunID = coalesce (pc_run r), cs_ItemState = pw_state it\<rparr>"
  let ?item = "run_WorkItemRef (wd_run w)"
  have rd: "reads w r it cs" using assms(4,5) by (simp add: reads_def cs_def)
  have flt: "pv_pflt env = (\<lambda>_. False)" using assms(1) by (simp add: sound_pass_def)
  have pass: "Driver_Reconcile D env w = Some (Driver_park D env w)"
    using sound_pass_eq [OF assms(1,2) rd] assms(6) by (auto simp: IsTerminal_def isPaused_def)
  show ?thesis
  proof (cases "Pending (\<lambda>_. False) ?item (wd_pauses w)")
    case (Inl e)
    then show ?thesis by (simp add: Pending_def)
  next
    case (Inr p)
    show ?thesis
    proof (cases p)
      case (Some wake)
      then have "Driver_park D env w = (absorb, w)" using Inr by (simp add: Driver_park_def flt Let_def)
      then show ?thesis using pass Inr Some by auto
    next
      case None
      let ?row = "prod_pause_write (dr_Pauses D) (pv_rand env) (pv_now env ''pause'') ?item (run_UID (wd_run w)) None (lookup_by pr_item ?item (wd_pauses w))"
      let ?t = "upsert_by pr_item ?row (wd_pauses w)"
      have "Driver_park D env w = (absorb, kick (dr_Notify D) KickResume (w\<lparr>wd_pauses := ?t\<rparr>))"
        using Inr None by (simp add: Driver_park_def flt Let_def ProdPause_def)
      moreover have "Pending (\<lambda>_. False) ?item ?t = Inr (Some (pr_resume_at ?row))"
        using assms(3) by (simp add: Pending_def row_key_wf pause_pending_def prod_pause_write_def Let_def)
      ultimately show ?thesis using pass Inr None by simp
    qed
  qed
qed

section \<open>Wakes\<close>

text \<open>What a wake does to a claim: a rate-limited pause goes back to dispatching, anything else stays.\<close>

definition woken :: "prod_claim \<Rightarrow> prod_claim" where
  "woken r = (if pc_step r = StepPausedRateLimited then r\<lparr>pc_step := StepDispatching\<rparr> else r)"

lemma RequeuePaused_healthy:
  assumes "wf_prod db" and "RequeuePaused prin (\<lambda>_. False) now item db = (res, db')"
  shows "wf_prod db' \<and> (\<forall>j. claim_row_of db' j = (if j = item then map_option woken (claim_row_of db j) else claim_row_of db j)) \<and>
    (res = Inr True \<longleftrightarrow> (\<exists>r. claim_row_of db item = Some r \<and> pc_step r = StepPausedRateLimited))"
proof (cases "\<exists>r. claim_row_of db item = Some r \<and> pc_step r = StepPausedRateLimited")
  case True
  then obtain r where r: "claim_row_of db item = Some r" "pc_step r = StepPausedRateLimited" by blast
  let ?db1 = "db\<lparr>pd_claims := upd_key pc_item item (\<lambda>r. pc_step r \<in> set [StepPausedRateLimited]) (\<lambda>r. r\<lparr>pc_step := StepDispatching\<rparr>) (pd_claims db)\<rparr>"
  have aff: "aff_key pc_item item (\<lambda>r. pc_step r \<in> set [StepPausedRateLimited]) (pd_claims db) = 1"
    using r by (simp add: aff_key_wf [OF wf_prodD(1) [OF assms(1)]])
  have "res = Inr True" "pd_claims db' = pd_claims ?db1" "wf_prod db'"
    using assms aff by (auto simp: RequeuePaused_def move_tx_def Let_def)
  then show ?thesis using r wf_prodD(1) [OF assms(1)] by (simp add: woken_def)
next
  case False
  then have "aff_key pc_item item (\<lambda>r. pc_step r \<in> set [StepPausedRateLimited]) (pd_claims db) = 0"
    by (auto simp: aff_key_wf [OF wf_prodD(1) [OF assms(1)]] split: option.splits)
  then have "res = Inr False" "db' = db" using assms(2) by (auto simp: RequeuePaused_def move_tx_def Let_def)
  then show ?thesis using assms(1) False by (cases "claim_row_of db item") (auto simp: woken_def)
qed

lemma OnResumeDue_effect:
  assumes "OnResumeDue D env n due db = (kicked, db')" and "wf_prod db" and "\<And>k. fst (env k) = (\<lambda>_. False)"
  shows "wf_prod db' \<and> (\<forall>j. claim_row_of db' j = (if j \<in> set due then map_option woken (claim_row_of db j) else claim_row_of db j)) \<and>
    set kicked = {j \<in> set due. \<exists>r. claim_row_of db j = Some r \<and> pc_step r = StepPausedRateLimited}"
  using assms(1,2)
proof (induction due arbitrary: n db kicked db')
  case Nil
  then show ?case by simp
next
  case (Cons item due)
  obtain res db1 where q: "RequeuePaused (dr_principal D) (\<lambda>_. False) (snd (env n)) item db = (res, db1)" by fastforce
  obtain ks db2 where o: "OnResumeDue D env (Suc n) due db1 = (ks, db2)" by fastforce
  note h = RequeuePaused_healthy [OF Cons.prems(2) q]
  have kd: "db' = db2" "kicked = (if res = Inr True then item # ks else ks)"
    using Cons.prems(1) q o assms(3) by (auto split: sum.splits bool.splits)
  note ih = Cons.IH [OF o]
  have ww: "woken (woken r) = woken r" for r by (simp add: woken_def)
  have w1: "wf_prod db1" using h by blast
  have rows: "claim_row_of db' j = (if j \<in> set (item # due) then map_option woken (claim_row_of db j) else claim_row_of db j)" for j
    using ih [OF w1] h kd(1) by (cases "claim_row_of db j") (auto simp: ww)
  have "set kicked = {j \<in> set (item # due). \<exists>r. claim_row_of db j = Some r \<and> pc_step r = StepPausedRateLimited}"
  proof -
    have "(\<exists>r. claim_row_of db1 j = Some r \<and> pc_step r = StepPausedRateLimited) \<longleftrightarrow>
        j \<noteq> item \<and> (\<exists>r. claim_row_of db j = Some r \<and> pc_step r = StepPausedRateLimited)" for j
      using h by (auto simp: woken_def)
    then show ?thesis using ih [OF w1] h kd(2) by auto
  qed
  then show ?case using rows ih [OF w1] kd(1) by blast
qed

text \<open>
  A due wake re-enters exactly the Runs it should: when the resume loop hands the driver its due
  items, every one that is still paused for a rate limit moves to dispatching and its Run is
  kicked back into the queue, once per item; a due item whose Run has moved on meanwhile, and
  every other item, keeps its claim as it is and is not kicked.
\<close>

theorem wake_reenters_exactly:
  assumes "OnResumeDue D env n due db = (kicked, db')" and "wf_prod db" and "\<And>k. fst (env k) = (\<lambda>_. False)"
  shows "(\<forall>j. claim_row_of db' j = (if j \<in> set due then map_option woken (claim_row_of db j) else claim_row_of db j)) \<and>
    set kicked = {j \<in> set due. \<exists>r. claim_row_of db j = Some r \<and> pc_step r = StepPausedRateLimited}"
  using OnResumeDue_effect [OF assms] by blast

section \<open>A Run at every stage\<close>

definition demo_driver :: Driver where
  "demo_driver = \<lparr>dr_principal = ''op'', dr_isUuid = (\<lambda>s. s \<noteq> []), dr_isPrint = (\<lambda>r. True), dr_carrier = None,
     dr_binder = Some (\<lambda>log r. Inr ''sbx-1''), dr_dispatcher = Some (\<lambda>log t r. None), dr_credWriter = None, dr_refObserver = None,
     dr_Sandbox = True, dr_BindClear = True, dr_EndpointGate = True, dr_Settle = True, dr_Notify = True, dr_NotifyPhase = True,
     dr_MaxPasses = 3, dr_Pauses = DefaultProdResumeConfig, dr_isErr = (\<lambda>_ _. False), dr_lower = id, dr_getSecret = (\<lambda>_ _. None),
     dr_setCond = (\<lambda>cs c. (True, cs @ [c])), dr_removeCond = (\<lambda>cs t. (True, filter (\<lambda>c. cd_Type c \<noteq> t) cs))\<rparr>"

definition demo_run :: Run where
  "demo_run = \<lparr>run_UID = ''r'', run_Namespace = ''ns'', run_Name = ''run'', run_Generation = 1, run_Deleting = False, run_WorkItemRef = ''i'',
     run_Project = ''shop'', run_Agents = [''a''], run_MaxRetries = Some 1, run_BackoffSeconds = None, run_TraceID = [],
     run_SandboxRef = None, run_Manifest = Some [\<lparr>sk_Namespace = ''ns'', sk_Name = ''image'', sk_CredentialType = ''gemini''\<rparr>],
     run_Conditions = []\<rparr>"

definition demo_pass :: "instant \<Rightarrow> pass_env" where
  "demo_pass t = \<lparr>pv_get = ApiOk, pv_pod = ApiOk, pv_patch = (\<lambda>_. ApiOk), pv_flt = (\<lambda>_ _. False), pv_pflt = (\<lambda>_. False),
     pv_now = (\<lambda>_. t), pv_rand = 0, pv_store = (\<lambda>_. (\<lambda>_. False, t)), pv_others = (\<lambda>_. id)\<rparr>"

text \<open>The Run with its claim at a step, held until time 30 by an agent, under fence 1.\<close>

definition demo_claim :: "Step \<Rightarrow> prod_claim" where
  "demo_claim st = \<lparr>pc_item = ''i'', pc_holder = Some ''op'', pc_run = Some ''r'', pc_fence = 1, pc_lease = Some 30, pc_acquired = None,
     pc_renewed = None, pc_initiated = None, pc_reclaim_fenced = None, pc_step = st, pc_assignee = None\<rparr>"

definition demo_world :: "prod_claim \<Rightarrow> a2a_row list \<Rightarrow> world" where
  "demo_world r tasks = \<lparr>wd_db = one_todo\<lparr>pd_claims := [r], pd_a2a := tasks\<rparr>, wd_pauses = [], wd_gate = NewEndpointGate 1, wd_log = [],
     wd_torn = [], wd_kicks = [], wd_run = demo_run\<rparr>"

lemma demo_sound [simp]: "sound_pass (demo_pass t)" "undisturbed (demo_pass t)"
  by (simp_all add: sound_pass_def undisturbed_def demo_pass_def)

lemma demo_pass_sel [simp]: "pv_now (demo_pass t) call = t" "pv_flt (demo_pass t) = (\<lambda>_ _. False)" "pv_others (demo_pass t) call = id"
  "pv_pflt (demo_pass t) = (\<lambda>_. False)" "pv_rand (demo_pass t) = 0"
  by (simp_all add: demo_pass_def)

lemma demo_drivable [simp]: "drivable demo_driver demo_run"
  by (simp add: drivable_def demo_driver_def demo_run_def)

lemma demo_world_sel [simp]:
  "wd_run (demo_world r tasks) = demo_run" "run_UID demo_run = ''r''" "run_WorkItemRef demo_run = ''i''" "maxRetries demo_run = 1"
  "claim_row_of (wd_db (demo_world r tasks)) j = (if pc_item r = j then Some r else None)"
  "item_row_of (wd_db (demo_world r tasks)) ''i'' = Some (List.hd (pd_items one_todo))"
  "pd_a2a (wd_db (demo_world r tasks)) = tasks" "wd_log (demo_world r tasks) = []" "wd_torn (demo_world r tasks) = []"
  "wd_pauses (demo_world r tasks) = []" "wd_gate (demo_world r tasks) = NewEndpointGate 1"
  by (simp_all add: demo_world_def demo_run_def maxRetries_def one_todo_def lookup_by_def sql_row_def)

lemma demo_world_wf [simp]: "wf_prod (wd_db (demo_world r []))"
  by (simp add: demo_world_def wf_prod_def wf_table_def one_todo_def)

lemma demo_claim_sel [simp]: "pc_item (demo_claim st) = ''i''" "pc_step (demo_claim st) = st" "pc_holder (demo_claim st) = Some ''op''"
  "pc_lease (demo_claim st) = Some 30" "pc_fence (demo_claim st) = 1"
  by (simp_all add: demo_claim_def)

lemma demo_laps [simp]: "LapsUsed (\<lambda>_. False) ''r'' (wd_db (demo_world r [])) = Inr 0"
  by (simp add: LapsUsed_def sql_affected_def)

theorem dead_attempt_recovered_witness:
  "\<exists>w'. Driver_Reconcile demo_driver (demo_pass 100) (demo_world (demo_claim StepRunning) []) =
     Some (Inr (Some (BackoffFor 0 demo_run 1)), w') \<and>
     claim_row_of (wd_db w') ''i'' = Some (entered_row 100 StepClaimingSandbox (demo_claim StepRunning)) \<and> wd_torn w' = [''r'']"
proof -
  let ?w = "demo_world (demo_claim StepRunning) []"
  have follow: "followSucceeded demo_driver (demo_pass 100) ?w = Inr False"
    by (simp add: followSucceeded_def latestLapSettlement_def demo_driver_def latest_lap_def)
  have sandbox: "dr_Sandbox demo_driver" by (simp add: demo_driver_def)
  show ?thesis
    using dead_attempt_recovered [of "demo_pass 100" demo_driver ?w "demo_claim StepRunning" _ "''op''" 30 0] follow sandbox
    by (auto simp: inFlightStep_def)
qed

theorem kill_completes_witness:
  "\<exists>w'. Driver_Reconcile demo_driver (demo_pass 100) (demo_world (demo_claim StepCancelling) []) = Some (absorb, w') \<and>
     claim_row_of (wd_db w') ''i'' = Some (cancel_row 100 StepCancelled False (demo_claim StepCancelling)) \<and> wd_torn w' = [''r'']"
proof -
  have sandbox: "dr_Sandbox demo_driver" by (simp add: demo_driver_def)
  show ?thesis
    using kill_completes [of "demo_pass 100" demo_driver "demo_world (demo_claim StepCancelling) []" "demo_claim StepCancelling"] sandbox
    by auto
qed

theorem parked_run_has_wake_witness:
  "\<exists>w' wake. Driver_Reconcile demo_driver (demo_pass 5) (demo_world (demo_claim StepPausedRateLimited) []) = Some (absorb, w') \<and>
     Pending (\<lambda>_. False) ''i'' (wd_pauses w') = Inr (Some wake) \<and> wd_log w' = []"
proof -
  have wf: "wf_table pr_item ([] :: prod_pause_row list)" by (simp add: wf_table_def)
  show ?thesis
    using parked_run_has_wake [of "demo_pass 5" demo_driver "demo_world (demo_claim StepPausedRateLimited) []" "demo_claim StepPausedRateLimited"] wf
    by (auto simp: isPaused_def)
qed

theorem wake_reenters_exactly_witness:
  "\<exists>kicked db'. OnResumeDue demo_driver (\<lambda>_. (\<lambda>_. False, 7)) 0 [''i''] (wd_db (demo_world (demo_claim StepPausedRateLimited) [])) = (kicked, db') \<and>
     set kicked = {''i''} \<and> map_option pc_step (claim_row_of db' ''i'') = Some StepDispatching"
proof -
  obtain kicked db' where r: "OnResumeDue demo_driver (\<lambda>_. (\<lambda>_. False, 7)) 0 [''i''] (wd_db (demo_world (demo_claim StepPausedRateLimited) [])) = (kicked, db')"
    by fastforce
  from wake_reenters_exactly [OF r demo_world_wf] show ?thesis using r by (auto simp: woken_def)
qed

text \<open>A free Run at pending, driven for the first time.\<close>

definition demo_fresh :: world where
  "demo_fresh = demo_world ((demo_claim StepPending)\<lparr>pc_holder := None, pc_run := None, pc_fence := 0, pc_lease := None\<rparr>) []"

lemma fresh_run_submits:
  "map_option (\<lambda>r. wd_log (snd r)) (Driver_Reconcile demo_driver (demo_pass 1) demo_fresh) =
   Some [BindCall ''r'' (Inr ''sbx-1''), SubmitCall ''r'' ''r'' None]"
  by code_simp

theorem work_needs_custody_witness:
  "\<exists>res w' r it. Driver_Reconcile demo_driver (demo_pass 1) demo_fresh = Some (res, w') \<and> wd_log w' \<noteq> [] \<and>
     claim_row_of (wd_db demo_fresh) ''i'' = Some r \<and> (holds_claim demo_driver (demo_pass 1) demo_run r \<or> may_take (demo_pass 1) r it)"
proof -
  obtain res w' where p: "Driver_Reconcile demo_driver (demo_pass 1) demo_fresh = Some (res, w')"
      "wd_log w' = [BindCall ''r'' (Inr ''sbx-1''), SubmitCall ''r'' ''r'' None]"
    using fresh_run_submits by auto
  have run: "wd_run demo_fresh = demo_run" "wd_log demo_fresh = []" "wf_prod (wd_db demo_fresh)" by (simp_all add: demo_fresh_def)
  have "wd_log w' \<noteq> wd_log demo_fresh" using p(2) run(2) by simp
  from work_needs_custody [OF p(1) demo_sound(2) run(3) this] p run show ?thesis by simp blast
qed

text \<open>
  The gate is read only at claiming_sandbox and at paused(credential_required), and a claim starts
  at pending: the first pass of a fresh Run goes from pending through the dispatch without reading
  it, although the Run's manifest holds a skill whose credential is missing.
\<close>

lemma fresh_run_bypasses_gate:
  "\<not> admitted demo_driver demo_run"
  "\<exists>res w'. Driver_Reconcile demo_driver (demo_pass 1) demo_fresh = Some (res, w') \<and> SubmitCall ''r'' ''r'' None \<in> set (wd_log w')"
proof -
  show "\<not> admitted demo_driver demo_run" by code_simp
  show "\<exists>res w'. Driver_Reconcile demo_driver (demo_pass 1) demo_fresh = Some (res, w') \<and> SubmitCall ''r'' ''r'' None \<in> set (wd_log w')"
    using fresh_run_submits by auto
qed

end
