(* ===== verification/Retry_Laws.thy ===== *)
theory Retry_Laws
  imports Driver_Laws
begin

text \<open>
  How the retry laps of the driver relate to the dispatch markers: a drive whose lap is not
  numbered cannot submit a Run whose first dispatch is recorded, and the laps that are counted
  are the numbered ones only.
\<close>

section \<open>Drives without a lap\<close>

text \<open>What a drive leaves alone when the Run's first dispatch is already recorded.\<close>

definition redispatch_free :: "ProdReconcileStore \<Rightarrow> ProdEffects \<Rightarrow> shared \<Rightarrow> shared \<Rightarrow> bool" where
  "redispatch_free B P x y \<longleftrightarrow>
     (run_inv B (fst x) \<and> lookup_by da_task (pe_runID P) (pd_a2a (st_db (fst x))) \<noteq> None \<longrightarrow>
      run_inv B (fst y) \<and> pd_a2a (st_db (fst y)) = pd_a2a (st_db (fst x)) \<and> (\<forall>t. submits t (ef_log (snd y)) = submits t (ef_log (snd x))))"

lemma redispatch_free_refl: "redispatch_free B P x x"
  by (simp add: redispatch_free_def)

lemma redispatch_free_trans: "redispatch_free B P x y \<Longrightarrow> redispatch_free B P y z \<Longrightarrow> redispatch_free B P x z"
  by (auto simp: redispatch_free_def)

lemma share_redispatch_free:
  assumes "grown P (e\<lparr>ef_db := st_db s\<rparr>) (f (e\<lparr>ef_db := st_db s\<rparr>))"
    and "lookup_by da_task (pe_runID P) (pd_a2a (st_db s)) \<noteq> None \<Longrightarrow>
      pd_a2a (ef_db (f (e\<lparr>ef_db := st_db s\<rparr>))) = pd_a2a (st_db s) \<and> (\<forall>t. submits t (ef_log (f (e\<lparr>ef_db := st_db s\<rparr>))) = submits t (ef_log e))"
  shows "redispatch_free B P (s, e) (share_eff f (s, e))"
proof -
  have "run_inv B (s\<lparr>st_db := ef_db (f (e\<lparr>ef_db := st_db s\<rparr>))\<rparr>)" if "run_inv B s"
  proof -
    have "same_custody (st_db s) (ef_db (f (e\<lparr>ef_db := st_db s\<rparr>)))" using assms(1) by (simp add: grown_def)
    then show ?thesis using that wf_prod_grown [OF assms(1)] by (simp add: run_inv_def same_custody_def)
  qed
  then show ?thesis using assms(2) by (simp add: redispatch_free_def share_eff_eq Let_def)
qed

lemma first_task: "Durable opt \<Longrightarrow> Lap opt = None \<Longrightarrow> boundTaskID P (dispatchTaskID opt) = pe_runID P"
  by (simp add: dispatchTaskID_def boundTaskID_def)

lemma effect_redispatch_free:
  assumes "Durable opt" and "Lap opt = None"
  shows "redispatch_free B P (s, e) (phaseEffect (sharedEffects P env) opt step (s, e))"
proof -
  let ?e = "e\<lparr>ef_db := st_db s\<rparr>"
  have b: "redispatch_free B P (s, e) (share_eff (ProdEffects_BindSandbox P env r True) (s, e))" for r
    by (rule share_redispatch_free [where f = "ProdEffects_BindSandbox P env r True", OF grown_effects(1)])
       (use BindSandbox_effect [OF refl, where P = P and env = env and r = r and s = ?e] BindSandbox_submits [of _ P env r ?e] in simp_all)
  have d: "redispatch_free B P (s, e) (share_eff (ProdEffects_Dispatch P env (dispatchTaskID opt) True) (s, e))"
    by (rule share_redispatch_free [where f = "ProdEffects_Dispatch P env (dispatchTaskID opt) True", OF grown_effects(2)])
       (use Dispatch_effect [OF refl, where P = P and env = env and t = "dispatchTaskID opt" and s = ?e] first_task [OF assms] in simp_all)
  have c: "redispatch_free B P (s, e) (share_eff (ProdEffects_Collect P env k ct True) (s, e))" for k ct
    by (rule share_redispatch_free [where f = "ProdEffects_Collect P env k ct True", OF grown_effects(3)])
       (use Collect_effect [OF refl, where P = P and env = env and key = k and content = ct and s = ?e] in \<open>simp_all add: Collect_calls\<close>)
  show ?thesis using assms(1) b d c redispatch_free_refl by (simp add: phaseEffect_def sharedEffects_def)
qed

lemma terminal_run_inv:
  assumes "run_inv B s"
  shows "run_inv B (fst (share_eff (ProdEffects_Terminal P env st) (s, e)))"
proof -
  obtain flt now where f: "env (ef_calls e) = (flt, now)" by fastforce
  have wf: "wf_prod (st_db s)" using assms by (simp add: run_inv_def)
  show ?thesis
  proof (cases "terminal_tx P flt now st (st_db s)")
    case (Inl er)
    then show ?thesis using f assms by (simp add: share_eff_eq ProdEffects_Terminal_def Let_def run_inv_def)
  next
    case (Inr db')
    then show ?thesis using f assms terminal_tx_Inr [OF Inr wf, of "rs_workItemID B"]
      by (simp add: share_eff_eq ProdEffects_Terminal_def Let_def run_inv_def del: not_None_eq)
  qed
qed

lemma advance_frame:
  assumes "ProdStore_Advance B env a b f s = (ok, s')" and "run_inv B s"
  shows "run_inv B s' \<and> pd_a2a (st_db s') = pd_a2a (st_db s)"
  using assms(1)
proof (cases rule: ProdStore_Advance_cases)
  case rejected
  then show ?thesis using assms(2) by (simp add: run_inv_def)
next
  case committed
  obtain r where r: "claim_row_of (st_db s) (rs_workItemID B) = Some r" "wf_prod (st_db s)"
      "item_row_of (st_db s) (rs_workItemID B) \<noteq> None" using assms(2) by (auto simp: run_inv_def)
  from advance_tx_True [OF committed(2) r(2,1,3)] r show ?thesis by (auto simp: run_inv_def)
qed

lemma commit_redispatch_free:
  "redispatch_free B P (s, e) (drive_commit (sharedEffects P env) (sharedStore B env') opt step (s, e))"
proof (cases "nextStep opt step")
  case None
  then show ?thesis by (simp add: drive_commit_def redispatch_free_refl)
next
  case (Some nx)
  obtain ok s' where adv: "ProdStore_Advance B env' step nx (fenceArg opt) s = (ok, s')" by fastforce
  have eq: "drive_commit (sharedEffects P env) (sharedStore B env') opt step (s, e) =
      (if ok \<and> IsTerminal nx then share_eff (ProdEffects_Terminal P env nx) (s', e) else (s', e))"
    using Some adv by (simp add: drive_commit_def sharedStore_def share_store_def sharedEffects_def)
  show ?thesis unfolding redispatch_free_def eq
    using advance_frame [OF adv] share_terminal_frame [of B s' P env nx e] terminal_run_inv [of B s' P env nx e] by simp
qed

lemma drive_redispatch_free:
  assumes "drive (sharedEffects P env) (sharedStore B env') opt x = Some (er, x')" and "Durable opt" and "Lap opt = None"
  shows "redispatch_free B P x x'"
proof (rule drive_loop_rel [where R = "redispatch_free B P", OF assms(1) [unfolded drive_def]])
  fix x y st assume "Store_Step (sharedStore B env') x = (st, y)"
  then have "st_db (fst y) = st_db (fst x) \<and> snd y = snd x"
    by (auto simp: sharedStore_def share_store_def ProdStore_Step_def split: prod.splits option.splits if_splits)
  then show "redispatch_free B P x y" by (simp add: redispatch_free_def run_inv_def)
next
  fix step x y err z assume ph: "drive_phase (sharedEffects P env) (sharedStore B env') opt step y = (err, z)"
  obtain s e where y: "y = (s, e)" by fastforce
  obtain s1 e1 where x1: "phaseEffect (sharedEffects P env) opt step (s, e) = (s1, e1)" by fastforce
  have c1: "redispatch_free B P (s, e) (s1, e1)" using effect_redispatch_free [OF assms(2,3)] x1 by metis
  have "z = y \<or> z = (s1, e1) \<or> z = drive_commit (sharedEffects P env) (sharedStore B env') opt step (s1, e1)"
    using ph y x1 by (auto simp: drive_phase_def Let_def split: option.splits if_splits)
  then show "redispatch_free B P y z"
    using c1 y commit_redispatch_free redispatch_free_trans redispatch_free_refl by metis
qed (use redispatch_free_refl redispatch_free_trans in blast)+

end
