(* ===== verification/Pass_Laws.thy ===== *)
theory Pass_Laws
  imports Retry_Laws
begin

text \<open>
  What a pass of the driver does to the claim tables, whatever the statements, the ports and the
  other processes do: the tables stay well-formed, no fence goes down and no row disappears.
\<close>

section \<open>Evolutions of the database\<close>

definition db_evolves :: "prod_db \<Rightarrow> prod_db \<Rightarrow> bool" where
  "db_evolves db db' \<longleftrightarrow> fences_kept db db' \<and>
     (\<forall>j. claim_row_of db j \<noteq> None \<longrightarrow> claim_row_of db' j \<noteq> None) \<and> (\<forall>j. item_row_of db j \<noteq> None \<longrightarrow> item_row_of db' j \<noteq> None)"

lemma db_evolves_refl: "wf_prod db \<Longrightarrow> db_evolves db db"
  by (simp add: db_evolves_def fences_kept_refl)

lemma db_evolves_trans: "db_evolves db db1 \<Longrightarrow> db_evolves db1 db2 \<Longrightarrow> db_evolves db db2"
  unfolding db_evolves_def fences_kept_def by (meson order_trans)

lemma db_evolves_wf: "db_evolves db db' \<Longrightarrow> wf_prod db'"
  by (simp add: db_evolves_def fences_kept_def)

lemma db_evolves_claim:
  assumes "wf_prod db'" and "claim_row_of db item = Some r" and "claim_row_of db' item = Some r'" and "pc_fence r \<le> pc_fence r'"
    and "\<And>j. j \<noteq> item \<Longrightarrow> claim_row_of db' j = claim_row_of db j" and "\<And>j. item_row_of db j \<noteq> None \<Longrightarrow> item_row_of db' j \<noteq> None"
  shows "db_evolves db db'"
proof -
  have "prod_fence db j \<le> prod_fence db' j" "claim_row_of db j \<noteq> None \<longrightarrow> claim_row_of db' j \<noteq> None" for j
    using assms(2-5) by (cases "j = item"; simp add: prod_fence_def)+
  then show ?thesis using assms(1,6) by (simp add: db_evolves_def fences_kept_def)
qed

section \<open>The transactions\<close>

lemma upd_claims_evolves:
  assumes "wf_prod db" and "\<And>r. pc_item (f r) = pc_item r" and "\<And>r. G r \<Longrightarrow> pc_fence r \<le> pc_fence (f r)"
  shows "db_evolves db (db\<lparr>pd_claims := upd_key pc_item k G f (pd_claims db)\<rparr>)"
  using upd_claims_keeps [OF assms] assms(1,2) by (auto simp: db_evolves_def)

lemma renew_evolves: "wf_prod db \<Longrightarrow> db_evolves db (snd (Claims_Renew prin flt tg ts item run fence db))"
  by (auto simp: Claims_Renew_def Let_def db_evolves_refl intro!: upd_claims_evolves)

lemma acquire_evolves:
  assumes "wf_prod db"
  shows "db_evolves db (snd (Claims_Acquire prin flt carrier tg ts item run agent db))"
proof -
  obtain res db' where a: "AcquireSpecific driveConfig flt carrier tg ts prin run item [] agent db = (res, db')" by fastforce
  have eq: "snd (Claims_Acquire prin flt carrier tg ts item run agent db) = db'" using a by (simp add: Claims_Acquire_def split: sum.splits)
  show ?thesis
  proof (cases "\<exists>g. res = Inr (Some g)")
    case False
    then show ?thesis using AcquireSpecific_refused [OF a] assms eq by (simp add: db_evolves_refl)
  next
    case True
    then obtain i f where "AcquireSpecific driveConfig flt carrier tg ts prin run item [] agent db = (Inr (Some (i, f)), db')" using a by auto
    from AcquireSpecific_granted [OF this assms] have "granted_to driveConfig tg ts prin run i f db db'" "wf_prod db'" by auto
    then show ?thesis unfolding eq by (auto simp: granted_to_def intro: db_evolves_claim)
  qed
qed

lemma enter_tail_items:
  assumes "enter_tail ev flt now prin item run held f st prk db = Inr db'" and "wf_prod db"
  shows "item_row_of db' j = None \<longleftrightarrow> item_row_of db j = None"
proof -
  let ?db2 = "if held then insert_audit (enter_audit now prin item run ''claim_released'' f st) (insert_audit (enter_audit now prin item run ev f st) db)
     else insert_audit (enter_audit now prin item run ev f st) db"
  let ?db3 = "outbox_for_item ''run'' ev item (nullable run) [(''to_step'', JStr (step_name st)), (''fence_token'', JInt f)] None ?db2"
  obtain lm db4 where settle: "SettleTerminalLane flt now item run prin (step_name st) ?db3 = Inr (lm, db4)"
      and prk: "enter_park flt now prin item run f prk db4 = Inr db'"
    using assms(1) by (auto simp: enter_tail_def Let_def split: if_splits sum.splits)
  have wf3: "wf_prod ?db3" using assms(2) by simp
  have "item_row_of db4 j = None \<longleftrightarrow> item_row_of ?db3 j = None" "wf_prod db4"
    using SettleTerminalLane_tables [OF settle, of j] wf3 by blast+
  moreover have "item_row_of ?db3 j = item_row_of db j" by simp
  ultimately show ?thesis using enter_park_Inr [OF prk] by auto
qed

lemma enter_evolves:
  assumes "wf_prod db"
  shows "db_evolves db (snd (enter prin flt now item run ev fence st prk db))"
proof -
  obtain res db' where e: "enter prin flt now item run ev fence st prk db = (res, db')" by fastforce
  from e assms have "db_evolves db db'"
  proof (cases rule: enter_cases)
    case refused
    then show ?thesis using assms by (simp add: db_evolves_refl)
  next
    case (entered r)
    let ?db1 = "db\<lparr>pd_claims := upd_key pc_item item (enter_guard fence) (entered_row now st) (pd_claims db)\<rparr>"
    have wf: "wf_prod ?db1" using assms by simp
    obtain r' where row: "claim_row_of db' item = Some (entered_row now st r)" "\<And>j. j \<noteq> item \<Longrightarrow> claim_row_of db' j = claim_row_of db j" "wf_prod db'"
      using e [unfolded entered(3)] assms entered(1) by (auto elim!: enter_effect)
    show ?thesis
    proof (rule db_evolves_claim [OF row(3) entered(1) row(1) _ row(2)])
      show "item_row_of db' j \<noteq> None" if "item_row_of db j \<noteq> None" for j
        using that enter_tail_items [OF entered(4) wf, of j] by simp
    qed simp_all
  qed
  then show ?thesis by (simp add: e)
qed

lemma park_evolves:
  assumes "wf_prod db"
  shows "db_evolves db (snd (RetryEnter prin flt now item run fence db))" "db_evolves db (snd (FailEnter prin flt now item run fence db))"
    "db_evolves db (snd (FailClosedPark prin flt now item run fence reason db))"
  using enter_evolves [OF assms] by (simp_all add: RetryEnter_def FailEnter_def FailClosedPark_def enter_ok_def)

lemma cancel_evolves:
  assumes "wf_prod db"
  shows "db_evolves db (snd (Claims_CancelFinish prin flt now item run fence db))"
proof -
  obtain err out db' where c: "cancelTx flt now item run prin [] ''run_cancelled'' StepCancelled fence False db = ((err, out), db')"
    by (metis prod.exhaust)
  have eq: "snd (Claims_CancelFinish prin flt now item run fence db) = db'"
    using c by (simp add: Claims_CancelFinish_def CancelFinish_def split: option.splits)
  show ?thesis unfolding eq
  proof (cases "out = CancelAccepted")
    case False
    then show "db_evolves db db'" using cancelTx_refused [OF c] assms by (simp add: db_evolves_refl)
  next
    case True
    from cancelTx_accepted [OF c [unfolded True] assms] show "db_evolves db db'"
      by (auto intro!: db_evolves_claim)
  qed
qed

lemma clear_evolves: "wf_prod db \<Longrightarrow> db_evolves db (snd (ClearSandboxBind prin flt now run db))"
  by (auto simp: ClearSandboxBind_def db_evolves_def fences_kept_def prod_fence_def wf_prod_def insert_audit_def split: option.splits)

lemma move_evolves:
  assumes "wf_prod db"
  shows "db_evolves db (snd (move_tx who prin flt now frm st ev txt outbox payload item db))"
proof -
  let ?db1 = "db\<lparr>pd_claims := upd_key pc_item item (\<lambda>r. pc_step r \<in> set frm) (\<lambda>r. r\<lparr>pc_step := st\<rparr>) (pd_claims db)\<rparr>"
  have "db_evolves db ?db1" by (rule upd_claims_evolves [OF assms]) simp_all
  then have "db_evolves db (outbox_for_item ''run'' outbox item (nullable z) payload None (insert_audit a ?db1))" for a z
    by (auto simp: db_evolves_def fences_kept_def prod_fence_def)
  then show ?thesis using assms by (simp add: move_tx_def Let_def db_evolves_refl)
qed

section \<open>A drive\<close>

definition drive_evolves :: "ProdReconcileStore \<Rightarrow> shared \<Rightarrow> shared \<Rightarrow> bool" where
  "drive_evolves B x y \<longleftrightarrow> (run_inv B (fst x) \<longrightarrow> run_inv B (fst y) \<and> db_evolves (st_db (fst x)) (st_db (fst y)))"

lemma drive_evolves_refl: "drive_evolves B x x"
  by (simp add: drive_evolves_def db_evolves_refl run_inv_def)

lemma drive_evolves_trans: "drive_evolves B x y \<Longrightarrow> drive_evolves B y z \<Longrightarrow> drive_evolves B x z"
  unfolding drive_evolves_def by (meson db_evolves_trans)

lemma run_inv_evolves: "run_inv B s \<Longrightarrow> db_evolves (st_db s) (st_db s') \<Longrightarrow> run_inv B s'"
  by (simp add: run_inv_def db_evolves_def fences_kept_def)

lemma drive_evolvesI: "(run_inv B s \<Longrightarrow> db_evolves (st_db s) (st_db s')) \<Longrightarrow> drive_evolves B (s, e) (s', e')"
  using run_inv_evolves by (auto simp: drive_evolves_def)

lemma grown_evolves:
  assumes "grown P (e\<lparr>ef_db := st_db s\<rparr>) (f (e\<lparr>ef_db := st_db s\<rparr>))"
  shows "drive_evolves B (s, e) (share_eff f (s, e))"
proof -
  have c: "same_custody (st_db s) (ef_db (f (e\<lparr>ef_db := st_db s\<rparr>)))" using assms by (simp add: grown_def)
  then have "db_evolves (st_db s) (ef_db (f (e\<lparr>ef_db := st_db s\<rparr>)))" if "wf_prod (st_db s)"
    using wf_prod_grown [OF assms] that by (simp add: db_evolves_def fences_kept_def prod_fence_def same_custody_def)
  then show ?thesis by (auto simp: drive_evolves_def share_eff_eq Let_def run_inv_def db_evolves_def fences_kept_def)
qed

lemma effect_evolves: "Durable opt \<Longrightarrow> drive_evolves B (s, e) (phaseEffect (sharedEffects P env) opt step (s, e))"
  using grown_evolves [where f = "ProdEffects_BindSandbox P env RunID True", OF grown_effects(1)]
    grown_evolves [where f = "ProdEffects_Dispatch P env (dispatchTaskID opt) True", OF grown_effects(2)]
    grown_evolves [where f = "ProdEffects_Collect P env (RunID @ ''/patch'') ''diff-bytes'' True", OF grown_effects(3)]
    drive_evolves_refl
  by (simp add: phaseEffect_def sharedEffects_def)

lemma terminal_evolves: "drive_evolves B (s, e) (share_eff (ProdEffects_Terminal P env st) (s, e))"
proof -
  obtain flt now where f: "env (ef_calls e) = (flt, now)" by fastforce
  have "db_evolves (st_db s) db'" if tx: "terminal_tx P flt now st (st_db s) = Inr db'" and wf: "wf_prod (st_db s)" for db'
    using terminal_tx_Inr [OF tx wf] by (auto simp: db_evolves_def fences_kept_def prod_fence_def released_row_def split: option.splits)
  then have "db_evolves (st_db s) (ef_db (ProdEffects_Terminal P env st (e\<lparr>ef_db := st_db s\<rparr>)))" if "wf_prod (st_db s)"
    using f that db_evolves_refl by (simp add: ProdEffects_Terminal_def Let_def split: sum.splits)
  then show ?thesis unfolding share_eff_eq Let_def by (intro drive_evolvesI) (simp add: run_inv_def)
qed

lemma advance_evolves:
  assumes "ProdStore_Advance B env a b f s = (ok, s')"
  shows "drive_evolves B (s, e) (s', e)"
  using assms
proof (cases rule: ProdStore_Advance_cases)
  case rejected
  then show ?thesis by (simp add: drive_evolves_def run_inv_def db_evolves_refl)
next
  case committed
  have "db_evolves (st_db s) (st_db s')" if inv: "run_inv B s"
  proof -
    obtain r where r: "claim_row_of (st_db s) (rs_workItemID B) = Some r" "wf_prod (st_db s)"
      "item_row_of (st_db s) (rs_workItemID B) \<noteq> None" using inv by (auto simp: run_inv_def)
    from advance_tx_True [OF committed(2) r(2,1,3)] r(1) show ?thesis
      by (auto intro!: db_evolves_claim [where item = "rs_workItemID B"])
  qed
  then show ?thesis by (rule drive_evolvesI)
qed

lemma commit_evolves: "drive_evolves B (s, e) (drive_commit (sharedEffects P env) (sharedStore B env') opt step (s, e))"
proof (cases "nextStep opt step")
  case None
  then show ?thesis by (simp add: drive_commit_def drive_evolves_refl)
next
  case (Some nx)
  obtain ok s' where adv: "ProdStore_Advance B env' step nx (fenceArg opt) s = (ok, s')" by fastforce
  have eq: "drive_commit (sharedEffects P env) (sharedStore B env') opt step (s, e) =
      (if ok \<and> IsTerminal nx then share_eff (ProdEffects_Terminal P env nx) (s', e) else (s', e))"
    using Some adv by (simp add: drive_commit_def sharedStore_def share_store_def sharedEffects_def)
  show ?thesis unfolding eq using advance_evolves [OF adv] terminal_evolves drive_evolves_trans by (metis (full_types))
qed

lemma drive_keeps:
  assumes "drive (sharedEffects P env) (sharedStore B env') opt x = Some (er, x')" and "Durable opt"
  shows "drive_evolves B x x'"
proof (rule drive_loop_rel [where R = "drive_evolves B", OF assms(1) [unfolded drive_def]])
  fix x y st assume "Store_Step (sharedStore B env') x = (st, y)"
  then have "st_db (fst y) = st_db (fst x) \<and> snd y = snd x"
    by (auto simp: sharedStore_def share_store_def ProdStore_Step_def split: prod.splits option.splits if_splits)
  then show "drive_evolves B x y" by (simp add: drive_evolves_def run_inv_def db_evolves_refl)
next
  fix step x y err z assume ph: "drive_phase (sharedEffects P env) (sharedStore B env') opt step y = (err, z)"
  obtain s e where y: "y = (s, e)" by fastforce
  obtain s1 e1 where x1: "phaseEffect (sharedEffects P env) opt step (s, e) = (s1, e1)" by fastforce
  have c1: "drive_evolves B (s, e) (s1, e1)" using effect_evolves [OF assms(2)] x1 by metis
  have "z = y \<or> z = (s1, e1) \<or> z = drive_commit (sharedEffects P env) (sharedStore B env') opt step (s1, e1)"
    using ph y x1 by (auto simp: drive_phase_def Let_def split: option.splits if_splits)
  then show "drive_evolves B y z"
    using c1 y commit_evolves drive_evolves_trans drive_evolves_refl by metis
qed (use drive_evolves_refl drive_evolves_trans in blast)+

section \<open>A pass\<close>

text \<open>Other processes may do anything that keeps the tables well-formed, the fences up and the rows there.\<close>

definition benign :: "pass_env \<Rightarrow> bool" where
  "benign env \<longleftrightarrow> (\<forall>call db. wf_prod db \<longrightarrow> db_evolves db (pv_others env call db))"

definition same_run_of :: "world \<Rightarrow> world \<Rightarrow> bool" where
  "same_run_of w w' \<longleftrightarrow> run_UID (wd_run w') = run_UID (wd_run w) \<and> run_WorkItemRef (wd_run w') = run_WorkItemRef (wd_run w) \<and>
     run_MaxRetries (wd_run w') = run_MaxRetries (wd_run w)"

lemma before_evolves: "benign env \<Longrightarrow> wf_prod (wd_db w) \<Longrightarrow> db_evolves (wd_db w) (wd_db (before env call w))"
  by (simp add: benign_def)

text \<open>A call after what others did before it.\<close>

lemma call_evolves:
  assumes "benign env" and "wf_prod (wd_db w)" and "\<And>db. wf_prod db \<Longrightarrow> db_evolves db (snd (f db))"
  shows "db_evolves (wd_db w) (snd (f (wd_db (before env call w))))"
  using before_evolves [OF assms(1,2), of call] assms(3) [OF db_evolves_wf] db_evolves_trans by blast

lemma short_paths_db:
  "wd_db (snd (abandonInvalidRef D env w)) = wd_db w" "wd_db (snd (Driver_park D env w)) = wd_db w"
  "wd_db (snd (waitEndpointSlot D env e w)) = wd_db w" "wd_db (clearEndpointSlotWait D env w) = wd_db w"
  by (auto simp: abandonInvalidRef_def Driver_park_def waitEndpointSlot_def clearEndpointSlotWait_def Let_def
      split: prod.splits sum.splits option.splits api_result.splits)

lemma cancelFinish_evolves:
  assumes "benign env" and "wf_prod (wd_db w)"
  shows "db_evolves (wd_db w) (wd_db (snd (cancelFinish D env cs w)))"
proof -
  let ?w = "release_sandbox D w"
  have eq: "wd_db (snd (cancelFinish D env cs w)) = snd (Claims_CancelFinish (dr_principal D) (pv_flt env ''cancel-finish'') (pv_now env ''cancel-finish'')
      (run_WorkItemRef (wd_run w)) (run_UID (wd_run w)) (cs_Fence cs) (wd_db (before env ''cancel-finish'' ?w)))"
    by (auto simp: cancelFinish_def Let_def split: prod.splits sum.splits bool.splits)
  have "db_evolves (wd_db ?w) (wd_db (snd (cancelFinish D env cs w)))"
    unfolding eq by (rule call_evolves [OF assms(1)]) (use assms(2) cancel_evolves in simp_all)
  then show ?thesis by simp
qed

lemma retryOrFail_evolves:
  assumes "benign env" and "wf_prod (wd_db w)"
  shows "db_evolves (wd_db w) (wd_db (snd (retryOrFail D env cs w)))"
proof -
  let ?w = "before env ''laps'' (release_sandbox D w)"
  have w: "db_evolves (wd_db w) (wd_db ?w)" using before_evolves [OF assms(1), of "release_sandbox D w" "''laps''"] assms(2) by simp
  have r: "db_evolves (wd_db ?w) (snd (RetryEnter p flt now item run f (wd_db (before env call ?w))))" for p flt now item run f call
    by (rule call_evolves [OF assms(1) db_evolves_wf [OF w] park_evolves(1)])
  have l: "db_evolves (wd_db ?w) (snd (FailEnter p flt now item run f (wd_db (before env call ?w))))" for p flt now item run f call
    by (rule call_evolves [OF assms(1) db_evolves_wf [OF w] park_evolves(2)])
  have "db_evolves (wd_db ?w) (wd_db (snd (retryOrFail D env cs w)))"
    using db_evolves_refl [OF db_evolves_wf [OF w]]
      r [of "dr_principal D" "pv_flt env ''retry-enter''" "pv_now env ''retry-enter''" "run_WorkItemRef (wd_run w)" "run_UID (wd_run w)" "cs_Fence cs" "''retry-enter''"]
      l [of "dr_principal D" "pv_flt env ''fail-enter''" "pv_now env ''fail-enter''" "run_WorkItemRef (wd_run w)" "run_UID (wd_run w)" "cs_Fence cs" "''fail-enter''"]
    by (auto simp: retryOrFail_def Let_def split: sum.splits prod.splits option.splits)
  then show ?thesis using w db_evolves_trans by blast
qed

lemma failClosedPark_evolves:
  assumes "benign env" and "wf_prod (wd_db w)"
  shows "db_evolves (wd_db w) (wd_db (snd (failClosedPark D env fence w)))"
proof -
  have eq: "wd_db (snd (failClosedPark D env fence w)) = snd (FailClosedPark (dr_principal D) (pv_flt env ''park'') (pv_now env ''park'')
      (run_WorkItemRef (wd_run w)) (run_UID (wd_run w)) fence ''context_window_exceeded'' (wd_db (before env ''park'' w)))"
    by (auto simp: failClosedPark_def Let_def split: prod.splits sum.splits)
  show ?thesis unfolding eq by (rule call_evolves [OF assms park_evolves(3)])
qed

lemma reap_evolves:
  assumes "benign env" and "wf_prod (wd_db w)"
  shows "db_evolves (wd_db w) (wd_db (snd (reapGoneSandbox D env cs w))) \<and> same_run_of w (snd (reapGoneSandbox D env cs w))"
proof -
  let ?w1 = "before env ''clear bind'' w"
  have b: "db_evolves (wd_db w) (wd_db ?w1)" using before_evolves [OF assms] .
  have c: "db_evolves (wd_db w) (snd (ClearSandboxBind (dr_principal D) (pv_flt env ''clear bind'') (pv_now env ''clear bind'') (run_UID (wd_run w)) (wd_db ?w1)))"
    by (rule call_evolves [OF assms clear_evolves])
  show ?thesis using b c db_evolves_refl [OF assms(2)]
    by (auto simp: reapGoneSandbox_def Let_def same_run_of_def split: option.splits api_result.splits prod.splits)
qed

lemma drive_after_evolves:
  assumes "benign env" and "wf_prod (wd_db w)"
  shows "db_evolves (wd_db w) (wd_db (snd (drive_failed D env B what errs x w)))"
    "db_evolves (wd_db w) (wd_db (snd (drive_done D env B st x w)))"
  using failClosedPark_evolves [OF assms] db_evolves_refl [OF assms(2)]
  by (auto simp: drive_failed_def drive_done_def Let_def short_paths_db split: prod.splits)

definition grounded :: "world \<Rightarrow> bool" where
  "grounded w \<longleftrightarrow> wf_prod (wd_db w) \<and> claim_row_of (wd_db w) (run_WorkItemRef (wd_run w)) \<noteq> None \<and>
     item_row_of (wd_db w) (run_WorkItemRef (wd_run w)) \<noteq> None"

lemma grounded_evolves:
  "grounded w \<Longrightarrow> db_evolves (wd_db w) (wd_db w') \<Longrightarrow> run_WorkItemRef (wd_run w') = run_WorkItemRef (wd_run w) \<Longrightarrow> grounded w'"
  by (simp add: grounded_def db_evolves_def fences_kept_def)

lemma runner_ids:
  "ProdRunner_Store D run = Inr B \<Longrightarrow> rs_workItemID B = run_WorkItemRef run"
  "ProdRunner_Effects D run = Inr P \<Longrightarrow> pe_workItemID P = run_WorkItemRef run \<and> pe_runID P = run_UID run"
  by (auto simp: ProdRunner_Store_def NewProdReconcileStore_def WithA2AFollowGate_def WithTraceID_def ProdRunner_Effects_def
      NewProdEffects_def WithSandboxRefObserver_def WithRunCredentialWriter_def split: sum.splits if_splits)

lemma drive_start_db: "drive_start B env w = (fence, s, e) \<Longrightarrow> st_db s = wd_db w \<and> ef_log e = wd_log w"
  by (auto simp: drive_start_def ProdStore_Fence_def store_fail_def store_tick_def split: option.splits if_splits prod.splits)

text \<open>What is left of a run of the machine: the world it starts from, the drive, and what follows it.\<close>

lemma drive_run_cases:
  assumes "drive_run D env st w = Some (res, w')"
  obtains (stopped) "w' = w \<or> w' = before env ''drive laps'' w"
  | (driven) B P laps fence s e er x w3 w2 where "w2 = before env ''drive'' (before env ''drive laps'' w)"
      "ProdRunner_Store D (wd_run w) = Inr B" "ProdRunner_Effects D (wd_run w) = Inr P"
      "LapsUsed (pv_flt env ''drive laps'') (run_UID (wd_run w)) (wd_db (before env ''drive laps'' w)) = Inr laps"
      "drive_start B env w2 = (fence, s, e)"
      "drive (sharedEffects P (pv_store env)) (sharedStore B (pv_store env)) (drive_options D fence laps) (s, e) = Some (er, x)"
      "w3 = w2\<lparr>wd_db := st_db (fst x), wd_log := ef_log (snd x)\<rparr>"
      "w' = w3 \<or> (\<exists>what errs. drive_failed D env B what errs x w3 = (res, w')) \<or> drive_done D env B st x w3 = (res, w')"
proof (cases "ProdRunner_Store D (wd_run w)")
  case (Inl e)
  then show ?thesis using assms stopped by (simp add: drive_run_def)
next
  case B: (Inr B)
  show ?thesis
  proof (cases "ProdRunner_Effects D (wd_run w)")
    case (Inl e)
    then show ?thesis using assms B stopped by (simp add: drive_run_def)
  next
    case P: (Inr P)
    let ?w1 = "before env ''drive laps'' w" and ?w2 = "before env ''drive'' (before env ''drive laps'' w)"
    show ?thesis
    proof (cases "LapsUsed (pv_flt env ''drive laps'') (run_UID (wd_run w)) (wd_db ?w1)")
      case (Inl e)
      then show ?thesis using assms B P stopped by (simp add: drive_run_def Let_def)
    next
      case L: (Inr laps)
      obtain fence s e where st: "drive_start B env ?w2 = (fence, s, e)" by (metis prod.exhaust)
      show ?thesis
      proof (cases "drive (sharedEffects P (pv_store env)) (sharedStore B (pv_store env)) (drive_options D fence laps) (s, e)")
        case None
        then show ?thesis using assms B P L st by (simp add: drive_run_def Let_def)
      next
        case (Some ex)
        obtain er x where ex: "ex = (er, x)" by (cases ex)
        let ?w3 = "?w2\<lparr>wd_db := st_db (fst x), wd_log := ef_log (snd x)\<rparr>"
        have "w' = ?w3 \<or> (\<exists>what errs. drive_failed D env B what errs x ?w3 = (res, w')) \<or> drive_done D env B st x ?w3 = (res, w')"
          using assms B P L st Some ex
          by (auto simp: drive_run_def Let_def split: option.splits ReconcileError.splits if_splits)
        then show ?thesis using driven [OF refl B P L st] Some ex by blast
      qed
    qed
  qed
qed

lemma drive_run_evolves:
  assumes "drive_run D env st w = Some (res, w')" and "benign env" and "grounded w"
  shows "db_evolves (wd_db w) (wd_db w')"
  using assms(1)
proof (cases rule: drive_run_cases)
  case stopped
  then show ?thesis using before_evolves [OF assms(2)] db_evolves_refl assms(3) by (auto simp: grounded_def)
next
  case (driven B P laps fence s e er x w3 w2)
  let ?w1 = "before env ''drive laps'' w"
  have w1: "db_evolves (wd_db w) (wd_db ?w1)" using before_evolves [OF assms(2)] assms(3) by (simp add: grounded_def)
  have w2: "db_evolves (wd_db w) (wd_db w2)" unfolding driven(1)
    using before_evolves [OF assms(2) db_evolves_wf [OF w1]] w1 db_evolves_trans by blast
  have "grounded w2" using grounded_evolves [OF assms(3) w2] driven(1) by simp
  then have "run_inv B s" using drive_start_db [OF driven(5)] runner_ids(1) [OF driven(2)] driven(1) by (simp add: grounded_def run_inv_def)
  moreover have "Durable (drive_options D fence laps)" by (simp add: drive_options_def)
  ultimately have "db_evolves (wd_db w2) (wd_db w3)"
    using drive_keeps [OF driven(6)] drive_start_db [OF driven(5)] driven(7) by (simp add: drive_evolves_def)
  then have w3: "db_evolves (wd_db w) (wd_db w3)" using w2 db_evolves_trans by blast
  have "db_evolves (wd_db w3) (wd_db w')"
    using driven(8) drive_after_evolves [OF assms(2) db_evolves_wf [OF w3]] db_evolves_refl [OF db_evolves_wf [OF w3]] by (metis snd_conv)
  then show ?thesis using w3 db_evolves_trans by blast
qed

lemma gate_evolves:
  assumes "goLiveGate D env cs w = Some (res, w')" and "benign env" and "grounded w"
  shows "db_evolves (wd_db w) (wd_db w')"
proof -
  have wf: "wf_prod (wd_db w)" using assms(3) by (simp add: grounded_def)
  let ?item = "run_WorkItemRef (wd_run w)"
  have hold: "db_evolves (wd_db w) (snd (GateHold p flt now item m (wd_db (before env call w))))" for p flt now item m call
    by (rule call_evolves [OF assms(2) wf]) (simp add: GateHold_def move_evolves)
  have resume: "db_evolves (wd_db w) (snd (GateResume p flt now item (wd_db (before env call w))))" for p flt now item call
    by (rule call_evolves [OF assms(2) wf]) (simp add: GateResume_def move_evolves)
  let ?dec = "evaluateGoLiveGate (dr_lower D) (dr_getSecret D) (run_Manifest (wd_run w)) (run_Project (wd_run w)) (run_Namespace (wd_run w))"
  obtain a db where h: "GateHold (dr_principal D) (pv_flt env ''gate hold'') (pv_now env ''gate hold'') ?item (rg_MissingTypes ?dec)
      (wd_db (before env ''gate hold'' w)) = (a, db)" by fastforce
  obtain b db2 where r: "GateResume (dr_principal D) (pv_flt env ''gate resume'') (pv_now env ''gate resume'') ?item
      (wd_db (before env ''gate resume'' w)) = (b, db2)" by fastforce
  have dbs: "db_evolves (wd_db w) db" "db_evolves (wd_db w) db2" using hold h resume r by (metis snd_conv)+
  let ?w2 = "kick (dr_NotifyPhase D) (KickPhase (run_UID (wd_run w))) ((before env ''gate resume'' w)\<lparr>wd_db := db2\<rparr>)"
  consider "drive_run D env (cs_Step cs) w = Some (res, w')" | "wd_db w' = db" | "wd_db w' = db2"
    | "drive_run D env (cs_Step cs) ?w2 = Some (res, w')"
    using assms(1) h r by (auto simp: goLiveGate_def Let_def split: if_splits sum.splits)
  then show ?thesis
  proof cases
    case 1
    then show ?thesis using drive_run_evolves assms(2,3) by blast
  next
    case 4
    have "grounded ?w2" using grounded_evolves [OF assms(3), of ?w2] dbs(2) by simp
    from drive_run_evolves [OF 4 assms(2) this] have "db_evolves db2 (wd_db w')" by simp
    then show ?thesis using dbs(2) db_evolves_trans by blast
  qed (use dbs in simp_all)
qed

lemma custody_evolves:
  assumes "takeCustody D env cs w = Some (res, w')" and "benign env" and "grounded w"
  shows "db_evolves (wd_db w) (wd_db w')"
proof -
  have wf: "wf_prod (wd_db w)" using assms(3) by (simp add: grounded_def)
  let ?item = "run_WorkItemRef (wd_run w)" and ?run = "run_UID (wd_run w)"
  obtain a db where re: "Claims_Renew (dr_principal D) (pv_flt env ''renew'') (pv_now env ''renew guard'') (pv_now env ''renew'')
      ?item ?run (cs_Fence cs) (wd_db (before env ''renew'' w)) = (a, db)" by fastforce
  obtain b db2 where ac: "Claims_Acquire (dr_principal D) (pv_flt env ''acquire'') (dr_carrier D) (pv_now env ''acquire guard'')
      (pv_now env ''acquire'') ?item ?run (firstAgentName (wd_run w)) (wd_db (before env ''acquire'' w)) = (b, db2)" by fastforce
  have rn: "db_evolves (wd_db w) (snd (Claims_Renew p flt tg ts item run f (wd_db (before env call w))))" for p flt tg ts item run f call
    by (rule call_evolves [OF assms(2) wf renew_evolves])
  have aq: "db_evolves (wd_db w) (snd (Claims_Acquire p flt c tg ts item run ag (wd_db (before env call w))))" for p flt c tg ts item run ag call
    by (rule call_evolves [OF assms(2) wf acquire_evolves])
  have dbs: "db_evolves (wd_db w) db" "db_evolves (wd_db w) db2"
    using rn [of "dr_principal D" "pv_flt env ''renew''" "pv_now env ''renew guard''" "pv_now env ''renew''" ?item ?run "cs_Fence cs" "''renew''", unfolded re]
      aq [of "dr_principal D" "pv_flt env ''acquire''" "dr_carrier D" "pv_now env ''acquire guard''" "pv_now env ''acquire''" ?item ?run
        "firstAgentName (wd_run w)" "''acquire''", unfolded ac] by simp_all
  let ?w1 = "(before env ''renew'' w)\<lparr>wd_db := db\<rparr>" and ?w2 = "(before env ''acquire'' w)\<lparr>wd_db := db2\<rparr>"
  have "w' = w \<or> wd_db w' = db \<or> wd_db w' = db2 \<or> goLiveGate D env cs ?w1 = Some (res, w') \<or> goLiveGate D env cs ?w2 = Some (res, w')"
    using assms(1) re ac by (auto simp: takeCustody_def Let_def split: if_splits sum.splits bool.splits option.splits)
  then consider "w' = w" | "wd_db w' = db" | "wd_db w' = db2" | "goLiveGate D env cs ?w1 = Some (res, w')" | "goLiveGate D env cs ?w2 = Some (res, w')"
    by blast
  then show ?thesis
  proof cases
    case 4
    have "grounded ?w1" using grounded_evolves [OF assms(3), of ?w1] dbs(1) by simp
    from gate_evolves [OF 4 assms(2) this] have "db_evolves db (wd_db w')" by simp
    then show ?thesis using dbs(1) db_evolves_trans by blast
  next
    case 5
    have "grounded ?w2" using grounded_evolves [OF assms(3), of ?w2] dbs(2) by simp
    from gate_evolves [OF 5 assms(2) this] have "db_evolves db2 (wd_db w')" by simp
    then show ?thesis using dbs(2) db_evolves_trans by blast
  qed (use dbs db_evolves_refl [OF wf] in simp_all)
qed

lemma live_evolves:
  assumes "driveLive D env cs w = Some (res, w')" and "benign env" and "grounded w"
  shows "db_evolves (wd_db w) (wd_db w')"
proof -
  let ?w = "if inFlightStep (cs_Step cs) then before env ''follow'' w else w"
  let ?v = "snd (reapGoneSandbox D env cs ?w)"
  have w: "db_evolves (wd_db w) (wd_db ?w)" using before_evolves [OF assms(2)] db_evolves_refl assms(3) by (simp add: grounded_def)
  have g: "grounded ?w" using grounded_evolves [OF assms(3) w] by simp
  have v: "db_evolves (wd_db ?w) (wd_db ?v)" "same_run_of ?w ?v" using reap_evolves [OF assms(2) db_evolves_wf [OF w]] by blast+
  have gv: "grounded ?v" using grounded_evolves [OF g v(1)] v(2) by (simp add: same_run_of_def)
  obtain f where f: "(if inFlightStep (cs_Step cs) then followSucceeded D env ?w else Inr False) = f" by blast
  obtain a v where reap: "reapGoneSandbox D env cs ?w = (a, v)" by fastforce
  have "w' = ?w \<or> w' = ?v \<or> takeCustody D env cs ?w = Some (res, w') \<or> retryOrFail D env cs ?w = (res, w') \<or>
      retryOrFail D env cs ?v = (res, w') \<or> takeCustody D env cs ?v = Some (res, w')"
    using assms(1) unfolding driveLive_def Let_def f reap
    by (auto simp: reap split: if_splits sum.splits bool.splits)
  then consider "w' = ?w" | "w' = ?v" | "takeCustody D env cs ?w = Some (res, w')" | "retryOrFail D env cs ?w = (res, w')"
    | "retryOrFail D env cs ?v = (res, w')" | "takeCustody D env cs ?v = Some (res, w')" by blast
  then have "db_evolves (wd_db ?w) (wd_db w')"
  proof cases
    case 3
    then show ?thesis using custody_evolves [OF _ assms(2) g] by blast
  next
    case 4
    then show ?thesis using retryOrFail_evolves [OF assms(2) db_evolves_wf [OF w]] by (metis snd_conv)
  next
    case 5
    then have "db_evolves (wd_db ?v) (wd_db w')" using retryOrFail_evolves [OF assms(2) db_evolves_wf [OF v(1)]] by (metis snd_conv)
    then show ?thesis using v(1) db_evolves_trans by blast
  next
    case 6
    then show ?thesis using custody_evolves [OF _ assms(2) gv] v(1) db_evolves_trans by blast
  qed (use v db_evolves_refl [OF db_evolves_wf [OF w]] in simp_all)
  then show ?thesis using w db_evolves_trans by blast
qed

lemma pass_evolves:
  assumes "Driver_Reconcile D env w = Some (res, w')" and "benign env" and "wf_prod (wd_db w)"
  shows "db_evolves (wd_db w) (wd_db w')"
proof -
  let ?w = "before env ''state'' w"
  have w: "db_evolves (wd_db w) (wd_db ?w)" using before_evolves [OF assms(2,3)] .
  have found: "grounded ?w" if "Claims_State (dr_isUuid D) (pv_flt env ''state'') (run_WorkItemRef (wd_run w)) (wd_db ?w) = Inr (Some cs)" for cs
    using that db_evolves_wf [OF w] by (auto simp: Claims_State_def grounded_def split: if_splits option.splits)
  have "w' = w \<or> w' = ?w \<or> abandonInvalidRef D env w = (res, w') \<or> Driver_park D env ?w = (res, w') \<or>
      (\<exists>cs. cancelFinish D env cs ?w = (res, w')) \<or> (\<exists>cs. driveLive D env cs ?w = Some (res, w') \<and> grounded ?w)"
  proof (cases "Claims_State (dr_isUuid D) (pv_flt env ''state'') (run_WorkItemRef (wd_run w)) (wd_db ?w)")
    case (Inl e)
    then show ?thesis using assms(1) by (auto simp: Driver_Reconcile_def Let_def split: api_result.splits if_splits)
  next
    case (Inr c)
    show ?thesis
    proof (cases c)
      case None
      then show ?thesis using assms(1) Inr by (auto simp: Driver_Reconcile_def Let_def split: api_result.splits if_splits)
    next
      case (Some cs)
      then have "grounded ?w" using found Inr by blast
      then show ?thesis using assms(1) Inr Some by (auto simp: Driver_Reconcile_def Let_def split: api_result.splits if_splits)
    qed
  qed
  then consider "w' = w" | "w' = ?w" | "abandonInvalidRef D env w = (res, w')" | "Driver_park D env ?w = (res, w')"
    | cs where "cancelFinish D env cs ?w = (res, w')" | cs where "driveLive D env cs ?w = Some (res, w')" "grounded ?w" by blast
  then show ?thesis
  proof cases
    case 3
    then show ?thesis using short_paths_db(1) db_evolves_refl [OF assms(3)] by (metis snd_conv)
  next
    case 4
    then show ?thesis using short_paths_db(2) w by (metis snd_conv)
  next
    case (5 cs)
    then have "db_evolves (wd_db ?w) (wd_db w')" using cancelFinish_evolves [OF assms(2) db_evolves_wf [OF w], of D cs] by simp
    then show ?thesis using w db_evolves_trans by blast
  next
    case (6 cs)
    then show ?thesis using live_evolves [OF _ assms(2)] w db_evolves_trans by blast
  qed (use w db_evolves_refl [OF assms(3)] in simp_all)
qed

text \<open>
  C24. A pass keeps the claim tables in order: from well-formed tables, with any statements failing,
  any answers of the API and the ports, and other processes doing between its calls anything that
  keeps the tables well-formed, the fences up and the rows there, a pass of the driver leaves
  well-formed tables in which no fence is lower and no claim or item row is gone.
\<close>

theorem pass_keeps_custody:
  assumes "Driver_Reconcile D env w = Some (res, w')" and "benign env" and "wf_prod (wd_db w)"
  shows "wf_prod (wd_db w') \<and> (\<forall>j. prod_fence (wd_db w) j \<le> prod_fence (wd_db w') j) \<and>
    (\<forall>j. claim_row_of (wd_db w) j \<noteq> None \<longrightarrow> claim_row_of (wd_db w') j \<noteq> None) \<and>
    (\<forall>j. item_row_of (wd_db w) j \<noteq> None \<longrightarrow> item_row_of (wd_db w') j \<noteq> None)"
  using pass_evolves [OF assms] by (simp add: db_evolves_def fences_kept_def)

theorem pass_keeps_custody_witness:
  "\<exists>res w'. Driver_Reconcile demo_driver (demo_pass 1) demo_fresh = Some (res, w') \<and> wf_prod (wd_db w') \<and> prod_fence (wd_db w') ''i'' \<ge> 0"
proof -
  obtain res w' where p: "Driver_Reconcile demo_driver (demo_pass 1) demo_fresh = Some (res, w')" using fresh_run_submits by auto
  have b: "benign (demo_pass 1)" by (simp add: benign_def db_evolves_refl)
  have wf: "wf_prod (wd_db demo_fresh)" by (simp add: demo_fresh_def)
  have "prod_fence (wd_db demo_fresh) ''i'' = 0" by (simp add: demo_fresh_def prod_fence_def)
  with pass_keeps_custody [OF p b wf] p show ?thesis by (metis order_refl)
qed

section \<open>Retries without a number\<close>

lemma failClosedPark_tasks:
  assumes "undisturbed env" and "wf_prod (wd_db w)"
  shows "pd_a2a (wd_db (snd (failClosedPark D env fence w))) = pd_a2a (wd_db w)"
proof -
  obtain res db' where e: "enter (dr_principal D) (pv_flt env ''park'') (pv_now env ''park'') (run_WorkItemRef (wd_run w)) (run_UID (wd_run w))
      ''run_failed_entered'' fence StepFailed ''context_window_exceeded'' (wd_db w) = (res, db')" by fastforce
  have "pd_a2a db' = pd_a2a (wd_db w)"
  proof (cases "\<exists>f. res = Inr (Some f)")
    case False
    then show ?thesis using enter_cases [OF e assms(2)] by metis
  next
    case True
    then obtain f where "res = Inr (Some f)" by blast
    from enter_effect [OF e [unfolded this] assms(2)] show ?thesis by metis
  qed
  moreover have "wd_db (snd (failClosedPark D env fence w)) = db'"
    using e by (auto simp: failClosedPark_def undisturbed_before [OF assms(1)] Let_def FailClosedPark_def enter_ok_def split: sum.splits prod.splits)
  ultimately show ?thesis by simp
qed

text \<open>
  The first retry dispatches nothing: the dispatch of a Run's first attempt is recorded under the
  Run's own id, and the laps that number a retry count only the numbered dispatches. So, with no
  numbered dispatch recorded, a drive after the first attempt takes the first attempt's task id
  again, finds its marker and submits no task, whatever the steps, the statements and the ports
  do; and it records no lap, so that the next retry is in the same position.
\<close>

theorem unnumbered_retry_never_submits:
  assumes "drive_run D env st w = Some (res, w')" and "undisturbed env" and "grounded w"
    and "lookup_by da_task (run_UID (wd_run w)) (pd_a2a (wd_db w)) \<noteq> None"
    and "LapsUsed (\<lambda>_. False) (run_UID (wd_run w)) (wd_db w) = Inr 0"
  shows "pd_a2a (wd_db w') = pd_a2a (wd_db w) \<and> (\<forall>t. submits t (wd_log w') = submits t (wd_log w))"
  using assms(1)
proof (cases rule: drive_run_cases)
  case stopped
  then show ?thesis by (auto simp: undisturbed_before [OF assms(2)])
next
  case (driven B P laps fence s e er x w3 w2)
  have w2: "w2 = w" using driven(1) by (simp add: undisturbed_before [OF assms(2)])
  have "laps = 0" using driven(4) assms(5) by (simp add: undisturbed_before [OF assms(2)] LapsUsed_def split: if_splits)
  then have opt: "Durable (drive_options D fence laps)" "Lap (drive_options D fence laps) = None" by (simp_all add: drive_options_def)
  note db = drive_start_db [OF driven(5)] and ids = runner_ids(1) [OF driven(2)] runner_ids(2) [OF driven(3)]
  have inv: "run_inv B s" using db ids w2 assms(3) by (simp add: grounded_def run_inv_def)
  have dr: "run_inv B (fst x) \<and> pd_a2a (wd_db w3) = pd_a2a (wd_db w) \<and> (\<forall>t. submits t (wd_log w3) = submits t (wd_log w))"
    using drive_redispatch_free [OF driven(6) opt] inv db ids w2 assms(4) driven(7) by (simp add: redispatch_free_def)
  then have wf3: "wf_prod (wd_db w3)" using driven(7) by (simp add: run_inv_def)
  have "pd_a2a (wd_db w') = pd_a2a (wd_db w3) \<and> wd_log w' = wd_log w3"
  proof -
    have "pd_a2a (wd_db (snd (drive_failed D env B what errs x w3))) = pd_a2a (wd_db w3)" for what errs
      using failClosedPark_tasks [OF assms(2) wf3] by (simp add: drive_failed_def short_paths_db)
    moreover have "pd_a2a (wd_db (snd (drive_done D env B st x w3))) = pd_a2a (wd_db w3)"
      by (auto simp: drive_done_def Let_def short_paths_db split: prod.splits)
    ultimately show ?thesis using driven(8) drive_after_log by (metis snd_conv)
  qed
  then show ?thesis using dr by simp
qed

definition demo_retry :: world where
  "demo_retry = demo_world ((demo_claim StepClaimingSandbox)\<lparr>pc_fence := 3\<rparr>)
     [\<lparr>da_task = ''r'', da_run = ''r'', da_item = ''i'', da_dispatched = 1, da_settled = None, da_outcome = None\<rparr>]"

theorem unnumbered_retry_never_submits_witness:
  "\<exists>res w'. drive_run demo_driver (demo_pass 5) StepClaimingSandbox demo_retry = Some (res, w') \<and> submits ''r'' (wd_log w') = []"
proof -
  obtain res w' where d: "drive_run demo_driver (demo_pass 5) StepClaimingSandbox demo_retry = Some (res, w')"
    using drive_run_returns by fastforce
  have g: "grounded demo_retry"
    by (simp add: grounded_def demo_retry_def demo_world_def demo_run_def wf_prod_def wf_table_def one_todo_def lookup_by_def sql_row_def)
  have l: "lookup_by da_task (run_UID (wd_run demo_retry)) (pd_a2a (wd_db demo_retry)) \<noteq> None"
    by (simp add: demo_retry_def lookup_by_def sql_row_def)
  have z: "LapsUsed (\<lambda>_. False) (run_UID (wd_run demo_retry)) (wd_db demo_retry) = Inr 0"
    by (simp add: demo_retry_def LapsUsed_def sql_affected_def has_prefix_def)
  from unnumbered_retry_never_submits [OF d demo_sound(2) g l z] d show ?thesis by (auto simp: demo_retry_def)
qed

section \<open>Other gaps\<close>

text \<open>A repeated rate-limit signal moves the step again, with a second audit row.\<close>

lemma repeated_pause_audits_again:
  "\<exists>db'. PauseRateLimited ''op'' (\<lambda>_. False) 5 ''i'' (wd_db (demo_world (demo_claim StepPausedRateLimited) [])) = (Inr True, db') \<and>
     length (pd_audit db') = 1"
  by (simp add: PauseRateLimited_def move_tx_def Let_def aff_key_wf [OF wf_prodD(1) [OF demo_world_wf]])
     (simp add: demo_world_def one_todo_def)

text \<open>A Run parked at the plain pause is woken but not moved.\<close>

lemma plain_pause_never_leaves:
  "\<exists>db'. OnResumeDue demo_driver (\<lambda>_. (\<lambda>_. False, 7)) 0 [''i''] (wd_db (demo_world (demo_claim StepPaused) [])) = ([], db') \<and>
     map_option pc_step (claim_row_of db' ''i'') = Some StepPaused"
proof -
  obtain kicked db' where r: "OnResumeDue demo_driver (\<lambda>_. (\<lambda>_. False, 7)) 0 [''i''] (wd_db (demo_world (demo_claim StepPaused) [])) = (kicked, db')"
    by fastforce
  have e: "claim_row_of db' ''i'' = Some (demo_claim StepPaused)" "set kicked = {}"
    using OnResumeDue_effect [OF r demo_world_wf] by (simp_all add: woken_def)
  have "kicked = []" using e(2) by simp
  with r e(1) show ?thesis by simp
qed

text \<open>Failing a Run closed keeps the endpoint slot it may hold.\<close>

lemma fail_closed_keeps_slot: "wd_gate (snd (failClosedPark D env fence w)) = wd_gate w"
  by (auto simp: failClosedPark_def Let_def split: sum.splits prod.splits)

text \<open>An expired lease of another Run on the item counts as this Run's dead attempt.\<close>

lemma foreign_attempt_counts_as_dead:
  "dead now cs \<Longrightarrow> dead now (cs\<lparr>cs_RunID := other\<rparr>)"
  by (cases cs) (simp add: dead_def split: option.splits)

end
