(* ===== verification/Run_Intake.thy ===== *)
theory Run_Intake
  imports Pass_Laws
begin

text \<open>
  Ticket intake (pkg/controller/rundrive/intake.go): every tick the due items of the board are read,
  an item that a live Run owns is left alone, one that has used up its generations is parked, and
  for any other its settled claim is re-armed and Runs are created for the requested agent or for
  every agent of its team. The teams, projects, Runs and agents the cluster lists and the answers
  to the creates are arguments, as are the statements that fail, the clock and what other
  processes do before each transaction; log lines and trace annotations are left out.
\<close>

section \<open>The board side\<close>

definition IntakeInterval :: duration where "IntakeInterval = 10 * 1000000000"
definition DefaultIntakeMaxPerPass :: int where "DefaultIntakeMaxPerPass = 32"
definition DefaultMaxGenerations :: int where "DefaultMaxGenerations = 10"
definition IntakePrincipal :: string where "IntakePrincipal = ''ksquad-intake''"

record IntakeItem =
  it_ID :: string
  it_TeamID :: string
  it_ProjectID :: string
  it_RequestedAgent :: string
  it_Source :: string

definition settled_row :: "prod_claim \<Rightarrow> bool" where
  "settled_row r \<longleftrightarrow> step_name (pc_step r) \<in> {''succeeded'', ''failed'', ''cancelled''}"

text \<open>
  The source is compared in three-valued logic: a NULL source is not known to differ from
  \<open>discussion\<close>. The rows of the model may lack a source; migration 0027 adds the column as NOT
  NULL, so in the program's tables that case does not arise.
\<close>

definition due_item :: "prod_db \<Rightarrow> prod_item \<Rightarrow> bool" where
  "due_item db w \<longleftrightarrow> pw_state w = ''todo'' \<and> pw_team w \<noteq> None \<and> pw_blocked w = None \<and>
     (row_key pc_item (pw_id w) settled_row (pd_claims db) = None \<or> (case pw_source w of None \<Rightarrow> False | Some s \<Rightarrow> s \<noteq> ''discussion''))"

definition DueWorkItems :: "dbfaults \<Rightarrow> int \<Rightarrow> prod_db \<Rightarrow> string + IntakeItem list" where
  "DueWorkItems flt limit db =
     (if flt ''list'' then Inl ''rundrive.intake: list due work items''
      else if flt ''cursor'' then Inl ''rundrive.intake: due work items cursor''
      else Inr (map (\<lambda>w. \<lparr>it_ID = pw_id w, it_TeamID = coalesce (pw_team w), it_ProjectID = pw_project w,
                           it_RequestedAgent = coalesce (pw_requested w), it_Source = coalesce (pw_source w)\<rparr>)
            (take (nat (if limit \<le> 0 then DefaultIntakeMaxPerPass else limit))
              (sort_key pw_created (sort_key pw_id (filter (due_item db) (pd_items db)))))))"

definition rearm_guard :: "string \<Rightarrow> prod_db \<Rightarrow> prod_claim \<Rightarrow> bool" where
  "rearm_guard workItemID db r \<longleftrightarrow> pc_holder r = None \<and> settled_row r \<and>
     row_key pw_id workItemID (\<lambda>w. pw_state w = ''todo'' \<and> pw_blocked w = None \<and> pw_source w \<noteq> Some ''discussion'') (pd_items db) \<noteq> None"

definition rearmed_row :: "instant \<Rightarrow> prod_claim \<Rightarrow> prod_claim" where
  "rearmed_row now r = r\<lparr>pc_step := StepPending, pc_fence := pc_fence r + 1, pc_reclaim_fenced := Some now\<rparr>"

definition rearm_audit :: "instant \<Rightarrow> string \<Rightarrow> int \<Rightarrow> audit_row" where
  "rearm_audit now workItemID fence =
     \<lparr>au_item = workItemID, au_run = None, au_event = ''reconcile_rearmed'', au_principal = OperatorPrincipal, au_initiated = None,
      au_fence = Some fence, au_from = None, au_to = Some ''pending'', au_payload = [], au_created = now\<rparr>"

definition RearmSettled :: "dbfaults \<Rightarrow> instant \<Rightarrow> string \<Rightarrow> prod_db \<Rightarrow> string option \<times> prod_db" where
  "RearmSettled flt now workItemID db =
     (if flt ''begin'' then (Some ''rundrive.intake.RearmSettled: begin'', db)
      else if flt ''re-arm'' then (Some ''rundrive.intake.RearmSettled: re-arm'', db)
      else case row_key pc_item workItemID (rearm_guard workItemID db) (pd_claims db) of
        None \<Rightarrow> (if flt ''commit'' then (Some ''rundrive.intake.RearmSettled: commit (no-op)'', db) else (None, db))
      | Some r \<Rightarrow>
          if flt ''audit'' then (Some ''rundrive.intake.RearmSettled: audit'', db)
          else if flt ''outbox'' then (Some ''rundrive.intake.RearmSettled: outbox'', db)
          else if flt ''commit'' then (Some ''rundrive.intake.RearmSettled: commit'', db)
          else (None, outbox_for_item ''run'' ''reconcile_rearmed'' workItemID None
                 [(''to_step'', JStr ''pending''), (''fence_token'', JInt (pc_fence r + 1))] None
                 (insert_audit (rearm_audit now workItemID (pc_fence r + 1))
                   (db\<lparr>pd_claims := upd_key pc_item workItemID (rearm_guard workItemID db) (rearmed_row now) (pd_claims db)\<rparr>))))"

definition breaker_audit :: "instant \<Rightarrow> string \<Rightarrow> string \<Rightarrow> audit_row" where
  "breaker_audit now workItemID reason =
     \<lparr>au_item = workItemID, au_run = None, au_event = ''work_item_parked'', au_principal = OperatorPrincipal, au_initiated = None,
      au_fence = None, au_from = None, au_to = Some ''todo'', au_payload = [(''blocked_reason'', JStr reason)], au_created = now\<rparr>"

definition breaker_comment :: "instant \<Rightarrow> string \<Rightarrow> string \<Rightarrow> comment_row" where
  "breaker_comment now workItemID reason =
     \<lparr>cm_item = workItemID, cm_author = OperatorPrincipal,
      cm_body = ''Retry circuit-breaker: this item reached the maximum re-dispatch generations ('' @ reason @
        '') and is parked (blocked) rather than re-minted. Repeated re-dispatch kept failing '' @ em_dash @ '' inspect the latest '' @
        ''run failures, resolve the cause, and clear the block to re-enable dispatch.'',
      cm_kind = None, cm_run = None, cm_payload = None, cm_at = now\<rparr>"

text \<open>An unreadable row count reads as zero.\<close>

definition ParkWorkItem :: "dbfaults \<Rightarrow> instant \<Rightarrow> string \<Rightarrow> string \<Rightarrow> prod_db \<Rightarrow> string option \<times> prod_db" where
  "ParkWorkItem flt now workItemID reason0 db =
     (let reason = (if reason0 = [] then ''retry_circuit_breaker'' else reason0) in
      if flt ''begin'' then (Some ''rundrive.intake.ParkWorkItem: begin'', db)
      else if flt ''park'' then (Some ''rundrive.intake.ParkWorkItem: park'', db)
      else
        let db1 = db\<lparr>pd_items := upd_key pw_id workItemID (\<lambda>w. pw_blocked w = None)
                      (\<lambda>w. w\<lparr>pw_blocked := Some reason, pw_updated := now\<rparr>) (pd_items db)\<rparr> in
        if flt ''rows'' \<or> aff_key pw_id workItemID (\<lambda>w. pw_blocked w = None) (pd_items db) = 0
        then (if flt ''commit'' then (Some ''rundrive.intake.ParkWorkItem: commit (no-op)'', db) else (None, db1))
        else if flt ''audit'' then (Some ''rundrive.intake.ParkWorkItem: audit'', db)
        else if flt ''comment'' then (Some ''rundrive.intake.ParkWorkItem: comment'', db)
        else if flt ''outbox'' then (Some ''rundrive.intake.ParkWorkItem: outbox'', db)
        else if flt ''commit'' then (Some ''rundrive.intake.ParkWorkItem: commit'', db)
        else (None, outbox_for_item ''run'' ''work_item_parked'' workItemID None [(''blocked_reason'', JStr reason)] None
               (insert_comment (breaker_comment now workItemID reason) (insert_audit (breaker_audit now workItemID reason) db1))))"

section \<open>Names and generations\<close>

record ObjectRef =
  or_Name :: string
  or_Namespace :: string

record RunCR =
  rc_Name :: string
  rc_Namespace :: string
  rc_Source :: "string option"
  rc_TeamRef :: ObjectRef
  rc_ProjectRef :: ObjectRef
  rc_WorkItemRef :: string
  rc_Agents :: "ObjectRef list"
  rc_OwnedBy :: string
  rc_Phase :: string

definition runObjectMeta_name :: "string \<Rightarrow> int \<Rightarrow> string \<Rightarrow> string" where
  "runObjectMeta_name workItemID highestGen agentName =
     (let agentSegment = (if agentName \<noteq> [] then ''-'' @ agentName else []) in
      if highestGen > 0 then ''intake-'' @ workItemID @ agentSegment @ ''-r'' @ int_str (wrap64 (highestGen + 1))
      else ''intake-'' @ workItemID @ agentSegment)"

text \<open>\<open>strconv.Atoi\<close>: an optional sign and at least one decimal digit, within the range of a 64-bit integer.\<close>

fun digits_val :: "int \<Rightarrow> string \<Rightarrow> int option" where
  "digits_val n [] = Some n"
| "digits_val n (c # cs) =
     (if of_char c \<ge> (48 :: int) \<and> of_char c \<le> (57 :: int) then digits_val (10 * n + (of_char c - 48)) cs else None)"

definition Atoi :: "string \<Rightarrow> int option" where
  "Atoi s =
     (let neg = (case s of c # _ \<Rightarrow> c = CHR ''-'' | [] \<Rightarrow> False);
          body = (case s of c # cs \<Rightarrow> if c = CHR ''-'' \<or> c = CHR ''+'' then cs else s | [] \<Rightarrow> []) in
      if body = [] then None
      else case digits_val 0 body of
        None \<Rightarrow> None
      | Some n \<Rightarrow> let v = (if neg then - n else n) in if - (2 ^ 63) \<le> v \<and> v < 2 ^ 63 then Some v else None)"

text \<open>What follows the last \<open>-r\<close> of a name, if there is one.\<close>

fun after_last_r :: "string \<Rightarrow> string option" where
  "after_last_r [] = None"
| "after_last_r (c # cs) =
     (case after_last_r cs of
        Some t \<Rightarrow> Some t
      | None \<Rightarrow> if c = CHR ''-'' then (case cs of d # ds \<Rightarrow> if d = CHR ''r'' then Some ds else None | [] \<Rightarrow> None) else None)"

definition runGeneration :: "string \<Rightarrow> int" where
  "runGeneration nm =
     (case after_last_r nm of
        None \<Rightarrow> 1
      | Some t \<Rightarrow> (case Atoi t of None \<Rightarrow> 1 | Some n \<Rightarrow> if n > 0 then n else 1))"

definition runPhaseTerminal :: "string \<Rightarrow> bool" where
  "runPhaseTerminal phase \<longleftrightarrow> phase = ''Succeeded'' \<or> phase = ''Failed'' \<or> phase = ''Cancelled''"

section \<open>Resolving the squad\<close>

record TeamCR =
  tm_UID :: string
  tm_Namespace :: string
  tm_Name :: string
  tm_StatusNamespace :: string
  tm_Agents :: "ObjectRef list"

record ProjectCR =
  pj_UID :: string
  pj_Namespace :: string
  pj_Name :: string

definition teamHasAgent :: "TeamCR \<Rightarrow> string \<Rightarrow> bool" where
  "teamHasAgent team nm \<longleftrightarrow> (\<exists>a \<in> set (tm_Agents team). or_Name a = nm)"

definition agentRefForRun :: "string \<Rightarrow> string \<Rightarrow> string \<Rightarrow> ObjectRef" where
  "agentRefForRun nm agentNS runNS =
     \<lparr>or_Name = nm, or_Namespace = (if agentNS \<noteq> [] \<and> agentNS \<noteq> runNS then agentNS else [])\<rparr>"

definition add_candidate :: "string list \<Rightarrow> string \<Rightarrow> string list" where
  "add_candidate cs ns = (if ns = [] \<or> ns \<in> set cs then cs else cs @ [ns])"

text \<open>\<open>getAgent ns name\<close> is the answer of the API server: found or not.\<close>

definition resolveAgent :: "(string \<Rightarrow> string \<Rightarrow> bool) \<Rightarrow> ObjectRef \<Rightarrow> string \<Rightarrow> string \<Rightarrow> string + string" where
  "resolveAgent getAgent ref homeNS execNS =
     (case List.find (\<lambda>ns. getAgent ns (or_Name ref)) (add_candidate (add_candidate (add_candidate [] (or_Namespace ref)) homeNS) execNS) of
        None \<Rightarrow> Inl (''resolve agent '' @ or_Name ref) | Some ns \<Rightarrow> Inr ns)"

fun project_loop :: "string \<Rightarrow> string \<Rightarrow> string \<Rightarrow> ProjectCR list \<Rightarrow> ObjectRef option" where
  "project_loop ns projectID byName [] = (if byName \<noteq> [] then Some \<lparr>or_Name = byName, or_Namespace = []\<rparr> else None)"
| "project_loop ns projectID byName (p # ps) =
     (if pj_UID p = projectID then Some \<lparr>or_Name = pj_Name p, or_Namespace = (if pj_Namespace p \<noteq> ns then pj_Namespace p else [])\<rparr>
      else if pj_Namespace p = ns \<and> pj_Name p = projectID \<and> byName = [] then project_loop ns projectID (pj_Name p) ps
      else project_loop ns projectID byName ps)"

definition resolveProject :: "string + ProjectCR list \<Rightarrow> string \<Rightarrow> string \<Rightarrow> string + ObjectRef" where
  "resolveProject projects ns projectID =
     (if projectID = [] then Inl ''work item carries no project id''
      else case projects of
        Inl e \<Rightarrow> Inl (''list projects: '' @ e)
      | Inr ps \<Rightarrow> (case project_loop ns projectID [] ps of
                     None \<Rightarrow> Inl (''project '' @ projectID @ '' resolves to no Project CR'') | Some ref \<Rightarrow> Inr ref))"

text \<open>What a pass meets in the cluster and the database, by the item where it may differ.\<close>

datatype create_answer = Created | AlreadyExists | CreateErr

record intake_env =
  iv_teams :: "string + TeamCR list"
  iv_runs :: "string + RunCR list"
  iv_projects :: "string \<Rightarrow> string + ProjectCR list"
  iv_getAgent :: "string \<Rightarrow> string \<Rightarrow> bool"
  iv_create :: "RunCR \<Rightarrow> create_answer"
  iv_flt :: "string \<Rightarrow> dbfaults"
  iv_now :: "string \<Rightarrow> instant"
  iv_others :: "string \<Rightarrow> prod_db \<Rightarrow> prod_db"

definition buildRunForAgent :: "intake_env \<Rightarrow> IntakeItem \<Rightarrow> TeamCR \<Rightarrow> int \<Rightarrow> string \<Rightarrow> bool \<Rightarrow> string + RunCR" where
  "buildRunForAgent env item team highestGen target fanOut =
     (let ns = tm_StatusNamespace team in
      if ns = [] then Inl (''team '' @ tm_Name team @ '' has no reconciled squad namespace yet'')
      else case resolveProject (iv_projects env (it_ID item)) ns (it_ProjectID item) of
        Inl e \<Rightarrow> Inl e
      | Inr projectRef \<Rightarrow>
          (case List.find (\<lambda>a. or_Name a = target) (tm_Agents team) of
             None \<Rightarrow> Inl (''team '' @ tm_Name team @ '' composition does not contain agent '' @ target)
           | Some ref \<Rightarrow>
               (case resolveAgent (iv_getAgent env) ref (tm_Namespace team) ns of
                  Inl e \<Rightarrow> Inl e
                | Inr agentNS \<Rightarrow>
                    Inr \<lparr>rc_Name = runObjectMeta_name (it_ID item) highestGen (if fanOut then or_Name ref else []), rc_Namespace = ns,
                         rc_Source = nullable (it_Source item),
                         rc_TeamRef = \<lparr>or_Name = tm_Name team, or_Namespace = (if tm_Namespace team \<noteq> ns then tm_Namespace team else [])\<rparr>,
                         rc_ProjectRef = projectRef, rc_WorkItemRef = it_ID item,
                         rc_Agents = [agentRefForRun (or_Name ref) agentNS ns], rc_OwnedBy = IntakePrincipal, rc_Phase = []\<rparr>)))"

section \<open>A pass\<close>

record Intake =
  ik_MaxPerPass :: int
  ik_MaxGenerations :: int

definition maxGenerations :: "Intake \<Rightarrow> int" where
  "maxGenerations I = (if ik_MaxGenerations I > 0 then ik_MaxGenerations I else DefaultMaxGenerations)"

definition passLimit :: "Intake \<Rightarrow> int" where
  "passLimit I = (if ik_MaxPerPass I \<le> 0 then DefaultIntakeMaxPerPass else ik_MaxPerPass I)"

text \<open>The indexes of the listed Runs: the highest generation of an item (0 with none), and whether a live Run owns it.\<close>

definition raise_gen :: "string \<Rightarrow> RunCR \<Rightarrow> int \<Rightarrow> int" where
  "raise_gen item r g = (if rc_WorkItemRef r = item \<and> runGeneration (rc_Name r) > g then runGeneration (rc_Name r) else g)"

definition highestGen :: "RunCR list \<Rightarrow> string \<Rightarrow> int" where
  "highestGen runs item = fold (raise_gen item) runs 0"

definition liveRun :: "RunCR list \<Rightarrow> string \<Rightarrow> bool" where
  "liveRun runs item \<longleftrightarrow> (\<exists>r \<in> set runs. rc_WorkItemRef r = item \<and> \<not> runPhaseTerminal (rc_Phase r))"

text \<open>A map filled in list order: the last team with the uid.\<close>

definition teamByUID :: "TeamCR list \<Rightarrow> string \<Rightarrow> TeamCR option" where
  "teamByUID teams uid = List.find (\<lambda>t. tm_UID t = uid) (rev teams)"

definition built_runs :: "(string + RunCR) list \<Rightarrow> RunCR list" where
  "built_runs rs = List.map_filter (\<lambda>r. case r of Inl e \<Rightarrow> None | Inr run \<Rightarrow> Some run) rs"

text \<open>The Runs built for one item, with \<open>room\<close> creates left in the pass; none leaves the item for the next tick.\<close>

definition runs_for_item :: "intake_env \<Rightarrow> TeamCR \<Rightarrow> int \<Rightarrow> nat \<Rightarrow> IntakeItem \<Rightarrow> RunCR list" where
  "runs_for_item env team gen room item =
     (if it_RequestedAgent item \<noteq> [] then
        (if teamHasAgent team (it_RequestedAgent item) then built_runs [buildRunForAgent env item team gen (it_RequestedAgent item) False]
         else case tm_Agents team of
           [] \<Rightarrow> []
         | a # _ \<Rightarrow> built_runs [buildRunForAgent env item team gen (or_Name a) False])
      else built_runs (map (\<lambda>a. buildRunForAgent env item team gen (or_Name a) True) (take room (tm_Agents team))))"

text \<open>One item of the loop of \<open>sweep\<close>: the Runs it asks to create and the database after its transaction.\<close>

definition intake_item :: "Intake \<Rightarrow> intake_env \<Rightarrow> TeamCR list \<Rightarrow> RunCR list \<Rightarrow> nat \<Rightarrow> IntakeItem \<Rightarrow> prod_db \<Rightarrow> RunCR list \<times> prod_db" where
  "intake_item I env teams runs room item db0 =
     (let wi = it_ID item; gen = highestGen runs wi; db = iv_others env wi db0 in
      if liveRun runs wi then ([], db0)
      else if gen \<ge> maxGenerations I then
        ([], snd (ParkWorkItem (iv_flt env wi) (iv_now env wi) wi
                    (''retry_circuit_breaker_max_generations_'' @ int_str (maxGenerations I)) db))
      else
        (case RearmSettled (iv_flt env wi) (iv_now env wi) wi db of
           (Some e, db1) \<Rightarrow> ([], db1)
         | (None, db1) \<Rightarrow>
             (case teamByUID teams (it_TeamID item) of
                None \<Rightarrow> ([], db1)
              | Some team \<Rightarrow> (runs_for_item env team gen room item, db1))))"

text \<open>The loop, with the creates it still may ask for; a create's answer is recorded and changes nothing.\<close>

fun intake_loop ::
  "Intake \<Rightarrow> intake_env \<Rightarrow> TeamCR list \<Rightarrow> RunCR list \<Rightarrow> nat \<Rightarrow> IntakeItem list \<Rightarrow> prod_db \<Rightarrow> (RunCR \<times> create_answer) list \<times> prod_db" where
  "intake_loop I env teams runs room [] db = ([], db)"
| "intake_loop I env teams runs room (item # items) db =
     (if room = 0 then ([], db)
      else case intake_item I env teams runs room item db of
        (rs, db1) \<Rightarrow>
          (case intake_loop I env teams runs (room - length rs) items db1 of
             (made, db2) \<Rightarrow> (map (\<lambda>r. (r, iv_create env r)) rs @ made, db2)))"

definition intake_sweep :: "Intake \<Rightarrow> dbfaults \<Rightarrow> intake_env \<Rightarrow> prod_db \<Rightarrow> (RunCR \<times> create_answer) list \<times> prod_db" where
  "intake_sweep I flt env db =
     (case DueWorkItems flt (passLimit I) db of
        Inl e \<Rightarrow> ([], db)
      | Inr items \<Rightarrow>
          if items = [] then ([], db)
          else (case (iv_teams env, iv_runs env) of
                  (Inr teams, Inr runs) \<Rightarrow> intake_loop I env teams runs (nat (passLimit I)) items db
                | _ \<Rightarrow> ([], db)))"

text \<open>The ticks until the context ends, each after what other processes did since the last.\<close>

fun Intake_Start :: "Intake \<Rightarrow> ((prod_db \<Rightarrow> prod_db) \<times> dbfaults \<times> intake_env) list \<Rightarrow> prod_db \<Rightarrow> (RunCR \<times> create_answer) list \<times> prod_db" where
  "Intake_Start I [] db = ([], db)"
| "Intake_Start I ((others, flt, env) # ticks) db =
     (case intake_sweep I flt env (others db) of
        (made, db1) \<Rightarrow> (case Intake_Start I ticks db1 of (rest, db2) \<Rightarrow> (made @ rest, db2)))"

end
