(* ===== verification/Heartbeat_Sweep.thy ===== *)
theory Heartbeat_Sweep
  imports Pass_Laws
begin

text \<open>
  The claim hygiene sweep (pkg/controller/rundrive/heartbeat.go): every tick it reads the held
  claims, releases those whose Run is finished, fails and releases those whose Run is gone or has
  lost its sandbox for longer than the stall grace, and renews the leases of the others. Each
  claim is handled by one transaction; what the cluster answers, the clocks, the statements that
  fail and what other processes do before the transaction are arguments, by the claim's item.
  Log lines are left out.
\<close>

section \<open>Reading the cluster\<close>

record listed_run =
  lr_UID :: string
  lr_Phase :: string
  lr_Conditions :: "Condition list"

record listed_pod =
  lp_Deleting :: bool
  lp_Phase :: string

text \<open>\<open>lv_Reader\<close> is false for a missing reader; \<open>lv_findCond\<close> is the condition lookup of the Kubernetes
  libraries. A list answer is an error or the listed objects.\<close>

record LiveRuns =
  lv_Reader :: bool
  lv_findCond :: "Condition list \<Rightarrow> string \<Rightarrow> Condition option"

fun run_listed :: "string \<Rightarrow> listed_run list \<Rightarrow> listed_run option" where
  "run_listed runID [] = None"
| "run_listed runID (r # rs) = (if lr_UID r = runID then Some r else run_listed runID rs)"

definition RunExists :: "LiveRuns \<Rightarrow> string + listed_run list \<Rightarrow> string \<Rightarrow> string + bool" where
  "RunExists l runs runID =
     (if \<not> lv_Reader l \<or> runID = [] then Inr False
      else case runs of Inl e \<Rightarrow> Inl (''rundrive.heartbeat: list runs: '' @ e) | Inr rs \<Rightarrow> Inr (run_listed runID rs \<noteq> None))"

text \<open>\<open>pods\<close> is the answer of the list by the run label, \<open>runID\<close> its value.\<close>

fun live_pod :: "listed_pod list \<Rightarrow> bool" where
  "live_pod [] = False"
| "live_pod (p # ps) = (if lp_Deleting p then live_pod ps
     else if lp_Phase p = ''Succeeded'' \<or> lp_Phase p = ''Failed'' then live_pod ps else True)"

definition HasLiveSandbox :: "LiveRuns \<Rightarrow> (string \<Rightarrow> string + listed_pod list) \<Rightarrow> string \<Rightarrow> string + bool" where
  "HasLiveSandbox l pods runID =
     (if \<not> lv_Reader l \<or> runID = [] then Inr False
      else case pods runID of
        Inl e \<Rightarrow> Inl (''rundrive.heartbeat: list sandbox pods for run '' @ runID @ '': '' @ e) | Inr ps \<Rightarrow> Inr (live_pod ps))"

definition ConditionQueuedAtSupervisor :: string where "ConditionQueuedAtSupervisor = ''QueuedAtSupervisor''"

definition condition_true :: "string \<Rightarrow> LiveRuns \<Rightarrow> string + listed_run list \<Rightarrow> string \<Rightarrow> string + bool" where
  "condition_true cond l runs runID =
     (if \<not> lv_Reader l \<or> runID = [] then Inr False
      else case runs of
        Inl e \<Rightarrow> Inl (''rundrive.heartbeat: list runs: '' @ e)
      | Inr rs \<Rightarrow>
          (case run_listed runID rs of
             None \<Rightarrow> Inr False
           | Some r \<Rightarrow> Inr (case lv_findCond l (lr_Conditions r) cond of None \<Rightarrow> False | Some c \<Rightarrow> cd_Status c)))"

definition IsWaitingForEndpointSlot :: "LiveRuns \<Rightarrow> string + listed_run list \<Rightarrow> string \<Rightarrow> string + bool" where
  "IsWaitingForEndpointSlot = condition_true ConditionEndpointSlotWait"

definition IsQueuedAtSupervisor :: "LiveRuns \<Rightarrow> string + listed_run list \<Rightarrow> string \<Rightarrow> string + bool" where
  "IsQueuedAtSupervisor = condition_true ConditionQueuedAtSupervisor"

definition TerminalOrGone :: "LiveRuns \<Rightarrow> string + listed_run list \<Rightarrow> string \<Rightarrow> string + bool" where
  "TerminalOrGone l runs runID =
     (if \<not> lv_Reader l \<or> runID = [] then Inr False
      else case runs of
        Inl e \<Rightarrow> Inl (''rundrive.heartbeat: list runs: '' @ e)
      | Inr rs \<Rightarrow>
          (case run_listed runID rs of
             None \<Rightarrow> Inr True
           | Some r \<Rightarrow> Inr (lr_Phase r = ''Succeeded'' \<or> lr_Phase r = ''Failed'' \<or> lr_Phase r = ''Cancelled'')))"

section \<open>The sweeper\<close>

definition HeartbeatInterval :: duration where "HeartbeatInterval = 10 * 1000000000"
definition DefaultZombieStallGrace :: duration where "DefaultZombieStallGrace = 10 * 60 * 1000000000"

record HeartbeatSweeper =
  hs_Claimer :: ProdConfig
  hs_Runs :: "LiveRuns option"
  hs_Live :: "LiveRuns option"
  hs_EndpointWait :: "LiveRuns option"
  hs_MeshQueueWait :: "LiveRuns option"
  hs_Grace :: duration

record heldClaim =
  hc_item :: string
  hc_run :: string
  hc_principal :: string
  hc_fence :: int
  hc_step :: Step
  hc_acquired :: "instant option"

text \<open>What the handling of one claim meets: the answers to the list calls (of the Runs by the name of the call,
  of the pods by the run label), the sweeper's clock, the clock of the guard and of the statement, the statements
  that fail, and what other processes do first.\<close>

record claim_env =
  cv_runs :: "string \<Rightarrow> string + listed_run list"
  cv_pods :: "string \<Rightarrow> string + listed_pod list"
  cv_clock :: instant
  cv_guard :: instant
  cv_now :: instant
  cv_flt :: dbfaults
  cv_others :: "prod_db \<Rightarrow> prod_db"

text \<open>
  \<open>due\<close>: the rows are read in table order, which the statement leaves open. A run that is NULL (or the empty text,
  which NULLIF turns into NULL) cannot be read into the string it is scanned into, and that fails the whole list.
\<close>

fun scan_held :: "prod_claim list \<Rightarrow> string + heldClaim list" where
  "scan_held [] = Inr []"
| "scan_held (r # rs) =
     (case (pc_run r, scan_held rs) of
        (Some (c # cs), Inr hs) \<Rightarrow>
          Inr (\<lparr>hc_item = pc_item r, hc_run = c # cs, hc_principal = coalesce (pc_holder r), hc_fence = pc_fence r,
                hc_step = pc_step r, hc_acquired = pc_acquired r\<rparr> # hs)
      | _ \<Rightarrow> Inl ''rundrive.heartbeat: scan held claim'')"

definition hb_due :: "dbfaults \<Rightarrow> prod_db \<Rightarrow> string + heldClaim list" where
  "hb_due flt db =
     (if flt ''list'' then Inl ''rundrive.heartbeat: list held claims''
      else case scan_held (filter (\<lambda>r. pc_holder r \<noteq> None) (pd_claims db)) of
        Inl e \<Rightarrow> Inl e
      | Inr hs \<Rightarrow> if flt ''cursor'' then Inl ''rundrive.heartbeat: held claims cursor'' else Inr hs)"

section \<open>Releases\<close>

definition release_audit :: "instant \<Rightarrow> heldClaim \<Rightarrow> string \<Rightarrow> audit_row" where
  "release_audit now hc to_state =
     \<lparr>au_item = hc_item hc, au_run = Some (hc_run hc), au_event = ''claim_released'', au_principal = hc_principal hc,
      au_initiated = None, au_fence = Some (hc_fence hc), au_from = None, au_to = Some to_state, au_payload = [], au_created = now\<rparr>"

definition lane_return :: "instant \<Rightarrow> string \<Rightarrow> string \<Rightarrow> prod_db \<Rightarrow> prod_db" where
  "lane_return now item lane db =
     db\<lparr>pd_items := upd_key pw_id item (\<lambda>w. pw_state w = ''in_progress'') (set_lane now lane) (pd_items db)\<rparr>"

definition terminal_guard :: "string \<Rightarrow> prod_claim \<Rightarrow> bool" where
  "terminal_guard run r \<longleftrightarrow> pc_run r = Some run \<and> step_name (pc_step r) \<in> {''succeeded'', ''failed'', ''cancelled''}"

definition let_go :: "prod_claim \<Rightarrow> prod_claim" where
  "let_go r = r\<lparr>pc_holder := None, pc_run := None, pc_lease := None\<rparr>"

definition releaseTerminal :: "dbfaults \<Rightarrow> instant \<Rightarrow> heldClaim \<Rightarrow> prod_db \<Rightarrow> string option \<times> prod_db" where
  "releaseTerminal flt now hc db =
     (if hc_run hc = [] then (None, db)
      else if flt ''begin'' then (Some ''begin'', db)
      else if flt ''release'' then (Some ''release'', db)
      else if flt ''audit'' then (Some ''audit'', db)
      else if flt ''outbox'' then (Some ''outbox'', db)
      else
        let db1 = db\<lparr>pd_claims := upd_key pc_item (hc_item hc) (terminal_guard (hc_run hc)) let_go (pd_claims db)\<rparr>;
            db2 = insert_audit (release_audit now hc (step_name (hc_step hc))) db1;
            db3 = outbox_for_item ''run'' ''claim_released'' (hc_item hc) (Some (hc_run hc))
                    [(''fence_token'', JInt (hc_fence hc)), (''step'', JStr (step_name (hc_step hc)))] None db2;
            lane = SettleLaneOf (step_name (hc_step hc));
            moves = hc_step hc \<noteq> StepSucceeded \<and> lane \<noteq> []
        in if moves \<and> flt ''lane return'' then (Some ''lane return'', db)
           else if flt ''commit'' then (Some ''commit'', db)
           else (None, if moves then lane_return now (hc_item hc) lane db3 else db3))"

definition dead_guard :: "string \<Rightarrow> prod_claim \<Rightarrow> bool" where
  "dead_guard run r \<longleftrightarrow> pc_run r = Some run \<and> pc_holder r \<noteq> None"

definition failed_holder :: "prod_claim \<Rightarrow> prod_claim" where
  "failed_holder r = (let_go r)\<lparr>pc_step := StepFailed\<rparr>"

text \<open>An unreadable row count reads as zero.\<close>

definition releaseDead :: "string \<Rightarrow> dbfaults \<Rightarrow> instant \<Rightarrow> heldClaim \<Rightarrow> prod_db \<Rightarrow> string option \<times> prod_db" where
  "releaseDead reason flt now hc db =
     (if hc_run hc = [] then (None, db)
      else if flt ''begin'' then (Some ''begin'', db)
      else if flt ''release'' then (Some ''release'', db)
      else
        let G = dead_guard (hc_run hc);
            db1 = db\<lparr>pd_claims := upd_key pc_item (hc_item hc) G failed_holder (pd_claims db)\<rparr> in
        if flt ''rows'' \<or> aff_key pc_item (hc_item hc) G (pd_claims db) = 0
        then (if flt ''commit'' then (Some ''commit'', db) else (None, db1))
        else if flt ''audit'' then (Some ''audit'', db)
        else if flt ''outbox'' then (Some ''outbox'', db)
        else if flt ''lane return'' then (Some ''lane return'', db)
        else if flt ''commit'' then (Some ''commit'', db)
        else (None, lane_return now (hc_item hc) ''todo''
               (outbox_for_item ''run'' ''claim_released'' (hc_item hc) (Some (hc_run hc))
                  [(''fence_token'', JInt (hc_fence hc)), (''reason'', JStr reason)] None
                  (insert_audit (release_audit now hc reason) db1))))"

definition releaseOrphan :: "dbfaults \<Rightarrow> instant \<Rightarrow> heldClaim \<Rightarrow> prod_db \<Rightarrow> string option \<times> prod_db" where
  "releaseOrphan = releaseDead ''orphan_run_deleted''"

definition releaseZombie :: "dbfaults \<Rightarrow> instant \<Rightarrow> heldClaim \<Rightarrow> prod_db \<Rightarrow> string option \<times> prod_db" where
  "releaseZombie = releaseDead ''zombie_no_sandbox''"

text \<open>The renewal; its panic is contained and changes nothing.\<close>

definition hb_renew :: "HeartbeatSweeper \<Rightarrow> claim_env \<Rightarrow> heldClaim \<Rightarrow> prod_db \<Rightarrow> prod_db" where
  "hb_renew S cv hc db =
     (if hc_run hc = [] then db
      else snd (ProdRenew (hs_Claimer S) (cv_flt cv) (cv_guard cv) (cv_now cv) (hc_item hc) (hc_principal hc) (hc_run hc) (hc_fence hc) db))"

section \<open>Verdicts\<close>

definition isPausedStep :: "Step \<Rightarrow> bool" where
  "isPausedStep s \<longleftrightarrow> PhaseOf s = PhasePaused"

text \<open>The difference of two times saturates at the range of a duration.\<close>

definition time_Sub :: "instant \<Rightarrow> instant \<Rightarrow> duration" where
  "time_Sub t u = max (- (2 ^ 63)) (min (2 ^ 63 - 1) (t - u))"

definition stalled :: "HeartbeatSweeper \<Rightarrow> instant \<Rightarrow> heldClaim \<Rightarrow> bool" where
  "stalled S clock hc =
     (case hc_acquired hc of
        None \<Rightarrow> False
      | Some a \<Rightarrow> time_Sub clock a > (if hs_Grace S \<le> 0 then DefaultZombieStallGrace else hs_Grace S))"

definition endpointSlotWaiter :: "HeartbeatSweeper \<Rightarrow> claim_env \<Rightarrow> heldClaim \<Rightarrow> bool" where
  "endpointSlotWaiter S cv hc =
     (case hs_EndpointWait S of
        None \<Rightarrow> False
      | Some l \<Rightarrow> if hc_run hc = [] then False
          else (case IsWaitingForEndpointSlot l (cv_runs cv ''endpoint'') (hc_run hc) of Inl e \<Rightarrow> True | Inr waiting \<Rightarrow> waiting))"

definition meshQueueWaiter :: "HeartbeatSweeper \<Rightarrow> claim_env \<Rightarrow> heldClaim \<Rightarrow> bool" where
  "meshQueueWaiter S cv hc =
     (case hs_MeshQueueWait S of
        None \<Rightarrow> False
      | Some l \<Rightarrow> if hc_run hc = [] then False
          else (case IsQueuedAtSupervisor l (cv_runs cv ''mesh'') (hc_run hc) of Inl e \<Rightarrow> True | Inr waiting \<Rightarrow> waiting))"

definition zombie :: "HeartbeatSweeper \<Rightarrow> claim_env \<Rightarrow> heldClaim \<Rightarrow> bool" where
  "zombie S cv hc =
     (case hs_Live S of
        None \<Rightarrow> False
      | Some l \<Rightarrow> if hc_run hc \<noteq> [] \<and> \<not> isPausedStep (hc_step hc) \<and> stalled S (cv_clock cv) hc then
          (case HasLiveSandbox l (cv_pods cv) (hc_run hc) of
             Inl e \<Rightarrow> False
           | Inr alive \<Rightarrow> \<not> alive \<and> \<not> endpointSlotWaiter S cv hc \<and> \<not> meshQueueWaiter S cv hc)
          else False)"

section \<open>A sweep\<close>

text \<open>The body of the loop of \<open>sweep\<close>.\<close>

definition sweep_claim :: "HeartbeatSweeper \<Rightarrow> claim_env \<Rightarrow> heldClaim \<Rightarrow> prod_db \<Rightarrow> prod_db" where
  "sweep_claim S cv hc db0 =
     (let db = cv_others cv db0;
          in_flight = (if zombie S cv hc then snd (releaseZombie (cv_flt cv) (cv_now cv) hc db) else hb_renew S cv hc db) in
      if IsTerminal (hc_step hc) then snd (releaseTerminal (cv_flt cv) (cv_now cv) hc db)
      else case hs_Runs S of
        None \<Rightarrow> in_flight
      | Some l \<Rightarrow>
          if hc_run hc = [] then in_flight
          else (case RunExists l (cv_runs cv ''exists'') (hc_run hc) of
                  Inl e \<Rightarrow> db
                | Inr False \<Rightarrow> snd (releaseOrphan (cv_flt cv) (cv_now cv) hc db)
                | Inr True \<Rightarrow> in_flight))"

fun sweep_loop :: "HeartbeatSweeper \<Rightarrow> (string \<Rightarrow> claim_env) \<Rightarrow> heldClaim list \<Rightarrow> prod_db \<Rightarrow> prod_db" where
  "sweep_loop S env [] db = db"
| "sweep_loop S env (hc # hs) db = sweep_loop S env hs (sweep_claim S (env (hc_item hc)) hc db)"

definition hb_sweep :: "HeartbeatSweeper \<Rightarrow> dbfaults \<Rightarrow> (string \<Rightarrow> claim_env) \<Rightarrow> prod_db \<Rightarrow> prod_db" where
  "hb_sweep S flt env db = (case hb_due flt db of Inl e \<Rightarrow> db | Inr held \<Rightarrow> sweep_loop S env held db)"

text \<open>The ticks until the context ends, each after what other processes did since the last.\<close>

record hb_tick =
  tk_others :: "prod_db \<Rightarrow> prod_db"
  tk_flt :: dbfaults
  tk_env :: "string \<Rightarrow> claim_env"

fun Sweeper_Start :: "HeartbeatSweeper \<Rightarrow> hb_tick list \<Rightarrow> prod_db \<Rightarrow> prod_db" where
  "Sweeper_Start S [] db = db"
| "Sweeper_Start S (t # ts) db = Sweeper_Start S ts (hb_sweep S (tk_flt t) (tk_env t) (tk_others t db))"

end
