(* ===== verification/Heartbeat_Laws.thy ===== *)
theory Heartbeat_Laws
  imports Heartbeat_Sweep
begin

text \<open>
  What a claim hygiene sweep does: to the claim tables whatever fails and whoever interferes, and
  exactly, claim by claim, when the statements and the cluster answer.
\<close>

section \<open>The transactions\<close>

lemma let_go_sel [simp]: "pc_item (let_go r) = pc_item r" "pc_fence (let_go r) = pc_fence r" "pc_holder (let_go r) = None" "pc_run (let_go r) = None"
  "pc_step (let_go r) = pc_step r" "pc_lease (let_go r) = None"
  by (simp_all add: let_go_def)

lemma failed_holder_sel [simp]: "pc_item (failed_holder r) = pc_item r" "pc_fence (failed_holder r) = pc_fence r" "pc_holder (failed_holder r) = None"
  "pc_run (failed_holder r) = None" "pc_step (failed_holder r) = StepFailed" "pc_lease (failed_holder r) = None"
  by (simp_all add: failed_holder_def)

lemma lane_return_sel [simp]: "pd_claims (lane_return now item lane db) = pd_claims db" "pd_audit (lane_return now item lane db) = pd_audit db"
  "item_row_of (lane_return now item lane db) j =
     (if j = item then map_option (\<lambda>w. if pw_state w = ''in_progress'' then set_lane now lane w else w) (item_row_of db j) else item_row_of db j)"
  by (simp_all add: lane_return_def)

lemma wf_lane_return [simp]: "wf_prod db \<Longrightarrow> wf_prod (lane_return now item lane db)"
  by (simp add: lane_return_def)

lemma releaseTerminal_cases:
  assumes "releaseTerminal flt now hc db = (err, db')"
  obtains (kept) "db' = db"
  | (released) "err = None" "db' = (let lane = SettleLaneOf (step_name (hc_step hc));
        db3 = outbox_for_item ''run'' ''claim_released'' (hc_item hc) (Some (hc_run hc))
                [(''fence_token'', JInt (hc_fence hc)), (''step'', JStr (step_name (hc_step hc)))] None
                (insert_audit (release_audit now hc (step_name (hc_step hc)))
                  (db\<lparr>pd_claims := upd_key pc_item (hc_item hc) (terminal_guard (hc_run hc)) let_go (pd_claims db)\<rparr>))
      in if hc_step hc \<noteq> StepSucceeded \<and> lane \<noteq> [] then lane_return now (hc_item hc) lane db3 else db3)"
  using assms by (auto simp: releaseTerminal_def Let_def split: if_splits)

lemma releaseTerminal_evolves:
  assumes "wf_prod db"
  shows "db_evolves db (snd (releaseTerminal flt now hc db))"
proof -
  obtain err db' where r: "releaseTerminal flt now hc db = (err, db')" by fastforce
  from r have "db_evolves db db'"
  proof (cases rule: releaseTerminal_cases)
    case released
    let ?db1 = "db\<lparr>pd_claims := upd_key pc_item (hc_item hc) (terminal_guard (hc_run hc)) let_go (pd_claims db)\<rparr>"
    have "db_evolves db ?db1" by (rule upd_claims_evolves [OF assms]) simp_all
    then show ?thesis unfolding released by (auto simp: Let_def db_evolves_def fences_kept_def prod_fence_def)
  qed (simp add: db_evolves_refl [OF assms])
  then show ?thesis by (simp add: r)
qed

lemma releaseDead_cases:
  assumes "releaseDead reason flt now hc db = (err, db')"
  obtains (kept) "db' = db"
  | (unrecorded) "db' = db\<lparr>pd_claims := upd_key pc_item (hc_item hc) (dead_guard (hc_run hc)) failed_holder (pd_claims db)\<rparr>"
  | (released) "db' = lane_return now (hc_item hc) ''todo''
         (outbox_for_item ''run'' ''claim_released'' (hc_item hc) (Some (hc_run hc))
            [(''fence_token'', JInt (hc_fence hc)), (''reason'', JStr reason)] None (insert_audit (release_audit now hc reason)
              (db\<lparr>pd_claims := upd_key pc_item (hc_item hc) (dead_guard (hc_run hc)) failed_holder (pd_claims db)\<rparr>)))"
  using assms by (auto simp: releaseDead_def Let_def split: if_splits)

lemma releaseDead_evolves:
  assumes "wf_prod db"
  shows "db_evolves db (snd (releaseDead reason flt now hc db))"
proof -
  obtain err db' where r: "releaseDead reason flt now hc db = (err, db')" by fastforce
  have "db_evolves db (db\<lparr>pd_claims := upd_key pc_item (hc_item hc) (dead_guard (hc_run hc)) failed_holder (pd_claims db)\<rparr>)"
    by (rule upd_claims_evolves [OF assms]) simp_all
  moreover from r have "db' = db \<or> db_evolves db db'"
    by (cases rule: releaseDead_cases) (use calculation in \<open>auto simp: db_evolves_def fences_kept_def prod_fence_def\<close>)
  ultimately have "db_evolves db db'" using db_evolves_refl [OF assms] by blast
  then show ?thesis by (simp add: r)
qed

lemma hb_renew_evolves: "wf_prod db \<Longrightarrow> db_evolves db (hb_renew S cv hc db)"
  by (auto simp: hb_renew_def ProdRenew_def db_evolves_refl intro!: upd_claims_evolves)

section \<open>A sweep keeps the tables\<close>

definition benign_claim :: "claim_env \<Rightarrow> bool" where
  "benign_claim cv \<longleftrightarrow> (\<forall>db. wf_prod db \<longrightarrow> db_evolves db (cv_others cv db))"

lemma sweep_claim_cases:
  obtains (kept) "sweep_claim S cv hc db = cv_others cv db"
  | (finished) "IsTerminal (hc_step hc)" "sweep_claim S cv hc db = snd (releaseTerminal (cv_flt cv) (cv_now cv) hc (cv_others cv db))"
  | (orphan) l where "hs_Runs S = Some l" "RunExists l (cv_runs cv ''exists'') (hc_run hc) = Inr False" "\<not> IsTerminal (hc_step hc)"
      "sweep_claim S cv hc db = snd (releaseOrphan (cv_flt cv) (cv_now cv) hc (cv_others cv db))"
  | (zombie) "zombie S cv hc" "\<not> IsTerminal (hc_step hc)"
      "sweep_claim S cv hc db = snd (releaseZombie (cv_flt cv) (cv_now cv) hc (cv_others cv db))"
  | (renewed) "\<not> IsTerminal (hc_step hc)" "sweep_claim S cv hc db = hb_renew S cv hc (cv_others cv db)"
proof -
  let ?flight = "if zombie S cv hc then snd (releaseZombie (cv_flt cv) (cv_now cv) hc (cv_others cv db)) else hb_renew S cv hc (cv_others cv db)"
  have "\<not> IsTerminal (hc_step hc) \<Longrightarrow> sweep_claim S cv hc db = ?flight \<or> sweep_claim S cv hc db = cv_others cv db \<or>
      (\<exists>l. hs_Runs S = Some l \<and> RunExists l (cv_runs cv ''exists'') (hc_run hc) = Inr False \<and>
         sweep_claim S cv hc db = snd (releaseOrphan (cv_flt cv) (cv_now cv) hc (cv_others cv db)))"
  proof (cases "hs_Runs S")
    case (Some l)
    assume "\<not> IsTerminal (hc_step hc)"
    with Some show ?thesis
      by (cases "hc_run hc = []"; cases "RunExists l (cv_runs cv ''exists'') (hc_run hc)"; cases "RunExists l (cv_runs cv ''exists'') (hc_run hc) = Inr True")
         (simp_all add: sweep_claim_def Let_def)
  qed (simp add: sweep_claim_def Let_def)
  then consider (a) "IsTerminal (hc_step hc)" | (b) "\<not> IsTerminal (hc_step hc)" "sweep_claim S cv hc db = ?flight"
    | (c) "sweep_claim S cv hc db = cv_others cv db"
    | (d) l where "hs_Runs S = Some l" "RunExists l (cv_runs cv ''exists'') (hc_run hc) = Inr False" "\<not> IsTerminal (hc_step hc)"
        "sweep_claim S cv hc db = snd (releaseOrphan (cv_flt cv) (cv_now cv) hc (cv_others cv db))"
    by blast
  then show thesis
  proof cases
    case a
    then show thesis using finished by (simp add: sweep_claim_def)
  next
    case b
    then show thesis using zombie renewed by (cases "zombie S cv hc") simp_all
  qed (use kept orphan in blast)+
qed

lemma sweep_claim_evolves:
  assumes "benign_claim cv" and "wf_prod db"
  shows "db_evolves db (sweep_claim S cv hc db)"
proof -
  have o: "db_evolves db (cv_others cv db)" using assms by (simp add: benign_claim_def)
  note wf = db_evolves_wf [OF o]
  have "db_evolves (cv_others cv db) (sweep_claim S cv hc db)"
    by (cases rule: sweep_claim_cases [of S cv hc db])
       (simp_all add: db_evolves_refl releaseTerminal_evolves releaseDead_evolves hb_renew_evolves releaseOrphan_def releaseZombie_def wf)
  with o show ?thesis by (rule db_evolves_trans)
qed

lemma sweep_loop_evolves: "(\<And>i. benign_claim (env i)) \<Longrightarrow> wf_prod db \<Longrightarrow> db_evolves db (sweep_loop S env hs db)"
proof (induction hs arbitrary: db)
  case (Cons hc hs)
  have "db_evolves db (sweep_claim S (env (hc_item hc)) hc db)" using sweep_claim_evolves Cons.prems by blast
  then show ?case using Cons.IH [OF Cons.prems(1) db_evolves_wf] db_evolves_trans by (metis sweep_loop.simps(2))
qed (simp add: db_evolves_refl)

lemma sweep_evolves: "(\<And>i. benign_claim (env i)) \<Longrightarrow> wf_prod db \<Longrightarrow> db_evolves db (hb_sweep S flt env db)"
  by (simp add: hb_sweep_def db_evolves_refl sweep_loop_evolves split: sum.splits)

section \<open>An undisturbed sweep, exactly\<close>

text \<open>The cluster as it is: the Runs and, by run label, the pods; everything answers and nobody interferes.\<close>

definition steady :: "listed_run list \<Rightarrow> (string \<Rightarrow> listed_pod list) \<Rightarrow> instant \<Rightarrow> claim_env" where
  "steady R P now = \<lparr>cv_runs = (\<lambda>_. Inr R), cv_pods = (\<lambda>run. Inr (P run)), cv_clock = now, cv_guard = now, cv_now = now,
     cv_flt = (\<lambda>_. False), cv_others = id\<rparr>"

text \<open>The operator's wiring: one reader behind every check.\<close>

definition wired :: "LiveRuns \<Rightarrow> HeartbeatSweeper \<Rightarrow> bool" where
  "wired l S \<longleftrightarrow> lv_Reader l \<and> hs_Runs S = Some l \<and> hs_Live S = Some l \<and> hs_EndpointWait S = Some l \<and> hs_MeshQueueWait S = Some l"

definition waits_for :: "LiveRuns \<Rightarrow> listed_run list \<Rightarrow> string \<Rightarrow> string \<Rightarrow> bool" where
  "waits_for l R run cond = (case List.find (\<lambda>r. lr_UID r = run) R of None \<Rightarrow> False
     | Some r \<Rightarrow> \<exists>c. lv_findCond l (lr_Conditions r) cond = Some c \<and> cd_Status c)"

definition pod_alive :: "listed_pod \<Rightarrow> bool" where
  "pod_alive p \<longleftrightarrow> \<not> lp_Deleting p \<and> lp_Phase p \<noteq> ''Succeeded'' \<and> lp_Phase p \<noteq> ''Failed''"

text \<open>A Run that has lost its sandbox: custody taken longer than the grace ago, not paused, no live pod, and not
  waiting for an endpoint slot or a mesh process.\<close>

definition lost_sandbox :: "HeartbeatSweeper \<Rightarrow> LiveRuns \<Rightarrow> listed_run list \<Rightarrow> (string \<Rightarrow> listed_pod list) \<Rightarrow> instant \<Rightarrow> prod_claim \<Rightarrow> string \<Rightarrow> bool" where
  "lost_sandbox S l R P now r run \<longleftrightarrow>
     (\<exists>a. pc_acquired r = Some a \<and> time_Sub now a > (if hs_Grace S \<le> 0 then DefaultZombieStallGrace else hs_Grace S)) \<and>
     PhaseOf (pc_step r) \<noteq> PhasePaused \<and> \<not> (\<exists>p \<in> set (P run). pod_alive p) \<and>
     \<not> waits_for l R run ConditionEndpointSlotWait \<and> \<not> waits_for l R run ConditionQueuedAtSupervisor"

definition lost_holder :: "HeartbeatSweeper \<Rightarrow> LiveRuns \<Rightarrow> listed_run list \<Rightarrow> (string \<Rightarrow> listed_pod list) \<Rightarrow> instant \<Rightarrow> prod_claim \<Rightarrow> bool" where
  "lost_holder S l R P now r \<longleftrightarrow> pc_holder r \<noteq> None \<and> \<not> IsTerminal (pc_step r) \<and>
     (\<exists>run. pc_run r = Some run \<and> (run \<notin> lr_UID ` set R \<or> lost_sandbox S l R P now r run))"

definition swept_row :: "HeartbeatSweeper \<Rightarrow> LiveRuns \<Rightarrow> listed_run list \<Rightarrow> (string \<Rightarrow> listed_pod list) \<Rightarrow> instant \<Rightarrow> prod_item option \<Rightarrow> prod_claim \<Rightarrow> prod_claim" where
  "swept_row S l R P now wi r =
     (if pc_holder r = None then r
      else if IsTerminal (pc_step r) then let_go r
      else if lost_holder S l R P now r then failed_holder r
      else if null_gt (pc_lease r) now \<and> (\<forall>w. wi = Some w \<longrightarrow> pw_state w \<noteq> ''done'')
      then r\<lparr>pc_lease := Some (now + PC_LeaseInterval (hs_Claimer S)), pc_renewed := Some now\<rparr>
      else r)"

definition swept_item :: "HeartbeatSweeper \<Rightarrow> LiveRuns \<Rightarrow> listed_run list \<Rightarrow> (string \<Rightarrow> listed_pod list) \<Rightarrow> instant \<Rightarrow> prod_claim \<Rightarrow> prod_item \<Rightarrow> prod_item" where
  "swept_item S l R P now r w =
     (if pc_holder r = None \<or> pw_state w \<noteq> ''in_progress'' then w
      else if lost_holder S l R P now r \<or> pc_step r = StepFailed then set_lane now ''todo'' w
      else if pc_step r = StepCancelled then set_lane now ''cancelled'' w
      else w)"

definition held_of :: "prod_claim \<Rightarrow> heldClaim" where
  "held_of r = \<lparr>hc_item = pc_item r, hc_run = coalesce (pc_run r), hc_principal = coalesce (pc_holder r), hc_fence = pc_fence r,
     hc_step = pc_step r, hc_acquired = pc_acquired r\<rparr>"

definition runs_known :: "prod_db \<Rightarrow> bool" where
  "runs_known db \<longleftrightarrow> (\<forall>r \<in> set (pd_claims db). pc_holder r \<noteq> None \<longrightarrow> coalesce (pc_run r) \<noteq> [])"

lemma held_of_sel [simp]: "hc_item (held_of r) = pc_item r" "hc_run (held_of r) = coalesce (pc_run r)" "hc_principal (held_of r) = coalesce (pc_holder r)"
  "hc_fence (held_of r) = pc_fence r" "hc_step (held_of r) = pc_step r" "hc_acquired (held_of r) = pc_acquired r"
  by (simp_all add: held_of_def)

lemma steady_sel [simp]: "cv_runs (steady R P now) c = Inr R" "cv_pods (steady R P now) run = Inr (P run)" "cv_clock (steady R P now) = now"
  "cv_guard (steady R P now) = now" "cv_now (steady R P now) = now" "cv_flt (steady R P now) = (\<lambda>_. False)" "cv_others (steady R P now) = id"
  by (simp_all add: steady_def)

lemma run_listed_find: "run_listed run R = List.find (\<lambda>r. lr_UID r = run) R"
  by (induction R) auto

lemma run_listed_None: "run_listed run R = None \<longleftrightarrow> run \<notin> lr_UID ` set R"
  by (induction R) auto

lemma live_pod_iff: "live_pod ps \<longleftrightarrow> (\<exists>p \<in> set ps. pod_alive p)"
  by (induction ps) (auto simp: pod_alive_def)

lemma condition_true_waits:
  "lv_Reader l \<Longrightarrow> run \<noteq> [] \<Longrightarrow> condition_true cond l (Inr R) run = Inr (waits_for l R run cond)"
  by (auto simp: condition_true_def waits_for_def run_listed_find split: option.splits)

lemma zombie_lost:
  assumes "wired l S" and "pc_run r = Some run" and "run \<noteq> []"
  shows "zombie S (steady R P now) (held_of r) \<longleftrightarrow> lost_sandbox S l R P now r run"
  using assms by (auto simp: zombie_def lost_sandbox_def wired_def coalesce_def HasLiveSandbox_def live_pod_iff isPausedStep_def stalled_def
      endpointSlotWaiter_def meshQueueWaiter_def IsWaitingForEndpointSlot_def IsQueuedAtSupervisor_def condition_true_waits split: option.splits)

lemma scan_held_eq: "(\<forall>r \<in> set rs. coalesce (pc_run r) \<noteq> []) \<Longrightarrow> scan_held rs = Inr (map held_of rs)"
  by (induction rs) (auto simp: coalesce_def held_of_def split: option.splits list.splits)

lemma due_eq: "runs_known db \<Longrightarrow> hb_due (\<lambda>_. False) db = Inr (map held_of (filter (\<lambda>r. pc_holder r \<noteq> None) (pd_claims db)))"
  by (simp add: hb_due_def runs_known_def scan_held_eq)

lemma IsTerminal_steps: "IsTerminal st \<longleftrightarrow> st = StepSucceeded \<or> st = StepFailed \<or> st = StepCancelled"
  by (cases st) (simp_all add: IsTerminal_def)

text \<open>One claim: its row and its item become what the specification says, and no other changes.\<close>

definition same_at :: "string \<Rightarrow> prod_db \<Rightarrow> prod_db \<Rightarrow> bool" where
  "same_at j db db' \<longleftrightarrow> claim_row_of db' j = claim_row_of db j \<and> item_row_of db' j = item_row_of db j"

definition swept_at :: "HeartbeatSweeper \<Rightarrow> LiveRuns \<Rightarrow> listed_run list \<Rightarrow> (string \<Rightarrow> listed_pod list) \<Rightarrow> instant \<Rightarrow> string \<Rightarrow> prod_db \<Rightarrow> prod_db \<Rightarrow> bool" where
  "swept_at S l R P now j db db' \<longleftrightarrow>
     (\<forall>r. claim_row_of db j = Some r \<longrightarrow> claim_row_of db' j = Some (swept_row S l R P now (item_row_of db j) r) \<and>
        item_row_of db' j = map_option (swept_item S l R P now r) (item_row_of db j))"

definition swept_within :: "HeartbeatSweeper \<Rightarrow> LiveRuns \<Rightarrow> listed_run list \<Rightarrow> (string \<Rightarrow> listed_pod list) \<Rightarrow> (string \<Rightarrow> instant) \<Rightarrow> string set \<Rightarrow> prod_db \<Rightarrow> prod_db \<Rightarrow> bool" where
  "swept_within S l R P now J db db' \<longleftrightarrow> wf_prod db' \<and> (\<forall>j. if j \<in> J then swept_at S l R P (now j) j db db' else same_at j db db')"

lemma sweptI:
  assumes "wf_prod db'" and "claim_row_of db i = Some r"
    and "claim_row_of db' i = Some (swept_row S l R P (now i) (item_row_of db i) r)"
    and "item_row_of db' i = map_option (swept_item S l R P (now i) r) (item_row_of db i)"
    and "\<And>j. j \<noteq> i \<Longrightarrow> claim_row_of db' j = claim_row_of db j" and "\<And>j. j \<noteq> i \<Longrightarrow> item_row_of db' j = item_row_of db j"
  shows "swept_within S l R P now {i} db db'"
  using assms by (simp add: swept_within_def swept_at_def same_at_def)

lemma releaseTerminal_swept:
  assumes "wf_prod db" and "claim_row_of db i = Some r" and "pc_item r = i" and "pc_holder r \<noteq> None" and "pc_run r = Some run" and "run \<noteq> []"
    and "IsTerminal (pc_step r)"
  shows "swept_within S l R P now {i} db (snd (releaseTerminal (\<lambda>_. False) (now i) (held_of r) db))"
proof -
  let ?db' = "snd (releaseTerminal (\<lambda>_. False) (now i) (held_of r) db)"
  have dead: "\<not> lost_holder S l R P (now i) r" using assms(7) by (simp add: lost_holder_def)
  have G: "terminal_guard run r" using assms(5,7) by (auto simp: terminal_guard_def IsTerminal_steps)
  have row: "swept_row S l R P (now i) wi r = let_go r" for wi using assms(4,7) by (auto simp: swept_row_def)
  have c: "coalesce (pc_run r) = run" using assms(5) by (simp add: coalesce_def)
  from assms(7) consider "pc_step r = StepSucceeded" | "pc_step r = StepFailed" | "pc_step r = StepCancelled" by (auto simp: IsTerminal_steps)
  then have "wf_prod ?db' \<and> (\<forall>j. claim_row_of ?db' j = (if j = i then Some (let_go r) else claim_row_of db j)) \<and>
      (\<forall>j. item_row_of ?db' j = (if j = i then map_option (swept_item S l R P (now i) r) (item_row_of db i) else item_row_of db j))"
  proof cases
    case 1
    then have "swept_item S l R P (now i) r w = w" for w using dead by (simp add: swept_item_def)
    then have "map_option (swept_item S l R P (now i) r) x = x" for x by (cases x) simp_all
    then show ?thesis using 1 assms(1,2,3,6) G c by (simp add: releaseTerminal_def Let_def)
  next
    case 2
    then have "swept_item S l R P (now i) r = (\<lambda>w. if pw_state w = ''in_progress'' then set_lane (now i) ''todo'' w else w)"
      using assms(4) by (auto simp: swept_item_def)
    then show ?thesis using 2 assms(1,2,3,6) G c by (simp add: releaseTerminal_def Let_def SettleLaneOf_def)
  next
    case 3
    then have "swept_item S l R P (now i) r = (\<lambda>w. if pw_state w = ''in_progress'' then set_lane (now i) ''cancelled'' w else w)"
      using assms(4) dead by (auto simp: swept_item_def)
    then show ?thesis using 3 assms(1,2,3,6) G c by (simp add: releaseTerminal_def Let_def SettleLaneOf_def)
  qed
  then show ?thesis using row assms(2) by (intro sweptI [OF _ assms(2)]) simp_all
qed

lemma releaseDead_swept:
  assumes "wf_prod db" and "claim_row_of db i = Some r" and "pc_item r = i" and "pc_run r = Some run" and "run \<noteq> []"
    and "lost_holder S l R P (now i) r"
  shows "swept_within S l R P now {i} db (snd (releaseDead reason (\<lambda>_. False) (now i) (held_of r) db))"
proof -
  have h: "pc_holder r \<noteq> None" "\<not> IsTerminal (pc_step r)" using assms(6) by (simp_all add: lost_holder_def)
  have row: "swept_row S l R P (now i) wi r = failed_holder r" for wi using h assms(6) by (auto simp: swept_row_def)
  have lane: "swept_item S l R P (now i) r = (\<lambda>w. if pw_state w = ''in_progress'' then set_lane (now i) ''todo'' w else w)"
    using h(1) assms(6) by (auto simp: swept_item_def)
  have G: "dead_guard run r" "coalesce (pc_run r) = run" using h assms(4) by (simp_all add: dead_guard_def coalesce_def)
  have n: "aff_key pc_item i (dead_guard run) (pd_claims db) = 1" using G assms(2) by (simp add: aff_key_wf [OF wf_prodD(1) [OF assms(1)]])
  show ?thesis using assms(1,2,3,5) G n row lane by (intro sweptI [OF _ assms(2)]) (simp_all add: releaseDead_def Let_def)
qed

lemma renew_swept:
  assumes "wf_prod db" and "claim_row_of db i = Some r" and "pc_item r = i" and "pc_holder r = Some p" and "pc_run r = Some run" and "run \<noteq> []"
    and "\<not> IsTerminal (pc_step r)" and "\<not> lost_holder S l R P (now i) r"
  shows "swept_within S l R P now {i} db (hb_renew S (steady R P (now i)) (held_of r) db)"
proof -
  have G: "renewable (now i) p run (pc_fence r) i db r \<longleftrightarrow> null_gt (pc_lease r) (now i) \<and> (\<forall>w. item_row_of db i = Some w \<longrightarrow> pw_state w \<noteq> ''done'')"
    using assms(4,5) by (auto simp: renewable_def row_key_wf [OF wf_prodD(2) [OF assms(1)]] split: option.splits)
  have row: "swept_row S l R P (now i) (item_row_of db i) r = (if renewable (now i) p run (pc_fence r) i db r
      then r\<lparr>pc_lease := Some (now i + PC_LeaseInterval (hs_Claimer S)), pc_renewed := Some (now i)\<rparr> else r)"
    unfolding G using assms(4,7,8) by (simp add: swept_row_def)
  have "swept_item S l R P (now i) r w = w" for w using assms(7,8) by (auto simp: swept_item_def IsTerminal_steps)
  then have "map_option (swept_item S l R P (now i) r) x = x" for x by (cases x) simp_all
  then show ?thesis using assms(1-6) row by (intro sweptI [OF _ assms(2)]) (simp_all add: hb_renew_def ProdRenew_def coalesce_def)
qed

lemma sweep_claim_swept:
  assumes "wired l S" and "wf_prod db" and "claim_row_of db i = Some r" and "pc_holder r \<noteq> None" and "coalesce (pc_run r) \<noteq> []"
  shows "swept_within S l R P now {i} db (sweep_claim S (steady R P (now i)) (held_of r) db)"
proof -
  have i: "pc_item r = i" using lookup_by_Some [OF assms(3)] by simp
  obtain p where p: "pc_holder r = Some p" using assms(4) by blast
  obtain run where run: "pc_run r = Some run" "run \<noteq> []" using assms(5) by (cases "pc_run r") (auto simp: coalesce_def)
  have ex: "RunExists l (Inr R) run = Inr (run \<in> lr_UID ` set R)"
    using assms(1) run by (simp add: wired_def RunExists_def run_listed_None)
  note z = zombie_lost [OF assms(1) run, of R P "now i"]
  show ?thesis
  proof (cases "IsTerminal (pc_step r)")
    case True
    then have "sweep_claim S (steady R P (now i)) (held_of r) db = snd (releaseTerminal (\<lambda>_. False) (now i) (held_of r) db)"
      by (simp add: sweep_claim_def)
    then show ?thesis using releaseTerminal_swept [OF assms(2,3) i assms(4) run True] by simp
  next
    case False
    have eq: "sweep_claim S (steady R P (now i)) (held_of r) db =
        (if run \<notin> lr_UID ` set R then snd (releaseOrphan (\<lambda>_. False) (now i) (held_of r) db)
         else if lost_sandbox S l R P (now i) r run then snd (releaseZombie (\<lambda>_. False) (now i) (held_of r) db)
         else hb_renew S (steady R P (now i)) (held_of r) db)"
      using False assms(1) run ex z by (simp add: sweep_claim_def wired_def coalesce_def)
    have d: "lost_holder S l R P (now i) r \<longleftrightarrow> run \<notin> lr_UID ` set R \<or> lost_sandbox S l R P (now i) r run"
      using False assms(4) run by (simp add: lost_holder_def)
    show ?thesis
      using releaseDead_swept [OF assms(2,3) i run, of S l R P now] renew_swept [OF assms(2,3) i p run False, of S l R P now] d
      by (simp add: eq releaseOrphan_def releaseZombie_def)
  qed
qed

lemma swept_trans:
  assumes "swept_within S l R P now {i} db db1" and "swept_within S l R P now J db1 db2" and "i \<notin> J"
  shows "swept_within S l R P now (insert i J) db db2"
proof -
  have "if j \<in> insert i J then swept_at S l R P (now j) j db db2 else same_at j db db2" for j
    using assms(1) [unfolded swept_within_def, THEN conjunct2, THEN spec, of j] assms(2) [unfolded swept_within_def, THEN conjunct2, THEN spec, of j] assms(3)
    by (cases "j = i") (auto simp: swept_at_def same_at_def split: if_splits)
  then show ?thesis using assms(2) by (simp add: swept_within_def)
qed

lemma sweep_loop_swept:
  assumes "wired l S" and "wf_prod db" and "distinct (map pc_item rs)"
    and "\<forall>r \<in> set rs. claim_row_of db (pc_item r) = Some r \<and> pc_holder r \<noteq> None \<and> coalesce (pc_run r) \<noteq> []"
  shows "swept_within S l R P now (pc_item ` set rs) db (sweep_loop S (\<lambda>i. steady R P (now i)) (map held_of rs) db)"
  using assms(2-4)
proof (induction rs arbitrary: db)
  case Nil
  then show ?case by (simp add: swept_within_def same_at_def)
next
  case (Cons r rs)
  let ?db1 = "sweep_claim S (steady R P (now (pc_item r))) (held_of r) db"
  have one: "swept_within S l R P now {pc_item r} db ?db1" using sweep_claim_swept [OF assms(1) Cons.prems(1)] Cons.prems(3) by simp
  then have wf: "wf_prod ?db1" and rows: "\<And>j. j \<noteq> pc_item r \<Longrightarrow> claim_row_of ?db1 j = claim_row_of db j"
    unfolding swept_within_def same_at_def by auto
  have "\<forall>q \<in> set rs. claim_row_of ?db1 (pc_item q) = Some q \<and> pc_holder q \<noteq> None \<and> coalesce (pc_run q) \<noteq> []"
  proof
    fix q assume q: "q \<in> set rs"
    then have "pc_item q \<noteq> pc_item r" using Cons.prems(2) by (metis distinct.simps(2) image_eqI list.set_map list.simps(9))
    then show "claim_row_of ?db1 (pc_item q) = Some q \<and> pc_holder q \<noteq> None \<and> coalesce (pc_run q) \<noteq> []" using Cons.prems(3) q rows by simp
  qed
  then have "swept_within S l R P now (pc_item ` set rs) ?db1 (sweep_loop S (\<lambda>i. steady R P (now i)) (map held_of rs) ?db1)"
    using Cons.IH [OF wf] Cons.prems(2) by simp
  from swept_trans [OF one this] Cons.prems(2) show ?case by simp
qed

lemma condition_true_Inl: "lv_Reader l \<Longrightarrow> run \<noteq> [] \<Longrightarrow> condition_true cond l (Inl e) run = Inl (''rundrive.heartbeat: list runs: '' @ e)"
  by (simp add: condition_true_def)

lemma sweep_swept:
  assumes "wired l S" and "wf_prod db" and "runs_known db"
  shows "wf_prod (hb_sweep S (\<lambda>_. False) (\<lambda>i. steady R P (now i)) db)"
    and "swept_at S l R P (now j) j db (hb_sweep S (\<lambda>_. False) (\<lambda>i. steady R P (now i)) db)"
    and "claim_row_of db j = None \<Longrightarrow> same_at j db (hb_sweep S (\<lambda>_. False) (\<lambda>i. steady R P (now i)) db)"
proof -
  let ?rs = "filter (\<lambda>r. pc_holder r \<noteq> None) (pd_claims db)" and ?db' = "hb_sweep S (\<lambda>_. False) (\<lambda>i. steady R P (now i)) db"
  have eq: "?db' = sweep_loop S (\<lambda>i. steady R P (now i)) (map held_of ?rs) db" by (simp add: hb_sweep_def due_eq [OF assms(3)])
  have "distinct (map pc_item ?rs)" using wf_prodD(1) [OF assms(2)] by (simp add: wf_table_def distinct_map_filter)
  moreover have "\<forall>r \<in> set ?rs. claim_row_of db (pc_item r) = Some r \<and> pc_holder r \<noteq> None \<and> coalesce (pc_run r) \<noteq> []"
    using assms(3) lookup_by_mem [OF wf_prodD(1) [OF assms(2)]] by (simp add: runs_known_def)
  ultimately have s: "swept_within S l R P now (pc_item ` set ?rs) db ?db'" unfolding eq by (rule sweep_loop_swept [OF assms(1,2)])
  then show "wf_prod ?db'" by (simp add: swept_within_def)
  have at: "if k \<in> pc_item ` set ?rs then swept_at S l R P (now k) k db ?db' else same_at k db ?db'" for k
    using s [unfolded swept_within_def] by blast
  show "swept_at S l R P (now j) j db ?db'"
  proof (cases "j \<in> pc_item ` set ?rs")
    case False
    have "swept_item S l R P (now j) r w = w" if "pc_holder r = None" for r w using that by (simp add: swept_item_def)
    then have "map_option (swept_item S l R P (now j) r) x = x" if "pc_holder r = None" for r x using that by (cases x) simp_all
    moreover have "pc_holder r = None" if "claim_row_of db j = Some r" for r using False lookup_by_Some [OF that] by auto
    ultimately show ?thesis using at [of j] False by (simp add: swept_at_def same_at_def swept_row_def)
  qed (use at [of j] in simp)
  assume none: "claim_row_of db j = None"
  then have "j \<notin> pc_item ` set ?rs" by (auto simp: lookup_by_None)
  with at [of j] show "same_at j db ?db'" by simp
qed

lemma renew_touches:
  assumes "db' = hb_renew S cv hc db"
  shows "pd_items db' = pd_items db \<and> pd_audit db' = pd_audit db \<and> pd_outbox db' = pd_outbox db \<and>
    (\<forall>j. claim_row_of db' j = claim_row_of db j \<or>
       (\<exists>r t. j = hc_item hc \<and> claim_row_of db j = Some r \<and> pc_holder r = Some (hc_principal hc) \<and> pc_run r = Some (hc_run hc) \<and>
          pc_fence r = hc_fence hc \<and> claim_row_of db' j = Some (r\<lparr>pc_lease := Some (t + PC_LeaseInterval (hs_Claimer S)), pc_renewed := Some t\<rparr>)))"
proof (cases "hc_run hc = [] \<or> cv_flt cv ''renew''")
  case True
  then have "db' = db" using assms by (auto simp: hb_renew_def ProdRenew_def)
  then show ?thesis by simp
next
  case False
  let ?G = "renewable (cv_guard cv) (hc_principal hc) (hc_run hc) (hc_fence hc) (hc_item hc) db"
  let ?f = "\<lambda>r. r\<lparr>pc_lease := Some (cv_now cv + PC_LeaseInterval (hs_Claimer S)), pc_renewed := Some (cv_now cv)\<rparr>"
  have db': "db' = db\<lparr>pd_claims := upd_key pc_item (hc_item hc) ?G ?f (pd_claims db)\<rparr>" using False assms by (simp add: hb_renew_def ProdRenew_def)
  have rows: "claim_row_of db' j = claim_row_of db j \<or> (\<exists>r. j = hc_item hc \<and> claim_row_of db j = Some r \<and> ?G r \<and> claim_row_of db' j = Some (?f r))" for j
    by (cases "claim_row_of db (hc_item hc)") (auto simp: db')
  have G: "pc_holder r = Some (hc_principal hc) \<and> pc_run r = Some (hc_run hc) \<and> pc_fence r = hc_fence hc" if "?G r" for r
    using that by (simp add: renewable_def)
  have "pd_items db' = pd_items db" "pd_audit db' = pd_audit db" "pd_outbox db' = pd_outbox db" by (simp_all add: db')
  then show ?thesis using rows G by blast
qed

section \<open>Properties\<close>

text \<open>
  C31. A sweep does to every claim what it says: with the operator's wiring, when the statements and
  the cluster answer and nobody interferes, every held claim of a finished Run is released with its
  lane settled, every held claim whose Run is gone or has lost its sandbox for longer than the
  grace is released as failed with its item back to todo, every other held claim whose lease has
  not lapsed and whose item is not done is renewed, and nothing else changes.
\<close>

theorem sweep_exact:
  assumes "wired l S" and "wf_prod db" and "runs_known db" and "db' = hb_sweep S (\<lambda>_. False) (\<lambda>i. steady R P (now i)) db"
  shows "(\<forall>j r. claim_row_of db j = Some r \<longrightarrow> claim_row_of db' j = Some (swept_row S l R P (now j) (item_row_of db j) r) \<and>
      item_row_of db' j = map_option (swept_item S l R P (now j) r) (item_row_of db j)) \<and>
    (\<forall>j. claim_row_of db j = None \<longrightarrow> claim_row_of db' j = None \<and> item_row_of db' j = item_row_of db j)"
  using sweep_swept(2,3) [OF assms(1-3), where R = R and P = P and now = now] by (simp add: assms(4) swept_at_def same_at_def)

definition demo_reader :: LiveRuns where
  "demo_reader = \<lparr>lv_Reader = True, lv_findCond = (\<lambda>cs t. List.find (\<lambda>c. cd_Type c = t) cs)\<rparr>"

definition demo_sweeper :: HeartbeatSweeper where
  "demo_sweeper = \<lparr>hs_Claimer = driveConfig, hs_Runs = Some demo_reader, hs_Live = Some demo_reader, hs_EndpointWait = Some demo_reader,
     hs_MeshQueueWait = Some demo_reader, hs_Grace = 0\<rparr>"

definition demo_held :: "Step \<Rightarrow> prod_db" where
  "demo_held st = one_todo\<lparr>pd_items := map (\<lambda>w. w\<lparr>pw_state := ''in_progress''\<rparr>) (pd_items one_todo), pd_claims := [demo_claim st]\<rparr>"

lemma demo_held_ok [simp]: "wired demo_reader demo_sweeper" "wf_prod (demo_held st)" "runs_known (demo_held st)"
  "claim_row_of (demo_held st) ''i'' = Some (demo_claim st)" "pc_run (demo_claim st) = Some ''r''"
  "item_row_of (demo_held st) ''i'' = Some ((List.hd (pd_items one_todo))\<lparr>pw_state := ''in_progress''\<rparr>)"
  by (simp_all add: wired_def demo_reader_def demo_sweeper_def demo_held_def wf_prod_def wf_table_def one_todo_def runs_known_def demo_claim_def coalesce_def)

theorem sweep_exact_witness:
  "claim_row_of (hb_sweep demo_sweeper (\<lambda>_. False) (\<lambda>i. steady [] (\<lambda>_. []) 5) (demo_held StepRunning)) ''i'' = Some (failed_holder (demo_claim StepRunning))"
proof -
  have "swept_row demo_sweeper demo_reader [] (\<lambda>_. []) 5 wi (demo_claim StepRunning) = failed_holder (demo_claim StepRunning)" for wi
    by (simp add: swept_row_def lost_holder_def)
  then show ?thesis using sweep_exact [OF demo_held_ok(1) demo_held_ok(2,3) [of StepRunning] refl, where R = "[]" and P = "\<lambda>_. []" and now = "\<lambda>_. 5"] by simp
qed

text \<open>
  C32. The living are spared: whatever statements fail and whatever others do, the sweep of a claim
  whose Run is not finished and not listed as gone, and which is paused, within the stall grace,
  without an anchor, with a live pod, with unreadable pods, or waiting (or not known not to be
  waiting) for an endpoint slot or a mesh process, records nothing and moves no item and no
  step; it changes at most the lease of the very holding it read.
\<close>

theorem living_claim_spared:
  assumes "wired l S" and "\<not> IsTerminal (hc_step hc)" and "hc_run hc \<noteq> []"
    and "\<forall>rs. cv_runs cv ''exists'' = Inr rs \<longrightarrow> hc_run hc \<in> lr_UID ` set rs"
    and "PhaseOf (hc_step hc) = PhasePaused \<or> \<not> stalled S (cv_clock cv) hc \<or>
      (\<exists>e. cv_pods cv (hc_run hc) = Inl e) \<or> (\<exists>ps p. cv_pods cv (hc_run hc) = Inr ps \<and> p \<in> set ps \<and> pod_alive p) \<or>
      (\<exists>e. cv_runs cv ''endpoint'' = Inl e \<or> cv_runs cv ''mesh'' = Inl e) \<or>
      (\<exists>rs. cv_runs cv ''endpoint'' = Inr rs \<and> waits_for l rs (hc_run hc) ConditionEndpointSlotWait) \<or>
      (\<exists>rs. cv_runs cv ''mesh'' = Inr rs \<and> waits_for l rs (hc_run hc) ConditionQueuedAtSupervisor)"
    and "db1 = cv_others cv db" and "db2 = sweep_claim S cv hc db"
  shows "pd_items db2 = pd_items db1 \<and> pd_audit db2 = pd_audit db1 \<and> pd_outbox db2 = pd_outbox db1 \<and>
    (\<forall>j. claim_row_of db2 j = claim_row_of db1 j \<or>
       (\<exists>r t. j = hc_item hc \<and> claim_row_of db1 j = Some r \<and> pc_holder r = Some (hc_principal hc) \<and> pc_run r = Some (hc_run hc) \<and>
          pc_fence r = hc_fence hc \<and> claim_row_of db2 j = Some (r\<lparr>pc_lease := Some (t + PC_LeaseInterval (hs_Claimer S)), pc_renewed := Some t\<rparr>)))"
proof -
  have "\<not> zombie S cv hc"
    using assms(1,3,5) by (auto simp: zombie_def wired_def HasLiveSandbox_def live_pod_iff isPausedStep_def endpointSlotWaiter_def meshQueueWaiter_def
        IsWaitingForEndpointSlot_def IsQueuedAtSupervisor_def condition_true_waits condition_true_Inl split: sum.splits)
  moreover have "RunExists l (cv_runs cv ''exists'') (hc_run hc) \<noteq> Inr False"
    using assms(1,3,4) by (auto simp: wired_def RunExists_def run_listed_None split: sum.splits)
  ultimately have "db2 = db1 \<or> db2 = hb_renew S cv hc db1"
    using assms(1,2,6,7) by (cases rule: sweep_claim_cases [of S cv hc db]) (auto simp: wired_def)
  then show ?thesis using renew_touches by blast
qed

theorem living_claim_spared_witness:
  "pd_audit (sweep_claim demo_sweeper (steady [\<lparr>lr_UID = ''r'', lr_Phase = ''Running'', lr_Conditions = []\<rparr>]
      (\<lambda>_. [\<lparr>lp_Deleting = False, lp_Phase = ''Running''\<rparr>]) 5) (held_of (demo_claim StepRunning)) (demo_held StepRunning)) = []"
  using living_claim_spared [OF demo_held_ok(1) _ _ _ _ refl refl, of "held_of (demo_claim StepRunning)"
      "steady [\<lparr>lr_UID = ''r'', lr_Phase = ''Running'', lr_Conditions = []\<rparr>] (\<lambda>_. [\<lparr>lp_Deleting = False, lp_Phase = ''Running''\<rparr>]) 5" "demo_held StepRunning"]
  by (simp add: coalesce_def pod_alive_def) (simp add: demo_held_def one_todo_def)

section \<open>A sequence of sweeps\<close>

lemma runs_known_rows:
  assumes "wf_prod db"
  shows "runs_known db \<longleftrightarrow> (\<forall>j r. claim_row_of db j = Some r \<longrightarrow> pc_holder r \<noteq> None \<longrightarrow> coalesce (pc_run r) \<noteq> [])"
proof -
  have "r \<in> set (pd_claims db) \<longleftrightarrow> (\<exists>j. claim_row_of db j = Some r)" for r
    using lookup_by_mem [OF wf_prodD(1) [OF assms]] lookup_by_Some by fast
  then show ?thesis unfolding runs_known_def by blast
qed

lemma swept_row_runs:
  "coalesce (pc_run r) \<noteq> [] \<or> pc_holder r = None \<Longrightarrow> pc_holder (swept_row S l R P now wi r) \<noteq> None \<Longrightarrow> coalesce (pc_run (swept_row S l R P now wi r)) \<noteq> []"
  by (auto simp: swept_row_def split: if_splits)

lemma sweep_runs_known:
  assumes "wired l S" and "wf_prod db" and "runs_known db"
  shows "runs_known (hb_sweep S (\<lambda>_. False) (\<lambda>i. steady R P (now i)) db)"
proof -
  let ?db' = "hb_sweep S (\<lambda>_. False) (\<lambda>i. steady R P (now i)) db"
  have "coalesce (pc_run r') \<noteq> []" if "claim_row_of ?db' j = Some r'" "pc_holder r' \<noteq> None" for j r'
  proof (cases "claim_row_of db j")
    case None
    then show ?thesis using sweep_swept(3) [OF assms None, of R P now] that by (simp add: same_at_def)
  next
    case (Some r)
    then have "r' = swept_row S l R P (now j) (item_row_of db j) r" using sweep_swept(2) [OF assms, of R P now j] that by (simp add: swept_at_def)
    then show ?thesis using swept_row_runs that(2) assms(3) Some runs_known_rows [OF assms(2)] by blast
  qed
  then show ?thesis using runs_known_rows [OF sweep_swept(1) [OF assms]] by blast
qed

text \<open>A tick in a cluster that answers; others leave the item's rows, and the run of every held claim, in place.\<close>

definition beat :: "(prod_db \<Rightarrow> prod_db) \<times> listed_run list \<times> (string \<Rightarrow> listed_pod list) \<times> (string \<Rightarrow> instant) \<Rightarrow> hb_tick" where
  "beat b = (case b of (f, R, P, now) \<Rightarrow> \<lparr>tk_others = f, tk_flt = (\<lambda>_. False), tk_env = (\<lambda>i. steady R P (now i))\<rparr>)"

definition tame :: "string \<Rightarrow> (prod_db \<Rightarrow> prod_db) \<Rightarrow> bool" where
  "tame i f \<longleftrightarrow> (\<forall>db. wf_prod db \<and> runs_known db \<longrightarrow> wf_prod (f db) \<and> runs_known (f db) \<and> same_at i db (f db))"

fun timely :: "duration \<Rightarrow> instant \<Rightarrow> instant list \<Rightarrow> bool" where
  "timely L lease [] = True"
| "timely L lease (t # ts) = (t < lease \<and> timely L (t + L) ts)"

definition alive_at :: "HeartbeatSweeper \<Rightarrow> LiveRuns \<Rightarrow> string \<Rightarrow> prod_claim \<Rightarrow> (prod_db \<Rightarrow> prod_db) \<times> listed_run list \<times> (string \<Rightarrow> listed_pod list) \<times> (string \<Rightarrow> instant) \<Rightarrow> bool" where
  "alive_at S l i r b = (case b of (f, R, P, now) \<Rightarrow> tame i f \<and> \<not> lost_holder S l R P (now i) r)"

definition beat_time :: "string \<Rightarrow> (prod_db \<Rightarrow> prod_db) \<times> listed_run list \<times> (string \<Rightarrow> listed_pod list) \<times> (string \<Rightarrow> instant) \<Rightarrow> instant" where
  "beat_time i b = snd (snd (snd b)) i"

lemma lost_holder_lease [simp]: "lost_holder S l R P now (r\<lparr>pc_lease := a, pc_renewed := b\<rparr>) = lost_holder S l R P now r"
  by (simp add: lost_holder_def lost_sandbox_def)

lemma alive_at_lease [simp]: "alive_at S l i (r\<lparr>pc_lease := a, pc_renewed := c\<rparr>) b = alive_at S l i r b"
  by (simp add: alive_at_def split: prod.splits)

lemma one_beat:
  assumes "wired l S" and "wf_prod db" and "runs_known db" and "claim_row_of db i = Some r" and "pc_holder r \<noteq> None" and "\<not> IsTerminal (pc_step r)"
    and "pc_lease r = Some e" and "\<forall>w. item_row_of db i = Some w \<longrightarrow> pw_state w \<noteq> ''done''" and "alive_at S l i r b" and "beat_time i b < e"
  defines "db' \<equiv> hb_sweep S (tk_flt (beat b)) (tk_env (beat b)) (tk_others (beat b) db)"
  shows "wf_prod db' \<and> runs_known db' \<and> item_row_of db' i = item_row_of db i \<and>
    claim_row_of db' i = Some (r\<lparr>pc_lease := Some (beat_time i b + PC_LeaseInterval (hs_Claimer S)), pc_renewed := Some (beat_time i b)\<rparr>)"
proof -
  obtain f R P now where b: "b = (f, R, P, now)" by (cases b)
  have f: "wf_prod (f db)" "runs_known (f db)" "same_at i db (f db)" and alive: "\<not> lost_holder S l R P (now i) r"
    using assms(2,3,9) by (auto simp: b alive_at_def tame_def)
  have db': "db' = hb_sweep S (\<lambda>_. False) (\<lambda>i. steady R P (now i)) (f db)" by (simp add: db'_def b beat_def)
  have row: "swept_row S l R P (now i) (item_row_of (f db) i) r = r\<lparr>pc_lease := Some (now i + PC_LeaseInterval (hs_Claimer S)), pc_renewed := Some (now i)\<rparr>"
    using assms(5-8,10) alive f(3) by (auto simp: swept_row_def same_at_def b beat_time_def)
  have "swept_item S l R P (now i) r w = w" for w using assms(6) alive by (auto simp: swept_item_def IsTerminal_steps)
  then have item: "map_option (swept_item S l R P (now i) r) x = x" for x by (cases x) simp_all
  show ?thesis
    using sweep_swept(1,2) [OF assms(1) f(1,2), where R = R and P = P and now = now] sweep_runs_known [OF assms(1) f(1,2), of R P now] f(3) assms(4) row item
    by (simp add: db' swept_at_def same_at_def b beat_time_def)
qed

text \<open>
  C33. Heartbeats hold a claim: while the sweeps come before the lease lapses and, at each, the
  holder's Run is there with its sandbox (or paused, or waiting, or within the grace), the claim
  keeps its holder, run, fence and step, whatever happens to the other claims, its lease reaches
  a whole interval past the last sweep, and the run driver does not take the attempt for dead
  before that.
\<close>

theorem heartbeats_hold_the_claim:
  assumes "wired l S" and "wf_prod db" and "runs_known db" and "claim_row_of db i = Some r" and "pc_holder r \<noteq> None" and "\<not> IsTerminal (pc_step r)"
    and "pc_lease r = Some e" and "\<forall>w. item_row_of db i = Some w \<longrightarrow> pw_state w \<noteq> ''done''" and "bs \<noteq> []" and "\<forall>b \<in> set bs. alive_at S l i r b"
    and "timely (PC_LeaseInterval (hs_Claimer S)) e (map (beat_time i) bs)"
    and "lease = beat_time i (last bs) + PC_LeaseInterval (hs_Claimer S)" and "db' = Sweeper_Start S (map beat bs) db"
  shows "claim_row_of db' i = Some (r\<lparr>pc_lease := Some lease, pc_renewed := Some (beat_time i (last bs))\<rparr>) \<and>
    (\<forall>isUuid cs now. Claims_State isUuid (\<lambda>_. False) i db' = Inr (Some cs) \<and> now \<le> lease \<longrightarrow> \<not> dead now cs)"
proof -
  have "claim_row_of db' i = Some (r\<lparr>pc_lease := Some lease, pc_renewed := Some (beat_time i (last bs))\<rparr>)"
    using assms(2-)
  proof (induction bs arbitrary: db r e)
    case (Cons b bs)
    let ?db = "hb_sweep S (tk_flt (beat b)) (tk_env (beat b)) (tk_others (beat b) db)"
    let ?L = "PC_LeaseInterval (hs_Claimer S)"
    let ?r = "r\<lparr>pc_lease := Some (beat_time i b + ?L), pc_renewed := Some (beat_time i b)\<rparr>"
    have "alive_at S l i r b" "beat_time i b < e" using Cons.prems(9,10) by simp_all
    from one_beat [OF assms(1) Cons.prems(1-7) this]
    have step: "wf_prod ?db" "runs_known ?db" "item_row_of ?db i = item_row_of db i" "claim_row_of ?db i = Some ?r" by blast+
    show ?case
    proof (cases "bs = []")
      case True
      then show ?thesis using step(4) Cons.prems(11,12) by simp
    next
      case False
      have "claim_row_of db' i = Some (?r\<lparr>pc_lease := Some lease, pc_renewed := Some (beat_time i (last bs))\<rparr>)"
        by (rule Cons.IH [OF step(1,2,4), where e = "beat_time i b + ?L"]) (use False step(3) Cons.prems(4,5,7,9,10,11,12) in simp_all)
      then show ?thesis using False by simp
    qed
  qed simp
  then show ?thesis by (auto simp: Claims_State_def dead_def split: if_splits option.splits)
qed

text \<open>The wired Run of the demo, with a live pod.\<close>

definition demo_cluster :: "listed_run list" where
  "demo_cluster = [\<lparr>lr_UID = ''r'', lr_Phase = ''Running'', lr_Conditions = []\<rparr>]"

lemma demo_alive [simp]: "\<not> lost_holder demo_sweeper demo_reader demo_cluster (\<lambda>_. [\<lparr>lp_Deleting = False, lp_Phase = ''Running''\<rparr>]) t (demo_claim st)"
  by (simp add: lost_holder_def demo_cluster_def lost_sandbox_def pod_alive_def)

theorem heartbeats_hold_the_claim_witness:
  "pc_lease (the (claim_row_of (Sweeper_Start demo_sweeper (map beat (map (\<lambda>t. (id, demo_cluster, \<lambda>_. [\<lparr>lp_Deleting = False, lp_Phase = ''Running''\<rparr>], \<lambda>_. t)) [10, 10000000010]))
     (demo_held StepRunning)) ''i'')) = Some 40000000010"
proof -
  let ?bs = "map (\<lambda>t. (id, demo_cluster, \<lambda>_. [\<lparr>lp_Deleting = False, lp_Phase = ''Running''\<rparr>], \<lambda>_. t)) [10, 10000000010]"
  have L: "PC_LeaseInterval (hs_Claimer demo_sweeper) = 30000000000" by (simp add: demo_sweeper_def WithOutboxCapture_def DefaultProdConfig_def)
  have alive: "\<forall>b \<in> set ?bs. alive_at demo_sweeper demo_reader ''i'' (demo_claim StepRunning) b" by (simp add: alive_at_def tame_def same_at_def)
  have ok: "timely (PC_LeaseInterval (hs_Claimer demo_sweeper)) 30 (map (beat_time ''i'') ?bs)" by (simp add: L beat_time_def)
  have todo: "\<forall>w. item_row_of (demo_held StepRunning) ''i'' = Some w \<longrightarrow> pw_state w \<noteq> ''done''" by simp
  show ?thesis
    using heartbeats_hold_the_claim [OF demo_held_ok(1,2,3,4) _ _ _ todo _ alive ok refl refl] by (simp add: L beat_time_def)
qed

section \<open>What a dead holder leaves\<close>

lemma acquire_free:
  assumes "wf_prod db" and "claim_row_of db i = Some r" and "pc_holder r = None" and "item_row_of db i = Some w" and "lane_ok driveConfig w"
    and "prin \<noteq> []" and "run \<noteq> []" and "i \<noteq> []"
  shows "\<exists>db'. Claims_Acquire prin (\<lambda>_. False) carrier tg ts i run agent db = (Inr (Some (pc_fence r + 1)), db')"
proof -
  have free: "claim_free tg r" using assms(3) by (simp add: claim_free_def)
  note wf = wf_prodD(1,2) [OF assms(1)]
  show ?thesis using assms free
    by (simp add: Claims_Acquire_def AcquireSpecific_def prod_acq_def row_key_wf [OF wf(1)] claim_tail_def prod_mark_def aff_key_wf [OF wf(2)]
        captureClaim_def CaptureForWorkItem_def WithOutboxCapture_def DefaultProdConfig_def stamp_assignee_def)
qed

text \<open>
  C34. A dead holder's item is free again: after a healthy sweep of a claim whose Run is gone, or has
  lost its sandbox for longer than the grace, on an item in progress, the item is back to todo and
  the next Run that asks for it is granted it with the next fence, while the old holding can neither
  be renewed nor re-entered.
\<close>

theorem dead_holder_reclaimed:
  assumes "wired l S" and "wf_prod db" and "runs_known db" and "claim_row_of db i = Some r" and "lost_holder S l R P (now i) r"
    and "item_row_of db i = Some w" and "pw_state w = ''in_progress''" and "prin \<noteq> []" and "run \<noteq> []" and "i \<noteq> []"
    and "db' = hb_sweep S (\<lambda>_. False) (\<lambda>i. steady R P (now i)) db"
  shows "(\<exists>w'. item_row_of db' i = Some w' \<and> pw_state w' = ''todo'') \<and>
    (\<exists>db''. Claims_Acquire prin (\<lambda>_. False) carrier tg ts i run agent db' = (Inr (Some (pc_fence r + 1)), db'')) \<and>
    (\<forall>p rn f t. Claims_Renew p (\<lambda>_. False) t t i rn f db' = (Inr False, db')) \<and>
    (\<forall>p ft t rn e s f. enter p ft t i rn e f s [] db' = (Inr None, db') \<or> (\<exists>err. enter p ft t i rn e f s [] db' = (Inl err, db')))"
proof -
  have h: "pc_holder r \<noteq> None" "\<not> IsTerminal (pc_step r)" using assms(5) by (simp_all add: lost_holder_def)
  have row: "claim_row_of db' i = Some (failed_holder r)" and item: "item_row_of db' i = Some (set_lane (now i) ''todo'' w)" and wf: "wf_prod db'"
    using sweep_swept(1,2) [OF assms(1-3), where R = R and P = P and now = now] assms(4,5,6,7) h
    by (auto simp: assms(11) swept_at_def swept_row_def swept_item_def)
  have "lane_ok driveConfig (set_lane (now i) ''todo'' w)" by (simp add: lane_ok_def WithOutboxCapture_def DefaultProdConfig_def)
  from acquire_free [OF wf row _ item this assms(8,9,10), of carrier tg ts agent]
  have acq: "\<exists>db''. Claims_Acquire prin (\<lambda>_. False) carrier tg ts i run agent db' = (Inr (Some (pc_fence r + 1)), db'')" by simp
  have renew: "Claims_Renew p (\<lambda>_. False) t t i rn f db' = (Inr False, db')" for p rn f t
    using row upd_key_no_guard [OF wf_prodD(1) [OF wf] row]
    by (simp add: Claims_Renew_def Let_def renewable_def aff_key_wf [OF wf_prodD(1) [OF wf]])
  have "enter p ft t i rn e f s [] db' = (Inr None, db') \<or> (\<exists>err. enter p ft t i rn e f s [] db' = (Inl err, db'))" for p ft t rn e s f
    using row by (auto simp: enter_def Let_def row_key_wf [OF wf_prodD(1) [OF wf]] enter_guard_def)
  with acq renew item show ?thesis by auto
qed

theorem dead_holder_reclaimed_witness:
  "\<exists>db''. Claims_Acquire ''op'' (\<lambda>_. False) None 6 6 ''i'' ''s'' []
     (hb_sweep demo_sweeper (\<lambda>_. False) (\<lambda>i. steady [] (\<lambda>_. []) 5) (demo_held StepRunning)) = (Inr (Some 2), db'')"
proof -
  have dead: "lost_holder demo_sweeper demo_reader [] (\<lambda>_. []) ((\<lambda>_. 5) ''i'') (demo_claim StepRunning)" by (simp add: lost_holder_def)
  show ?thesis
    using dead_holder_reclaimed [OF demo_held_ok(1) demo_held_ok(2,3,4) [of StepRunning] dead demo_held_ok(6) _ _ _ _ refl, of "''op''" "''s''" None 6 6 "[]"]
    by simp
qed

section \<open>Gaps\<close>

text \<open>A release decided on an old snapshot takes whatever the Run holds now: a newer attempt, or a Run that has meanwhile succeeded.\<close>

lemma stale_release_kills_newer_attempt:
  "claim_row_of (snd (releaseZombie (\<lambda>_. False) 5 (held_of (demo_claim StepRunning))
      ((demo_held StepRunning)\<lparr>pd_claims := [(demo_claim StepRunning)\<lparr>pc_fence := 3\<rparr>]\<rparr>))) ''i'' =
    Some (failed_holder ((demo_claim StepRunning)\<lparr>pc_fence := 3\<rparr>))"
  by (simp add: releaseZombie_def releaseDead_def Let_def coalesce_def dead_guard_def aff_key_def sql_affected_def)

lemma stale_release_fails_a_success:
  "map_option pc_step (claim_row_of (snd (releaseZombie (\<lambda>_. False) 5 (held_of (demo_claim StepRunning)) (demo_held StepSucceeded))) ''i'') = Some StepFailed"
  by (simp add: releaseZombie_def releaseDead_def Let_def coalesce_def dead_guard_def demo_held_def aff_key_def sql_affected_def)

text \<open>The terminal release is recorded although its claim is no longer the Run's.\<close>

lemma terminal_release_recorded_anyway:
  "claim_row_of db i = Some r \<Longrightarrow> pc_run r \<noteq> Some (hc_run hc) \<Longrightarrow> hc_item hc = i \<Longrightarrow> hc_run hc \<noteq> [] \<Longrightarrow>
   \<exists>a. pd_audit (snd (releaseTerminal (\<lambda>_. False) now hc db)) = pd_audit db @ [a] \<and> au_event a = ''claim_released''"
  by (simp add: releaseTerminal_def Let_def release_audit_def)

text \<open>One held claim without a run stops the sweep of all.\<close>

lemma scan_held_NULL: "r \<in> set rs \<Longrightarrow> pc_run r = None \<Longrightarrow> \<exists>e. scan_held rs = Inl e"
  by (induction rs) (auto split: option.splits list.splits sum.splits)

lemma missing_run_stops_the_sweep:
  assumes "r \<in> set (pd_claims db)" and "pc_holder r \<noteq> None" and "pc_run r = None"
  shows "hb_sweep S flt env db = db"
proof -
  have "\<exists>e. scan_held (filter (\<lambda>r. pc_holder r \<noteq> None) (pd_claims db)) = Inl e" by (rule scan_held_NULL) (use assms in simp_all)
  then show ?thesis by (auto simp: hb_sweep_def hb_due_def)
qed

end
