(* ===== verification/Intake_Laws.thy ===== *)
theory Intake_Laws
  imports Run_Intake Heartbeat_Laws
begin

text \<open>
  What ticket intake does: names and generations, the re-arming of settled claims, the circuit
  breaker, and which Runs a pass creates.
\<close>

section \<open>Names and generations\<close>

lemma digits_val_app: "digits_val n (xs @ ys) = Option.bind (digits_val n xs) (\<lambda>m. digits_val m ys)"
  by (induction xs arbitrary: n) auto

lemma digits_val_nat_str: "digits_val 0 (nat_str n) = Some (int n)"
proof (induction n rule: nat_str.induct)
  case (1 n)
  have d: "n mod 10 < 10" by simp
  have c: "of_char (char_of (48 + k) :: char) = (48 + int k)" if "k < 10" for k :: nat
    unfolding of_nat_of_char [symmetric, where 'a = int] using that by (simp add: take_bit_eq_mod)
  show ?case
  proof (cases "n < 10")
    case True
    then show ?thesis using c [of n] by (subst nat_str.simps) simp
  next
    case False
    have "digits_val 0 (nat_str n) = Option.bind (digits_val 0 (nat_str (n div 10))) (\<lambda>m. digits_val m [char_of (48 + n mod 10)])"
      using False by (subst nat_str.simps) (simp add: digits_val_app)
    also have "\<dots> = Some (10 * int (n div 10) + int (n mod 10))" using 1 False c [OF d] by simp
    also have "10 * int (n div 10) + int (n mod 10) = int n" by presburger
    finally show ?thesis .
  qed
qed

lemma nat_str_no_minus: "CHR ''-'' \<notin> set (nat_str n)"
proof (induction n rule: nat_str.induct)
  case (1 n)
  have "CHR ''-'' \<noteq> char_of (48 + n mod 10)" using digit_char_not_minus [of "n mod 10"] by (metis mod_less_divisor zero_less_numeral)
  then show ?case using 1 digit_char_not_minus [of n] by (subst nat_str.simps) (auto split: if_splits)
qed

lemma nat_str_no_plus: "hd (nat_str n) \<noteq> CHR ''+''"
proof (induction n rule: nat_str.induct)
  case (1 n)
  have "k < 10 \<Longrightarrow> char_of (48 + k) \<noteq> CHR ''+''" for k :: nat by (auto simp: char_of_eq_iff take_bit_eq_mod)
  then show ?case using 1 by (subst nat_str.simps) auto
qed

lemma Atoi_nat_str:
  assumes "int n < 2 ^ 63"
  shows "Atoi (nat_str n) = Some (int n)"
proof -
  obtain c cs where c: "nat_str n = c # cs" by (cases "nat_str n") auto
  have "c \<noteq> CHR ''-''" "c \<noteq> CHR ''+''" using c nat_str_hd [of n] nat_str_no_plus [of n] by simp_all
  then show ?thesis using assms digits_val_nat_str [of n] by (simp add: Atoi_def c Let_def)
qed

lemma after_last_r_suffix: "CHR ''-'' \<notin> set t \<Longrightarrow> after_last_r (xs @ ''-r'' @ t) = Some t"
proof (induction xs)
  case Nil
  have "CHR ''-'' \<notin> set u \<Longrightarrow> after_last_r u = None" for u by (induction u) auto
  with Nil show ?case by simp
qed simp

lemma after_last_r_none: "CHR ''r'' \<notin> set t \<Longrightarrow> after_last_r t = None"
  by (induction t) (auto split: list.splits)

lemma generation_read_back:
  assumes "0 \<le> g" and "g + 1 < 2 ^ 63" and "g = 0 \<longrightarrow> agent = [] \<and> CHR ''r'' \<notin> set i"
  shows "runGeneration (runObjectMeta_name i g agent) = g + 1"
proof (cases "g = 0")
  case True
  have "after_last_r (''intake-'' @ i) = None" using True assms(3) by (intro after_last_r_none) simp
  then show ?thesis using True assms(3) by (simp add: runObjectMeta_name_def runGeneration_def)
next
  case False
  have "wrap64 (g + 1) = g + 1" using assms by (intro wrap64_id) simp_all
  then have nm: "runObjectMeta_name i g agent = (''intake-'' @ i @ (if agent \<noteq> [] then ''-'' @ agent else [])) @ ''-r'' @ nat_str (nat (g + 1))"
    using False assms(1) by (simp add: runObjectMeta_name_def int_str_def)
  have "Atoi (nat_str (nat (g + 1))) = Some (g + 1)" using Atoi_nat_str [of "nat (g + 1)"] assms by simp
  then show ?thesis unfolding nm runGeneration_def after_last_r_suffix [OF nat_str_no_minus] using assms(1) by simp
qed

text \<open>
  A first Run of a fan-out ends in the agent's name. The name is read as a generation when what
  follows its last \<open>-r\<close>, the hyphen in front of the name included, is a number above one.
\<close>

definition read_as_generation :: "string \<Rightarrow> bool" where
  "read_as_generation agent \<longleftrightarrow>
     (case after_last_r (CHR ''-'' # agent) of None \<Rightarrow> False | Some t \<Rightarrow> (case Atoi t of None \<Rightarrow> False | Some n \<Rightarrow> n > 1))"

lemma after_last_r_append:
  assumes "CHR ''r'' \<notin> set xs"
  shows "after_last_r (xs @ CHR ''-'' # ys) = after_last_r (CHR ''-'' # ys)"
  using assms
proof (induction xs)
  case (Cons x xs)
  have "(case xs @ CHR ''-'' # ys of [] \<Rightarrow> None | d # ds \<Rightarrow> if d = CHR ''r'' then Some ds else None) = None"
    using Cons.prems by (cases xs) auto
  moreover have "after_last_r (xs @ CHR ''-'' # ys) = after_last_r (CHR ''-'' # ys)" using Cons by simp
  ultimately show ?case by (simp only: append_Cons after_last_r.simps(2) [of x]) (simp split: option.split)
qed simp

lemma after_last_r_tail: "after_last_r xs = Some t \<Longrightarrow> \<exists>ys. xs = ys @ ''-r'' @ t"
proof (induction xs)
  case (Cons x xs)
  show ?case
  proof (cases "after_last_r xs")
    case None
    with Cons.prems have "x # xs = [] @ ''-r'' @ t" by (auto split: if_splits list.splits)
    then show ?thesis by (rule exI)
  next
    case (Some u)
    then obtain ys where "xs = ys @ ''-r'' @ t" using Cons by auto
    then have "x # xs = (x # ys) @ ''-r'' @ t" by simp
    then show ?thesis by (rule exI)
  qed
qed simp

definition decimal_digit :: "char \<Rightarrow> bool" where
  "decimal_digit c \<longleftrightarrow> of_char c \<ge> (48 :: int) \<and> of_char c \<le> (57 :: int)"

lemma digits_val_last: "digits_val n s = Some m \<Longrightarrow> s \<noteq> [] \<Longrightarrow> decimal_digit (last s)"
  by (induction s arbitrary: n) (auto simp: decimal_digit_def split: if_splits)

lemma Atoi_last:
  assumes "Atoi t = Some n"
  shows "t \<noteq> []" and "decimal_digit (last t)"
proof -
  define body where "body = (case t of c # cs \<Rightarrow> if c = CHR ''-'' \<or> c = CHR ''+'' then cs else t | [] \<Rightarrow> [])"
  have body: "body \<noteq> []" "digits_val 0 body \<noteq> None"
    using assms by (auto simp: Atoi_def Let_def body_def [symmetric] split: if_splits option.splits)
  then show "t \<noteq> []" by (auto simp: body_def)
  have "last t = last body" using body(1) by (auto simp: body_def split: list.splits if_splits)
  then show "decimal_digit (last t)" using body digits_val_last by fastforce
qed

lemma read_as_generation_last:
  assumes "read_as_generation agent"
  shows "decimal_digit (last agent)"
proof -
  obtain t n where t: "after_last_r (CHR ''-'' # agent) = Some t" and n: "Atoi t = Some n"
    using assms unfolding read_as_generation_def by (metis (no_types, lifting) option.case_eq_if option.exhaust_sel)
  obtain ys where "CHR ''-'' # agent = ys @ ''-r'' @ t" using after_last_r_tail [OF t] by blast
  then have "agent \<noteq> [] \<and> last agent = last t" using Atoi_last(1) [OF n] by (cases ys) auto
  then show ?thesis using Atoi_last(2) [OF n] by simp
qed

lemma first_fanout_generation:
  assumes "CHR ''r'' \<notin> set i" and "agent \<noteq> []"
  shows "runGeneration (runObjectMeta_name i 0 agent) = 1 \<longleftrightarrow> \<not> read_as_generation agent"
proof -
  have "runObjectMeta_name i 0 agent = (''intake-'' @ i) @ CHR ''-'' # agent" using assms(2) by (simp add: runObjectMeta_name_def)
  moreover have "CHR ''r'' \<notin> set (''intake-'' @ i)" using assms(1) by simp
  ultimately have "after_last_r (runObjectMeta_name i 0 agent) = after_last_r (CHR ''-'' # agent)"
    using after_last_r_append [of "''intake-'' @ i" agent] by metis
  then show ?thesis by (auto simp: runGeneration_def read_as_generation_def split: option.splits)
qed

text \<open>
  C38. Generations and Run names. The name of a later Run (the item had g > 0 generations) reads
  back as g + 1, whatever the item id and the agent. The name of a first Run, for an item id with
  no letter r, as a hexadecimal uuid has none, reads back as one when it carries no agent; a first
  fan-out name reads back as one exactly when the agent's name is not itself read as a generation
  above one, which no name that ends in anything but a decimal digit is.
\<close>

theorem generation_round_trip:
  assumes "0 \<le> g" and "g + 1 < 2 ^ 63"
  shows "(g > 0 \<longrightarrow> runGeneration (runObjectMeta_name i g agent) = g + 1) \<and>
    (CHR ''r'' \<notin> set i \<longrightarrow> runGeneration (runObjectMeta_name i 0 []) = 1 \<and>
       (agent \<noteq> [] \<longrightarrow> (runGeneration (runObjectMeta_name i 0 agent) = 1 \<longleftrightarrow> \<not> read_as_generation agent))) \<and>
    (\<not> decimal_digit (last agent) \<longrightarrow> \<not> read_as_generation agent)"
  using generation_read_back [of g agent i] generation_read_back [of 0 "[]" i] assms
    first_fanout_generation [of i agent] read_as_generation_last [of agent] by auto

theorem generation_round_trip_witness:
  "runGeneration (runObjectMeta_name ''4a-7e'' 148 ''sam'') = 149 \<and> runGeneration (runObjectMeta_name ''4a-7e'' 0 []) = 1 \<and>
   runGeneration (runObjectMeta_name ''4a-7e'' 0 ''reviewer'') = 1 \<and> runGeneration (runObjectMeta_name ''4a-7e'' 0 ''coder-r10'') \<noteq> 1"
proof -
  have "\<not> decimal_digit (last ''reviewer'')" by (simp add: decimal_digit_def)
  moreover have "read_as_generation ''coder-r10''" by (simp add: read_as_generation_def Atoi_def)
  ultimately show ?thesis
    using generation_round_trip [of 148 "''4a-7e''" "''sam''"] generation_round_trip [of 148 "''4a-7e''" "''reviewer''"]
      generation_round_trip [of 148 "''4a-7e''" "''coder-r10''"] by simp
qed

lemma fold_raise_gen:
  "g \<le> fold (raise_gen item) runs g \<and> (\<forall>r \<in> set runs. rc_WorkItemRef r = item \<longrightarrow> runGeneration (rc_Name r) \<le> fold (raise_gen item) runs g)"
proof (induction runs arbitrary: g)
  case (Cons r runs)
  have "g \<le> raise_gen item r g" "rc_WorkItemRef r = item \<longrightarrow> runGeneration (rc_Name r) \<le> raise_gen item r g" by (auto simp: raise_gen_def)
  with Cons [of "raise_gen item r g"] show ?case by (auto intro: order_trans)
qed simp

lemma highestGen_bounds:
  "0 \<le> highestGen runs item" "r \<in> set runs \<Longrightarrow> rc_WorkItemRef r = item \<Longrightarrow> runGeneration (rc_Name r) \<le> highestGen runs item"
  using fold_raise_gen [of 0 item runs] by (simp_all add: highestGen_def)

lemma runGeneration_pos: "1 \<le> runGeneration nm"
  by (simp add: runGeneration_def split: option.splits)

lemma mint_name_fresh:
  assumes "highestGen runs item + 1 < 2 ^ 63" and "r \<in> set runs" and "rc_WorkItemRef r = item"
  shows "rc_Name r \<noteq> runObjectMeta_name item (highestGen runs item) agent"
proof
  assume eq: "rc_Name r = runObjectMeta_name item (highestGen runs item) agent"
  have "1 \<le> highestGen runs item" using highestGen_bounds(2) [OF assms(2,3)] runGeneration_pos [of "rc_Name r"] by simp
  then have "runGeneration (rc_Name r) = highestGen runs item + 1" unfolding eq using assms(1) by (intro generation_read_back) simp_all
  then show False using highestGen_bounds(2) [OF assms(2,3)] by simp
qed

section \<open>The transactions\<close>

lemma rearmed_row_sel [simp]: "pc_item (rearmed_row now r) = pc_item r" "pc_fence (rearmed_row now r) = pc_fence r + 1"
  "pc_holder (rearmed_row now r) = pc_holder r" "pc_step (rearmed_row now r) = StepPending" "pc_run (rearmed_row now r) = pc_run r"
  by (simp_all add: rearmed_row_def)

lemma rearm_evolves:
  assumes "wf_prod db"
  shows "db_evolves db (snd (RearmSettled flt now i db))"
proof -
  have "db_evolves db (db\<lparr>pd_claims := upd_key pc_item i (rearm_guard i db) (rearmed_row now) (pd_claims db)\<rparr>)"
    by (rule upd_claims_evolves [OF assms]) simp_all
  then have "db_evolves db (outbox_for_item ''run'' ''reconcile_rearmed'' i None p None (insert_audit a
      (db\<lparr>pd_claims := upd_key pc_item i (rearm_guard i db) (rearmed_row now) (pd_claims db)\<rparr>)))" for p a
    by (auto simp: db_evolves_def fences_kept_def prod_fence_def)
  then show ?thesis using db_evolves_refl [OF assms] by (simp add: RearmSettled_def split: option.splits)
qed

lemma breaker_evolves:
  assumes "wf_prod db"
  shows "db_evolves db (snd (ParkWorkItem flt now i reason db))"
proof -
  let ?db1 = "\<lambda>rs. db\<lparr>pd_items := upd_key pw_id i (\<lambda>w. pw_blocked w = None) (\<lambda>w. w\<lparr>pw_blocked := Some rs, pw_updated := now\<rparr>) (pd_items db)\<rparr>"
  have wf: "wf_prod (?db1 rs)" for rs using assms by simp
  have e: "db_evolves db (?db1 rs)" for rs using wf [of rs] by (auto simp: db_evolves_def fences_kept_def prod_fence_def)
  moreover have "db_evolves db (outbox_for_item ''run'' ''work_item_parked'' i None p None (insert_comment c (insert_audit a (?db1 rs))))" for p c a rs
    using e [of rs] by (auto simp: db_evolves_def fences_kept_def prod_fence_def)
  ultimately show ?thesis using db_evolves_refl [OF assms] by (simp add: ParkWorkItem_def Let_def)
qed

definition benign_intake :: "intake_env \<Rightarrow> bool" where
  "benign_intake env \<longleftrightarrow> (\<forall>i db. wf_prod db \<longrightarrow> db_evolves db (iv_others env i db))"

section \<open>A pass\<close>

lemma intake_item_evolves:
  assumes "benign_intake env" and "wf_prod db"
  shows "db_evolves db (snd (intake_item I env teams runs room item db))"
proof -
  have o: "db_evolves db (iv_others env (it_ID item) db)" using assms by (simp add: benign_intake_def)
  note wf = db_evolves_wf [OF o]
  have p: "db_evolves db (snd (ParkWorkItem flt now i rs (iv_others env (it_ID item) db)))" for flt now i rs
    using db_evolves_trans [OF o breaker_evolves [OF wf]] .
  have r: "db_evolves db (snd (RearmSettled flt now i (iv_others env (it_ID item) db)))" for flt now i
    using db_evolves_trans [OF o rearm_evolves [OF wf]] .
  show ?thesis
    using p r [of "iv_flt env (it_ID item)" "iv_now env (it_ID item)" "it_ID item"] db_evolves_refl [OF assms(2)]
    by (auto simp: intake_item_def Let_def split: prod.splits option.splits)
qed

lemma intake_loop_evolves:
  "benign_intake env \<Longrightarrow> wf_prod db \<Longrightarrow> db_evolves db (snd (intake_loop I env teams runs room items db))"
proof (induction items arbitrary: room db)
  case (Cons item items)
  obtain rs db1 where i: "intake_item I env teams runs room item db = (rs, db1)" by fastforce
  have e: "db_evolves db db1" using intake_item_evolves [OF Cons.prems, of I teams runs room item] i by simp
  from db_evolves_trans [OF e Cons.IH [OF Cons.prems(1) db_evolves_wf [OF e], of "room - length rs"]] db_evolves_refl [OF Cons.prems(2)] i
  show ?case by (auto split: prod.splits)
qed (simp add: db_evolves_refl)

lemma intake_evolves: "benign_intake env \<Longrightarrow> wf_prod db \<Longrightarrow> db_evolves db (snd (intake_sweep I flt env db))"
  by (auto simp: intake_sweep_def db_evolves_refl intake_loop_evolves split: sum.splits)

lemma built_runs_simps [simp]: "built_runs [] = []" "built_runs (Inl e # xs) = built_runs xs" "built_runs (Inr r # xs) = r # built_runs xs"
  by (simp_all add: built_runs_def List.map_filter_def)

lemma built_runs_mem: "r \<in> set (built_runs xs) \<longleftrightarrow> Inr r \<in> set xs"
  by (induction xs) (auto split: sum.splits simp: built_runs_def List.map_filter_def)

lemma built_runs_length: "length (built_runs xs) \<le> length xs"
  by (induction xs) (auto split: sum.splits simp: built_runs_def List.map_filter_def intro: le_SucI)

text \<open>A Run as intake builds it for an item: in the squad's namespace, for an agent of the item's team, under the next name.\<close>

definition built_for :: "TeamCR \<Rightarrow> int \<Rightarrow> IntakeItem \<Rightarrow> RunCR \<Rightarrow> bool" where
  "built_for team gen item r \<longleftrightarrow> rc_WorkItemRef r = it_ID item \<and> rc_Namespace r = tm_StatusNamespace team \<and> rc_Namespace r \<noteq> [] \<and>
     rc_OwnedBy r = IntakePrincipal \<and> (\<exists>a \<in> set (tm_Agents team). map or_Name (rc_Agents r) = [or_Name a]) \<and>
     (\<exists>agent. rc_Name r = runObjectMeta_name (it_ID item) gen agent)"

lemma buildRun_built: "buildRunForAgent env item team gen target fan = Inr r \<Longrightarrow> built_for team gen item r"
  by (auto simp: buildRunForAgent_def built_for_def agentRefForRun_def Let_def find_Some_iff split: if_splits sum.splits option.splits)

lemma runs_for_item_built:
  assumes "r \<in> set (runs_for_item env team gen room item)"
  shows "built_for team gen item r"
proof -
  have "\<exists>target fan. buildRunForAgent env item team gen target fan = Inr r"
    using assms by (auto simp: runs_for_item_def built_runs_mem split: if_splits list.splits) metis+
  then show ?thesis using buildRun_built by blast
qed

lemma runs_for_item_length: "0 < room \<Longrightarrow> length (runs_for_item env team gen room item) \<le> room"
proof -
  assume room: "0 < room"
  have "length (built_runs [x]) \<le> room" for x using built_runs_length [of "[x]"] room by simp
  moreover have "length (built_runs (map f (take room xs))) \<le> room" for f and xs :: "ObjectRef list"
    using built_runs_length [of "map f (take room xs)"] by simp
  ultimately show ?thesis by (auto simp: runs_for_item_def split: list.splits)
qed

lemma intake_item_runs:
  assumes "intake_item I env teams runs room item db = (rs, db')"
  shows "(0 < room \<longrightarrow> length rs \<le> room) \<and> (\<forall>r \<in> set rs. \<not> liveRun runs (it_ID item) \<and> highestGen runs (it_ID item) < maxGenerations I \<and>
     (\<exists>team \<in> set teams. tm_UID team = it_TeamID item \<and> built_for team (highestGen runs (it_ID item)) item r))"
proof (cases "rs = []")
  case False
  obtain team where t: "teamByUID teams (it_TeamID item) = Some team" "rs = runs_for_item env team (highestGen runs (it_ID item)) room item"
      "\<not> liveRun runs (it_ID item)" "highestGen runs (it_ID item) < maxGenerations I"
    using False assms by (auto simp: intake_item_def Let_def split: if_splits prod.splits option.splits)
  have "team \<in> set teams \<and> tm_UID team = it_TeamID item"
    using t(1) by (auto simp: teamByUID_def find_Some_iff) (metis length_rev nth_mem set_rev)
  then show ?thesis using t runs_for_item_built runs_for_item_length by blast
qed simp

lemma intake_loop_runs:
  assumes "intake_loop I env teams runs room items db = (made, db')"
  shows "length made \<le> room \<and> (\<forall>(r, a) \<in> set made. \<exists>item \<in> set items. \<not> liveRun runs (it_ID item) \<and> highestGen runs (it_ID item) < maxGenerations I \<and>
     (\<exists>team \<in> set teams. tm_UID team = it_TeamID item \<and> built_for team (highestGen runs (it_ID item)) item r))"
  using assms
proof (induction items arbitrary: room db made db')
  case (Cons item items)
  show ?case
  proof (cases "room = 0")
    case False
    obtain rs db1 where i: "intake_item I env teams runs room item db = (rs, db1)" by fastforce
    obtain more db2 where l: "intake_loop I env teams runs (room - length rs) items db1 = (more, db2)" by fastforce
    have made: "made = map (\<lambda>r. (r, iv_create env r)) rs @ more" using Cons.prems False i l by simp
    show ?thesis using intake_item_runs [OF i] Cons.IH [OF l] False unfolding made by (fastforce simp: case_prod_beta)
  qed (use Cons.prems in simp)
qed simp

section \<open>Properties\<close>

lemma due_items:
  assumes "DueWorkItems flt limit db = Inr items" and "item \<in> set items"
  shows "\<exists>w \<in> set (pd_items db). due_item db w \<and> it_ID item = pw_id w \<and> pw_team w = Some (it_TeamID item)"
proof -
  let ?due = "take (nat (if limit \<le> 0 then DefaultIntakeMaxPerPass else limit)) (sort_key pw_created (sort_key pw_id (filter (due_item db) (pd_items db))))"
  obtain w where w: "w \<in> set ?due" "it_ID item = pw_id w" "it_TeamID item = coalesce (pw_team w)"
    using assms by (auto simp: DueWorkItems_def split: if_splits)
  have "w \<in> set (filter (due_item db) (pd_items db))" using in_set_takeD [OF w(1)] by simp
  then show ?thesis using w by (auto simp: due_item_def coalesce_def)
qed

text \<open>
  C36. Intake mints only what the board asks for: whatever statements fail and whatever others do, a
  pass asks for at most its limit of Runs, and each is for an item that was due (todo, with a
  team, not blocked, and not a thread item that has already run), in the namespace of the item's
  team and for an agent of it; every listed Run of the item is finished and below the generation
  cap, and none has the name of the new one.
\<close>

theorem mints_are_sound:
  assumes "intake_sweep I flt env db = (made, db')" and "iv_runs env = Inr runs" and "iv_teams env = Inr teams" and "maxGenerations I < 2 ^ 63"
  shows "length made \<le> nat (passLimit I) \<and> (\<forall>(r, a) \<in> set made.
      (\<exists>w \<in> set (pd_items db). pw_id w = rc_WorkItemRef r \<and> due_item db w \<and> (\<exists>team \<in> set teams. pw_team w = Some (tm_UID team) \<and>
         rc_Namespace r = tm_StatusNamespace team \<and> (\<exists>g \<in> set (tm_Agents team). map or_Name (rc_Agents r) = [or_Name g]))) \<and>
      (\<forall>q \<in> set runs. rc_WorkItemRef q = rc_WorkItemRef r \<longrightarrow> runPhaseTerminal (rc_Phase q) \<and> runGeneration (rc_Name q) < maxGenerations I \<and>
         rc_Name q \<noteq> rc_Name r))"
proof (cases "made = []")
  case False
  obtain items where items: "DueWorkItems flt (passLimit I) db = Inr items" and loop: "intake_loop I env teams runs (nat (passLimit I)) items db = (made, db')"
    using assms False by (auto simp: intake_sweep_def split: sum.splits if_splits)
  note made = intake_loop_runs [OF loop]
  show ?thesis
  proof (intro conjI ballI, goal_cases)
    case 1
    then show ?case using made by blast
  next
    case (2 x)
    obtain r a where x: "x = (r, a)" by fastforce
    then obtain item team where it: "item \<in> set items" "\<not> liveRun runs (it_ID item)" "highestGen runs (it_ID item) < maxGenerations I"
        "team \<in> set teams" "tm_UID team = it_TeamID item" and b: "built_for team (highestGen runs (it_ID item)) item r"
      using made 2 by auto
    obtain agent where nm: "rc_Name r = runObjectMeta_name (it_ID item) (highestGen runs (it_ID item)) agent" "rc_WorkItemRef r = it_ID item"
      using b by (auto simp: built_for_def)
    have "runPhaseTerminal (rc_Phase q) \<and> runGeneration (rc_Name q) < maxGenerations I \<and> rc_Name q \<noteq> rc_Name r"
      if q: "q \<in> set runs" "rc_WorkItemRef q = rc_WorkItemRef r" for q
    proof -
      have "rc_Name q \<noteq> rc_Name r" unfolding nm(1) using mint_name_fresh [OF _ q(1), of "it_ID item" agent] it(3) assms(4) q(2) nm(2) by simp
      then show ?thesis using q nm(2) it(2,3) highestGen_bounds(2) [OF q(1), of "it_ID item"] by (force simp: liveRun_def)
    qed
    moreover obtain w where "w \<in> set (pd_items db)" "due_item db w" "it_ID item = pw_id w" "pw_team w = Some (it_TeamID item)"
      using due_items [OF items it(1)] by blast
    ultimately show ?case using it(4,5) b nm(2) unfolding x by (auto simp: built_for_def intro!: bexI [of _ w] bexI [of _ team])
  qed
qed simp

definition quiet_intake :: "intake_env \<Rightarrow> bool" where
  "quiet_intake env \<longleftrightarrow> (\<forall>i. iv_flt env i = (\<lambda>_. False) \<and> iv_others env i = id)"

lemma rearm_settled:
  assumes "wf_prod db" and "claim_row_of db i = Some r" and "item_row_of db i = Some w" and "rearm_guard i db r"
  shows "\<exists>db'. RearmSettled (\<lambda>_. False) now i db = (None, db') \<and> wf_prod db' \<and> claim_row_of db' i = Some (rearmed_row now r) \<and>
    item_row_of db' i = Some w \<and> (\<exists>a. pd_audit db' = pd_audit db @ [a] \<and> au_event a = ''reconcile_rearmed'' \<and> au_fence a = Some (pc_fence r + 1))"
  using assms by (simp add: RearmSettled_def row_key_wf [OF wf_prodD(1)] rearm_audit_def)

text \<open>
  C35. A settled item runs again: for an item back on todo whose claim is settled and released, with
  no live Run and generations left, a healthy pass first re-arms the claim (pending, under a
  fence above every holding of the finished generation, recorded once) and then asks for the next
  Run of the requested agent; that Run is granted the claim and finds the step pending.
\<close>

theorem settled_item_redispatched:
  assumes "quiet_intake env" and "wf_prod db" and "claim_row_of db i = Some r" and "pc_holder r = None" and "IsTerminal (pc_step r)"
    and "item_row_of db i = Some w" and "pw_state w = ''todo''" and "pw_blocked w = None" and "pw_source w \<noteq> Some ''discussion''"
    and "it_ID item = i" and "i \<noteq> []" and "\<not> liveRun runs i" and "highestGen runs i < maxGenerations I" and "teamByUID teams (it_TeamID item) = Some team"
    and "it_RequestedAgent item \<noteq> []" and "teamHasAgent team (it_RequestedAgent item)"
    and "buildRunForAgent env item team (highestGen runs i) (it_RequestedAgent item) False = Inr run"
    and "intake_item I env teams runs room item db = (rs, db')" and "prin \<noteq> []" and "uid \<noteq> []"
  shows "rs = [run] \<and> claim_row_of db' i = Some (rearmed_row (iv_now env i) r) \<and>
    (\<exists>a. pd_audit db' = pd_audit db @ [a] \<and> au_event a = ''reconcile_rearmed'' \<and> au_fence a = Some (pc_fence r + 1)) \<and>
    (\<exists>db'' r'. Claims_Acquire prin (\<lambda>_. False) carrier tg ts i uid agent db' = (Inr (Some (pc_fence r + 2)), db'') \<and>
       claim_row_of db'' i = Some r' \<and> pc_step r' = StepPending \<and> pc_run r' = Some uid)"
proof -
  have wfi: "wf_table pw_id (pd_items db)" using wf_prodD(2) [OF assms(2)] .
  have "settled_row r" using assms(5) by (auto simp: settled_row_def IsTerminal_steps)
  then have G: "rearm_guard i db r" using assms(4,6-9) by (simp add: rearm_guard_def row_key_wf [OF wfi])
  obtain db1 a where r1: "RearmSettled (\<lambda>_. False) (iv_now env i) i db = (None, db1)" "wf_prod db1" "claim_row_of db1 i = Some (rearmed_row (iv_now env i) r)"
      "item_row_of db1 i = Some w" "pd_audit db1 = pd_audit db @ [a]" "au_event a = ''reconcile_rearmed''" "au_fence a = Some (pc_fence r + 1)"
    using rearm_settled [OF assms(2,3,6) G, of "iv_now env i"] by blast
  have eq: "rs = [run]" "db' = db1"
    using assms(1,10,12-18) r1(1) by (auto simp: intake_item_def Let_def quiet_intake_def runs_for_item_def)
  have "lane_ok driveConfig w" using assms(7) by (simp add: lane_ok_def WithOutboxCapture_def DefaultProdConfig_def)
  from acquire_free [OF r1(2,3) _ r1(4) this assms(19,20,11), of carrier tg ts agent] assms(4)
  obtain db2 where acq: "Claims_Acquire prin (\<lambda>_. False) carrier tg ts i uid agent db1 = (Inr (Some (pc_fence r + 2)), db2)" by auto
  then obtain k where "AcquireSpecific driveConfig (\<lambda>_. False) carrier tg ts prin uid i [] agent db1 = (Inr (Some (k, pc_fence r + 2)), db2)"
    by (auto simp: Claims_Acquire_def split: prod.splits sum.splits)
  from AcquireSpecific_granted [OF this r1(2)] r1(3)
  have "\<exists>r'. claim_row_of db2 i = Some r' \<and> pc_step r' = StepPending \<and> pc_run r' = Some uid" by (auto simp: granted_to_def)
  with acq r1 eq show ?thesis by auto
qed

text \<open>
  C37. The circuit breaker holds: a healthy pass over an unblocked item that has used up its
  generations asks for no Run, blocks the item with the reason, recorded and commented once, and
  as long as the block stays no read of the board offers the item again.
\<close>

theorem breaker_parks:
  assumes "quiet_intake env" and "wf_prod db" and "item_row_of db i = Some w" and "pw_blocked w = None" and "it_ID item = i"
    and "\<not> liveRun runs i" and "highestGen runs i \<ge> maxGenerations I" and "intake_item I env teams runs room item db = (rs, db')"
  shows "rs = [] \<and> (\<exists>w' reason. item_row_of db' i = Some w' \<and> pw_blocked w' = Some reason \<and> pw_state w' = pw_state w) \<and>
    pd_claims db' = pd_claims db \<and> (\<exists>a. pd_audit db' = pd_audit db @ [a] \<and> au_event a = ''work_item_parked'' \<and> au_item a = i) \<and>
    (\<exists>c. pd_comments db' = pd_comments db @ [c] \<and> cm_item c = i) \<and>
    (\<forall>db2 w2 flt limit items. wf_prod db2 \<and> item_row_of db2 i = Some w2 \<and> pw_blocked w2 \<noteq> None \<and> DueWorkItems flt limit db2 = Inr items \<longrightarrow>
       i \<notin> it_ID ` set items)"
proof -
  have n: "aff_key pw_id i (\<lambda>w. pw_blocked w = None) (pd_items db) = 1"
    using assms(3,4) by (simp add: aff_key_wf [OF wf_prodD(2) [OF assms(2)]])
  have rs: "rs = []" and db': "db' = snd (ParkWorkItem (\<lambda>_. False) (iv_now env i) i (''retry_circuit_breaker_max_generations_'' @ int_str (maxGenerations I)) db)"
    using assms(1,5-8) by (auto simp: intake_item_def Let_def quiet_intake_def)
  have never: "i \<notin> it_ID ` set items"
    if d: "wf_prod db2" "item_row_of db2 i = Some w2" "pw_blocked w2 \<noteq> None" "DueWorkItems flt limit db2 = Inr items" for db2 w2 flt limit items
  proof
    assume "i \<in> it_ID ` set items"
    then obtain it where "it \<in> set items" "it_ID it = i" by auto
    then obtain v where v: "v \<in> set (pd_items db2)" "due_item db2 v" "pw_id v = i" using due_items [OF d(4)] by metis
    then have "item_row_of db2 i = Some v" using lookup_by_mem [OF wf_prodD(2) [OF d(1)]] by metis
    then show False using v(2) d(2,3) by (simp add: due_item_def)
  qed
  have e: "item_row_of db' i = Some (w\<lparr>pw_blocked := Some (''retry_circuit_breaker_max_generations_'' @ int_str (maxGenerations I)), pw_updated := iv_now env i\<rparr>)"
    "pd_claims db' = pd_claims db" "pd_audit db' = pd_audit db @ [breaker_audit (iv_now env i) i (''retry_circuit_breaker_max_generations_'' @ int_str (maxGenerations I))]"
    "pd_comments db' = pd_comments db @ [breaker_comment (iv_now env i) i (''retry_circuit_breaker_max_generations_'' @ int_str (maxGenerations I))]"
    using n assms(3,4) by (simp_all add: db' ParkWorkItem_def Let_def)
  have "rs = [] \<and> (\<exists>w' reason. item_row_of db' i = Some w' \<and> pw_blocked w' = Some reason \<and> pw_state w' = pw_state w) \<and>
    pd_claims db' = pd_claims db \<and> (\<exists>a. pd_audit db' = pd_audit db @ [a] \<and> au_event a = ''work_item_parked'' \<and> au_item a = i) \<and>
    (\<exists>c. pd_comments db' = pd_comments db @ [c] \<and> cm_item c = i)"
    using rs e by (simp add: breaker_audit_def breaker_comment_def)
  then show ?thesis using never by blast
qed

section \<open>Demonstrations\<close>

definition demo_team :: TeamCR where
  "demo_team = \<lparr>tm_UID = ''t'', tm_Namespace = ''home'', tm_Name = ''T'', tm_StatusNamespace = ''sq'', tm_Agents = [\<lparr>or_Name = ''sam'', or_Namespace = []\<rparr>]\<rparr>"

definition demo_board :: "RunCR list \<Rightarrow> intake_env" where
  "demo_board runs = \<lparr>iv_teams = Inr [demo_team], iv_runs = Inr runs, iv_projects = (\<lambda>_. Inr [\<lparr>pj_UID = ''p'', pj_Namespace = ''sq'', pj_Name = ''P''\<rparr>]),
     iv_getAgent = (\<lambda>ns nm. ns = ''home''), iv_create = (\<lambda>_. Created), iv_flt = (\<lambda>_ _. False), iv_now = (\<lambda>_. 9), iv_others = (\<lambda>_. id)\<rparr>"

definition demo_intake :: Intake where
  "demo_intake = \<lparr>ik_MaxPerPass = 0, ik_MaxGenerations = 0\<rparr>"

definition demo_ticket :: IntakeItem where
  "demo_ticket = \<lparr>it_ID = ''i'', it_TeamID = ''t'', it_ProjectID = ''p'', it_RequestedAgent = ''sam'', it_Source = ''board''\<rparr>"

definition demo_minted :: "string \<Rightarrow> string \<Rightarrow> string \<Rightarrow> RunCR" where
  "demo_minted nm phase src = \<lparr>rc_Name = nm, rc_Namespace = ''sq'', rc_Source = nullable src, rc_TeamRef = \<lparr>or_Name = ''T'', or_Namespace = ''home''\<rparr>,
     rc_ProjectRef = \<lparr>or_Name = ''P'', or_Namespace = []\<rparr>, rc_WorkItemRef = ''i'', rc_Agents = [\<lparr>or_Name = ''sam'', or_Namespace = ''home''\<rparr>],
     rc_OwnedBy = IntakePrincipal, rc_Phase = phase\<rparr>"

definition demo_settled :: prod_db where
  "demo_settled = one_todo\<lparr>pd_claims := [let_go (demo_claim StepFailed)]\<rparr>"

lemma demo_settled_ok [simp]: "wf_prod demo_settled" "claim_row_of demo_settled ''i'' = Some (let_go (demo_claim StepFailed))"
  "item_row_of demo_settled ''i'' = Some (List.hd (pd_items one_todo))" "pw_state (List.hd (pd_items one_todo)) = ''todo''"
  "pw_blocked (List.hd (pd_items one_todo)) = None" "pw_source (List.hd (pd_items one_todo)) = None"
  by (simp_all add: demo_settled_def wf_prod_def wf_table_def one_todo_def)

lemma demo_board_quiet [simp]: "quiet_intake (demo_board runs)" "iv_now (demo_board runs) j = 9" "iv_runs (demo_board runs) = Inr runs" "iv_teams (demo_board runs) = Inr [demo_team]"
  "iv_flt (demo_board runs) j = (\<lambda>_. False)" "iv_others (demo_board runs) j = id" "it_ID demo_ticket = ''i''" "it_RequestedAgent demo_ticket = ''sam''" "it_TeamID demo_ticket = ''t''"
  by (simp_all add: quiet_intake_def demo_board_def demo_ticket_def)

lemma demo_gens [simp]: "maxGenerations demo_intake = 10"
  by (simp add: maxGenerations_def demo_intake_def DefaultMaxGenerations_def)

text \<open>The Run of the second generation, after a first that failed.\<close>

lemma demo_first [simp]: "runGeneration ''intake-i'' = 1" "highestGen [demo_minted ''intake-i'' ph src] ''i'' = 1"
  by (simp_all add: runGeneration_def highestGen_def raise_gen_def demo_minted_def)

lemma demo_second: "runObjectMeta_name ''i'' 1 [] = ''intake-i-r2''"
  by (simp add: runObjectMeta_name_def wrap64_def int_str_def) code_simp

lemma demo_built: "buildRunForAgent (demo_board runs) demo_ticket demo_team 1 ''sam'' False = Inr (demo_minted ''intake-i-r2'' [] ''board'')"
  by (simp add: buildRunForAgent_def demo_team_def demo_ticket_def demo_board_def demo_second [simplified] resolveProject_def resolveAgent_def add_candidate_def
      agentRefForRun_def demo_minted_def)

theorem settled_item_redispatched_witness:
  "\<exists>db' db''. intake_item demo_intake (demo_board [demo_minted ''intake-i'' ''Failed'' ''board'']) [demo_team] [demo_minted ''intake-i'' ''Failed'' ''board''] 1 demo_ticket demo_settled =
     ([demo_minted ''intake-i-r2'' [] ''board''], db') \<and> Claims_Acquire ''op'' (\<lambda>_. False) None 9 9 ''i'' ''u'' [] db' = (Inr (Some 3), db'')"
proof -
  let ?runs = "[demo_minted ''intake-i'' ''Failed'' ''board'']"
  obtain rs db' where i: "intake_item demo_intake (demo_board ?runs) [demo_team] ?runs 1 demo_ticket demo_settled = (rs, db')" by fastforce
  have live: "\<not> liveRun ?runs ''i''" by (simp add: liveRun_def demo_minted_def runPhaseTerminal_def)
  have id: "it_ID demo_ticket = ''i''" "it_RequestedAgent demo_ticket = ''sam''" by (simp_all add: demo_ticket_def)
  have team: "teamByUID [demo_team] (it_TeamID demo_ticket) = Some demo_team" "teamHasAgent demo_team (it_RequestedAgent demo_ticket)"
    by (simp_all add: teamByUID_def demo_team_def demo_ticket_def teamHasAgent_def)
  have built: "buildRunForAgent (demo_board ?runs) demo_ticket demo_team (highestGen ?runs ''i'') (it_RequestedAgent demo_ticket) False =
      Inr (demo_minted ''intake-i-r2'' [] ''board'')" using demo_built by (simp add: id)
  from settled_item_redispatched [OF demo_board_quiet(1) demo_settled_ok(1,2) _ _ demo_settled_ok(3-5) _ id(1) _ live _ team(1) _ team(2) built i, of "''op''" "''u''" None 9 9 "[]"] i
  show ?thesis by (auto simp: id)
qed

lemma demo_mint: "fst (intake_sweep demo_intake (\<lambda>_. False) (demo_board []) one_todo) = [(demo_minted ''intake-i-sam'' [] [], Created)]"
  by code_simp

theorem mints_are_sound_witness:
  "fst (intake_sweep demo_intake (\<lambda>_. False) (demo_board []) one_todo) = [(demo_minted ''intake-i-sam'' [] [], Created)] \<and>
   (\<exists>w \<in> set (pd_items one_todo). pw_id w = ''i'' \<and> due_item one_todo w)"
proof -
  obtain made db' where i: "intake_sweep demo_intake (\<lambda>_. False) (demo_board []) one_todo = (made, db')" by fastforce
  then have made: "made = [(demo_minted ''intake-i-sam'' [] [], Created)]" using demo_mint by simp
  have "maxGenerations demo_intake < 2 ^ 63" by simp
  from mints_are_sound [OF i demo_board_quiet(3,4) this] have "\<exists>w \<in> set (pd_items one_todo). pw_id w = rc_WorkItemRef (demo_minted ''intake-i-sam'' [] []) \<and> due_item one_todo w"
    unfolding made by auto
  then show ?thesis using i made by (simp add: demo_minted_def)
qed

theorem breaker_parks_witness:
  "\<exists>db'. intake_item (demo_intake\<lparr>ik_MaxGenerations := 1\<rparr>) (demo_board []) [demo_team] [demo_minted ''intake-i'' ''Failed'' ''board''] 1 demo_ticket demo_settled = ([], db') \<and>
     pw_blocked (the (item_row_of db' ''i'')) \<noteq> None"
proof -
  let ?runs = "[demo_minted ''intake-i'' ''Failed'' ''board'']"
  obtain rs db' where i: "intake_item (demo_intake\<lparr>ik_MaxGenerations := 1\<rparr>) (demo_board []) [demo_team] ?runs 1 demo_ticket demo_settled = (rs, db')" by fastforce
  have live: "\<not> liveRun ?runs ''i''" by (simp add: liveRun_def demo_minted_def runPhaseTerminal_def)
  have id: "it_ID demo_ticket = ''i''" by (simp add: demo_ticket_def)
  have cap: "highestGen ?runs ''i'' \<ge> maxGenerations (demo_intake\<lparr>ik_MaxGenerations := 1\<rparr>)" by (simp add: maxGenerations_def demo_intake_def)
  from breaker_parks [OF demo_board_quiet(1) demo_settled_ok(1,3,5) id live cap i] i show ?thesis by auto
qed

section \<open>Gaps\<close>

text \<open>A settled claim that is still held is not re-armed, and the Run is asked for all the same.\<close>

lemma minted_over_held_settled_claim:
  "\<exists>rs. intake_item demo_intake (demo_board [demo_minted ''intake-i'' ''Failed'' ''board'']) [demo_team] [demo_minted ''intake-i'' ''Failed'' ''board''] 1 demo_ticket
     (one_todo\<lparr>pd_claims := [demo_claim StepFailed]\<rparr>) = (rs, one_todo\<lparr>pd_claims := [demo_claim StepFailed]\<rparr>) \<and> rs \<noteq> []"
proof -
  let ?runs = "[demo_minted ''intake-i'' ''Failed'' ''board'']" and ?db = "one_todo\<lparr>pd_claims := [demo_claim StepFailed]\<rparr>"
  have "RearmSettled (\<lambda>_. False) 9 ''i'' ?db = (None, ?db)" by (simp add: RearmSettled_def row_key_def sql_row_def rearm_guard_def)
  moreover have "\<not> liveRun ?runs ''i''" by (simp add: liveRun_def demo_minted_def runPhaseTerminal_def)
  moreover have "teamByUID [demo_team] ''t'' = Some demo_team" "teamHasAgent demo_team ''sam''" by (simp_all add: teamByUID_def demo_team_def teamHasAgent_def)
  ultimately show ?thesis using demo_built [of ?runs]
    by (simp add: intake_item_def runs_for_item_def Let_def)
qed

text \<open>An agent's name that ends like a generation is read as one.\<close>

lemma agent_name_read_as_generation: "runGeneration (runObjectMeta_name ''i'' 0 ''coder-r10'') = 10"
  by (simp add: runObjectMeta_name_def runGeneration_def Atoi_def)

end
