(* ===== verification/Operator_Steps.thy ===== *)
theory Operator_Steps
  imports Intake_Laws
begin

text \<open>
  The operator among the other processes: histories in which the transactions of the production
  surface, whole passes of run drivers, whole claim hygiene sweeps and whole passes of ticket intake follow
  each other in any order. They meet the fenced-claims contract of the coordination spine, and a fenced attempt
  stays out.
\<close>

section \<open>Steps\<close>

text \<open>Any process of the production surface takes a step, a driver makes a whole pass, a sweeper a whole sweep, or intake a whole pass.\<close>

inductive operator_step :: "ProdConfig \<Rightarrow> prod_db \<Rightarrow> (string \<times> int) option \<Rightarrow> prod_db \<Rightarrow> bool" for cfg where
  os_tx: "prod_step cfg db g db' \<Longrightarrow> operator_step cfg db g db'"
| os_pass: "Driver_Reconcile D env w = Some (res, w') \<Longrightarrow> benign env \<Longrightarrow> operator_step cfg (wd_db w) None (wd_db w')"
| os_sweep: "(\<And>i. benign_claim (env i)) \<Longrightarrow> operator_step cfg db None (hb_sweep S flt env db)"
| os_intake: "benign_intake env \<Longrightarrow> operator_step cfg db None (snd (intake_sweep I flt env db))"

inductive_cases operator_stepE: "operator_step cfg db g db'"

lemma operator_step_fences:
  assumes "operator_step cfg db g db'" and "wf_prod db"
  shows "fences_kept db db' \<and> (\<forall>i f. g = Some (i, f) \<longrightarrow> prod_fence db i < f \<and> prod_fence db' i = f)"
  using assms(1)
proof (cases rule: operator_step.cases)
  case os_tx
  then show ?thesis using prod_step_fences assms(2) by blast
next
  case (os_pass D env w res w')
  then show ?thesis using pass_evolves assms(2) by (auto simp: db_evolves_def)
next
  case os_sweep
  then show ?thesis using sweep_evolves assms(2) by (auto simp: db_evolves_def)
next
  case os_intake
  then show ?thesis using intake_evolves assms(2) by (auto simp: db_evolves_def)
qed

interpretation operators: fenced_claims wf_prod prod_fence "operator_step cfg" for cfg
  by unfold_locales (use operator_step_fences [unfolded fences_kept_def] in blast)+

text \<open>
  C26. A fenced attempt stays out: once a re-entry has fenced an attempt, whatever claims, heartbeats,
  advances, kills, lane moves and settlements follow, by any processes and with any number of
  passes of drivers, sweeps of sweepers and passes of intake among them, the attempt's renewals
  under its old fence are refused, no re-entry from that fence is accepted again, and a drive
  under it changes neither the step nor the audit of the Run.
\<close>

theorem fenced_attempt_stays_out:
  assumes "wf_prod db" and "enter prin flt now item run ev fence st prk db = (Inr (Some f), db1)" and "operators.run cfg db1 gs db2"
  shows "(\<forall>p tg ts rn. Claims_Renew p (\<lambda>_. False) tg ts item rn fence db2 = (Inr False, db2)) \<and>
    (\<forall>p ft t rn e s k g. fst (enter p ft t item rn e fence s k db2) \<noteq> Inr (Some g)) \<and>
    (\<forall>B env opt w s e w' s'. rs_workItemID B = item \<and> st_db s = db2 \<and> run_inv B s \<and> Durable opt \<and> Fence opt = fence \<and>
       Reconcile E (prodStore B env) opt w s = Some (e, w', s') \<longrightarrow> run_step B s' = run_step B s \<and> run_audit B s' = run_audit B s)"
proof -
  have e: "wf_prod db1 \<and> fence < prod_fence db1 item"
  proof (rule enter_effect [OF assms(2,1)])
    fix r assume "enter_guard fence r" "wf_prod db1"
      and "\<And>j. claim_row_of db1 j = (if j = item then Some (entered_row now st r) else claim_row_of db j)"
    then show ?thesis using enter_guard_live [of fence r] by (simp add: prod_fence_def)
  qed
  have wf: "wf_prod db2" using operators.run_inv [OF assms(3)] e by blast
  have above: "fence < prod_fence db2 item" using operators.run_bounds(1) [OF assms(3), of item] e by simp
  then have no: "\<not> (\<exists>r. claim_row_of db2 item = Some r \<and> pc_fence r = fence)" by (auto simp: prod_fence_def)
  have "Claims_Renew p (\<lambda>_. False) tg ts item rn fence db2 = (Inr False, db2)" for p tg ts rn
    using Claims_Renew_stale [OF wf] no by blast
  moreover have "fst (enter p ft t item rn e fence s k db2) \<noteq> Inr (Some g)" for p ft t rn e s k g
  proof
    assume "fst (enter p ft t item rn e fence s k db2) = Inr (Some g)"
    then obtain db' where "enter p ft t item rn e fence s k db2 = (Inr (Some g), db')" by (metis prod.collapse)
    from enter_cases [OF this wf] show False using no enter_guard_live by metis
  qed
  moreover have "run_step B s' = run_step B s \<and> run_audit B s' = run_audit B s"
    if "rs_workItemID B = item" "st_db s = db2" "run_inv B s" "Durable opt" "Fence opt = fence"
      "Reconcile E (prodStore B env) opt w s = Some (e, w', s')" for B env opt w s e w' s'
  proof -
    have "run_fence B s \<noteq> fence" using above that(1,2) by (simp add: run_fence_def)
    with prod.zombie_drive [OF that(3,6,4)] that(5) show ?thesis by simp
  qed
  ultimately show ?thesis by blast
qed

theorem fenced_attempt_stays_out_witness:
  "\<exists>db1 db2 res w'. enter ''op'' (\<lambda>_. False) 9 ''i'' ''r'' ''retry_lap_entered'' 1 StepClaimingSandbox [] (wd_db (demo_world (demo_claim StepRunning) [])) = (Inr (Some 2), db1) \<and>
     Driver_Reconcile demo_driver (demo_pass 10) ((demo_world (demo_claim StepRunning) [])\<lparr>wd_db := db1\<rparr>) = Some (res, w') \<and> wd_db w' = db2 \<and>
     Claims_Renew ''op'' (\<lambda>_. False) 10 10 ''i'' ''r'' 1 db2 = (Inr False, db2)"
proof -
  let ?w = "demo_world (demo_claim StepRunning) []"
  have "\<exists>db'. enter ''op'' (\<lambda>_. False) 9 ''i'' ''r'' ''retry_lap_entered'' 1 StepClaimingSandbox [] (wd_db ?w) = (Inr (Some (1 + 1)), db')"
    by (rule enter_healthy [OF demo_world_wf, where r = "demo_claim StepRunning"]) (simp_all add: enter_guard_def)
  then obtain db1 where e: "enter ''op'' (\<lambda>_. False) 9 ''i'' ''r'' ''retry_lap_entered'' 1 StepClaimingSandbox [] (wd_db ?w) = (Inr (Some 2), db1)"
    by auto
  obtain res w' where p: "Driver_Reconcile demo_driver (demo_pass 10) (?w\<lparr>wd_db := db1\<rparr>) = Some (res, w')"
    using pass_total by blast
  have "benign (demo_pass 10)" by (simp add: benign_def db_evolves_refl)
  from os_pass [OF p this] have "operators.run DefaultProdConfig db1 [] (wd_db w')"
    using operators.run_quiet [OF operators.run_refl] by simp
  then have "Claims_Renew ''op'' (\<lambda>_. False) 10 10 ''i'' ''r'' 1 (wd_db w') = (Inr False, wd_db w')"
    using fenced_attempt_stays_out [OF demo_world_wf e, of DefaultProdConfig "[]" "wd_db w'" worldEffects] by simp
  with e p show ?thesis by (intro exI [of _ db1] exI [of _ "wd_db w'"] exI [of _ res] exI [of _ w']) simp
qed

end
