(* ===== verification/Warm_Adopt.thy ===== *)
theory Warm_Adopt
  imports Warm_Pool Heartbeat_Sweep
begin

text \<open>
  The warm pool over a restart (pkg/warmpool/adopt.go): the sandbox pods a previous leader left are
  adopted as warmth, left to the Run that owns them or deleted, and two sweeps delete the pods
  whose Run has settled or ended. The listed pods, the answers to the reads of Secrets and to the
  deletes, the settlement reader, the follow oracle and the pool's clock are arguments.
\<close>

section \<open>Pods\<close>

text \<open>A condition has its type, whether its status is True, and the time of its last transition.\<close>

record sandbox_pod =
  sp_Name :: string
  sp_Namespace :: string
  sp_Ann :: "(string \<times> string) list"
  sp_Deleting :: bool
  sp_Created :: instant
  sp_Conditions :: "(string \<times> bool \<times> instant option) list"

definition AnnPoolRuntimeClass :: string where "AnnPoolRuntimeClass = ''k8squad.io/pool-runtime-class''"
definition AnnPoolImage :: string where "AnnPoolImage = ''k8squad.io/pool-image''"
definition AnnPoolNamespace :: string where "AnnPoolNamespace = ''k8squad.io/pool-namespace''"
definition AnnPoolCapabilityHash :: string where "AnnPoolCapabilityHash = ''k8squad.io/pool-capability-hash''"
definition AnnPoolProjectPVC :: string where "AnnPoolProjectPVC = ''k8squad.io/pool-project-pvc''"
definition AnnRunID :: string where "AnnRunID = ''k8squad.io/run-id''"

definition runIDFromPod :: "sandbox_pod \<Rightarrow> string" where
  "runIDFromPod pod = coalesce (map_of (sp_Ann pod) AnnRunID)"

definition poolKeyFromAnnotations :: "sandbox_pod \<Rightarrow> PoolKey option" where
  "poolKeyFromAnnotations pod =
     (let ann = map_of (sp_Ann pod) in
      case (ann AnnPoolRuntimeClass, ann AnnPoolImage, ann AnnPoolNamespace, ann AnnPoolCapabilityHash, ann AnnPoolProjectPVC) of
        (Some rc, Some img, Some ns, Some ch, Some pvc) \<Rightarrow>
          Some \<lparr>RuntimeClass = rc, Image = img, Namespace = ns, CapabilityHash = ch, ProjectPVC = pvc\<rparr>
      | _ \<Rightarrow> None)"

definition podReady :: "sandbox_pod \<Rightarrow> bool" where
  "podReady pod = (case List.find (\<lambda>c. fst c = ''Ready'') (sp_Conditions pod) of None \<Rightarrow> False | Some c \<Rightarrow> fst (snd c))"

definition podReadySince :: "sandbox_pod \<Rightarrow> instant option" where
  "podReadySince pod = (case List.find (\<lambda>c. fst c = ''Ready'') (sp_Conditions pod) of None \<Rightarrow> None | Some c \<Rightarrow> snd (snd c))"

datatype api_answer = AnswerOk | AnswerNotFound | AnswerErr string

record adopt_env =
  ae_pods :: "string + sandbox_pod list"
  ae_secret :: "sandbox_pod \<Rightarrow> api_answer"
  ae_delete :: "sandbox_pod \<Rightarrow> api_answer"
  ae_settled :: "(string \<Rightarrow> string + bool) option"
  ae_following :: "(string \<Rightarrow> bool) option"
  ae_now :: "sandbox_pod \<Rightarrow> instant"

section \<open>Reaping\<close>

definition reapPod :: "adopt_env \<Rightarrow> sandbox_pod \<Rightarrow> string option" where
  "reapPod env pod = (case ae_delete env pod of AnswerErr e \<Rightarrow> Some (''warmpool.AdoptOrReap: reap: '' @ e) | _ \<Rightarrow> None)"

definition reapIfSettled :: "adopt_env \<Rightarrow> sandbox_pod \<Rightarrow> string + bool" where
  "reapIfSettled env pod =
     (case (ae_settled env, ae_following env) of
        (Some settled, Some following) \<Rightarrow>
          (let runID = runIDFromPod pod in
           if runID = [] then Inr False
           else case settled runID of
             Inl e \<Rightarrow> Inl (''warmpool: settlement check for run '' @ runID @ '': '' @ e)
           | Inr False \<Rightarrow> Inr False
           | Inr True \<Rightarrow>
               if following runID then Inr False
               else (case reapPod env pod of Some e \<Rightarrow> Inl e | None \<Rightarrow> Inr True))
      | _ \<Rightarrow> Inr False)"

text \<open>What a pass reports, the errors it collects, the pods it deleted and the pool after it.\<close>

record adopt_state =
  as_Adopted :: nat
  as_Reaped :: nat
  as_LeftRunOwned :: nat
  as_errs :: "string list"
  as_deleted :: "sandbox_pod list"
  as_pool :: Pool

definition count_reaped :: "sandbox_pod \<Rightarrow> adopt_state \<Rightarrow> adopt_state" where
  "count_reaped pod s = s\<lparr>as_Reaped := as_Reaped s + 1, as_deleted := as_deleted s @ [pod]\<rparr>"

definition note_err :: "string \<Rightarrow> adopt_state \<Rightarrow> adopt_state" where
  "note_err e s = s\<lparr>as_errs := as_errs s @ [e]\<rparr>"

definition settle_check :: "adopt_env \<Rightarrow> sandbox_pod \<Rightarrow> adopt_state \<Rightarrow> adopt_state" where
  "settle_check env pod s =
     (case reapIfSettled env pod of
        Inl e \<Rightarrow> note_err e s
      | Inr True \<Rightarrow> count_reaped pod s
      | Inr False \<Rightarrow> s\<lparr>as_LeftRunOwned := as_LeftRunOwned s + 1\<rparr>)"

definition reap_counted :: "adopt_env \<Rightarrow> sandbox_pod \<Rightarrow> adopt_state \<Rightarrow> adopt_state" where
  "reap_counted env pod s = (case reapPod env pod of Some e \<Rightarrow> note_err e s | None \<Rightarrow> count_reaped pod s)"

section \<open>Adoption\<close>

definition adopt_one :: "adopt_env \<Rightarrow> PoolKey list \<Rightarrow> sandbox_pod \<Rightarrow> adopt_state \<Rightarrow> adopt_state" where
  "adopt_one env managed pod s =
     (if sp_Deleting pod then s
      else case poolKeyFromAnnotations pod of
        None \<Rightarrow> reap_counted env pod s
      | Some key \<Rightarrow>
          if key \<notin> set managed then reap_counted env pod s
          else (case ae_secret env pod of
                  AnswerOk \<Rightarrow> settle_check env pod s
                | AnswerErr e \<Rightarrow> note_err (''warmpool.AdoptOrReap: check task-io secret: '' @ e) s
                | AnswerNotFound \<Rightarrow>
                    if podReady pod then
                      (case Adopt \<lparr>SB_ID = sp_Name pod, SB_Key = key, SB_State = StateWarming, SB_BoundRun = [],
                                   SB_CreatedAt = Some (sp_Created pod), SB_ReadyAt = podReadySince pod\<rparr> (ae_now env pod) (as_pool s) of
                         (True, p) \<Rightarrow> s\<lparr>as_Adopted := as_Adopted s + 1, as_pool := p\<rparr>
                       | (False, p) \<Rightarrow> s\<lparr>as_pool := p\<rparr>)
                    else reap_counted env pod s))"

definition fresh_state :: "Pool \<Rightarrow> adopt_state" where
  "fresh_state p = \<lparr>as_Adopted = 0, as_Reaped = 0, as_LeftRunOwned = 0, as_errs = [], as_deleted = [], as_pool = p\<rparr>"

definition AdoptOrReap :: "adopt_env \<Rightarrow> PoolKey list \<Rightarrow> Pool \<Rightarrow> string + adopt_state" where
  "AdoptOrReap env managed p =
     (case ae_pods env of
        Inl e \<Rightarrow> Inl (''warmpool.AdoptOrReap: list sandbox pods: '' @ e)
      | Inr pods \<Rightarrow> Inr (fold (adopt_one env managed) (sort_key sp_Created pods) (fresh_state p)))"

section \<open>Sweeps\<close>

definition sweep_settled_one :: "adopt_env \<Rightarrow> PoolKey list \<Rightarrow> sandbox_pod \<Rightarrow> adopt_state \<Rightarrow> adopt_state" where
  "sweep_settled_one env managed pod s =
     (if sp_Deleting pod then s
      else case poolKeyFromAnnotations pod of
        None \<Rightarrow> s
      | Some key \<Rightarrow>
          if key \<notin> set managed then s
          else (case ae_secret env pod of
                  AnswerNotFound \<Rightarrow> s
                | AnswerErr e \<Rightarrow> note_err (''warmpool.SweepSettledRunOwned: check task-io secret: '' @ e) s
                | AnswerOk \<Rightarrow> settle_check env pod s))"

definition SweepSettledRunOwned :: "adopt_env \<Rightarrow> PoolKey list \<Rightarrow> Pool \<Rightarrow> string + adopt_state" where
  "SweepSettledRunOwned env managed p =
     (if ae_settled env = None \<or> ae_following env = None then Inr (fresh_state p)
      else case ae_pods env of
        Inl e \<Rightarrow> Inl (''warmpool.SweepSettledRunOwned: list sandbox pods: '' @ e)
      | Inr pods \<Rightarrow> Inr (fold (sweep_settled_one env managed) pods (fresh_state p)))"

text \<open>\<open>oracle\<close> is the Run reader of the heartbeat sweep, \<open>runs\<close> the answer to its list for a Run.\<close>

definition sweep_terminal_one :: "adopt_env \<Rightarrow> (string \<Rightarrow> string + bool) \<Rightarrow> sandbox_pod \<Rightarrow> adopt_state \<Rightarrow> adopt_state" where
  "sweep_terminal_one env oracle pod s =
     (if sp_Deleting pod then s
      else let runID = runIDFromPod pod in
        if runID = [] then s
        else case oracle runID of
          Inl e \<Rightarrow> note_err (''warmpool.SweepTerminalRunOwned: run phase for '' @ runID @ '': '' @ e) s
        | Inr False \<Rightarrow> s\<lparr>as_LeftRunOwned := as_LeftRunOwned s + 1\<rparr>
        | Inr True \<Rightarrow> reap_counted env pod s)"

definition SweepTerminalRunOwned :: "adopt_env \<Rightarrow> (string \<Rightarrow> string + bool) option \<Rightarrow> Pool \<Rightarrow> string + adopt_state" where
  "SweepTerminalRunOwned env oracle p =
     (case oracle of
        None \<Rightarrow> Inr (fresh_state p)
      | Some orc \<Rightarrow>
          (case ae_pods env of
             Inl e \<Rightarrow> Inl (''warmpool.SweepTerminalRunOwned: list sandbox pods: '' @ e)
           | Inr pods \<Rightarrow> Inr (fold (sweep_terminal_one env orc) pods (fresh_state p))))"

section \<open>What becomes of a pod\<close>

text \<open>Adopted: a Ready pod of a managed key that no Run has claimed.\<close>

definition adoptable :: "adopt_env \<Rightarrow> PoolKey list \<Rightarrow> PoolKey \<Rightarrow> sandbox_pod \<Rightarrow> bool" where
  "adoptable env managed key pod \<longleftrightarrow> \<not> sp_Deleting pod \<and> poolKeyFromAnnotations pod = Some key \<and> key \<in> set managed \<and>
     ae_secret env pod = AnswerNotFound \<and> podReady pod"

text \<open>Leaked: the Run's task has settled and nobody follows it here.\<close>

definition leaked :: "adopt_env \<Rightarrow> sandbox_pod \<Rightarrow> bool" where
  "leaked env pod \<longleftrightarrow> runIDFromPod pod \<noteq> [] \<and>
     (\<exists>settled following. ae_settled env = Some settled \<and> ae_following env = Some following \<and>
        settled (runIDFromPod pod) = Inr True \<and> \<not> following (runIDFromPod pod))"

lemma count_sel [simp]: "as_pool (count_reaped pod s) = as_pool s" "as_deleted (count_reaped pod s) = as_deleted s @ [pod]"
  "as_pool (note_err e s) = as_pool s" "as_deleted (note_err e s) = as_deleted s"
  by (simp_all add: count_reaped_def note_err_def)

lemma reap_counted_sel [simp]: "as_pool (reap_counted env pod s) = as_pool s"
  "as_deleted (reap_counted env pod s) = as_deleted s @ (if reapPod env pod = None then [pod] else [])"
  by (simp_all add: reap_counted_def split: option.splits)

lemma settle_check_sel: "as_pool (settle_check env pod s) = as_pool s" "as_deleted (settle_check env pod s) = as_deleted s @ ds \<Longrightarrow> d \<in> set ds \<Longrightarrow> d = pod \<and> leaked env pod"
proof -
  show "as_pool (settle_check env pod s) = as_pool s" by (simp add: settle_check_def split: sum.splits bool.splits)
  assume a: "as_deleted (settle_check env pod s) = as_deleted s @ ds" "d \<in> set ds"
  have "reapIfSettled env pod = Inr True"
    using a by (cases "reapIfSettled env pod") (auto simp: settle_check_def split: bool.splits)
  then have "leaked env pod"
    by (auto simp: reapIfSettled_def leaked_def Let_def split: option.splits if_splits sum.splits bool.splits)
  moreover have "ds = [pod]" using a \<open>reapIfSettled env pod = Inr True\<close> by (simp add: settle_check_def)
  ultimately show "d = pod \<and> leaked env pod" using a(2) by simp
qed

lemma Adopt_sel:
  assumes "Pool.entries p (SB_ID sb) = None"
  shows "fst (Adopt sb now p)" "byRun (snd (Adopt sb now p)) = byRun p"
    "ready (snd (Adopt sb now p)) k = ready p k @ (if k = SB_Key sb then [SB_ID sb] else [])"
    "Pool.entries (snd (Adopt sb now p)) i = None \<longleftrightarrow> Pool.entries p i = None \<and> i \<noteq> SB_ID sb"
  using assms by (auto simp: Adopt_def new_at_def set_ready_def track_def)

lemma adopt_one_cases:
  obtains (adopted) key sb where "adoptable env managed key pod" "SB_ID sb = sp_Name pod" "SB_Key sb = key"
      "as_pool (adopt_one env managed pod s) = snd (Adopt sb (ae_now env pod) (as_pool s))" "as_deleted (adopt_one env managed pod s) = as_deleted s"
  | (other) "\<And>key. \<not> adoptable env managed key pod" "as_pool (adopt_one env managed pod s) = as_pool s"
proof (cases "\<exists>key. adoptable env managed key pod")
  case True
  then obtain key where key: "adoptable env managed key pod" by blast
  let ?sb = "\<lparr>SB_ID = sp_Name pod, SB_Key = key, SB_State = StateWarming, SB_BoundRun = [], SB_CreatedAt = Some (sp_Created pod), SB_ReadyAt = podReadySince pod\<rparr>"
  have "as_pool (adopt_one env managed pod s) = snd (Adopt ?sb (ae_now env pod) (as_pool s))" "as_deleted (adopt_one env managed pod s) = as_deleted s"
    using key by (auto simp: adopt_one_def adoptable_def split: prod.splits bool.splits)
  then show thesis using adopted key by (metis Sandbox.select_convs(1,2))
next
  case False
  then have "as_pool (adopt_one env managed pod s) = as_pool s"
    by (auto simp: adopt_one_def adoptable_def settle_check_sel(1) split: option.splits api_answer.splits)
  then show thesis using other False by blast
qed

lemma adopt_one_deleted:
  "\<exists>ds. as_deleted (adopt_one env managed pod s) = as_deleted s @ ds \<and> (\<forall>d \<in> set ds. d = pod \<and> \<not> sp_Deleting pod \<and>
     (\<forall>k. poolKeyFromAnnotations pod = Some k \<and> k \<in> set managed \<longrightarrow>
        ae_secret env pod = AnswerOk \<and> leaked env pod \<or> ae_secret env pod = AnswerNotFound \<and> \<not> podReady pod))"
proof -
  have sc: "\<exists>ds. as_deleted (settle_check env pod s) = as_deleted s @ ds \<and> (\<forall>d \<in> set ds. d = pod \<and> leaked env pod)"
  proof -
    have "as_deleted (settle_check env pod s) = as_deleted s @ (if reapIfSettled env pod = Inr True then [pod] else [])"
      by (simp add: settle_check_def split: sum.splits bool.splits)
    then show ?thesis using settle_check_sel(2) by blast
  qed
  show ?thesis
  proof (cases "sp_Deleting pod \<or> (\<exists>key. adoptable env managed key pod)")
    case True
    then have "as_deleted (adopt_one env managed pod s) = as_deleted s"
      by (cases rule: adopt_one_cases [of env managed pod s]) (auto simp: adopt_one_def)
    then show ?thesis by simp
  next
    case False
    then show ?thesis using sc
      by (cases "poolKeyFromAnnotations pod"; cases "ae_secret env pod") (auto simp: adopt_one_def adoptable_def)
  qed
qed

lemma adopt_fold:
  assumes "distinct (map sp_Name ps)" and "\<forall>pod \<in> set ps. Pool.entries (as_pool s) (sp_Name pod) = None"
  shows "byRun (as_pool (fold (adopt_one env managed) ps s)) = byRun (as_pool s) \<and>
    ready (as_pool (fold (adopt_one env managed) ps s)) k = ready (as_pool s) k @ map sp_Name (filter (adoptable env managed k) ps)"
  using assms
proof (induction ps arbitrary: s)
  case (Cons pod ps)
  let ?s = "adopt_one env managed pod s"
  have free: "Pool.entries (as_pool s) (sp_Name pod) = None" using Cons.prems(2) by simp
  have step: "byRun (as_pool ?s) = byRun (as_pool s) \<and> ready (as_pool ?s) k = ready (as_pool s) k @ (if adoptable env managed k pod then [sp_Name pod] else []) \<and>
      (\<forall>i. i \<noteq> sp_Name pod \<longrightarrow> Pool.entries (as_pool s) i = None \<longrightarrow> Pool.entries (as_pool ?s) i = None)"
  proof (cases rule: adopt_one_cases [of env managed pod s])
    case (adopted key sb)
    have "adoptable env managed k pod \<longleftrightarrow> k = key" using adopted(1) by (auto simp: adoptable_def)
    then show ?thesis using adopted Adopt_sel [of "as_pool s" sb "ae_now env pod"] free by simp
  next
    case other
    then show ?thesis by simp
  qed
  have "\<forall>q \<in> set ps. Pool.entries (as_pool ?s) (sp_Name q) = None"
  proof
    fix q assume q: "q \<in> set ps"
    then have "sp_Name q \<noteq> sp_Name pod" using Cons.prems(1) by (metis distinct.simps(2) image_eqI list.set_map list.simps(9))
    then show "Pool.entries (as_pool ?s) (sp_Name q) = None" using step Cons.prems(2) q by simp
  qed
  then show ?case using Cons.IH [of ?s] Cons.prems(1) step by simp
qed simp

lemma fold_deleted:
  assumes "\<And>pod s. \<exists>ds. as_deleted (f pod s) = as_deleted s @ ds \<and> (\<forall>d \<in> set ds. d = pod \<and> Q pod)" and "d \<in> set (as_deleted (fold f ps s))"
  shows "d \<in> set (as_deleted s) \<or> d \<in> set ps \<and> Q d"
  using assms(2)
proof (induction ps arbitrary: s)
  case (Cons pod ps)
  obtain ds where "as_deleted (f pod s) = as_deleted s @ ds" "\<forall>d \<in> set ds. d = pod \<and> Q pod" using assms(1) by blast
  with Cons show ?case by fastforce
qed simp

section \<open>Properties\<close>

text \<open>
  C39. A restart keeps what is warm and what a Run may own: on a fresh pool the pass over the pods a
  previous leader left, whatever the API server answers, makes claimable exactly the Ready pods
  of managed keys that no Run has claimed, in the order of their creation, binds no Run, and of
  the pods of managed keys deletes only those whose Run has settled and is not followed, or that
  no Run has claimed and are not Ready.
\<close>

theorem adoption_exact:
  assumes "AdoptOrReap env managed (NewPool prov) = Inr s" and "ae_pods env = Inr pods" and "distinct (map sp_Name pods)"
  shows "(\<forall>k. ready (as_pool s) k = map sp_Name (filter (adoptable env managed k) (sort_key sp_Created pods))) \<and> (\<forall>run. byRun (as_pool s) run = None) \<and>
    (\<forall>d \<in> set (as_deleted s). d \<in> set pods \<and> \<not> sp_Deleting d \<and> (\<forall>k. poolKeyFromAnnotations d = Some k \<and> k \<in> set managed \<longrightarrow>
       ae_secret env d = AnswerOk \<and> leaked env d \<or> ae_secret env d = AnswerNotFound \<and> \<not> podReady d))"
proof -
  let ?ps = "sort_key sp_Created pods"
  have s: "s = fold (adopt_one env managed) ?ps (fresh_state (NewPool prov))" using assms(1,2) by (simp add: AdoptOrReap_def)
  have "distinct (map sp_Name ?ps)" using assms(3) by (metis distinct_map distinct_sort set_sort)
  then have pool: "byRun (as_pool s) = (\<lambda>_. None)" "ready (as_pool s) k = map sp_Name (filter (adoptable env managed k) ?ps)" for k
    using adopt_fold [of ?ps "fresh_state (NewPool prov)" env managed k] by (simp_all add: s fresh_state_def NewPool_def)
  let ?Q = "\<lambda>d. \<not> sp_Deleting d \<and> (\<forall>k. poolKeyFromAnnotations d = Some k \<and> k \<in> set managed \<longrightarrow>
       ae_secret env d = AnswerOk \<and> leaked env d \<or> ae_secret env d = AnswerNotFound \<and> \<not> podReady d)"
  have "d \<in> set pods \<and> ?Q d" if "d \<in> set (as_deleted s)" for d
    using fold_deleted [of "adopt_one env managed" ?Q d ?ps, OF adopt_one_deleted that [unfolded s]] by (simp add: fresh_state_def)
  then show ?thesis using pool by simp
qed

lemma settled_sweep_deleted:
  "as_pool (sweep_settled_one env managed pod s) = as_pool s \<and> (\<exists>ds. as_deleted (sweep_settled_one env managed pod s) = as_deleted s @ ds \<and>
     (\<forall>d \<in> set ds. d = pod \<and> ae_secret env pod = AnswerOk \<and> leaked env pod))"
proof -
  have "as_deleted (settle_check env pod s) = as_deleted s @ (if reapIfSettled env pod = Inr True then [pod] else [])"
    by (simp add: settle_check_def split: sum.splits bool.splits)
  then have "\<exists>ds. as_deleted (settle_check env pod s) = as_deleted s @ ds \<and> (\<forall>d \<in> set ds. d = pod \<and> leaked env pod)" using settle_check_sel(2) by blast
  then show ?thesis using settle_check_sel(1) by (auto simp: sweep_settled_one_def split: option.splits api_answer.splits)
qed

lemma terminal_sweep_deleted:
  "as_pool (sweep_terminal_one env oracle pod s) = as_pool s \<and> (\<exists>ds. as_deleted (sweep_terminal_one env oracle pod s) = as_deleted s @ ds \<and>
     (\<forall>d \<in> set ds. d = pod \<and> runIDFromPod pod \<noteq> [] \<and> oracle (runIDFromPod pod) = Inr True))"
  by (auto simp: sweep_terminal_one_def Let_def split: sum.splits bool.splits)

lemma fresh_sel [simp]: "as_deleted (fresh_state p) = []" "as_pool (fresh_state p) = p"
  by (simp_all add: fresh_state_def)

lemma fold_pool: "(\<And>pod s. as_pool (f pod s) = as_pool s) \<Longrightarrow> as_pool (fold f ps s) = as_pool s"
  by (induction ps arbitrary: s) simp_all

text \<open>
  C40. The sweeps delete only what is finished: whatever the API server answers, neither sweep touches
  the pool; the settlement sweep deletes only pods that a Run has claimed and whose Run has
  settled and is not followed here, and the terminal sweep, with the Run reader of the operator,
  only pods of a Run that the answered list does not hold or holds in a terminal phase.
\<close>

theorem sweeps_reap_only_finished:
  assumes "SweepSettledRunOwned env managed p = Inr s" and "SweepTerminalRunOwned env (Some (\<lambda>run. TerminalOrGone l (runs run) run)) p = Inr t" and "lv_Reader l"
  shows "as_pool s = p \<and> as_pool t = p \<and> (\<forall>d \<in> set (as_deleted s). ae_secret env d = AnswerOk \<and> leaked env d) \<and>
    (\<forall>d \<in> set (as_deleted t). \<exists>rs. runs (runIDFromPod d) = Inr rs \<and>
       (case List.find (\<lambda>r. lr_UID r = runIDFromPod d) rs of None \<Rightarrow> True | Some r \<Rightarrow> lr_Phase r \<in> {''Succeeded'', ''Failed'', ''Cancelled''}))"
proof -
  let ?orc = "\<lambda>run. TerminalOrGone l (runs run) run"
  have s: "as_pool s = p \<and> (\<forall>d \<in> set (as_deleted s). ae_secret env d = AnswerOk \<and> leaked env d)"
  proof (cases "\<exists>pods. ae_pods env = Inr pods \<and> s = fold (sweep_settled_one env managed) pods (fresh_state p)")
    case True
    then obtain pods where eq: "s = fold (sweep_settled_one env managed) pods (fresh_state p)" by blast
    have "\<And>pod s. \<exists>ds. as_deleted (sweep_settled_one env managed pod s) = as_deleted s @ ds \<and> (\<forall>d \<in> set ds. d = pod \<and> ae_secret env pod = AnswerOk \<and> leaked env pod)"
      using settled_sweep_deleted by blast
    note del = fold_deleted [of "sweep_settled_one env managed" "\<lambda>d. ae_secret env d = AnswerOk \<and> leaked env d", OF this]
    have "ae_secret env d = AnswerOk \<and> leaked env d" if "d \<in> set (as_deleted s)" for d
      using del [of d pods "fresh_state p"] that by (simp add: eq)
    moreover have "as_pool s = p" unfolding eq using fold_pool [of "sweep_settled_one env managed" pods "fresh_state p"] settled_sweep_deleted by simp
    ultimately show ?thesis by blast
  next
    case False
    then have "s = fresh_state p" using assms(1) by (auto simp: SweepSettledRunOwned_def split: if_splits sum.splits)
    then show ?thesis by simp
  qed
  obtain pods where eq: "t = fold (sweep_terminal_one env ?orc) pods (fresh_state p)"
    using assms(2) by (auto simp: SweepTerminalRunOwned_def split: sum.splits)
  have "\<And>pod s. \<exists>ds. as_deleted (sweep_terminal_one env ?orc pod s) = as_deleted s @ ds \<and>
      (\<forall>d \<in> set ds. d = pod \<and> runIDFromPod pod \<noteq> [] \<and> ?orc (runIDFromPod pod) = Inr True)" using terminal_sweep_deleted by blast
  from fold_deleted [of "sweep_terminal_one env ?orc" "\<lambda>d. runIDFromPod d \<noteq> [] \<and> ?orc (runIDFromPod d) = Inr True", OF this]
  have t: "runIDFromPod d \<noteq> [] \<and> ?orc (runIDFromPod d) = Inr True" if "d \<in> set (as_deleted t)" for d
    using that unfolding eq by fastforce
  have listed: "run_listed run rs = List.find (\<lambda>r. lr_UID r = run) rs" for run rs by (induction rs) auto
  have "\<exists>rs. runs (runIDFromPod d) = Inr rs \<and>
       (case List.find (\<lambda>r. lr_UID r = runIDFromPod d) rs of None \<Rightarrow> True | Some r \<Rightarrow> lr_Phase r \<in> {''Succeeded'', ''Failed'', ''Cancelled''})"
    if "d \<in> set (as_deleted t)" for d
    using t [OF that] assms(3) by (auto simp: TerminalOrGone_def listed split: sum.splits option.splits if_splits)
  moreover have "as_pool t = p" using fold_pool [of "sweep_terminal_one env ?orc" pods "fresh_state p"] terminal_sweep_deleted unfolding eq by simp
  ultimately show ?thesis using s by blast
qed

section \<open>Demonstrations\<close>

definition demo_key :: PoolKey where
  "demo_key = \<lparr>RuntimeClass = [], Image = ''img'', Namespace = ''ns'', CapabilityHash = [], ProjectPVC = []\<rparr>"

definition demo_pod :: "string \<Rightarrow> string \<Rightarrow> instant \<Rightarrow> string \<Rightarrow> sandbox_pod" where
  "demo_pod nm img created run = \<lparr>sp_Name = nm, sp_Namespace = ''ns'', sp_Ann = [(AnnPoolRuntimeClass, []), (AnnPoolImage, img), (AnnPoolNamespace, ''ns''),
     (AnnPoolCapabilityHash, []), (AnnPoolProjectPVC, []), (AnnRunID, run)], sp_Deleting = False, sp_Created = created, sp_Conditions = [(''Ready'', True, Some 3)]\<rparr>"

definition demo_restart :: adopt_env where
  "demo_restart = \<lparr>ae_pods = Inr [demo_pod ''b'' ''img'' 2 [], demo_pod ''a'' ''img'' 1 [], demo_pod ''c'' ''old'' 3 ''r''],
     ae_secret = (\<lambda>pod. if runIDFromPod pod = [] then AnswerNotFound else AnswerOk), ae_delete = (\<lambda>_. AnswerOk),
     ae_settled = Some (\<lambda>_. Inr False), ae_following = Some (\<lambda>_. True), ae_now = (\<lambda>_. 9)\<rparr>"

lemma demo_restart_pods: "ae_pods demo_restart = Inr [demo_pod ''b'' ''img'' 2 [], demo_pod ''a'' ''img'' 1 [], demo_pod ''c'' ''old'' 3 ''r'']"
  "distinct (map sp_Name [demo_pod ''b'' ''img'' 2 [], demo_pod ''a'' ''img'' 1 [], demo_pod ''c'' ''old'' 3 ''r''])"
  by (simp_all add: demo_restart_def demo_pod_def)

theorem adoption_exact_witness:
  "\<exists>s. AdoptOrReap demo_restart [demo_key] (NewPool True) = Inr s \<and> ready (as_pool s) demo_key = [''a'', ''b'']"
proof -
  obtain s where s: "AdoptOrReap demo_restart [demo_key] (NewPool True) = Inr s" by (simp add: AdoptOrReap_def demo_restart_def)
  have "map sp_Name (filter (adoptable demo_restart [demo_key] demo_key) (sort_key sp_Created [demo_pod ''b'' ''img'' 2 [], demo_pod ''a'' ''img'' 1 [], demo_pod ''c'' ''old'' 3 ''r''])) = [''a'', ''b'']"
    by code_simp
  then show ?thesis using adoption_exact [OF s demo_restart_pods] s by simp
qed

theorem sweeps_reap_only_finished_witness:
  "\<exists>s t. SweepSettledRunOwned demo_restart [demo_key] (NewPool True) = Inr s \<and>
     SweepTerminalRunOwned demo_restart (Some (\<lambda>run. TerminalOrGone \<lparr>lv_Reader = True, lv_findCond = (\<lambda>_ _. None)\<rparr> (Inr []) run)) (NewPool True) = Inr t \<and>
     as_pool t = NewPool True \<and> map sp_Name (as_deleted t) = [''c'']"
proof -
  let ?l = "\<lparr>lv_Reader = True, lv_findCond = (\<lambda>_ _. None)\<rparr>"
  obtain s where s: "SweepSettledRunOwned demo_restart [demo_key] (NewPool True) = Inr s" by (simp add: SweepSettledRunOwned_def demo_restart_def)
  obtain t where t: "SweepTerminalRunOwned demo_restart (Some (\<lambda>run. TerminalOrGone ?l (Inr []) run)) (NewPool True) = Inr t"
    by (simp add: SweepTerminalRunOwned_def demo_restart_def)
  have "map_sum id (\<lambda>t. map sp_Name (as_deleted t)) (SweepTerminalRunOwned demo_restart (Some (\<lambda>run. TerminalOrGone ?l (Inr []) run)) (NewPool True)) = Inr [''c'']"
    by code_simp
  then have "map sp_Name (as_deleted t) = [''c'']" by (simp add: t)
  then show ?thesis using sweeps_reap_only_finished [OF s t] s t by auto
qed

section \<open>Gaps\<close>

text \<open>A pod of an unmanaged key is deleted although a Run has claimed it and its task has not settled.\<close>

lemma claimed_pod_of_other_key_deleted:
  "\<exists>s. AdoptOrReap demo_restart [demo_key] (NewPool True) = Inr s \<and> map sp_Name (as_deleted s) = [''c''] \<and>
     ae_secret demo_restart (demo_pod ''c'' ''old'' 3 ''r'') = AnswerOk \<and> \<not> leaked demo_restart (demo_pod ''c'' ''old'' 3 ''r'')"
proof -
  have "map_sum id (\<lambda>s. map sp_Name (as_deleted s)) (AdoptOrReap demo_restart [demo_key] (NewPool True)) = Inr [''c'']" by code_simp
  moreover have "ae_secret demo_restart (demo_pod ''c'' ''old'' 3 ''r'') = AnswerOk" by code_simp
  ultimately show ?thesis by (auto simp: leaked_def demo_restart_def AdoptOrReap_def)
qed

end
