(* ===== verification/Spec2Isabelle.thy ===== *)
theory Spec2Isabelle
  imports Failover Sweeper Prod_Resume Prod_Reroute Prod_Interleaving Cred_Pause Pool_Interleaving Work_Gaps
    Memory_Recall Operator_Steps Warm_Adopt
begin

text \<open>
  A verification development for the coordination core of K8squad, the Kubernetes operator that
  runs squads of agents. The program keeps work items on a board, lets agents check an item out
  under a lease with a monotonically growing fence token, drives each checked-out Run through a
  small durable state machine whose phases perform external effects (bind a sandbox, dispatch an
  agent, collect its result, mark the Run terminal), and publishes what it did through an outbox.
  Everything that must survive a crash is a row in Postgres; everything a process does is a short
  transaction guarded by what the row says.

  \<^bold>\<open>Parts of the program and the theories that model them.\<close>

  \<^item> pkg/reconcile/machine.go, outcome.go: the step vocabulary, the classification of steps, the
    phases, the drive loop. Theory \<open>Reconcile_Machine\<close> (\<open>Step\<close>, \<open>Classify\<close>, \<open>PhaseOf\<close>,
    \<open>LifecycleEventsFor\<close>, \<open>runPhase\<close>, \<open>Reconcile\<close>, \<open>OutcomeFrom\<close>). The loop may run for ever
    without a pass bound, so it is a partial function into option. \<open>Reconcile_Store\<close> states the
    contract between the loop and a store as the locale \<open>reconcile_store\<close>.
  \<^item> pkg/reconcile/memstore.go: \<open>Mem_Store\<close>, the in-memory store and the recording world, the
    first instance of that contract. \<open>Failover\<close> puts several leaders, zombies, crashes and
    reclaims on one store and world as a step relation and proves what survives.
  \<^item> pkg/coord/coord.go: \<open>Coord_Spine\<close>, the claim spine (claim, acquire, renew, complete, dispatch
    marker, re-drive, fenced reclaim), and pkg/coord/sweeper.go: \<open>Sweeper\<close>, the background
    reclaim of lapsed claims. \<open>Fenced_Claims\<close> states what fencing promises as the locale
    \<open>fenced_claims\<close>, for any set of operations on any tables.
  \<^item> pkg/coord/resume.go: \<open>Resume_Ledger\<close>, the rate-limit pause ledger, its back-off in Go's 64-bit
    arithmetic (\<open>Go_Arith\<close>) and the wake loop. \<open>Wake_Source\<close> states the ledger's contract as the
    locales \<open>wake_source\<close> and \<open>wake_history\<close>; pkg/coord/resumeprod.go (\<open>Prod_Resume\<close>) and
    pkg/coord/credpause.go (\<open>Cred_Pause\<close>) are its other two instances.
  \<^item> the production schema: \<open>Prod_Db\<close> (claims, work items, audit log, outbox, dispatch laps,
    comments). On it, pkg/coord/prodclaim.go and prodheartbeat.go (\<open>Prod_Claim\<close>), prodreconcile.go
    and a2asettle.go (\<open>Prod_Reconcile\<close>, the second instance of \<open>reconcile_store\<close>), cancelprod.go
    (\<open>Prod_Cancel\<close>), humanstate.go and settle.go (\<open>Prod_Board\<close>), credsignal.go (\<open>Cred_Pause\<close>).
    \<open>Prod_Custody\<close> composes all of them into one step relation, the second instance of
    \<open>fenced_claims\<close>. \<open>Prod_Reroute\<close> (prodreroute.go) adds the release of a rate-limited item with
    its hold and the claims that present a credential, the third instance.
  \<^item> pkg/coord/prodeffects.go: \<open>Prod_Effects\<close>, the effects of a phase (bind, dispatch, collect,
    terminal) with their markers and audit rows; the ports they call (binder, dispatcher,
    snapshotter, credential writer, observer) are functions that may refuse. \<open>Shared_Drive\<close> runs
    the drive loop on a store and effects that share one database, \<open>Prod_Drive\<close> puts the
    production store and effects together. \<open>Prod_World\<close> compares undisturbed drives with the
    in-memory world, \<open>Prod_Interleaving\<close> shows that a drive with any failing statements and ports
    is a run of the interleaved system of \<open>Failover\<close>.
  \<^item> pkg/controller/rundrive, the driver that makes Runs move: \<open>Drive_Claims\<close> (store.go: acquire,
    renew, the re-entries that fence a dead attempt, the moves between the pause steps),
    \<open>Endpoint_Gate\<close> (endpoint_gate.go: the queue for the slots of a model endpoint),
    \<open>Toolcred_Gate\<close> (pkg/toolcred, pkg/capability/gate.go: which Runs may start, by the
    credentials of their project), \<open>Run_Driver\<close> (driver.go: one pass, over the tables, the resume
    ledger, the gate and the ports). What other processes do to the tables before a call of a
    pass is an argument of the pass; the drive of the machine is one call, inside which no other
    process acts. \<open>Driver_Laws\<close>, \<open>Retry_Laws\<close> and \<open>Pass_Laws\<close> hold what a pass
    promises.
  \<^item> around the driver: \<open>Heartbeat_Sweep\<close> (heartbeat.go: the claim hygiene sweep, which renews the
    leases of living Runs and releases finished, orphaned and zombie claims) with \<open>Heartbeat_Laws\<close>,
    and \<open>Run_Intake\<close> (intake.go: due items of the board become Runs, settled claims are re-armed,
    runaway items parked) with \<open>Intake_Laws\<close>. The cluster's answers are arguments, as is what others
    do before each transaction. \<open>Operator_Steps\<close> puts driver passes, sweeps and intake passes among
    the production transactions (\<open>operator_step\<close>), the fourth instance of \<open>fenced_claims\<close>.
  \<^item> pkg/warmpool/pool.go: \<open>Warm_Pool\<close>, the inventory of pre-booted sandboxes, each method split at
    its lock sections; \<open>Pool_Interleaving\<close> runs the sections in any order. \<open>Warm_Adopt\<close>
    (pkg/warmpool/adopt.go) is what a new leader does with the pods it finds, and the sweeps that
    delete leaked ones.
  \<^item> the work items: \<open>Work_Items\<close> (the schema's guards on the tree and the bounded walks of
    workitemwrite.go and workitemauthor.go), \<open>Work_Write\<close> (human create and edit),
    \<open>Work_Author\<close> (the agents' lane), \<open>Work_Dispatch\<close> (workitemdispatch.go, agentdispatch.go,
    workitemcomment.go), \<open>Prod_Handoff\<close> (prodhandoff.go, proddispatch.go). \<open>Work_Tree\<close> runs all of
    them in sequence; the locale \<open>kept_by_steps\<close> carries invariants over such runs. \<open>Work_Laws\<close>,
    \<open>Work_Custody\<close> and \<open>Work_Routing\<close> hold their properties, \<open>Work_Gaps\<close> what escapes them.
  \<^item> pkg/contextasm, what an agent is told when it starts: \<open>Context_Envelope\<close> (envelope.go,
    inject.go: elements, trust tiers, framing, token estimate), \<open>Context_Budget\<close> (budget.go),
    \<open>Context_Assembler\<close> (assembler.go: the reads, the envelope, the snapshot), \<open>Context_Laws\<close>
    (what the whole pipeline promises). The sources it reads are a record of functions. The recall
    source is also modelled: \<open>Memory_Recall\<close> (internal/memory store.go, untrusted.go, recall.go and
    pkg/controller/contextsource/source.go) has the two searches and the two recall arms, and on it
    what a resume reproduces, up to the scores \<open>Context_Resume\<close> sets aside.
    \<open>Go_Unicode\<close> has UTF-8 decoding and white space, Unicode's category tables are parameters.
  \<^item> pkg/events: \<open>Events_Outbox\<close>, event validation and capture, the subject taxonomy, the outbox
    queries and the relay, which is written against the locale \<open>outbox_store\<close>.
  \<^item> \<open>Prelude\<close>, \<open>Sql_Table\<close> and \<open>Sql_Claim\<close> hold what they share: lists and strings, tables with a
    primary key, guarded updates, and the claim of a batch of due rows. \<open>Go_Strings\<close> and
    \<open>Go_Sha256\<close> are the library functions the code uses: trimming of Unicode space, SHA-256.

  \<^bold>\<open>How state and operations correspond to the code.\<close> A table is a list of rows with a key. A
  statement is a function on tables that gives the result and the affected rows. A transaction is
  one function on the database: it takes the instants the database clock gives its statements and
  a predicate that says which of its statements fail, and returns the operation's result (an
  error, a refusal or a grant) and the database afterwards; a transaction that fails before its
  commit, or whose commit fails, leaves the database as it was. Interleavings are sequences of
  such transactions. Rows that another transaction has locked are a set argument, which SKIP
  LOCKED statements pass over. Instants and durations are integers in nanoseconds; a duration
  computed by Go keeps its 64-bit wrap-around (\<open>wrap64\<close>), and the random factor of a jitter is
  the 53-bit numerator Go's generator returns. Fences are integers. Steps are the source's
  constants, with one constructor for any other text the column may hold. A jsonb body is an
  association list. Uuids are strings; where Postgres would refuse a malformed one, the refusal is
  a statement failure. The message bus, the effects of a phase, the Go context and the resource
  layer's fencer are parameters.

  \<^bold>\<open>What the lemmas show.\<close> The failover group: whatever leaders, zombies, crashes and reclaims do,
  every effect happens at most once, the durable step never runs ahead of an effect, a current
  leader's drive completes the Run, and a drive under an old fence commits nothing; with a pass
  bound every drive returns, and without one the stuck situations are exactly described. The
  custody groups, for the spine and for the production surface: fences granted for an item only
  grow, a live lease excludes every other claimant, an old grant is refused everywhere, a grant is
  one fact across checkout, lane, audit and outbox. The production store refines the in-memory
  one, and a production drive that no other process disturbs is a run of the interleaved system,
  so the failover results hold of the state it leaves; under arbitrary statement failures it still
  moves the step only along the machine with its audit and outbox rows; the follow gate, kills, lane
  moves and settlement keep their promises. The wake groups: a paused item or credential is woken
  at most once per pause, the pending deadline is served when it is reached, holds that only a
  refresh can clear get no timer, and the jittered back-off stays within the cap and, except where
  Go's shift wraps to a small value, within its exponential envelope. The events group: subjects round-trip and delivery is at least
  once. The effects group: no durable step without its effect, no effect repeated once its marker
  is durable, a failed effect blocks the step and can be retried, with healthy statements the
  production effects are the in-memory world, and with any statements a drive is a run of the
  interleaved system. The sweeper and pool groups: a sweep takes exactly
  the lapsed claims and fences their holders; no interleaving hands a sandbox to two Runs; a
  restart makes claimable exactly the warm pods no Run has claimed, and sweeps delete only
  finished Runs' pods. The work item group: the tree stays a forest, agents stay within depth, budget and custody and
  learn nothing beyond it, items keep their shape, a dispatch is a guarded move outside custody,
  a hand-off reads back as written, and a coordinator's next item is dispatched once. The re-route
  group: a release is one fact, the released holder stays out, the throttled credential is kept
  from the item until its window has passed and any other credential gets it. The driver
  group: a pass returns, starts work only with custody, keeps the claim tables in order under
  interference, retries or fails a dead attempt, completes a kill and leaves a parked Run with a
  wake, a wake re-enters exactly the Runs it should, and a fenced attempt stays out for ever,
  whatever passes, sweeps and intake do. The sweep group: a sweep does to every claim exactly what
  it should, spares the living under any interference, keeps a living Run's claim from lapsing
  and frees a dead holder's item for the next Run. The intake group: Runs are created only for
  due items, within the limit and under fresh names, a settled item is re-armed before its next
  Run, an item past its generations is parked, and generations read back from names except where an
  agent's name reads as one. The
  gate groups: an endpoint is never over its capacity and nobody is overtaken; the go-live gate
  admits exactly the Runs whose credentials are there. The context group:
  the budget never cuts the task and fails closed, what is uncut fits, the directives
  of the structured payload do not depend on untrusted text, and a resume over the operator's
  recall reproduces the context up to relevance scores. Lemmas at the end of a theory show
  concretely where the code departs from what its comments promise.

  \<^bold>\<open>Bounds and fuel.\<close> The walks over the tree carry the source's own cap of 256 levels; no other
  definition uses fuel. \<open>Reconcile\<close> is a partial function; a bound on its
  passes is the source's own option and the theorems state both the bounded and the unbounded
  case. The heartbeat, the sweeps, intake, the relay and the wake loop are given the finite list of
  events or passes that happen, so their theorems hold for every prefix of an unbounded run.

  \<^bold>\<open>Not modelled.\<close> Query counters, metrics, traces and log lines; the LISTEN connection that only
  shortens the relay's wait; the gaps a rolled back insert leaves in an id sequence; isolation
  anomalies inside one transaction (each is atomic here, as its row locks make it); column types
  and constraints beyond the keys. Ids are in their canonical text form. The other
  packages (the apiserver and console, the Kubernetes controllers, source-control integration,
  agent shim, discussion and search, and of the memory all but its recall) are outside this
  development; so are the dispatch of
  a task to its sandbox, which is calls to the Kubernetes API and to sandboxes around the modelled
  transactions, and the read models, which move nothing.
\<close>

end
